(* ===== verification/Prelude.thy ===== *)
theory Prelude
  imports Complex_Main "HOL-Library.AList" "HOL-Library.List_Lexorder"
begin

text \<open>
  What every component of the model shares: Rust strings as lists of Unicode scalar values,
  the ASCII part of the standard string library, \<open>u64\<close>/\<open>i64\<close> arithmetic with its
  saturation written out, the standard \<open>HashMap\<close>, and the interface that the crate's
  enums with a \<open>Display\<close> and a \<open>FromStr\<close> implementation satisfy.
\<close>

named_theorems wire_simps \<open>Display and FromStr equations of the wire enums\<close>

section \<open>Strings\<close>

text \<open>
  A Rust \<open>char\<close> is a Unicode scalar value, here its number; a \<open>String\<close> or \<open>&str\<close> is
  the list of its \<open>char\<close>s. ASCII literals are written \<open>lit ''abc''\<close>.
\<close>

type_synonym rchar = nat
type_synonym rstr = "rchar list"

definition lit :: "string \<Rightarrow> rstr" where
  "lit s = map of_char s"

lemma of_char_nat_inject: "(of_char c :: nat) = of_char d \<longleftrightarrow> c = d"
  by (metis char_of_char)

lemma inj_of_char_nat: "inj (of_char :: char \<Rightarrow> nat)"
  by (rule injI) (simp add: of_char_nat_inject)

lemma lit_eq_iff [simp]: "lit a = lit b \<longleftrightarrow> a = b"
  by (simp add: lit_def inj_map_eq_map [OF inj_of_char_nat])

lemma lit_eq_Nil [simp]: "lit a = [] \<longleftrightarrow> a = []" "[] = lit a \<longleftrightarrow> a = []"
  by (simp_all add: lit_def)

lemma length_lit [simp]: "length (lit a) = length a"
  by (simp add: lit_def)

lemma lit_append [simp]: "lit (a @ b) = lit a @ lit b"
  by (simp add: lit_def)

text \<open>Bytes of one \<open>char\<close> in UTF-8, and \<open>str::len\<close>, which counts bytes.\<close>

definition utf8_len :: "rchar \<Rightarrow> nat" where
  "utf8_len c = (if c < 128 then 1 else if c < 2048 then 2 else if c < 65536 then 3 else 4)"

definition str_len :: "rstr \<Rightarrow> nat" where
  "str_len s = sum_list (map utf8_len s)"

text \<open>\<open>char::is_whitespace\<close>: the Unicode property White\_Space.\<close>

definition is_whitespace :: "rchar \<Rightarrow> bool" where
  "is_whitespace c \<longleftrightarrow>
     (9 \<le> c \<and> c \<le> 13) \<or> c = 32 \<or> c = 133 \<or> c = 160 \<or> c = 5760 \<or> (8192 \<le> c \<and> c \<le> 8202) \<or>
     c = 8232 \<or> c = 8233 \<or> c = 8239 \<or> c = 8287 \<or> c = 12288"

definition trim_matches :: "(rchar \<Rightarrow> bool) \<Rightarrow> rstr \<Rightarrow> rstr" where
  "trim_matches p s = rev (dropWhile p (rev (dropWhile p s)))"

definition trim :: "rstr \<Rightarrow> rstr" where
  "trim s = trim_matches is_whitespace s"

definition is_ascii_alphabetic :: "rchar \<Rightarrow> bool" where
  "is_ascii_alphabetic c \<longleftrightarrow> (65 \<le> c \<and> c \<le> 90) \<or> (97 \<le> c \<and> c \<le> 122)"

definition is_ascii_digit :: "rchar \<Rightarrow> bool" where
  "is_ascii_digit c \<longleftrightarrow> 48 \<le> c \<and> c \<le> 57"

definition ascii_lower :: "rchar \<Rightarrow> rchar" where
  "ascii_lower c = (if 65 \<le> c \<and> c \<le> 90 then c + 32 else c)"

definition to_ascii_lowercase :: "rstr \<Rightarrow> rstr" where
  "to_ascii_lowercase s = map ascii_lower s"

definition eq_ignore_ascii_case :: "rstr \<Rightarrow> rstr \<Rightarrow> bool" where
  "eq_ignore_ascii_case a b \<longleftrightarrow> to_ascii_lowercase a = to_ascii_lowercase b"

text \<open>\<open>str::starts_with\<close>, \<open>str::ends_with\<close> and \<open>str::contains\<close> for a string pattern.\<close>

fun starts_with :: "rstr \<Rightarrow> rstr \<Rightarrow> bool" where
  "starts_with s [] = True"
| "starts_with [] (p # ps) = False"
| "starts_with (c # s) (p # ps) = (c = p \<and> starts_with s ps)"

definition ends_with :: "rstr \<Rightarrow> rstr \<Rightarrow> bool" where
  "ends_with s p = starts_with (rev s) (rev p)"

fun contains :: "rstr \<Rightarrow> rstr \<Rightarrow> bool" where
  "contains [] p = (p = [])"
| "contains (c # s) p = (starts_with (c # s) p \<or> contains s p)"

text \<open>
  \<open>str::replace\<close> with a non-empty pattern: leftmost, non-overlapping occurrences. The
  counter is how many characters of the match just replaced are still to be skipped.
\<close>

fun replace_skip :: "nat \<Rightarrow> rstr \<Rightarrow> rstr \<Rightarrow> rstr \<Rightarrow> rstr" where
  "replace_skip k [] p r = []"
| "replace_skip (Suc k) (c # s) p r = replace_skip k s p r"
| "replace_skip 0 (c # s) p r =
     (if starts_with (c # s) p then r @ replace_skip (length p - 1) s p r
      else c # replace_skip 0 s p r)"

definition replace :: "rstr \<Rightarrow> rstr \<Rightarrow> rstr \<Rightarrow> rstr" where
  "replace s p r = replace_skip 0 s p r"

text \<open>\<open>str::split\<close> on one \<open>char\<close>: always at least one part.\<close>

fun split_char :: "rchar \<Rightarrow> rstr \<Rightarrow> rstr list" where
  "split_char d [] = [[]]"
| "split_char d (c # s) =
     (if c = d then [] # split_char d s
      else (case split_char d s of [] \<Rightarrow> [[c]] | p # ps \<Rightarrow> (c # p) # ps))"

fun join_with :: "rstr \<Rightarrow> rstr list \<Rightarrow> rstr" where
  "join_with sep [] = []"
| "join_with sep [s] = s"
| "join_with sep (s # t # ts) = s @ sep @ join_with sep (t # ts)"

lemma starts_with_iff: "starts_with s p \<longleftrightarrow> (\<exists>t. s = p @ t)"
  by (induction s p rule: starts_with.induct) auto

lemma starts_with_refl_append [simp]: "starts_with (p @ t) p"
  by (auto simp: starts_with_iff)

lemma split_char_nonempty [simp]: "split_char d s \<noteq> []"
  by (cases s) (auto split: list.splits)

lemma join_split_char: "join_with [d] (split_char d s) = s"
proof (induction s)
  case Nil
  then show ?case by simp
next
  case (Cons c s)
  obtain p ps where ps: "split_char d s = p # ps"
    using split_char_nonempty by (meson neq_Nil_conv)
  show ?case using Cons ps by (cases ps) auto
qed

lemma split_char_no_sep: "p \<in> set (split_char d s) \<Longrightarrow> d \<notin> set p"
  by (induction s arbitrary: p) (auto split: list.splits if_splits)

lemma trim_lit_blank: "trim [] = []"
  by (simp add: trim_def trim_matches_def)

lemma ascii_lower_idem [simp]: "ascii_lower (ascii_lower c) = ascii_lower c"
  by (simp add: ascii_lower_def)

lemma to_ascii_lowercase_idem [simp]:
  "to_ascii_lowercase (to_ascii_lowercase s) = to_ascii_lowercase s"
  by (simp add: to_ascii_lowercase_def)

lemma length_to_ascii_lowercase [simp]: "length (to_ascii_lowercase s) = length s"
  by (simp add: to_ascii_lowercase_def)

text \<open>\<open>Display\<close> of an unsigned integer: decimal digits, most significant first.\<close>

fun show_nat :: "nat \<Rightarrow> rstr" where
  "show_nat n = (if n < 10 then [48 + n] else show_nat (n div 10) @ [48 + n mod 10])"

declare show_nat.simps [simp del]

section \<open>Machine integers\<close>

text \<open>
  Unsigned values are naturals below \<open>2^64\<close> (\<open>u64\<close>, \<open>usize\<close>); the operations the
  code uses with a defined overflow are written out. \<open>Iterator::sum\<close> wraps in a release
  build, the only build whose behaviour on overflow is not a panic.
\<close>

definition u64_max :: nat where
  "u64_max = 2 ^ 64 - 1"

definition sat_mul :: "nat \<Rightarrow> nat \<Rightarrow> nat" where
  "sat_mul a b = min (a * b) u64_max"

definition sat_add :: "nat \<Rightarrow> nat \<Rightarrow> nat" where
  "sat_add a b = min (a + b) u64_max"

definition sat_sub :: "nat \<Rightarrow> nat \<Rightarrow> nat" where
  "sat_sub a b = (if a < b then 0 else a - b)"

definition wrap_sum :: "nat list \<Rightarrow> nat" where
  "wrap_sum xs = sum_list xs mod 2 ^ 64"

lemma sat_sub_minus [simp]: "sat_sub a b = a - b"
  by (simp add: sat_sub_def)

lemma sat_mul_le: "sat_mul a b \<le> a * b" "sat_mul a b \<le> u64_max"
  by (simp_all add: sat_mul_def)

lemma sat_mul_mono: "b \<le> c \<Longrightarrow> sat_mul a b \<le> sat_mul a c"
  unfolding sat_mul_def by (rule min.mono) (auto intro: mult_le_mono2)

lemma wrap_sum_small: "sum_list xs < 2 ^ 64 \<Longrightarrow> wrap_sum xs = sum_list xs"
  by (simp add: wrap_sum_def)

definition i64_min :: int where
  "i64_min = - (2 ^ 63)"

definition i64_max :: int where
  "i64_max = 2 ^ 63 - 1"

section \<open>The standard HashMap\<close>

text \<open>
  A \<open>HashMap\<close> is an association list with distinct keys. The order in which the real map
  iterates is unspecified; the model fixes one order, and no property depends on it.
\<close>

type_synonym ('k, 'v) hmap = "('k \<times> 'v) list"

definition hm_get :: "('k, 'v) hmap \<Rightarrow> 'k \<Rightarrow> 'v option" where
  "hm_get m k = map_of m k"

definition hm_insert :: "'k \<Rightarrow> 'v \<Rightarrow> ('k, 'v) hmap \<Rightarrow> ('k, 'v) hmap" where
  "hm_insert k v m = AList.update k v m"

definition hm_remove :: "'k \<Rightarrow> ('k, 'v) hmap \<Rightarrow> ('k, 'v) hmap" where
  "hm_remove k m = AList.delete k m"

text \<open>\<open>get_mut\<close> followed by an assignment through the reference.\<close>

definition hm_modify :: "'k \<Rightarrow> ('v \<Rightarrow> 'v) \<Rightarrow> ('k, 'v) hmap \<Rightarrow> ('k, 'v) hmap" where
  "hm_modify k f m = AList.map_entry k f m"

definition hm_values :: "('k, 'v) hmap \<Rightarrow> 'v list" where
  "hm_values m = map snd m"

text \<open>A loop over \<open>values_mut\<close>.\<close>

definition hm_map_values :: "('v \<Rightarrow> 'v) \<Rightarrow> ('k, 'v) hmap \<Rightarrow> ('k, 'v) hmap" where
  "hm_map_values f m = map (\<lambda>(k, v). (k, f v)) m"

definition hm_wf :: "('k, 'v) hmap \<Rightarrow> bool" where
  "hm_wf m \<longleftrightarrow> distinct (map fst m)"

text \<open>The part of the map interface the job registry relies on.\<close>

locale keyed_store =
  fixes get :: "'m \<Rightarrow> 'k \<Rightarrow> 'v option"
    and put :: "'k \<Rightarrow> 'v \<Rightarrow> 'm \<Rightarrow> 'm"
    and remove :: "'k \<Rightarrow> 'm \<Rightarrow> 'm"
    and modify :: "'k \<Rightarrow> ('v \<Rightarrow> 'v) \<Rightarrow> 'm \<Rightarrow> 'm"
    and wf :: "'m \<Rightarrow> bool"
  assumes get_put: "get (put k v m) j = (if j = k then Some v else get m j)"
    and get_remove: "wf m \<Longrightarrow> get (remove k m) j = (if j = k then None else get m j)"
    and get_modify: "get (modify k f m) j = (if j = k then map_option f (get m j) else get m j)"
    and wf_put: "wf m \<Longrightarrow> wf (put k v m)"
    and wf_remove: "wf m \<Longrightarrow> wf (remove k m)"
    and wf_modify: "wf m \<Longrightarrow> wf (modify k f m)"
begin

lemma modify_absent: "get m k = None \<Longrightarrow> get (modify k f m) j = get m j"
  by (simp add: get_modify)

lemma modify_present: "get m k = Some v \<Longrightarrow> get (modify k f m) k = Some (f v)"
  by (simp add: get_modify)

lemma modify_other: "j \<noteq> k \<Longrightarrow> get (modify k f m) j = get m j"
  by (simp add: get_modify)

lemma put_then_remove: "wf m \<Longrightarrow> get (remove k (put k v m)) k = None"
  by (simp add: get_remove wf_put)

lemma modify_keeps_all:
  assumes "\<And>j v. get m j = Some v \<Longrightarrow> P j v"
    and "\<And>v. get m k = Some v \<Longrightarrow> P k v \<Longrightarrow> P k (f v)"
    and "get (modify k f m) j = Some w"
  shows "P j w"
  using assms by (auto simp: get_modify split: if_splits)

text \<open>A symmetric relation between the values of distinct keys, under one update.\<close>

lemma modify_keeps_pairwise:
  assumes "\<And>a b x y. get m a = Some x \<Longrightarrow> get m b = Some y \<Longrightarrow> a \<noteq> b \<Longrightarrow> R x y"
    and "\<And>x y. R x y \<Longrightarrow> R y x"
    and "\<And>v y. get m k = Some v \<Longrightarrow> R v y \<Longrightarrow> R (f v) y"
    and "get (modify k f m) a = Some x" and "get (modify k f m) b = Some y" and "a \<noteq> b"
  shows "R x y"
proof (cases "a = k")
  case True
  with assms(4-6) obtain v where v: "get m k = Some v" "x = f v" "get m b = Some y"
    by (auto simp: get_modify)
  with True assms(1) [of k v b y] assms(3) [of v y] assms(6) show ?thesis by simp
next
  case False
  then have a: "get m a = Some x" using assms(4) by (simp add: get_modify)
  show ?thesis
  proof (cases "b = k")
    case True
    with assms(5) obtain v where v: "get m k = Some v" "y = f v"
      by (auto simp: get_modify)
    with True a assms(1) [of k v a x] assms(3) [of v x] assms(6) assms(2) show ?thesis by simp
  next
    case False
    with assms(5) have "get m b = Some y" by (simp add: get_modify)
    with a assms(1,6) show ?thesis by blast
  qed
qed

lemma put_keeps_pairwise:
  assumes "\<And>a b x y. get m a = Some x \<Longrightarrow> get m b = Some y \<Longrightarrow> a \<noteq> b \<Longrightarrow> R x y"
    and "\<And>x y. R x y \<Longrightarrow> R y x"
    and "\<And>b y. get m b = Some y \<Longrightarrow> R v y"
    and "get (put k v m) a = Some x" and "get (put k v m) b = Some y" and "a \<noteq> b"
  shows "R x y"
  using assms by (cases "a = k"; cases "b = k") (auto simp: get_put)

end

lemma map_of_map_entry_conv:
  "map_of (AList.map_entry k f m) j = (if j = k then map_option f (map_of m j) else map_of m j)"
  by (induction m) auto

lemma keys_map_entry [simp]: "map fst (AList.map_entry k f m) = map fst m"
  by (induction m) auto

interpretation hmap_store: keyed_store hm_get hm_insert hm_remove hm_modify hm_wf
  by unfold_locales
    (auto simp: hm_get_def hm_insert_def hm_remove_def hm_modify_def hm_wf_def update_conv'
      delete_conv' distinct_update distinct_delete map_of_map_entry_conv)

lemma hm_wf_map_values [simp]: "hm_wf (hm_map_values f m) = hm_wf m"
  by (simp add: hm_wf_def hm_map_values_def case_prod_beta comp_def)

lemma hm_get_map_values: "hm_get (hm_map_values f m) k = map_option f (hm_get m k)"
  by (induction m) (auto simp: hm_get_def hm_map_values_def)

lemma hm_values_map_values: "hm_values (hm_map_values f m) = map f (hm_values m)"
  by (simp add: hm_values_def hm_map_values_def case_prod_beta comp_def)

lemma hm_get_in_values: "hm_get m k = Some v \<Longrightarrow> v \<in> set (hm_values m)"
  by (induction m) (auto simp: hm_get_def hm_values_def split: if_splits)

lemma hm_values_get: "hm_wf m \<Longrightarrow> v \<in> set (hm_values m) \<Longrightarrow> \<exists>k. hm_get m k = Some v"
  by (auto simp: hm_wf_def hm_values_def hm_get_def)

lemma hm_modify_absent: "hm_get m k = None \<Longrightarrow> hm_modify k f m = m"
  unfolding hm_modify_def hm_get_def by (induction m) auto

lemma hm_get_Nil [simp]: "hm_get [] k = None"
  by (simp add: hm_get_def)

lemma hm_length_modify [simp]: "length (hm_modify k f m) = length m"
  unfolding hm_modify_def by (induction m) auto

text \<open>How one update of the map changes a count over its values.\<close>

definition hm_count :: "('v \<Rightarrow> bool) \<Rightarrow> ('k, 'v) hmap \<Rightarrow> nat" where
  "hm_count P m = length (filter P (hm_values m))"

lemma hm_count_le: "hm_count P m \<le> length m"
  unfolding hm_count_def hm_values_def by (metis length_filter_le length_map)

lemma hm_count_map_values: "hm_count P (hm_map_values f m) = hm_count (\<lambda>v. P (f v)) m"
  by (simp add: hm_count_def hm_values_map_values filter_map comp_def)

lemma hm_count_mono: "(\<And>v. P v \<Longrightarrow> Q v) \<Longrightarrow> hm_count P m \<le> hm_count Q m"
  unfolding hm_count_def by (induction m) (auto simp: hm_values_def)

lemma hm_count_modify:
  assumes "hm_wf m" and "hm_get m k = Some v"
  shows "hm_count P (hm_modify k f m) + (if P v then 1 else 0) =
    hm_count P m + (if P (f v) then 1 else 0)"
  using assms
proof (induction m)
  case Nil
  then show ?case by simp
next
  case (Cons e m)
  obtain j w where e: "e = (j, w)" by (cases e)
  show ?case
  proof (cases "j = k")
    case True
    with Cons.prems e have "k \<notin> fst ` set m" and "w = v"
      by (auto simp: hm_wf_def hm_get_def)
    then have "AList.map_entry k f m = m" by (induction m) auto
    with True e \<open>w = v\<close> show ?thesis
      by (simp add: hm_count_def hm_values_def hm_modify_def)
  next
    case False
    with Cons e show ?thesis
      by (auto simp: hm_wf_def hm_get_def hm_count_def hm_values_def hm_modify_def)
  qed
qed

section \<open>The standard BTreeMap\<close>

text \<open>
  A \<open>BTreeMap\<close> is an association list with strictly increasing keys, the order in which it
  iterates. The order of strings is the lexicographic order of their code points, which UTF-8
  makes the order of their bytes. It satisfies the same interface as the hash map.
\<close>

fun bt_insert :: "'k::linorder \<Rightarrow> 'v \<Rightarrow> ('k, 'v) hmap \<Rightarrow> ('k, 'v) hmap" where
  "bt_insert k v [] = [(k, v)]"
| "bt_insert k v ((j, w) # m) =
     (if k < j then (k, v) # (j, w) # m
      else if k = j then (k, v) # m
      else (j, w) # bt_insert k v m)"

definition bt_wf :: "('k::linorder, 'v) hmap \<Rightarrow> bool" where
  "bt_wf m \<longleftrightarrow> sorted_wrt (<) (map fst m)"

lemma bt_wf_hm_wf: "bt_wf m \<Longrightarrow> hm_wf m"
  by (simp add: bt_wf_def hm_wf_def strict_sorted_iff)

lemma fst_bt_insert: "fst ` set (bt_insert k v m) = insert k (fst ` set m)"
  by (induction k v m rule: bt_insert.induct) auto

lemma bt_wf_insert: "bt_wf m \<Longrightarrow> bt_wf (bt_insert k v m)"
proof (induction k v m rule: bt_insert.induct)
  case (1 k v)
  then show ?case by (simp add: bt_wf_def)
next
  case (2 k v j w m)
  have "set (map fst (bt_insert k v m)) = insert k (set (map fst m))"
    using fst_bt_insert [of k v m] by simp
  with 2 show ?case
    by (auto simp: bt_wf_def simp del: set_map)
qed

lemma bt_get_insert: "hm_get (bt_insert k v m) j = (if j = k then Some v else hm_get m j)"
  by (induction k v m rule: bt_insert.induct) (auto simp: hm_get_def)

lemma bt_wf_remove: "bt_wf m \<Longrightarrow> bt_wf (hm_remove k m)"
  unfolding hm_remove_def bt_wf_def AList.delete_eq
  by (induction m) (auto split: if_splits)

interpretation btree_store: keyed_store hm_get bt_insert hm_remove hm_modify bt_wf
  by unfold_locales
    (simp_all add: bt_get_insert bt_wf_insert bt_wf_remove bt_wf_hm_wf hmap_store.get_remove
      hmap_store.get_modify, simp add: bt_wf_def hm_modify_def)

section \<open>Enums with a textual form\<close>

text \<open>
  Several enums are persisted and sent as text: their \<open>Display\<close> implementation writes a
  fixed word, their \<open>FromStr\<close> implementation accepts exactly those words. The laws are
  the interface between the enums and the code that stores and reloads them.
\<close>

locale wire_enum =
  fixes display :: "'a \<Rightarrow> rstr"
    and from_str :: "rstr \<Rightarrow> rstr + 'a"
  assumes parse_display: "from_str (display x) = Inr x"
    and display_parse: "from_str s = Inr x \<Longrightarrow> display x = s"
begin

lemma display_inject: "display x = display y \<longleftrightarrow> x = y"
  by (metis parse_display sum.inject(2))

lemma parse_accepts_iff: "(\<exists>x. from_str s = Inr x) \<longleftrightarrow> s \<in> range display"
  using parse_display display_parse by (metis image_iff rangeI)

lemma parse_rejects_iff: "(\<exists>e. from_str s = Inl e) \<longleftrightarrow> s \<notin> range display"
  using parse_accepts_iff [of s] by (cases "from_str s") (auto simp: parse_display)

end

end
