(* ===== verification/Status.thy ===== *)
theory Status
  imports Prelude
begin

text \<open>
  Job, file and progress-stage lifecycle enums (\<open>types/status.rs\<close>): the states, their
  predicates, and the textual forms under which they are persisted and published.
\<close>

section \<open>Job status\<close>

datatype JobStatus =
  JobQueued | JobRunning | JobCompleted | JobFailed | JobCancelled | JobInterrupted

fun job_is_terminal :: "JobStatus \<Rightarrow> bool" where
  "job_is_terminal JobCompleted = True"
| "job_is_terminal JobFailed = True"
| "job_is_terminal JobCancelled = True"
| "job_is_terminal JobInterrupted = True"
| "job_is_terminal _ = False"

fun job_is_active :: "JobStatus \<Rightarrow> bool" where
  "job_is_active JobQueued = True"
| "job_is_active JobRunning = True"
| "job_is_active _ = False"

definition job_can_cancel :: "JobStatus \<Rightarrow> bool" where
  "job_can_cancel s = job_is_active s"

fun job_can_restart :: "JobStatus \<Rightarrow> bool" where
  "job_can_restart JobCancelled = True"
| "job_can_restart JobFailed = True"
| "job_can_restart _ = False"

fun job_status_display :: "JobStatus \<Rightarrow> rstr" where
  "job_status_display JobQueued = lit ''queued''"
| "job_status_display JobRunning = lit ''running''"
| "job_status_display JobCompleted = lit ''completed''"
| "job_status_display JobFailed = lit ''failed''"
| "job_status_display JobCancelled = lit ''cancelled''"
| "job_status_display JobInterrupted = lit ''interrupted''"

definition job_status_from_str :: "rstr \<Rightarrow> rstr + JobStatus" where
  "job_status_from_str s =
     (if s = lit ''queued'' then Inr JobQueued
      else if s = lit ''running'' then Inr JobRunning
      else if s = lit ''completed'' then Inr JobCompleted
      else if s = lit ''failed'' then Inr JobFailed
      else if s = lit ''cancelled'' then Inr JobCancelled
      else if s = lit ''interrupted'' then Inr JobInterrupted
      else Inl (lit ''unknown JobStatus: '' @ s))"

lemma job_active_iff_not_terminal: "job_is_active s \<longleftrightarrow> \<not> job_is_terminal s"
  by (cases s) auto

lemma job_can_restart_terminal: "job_can_restart s \<Longrightarrow> job_is_terminal s"
  by (cases s) auto

interpretation job_status_wire: wire_enum job_status_display job_status_from_str
proof
  show "job_status_from_str (job_status_display x) = Inr x" for x
    by (cases x) (simp_all add: job_status_from_str_def)
  show "job_status_from_str s = Inr x \<Longrightarrow> job_status_display x = s" for s x
    by (auto simp: job_status_from_str_def split: if_splits)
qed

section \<open>File status\<close>

datatype FileStatusKind =
  FileQueued | FileProcessing | FileDone | FileError | FileInterrupted

fun file_is_terminal :: "FileStatusKind \<Rightarrow> bool" where
  "file_is_terminal FileDone = True"
| "file_is_terminal FileError = True"
| "file_is_terminal _ = False"

fun file_is_resumable :: "FileStatusKind \<Rightarrow> bool" where
  "file_is_resumable FileInterrupted = True"
| "file_is_resumable FileProcessing = True"
| "file_is_resumable FileQueued = True"
| "file_is_resumable _ = False"

fun file_status_display :: "FileStatusKind \<Rightarrow> rstr" where
  "file_status_display FileQueued = lit ''queued''"
| "file_status_display FileProcessing = lit ''processing''"
| "file_status_display FileDone = lit ''done''"
| "file_status_display FileError = lit ''error''"
| "file_status_display FileInterrupted = lit ''interrupted''"

definition file_status_from_str :: "rstr \<Rightarrow> rstr + FileStatusKind" where
  "file_status_from_str s =
     (if s = lit ''queued'' then Inr FileQueued
      else if s = lit ''processing'' then Inr FileProcessing
      else if s = lit ''done'' then Inr FileDone
      else if s = lit ''error'' then Inr FileError
      else if s = lit ''interrupted'' then Inr FileInterrupted
      else Inl (lit ''unknown FileStatusKind: '' @ s))"

lemma file_resumable_iff_not_terminal: "file_is_resumable s \<longleftrightarrow> \<not> file_is_terminal s"
  by (cases s) auto

lemma file_terminal_cases: "file_is_terminal s \<longleftrightarrow> s = FileDone \<or> s = FileError"
  by (cases s) auto

interpretation file_status_wire: wire_enum file_status_display file_status_from_str
proof
  show "file_status_from_str (file_status_display x) = Inr x" for x
    by (cases x) (simp_all add: file_status_from_str_def)
  show "file_status_from_str s = Inr x \<Longrightarrow> file_status_display x = s" for s x
    by (auto simp: file_status_from_str_def split: if_splits)
qed

section \<open>Progress stage\<close>

datatype FileProgressStage =
  StProcessing | StReading | StResolvingAudio | StRecoveringUtteranceTiming
| StRecoveringTimingFallback | StAligning | StTranscribing | StBenchmarking | StCheckingCache
| StApplyingResults | StPostProcessing | StBuildingChat | StSegmentingUtterances
| StAnalyzingMorphosyntax | StFinalizing | StWriting | StParsing | StAnalyzing | StSegmenting
| StTranslating | StResolvingCoreference | StComparing | StRetryScheduled

fun stage_label :: "FileProgressStage \<Rightarrow> rstr" where
  "stage_label StProcessing = lit ''Processing''"
| "stage_label StReading = lit ''Reading''"
| "stage_label StResolvingAudio = lit ''Resolving audio''"
| "stage_label StRecoveringUtteranceTiming = lit ''Recovering utterance timing''"
| "stage_label StRecoveringTimingFallback = lit ''Recovering timing (fallback)''"
| "stage_label StAligning = lit ''Aligning''"
| "stage_label StTranscribing = lit ''Transcribing''"
| "stage_label StBenchmarking = lit ''Benchmarking''"
| "stage_label StCheckingCache = lit ''Checking cache''"
| "stage_label StApplyingResults = lit ''Applying results''"
| "stage_label StPostProcessing = lit ''Post-processing''"
| "stage_label StBuildingChat = lit ''Building CHAT''"
| "stage_label StSegmentingUtterances = lit ''Segmenting utterances''"
| "stage_label StAnalyzingMorphosyntax = lit ''Analyzing morphosyntax''"
| "stage_label StFinalizing = lit ''Finalizing''"
| "stage_label StWriting = lit ''Writing''"
| "stage_label StParsing = lit ''Parsing''"
| "stage_label StAnalyzing = lit ''Analyzing''"
| "stage_label StSegmenting = lit ''Segmenting''"
| "stage_label StTranslating = lit ''Translating''"
| "stage_label StResolvingCoreference = lit ''Resolving coreference''"
| "stage_label StComparing = lit ''Comparing''"
| "stage_label StRetryScheduled = lit ''Retry scheduled''"

lemma stage_label_inject: "stage_label a = stage_label b \<longleftrightarrow> a = b"
  by (cases a; cases b) simp_all

end
