(* ===== verification/Scheduling.thy ===== *)
theory Scheduling
  imports Prelude
begin

text \<open>
  Control-plane vocabulary (\<open>types/scheduling.rs\<close>): work-unit kinds, failure categories,
  attempt outcomes and retry dispositions with their persisted words, and the exponential
  backoff of a retry policy.
\<close>

section \<open>Work units\<close>

datatype WorkUnitKind =
  WuFileSetup | WuFileProcess | WuFileInfer | WuFileForcedAlignment | WuBatchInfer

fun work_unit_display :: "WorkUnitKind \<Rightarrow> rstr" where
  "work_unit_display WuFileSetup = lit ''file_setup''"
| "work_unit_display WuFileProcess = lit ''file_process''"
| "work_unit_display WuFileInfer = lit ''file_infer''"
| "work_unit_display WuFileForcedAlignment = lit ''file_forced_alignment''"
| "work_unit_display WuBatchInfer = lit ''batch_infer''"

definition work_unit_from_str :: "rstr \<Rightarrow> rstr + WorkUnitKind" where
  "work_unit_from_str s =
     (if s = lit ''file_setup'' then Inr WuFileSetup
      else if s = lit ''file_process'' then Inr WuFileProcess
      else if s = lit ''file_infer'' then Inr WuFileInfer
      else if s = lit ''file_forced_alignment'' then Inr WuFileForcedAlignment
      else if s = lit ''batch_infer'' then Inr WuBatchInfer
      else Inl (lit ''unknown WorkUnitKind: '' @ s))"

interpretation work_unit_wire: wire_enum work_unit_display work_unit_from_str
proof
  show "work_unit_from_str (work_unit_display x) = Inr x" for x
    by (cases x) (simp_all add: work_unit_from_str_def)
  show "work_unit_from_str s = Inr x \<Longrightarrow> work_unit_display x = s" for s x
    by (auto simp: work_unit_from_str_def split: if_splits)
qed

section \<open>Failure categories\<close>

datatype FailureCategory =
  FcValidation | FcParseError | FcInputMissing | FcWorkerCrash | FcWorkerTimeout
| FcWorkerProtocol | FcProviderTransient | FcProviderTerminal | FcMemoryPressure | FcCancelled
| FcSystem

fun failure_category_display :: "FailureCategory \<Rightarrow> rstr" where
  "failure_category_display FcValidation = lit ''validation''"
| "failure_category_display FcParseError = lit ''parse_error''"
| "failure_category_display FcInputMissing = lit ''input_missing''"
| "failure_category_display FcWorkerCrash = lit ''worker_crash''"
| "failure_category_display FcWorkerTimeout = lit ''worker_timeout''"
| "failure_category_display FcWorkerProtocol = lit ''worker_protocol''"
| "failure_category_display FcProviderTransient = lit ''provider_transient''"
| "failure_category_display FcProviderTerminal = lit ''provider_terminal''"
| "failure_category_display FcMemoryPressure = lit ''memory_pressure''"
| "failure_category_display FcCancelled = lit ''cancelled''"
| "failure_category_display FcSystem = lit ''system''"

definition failure_category_from_str :: "rstr \<Rightarrow> rstr + FailureCategory" where
  "failure_category_from_str s =
     (if s = lit ''validation'' then Inr FcValidation
      else if s = lit ''parse_error'' then Inr FcParseError
      else if s = lit ''input_missing'' then Inr FcInputMissing
      else if s = lit ''worker_crash'' then Inr FcWorkerCrash
      else if s = lit ''worker_timeout'' then Inr FcWorkerTimeout
      else if s = lit ''worker_protocol'' then Inr FcWorkerProtocol
      else if s = lit ''provider_transient'' then Inr FcProviderTransient
      else if s = lit ''provider_terminal'' then Inr FcProviderTerminal
      else if s = lit ''memory_pressure'' then Inr FcMemoryPressure
      else if s = lit ''cancelled'' then Inr FcCancelled
      else if s = lit ''system'' then Inr FcSystem
      else Inl (lit ''unknown FailureCategory: '' @ s))"

interpretation failure_category_wire: wire_enum failure_category_display failure_category_from_str
proof
  show "failure_category_from_str (failure_category_display x) = Inr x" for x
    by (cases x) (simp_all add: failure_category_from_str_def)
  show "failure_category_from_str s = Inr x \<Longrightarrow> failure_category_display x = s" for s x
    by (auto simp: failure_category_from_str_def split: if_splits)
qed

section \<open>Attempt outcomes\<close>

datatype AttemptOutcome =
  AoSucceeded | AoFailed | AoRetryableFailure | AoDeferred | AoCancelled

fun attempt_outcome_display :: "AttemptOutcome \<Rightarrow> rstr" where
  "attempt_outcome_display AoSucceeded = lit ''succeeded''"
| "attempt_outcome_display AoFailed = lit ''failed''"
| "attempt_outcome_display AoRetryableFailure = lit ''retryable_failure''"
| "attempt_outcome_display AoDeferred = lit ''deferred''"
| "attempt_outcome_display AoCancelled = lit ''cancelled''"

definition attempt_outcome_from_str :: "rstr \<Rightarrow> rstr + AttemptOutcome" where
  "attempt_outcome_from_str s =
     (if s = lit ''succeeded'' then Inr AoSucceeded
      else if s = lit ''failed'' then Inr AoFailed
      else if s = lit ''retryable_failure'' then Inr AoRetryableFailure
      else if s = lit ''deferred'' then Inr AoDeferred
      else if s = lit ''cancelled'' then Inr AoCancelled
      else Inl (lit ''unknown AttemptOutcome: '' @ s))"

interpretation attempt_outcome_wire: wire_enum attempt_outcome_display attempt_outcome_from_str
proof
  show "attempt_outcome_from_str (attempt_outcome_display x) = Inr x" for x
    by (cases x) (simp_all add: attempt_outcome_from_str_def)
  show "attempt_outcome_from_str s = Inr x \<Longrightarrow> attempt_outcome_display x = s" for s x
    by (auto simp: attempt_outcome_from_str_def split: if_splits)
qed

section \<open>Retry dispositions\<close>

datatype RetryDisposition =
  RdSucceed | RdTerminalFailure | RdRetry | RdDefer

fun retry_disposition_display :: "RetryDisposition \<Rightarrow> rstr" where
  "retry_disposition_display RdSucceed = lit ''succeed''"
| "retry_disposition_display RdTerminalFailure = lit ''terminal_failure''"
| "retry_disposition_display RdRetry = lit ''retry''"
| "retry_disposition_display RdDefer = lit ''defer''"

definition retry_disposition_from_str :: "rstr \<Rightarrow> rstr + RetryDisposition" where
  "retry_disposition_from_str s =
     (if s = lit ''succeed'' then Inr RdSucceed
      else if s = lit ''terminal_failure'' then Inr RdTerminalFailure
      else if s = lit ''retry'' then Inr RdRetry
      else if s = lit ''defer'' then Inr RdDefer
      else Inl (lit ''unknown RetryDisposition: '' @ s))"

interpretation retry_disposition_wire: wire_enum retry_disposition_display retry_disposition_from_str
proof
  show "retry_disposition_from_str (retry_disposition_display x) = Inr x" for x
    by (cases x) (simp_all add: retry_disposition_from_str_def)
  show "retry_disposition_from_str s = Inr x \<Longrightarrow> retry_disposition_display x = s" for s x
    by (auto simp: retry_disposition_from_str_def split: if_splits)
qed

section \<open>Retry policy\<close>

record RetryPolicy =
  max_attempts :: nat
  initial_backoff_ms :: nat
  max_backoff_ms :: nat
  backoff_multiplier :: nat

definition conservative :: RetryPolicy where
  "conservative =
     \<lparr>max_attempts = 3, initial_backoff_ms = 1000, max_backoff_ms = 60000,
      backoff_multiplier = 2\<rparr>"

text \<open>
  The loop \<open>for _ in 1..retry_number\<close> runs \<open>retry_number - 1\<close> times and returns early once
  the maximum is reached; \<open>n\<close> counts the iterations left.
\<close>

fun backoff_loop :: "RetryPolicy \<Rightarrow> nat \<Rightarrow> nat \<Rightarrow> nat" where
  "backoff_loop p 0 backoff = min backoff (max_backoff_ms p)"
| "backoff_loop p (Suc n) backoff =
     (let backoff' = sat_mul backoff (backoff_multiplier p)
      in if max_backoff_ms p \<le> backoff' then max_backoff_ms p else backoff_loop p n backoff')"

definition backoff_for_retry :: "RetryPolicy \<Rightarrow> nat \<Rightarrow> nat" where
  "backoff_for_retry p retry_number =
     (if retry_number \<le> 1 then min (initial_backoff_ms p) (max_backoff_ms p)
      else backoff_loop p (retry_number - 1) (initial_backoff_ms p))"

lemma backoff_loop_le_max: "backoff_loop p n b \<le> max_backoff_ms p"
  by (induction p n b rule: backoff_loop.induct) (auto simp: Let_def)

text \<open>
  The closed form: the loop computes the capped power as long as the multiplier does not
  shrink the delay and the cap itself is a \<open>u64\<close>.
\<close>

lemma backoff_loop_closed:
  assumes "1 \<le> backoff_multiplier p" and "max_backoff_ms p \<le> u64_max"
  shows "backoff_loop p n b = min (b * backoff_multiplier p ^ n) (max_backoff_ms p)"
proof (induction n arbitrary: b)
  case 0
  then show ?case by simp
next
  case (Suc n)
  let ?m = "backoff_multiplier p" and ?M = "max_backoff_ms p"
  show ?case
  proof (cases "?M \<le> b * ?m")
    case True
    have "b * ?m * 1 \<le> b * ?m * ?m ^ n"
      using assms(1) by (intro mult_le_mono2) simp
    with True have "?M \<le> b * ?m * ?m ^ n" by linarith
    then have "?M \<le> b * ?m ^ Suc n" by (simp add: mult.assoc)
    with True assms(2) show ?thesis by (simp add: sat_mul_def)
  next
    case False
    with assms(2) have "sat_mul b ?m = b * ?m" by (simp add: sat_mul_def)
    with False Suc show ?thesis by (simp add: mult.assoc)
  qed
qed

lemma backoff_closed:
  assumes "1 \<le> backoff_multiplier p" and "max_backoff_ms p \<le> u64_max"
  shows "backoff_for_retry p k =
    min (initial_backoff_ms p * backoff_multiplier p ^ (k - 1)) (max_backoff_ms p)"
  using assms by (auto simp: backoff_for_retry_def backoff_loop_closed)

section \<open>Attempts and leases\<close>

text \<open>
  A \<open>UnixTimestamp\<close> is an \<open>f64\<close>. The model takes the rational number it denotes: NaN,
  the infinities and the rounding of a sum are not modelled.
\<close>

type_synonym UnixTimestamp = rat

record LeaseRecord =
  lr_leased_by_node :: rstr
  lr_heartbeat_at :: UnixTimestamp
  lr_expires_at :: UnixTimestamp

end
