(* ===== verification/Domain.thy ===== *)
theory Domain
  imports Prelude
begin

text \<open>
  Domain newtypes and small enums of \<open>batchalign-types\<close> (\<open>domain.rs\<close>): released commands,
  validated language codes and the language specifications built on them, display paths and
  result content types. A newtype over \<open>String\<close> is the string itself.
\<close>

type_synonym JobId = rstr
type_synonym NodeId = rstr
type_synonym CorrelationId = rstr

section \<open>Released commands\<close>

datatype ReleasedCommand =
  CmdAlign | CmdTranscribe | CmdTranscribeS | CmdTranslate | CmdMorphotag | CmdCoref
| CmdUtseg | CmdBenchmark | CmdOpensmile | CmdCompare | CmdAvqi

definition all_commands :: "ReleasedCommand list" where
  "all_commands =
     [CmdAlign, CmdTranscribe, CmdTranscribeS, CmdTranslate, CmdMorphotag, CmdCoref, CmdUtseg,
      CmdBenchmark, CmdOpensmile, CmdCompare, CmdAvqi]"

fun command_as_str :: "ReleasedCommand \<Rightarrow> rstr" where
  "command_as_str CmdAlign = lit ''align''"
| "command_as_str CmdTranscribe = lit ''transcribe''"
| "command_as_str CmdTranscribeS = lit ''transcribe_s''"
| "command_as_str CmdTranslate = lit ''translate''"
| "command_as_str CmdMorphotag = lit ''morphotag''"
| "command_as_str CmdCoref = lit ''coref''"
| "command_as_str CmdUtseg = lit ''utseg''"
| "command_as_str CmdBenchmark = lit ''benchmark''"
| "command_as_str CmdOpensmile = lit ''opensmile''"
| "command_as_str CmdCompare = lit ''compare''"
| "command_as_str CmdAvqi = lit ''avqi''"

definition command_try_from :: "rstr \<Rightarrow> rstr + ReleasedCommand" where
  "command_try_from s =
     (if s = lit ''align'' then Inr CmdAlign
      else if s = lit ''transcribe'' then Inr CmdTranscribe
      else if s = lit ''transcribe_s'' then Inr CmdTranscribeS
      else if s = lit ''translate'' then Inr CmdTranslate
      else if s = lit ''morphotag'' then Inr CmdMorphotag
      else if s = lit ''coref'' then Inr CmdCoref
      else if s = lit ''utseg'' then Inr CmdUtseg
      else if s = lit ''benchmark'' then Inr CmdBenchmark
      else if s = lit ''opensmile'' then Inr CmdOpensmile
      else if s = lit ''compare'' then Inr CmdCompare
      else if s = lit ''avqi'' then Inr CmdAvqi
      else Inl s)"

definition command_parse_untrusted :: "rstr \<Rightarrow> rstr + ReleasedCommand" where
  "command_parse_untrusted s = command_try_from (trim s)"

fun uses_local_audio :: "ReleasedCommand \<Rightarrow> bool" where
  "uses_local_audio CmdTranscribe = True"
| "uses_local_audio CmdTranscribeS = True"
| "uses_local_audio CmdBenchmark = True"
| "uses_local_audio CmdAvqi = True"
| "uses_local_audio _ = False"

interpretation command_wire: wire_enum command_as_str command_try_from
proof
  show "command_try_from (command_as_str x) = Inr x" for x
    by (cases x) (simp_all add: command_try_from_def)
  show "command_try_from s = Inr x \<Longrightarrow> command_as_str x = s" for s x
    by (auto simp: command_try_from_def split: if_splits)
qed

lemma all_commands_complete: "set all_commands = UNIV \<and> distinct all_commands"
proof -
  have "c \<in> set all_commands" for c by (cases c) (simp_all add: all_commands_def)
  then show ?thesis by (auto simp: all_commands_def)
qed

section \<open>Language codes\<close>

text \<open>
  \<open>LanguageCode3::try_new\<close>: \<open>str::len\<close> counts bytes, and a string whose bytes are all ASCII
  letters has one byte per \<open>char\<close>.
\<close>

datatype LanguageCode3 = LanguageCode3 rstr

fun code_str :: "LanguageCode3 \<Rightarrow> rstr" where
  "code_str (LanguageCode3 s) = s"

definition code_eng :: LanguageCode3 where
  "code_eng = LanguageCode3 (lit ''eng'')"

definition code_try_new :: "rstr \<Rightarrow> rstr + LanguageCode3" where
  "code_try_new s =
     (let t = trim s
      in if str_len t = 3 \<and> list_all is_ascii_alphabetic t
         then Inr (LanguageCode3 (to_ascii_lowercase t)) else Inl t)"

definition is_ascii_lower :: "rchar \<Rightarrow> bool" where
  "is_ascii_lower c \<longleftrightarrow> 97 \<le> c \<and> c \<le> 122"

text \<open>The type's invariant: three lowercase ASCII letters.\<close>

definition code_wf :: "LanguageCode3 \<Rightarrow> bool" where
  "code_wf c \<longleftrightarrow> length (code_str c) = 3 \<and> list_all is_ascii_lower (code_str c)"

lemma str_len_ascii: "list_all is_ascii_alphabetic s \<Longrightarrow> str_len s = length s"
  by (induction s) (auto simp: str_len_def utf8_len_def is_ascii_alphabetic_def)

lemma ascii_lower_alphabetic: "is_ascii_alphabetic c \<Longrightarrow> is_ascii_lower (ascii_lower c)"
  by (auto simp: is_ascii_alphabetic_def is_ascii_lower_def ascii_lower_def)

lemma is_ascii_lower_facts:
  assumes "is_ascii_lower c"
  shows "is_ascii_alphabetic c" and "\<not> is_whitespace c" and "ascii_lower c = c"
  using assms
  by (auto simp: is_ascii_alphabetic_def is_ascii_lower_def ascii_lower_def is_whitespace_def)

lemma code_try_new_wf: "code_try_new s = Inr c \<Longrightarrow> code_wf c"
  by (auto simp: code_try_new_def Let_def code_wf_def str_len_ascii to_ascii_lowercase_def
      list_all_iff ascii_lower_alphabetic split: if_splits)

lemma dropWhile_none: "list_all (\<lambda>c. \<not> p c) s \<Longrightarrow> dropWhile p s = s"
  by (cases s) auto

lemma trim_lower: "list_all is_ascii_lower s \<Longrightarrow> trim s = s"
  by (simp add: trim_def trim_matches_def dropWhile_none list_all_iff is_ascii_lower_facts)

lemma code_wf_fixpoint: "code_wf c \<Longrightarrow> code_try_new (code_str c) = Inr c"
proof (cases c)
  case (LanguageCode3 s)
  assume "code_wf c"
  with LanguageCode3 have s: "length s = 3" "list_all is_ascii_lower s"
    by (auto simp: code_wf_def)
  then have "list_all is_ascii_alphabetic s" and "to_ascii_lowercase s = s"
    by (auto simp: list_all_iff is_ascii_lower_facts to_ascii_lowercase_def intro: map_idI)
  with s LanguageCode3 show ?thesis
    by (simp add: code_try_new_def trim_lower str_len_ascii)
qed

section \<open>Language specifications\<close>

datatype WorkerLanguage = WlResolved LanguageCode3 | WlAuto | WlUnspecified

definition worker_language_parse :: "rstr \<Rightarrow> rstr + WorkerLanguage" where
  "worker_language_parse s =
     (let t = trim s
      in if t = [] then Inr WlUnspecified
         else if eq_ignore_ascii_case t (lit ''auto'') then Inr WlAuto
         else (case code_try_new t of Inr c \<Rightarrow> Inr (WlResolved c) | Inl _ \<Rightarrow> Inl t))"

fun as_worker_arg :: "WorkerLanguage \<Rightarrow> rstr" where
  "as_worker_arg (WlResolved c) = code_str c"
| "as_worker_arg WlAuto = lit ''auto''"
| "as_worker_arg WlUnspecified = []"

datatype LanguageSpec = LangAuto | LangResolved LanguageCode3

fun lang_resolve_or :: "LanguageSpec \<Rightarrow> LanguageCode3 \<Rightarrow> LanguageCode3" where
  "lang_resolve_or LangAuto fallback = fallback"
| "lang_resolve_or (LangResolved c) fallback = c"

fun to_worker_language :: "LanguageSpec \<Rightarrow> WorkerLanguage" where
  "to_worker_language LangAuto = WlAuto"
| "to_worker_language (LangResolved c) = WlResolved c"

definition lang_parse_from_db :: "rstr \<Rightarrow> LanguageSpec \<times> bool" where
  "lang_parse_from_db s =
     (if eq_ignore_ascii_case s (lit ''auto'') then (LangAuto, True)
      else (case code_try_new s of Inr c \<Rightarrow> (LangResolved c, True)
            | Inl _ \<Rightarrow> (LangResolved code_eng, False)))"

fun lang_display :: "LanguageSpec \<Rightarrow> rstr" where
  "lang_display LangAuto = lit ''auto''"
| "lang_display (LangResolved c) = code_str c"

fun lang_wf :: "LanguageSpec \<Rightarrow> bool" where
  "lang_wf LangAuto = True"
| "lang_wf (LangResolved c) = code_wf c"

lemma code_not_auto: "code_wf c \<Longrightarrow> \<not> eq_ignore_ascii_case (code_str c) (lit ''auto'')"
  by (auto simp: code_wf_def eq_ignore_ascii_case_def dest: arg_cong [where f = length])

lemma lang_db_roundtrip: "lang_wf l \<Longrightarrow> lang_parse_from_db (lang_display l) = (l, True)"
proof (cases l)
  case LangAuto
  then show ?thesis by (simp add: lang_parse_from_db_def eq_ignore_ascii_case_def)
next
  case (LangResolved c)
  assume "lang_wf l"
  with LangResolved show ?thesis
    by (simp add: lang_parse_from_db_def code_not_auto code_wf_fixpoint)
qed

lemma lang_parse_from_db_wf: "lang_wf (fst (lang_parse_from_db s))"
proof -
  have "code_wf code_eng"
    by (simp add: code_wf_def code_eng_def is_ascii_lower_def lit_def)
  then show ?thesis
    by (auto simp: lang_parse_from_db_def code_try_new_wf split: sum.splits)
qed

lemma worker_arg_roundtrip:
  assumes "lang_wf l"
  shows "worker_language_parse (as_worker_arg (to_worker_language l)) = Inr (to_worker_language l)"
proof (cases l)
  case LangAuto
  have "trim (lit ''auto'') = lit ''auto''"
    by (rule trim_lower) (simp add: lit_def is_ascii_lower_def)
  with LangAuto show ?thesis
    by (simp add: worker_language_parse_def eq_ignore_ascii_case_def)
next
  case (LangResolved c)
  with assms have c: "code_wf c" by simp
  then have "trim (code_str c) = code_str c" "code_str c \<noteq> []"
    by (auto simp: code_wf_def trim_lower)
  with c LangResolved show ?thesis
    by (simp add: worker_language_parse_def code_not_auto code_wf_fixpoint)
qed

section \<open>Display paths and content types\<close>

type_synonym DisplayPath = rstr

definition normalize_backslashes :: "rstr \<Rightarrow> rstr" where
  "normalize_backslashes s = (if 92 \<in> set s then map (\<lambda>c. if c = 92 then 47 else c) s else s)"

definition display_path_try_new :: "rstr \<Rightarrow> rstr + DisplayPath" where
  "display_path_try_new s = (if s = [] then Inl s else Inr (normalize_backslashes s))"

lemma normalize_backslashes_none: "92 \<notin> set (normalize_backslashes s)"
  by (auto simp: normalize_backslashes_def)

lemma normalize_backslashes_idem:
  "normalize_backslashes (normalize_backslashes s) = normalize_backslashes s"
  using normalize_backslashes_none by (simp add: normalize_backslashes_def [of "normalize_backslashes s"])

datatype ContentType = CtChat | CtCsv | CtText

fun content_type_display :: "ContentType \<Rightarrow> rstr" where
  "content_type_display CtChat = lit ''chat''"
| "content_type_display CtCsv = lit ''csv''"
| "content_type_display CtText = lit ''text''"

end
