(* ===== verification/Errors.thy ===== *)
theory Errors
  imports Status Scheduling Domain
begin

text \<open>
  The server's and the worker's error types (\<open>error.rs\<close>, \<open>worker/error.rs\<close>), their
  \<open>Display\<close> texts and HTTP codes, the classification of an error into a failure category,
  the retry decision, and the message a user sees
  (\<open>runner/util/error_classification.rs\<close>). Errors of other crates (\<open>sqlx::Error\<close>,
  \<open>std::io::Error\<close>) are the text they display.
\<close>

section \<open>Error types\<close>

datatype WorkerError =
  WeSpawnFailed rstr
| WeReadyTimeout nat
| WeReadyParseFailed rstr
| WeHealthCheckFailed rstr
| WeProcessExited "int option" "rstr option"
| WeProtocol rstr
| WeWorkerResponse rstr
| WeIo rstr
| WeNoWorker ReleasedCommand WorkerLanguage

record ConflictDetail =
  cd_filename :: rstr
  cd_job_id :: JobId
  cd_command :: ReleasedCommand
  cd_status :: JobStatus

datatype ServerError =
  SeDatabase rstr
| SeMigration rstr
| SePersistence rstr
| SeJobNotFound JobId
| SeJobConflict rstr "ConflictDetail list"
| SeJobNotTerminal JobId
| SeFileNotFound rstr
| SeFileNotReady rstr
| SeUnknownCommand rstr
| SeValidation rstr
| SeWorker WorkerError
| SeIo rstr
| SeMemoryPressure rstr

fun status_code :: "ServerError \<Rightarrow> nat" where
  "status_code (SeDatabase _) = 500"
| "status_code (SeMigration _) = 500"
| "status_code (SePersistence _) = 500"
| "status_code (SeJobNotFound _) = 404"
| "status_code (SeJobConflict _ _) = 409"
| "status_code (SeJobNotTerminal _) = 409"
| "status_code (SeFileNotFound _) = 404"
| "status_code (SeFileNotReady _) = 409"
| "status_code (SeUnknownCommand _) = 400"
| "status_code (SeValidation _) = 400"
| "status_code (SeWorker _) = 500"
| "status_code (SeIo _) = 500"
| "status_code (SeMemoryPressure _) = 500"

definition show_int :: "int \<Rightarrow> rstr" where
  "show_int i = (if i < 0 then lit ''-'' @ show_nat (nat (- i)) else show_nat (nat i))"

definition debug_option_i32 :: "int option \<Rightarrow> rstr" where
  "debug_option_i32 c =
     (case c of None \<Rightarrow> lit ''None'' | Some i \<Rightarrow> lit ''Some('' @ show_int i @ lit '')'')"

text \<open>The character \<open>\n\<close>.\<close>

abbreviation newline :: rchar where "newline \<equiv> 10"

definition format_process_exited :: "int option \<Rightarrow> rstr option \<Rightarrow> rstr" where
  "format_process_exited code stderr =
     (let header = lit ''worker process exited unexpectedly (exit code: ''
                     @ debug_option_i32 code @ lit '')''
      in case stderr of
           Some text \<Rightarrow>
             if text \<noteq> [] then header @ [newline] @ lit ''--- worker stderr ---'' @ [newline] @ text
             else header
         | None \<Rightarrow> header)"

fun worker_error_display :: "WorkerError \<Rightarrow> rstr" where
  "worker_error_display (WeSpawnFailed m) = lit ''worker failed to start: '' @ m"
| "worker_error_display (WeReadyTimeout t) =
     lit ''worker not ready after '' @ show_nat t @ lit ''s''"
| "worker_error_display (WeReadyParseFailed m) = lit ''failed to parse ready signal: '' @ m"
| "worker_error_display (WeHealthCheckFailed m) = lit ''worker health check failed: '' @ m"
| "worker_error_display (WeProcessExited code stderr) = format_process_exited code stderr"
| "worker_error_display (WeProtocol m) = lit ''worker protocol error: '' @ m"
| "worker_error_display (WeWorkerResponse m) = lit ''worker returned error: '' @ m"
| "worker_error_display (WeIo m) = lit ''I/O error: '' @ m"
| "worker_error_display (WeNoWorker c l) =
     lit ''no worker available for command='' @ command_as_str c @ lit '' lang='' @ as_worker_arg l"

fun server_error_display :: "ServerError \<Rightarrow> rstr" where
  "server_error_display (SeDatabase m) = lit ''database error: '' @ m"
| "server_error_display (SeMigration m) = lit ''migration error: '' @ m"
| "server_error_display (SePersistence m) = lit ''persistence error: '' @ m"
| "server_error_display (SeJobNotFound j) = lit ''job '' @ j @ lit '' not found''"
| "server_error_display (SeJobConflict m _) = m"
| "server_error_display (SeJobNotTerminal j) = lit ''job '' @ j @ lit '' is not in a terminal state''"
| "server_error_display (SeFileNotFound f) = lit ''file not found: '' @ f"
| "server_error_display (SeFileNotReady f) = lit ''file not ready: '' @ f"
| "server_error_display (SeUnknownCommand c) = lit ''unknown command: '' @ c"
| "server_error_display (SeValidation m) = lit ''validation error: '' @ m"
| "server_error_display (SeWorker e) = lit ''worker error: '' @ worker_error_display e"
| "server_error_display (SeIo m) = lit ''I/O error: '' @ m"
| "server_error_display (SeMemoryPressure m) = lit ''memory pressure: '' @ m"

section \<open>Classification and the retry decision\<close>

fun classify_worker_error :: "WorkerError \<Rightarrow> FailureCategory" where
  "classify_worker_error (WeReadyTimeout _) = FcWorkerTimeout"
| "classify_worker_error (WeHealthCheckFailed _) = FcWorkerTimeout"
| "classify_worker_error (WeProcessExited _ _) = FcWorkerCrash"
| "classify_worker_error (WeProtocol m) =
     (if contains m (lit ''timeout'') then FcWorkerTimeout else FcWorkerProtocol)"
| "classify_worker_error (WeIo _) = FcWorkerCrash"
| "classify_worker_error (WeWorkerResponse _) = FcProviderTransient"
| "classify_worker_error (WeSpawnFailed _) = FcSystem"
| "classify_worker_error (WeReadyParseFailed _) = FcSystem"
| "classify_worker_error (WeNoWorker _ _) = FcSystem"

fun classify_server_error :: "ServerError \<Rightarrow> FailureCategory" where
  "classify_server_error (SeWorker e) = classify_worker_error e"
| "classify_server_error (SeValidation _) = FcValidation"
| "classify_server_error (SeMemoryPressure _) = FcMemoryPressure"
| "classify_server_error (SeIo _) = FcSystem"
| "classify_server_error (SeDatabase _) = FcSystem"
| "classify_server_error (SeMigration _) = FcSystem"
| "classify_server_error (SePersistence _) = FcSystem"
| "classify_server_error (SeJobNotFound _) = FcSystem"
| "classify_server_error (SeJobConflict _ _) = FcSystem"
| "classify_server_error (SeJobNotTerminal _) = FcSystem"
| "classify_server_error (SeFileNotFound _) = FcSystem"
| "classify_server_error (SeFileNotReady _) = FcSystem"
| "classify_server_error (SeUnknownCommand _) = FcSystem"

definition is_retryable_worker_failure :: "FailureCategory \<Rightarrow> bool" where
  "is_retryable_worker_failure c \<longleftrightarrow>
     c = FcWorkerCrash \<or> c = FcWorkerTimeout \<or> c = FcProviderTransient"

lemma server_retry_only_worker:
  "is_retryable_worker_failure (classify_server_error e) \<longleftrightarrow>
    (\<exists>w. e = SeWorker w \<and> is_retryable_worker_failure (classify_worker_error w))"
  by (cases e) (auto simp: is_retryable_worker_failure_def)

section \<open>User-facing messages\<close>

text \<open>
  \<open>&s[n..]\<close>: the slice from byte \<open>n\<close>, None for the panic when byte \<open>n\<close> is past the end
  or inside a character.
\<close>

fun slice_from :: "nat \<Rightarrow> rstr \<Rightarrow> rstr option" where
  "slice_from 0 s = Some s"
| "slice_from (Suc n) [] = None"
| "slice_from (Suc n) (c # s) =
     (if utf8_len c \<le> Suc n then slice_from (Suc n - utf8_len c) s else None)"

text \<open>What follows the first newline, if there is one.\<close>

fun after_newline :: "rstr \<Rightarrow> rstr option" where
  "after_newline [] = None"
| "after_newline (c # s) = (if c = newline then Some s else after_newline s)"

definition truncate_tail :: "rstr \<Rightarrow> nat \<Rightarrow> rstr option" where
  "truncate_tail s max_chars =
     (if str_len s \<le> max_chars then Some s
      else (case slice_from (str_len s - max_chars) s of
              None \<Rightarrow> None
            | Some tail \<Rightarrow>
                (case after_newline tail of Some rest \<Rightarrow> Some rest | None \<Rightarrow> Some tail)))"

text \<open>The message, None when formatting it panics.\<close>

fun user_facing_error :: "FailureCategory \<Rightarrow> rstr \<Rightarrow> rstr \<Rightarrow> rstr \<Rightarrow> rstr option" where
  "user_facing_error FcWorkerCrash label file raw =
     (case truncate_tail raw 500 of
        None \<Rightarrow> None
      | Some detail \<Rightarrow>
          Some (label @ lit '' failed for '' @ file @ lit '': the processing engine crashed.''
                @ [newline] @ detail))"
| "user_facing_error FcWorkerTimeout label file raw =
     Some (label @ lit '' timed out for '' @ file
       @ lit '': the processing engine did not respond in time. The file may be too large or the server may be overloaded. Try restarting the job or processing fewer files at once.'')"
| "user_facing_error FcWorkerProtocol label file raw =
     Some (label @ lit '' failed for '' @ file
       @ lit '': communication error with the processing engine. Try restarting the job.'')"
| "user_facing_error FcProviderTransient label file raw =
     Some (label @ lit '' failed for '' @ file
       @ lit '': the external service returned a temporary error. Try restarting the job.'')"
| "user_facing_error FcProviderTerminal label file raw =
     Some (label @ lit '' failed for '' @ file
       @ lit '': the external service rejected the request. Check that your API keys are valid and the input is supported.'')"
| "user_facing_error FcMemoryPressure label file raw =
     Some (label @ lit '' was deferred for '' @ file
       @ lit '': the server does not have enough free memory. Try again later or process fewer files at once.'')"
| "user_facing_error FcInputMissing label file raw =
     Some (label @ lit '' failed for '' @ file
       @ lit '': a required input file could not be found. Check that all referenced media files exist.'')"
| "user_facing_error FcValidation label file raw =
     Some (label @ lit '' failed for '' @ file @ lit '': '' @ raw)"
| "user_facing_error FcParseError label file raw =
     Some (label @ lit '' failed for '' @ file @ lit '': '' @ raw)"
| "user_facing_error FcCancelled label file raw =
     Some (label @ lit '' was cancelled for '' @ file @ lit ''.'')"
| "user_facing_error FcSystem label file raw =
     Some (label @ lit '' failed for '' @ file
       @ lit '' due to an internal error. Try restarting the job. If the problem persists, please contact your administrator.'')"

lemma str_len_Cons [simp]: "str_len (c # s) = utf8_len c + str_len s"
  by (simp add: str_len_def)

lemma str_len_Nil [simp]: "str_len [] = 0"
  by (simp add: str_len_def)

lemma str_len_append [simp]: "str_len (s @ t) = str_len s + str_len t"
  by (simp add: str_len_def)

lemma utf8_len_pos [simp]: "0 < utf8_len c"
  by (simp add: utf8_len_def)

lemma slice_from_iff: "slice_from n s = Some t \<longleftrightarrow> (\<exists>p. s = p @ t \<and> str_len p = n)"
proof (induction n s rule: slice_from.induct)
  case (1 s)
  have "str_len p = 0 \<longleftrightarrow> p = []" for p
    by (cases p) auto
  then show ?case by auto
next
  case (2 n)
  then show ?case by auto
next
  case (3 n c s)
  have "(\<exists>p. c # s = p @ t \<and> str_len p = Suc n) \<longleftrightarrow>
      (\<exists>p. s = p @ t \<and> utf8_len c + str_len p = Suc n)"
    by (auto simp: Cons_eq_append_conv)
  moreover have "utf8_len c \<le> Suc n \<Longrightarrow>
      (utf8_len c + str_len p = Suc n) = (str_len p = Suc n - utf8_len c)" for p
    by auto
  ultimately show ?case using 3 by (auto simp: not_le)
qed

lemma after_newline_split:
  "after_newline s = Some t \<longleftrightarrow> (\<exists>p. s = p @ newline # t \<and> newline \<notin> set p)"
proof (induction s)
  case Nil
  then show ?case by simp
next
  case (Cons c s)
  then show ?case by (auto simp: Cons_eq_append_conv)
qed

lemma after_newline_None: "after_newline s = None \<longleftrightarrow> newline \<notin> set s"
  by (induction s) auto

lemma slice_from_ascii:
  "list_all (\<lambda>c. c < 128) s \<Longrightarrow> n \<le> length s \<Longrightarrow> slice_from n s = Some (drop n s)"
  by (induction n s rule: slice_from.induct) (auto simp: utf8_len_def)

section \<open>Properties\<close>

text \<open>
  The retry decision on a server error. Exactly the worker errors that a replacement
  worker or another try can cure are retried: a ready timeout, a failed health check, an exited
  process, a broken pipe, an error answered by the worker, and a protocol error that mentions a
  timeout. Every other server error is final.
\<close>

theorem retry_decision:
  "is_retryable_worker_failure (classify_server_error e) =
     (case e of
        SeWorker (WeReadyTimeout _) \<Rightarrow> True
      | SeWorker (WeHealthCheckFailed _) \<Rightarrow> True
      | SeWorker (WeProcessExited _ _) \<Rightarrow> True
      | SeWorker (WeIo _) \<Rightarrow> True
      | SeWorker (WeWorkerResponse _) \<Rightarrow> True
      | SeWorker (WeProtocol m) \<Rightarrow> contains m (lit ''timeout'')
      | _ \<Rightarrow> False)"
proof (cases e)
  case (SeWorker w)
  then show ?thesis by (cases w) (simp_all add: is_retryable_worker_failure_def)
qed (simp_all add: is_retryable_worker_failure_def)

text \<open>
  the tail kept of a crash report. When \<open>truncate_tail\<close> returns, it returns a suffix of
  its input of at most \<open>max_chars\<close> bytes; and a suffix shorter than the limit that is not the
  whole text starts right after a newline.
\<close>

theorem truncate_tail_suffix:
  assumes "truncate_tail s m = Some t"
  shows "\<exists>p. s = p @ t \<and> str_len t \<le> m \<and> (p = [] \<or> str_len t = m \<or> last p = newline)"
proof (cases "str_len s \<le> m")
  case True
  with assms show ?thesis by (auto simp: truncate_tail_def)
next
  case False
  with assms obtain tail where tail: "slice_from (str_len s - m) s = Some tail"
    and t: "t = (case after_newline tail of Some rest \<Rightarrow> rest | None \<Rightarrow> tail)"
    by (auto simp: truncate_tail_def split: option.splits)
  from tail obtain p where p: "s = p @ tail" "str_len p = str_len s - m"
    unfolding slice_from_iff by blast
  then have "str_len s = str_len p + str_len tail" by simp
  with p(2) False have m: "str_len tail = m" by linarith
  show ?thesis
  proof (cases "after_newline tail")
    case None
    with t p m show ?thesis by auto
  next
    case (Some rest)
    then obtain q where "tail = q @ newline # rest"
      by (auto simp: after_newline_split)
    with Some t p m show ?thesis
      by (intro exI [of _ "p @ q @ [newline]"]) auto
  qed
qed

lemma truncate_tail_suffix_witness:
  "\<exists>p. [97, 10, 98] = p @ [98] \<and> str_len [98] \<le> 2 \<and> (p = [] \<or> str_len [98] = 2 \<or> last p = newline)"
  by (rule truncate_tail_suffix) code_simp

text \<open>
  When formatting a crash message panics. The byte offset at which the report is cut is not
  moved to a character boundary, so the slice panics exactly when the report is longer than the
  limit and no character ends there.
\<close>

theorem truncate_tail_panics_iff:
  "truncate_tail s m = None \<longleftrightarrow> m < str_len s \<and> (\<nexists>p t. s = p @ t \<and> str_len t = m)"
proof (cases "str_len s \<le> m")
  case True
  then show ?thesis by (simp add: truncate_tail_def)
next
  case False
  have "(\<exists>t. slice_from (str_len s - m) s = Some t) \<longleftrightarrow> (\<exists>p t. s = p @ t \<and> str_len t = m)"
    unfolding slice_from_iff
  proof (intro iffI; elim exE conjE)
    fix t p
    assume "s = p @ t" and "str_len p = str_len s - m"
    then have "str_len s = str_len p + str_len t" by simp
    with False \<open>str_len p = str_len s - m\<close> have "str_len t = m" by linarith
    with \<open>s = p @ t\<close> show "\<exists>p t. s = p @ t \<and> str_len t = m" by blast
  next
    fix p t
    assume "s = p @ t" and "str_len t = m"
    then have "str_len s = str_len p + m" by simp
    then have "str_len p = str_len s - m" by linarith
    with \<open>s = p @ t\<close> show "\<exists>t p. s = p @ t \<and> str_len p = str_len s - m" by blast
  qed
  with False show ?thesis
    by (auto simp: truncate_tail_def split: option.splits)
qed

lemma crash_message_panics:
  "user_facing_error FcWorkerCrash label file (replicate 250 233 @ [97]) = None"
proof -
  have "str_len (replicate n (233::nat)) = 2 * n" for n
    by (induction n) (auto simp: utf8_len_def)
  then have "str_len (replicate 250 233 @ [97]) = 501"
    by (simp add: utf8_len_def)
  moreover have "replicate 250 (233::nat) = 233 # replicate 249 233"
    using replicate_Suc [of 249 "233::nat"] by simp
  then have "slice_from 1 (replicate 250 233 @ [97]) = None"
    by (simp add: utf8_len_def)
  ultimately show ?thesis
    by (simp add: truncate_tail_def)
qed

end
