(* ===== verification/Batch_Progress.thy ===== *)
theory Batch_Progress
  imports Prelude
begin

text \<open>
  Progress of a batched inference job per language group
  (\<open>runner/util/batch_progress.rs\<close>). The group map is a \<open>BTreeMap\<close>. The fractions are
  \<open>f64\<close> quotients in the code and exact quotients here.
\<close>

section \<open>One language group\<close>

record LanguageGroupProgress =
  lg_lang :: rstr
  lg_completed :: nat
  lg_total :: nat

definition group_new :: "rstr \<Rightarrow> nat \<Rightarrow> nat \<Rightarrow> LanguageGroupProgress" where
  "group_new lang completed tot =
     \<lparr>lg_lang = lang, lg_completed = completed, lg_total = tot\<rparr>"

definition group_is_complete :: "LanguageGroupProgress \<Rightarrow> bool" where
  "group_is_complete g \<longleftrightarrow> lg_total g \<le> lg_completed g"

definition group_fraction :: "LanguageGroupProgress \<Rightarrow> rat" where
  "group_fraction g =
     (if lg_total g = 0 then 1 else of_nat (lg_completed g) / of_nat (lg_total g))"

section \<open>The batch\<close>

type_synonym BatchInferProgress = "(rstr, LanguageGroupProgress) hmap"

definition batch_new :: BatchInferProgress where
  "batch_new = []"

definition register_group :: "rstr \<Rightarrow> nat \<Rightarrow> BatchInferProgress \<Rightarrow> BatchInferProgress" where
  "register_group lang tot p = bt_insert lang (group_new lang 0 tot) p"

definition update_group :: "rstr \<Rightarrow> nat \<Rightarrow> BatchInferProgress \<Rightarrow> BatchInferProgress" where
  "update_group lang completed p = hm_modify lang (\<lambda>g. g\<lparr>lg_completed := completed\<rparr>) p"

definition complete_group :: "rstr \<Rightarrow> BatchInferProgress \<Rightarrow> BatchInferProgress" where
  "complete_group lang p = hm_modify lang (\<lambda>g. g\<lparr>lg_completed := lg_total g\<rparr>) p"

definition total_utterances :: "BatchInferProgress \<Rightarrow> nat" where
  "total_utterances p = wrap_sum (map lg_total (hm_values p))"

definition completed_utterances :: "BatchInferProgress \<Rightarrow> nat" where
  "completed_utterances p = wrap_sum (map lg_completed (hm_values p))"

definition overall_fraction :: "BatchInferProgress \<Rightarrow> rat" where
  "overall_fraction p =
     (if total_utterances p = 0 then 1
      else of_nat (completed_utterances p) / of_nat (total_utterances p))"

definition batch_is_complete :: "BatchInferProgress \<Rightarrow> bool" where
  "batch_is_complete p \<longleftrightarrow> list_all group_is_complete (hm_values p)"

definition incomplete_groups :: "BatchInferProgress \<Rightarrow> rstr list" where
  "incomplete_groups p = map fst (filter (\<lambda>(_, g). \<not> group_is_complete g) p)"

definition active_groups :: "BatchInferProgress \<Rightarrow> nat" where
  "active_groups p = length (filter (\<lambda>g. \<not> group_is_complete g) (hm_values p))"

definition batch_summary :: "BatchInferProgress \<Rightarrow> rstr" where
  "batch_summary p =
     (let total_groups = length p;
          complete_groups = total_groups - active_groups p;
          completed = completed_utterances p;
          tot = total_utterances p;
          pct = (if 0 < tot then ((100 * completed) mod 2 ^ 64 div tot) mod 2 ^ 32 else 100)
      in show_nat complete_groups @ lit ''/'' @ show_nat total_groups @ lit '' languages done, ''
         @ show_nat completed @ lit ''/'' @ show_nat tot @ lit '' utterances (''
         @ show_nat pct @ lit ''%)'')"

section \<open>Invariant and properties\<close>

text \<open>
  What a batch satisfies while workers report counts within the totals they were given: sorted
  keys that name their group, no group past its total, and totals whose sum is a \<open>u64\<close>.
\<close>

definition batch_wf :: "BatchInferProgress \<Rightarrow> bool" where
  "batch_wf p \<longleftrightarrow> bt_wf p \<and> list_all (\<lambda>(k, g). lg_lang g = k \<and> lg_completed g \<le> lg_total g) p"

lemma list_all_map_entry:
  assumes "list_all P m" and "\<And>v. P (k, v) \<Longrightarrow> P (k, f v)"
  shows "list_all P (AList.map_entry k f m)"
  using assms by (induction m) auto

lemma batch_wf_new: "batch_wf batch_new"
  by (simp add: batch_wf_def batch_new_def bt_wf_def)

lemma list_all_bt_insert: "list_all P m \<Longrightarrow> P (k, v) \<Longrightarrow> list_all P (bt_insert k v m)"
  by (induction k v m rule: bt_insert.induct) auto

lemma batch_wf_register: "batch_wf p \<Longrightarrow> batch_wf (register_group lang n p)"
  by (simp add: batch_wf_def register_group_def bt_wf_insert list_all_bt_insert group_new_def)

lemma batch_wf_complete: "batch_wf p \<Longrightarrow> batch_wf (complete_group lang p)"
  by (auto simp: batch_wf_def complete_group_def bt_wf_def hm_modify_def
      intro!: list_all_map_entry)

lemma batch_wf_update:
  assumes "batch_wf p" and "\<And>g. hm_get p lang = Some g \<Longrightarrow> n \<le> lg_total g"
  shows "batch_wf (update_group lang n p)"
proof -
  from assms(1) have wf: "hm_wf p" by (simp add: batch_wf_def bt_wf_hm_wf)
  have "list_all (\<lambda>(k, g). lg_lang g = k \<and> lg_completed g \<le> lg_total g)
    (AList.map_entry lang (\<lambda>g. g\<lparr>lg_completed := n\<rparr>) p)"
    using assms(1) wf assms(2) unfolding batch_wf_def
    by (induction p) (auto simp: hm_wf_def hm_get_def bt_wf_def list_all_iff split: if_splits)
  with assms(1) show ?thesis
    by (simp add: batch_wf_def update_group_def bt_wf_def hm_modify_def)
qed

lemma batch_is_complete_iff_incomplete: "batch_is_complete p \<longleftrightarrow> incomplete_groups p = []"
  by (induction p) (auto simp: batch_is_complete_def incomplete_groups_def hm_values_def)

lemma active_groups_incomplete: "active_groups p = length (incomplete_groups p)"
  by (induction p) (auto simp: active_groups_def incomplete_groups_def hm_values_def)

lemma incomplete_groups_sorted: "bt_wf p \<Longrightarrow> sorted_wrt (<) (incomplete_groups p)"
  unfolding bt_wf_def incomplete_groups_def
  by (induction p) (auto simp: list_all_iff)

lemma batch_wf_values:
  "batch_wf p \<Longrightarrow> list_all (\<lambda>g. lg_completed g \<le> lg_total g) (hm_values p)"
  by (auto simp: batch_wf_def hm_values_def list_all_iff)

lemma completed_le_total:
  assumes "batch_wf p"
  shows "sum_list (map lg_completed (hm_values p)) \<le> sum_list (map lg_total (hm_values p))"
  using batch_wf_values [OF assms] by (intro sum_list_mono) (simp add: list_all_iff)

lemma sums_equal_iff_complete:
  assumes "list_all (\<lambda>g. lg_completed g \<le> lg_total g) gs"
  shows "sum_list (map lg_completed gs) = sum_list (map lg_total gs) \<longleftrightarrow>
    list_all group_is_complete gs"
  using assms
proof (induction gs)
  case Nil
  then show ?case by simp
next
  case (Cons g gs)
  then have "sum_list (map lg_completed gs) \<le> sum_list (map lg_total gs)"
    by (intro sum_list_mono) (simp add: list_all_iff)
  with Cons show ?case by (auto simp: group_is_complete_def)
qed

lemma completed_bounded:
  assumes "batch_wf p" and "sum_list (map lg_total (hm_values p)) < 2 ^ 64"
  shows "completed_utterances p \<le> total_utterances p"
    and "completed_utterances p = total_utterances p \<longleftrightarrow> batch_is_complete p"
proof -
  let ?c = "sum_list (map lg_completed (hm_values p))"
    and ?t = "sum_list (map lg_total (hm_values p))"
  have le: "?c \<le> ?t" by (rule completed_le_total [OF assms(1)])
  with assms(2) have ct: "completed_utterances p = ?c" "total_utterances p = ?t"
    by (simp_all add: completed_utterances_def total_utterances_def wrap_sum_small)
  show "completed_utterances p \<le> total_utterances p" using le ct by simp
  show "completed_utterances p = total_utterances p \<longleftrightarrow> batch_is_complete p"
    using sums_equal_iff_complete [OF batch_wf_values [OF assms(1)]] ct
    by (simp add: batch_is_complete_def)
qed

text \<open>
  The overall fraction is a fraction, and it is 1 exactly when every group is complete, as
  long as no group reports more utterances than it registered and the totals fit in a \<open>u64\<close>.
\<close>

theorem overall_fraction_complete:
  assumes "batch_wf p" and "sum_list (map lg_total (hm_values p)) < 2 ^ 64"
  shows "0 \<le> overall_fraction p \<and> overall_fraction p \<le> 1 \<and>
    (overall_fraction p = 1 \<longleftrightarrow> batch_is_complete p) \<and>
    (batch_is_complete p \<longleftrightarrow> incomplete_groups p = []) \<and>
    active_groups p = length (incomplete_groups p)"
  using completed_bounded [OF assms]
  by (auto simp: overall_fraction_def batch_is_complete_iff_incomplete [symmetric]
      active_groups_incomplete)

lemma overall_fraction_complete_witness:
  "let p = update_group (lit ''fra'') 2
             (register_group (lit ''fra'') 4 (register_group (lit ''eng'') 0 batch_new))
   in 0 \<le> overall_fraction p \<and> overall_fraction p \<le> 1 \<and>
    (overall_fraction p = 1 \<longleftrightarrow> batch_is_complete p) \<and>
    (batch_is_complete p \<longleftrightarrow> incomplete_groups p = []) \<and>
    active_groups p = length (incomplete_groups p)"
  unfolding Let_def
proof (rule overall_fraction_complete)
  let ?q = "register_group (lit ''fra'') 4 (register_group (lit ''eng'') 0 batch_new)"
  have "hm_get ?q (lit ''fra'') = Some (group_new (lit ''fra'') 0 4)"
    by (simp add: register_group_def bt_get_insert)
  then show "batch_wf (update_group (lit ''fra'') 2 ?q)"
    by (intro batch_wf_update batch_wf_register batch_wf_new) (simp add: group_new_def)
  show "sum_list (map lg_total (hm_values (update_group (lit ''fra'') 2 ?q))) < 2 ^ 64"
    by (simp add: update_group_def register_group_def batch_new_def hm_modify_def hm_values_def
        group_new_def lit_def)
qed

text \<open>
  Nothing bounds a reported count: one report past the registered total makes the overall
  fraction exceed the interval its documentation gives.
\<close>

theorem overall_fraction_unbounded:
  "overall_fraction (update_group lang 2 (register_group lang 1 batch_new)) = 2"
  by (simp add: overall_fraction_def total_utterances_def completed_utterances_def wrap_sum_def
      update_group_def register_group_def batch_new_def hm_modify_def hm_values_def group_new_def)

end
