(* ===== verification/Job_State.thy ===== *)
theory Job_State
  imports Errors Batch_Progress
begin

text \<open>
  The in-memory job (\<open>store/mod.rs\<close>, \<open>store/job/types.rs\<close>, \<open>store/job/mod.rs\<close>): the
  file status entry, the job record with its nested parts, every lifecycle method of
  \<open>impl Job\<close>, its projections to API and runner records, and conflict detection. A method
  \<open>&mut self\<close> returns the updated job beside its result. Paths and host names are strings;
  \<open>CommandOptions\<close> and JSON values, which these modules only carry, are their JSON text; a
  cancellation token is its identity with its flag. Path types are strings.
\<close>

section \<open>File status\<close>

record FileStatus =
  fs_filename :: DisplayPath
  fs_status :: FileStatusKind
  fs_error :: "rstr option"
  fs_error_category :: "FailureCategory option"
  fs_error_codes :: "rstr list option"
  fs_error_line :: "int option"
  fs_bug_report_id :: "rstr option"
  fs_started_at :: "UnixTimestamp option"
  fs_finished_at :: "UnixTimestamp option"
  fs_next_eligible_at :: "UnixTimestamp option"
  fs_current_attempt_id :: "rstr option"
  fs_progress_current :: "int option"
  fs_progress_total :: "int option"
  fs_progress_stage :: "FileProgressStage option"

definition file_status_new :: "DisplayPath \<Rightarrow> FileStatus" where
  "file_status_new filename =
     \<lparr>fs_filename = filename, fs_status = FileQueued, fs_error = None, fs_error_category = None,
      fs_error_codes = None, fs_error_line = None, fs_bug_report_id = None,
      fs_started_at = None, fs_finished_at = None, fs_next_eligible_at = None,
      fs_current_attempt_id = None, fs_progress_current = None, fs_progress_total = None,
      fs_progress_stage = None\<rparr>"

text \<open>The API form of a file status: no attempt id, and the label of the stage.\<close>

record FileStatusEntry =
  fe_filename :: DisplayPath
  fe_status :: FileStatusKind
  fe_error :: "rstr option"
  fe_error_category :: "FailureCategory option"
  fe_error_codes :: "rstr list option"
  fe_error_line :: "int option"
  fe_bug_report_id :: "rstr option"
  fe_started_at :: "UnixTimestamp option"
  fe_finished_at :: "UnixTimestamp option"
  fe_next_eligible_at :: "UnixTimestamp option"
  fe_progress_current :: "int option"
  fe_progress_total :: "int option"
  fe_progress_stage :: "FileProgressStage option"
  fe_progress_label :: "rstr option"

definition to_entry :: "FileStatus \<Rightarrow> FileStatusEntry" where
  "to_entry fs =
     \<lparr>fe_filename = fs_filename fs, fe_status = fs_status fs, fe_error = fs_error fs,
      fe_error_category = fs_error_category fs, fe_error_codes = fs_error_codes fs,
      fe_error_line = fs_error_line fs, fe_bug_report_id = fs_bug_report_id fs,
      fe_started_at = fs_started_at fs, fe_finished_at = fs_finished_at fs,
      fe_next_eligible_at = fs_next_eligible_at fs,
      fe_progress_current = fs_progress_current fs, fe_progress_total = fs_progress_total fs,
      fe_progress_stage = fs_progress_stage fs,
      fe_progress_label = map_option stage_label (fs_progress_stage fs)\<rparr>"

record FileResultEntry =
  re_filename :: DisplayPath
  re_content_type :: ContentType
  re_error :: "rstr option"

section \<open>The job record\<close>

type_synonym CommandOptions = rstr
type_synonym JsonText = rstr
type_synonym NumSpeakers = nat
type_synonym DurationSeconds = rat

record JobIdentity =
  id_job_id :: JobId
  id_correlation_id :: CorrelationId

record JobDispatchConfig =
  dc_command :: ReleasedCommand
  dc_lang :: LanguageSpec
  dc_num_speakers :: NumSpeakers
  dc_options :: CommandOptions
  dc_runtime_state :: "(rstr, JsonText) hmap"
  dc_debug_traces :: bool

record JobSourceContext =
  src_submitted_by :: rstr
  src_submitted_by_name :: rstr
  src_source_dir :: rstr

record JobFilesystemConfig =
  fsc_filenames :: "DisplayPath list"
  fsc_has_chat :: "bool list"
  fsc_staging_dir :: rstr
  fsc_paths_mode :: bool
  fsc_source_paths :: "rstr list"
  fsc_output_paths :: "rstr list"
  fsc_before_paths :: "rstr list"
  fsc_media_mapping :: rstr
  fsc_media_subdir :: rstr
  fsc_source_dir :: rstr

record JobExecutionState =
  ex_status :: JobStatus
  ex_file_statuses :: "(rstr, FileStatus) hmap"
  ex_results :: "FileResultEntry list"
  ex_error :: "rstr option"
  ex_completed_files :: int
  ex_batch_progress :: "BatchInferProgress option"

record JobLeaseState =
  ls_leased_by_node :: "NodeId option"
  ls_expires_at :: "UnixTimestamp option"
  ls_heartbeat_at :: "UnixTimestamp option"

record JobScheduleState =
  sch_submitted_at :: UnixTimestamp
  sch_completed_at :: "UnixTimestamp option"
  sch_next_eligible_at :: "UnixTimestamp option"
  sch_num_workers :: "int option"
  sch_lease :: JobLeaseState

record CancellationToken =
  ct_id :: nat
  ct_cancelled :: bool

record JobRuntimeControl =
  rt_cancel_token :: CancellationToken
  rt_runner_active :: bool

record Job =
  j_identity :: JobIdentity
  j_dispatch :: JobDispatchConfig
  j_source :: JobSourceContext
  j_filesystem :: JobFilesystemConfig
  j_execution :: JobExecutionState
  j_schedule :: JobScheduleState
  j_runtime :: JobRuntimeControl

abbreviation job_id :: "Job \<Rightarrow> JobId" where
  "job_id j \<equiv> id_job_id (j_identity j)"

abbreviation job_status :: "Job \<Rightarrow> JobStatus" where
  "job_status j \<equiv> ex_status (j_execution j)"

abbreviation job_files :: "Job \<Rightarrow> (rstr, FileStatus) hmap" where
  "job_files j \<equiv> ex_file_statuses (j_execution j)"

abbreviation completed_files :: "Job \<Rightarrow> int" where
  "completed_files j \<equiv> ex_completed_files (j_execution j)"

definition total_files :: "Job \<Rightarrow> nat" where
  "total_files j = length (fsc_filenames (j_filesystem j))"

definition token_new :: "nat \<Rightarrow> CancellationToken" where
  "token_new i = \<lparr>ct_id = i, ct_cancelled = False\<rparr>"

definition token_cancel :: "CancellationToken \<Rightarrow> CancellationToken" where
  "token_cancel t = t\<lparr>ct_cancelled := True\<rparr>"

section \<open>Leases\<close>

definition clear_lease :: "Job \<Rightarrow> Job" where
  "clear_lease j = j_schedule_update (sch_lease_update (\<lambda>l. l
     \<lparr>ls_leased_by_node := None, ls_expires_at := None, ls_heartbeat_at := None\<rparr>)) j"

definition release_local_dispatch_claim :: "Job \<Rightarrow> Job" where
  "release_local_dispatch_claim j =
     clear_lease (j_runtime_update (rt_runner_active_update (\<lambda>_. False)) j)"

definition active_lease :: "Job \<Rightarrow> LeaseRecord option" where
  "active_lease j =
     (let l = sch_lease (j_schedule j)
      in case (ls_leased_by_node l, ls_heartbeat_at l, ls_expires_at l) of
           (Some n, Some h, Some e) \<Rightarrow>
             Some \<lparr>lr_leased_by_node = n, lr_heartbeat_at = h, lr_expires_at = e\<rparr>
         | _ \<Rightarrow> None)"

definition renew_local_dispatch_lease ::
  "Job \<Rightarrow> NodeId \<Rightarrow> UnixTimestamp \<Rightarrow> rat \<Rightarrow> LeaseRecord option \<times> Job" where
  "renew_local_dispatch_lease j node_id now lease_ttl_s =
     (if rt_runner_active (j_runtime j)
         \<and> ls_leased_by_node (sch_lease (j_schedule j)) = Some node_id
         \<and> \<not> job_is_terminal (job_status j)
      then (let j' = j_schedule_update (sch_lease_update (\<lambda>l. l
                  \<lparr>ls_heartbeat_at := Some now, ls_expires_at := Some (now + lease_ttl_s)\<rparr>)) j
            in (active_lease j', j'))
      else (None, j))"

section \<open>File transitions\<close>

record CompletedFileOutput =
  co_filename :: DisplayPath
  co_content_type :: ContentType

record FileFailureRecord =
  ff_message :: rstr
  ff_category :: FailureCategory
  ff_finished_at :: UnixTimestamp

record FileRetryRecord =
  fr_message :: rstr
  fr_category :: FailureCategory
  fr_finished_at :: UnixTimestamp
  fr_retry_at :: UnixTimestamp

record FileProgressRecord =
  fp_stage :: FileProgressStage
  fp_current :: "int option"
  fp_total :: "int option"

text \<open>
  The frame all file transitions share: \<open>get_mut\<close> of the file, false without a change when
  it is unknown, else the update of the entry and of the rest of the job.
\<close>

definition with_file ::
  "rstr \<Rightarrow> (FileStatus \<Rightarrow> FileStatus) \<Rightarrow> (JobExecutionState \<Rightarrow> JobExecutionState) \<Rightarrow> Job \<Rightarrow> bool \<times> Job"
where
  "with_file filename f g j =
     (case hm_get (job_files j) filename of
        None \<Rightarrow> (False, j)
      | Some _ \<Rightarrow>
          (True, j_execution_update (\<lambda>e. g (ex_file_statuses_update (hm_modify filename f) e)) j))"

definition fs_processing :: "UnixTimestamp \<Rightarrow> FileStatus \<Rightarrow> FileStatus" where
  "fs_processing started_at fs = fs
     \<lparr>fs_status := FileProcessing, fs_error := None, fs_error_category := None,
      fs_started_at := Some started_at, fs_finished_at := None, fs_next_eligible_at := None,
      fs_progress_current := None, fs_progress_total := None, fs_progress_stage := None\<rparr>"

definition mark_file_processing :: "Job \<Rightarrow> rstr \<Rightarrow> UnixTimestamp \<Rightarrow> bool \<times> Job" where
  "mark_file_processing j filename started_at =
     with_file filename (fs_processing started_at) (\<lambda>e. e) j"

definition fs_done :: "UnixTimestamp \<Rightarrow> FileStatus \<Rightarrow> FileStatus" where
  "fs_done finished_at fs = fs
     \<lparr>fs_status := FileDone, fs_error := None, fs_error_category := None,
      fs_finished_at := Some finished_at, fs_next_eligible_at := None,
      fs_progress_current := None, fs_progress_total := None, fs_progress_stage := None\<rparr>"

definition mark_file_done ::
  "Job \<Rightarrow> rstr \<Rightarrow> UnixTimestamp \<Rightarrow> CompletedFileOutput option \<Rightarrow> bool \<times> Job" where
  "mark_file_done j filename finished_at result =
     with_file filename (fs_done finished_at)
       (\<lambda>e. ex_completed_files_update (\<lambda>n. n + 1)
          (case result of
             None \<Rightarrow> e
           | Some r \<Rightarrow> ex_results_update (\<lambda>rs. rs @
               [\<lparr>re_filename = co_filename r, re_content_type = co_content_type r,
                 re_error = None\<rparr>]) e)) j"

definition fs_failed :: "FileFailureRecord \<Rightarrow> FileStatus \<Rightarrow> FileStatus" where
  "fs_failed failure fs = fs
     \<lparr>fs_status := FileError, fs_error := Some (ff_message failure),
      fs_error_category := Some (ff_category failure),
      fs_finished_at := Some (ff_finished_at failure), fs_next_eligible_at := None,
      fs_progress_current := None, fs_progress_total := None, fs_progress_stage := None\<rparr>"

definition mark_file_error :: "Job \<Rightarrow> rstr \<Rightarrow> FileFailureRecord \<Rightarrow> bool \<times> Job" where
  "mark_file_error j filename failure =
     with_file filename (fs_failed failure)
       (\<lambda>e. ex_completed_files_update (\<lambda>n. n + 1)
          (ex_results_update (\<lambda>rs. rs @
             [\<lparr>re_filename = normalize_backslashes filename, re_content_type = CtChat,
               re_error = Some (ff_message failure)\<rparr>]) e)) j"

definition start_file_attempt :: "Job \<Rightarrow> rstr \<Rightarrow> UnixTimestamp \<Rightarrow> bool \<times> Job" where
  "start_file_attempt j filename started_at =
     with_file filename (\<lambda>fs. fs
       \<lparr>fs_started_at := Some started_at, fs_finished_at := None, fs_next_eligible_at := None,
        fs_progress_stage := None\<rparr>) (\<lambda>e. e) j"

definition fs_retry_pending :: "FileRetryRecord \<Rightarrow> FileStatus \<Rightarrow> FileStatus" where
  "fs_retry_pending retry fs = fs
     \<lparr>fs_status := FileProcessing, fs_error := Some (fr_message retry),
      fs_error_category := Some (fr_category retry),
      fs_finished_at := Some (fr_finished_at retry),
      fs_next_eligible_at := Some (fr_retry_at retry),
      fs_progress_current := None, fs_progress_total := None,
      fs_progress_stage := Some StRetryScheduled\<rparr>"

definition mark_file_retry_pending :: "Job \<Rightarrow> rstr \<Rightarrow> FileRetryRecord \<Rightarrow> bool \<times> Job" where
  "mark_file_retry_pending j filename retry =
     with_file filename (fs_retry_pending retry) (\<lambda>e. e) j"

definition clear_file_retry_state :: "Job \<Rightarrow> rstr \<Rightarrow> bool \<times> Job" where
  "clear_file_retry_state j filename =
     with_file filename (\<lambda>fs. fs
       \<lparr>fs_error := None, fs_error_category := None, fs_finished_at := None,
        fs_next_eligible_at := None, fs_progress_stage := None\<rparr>) (\<lambda>e. e) j"

definition set_file_progress :: "Job \<Rightarrow> rstr \<Rightarrow> FileProgressRecord \<Rightarrow> bool \<times> Job" where
  "set_file_progress j filename progress =
     with_file filename (\<lambda>fs. fs
       \<lparr>fs_progress_stage := Some (fp_stage progress),
        fs_progress_current := fp_current progress,
        fs_progress_total := fp_total progress\<rparr>) (\<lambda>e. e) j"

section \<open>Queries\<close>

definition file_terminal :: "FileStatus \<Rightarrow> bool" where
  "file_terminal fs = file_is_terminal (fs_status fs)"

definition unfinished_files :: "Job \<Rightarrow> DisplayPath list" where
  "unfinished_files j =
     map fs_filename (filter (\<lambda>fs. \<not> file_terminal fs) (hm_values (job_files j)))"

definition file_status_label :: "Job \<Rightarrow> rstr \<Rightarrow> rstr option" where
  "file_status_label j filename =
     map_option (\<lambda>fs. file_status_display (fs_status fs)) (hm_get (job_files j) filename)"

definition is_cancelled :: "Job \<Rightarrow> bool" where
  "is_cancelled j = ct_cancelled (rt_cancel_token (j_runtime j))"

definition all_terminal_files_failed :: "Job \<Rightarrow> bool" where
  "all_terminal_files_failed j =
     (let terminal = map fs_status (filter file_terminal (hm_values (job_files j)))
      in terminal \<noteq> [] \<and> list_all (\<lambda>s. s = FileError) terminal)"

section \<open>Job transitions\<close>

definition cancel_token :: "Job \<Rightarrow> Job" where
  "cancel_token j = j_runtime_update (rt_cancel_token_update token_cancel) j"

definition request_cancellation :: "Job \<Rightarrow> UnixTimestamp \<Rightarrow> UnixTimestamp option \<times> Job" where
  "request_cancellation j completed_at =
     (let j = cancel_token j
      in if job_can_cancel (job_status j)
         then (Some completed_at,
               j_schedule_update (\<lambda>s. s
                 \<lparr>sch_completed_at := Some completed_at, sch_next_eligible_at := None\<rparr>)
                 (j_execution_update (ex_status_update (\<lambda>_. JobCancelled)) j))
         else (None, j))"

definition requeue_after_memory_gate :: "Job \<Rightarrow> UnixTimestamp \<Rightarrow> Job" where
  "requeue_after_memory_gate j retry_at =
     j_schedule_update (\<lambda>s. s\<lparr>sch_completed_at := None, sch_next_eligible_at := Some retry_at\<rparr>)
       (j_execution_update (ex_status_update (\<lambda>_. JobQueued)) j)"

definition mark_running :: "Job \<Rightarrow> Job" where
  "mark_running j =
     j_schedule_update (sch_next_eligible_at_update (\<lambda>_. None))
       (j_execution_update (ex_status_update (\<lambda>_. JobRunning)) j)"

definition record_worker_count :: "Job \<Rightarrow> nat \<Rightarrow> Job" where
  "record_worker_count j num_workers =
     j_schedule_update (sch_num_workers_update (\<lambda>_. Some (int num_workers))) j"

definition job_fail :: "Job \<Rightarrow> rstr \<Rightarrow> UnixTimestamp \<Rightarrow> Job" where
  "job_fail j error completed_at =
     j_schedule_update (sch_completed_at_update (\<lambda>_. Some completed_at))
       (j_execution_update (\<lambda>e. e\<lparr>ex_status := JobFailed, ex_error := Some error\<rparr>) j)"

definition cancel_for_shutdown :: "Job \<Rightarrow> UnixTimestamp \<Rightarrow> bool \<times> Job" where
  "cancel_for_shutdown j completed_at =
     (let j = cancel_token j
      in if job_can_cancel (job_status j)
         then (True,
               j_runtime_update (rt_runner_active_update (\<lambda>_. False))
                 (clear_lease
                   (j_schedule_update (\<lambda>s. s
                      \<lparr>sch_completed_at := Some completed_at, sch_next_eligible_at := None\<rparr>)
                      (j_execution_update (ex_status_update (\<lambda>_. JobCancelled)) j))))
         else (False, j))"

definition finalize :: "Job \<Rightarrow> JobStatus \<Rightarrow> UnixTimestamp \<Rightarrow> Job" where
  "finalize j final_status completed_at =
     j_schedule_update (\<lambda>s. s
       \<lparr>sch_completed_at := Some completed_at, sch_next_eligible_at := None\<rparr>)
       (j_execution_update (\<lambda>e. e
          \<lparr>ex_status := final_status, ex_batch_progress := None,
           ex_completed_files := int (hm_count file_terminal (ex_file_statuses e))\<rparr>) j)"

definition fs_restart :: "FileStatus \<Rightarrow> FileStatus" where
  "fs_restart fs =
     (if fs_status fs \<noteq> FileDone then fs
        \<lparr>fs_status := FileQueued, fs_error := None, fs_error_category := None,
         fs_started_at := None, fs_finished_at := None, fs_next_eligible_at := None,
         fs_current_attempt_id := None, fs_progress_current := None,
         fs_progress_total := None, fs_progress_stage := None\<rparr>
      else fs)"

definition file_is_done :: "FileStatus \<Rightarrow> bool" where
  "file_is_done fs \<longleftrightarrow> fs_status fs = FileDone"

text \<open>The new token is the argument: \<open>CancellationToken::new\<close> is a fresh identity.\<close>

definition prepare_for_restart :: "Job \<Rightarrow> nat \<Rightarrow> Job" where
  "prepare_for_restart j fresh =
     (let j = j_execution_update (ex_file_statuses_update (hm_map_values fs_restart)) j;
          j = j_execution_update (\<lambda>e. e\<lparr>ex_status := JobQueued, ex_error := None\<rparr>) j;
          j = j_schedule_update (\<lambda>s. s\<lparr>sch_completed_at := None, sch_next_eligible_at := None\<rparr>) j;
          j = clear_lease j;
          j = j_runtime_update
                (\<lambda>r. r\<lparr>rt_cancel_token := token_new fresh, rt_runner_active := False\<rparr>) j
      in j_execution_update (\<lambda>e. e
           \<lparr>ex_completed_files := int (hm_count file_is_done (ex_file_statuses e)),
            ex_results := filter (\<lambda>r. re_error r = None) (ex_results e)\<rparr>) j)"

datatype RecoveryDisposition = RecRequeued | RecFailed | RecCompleted

definition file_resumable :: "FileStatus \<Rightarrow> bool" where
  "file_resumable fs = file_is_resumable (fs_status fs)"

definition fs_recover :: "FileStatus \<Rightarrow> FileStatus" where
  "fs_recover fs =
     (if file_resumable fs then fs
        \<lparr>fs_status := FileQueued, fs_started_at := None, fs_finished_at := None,
         fs_next_eligible_at := None, fs_current_attempt_id := None,
         fs_progress_current := None, fs_progress_total := None, fs_progress_stage := None\<rparr>
      else fs)"

definition reconcile_recovered_runtime_state :: "Job \<Rightarrow> RecoveryDisposition \<times> Job" where
  "reconcile_recovered_runtime_state j =
     (if list_ex file_resumable (hm_values (job_files j))
      then (let j = j_execution_update (ex_file_statuses_update (hm_map_values fs_recover)) j;
                j = j_execution_update (ex_status_update (\<lambda>_. JobQueued)) j;
                j = j_schedule_update (\<lambda>s. s
                      \<lparr>sch_completed_at := None, sch_next_eligible_at := None\<rparr>) j
            in (RecRequeued, clear_lease j))
      else (let all_errored = list_all (\<lambda>fs. fs_status fs = FileError) (hm_values (job_files j));
                j = j_execution_update (\<lambda>e. e
                      \<lparr>ex_status := (if all_errored then JobFailed else JobCompleted),
                       ex_completed_files := int (total_files j)\<rparr>) j;
                j = j_schedule_update (sch_next_eligible_at_update (\<lambda>_. None)) j
            in (if all_errored then RecFailed else RecCompleted, clear_lease j)))"

end
