(* ===== verification/Job_Views.thy ===== *)
theory Job_Views
  imports Job_State
begin

text \<open>
  What leaves a job: the API projections \<open>JobInfo\<close> and \<open>JobListItem\<close>
  (\<open>types/response.rs\<close>), the runner's snapshot with the files still to process, the download
  detail, and conflict detection between an incoming job and the registered ones
  (\<open>store/job/mod.rs\<close>). The rendering of a timestamp as ISO 8601 is \<open>chrono\<close>'s: the
  argument \<open>ts_iso\<close>.
\<close>

section \<open>API projections\<close>

datatype JobControlPlaneBackendKind = BackendTemporal | BackendTest

record TemporalWorkflowExecutionInfo =
  tw_workflow_id :: rstr
  tw_run_id :: "rstr option"
  tw_status :: "rstr option"
  tw_task_queue :: "rstr option"
  tw_history_length :: "int option"
  tw_describe_error :: "rstr option"

record JobControlPlaneInfo =
  cp_backend :: JobControlPlaneBackendKind
  cp_temporal :: "TemporalWorkflowExecutionInfo option"

record JobInfo =
  ji_job_id :: JobId
  ji_status :: JobStatus
  ji_command :: ReleasedCommand
  ji_options :: CommandOptions
  ji_lang :: LanguageSpec
  ji_source_dir :: rstr
  ji_total_files :: int
  ji_completed_files :: int
  ji_current_file :: "rstr option"
  ji_error :: "rstr option"
  ji_file_statuses :: "FileStatusEntry list"
  ji_submitted_at :: "rstr option"
  ji_submitted_by :: "rstr option"
  ji_submitted_by_name :: "rstr option"
  ji_completed_at :: "rstr option"
  ji_duration_s :: "DurationSeconds option"
  ji_next_eligible_at :: "UnixTimestamp option"
  ji_num_workers :: "int option"
  ji_active_lease :: "LeaseRecord option"
  ji_batch_progress :: "BatchInferProgress option"
  ji_control_plane :: "JobControlPlaneInfo option"

record JobListItem =
  li_job_id :: JobId
  li_status :: JobStatus
  li_command :: ReleasedCommand
  li_lang :: LanguageSpec
  li_source_dir :: rstr
  li_total_files :: int
  li_completed_files :: int
  li_error_files :: int
  li_submitted_at :: "rstr option"
  li_submitted_by :: "rstr option"
  li_submitted_by_name :: "rstr option"
  li_completed_at :: "rstr option"
  li_duration_s :: "DurationSeconds option"
  li_next_eligible_at :: "UnixTimestamp option"
  li_num_workers :: "int option"
  li_active_lease :: "LeaseRecord option"
  li_control_plane :: "JobControlPlaneInfo option"

definition non_empty :: "rstr \<Rightarrow> rstr option" where
  "non_empty s = (if s = [] then None else Some s)"

definition job_duration :: "Job \<Rightarrow> DurationSeconds option" where
  "job_duration j =
     map_option (\<lambda>c. c - sch_submitted_at (j_schedule j)) (sch_completed_at (j_schedule j))"

definition to_info :: "(UnixTimestamp \<Rightarrow> rstr) \<Rightarrow> Job \<Rightarrow> JobInfo" where
  "to_info ts_iso j =
     \<lparr>ji_job_id = job_id j, ji_status = job_status j, ji_command = dc_command (j_dispatch j),
      ji_options = dc_options (j_dispatch j), ji_lang = dc_lang (j_dispatch j),
      ji_source_dir = src_source_dir (j_source j), ji_total_files = int (total_files j),
      ji_completed_files = completed_files j, ji_current_file = None,
      ji_error = ex_error (j_execution j),
      ji_file_statuses = map to_entry (hm_values (job_files j)),
      ji_submitted_at = Some (ts_iso (sch_submitted_at (j_schedule j))),
      ji_submitted_by = non_empty (src_submitted_by (j_source j)),
      ji_submitted_by_name = non_empty (src_submitted_by_name (j_source j)),
      ji_completed_at = map_option ts_iso (sch_completed_at (j_schedule j)),
      ji_duration_s = job_duration j,
      ji_next_eligible_at = sch_next_eligible_at (j_schedule j),
      ji_num_workers = sch_num_workers (j_schedule j), ji_active_lease = active_lease j,
      ji_batch_progress = ex_batch_progress (j_execution j), ji_control_plane = None\<rparr>"

definition file_is_error :: "FileStatus \<Rightarrow> bool" where
  "file_is_error fs \<longleftrightarrow> fs_status fs = FileError"

definition to_list_item :: "(UnixTimestamp \<Rightarrow> rstr) \<Rightarrow> Job \<Rightarrow> JobListItem" where
  "to_list_item ts_iso j =
     \<lparr>li_job_id = job_id j, li_status = job_status j, li_command = dc_command (j_dispatch j),
      li_lang = dc_lang (j_dispatch j), li_source_dir = src_source_dir (j_source j),
      li_total_files = int (total_files j), li_completed_files = completed_files j,
      li_error_files = int (hm_count file_is_error (job_files j)),
      li_submitted_at = Some (ts_iso (sch_submitted_at (j_schedule j))),
      li_submitted_by = non_empty (src_submitted_by (j_source j)),
      li_submitted_by_name = non_empty (src_submitted_by_name (j_source j)),
      li_completed_at = map_option ts_iso (sch_completed_at (j_schedule j)),
      li_duration_s = job_duration j,
      li_next_eligible_at = sch_next_eligible_at (j_schedule j),
      li_num_workers = sch_num_workers (j_schedule j), li_active_lease = active_lease j,
      li_control_plane = None\<rparr>"

record JobDetail =
  jd_status :: JobStatus
  jd_paths_mode :: bool
  jd_staging_dir :: rstr
  jd_results :: "FileResultEntry list"
  jd_file_statuses :: "FileStatusEntry list"

definition to_detail :: "Job \<Rightarrow> JobDetail" where
  "to_detail j =
     \<lparr>jd_status = job_status j, jd_paths_mode = fsc_paths_mode (j_filesystem j),
      jd_staging_dir = fsc_staging_dir (j_filesystem j), jd_results = ex_results (j_execution j),
      jd_file_statuses = map to_entry (hm_values (job_files j))\<rparr>"

section \<open>The runner's view\<close>

record PendingJobFile =
  pf_file_index :: nat
  pf_filename :: DisplayPath
  pf_has_chat :: bool

text \<open>\<open>enumerate\<close>, \<open>zip\<close> with the chat markers (which stops at the shorter list), and
  \<open>filter_map\<close>.\<close>

definition already_done :: "Job \<Rightarrow> DisplayPath \<Rightarrow> bool" where
  "already_done j filename =
     (case hm_get (job_files j) filename of None \<Rightarrow> False | Some fs \<Rightarrow> file_terminal fs)"

definition pending_files :: "Job \<Rightarrow> PendingJobFile list" where
  "pending_files j =
     List.map_filter (\<lambda>((i, filename), has_chat).
         if already_done j filename then None
         else Some \<lparr>pf_file_index = i, pf_filename = filename, pf_has_chat = has_chat\<rparr>)
       (zip (List.enumerate 0 (fsc_filenames (j_filesystem j))) (fsc_has_chat (j_filesystem j)))"

record RunnerJobIdentity =
  ri_job_id :: JobId
  ri_correlation_id :: CorrelationId

record RunnerDispatchConfig =
  rd_command :: ReleasedCommand
  rd_lang :: LanguageSpec
  rd_num_speakers :: NumSpeakers
  rd_options :: CommandOptions
  rd_runtime_state :: "(rstr, JsonText) hmap"
  rd_debug_traces :: bool

record RunnerFilesystemConfig =
  rf_paths_mode :: bool
  rf_source_paths :: "rstr list"
  rf_output_paths :: "rstr list"
  rf_before_paths :: "rstr list"
  rf_staging_dir :: rstr
  rf_media_mapping :: rstr
  rf_media_subdir :: rstr
  rf_source_dir :: rstr

record RunnerJobSnapshot =
  rs_identity :: RunnerJobIdentity
  rs_dispatch :: RunnerDispatchConfig
  rs_filesystem :: RunnerFilesystemConfig
  rs_cancel_token :: CancellationToken
  rs_pending_files :: "PendingJobFile list"

definition to_runner_snapshot :: "Job \<Rightarrow> RunnerJobSnapshot" where
  "to_runner_snapshot j =
     (let d = j_dispatch j; f = j_filesystem j
      in \<lparr>rs_identity =
            \<lparr>ri_job_id = job_id j, ri_correlation_id = id_correlation_id (j_identity j)\<rparr>,
          rs_dispatch =
            \<lparr>rd_command = dc_command d, rd_lang = dc_lang d, rd_num_speakers = dc_num_speakers d,
             rd_options = dc_options d, rd_runtime_state = dc_runtime_state d,
             rd_debug_traces = dc_debug_traces d\<rparr>,
          rs_filesystem =
            \<lparr>rf_paths_mode = fsc_paths_mode f, rf_source_paths = fsc_source_paths f,
             rf_output_paths = fsc_output_paths f, rf_before_paths = fsc_before_paths f,
             rf_staging_dir = fsc_staging_dir f, rf_media_mapping = fsc_media_mapping f,
             rf_media_subdir = fsc_media_subdir f,
             rf_source_dir = src_source_dir (j_source j)\<rparr>,
          rs_cancel_token = rt_cancel_token (j_runtime j),
          rs_pending_files = pending_files j\<rparr>)"

section \<open>Conflict detection\<close>

record ConflictEntry =
  ce_filename :: DisplayPath
  ce_job_id :: JobId
  ce_command :: ReleasedCommand
  ce_status :: JobStatus

text \<open>The key of one file of a job: the submitter and the path under the source directory.\<close>

definition conflict_key :: "Job \<Rightarrow> DisplayPath \<Rightarrow> rstr \<times> rstr" where
  "conflict_key j filename =
     (src_submitted_by (j_source j),
      if src_source_dir (j_source j) = [] then filename
      else src_source_dir (j_source j) @ lit ''/'' @ filename)"

definition find_conflicts :: "(JobId, Job) hmap \<Rightarrow> Job \<Rightarrow> ConflictEntry list" where
  "find_conflicts jobs incoming =
     (let incoming_keys = set (map (conflict_key incoming) (fsc_filenames (j_filesystem incoming)))
      in concat (map (\<lambda>active.
           if \<not> job_is_active (job_status active) then []
           else List.map_filter (\<lambda>filename.
                  if conflict_key active filename \<in> incoming_keys
                  then Some \<lparr>ce_filename = filename, ce_job_id = job_id active,
                             ce_command = dc_command (j_dispatch active),
                             ce_status = job_status active\<rparr>
                  else None)
                (fsc_filenames (j_filesystem active))) (hm_values jobs)))"

text \<open>The keys a job occupies.\<close>

definition job_keys :: "Job \<Rightarrow> (rstr \<times> rstr) set" where
  "job_keys j = conflict_key j ` set (fsc_filenames (j_filesystem j))"

lemma map_filter_Nil_iff: "List.map_filter f xs = [] \<longleftrightarrow> (\<forall>x \<in> set xs. f x = None)"
  by (auto simp: map_filter_def filter_empty_conv)

lemma set_map_filter': "set (List.map_filter f xs) = {y. \<exists>x \<in> set xs. f x = Some y}"
  by (force simp: map_filter_def image_iff)

lemma map_filter_keys_Nil:
  "List.map_filter (\<lambda>f. if k f \<in> K then Some (e f) else None) xs = [] \<longleftrightarrow> k ` set xs \<inter> K = {}"
  by (auto simp: map_filter_Nil_iff)

lemma concat_map_if_Nil:
  "concat (map (\<lambda>x. if \<not> P x then [] else f x) xs) = [] \<longleftrightarrow> (\<forall>x \<in> set xs. P x \<longrightarrow> f x = [])"
  by (induction xs) auto

lemma find_conflicts_Nil_iff:
  "find_conflicts jobs incoming = [] \<longleftrightarrow>
    (\<forall>active \<in> set (hm_values jobs).
       job_is_active (job_status active) \<longrightarrow> job_keys active \<inter> job_keys incoming = {})"
  unfolding find_conflicts_def Let_def job_keys_def concat_map_if_Nil map_filter_keys_Nil
  by simp

lemma pending_files_filenames:
  assumes "length (fsc_has_chat (j_filesystem j)) = length (fsc_filenames (j_filesystem j))"
  shows "map pf_filename (pending_files j) =
    filter (\<lambda>f. \<not> already_done j f) (fsc_filenames (j_filesystem j))"
proof -
  have "map pf_filename (List.map_filter (\<lambda>((i, f), c). if p f then None
          else Some \<lparr>pf_file_index = i, pf_filename = f, pf_has_chat = c\<rparr>)
        (zip (List.enumerate n xs) cs)) = filter (\<lambda>f. \<not> p f) xs"
    if "length cs = length xs" for p :: "DisplayPath \<Rightarrow> bool" and n xs cs
    using that
  proof (induction xs arbitrary: n cs)
    case (Cons x xs)
    then obtain c cs' where "cs = c # cs'" by (cases cs) auto
    with Cons show ?case by (simp add: map_filter_def)
  qed (simp add: map_filter_def)
  from this [OF assms] show ?thesis by (simp add: pending_files_def)
qed

lemma pending_file_nth:
  assumes "pf \<in> set (pending_files j)"
  shows "pf_file_index pf < total_files j"
    and "fsc_filenames (j_filesystem j) ! pf_file_index pf = pf_filename pf"
    and "\<not> already_done j (pf_filename pf)"
    and "fsc_has_chat (j_filesystem j) ! pf_file_index pf = pf_has_chat pf"
  using assms
  by (auto simp: pending_files_def set_map_filter' total_files_def set_zip nth_enumerate_eq
      split: if_splits)

end
