(* ===== verification/Job_Lifecycle.thy ===== *)
theory Job_Lifecycle
  imports Job_Views
begin

text \<open>
  The life of one job as a transition system over the methods of \<open>Job\<close>: the events, the guard
  under which the runner issues each, the step relation, and the invariant every reachable job
  satisfies (file table, completion counter, error results). The guards are the discipline of the
  callers: file events are sent for files that are not terminal yet, and a job is finalized with
  a terminal status.
\<close>

section \<open>Events and steps\<close>

datatype JobEvent =
  EvProcessing rstr UnixTimestamp
| EvDone rstr UnixTimestamp "CompletedFileOutput option"
| EvError rstr FileFailureRecord
| EvAttempt rstr UnixTimestamp
| EvRetry rstr FileRetryRecord
| EvClearRetry rstr
| EvProgress rstr FileProgressRecord
| EvCancel UnixTimestamp
| EvRequeue UnixTimestamp
| EvRunning
| EvWorkers nat
| EvFail rstr UnixTimestamp
| EvShutdown UnixTimestamp
| EvFinalize JobStatus UnixTimestamp
| EvRestart nat
| EvRecover
| EvRenew NodeId UnixTimestamp rat
| EvRelease

fun job_apply :: "JobEvent \<Rightarrow> Job \<Rightarrow> Job" where
  "job_apply (EvProcessing f t) j = snd (mark_file_processing j f t)"
| "job_apply (EvDone f t r) j = snd (mark_file_done j f t r)"
| "job_apply (EvError f r) j = snd (mark_file_error j f r)"
| "job_apply (EvAttempt f t) j = snd (start_file_attempt j f t)"
| "job_apply (EvRetry f r) j = snd (mark_file_retry_pending j f r)"
| "job_apply (EvClearRetry f) j = snd (clear_file_retry_state j f)"
| "job_apply (EvProgress f p) j = snd (set_file_progress j f p)"
| "job_apply (EvCancel t) j = snd (request_cancellation j t)"
| "job_apply (EvRequeue t) j = requeue_after_memory_gate j t"
| "job_apply EvRunning j = mark_running j"
| "job_apply (EvWorkers n) j = record_worker_count j n"
| "job_apply (EvFail e t) j = job_fail j e t"
| "job_apply (EvShutdown t) j = snd (cancel_for_shutdown j t)"
| "job_apply (EvFinalize s t) j = finalize j s t"
| "job_apply (EvRestart i) j = prepare_for_restart j i"
| "job_apply EvRecover j = snd (reconcile_recovered_runtime_state j)"
| "job_apply (EvRenew n t ttl) j = snd (renew_local_dispatch_lease j n t ttl)"
| "job_apply EvRelease j = release_local_dispatch_claim j"

fun event_file :: "JobEvent \<Rightarrow> rstr option" where
  "event_file (EvProcessing f _) = Some f"
| "event_file (EvDone f _ _) = Some f"
| "event_file (EvError f _) = Some f"
| "event_file (EvAttempt f _) = Some f"
| "event_file (EvRetry f _) = Some f"
| "event_file (EvClearRetry f) = Some f"
| "event_file (EvProgress f _) = Some f"
| "event_file _ = None"

definition file_open :: "Job \<Rightarrow> rstr \<Rightarrow> bool" where
  "file_open j f =
     (case hm_get (job_files j) f of None \<Rightarrow> False | Some fs \<Rightarrow> \<not> file_terminal fs)"

definition job_enabled :: "Job \<Rightarrow> JobEvent \<Rightarrow> bool" where
  "job_enabled j ev \<longleftrightarrow>
     (case event_file ev of Some f \<Rightarrow> file_open j f | None \<Rightarrow> True) \<and>
     (case ev of EvFinalize s _ \<Rightarrow> job_is_terminal s
      | EvRestart _ \<Rightarrow> job_can_restart (job_status j) | _ \<Rightarrow> True)"

inductive job_step :: "Job \<Rightarrow> JobEvent \<Rightarrow> Job \<Rightarrow> bool" where
  job_stepI: "job_enabled j ev \<Longrightarrow> job_step j ev (job_apply ev j)"

inductive job_run :: "Job \<Rightarrow> JobEvent list \<Rightarrow> Job \<Rightarrow> bool" where
  run_Nil: "job_run j [] j"
| run_Cons: "job_step j ev j' \<Longrightarrow> job_run j' evs j'' \<Longrightarrow> job_run j (ev # evs) j''"

text \<open>The guards along a run, as a function, and the run they allow.\<close>

fun run_enabled :: "Job \<Rightarrow> JobEvent list \<Rightarrow> bool" where
  "run_enabled j [] = True"
| "run_enabled j (ev # evs) = (job_enabled j ev \<and> run_enabled (job_apply ev j) evs)"

lemma job_run_fold: "run_enabled j evs \<Longrightarrow> job_run j evs (fold job_apply evs j)"
  by (induction j evs rule: run_enabled.induct) (auto intro: run_Nil run_Cons job_stepI)

inductive_simps job_step_iff: "job_step j ev j'"
inductive_cases job_run_ConsE: "job_run j (ev # evs) j'"

section \<open>The invariant\<close>

text \<open>
  The file table: one entry per submitted name, keyed by that name, no backslash in a name.
\<close>

definition job_wf :: "Job \<Rightarrow> bool" where
  "job_wf j \<longleftrightarrow>
     hm_wf (job_files j) \<and> distinct (fsc_filenames (j_filesystem j)) \<and>
     fst ` set (job_files j) = set (fsc_filenames (j_filesystem j)) \<and>
     (\<forall>k fs. hm_get (job_files j) k = Some fs \<longrightarrow> fs_filename fs = k \<and> 92 \<notin> set k)"

text \<open>One file: what its status says about its other fields.\<close>

definition fs_ok :: "FileStatus \<Rightarrow> bool" where
  "fs_ok fs \<longleftrightarrow>
     (fs_status fs = FileError \<longrightarrow>
        fs_error fs \<noteq> None \<and> fs_error_category fs \<noteq> None \<and> fs_finished_at fs \<noteq> None) \<and>
     (fs_status fs = FileDone \<longrightarrow>
        fs_error fs = None \<and> fs_error_category fs = None \<and> fs_finished_at fs \<noteq> None) \<and>
     (fs_next_eligible_at fs \<noteq> None \<longrightarrow> fs_status fs = FileProcessing) \<and>
     (file_terminal fs \<longrightarrow> fs_progress_stage fs = None \<and> fs_progress_current fs = None \<and>
        fs_progress_total fs = None)"

text \<open>
  Results: the error results are exactly the files in error, with the file's message.
\<close>

definition results_ok :: "Job \<Rightarrow> bool" where
  "results_ok j \<longleftrightarrow>
     (\<forall>k m. (\<exists>r \<in> set (ex_results (j_execution j)). re_filename r = k \<and> re_error r = Some m) \<longleftrightarrow>
        (\<exists>fs. hm_get (job_files j) k = Some fs \<and> fs_status fs = FileError \<and> fs_error fs = Some m))"

definition job_inv :: "Job \<Rightarrow> bool" where
  "job_inv j \<longleftrightarrow>
     job_wf j \<and>
     completed_files j = int (hm_count file_terminal (job_files j)) \<and>
     (\<forall>k fs. hm_get (job_files j) k = Some fs \<longrightarrow> fs_ok fs) \<and>
     results_ok j"

lemma job_wf_length: "job_wf j \<Longrightarrow> length (job_files j) = total_files j"
  unfolding job_wf_def hm_wf_def total_files_def
  by (metis distinct_card length_map list.set_map)

lemma hm_count_total: "job_wf j \<Longrightarrow> hm_count P (job_files j) \<le> total_files j"
  using hm_count_le [of P "job_files j"] by (simp add: job_wf_length)

lemma map_fst_modify [simp]: "fst ` set (hm_modify k f m) = fst ` set m"
  unfolding hm_modify_def by (metis keys_map_entry list.set_map)

lemma map_fst_map_values [simp]: "fst ` set (hm_map_values f m) = fst ` set m"
  by (force simp: hm_map_values_def image_iff)

text \<open>The accessors of a job after one file transition.\<close>

lemma with_file_Some:
  assumes "hm_get (job_files j) f = Some fs"
  shows "with_file f u g j =
    (True, j_execution_update (\<lambda>e. g (ex_file_statuses_update (hm_modify f u) e)) j)"
  using assms by (simp add: with_file_def)

lemma with_file_None: "hm_get (job_files j) f = None \<Longrightarrow> with_file f u g j = (False, j)"
  by (simp add: with_file_def)

text \<open>
  A transition of an open file that does not end it: the counter and the results stay.
\<close>

lemma job_inv_modify_open:
  assumes inv: "job_inv j" and get: "hm_get (job_files j) f = Some fs"
    and old: "\<not> file_terminal fs" and new: "\<not> file_terminal (u fs)"
    and name: "fs_filename (u fs) = fs_filename fs" and ok: "fs_ok (u fs)"
  shows "job_inv (j_execution_update (ex_file_statuses_update (hm_modify f u)) j)"
proof -
  let ?j = "j_execution_update (ex_file_statuses_update (hm_modify f u)) j"
  from inv have wf: "hm_wf (job_files j)" by (simp add: job_inv_def job_wf_def)
  have wf': "job_wf ?j"
    using inv get name
    by (auto simp: job_inv_def job_wf_def hmap_store.wf_modify hmap_store.get_modify
        split: if_splits)
  have "hm_count file_terminal (hm_modify f u (job_files j)) = hm_count file_terminal (job_files j)"
    using hm_count_modify [OF wf get, of file_terminal u] old new by simp
  moreover have "results_ok ?j"
    using inv get old new unfolding job_inv_def results_ok_def
    by (auto simp: hmap_store.get_modify file_terminal_def file_terminal_cases)
  ultimately show ?thesis
    using inv wf' get ok
    by (auto simp: job_inv_def hmap_store.get_modify split: if_splits)
qed

text \<open>
  A transition that ends an open file: one more completed file, and an error result exactly when
  the file ends in error.
\<close>

lemma job_inv_modify_close:
  assumes inv: "job_inv j" and get: "hm_get (job_files j) f = Some fs"
    and old: "\<not> file_terminal fs" and new: "file_terminal (u fs)"
    and name: "fs_filename (u fs) = fs_filename fs" and ok: "fs_ok (u fs)"
    and res: "\<And>k m. (\<exists>r \<in> set rs. re_filename r = k \<and> re_error r = Some m) \<longleftrightarrow>
                k = f \<and> fs_status (u fs) = FileError \<and> fs_error (u fs) = Some m"
  shows "job_inv (j_execution_update (\<lambda>e. e
    \<lparr>ex_file_statuses := hm_modify f u (ex_file_statuses e),
     ex_results := ex_results e @ rs, ex_completed_files := ex_completed_files e + 1\<rparr>) j)"
    (is "job_inv ?j")
proof -
  from inv have wf: "hm_wf (job_files j)" by (simp add: job_inv_def job_wf_def)
  have wf': "job_wf ?j"
    using inv get name
    by (auto simp: job_inv_def job_wf_def hmap_store.wf_modify hmap_store.get_modify
        split: if_splits)
  have count: "hm_count file_terminal (hm_modify f u (job_files j)) =
      hm_count file_terminal (job_files j) + 1"
    using hm_count_modify [OF wf get, of file_terminal u] old new by simp
  have "results_ok ?j"
    unfolding results_ok_def
  proof (intro allI)
    fix k m
    have "(\<exists>r \<in> set (ex_results (j_execution j) @ rs). re_filename r = k \<and> re_error r = Some m) \<longleftrightarrow>
        (\<exists>g. hm_get (job_files j) k = Some g \<and> fs_status g = FileError \<and> fs_error g = Some m)
        \<or> k = f \<and> fs_status (u fs) = FileError \<and> fs_error (u fs) = Some m"
      using inv res unfolding job_inv_def results_ok_def set_append bex_Un by blast
    also have "\<dots> \<longleftrightarrow> (\<exists>g. hm_get (hm_modify f u (job_files j)) k = Some g \<and>
        fs_status g = FileError \<and> fs_error g = Some m)"
      using get old by (auto simp: hmap_store.get_modify file_terminal_def file_terminal_cases)
    finally show "(\<exists>r \<in> set (ex_results (j_execution ?j)). re_filename r = k \<and> re_error r = Some m)
      \<longleftrightarrow> (\<exists>g. hm_get (job_files ?j) k = Some g \<and> fs_status g = FileError \<and> fs_error g = Some m)"
      by simp
  qed
  then show ?thesis
    using inv wf' get ok count
    by (auto simp: job_inv_def hmap_store.get_modify split: if_splits)
qed

text \<open>Nothing but the file names, the file table, the counter and the results matters.\<close>

lemma job_inv_cong:
  assumes "job_inv j" and "j_filesystem j' = j_filesystem j" and "job_files j' = job_files j"
    and "completed_files j' = completed_files j"
    and "ex_results (j_execution j') = ex_results (j_execution j)"
  shows "job_inv j'"
  using assms by (simp add: job_inv_def job_wf_def results_ok_def)

lemmas job_plain_defs =
  request_cancellation_def cancel_token_def requeue_after_memory_gate_def mark_running_def
  record_worker_count_def job_fail_def cancel_for_shutdown_def clear_lease_def
  renew_local_dispatch_lease_def release_local_dispatch_claim_def Let_def

section \<open>Preservation, event by event\<close>

lemma file_openE:
  assumes "file_open j f"
  obtains fs where "hm_get (job_files j) f = Some fs" and "\<not> file_terminal fs"
  using assms by (auto simp: file_open_def split: option.splits)

lemma fs_ok_get: "job_inv j \<Longrightarrow> hm_get (job_files j) k = Some fs \<Longrightarrow> fs_ok fs"
  by (auto simp: job_inv_def)

lemma job_inv_get_name:
  assumes "job_inv j" and "hm_get (job_files j) f = Some fs"
  shows "normalize_backslashes f = f"
  using assms by (simp add: job_inv_def job_wf_def normalize_backslashes_def)

lemma not_terminal_status: "\<not> file_terminal fs \<longleftrightarrow> fs_status fs \<noteq> FileDone \<and> fs_status fs \<noteq> FileError"
  by (simp add: file_terminal_def file_terminal_cases)

lemma inv_open_update:
  assumes "job_inv j" and "file_open j f"
    and "\<And>fs. \<not> file_terminal fs \<Longrightarrow> fs_ok fs \<Longrightarrow>
           \<not> file_terminal (u fs) \<and> fs_filename (u fs) = fs_filename fs \<and> fs_ok (u fs)"
  shows "job_inv (snd (with_file f u (\<lambda>e. e) j))"
  using assms(2)
proof (rule file_openE)
  fix fs
  assume get: "hm_get (job_files j) f = Some fs" and opn: "\<not> file_terminal fs"
  with assms show ?thesis
    by (auto simp: with_file_Some [OF get] intro!: job_inv_modify_open [OF _ get opn]
        dest: fs_ok_get)
qed

lemma inv_processing: "job_inv j \<Longrightarrow> file_open j f \<Longrightarrow> job_inv (snd (mark_file_processing j f t))"
  unfolding mark_file_processing_def
  by (erule inv_open_update) (auto simp: fs_processing_def file_terminal_def file_terminal_cases fs_ok_def)

lemma inv_attempt: "job_inv j \<Longrightarrow> file_open j f \<Longrightarrow> job_inv (snd (start_file_attempt j f t))"
  unfolding start_file_attempt_def
  by (erule inv_open_update) (auto simp: file_terminal_def file_terminal_cases fs_ok_def)

lemma inv_retry: "job_inv j \<Longrightarrow> file_open j f \<Longrightarrow> job_inv (snd (mark_file_retry_pending j f r))"
  unfolding mark_file_retry_pending_def
  by (erule inv_open_update) (auto simp: fs_retry_pending_def file_terminal_def file_terminal_cases fs_ok_def)

lemma inv_clear: "job_inv j \<Longrightarrow> file_open j f \<Longrightarrow> job_inv (snd (clear_file_retry_state j f))"
  unfolding clear_file_retry_state_def
  by (erule inv_open_update) (auto simp: file_terminal_def file_terminal_cases fs_ok_def)

lemma inv_progress: "job_inv j \<Longrightarrow> file_open j f \<Longrightarrow> job_inv (snd (set_file_progress j f p))"
  unfolding set_file_progress_def
  by (erule inv_open_update) (auto simp: file_terminal_def file_terminal_cases fs_ok_def)

lemma inv_done:
  assumes "job_inv j" and "file_open j f"
  shows "job_inv (snd (mark_file_done j f t r))"
  using assms(2)
proof (rule file_openE)
  fix fs
  assume get: "hm_get (job_files j) f = Some fs" and opn: "\<not> file_terminal fs"
  let ?rs = "case r of None \<Rightarrow> [] | Some c \<Rightarrow>
    [\<lparr>re_filename = co_filename c, re_content_type = co_content_type c, re_error = None\<rparr>]"
  have "job_inv (j_execution_update (\<lambda>e. e
      \<lparr>ex_file_statuses := hm_modify f (fs_done t) (ex_file_statuses e),
       ex_results := ex_results e @ ?rs, ex_completed_files := ex_completed_files e + 1\<rparr>) j)"
    using opn
    by (intro job_inv_modify_close [OF assms(1) get])
      (auto simp: fs_done_def fs_ok_def file_terminal_def split: option.splits)
  then show ?thesis
    by (rule job_inv_cong)
      (simp_all add: mark_file_done_def with_file_Some [OF get] split: option.splits)
qed

lemma inv_error:
  assumes "job_inv j" and "file_open j f"
  shows "job_inv (snd (mark_file_error j f r))"
  using assms(2)
proof (rule file_openE)
  fix fs
  assume get: "hm_get (job_files j) f = Some fs" and opn: "\<not> file_terminal fs"
  let ?rs = "[\<lparr>re_filename = normalize_backslashes f, re_content_type = CtChat,
               re_error = Some (ff_message r)\<rparr>]"
  have "job_inv (j_execution_update (\<lambda>e. e
      \<lparr>ex_file_statuses := hm_modify f (fs_failed r) (ex_file_statuses e),
       ex_results := ex_results e @ ?rs, ex_completed_files := ex_completed_files e + 1\<rparr>) j)"
    using opn job_inv_get_name [OF assms(1) get]
    by (intro job_inv_modify_close [OF assms(1) get])
      (auto simp: fs_failed_def fs_ok_def file_terminal_def)
  then show ?thesis
    by (rule job_inv_cong) (simp_all add: mark_file_error_def with_file_Some [OF get])
qed

lemma inv_finalize: "job_inv j \<Longrightarrow> job_inv (finalize j s t)"
  by (auto simp: job_inv_def job_wf_def results_ok_def finalize_def)

lemma inv_restart:
  assumes "job_inv j"
  shows "job_inv (prepare_for_restart j i)"
proof -
  let ?j = "prepare_for_restart j i"
  have files: "job_files ?j = hm_map_values fs_restart (job_files j)"
    by (simp add: prepare_for_restart_def clear_lease_def)
  have dn: "file_terminal (fs_restart fs) = file_is_done (fs_restart fs)" for fs
    by (simp add: fs_restart_def file_terminal_def file_terminal_cases file_is_done_def)
  have err: "fs_status (fs_restart fs) \<noteq> FileError" for fs
    by (simp add: fs_restart_def)
  have "job_wf ?j"
    using assms unfolding job_inv_def job_wf_def files
    by (auto simp: hm_get_map_values prepare_for_restart_def clear_lease_def fs_restart_def)
  moreover have "completed_files ?j = int (hm_count file_terminal (job_files ?j))"
    unfolding files by (simp add: prepare_for_restart_def clear_lease_def hm_count_map_values dn)
  moreover have "fs_ok fs \<Longrightarrow> fs_ok (fs_restart fs)" for fs
    by (auto simp: fs_ok_def fs_restart_def file_terminal_def)
  moreover have "results_ok ?j"
    using err unfolding results_ok_def files hm_get_map_values
    by (auto simp: prepare_for_restart_def clear_lease_def)
  ultimately show ?thesis
    using assms unfolding job_inv_def files by (auto simp: hm_get_map_values)
qed

lemma inv_recover:
  assumes "job_inv j"
  shows "job_inv (snd (reconcile_recovered_runtime_state j))"
proof (cases "list_ex file_resumable (hm_values (job_files j))")
  case True
  let ?j = "snd (reconcile_recovered_runtime_state j)"
  have files: "job_files ?j = hm_map_values fs_recover (job_files j)"
    and rest: "completed_files ?j = completed_files j" "j_filesystem ?j = j_filesystem j"
      "ex_results (j_execution ?j) = ex_results (j_execution j)"
    using True by (simp_all add: reconcile_recovered_runtime_state_def Let_def clear_lease_def)
  have trm: "file_terminal (fs_recover fs) = file_terminal fs" for fs
    by (simp add: fs_recover_def file_terminal_def file_resumable_def
        file_resumable_iff_not_terminal)
  have err: "fs_status (fs_recover fs) = FileError \<longleftrightarrow> fs_status fs = FileError"
    "fs_error (fs_recover fs) = fs_error fs" for fs
    by (cases "fs_status fs"; simp add: fs_recover_def file_resumable_def)+
  have "fs_ok fs \<Longrightarrow> fs_ok (fs_recover fs)" for fs
    by (auto simp: fs_ok_def fs_recover_def file_terminal_def file_resumable_def)
  moreover have "job_wf ?j"
    using assms unfolding job_inv_def job_wf_def files rest
    by (auto simp: hm_get_map_values fs_recover_def)
  moreover have "results_ok ?j"
    using assms unfolding job_inv_def results_ok_def files rest hm_get_map_values
    by (auto simp: err)
  ultimately show ?thesis
    using assms unfolding job_inv_def files rest
    by (auto simp: hm_get_map_values hm_count_map_values trm)
next
  case False
  let ?j = "snd (reconcile_recovered_runtime_state j)"
  have same: "job_files ?j = job_files j" "completed_files ?j = int (total_files j)"
    "j_filesystem ?j = j_filesystem j" "ex_results (j_execution ?j) = ex_results (j_execution j)"
    using False by (simp_all add: reconcile_recovered_runtime_state_def Let_def clear_lease_def)
  have "filter file_terminal (hm_values (job_files j)) = hm_values (job_files j)"
    using False by (intro filter_True) (auto simp: list_ex_iff file_resumable_def file_terminal_def
        file_resumable_iff_not_terminal)
  then have "hm_count file_terminal (job_files j) = length (job_files j)"
    by (simp add: hm_count_def hm_values_def)
  then show ?thesis
    using assms job_wf_length [of j] unfolding job_inv_def job_wf_def results_ok_def same by simp
qed

lemma inv_plain:
  assumes "job_inv j"
  shows "job_inv (snd (request_cancellation j t))" "job_inv (requeue_after_memory_gate j t)"
    "job_inv (mark_running j)" "job_inv (record_worker_count j n)" "job_inv (job_fail j e t)"
    "job_inv (snd (cancel_for_shutdown j t))"
    "job_inv (snd (renew_local_dispatch_lease j node t ttl))"
    "job_inv (release_local_dispatch_claim j)"
  by (rule job_inv_cong [OF assms]; simp add: job_plain_defs)+

lemma job_inv_step: "job_step j ev j' \<Longrightarrow> job_inv j \<Longrightarrow> job_inv j'"
proof (erule job_step.cases, clarify)
  fix j ev
  assume "job_enabled j ev" and "job_inv j"
  then show "job_inv (job_apply ev j)"
    by (cases ev) (simp_all add: job_enabled_def inv_plain inv_restart inv_recover inv_finalize
        inv_processing inv_done inv_error inv_attempt inv_retry inv_clear inv_progress)
qed

lemma job_inv_run: "job_run j evs j' \<Longrightarrow> job_inv j \<Longrightarrow> job_inv j'"
  by (induction rule: job_run.induct) (auto dest: job_inv_step)

section \<open>A small job for the examples\<close>

definition demo_job :: "rstr \<Rightarrow> rstr list \<Rightarrow> Job" where
  "demo_job i names =
     \<lparr>j_identity = \<lparr>id_job_id = i, id_correlation_id = i\<rparr>,
      j_dispatch = \<lparr>dc_command = CmdMorphotag, dc_lang = LangResolved code_eng,
        dc_num_speakers = 1, dc_options = [], dc_runtime_state = [], dc_debug_traces = False\<rparr>,
      j_source = \<lparr>src_submitted_by = lit ''127.0.0.1'', src_submitted_by_name = [],
        src_source_dir = lit ''/corpus''\<rparr>,
      j_filesystem = \<lparr>fsc_filenames = names, fsc_has_chat = map (\<lambda>_. True) names,
        fsc_staging_dir = lit ''/tmp/job'', fsc_paths_mode = False, fsc_source_paths = [],
        fsc_output_paths = [], fsc_before_paths = [], fsc_media_mapping = [],
        fsc_media_subdir = [], fsc_source_dir = []\<rparr>,
      j_execution = \<lparr>ex_status = JobQueued,
        ex_file_statuses = map (\<lambda>n. (n, file_status_new n)) names, ex_results = [],
        ex_error = None, ex_completed_files = 0, ex_batch_progress = None\<rparr>,
      j_schedule = \<lparr>sch_submitted_at = 100, sch_completed_at = None,
        sch_next_eligible_at = None, sch_num_workers = None,
        sch_lease = \<lparr>ls_leased_by_node = None, ls_expires_at = None, ls_heartbeat_at = None\<rparr>\<rparr>,
      j_runtime = \<lparr>rt_cancel_token = token_new 0, rt_runner_active = False\<rparr>\<rparr>"

lemma hm_get_fresh_table:
  "hm_get (map (\<lambda>n. (n, file_status_new n)) ns) k =
    (if k \<in> set ns then Some (file_status_new k) else None)"
  by (induction ns) (auto simp: hm_get_def)

lemma fresh_not_terminal [simp]: "\<not> file_terminal (file_status_new n)"
  by (simp add: file_terminal_def file_status_new_def)

lemma job_inv_fresh:
  assumes "distinct names" and "\<forall>n \<in> set names. 92 \<notin> set n"
    and "fsc_filenames (j_filesystem j) = names"
    and "job_files j = map (\<lambda>n. (n, file_status_new n)) names"
    and "completed_files j = 0" and "ex_results (j_execution j) = []"
  shows "job_inv j"
proof -
  have "hm_count file_terminal (map (\<lambda>n. (n, file_status_new n)) names) = 0"
    by (simp add: hm_count_def hm_values_def filter_empty_conv)
  moreover have "fs_ok (file_status_new n)" for n
    by (simp add: fs_ok_def file_status_new_def file_terminal_def)
  moreover have "fst ` set (map (\<lambda>n. (n, file_status_new n)) names) = set names"
    by (force simp: image_iff)
  moreover have "fs_status (file_status_new n) = FileQueued" "fs_filename (file_status_new n) = n" for n
    by (simp_all add: file_status_new_def)
  ultimately show ?thesis
    using assms
    by (auto simp: job_inv_def job_wf_def results_ok_def hm_wf_def comp_def hm_get_fresh_table
        split: if_splits)
qed

lemma job_inv_demo:
  "distinct names \<Longrightarrow> \<forall>n \<in> set names. 92 \<notin> set n \<Longrightarrow> job_inv (demo_job i names)"
  by (rule job_inv_fresh) (simp_all add: demo_job_def)

section \<open>Properties\<close>

text \<open>
  C2: the completion counter and the results of a job. Whatever sequence of guarded events a
  well-formed job goes through, its counter is the number of its terminal files and lies between
  0 and the number of its files, and its error results are exactly its files in error, with
  their messages.
\<close>

theorem job_run_counter:
  assumes "job_inv j" and "job_run j evs j'"
  shows "completed_files j' = int (hm_count file_terminal (job_files j')) \<and>
    0 \<le> completed_files j' \<and> completed_files j' \<le> int (total_files j') \<and> results_ok j'"
  using job_inv_run [OF assms(2,1)] hm_count_total [of j' file_terminal]
  by (simp add: job_inv_def)

lemma job_run_counter_witness:
  "let j' = fold job_apply
      [EvRunning, EvDone [97] 1 None, EvFinalize JobCompleted 2] (demo_job [1] [[97], [98]])
   in completed_files j' = int (hm_count file_terminal (job_files j')) \<and>
    0 \<le> completed_files j' \<and> completed_files j' \<le> int (total_files j') \<and> results_ok j'"
  unfolding Let_def
proof (rule job_run_counter)
  show "job_inv (demo_job [1] [[97], [98]])"
    by (rule job_inv_demo) auto
  show "job_run (demo_job [1] [[97], [98]]) [EvRunning, EvDone [97] 1 None, EvFinalize JobCompleted 2]
    (fold job_apply
      [EvRunning, EvDone [97] 1 None, EvFinalize JobCompleted 2] (demo_job [1] [[97], [98]]))"
    by (rule job_run_fold)
      (simp add: job_enabled_def file_open_def demo_job_def mark_running_def hm_get_def
        file_terminal_def file_status_new_def)
qed

text \<open>The frame of the file transitions and the revival of terminal jobs.\<close>

lemma job_status_with_file [simp]:
  assumes "\<And>e. ex_status (g e) = ex_status e"
  shows "job_status (snd (with_file f u g j)) = job_status j"
  using assms by (simp add: with_file_def split: option.splits)

fun reviving :: "JobEvent \<Rightarrow> bool" where
  "reviving EvRunning = True"
| "reviving EvRecover = True"
| "reviving (EvRequeue _) = True"
| "reviving (EvRestart _) = True"
| "reviving _ = False"

lemma not_reviving_terminal:
  assumes "job_enabled j ev" and "job_is_terminal (job_status j)" and "\<not> reviving ev"
  shows "job_is_terminal (job_status (job_apply ev j))"
  using assms
  by (cases ev)
    (auto simp: job_enabled_def mark_file_processing_def mark_file_done_def
      mark_file_error_def start_file_attempt_def mark_file_retry_pending_def
      clear_file_retry_state_def set_file_progress_def job_plain_defs finalize_def
      split: option.splits)

text \<open>
  A terminal job comes back to life only by a restart, a requeue after the memory gate, a
  start of its runner, or the recovery at startup; every other guarded event keeps it terminal.
\<close>

theorem terminal_status_left_only_by:
  assumes "job_step j ev j'" and "job_is_terminal (job_status j)"
    and "\<not> job_is_terminal (job_status j')"
  shows "ev = EvRunning \<or> ev = EvRecover \<or> (\<exists>t. ev = EvRequeue t) \<or>
    (\<exists>i. ev = EvRestart i \<and> job_can_restart (job_status j))"
proof -
  from assms(1) have ev: "job_enabled j ev" "j' = job_apply ev j"
    by (simp_all add: job_step_iff)
  with not_reviving_terminal assms(2,3) have "reviving ev" by blast
  with ev(1) show ?thesis by (cases ev) (simp_all add: job_enabled_def)
qed

lemma terminal_status_left_only_by_witness:
  "EvRestart 7 = EvRunning \<or> EvRestart 7 = EvRecover \<or> (\<exists>t. EvRestart 7 = EvRequeue t) \<or>
    (\<exists>i. EvRestart 7 = EvRestart i \<and>
       job_can_restart (job_status (job_fail (demo_job [1] [[97]]) [] 5)))"
proof (rule terminal_status_left_only_by)
  let ?j = "job_fail (demo_job [1] [[97]]) [] 5"
  show "job_step ?j (EvRestart 7) (job_apply (EvRestart 7) ?j)"
    by (rule job_stepI) (simp add: job_enabled_def job_fail_def)
  show "job_is_terminal (job_status ?j)"
    by (simp add: job_fail_def)
  show "\<not> job_is_terminal (job_status (job_apply (EvRestart 7) ?j))"
    by (simp add: prepare_for_restart_def clear_lease_def)
qed

lemma fs_restart_reset:
  "fs_status fs \<noteq> FileDone \<Longrightarrow> fs_restart fs = (file_status_new (fs_filename fs))
    \<lparr>fs_error_codes := fs_error_codes fs, fs_error_line := fs_error_line fs,
     fs_bug_report_id := fs_bug_report_id fs\<rparr>"
  by (cases fs) (simp add: fs_restart_def file_status_new_def)

lemma fs_restart_done: "fs_status fs = FileDone \<Longrightarrow> fs_restart fs = fs"
  by (simp add: fs_restart_def)

text \<open>
  What a restart leaves. The job is queued, without error, lease, deferral or completion
  time, under a fresh uncancelled token; its successful results and done files are kept; every
  other file is queued again with nothing of its last attempt; the counter counts the done files;
  and the files the runner will process are exactly the submitted ones that are not done.
\<close>

theorem restart_resets:
  assumes "job_wf j"
    and "length (fsc_has_chat (j_filesystem j)) = length (fsc_filenames (j_filesystem j))"
  shows "job_status (prepare_for_restart j i) = JobQueued \<and>
    ex_error (j_execution (prepare_for_restart j i)) = None \<and>
    active_lease (prepare_for_restart j i) = None \<and>
    \<not> is_cancelled (prepare_for_restart j i) \<and>
    sch_completed_at (j_schedule (prepare_for_restart j i)) = None \<and>
    ex_results (j_execution (prepare_for_restart j i)) =
      filter (\<lambda>r. re_error r = None) (ex_results (j_execution j)) \<and>
    (\<forall>k fs. hm_get (job_files (prepare_for_restart j i)) k = Some fs \<longrightarrow>
       (file_is_done fs \<and> hm_get (job_files j) k = Some fs) \<or>
       (\<exists>old. hm_get (job_files j) k = Some old \<and>
          fs = (file_status_new (fs_filename old))
            \<lparr>fs_error_codes := fs_error_codes old, fs_error_line := fs_error_line old,
             fs_bug_report_id := fs_bug_report_id old\<rparr>)) \<and>
    completed_files (prepare_for_restart j i) = int (hm_count file_is_done (job_files j)) \<and>
    map pf_filename (pending_files (prepare_for_restart j i)) =
      filter (\<lambda>f. \<not> (\<exists>fs. hm_get (job_files j) f = Some fs \<and> file_is_done fs))
        (fsc_filenames (j_filesystem j))"
proof -
  let ?j = "prepare_for_restart j i"
  have files: "job_files ?j = hm_map_values fs_restart (job_files j)"
    and sys: "j_filesystem ?j = j_filesystem j"
    by (simp_all add: prepare_for_restart_def clear_lease_def)
  have keep: "file_is_done (fs_restart fs) = file_is_done fs" for fs
    by (simp add: fs_restart_def file_is_done_def)
  have entry: "hm_get (job_files ?j) k = Some fs \<Longrightarrow>
       (file_is_done fs \<and> hm_get (job_files j) k = Some fs) \<or>
       (\<exists>old. hm_get (job_files j) k = Some old \<and>
          fs = (file_status_new (fs_filename old))
            \<lparr>fs_error_codes := fs_error_codes old, fs_error_line := fs_error_line old,
             fs_bug_report_id := fs_bug_report_id old\<rparr>)" for k fs
    unfolding files hm_get_map_values file_is_done_def
    by (cases "hm_get (job_files j) k") (auto intro: fs_restart_reset simp: fs_restart_done)
  have done_iff: "already_done ?j f \<longleftrightarrow>
      (\<exists>fs. hm_get (job_files j) f = Some fs \<and> file_is_done fs)" for f
    unfolding already_done_def files hm_get_map_values
    by (auto simp: fs_restart_def file_terminal_def file_is_done_def split: option.splits)
  have pending: "map pf_filename (pending_files ?j) =
      filter (\<lambda>f. \<not> (\<exists>fs. hm_get (job_files j) f = Some fs \<and> file_is_done fs))
        (fsc_filenames (j_filesystem j))"
    using pending_files_filenames [of ?j] assms(2) unfolding sys done_iff by simp
  have count: "completed_files ?j = int (hm_count file_is_done (job_files j))"
    by (simp add: prepare_for_restart_def clear_lease_def hm_count_map_values keep)
  have flags: "job_status ?j = JobQueued" "ex_error (j_execution ?j) = None"
    "active_lease ?j = None" "\<not> is_cancelled ?j" "sch_completed_at (j_schedule ?j) = None"
    "ex_results (j_execution ?j) = filter (\<lambda>r. re_error r = None) (ex_results (j_execution j))"
    by (simp_all add: prepare_for_restart_def clear_lease_def active_lease_def is_cancelled_def
        token_new_def)
  show ?thesis using flags entry count pending by blast
qed

lemma restart_resets_witness:
  "job_wf (demo_job [1] [[97]]) \<and> job_status (prepare_for_restart (demo_job [1] [[97]]) 3) = JobQueued"
proof -
  have wf: "job_wf (demo_job [1] [[97]])"
    using job_inv_demo [of "[[97]]" "[1]"] by (simp add: job_inv_def)
  moreover have "length (fsc_has_chat (j_filesystem (demo_job [1] [[97]]))) =
      length (fsc_filenames (j_filesystem (demo_job [1] [[97]])))"
    by (simp add: demo_job_def)
  ultimately show ?thesis
    using restart_resets [of "demo_job [1] [[97]]" 3] by blast
qed

lemma fs_recover_idem: "fs_recover (fs_recover fs) = fs_recover fs"
  by (simp add: fs_recover_def file_resumable_def)

lemma hm_map_values_idem:
  "(\<And>v. f (f v) = f v) \<Longrightarrow> hm_map_values f (hm_map_values f m) = hm_map_values f m"
  by (simp add: hm_map_values_def case_prod_beta)

lemma clear_lease_twice [simp]: "clear_lease (clear_lease j) = clear_lease j"
  by (simp add: clear_lease_def)

text \<open>
  Startup recovery. Afterwards no file is processing or interrupted and no lease is held; the
  job is queued exactly when some file could be resumed, and then that is the disposition; else it
  failed exactly when every file is in error, and otherwise it completed with its counter at the
  total. Recovering twice is recovering once.
\<close>

theorem recovery_reconciles:
  "(let (d, j') = reconcile_recovered_runtime_state j
    in (d = RecRequeued) = list_ex file_resumable (hm_values (job_files j)) \<and>
       job_status j' = (case d of RecRequeued \<Rightarrow> JobQueued | RecFailed \<Rightarrow> JobFailed
                        | RecCompleted \<Rightarrow> JobCompleted) \<and>
       list_all (\<lambda>fs. fs_status fs \<in> {FileQueued, FileDone, FileError}) (hm_values (job_files j')) \<and>
       (d = RecFailed) = list_all (\<lambda>fs. fs_status fs = FileError) (hm_values (job_files j')) \<and>
       completed_files j' = (if d = RecRequeued then completed_files j else int (total_files j)) \<and>
       active_lease j' = None \<and>
       reconcile_recovered_runtime_state j' = (d, j'))"
proof (cases "list_ex file_resumable (hm_values (job_files j))")
  case True
  obtain j' where r: "reconcile_recovered_runtime_state j = (RecRequeued, j')"
    using True by (simp add: reconcile_recovered_runtime_state_def Let_def)
  then have files: "job_files j' = hm_map_values fs_recover (job_files j)"
    and rest: "job_status j' = JobQueued" "completed_files j' = completed_files j"
      "active_lease j' = None"
    using True
    by (auto simp: reconcile_recovered_runtime_state_def Let_def clear_lease_def active_lease_def)
  obtain fs where fs: "fs \<in> set (hm_values (job_files j))" "file_resumable fs"
    using True by (auto simp: list_ex_iff)
  then have some: "list_ex file_resumable (hm_values (job_files j'))"
    unfolding files hm_values_map_values list_ex_iff set_map
    by (intro bexI [of _ "fs_recover fs"]) (auto simp: fs_recover_def file_resumable_def)
  have kinds: "fs_status (fs_recover fs) \<in> {FileQueued, FileDone, FileError}" for fs
    by (cases "fs_status fs") (simp_all add: fs_recover_def file_resumable_def)
  have not_all: "\<not> list_all (\<lambda>fs. fs_status fs = FileError) (hm_values (job_files j'))"
    using some by (force simp: list_ex_iff list_all_iff file_resumable_def)
  have "reconcile_recovered_runtime_state j' = (RecRequeued, j')"
    using True some r
    by (auto simp: reconcile_recovered_runtime_state_def Let_def clear_lease_def
        hm_map_values_idem fs_recover_idem comp_def)
  with True r rest kinds not_all files show ?thesis
    by (simp add: hm_values_map_values list_all_iff)
next
  case False
  let ?e = "list_all (\<lambda>fs. fs_status fs = FileError) (hm_values (job_files j))"
  let ?d = "if ?e then RecFailed else RecCompleted"
  obtain j' where r: "reconcile_recovered_runtime_state j = (?d, j')"
    using False by (simp add: reconcile_recovered_runtime_state_def Let_def)
  then have same: "job_files j' = job_files j" "total_files j' = total_files j"
      "completed_files j' = int (total_files j)" "active_lease j' = None"
      "job_status j' = (if ?e then JobFailed else JobCompleted)"
    using False
    by (auto simp: reconcile_recovered_runtime_state_def Let_def clear_lease_def
        active_lease_def total_files_def)
  have kinds: "list_all (\<lambda>fs. fs_status fs \<in> {FileQueued, FileDone, FileError})
      (hm_values (job_files j))"
    using False
    by (auto simp: list_ex_iff list_all_iff file_resumable_def file_resumable_iff_not_terminal
        file_terminal_cases)
  have "reconcile_recovered_runtime_state j' = (?d, j')"
    using False r
    by (auto simp: reconcile_recovered_runtime_state_def Let_def clear_lease_def total_files_def)
  with False r same kinds show ?thesis by (simp split: if_splits)
qed

text \<open>
  a lease is renewed exactly for a live claim of the renewing node on a job that is not
  terminal: then the new lease carries the node, the heartbeat and its expiry; in every other
  case nothing changes and no lease is returned.
\<close>

theorem renew_lease_iff_owner:
  "renew_local_dispatch_lease j node now ttl =
    (if rt_runner_active (j_runtime j) \<and> job_is_active (job_status j) \<and>
        ls_leased_by_node (sch_lease (j_schedule j)) = Some node
     then (Some \<lparr>lr_leased_by_node = node, lr_heartbeat_at = now, lr_expires_at = now + ttl\<rparr>,
           j_schedule_update (sch_lease_update (\<lambda>_. \<lparr>ls_leased_by_node = Some node,
              ls_expires_at = Some (now + ttl), ls_heartbeat_at = Some now\<rparr>)) j)
     else (None, j))"
  by (simp add: renew_local_dispatch_lease_def job_active_iff_not_terminal active_lease_def Let_def)

text \<open>
  the files handed to the runner are the files the job still reports as unfinished, each at
  its index in the submission.
\<close>

theorem pending_matches_unfinished:
  assumes "job_wf j"
    and "length (fsc_has_chat (j_filesystem j)) = length (fsc_filenames (j_filesystem j))"
  shows "set (map pf_filename (pending_files j)) = set (unfinished_files j) \<and>
    distinct (map pf_filename (pending_files j)) \<and>
    list_all (\<lambda>pf. pf_file_index pf < total_files j \<and>
      fsc_filenames (j_filesystem j) ! pf_file_index pf = pf_filename pf) (pending_files j)"
proof -
  have "f \<in> set (unfinished_files j) \<longleftrightarrow>
      f \<in> set (fsc_filenames (j_filesystem j)) \<and> \<not> already_done j f" for f
  proof
    assume "f \<in> set (unfinished_files j)"
    then obtain fs where fs: "fs \<in> set (hm_values (job_files j))" "\<not> file_terminal fs"
        "f = fs_filename fs"
      by (auto simp: unfinished_files_def)
    have "hm_wf (job_files j)" using assms(1) by (simp add: job_wf_def)
    from hm_values_get [OF this fs(1)] obtain k where k: "hm_get (job_files j) k = Some fs"
      by blast
    then have "f = k" using assms(1) fs(3) by (simp add: job_wf_def)
    moreover have "(k, fs) \<in> set (job_files j)"
      using k by (simp add: hm_get_def map_of_SomeD)
    then have "k \<in> fst ` set (job_files j)" by (metis fst_conv imageI)
    ultimately show "f \<in> set (fsc_filenames (j_filesystem j)) \<and> \<not> already_done j f"
      using k fs(2) assms(1) by (simp add: job_wf_def already_done_def)
  next
    assume f: "f \<in> set (fsc_filenames (j_filesystem j)) \<and> \<not> already_done j f"
    then have "f \<in> fst ` set (job_files j)" using assms(1) by (simp add: job_wf_def)
    then obtain fs where fs: "hm_get (job_files j) f = Some fs"
      unfolding hm_get_def by (metis map_of_eq_None_iff not_None_eq)
    with f assms(1) have "\<not> file_terminal fs" "fs_filename fs = f"
      by (auto simp: already_done_def job_wf_def)
    with hm_get_in_values [OF fs] show "f \<in> set (unfinished_files j)"
      by (auto simp: unfinished_files_def)
  qed
  then have "set (map pf_filename (pending_files j)) = set (unfinished_files j)"
    unfolding pending_files_filenames [OF assms(2)] by auto
  moreover have "distinct (map pf_filename (pending_files j))"
    using assms(1) unfolding pending_files_filenames [OF assms(2)] by (simp add: job_wf_def)
  ultimately show ?thesis
    by (auto simp: list_all_iff dest: pending_file_nth)
qed

lemma pending_matches_unfinished_witness:
  "set (map pf_filename (pending_files (demo_job [1] [[97]]))) =
    set (unfinished_files (demo_job [1] [[97]]))"
proof -
  have "job_wf (demo_job [1] [[97]])"
    using job_inv_demo [of "[[97]]" "[1]"] by (simp add: job_inv_def)
  moreover have "length (fsc_has_chat (j_filesystem (demo_job [1] [[97]]))) =
      length (fsc_filenames (j_filesystem (demo_job [1] [[97]])))"
    by (simp add: demo_job_def)
  ultimately show ?thesis
    using pending_matches_unfinished [of "demo_job [1] [[97]]"] by blast
qed

text \<open>
  nothing in the job itself keeps its counter in bounds: completing the only file of a job
  twice leaves two completed files of one.
\<close>

theorem double_completion_exceeds_total:
  "(let j = snd (mark_file_done (demo_job i [f]) f t None);
        j' = snd (mark_file_done j f t None)
    in completed_files j' = 2 \<and> total_files j' = 1)"
  by (simp add: mark_file_done_def with_file_def demo_job_def hm_get_def hm_modify_def
      total_files_def)

end
