(* ===== verification/Registry.thy ===== *)
theory Registry
  imports Job_Lifecycle "HOL-Library.Multiset"
begin

text \<open>
  The job registry (\<open>store/registry.rs\<close>): the map from job ids to jobs that one actor task
  owns. The actor runs each command to its end before it takes the next, so an operation is a
  function on the map and a history is a sequence of operations. Projections that render a
  timestamp take the renderer \<open>ts_iso\<close>; the \<open>Debug\<close> text of a list of names in the conflict
  message is the argument \<open>debug_names\<close>.
\<close>

type_synonym Jobs = "(JobId, Job) hmap"

record JobCompletionSnapshot =
  cs_cancelled :: bool
  cs_all_failed :: bool

record FileUpdateProjection =
  fu_job_id :: JobId
  fu_file :: FileStatusEntry
  fu_completed_files :: int

record JobRestartProjection =
  rp_info :: JobInfo
  rp_job_update :: JobListItem

section \<open>The three access paths\<close>

definition project_job :: "JobId \<Rightarrow> (Job \<Rightarrow> 'r) \<Rightarrow> Jobs \<Rightarrow> 'r option" where
  "project_job i f jobs = map_option f (hm_get jobs i)"

definition update_job :: "JobId \<Rightarrow> (Job \<Rightarrow> 'r \<times> Job) \<Rightarrow> Jobs \<Rightarrow> 'r option \<times> Jobs" where
  "update_job i f jobs =
     (case hm_get jobs i of
        None \<Rightarrow> (None, jobs)
      | Some j \<Rightarrow> (Some (fst (f j)), hm_modify i (\<lambda>j. snd (f j)) jobs))"

definition remove_job :: "JobId \<Rightarrow> (Job \<Rightarrow> 'r) \<Rightarrow> Jobs \<Rightarrow> 'r option \<times> Jobs" where
  "remove_job i f jobs = (map_option f (hm_get jobs i), hm_remove i jobs)"

definition opt_flatten :: "'a option option \<Rightarrow> 'a option" where
  "opt_flatten x = (case x of None \<Rightarrow> None | Some y \<Rightarrow> y)"

section \<open>Whole-registry operations\<close>

definition conflict_detail :: "ConflictEntry \<Rightarrow> ConflictDetail" where
  "conflict_detail c =
     \<lparr>cd_filename = ce_filename c, cd_job_id = ce_job_id c, cd_command = ce_command c,
      cd_status = ce_status c\<rparr>"

definition insert_checked ::
  "(rstr list \<Rightarrow> rstr) \<Rightarrow> Job \<Rightarrow> Jobs \<Rightarrow> (ServerError + unit) \<times> Jobs" where
  "insert_checked debug_names job jobs =
     (let conflicts = find_conflicts jobs job
      in if conflicts \<noteq> []
         then (Inl (SeJobConflict
                 (lit ''Files already being processed by an active job: ''
                    @ debug_names (map ce_filename conflicts))
                 (map conflict_detail conflicts)), jobs)
         else (Inr (), hm_insert (job_id job) job jobs))"

text \<open>\<open>sort_by\<close> is stable; the comparison is reversed, so the newest come first.\<close>

definition sort_desc_by :: "('a \<Rightarrow> rstr) \<Rightarrow> 'a list \<Rightarrow> 'a list" where
  "sort_desc_by k xs = rev (sort_key k (rev xs))"

definition submitted_key :: "JobListItem \<Rightarrow> rstr" where
  "submitted_key it = (case li_submitted_at it of None \<Rightarrow> [] | Some s \<Rightarrow> s)"

definition list_items :: "(UnixTimestamp \<Rightarrow> rstr) \<Rightarrow> Jobs \<Rightarrow> JobListItem list" where
  "list_items ts_iso jobs = sort_desc_by submitted_key (map (to_list_item ts_iso) (hm_values jobs))"

definition active_jobs :: "Jobs \<Rightarrow> int" where
  "active_jobs jobs = int (hm_count (\<lambda>j. job_status j = JobRunning) jobs)"

definition cancel_all_active :: "UnixTimestamp \<Rightarrow> Jobs \<Rightarrow> nat \<times> Jobs" where
  "cancel_all_active t jobs =
     (hm_count (\<lambda>j. fst (cancel_for_shutdown j t)) jobs,
      hm_map_values (\<lambda>j. snd (cancel_for_shutdown j t)) jobs)"

definition queued_job_ids :: "Jobs \<Rightarrow> JobId list" where
  "queued_job_ids jobs =
     map job_id (filter (\<lambda>j. job_status j = JobQueued) (hm_values jobs))"

section \<open>Operations on one job\<close>

definition reg_job_info :: "(UnixTimestamp \<Rightarrow> rstr) \<Rightarrow> JobId \<Rightarrow> Jobs \<Rightarrow> JobInfo option" where
  "reg_job_info ts_iso i jobs = project_job i (to_info ts_iso) jobs"

definition reg_request_cancellation ::
  "JobId \<Rightarrow> UnixTimestamp \<Rightarrow> Jobs \<Rightarrow> UnixTimestamp option option \<times> Jobs" where
  "reg_request_cancellation i t jobs = update_job i (\<lambda>j. request_cancellation j t) jobs"

definition remove_staging_dir :: "JobId \<Rightarrow> Jobs \<Rightarrow> rstr option \<times> Jobs" where
  "remove_staging_dir i jobs = remove_job i (\<lambda>j. fsc_staging_dir (j_filesystem j)) jobs"

text \<open>The dash of the message is U+2014.\<close>

definition restart_refused :: "JobId \<Rightarrow> JobStatus \<Rightarrow> ServerError" where
  "restart_refused i s = SeJobConflict
     (lit ''Job '' @ i @ lit '' is '' @ job_status_display s @ lit '' '' @ [8212]
        @ lit '' only cancelled or failed jobs can be restarted.'') []"

definition reg_restart_job ::
  "(UnixTimestamp \<Rightarrow> rstr) \<Rightarrow> nat \<Rightarrow> JobId \<Rightarrow> Jobs \<Rightarrow> (ServerError + JobRestartProjection) option \<times> Jobs"
where
  "reg_restart_job ts_iso fresh i jobs =
     update_job i (\<lambda>j.
       if \<not> job_can_restart (job_status j) then (Inl (restart_refused i (job_status j)), j)
       else (let j' = prepare_for_restart j fresh
             in (Inr \<lparr>rp_info = to_info ts_iso j', rp_job_update = to_list_item ts_iso j'\<rparr>, j'))) jobs"

definition reg_is_running :: "JobId \<Rightarrow> Jobs \<Rightarrow> bool option" where
  "reg_is_running i jobs = project_job i (\<lambda>j. job_status j = JobRunning) jobs"

definition reg_job_status :: "JobId \<Rightarrow> Jobs \<Rightarrow> JobStatus option" where
  "reg_job_status i jobs = project_job i (\<lambda>j. job_status j) jobs"

text \<open>A transition that answers with the new summary row.\<close>

definition with_list_item ::
  "(UnixTimestamp \<Rightarrow> rstr) \<Rightarrow> (Job \<Rightarrow> Job) \<Rightarrow> Job \<Rightarrow> JobListItem \<times> Job" where
  "with_list_item ts_iso f j = (let j' = f j in (to_list_item ts_iso j', j'))"

definition reg_requeue_after_memory_gate ::
  "(UnixTimestamp \<Rightarrow> rstr) \<Rightarrow> JobId \<Rightarrow> UnixTimestamp \<Rightarrow> Jobs \<Rightarrow> JobListItem option \<times> Jobs" where
  "reg_requeue_after_memory_gate ts_iso i retry_at jobs =
     update_job i (with_list_item ts_iso (\<lambda>j. requeue_after_memory_gate j retry_at)) jobs"

definition reg_mark_job_running ::
  "(UnixTimestamp \<Rightarrow> rstr) \<Rightarrow> JobId \<Rightarrow> Jobs \<Rightarrow> JobListItem option \<times> Jobs" where
  "reg_mark_job_running ts_iso i jobs = update_job i (with_list_item ts_iso mark_running) jobs"

definition reg_record_job_worker_count :: "JobId \<Rightarrow> nat \<Rightarrow> Jobs \<Rightarrow> bool \<times> Jobs" where
  "reg_record_job_worker_count i n jobs =
     (let (r, jobs') = update_job i (\<lambda>j. ((), record_worker_count j n)) jobs
      in (r \<noteq> None, jobs'))"

definition reg_fail_job ::
  "(UnixTimestamp \<Rightarrow> rstr) \<Rightarrow> JobId \<Rightarrow> rstr \<Rightarrow> UnixTimestamp \<Rightarrow> Jobs \<Rightarrow> JobListItem option \<times> Jobs" where
  "reg_fail_job ts_iso i e t jobs = update_job i (with_list_item ts_iso (\<lambda>j. job_fail j e t)) jobs"

definition reg_completion_snapshot :: "JobId \<Rightarrow> Jobs \<Rightarrow> JobCompletionSnapshot option" where
  "reg_completion_snapshot i jobs =
     project_job i (\<lambda>j. \<lparr>cs_cancelled = is_cancelled j, cs_all_failed = all_terminal_files_failed j\<rparr>)
       jobs"

definition reg_finalize_job ::
  "(UnixTimestamp \<Rightarrow> rstr) \<Rightarrow> JobId \<Rightarrow> JobStatus \<Rightarrow> UnixTimestamp \<Rightarrow> Jobs \<Rightarrow> JobListItem option \<times> Jobs"
where
  "reg_finalize_job ts_iso i s t jobs =
     update_job i (with_list_item ts_iso (\<lambda>j. finalize j s t)) jobs"

definition reg_job_detail :: "JobId \<Rightarrow> Jobs \<Rightarrow> JobDetail option" where
  "reg_job_detail i jobs = project_job i to_detail jobs"

definition reg_release_runner_claim :: "JobId \<Rightarrow> Jobs \<Rightarrow> bool \<times> Jobs" where
  "reg_release_runner_claim i jobs =
     (let (r, jobs') = update_job i (\<lambda>j. ((), release_local_dispatch_claim j)) jobs
      in (r \<noteq> None, jobs'))"

definition reg_renew_job_lease ::
  "JobId \<Rightarrow> NodeId \<Rightarrow> UnixTimestamp \<Rightarrow> rat \<Rightarrow> Jobs \<Rightarrow> LeaseRecord option \<times> Jobs" where
  "reg_renew_job_lease i node t ttl jobs =
     (let (r, jobs') = update_job i (\<lambda>j. renew_local_dispatch_lease j node t ttl) jobs
      in (opt_flatten r, jobs'))"

definition reg_runner_snapshot :: "JobId \<Rightarrow> Jobs \<Rightarrow> RunnerJobSnapshot option" where
  "reg_runner_snapshot i jobs = project_job i to_runner_snapshot jobs"

definition reg_unfinished_files :: "JobId \<Rightarrow> Jobs \<Rightarrow> DisplayPath list" where
  "reg_unfinished_files i jobs =
     (case project_job i unfinished_files jobs of None \<Rightarrow> [] | Some fs \<Rightarrow> fs)"

definition reg_file_status_label :: "JobId \<Rightarrow> rstr \<Rightarrow> Jobs \<Rightarrow> rstr option" where
  "reg_file_status_label i f jobs = opt_flatten (project_job i (\<lambda>j. file_status_label j f) jobs)"

section \<open>File transitions\<close>

definition file_update_projection :: "Job \<Rightarrow> rstr \<Rightarrow> FileUpdateProjection option" where
  "file_update_projection j f =
     (case hm_get (job_files j) f of
        None \<Rightarrow> None
      | Some fs \<Rightarrow> Some \<lparr>fu_job_id = job_id j, fu_file = to_entry fs,
                         fu_completed_files = completed_files j\<rparr>)"

text \<open>A file transition that answers with the file's projection when it applied.\<close>

definition update_file ::
  "JobId \<Rightarrow> rstr \<Rightarrow> (Job \<Rightarrow> bool \<times> Job) \<Rightarrow> Jobs \<Rightarrow> FileUpdateProjection option \<times> Jobs" where
  "update_file i f t jobs =
     (let (r, jobs') = update_job i (\<lambda>j.
            (let (ok, j') = t j in (if ok then file_update_projection j' f else None, j'))) jobs
      in (opt_flatten r, jobs'))"

definition reg_mark_file_processing ::
  "JobId \<Rightarrow> rstr \<Rightarrow> UnixTimestamp \<Rightarrow> Jobs \<Rightarrow> FileUpdateProjection option \<times> Jobs" where
  "reg_mark_file_processing i f t jobs = update_file i f (\<lambda>j. mark_file_processing j f t) jobs"

definition reg_mark_file_done ::
  "JobId \<Rightarrow> rstr \<Rightarrow> UnixTimestamp \<Rightarrow> CompletedFileOutput option \<Rightarrow> Jobs
     \<Rightarrow> FileUpdateProjection option \<times> Jobs" where
  "reg_mark_file_done i f t r jobs = update_file i f (\<lambda>j. mark_file_done j f t r) jobs"

definition reg_mark_file_error ::
  "JobId \<Rightarrow> rstr \<Rightarrow> FileFailureRecord \<Rightarrow> Jobs \<Rightarrow> FileUpdateProjection option \<times> Jobs" where
  "reg_mark_file_error i f r jobs = update_file i f (\<lambda>j. mark_file_error j f r) jobs"

definition reg_start_file_attempt ::
  "JobId \<Rightarrow> rstr \<Rightarrow> UnixTimestamp \<Rightarrow> Jobs \<Rightarrow> FileUpdateProjection option \<times> Jobs" where
  "reg_start_file_attempt i f t jobs = update_file i f (\<lambda>j. start_file_attempt j f t) jobs"

definition reg_mark_file_retry_pending ::
  "JobId \<Rightarrow> rstr \<Rightarrow> FileRetryRecord \<Rightarrow> Jobs \<Rightarrow> FileUpdateProjection option \<times> Jobs" where
  "reg_mark_file_retry_pending i f r jobs = update_file i f (\<lambda>j. mark_file_retry_pending j f r) jobs"

definition reg_clear_file_retry_state :: "JobId \<Rightarrow> rstr \<Rightarrow> Jobs \<Rightarrow> bool \<times> Jobs" where
  "reg_clear_file_retry_state i f jobs =
     (let (r, jobs') = update_job i (\<lambda>j. clear_file_retry_state j f) jobs in (r \<noteq> None, jobs'))"

definition reg_set_file_progress ::
  "JobId \<Rightarrow> rstr \<Rightarrow> FileProgressRecord \<Rightarrow> Jobs \<Rightarrow> FileUpdateProjection option \<times> Jobs" where
  "reg_set_file_progress i f p jobs = update_file i f (\<lambda>j. set_file_progress j f p) jobs"

definition reg_attach_attempt_id :: "JobId \<Rightarrow> rstr \<Rightarrow> rstr \<Rightarrow> Jobs \<Rightarrow> bool \<times> Jobs" where
  "reg_attach_attempt_id i f a jobs =
     (let (r, jobs') = update_job i
            (with_file f (\<lambda>fs. fs\<lparr>fs_current_attempt_id := Some a\<rparr>) (\<lambda>e. e)) jobs
      in (case r of None \<Rightarrow> False | Some b \<Rightarrow> b, jobs'))"

definition reg_set_batch_progress ::
  "(UnixTimestamp \<Rightarrow> rstr) \<Rightarrow> JobId \<Rightarrow> BatchInferProgress \<Rightarrow> Jobs \<Rightarrow> JobListItem option \<times> Jobs" where
  "reg_set_batch_progress ts_iso i p jobs =
     update_job i (with_list_item ts_iso
       (j_execution_update (ex_batch_progress_update (\<lambda>_. Some p)))) jobs"

definition reg_take_attempt_id :: "JobId \<Rightarrow> rstr \<Rightarrow> Jobs \<Rightarrow> rstr option \<times> Jobs" where
  "reg_take_attempt_id i f jobs =
     (let (r, jobs') = update_job i (\<lambda>j.
            (case hm_get (job_files j) f of None \<Rightarrow> None | Some fs \<Rightarrow> fs_current_attempt_id fs,
             snd (with_file f (\<lambda>fs. fs\<lparr>fs_current_attempt_id := None\<rparr>) (\<lambda>e. e) j))) jobs
      in (opt_flatten r, jobs'))"

section \<open>The actor\<close>

text \<open>
  \<open>run_registry\<close>: the loop over the command channel. A command is a read, which gets the map,
  or a write, which replaces it; the map is the loop's only state.
\<close>

datatype RegistryCommand = CmdInspect "Jobs \<Rightarrow> unit" | CmdMutate "Jobs \<Rightarrow> Jobs"

fun run_command :: "RegistryCommand \<Rightarrow> Jobs \<Rightarrow> Jobs" where
  "run_command (CmdInspect op) jobs = jobs"
| "run_command (CmdMutate op) jobs = op jobs"

definition run_registry :: "RegistryCommand list \<Rightarrow> Jobs" where
  "run_registry commands = fold run_command commands []"

section \<open>Frame of the operations\<close>

lemma update_job_snd: "snd (update_job i f jobs) = hm_modify i (\<lambda>j. snd (f j)) jobs"
  by (simp add: update_job_def hm_modify_absent split: option.splits)

lemma update_file_snd:
  "snd (update_file i f t jobs) = hm_modify i (\<lambda>j. snd (t j)) jobs"
proof -
  have "snd (update_file i f t jobs) = snd (update_job i (\<lambda>j.
      (let (ok, j') = t j in (if ok then file_update_projection j' f else None, j'))) jobs)"
    by (simp add: update_file_def case_prod_beta)
  then show ?thesis by (simp add: update_job_snd case_prod_beta)
qed

section \<open>Who owns a file\<close>

text \<open>
  No two active jobs work on a file with the same submitter and source path.
\<close>

definition disjoint_work :: "Job \<Rightarrow> Job \<Rightarrow> bool" where
  "disjoint_work j k \<longleftrightarrow>
     \<not> (job_is_active (job_status j) \<and> job_is_active (job_status k)) \<or> job_keys j \<inter> job_keys k = {}"

definition exclusive :: "Jobs \<Rightarrow> bool" where
  "exclusive jobs \<longleftrightarrow>
     (\<forall>a b j k. hm_get jobs a = Some j \<longrightarrow> hm_get jobs b = Some k \<longrightarrow> a \<noteq> b \<longrightarrow> disjoint_work j k)"

lemma disjoint_work_sym: "disjoint_work j k \<Longrightarrow> disjoint_work k j"
  by (auto simp: disjoint_work_def)

lemma exclusive_modify:
  assumes "exclusive jobs"
    and "\<And>j. hm_get jobs i = Some j \<Longrightarrow>
      job_keys (f j) \<subseteq> job_keys j \<and>
      (job_is_active (job_status (f j)) \<longrightarrow> job_is_active (job_status j))"
  shows "exclusive (hm_modify i f jobs)"
  unfolding exclusive_def
proof (intro allI impI)
  fix a b j k
  assume "hm_get (hm_modify i f jobs) a = Some j" "hm_get (hm_modify i f jobs) b = Some k" "a \<noteq> b"
  then show "disjoint_work j k"
  proof (rule hmap_store.modify_keeps_pairwise [rotated 3])
    show "hm_get jobs a = Some x \<Longrightarrow> hm_get jobs b = Some y \<Longrightarrow> a \<noteq> b \<Longrightarrow> disjoint_work x y"
      for a b x y using assms(1) by (auto simp: exclusive_def)
    show "hm_get jobs i = Some v \<Longrightarrow> disjoint_work v y \<Longrightarrow> disjoint_work (f v) y" for v y
      using assms(2) [of v] by (auto simp: disjoint_work_def)
  qed (rule disjoint_work_sym)
qed

lemma find_conflicts_Nil_get:
  assumes "hm_wf jobs"
  shows "find_conflicts jobs job = [] \<longleftrightarrow>
    (\<forall>i j. hm_get jobs i = Some j \<longrightarrow> job_is_active (job_status j) \<longrightarrow>
       job_keys j \<inter> job_keys job = {})"
  unfolding find_conflicts_Nil_iff
  using hm_values_get [OF assms] hm_get_in_values by (metis (mono_tags, lifting))

text \<open>What a refusal reports: the files of active jobs that the incoming job works on.\<close>

definition names_conflict :: "Jobs \<Rightarrow> Job \<Rightarrow> ConflictDetail \<Rightarrow> bool" where
  "names_conflict jobs job d \<longleftrightarrow>
     (\<exists>i j. hm_get jobs i = Some j \<and> job_is_active (job_status j) \<and>
       cd_filename d \<in> set (fsc_filenames (j_filesystem j)) \<and> conflict_key j (cd_filename d) \<in> job_keys job \<and>
       cd_job_id d = job_id j \<and> cd_command d = dc_command (j_dispatch j) \<and> cd_status d = job_status j)"

lemma set_find_conflicts:
  "c \<in> set (find_conflicts jobs job) \<longleftrightarrow>
    (\<exists>j \<in> set (hm_values jobs). job_is_active (job_status j) \<and>
      ce_filename c \<in> set (fsc_filenames (j_filesystem j)) \<and> conflict_key j (ce_filename c) \<in> job_keys job \<and>
      ce_job_id c = job_id j \<and> ce_command c = dc_command (j_dispatch j) \<and> ce_status c = job_status j)"
  by (cases c) (auto simp: find_conflicts_def Let_def set_map_filter' job_keys_def split: if_splits)

lemma conflict_details:
  assumes "hm_wf jobs"
  shows "d \<in> set (map conflict_detail (find_conflicts jobs job)) \<longleftrightarrow> names_conflict jobs job d"
proof -
  have stored: "j \<in> set (hm_values jobs) \<longleftrightarrow> (\<exists>i. hm_get jobs i = Some j)" for j
    using hm_values_get [OF assms] hm_get_in_values by metis
  let ?c = "\<lparr>ce_filename = cd_filename d, ce_job_id = cd_job_id d, ce_command = cd_command d, ce_status = cd_status d\<rparr>"
  have one: "c = ?c" if "conflict_detail c = d" for c
    using that [symmetric] by (simp add: conflict_detail_def)
  have two: "conflict_detail ?c = d" by (simp add: conflict_detail_def)
  have "d \<in> set (map conflict_detail (find_conflicts jobs job)) \<longleftrightarrow> ?c \<in> set (find_conflicts jobs job)"
    unfolding list.set_map using one two by (metis image_iff)
  also have "\<dots> \<longleftrightarrow> names_conflict jobs job d"
    unfolding set_find_conflicts names_conflict_def Bex_def stored ConflictEntry.simps by blast
  finally show ?thesis .
qed

lemma insert_checked_ok:
  "find_conflicts jobs job = [] \<Longrightarrow>
     insert_checked dn job jobs = (Inr (), hm_insert (job_id job) job jobs)"
  by (simp add: insert_checked_def)

lemma exclusive_insert:
  assumes "exclusive jobs" and "hm_wf jobs" and "find_conflicts jobs job = []"
  shows "exclusive (hm_insert (job_id job) job jobs)"
  unfolding exclusive_def
proof (intro allI impI)
  fix a b j k
  assume "hm_get (hm_insert (job_id job) job jobs) a = Some j"
    "hm_get (hm_insert (job_id job) job jobs) b = Some k" "a \<noteq> b"
  then show "disjoint_work j k"
  proof (rule hmap_store.put_keeps_pairwise [rotated 3])
    show "hm_get jobs a = Some x \<Longrightarrow> hm_get jobs b = Some y \<Longrightarrow> a \<noteq> b \<Longrightarrow> disjoint_work x y"
      for a b x y using assms(1) by (auto simp: exclusive_def)
    show "hm_get jobs b = Some y \<Longrightarrow> disjoint_work job y" for b y
      using assms(3) by (auto simp: find_conflicts_Nil_get [OF assms(2)] disjoint_work_def)
  qed (rule disjoint_work_sym)
qed

lemma job_keys_cong:
  "j_source j' = j_source j \<Longrightarrow> j_filesystem j' = j_filesystem j \<Longrightarrow> job_keys j' = job_keys j"
  unfolding job_keys_def conflict_key_def by (simp only:)

lemma with_file_static:
  "j_source (snd (with_file f u g j)) = j_source j"
  "j_filesystem (snd (with_file f u g j)) = j_filesystem j"
  "j_identity (snd (with_file f u g j)) = j_identity j"
  by (simp_all add: with_file_def split: option.splits)

lemmas file_transition_defs =
  mark_file_processing_def mark_file_done_def mark_file_error_def start_file_attempt_def
  mark_file_retry_pending_def clear_file_retry_state_def set_file_progress_def

lemma job_apply_static:
  "j_source (job_apply ev j) = j_source j"
  "j_filesystem (job_apply ev j) = j_filesystem j"
  "j_identity (job_apply ev j) = j_identity j"
  by (cases ev; simp add: with_file_static file_transition_defs job_plain_defs finalize_def
      prepare_for_restart_def reconcile_recovered_runtime_state_def)+

text \<open>
  C3: admission. A submission is refused exactly when an active job already works on one of its files for
  the same submitter. A refusal changes nothing and names the conflicts: its details are exactly the
  files of active jobs that the submission works on, each with its job, command and status, and the
  message lists the same files. What is admitted keeps every file in the hands of at most one active job.
\<close>

theorem admission_is_exclusive:
  assumes "hm_wf jobs" and "exclusive jobs"
  shows "exclusive (snd (insert_checked dn job jobs)) \<and>
    (fst (insert_checked dn job jobs) = Inr () \<longleftrightarrow>
      (\<forall>i j. hm_get jobs i = Some j \<and> job_is_active (job_status j) \<longrightarrow>
         job_keys j \<inter> job_keys job = {})) \<and>
    (fst (insert_checked dn job jobs) \<noteq> Inr () \<longrightarrow> snd (insert_checked dn job jobs) = jobs \<and>
      (\<exists>ds. fst (insert_checked dn job jobs) =
          Inl (SeJobConflict (lit ''Files already being processed by an active job: '' @ dn (map cd_filename ds)) ds) \<and>
        ds \<noteq> [] \<and> (\<forall>d. d \<in> set ds \<longleftrightarrow> names_conflict jobs job d)))"
proof (cases "find_conflicts jobs job = []")
  case True
  then show ?thesis
    using insert_checked_ok [OF True] exclusive_insert [OF assms(2,1) True]
      find_conflicts_Nil_get [OF assms(1), of job] by auto
next
  case False
  have refused: "insert_checked dn job jobs = (Inl (SeJobConflict
      (lit ''Files already being processed by an active job: '' @ dn (map cd_filename (map conflict_detail (find_conflicts jobs job))))
      (map conflict_detail (find_conflicts jobs job))), jobs)"
    using False by (simp add: insert_checked_def Let_def comp_def conflict_detail_def)
  have "\<not> (\<forall>i j. hm_get jobs i = Some j \<and> job_is_active (job_status j) \<longrightarrow> job_keys j \<inter> job_keys job = {})"
    using False find_conflicts_Nil_get [OF assms(1), of job] by blast
  then show ?thesis
    using False assms(2) conflict_details [OF assms(1), of _ job] unfolding refused by auto
qed

lemma admission_is_exclusive_witness:
  "\<exists>m ds. insert_checked concat (demo_job [2] [[98], [97]]) [([1], demo_job [1] [[97]])] =
      (Inl (SeJobConflict m ds), [([1], demo_job [1] [[97]])]) \<and>
    (\<forall>d. d \<in> set ds \<longrightarrow> cd_filename d = [97] \<and> cd_job_id d = [1])"
proof -
  let ?jobs = "[([1], demo_job [1] [[97]])]"
  have "hm_wf ?jobs" by (simp add: hm_wf_def)
  moreover have "exclusive ?jobs" by (simp add: exclusive_def hm_get_def)
  moreover have "job_is_active (job_status (demo_job [1] [[97]]))" "hm_get ?jobs [1] = Some (demo_job [1] [[97]])"
    by (simp_all add: demo_job_def hm_get_def)
  moreover have "job_keys (demo_job [1] [[97]]) \<inter> job_keys (demo_job [2] [[98], [97]]) \<noteq> {}"
    by (simp add: job_keys_def conflict_key_def demo_job_def)
  ultimately have refused: "fst (insert_checked concat (demo_job [2] [[98], [97]]) ?jobs) \<noteq> Inr ()"
    "snd (insert_checked concat (demo_job [2] [[98], [97]]) ?jobs) = ?jobs"
    "\<exists>m ds. fst (insert_checked concat (demo_job [2] [[98], [97]]) ?jobs) = Inl (SeJobConflict m ds) \<and>
      (\<forall>d. d \<in> set ds \<longleftrightarrow> names_conflict ?jobs (demo_job [2] [[98], [97]]) d)"
    using admission_is_exclusive [of ?jobs concat "demo_job [2] [[98], [97]]"] by blast+
  moreover have "cd_filename d = [97] \<and> cd_job_id d = [1]" if "names_conflict ?jobs job d" for job d
    using that by (auto simp: names_conflict_def hm_get_def demo_job_def split: if_splits)
  ultimately show ?thesis by (metis prod.collapse)
qed

text \<open>
  Every guarded event on a job keeps files exclusive, unless it revives a terminal job.
\<close>

theorem exclusive_preserved:
  assumes "exclusive jobs"
    and "\<And>j. hm_get jobs i = Some j \<Longrightarrow> job_enabled j ev \<and> \<not> (reviving ev \<and> job_is_terminal (job_status j))"
  shows "exclusive (hm_modify i (job_apply ev) jobs)"
proof (rule exclusive_modify [OF assms(1)])
  fix j
  assume get: "hm_get jobs i = Some j"
  have "job_keys (job_apply ev j) = job_keys j"
    by (rule job_keys_cong) (simp_all add: job_apply_static)
  moreover have "job_is_active (job_status j)" if "job_is_active (job_status (job_apply ev j))"
    using that assms(2) [OF get] not_reviving_terminal [of j ev]
    by (auto simp: job_active_iff_not_terminal)
  ultimately show "job_keys (job_apply ev j) \<subseteq> job_keys j \<and>
      (job_is_active (job_status (job_apply ev j)) \<longrightarrow> job_is_active (job_status j))"
    by simp
qed

lemma exclusive_preserved_witness:
  "exclusive (hm_modify [1] (job_apply EvRunning) [([1], demo_job [1] [[97]])])"
  by (rule exclusive_preserved)
    (auto simp: exclusive_def hm_get_def job_enabled_def demo_job_def split: if_splits)

text \<open>
  A restart is not admitted like a submission. A job is cancelled, its file is submitted
  again and accepted, and the cancelled job is restarted without an error: two active jobs then
  own the same file of the same submitter.
\<close>

theorem restart_breaks_exclusive:
  assumes "a \<noteq> b"
  shows "(let jobs1 = snd (insert_checked dn (demo_job a [f]) []);
        jobs2 = snd (reg_request_cancellation a t jobs1);
        (r3, jobs3) = insert_checked dn (demo_job b [f]) jobs2;
        (r4, jobs4) = reg_restart_job ts_iso i a jobs3
    in exclusive jobs3 \<and> r3 = Inr () \<and> (\<exists>p. r4 = Some (Inr p)) \<and> \<not> exclusive jobs4)"
proof -
  let ?A = "demo_job a [f]" and ?B = "demo_job b [f]"
  let ?A2 = "snd (request_cancellation ?A t)"
  let ?A4 = "prepare_for_restart ?A2 i"
  have ids: "job_id ?A = a" "job_id ?B = b" by (simp_all add: demo_job_def)
  have one: "snd (insert_checked dn ?A []) = [(a, ?A)]"
    by (simp add: insert_checked_def find_conflicts_def hm_values_def hm_insert_def ids)
  have two: "snd (reg_request_cancellation a t [(a, ?A)]) = [(a, ?A2)]"
    by (simp add: reg_request_cancellation_def update_job_snd hm_modify_def)
  have st2: "job_status ?A2 = JobCancelled"
    by (simp add: request_cancellation_def demo_job_def cancel_token_def job_can_cancel_def)
  have three: "insert_checked dn ?B [(a, ?A2)] = (Inr (), [(a, ?A2), (b, ?B)])"
    using assms st2
    by (simp add: insert_checked_def find_conflicts_def hm_values_def hm_insert_def ids)
  have four: "snd (reg_restart_job ts_iso i a [(a, ?A2), (b, ?B)]) = [(a, ?A4), (b, ?B)]"
    using assms st2 by (simp add: reg_restart_job_def update_job_snd hm_modify_def Let_def)
  have ok: "\<exists>p. fst (reg_restart_job ts_iso i a [(a, ?A2), (b, ?B)]) = Some (Inr p)"
    using st2 by (simp add: reg_restart_job_def update_job_def hm_get_def Let_def)
  have ex3: "exclusive [(a, ?A2), (b, ?B)]"
    using st2 by (auto simp: exclusive_def hm_get_def disjoint_work_def split: if_splits)
  have "job_status ?A4 = JobQueued" "job_status ?B = JobQueued"
    by (simp_all add: prepare_for_restart_def clear_lease_def demo_job_def)
  moreover have "job_keys ?A4 = job_keys ?B"
    using job_apply_static [of "EvRestart i" ?A2] job_apply_static [of "EvCancel t" ?A]
    by (intro job_keys_cong) (simp_all add: demo_job_def)
  moreover have "job_keys ?B \<noteq> {}"
    by (simp add: job_keys_def demo_job_def)
  ultimately have overlap: "\<not> disjoint_work ?A4 ?B" by (simp add: disjoint_work_def)
  have "\<not> exclusive [(a, ?A4), (b, ?B)]"
  proof
    assume "exclusive [(a, ?A4), (b, ?B)]"
    from this [unfolded exclusive_def, rule_format, of a ?A4 b ?B] assms overlap
    show False by (simp add: hm_get_def)
  qed
  with one two three four ok ex3 show ?thesis
    by (simp add: Let_def case_prod_beta)
qed

lemma restart_breaks_exclusive_witness:
  "(let jobs1 = snd (insert_checked concat (demo_job [1] [[97]]) []);
        jobs2 = snd (reg_request_cancellation [1] 5 jobs1);
        (r3, jobs3) = insert_checked concat (demo_job [2] [[97]]) jobs2;
        (r4, jobs4) = reg_restart_job (\<lambda>_. []) 9 [1] jobs3
    in exclusive jobs3 \<and> r3 = Inr () \<and> (\<exists>p. r4 = Some (Inr p)) \<and> \<not> exclusive jobs4)"
  by (rule restart_breaks_exclusive) simp

section \<open>Shutdown and listing\<close>

lemma cancel_for_shutdown_flag: "fst (cancel_for_shutdown j t) = job_is_active (job_status j)"
  by (simp add: cancel_for_shutdown_def cancel_token_def job_can_cancel_def Let_def)

lemma cancel_for_shutdown_result:
  "is_cancelled (snd (cancel_for_shutdown j t)) \<and> job_files (snd (cancel_for_shutdown j t)) = job_files j \<and>
   (if job_is_active (job_status j)
    then job_status (snd (cancel_for_shutdown j t)) = JobCancelled \<and>
      sch_completed_at (j_schedule (snd (cancel_for_shutdown j t))) = Some t \<and>
      active_lease (snd (cancel_for_shutdown j t)) = None \<and>
      \<not> rt_runner_active (j_runtime (snd (cancel_for_shutdown j t)))
    else snd (cancel_for_shutdown j t) = cancel_token j)"
  by (simp add: cancel_for_shutdown_def cancel_token_def job_can_cancel_def Let_def is_cancelled_def
      token_cancel_def clear_lease_def active_lease_def)

text \<open>
  Shutdown cancels every active job: the answer is how many there were, none is left, each
  got its completion time and lost its lease and claim, the tokens of all jobs are cancelled, and
  the jobs that were terminal are otherwise unchanged.
\<close>

theorem shutdown_cancels_all:
  "fst (cancel_all_active t jobs) = hm_count (\<lambda>j. job_is_active (job_status j)) jobs \<and>
   hm_count (\<lambda>j. job_is_active (job_status j)) (snd (cancel_all_active t jobs)) = 0 \<and>
   (\<forall>i. case hm_get jobs i of
      None \<Rightarrow> hm_get (snd (cancel_all_active t jobs)) i = None
    | Some j \<Rightarrow>
        (\<exists>j'. hm_get (snd (cancel_all_active t jobs)) i = Some j' \<and> is_cancelled j' \<and>
          job_files j' = job_files j \<and>
          (if job_is_active (job_status j)
           then job_status j' = JobCancelled \<and> sch_completed_at (j_schedule j') = Some t \<and>
             active_lease j' = None \<and> \<not> rt_runner_active (j_runtime j')
           else j' = cancel_token j)))"
proof -
  have no: "\<not> job_is_active (job_status (snd (cancel_for_shutdown j t)))" for j
    using cancel_for_shutdown_result [of j t] by (auto simp: cancel_token_def split: if_splits)
  have "hm_count (\<lambda>j. job_is_active (job_status j)) (snd (cancel_all_active t jobs)) = 0"
    by (simp add: cancel_all_active_def hm_count_map_values no) (simp add: hm_count_def)
  moreover have "hm_get (snd (cancel_all_active t jobs)) i =
      map_option (\<lambda>j. snd (cancel_for_shutdown j t)) (hm_get jobs i)" for i
    by (simp add: cancel_all_active_def hm_get_map_values)
  moreover have "fst (cancel_all_active t jobs) = hm_count (\<lambda>j. job_is_active (job_status j)) jobs"
    by (simp add: cancel_all_active_def cancel_for_shutdown_flag)
  moreover have "case hm_get jobs i of
      None \<Rightarrow> hm_get (snd (cancel_all_active t jobs)) i = None
    | Some j \<Rightarrow>
        (\<exists>j'. hm_get (snd (cancel_all_active t jobs)) i = Some j' \<and> is_cancelled j' \<and>
          job_files j' = job_files j \<and>
          (if job_is_active (job_status j)
           then job_status j' = JobCancelled \<and> sch_completed_at (j_schedule j') = Some t \<and>
             active_lease j' = None \<and> \<not> rt_runner_active (j_runtime j')
           else j' = cancel_token j))" for i
  proof (cases "hm_get jobs i")
    case (Some j)
    with calculation(2) [of i] cancel_for_shutdown_result [of j t] show ?thesis
      by (cases "job_is_active (job_status j)")
        (simp_all add: cancel_token_def is_cancelled_def token_cancel_def)
  qed (simp add: calculation(2))
  ultimately show ?thesis by blast
qed

lemma sort_desc_by_props:
  "mset (sort_desc_by k xs) = mset xs"
  "sorted_wrt (\<lambda>a b. k b \<le> k a) (sort_desc_by k xs)"
  "filter (\<lambda>x. k x = v) (sort_desc_by k xs) = filter (\<lambda>x. k x = v) xs"
proof -
  show "mset (sort_desc_by k xs) = mset xs" by (simp add: sort_desc_by_def)
  have "sorted_wrt (\<lambda>a b. k a \<le> k b) (sort_key k (rev xs))"
    using sorted_sort_key [of k "rev xs"] by (simp add: sorted_map)
  then show "sorted_wrt (\<lambda>a b. k b \<le> k a) (sort_desc_by k xs)"
    by (simp add: sort_desc_by_def sorted_wrt_rev)
  have "filter (\<lambda>x. k x = v) (sort_key k ys) = filter (\<lambda>x. k x = v) ys" for ys
    using sort_key_stable [of k v ys] by (simp add: eq_commute [of v])
  then show "filter (\<lambda>x. k x = v) (sort_desc_by k xs) = filter (\<lambda>x. k x = v) xs"
    by (simp add: sort_desc_by_def flip: rev_filter)
qed

text \<open>
  the job list shows every job once, newest submission first, when the rendering of
  timestamps keeps their order.
\<close>

theorem list_items_newest_first:
  assumes "\<And>a b. a \<le> b \<Longrightarrow> ts_iso a \<le> ts_iso b"
  shows "mset (list_items ts_iso jobs) = image_mset (to_list_item ts_iso) (mset (hm_values jobs)) \<and>
    sorted_wrt (\<lambda>a b. submitted_key b \<le> submitted_key a) (list_items ts_iso jobs) \<and>
    (\<forall>j \<in> set (hm_values jobs). \<forall>k \<in> set (hm_values jobs).
       sch_submitted_at (j_schedule j) \<le> sch_submitted_at (j_schedule k) \<longrightarrow>
       submitted_key (to_list_item ts_iso j) \<le> submitted_key (to_list_item ts_iso k))"
proof -
  have "submitted_key (to_list_item ts_iso j) = ts_iso (sch_submitted_at (j_schedule j))" for j
    by (simp add: submitted_key_def to_list_item_def)
  with assms show ?thesis
    unfolding list_items_def sort_desc_by_props(1)
    by (simp add: sort_desc_by_props(2))
qed

lemma list_items_newest_first_witness:
  "sorted_wrt (\<lambda>a b. submitted_key b \<le> submitted_key a)
    (list_items (\<lambda>t. if t < 50 then [48] else [49]) [([1], demo_job [1] [[97]])])"
  using list_items_newest_first
    [where jobs = "[([1], demo_job [1] [[97]])]" and ts_iso = "\<lambda>t. if t < 50 then [48] else [49]"]
  by simp

end
