(* ===== verification/Job_DB.thy ===== *)
theory Job_DB
  imports Job_Views
begin

text \<open>
  The durable side of the job store: the tables \<open>jobs\<close>, \<open>file_statuses\<close> and \<open>attempts\<close>
  (\<open>db/schema.rs\<close>) as lists of rows, and every statement of \<open>db/insert.rs\<close>,
  \<open>db/update.rs\<close>, \<open>db/recovery.rs\<close> and \<open>db/query.rs\<close> as a function on them. A value
  that a column stores as JSON is that value. A statement fails only on a primary-key
  violation; a transaction that fails is rolled back and answers None.
\<close>

section \<open>Rows\<close>

record JobRow =
  jr_job_id :: rstr
  jr_correlation_id :: rstr
  jr_command :: rstr
  jr_lang :: rstr
  jr_num_speakers :: nat
  jr_status :: rstr
  jr_error :: "rstr option"
  jr_staging_dir :: rstr
  jr_filenames :: "rstr list"
  jr_has_chat :: "bool list"
  jr_options :: CommandOptions
  jr_media_mapping :: rstr
  jr_media_subdir :: rstr
  jr_source_dir :: rstr
  jr_submitted_by :: rstr
  jr_submitted_by_name :: rstr
  jr_submitted_at :: rat
  jr_completed_at :: "rat option"
  jr_num_workers :: "int option"
  jr_next_eligible_at :: "rat option"
  jr_leased_by_node :: "rstr option"
  jr_lease_expires_at :: "rat option"
  jr_lease_heartbeat_at :: "rat option"
  jr_paths_mode :: bool
  jr_source_paths :: "rstr list"
  jr_output_paths :: "rstr list"

record FileStatusRow =
  frw_job_id :: rstr
  frw_filename :: rstr
  frw_status :: rstr
  frw_error :: "rstr option"
  frw_error_category :: "rstr option"
  frw_bug_report_id :: "rstr option"
  frw_content_type :: rstr
  frw_started_at :: "rat option"
  frw_finished_at :: "rat option"
  frw_next_eligible_at :: "rat option"

record AttemptRow =
  arw_attempt_id :: rstr
  arw_job_id :: rstr
  arw_work_unit_id :: rstr
  arw_work_unit_kind :: rstr
  arw_attempt_number :: nat
  arw_started_at :: rat
  arw_finished_at :: "rat option"
  arw_outcome :: rstr
  arw_failure_category :: "rstr option"
  arw_disposition :: rstr

record JobDB =
  db_jobs :: "JobRow list"
  db_files :: "FileStatusRow list"
  db_attempts :: "AttemptRow list"

definition db_empty :: JobDB where
  "db_empty = \<lparr>db_jobs = [], db_files = [], db_attempts = []\<rparr>"

section \<open>SQL\<close>

text \<open>\<open>UPDATE .. SET f WHERE p\<close>, \<open>DELETE .. WHERE p\<close> and \<open>COALESCE(new, old)\<close>.\<close>

definition sql_update :: "('r \<Rightarrow> bool) \<Rightarrow> ('r \<Rightarrow> 'r) \<Rightarrow> 'r list \<Rightarrow> 'r list" where
  "sql_update p f rows = map (\<lambda>r. if p r then f r else r) rows"

definition sql_delete :: "('r \<Rightarrow> bool) \<Rightarrow> 'r list \<Rightarrow> 'r list" where
  "sql_delete p rows = filter (\<lambda>r. \<not> p r) rows"

definition coalesce :: "'a option \<Rightarrow> 'a option \<Rightarrow> 'a option" where
  "coalesce new old = (case new of Some v \<Rightarrow> Some v | None \<Rightarrow> old)"

definition coalesce_nn :: "'a option \<Rightarrow> 'a \<Rightarrow> 'a" where
  "coalesce_nn new old = (case new of Some v \<Rightarrow> v | None \<Rightarrow> old)"

section \<open>Insertion\<close>

record NewJobRecord =
  nj_job_id :: rstr
  nj_correlation_id :: rstr
  nj_command :: rstr
  nj_lang :: rstr
  nj_num_speakers :: nat
  nj_status :: rstr
  nj_staging_dir :: rstr
  nj_filenames :: "rstr list"
  nj_has_chat :: "bool list"
  nj_options :: CommandOptions
  nj_media_mapping :: rstr
  nj_media_subdir :: rstr
  nj_source_dir :: rstr
  nj_submitted_by :: rstr
  nj_submitted_by_name :: rstr
  nj_submitted_at :: rat
  nj_paths_mode :: bool
  nj_source_paths :: "rstr list"
  nj_output_paths :: "rstr list"

definition new_job_row :: "NewJobRecord \<Rightarrow> JobRow" where
  "new_job_row n =
     \<lparr>jr_job_id = nj_job_id n, jr_correlation_id = nj_correlation_id n,
      jr_command = nj_command n, jr_lang = nj_lang n, jr_num_speakers = nj_num_speakers n,
      jr_status = nj_status n, jr_error = None, jr_staging_dir = nj_staging_dir n,
      jr_filenames = nj_filenames n, jr_has_chat = nj_has_chat n, jr_options = nj_options n,
      jr_media_mapping = nj_media_mapping n, jr_media_subdir = nj_media_subdir n,
      jr_source_dir = nj_source_dir n, jr_submitted_by = nj_submitted_by n,
      jr_submitted_by_name = nj_submitted_by_name n, jr_submitted_at = nj_submitted_at n,
      jr_completed_at = None, jr_num_workers = None, jr_next_eligible_at = None,
      jr_leased_by_node = None, jr_lease_expires_at = None, jr_lease_heartbeat_at = None,
      jr_paths_mode = nj_paths_mode n, jr_source_paths = nj_source_paths n,
      jr_output_paths = nj_output_paths n\<rparr>"

definition new_file_row :: "rstr \<Rightarrow> rstr \<Rightarrow> FileStatusRow" where
  "new_file_row i f =
     \<lparr>frw_job_id = i, frw_filename = f, frw_status = lit ''queued'', frw_error = None,
      frw_error_category = None, frw_bug_report_id = None, frw_content_type = lit ''chat'',
      frw_started_at = None, frw_finished_at = None, frw_next_eligible_at = None\<rparr>"

text \<open>The primary keys \<open>job_id\<close> and \<open>(job_id, filename)\<close> make the transaction fail.\<close>

definition insert_job :: "NewJobRecord \<Rightarrow> JobDB \<Rightarrow> JobDB option" where
  "insert_job n db =
     (if nj_job_id n \<in> jr_job_id ` set (db_jobs db)
        \<or> \<not> distinct (nj_filenames n)
        \<or> nj_job_id n \<in> frw_job_id ` {r \<in> set (db_files db). frw_filename r \<in> set (nj_filenames n)}
      then None
      else Some (db\<lparr>db_jobs := db_jobs db @ [new_job_row n],
                   db_files := db_files db @ map (new_file_row (nj_job_id n)) (nj_filenames n)\<rparr>))"

definition attempts_of :: "rstr \<Rightarrow> rstr \<Rightarrow> JobDB \<Rightarrow> AttemptRow list" where
  "attempts_of i u db =
     filter (\<lambda>r. arw_job_id r = i \<and> arw_work_unit_id r = u) (db_attempts db)"

definition next_attempt_number :: "rstr \<Rightarrow> rstr \<Rightarrow> JobDB \<Rightarrow> nat" where
  "next_attempt_number i u db = fold max (map arw_attempt_number (attempts_of i u db)) 0 + 1"

definition attempt_key :: "rstr \<Rightarrow> rstr \<Rightarrow> nat \<Rightarrow> rstr" where
  "attempt_key i u n = i @ lit '':'' @ u @ lit '':'' @ show_nat n"

text \<open>
  One try of \<open>insert_attempt_start\<close>: the number is one past the largest, the row starts as
  deferred; \<open>attempt_id\<close> is the primary key.
\<close>

definition insert_attempt_start ::
  "rstr \<Rightarrow> rstr \<Rightarrow> WorkUnitKind \<Rightarrow> rat \<Rightarrow> JobDB \<Rightarrow> (rstr \<times> nat) option \<times> JobDB" where
  "insert_attempt_start i u kind started_at db =
     (let n = next_attempt_number i u db;
          a = attempt_key i u n
      in if a \<in> arw_attempt_id ` set (db_attempts db) \<or> i \<notin> jr_job_id ` set (db_jobs db)
         then (None, db)
         else (Some (a, n),
               db\<lparr>db_attempts := db_attempts db @
                 [\<lparr>arw_attempt_id = a, arw_job_id = i, arw_work_unit_id = u,
                   arw_work_unit_kind = work_unit_display kind, arw_attempt_number = n,
                   arw_started_at = started_at, arw_finished_at = None,
                   arw_outcome = attempt_outcome_display AoDeferred, arw_failure_category = None,
                   arw_disposition = retry_disposition_display RdDefer\<rparr>]\<rparr>))"

text \<open>
  The retry loop around it. What a try meets is the environment's: the row, a database error with
  its code and message, or another error. A lock error is retried after the next of the delays,
  in milliseconds; the result carries the delays slept.
\<close>

definition attempt_start_retry_delays_ms :: "nat list" where
  "attempt_start_retry_delays_ms = [25, 50, 100, 200, 400]"

datatype 'r AttemptTry = TryOk 'r | TryDatabase "rstr option" rstr | TryOther

definition retryable_sqlite_lock :: "rstr option \<Rightarrow> rstr \<Rightarrow> bool" where
  "retryable_sqlite_lock code message \<longleftrightarrow>
     code = Some (lit ''5'') \<or> code = Some (lit ''517'') \<or>
     contains message (lit ''database is locked'') \<or> contains message (lit ''database is busy'')"

fun insert_attempt_loop :: "'r AttemptTry list \<Rightarrow> nat list \<Rightarrow> 'r option \<times> nat list" where
  "insert_attempt_loop [] delays = (None, [])"
| "insert_attempt_loop (TryOk r # ts) delays = (Some r, [])"
| "insert_attempt_loop (TryOther # ts) delays = (None, [])"
| "insert_attempt_loop (TryDatabase code message # ts) delays =
     (if \<not> retryable_sqlite_lock code message then (None, [])
      else (case delays of
              [] \<Rightarrow> (None, [])
            | d # ds \<Rightarrow> (let (v, slept) = insert_attempt_loop ts ds in (v, d # slept))))"

section \<open>Updates\<close>

definition update_job_status ::
  "rstr \<Rightarrow> rstr \<Rightarrow> rstr option \<Rightarrow> rat option \<Rightarrow> int option \<Rightarrow> rat option \<Rightarrow> JobDB \<Rightarrow> JobDB" where
  "update_job_status i status error completed_at num_workers next_eligible_at db = db
     \<lparr>db_jobs := sql_update (\<lambda>r. jr_job_id r = i) (\<lambda>r. r
        \<lparr>jr_status := status, jr_error := coalesce error (jr_error r),
         jr_completed_at := coalesce completed_at (jr_completed_at r),
         jr_num_workers := coalesce num_workers (jr_num_workers r),
         jr_next_eligible_at := next_eligible_at\<rparr>) (db_jobs db)\<rparr>"

definition update_job_lease ::
  "rstr \<Rightarrow> rstr option \<Rightarrow> rat option \<Rightarrow> rat option \<Rightarrow> JobDB \<Rightarrow> JobDB" where
  "update_job_lease i node expires_at heartbeat_at db = db
     \<lparr>db_jobs := sql_update (\<lambda>r. jr_job_id r = i) (\<lambda>r. r
        \<lparr>jr_leased_by_node := node, jr_lease_expires_at := expires_at,
         jr_lease_heartbeat_at := heartbeat_at\<rparr>) (db_jobs db)\<rparr>"

definition update_file_status ::
  "rstr \<Rightarrow> rstr \<Rightarrow> rstr \<Rightarrow> rstr option \<Rightarrow> rstr option \<Rightarrow> rstr option \<Rightarrow> rstr option
     \<Rightarrow> rat option \<Rightarrow> rat option \<Rightarrow> rat option \<Rightarrow> JobDB \<Rightarrow> JobDB" where
  "update_file_status i f status error error_category bug_report_id content_type
      started_at finished_at next_eligible_at db = db
     \<lparr>db_files := sql_update (\<lambda>r. frw_job_id r = i \<and> frw_filename r = f) (\<lambda>r. r
        \<lparr>frw_status := status, frw_error := coalesce error (frw_error r),
         frw_error_category := coalesce error_category (frw_error_category r),
         frw_bug_report_id := coalesce bug_report_id (frw_bug_report_id r),
         frw_content_type := coalesce_nn content_type (frw_content_type r),
         frw_started_at := coalesce started_at (frw_started_at r),
         frw_finished_at := coalesce finished_at (frw_finished_at r),
         frw_next_eligible_at := next_eligible_at\<rparr>) (db_files db)\<rparr>"

definition reset_recovered_file_to_queued :: "rstr \<Rightarrow> rstr \<Rightarrow> JobDB \<Rightarrow> JobDB" where
  "reset_recovered_file_to_queued i f db = db
     \<lparr>db_files := sql_update (\<lambda>r. frw_job_id r = i \<and> frw_filename r = f) (\<lambda>r. r
        \<lparr>frw_status := lit ''queued'', frw_error := None, frw_error_category := None,
         frw_bug_report_id := None, frw_started_at := None, frw_finished_at := None,
         frw_next_eligible_at := None\<rparr>) (db_files db)\<rparr>"

text \<open>The foreign keys cascade.\<close>

definition delete_job :: "rstr \<Rightarrow> JobDB \<Rightarrow> JobDB" where
  "delete_job i db = db
     \<lparr>db_jobs := sql_delete (\<lambda>r. jr_job_id r = i) (db_jobs db),
      db_files := sql_delete (\<lambda>r. frw_job_id r = i) (db_files db),
      db_attempts := sql_delete (\<lambda>r. arw_job_id r = i) (db_attempts db)\<rparr>"

definition finish_attempt ::
  "rstr \<Rightarrow> AttemptOutcome \<Rightarrow> FailureCategory option \<Rightarrow> RetryDisposition \<Rightarrow> rat \<Rightarrow> JobDB \<Rightarrow> JobDB"
where
  "finish_attempt a outcome category disposition finished_at db = db
     \<lparr>db_attempts := sql_update (\<lambda>r. arw_attempt_id r = a) (\<lambda>r. r
        \<lparr>arw_finished_at := Some finished_at, arw_outcome := attempt_outcome_display outcome,
         arw_failure_category := map_option failure_category_display category,
         arw_disposition := retry_disposition_display disposition\<rparr>) (db_attempts db)\<rparr>"

section \<open>Startup\<close>

definition recover_interrupted :: "rat \<Rightarrow> JobDB \<Rightarrow> rstr list \<times> JobDB" where
  "recover_interrupted now db =
     (let ids = map jr_job_id (filter (\<lambda>r. jr_status r \<in> {lit ''queued'', lit ''running''}) (db_jobs db))
      in (ids, db
        \<lparr>db_jobs := sql_update (\<lambda>r. jr_job_id r \<in> set ids) (\<lambda>r. r
           \<lparr>jr_status := lit ''interrupted'', jr_completed_at := Some now\<rparr>) (db_jobs db),
         db_files := sql_update
           (\<lambda>r. frw_job_id r \<in> set ids \<and> frw_status r \<in> {lit ''queued'', lit ''processing''})
           (\<lambda>r. r\<lparr>frw_status := lit ''interrupted''\<rparr>) (db_files db)\<rparr>))"

definition prune_expired :: "rat \<Rightarrow> int \<Rightarrow> JobDB \<Rightarrow> rstr list \<times> JobDB" where
  "prune_expired now ttl_days db =
     (let cutoff = now - of_int ttl_days * 86400;
          rows = filter (\<lambda>r. jr_submitted_at r < cutoff) (db_jobs db)
      in (map jr_staging_dir rows, fold delete_job (map jr_job_id rows) db))"

text \<open>
  \<open>load_all_jobs\<close>: newest first, each with its file rows; an empty bug report id is none.
\<close>

definition load_file_row :: "FileStatusRow \<Rightarrow> FileStatusRow" where
  "load_file_row r = r
     \<lparr>frw_bug_report_id := (case frw_bug_report_id r of None \<Rightarrow> None
                            | Some b \<Rightarrow> if b = [] then None else Some b)\<rparr>"

definition file_rows_of :: "rstr \<Rightarrow> JobDB \<Rightarrow> FileStatusRow list" where
  "file_rows_of i db = map load_file_row (filter (\<lambda>r. frw_job_id r = i) (db_files db))"

definition load_all_jobs :: "JobDB \<Rightarrow> (JobRow \<times> FileStatusRow list) list" where
  "load_all_jobs db =
     map (\<lambda>r. (r, file_rows_of (jr_job_id r) db)) (rev (sort_key jr_submitted_at (rev (db_jobs db))))"

section \<open>Attempt numbers\<close>

lemma fold_max_start: "m \<le> fold max ns (m :: nat)"
proof (induction ns arbitrary: m)
  case (Cons a ns)
  have "m \<le> max a m" by simp
  also have "\<dots> \<le> fold max ns (max a m)" by (rule Cons.IH)
  finally show ?case by simp
qed simp

lemma fold_max_le: "n \<in> set ns \<Longrightarrow> n \<le> fold max ns (m :: nat)"
proof (induction ns arbitrary: m)
  case (Cons a ns)
  show ?case
  proof (cases "n = a")
    case True
    have "n \<le> max a m" using True by simp
    also have "\<dots> \<le> fold max ns (max a m)" by (rule fold_max_start)
    finally show ?thesis by simp
  next
    case False
    with Cons show ?thesis by simp
  qed
qed simp

lemma next_attempt_fresh:
  "r \<in> set (attempts_of i u db) \<Longrightarrow> arw_attempt_number r < next_attempt_number i u db"
  using fold_max_le [of "arw_attempt_number r" "map arw_attempt_number (attempts_of i u db)" 0]
  by (simp add: next_attempt_number_def less_Suc_eq_le)

end
