(* ===== verification/Store.thy ===== *)
theory Store
  imports Registry Job_DB
begin

text \<open>
  The job store (\<open>store/mod.rs\<close>, \<open>store/counters.rs\<close>, \<open>store/queries/*.rs\<close>): the
  registry with its durable mirror, the stream of WebSocket events and the operational counters.
  Each operation is the code's sequence: the change in memory, the notification, the write to
  the database, the counters. The clock is an argument; the database, when present, is the one of
  \<open>Job_DB\<close>, and a transaction that fails is only logged. Removing a staging directory is
  file-system I/O and has no counterpart.
\<close>

section \<open>State\<close>

record OperationalCounters =
  oc_worker_crashes :: int
  oc_attempts_started :: int
  oc_attempts_retried :: int
  oc_deferred_work_units :: int
  oc_forced_terminal_errors :: int
  oc_memory_gate_aborts :: int

definition counters_new :: OperationalCounters where
  "counters_new =
     \<lparr>oc_worker_crashes = 0, oc_attempts_started = 0, oc_attempts_retried = 0,
      oc_deferred_work_units = 0, oc_forced_terminal_errors = 0, oc_memory_gate_aborts = 0\<rparr>"

text \<open>The events the store broadcasts; the JSON of a row is the row.\<close>

datatype WsEvent =
  WsJobUpdate JobListItem
| WsFileUpdate JobId FileStatusEntry int
| WsJobDeleted JobId

text \<open>What is fixed at construction.\<close>

record StoreConfig =
  scf_ts_iso :: "UnixTimestamp \<Rightarrow> rstr"
  scf_debug_names :: "rstr list \<Rightarrow> rstr"
  scf_node_id :: NodeId
  scf_local_lease_ttl_s :: rat
  scf_job_ttl_days :: int
  scf_max_concurrent :: nat

record JobStore =
  st_registry :: Jobs
  st_db :: "JobDB option"
  st_ws :: "WsEvent list"
  st_counters :: OperationalCounters
  st_config :: StoreConfig

definition store_new :: "StoreConfig \<Rightarrow> JobDB option \<Rightarrow> JobStore" where
  "store_new cfg db =
     \<lparr>st_registry = [], st_db = db, st_ws = [], st_counters = counters_new, st_config = cfg\<rparr>"

abbreviation store_iso :: "JobStore \<Rightarrow> UnixTimestamp \<Rightarrow> rstr" where
  "store_iso st \<equiv> scf_ts_iso (st_config st)"

definition broadcast_ws_event :: "WsEvent \<Rightarrow> JobStore \<Rightarrow> JobStore" where
  "broadcast_ws_event ev st = st\<lparr>st_ws := st_ws st @ [ev]\<rparr>"

definition notify_job_item :: "JobListItem \<Rightarrow> JobStore \<Rightarrow> JobStore" where
  "notify_job_item item st = broadcast_ws_event (WsJobUpdate item) st"

definition notify_file_update :: "FileUpdateProjection \<Rightarrow> JobStore \<Rightarrow> JobStore" where
  "notify_file_update u st =
     broadcast_ws_event (WsFileUpdate (fu_job_id u) (fu_file u) (fu_completed_files u)) st"

definition with_db :: "(JobDB \<Rightarrow> JobDB) \<Rightarrow> JobStore \<Rightarrow> JobStore" where
  "with_db f st = st\<lparr>st_db := map_option f (st_db st)\<rparr>"

definition bump_counter :: "(OperationalCounters \<Rightarrow> OperationalCounters) \<Rightarrow> JobStore \<Rightarrow> JobStore" where
  "bump_counter f st = st\<lparr>st_counters := f (st_counters st)\<rparr>"

text \<open>Run a registry operation and keep its map.\<close>

definition run_reg :: "(Jobs \<Rightarrow> 'r \<times> Jobs) \<Rightarrow> JobStore \<Rightarrow> 'r \<times> JobStore" where
  "run_reg op st = (let (r, jobs) = op (st_registry st) in (r, st\<lparr>st_registry := jobs\<rparr>))"

section \<open>Persistence helpers\<close>

record PersistedJobUpdate =
  pj_status :: JobStatus
  pj_error :: "rstr option"
  pj_completed_at :: "UnixTimestamp option"
  pj_num_workers :: "int option"
  pj_next_eligible_at :: "UnixTimestamp option"

record PersistedFileUpdate =
  pfu_filename :: rstr
  pfu_status :: FileStatusKind
  pfu_error :: "rstr option"
  pfu_error_category :: "rstr option"
  pfu_bug_report_id :: "rstr option"
  pfu_content_type :: "rstr option"
  pfu_started_at :: "UnixTimestamp option"
  pfu_finished_at :: "UnixTimestamp option"
  pfu_next_eligible_at :: "UnixTimestamp option"

record AttemptStartRecord =
  as_filename :: rstr
  as_work_unit_kind :: WorkUnitKind
  as_started_at :: UnixTimestamp

record AttemptFinishRecord =
  af_filename :: rstr
  af_outcome :: AttemptOutcome
  af_failure_category :: "FailureCategory option"
  af_disposition :: RetryDisposition
  af_finished_at :: UnixTimestamp

definition db_update_job :: "JobId \<Rightarrow> PersistedJobUpdate \<Rightarrow> JobStore \<Rightarrow> JobStore" where
  "db_update_job i u st = with_db (update_job_status i (job_status_display (pj_status u))
     (pj_error u) (pj_completed_at u) (pj_num_workers u) (pj_next_eligible_at u)) st"

definition db_update_file :: "JobId \<Rightarrow> PersistedFileUpdate \<Rightarrow> JobStore \<Rightarrow> JobStore" where
  "db_update_file i u st = with_db (update_file_status i (pfu_filename u)
     (file_status_display (pfu_status u)) (pfu_error u) (pfu_error_category u)
     (pfu_bug_report_id u) (pfu_content_type u) (pfu_started_at u) (pfu_finished_at u)
     (pfu_next_eligible_at u)) st"

definition db_start_attempt :: "JobId \<Rightarrow> AttemptStartRecord \<Rightarrow> JobStore \<Rightarrow> JobStore" where
  "db_start_attempt i a st =
     (case st_db st of
        None \<Rightarrow> st
      | Some db \<Rightarrow>
          (let (r, db') = insert_attempt_start i (as_filename a) (as_work_unit_kind a) (as_started_at a) db;
               st = st\<lparr>st_db := Some db'\<rparr>
           in case r of
                None \<Rightarrow> st
              | Some (attempt_id, _) \<Rightarrow>
                  snd (run_reg (reg_attach_attempt_id i (as_filename a) attempt_id) st)))"

definition db_finish_attempt_for_file :: "JobId \<Rightarrow> AttemptFinishRecord \<Rightarrow> JobStore \<Rightarrow> JobStore" where
  "db_finish_attempt_for_file i a st =
     (let (attempt_id, st) = run_reg (reg_take_attempt_id i (af_filename a)) st
      in case attempt_id of
           None \<Rightarrow> st
         | Some aid \<Rightarrow> with_db (finish_attempt aid (af_outcome a) (af_failure_category a)
                        (af_disposition a) (af_finished_at a)) st)"

text \<open>The fields most updates leave alone.\<close>

definition job_update :: "JobStatus \<Rightarrow> PersistedJobUpdate" where
  "job_update s = \<lparr>pj_status = s, pj_error = None, pj_completed_at = None,
     pj_num_workers = None, pj_next_eligible_at = None\<rparr>"

definition file_update :: "rstr \<Rightarrow> FileStatusKind \<Rightarrow> PersistedFileUpdate" where
  "file_update f s = \<lparr>pfu_filename = f, pfu_status = s, pfu_error = None,
     pfu_error_category = None, pfu_bug_report_id = None, pfu_content_type = None,
     pfu_started_at = None, pfu_finished_at = None, pfu_next_eligible_at = None\<rparr>"

section \<open>Files\<close>

text \<open>
  The frame of the file mutations: the registry's update, nothing more when it did not apply, else
  the notification and what follows.
\<close>

definition file_op ::
  "(Jobs \<Rightarrow> FileUpdateProjection option \<times> Jobs) \<Rightarrow> (JobStore \<Rightarrow> JobStore) \<Rightarrow> JobStore \<Rightarrow> JobStore" where
  "file_op op after st =
     (let (r, st) = run_reg op st
      in case r of None \<Rightarrow> st | Some u \<Rightarrow> after (notify_file_update u st))"

definition store_mark_file_processing ::
  "JobId \<Rightarrow> rstr \<Rightarrow> UnixTimestamp \<Rightarrow> JobStore \<Rightarrow> JobStore" where
  "store_mark_file_processing i f started_at st =
     file_op (reg_mark_file_processing i f started_at)
       (db_update_file i ((file_update f FileProcessing)\<lparr>pfu_started_at := Some started_at\<rparr>)) st"

definition store_mark_file_done ::
  "JobId \<Rightarrow> rstr \<Rightarrow> UnixTimestamp \<Rightarrow> CompletedFileOutput option \<Rightarrow> JobStore \<Rightarrow> JobStore" where
  "store_mark_file_done i f finished_at result st =
     file_op (reg_mark_file_done i f finished_at result)
       (db_update_file i ((file_update f FileDone)
          \<lparr>pfu_content_type := map_option (\<lambda>r. content_type_display (co_content_type r)) result,
           pfu_finished_at := Some finished_at\<rparr>)) st"

definition store_mark_file_error ::
  "JobId \<Rightarrow> rstr \<Rightarrow> FileFailureRecord \<Rightarrow> JobStore \<Rightarrow> JobStore" where
  "store_mark_file_error i f failure st =
     file_op (reg_mark_file_error i f failure)
       (\<lambda>st. db_finish_attempt_for_file i
          \<lparr>af_filename = f, af_outcome = AoFailed, af_failure_category = Some (ff_category failure),
           af_disposition = RdTerminalFailure, af_finished_at = ff_finished_at failure\<rparr>
          (db_update_file i ((file_update f FileError)
             \<lparr>pfu_error := Some (ff_message failure),
              pfu_error_category := Some (failure_category_display (ff_category failure)),
              pfu_finished_at := Some (ff_finished_at failure)\<rparr>) st)) st"

definition store_start_file_attempt ::
  "JobId \<Rightarrow> rstr \<Rightarrow> WorkUnitKind \<Rightarrow> UnixTimestamp \<Rightarrow> JobStore \<Rightarrow> JobStore" where
  "store_start_file_attempt i f kind started_at st =
     file_op (reg_start_file_attempt i f started_at)
       (\<lambda>st. bump_counter (oc_attempts_started_update (\<lambda>n. n + 1))
          (db_start_attempt i
             \<lparr>as_filename = f, as_work_unit_kind = kind, as_started_at = started_at\<rparr>
             (db_update_file i
                ((file_update f FileProcessing)\<lparr>pfu_started_at := Some started_at\<rparr>) st))) st"

definition store_mark_file_retry_pending ::
  "JobId \<Rightarrow> rstr \<Rightarrow> FileRetryRecord \<Rightarrow> JobStore \<Rightarrow> JobStore" where
  "store_mark_file_retry_pending i f retry st =
     file_op (reg_mark_file_retry_pending i f retry)
       (\<lambda>st. bump_counter (oc_deferred_work_units_update (\<lambda>n. n + 1))
          (bump_counter (oc_attempts_retried_update (\<lambda>n. n + 1))
             (db_finish_attempt_for_file i
                \<lparr>af_filename = f, af_outcome = AoRetryableFailure,
                 af_failure_category = Some (fr_category retry), af_disposition = RdRetry,
                 af_finished_at = fr_finished_at retry\<rparr>
                (db_update_file i ((file_update f FileProcessing)
                   \<lparr>pfu_error := Some (fr_message retry),
                    pfu_error_category := Some (failure_category_display (fr_category retry)),
                    pfu_finished_at := Some (fr_finished_at retry),
                    pfu_next_eligible_at := Some (fr_retry_at retry)\<rparr>) st)))) st"

definition store_clear_file_retry_state :: "JobId \<Rightarrow> rstr \<Rightarrow> JobStore \<Rightarrow> JobStore" where
  "store_clear_file_retry_state i f st = snd (run_reg (reg_clear_file_retry_state i f) st)"

definition store_set_file_progress ::
  "JobId \<Rightarrow> rstr \<Rightarrow> FileProgressRecord \<Rightarrow> JobStore \<Rightarrow> JobStore" where
  "store_set_file_progress i f p st = file_op (reg_set_file_progress i f p) (\<lambda>st. st) st"

section \<open>Jobs\<close>

text \<open>The same frame for the job mutations, which publish the summary row.\<close>

definition job_op ::
  "(Jobs \<Rightarrow> JobListItem option \<times> Jobs) \<Rightarrow> (JobStore \<Rightarrow> JobStore) \<Rightarrow> JobStore \<Rightarrow> JobStore" where
  "job_op op after st =
     (let (r, st) = run_reg op st
      in case r of None \<Rightarrow> st | Some it \<Rightarrow> after (notify_job_item it st))"

definition store_set_batch_progress :: "JobId \<Rightarrow> BatchInferProgress \<Rightarrow> JobStore \<Rightarrow> JobStore" where
  "store_set_batch_progress i p st =
     job_op (reg_set_batch_progress (store_iso st) i p) (\<lambda>st. st) st"

definition store_requeue_job_after_memory_gate ::
  "JobId \<Rightarrow> UnixTimestamp \<Rightarrow> JobStore \<Rightarrow> JobStore" where
  "store_requeue_job_after_memory_gate i retry_at st =
     job_op (reg_requeue_after_memory_gate (store_iso st) i retry_at)
       (db_update_job i ((job_update JobQueued)\<lparr>pj_next_eligible_at := Some retry_at\<rparr>)) st"

definition store_mark_job_running :: "JobId \<Rightarrow> JobStore \<Rightarrow> JobStore" where
  "store_mark_job_running i st =
     job_op (reg_mark_job_running (store_iso st) i) (db_update_job i (job_update JobRunning)) st"

definition store_record_job_worker_count :: "JobId \<Rightarrow> nat \<Rightarrow> JobStore \<Rightarrow> JobStore" where
  "store_record_job_worker_count i n st =
     (let (ok, st) = run_reg (reg_record_job_worker_count i n) st
      in if \<not> ok then st
         else db_update_job i ((job_update JobRunning)\<lparr>pj_num_workers := Some (int n)\<rparr>) st)"

definition store_fail_job :: "JobId \<Rightarrow> rstr \<Rightarrow> UnixTimestamp \<Rightarrow> JobStore \<Rightarrow> JobStore" where
  "store_fail_job i e t st =
     job_op (reg_fail_job (store_iso st) i e t)
       (db_update_job i ((job_update JobFailed)\<lparr>pj_error := Some e, pj_completed_at := Some t\<rparr>)) st"

definition store_finalize_job :: "JobId \<Rightarrow> JobStatus \<Rightarrow> UnixTimestamp \<Rightarrow> JobStore \<Rightarrow> JobStore" where
  "store_finalize_job i s t st =
     job_op (reg_finalize_job (store_iso st) i s t)
       (db_update_job i ((job_update s)\<lparr>pj_completed_at := Some t\<rparr>)) st"

definition new_job_record :: "Job \<Rightarrow> NewJobRecord" where
  "new_job_record j =
     (let d = j_dispatch j; f = j_filesystem j; s = j_source j
      in \<lparr>nj_job_id = job_id j, nj_correlation_id = id_correlation_id (j_identity j),
          nj_command = command_as_str (dc_command d), nj_lang = lang_display (dc_lang d),
          nj_num_speakers = dc_num_speakers d, nj_status = job_status_display (job_status j),
          nj_staging_dir = fsc_staging_dir f, nj_filenames = fsc_filenames f,
          nj_has_chat = fsc_has_chat f, nj_options = dc_options d,
          nj_media_mapping = fsc_media_mapping f, nj_media_subdir = fsc_media_subdir f,
          nj_source_dir = src_source_dir s, nj_submitted_by = src_submitted_by s,
          nj_submitted_by_name = src_submitted_by_name s,
          nj_submitted_at = sch_submitted_at (j_schedule j), nj_paths_mode = fsc_paths_mode f,
          nj_source_paths = fsc_source_paths f, nj_output_paths = fsc_output_paths f\<rparr>)"

definition store_submit :: "Job \<Rightarrow> JobStore \<Rightarrow> (ServerError + unit) \<times> JobStore" where
  "store_submit j st =
     (let (r, st) = run_reg (insert_checked (scf_debug_names (st_config st)) j) st
      in case r of
           Inl e \<Rightarrow> (Inl e, st)
         | Inr _ \<Rightarrow>
             (Inr (), with_db (\<lambda>db. case insert_job (new_job_record j) db of
                                 None \<Rightarrow> db | Some db' \<Rightarrow> db') st))"

definition store_restart :: "nat \<Rightarrow> JobId \<Rightarrow> JobStore \<Rightarrow> (ServerError + JobInfo) \<times> JobStore" where
  "store_restart fresh i st =
     (let (r, st) = run_reg (reg_restart_job (store_iso st) fresh i) st
      in case r of
           None \<Rightarrow> (Inl (SeJobNotFound i), st)
         | Some (Inl e) \<Rightarrow> (Inl e, st)
         | Some (Inr p) \<Rightarrow>
             (Inr (rp_info p),
              with_db (update_job_lease i None None None)
                (db_update_job i (job_update JobQueued) (notify_job_item (rp_job_update p) st))))"

definition store_cancel :: "JobId \<Rightarrow> UnixTimestamp \<Rightarrow> JobStore \<Rightarrow> (ServerError + unit) \<times> JobStore" where
  "store_cancel i now st =
     (let (r, st) = run_reg (reg_request_cancellation i now) st
      in case r of
           None \<Rightarrow> (Inl (SeJobNotFound i), st)
         | Some cancelled_at \<Rightarrow>
             (let completed_at = (case cancelled_at of Some t \<Rightarrow> t | None \<Rightarrow> now)
              in (Inr (), db_update_job i
                   ((job_update JobCancelled)\<lparr>pj_completed_at := Some completed_at\<rparr>) st)))"

definition store_delete :: "JobId \<Rightarrow> JobStore \<Rightarrow> (ServerError + unit) \<times> JobStore" where
  "store_delete i st =
     (let (r, st) = run_reg (remove_staging_dir i) st
      in case r of
           None \<Rightarrow> (Inl (SeJobNotFound i), st)
         | Some _ \<Rightarrow> (Inr (), broadcast_ws_event (WsJobDeleted i) (with_db (delete_job i) st)))"

definition store_cancel_all :: "UnixTimestamp \<Rightarrow> JobStore \<Rightarrow> nat \<times> JobStore" where
  "store_cancel_all now st = run_reg (cancel_all_active now) st"

section \<open>Leases\<close>

datatype LeaseRenewalOutcome = LeaseRenewed | LeaseStop

definition store_release_runner_claim :: "JobId \<Rightarrow> JobStore \<Rightarrow> JobStore" where
  "store_release_runner_claim i st =
     (let (ok, st) = run_reg (reg_release_runner_claim i) st
      in if \<not> ok then st else with_db (update_job_lease i None None None) st)"

definition store_renew_job_lease ::
  "JobId \<Rightarrow> UnixTimestamp \<Rightarrow> JobStore \<Rightarrow> LeaseRenewalOutcome \<times> JobStore" where
  "store_renew_job_lease i now st =
     (let (lease, st) = run_reg (reg_renew_job_lease i (scf_node_id (st_config st)) now
                          (scf_local_lease_ttl_s (st_config st))) st
      in case lease of
           None \<Rightarrow> (LeaseStop, st)
         | Some l \<Rightarrow> (LeaseRenewed, with_db (update_job_lease i (Some (lr_leased_by_node l))
                       (Some (lr_expires_at l)) (Some (lr_heartbeat_at l))) st))"

section \<open>Queries\<close>

definition store_workers_available :: "JobStore \<Rightarrow> int" where
  "store_workers_available st =
     max (int (scf_max_concurrent (st_config st)) - active_jobs (st_registry st)) 0"

definition store_get :: "JobId \<Rightarrow> JobStore \<Rightarrow> JobInfo option" where
  "store_get i st = reg_job_info (store_iso st) i (st_registry st)"

definition store_list_all :: "JobStore \<Rightarrow> JobListItem list" where
  "store_list_all st = list_items (store_iso st) (st_registry st)"

end
