(* ===== verification/Recovery.thy ===== *)
theory Recovery
  imports Store
begin

text \<open>
  Startup: the jobs persisted by an earlier server are marked interrupted, expired ones are
  pruned, and the rest are rebuilt in memory and reconciled
  (\<open>db/recovery.rs\<close>, \<open>store/queries/recovery.rs\<close>). A field that does not parse is
  replaced by a default and leaves a note in the error text.
\<close>

section \<open>Fields\<close>

definition append_recovery_note :: "rstr option \<Rightarrow> rstr \<Rightarrow> rstr option" where
  "append_recovery_note existing note =
     (let note = lit ''[recovery] '' @ note
      in case existing of
           Some e \<Rightarrow> if trim e = [] then Some note else Some (e @ [newline] @ note)
         | None \<Rightarrow> Some note)"

definition recover_job_status :: "rstr \<Rightarrow> JobStatus \<times> rstr option" where
  "recover_job_status raw =
     (case job_status_from_str raw of
        Inr s \<Rightarrow> (s, None)
      | Inl _ \<Rightarrow> (JobFailed, Some (lit ''invalid persisted job status '' @ [39] @ raw @ [39]
                  @ lit '' was coerced to '' @ [39] @ lit ''failed'' @ [39])))"

definition recover_file_status :: "rstr \<Rightarrow> FileStatusKind \<times> rstr option" where
  "recover_file_status raw =
     (case file_status_from_str raw of
        Inr s \<Rightarrow> (s, None)
      | Inl _ \<Rightarrow> (FileError, Some (lit ''invalid persisted file status '' @ [39] @ raw @ [39]
                  @ lit '' was coerced to '' @ [39] @ lit ''error'' @ [39])))"

definition recover_failure_category :: "rstr option \<Rightarrow> FailureCategory option \<times> rstr option" where
  "recover_failure_category raw =
     (case raw of
        None \<Rightarrow> (None, None)
      | Some c \<Rightarrow>
          (case failure_category_from_str c of
             Inr k \<Rightarrow> (Some k, None)
           | Inl _ \<Rightarrow> (None, Some (lit ''invalid persisted error_category '' @ [39] @ c @ [39]
                       @ lit '' was ignored''))))"

definition note_opt :: "rstr option \<Rightarrow> rstr option \<Rightarrow> rstr option" where
  "note_opt note existing =
     (case note of None \<Rightarrow> existing | Some n \<Rightarrow> append_recovery_note existing n)"

section \<open>One file row\<close>

definition recover_file_error :: "FileStatusRow \<Rightarrow> rstr option" where
  "recover_file_error r =
     note_opt (snd (recover_failure_category (frw_error_category r)))
       (note_opt (snd (recover_file_status (frw_status r))) (frw_error r))"

definition recover_file :: "FileStatusRow \<Rightarrow> FileStatus" where
  "recover_file r =
     \<lparr>fs_filename = normalize_backslashes (frw_filename r),
      fs_status = fst (recover_file_status (frw_status r)),
      fs_error = recover_file_error r,
      fs_error_category = fst (recover_failure_category (frw_error_category r)),
      fs_error_codes = None, fs_error_line = None, fs_bug_report_id = frw_bug_report_id r,
      fs_started_at = frw_started_at r, fs_finished_at = frw_finished_at r,
      fs_next_eligible_at = frw_next_eligible_at r, fs_current_attempt_id = None,
      fs_progress_current = None, fs_progress_total = None, fs_progress_stage = None\<rparr>"

definition recover_content_type :: "rstr \<Rightarrow> ContentType" where
  "recover_content_type s =
     (if s = lit ''csv'' then CtCsv else if s = lit ''text'' then CtText else CtChat)"

definition recover_result :: "FileStatusRow \<Rightarrow> FileResultEntry" where
  "recover_result r =
     \<lparr>re_filename = normalize_backslashes (frw_filename r),
      re_content_type = recover_content_type (frw_content_type r),
      re_error = recover_file_error r\<rparr>"

definition recover_files :: "FileStatusRow list \<Rightarrow> (rstr, FileStatus) hmap" where
  "recover_files rows = fold (\<lambda>r. hm_insert (frw_filename r) (recover_file r)) rows []"

definition recover_results :: "FileStatusRow list \<Rightarrow> FileResultEntry list" where
  "recover_results rows =
     map recover_result (filter (\<lambda>r. file_is_terminal (fs_status (recover_file r))) rows)"

section \<open>One job row\<close>

definition rebuild_job :: "nat \<Rightarrow> ReleasedCommand \<Rightarrow> JobRow \<Rightarrow> FileStatusRow list \<Rightarrow> Job" where
  "rebuild_job token cmd r rows =
     (let (status, note) = recover_job_status (jr_status r); files = recover_files rows
      in \<lparr>j_identity = \<lparr>id_job_id = jr_job_id r,
            id_correlation_id = (if jr_correlation_id r = [] then jr_job_id r else jr_correlation_id r)\<rparr>,
          j_dispatch = \<lparr>dc_command = cmd, dc_lang = fst (lang_parse_from_db (jr_lang r)),
            dc_num_speakers = jr_num_speakers r, dc_options = jr_options r,
            dc_runtime_state = [], dc_debug_traces = False\<rparr>,
          j_source = \<lparr>src_submitted_by = jr_submitted_by r,
            src_submitted_by_name = jr_submitted_by_name r, src_source_dir = jr_source_dir r\<rparr>,
          j_filesystem = \<lparr>fsc_filenames = map normalize_backslashes (jr_filenames r),
            fsc_has_chat = jr_has_chat r, fsc_staging_dir = jr_staging_dir r,
            fsc_paths_mode = jr_paths_mode r, fsc_source_paths = jr_source_paths r,
            fsc_output_paths = jr_output_paths r, fsc_before_paths = [],
            fsc_media_mapping = jr_media_mapping r, fsc_media_subdir = jr_media_subdir r,
            fsc_source_dir = []\<rparr>,
          j_execution = \<lparr>ex_status = status, ex_file_statuses = files,
            ex_results = recover_results rows, ex_error = note_opt note (jr_error r),
            ex_completed_files = int (hm_count file_terminal files), ex_batch_progress = None\<rparr>,
          j_schedule = \<lparr>sch_submitted_at = jr_submitted_at r, sch_completed_at = jr_completed_at r,
            sch_next_eligible_at = jr_next_eligible_at r, sch_num_workers = jr_num_workers r,
            sch_lease = \<lparr>ls_leased_by_node = jr_leased_by_node r,
              ls_expires_at = jr_lease_expires_at r, ls_heartbeat_at = jr_lease_heartbeat_at r\<rparr>\<rparr>,
          j_runtime = \<lparr>rt_cancel_token = token_new token, rt_runner_active = False\<rparr>\<rparr>)"

record RecoveredJobPersistence =
  rjp_job_id :: JobId
  rjp_status :: JobStatus
  rjp_completed_at :: "UnixTimestamp option"
  rjp_next_eligible_at :: "UnixTimestamp option"
  rjp_requeued_files :: "rstr list"

definition resumable_names :: "Job \<Rightarrow> rstr list" where
  "resumable_names j = map fst (filter (\<lambda>(_, fs). file_resumable fs) (job_files j))"

definition needs_reconcile :: "JobStatus \<Rightarrow> bool" where
  "needs_reconcile s \<longleftrightarrow> s = JobInterrupted \<or> s = JobRunning"

text \<open>
  The body of the loop over the rows: the job to insert with the write-back its reconciliation
  asks for, or None for a row that is skipped.
\<close>

definition load_row ::
  "rat \<Rightarrow> nat \<Rightarrow> JobRow \<times> FileStatusRow list \<Rightarrow> (Job \<times> RecoveredJobPersistence option) option" where
  "load_row ttl_cutoff token row =
     (let (r, rows) = row
      in if jr_submitted_at r < ttl_cutoff then None
         else (case command_try_from (jr_command r) of
                 Inl _ \<Rightarrow> None
               | Inr cmd \<Rightarrow>
                   (let j = rebuild_job token cmd r rows
                    in if needs_reconcile (fst (recover_job_status (jr_status r)))
                       then (let requeued = resumable_names j;
                                 (d, j) = reconcile_recovered_runtime_state j
                             in Some (j, Some
                                  \<lparr>rjp_job_id = jr_job_id r, rjp_status = job_status j,
                                   rjp_completed_at = sch_completed_at (j_schedule j),
                                   rjp_next_eligible_at = sch_next_eligible_at (j_schedule j),
                                   rjp_requeued_files =
                                     (case d of RecRequeued \<Rightarrow> requeued | _ \<Rightarrow> [])\<rparr>))
                       else Some (j, None))))"

fun load_rows ::
  "rat \<Rightarrow> nat \<Rightarrow> (JobRow \<times> FileStatusRow list) list \<Rightarrow> Jobs
     \<Rightarrow> nat \<times> RecoveredJobPersistence list \<times> Jobs" where
  "load_rows cutoff token [] jobs = (0, [], jobs)"
| "load_rows cutoff token (row # rows) jobs =
     (case load_row cutoff token row of
        None \<Rightarrow> load_rows cutoff token rows jobs
      | Some (j, u) \<Rightarrow>
          (let (n, us, jobs') = load_rows cutoff (token + 1) rows (hm_insert (jr_job_id (fst row)) j jobs)
           in (n + 1, (case u of None \<Rightarrow> us | Some x \<Rightarrow> x # us), jobs')))"

section \<open>The startup sequence\<close>

definition write_back :: "RecoveredJobPersistence \<Rightarrow> JobDB \<Rightarrow> JobDB" where
  "write_back u db =
     fold (\<lambda>f. reset_recovered_file_to_queued (rjp_job_id u) f) (rjp_requeued_files u)
       (update_job_lease (rjp_job_id u) None None None
         (update_job_status (rjp_job_id u) (job_status_display (rjp_status u)) None
            (rjp_completed_at u) None (rjp_next_eligible_at u) db))"

definition load_from_db :: "UnixTimestamp \<Rightarrow> nat \<Rightarrow> JobStore \<Rightarrow> nat \<times> JobStore" where
  "load_from_db now token st =
     (case st_db st of
        None \<Rightarrow> (0, st)
      | Some db \<Rightarrow>
          (let cutoff = now - of_int (scf_job_ttl_days (st_config st)) * 86400;
               (n, us, jobs) = load_rows cutoff token (load_all_jobs db) (st_registry st)
           in (n, st\<lparr>st_registry := jobs, st_db := Some (fold write_back us db)\<rparr>)))"

text \<open>
  \<open>server.rs\<close>: recover, prune, and load into a new store. \<open>now\<close> stands for the three reads
  of the clock.
\<close>

definition startup :: "UnixTimestamp \<Rightarrow> nat \<Rightarrow> StoreConfig \<Rightarrow> JobDB \<Rightarrow> JobStore" where
  "startup now token cfg db =
     snd (load_from_db now token
       (store_new cfg (Some (snd (prune_expired now (scf_job_ttl_days cfg)
          (snd (recover_interrupted now db)))))))"

section \<open>What the rows determine\<close>

lemma file_status_roundtrip [simp]: "recover_file_status (file_status_display s) = (s, None)"
  by (simp add: recover_file_status_def file_status_wire.parse_display)

lemma job_status_roundtrip [simp]: "recover_job_status (job_status_display s) = (s, None)"
  by (simp add: recover_job_status_def job_status_wire.parse_display)

lemma failure_category_roundtrip [simp]:
  "recover_failure_category (map_option failure_category_display c) = (c, None)"
  by (cases c) (simp_all add: recover_failure_category_def failure_category_wire.parse_display)

lemma hm_get_fold_insert:
  assumes "distinct (map k rows)" and "r \<in> set rows"
  shows "hm_get (fold (\<lambda>r. hm_insert (k r) (v r)) rows m) (k r) = Some (v r)"
proof -
  have other: "x \<notin> k ` set rows \<Longrightarrow>
      hm_get (fold (\<lambda>r. hm_insert (k r) (v r)) rows m) x = hm_get m x" for rows m x
    by (induction rows arbitrary: m) (auto simp: hmap_store.get_put)
  show ?thesis
    using assms
  proof (induction rows arbitrary: m)
    case (Cons a rows)
    then show ?case
      by (cases "a = r") (auto simp: other hmap_store.get_put)
  qed simp
qed

lemma hm_get_fold_insert_None:
  "x \<notin> k ` set rows \<Longrightarrow> hm_get (fold (\<lambda>r. hm_insert (k r) (v r)) rows m) x = hm_get m x"
  by (induction rows arbitrary: m) (auto simp: hmap_store.get_put)

lemma recover_files_get:
  "distinct (map frw_filename rows) \<Longrightarrow> r \<in> set rows \<Longrightarrow>
     hm_get (recover_files rows) (frw_filename r) = Some (recover_file r)"
  unfolding recover_files_def by (rule hm_get_fold_insert)

lemma load_rows_other:
  "i \<notin> (\<lambda>p. jr_job_id (fst p)) ` set rows \<Longrightarrow>
     hm_get (snd (snd (load_rows cutoff token rows jobs))) i = hm_get jobs i"
proof (induction rows arbitrary: token jobs)
  case (Cons p rows)
  then show ?case
    by (auto simp: case_prod_beta Let_def hmap_store.get_put split: option.splits)
qed simp

lemma load_rows_get:
  assumes "distinct (map (\<lambda>p. jr_job_id (fst p)) rows)" and "p \<in> set rows"
    and "\<And>t. load_row cutoff t p \<noteq> None"
  shows "\<exists>t u. load_row cutoff t p =
    Some (the (hm_get (snd (snd (load_rows cutoff token rows jobs))) (jr_job_id (fst p))), u) \<and>
    hm_get (snd (snd (load_rows cutoff token rows jobs))) (jr_job_id (fst p)) \<noteq> None"
  using assms
proof (induction rows arbitrary: token jobs)
  case (Cons q rows)
  show ?case
  proof (cases "q = p")
    case True
    obtain j u where row: "load_row cutoff token p = Some (j, u)"
      using Cons.prems(3) [of token] by auto
    have "jr_job_id (fst p) \<notin> (\<lambda>p. jr_job_id (fst p)) ` set rows"
      using Cons.prems(1) True by auto
    then have "hm_get (snd (snd (load_rows cutoff token (q # rows) jobs))) (jr_job_id (fst p)) = Some j"
      using row True by (simp add: case_prod_beta Let_def load_rows_other hmap_store.get_put)
    with row show ?thesis by auto
  next
    case False
    then have p: "p \<in> set rows" using Cons.prems(2) by simp
    have d: "distinct (map (\<lambda>p. jr_job_id (fst p)) rows)" using Cons.prems(1) by simp
    show ?thesis
      using Cons.IH [OF d p Cons.prems(3)]
      by (cases "load_row cutoff token q") (auto simp: case_prod_beta Let_def)
  qed
qed simp

end
