(* ===== verification/Durability.thy ===== *)
theory Durability
  imports Recovery
begin

text \<open>
  How the database follows the memory. Four views of a store give the status of each job and
  file in memory and in the database; every store operation is described by what it does to the
  views. From that: which operations keep the two sides equal, what a crash and a restart of the
  server then preserve, and where the code lets the two sides drift apart.
\<close>

section \<open>Views\<close>

definition job_in :: "JobStore \<Rightarrow> JobId \<Rightarrow> Job option" where
  "job_in st i = hm_get (st_registry st) i"

definition file_in :: "JobStore \<Rightarrow> JobId \<Rightarrow> rstr \<Rightarrow> FileStatus option" where
  "file_in st i f = (case job_in st i of None \<Rightarrow> None | Some j \<Rightarrow> hm_get (job_files j) f)"

definition job_view :: "JobStore \<Rightarrow> JobId \<Rightarrow> JobStatus option" where
  "job_view st i = map_option (\<lambda>j. job_status j) (job_in st i)"

definition file_view :: "JobStore \<Rightarrow> JobId \<Rightarrow> rstr \<Rightarrow> FileStatusKind option" where
  "file_view st i f = map_option fs_status (file_in st i f)"

definition job_row :: "JobDB \<Rightarrow> JobId \<Rightarrow> JobRow option" where
  "job_row db i = find (\<lambda>r. jr_job_id r = i) (db_jobs db)"

definition file_row :: "JobDB \<Rightarrow> JobId \<Rightarrow> rstr \<Rightarrow> FileStatusRow option" where
  "file_row db i f = find (\<lambda>r. frw_job_id r = i \<and> frw_filename r = f) (db_files db)"

definition db_job_view :: "JobStore \<Rightarrow> JobId \<Rightarrow> rstr option" where
  "db_job_view st i =
     (case st_db st of None \<Rightarrow> None | Some db \<Rightarrow> map_option jr_status (job_row db i))"

definition db_file_view :: "JobStore \<Rightarrow> JobId \<Rightarrow> rstr \<Rightarrow> rstr option" where
  "db_file_view st i f =
     (case st_db st of None \<Rightarrow> None | Some db \<Rightarrow> map_option frw_status (file_row db i f))"

lemma find_sql_update:
  assumes "\<And>r. P (f r) = P r"
  shows "find P (sql_update Q f rows) = map_option (\<lambda>r. if Q r then f r else r) (find P rows)"
  using assms by (induction rows) (auto simp: sql_update_def)

lemma find_sat: "find P xs = Some r \<Longrightarrow> P r \<and> r \<in> set xs"
  by (auto simp: find_Some_iff)

section \<open>Database writes\<close>

lemma row_update_job_status:
  "job_row (update_job_status i s e c n x db) k = map_option (\<lambda>r. if k = i then r
     \<lparr>jr_status := s, jr_error := coalesce e (jr_error r),
      jr_completed_at := coalesce c (jr_completed_at r),
      jr_num_workers := coalesce n (jr_num_workers r), jr_next_eligible_at := x\<rparr> else r) (job_row db k)"
  "file_row (update_job_status i s e c n x db) k g = file_row db k g"
  by (auto simp: job_row_def file_row_def update_job_status_def find_sql_update
      intro!: option.map_cong dest: find_sat)

lemma row_update_job_lease:
  "map_option jr_status (job_row (update_job_lease i a b c db) k) = map_option jr_status (job_row db k)"
  "file_row (update_job_lease i a b c db) k g = file_row db k g"
  by (auto simp: job_row_def file_row_def update_job_lease_def find_sql_update option.map_comp
      intro!: option.map_cong)

lemma row_update_file_status:
  "job_row (update_file_status i f s e ec b ct st fin x db) k = job_row db k"
  "file_row (update_file_status i f s e ec b ct st fin x db) k g =
     map_option (\<lambda>r. if k = i \<and> g = f then r
       \<lparr>frw_status := s, frw_error := coalesce e (frw_error r),
        frw_error_category := coalesce ec (frw_error_category r),
        frw_bug_report_id := coalesce b (frw_bug_report_id r),
        frw_content_type := coalesce_nn ct (frw_content_type r),
        frw_started_at := coalesce st (frw_started_at r),
        frw_finished_at := coalesce fin (frw_finished_at r),
        frw_next_eligible_at := x\<rparr> else r) (file_row db k g)"
  by (auto simp: job_row_def file_row_def update_file_status_def find_sql_update
      intro!: option.map_cong dest: find_sat)

lemma rows_attempts:
  "job_row (snd (insert_attempt_start i u kind t db)) k = job_row db k"
  "file_row (snd (insert_attempt_start i u kind t db)) k g = file_row db k g"
  "job_row (finish_attempt a out cat disp fin db) k = job_row db k"
  "file_row (finish_attempt a out cat disp fin db) k g = file_row db k g"
  by (simp_all add: job_row_def file_row_def insert_attempt_start_def finish_attempt_def Let_def)

lemma with_db_views:
  "job_in (with_db h st) k = job_in st k"
  "file_in (with_db h st) k g = file_in st k g"
  "st_config (with_db h st) = st_config st"
  by (simp_all add: with_db_def job_in_def file_in_def)

lemma db_update_job_views:
  "job_in (db_update_job i u st) k = job_in st k"
  "file_in (db_update_job i u st) k g = file_in st k g"
  "db_job_view (db_update_job i u st) k =
     (if k = i then map_option (\<lambda>_. job_status_display (pj_status u)) (db_job_view st k)
      else db_job_view st k)"
  "db_file_view (db_update_job i u st) k g = db_file_view st k g"
  by (simp_all add: db_update_job_def with_db_views)
    (simp_all add: db_job_view_def db_file_view_def with_db_def row_update_job_status
      option.map_comp comp_def split: option.split)

lemma db_update_file_views:
  "job_in (db_update_file i u st) k = job_in st k"
  "file_in (db_update_file i u st) k g = file_in st k g"
  "db_job_view (db_update_file i u st) k = db_job_view st k"
  "db_file_view (db_update_file i u st) k g =
     (if k = i \<and> g = pfu_filename u
      then map_option (\<lambda>_. file_status_display (pfu_status u)) (db_file_view st k g)
      else db_file_view st k g)"
  by (simp_all add: db_update_file_def with_db_views)
    (cases "k = i \<and> g = pfu_filename u"; auto simp: db_job_view_def db_file_view_def with_db_def
      row_update_file_status option.map_comp comp_def split: option.split)+

lemma lease_views:
  "job_in (with_db (update_job_lease i a b c) st) k = job_in st k"
  "file_in (with_db (update_job_lease i a b c) st) k g = file_in st k g"
  "db_job_view (with_db (update_job_lease i a b c) st) k = db_job_view st k"
  "db_file_view (with_db (update_job_lease i a b c) st) k g = db_file_view st k g"
  by (simp_all add: with_db_views)
    (simp_all add: db_job_view_def db_file_view_def with_db_def row_update_job_lease
      split: option.split)

lemma quiet_views:
  "job_in (broadcast_ws_event ev st) k = job_in st k"
  "file_in (broadcast_ws_event ev st) k g = file_in st k g"
  "db_job_view (broadcast_ws_event ev st) k = db_job_view st k"
  "db_file_view (broadcast_ws_event ev st) k g = db_file_view st k g"
  "job_in (bump_counter h st) k = job_in st k"
  "file_in (bump_counter h st) k g = file_in st k g"
  "db_job_view (bump_counter h st) k = db_job_view st k"
  "db_file_view (bump_counter h st) k g = db_file_view st k g"
  by (simp_all add: broadcast_ws_event_def bump_counter_def job_in_def file_in_def db_job_view_def
      db_file_view_def)

lemma notify_views:
  "job_in (notify_file_update u st) k = job_in st k"
  "file_in (notify_file_update u st) k g = file_in st k g"
  "db_job_view (notify_file_update u st) k = db_job_view st k"
  "db_file_view (notify_file_update u st) k g = db_file_view st k g"
  "job_in (notify_job_item it st) k = job_in st k"
  "file_in (notify_job_item it st) k g = file_in st k g"
  "db_job_view (notify_job_item it st) k = db_job_view st k"
  "db_file_view (notify_job_item it st) k g = db_file_view st k g"
  by (simp_all add: notify_file_update_def notify_job_item_def quiet_views)

section \<open>Registry updates inside the store\<close>

lemma run_reg_update_job:
  "snd (run_reg (update_job i f) st) = st\<lparr>st_registry := hm_modify i (\<lambda>j. snd (f j)) (st_registry st)\<rparr>"
  "fst (run_reg (update_job i f) st) = map_option (\<lambda>j. fst (f j)) (job_in st i)"
  by (auto simp: run_reg_def case_prod_beta update_job_def job_in_def hm_modify_absent
      split: option.split)

lemma run_reg_update_file:
  "snd (run_reg (update_file i f t) st) = st\<lparr>st_registry := hm_modify i (\<lambda>j. snd (t j)) (st_registry st)\<rparr>"
  by (simp add: run_reg_def case_prod_beta update_file_snd)

lemma registry_update_views:
  "job_in (st\<lparr>st_registry := hm_modify i h (st_registry st)\<rparr>) k =
     (if k = i then map_option h (job_in st k) else job_in st k)"
  "db_job_view (st\<lparr>st_registry := jobs\<rparr>) k = db_job_view st k"
  "db_file_view (st\<lparr>st_registry := jobs\<rparr>) k g = db_file_view st k g"
  by (simp_all add: job_in_def db_job_view_def db_file_view_def hmap_store.get_modify)

lemma hm_modify_id: "hm_get m k = Some v \<Longrightarrow> h v = v \<Longrightarrow> hm_modify k h m = m"
  unfolding hm_modify_def hm_get_def by (induction m) auto

text \<open>
  A file operation on an unknown file does nothing; on a known one it updates the registry,
  notifies, and goes on.
\<close>

lemma file_op_absent:
  assumes "file_in st i f = None"
  shows "file_op (update_file i f (with_file f u g)) after st = st"
proof (cases "job_in st i")
  case None
  then show ?thesis
    by (simp add: file_op_def run_reg_def update_file_def update_job_def job_in_def
        opt_flatten_def case_prod_beta)
next
  case (Some j)
  with assms have "with_file f u g j = (False, j)"
    by (simp add: file_in_def with_file_None)
  with Some show ?thesis
    by (simp add: file_op_def run_reg_def update_file_def update_job_def job_in_def
        opt_flatten_def case_prod_beta hm_modify_id)
qed

lemma file_op_present:
  assumes "file_in st i f = Some fs" and "\<And>e. ex_file_statuses (g e) = ex_file_statuses e"
  shows "\<exists>p. file_op (update_file i f (with_file f u g)) after st = after (notify_file_update p
    (st\<lparr>st_registry := hm_modify i (\<lambda>j. snd (with_file f u g j)) (st_registry st)\<rparr>))"
proof -
  from assms obtain j where j: "hm_get (st_registry st) i = Some j" "hm_get (job_files j) f = Some fs"
    by (auto simp: file_in_def job_in_def split: option.splits)
  let ?j = "snd (with_file f u g j)"
  have "hm_get (job_files ?j) f = Some (u fs)"
    using j(2) assms(2) by (simp add: with_file_Some hmap_store.get_modify)
  then have "file_update_projection ?j f \<noteq> None"
    by (simp add: file_update_projection_def)
  with j show ?thesis
    by (auto simp: file_op_def run_reg_def update_file_def update_job_def opt_flatten_def
        case_prod_beta with_file_Some)
qed

lemma with_file_registry_views:
  assumes "file_in st i f = Some fs" and "\<And>e. ex_file_statuses (g e) = ex_file_statuses e"
    and "\<And>e. ex_status (g e) = ex_status e"
  shows "job_view (st\<lparr>st_registry := hm_modify i (\<lambda>j. snd (with_file f u g j)) (st_registry st)\<rparr>) k =
      job_view st k"
    and "file_in (st\<lparr>st_registry := hm_modify i (\<lambda>j. snd (with_file f u g j)) (st_registry st)\<rparr>) k h =
      (if k = i \<and> h = f then Some (u fs) else file_in st k h)"
proof -
  show "job_view (st\<lparr>st_registry := hm_modify i (\<lambda>j. snd (with_file f u g j)) (st_registry st)\<rparr>) k =
      job_view st k"
    using assms(3)
    by (simp add: job_view_def registry_update_views option.map_comp comp_def)
  from assms(1) obtain j where "job_in st i = Some j" "hm_get (job_files j) f = Some fs"
    by (auto simp: file_in_def split: option.splits)
  then show "file_in (st\<lparr>st_registry := hm_modify i (\<lambda>j. snd (with_file f u g j)) (st_registry st)\<rparr>) k h =
      (if k = i \<and> h = f then Some (u fs) else file_in st k h)"
    using assms(2)
    by (auto simp: file_in_def registry_update_views with_file_Some hmap_store.get_modify)
qed

text \<open>Attaching or taking an attempt id changes no status.\<close>

lemma attempt_id_views:
  "job_view (snd (run_reg (reg_attach_attempt_id i f a) st)) k = job_view st k"
  "file_view (snd (run_reg (reg_attach_attempt_id i f a) st)) k h = file_view st k h"
  "job_view (snd (run_reg (reg_take_attempt_id i f) st)) k = job_view st k"
  "file_view (snd (run_reg (reg_take_attempt_id i f) st)) k h = file_view st k h"
  "db_job_view (snd (run_reg (reg_attach_attempt_id i f a) st)) k = db_job_view st k"
  "db_file_view (snd (run_reg (reg_attach_attempt_id i f a) st)) k h = db_file_view st k h"
  "db_job_view (snd (run_reg (reg_take_attempt_id i f) st)) k = db_job_view st k"
  "db_file_view (snd (run_reg (reg_take_attempt_id i f) st)) k h = db_file_view st k h"
  "st_db (snd (run_reg (reg_attach_attempt_id i f a) st)) = st_db st"
  "st_db (snd (run_reg (reg_take_attempt_id i f) st)) = st_db st"
proof -
  have frame: "snd (run_reg (reg_attach_attempt_id i f a) st) = st\<lparr>st_registry := hm_modify i
      (\<lambda>j. snd (with_file f (\<lambda>fs. fs\<lparr>fs_current_attempt_id := Some a\<rparr>) (\<lambda>e. e) j)) (st_registry st)\<rparr>"
    "snd (run_reg (reg_take_attempt_id i f) st) = st\<lparr>st_registry := hm_modify i
      (\<lambda>j. snd (with_file f (\<lambda>fs. fs\<lparr>fs_current_attempt_id := None\<rparr>) (\<lambda>e. e) j)) (st_registry st)\<rparr>"
    by (simp_all add: run_reg_def reg_attach_attempt_id_def reg_take_attempt_id_def case_prod_beta
        update_job_snd)
  have id: "map_option fs_status (case map_option (\<lambda>j. snd (with_file f u (\<lambda>e. e) j)) x of
        None \<Rightarrow> None | Some j \<Rightarrow> hm_get (job_files j) h) =
      map_option fs_status (case x of None \<Rightarrow> None | Some j \<Rightarrow> hm_get (job_files j) h)"
    if "\<And>fs. fs_status (u fs) = fs_status fs" for u x
    using that by (auto simp: with_file_def hmap_store.get_modify option.map_comp comp_def
        split: option.splits)
  show "job_view (snd (run_reg (reg_attach_attempt_id i f a) st)) k = job_view st k"
    "job_view (snd (run_reg (reg_take_attempt_id i f) st)) k = job_view st k"
    unfolding frame by (simp_all add: job_view_def registry_update_views option.map_comp comp_def)
  show "file_view (snd (run_reg (reg_attach_attempt_id i f a) st)) k h = file_view st k h"
    "file_view (snd (run_reg (reg_take_attempt_id i f) st)) k h = file_view st k h"
    unfolding frame by (simp_all add: file_view_def file_in_def registry_update_views id del: case_map_option)
qed (simp_all add: run_reg_def case_prod_beta db_job_view_def db_file_view_def)

section \<open>Operations that keep both sides equal\<close>

definition mirror :: "JobStore \<Rightarrow> bool" where
  "mirror st \<longleftrightarrow>
     (\<forall>i s. job_view st i = Some s \<longrightarrow> db_job_view st i = Some (job_status_display s)) \<and>
     (\<forall>i f s. file_view st i f = Some s \<longrightarrow> db_file_view st i f = Some (file_status_display s))"

lemma mirror_same:
  assumes "mirror st" and "\<And>k. job_view st' k = job_view st k"
    and "\<And>k h. file_view st' k h = file_view st k h"
    and "\<And>k. db_job_view st' k = db_job_view st k"
    and "\<And>k h. db_file_view st' k h = db_file_view st k h"
  shows "mirror st'"
  using assms by (simp add: mirror_def)

lemma mirror_file:
  assumes "mirror st" and "file_view st i f \<noteq> None" and "\<And>k. job_view st' k = job_view st k"
    and "\<And>k h. file_view st' k h = (if k = i \<and> h = f then Some s else file_view st k h)"
    and "\<And>k. db_job_view st' k = db_job_view st k"
    and "\<And>k h. db_file_view st' k h = (if k = i \<and> h = f
           then map_option (\<lambda>_. file_status_display s) (db_file_view st k h) else db_file_view st k h)"
  shows "mirror st'"
  using assms by (fastforce simp: mirror_def)

lemma mirror_job:
  assumes "mirror st" and "job_view st i \<noteq> None"
    and "\<And>k. job_view st' k = (if k = i then Some s else job_view st k)"
    and "\<And>k h. file_view st' k h = file_view st k h"
    and "\<And>k. db_job_view st' k = (if k = i
           then map_option (\<lambda>_. job_status_display s) (db_job_view st k) else db_job_view st k)"
    and "\<And>k h. db_file_view st' k h = db_file_view st k h"
  shows "mirror st'"
  using assms by (fastforce simp: mirror_def)

lemma db_update_file_all_views:
  "job_view (db_update_file i u st) k = job_view st k"
  "file_view (db_update_file i u st) k h = file_view st k h"
  "job_view (db_update_job i v st) k = job_view st k"
  "file_view (db_update_job i v st) k h = file_view st k h"
  "job_view (notify_file_update p st) k = job_view st k"
  "file_view (notify_file_update p st) k h = file_view st k h"
  "job_view (notify_job_item it st) k = job_view st k"
  "file_view (notify_job_item it st) k h = file_view st k h"
  "job_view (bump_counter c st) k = job_view st k"
  "file_view (bump_counter c st) k h = file_view st k h"
  "job_view (broadcast_ws_event ev st) k = job_view st k"
  "file_view (broadcast_ws_event ev st) k h = file_view st k h"
  by (simp_all add: job_view_def file_view_def db_update_file_views db_update_job_views
      notify_views quiet_views)

lemma finish_attempt_views:
  "job_view (db_finish_attempt_for_file i a st) k = job_view st k"
  "file_view (db_finish_attempt_for_file i a st) k h = file_view st k h"
  "db_job_view (db_finish_attempt_for_file i a st) k = db_job_view st k"
  "db_file_view (db_finish_attempt_for_file i a st) k h = db_file_view st k h"
proof -
  let ?st = "snd (run_reg (reg_take_attempt_id i (af_filename a)) st)"
  have wd: "job_view (with_db (finish_attempt x out cat disp fin) s) k = job_view s k"
    "file_view (with_db (finish_attempt x out cat disp fin) s) k h = file_view s k h"
    "db_job_view (with_db (finish_attempt x out cat disp fin) s) k = db_job_view s k"
    "db_file_view (with_db (finish_attempt x out cat disp fin) s) k h = db_file_view s k h"
    for x out cat disp fin s
    by (simp_all add: job_view_def file_view_def with_db_views)
      (simp_all add: db_job_view_def db_file_view_def with_db_def rows_attempts split: option.split)
  show "job_view (db_finish_attempt_for_file i a st) k = job_view st k"
    "file_view (db_finish_attempt_for_file i a st) k h = file_view st k h"
    "db_job_view (db_finish_attempt_for_file i a st) k = db_job_view st k"
    "db_file_view (db_finish_attempt_for_file i a st) k h = db_file_view st k h"
    by (simp_all add: db_finish_attempt_for_file_def case_prod_beta wd attempt_id_views
        split: option.split)
qed

lemma start_attempt_views:
  "job_view (db_start_attempt i a st) k = job_view st k"
  "file_view (db_start_attempt i a st) k h = file_view st k h"
  "db_job_view (db_start_attempt i a st) k = db_job_view st k"
  "db_file_view (db_start_attempt i a st) k h = db_file_view st k h"
proof -
  have db: "job_view (st\<lparr>st_db := d\<rparr>) k = job_view st k" "file_view (st\<lparr>st_db := d\<rparr>) k h = file_view st k h"
    for d by (simp_all add: job_view_def file_view_def job_in_def file_in_def)
  have rows: "db_job_view (st\<lparr>st_db := Some (snd (insert_attempt_start i u kd t d))\<rparr>) k = db_job_view st k"
    "db_file_view (st\<lparr>st_db := Some (snd (insert_attempt_start i u kd t d))\<rparr>) k h = db_file_view st k h"
    if "st_db st = Some d" for u kd t d
    using that by (simp_all add: db_job_view_def db_file_view_def rows_attempts)
  show "job_view (db_start_attempt i a st) k = job_view st k"
    "file_view (db_start_attempt i a st) k h = file_view st k h"
    "db_job_view (db_start_attempt i a st) k = db_job_view st k"
    "db_file_view (db_start_attempt i a st) k h = db_file_view st k h"
    by (simp_all add: db_start_attempt_def case_prod_beta Let_def attempt_id_views db rows
        split: option.split)
qed

text \<open>
  The whole of a file operation on the views: \<open>s\<close> is the status both sides end with.
\<close>

lemma mirror_file_op:
  assumes "mirror st"
    and "\<And>e. ex_file_statuses (g e) = ex_file_statuses e" "\<And>e. ex_status (g e) = ex_status e"
    and "\<And>fs. file_in st i f = Some fs \<Longrightarrow> fs_status (u fs) = s"
    and "\<And>st k. job_view (after st) k = job_view st k"
    and "\<And>st k h. file_view (after st) k h = file_view st k h"
    and "\<And>st k. db_job_view (after st) k = db_job_view st k"
    and "\<And>st k h. db_file_view (after st) k h = (if k = i \<and> h = f
           then map_option (\<lambda>_. file_status_display s) (db_file_view st k h) else db_file_view st k h)"
  shows "mirror (file_op (update_file i f (with_file f u g)) after st)"
proof (cases "file_in st i f")
  case None
  then show ?thesis using assms(1) by (simp add: file_op_absent)
next
  case (Some fs)
  let ?r = "st\<lparr>st_registry := hm_modify i (\<lambda>j. snd (with_file f u g j)) (st_registry st)\<rparr>"
  obtain p where p: "file_op (update_file i f (with_file f u g)) after st =
      after (notify_file_update p ?r)"
    using file_op_present [OF Some assms(2)] by blast
  show ?thesis
    unfolding p
  proof (rule mirror_file [OF assms(1)])
    show "file_view st i f \<noteq> None" using Some by (simp add: file_view_def)
    show "job_view (after (notify_file_update p ?r)) k = job_view st k" for k
      using with_file_registry_views(1) [OF Some assms(2,3)]
      by (simp add: assms(5) db_update_file_all_views)
    show "file_view (after (notify_file_update p ?r)) k h =
        (if k = i \<and> h = f then Some s else file_view st k h)" for k h
      using with_file_registry_views(2) [OF Some assms(2,3)] assms(4) [OF Some]
      by (simp add: assms(6) db_update_file_all_views) (simp add: file_view_def)
  qed (simp_all add: assms(7,8) notify_views registry_update_views)
qed

lemma job_op_absent:
  "job_in st i = None \<Longrightarrow> job_op (update_job i (with_list_item tsi h)) after st = st"
  by (simp add: job_op_def run_reg_def update_job_def job_in_def case_prod_beta)

lemma job_op_present:
  assumes "job_in st i = Some j"
  shows "\<exists>it. job_op (update_job i (with_list_item tsi h)) after st =
    after (notify_job_item it (st\<lparr>st_registry := hm_modify i h (st_registry st)\<rparr>))"
  using assms
  by (auto simp: job_op_def run_reg_def update_job_def job_in_def case_prod_beta with_list_item_def
      Let_def)

lemma job_registry_views:
  assumes "job_in st i = Some j" and "job_status (h j) = s" and "job_files (h j) = job_files j"
  shows "job_view (st\<lparr>st_registry := hm_modify i h (st_registry st)\<rparr>) k =
      (if k = i then Some s else job_view st k)"
    and "file_view (st\<lparr>st_registry := hm_modify i h (st_registry st)\<rparr>) k g = file_view st k g"
  using assms
  by (auto simp: job_view_def file_view_def file_in_def registry_update_views split: option.split)

lemma mirror_job_op:
  assumes "mirror st"
    and "\<And>j. job_in st i = Some j \<Longrightarrow> job_status (h j) = s \<and> job_files (h j) = job_files j"
    and "\<And>st k. job_view (after st) k = job_view st k"
    and "\<And>st k h. file_view (after st) k h = file_view st k h"
    and "\<And>st k. db_job_view (after st) k = (if k = i
           then map_option (\<lambda>_. job_status_display s) (db_job_view st k) else db_job_view st k)"
    and "\<And>st k h. db_file_view (after st) k h = db_file_view st k h"
  shows "mirror (job_op (update_job i (with_list_item tsi h)) after st)"
proof (cases "job_in st i")
  case None
  then show ?thesis using assms(1) by (simp add: job_op_absent)
next
  case (Some j)
  obtain it where it: "job_op (update_job i (with_list_item tsi h)) after st =
      after (notify_job_item it (st\<lparr>st_registry := hm_modify i h (st_registry st)\<rparr>))"
    using job_op_present [OF Some] by blast
  note frame = job_registry_views [where h = h, OF Some conjunct1 [OF assms(2) [OF Some]]
      conjunct2 [OF assms(2) [OF Some]]]
  show ?thesis
    unfolding it
  proof (rule mirror_job [OF assms(1)])
    show "job_view st i \<noteq> None" using Some by (simp add: job_view_def)
  qed (auto simp add: assms(3-6) db_update_file_all_views notify_views frame registry_update_views)
qed

datatype StoreOp =
  OpProcessing JobId rstr UnixTimestamp
| OpDone JobId rstr UnixTimestamp "CompletedFileOutput option"
| OpError JobId rstr FileFailureRecord
| OpAttempt JobId rstr WorkUnitKind UnixTimestamp
| OpRetry JobId rstr FileRetryRecord
| OpClear JobId rstr
| OpProgress JobId rstr FileProgressRecord
| OpRequeue JobId UnixTimestamp
| OpRunning JobId
| OpWorkers JobId nat
| OpFail JobId rstr UnixTimestamp
| OpFinalize JobId JobStatus UnixTimestamp
| OpCancel JobId UnixTimestamp
| OpRelease JobId

fun store_apply :: "StoreOp \<Rightarrow> JobStore \<Rightarrow> JobStore" where
  "store_apply (OpProcessing i f t) st = store_mark_file_processing i f t st"
| "store_apply (OpDone i f t r) st = store_mark_file_done i f t r st"
| "store_apply (OpError i f r) st = store_mark_file_error i f r st"
| "store_apply (OpAttempt i f k t) st = store_start_file_attempt i f k t st"
| "store_apply (OpRetry i f r) st = store_mark_file_retry_pending i f r st"
| "store_apply (OpClear i f) st = store_clear_file_retry_state i f st"
| "store_apply (OpProgress i f p) st = store_set_file_progress i f p st"
| "store_apply (OpRequeue i t) st = store_requeue_job_after_memory_gate i t st"
| "store_apply (OpRunning i) st = store_mark_job_running i st"
| "store_apply (OpWorkers i n) st = store_record_job_worker_count i n st"
| "store_apply (OpFail i e t) st = store_fail_job i e t st"
| "store_apply (OpFinalize i s t) st = store_finalize_job i s t st"
| "store_apply (OpCancel i t) st = snd (store_cancel i t st)"
| "store_apply (OpRelease i) st = store_release_runner_claim i st"

text \<open>
  When an operation keeps the sides equal: an attempt starts on a file that is already
  processing, a worker count is recorded for a running job, an active job is cancelled.
\<close>

fun in_step :: "JobStore \<Rightarrow> StoreOp \<Rightarrow> bool" where
  "in_step st (OpAttempt i f k t) =
     (case file_view st i f of None \<Rightarrow> True | Some s \<Rightarrow> s = FileProcessing)"
| "in_step st (OpWorkers i n) = (case job_view st i of None \<Rightarrow> True | Some s \<Rightarrow> s = JobRunning)"
| "in_step st (OpCancel i t) = (case job_view st i of None \<Rightarrow> True | Some s \<Rightarrow> job_is_active s)"
| "in_step st _ = True"

lemma mirror_keep_registry:
  assumes "mirror st"
    and "\<And>j. job_in st i = Some j \<Longrightarrow> job_status (h j) = job_status j \<and>
      (\<forall>f. map_option fs_status (hm_get (job_files (h j)) f) = map_option fs_status (hm_get (job_files j) f))"
  shows "mirror (st\<lparr>st_registry := hm_modify i h (st_registry st)\<rparr>)"
proof (rule mirror_same [OF assms(1)])
  show "job_view (st\<lparr>st_registry := hm_modify i h (st_registry st)\<rparr>) k = job_view st k" for k
    using assms(2) by (cases "job_in st i") (simp_all add: job_view_def registry_update_views)
  show "file_view (st\<lparr>st_registry := hm_modify i h (st_registry st)\<rparr>) k g = file_view st k g" for k g
    using assms(2)
    by (cases "job_in st i") (simp_all add: file_view_def file_in_def registry_update_views)
qed (simp_all add: registry_update_views)

lemma lease_all_views:
  "job_view (with_db (update_job_lease i a b c) st) k = job_view st k"
  "file_view (with_db (update_job_lease i a b c) st) k g = file_view st k g"
  by (simp_all add: job_view_def file_view_def lease_views)

lemma mirror_lease: "mirror st \<Longrightarrow> mirror (with_db (update_job_lease i a b c) st)"
  by (erule mirror_same) (simp_all add: lease_all_views lease_views)

lemma file_update_fields [simp]:
  "pfu_filename (file_update f s) = f" "pfu_status (file_update f s) = s"
  "pj_status (job_update t) = t"
  by (simp_all add: file_update_def job_update_def)

lemmas store_views =
  db_update_file_all_views db_update_file_views db_update_job_views notify_views quiet_views
  finish_attempt_views start_attempt_views

lemma with_file_id_keep:
  assumes "\<And>fs. fs_status (u fs) = fs_status fs"
  shows "job_status (snd (with_file f u (\<lambda>e. e) j)) = job_status j \<and>
    (\<forall>g. map_option fs_status (hm_get (job_files (snd (with_file f u (\<lambda>e. e) j))) g) =
         map_option fs_status (hm_get (job_files j) g))"
  using assms
  by (auto simp: with_file_def hmap_store.get_modify option.map_comp comp_def split: option.split)

lemma mirror_files:
  assumes "mirror st"
  shows "mirror (store_mark_file_processing i f t st)"
    and "mirror (store_mark_file_done i f t r st)"
    and "mirror (store_mark_file_error i f e st)"
    and "mirror (store_mark_file_retry_pending i f rr st)"
proof -
  show "mirror (store_mark_file_processing i f t st)"
    unfolding store_mark_file_processing_def reg_mark_file_processing_def mark_file_processing_def
    by (rule mirror_file_op [OF assms, where s = FileProcessing])
      (simp_all add: fs_processing_def store_views)
  show "mirror (store_mark_file_done i f t r st)"
    unfolding store_mark_file_done_def reg_mark_file_done_def mark_file_done_def
    by (rule mirror_file_op [OF assms, where s = FileDone])
      (simp_all add: fs_done_def store_views split: option.split)
  show "mirror (store_mark_file_error i f e st)"
    unfolding store_mark_file_error_def reg_mark_file_error_def mark_file_error_def
    by (rule mirror_file_op [OF assms, where s = FileError]) (simp_all add: fs_failed_def store_views)
  show "mirror (store_mark_file_retry_pending i f rr st)"
    unfolding store_mark_file_retry_pending_def reg_mark_file_retry_pending_def
      mark_file_retry_pending_def
    by (rule mirror_file_op [OF assms, where s = FileProcessing])
      (simp_all add: fs_retry_pending_def store_views)
qed

lemma mirror_attempt:
  assumes "mirror st" and "in_step st (OpAttempt i f kind t)"
  shows "mirror (store_start_file_attempt i f kind t st)"
  unfolding store_start_file_attempt_def reg_start_file_attempt_def start_file_attempt_def
  by (rule mirror_file_op [OF assms(1), where s = FileProcessing])
    (use assms(2) in \<open>simp_all add: store_views file_view_def [of st]\<close>)

lemma mirror_quiet_file:
  assumes "mirror st"
  shows "mirror (store_clear_file_retry_state i f st)"
    and "mirror (store_set_file_progress i f p st)"
proof -
  have "snd (run_reg (reg_clear_file_retry_state i f) st) = st\<lparr>st_registry :=
      hm_modify i (\<lambda>j. snd (clear_file_retry_state j f)) (st_registry st)\<rparr>"
    by (simp add: run_reg_def reg_clear_file_retry_state_def case_prod_beta update_job_snd)
  then show "mirror (store_clear_file_retry_state i f st)"
    unfolding store_clear_file_retry_state_def clear_file_retry_state_def
    by (simp add: mirror_keep_registry [OF assms] with_file_id_keep)
  have keep: "mirror (st\<lparr>st_registry := hm_modify i (\<lambda>j. snd (set_file_progress j f p)) (st_registry st)\<rparr>)"
    unfolding set_file_progress_def by (simp add: mirror_keep_registry [OF assms] with_file_id_keep)
  show "mirror (store_set_file_progress i f p st)"
    unfolding store_set_file_progress_def reg_set_file_progress_def file_op_def
    using keep
    by (auto simp: case_prod_beta run_reg_update_file split: option.split
        intro: mirror_same simp: store_views)
qed

lemma mirror_jobs:
  assumes "mirror st"
  shows "mirror (store_requeue_job_after_memory_gate i t st)"
    and "mirror (store_mark_job_running i st)"
    and "mirror (store_fail_job i e t st)"
    and "mirror (store_finalize_job i s t st)"
proof -
  show "mirror (store_requeue_job_after_memory_gate i t st)"
    unfolding store_requeue_job_after_memory_gate_def reg_requeue_after_memory_gate_def
    by (rule mirror_job_op [OF assms, where s = JobQueued])
      (simp_all add: requeue_after_memory_gate_def store_views)
  show "mirror (store_mark_job_running i st)"
    unfolding store_mark_job_running_def reg_mark_job_running_def
    by (rule mirror_job_op [OF assms, where s = JobRunning]) (simp_all add: mark_running_def store_views)
  show "mirror (store_fail_job i e t st)"
    unfolding store_fail_job_def reg_fail_job_def
    by (rule mirror_job_op [OF assms, where s = JobFailed]) (simp_all add: job_fail_def store_views)
  show "mirror (store_finalize_job i s t st)"
    unfolding store_finalize_job_def reg_finalize_job_def
    by (rule mirror_job_op [OF assms, where s = s]) (simp_all add: finalize_def store_views)
qed

lemma mirror_workers:
  assumes "mirror st" and "in_step st (OpWorkers i n)"
  shows "mirror (store_record_job_worker_count i n st)"
proof -
  let ?r = "st\<lparr>st_registry := hm_modify i (\<lambda>j. record_worker_count j n) (st_registry st)\<rparr>"
  have reg: "snd (run_reg (reg_record_job_worker_count i n) st) = ?r"
    "fst (run_reg (reg_record_job_worker_count i n) st) = (job_in st i \<noteq> None)"
    by (auto simp: run_reg_def reg_record_job_worker_count_def case_prod_beta
        update_job_def job_in_def hm_modify_absent split: option.split)
  have m: "mirror ?r"
    by (rule mirror_keep_registry [OF assms(1)]) (simp add: record_worker_count_def)
  show ?thesis
  proof (cases "job_in st i")
    case None
    with m reg show ?thesis by (simp add: store_record_job_worker_count_def case_prod_beta)
  next
    case (Some j)
    with assms(2) have run: "job_status j = JobRunning" by (simp add: job_view_def)
    have "mirror (db_update_job i ((job_update JobRunning)\<lparr>pj_num_workers := Some (int n)\<rparr>) ?r)"
    proof (rule mirror_job [OF m])
      show "job_view ?r i \<noteq> None"
        using Some by (simp add: job_view_def registry_update_views)
    qed (use Some run in \<open>auto simp: store_views job_view_def registry_update_views record_worker_count_def\<close>)
    with reg Some show ?thesis by (simp add: store_record_job_worker_count_def case_prod_beta)
  qed
qed

lemma mirror_cancel:
  assumes "mirror st" and "in_step st (OpCancel i t)"
  shows "mirror (snd (store_cancel i t st))"
proof -
  let ?r = "st\<lparr>st_registry := hm_modify i (\<lambda>j. snd (request_cancellation j t)) (st_registry st)\<rparr>"
  have reg: "snd (run_reg (reg_request_cancellation i t) st) = ?r"
    "fst (run_reg (reg_request_cancellation i t) st) =
      map_option (\<lambda>j. fst (request_cancellation j t)) (job_in st i)"
    unfolding reg_request_cancellation_def by (simp_all add: run_reg_update_job)
  show ?thesis
  proof (cases "job_in st i")
    case None
    then have "?r = st" by (simp add: job_in_def hm_modify_absent)
    with None reg assms(1) show ?thesis by (simp add: store_cancel_def case_prod_beta)
  next
    case (Some j)
    with assms(2) have act: "job_is_active (job_status j)" by (simp add: job_view_def)
    then have c: "fst (request_cancellation j t) = Some t"
      "job_status (snd (request_cancellation j t)) = JobCancelled"
      "job_files (snd (request_cancellation j t)) = job_files j"
      by (simp_all add: request_cancellation_def job_can_cancel_def cancel_token_def Let_def)
    have "mirror (db_update_job i ((job_update JobCancelled)\<lparr>pj_completed_at := Some t\<rparr>) ?r)"
    proof (rule mirror_job [OF assms(1), where s = JobCancelled])
      show "job_view st i \<noteq> None" using Some by (simp add: job_view_def)
    qed (auto simp: store_views registry_update_views
          job_registry_views [where h = "\<lambda>j. snd (request_cancellation j t)", OF Some c(2,3)])
    with reg Some c(1) show ?thesis by (simp add: store_cancel_def case_prod_beta)
  qed
qed

lemma mirror_release:
  assumes "mirror st"
  shows "mirror (store_release_runner_claim i st)"
proof -
  let ?r = "st\<lparr>st_registry := hm_modify i release_local_dispatch_claim (st_registry st)\<rparr>"
  have "snd (run_reg (reg_release_runner_claim i) st) = ?r"
    by (simp add: run_reg_def reg_release_runner_claim_def case_prod_beta update_job_snd)
  moreover have "mirror ?r"
    by (rule mirror_keep_registry [OF assms])
      (simp add: release_local_dispatch_claim_def clear_lease_def)
  ultimately show ?thesis
    by (simp add: store_release_runner_claim_def case_prod_beta mirror_lease)
qed

lemma mirror_step: "mirror st \<Longrightarrow> in_step st op \<Longrightarrow> mirror (store_apply op st)"
  by (cases op) (simp_all add: mirror_files mirror_quiet_file mirror_jobs mirror_release
      mirror_attempt mirror_workers mirror_cancel del: in_step.simps)

fun all_in_step :: "JobStore \<Rightarrow> StoreOp list \<Rightarrow> bool" where
  "all_in_step st [] = True"
| "all_in_step st (op # ops) = (in_step st op \<and> all_in_step (store_apply op st) ops)"

lemma mirror_run: "mirror st \<Longrightarrow> all_in_step st ops \<Longrightarrow> mirror (fold store_apply ops st)"
  by (induction ops arbitrary: st) (auto simp: mirror_step)

section \<open>Submission\<close>

definition fresh_job :: "Job \<Rightarrow> bool" where
  "fresh_job j \<longleftrightarrow> job_status j = JobQueued \<and> \<not> rt_runner_active (j_runtime j) \<and> distinct (fsc_filenames (j_filesystem j)) \<and>
     (\<forall>f. hm_get (job_files j) f = (if f \<in> set (fsc_filenames (j_filesystem j))
        then Some (file_status_new f) else None))"

lemma find_append: "find P (xs @ ys) = (case find P xs of None \<Rightarrow> find P ys | Some x \<Rightarrow> Some x)"
  by (induction xs) auto

lemma find_new_file_rows:
  "find (\<lambda>r. frw_job_id r = i \<and> frw_filename r = f) (map (new_file_row k) fs) =
    (if k = i \<and> f \<in> set fs then Some (new_file_row i f) else None)"
  by (induction fs) (auto simp: new_file_row_def)

lemma mirror_submit:
  assumes "mirror st" and "fresh_job j" and "fst (store_submit j st) = Inr ()"
    and "st_db st = Some db" and "job_id j \<notin> jr_job_id ` set (db_jobs db)"
    and "job_id j \<notin> frw_job_id ` set (db_files db)"
  shows "mirror (snd (store_submit j st)) \<and> job_in (snd (store_submit j st)) (job_id j) = Some j"
proof -
  let ?n = "new_job_record j" and ?names = "fsc_filenames (j_filesystem j)"
  have n: "nj_job_id ?n = job_id j" "nj_filenames ?n = ?names"
    "nj_status ?n = job_status_display (job_status j)"
    by (simp_all add: new_job_record_def Let_def)
  have ok: "find_conflicts (st_registry st) j = []"
    using assms(3) by (cases "find_conflicts (st_registry st) j = []")
      (simp_all add: store_submit_def run_reg_def insert_checked_def Let_def)
  have ins: "insert_job ?n db = Some (db\<lparr>db_jobs := db_jobs db @ [new_job_row ?n],
      db_files := db_files db @ map (new_file_row (job_id j)) ?names\<rparr>)"
    using assms(2,5,6) by (auto simp: insert_job_def n fresh_job_def)
  have st: "snd (store_submit j st) = st\<lparr>st_registry := hm_insert (job_id j) j (st_registry st),
      st_db := insert_job ?n db\<rparr>"
    using assms(4) ok ins by (simp add: store_submit_def run_reg_def insert_checked_def with_db_def)
  have none: "find (\<lambda>r. jr_job_id r = job_id j) (db_jobs db) = None"
    "find (\<lambda>r. frw_job_id r = job_id j \<and> frw_filename r = f) (db_files db) = None" for f
    using assms(5,6) by (auto simp: find_None_iff image_iff)
  have reg: "job_in (snd (store_submit j st)) k = (if k = job_id j then Some j else job_in st k)" for k
    by (simp add: st job_in_def hmap_store.get_put)
  have "mirror (snd (store_submit j st))"
    unfolding mirror_def
  proof (intro conjI allI impI)
    fix k s
    assume s: "job_view (snd (store_submit j st)) k = Some s"
    show "db_job_view (snd (store_submit j st)) k = Some (job_status_display s)"
    proof (cases "k = job_id j")
      case True
      with s have "s = job_status j" by (simp add: job_view_def reg)
      with True none show ?thesis
        by (simp add: db_job_view_def st ins job_row_def find_append new_job_row_def n)
    next
      case False
      with s assms(1,4) have "db_job_view st k = Some (job_status_display s)"
        by (simp add: mirror_def job_view_def reg)
      with assms(4) show ?thesis
        by (auto simp: db_job_view_def st ins job_row_def find_append)
    qed
  next
    fix k f s
    assume s: "file_view (snd (store_submit j st)) k f = Some s"
    show "db_file_view (snd (store_submit j st)) k f = Some (file_status_display s)"
    proof (cases "k = job_id j")
      case True
      with s assms(2) have "f \<in> set ?names" "s = FileQueued"
        by (auto simp: file_view_def file_in_def reg fresh_job_def file_status_new_def split: if_splits)
      with True none show ?thesis
        by (simp add: db_file_view_def st ins file_row_def find_append find_new_file_rows)
          (simp add: new_file_row_def)
    next
      case False
      with s assms(1,4) have "db_file_view st k f = Some (file_status_display s)"
        by (simp add: mirror_def file_view_def file_in_def reg)
      with assms(4) show ?thesis
        by (auto simp: db_file_view_def st ins file_row_def find_append)
    qed
  qed
  with reg show ?thesis by simp
qed

end
