(* ===== verification/Crash.thy ===== *)
theory Crash
  imports Durability
begin

text \<open>
  What survives a crash of the server, and what the write-through to the database loses. The
  first part follows one job through the startup sequence of \<open>Recovery\<close>; the second states
  the drifts between memory and database that the code allows.
\<close>

section \<open>Rows as set members\<close>

definition db_wf :: "JobDB \<Rightarrow> bool" where
  "db_wf db \<longleftrightarrow> distinct (map jr_job_id (db_jobs db)) \<and>
     distinct (map (\<lambda>r. (frw_job_id r, frw_filename r)) (db_files db))"

lemma distinct_map_eqI: "distinct (map k xs) \<Longrightarrow> x \<in> set xs \<Longrightarrow> y \<in> set xs \<Longrightarrow> k x = k y \<Longrightarrow> x = y"
  by (simp add: distinct_map inj_on_def)

lemma job_row_iff:
  assumes "db_wf db"
  shows "job_row db i = Some r \<longleftrightarrow> r \<in> set (db_jobs db) \<and> jr_job_id r = i"
proof
  assume "job_row db i = Some r"
  then show "r \<in> set (db_jobs db) \<and> jr_job_id r = i" by (auto simp: job_row_def dest: find_sat)
next
  assume r: "r \<in> set (db_jobs db) \<and> jr_job_id r = i"
  then obtain q where q: "job_row db i = Some q"
    by (cases "job_row db i") (auto simp: job_row_def find_None_iff)
  then have "q \<in> set (db_jobs db) \<and> jr_job_id q = i" by (auto simp: job_row_def dest: find_sat)
  with r assms have "q = r" unfolding db_wf_def by (metis distinct_map_eqI)
  with q show "job_row db i = Some r" by simp
qed

lemma file_row_iff:
  assumes "db_wf db"
  shows "file_row db i f = Some r \<longleftrightarrow>
    r \<in> set (db_files db) \<and> frw_job_id r = i \<and> frw_filename r = f"
proof
  assume "file_row db i f = Some r"
  then show "r \<in> set (db_files db) \<and> frw_job_id r = i \<and> frw_filename r = f"
    by (auto simp: file_row_def dest: find_sat)
next
  assume r: "r \<in> set (db_files db) \<and> frw_job_id r = i \<and> frw_filename r = f"
  then obtain q where q: "file_row db i f = Some q"
    by (cases "file_row db i f") (auto simp: file_row_def find_None_iff)
  then have "q \<in> set (db_files db) \<and> (frw_job_id q, frw_filename q) = (i, f)"
    by (auto simp: file_row_def dest: find_sat)
  with r assms have "q = r" unfolding db_wf_def
    using distinct_map_eqI [of "\<lambda>r. (frw_job_id r, frw_filename r)" "db_files db" q r] by simp
  with q show "file_row db i f = Some r" by simp
qed

section \<open>Marking and pruning\<close>

definition persisted_active :: "JobDB \<Rightarrow> JobId \<Rightarrow> bool" where
  "persisted_active db i \<longleftrightarrow>
     (\<exists>r \<in> set (db_jobs db). jr_job_id r = i \<and> jr_status r \<in> {lit ''queued'', lit ''running''})"

lemma map_sql_update_key:
  "(\<And>r. k (f r) = k r) \<Longrightarrow> map k (sql_update P f rows) = map k rows"
  by (simp add: sql_update_def)

lemma recover_interrupted_wf: "db_wf db \<Longrightarrow> db_wf (snd (recover_interrupted now db))"
  by (simp add: recover_interrupted_def Let_def db_wf_def map_sql_update_key)

lemma recover_interrupted_rows:
  "job_row (snd (recover_interrupted now db)) i =
     map_option (\<lambda>r. if persisted_active db i
       then r\<lparr>jr_status := lit ''interrupted'', jr_completed_at := Some now\<rparr> else r) (job_row db i)"
  "file_row (snd (recover_interrupted now db)) i f =
     map_option (\<lambda>r. if persisted_active db i \<and> frw_status r \<in> {lit ''queued'', lit ''processing''}
       then r\<lparr>frw_status := lit ''interrupted''\<rparr> else r) (file_row db i f)"
proof -
  have ids: "j \<in> jr_job_id ` set (filter (\<lambda>r. jr_status r \<in> {lit ''queued'', lit ''running''}) (db_jobs db))
      \<longleftrightarrow> persisted_active db j" for j
    by (auto simp: persisted_active_def image_iff)
  show "job_row (snd (recover_interrupted now db)) i =
     map_option (\<lambda>r. if persisted_active db i
       then r\<lparr>jr_status := lit ''interrupted'', jr_completed_at := Some now\<rparr> else r) (job_row db i)"
    unfolding recover_interrupted_def Let_def job_row_def list.set_map ids
    by (auto simp: find_sql_update intro!: option.map_cong dest: find_sat)
  show "file_row (snd (recover_interrupted now db)) i f =
     map_option (\<lambda>r. if persisted_active db i \<and> frw_status r \<in> {lit ''queued'', lit ''processing''}
       then r\<lparr>frw_status := lit ''interrupted''\<rparr> else r) (file_row db i f)"
    unfolding recover_interrupted_def Let_def file_row_def list.set_map ids
    by (auto simp: find_sql_update intro!: option.map_cong dest: find_sat)
qed

lemma find_filter_keep: "(\<And>x. P x \<Longrightarrow> Q x) \<Longrightarrow> find P (filter Q xs) = find P xs"
  by (induction xs) auto

lemma delete_job_rows:
  "k \<noteq> i \<Longrightarrow> job_row (delete_job k db) i = job_row db i"
  "k \<noteq> i \<Longrightarrow> file_row (delete_job k db) i f = file_row db i f"
proof -
  assume "k \<noteq> i"
  then show "job_row (delete_job k db) i = job_row db i"
    "file_row (delete_job k db) i f = file_row db i f"
    by (simp_all add: job_row_def file_row_def delete_job_def sql_delete_def)
      (subst find_filter_keep; auto)+
qed

lemma delete_job_wf: "db_wf db \<Longrightarrow> db_wf (delete_job k db)"
  by (simp add: db_wf_def delete_job_def sql_delete_def distinct_map_filter)

lemma fold_delete_rows:
  "i \<notin> set ks \<Longrightarrow> job_row (fold delete_job ks db) i = job_row db i"
  "i \<notin> set ks \<Longrightarrow> file_row (fold delete_job ks db) i f = file_row db i f"
  "db_wf db \<Longrightarrow> db_wf (fold delete_job ks db)"
  by (induction ks arbitrary: db) (auto simp: delete_job_rows delete_job_wf)

lemma prune_keeps:
  assumes "db_wf db" and "job_row db i = Some r"
    and "now - of_int ttl * 86400 \<le> jr_submitted_at r"
  shows "job_row (snd (prune_expired now ttl db)) i = Some r"
    and "file_row (snd (prune_expired now ttl db)) i f = file_row db i f"
    and "db_wf (snd (prune_expired now ttl db))"
proof -
  have "i \<notin> jr_job_id ` set (filter (\<lambda>r. jr_submitted_at r < now - of_int ttl * 86400) (db_jobs db))"
  proof
    assume "i \<in> jr_job_id ` set (filter (\<lambda>r. jr_submitted_at r < now - of_int ttl * 86400) (db_jobs db))"
    then obtain q where q: "q \<in> set (db_jobs db)" "jr_job_id q = i"
      "jr_submitted_at q < now - of_int ttl * 86400" by auto
    with assms(1,2) have "q = r" using job_row_iff [OF assms(1), of i q] by simp
    with q(3) assms(3) show False by simp
  qed
  then show "job_row (snd (prune_expired now ttl db)) i = Some r"
    and "file_row (snd (prune_expired now ttl db)) i f = file_row db i f"
    and "db_wf (snd (prune_expired now ttl db))"
    using assms(1,2) by (simp_all add: prune_expired_def Let_def fold_delete_rows)
qed

section \<open>Loading\<close>

lemma load_all_jobs_props:
  assumes "db_wf db"
  shows "distinct (map (\<lambda>p. jr_job_id (fst p)) (load_all_jobs db))"
    and "job_row db i = Some r \<Longrightarrow> (r, file_rows_of i db) \<in> set (load_all_jobs db)"
    and "distinct (map frw_filename (file_rows_of i db))"
    and "file_row db i f = Some fr \<Longrightarrow> load_file_row fr \<in> set (file_rows_of i db)"
proof -
  have "distinct (map jr_job_id (sort_key jr_submitted_at (rev (db_jobs db))))"
    using assms by (simp add: db_wf_def distinct_map)
  then show "distinct (map (\<lambda>p. jr_job_id (fst p)) (load_all_jobs db))"
    by (simp add: load_all_jobs_def comp_def rev_map [symmetric])
  show "job_row db i = Some r \<Longrightarrow> (r, file_rows_of i db) \<in> set (load_all_jobs db)"
    by (auto simp: load_all_jobs_def job_row_iff [OF assms])
  have "distinct (map (\<lambda>r. (frw_job_id r, frw_filename r)) (filter (\<lambda>r. frw_job_id r = i) (db_files db)))"
    using assms by (simp add: db_wf_def distinct_map_filter)
  then have "distinct (map frw_filename (filter (\<lambda>r. frw_job_id r = i) (db_files db)))"
    by (auto simp: distinct_map inj_on_def)
  then show "distinct (map frw_filename (file_rows_of i db))"
    by (simp add: file_rows_of_def load_file_row_def comp_def)
  show "file_row db i f = Some fr \<Longrightarrow> load_file_row fr \<in> set (file_rows_of i db)"
    by (auto simp: file_rows_of_def file_row_iff [OF assms])
qed

lemma startup_job:
  assumes "db_wf db" and "job_row db i = Some r"
    and "now - of_int (scf_job_ttl_days cfg) * 86400 \<le> jr_submitted_at r"
    and "command_try_from (jr_command r) = Inr cmd"
  shows "\<exists>t. job_in (startup now token cfg db) i = Some
    (let db' = snd (prune_expired now (scf_job_ttl_days cfg) (snd (recover_interrupted now db)));
         r' = the (job_row db' i);
         j = rebuild_job t cmd r' (file_rows_of i db')
     in if needs_reconcile (fst (recover_job_status (jr_status r')))
        then snd (reconcile_recovered_runtime_state j) else j)"
proof -
  let ?db1 = "snd (recover_interrupted now db)"
  let ?db2 = "snd (prune_expired now (scf_job_ttl_days cfg) ?db1)"
  let ?cut = "now - of_int (scf_job_ttl_days cfg) * 86400"
  have wf1: "db_wf ?db1" by (rule recover_interrupted_wf [OF assms(1)])
  obtain r1 where r1: "job_row ?db1 i = Some r1" "jr_submitted_at r1 = jr_submitted_at r"
    "jr_command r1 = jr_command r"
    using assms(2) by (simp add: recover_interrupted_rows)
  note keep = prune_keeps [OF wf1 r1(1), of now "scf_job_ttl_days cfg"]
  have db2: "job_row ?db2 i = Some r1" "db_wf ?db2"
    using keep assms(3) r1(2) by simp_all
  have id: "jr_job_id r1 = i" using db2 by (simp add: job_row_iff)
  have row: "load_row ?cut t (r1, file_rows_of i ?db2) =
      (let j = rebuild_job t cmd r1 (file_rows_of i ?db2)
       in if needs_reconcile (fst (recover_job_status (jr_status r1)))
          then Some (snd (reconcile_recovered_runtime_state j), Some
            \<lparr>rjp_job_id = i, rjp_status = job_status (snd (reconcile_recovered_runtime_state j)),
             rjp_completed_at = sch_completed_at (j_schedule (snd (reconcile_recovered_runtime_state j))),
             rjp_next_eligible_at = sch_next_eligible_at (j_schedule (snd (reconcile_recovered_runtime_state j))),
             rjp_requeued_files = (case fst (reconcile_recovered_runtime_state j) of
                RecRequeued \<Rightarrow> resumable_names j | _ \<Rightarrow> [])\<rparr>)
          else Some (j, None))" for t
    using assms(3,4) r1 id by (simp add: load_row_def Let_def case_prod_beta)
  have some: "load_row ?cut t (r1, file_rows_of i ?db2) \<noteq> None" for t
    by (simp add: row Let_def)
  have "\<exists>t u. load_row ?cut t (r1, file_rows_of i ?db2) =
      Some (the (hm_get (snd (snd (load_rows ?cut token (load_all_jobs ?db2) []))) i), u) \<and>
      hm_get (snd (snd (load_rows ?cut token (load_all_jobs ?db2) []))) i \<noteq> None"
    using load_rows_get [OF load_all_jobs_props(1) [OF db2(2)]
        load_all_jobs_props(2) [OF db2(2,1)] some, of token "[]"] id by simp
  then obtain t u where t: "load_row ?cut t (r1, file_rows_of i ?db2) =
      Some (the (hm_get (snd (snd (load_rows ?cut token (load_all_jobs ?db2) []))) i), u)"
    "hm_get (snd (snd (load_rows ?cut token (load_all_jobs ?db2) []))) i \<noteq> None" by blast
  have reg: "job_in (startup now token cfg db) i =
      hm_get (snd (snd (load_rows ?cut token (load_all_jobs ?db2) []))) i"
    by (simp add: startup_def load_from_db_def store_new_def job_in_def Let_def case_prod_beta)
  show ?thesis
    using t unfolding reg row Let_def db2(1) option.sel
    by (intro exI [of _ t]) (auto split: if_splits)
qed

section \<open>One file through a crash\<close>

text \<open>The status of a file of a job that was active, resp. not, after the restart.\<close>

definition after_crash :: "bool \<Rightarrow> FileStatusKind \<Rightarrow> FileStatusKind" where
  "after_crash active s = (if active \<and> file_is_resumable s then FileQueued else s)"

lemma persisted_active_iff:
  assumes "db_wf db" and "job_row db i = Some r"
  shows "persisted_active db i \<longleftrightarrow> jr_status r \<in> {lit ''queued'', lit ''running''}"
proof
  have r: "r \<in> set (db_jobs db)" "jr_job_id r = i" using assms(2) job_row_iff [OF assms(1)] by simp_all
  show "jr_status r \<in> {lit ''queued'', lit ''running''}" if a: "persisted_active db i"
  proof -
    obtain q where q: "q \<in> set (db_jobs db)" "jr_job_id q = i"
      "jr_status q \<in> {lit ''queued'', lit ''running''}"
      using a unfolding persisted_active_def by blast
    then have "job_row db i = Some q" using job_row_iff [OF assms(1)] by simp
    with assms(2) q(3) show ?thesis by simp
  qed
  show "persisted_active db i" if "jr_status r \<in> {lit ''queued'', lit ''running''}"
    using r that unfolding persisted_active_def by blast
qed

lemma job_display_active:
  "job_status_display s \<in> {lit ''queued'', lit ''running''} \<longleftrightarrow> job_is_active s"
  by (cases s) simp_all

lemma file_display_unfinished:
  "file_status_display s \<in> {lit ''queued'', lit ''processing''} \<longleftrightarrow> s = FileQueued \<or> s = FileProcessing"
  by (cases s) simp_all

lemma recover_status_of_display:
  "fst (recover_file_status (if a \<and> (s = FileQueued \<or> s = FileProcessing)
      then lit ''interrupted'' else file_status_display s)) =
    (if a \<and> (s = FileQueued \<or> s = FileProcessing) then FileInterrupted else s)"
  using file_status_roundtrip [of FileInterrupted] file_status_roundtrip [of s]
  by (cases "a \<and> (s = FileQueued \<or> s = FileProcessing)") auto

text \<open>The status the rebuilt job gives a file, before reconciliation.\<close>

lemma rebuilt_file:
  assumes wf: "db_wf db" and row: "job_row db i = Some r"
    and recent: "now - of_int ttl * 86400 \<le> jr_submitted_at r"
    and fr: "file_row db i f = Some fr" and st: "frw_status fr = file_status_display s"
    and act: "persisted_active db i = a"
  shows "\<exists>fs. hm_get (recover_files (file_rows_of i
      (snd (prune_expired now ttl (snd (recover_interrupted now db)))))) f = Some fs \<and>
    fs_status fs = (if a \<and> (s = FileQueued \<or> s = FileProcessing) then FileInterrupted else s)"
proof -
  let ?db1 = "snd (recover_interrupted now db)" and ?db2 = "snd (prune_expired now ttl (snd (recover_interrupted now db)))"
  obtain r1 where r1: "job_row ?db1 i = Some r1" "jr_submitted_at r1 = jr_submitted_at r"
    using row by (simp add: recover_interrupted_rows)
  note keep = prune_keeps [OF recover_interrupted_wf [OF wf] r1(1), of now ttl]
  have wf2: "db_wf ?db2" using keep(3) recent r1(2) by simp
  let ?q = "if a \<and> frw_status fr \<in> {lit ''queued'', lit ''processing''}
    then fr\<lparr>frw_status := lit ''interrupted''\<rparr> else fr"
  have fr2: "file_row ?db2 i f = Some ?q"
    using keep(2) [of f] recent r1(2) fr act by (simp add: recover_interrupted_rows)
  have q: "load_file_row ?q \<in> set (file_rows_of i ?db2)"
    by (rule load_all_jobs_props(4) [OF wf2 fr2])
  have name: "frw_filename (load_file_row ?q) = f"
    using file_row_iff [OF wf2, of i f ?q] fr2 by (simp add: load_file_row_def)
  have "hm_get (recover_files (file_rows_of i ?db2)) f = Some (recover_file (load_file_row ?q))"
    using recover_files_get [OF load_all_jobs_props(3) [OF wf2] q] name by simp
  moreover have "frw_status (load_file_row ?q) = (if a \<and> (s = FileQueued \<or> s = FileProcessing)
      then lit ''interrupted'' else file_status_display s)"
    using file_display_unfinished [of s] st by (auto simp: load_file_row_def)
  then have "fs_status (recover_file (load_file_row ?q)) =
      (if a \<and> (s = FileQueued \<or> s = FileProcessing) then FileInterrupted else s)"
    using recover_status_of_display [of a s] by (simp add: recover_file_def)
  ultimately show ?thesis by blast
qed

lemma reconcile_file:
  "hm_get (job_files j) f = Some fs \<Longrightarrow>
    \<exists>fs'. hm_get (job_files (snd (reconcile_recovered_runtime_state j))) f = Some fs' \<and>
      fs_status fs' = (if file_resumable fs then FileQueued else fs_status fs)"
proof (cases "list_ex file_resumable (hm_values (job_files j))")
  case True
  assume get: "hm_get (job_files j) f = Some fs"
  have "job_files (snd (reconcile_recovered_runtime_state j)) = hm_map_values fs_recover (job_files j)"
    using True by (simp add: reconcile_recovered_runtime_state_def Let_def clear_lease_def)
  with get show ?thesis by (simp add: hm_get_map_values fs_recover_def)
next
  case False
  assume get: "hm_get (job_files j) f = Some fs"
  then have "\<not> file_resumable fs" using False hm_get_in_values [of "job_files j" f fs]
    by (auto simp: list_ex_iff)
  moreover have "job_files (snd (reconcile_recovered_runtime_state j)) = job_files j"
    using False by (simp add: reconcile_recovered_runtime_state_def Let_def clear_lease_def)
  ultimately show ?thesis using get by simp
qed

lemma reconcile_requeues:
  "hm_get (job_files j) f = Some fs \<Longrightarrow> file_resumable fs \<Longrightarrow>
    job_status (snd (reconcile_recovered_runtime_state j)) = JobQueued"
proof -
  assume get: "hm_get (job_files j) f = Some fs" and res: "file_resumable fs"
  have "fs \<in> set (hm_values (job_files j))" by (rule hm_get_in_values [OF get])
  then have "list_ex file_resumable (hm_values (job_files j))" using res by (auto simp: list_ex_iff)
  then show ?thesis by (simp add: reconcile_recovered_runtime_state_def Let_def clear_lease_def)
qed

text \<open>The crash of a server whose memory and database agree.\<close>

lemma mirror_crash_recovery:
  assumes "mirror st" and "st_db st = Some db" and "db_wf db"
    and "job_in st i = Some j" and "job_status j \<noteq> JobInterrupted"
    and "job_row db i = Some r" and "command_try_from (jr_command r) = Inr cmd"
    and "now - of_int (scf_job_ttl_days cfg) * 86400 \<le> jr_submitted_at r"
  shows "\<exists>j'. job_in (startup now token cfg db) i = Some j' \<and>
    (\<forall>f s. file_view st i f = Some s \<longrightarrow>
      (\<exists>fs. hm_get (job_files j') f = Some fs \<and>
        fs_status fs = after_crash (job_is_active (job_status j)) s \<and>
        (job_is_active (job_status j) \<and> file_is_resumable s \<longrightarrow> job_status j' = JobQueued))) \<and>
    (\<not> job_is_active (job_status j) \<longrightarrow> job_status j' = job_status j)"
proof -
  let ?a = "job_is_active (job_status j)"
  let ?db2 = "snd (prune_expired now (scf_job_ttl_days cfg) (snd (recover_interrupted now db)))"
  have "db_job_view st i = Some (job_status_display (job_status j))"
    using assms(1,4) by (simp add: mirror_def job_view_def)
  then have status: "jr_status r = job_status_display (job_status j)"
    using assms(2,6) by (simp add: db_job_view_def)
  have act: "persisted_active db i = ?a"
    using persisted_active_iff [OF assms(3,6)] status job_display_active by simp
  let ?r1 = "if ?a then r\<lparr>jr_status := lit ''interrupted'', jr_completed_at := Some now\<rparr> else r"
  have row1: "job_row (snd (recover_interrupted now db)) i = Some ?r1"
    using assms(6) act by (simp add: recover_interrupted_rows)
  have row2: "job_row ?db2 i = Some ?r1"
    using prune_keeps(1) [OF recover_interrupted_wf [OF assms(3)] row1] assms(8) by simp
  have raw: "fst (recover_job_status (jr_status ?r1)) = (if ?a then JobInterrupted else job_status j)"
    using status job_status_roundtrip [of JobInterrupted] by simp
  have need: "needs_reconcile (if ?a then JobInterrupted else job_status j) = ?a"
    using assms(5) by (cases "job_status j") (simp_all add: needs_reconcile_def)
  obtain t where t: "job_in (startup now token cfg db) i = Some
      (let j0 = rebuild_job t cmd ?r1 (file_rows_of i ?db2)
       in if ?a then snd (reconcile_recovered_runtime_state j0) else j0)"
    using startup_job [OF assms(3,6,8,7), of token] unfolding row2 Let_def option.sel raw need
    by blast
  let ?j0 = "rebuild_job t cmd ?r1 (file_rows_of i ?db2)"
  let ?j' = "if ?a then snd (reconcile_recovered_runtime_state ?j0) else ?j0"
  have files0: "job_files ?j0 = recover_files (file_rows_of i ?db2)"
    by (simp add: rebuild_job_def case_prod_beta Let_def)
  have status0: "job_status ?j0 = (if ?a then JobInterrupted else job_status j)"
    using raw by (simp add: rebuild_job_def case_prod_beta Let_def)
  have fl: "\<exists>fs. hm_get (job_files ?j') f = Some fs \<and> fs_status fs = after_crash ?a s \<and>
      (?a \<and> file_is_resumable s \<longrightarrow> job_status ?j' = JobQueued)"
    if "file_view st i f = Some s" for f s
  proof -
    have "db_file_view st i f = Some (file_status_display s)"
      using that assms(1) by (simp add: mirror_def)
    then obtain fr where fr: "file_row db i f = Some fr" "frw_status fr = file_status_display s"
      using assms(2) by (auto simp: db_file_view_def)
    obtain fs where fs: "hm_get (job_files ?j0) f = Some fs"
      "fs_status fs = (if ?a \<and> (s = FileQueued \<or> s = FileProcessing) then FileInterrupted else s)"
      using rebuilt_file [OF assms(3,6,8) fr act] unfolding files0 by blast
    have res: "file_resumable fs = file_is_resumable s"
      using fs(2) by (cases s) (simp_all add: file_resumable_def)
    show ?thesis
    proof (cases ?a)
      case True
      obtain fs' where fs': "hm_get (job_files (snd (reconcile_recovered_runtime_state ?j0))) f = Some fs'"
        "fs_status fs' = (if file_resumable fs then FileQueued else fs_status fs)"
        using reconcile_file [OF fs(1)] by blast
      have "fs_status fs' = after_crash ?a s"
        using fs'(2) fs(2) True res by (cases s) (simp_all add: after_crash_def)
      moreover have "file_is_resumable s \<Longrightarrow> job_status ?j' = JobQueued"
        using True res reconcile_requeues [OF fs(1)] by simp
      ultimately show ?thesis using fs'(1) True by simp
    next
      case False
      with fs show ?thesis by (simp add: after_crash_def)
    qed
  qed
  moreover have "\<not> ?a \<longrightarrow> job_status ?j' = job_status j" using status0 by (cases ?a) simp_all
  ultimately show ?thesis using t fl unfolding Let_def by blast
qed

end
