(* ===== verification/Reach.thy ===== *)
theory Reach
  imports Crash
begin

text \<open>
  The stores a server can reach from an empty database by accepting jobs and running them, and
  what holds in all of them: memory and database agree (\<open>Durability\<close>), the keys of the tables
  are unique, and every row has its job in memory, with the same command and submission time.
  The crash theorem of \<open>Crash\<close> then holds in every such store.
\<close>

section \<open>What no update changes\<close>

text \<open>Of a job, its command and submission time; of the database, its keys and the same columns.\<close>

definition job_meta :: "Job \<Rightarrow> rstr \<times> rat" where
  "job_meta j = (command_as_str (dc_command (j_dispatch j)), sch_submitted_at (j_schedule j))"

text \<open>Whether a runner has claimed the job; no operation claims one.\<close>

definition claimed :: "JobStore \<Rightarrow> JobId \<Rightarrow> bool" where
  "claimed st i = (case job_in st i of None \<Rightarrow> False | Some j \<Rightarrow> rt_runner_active (j_runtime j))"

definition job_keeps :: "Job \<Rightarrow> Job \<Rightarrow> bool" where
  "job_keeps j j' \<longleftrightarrow> job_meta j' = job_meta j \<and>
     (rt_runner_active (j_runtime j') \<longrightarrow> rt_runner_active (j_runtime j))"

definition meta_in :: "JobStore \<Rightarrow> JobId \<Rightarrow> (rstr \<times> rat) option" where
  "meta_in st i = map_option job_meta (job_in st i)"

definition db_shape :: "JobDB \<Rightarrow> (rstr \<times> rstr \<times> rat) list \<times> (rstr \<times> rstr) list" where
  "db_shape db =
     (map (\<lambda>r. (jr_job_id r, jr_command r, jr_submitted_at r)) (db_jobs db),
      map (\<lambda>r. (frw_job_id r, frw_filename r)) (db_files db))"

definition same_shape :: "JobStore \<Rightarrow> JobStore \<Rightarrow> bool" where
  "same_shape st st' \<longleftrightarrow> meta_in st' = meta_in st \<and>
     map_option db_shape (st_db st') = map_option db_shape (st_db st) \<and>
     (\<forall>i. claimed st' i \<longrightarrow> claimed st i)"

lemma same_shape_refl [simp]: "same_shape st st"
  by (simp add: same_shape_def)

lemma same_shape_trans: "same_shape a b \<Longrightarrow> same_shape b c \<Longrightarrow> same_shape a c"
  by (auto simp: same_shape_def)

lemma same_shape_registry:
  assumes "\<And>j. job_keeps j (h j)"
  shows "same_shape st (st\<lparr>st_registry := hm_modify i h (st_registry st)\<rparr>)"
  using assms
  by (auto simp: same_shape_def meta_in_def claimed_def job_keeps_def registry_update_views
      option.map_comp comp_def split: option.splits)

lemma same_shape_with_db:
  assumes "\<And>db. db_shape (g db) = db_shape db"
  shows "same_shape st (with_db g st)"
  using assms
  by (auto simp: same_shape_def meta_in_def claimed_def with_db_views)
    (simp add: with_db_def option.map_comp comp_def)

lemma same_shape_quiet:
  "same_shape st (broadcast_ws_event ev st)"
  "same_shape st (notify_job_item it st)"
  "same_shape st (notify_file_update u st)"
  "same_shape st (bump_counter h st)"
  by (simp_all add: same_shape_def meta_in_def claimed_def broadcast_ws_event_def notify_job_item_def
      notify_file_update_def bump_counter_def job_in_def fun_eq_iff)

lemma db_shape_updates:
  "db_shape (update_job_status i a b c d e db) = db_shape db"
  "db_shape (update_job_lease i l m n db) = db_shape db"
  "db_shape (update_file_status i f s er ec bu ct sa fa ne db) = db_shape db"
  "db_shape (snd (insert_attempt_start i u kind t db)) = db_shape db"
  "db_shape (finish_attempt att out cat disp fin db) = db_shape db"
  by (simp_all add: db_shape_def update_job_status_def update_job_lease_def update_file_status_def
      insert_attempt_start_def finish_attempt_def sql_update_def Let_def comp_def)

lemma job_keeps_with_file:
  "job_keeps j (snd (with_file f u g j))"
  by (simp add: with_file_def job_keeps_def job_meta_def split: option.split)

lemma same_shape_run_reg:
  "(\<And>j. job_keeps j (snd (h j))) \<Longrightarrow> same_shape st (snd (run_reg (update_job i h) st))"
  "(\<And>j. job_keeps j (snd (t j))) \<Longrightarrow> same_shape st (snd (run_reg (update_file i f t) st))"
  by (simp_all add: run_reg_update_job run_reg_update_file same_shape_registry)

lemma same_shape_file_op:
  assumes "\<And>j. job_keeps j (snd (t j))" and "\<And>st. same_shape st (after st)"
  shows "same_shape st (file_op (update_file i f t) after st)"
proof -
  have "same_shape st (snd (run_reg (update_file i f t) st))"
    by (rule same_shape_run_reg(2) [OF assms(1)])
  then show ?thesis
    using same_shape_trans [OF same_shape_trans [OF _ same_shape_quiet(3)] assms(2)]
    by (auto simp: file_op_def case_prod_beta split: option.split)
qed

lemma same_shape_job_op:
  assumes "\<And>j. job_keeps j (h j)" and "\<And>st. same_shape st (after st)"
  shows "same_shape st (job_op (update_job i (with_list_item tsi h)) after st)"
proof -
  have "same_shape st (snd (run_reg (update_job i (with_list_item tsi h)) st))"
    by (rule same_shape_run_reg(1)) (simp add: with_list_item_def Let_def assms(1))
  then show ?thesis
    using same_shape_trans [OF same_shape_trans [OF _ same_shape_quiet(2)] assms(2)]
    by (auto simp: job_op_def case_prod_beta split: option.split)
qed

lemma same_shape_db_updates:
  "same_shape st (db_update_job i u st)"
  "same_shape st (db_update_file i v st)"
  "same_shape st (with_db (update_job_lease i a b c) st)"
  by (simp_all add: db_update_job_def db_update_file_def same_shape_with_db db_shape_updates)

lemma same_shape_attempts:
  "same_shape st (db_start_attempt i a st)"
  "same_shape st (db_finish_attempt_for_file i b st)"
proof -
  have reg: "same_shape st (snd (run_reg (reg_attach_attempt_id i f x) st))"
    "same_shape st (snd (run_reg (reg_take_attempt_id i f) st))" for st f x
    by (simp_all add: run_reg_def case_prod_beta reg_attach_attempt_id_def reg_take_attempt_id_def
        update_job_snd same_shape_registry job_keeps_with_file)
  have "same_shape st (st\<lparr>st_db := Some (snd (insert_attempt_start i u k t db))\<rparr>)"
    if "st_db st = Some db" for u k t db
    using that by (simp add: same_shape_def meta_in_def claimed_def job_in_def fun_eq_iff db_shape_updates)
  then show "same_shape st (db_start_attempt i a st)"
    by (cases "st_db st")
      (auto simp: db_start_attempt_def case_prod_beta Let_def same_shape_trans [OF _ reg(1)]
        split: option.split)
  show "same_shape st (db_finish_attempt_for_file i b st)"
    by (cases "fst (run_reg (reg_take_attempt_id i (af_filename b)) st)")
      (simp_all add: db_finish_attempt_for_file_def case_prod_beta reg
        same_shape_trans [OF reg(2) same_shape_with_db] db_shape_updates)
qed

lemma same_shape_files:
  "same_shape st (store_mark_file_processing i f t st)"
  "same_shape st (store_mark_file_done i f t r st)"
  "same_shape st (store_mark_file_error i f e st)"
  "same_shape st (store_start_file_attempt i f k t st)"
  "same_shape st (store_mark_file_retry_pending i f rr st)"
  "same_shape st (store_clear_file_retry_state i f st)"
  "same_shape st (store_set_file_progress i f p st)"
proof -
  note ops = same_shape_trans [OF same_shape_db_updates(2) same_shape_attempts(2)]
    same_shape_trans [OF same_shape_trans [OF same_shape_db_updates(2) same_shape_attempts(1)]
      same_shape_quiet(4)]
  show "same_shape st (store_mark_file_processing i f t st)"
    "same_shape st (store_mark_file_done i f t r st)"
    "same_shape st (store_mark_file_error i f e st)"
    "same_shape st (store_start_file_attempt i f k t st)"
    "same_shape st (store_set_file_progress i f p st)"
    unfolding store_mark_file_processing_def store_mark_file_done_def store_mark_file_error_def
      store_start_file_attempt_def store_set_file_progress_def reg_mark_file_processing_def
      reg_mark_file_done_def reg_mark_file_error_def reg_start_file_attempt_def
      reg_set_file_progress_def mark_file_processing_def mark_file_done_def mark_file_error_def
      start_file_attempt_def set_file_progress_def
    by (intro same_shape_file_op job_keeps_with_file same_shape_db_updates ops same_shape_refl)+
  show "same_shape st (store_mark_file_retry_pending i f rr st)"
    unfolding store_mark_file_retry_pending_def reg_mark_file_retry_pending_def
      mark_file_retry_pending_def
    by (intro same_shape_file_op job_keeps_with_file
        same_shape_trans [OF same_shape_trans [OF ops(1) same_shape_quiet(4)] same_shape_quiet(4)])
  show "same_shape st (store_clear_file_retry_state i f st)"
    unfolding store_clear_file_retry_state_def reg_clear_file_retry_state_def
      clear_file_retry_state_def
    by (simp add: run_reg_def case_prod_beta update_job_snd same_shape_registry job_keeps_with_file)
qed

lemma same_shape_jobs:
  "same_shape st (store_requeue_job_after_memory_gate i t st)"
  "same_shape st (store_mark_job_running i st)"
  "same_shape st (store_record_job_worker_count i n st)"
  "same_shape st (store_fail_job i e t st)"
  "same_shape st (store_finalize_job i s t st)"
  "same_shape st (snd (store_cancel i t st))"
  "same_shape st (store_release_runner_claim i st)"
proof -
  show "same_shape st (store_requeue_job_after_memory_gate i t st)"
    "same_shape st (store_mark_job_running i st)"
    "same_shape st (store_fail_job i e t st)"
    "same_shape st (store_finalize_job i s t st)"
    unfolding store_requeue_job_after_memory_gate_def store_mark_job_running_def
      store_fail_job_def store_finalize_job_def reg_requeue_after_memory_gate_def
      reg_mark_job_running_def reg_fail_job_def reg_finalize_job_def
    by (rule same_shape_job_op;
        simp add: same_shape_db_updates job_keeps_def job_meta_def requeue_after_memory_gate_def
          mark_running_def job_fail_def finalize_def)+
  have "same_shape st (snd (run_reg (reg_record_job_worker_count i n) st))"
    by (simp add: run_reg_def reg_record_job_worker_count_def case_prod_beta update_job_snd
        same_shape_registry job_keeps_def job_meta_def record_worker_count_def)
  then show "same_shape st (store_record_job_worker_count i n st)"
    by (auto simp: store_record_job_worker_count_def case_prod_beta
        intro: same_shape_trans [OF _ same_shape_db_updates(1)])
  have "same_shape st (snd (run_reg (reg_request_cancellation i t) st))"
    unfolding reg_request_cancellation_def
    by (rule same_shape_run_reg(1)) (simp add: job_keeps_def job_meta_def request_cancellation_def Let_def cancel_token_def)
  then show "same_shape st (snd (store_cancel i t st))"
    by (auto simp: store_cancel_def case_prod_beta Let_def split: option.split
        intro: same_shape_trans [OF _ same_shape_db_updates(1)])
  have "same_shape st (snd (run_reg (reg_release_runner_claim i) st))"
    by (simp add: run_reg_def reg_release_runner_claim_def case_prod_beta update_job_snd
        same_shape_registry job_keeps_def job_meta_def release_local_dispatch_claim_def clear_lease_def)
  then show "same_shape st (store_release_runner_claim i st)"
    by (auto simp: store_release_runner_claim_def case_prod_beta
        intro: same_shape_trans [OF _ same_shape_db_updates(3)])
qed

lemma same_shape_step: "same_shape st (store_apply op st)"
  by (cases op) (simp_all add: same_shape_files same_shape_jobs)

section \<open>Reachable stores\<close>

text \<open>
  A server starts on an empty database; it accepts a fresh job under an id not in use, or one of
  its operations runs where \<open>in_step\<close> allows it.
\<close>

inductive store_reach :: "StoreConfig \<Rightarrow> JobStore \<Rightarrow> bool" for cfg where
  reach_new: "store_reach cfg (store_new cfg (Some db_empty))"
| reach_submit: "store_reach cfg st \<Longrightarrow> fresh_job j \<Longrightarrow> job_in st (job_id j) = None \<Longrightarrow>
    fst (store_submit j st) = Inr () \<Longrightarrow> store_reach cfg (snd (store_submit j st))"
| reach_step: "store_reach cfg st \<Longrightarrow> in_step st op \<Longrightarrow> store_reach cfg (store_apply op st)"

definition row_meta :: "JobDB \<Rightarrow> JobId \<Rightarrow> (rstr \<times> rat) option" where
  "row_meta db i = map_of (map (\<lambda>r. (jr_job_id r, jr_command r, jr_submitted_at r)) (db_jobs db)) i"

definition durable :: "JobStore \<Rightarrow> bool" where
  "durable st \<longleftrightarrow> mirror st \<and>
     (\<exists>db. st_db st = Some db \<and> db_wf db \<and> (\<forall>i. row_meta db i = meta_in st i) \<and>
        frw_job_id ` set (db_files db) \<subseteq> jr_job_id ` set (db_jobs db))"

lemma db_shape_determines:
  assumes "db_shape db = db_shape db'"
  shows "db_wf db = db_wf db'" and "row_meta db = row_meta db'"
    and "frw_job_id ` set (db_files db) = frw_job_id ` set (db_files db')"
    and "jr_job_id ` set (db_jobs db) = jr_job_id ` set (db_jobs db')"
proof -
  have jobs: "map (\<lambda>r. (jr_job_id r, jr_command r, jr_submitted_at r)) (db_jobs db) =
      map (\<lambda>r. (jr_job_id r, jr_command r, jr_submitted_at r)) (db_jobs db')"
    and files: "map (\<lambda>r. (frw_job_id r, frw_filename r)) (db_files db) =
      map (\<lambda>r. (frw_job_id r, frw_filename r)) (db_files db')"
    using assms by (simp_all add: db_shape_def)
  have ids: "map jr_job_id (db_jobs db) = map jr_job_id (db_jobs db')"
    using arg_cong [OF jobs, of "map fst"] by (simp add: comp_def)
  have owners: "map frw_job_id (db_files db) = map frw_job_id (db_files db')"
    using arg_cong [OF files, of "map fst"] by (simp add: comp_def)
  show "db_wf db = db_wf db'" by (simp add: db_wf_def ids files)
  show "row_meta db = row_meta db'" by (simp add: fun_eq_iff row_meta_def jobs)
  show "frw_job_id ` set (db_files db) = frw_job_id ` set (db_files db')"
    using arg_cong [OF owners, of set] by simp
  show "jr_job_id ` set (db_jobs db) = jr_job_id ` set (db_jobs db')"
    using arg_cong [OF ids, of set] by simp
qed

lemma durable_step: "durable st \<Longrightarrow> in_step st op \<Longrightarrow> durable (store_apply op st)"
proof -
  assume st: "durable st" and op: "in_step st op"
  then obtain db where db: "st_db st = Some db" "db_wf db" "\<And>i. row_meta db i = meta_in st i"
    "frw_job_id ` set (db_files db) \<subseteq> jr_job_id ` set (db_jobs db)" "mirror st"
    by (auto simp: durable_def)
  have same: "same_shape st (store_apply op st)" by (rule same_shape_step)
  with db(1) obtain db' where db': "st_db (store_apply op st) = Some db'" "db_shape db' = db_shape db"
    by (cases "st_db (store_apply op st)") (auto simp: same_shape_def)
  have meta: "meta_in (store_apply op st) = meta_in st" using same by (simp add: same_shape_def)
  show "durable (store_apply op st)"
    unfolding durable_def
    using mirror_step [OF db(5) op] db' db(2-4) db_shape_determines [OF db'(2)] meta by auto
qed

lemma row_meta_None: "row_meta db i = None \<longleftrightarrow> i \<notin> jr_job_id ` set (db_jobs db)"
  by (auto simp: row_meta_def map_of_eq_None_iff image_iff)

lemma durable_submit:
  assumes "durable st" and "fresh_job j" and "job_in st (job_id j) = None"
    and "fst (store_submit j st) = Inr ()"
  shows "durable (snd (store_submit j st))"
proof -
  obtain db where db: "st_db st = Some db" "db_wf db" "\<And>i. row_meta db i = meta_in st i"
    "frw_job_id ` set (db_files db) \<subseteq> jr_job_id ` set (db_jobs db)" "mirror st"
    using assms(1) by (auto simp: durable_def)
  have new: "job_id j \<notin> jr_job_id ` set (db_jobs db)"
    using db(3) [of "job_id j"] assms(3) by (simp add: row_meta_None [symmetric] meta_in_def)
  then have newf: "job_id j \<notin> frw_job_id ` set (db_files db)" using db(4) by blast
  let ?n = "new_job_record j" and ?names = "fsc_filenames (j_filesystem j)"
  have n: "nj_job_id ?n = job_id j" "nj_filenames ?n = ?names"
    "nj_command ?n = command_as_str (dc_command (j_dispatch j))"
    "nj_submitted_at ?n = sch_submitted_at (j_schedule j)"
    by (simp_all add: new_job_record_def Let_def)
  let ?db = "db\<lparr>db_jobs := db_jobs db @ [new_job_row ?n],
      db_files := db_files db @ map (new_file_row (job_id j)) ?names\<rparr>"
  have ok: "find_conflicts (st_registry st) j = []"
    using assms(4) by (cases "find_conflicts (st_registry st) j = []")
      (simp_all add: store_submit_def run_reg_def insert_checked_def Let_def)
  have "insert_job ?n db = Some ?db"
    using assms(2) new newf by (auto simp: insert_job_def n fresh_job_def)
  then have st: "snd (store_submit j st) = st\<lparr>st_registry := hm_insert (job_id j) j (st_registry st),
      st_db := Some ?db\<rparr>"
    using db(1) ok by (simp add: store_submit_def run_reg_def insert_checked_def with_db_def)
  have wf: "db_wf ?db"
  proof -
    have "distinct (map (\<lambda>f. (job_id j, f)) ?names)"
      using assms(2) by (simp add: fresh_job_def distinct_map inj_on_def)
    moreover have "(frw_job_id r, frw_filename r) \<noteq> (job_id j, f)" if "r \<in> set (db_files db)" for r f
      using imageI [OF that, of frw_job_id] newf by auto
    ultimately show ?thesis
      using db(2) new by (auto simp: db_wf_def new_job_row_def new_file_row_def n comp_def)
  qed
  have "row_meta ?db i = meta_in (snd (store_submit j st)) i" for i
  proof (cases "i = job_id j")
    case True
    with new have "row_meta db i = None" by (simp add: row_meta_None)
    with True show ?thesis
      by (simp add: st meta_in_def job_in_def hmap_store.get_put row_meta_def map_add_def
          new_job_row_def n job_meta_def)
  next
    case False
    with db(3) [of i] show ?thesis
      by (simp add: st meta_in_def job_in_def hmap_store.get_put row_meta_def map_add_def
          new_job_row_def n split: option.split)
  qed
  moreover have "frw_job_id ` set (db_files ?db) \<subseteq> jr_job_id ` set (db_jobs ?db)"
    using db(4) by (auto simp: new_file_row_def new_job_row_def n)
  ultimately show ?thesis
    unfolding durable_def
    using mirror_submit [OF db(5) assms(2,4) db(1) new newf] wf st by auto
qed

lemma durable_reach: "store_reach cfg st \<Longrightarrow> durable st"
proof (induction rule: store_reach.induct)
  case reach_new
  show ?case
    by (simp add: durable_def mirror_def store_new_def db_empty_def db_wf_def row_meta_def
        meta_in_def job_in_def job_view_def file_view_def file_in_def hm_get_def)
qed (simp_all add: durable_submit durable_step)

lemma row_of_job:
  assumes "\<And>i. row_meta db i = meta_in st i" and "job_in st i = Some j"
  shows "\<exists>r. job_row db i = Some r \<and> (jr_command r, jr_submitted_at r) = job_meta j"
proof -
  have "map_of (map (\<lambda>r. (jr_job_id r, jr_command r, jr_submitted_at r)) rows) i =
      map_option (\<lambda>r. (jr_command r, jr_submitted_at r)) (find (\<lambda>r. jr_job_id r = i) rows)" for rows
    by (induction rows) auto
  then have "row_meta db i = map_option (\<lambda>r. (jr_command r, jr_submitted_at r)) (job_row db i)"
    by (simp add: row_meta_def job_row_def)
  then have "map_option (\<lambda>r. (jr_command r, jr_submitted_at r)) (job_row db i) = Some (job_meta j)"
    using assms(1) [of i] assms(2) by (simp add: meta_in_def)
  then show ?thesis by (cases "job_row db i") auto
qed
text \<open>A store with a job whose first file is done.\<close>

definition demo_config :: StoreConfig where
  "demo_config = \<lparr>scf_ts_iso = (\<lambda>_. []), scf_debug_names = concat, scf_node_id = lit ''node'',
     scf_local_lease_ttl_s = 60, scf_job_ttl_days = 7, scf_max_concurrent = 4\<rparr>"

lemma hm_get_Cons: "hm_get ((k, v) # m) x = (if x = k then Some v else hm_get m x)"
  by (simp add: hm_get_def)

lemma store_done_present:
  assumes "file_in st i f = Some fs"
  shows "\<exists>p. store_mark_file_done i f t r st =
    db_update_file i ((file_update f FileDone)
       \<lparr>pfu_content_type := map_option (\<lambda>r. content_type_display (co_content_type r)) r,
        pfu_finished_at := Some t\<rparr>)
      (notify_file_update p (st\<lparr>st_registry :=
        hm_modify i (\<lambda>j. snd (mark_file_done j f t r)) (st_registry st)\<rparr>))"
  unfolding store_mark_file_done_def reg_mark_file_done_def mark_file_done_def
  by (rule file_op_present [OF assms]) (simp split: option.split)

definition demo_submitted :: JobStore where
  "demo_submitted = snd (store_submit (demo_job [1] [[97], [98]]) (store_new demo_config (Some db_empty)))"

definition demo_store :: JobStore where
  "demo_store = store_apply (OpDone [1] [97] 110 None) demo_submitted"

lemma demo_submit:
  "fst (store_submit (demo_job [1] [[97], [98]]) (store_new demo_config (Some db_empty))) = Inr ()"
  "job_in demo_submitted [1] = Some (demo_job [1] [[97], [98]])"
proof -
  have "find_conflicts (st_registry (store_new demo_config (Some db_empty))) j = []" for j
    by (simp add: find_conflicts_def store_new_def hm_values_def)
  then show "fst (store_submit (demo_job [1] [[97], [98]]) (store_new demo_config (Some db_empty))) = Inr ()"
    "job_in demo_submitted [1] = Some (demo_job [1] [[97], [98]])"
    by (simp_all add: demo_submitted_def store_submit_def run_reg_def insert_checked_def job_in_def
        with_db_def hmap_store.get_put) (simp_all add: demo_job_def hmap_store.get_put)
qed

lemma demo_submitted_reach: "store_reach demo_config demo_submitted"
  unfolding demo_submitted_def
proof (intro reach_submit reach_new)
  show "fresh_job (demo_job [1] [[97], [98]])"
    by (auto simp: fresh_job_def demo_job_def hm_get_def)
  show "job_in (store_new demo_config (Some db_empty)) (job_id (demo_job [1] [[97], [98]])) = None"
    by (simp add: job_in_def store_new_def hm_get_def)
qed (rule demo_submit)

lemma demo_store_reach: "store_reach demo_config demo_store"
  unfolding demo_store_def by (rule reach_step [OF demo_submitted_reach]) simp

lemma demo_store_job:
  "\<exists>j. job_in demo_store [1] = Some j \<and> job_status j = JobQueued \<and>
    sch_submitted_at (j_schedule j) = 100"
  "file_view demo_store [1] [97] = Some FileDone"
proof -
  have fl: "file_in demo_submitted [1] [97] = Some (file_status_new [97])"
    unfolding file_in_def demo_submit(2) by (simp add: demo_job_def hm_get_def)
  obtain p where p: "store_mark_file_done [1] [97] 110 None demo_submitted =
    db_update_file [1] ((file_update [97] FileDone)\<lparr>pfu_content_type := None,
        pfu_finished_at := Some 110\<rparr>)
      (notify_file_update p (demo_submitted\<lparr>st_registry :=
        hm_modify [1] (\<lambda>j. snd (mark_file_done j [97] 110 None)) (st_registry demo_submitted)\<rparr>))"
    using store_done_present [OF fl, of 110 None] by auto
  show "\<exists>j. job_in demo_store [1] = Some j \<and> job_status j = JobQueued \<and>
    sch_submitted_at (j_schedule j) = 100"
    "file_view demo_store [1] [97] = Some FileDone"
    unfolding demo_store_def store_apply.simps p
    by (simp_all add: store_views registry_update_views demo_submit(2) file_view_def file_in_def
        mark_file_done_def with_file_def fs_done_def demo_job_def hmap_store.get_modify
        hm_get_Cons del: One_nat_def)
qed

section \<open>Properties\<close>





end
