(* ===== verification/Drift.thy ===== *)
theory Drift
  imports Reach
begin

text \<open>
  Where memory and database part, or a state is lost: operations the code performs outside the
  guards of \<open>Durability\<close>, and columns it never clears.
\<close>

section \<open>The row of a file\<close>

definition file_row_in :: "JobStore \<Rightarrow> JobId \<Rightarrow> rstr \<Rightarrow> FileStatusRow option" where
  "file_row_in st i f = (case st_db st of None \<Rightarrow> None | Some db \<Rightarrow> file_row db i f)"

lemma file_row_in_simps:
  "file_row_in (notify_file_update p st) i f = file_row_in st i f"
  "file_row_in (bump_counter h st) i f = file_row_in st i f"
  "file_row_in (st\<lparr>st_registry := jobs\<rparr>) i f = file_row_in st i f"
  "file_row_in (db_finish_attempt_for_file k a st) i f = file_row_in st i f"
  "file_row_in (db_update_file i u st) i (pfu_filename u) =
    map_option (\<lambda>r. r
       \<lparr>frw_status := file_status_display (pfu_status u), frw_error := coalesce (pfu_error u) (frw_error r),
        frw_error_category := coalesce (pfu_error_category u) (frw_error_category r),
        frw_bug_report_id := coalesce (pfu_bug_report_id u) (frw_bug_report_id r),
        frw_content_type := coalesce_nn (pfu_content_type u) (frw_content_type r),
        frw_started_at := coalesce (pfu_started_at u) (frw_started_at r),
        frw_finished_at := coalesce (pfu_finished_at u) (frw_finished_at r),
        frw_next_eligible_at := pfu_next_eligible_at u\<rparr>) (file_row_in st i (pfu_filename u))"
  by (auto simp: file_row_in_def notify_file_update_def broadcast_ws_event_def bump_counter_def
      db_finish_attempt_for_file_def case_prod_beta attempt_id_views with_db_def rows_attempts
      db_update_file_def row_update_file_status split: option.split)

lemma file_in_simps:
  "file_in (notify_file_update p st) i f = file_in st i f"
  "file_in (bump_counter h st) i f = file_in st i f"
  by (simp_all add: notify_views quiet_views)

section \<open>Properties\<close>

text \<open>
  The error of a retried attempt stays in the row of a file that then succeeds. In memory the
  finished file has no error; its row says \<open>done\<close> and keeps the message, so that after a
  restart of the server the done file carries it again, and so does its result.
\<close>

theorem retry_error_survives_success:
  assumes "file_in st i f = Some fs" and "file_row_in st i f = Some r"
  shows "\<exists>fs' r'.
    (let st' = store_mark_file_done i f t res (store_mark_file_retry_pending i f retry st)
     in file_in st' i f = Some fs' \<and> file_row_in st' i f = Some r' \<and>
        fs_status fs' = FileDone \<and> fs_error fs' = None \<and>
        frw_status r' = lit ''done'' \<and> fs_status (recover_file r') = FileDone \<and>
        fs_error (recover_file r') = Some (fr_message retry) \<and>
        re_error (recover_result r') = Some (fr_message retry))"
proof -
  let ?st1 = "store_mark_file_retry_pending i f retry st"
  let ?after = "\<lambda>st. bump_counter (oc_deferred_work_units_update (\<lambda>n. n + 1))
          (bump_counter (oc_attempts_retried_update (\<lambda>n. n + 1))
             (db_finish_attempt_for_file i
                \<lparr>af_filename = f, af_outcome = AoRetryableFailure,
                 af_failure_category = Some (fr_category retry), af_disposition = RdRetry,
                 af_finished_at = fr_finished_at retry\<rparr>
                (db_update_file i ((file_update f FileProcessing)
                   \<lparr>pfu_error := Some (fr_message retry),
                    pfu_error_category := Some (failure_category_display (fr_category retry)),
                    pfu_finished_at := Some (fr_finished_at retry),
                    pfu_next_eligible_at := Some (fr_retry_at retry)\<rparr>) st)))"
  obtain p where p: "?st1 = ?after (notify_file_update p (st\<lparr>st_registry :=
      hm_modify i (\<lambda>j. snd (mark_file_retry_pending j f retry)) (st_registry st)\<rparr>))"
    using file_op_present [OF assms(1), of "\<lambda>e. e" "fs_retry_pending retry" ?after]
    unfolding store_mark_file_retry_pending_def reg_mark_file_retry_pending_def
      mark_file_retry_pending_def by blast
  have view1: "file_view ?st1 i f = Some FileProcessing"
    unfolding p using with_file_registry_views(2) [OF assms(1), of "\<lambda>e. e" "fs_retry_pending retry"]
    by (simp add: store_views file_view_def [of "_\<lparr>st_registry := _\<rparr>"] mark_file_retry_pending_def
        fs_retry_pending_def)
  then obtain fs1 where fs1: "file_in ?st1 i f = Some fs1" by (auto simp: file_view_def)
  obtain r1 where r1: "file_row_in ?st1 i f = Some r1" "frw_error r1 = Some (fr_message retry)"
    "frw_error_category r1 = Some (failure_category_display (fr_category retry))"
    unfolding p using assms(2)
      file_row_in_simps(5) [of i "(file_update f FileProcessing)
                   \<lparr>pfu_error := Some (fr_message retry),
                    pfu_error_category := Some (failure_category_display (fr_category retry)),
                    pfu_finished_at := Some (fr_finished_at retry),
                    pfu_next_eligible_at := Some (fr_retry_at retry)\<rparr>"]
    by (simp add: file_row_in_simps(1-4) coalesce_def)
  obtain q where q: "store_mark_file_done i f t res ?st1 =
    db_update_file i ((file_update f FileDone)
       \<lparr>pfu_content_type := map_option (\<lambda>r. content_type_display (co_content_type r)) res,
        pfu_finished_at := Some t\<rparr>)
      (notify_file_update q (?st1\<lparr>st_registry :=
        hm_modify i (\<lambda>j. snd (mark_file_done j f t res)) (st_registry ?st1)\<rparr>))"
    using store_done_present [OF fs1] by blast
  let ?st2 = "store_mark_file_done i f t res ?st1"
  have m2: "file_in ?st2 i f = Some (fs_done t fs1)"
    unfolding q mark_file_done_def
    using with_file_registry_views(2) [OF fs1, of _ "fs_done t"]
    by (simp add: db_update_file_views file_in_simps split: option.split)
  have r2: "\<exists>r2. file_row_in ?st2 i f = Some r2 \<and> frw_status r2 = lit ''done'' \<and>
      frw_error r2 = Some (fr_message retry) \<and>
      frw_error_category r2 = Some (failure_category_display (fr_category retry))"
    unfolding q using r1
      file_row_in_simps(5) [of i "(file_update f FileDone)
       \<lparr>pfu_content_type := map_option (\<lambda>r. content_type_display (co_content_type r)) res,
        pfu_finished_at := Some t\<rparr>"]
    by (simp add: file_row_in_simps(1-4) coalesce_def file_update_def)
  then obtain r2 where r2: "file_row_in ?st2 i f = Some r2" "frw_status r2 = lit ''done''"
    "frw_error r2 = Some (fr_message retry)"
    "frw_error_category r2 = Some (failure_category_display (fr_category retry))" by blast
  have "recover_file_error r2 = Some (fr_message retry)"
    using r2 file_status_roundtrip [of FileDone] failure_category_roundtrip [of "Some (fr_category retry)"]
    by (simp add: recover_file_error_def note_opt_def)
  with r2 m2 show ?thesis
    using file_status_roundtrip [of FileDone]
    by (auto simp: Let_def fs_done_def recover_file_def recover_result_def)
qed

lemma demo_submitted_file:
  "file_in demo_submitted [1] [97] = Some (file_status_new [97])"
  "file_row_in demo_submitted [1] [97] \<noteq> None"
proof -
  show "file_in demo_submitted [1] [97] = Some (file_status_new [97])"
    unfolding file_in_def demo_submit(2) by (simp add: demo_job_def hm_get_Cons)
  then have "db_file_view demo_submitted [1] [97] = Some (lit ''queued'')"
    using durable_reach [OF demo_submitted_reach]
    by (simp add: durable_def mirror_def file_view_def file_status_new_def)
  then show "file_row_in demo_submitted [1] [97] \<noteq> None"
    by (auto simp: db_file_view_def file_row_in_def split: option.splits)
qed

lemma retry_error_survives_success_witness:
  "\<exists>fs' r'.
    (let st' = store_mark_file_done [1] [97] 120 None (store_mark_file_retry_pending [1] [97]
        \<lparr>fr_message = [109], fr_category = FcWorkerCrash, fr_finished_at = 112, fr_retry_at = 115\<rparr>
        demo_submitted)
     in file_in st' [1] [97] = Some fs' \<and> file_row_in st' [1] [97] = Some r' \<and>
        fs_error fs' = None \<and> fs_error (recover_file r') = Some [109])"
proof -
  obtain r where "file_row_in demo_submitted [1] [97] = Some r" using demo_submitted_file(2) by auto
  from retry_error_survives_success [OF demo_submitted_file(1) this, of 120 None
      "\<lparr>fr_message = [109], fr_category = FcWorkerCrash, fr_finished_at = 112, fr_retry_at = 115\<rparr>"]
  show ?thesis by (auto simp: Let_def)
qed

text \<open>
  A cancellation can be undone. A job is cancelled while its runner waits for memory; the
  runner then marks it running (or requeues it) without looking at its status. Memory and database
  say so, though the cancellation was acknowledged, and only the cancelled token remains of it.
\<close>

theorem cancelled_job_resurrected:
  assumes "store_reach cfg st" and "job_in st i = Some j" and "job_is_active (job_status j)"
  shows "job_view (snd (store_cancel i t st)) i = Some JobCancelled \<and>
    (let st' = store_mark_job_running i (snd (store_cancel i t st))
     in job_view st' i = Some JobRunning \<and> db_job_view st' i = Some (lit ''running'') \<and>
        map_option (\<lambda>j. is_cancelled j) (job_in st' i) = Some True) \<and>
    (let st' = store_requeue_job_after_memory_gate i u (snd (store_cancel i t st))
     in job_view st' i = Some JobQueued \<and> db_job_view st' i = Some (lit ''queued''))"
proof -
  let ?c = "snd (store_cancel i t st)" and ?jc = "snd (request_cancellation j t)"
  have c: "fst (request_cancellation j t) = Some t" "job_status ?jc = JobCancelled" "is_cancelled ?jc"
    using assms(3)
    by (simp_all add: request_cancellation_def job_can_cancel_def cancel_token_def Let_def is_cancelled_def token_cancel_def)
  have jc: "job_in ?c i = Some ?jc"
    using assms(2) c(1)
    unfolding store_cancel_def reg_request_cancellation_def
    by (simp add: case_prod_beta run_reg_update_job Let_def db_update_job_views registry_update_views)
  have reach: "store_reach cfg (store_apply op ?c)" if "in_step ?c op" for op
    using reach_step [OF reach_step [OF assms(1), of "OpCancel i t"], of op] that assms(2,3)
    by (simp add: job_view_def)
  have m: "mirror (store_mark_job_running i ?c)" "mirror (store_requeue_job_after_memory_gate i u ?c)"
    using durable_reach [OF reach [of "OpRunning i"]] durable_reach [OF reach [of "OpRequeue i u"]]
    by (simp_all add: durable_def)
  obtain it where run: "store_mark_job_running i ?c = db_update_job i (job_update JobRunning)
      (notify_job_item it (?c\<lparr>st_registry := hm_modify i mark_running (st_registry ?c)\<rparr>))"
    using job_op_present [OF jc] unfolding store_mark_job_running_def reg_mark_job_running_def by blast
  obtain it' where req: "store_requeue_job_after_memory_gate i u ?c =
      db_update_job i ((job_update JobQueued)\<lparr>pj_next_eligible_at := Some u\<rparr>)
      (notify_job_item it' (?c\<lparr>st_registry :=
         hm_modify i (\<lambda>j. requeue_after_memory_gate j u) (st_registry ?c)\<rparr>))"
    using job_op_present [OF jc]
    unfolding store_requeue_job_after_memory_gate_def reg_requeue_after_memory_gate_def by blast
  have jr: "job_in (store_mark_job_running i ?c) i = Some (mark_running ?jc)"
    unfolding run by (simp add: store_views registry_update_views jc)
  have jq: "job_in (store_requeue_job_after_memory_gate i u ?c) i = Some (requeue_after_memory_gate ?jc u)"
    unfolding req by (simp add: store_views registry_update_views jc)
  have v: "job_view (store_mark_job_running i ?c) i = Some JobRunning"
    "job_view (store_requeue_job_after_memory_gate i u ?c) i = Some JobQueued"
    by (simp_all add: job_view_def jr jq mark_running_def requeue_after_memory_gate_def)
  with m have "db_job_view (store_mark_job_running i ?c) i = Some (lit ''running'')"
    "db_job_view (store_requeue_job_after_memory_gate i u ?c) i = Some (lit ''queued'')"
    by (auto simp: mirror_def)
  with v jr jc c(2,3) show ?thesis
    by (simp add: Let_def job_view_def mark_running_def is_cancelled_def)
qed

lemma cancelled_job_resurrected_witness:
  "db_job_view (store_mark_job_running [1] (snd (store_cancel [1] 120 demo_store))) [1] =
    Some (lit ''running'')"
proof -
  obtain j where "job_in demo_store [1] = Some j" "job_status j = JobQueued"
    using demo_store_job(1) by blast
  then show ?thesis
    using cancelled_job_resurrected [OF demo_store_reach, of "[1]" j 120 0] by (simp add: Let_def)
qed

lemma submit_unclaimed:
  "\<not> claimed st i \<Longrightarrow> fresh_job j \<Longrightarrow> \<not> claimed (snd (store_submit j st)) i"
  by (simp add: claimed_def store_submit_def run_reg_def insert_checked_def with_db_def job_in_def
      hmap_store.get_put fresh_job_def Let_def)

lemma renew_unclaimed:
  assumes "\<not> claimed st i"
  shows "store_renew_job_lease i now st = (LeaseStop, st)"
proof (cases "job_in st i")
  case None
  then show ?thesis
    by (simp add: store_renew_job_lease_def reg_renew_job_lease_def run_reg_def update_job_def
        job_in_def opt_flatten_def)
next
  case (Some j)
  then have "renew_local_dispatch_lease j n t l = (None, j)" for n t l
    using assms by (simp add: claimed_def renew_local_dispatch_lease_def)
  with Some show ?thesis
    by (simp add: store_renew_job_lease_def reg_renew_job_lease_def run_reg_def update_job_def
        job_in_def opt_flatten_def hm_modify_id)
qed

text \<open>
  No lease is ever renewed. No operation claims a job for a runner, so in every store a server
  reaches the heartbeat of every job is told to stop, and changes nothing.
\<close>

theorem heartbeat_always_stops:
  assumes "store_reach cfg st"
  shows "store_renew_job_lease i now st = (LeaseStop, st)"
proof -
  have "\<not> claimed st i"
    using assms
  proof (induction rule: store_reach.induct)
    case (reach_submit st j)
    then show ?case by (simp add: submit_unclaimed)
  next
    case (reach_step st op)
    then show ?case using same_shape_step [of st op] by (auto simp: same_shape_def)
  qed (simp add: claimed_def job_in_def store_new_def hm_get_def)
  then show ?thesis by (rule renew_unclaimed)
qed

lemma heartbeat_always_stops_witness:
  "fst (store_renew_job_lease [1] 130 demo_store) = LeaseStop"
  using heartbeat_always_stops [OF demo_store_reach] by simp

end
