(* ===== verification/Dp_Align.thy ===== *)
theory Dp_Align
  imports Prelude
begin

text \<open>
  The sequence aligner (\<open>chat-ops/dp_align/mod.rs\<close>): common prefix and suffix are stripped,
  the middle is split by Hirschberg's method on the reference until the table is small, and a
  small problem is solved on a flat table with a traceback. The element type is any that can be
  compared and rendered (the trait \<open>Alignable\<close>), here the first two arguments \<open>mt\<close> and
  \<open>key\<close> of each definition; \<open>mt x y\<close> is \<open>x.matches(y, mode)\<close>. Lengths and costs are
  natural numbers: they are bounded by the lengths of slices in memory.
\<close>

section \<open>Results and modes\<close>

datatype AlignResult =
  AlMatch rstr nat nat
| ExtraPayload rstr nat
| ExtraReference rstr nat

datatype MatchMode = MmExact | MmCaseInsensitive | MmFuzzy rat

definition cost_sub :: nat where "cost_sub = 2"
definition cost_gap :: nat where "cost_gap = 1"
definition small_cutoff :: nat where "small_cutoff = 2048"

text \<open>
  The two implementations of \<open>Alignable\<close>. The Unicode lower-casing and the Jaro-Winkler
  similarity of the \<open>strsim\<close> crate are parameters.
\<close>

definition string_matches ::
  "(rstr \<Rightarrow> rstr) \<Rightarrow> (rstr \<Rightarrow> rstr \<Rightarrow> rat) \<Rightarrow> MatchMode \<Rightarrow> rstr \<Rightarrow> rstr \<Rightarrow> bool" where
  "string_matches lower jaro_winkler mode a b =
     (case mode of
        MmExact \<Rightarrow> a = b
      | MmCaseInsensitive \<Rightarrow> eq_ignore_ascii_case a b
      | MmFuzzy threshold \<Rightarrow>
          (if eq_ignore_ascii_case a b then True
           else threshold \<le> jaro_winkler (lower a) (lower b)))"

definition string_key :: "rstr \<Rightarrow> rstr" where
  "string_key s = s"

definition char_matches :: "MatchMode \<Rightarrow> rchar \<Rightarrow> rchar \<Rightarrow> bool" where
  "char_matches mode a b =
     (case mode of
        MmExact \<Rightarrow> a = b
      | _ \<Rightarrow> ascii_lower a = ascii_lower b)"

definition char_key :: "rchar \<Rightarrow> rstr" where
  "char_key c = [c]"

section \<open>Cost rows\<close>

text \<open>
  One row of the cost matrix from the previous one: \<open>prev\<close> is advanced with the payload and
  \<open>lst\<close> is the cell just pushed.
\<close>

primrec row_scan :: "('a \<Rightarrow> 'a \<Rightarrow> bool) \<Rightarrow> 'a \<Rightarrow> 'a list \<Rightarrow> nat list \<Rightarrow> nat \<Rightarrow> nat list" where
  "row_scan mt r [] prev lst = []"
| "row_scan mt r (p # ps) prev lst =
     (let sub_cost = prev ! 0 + (if mt r p then 0 else cost_sub);
          del_cost = prev ! 1 + cost_gap;
          ins_cost = lst + cost_gap;
          c = min (min sub_cost del_cost) ins_cost
      in c # row_scan mt r ps (tl prev) c)"

definition next_row :: "('a \<Rightarrow> 'a \<Rightarrow> bool) \<Rightarrow> 'a list \<Rightarrow> 'a \<Rightarrow> nat list \<Rightarrow> nat list" where
  "next_row mt payload r prev =
     (prev ! 0 + cost_gap) # row_scan mt r payload prev (prev ! 0 + cost_gap)"

definition row_costs :: "('a \<Rightarrow> 'a \<Rightarrow> bool) \<Rightarrow> 'a list \<Rightarrow> 'a list \<Rightarrow> nat list" where
  "row_costs mt reference payload =
     fold (next_row mt payload) reference [0..<length payload + 1]"

definition row_costs_rev :: "('a \<Rightarrow> 'a \<Rightarrow> bool) \<Rightarrow> 'a list \<Rightarrow> 'a list \<Rightarrow> nat list" where
  "row_costs_rev mt reference payload =
     fold (next_row mt (rev payload)) (rev reference) [0..<length payload + 1]"

section \<open>The flat table\<close>

datatype Action = ActStart | ActMatch | ActSubstitution | ActExtraPayload | ActExtraReference

type_synonym cell = "nat \<times> Action \<times> nat \<times> nat"

definition dp_borders :: "nat \<Rightarrow> nat \<Rightarrow> cell list" where
  "dp_borders rows cols =
     (let dp = replicate (rows * cols) (0, ActStart, 0, 0);
          dp = fold (\<lambda>i dp. dp[i * cols + 0 := (i * cost_gap, ActExtraReference, i - 1, 0)]) [1..<rows] dp
      in fold (\<lambda>j dp. dp[0 * cols + j := (j * cost_gap, ActExtraPayload, 0, j - 1)]) [1..<cols] dp)"

definition dp_cell ::
  "('a \<Rightarrow> 'a \<Rightarrow> bool) \<Rightarrow> 'a list \<Rightarrow> 'a list \<Rightarrow> nat \<Rightarrow> cell list \<Rightarrow> nat \<Rightarrow> nat \<Rightarrow> cell" where
  "dp_cell mt payload reference cols dp i j =
     (let is_match = mt (reference ! (i - 1)) (payload ! (j - 1));
          sub_cost = fst (dp ! ((i - 1) * cols + (j - 1))) + (if is_match then 0 else cost_sub);
          del_cost = fst (dp ! ((i - 1) * cols + j)) + cost_gap;
          ins_cost = fst (dp ! (i * cols + (j - 1))) + cost_gap
      in if sub_cost \<le> del_cost \<and> sub_cost \<le> ins_cost
         then (sub_cost, if is_match then ActMatch else ActSubstitution, i - 1, j - 1)
         else if del_cost \<le> sub_cost \<and> del_cost \<le> ins_cost
         then (del_cost, ActExtraReference, i - 1, j)
         else (ins_cost, ActExtraPayload, i, j - 1))"

definition dp_row ::
  "('a \<Rightarrow> 'a \<Rightarrow> bool) \<Rightarrow> 'a list \<Rightarrow> 'a list \<Rightarrow> nat \<Rightarrow> nat \<Rightarrow> cell list \<Rightarrow> cell list" where
  "dp_row mt payload reference cols i dp =
     fold (\<lambda>j dp. dp[i * cols + j := dp_cell mt payload reference cols dp i j]) [1..<cols] dp"

definition dp_table :: "('a \<Rightarrow> 'a \<Rightarrow> bool) \<Rightarrow> 'a list \<Rightarrow> 'a list \<Rightarrow> cell list" where
  "dp_table mt payload reference =
     (let rows = length reference + 1; cols = length payload + 1
      in fold (dp_row mt payload reference cols) [1..<rows] (dp_borders rows cols))"

text \<open>What the loop of the traceback pushes for an action towards the cell \<open>(qi, qj)\<close>.\<close>

definition trace_emit ::
  "('a \<Rightarrow> rstr) \<Rightarrow> 'a list \<Rightarrow> 'a list \<Rightarrow> nat \<Rightarrow> nat \<Rightarrow> Action \<Rightarrow> nat \<Rightarrow> nat \<Rightarrow> AlignResult list" where
  "trace_emit key payload reference pay_offset ref_offset action qi qj =
     (let ep = ExtraPayload (key (payload ! qj)) (pay_offset + qj);
          er = ExtraReference (key (reference ! qi)) (ref_offset + qi)
      in case action of
           ActMatch \<Rightarrow> [AlMatch (key (reference ! qi)) (pay_offset + qj) (ref_offset + qi)]
         | ActSubstitution \<Rightarrow> [ep, er]
         | ActExtraPayload \<Rightarrow> [ep]
         | ActExtraReference \<Rightarrow> [er]
         | ActStart \<Rightarrow> [])"

text \<open>
  The loop. The fuel bounds its iterations; None is running out of it, and \<open>Action::Start\<close>
  breaks it.
\<close>

primrec traceback ::
  "nat \<Rightarrow> (Action \<Rightarrow> nat \<Rightarrow> nat \<Rightarrow> AlignResult list) \<Rightarrow> nat \<Rightarrow> cell list \<Rightarrow> nat \<Rightarrow> nat
     \<Rightarrow> AlignResult list \<Rightarrow> AlignResult list option" where
  "traceback 0 emit cols dp i j output = (if i > 0 \<or> j > 0 then None else Some output)"
| "traceback (Suc fuel) emit cols dp i j output =
     (if i > 0 \<or> j > 0
      then (let action = fst (snd (dp ! (i * cols + j)));
                q = snd (snd (dp ! (i * cols + j)))
            in if action = ActStart then Some output
               else traceback fuel emit cols dp (fst q) (snd q)
                      (output @ emit action (fst q) (snd q)))
      else Some output)"

definition align_small ::
  "('a \<Rightarrow> 'a \<Rightarrow> bool) \<Rightarrow> ('a \<Rightarrow> rstr) \<Rightarrow> 'a list \<Rightarrow> 'a list \<Rightarrow> nat \<Rightarrow> nat \<Rightarrow> AlignResult list option"
where
  "align_small mt key payload reference pay_offset ref_offset =
     map_option rev
       (traceback (length reference + length payload)
          (trace_emit key payload reference pay_offset ref_offset) (length payload + 1)
          (dp_table mt payload reference) (length reference) (length payload) [])"

section \<open>Hirschberg\<close>

text \<open>The first position of the payload with the least sum of scores; None stands for \<open>usize::MAX\<close>.\<close>

primrec best_split :: "nat list \<Rightarrow> nat list \<Rightarrow> nat \<Rightarrow> nat list \<Rightarrow> (nat option \<times> nat) \<Rightarrow> nat option \<times> nat" where
  "best_split sl sr pay_len [] bs = bs"
| "best_split sl sr pay_len (k # ks) bs =
     (let cost = sl ! k + sr ! (pay_len - k)
      in best_split sl sr pay_len ks
           (if (case fst bs of None \<Rightarrow> True | Some best \<Rightarrow> cost < best) then (Some cost, k) else bs))"

definition split_at :: "('a \<Rightarrow> 'a \<Rightarrow> bool) \<Rightarrow> 'a list \<Rightarrow> 'a list \<Rightarrow> 'a list \<Rightarrow> nat" where
  "split_at mt left_ref right_ref payload =
     snd (best_split (row_costs mt left_ref payload) (row_costs_rev mt right_ref payload)
            (length payload) [0..<length payload + 1] (None, 0))"

function hirschberg ::
  "('a \<Rightarrow> 'a \<Rightarrow> bool) \<Rightarrow> ('a \<Rightarrow> rstr) \<Rightarrow> 'a list \<Rightarrow> 'a list \<Rightarrow> nat \<Rightarrow> nat \<Rightarrow> AlignResult list option"
where
  "hirschberg mt key payload reference pay_offset ref_offset =
     (if reference = [] then
        Some (map (\<lambda>(i, k). ExtraPayload (key k) (pay_offset + i)) (enumerate 0 payload))
      else if payload = [] then
        Some (map (\<lambda>(i, k). ExtraReference (key k) (ref_offset + i)) (enumerate 0 reference))
      else if length reference \<le> 1 \<or> length payload \<le> 1
          \<or> length reference * length payload \<le> small_cutoff
      then align_small mt key payload reference pay_offset ref_offset
      else
        (let mid = length reference div 2;
             left_ref = take mid reference;
             right_ref = drop mid reference;
             split = split_at mt left_ref right_ref payload
         in case hirschberg mt key (take split payload) left_ref pay_offset ref_offset of
              None \<Rightarrow> None
            | Some left_result \<Rightarrow>
                (case hirschberg mt key (drop split payload) right_ref
                        (pay_offset + split) (ref_offset + mid) of
                   None \<Rightarrow> None
                 | Some right_result \<Rightarrow> Some (left_result @ right_result))))"
  by pat_completeness auto
termination
  by (relation "measure (\<lambda>(mt, key, payload, reference, po, ro). length reference)") auto

declare hirschberg.simps [simp del]

section \<open>Stripping\<close>

definition common_prefix_len :: "('a \<Rightarrow> 'a \<Rightarrow> bool) \<Rightarrow> 'a list \<Rightarrow> 'a list \<Rightarrow> nat" where
  "common_prefix_len mt xs ys = length (takeWhile (\<lambda>(p, r). mt p r) (zip xs ys))"

definition align_generic ::
  "('a \<Rightarrow> 'a \<Rightarrow> bool) \<Rightarrow> ('a \<Rightarrow> rstr) \<Rightarrow> 'a list \<Rightarrow> 'a list \<Rightarrow> AlignResult list option" where
  "align_generic mt key payload reference =
     (let prefix_len = common_prefix_len mt payload reference;
          suffix_len = common_prefix_len mt (rev (drop prefix_len payload)) (rev (drop prefix_len reference));
          prefix = map (\<lambda>(i, r). AlMatch (key r) i i) (take prefix_len (enumerate 0 reference));
          mid_pay = drop prefix_len (take (length payload - suffix_len) payload);
          mid_ref = drop prefix_len (take (length reference - suffix_len) reference);
          ps = length payload - suffix_len;
          rs = length reference - suffix_len;
          suffix = map (\<lambda>i. AlMatch (key (reference ! (rs + i))) (ps + i) (rs + i)) [0..<suffix_len]
      in case hirschberg mt key mid_pay mid_ref prefix_len prefix_len of
           None \<Rightarrow> None
         | Some mid \<Rightarrow> Some (prefix @ mid @ suffix))"

definition align ::
  "(rstr \<Rightarrow> rstr) \<Rightarrow> (rstr \<Rightarrow> rstr \<Rightarrow> rat) \<Rightarrow> rstr list \<Rightarrow> rstr list \<Rightarrow> MatchMode
     \<Rightarrow> AlignResult list option" where
  "align lower jaro_winkler payload reference mode =
     align_generic (string_matches lower jaro_winkler mode) string_key payload reference"

definition align_chars :: "rchar list \<Rightarrow> rchar list \<Rightarrow> MatchMode \<Rightarrow> AlignResult list option" where
  "align_chars payload reference mode =
     align_generic (char_matches mode) char_key payload reference"

section \<open>Edit scripts\<close>

text \<open>
  What the aligner is for: \<open>aligns\<close> says that a list of results walks through both sequences
  in order, pairing only elements that match; \<open>cost\<close> counts the unpaired ones.
\<close>

inductive aligns ::
  "('a \<Rightarrow> 'a \<Rightarrow> bool) \<Rightarrow> ('a \<Rightarrow> rstr) \<Rightarrow> 'a list \<Rightarrow> 'a list \<Rightarrow> nat \<Rightarrow> nat \<Rightarrow> AlignResult list \<Rightarrow> bool"
  for mt key where
  al_nil: "aligns mt key [] [] po ro []"
| al_match: "mt x y \<Longrightarrow> aligns mt key ys xs (Suc po) (Suc ro) res \<Longrightarrow>
    aligns mt key (y # ys) (x # xs) po ro (AlMatch (key x) po ro # res)"
| al_payload: "aligns mt key ys xs (Suc po) ro res \<Longrightarrow>
    aligns mt key (y # ys) xs po ro (ExtraPayload (key y) po # res)"
| al_reference: "aligns mt key ys xs po (Suc ro) res \<Longrightarrow>
    aligns mt key ys (x # xs) po ro (ExtraReference (key x) ro # res)"

fun is_match_result :: "AlignResult \<Rightarrow> bool" where
  "is_match_result (AlMatch k i j) = True"
| "is_match_result _ = False"

definition cost :: "AlignResult list \<Rightarrow> nat" where
  "cost res = length (filter (\<lambda>a. \<not> is_match_result a) res)"

lemma cost_simps [simp]:
  "cost [] = 0" "cost (AlMatch k i j # res) = cost res"
  "cost (ExtraPayload k i # res) = Suc (cost res)"
  "cost (ExtraReference k j # res) = Suc (cost res)"
  "cost (a @ b) = cost a + cost b"
  by (simp_all add: cost_def)

lemma aligns_append:
  "aligns mt key p r po ro res \<Longrightarrow> aligns mt key p' r' (po + length p) (ro + length r) res' \<Longrightarrow>
    aligns mt key (p @ p') (r @ r') po ro (res @ res')"
  by (induction rule: aligns.induct) (auto intro: aligns.intros)

lemma aligns_payload_only:
  "aligns mt key p [] po ro (map (\<lambda>(i, k). ExtraPayload (key k) (po + i)) (enumerate 0 p))"
proof -
  have "aligns mt key p [] (po + n) ro (map (\<lambda>(i, k). ExtraPayload (key k) (po + i)) (enumerate n p))" for n
    by (induction p arbitrary: n) (auto intro: aligns.intros simp flip: add_Suc_right)
  from this [of 0] show ?thesis by simp
qed

lemma aligns_reference_only:
  "aligns mt key [] r po ro (map (\<lambda>(i, k). ExtraReference (key k) (ro + i)) (enumerate 0 r))"
proof -
  have "aligns mt key [] r po (ro + n) (map (\<lambda>(i, k). ExtraReference (key k) (ro + i)) (enumerate n r))" for n
    by (induction r arbitrary: n) (auto intro: aligns.intros simp flip: add_Suc_right)
  from this [of 0] show ?thesis by simp
qed

text \<open>The costs an alignment of two sequences can have.\<close>

inductive edits :: "('a \<Rightarrow> 'a \<Rightarrow> bool) \<Rightarrow> 'a list \<Rightarrow> 'a list \<Rightarrow> nat \<Rightarrow> bool" for mt where
  ed_nil: "edits mt [] [] 0"
| ed_match: "mt x y \<Longrightarrow> edits mt xs ys n \<Longrightarrow> edits mt (x # xs) (y # ys) n"
| ed_reference: "edits mt xs ys n \<Longrightarrow> edits mt (x # xs) ys (Suc n)"
| ed_payload: "edits mt xs ys n \<Longrightarrow> edits mt xs (y # ys) (Suc n)"

inductive_cases edits_NilE: "edits mt [] ys n"
inductive_cases edits_ConsE: "edits mt (x # xs) ys n"
inductive_cases edits_Cons2E: "edits mt (x # xs) (y # ys) n"

lemma aligns_edits: "aligns mt key p r po ro res \<Longrightarrow> edits mt r p (cost res)"
  by (induction rule: aligns.induct) (auto intro: edits.intros)

lemma edits_append:
  "edits mt a b m \<Longrightarrow> edits mt c d n \<Longrightarrow> edits mt (a @ c) (b @ d) (m + n)"
  by (induction rule: edits.induct) (auto intro: edits.intros)

lemma edits_one:
  "edits mt [x] [] 1" "edits mt [] [y] 1" "mt x y \<Longrightarrow> edits mt [x] [y] 0"
  by (auto intro: edits.intros simp: One_nat_def)

lemma edits_rev: "edits mt xs ys n \<Longrightarrow> edits mt (rev xs) (rev ys) n"
proof (induction rule: edits.induct)
  case (ed_match x y xs ys n)
  then show ?case using edits_append [OF ed_match.IH edits_one(3), of x y] by simp
next
  case (ed_reference xs ys n x)
  then show ?case using edits_append [OF ed_reference.IH edits_one(1), of x] by simp
next
  case (ed_payload xs ys n y)
  then show ?case using edits_append [OF ed_payload.IH edits_one(2), of y] by simp
qed (simp add: edits.ed_nil)

lemma edits_split:
  "edits mt zs ys n \<Longrightarrow> zs = a @ c \<Longrightarrow>
    \<exists>b d m k. ys = b @ d \<and> edits mt a b m \<and> edits mt c d k \<and> n = m + k"
proof (induction arbitrary: a rule: edits.induct)
  case ed_nil
  then show ?case by (auto intro: edits.ed_nil)
next
  case (ed_match x y xs ys n)
  show ?case
  proof (cases a)
    case Nil
    with ed_match show ?thesis by (metis add_0 append_Nil edits.ed_match edits.ed_nil)
  next
    case (Cons x' a')
    with ed_match.prems have xs: "x' = x" "xs = a' @ c" by simp_all
    from ed_match.IH [OF xs(2)] obtain b d m k where
      b: "ys = b @ d" "edits mt a' b m" "edits mt c d k" "n = m + k" by blast
    have "y # ys = (y # b) @ d" using b by simp
    moreover have "edits mt a (y # b) m" using edits.ed_match [OF ed_match.hyps(1) b(2)] Cons xs by simp
    ultimately show ?thesis using b by blast
  qed
next
  case (ed_reference xs ys n x)
  show ?case
  proof (cases a)
    case Nil
    with ed_reference show ?thesis by (metis add_0 append_Nil edits.ed_reference edits.ed_nil)
  next
    case (Cons x' a')
    with ed_reference.prems have xs: "x' = x" "xs = a' @ c" by simp_all
    from ed_reference.IH [OF xs(2)] obtain b d m k where
      b: "ys = b @ d" "edits mt a' b m" "edits mt c d k" "n = m + k" by blast
    have "edits mt a b (Suc m)" using edits.ed_reference [OF b(2)] Cons xs by simp
    with b show ?thesis by (metis add_Suc)
  qed
next
  case (ed_payload xs ys n y)
  from ed_payload.IH [OF ed_payload.prems] obtain b d m k where
    b: "ys = b @ d" "edits mt a b m" "edits mt c d k" "n = m + k" by blast
  have "y # ys = (y # b) @ d" using b by simp
  moreover have "edits mt a (y # b) (Suc m)" using edits.ed_payload [OF b(2)] .
  ultimately show ?case using b by (metis add_Suc)
qed

section \<open>The least cost\<close>

fun edit_cost :: "('a \<Rightarrow> 'a \<Rightarrow> bool) \<Rightarrow> 'a list \<Rightarrow> 'a list \<Rightarrow> nat" where
  "edit_cost mt [] ys = length ys"
| "edit_cost mt xs [] = length xs"
| "edit_cost mt (x # xs) (y # ys) =
     min (min (edit_cost mt xs ys + (if mt x y then 0 else 2)) (edit_cost mt xs (y # ys) + 1))
       (edit_cost mt (x # xs) ys + 1)"

lemma ecost_Nil2 [simp]: "edit_cost mt xs [] = length xs"
  by (cases xs) auto

lemma ecost_edits: "edits mt xs ys (edit_cost mt xs ys)"
proof (induction mt xs ys rule: edit_cost.induct)
  case (1 mt ys)
  show ?case by (induction ys) (auto intro: edits.intros)
next
  case (2 mt x xs)
  have "edits mt zs [] (length zs)" for zs by (induction zs) (auto intro: edits.intros)
  from this [of "x # xs"] show ?case by simp
next
  case (3 mt x xs y ys)
  have both: "edits mt (x # xs) (y # ys) (edit_cost mt xs ys + (if mt x y then 0 else 2))"
    using edits.ed_match [OF _ 3(1)] edits.ed_reference [OF edits.ed_payload [OF 3(1)]]
    by (auto simp: numeral_2_eq_2)
  have one: "edits mt (x # xs) (y # ys) (edit_cost mt xs (y # ys) + 1)"
    "edits mt (x # xs) (y # ys) (edit_cost mt (x # xs) ys + 1)"
    using edits.ed_reference [OF 3(2)] edits.ed_payload [OF 3(3)] by simp_all
  show ?case using both one by (auto simp: min_def)
qed

lemma ecost_least: "edits mt xs ys n \<Longrightarrow> edit_cost mt xs ys \<le> n"
proof (induction rule: edits.induct)
  case (ed_reference xs ys n x)
  then show ?case by (cases ys) auto
next
  case (ed_payload xs ys n y)
  then show ?case by (cases xs) auto
qed auto

lemma ecost_rev [simp]: "edit_cost mt (rev xs) (rev ys) = edit_cost mt xs ys"
proof (rule order_antisym)
  show "edit_cost mt (rev xs) (rev ys) \<le> edit_cost mt xs ys"
    by (rule ecost_least [OF edits_rev [OF ecost_edits]])
  show "edit_cost mt xs ys \<le> edit_cost mt (rev xs) (rev ys)"
    using edits_rev [OF ecost_edits, of mt "rev xs" "rev ys"] by (simp add: ecost_least)
qed

lemma ecost_snoc:
  "edit_cost mt (xs @ [x]) (ys @ [y]) =
     min (min (edit_cost mt xs ys + (if mt x y then 0 else cost_sub)) (edit_cost mt xs (ys @ [y]) + cost_gap))
       (edit_cost mt (xs @ [x]) ys + cost_gap)"
proof -
  have "edit_cost mt (xs @ [x]) (ys @ [y]) = edit_cost mt (x # rev xs) (y # rev ys)"
    using ecost_rev [of mt "xs @ [x]" "ys @ [y]"] by simp
  moreover have "edit_cost mt (rev xs) (y # rev ys) = edit_cost mt xs (ys @ [y])"
    using ecost_rev [of mt xs "ys @ [y]"] by simp
  moreover have "edit_cost mt (x # rev xs) (rev ys) = edit_cost mt (xs @ [x]) ys"
    using ecost_rev [of mt "xs @ [x]" ys] by simp
  ultimately show ?thesis by (simp add: cost_sub_def cost_gap_def)
qed

lemma ecost_append_le: "edit_cost mt (a @ c) (b @ d) \<le> edit_cost mt a b + edit_cost mt c d"
  by (rule ecost_least [OF edits_append [OF ecost_edits ecost_edits]])

lemma ecost_split:
  "\<exists>k \<le> length ys. edit_cost mt (a @ c) ys = edit_cost mt a (take k ys) + edit_cost mt c (drop k ys)"
proof -
  obtain b d m k where b: "ys = b @ d" "edits mt a b m" "edits mt c d k" "edit_cost mt (a @ c) ys = m + k"
    using edits_split [where a = a and c = c, OF ecost_edits [of mt "a @ c" ys]] by blast
  have "edit_cost mt a b + edit_cost mt c d \<le> m + k"
    by (rule add_mono [OF ecost_least [OF b(2)] ecost_least [OF b(3)]])
  then have "edit_cost mt (a @ c) ys = edit_cost mt a b + edit_cost mt c d"
    using ecost_append_le [of mt a c b d] b(4) unfolding b(1) by linarith
  then show ?thesis by (intro exI [of _ "length b"]) (simp add: b(1))
qed

text \<open>Dropping one element changes the cost by at most one, so a matching first pair is free.\<close>

lemma ecost_drop_payload: "edits mt xs zs m \<Longrightarrow> zs = y # ys \<Longrightarrow> edit_cost mt xs ys \<le> Suc m"
proof (induction rule: edits.induct)
  case (ed_match x' y' xs' ys' n)
  then show ?case using ecost_least [OF edits.ed_reference [OF ed_match.hyps(2)]] by auto
next
  case (ed_reference xs' ys' n x')
  then have "edit_cost mt xs' ys \<le> Suc n" by simp
  moreover have "edit_cost mt (x' # xs') ys \<le> Suc (edit_cost mt xs' ys)"
    by (rule ecost_least [OF edits.ed_reference [OF ecost_edits]])
  ultimately show ?case by simp
next
  case (ed_payload xs' ys' n y')
  then show ?case using ecost_least [OF ed_payload.hyps] by auto
qed auto

lemma ecost_drop_reference: "edits mt zs ys m \<Longrightarrow> zs = x # xs \<Longrightarrow> edit_cost mt xs ys \<le> Suc m"
proof (induction rule: edits.induct)
  case (ed_match x' y' xs' ys' n)
  then show ?case using ecost_least [OF edits.ed_payload [OF ed_match.hyps(2)]] by auto
next
  case (ed_payload xs' ys' n y')
  then have "edit_cost mt xs ys' \<le> Suc n" by simp
  moreover have "edit_cost mt xs (y' # ys') \<le> Suc (edit_cost mt xs ys')"
    by (rule ecost_least [OF edits.ed_payload [OF ecost_edits]])
  ultimately show ?case by simp
next
  case (ed_reference xs' ys' n x')
  then show ?case using ecost_least [OF ed_reference.hyps] by auto
qed auto

lemma ecost_match_first:
  assumes "mt x y"
  shows "edit_cost mt (x # xs) (y # ys) = edit_cost mt xs ys"
  using assms ecost_drop_payload [OF ecost_edits [of mt xs "y # ys"] refl]
    ecost_drop_reference [OF ecost_edits [of mt "x # xs" ys] refl] by simp

section \<open>Rows\<close>

text \<open>The list holds the costs of \<open>rs\<close> against the prefixes of \<open>ps\<close>.\<close>

definition cost_row :: "('a \<Rightarrow> 'a \<Rightarrow> bool) \<Rightarrow> 'a list \<Rightarrow> 'a list \<Rightarrow> nat list \<Rightarrow> bool" where
  "cost_row mt rs ps row \<longleftrightarrow> length row = length ps + 1 \<and>
     (\<forall>j \<le> length ps. row ! j = edit_cost mt rs (take j ps))"

lemma row_scan_cost:
  assumes "length prev = length ps + 1"
    and "\<And>j. j \<le> length ps \<Longrightarrow> prev ! j = edit_cost mt rs (qs @ take j ps)"
    and "lst = edit_cost mt (rs @ [r]) qs"
  shows "length (row_scan mt r ps prev lst) = length ps \<and>
    (\<forall>j < length ps. row_scan mt r ps prev lst ! j = edit_cost mt (rs @ [r]) (qs @ take (Suc j) ps))"
  using assms
proof (induction ps arbitrary: qs prev lst)
  case (Cons p ps)
  have p: "prev ! 0 = edit_cost mt rs qs" "prev ! 1 = edit_cost mt rs (qs @ [p])"
    using Cons.prems(2) [of 0] Cons.prems(2) [of 1] by simp_all
  let ?c = "edit_cost mt (rs @ [r]) (qs @ [p])"
  have scan: "row_scan mt r (p # ps) prev lst = ?c # row_scan mt r ps (tl prev) ?c"
    using p by (simp add: Let_def ecost_snoc Cons.prems(3))
  have "tl prev ! j = edit_cost mt rs ((qs @ [p]) @ take j ps)" if "j \<le> length ps" for j
    using Cons.prems(1) Cons.prems(2) [of "Suc j"] that by (simp add: nth_tl)
  then have "length (row_scan mt r ps (tl prev) ?c) = length ps \<and>
    (\<forall>j < length ps. row_scan mt r ps (tl prev) ?c ! j =
       edit_cost mt (rs @ [r]) ((qs @ [p]) @ take (Suc j) ps))"
    using Cons.prems(1) by (intro Cons.IH) simp_all
  then show ?case
    unfolding scan by (auto simp: nth_Cons split: nat.split)
qed simp

lemma next_row_cost: "cost_row mt rs ps prev \<Longrightarrow> cost_row mt (rs @ [r]) ps (next_row mt ps r prev)"
  using row_scan_cost [of prev ps mt rs "[]" "prev ! 0 + cost_gap" r]
  by (auto simp: cost_row_def next_row_def nth_Cons cost_gap_def split: nat.split)

lemma fold_next_row:
  "cost_row mt r1 ps row \<Longrightarrow> cost_row mt (r1 @ r2) ps (fold (next_row mt ps) r2 row)"
proof (induction r2 arbitrary: r1 row)
  case (Cons r r2)
  then show ?case using Cons.IH [OF next_row_cost [OF Cons.prems], of r] by simp
qed simp

lemma cost_row_start: "cost_row mt [] ps [0..<length ps + 1]"
  by (auto simp: cost_row_def simp del: upt_Suc)

lemma row_costs_cost: "cost_row mt rs ps (row_costs mt rs ps)"
  using fold_next_row [OF cost_row_start [of mt ps], of rs] by (simp add: row_costs_def del: upt_Suc)

lemma row_costs_rev_nth:
  assumes "k \<le> length ps"
  shows "row_costs_rev mt rs ps ! (length ps - k) = edit_cost mt rs (drop k ps)"
proof -
  have "row_costs_rev mt rs ps = row_costs mt (rev rs) (rev ps)"
    by (simp add: row_costs_rev_def row_costs_def)
  then have "row_costs_rev mt rs ps ! (length ps - k) =
      edit_cost mt (rev rs) (take (length ps - k) (rev ps))"
    using row_costs_cost [of mt "rev rs" "rev ps"] by (simp add: cost_row_def)
  also have "take (length ps - k) (rev ps) = rev (drop k ps)" using assms by (simp add: take_rev)
  finally show ?thesis by simp
qed

section \<open>The table\<close>

text \<open>The contents of the cell of row \<open>i\<close> and column \<open>j\<close>.\<close>

definition good_cell :: "('a \<Rightarrow> 'a \<Rightarrow> bool) \<Rightarrow> 'a list \<Rightarrow> 'a list \<Rightarrow> nat \<Rightarrow> nat \<Rightarrow> cell \<Rightarrow> bool" where
  "good_cell mt ps rs i j c \<longleftrightarrow>
     fst c = edit_cost mt (take i rs) (take j ps) \<and>
     (case snd c of (action, qi, qj) \<Rightarrow>
        (case action of
           ActStart \<Rightarrow> i = 0 \<and> j = 0
         | ActMatch \<Rightarrow> i = Suc qi \<and> j = Suc qj \<and> mt (rs ! qi) (ps ! qj) \<and>
             fst c = edit_cost mt (take qi rs) (take qj ps)
         | ActSubstitution \<Rightarrow> i = Suc qi \<and> j = Suc qj \<and>
             fst c = edit_cost mt (take qi rs) (take qj ps) + 2
         | ActExtraPayload \<Rightarrow> i = qi \<and> j = Suc qj \<and>
             fst c = edit_cost mt (take qi rs) (take qj ps) + 1
         | ActExtraReference \<Rightarrow> i = Suc qi \<and> j = qj \<and>
             fst c = edit_cost mt (take qi rs) (take qj ps) + 1))"

definition good_at :: "('a \<Rightarrow> 'a \<Rightarrow> bool) \<Rightarrow> 'a list \<Rightarrow> 'a list \<Rightarrow> cell list \<Rightarrow> nat \<Rightarrow> nat \<Rightarrow> bool" where
  "good_at mt ps rs dp i j \<longleftrightarrow> good_cell mt ps rs i j (dp ! (i * (length ps + 1) + j))"

lemma flat_inject:
  fixes c :: nat
  assumes "j < c" and "j' < c" and "i * c + j = i' * c + j'"
  shows "i = i' \<and> j = j'"
proof -
  have "(i * c + j) div c = i" "(i' * c + j') div c = i'" using assms(1,2) by simp_all
  with assms(3) have "i = i'" by simp
  with assms(3) show ?thesis by simp
qed

lemma flat_bound: "(i::nat) < r \<Longrightarrow> j < c \<Longrightarrow> i * c + j < r * c"
proof -
  assume "i < r" "j < c"
  then have "i * c + j < i * c + c" by simp
  also have "\<dots> = Suc i * c" by simp
  also have "\<dots> \<le> r * c" using \<open>i < r\<close> by (intro mult_le_mono1) simp
  finally show ?thesis .
qed

lemma good_at_update:
  assumes "length dp = (length rs + 1) * (length ps + 1)" and "i \<le> length rs" "j \<le> length ps"
  shows "good_cell mt ps rs i j c \<Longrightarrow> good_at mt ps rs (dp[i * (length ps + 1) + j := c]) i j"
    and "i' \<le> length rs \<Longrightarrow> j' \<le> length ps \<Longrightarrow> (i', j') \<noteq> (i, j) \<Longrightarrow>
      good_at mt ps rs (dp[i * (length ps + 1) + j := c]) i' j' = good_at mt ps rs dp i' j'"
proof -
  have "i * (length ps + 1) + j < length dp"
    unfolding assms(1) using assms(2,3) by (intro flat_bound) simp_all
  then show "good_cell mt ps rs i j c \<Longrightarrow> good_at mt ps rs (dp[i * (length ps + 1) + j := c]) i j"
    by (simp add: good_at_def)
  assume "i' \<le> length rs" "j' \<le> length ps" "(i', j') \<noteq> (i, j)"
  then have "i * (length ps + 1) + j \<noteq> i' * (length ps + 1) + j'"
    using flat_inject [of j "length ps + 1" j' i i'] assms(3) by auto
  then show "good_at mt ps rs (dp[i * (length ps + 1) + j := c]) i' j' = good_at mt ps rs dp i' j'"
    by (simp add: good_at_def)
qed

lemma dp_cell_good:
  assumes "i < length rs" "j < length ps"
    and "good_at mt ps rs dp i j" "good_at mt ps rs dp i (Suc j)" "good_at mt ps rs dp (Suc i) j"
  shows "good_cell mt ps rs (Suc i) (Suc j) (dp_cell mt ps rs (length ps + 1) dp (Suc i) (Suc j))"
proof -
  have costs: "fst (dp ! (i * (length ps + 1) + j)) = edit_cost mt (take i rs) (take j ps)"
    "fst (dp ! (i * (length ps + 1) + Suc j)) = edit_cost mt (take i rs) (take (Suc j) ps)"
    "fst (dp ! (Suc i * (length ps + 1) + j)) = edit_cost mt (take (Suc i) rs) (take j ps)"
    using assms(3-5) by (simp_all add: good_at_def good_cell_def)
  have "edit_cost mt (take (Suc i) rs) (take (Suc j) ps) =
     min (min (edit_cost mt (take i rs) (take j ps) + (if mt (rs ! i) (ps ! j) then 0 else cost_sub))
       (edit_cost mt (take i rs) (take (Suc j) ps) + cost_gap))
       (edit_cost mt (take (Suc i) rs) (take j ps) + cost_gap)"
    using assms(1,2) ecost_snoc [of mt "take i rs" "rs ! i" "take j ps" "ps ! j"]
    by (simp add: take_Suc_conv_app_nth)
  then show ?thesis
    unfolding good_cell_def dp_cell_def Let_def diff_Suc_1 costs
    by (auto simp: cost_sub_def cost_gap_def min_def)
qed

end
