(* ===== verification/Align_Correct.thy ===== *)
theory Align_Correct
  imports Dp_Align
begin

text \<open>
  Correctness of the aligner of \<open>Dp_Align\<close>: the flat table holds the edit costs of all pairs of
  prefixes and the way to an optimal predecessor, the traceback reads an optimal alignment from
  it, the split of Hirschberg's method loses nothing, and neither does stripping common ends. The
  interface is the trait \<open>Alignable\<close>, as a locale whose law is that matching is symmetric.
\<close>

lemma fold_upt_inv:
  assumes "P a s" and "\<And>k s. a \<le> k \<Longrightarrow> k < b \<Longrightarrow> P k s \<Longrightarrow> P (Suc k) (f k s)" and "a \<le> b"
  shows "P b (fold f [a..<b] s)"
  using assms(3,2)
proof (induction b rule: dec_induct)
  case base
  show ?case using assms(1) by simp
next
  case (step n)
  then show ?case by simp
qed

text \<open>The table is good at the positions of the set.\<close>

definition good_tab ::
  "('a \<Rightarrow> 'a \<Rightarrow> bool) \<Rightarrow> 'a list \<Rightarrow> 'a list \<Rightarrow> (nat \<times> nat) set \<Rightarrow> cell list \<Rightarrow> bool" where
  "good_tab mt ps rs S dp \<longleftrightarrow> length dp = (length rs + 1) * (length ps + 1) \<and>
     S \<subseteq> {..length rs} \<times> {..length ps} \<and> (\<forall>(a, b) \<in> S. good_at mt ps rs dp a b)"

lemma good_tab_update:
  assumes "good_tab mt ps rs S dp" and "i \<le> length rs" "j \<le> length ps" and "good_cell mt ps rs i j c"
    and "S' \<subseteq> insert (i, j) S"
  shows "good_tab mt ps rs S' (dp[i * (length ps + 1) + j := c])"
proof -
  have len: "length dp = (length rs + 1) * (length ps + 1)"
    and S: "S \<subseteq> {..length rs} \<times> {..length ps}" "\<And>a b. (a, b) \<in> S \<Longrightarrow> good_at mt ps rs dp a b"
    using assms(1) by (auto simp: good_tab_def)
  have "good_at mt ps rs (dp[i * (length ps + 1) + j := c]) a b" if "(a, b) \<in> S'" for a b
  proof (cases "(a, b) = (i, j)")
    case True
    then show ?thesis using good_at_update(1) [OF len assms(2,3,4)] by simp
  next
    case False
    with that assms(5) have ab: "(a, b) \<in> S" by blast
    with S have "a \<le> length rs" "b \<le> length ps" "good_at mt ps rs dp a b" by auto
    then show ?thesis using good_at_update(2) [OF len assms(2,3) _ _ False] by blast
  qed
  moreover have "S' \<subseteq> {..length rs} \<times> {..length ps}" using assms(2,3,5) S(1) by auto
  ultimately show ?thesis using len by (auto simp: good_tab_def)
qed

lemma good_tab_mono: "good_tab mt ps rs S dp \<Longrightarrow> S' \<subseteq> S \<Longrightarrow> good_tab mt ps rs S' dp"
  by (auto simp: good_tab_def)

lemma good_border_cells:
  "good_cell mt ps rs 0 0 (0, ActStart, 0, 0)"
  "0 < i \<Longrightarrow> i \<le> length rs \<Longrightarrow> good_cell mt ps rs i 0 (i * cost_gap, ActExtraReference, i - 1, 0)"
  "0 < j \<Longrightarrow> j \<le> length ps \<Longrightarrow> good_cell mt ps rs 0 j (j * cost_gap, ActExtraPayload, 0, j - 1)"
  by (auto simp: good_cell_def cost_gap_def)

definition borders :: "nat \<Rightarrow> nat \<Rightarrow> (nat \<times> nat) set" where
  "borders r c = {..r} \<times> {0} \<union> {0} \<times> {..c}"

lemma dp_borders_good:
  "good_tab mt ps rs (borders (length rs) (length ps)) (dp_borders (length rs + 1) (length ps + 1))"
proof -
  let ?c = "length ps + 1" and ?r = "length rs + 1"
  let ?d0 = "replicate (?r * ?c) (0, ActStart, 0, 0) :: cell list"
  let ?P1 = "\<lambda>k. good_tab mt ps rs ({..<k} \<times> {0})"
  let ?d1 = "fold (\<lambda>i dp. dp[i * ?c + 0 := (i * cost_gap, ActExtraReference, i - 1, 0)]) [1..<?r] ?d0"
  have one: "?P1 ?r ?d1"
  proof (rule fold_upt_inv [where P = "?P1"])
    have "?d0 ! 0 = (0, ActStart, 0, 0)" by (rule nth_replicate) simp
    then show "?P1 1 ?d0" by (auto simp: good_tab_def good_at_def good_border_cells simp del: replicate.simps)
    fix k and dp :: "cell list"
    assume k: "1 \<le> k" "k < ?r" "?P1 k dp"
    show "?P1 (Suc k) (dp[k * ?c + 0 := (k * cost_gap, ActExtraReference, k - 1, 0)])"
      using k by (intro good_tab_update [OF k(3)] good_border_cells) auto
  qed simp
  let ?P2 = "\<lambda>k. good_tab mt ps rs ({..<?r} \<times> {0} \<union> {0} \<times> {..<k})"
  have "?P2 ?c (fold (\<lambda>j dp. dp[0 * ?c + j := (j * cost_gap, ActExtraPayload, 0, j - 1)]) [1..<?c] ?d1)"
  proof (rule fold_upt_inv [where P = "?P2"])
    show "?P2 1 ?d1" by (rule good_tab_mono [OF one]) auto
    fix k and dp :: "cell list"
    assume k: "1 \<le> k" "k < ?c" "?P2 k dp"
    show "?P2 (Suc k) (dp[0 * ?c + k := (k * cost_gap, ActExtraPayload, 0, k - 1)])"
      using k by (intro good_tab_update [OF k(3)] good_border_cells) auto
  qed simp
  then show ?thesis
    unfolding dp_borders_def Let_def by (rule good_tab_mono) (auto simp: borders_def)
qed

lemma dp_row_good:
  assumes "good_tab mt ps rs (borders (length rs) (length ps) \<union> {..<i} \<times> {..length ps}) dp"
    and "1 \<le> i" "i \<le> length rs"
  shows "good_tab mt ps rs (borders (length rs) (length ps) \<union> {..<Suc i} \<times> {..length ps})
    (dp_row mt ps rs (length ps + 1) i dp)"
proof -
  let ?c = "length ps + 1" and ?S = "borders (length rs) (length ps) \<union> {..<i} \<times> {..length ps}"
  let ?P = "\<lambda>k. good_tab mt ps rs (?S \<union> {i} \<times> {..<k})"
  have "?P ?c (fold (\<lambda>j dp. dp[i * ?c + j := dp_cell mt ps rs ?c dp i j]) [1..<?c] dp)"
  proof (rule fold_upt_inv [where P = "?P"])
    show "?P 1 dp" using assms(3) by (intro good_tab_mono [OF assms(1)]) (auto simp: borders_def)
    fix k and dp :: "cell list"
    assume k: "1 \<le> k" "k < ?c" "?P k dp"
    obtain i' k' where ik: "i = Suc i'" "k = Suc k'" using assms(2) k(1) by (cases i; cases k) auto
    have at: "good_at mt ps rs dp i' k'" "good_at mt ps rs dp i' (Suc k')" "good_at mt ps rs dp (Suc i') k'"
      using k(2,3) ik by (auto simp: good_tab_def)
    have "good_cell mt ps rs i k (dp_cell mt ps rs ?c dp i k)"
      unfolding ik using k(2) ik assms(3) by (intro dp_cell_good at) simp_all
    then show "?P (Suc k) (dp[i * ?c + k := dp_cell mt ps rs ?c dp i k])"
      using k(2) assms(3) by (intro good_tab_update [OF k(3)]) auto
  qed simp
  then show ?thesis
    unfolding dp_row_def by (rule good_tab_mono) auto
qed

lemma dp_table_good:
  assumes "i \<le> length rs" "j \<le> length ps"
  shows "good_at mt ps rs (dp_table mt ps rs) i j"
proof -
  let ?P = "\<lambda>k. good_tab mt ps rs (borders (length rs) (length ps) \<union> {..<k} \<times> {..length ps})"
  have tab: "?P (length rs + 1) (fold (dp_row mt ps rs (length ps + 1)) [1..<length rs + 1]
      (dp_borders (length rs + 1) (length ps + 1)))"
  proof (rule fold_upt_inv [where P = "?P"])
    show "?P 1 (dp_borders (length rs + 1) (length ps + 1))"
      by (rule good_tab_mono [OF dp_borders_good]) (auto simp: borders_def)
    fix k dp
    assume "1 \<le> k" "k < length rs + 1" "?P k dp"
    then show "?P (Suc k) (dp_row mt ps rs (length ps + 1) k dp)" by (intro dp_row_good) simp_all
  qed simp
  have "(i, j) \<in> borders (length rs) (length ps) \<union> {..<length rs + 1} \<times> {..length ps}"
    using assms by simp
  with tab show ?thesis unfolding dp_table_def Let_def good_tab_def by blast
qed

section \<open>The traceback\<close>

lemma aligns_snoc:
  assumes "aligns mt key p r po ro res"
  shows "mt x y \<Longrightarrow> aligns mt key (p @ [y]) (r @ [x]) po ro (res @ [AlMatch (key x) (po + length p) (ro + length r)])"
    and "aligns mt key (p @ [y]) r po ro (res @ [ExtraPayload (key y) (po + length p)])"
    and "aligns mt key p (r @ [x]) po ro (res @ [ExtraReference (key x) (ro + length r)])"
    and "aligns mt key (p @ [y]) (r @ [x]) po ro
      (res @ [ExtraReference (key x) (ro + length r), ExtraPayload (key y) (po + length p)])"
proof -
  show "mt x y \<Longrightarrow> aligns mt key (p @ [y]) (r @ [x]) po ro (res @ [AlMatch (key x) (po + length p) (ro + length r)])"
    by (intro aligns_append [OF assms] al_match al_nil)
  show "aligns mt key (p @ [y]) r po ro (res @ [ExtraPayload (key y) (po + length p)])"
    using aligns_append [OF assms al_payload [OF al_nil], of y] by simp
  show "aligns mt key p (r @ [x]) po ro (res @ [ExtraReference (key x) (ro + length r)])"
    using aligns_append [OF assms al_reference [OF al_nil], of x] by simp
  show "aligns mt key (p @ [y]) (r @ [x]) po ro
      (res @ [ExtraReference (key x) (ro + length r), ExtraPayload (key y) (po + length p)])"
    using aligns_append [OF assms al_reference [OF al_payload [OF al_nil]], of y x] by simp
qed

lemma traceback_aligns:
  assumes "i \<le> length rs" "j \<le> length ps" "i + j \<le> fuel"
  shows "\<exists>out res. traceback fuel (trace_emit key ps rs po ro) (length ps + 1)
      (dp_table mt ps rs) i j acc = Some out \<and> rev out = res @ rev acc \<and>
      aligns mt key (take j ps) (take i rs) po ro res \<and> cost res = edit_cost mt (take i rs) (take j ps)"
  using assms
proof (induction fuel arbitrary: i j acc)
  case 0
  then show ?case by (auto intro: aligns.intros)
next
  case (Suc fuel)
  show ?case
  proof (cases "i > 0 \<or> j > 0")
    case False
    then show ?thesis by (auto intro: aligns.intros)
  next
    case True
    obtain c a qi qj where cell: "dp_table mt ps rs ! (i * (length ps + 1) + j) = (c, a, qi, qj)"
      by (cases "dp_table mt ps rs ! (i * (length ps + 1) + j)") auto
    have good: "good_cell mt ps rs i j (c, a, qi, qj)"
      using dp_table_good [OF Suc.prems(1,2), of mt] cell by (simp add: good_at_def)
    with True have a: "a \<noteq> ActStart" by (auto simp: good_cell_def)
    have less: "qi \<le> length rs" "qj \<le> length ps" "qi + qj \<le> fuel"
      using good a Suc.prems by (cases a; auto simp: good_cell_def)+
    let ?emit = "trace_emit key ps rs po ro a qi qj"
    from Suc.IH [OF less, of "acc @ ?emit"] obtain out res where
      IH: "traceback fuel (trace_emit key ps rs po ro) (length ps + 1) (dp_table mt ps rs) qi qj
          (acc @ ?emit) = Some out" "rev out = res @ rev ?emit @ rev acc"
        "aligns mt key (take qj ps) (take qi rs) po ro res"
        "cost res = edit_cost mt (take qi rs) (take qj ps)"
      by auto
    have step: "traceback (Suc fuel) (trace_emit key ps rs po ro) (length ps + 1)
        (dp_table mt ps rs) i j acc = Some out"
      using True a cell IH(1) by simp
    have "aligns mt key (take j ps) (take i rs) po ro (res @ rev ?emit) \<and>
        cost (res @ rev ?emit) = edit_cost mt (take i rs) (take j ps)"
    proof -
      note snoc = aligns_snoc [OF IH(3)]
      have len: "length (take qj ps) = qj" "length (take qi rs) = qi" using less by simp_all
      have px: "take (Suc qj) ps = take qj ps @ [ps ! qj]" if "j = Suc qj"
        using that Suc.prems(2) by (simp add: take_Suc_conv_app_nth)
      have rx: "take (Suc qi) rs = take qi rs @ [rs ! qi]" if "i = Suc qi"
        using that Suc.prems(1) by (simp add: take_Suc_conv_app_nth)
      have c: "c = edit_cost mt (take i rs) (take j ps)" using good by (simp add: good_cell_def)
      have "cost (res @ rev ?emit) = c"
        using good a IH(4) by (cases a) (auto simp: good_cell_def trace_emit_def Let_def)
      moreover have "aligns mt key (take j ps) (take i rs) po ro (res @ rev ?emit)"
        using good a px rx snoc unfolding len
        by (cases a) (simp_all add: good_cell_def trace_emit_def Let_def)
      ultimately show ?thesis using c by simp
    qed
    with step IH(2) show ?thesis by (intro exI [of _ out] exI [of _ "res @ rev ?emit"]) simp
  qed
qed

text \<open>An alignment of least cost, or at least a sound one, at the given offsets.\<close>

definition optimal ::
  "('a \<Rightarrow> 'a \<Rightarrow> bool) \<Rightarrow> ('a \<Rightarrow> rstr) \<Rightarrow> 'a list \<Rightarrow> 'a list \<Rightarrow> nat \<Rightarrow> nat \<Rightarrow> AlignResult list option \<Rightarrow> bool"
where
  "optimal mt key p r po ro out \<longleftrightarrow>
     (\<exists>res. out = Some res \<and> aligns mt key p r po ro res \<and> cost res = edit_cost mt r p)"

lemma align_small_optimal: "optimal mt key ps rs po ro (align_small mt key ps rs po ro)"
  using traceback_aligns [of "length rs" rs "length ps" ps "length rs + length ps" key po ro mt "[]"]
  by (auto simp: optimal_def align_small_def)

section \<open>The split\<close>

lemma best_split_least:
  assumes "\<And>k. k \<in> set ks \<Longrightarrow> sl ! k + sr ! (n - k) = f k"
    and "case fst bs of None \<Rightarrow> ks \<noteq> [] | Some b \<Rightarrow> b = f (snd bs)"
  shows "(\<forall>k \<in> set ks. f (snd (best_split sl sr n ks bs)) \<le> f k) \<and>
    (fst bs \<noteq> None \<longrightarrow> f (snd (best_split sl sr n ks bs)) \<le> f (snd bs)) \<and>
    (snd (best_split sl sr n ks bs) \<in> set ks \<or> fst bs \<noteq> None \<and> snd (best_split sl sr n ks bs) = snd bs)"
  using assms
proof (induction ks arbitrary: bs)
  case Nil
  then show ?case by (auto split: option.splits)
next
  case (Cons k ks)
  let ?bs = "if (case fst bs of None \<Rightarrow> True | Some best \<Rightarrow> f k < best) then (Some (f k), k) else bs"
  have eq: "best_split sl sr n (k # ks) bs = best_split sl sr n ks ?bs"
    using Cons.prems(1) [of k] by (simp add: Let_def)
  have some: "case fst ?bs of None \<Rightarrow> ks \<noteq> [] | Some b \<Rightarrow> b = f (snd ?bs)"
    using Cons.prems(2) by (auto split: option.splits if_splits)
  have IH: "(\<forall>k \<in> set ks. f (snd (best_split sl sr n ks ?bs)) \<le> f k) \<and>
    (fst ?bs \<noteq> None \<longrightarrow> f (snd (best_split sl sr n ks ?bs)) \<le> f (snd ?bs)) \<and>
    (snd (best_split sl sr n ks ?bs) \<in> set ks \<or>
      fst ?bs \<noteq> None \<and> snd (best_split sl sr n ks ?bs) = snd ?bs)"
    using Cons.prems(1) some by (intro Cons.IH) auto
  have now: "fst ?bs \<noteq> None" "f (snd ?bs) \<le> f k" "fst bs \<noteq> None \<longrightarrow> f (snd ?bs) \<le> f (snd bs)"
    "snd ?bs = k \<or> fst bs \<noteq> None \<and> snd ?bs = snd bs"
    using Cons.prems(2) by (auto split: option.splits)
  let ?x = "snd (best_split sl sr n ks ?bs)"
  have x: "f ?x \<le> f (snd ?bs)" using IH now(1) by blast
  then have "f ?x \<le> f k" "fst bs \<noteq> None \<longrightarrow> f ?x \<le> f (snd bs)"
    using now(2,3) order_trans by blast+
  moreover have "?x \<in> set (k # ks) \<or> fst bs \<noteq> None \<and> ?x = snd bs"
    using IH now(4) by (metis list.set_intros)
  ultimately show ?case unfolding eq using IH by simp
qed

lemma split_at_optimal:
  "split_at mt l r ps \<le> length ps \<and>
   edit_cost mt (l @ r) ps =
     edit_cost mt l (take (split_at mt l r ps) ps) + edit_cost mt r (drop (split_at mt l r ps) ps)"
proof -
  let ?f = "\<lambda>k. edit_cost mt l (take k ps) + edit_cost mt r (drop k ps)"
  let ?s = "split_at mt l r ps"
  have "row_costs mt l ps ! k + row_costs_rev mt r ps ! (length ps - k) = ?f k"
    if "k \<in> set [0..<length ps + 1]" for k
    using that row_costs_cost [of mt l ps] row_costs_rev_nth [of k ps mt r]
    by (simp add: cost_row_def del: upt_Suc)
  then have least: "\<forall>k \<in> set [0..<length ps + 1]. ?f ?s \<le> ?f k" "?s \<in> set [0..<length ps + 1]"
    using best_split_least [of "[0..<length ps + 1]" "row_costs mt l ps" "row_costs_rev mt r ps"
        "length ps" ?f "(None, 0)"]
    by (simp_all add: split_at_def del: upt_Suc)
  obtain k where "k \<le> length ps" "edit_cost mt (l @ r) ps = ?f k" using ecost_split by blast
  then have "?f ?s \<le> edit_cost mt (l @ r) ps" using least(1) by auto
  moreover have "edit_cost mt (l @ r) ps \<le> ?f ?s"
    using ecost_append_le [of mt l r "take ?s ps" "drop ?s ps"] by simp
  ultimately show ?thesis using least(2) by auto
qed

section \<open>The whole aligner\<close>

lemma hirschberg_optimal: "optimal mt key ps rs po ro (hirschberg mt key ps rs po ro)"
proof (induction mt key ps rs po ro rule: hirschberg.induct)
  case (1 mt key ps rs po ro)
  note IH = "1.IH"
  consider "rs = []" | "rs \<noteq> []" "ps = []"
    | "rs \<noteq> []" "ps \<noteq> []" "length rs \<le> 1 \<or> length ps \<le> 1 \<or> length rs * length ps \<le> small_cutoff"
    | "rs \<noteq> []" "ps \<noteq> []" "\<not> (length rs \<le> 1 \<or> length ps \<le> 1 \<or> length rs * length ps \<le> small_cutoff)"
    by blast
  then show ?case
  proof cases
    case 1
    have "cost (map (\<lambda>(i, k). ExtraPayload (key k) (po + i)) (enumerate 0 ps)) = length ps"
      by (simp add: cost_def filter_map comp_def case_prod_beta)
    with 1 show ?thesis
      using aligns_payload_only [of mt key ps po ro] by (simp add: hirschberg.simps optimal_def)
  next
    case 2
    have "cost (map (\<lambda>(i, k). ExtraReference (key k) (ro + i)) (enumerate 0 rs)) = length rs"
      by (simp add: cost_def filter_map comp_def case_prod_beta)
    with 2 show ?thesis
      using aligns_reference_only [of mt key rs po ro] by (simp add: hirschberg.simps optimal_def)
  next
    case 3
    then have "hirschberg mt key ps rs po ro = align_small mt key ps rs po ro"
      by (subst hirschberg.simps) simp
    then show ?thesis by (simp add: align_small_optimal)
  next
    case 4
    let ?mid = "length rs div 2"
    let ?l = "take ?mid rs" and ?r = "drop ?mid rs"
    let ?s = "split_at mt ?l ?r ps"
    have s: "?s \<le> length ps" "edit_cost mt rs ps =
        edit_cost mt ?l (take ?s ps) + edit_cost mt ?r (drop ?s ps)"
      using split_at_optimal [of mt ?l ?r ps] by simp_all
    have "optimal mt key (take ?s ps) ?l po ro (hirschberg mt key (take ?s ps) ?l po ro)"
      using 4 by (intro IH(1)) simp_all
    then obtain a where a: "hirschberg mt key (take ?s ps) ?l po ro = Some a"
      "aligns mt key (take ?s ps) ?l po ro a" "cost a = edit_cost mt ?l (take ?s ps)"
      by (auto simp: optimal_def)
    have "optimal mt key (drop ?s ps) ?r (po + ?s) (ro + ?mid)
        (hirschberg mt key (drop ?s ps) ?r (po + ?s) (ro + ?mid))"
      using 4 a(1) by (intro IH(2)) simp_all
    then obtain b where b: "hirschberg mt key (drop ?s ps) ?r (po + ?s) (ro + ?mid) = Some b"
      "aligns mt key (drop ?s ps) ?r (po + ?s) (ro + ?mid) b"
      "cost b = edit_cost mt ?r (drop ?s ps)"
      by (auto simp: optimal_def)
    have "hirschberg mt key ps rs po ro = Some (a @ b)"
      using 4 a(1) b(1) by (subst hirschberg.simps) (simp add: Let_def)
    moreover have "aligns mt key ps rs po ro (a @ b)"
      using aligns_append [OF a(2), of "drop ?s ps" ?r b] b(2) s(1) by simp
    ultimately show ?thesis using a(3) b(3) s(2) by (simp add: optimal_def)
  qed
qed

text \<open>
  Stripping: a common prefix, or suffix, costs nothing, because pairing a matching first pair is
  never worse. The code compares there with the arguments the other way round.
\<close>

lemma prefix_steps:
  assumes "\<And>p r. mt p r \<Longrightarrow> mt' r p" and "n = common_prefix_len mt ps rs"
  shows "n \<le> length ps" "n \<le> length rs"
    and "aligns mt' key (take n ps) (take n rs) po po
      (map (\<lambda>(i, r). AlMatch (key r) (po + i) (po + i)) (take n (enumerate 0 rs)))"
    and "edit_cost mt' rs ps = edit_cost mt' (drop n rs) (drop n ps)"
proof -
  have all: "common_prefix_len mt ps rs \<le> length ps \<and> common_prefix_len mt ps rs \<le> length rs \<and>
    aligns mt' key (take (common_prefix_len mt ps rs) ps) (take (common_prefix_len mt ps rs) rs) (po + m) (po + m)
      (map (\<lambda>(i, r). AlMatch (key r) (po + i) (po + i)) (take (common_prefix_len mt ps rs) (enumerate m rs))) \<and>
    edit_cost mt' rs ps = edit_cost mt' (drop (common_prefix_len mt ps rs) rs) (drop (common_prefix_len mt ps rs) ps)"
    for m
  proof (induction ps arbitrary: rs m)
    case Nil
    then show ?case by (simp add: common_prefix_len_def al_nil)
  next
    case (Cons p ps)
    show ?case
    proof (cases rs)
      case Nil
      then show ?thesis by (simp add: common_prefix_len_def al_nil)
    next
      case (Cons r rs')
      show ?thesis
      proof (cases "mt p r")
        case True
        then have "common_prefix_len mt (p # ps) rs = Suc (common_prefix_len mt ps rs')"
          by (simp add: common_prefix_len_def Cons)
        moreover have "mt' r p" using True by (rule assms(1))
        ultimately show ?thesis
          using Cons.IH [of rs' "Suc m"] ecost_match_first [of mt' r p rs' ps]
          by (simp add: Cons al_match)
      next
        case False
        then have "common_prefix_len mt (p # ps) rs = 0" by (simp add: common_prefix_len_def Cons)
        then show ?thesis by (simp add: al_nil)
      qed
    qed
  qed
  show "n \<le> length ps" "n \<le> length rs"
    "aligns mt' key (take n ps) (take n rs) po po
      (map (\<lambda>(i, r). AlMatch (key r) (po + i) (po + i)) (take n (enumerate 0 rs)))"
    "edit_cost mt' rs ps = edit_cost mt' (drop n rs) (drop n ps)"
    using all [of 0] assms(2) by simp_all
qed

lemma common_prefix_matches:
  "i < common_prefix_len mt xs ys \<Longrightarrow> mt (xs ! i) (ys ! i)"
proof (induction xs arbitrary: ys i)
  case (Cons x xs)
  then show ?case
    by (cases ys; cases i) (auto simp: common_prefix_len_def split: if_splits)
qed (simp add: common_prefix_len_def)

lemma aligns_pairs:
  assumes "length xs = n" "length ys = n" "\<And>i. i < n \<Longrightarrow> mt (xs ! i) (ys ! i)"
  shows "aligns mt key ys xs po ro (map (\<lambda>i. AlMatch (key (xs ! i)) (po + i) (ro + i)) [0..<n])"
  using assms
proof (induction n arbitrary: xs ys po ro)
  case (Suc n)
  then obtain x xs' y ys' where xy: "xs = x # xs'" "ys = y # ys'" by (cases xs; cases ys) auto
  have "aligns mt key ys' xs' (Suc po) (Suc ro)
      (map (\<lambda>i. AlMatch (key (xs' ! i)) (Suc po + i) (Suc ro + i)) [0..<n])"
    using Suc.prems xy Suc.prems(3) [of "Suc _"] by (intro Suc.IH) auto
  moreover have "mt x y" using Suc.prems(3) [of 0] xy by simp
  ultimately show ?case
    by (simp add: xy upt_conv_Cons map_Suc_upt [symmetric] comp_def al_match del: upt_Suc)
qed (simp add: al_nil)

lemma suffix_steps:
  assumes "\<And>p r. mt p r \<Longrightarrow> mt' r p" and "n = common_prefix_len mt (rev ps) (rev rs)"
  shows "n \<le> length ps" "n \<le> length rs"
    and "aligns mt' key (drop (length ps - n) ps) (drop (length rs - n) rs) po ro
      (map (\<lambda>i. AlMatch (key (rs ! (length rs - n + i))) (po + i) (ro + i)) [0..<n])"
    and "edit_cost mt' rs ps = edit_cost mt' (take (length rs - n) rs) (take (length ps - n) ps)"
proof -
  note steps = prefix_steps [where mt = mt and mt' = mt' and ps = "rev ps" and rs = "rev rs" and n = n, OF assms]
  show le: "n \<le> length ps" "n \<le> length rs" using steps(1,2) by simp_all
  have "mt' (rs ! (length rs - n + i)) (ps ! (length ps - n + i))" if "i < n" for i
  proof -
    have "mt (rev ps ! (n - 1 - i)) (rev rs ! (n - 1 - i))"
      using common_prefix_matches [of "n - 1 - i" mt "rev ps" "rev rs"] that assms(2) by simp
    moreover have "rev ps ! (n - 1 - i) = ps ! (length ps - n + i)"
      "rev rs ! (n - 1 - i) = rs ! (length rs - n + i)"
      using that le by (simp_all add: rev_nth)
    ultimately show ?thesis using assms(1) by simp
  qed
  then show "aligns mt' key (drop (length ps - n) ps) (drop (length rs - n) rs) po ro
      (map (\<lambda>i. AlMatch (key (rs ! (length rs - n + i))) (po + i) (ro + i)) [0..<n])"
    using aligns_pairs [of "drop (length rs - n) rs" n "drop (length ps - n) ps" mt' key po ro] le
    by simp
  show "edit_cost mt' rs ps = edit_cost mt' (take (length rs - n) rs) (take (length ps - n) ps)"
    using steps(4) ecost_rev [of mt' rs ps] ecost_rev [of mt' "take (length rs - n) rs" "take (length ps - n) ps"]
    by (simp add: drop_rev)
qed

lemma aligns_mono:
  "aligns mt key p r po ro res \<Longrightarrow> (\<And>x y. mt x y \<Longrightarrow> mt' x y) \<Longrightarrow> aligns mt' key p r po ro res"
  by (induction rule: aligns.induct) (auto intro: aligns.intros)

lemma align_generic_result:
  assumes "\<And>p r. mt p r \<Longrightarrow> mt' r p" and "\<And>r p. mt r p \<Longrightarrow> mt' r p"
  shows "\<exists>res. align_generic mt key ps rs = Some res \<and> aligns mt' key ps rs 0 0 res \<and>
    (mt' = mt \<longrightarrow> cost res = edit_cost mt rs ps)"
proof -
  let ?n = "common_prefix_len mt ps rs"
  let ?m = "common_prefix_len mt (rev (drop ?n ps)) (rev (drop ?n rs))"
  let ?lp = "length ps - ?m" and ?lr = "length rs - ?m"
  let ?mp = "drop ?n (take ?lp ps)" and ?mr = "drop ?n (take ?lr rs)"
  note pre = prefix_steps [where mt = mt and mt' = mt' and ps = ps and rs = rs and n = ?n, OF assms(1) refl]
  note suf = suffix_steps [where mt = mt and mt' = mt' and ps = "drop ?n ps" and rs = "drop ?n rs"
      and n = ?m, OF assms(1) refl]
  have lens: "?n + ?m \<le> length ps" "?n + ?m \<le> length rs" using suf(1,2) pre(1,2) by simp_all
  obtain mid where mid: "hirschberg mt key ?mp ?mr ?n ?n = Some mid"
    "aligns mt key ?mp ?mr ?n ?n mid" "cost mid = edit_cost mt ?mr ?mp"
    using hirschberg_optimal [of mt key ?mp ?mr ?n ?n] by (auto simp: optimal_def)
  let ?pre = "map (\<lambda>(i, r). AlMatch (key r) i i) (take ?n (enumerate 0 rs))"
  let ?suf = "map (\<lambda>i. AlMatch (key (rs ! (?lr + i))) (?lp + i) (?lr + i)) [0..<?m]"
  have res: "align_generic mt key ps rs = Some (?pre @ mid @ ?suf)"
    using mid(1) by (simp add: align_generic_def Let_def)
  have "aligns mt' key (take ?n ps) (take ?n rs) 0 0 ?pre" using pre(3) [of key 0] by simp
  moreover have "aligns mt' key ?mp ?mr ?n ?n mid" by (rule aligns_mono [OF mid(2) assms(2)])
  moreover have "aligns mt' key (drop ?lp ps) (drop ?lr rs) ?lp ?lr ?suf"
    using suf(3) [of key ?lp ?lr] lens by (simp add: add.commute add.left_commute)
  ultimately have al: "aligns mt' key (take ?n ps @ ?mp @ drop ?lp ps) (take ?n rs @ ?mr @ drop ?lr rs)
      0 0 (?pre @ mid @ ?suf)"
    using lens pre(1,2) by (intro aligns_append) simp_all
  have whole: "take ?n ps @ ?mp @ drop ?lp ps = ps" "take ?n rs @ ?mr @ drop ?lr rs = rs"
    using lens by (metis append_assoc append_take_drop_id drop_take le_add_diff_inverse take_add
        diff_le_mono2 le_add1 add_le_imp_le_diff)+
  have "cost (?pre @ mid @ ?suf) = edit_cost mt rs ps" if "mt' = mt"
  proof -
    have "cost ?pre = 0" "cost ?suf = 0" by (simp_all add: cost_def filter_map comp_def case_prod_beta)
    moreover have "edit_cost mt rs ps = edit_cost mt ?mr ?mp"
      using pre(4) suf(4) that lens by (simp add: drop_take add.commute)
    ultimately show ?thesis using mid(3) by simp
  qed
  with res al show ?thesis unfolding whole by blast
qed

section \<open>The interface\<close>

locale alignable =
  fixes matches :: "'a \<Rightarrow> 'a \<Rightarrow> bool"
    and to_key :: "'a \<Rightarrow> rstr"
  assumes matches_sym: "matches x y \<Longrightarrow> matches y x"
begin

lemma aligner_optimal:
  "\<exists>res. align_generic matches to_key ps rs = Some res \<and> aligns matches to_key ps rs 0 0 res \<and>
    (\<forall>res'. aligns matches to_key ps rs 0 0 res' \<longrightarrow> cost res \<le> cost res')"
proof -
  obtain res where "align_generic matches to_key ps rs = Some res"
    "aligns matches to_key ps rs 0 0 res" "cost res = edit_cost matches rs ps"
    using align_generic_result [of matches matches to_key ps rs] matches_sym by blast
  then show ?thesis using ecost_least [OF aligns_edits] by metis
qed

lemma aligner_identity: "align_generic matches to_key ps ps = Some res \<Longrightarrow>
  (\<And>x. matches x x) \<Longrightarrow> cost res = 0"
proof -
  assume res: "align_generic matches to_key ps ps = Some res" and refl: "\<And>x. matches x x"
  have "edits matches ps ps 0" by (induction ps) (auto intro: edits.intros refl)
  then have "edit_cost matches ps ps \<le> 0" by (rule ecost_least)
  then show "cost res = 0"
    using align_generic_result [of matches matches to_key ps ps] matches_sym res by auto
qed

end

interpretation string_exact: alignable "string_matches lower jaro_winkler MmExact" string_key
  by unfold_locales (simp add: string_matches_def)

interpretation string_ci: alignable "string_matches lower jaro_winkler MmCaseInsensitive" string_key
  by unfold_locales (simp add: string_matches_def eq_ignore_ascii_case_def)

interpretation char_elem: alignable "char_matches mode" char_key
  by unfold_locales (auto simp: char_matches_def split: MatchMode.splits)

section \<open>Properties\<close>

text \<open>The payload and reference positions of a list of results, in order.\<close>

fun payload_positions :: "AlignResult list \<Rightarrow> nat list" where
  "payload_positions [] = []"
| "payload_positions (AlMatch k i j # res) = i # payload_positions res"
| "payload_positions (ExtraPayload k i # res) = i # payload_positions res"
| "payload_positions (ExtraReference k j # res) = payload_positions res"

fun reference_positions :: "AlignResult list \<Rightarrow> nat list" where
  "reference_positions [] = []"
| "reference_positions (AlMatch k i j # res) = j # reference_positions res"
| "reference_positions (ExtraPayload k i # res) = reference_positions res"
| "reference_positions (ExtraReference k j # res) = j # reference_positions res"

lemma aligns_positions:
  "aligns mt key p r po ro res \<Longrightarrow>
    payload_positions res = [po..<po + length p] \<and> reference_positions res = [ro..<ro + length r]"
  by (induction rule: aligns.induct) (simp_all add: upt_conv_Cons del: upt_Suc)

text \<open>
  The word aligner is total and loses nothing, in every mode and for every similarity measure:
  it returns, and its results name every position of the payload and every position of the
  reference exactly once, in order.
\<close>

theorem align_covers:
  "\<exists>res. align lower jaro_winkler payload reference mode = Some res \<and>
    payload_positions res = [0..<length payload] \<and> reference_positions res = [0..<length reference]"
proof -
  let ?m = "string_matches lower jaro_winkler mode"
  obtain res where "align lower jaro_winkler payload reference mode = Some res"
    "aligns (\<lambda>x y. ?m x y \<or> ?m y x) string_key payload reference 0 0 res"
    using align_generic_result [of ?m "\<lambda>x y. ?m x y \<or> ?m y x" string_key payload reference]
    unfolding align_def by blast
  then show ?thesis using aligns_positions by fastforce
qed

text \<open>
  C31: the word aligner is optimal. In the exact and the case-insensitive mode its result is an
  alignment in the sense of the pairing relation, and no alignment of the two sequences leaves
  fewer words unpaired, however large the sequences and wherever Hirschberg's method splits them.
\<close>

theorem align_optimal:
  assumes "mode = MmExact \<or> mode = MmCaseInsensitive"
  shows "\<exists>res. align lower jaro_winkler payload reference mode = Some res \<and>
    aligns (string_matches lower jaro_winkler mode) string_key payload reference 0 0 res \<and>
    (\<forall>res'. aligns (string_matches lower jaro_winkler mode) string_key payload reference 0 0 res' \<longrightarrow>
       cost res \<le> cost res')"
  using assms string_exact.aligner_optimal string_ci.aligner_optimal unfolding align_def by blast

lemma align_optimal_witness:
  "\<exists>res. align id (\<lambda>_ _. 0) [[97], [98]] [[98]] MmExact = Some res \<and> cost res \<le> 1"
proof -
  have "aligns (string_matches id (\<lambda>_ _. 0) MmExact) string_key [[97], [98]] [[98]] 0 0
      [ExtraPayload (string_key [97]) 0, AlMatch (string_key [98]) (Suc 0) 0]"
    by (intro al_payload al_match al_nil) (simp add: string_matches_def)
  then show ?thesis
    using align_optimal [of MmExact id "\<lambda>_ _. 0" "[[97], [98]]" "[[98]]"] by fastforce
qed

text \<open>The character aligner is optimal in every mode.\<close>

theorem align_chars_optimal:
  "\<exists>res. align_chars payload reference mode = Some res \<and>
    aligns (char_matches mode) char_key payload reference 0 0 res \<and>
    (\<forall>res'. aligns (char_matches mode) char_key payload reference 0 0 res' \<longrightarrow> cost res \<le> cost res')"
  unfolding align_chars_def by (rule char_elem.aligner_optimal)

lemma align_chars_optimal_witness:
  "\<exists>res. align_chars [97, 98] [66] MmCaseInsensitive = Some res \<and> cost res \<le> 1"
proof -
  have "aligns (char_matches MmCaseInsensitive) char_key [97, 98] [66] 0 0
      [ExtraPayload (char_key 97) 0, AlMatch (char_key 66) (Suc 0) 0]"
    by (intro al_payload al_match al_nil) (simp add: char_matches_def ascii_lower_def)
  then show ?thesis using align_chars_optimal [of "[97, 98]" "[66]" MmCaseInsensitive] by fastforce
qed

text \<open>
  C32: dividing is as good as the full table. For any comparison, the divide-and-conquer aligner
  and the flat-table aligner both return an alignment of the same two sequences, with the same
  number of unpaired elements.
\<close>

theorem hirschberg_equals_table:
  "\<exists>a b. hirschberg mt key payload reference po ro = Some a \<and>
    align_small mt key payload reference po ro = Some b \<and>
    aligns mt key payload reference po ro a \<and> aligns mt key payload reference po ro b \<and>
    cost a = cost b"
  using hirschberg_optimal [of mt key payload reference po ro]
    align_small_optimal [of mt key payload reference po ro] by (auto simp: optimal_def)

end
