(* ===== verification/Wer.thy ===== *)
theory Wer
  imports Align_Correct
begin

text \<open>
  The word error rate of a benchmark (\<open>chat-ops/wer_conform.rs\<close>, \<open>chat-ops/benchmark.rs\<close>):
  both word lists are conformed by a chain of rules, normalized and aligned exactly, and the
  results are counted by a small state machine. The embedded data files (compounds, names,
  abbreviations) and the Unicode lower-casing are parameters; the rate, an \<open>f64\<close> in the code,
  is a rational.
\<close>

section \<open>Conforming words\<close>

record ConformData =
  cd_lower :: "rstr \<Rightarrow> rstr"
  cd_compounds :: "(rstr \<times> rstr) list"
  cd_names :: "rstr \<Rightarrow> bool"
  cd_abbrev :: "rstr \<Rightarrow> bool"

text \<open>Collected into a \<open>HashMap\<close> by the joined word: a later pair replaces an earlier one.\<close>

definition compound_map :: "(rstr \<times> rstr) list \<Rightarrow> rstr \<Rightarrow> (rstr \<times> rstr) option" where
  "compound_map pairs = map_of (rev (map (\<lambda>(a, b). (a @ b, (a, b))) pairs))"

definition fillers :: "rstr list" where
  "fillers = map lit [''um'', ''uhm'', ''em'', ''mhm'', ''uhhm'', ''eh'', ''uh'', ''hm'']"

abbreviation apostrophe :: rchar where "apostrophe \<equiv> 39"

definition before_apostrophe :: "rstr \<Rightarrow> rstr" where
  "before_apostrophe w = hd (split_char apostrophe w)"

definition conform_special :: "rstr \<Rightarrow> rstr list" where
  "conform_special w =
     (if w = lit ''dunno'' then [lit ''don'' @ [apostrophe] @ lit ''t'', lit ''know'']
      else if w = lit ''wanna'' then [lit ''want'', lit ''to'']
      else if w = lit ''gonna'' then [lit ''going'', lit ''to'']
      else if w = lit ''gotta'' then [lit ''got'', lit ''to'']
      else if w = lit ''kinda'' then [lit ''kind'', lit ''of'']
      else if w = lit ''sorta'' then [lit ''sort'', lit ''of'']
      else if w = lit ''shoulda'' then [lit ''should'', lit ''have'']
      else if w = lit ''sposta'' then [lit ''supposed'', lit ''to'']
      else if w = lit ''hadta'' then [lit ''had'', lit ''to'']
      else if w = lit ''alright'' \<or> w = lit ''alrightie'' then [lit ''all'', lit ''right'']
      else if w = lit ''i'' @ [apostrophe] @ lit ''d'' then [lit ''i'', lit ''had'']
      else if w = lit ''this'' @ [apostrophe] @ lit ''ll'' then [lit ''this'', lit ''will'']
      else if w = lit ''farmhouse'' then [lit ''farm'', lit ''house'']
      else if w = lit ''mm'' \<or> w = lit ''hmm'' then [lit ''hm'']
      else if w = lit ''em'' then [lit ''them'']
      else if w = lit ''eh'' then [lit ''uh'']
      else if w = lit ''til'' then [lit ''until'']
      else if w = lit ''ed'' then [lit ''education'']
      else if w \<in> set (map lit [''mba'', ''tli'', ''bbc'', ''ai'', ''aa'', ''ii'']) then map (\<lambda>c. [c]) w
      else if 95 \<in> set w then split_char 95 w
      else [w])"

definition conform_word :: "ConformData \<Rightarrow> rstr \<Rightarrow> rstr list" where
  "conform_word cd word =
     (let trimmed = trim word; w = cd_lower cd trimmed
      in case compound_map (cd_compounds cd) w of
           Some (a, b) \<Rightarrow> [a, b]
         | None \<Rightarrow>
             (if cd_abbrev cd trimmed then map (\<lambda>c. [c]) trimmed
              else if contains w (apostrophe # lit ''s'') then [before_apostrophe w, lit ''is'']
              else if contains w (apostrophe # lit ''ve'') then [before_apostrophe w, lit ''have'']
              else if contains w (apostrophe # lit ''d'') then [before_apostrophe w, lit ''had'']
              else if contains w (apostrophe # lit ''m'') then [before_apostrophe w, lit ''am'']
              else if w \<in> set fillers then [lit ''um'']
              else if 45 \<in> set w then map trim (split_char 45 w)
              else if w = lit ''ok'' then [lit ''okay'']
              else if w = lit ''gimme'' then [lit ''give'', lit ''me'']
              else if w = lit ''hafta'' \<or> w = lit ''havta'' then [lit ''have'', lit ''to'']
              else if cd_names cd w then [lit ''name'']
              else conform_special w))"

definition conform_words :: "ConformData \<Rightarrow> rstr list \<Rightarrow> rstr list" where
  "conform_words cd words = concat (map (conform_word cd) words)"

section \<open>Preparing the lists\<close>

definition normalize_wer_word :: "ConformData \<Rightarrow> rstr \<Rightarrow> rstr" where
  "normalize_wer_word cd w = filter (\<lambda>c. c \<notin> {40, 41}) (cd_lower cd w)"

definition remove_dashes :: "rstr list \<Rightarrow> rstr list" where
  "remove_dashes ws = map (filter (\<lambda>c. c \<noteq> 45)) ws"

text \<open>\<open>w.len() == 1\<close> counts bytes, so the letter is an ASCII one.\<close>

definition single_letter :: "rstr \<Rightarrow> bool" where
  "single_letter w \<longleftrightarrow> str_len w = 1 \<and> is_ascii_alphabetic (hd w)"

fun combine_loop :: "rstr list \<Rightarrow> rstr \<Rightarrow> rstr list" where
  "combine_loop [] sticky = (if sticky = [] then [] else [sticky])"
| "combine_loop (w # ws) sticky =
     (if single_letter w then combine_loop ws (sticky @ w)
      else (if sticky = [] then [] else [sticky]) @ w # combine_loop ws [])"

definition combine_single_letters :: "rstr list \<Rightarrow> bool \<Rightarrow> rstr list" where
  "combine_single_letters words is_chinese = (if is_chinese then words else combine_loop words [])"

definition decompose_chars :: "rstr list \<Rightarrow> rstr list" where
  "decompose_chars words = concat (map (map (\<lambda>c. [c])) words)"

section \<open>Counting\<close>

datatype PrevError = PrevExtraReference | PrevExtraPayload

record WerCount =
  wc_sub :: nat
  wc_del :: nat
  wc_ins :: nat
  wc_prev :: "PrevError option"
  wc_cleaned :: "AlignResult list"
  wc_anticipating :: bool

definition wer_start :: WerCount where
  "wer_start = \<lparr>wc_sub = 0, wc_del = 0, wc_ins = 0, wc_prev = None, wc_cleaned = [],
     wc_anticipating = False\<rparr>"

definition name_key :: "rstr \<Rightarrow> bool" where
  "name_key k \<longleftrightarrow> contains k (lit ''name'') \<and> \<not> starts_with k (lit ''name'')"

definition is_extra_payload :: "AlignResult \<Rightarrow> bool" where
  "is_extra_payload a = (case a of ExtraPayload _ _ \<Rightarrow> True | _ \<Rightarrow> False)"

text \<open>One entry; None is the overflow of a decrement below zero.\<close>

definition dec :: "nat \<Rightarrow> nat option" where
  "dec n = (if n = 0 then None else Some (n - 1))"

definition wer_step :: "AlignResult \<Rightarrow> WerCount \<Rightarrow> WerCount option" where
  "wer_step entry s =
     (case entry of
        ExtraReference k j \<Rightarrow>
          (if name_key k
           then (let s = (if wc_cleaned s \<noteq> [] \<and> is_extra_payload (last (wc_cleaned s))
                          then s\<lparr>wc_cleaned := butlast (wc_cleaned s)\<rparr>
                          else s\<lparr>wc_anticipating := True\<rparr>)
                 in Some (s\<lparr>wc_cleaned := wc_cleaned s @ [entry], wc_prev := None\<rparr>))
           else if wc_prev s = Some PrevExtraPayload
           then (case dec (wc_del s) of
                   None \<Rightarrow> None
                 | Some d \<Rightarrow> Some (s\<lparr>wc_sub := wc_sub s + 1, wc_del := d, wc_prev := None,
                               wc_cleaned := wc_cleaned s @ [entry]\<rparr>))
           else Some (s\<lparr>wc_ins := wc_ins s + 1, wc_prev := Some PrevExtraReference,
                        wc_cleaned := wc_cleaned s @ [entry]\<rparr>))
      | ExtraPayload k i \<Rightarrow>
          (if wc_anticipating s then Some (s\<lparr>wc_anticipating := False\<rparr>)
           else if wc_prev s = Some PrevExtraReference
           then (case dec (wc_ins s) of
                   None \<Rightarrow> None
                 | Some n \<Rightarrow> Some (s\<lparr>wc_sub := wc_sub s + 1, wc_ins := n, wc_prev := None,
                               wc_cleaned := wc_cleaned s @ [entry]\<rparr>))
           else Some (s\<lparr>wc_del := wc_del s + 1, wc_prev := Some PrevExtraPayload,
                        wc_cleaned := wc_cleaned s @ [entry]\<rparr>))
      | AlMatch k i j \<Rightarrow> Some (s\<lparr>wc_prev := None, wc_cleaned := wc_cleaned s @ [entry]\<rparr>))"

fun wer_count :: "AlignResult list \<Rightarrow> WerCount \<Rightarrow> WerCount option" where
  "wer_count [] s = Some s"
| "wer_count (a # as) s = (case wer_step a s of None \<Rightarrow> None | Some s' \<Rightarrow> wer_count as s')"

fun diff_line :: "AlignResult \<Rightarrow> rstr" where
  "diff_line (ExtraReference k j) = lit ''+ '' @ k"
| "diff_line (ExtraPayload k i) = lit ''- '' @ k"
| "diff_line (AlMatch k i j) = lit ''  '' @ k"

section \<open>The rate\<close>

record WerResult =
  wr_wer :: rat
  wr_total :: nat
  wr_matches :: nat
  wr_diff :: rstr

text \<open>Steps 1 to 5: the hypothesis and the reference as they are aligned.\<close>

definition wer_prepare ::
  "ConformData \<Rightarrow> rstr list \<Rightarrow> rstr list \<Rightarrow> rstr list \<Rightarrow> rstr list \<times> rstr list" where
  "wer_prepare cd hypothesis reference langs =
     (let is_chinese = (lit ''zho'' \<in> set langs);
          hyp = combine_single_letters (remove_dashes hypothesis) is_chinese;
          refs = remove_dashes reference;
          (hyp_final, ref_final) =
            (if is_chinese then (decompose_chars hyp, decompose_chars refs) else (hyp, refs))
      in (map (normalize_wer_word cd) (conform_words cd hyp_final),
          map (normalize_wer_word cd) (conform_words cd ref_final)))"

definition compute_wer ::
  "ConformData \<Rightarrow> (rstr \<Rightarrow> rstr \<Rightarrow> rat) \<Rightarrow> rstr list \<Rightarrow> rstr list \<Rightarrow> rstr list \<Rightarrow> WerResult option" where
  "compute_wer cd jaro_winkler hypothesis reference langs =
     (if reference = [] then Some \<lparr>wr_wer = 0, wr_total = 0, wr_matches = 0, wr_diff = []\<rparr>
      else
        (let (hyp_normalized, ref_normalized) = wer_prepare cd hypothesis reference langs
         in case align (cd_lower cd) jaro_winkler hyp_normalized ref_normalized MmExact of
              None \<Rightarrow> None
            | Some alignment \<Rightarrow>
                (case wer_count alignment wer_start of
                   None \<Rightarrow> None
                 | Some s \<Rightarrow>
                     (let total_errors = wc_sub s + wc_del s + wc_ins s
                      in Some \<lparr>wr_wer = of_nat total_errors / of_nat (length reference),
                               wr_total = length reference,
                               wr_matches = sat_sub (length reference) total_errors,
                               wr_diff = join_with [10] (map diff_line (wc_cleaned s))\<rparr>))))"

section \<open>What the counting computes\<close>

definition extra_payloads :: "AlignResult list \<Rightarrow> nat" where
  "extra_payloads as = length (filter is_extra_payload as)"

definition is_extra_reference :: "AlignResult \<Rightarrow> bool" where
  "is_extra_reference a = (case a of ExtraReference _ _ \<Rightarrow> True | _ \<Rightarrow> False)"

definition extra_references :: "AlignResult list \<Rightarrow> nat" where
  "extra_references as = length (filter is_extra_reference as)"

lemma cost_extras: "cost as = extra_payloads as + extra_references as"
proof (induction as)
  case (Cons a as)
  then show ?case
    by (cases a) (simp_all add: extra_payloads_def extra_references_def is_extra_payload_def
        is_extra_reference_def)
qed (simp add: extra_payloads_def extra_references_def)

text \<open>No decrement overflows: a pending error has just been counted.\<close>

definition wer_ok :: "WerCount \<Rightarrow> bool" where
  "wer_ok s \<longleftrightarrow> (wc_prev s = Some PrevExtraPayload \<longrightarrow> 0 < wc_del s) \<and>
     (wc_prev s = Some PrevExtraReference \<longrightarrow> 0 < wc_ins s)"

definition no_name_keys :: "AlignResult list \<Rightarrow> bool" where
  "no_name_keys as \<longleftrightarrow> (\<forall>k j. ExtraReference k j \<in> set as \<longrightarrow> \<not> name_key k)"

lemma wer_step_ok:
  assumes "wer_ok s"
  shows "\<exists>s'. wer_step a s = Some s' \<and> wer_ok s' \<and>
    wc_sub s' + wc_del s' \<le> wc_sub s + wc_del s + extra_payloads [a] \<and>
    wc_sub s' + wc_ins s' \<le> wc_sub s + wc_ins s + extra_references [a]"
  using assms
  by (cases a)
    (auto simp: wer_step_def wer_ok_def dec_def Let_def extra_payloads_def extra_references_def
      is_extra_payload_def is_extra_reference_def)

lemma wer_step_exact:
  assumes "wer_ok s" and "no_name_keys [a]" and "\<not> wc_anticipating s"
  shows "\<exists>s'. wer_step a s = Some s' \<and> wer_ok s' \<and> \<not> wc_anticipating s' \<and>
    wc_sub s' + wc_del s' = wc_sub s + wc_del s + extra_payloads [a] \<and>
    wc_sub s' + wc_ins s' = wc_sub s + wc_ins s + extra_references [a] \<and>
    wc_cleaned s' = wc_cleaned s @ [a]"
  using assms
  by (cases a)
    (auto simp: wer_step_def wer_ok_def dec_def Let_def extra_payloads_def extra_references_def
      is_extra_payload_def is_extra_reference_def no_name_keys_def)

lemma extras_Cons:
  "extra_payloads (a # as) = extra_payloads [a] + extra_payloads as"
  "extra_references (a # as) = extra_references [a] + extra_references as"
  by (simp_all add: extra_payloads_def extra_references_def)

lemma wer_count_ok:
  "wer_ok s \<Longrightarrow> \<exists>s'. wer_count as s = Some s' \<and>
    wc_sub s' + wc_del s' \<le> wc_sub s + wc_del s + extra_payloads as \<and>
    wc_sub s' + wc_ins s' \<le> wc_sub s + wc_ins s + extra_references as"
proof (induction as arbitrary: s)
  case (Cons a as)
  obtain t where t: "wer_step a s = Some t" "wer_ok t"
    "wc_sub t + wc_del t \<le> wc_sub s + wc_del s + extra_payloads [a]"
    "wc_sub t + wc_ins t \<le> wc_sub s + wc_ins s + extra_references [a]"
    using wer_step_ok [OF Cons.prems] by blast
  obtain u where "wer_count as t = Some u"
    "wc_sub u + wc_del u \<le> wc_sub t + wc_del t + extra_payloads as"
    "wc_sub u + wc_ins u \<le> wc_sub t + wc_ins t + extra_references as"
    using Cons.IH [OF t(2)] by blast
  with t show ?case using extras_Cons [of a as] by auto
qed simp

lemma wer_count_exact:
  "wer_ok s \<Longrightarrow> no_name_keys as \<Longrightarrow> \<not> wc_anticipating s \<Longrightarrow> \<exists>s'. wer_count as s = Some s' \<and>
    wc_sub s' + wc_del s' = wc_sub s + wc_del s + extra_payloads as \<and>
    wc_sub s' + wc_ins s' = wc_sub s + wc_ins s + extra_references as \<and>
    wc_cleaned s' = wc_cleaned s @ as"
proof (induction as arbitrary: s)
  case (Cons a as)
  have nn: "no_name_keys [a]" "no_name_keys as" using Cons.prems(2) by (auto simp: no_name_keys_def)
  obtain t where t: "wer_step a s = Some t" "wer_ok t" "\<not> wc_anticipating t"
    "wc_sub t + wc_del t = wc_sub s + wc_del s + extra_payloads [a]"
    "wc_sub t + wc_ins t = wc_sub s + wc_ins s + extra_references [a]"
    "wc_cleaned t = wc_cleaned s @ [a]"
    using wer_step_exact [OF Cons.prems(1) nn(1) Cons.prems(3)] by blast
  obtain u where "wer_count as t = Some u"
    "wc_sub u + wc_del u = wc_sub t + wc_del t + extra_payloads as"
    "wc_sub u + wc_ins u = wc_sub t + wc_ins t + extra_references as"
    "wc_cleaned u = wc_cleaned t @ as"
    using Cons.IH [OF t(2) nn(2) t(3)] by blast
  with t show ?case using extras_Cons [of a as] by auto
qed (auto simp: extra_payloads_def extra_references_def)

lemma wer_start_ok: "wer_ok wer_start" "\<not> wc_anticipating wer_start" "wc_sub wer_start = 0"
  "wc_del wer_start = 0" "wc_ins wer_start = 0" "wc_cleaned wer_start = []"
  by (simp_all add: wer_start_def wer_ok_def)

lemma align_exact:
  "\<exists>res. align lower jaro_winkler p r MmExact = Some res \<and>
    aligns (string_matches lower jaro_winkler MmExact) string_key p r 0 0 res \<and>
    cost res = edit_cost (string_matches lower jaro_winkler MmExact) r p"
  using align_generic_result [of "string_matches lower jaro_winkler MmExact"
      "string_matches lower jaro_winkler MmExact" string_key p r]
  unfolding align_def by (auto simp: string_matches_def)

lemma edit_cost_le_lengths: "edit_cost mt r p \<le> length r + length p"
proof (induction mt r p rule: edit_cost.induct)
  case (3 mt x xs y ys)
  then show ?case by (auto simp: min_le_iff_disj)
qed auto

lemma compute_wer_value:
  assumes "reference \<noteq> []" and "wer_prepare cd hypothesis reference langs = (h, r)"
  obtains res s where "align (cd_lower cd) jw h r MmExact = Some res"
    and "wer_count res wer_start = Some s"
    and "aligns (string_matches (cd_lower cd) jw MmExact) string_key h r 0 0 res"
    and "cost res = edit_cost (string_matches (cd_lower cd) jw MmExact) r h"
    and "wc_sub s + wc_del s + wc_ins s \<le> cost res"
    and "compute_wer cd jw hypothesis reference langs =
      Some \<lparr>wr_wer = of_nat (wc_sub s + wc_del s + wc_ins s) / of_nat (length reference),
        wr_total = length reference,
        wr_matches = sat_sub (length reference) (wc_sub s + wc_del s + wc_ins s),
        wr_diff = join_with [10] (map diff_line (wc_cleaned s))\<rparr>"
proof -
  obtain res where res: "align (cd_lower cd) jw h r MmExact = Some res"
    "aligns (string_matches (cd_lower cd) jw MmExact) string_key h r 0 0 res"
    "cost res = edit_cost (string_matches (cd_lower cd) jw MmExact) r h"
    using align_exact by blast
  obtain s where s: "wer_count res wer_start = Some s" "wc_sub s + wc_del s \<le> extra_payloads res"
    "wc_sub s + wc_ins s \<le> extra_references res"
    using wer_count_ok [OF wer_start_ok(1), of res] by (auto simp: wer_start_ok)
  have "wc_sub s + wc_del s + wc_ins s \<le> cost res" using s(2,3) by (simp add: cost_extras)
  with that res s show thesis using assms by (simp add: compute_wer_def Let_def)
qed

section \<open>Properties\<close>

text \<open>
  The error rate is always computed: the counting never decrements below zero. The result
  reports the length of the reference, no more matches than that, and at most as many errors as
  the conformed lists have words.
\<close>

theorem compute_wer_total:
  "\<exists>w. compute_wer cd jw hypothesis reference langs = Some w \<and> wr_total w = length reference \<and>
    wr_matches w \<le> wr_total w \<and> 0 \<le> wr_wer w \<and>
    wr_wer w * of_nat (length reference) \<le>
      of_nat (length (fst (wer_prepare cd hypothesis reference langs)) +
        length (snd (wer_prepare cd hypothesis reference langs)))"
proof (cases "reference = []")
  case True
  then show ?thesis by (simp add: compute_wer_def)
next
  case False
  obtain h r where hr: "wer_prepare cd hypothesis reference langs = (h, r)"
    by (cases "wer_prepare cd hypothesis reference langs")
  show ?thesis
  proof (rule compute_wer_value [OF False hr, of jw])
    fix res s
    assume v: "cost res = edit_cost (string_matches (cd_lower cd) jw MmExact) r h"
      "wc_sub s + wc_del s + wc_ins s \<le> cost res"
      "compute_wer cd jw hypothesis reference langs =
        Some \<lparr>wr_wer = of_nat (wc_sub s + wc_del s + wc_ins s) / of_nat (length reference),
          wr_total = length reference,
          wr_matches = sat_sub (length reference) (wc_sub s + wc_del s + wc_ins s),
          wr_diff = join_with [10] (map diff_line (wc_cleaned s))\<rparr>"
    have "wc_sub s + wc_del s + wc_ins s \<le> length h + length r"
      using v(1,2) edit_cost_le_lengths [of "string_matches (cd_lower cd) jw MmExact" r h] by simp
    then have "(of_nat (wc_sub s + wc_del s + wc_ins s) :: rat) \<le> of_nat (length h + length r)"
      by (rule of_nat_mono)
    then show ?thesis unfolding v(3) using False hr by simp
  qed
qed

text \<open>
  The error count of an alignment without a key of the name heuristic: substitutions and
  deletions are the unpaired words of the hypothesis, substitutions and insertions those of the
  reference, and every entry of the alignment is a line of the diff.
\<close>

theorem wer_count_partitions:
  assumes "no_name_keys as"
  shows "\<exists>s. wer_count as wer_start = Some s \<and> wc_sub s + wc_del s = extra_payloads as \<and>
    wc_sub s + wc_ins s = extra_references as \<and> wc_cleaned s = as"
  using wer_count_exact [OF wer_start_ok(1) assms wer_start_ok(2)] by (simp add: wer_start_ok)

lemma wer_count_partitions_witness:
  "\<exists>s. wer_count [ExtraPayload [97] 0, ExtraReference [98] 0] wer_start = Some s \<and>
    wc_sub s + wc_del s = 1 \<and> wc_sub s + wc_ins s = 1"
proof -
  have "no_name_keys [ExtraPayload [97] 0, ExtraReference [98] 0]"
    by (simp add: no_name_keys_def name_key_def lit_def)
  from wer_count_partitions [OF this] show ?thesis
    by (auto simp: extra_payloads_def extra_references_def is_extra_payload_def
        is_extra_reference_def)
qed

text \<open>Single letters are joined in the hypothesis only; without them the joining is the identity.\<close>

lemma combine_loop_none: "list_all (\<lambda>w. \<not> single_letter w) ws \<Longrightarrow> combine_loop ws [] = ws"
  by (induction ws) auto

lemma edit_cost_self: "(\<And>x. mt x x) \<Longrightarrow> edit_cost mt xs xs = 0"
proof -
  assume refl: "\<And>x. mt x x"
  have "edits mt xs xs 0" by (induction xs) (auto intro: edits.intros refl)
  then show ?thesis using ecost_least by fastforce
qed

text \<open>
  A transcript equal to its reference has error rate 0 and every reference word matched,
  provided the language is Chinese or no word of it is a single letter once dashes are removed.
\<close>

theorem compute_wer_identical:
  assumes "lit ''zho'' \<in> set langs \<or> list_all (\<lambda>w. \<not> single_letter w) (remove_dashes ws)"
  shows "\<exists>w. compute_wer cd jw ws ws langs = Some w \<and> wr_wer w = 0 \<and>
    wr_matches w = length ws \<and> wr_total w = length ws"
proof (cases "ws = []")
  case True
  then show ?thesis by (simp add: compute_wer_def)
next
  case False
  obtain h r where hr: "wer_prepare cd ws ws langs = (h, r)" by (cases "wer_prepare cd ws ws langs")
  have "h = r"
    using hr assms combine_loop_none [of "remove_dashes ws"]
    by (auto simp: wer_prepare_def combine_single_letters_def Let_def split: if_splits)
  show ?thesis
  proof (rule compute_wer_value [OF False hr, of jw])
    fix res s
    assume v: "cost res = edit_cost (string_matches (cd_lower cd) jw MmExact) r h"
      "wc_sub s + wc_del s + wc_ins s \<le> cost res"
      "compute_wer cd jw ws ws langs =
        Some \<lparr>wr_wer = of_nat (wc_sub s + wc_del s + wc_ins s) / of_nat (length ws),
          wr_total = length ws,
          wr_matches = sat_sub (length ws) (wc_sub s + wc_del s + wc_ins s),
          wr_diff = join_with [10] (map diff_line (wc_cleaned s))\<rparr>"
    have "cost res = 0"
      unfolding v(1) \<open>h = r\<close> by (rule edit_cost_self) (simp add: string_matches_def)
    then show ?thesis using v(2,3) by simp
  qed
qed

text \<open>Data in which nothing is listed, with ASCII lower-casing.\<close>

definition plain_data :: ConformData where
  "plain_data = \<lparr>cd_lower = to_ascii_lowercase, cd_compounds = [], cd_names = (\<lambda>_. False),
     cd_abbrev = (\<lambda>_. False)\<rparr>"

lemma compute_wer_identical_witness:
  "\<exists>w. compute_wer plain_data (\<lambda>_ _. 0) [lit ''hello'', lit ''there''] [lit ''hello'', lit ''there'']
      [lit ''eng''] = Some w \<and> wr_wer w = 0"
proof -
  have "list_all (\<lambda>w. \<not> single_letter w) (remove_dashes [lit ''hello'', lit ''there''])"
    by (simp add: remove_dashes_def single_letter_def lit_def str_len_def utf8_len_def)
  then show ?thesis
    using compute_wer_identical [of "[lit ''eng'']" "[lit ''hello'', lit ''there'']" plain_data] by blast
qed

inductive_cases aligns_payloadE: "aligns mt key [y] (x # xs) po ro res"
inductive_cases aligns_referenceE: "aligns mt key [] (x # xs) po ro res"
inductive_cases aligns_doneE: "aligns mt key [] [] po ro res"

lemma unmatched_cases:
  assumes "aligns mt key [y] [a, b] po ro res" and "\<not> mt a y" "\<not> mt b y"
  shows "res \<in> {[ExtraPayload (key y) po, ExtraReference (key a) ro, ExtraReference (key b) (Suc ro)],
    [ExtraReference (key a) ro, ExtraPayload (key y) po, ExtraReference (key b) (Suc ro)],
    [ExtraReference (key a) ro, ExtraReference (key b) (Suc ro), ExtraPayload (key y) po]}"
  using assms
  by (auto elim!: aligns_payloadE aligns_referenceE aligns_doneE elim: aligns.cases)

text \<open>
  A perfect transcript of spelled letters is scored as entirely wrong. When neither the two
  letters nor their concatenation are special words, the hypothesis \<open>y z\<close> is joined to
  \<open>yz\<close> while the reference stays \<open>y z\<close>: no word matches and the error rate is 1.
\<close>

theorem compute_wer_spelled_letters:
  assumes "\<And>w. w \<in> {[121], [122], [121, 122]} \<Longrightarrow> conform_word cd w = [w] \<and> cd_lower cd w = w"
  shows "\<exists>w. compute_wer cd jw [[121], [122]] [[121], [122]] [lit ''eng''] = Some w \<and>
    wr_wer w = 1 \<and> wr_matches w = 0"
proof -
  have prep: "wer_prepare cd [[121], [122]] [[121], [122]] [lit ''eng''] = ([[121, 122]], [[121], [122]])"
    using assms
    by (simp add: wer_prepare_def remove_dashes_def combine_single_letters_def conform_words_def
        normalize_wer_word_def single_letter_def str_len_def utf8_len_def is_ascii_alphabetic_def)
  have ne: "[[121], [122]] \<noteq> ([] :: rstr list)" by simp
  show ?thesis
  proof (rule compute_wer_value [OF ne prep, of jw])
    fix res s
    assume al: "aligns (string_matches (cd_lower cd) jw MmExact) string_key [[121, 122]] [[121], [122]] 0 0 res"
      and count: "wer_count res wer_start = Some s"
      and v: "compute_wer cd jw [[121], [122]] [[121], [122]] [lit ''eng''] =
        Some \<lparr>wr_wer = of_nat (wc_sub s + wc_del s + wc_ins s) / of_nat (length [[121], [122] :: rstr]),
          wr_total = length [[121], [122] :: rstr],
          wr_matches = sat_sub (length [[121], [122] :: rstr]) (wc_sub s + wc_del s + wc_ins s),
          wr_diff = join_with [10] (map diff_line (wc_cleaned s))\<rparr>"
    have "wc_sub s + wc_del s + wc_ins s = 2"
      using count unmatched_cases [OF al]
      by (auto simp: string_matches_def string_key_def wer_step_def wer_start_def dec_def name_key_def
          lit_def)
    then show ?thesis unfolding v by simp
  qed
qed

lemma conform_word_plain:
  assumes "trim w = w" "to_ascii_lowercase w = w" "conform_special w = [w]"
    and "\<not> contains w (apostrophe # lit ''s'')" "\<not> contains w (apostrophe # lit ''ve'')"
    and "\<not> contains w (apostrophe # lit ''d'')" "\<not> contains w (apostrophe # lit ''m'')"
    and "w \<notin> set fillers" "45 \<notin> set w"
    and "w \<notin> {lit ''ok'', lit ''gimme'', lit ''hafta'', lit ''havta''}"
  shows "conform_word plain_data w = [w] \<and> cd_lower plain_data w = w"
  using assms by (simp add: conform_word_def plain_data_def compound_map_def)

lemma compute_wer_spelled_letters_witness:
  "\<exists>w. compute_wer plain_data (\<lambda>_ _. 0) [[121], [122]] [[121], [122]] [lit ''eng''] = Some w \<and>
    wr_wer w = 1"
proof -
  have special: "conform_special [121] = [[121]]" "conform_special [122] = [[122]]"
    "conform_special [121, 122] = [[121, 122]]"
    by (simp_all add: conform_special_def lit_def)
  have absent: "[121] \<notin> set fillers" "[122] \<notin> set fillers" "[121, 122] \<notin> set fillers"
    "[121] \<notin> {lit ''ok'', lit ''gimme'', lit ''hafta'', lit ''havta''}"
    "[122] \<notin> {lit ''ok'', lit ''gimme'', lit ''hafta'', lit ''havta''}"
    "[121, 122] \<notin> {lit ''ok'', lit ''gimme'', lit ''hafta'', lit ''havta''}"
    by (simp_all add: lit_def fillers_def)
  have trim: "trim [121] = [121]" "trim [122] = [122]" "trim [121, 122] = [121, 122]"
    by (simp_all add: trim_def trim_matches_def is_whitespace_def)
  have lower: "to_ascii_lowercase [121] = [121]" "to_ascii_lowercase [122] = [122]"
    "to_ascii_lowercase [121, 122] = [121, 122]"
    by (simp_all add: to_ascii_lowercase_def ascii_lower_def)
  have "conform_word plain_data [121] = [[121]] \<and> cd_lower plain_data [121] = [121]"
    by (rule conform_word_plain) (simp_all only: special absent trim lower, simp_all)
  moreover have "conform_word plain_data [122] = [[122]] \<and> cd_lower plain_data [122] = [122]"
    by (rule conform_word_plain) (simp_all only: special absent trim lower, simp_all)
  moreover have "conform_word plain_data [121, 122] = [[121, 122]] \<and>
      cd_lower plain_data [121, 122] = [121, 122]"
    by (rule conform_word_plain) (simp_all only: special absent trim lower, simp_all)
  ultimately have "conform_word plain_data w = [w] \<and> cd_lower plain_data w = w"
    if "w \<in> {[121], [122], [121, 122]}" for w
    using that by blast
  then show ?thesis using compute_wer_spelled_letters [of plain_data "\<lambda>_ _. 0"] by blast
qed

end
