(* ===== verification/Memory_Tier.thy ===== *)
theory Memory_Tier
  imports Domain
begin

text \<open>
  The memory tier of a host and the shape of a worker: \<open>types/runtime.rs\<close> with the constants of
  \<open>runtime_constants.toml\<close>, the profiles and bootstrap targets of \<open>worker/target.rs\<close>, and
  the inference tasks of \<open>batchalign-types\<close>. Amounts of memory are megabytes in a \<open>u64\<close>.
\<close>

section \<open>Memory tiers\<close>

datatype MemoryTierKind = TkSmall | TkMedium | TkLarge | TkFleet

record MemoryTier =
  mt_kind :: MemoryTierKind
  mt_total_mb :: nat
  mt_headroom_mb :: nat
  mt_gpu_startup_mb :: nat
  mt_stanza_startup_mb :: nat
  mt_io_startup_mb :: nat
  mt_max_suggested_workers :: nat
  mt_idle_timeout_s :: nat

definition from_total_mb :: "nat \<Rightarrow> MemoryTier" where
  "from_total_mb total_mb =
     (let (kind, headroom, gpu, stanza, io, max_workers, idle_s) =
        (if total_mb < 24000 then (TkSmall, 2000, 6000, 3000, 2000, 1, 60)
         else if total_mb < 48000 then (TkMedium, 4000, 10000, 6000, 3000, 2, 300)
         else if total_mb < 128000 then (TkLarge, 8000, 16000, 12000, 4000, 4, 600)
         else (TkFleet, 8000, 16000, 12000, 4000, 8, 600))
      in \<lparr>mt_kind = kind, mt_total_mb = total_mb, mt_headroom_mb = headroom,
          mt_gpu_startup_mb = gpu, mt_stanza_startup_mb = stanza, mt_io_startup_mb = io,
          mt_max_suggested_workers = max_workers, mt_idle_timeout_s = idle_s\<rparr>)"

text \<open>\<open>MemoryTier::detect\<close>, given the bytes of memory the operating system reports.\<close>

definition detect_tier :: "nat \<Rightarrow> MemoryTier" where
  "detect_tier total_bytes = from_total_mb (total_bytes div (1024 * 1024))"

fun tier_kind_display :: "MemoryTierKind \<Rightarrow> rstr" where
  "tier_kind_display TkSmall = lit ''Small (<24 GB)''"
| "tier_kind_display TkMedium = lit ''Medium (24-48 GB)''"
| "tier_kind_display TkLarge = lit ''Large (48-128 GB)''"
| "tier_kind_display TkFleet = lit ''Fleet (>128 GB)''"

section \<open>The execution budget of a command\<close>

text \<open>
  The table \<open>command_base_mb.threaded\<close> and the default of \<open>runtime_constants.toml\<close>. The
  loading overhead is the exact binary fraction 1.5, so the product with a base is exact and the
  conversion to \<open>u64\<close> truncates.
\<close>

definition threaded_base_mb :: "(rstr, nat) hmap" where
  "threaded_base_mb =
     [(lit ''align'', 4000), (lit ''transcribe'', 1500), (lit ''transcribe_s'', 2500),
      (lit ''morphotag'', 2000), (lit ''benchmark'', 1500), (lit ''opensmile'', 500),
      (lit ''avqi'', 1500), (lit ''utseg'', 2000), (lit ''translate'', 4000),
      (lit ''coref'', 2000), (lit ''compare'', 2000)]"

definition default_base_mb :: nat where
  "default_base_mb = 4000"

definition command_execution_budget_mb :: "rstr \<Rightarrow> nat" where
  "command_execution_budget_mb command =
     (let base = (case hm_get threaded_base_mb command of None \<Rightarrow> default_base_mb | Some b \<Rightarrow> b)
      in base * 3 div 2)"

section \<open>Inference tasks, profiles and bootstrap targets\<close>

datatype InferTask =
  ItMorphosyntax | ItUtseg | ItTranslate | ItCoref | ItFa | ItAsr | ItOpensmile | ItAvqi | ItSpeaker

datatype WorkerBootstrapMode = BootProfile | BootTask

datatype WorkerProfile = WpGpu | WpStanza | WpIo

fun profile_for_task :: "InferTask \<Rightarrow> WorkerProfile" where
  "profile_for_task ItAsr = WpGpu"
| "profile_for_task ItFa = WpGpu"
| "profile_for_task ItSpeaker = WpGpu"
| "profile_for_task ItMorphosyntax = WpStanza"
| "profile_for_task ItUtseg = WpStanza"
| "profile_for_task ItCoref = WpStanza"
| "profile_for_task ItTranslate = WpIo"
| "profile_for_task ItOpensmile = WpIo"
| "profile_for_task ItAvqi = WpIo"

fun profile_label :: "WorkerProfile \<Rightarrow> rstr" where
  "profile_label WpGpu = lit ''profile:gpu''"
| "profile_label WpStanza = lit ''profile:stanza''"
| "profile_label WpIo = lit ''profile:io''"

fun profile_name :: "WorkerProfile \<Rightarrow> rstr" where
  "profile_name WpGpu = lit ''gpu''"
| "profile_name WpStanza = lit ''stanza''"
| "profile_name WpIo = lit ''io''"

definition profile_try_from_name :: "rstr \<Rightarrow> WorkerProfile option" where
  "profile_try_from_name name =
     (if name = lit ''gpu'' then Some WpGpu
      else if name = lit ''stanza'' then Some WpStanza
      else if name = lit ''io'' then Some WpIo
      else None)"

definition profile_is_concurrent :: "WorkerProfile \<Rightarrow> bool" where
  "profile_is_concurrent p \<longleftrightarrow> p = WpGpu"

fun startup_reservation_mb_for_tier :: "WorkerProfile \<Rightarrow> MemoryTier \<Rightarrow> nat" where
  "startup_reservation_mb_for_tier WpGpu tier = mt_gpu_startup_mb tier"
| "startup_reservation_mb_for_tier WpStanza tier = mt_stanza_startup_mb tier"
| "startup_reservation_mb_for_tier WpIo tier = mt_io_startup_mb tier"

fun default_max_workers :: "WorkerProfile \<Rightarrow> nat \<Rightarrow> nat" where
  "default_max_workers WpGpu auto_tune = 1"
| "default_max_workers WpStanza auto_tune = auto_tune"
| "default_max_workers WpIo auto_tune = 1"

datatype WorkerTarget = WtProfile WorkerProfile | WtInferTask InferTask

fun target_from_infer_task :: "InferTask \<Rightarrow> WorkerBootstrapMode \<Rightarrow> WorkerTarget" where
  "target_from_infer_task task BootProfile = WtProfile (profile_for_task task)"
| "target_from_infer_task task BootTask = WtInferTask task"

fun task_name :: "InferTask \<Rightarrow> rstr" where
  "task_name ItMorphosyntax = lit ''morphosyntax''"
| "task_name ItUtseg = lit ''utseg''"
| "task_name ItTranslate = lit ''translate''"
| "task_name ItCoref = lit ''coref''"
| "task_name ItFa = lit ''fa''"
| "task_name ItAsr = lit ''asr''"
| "task_name ItOpensmile = lit ''opensmile''"
| "task_name ItAvqi = lit ''avqi''"
| "task_name ItSpeaker = lit ''speaker''"

fun target_label :: "WorkerTarget \<Rightarrow> rstr" where
  "target_label (WtProfile p) = profile_label p"
| "target_label (WtInferTask t) = lit ''infer:'' @ task_name t"

fun target_profile_kind :: "WorkerTarget \<Rightarrow> WorkerProfile" where
  "target_profile_kind (WtProfile p) = p"
| "target_profile_kind (WtInferTask t) = profile_for_task t"

fun target_task :: "WorkerTarget \<Rightarrow> InferTask option" where
  "target_task (WtProfile p) = None"
| "target_task (WtInferTask t) = Some t"

definition target_is_concurrent :: "WorkerTarget \<Rightarrow> bool" where
  "target_is_concurrent t = profile_is_concurrent (target_profile_kind t)"

section \<open>What a tier and a target promise\<close>

lemma profile_name_roundtrip: "profile_try_from_name (profile_name p) = Some p"
  by (cases p) (simp_all add: profile_try_from_name_def)

lemma profile_try_from_name_Some: "profile_try_from_name s = Some p \<Longrightarrow> profile_name p = s"
  by (auto simp: profile_try_from_name_def split: if_splits)

lemma target_keeps_profile [simp]:
  "target_profile_kind (target_from_infer_task task mode) = profile_for_task task"
  by (cases mode) simp_all

text \<open>Labels are the keys of the worker pool: two targets never share one.\<close>

lemma profile_label_inject [simp]: "profile_label p = profile_label q \<longleftrightarrow> p = q"
  by (cases p; cases q) (simp_all add: lit_def)

lemma task_name_inject [simp]: "task_name s = task_name t \<longleftrightarrow> s = t"
  by (cases s; cases t) simp_all

lemma profile_label_not_infer [simp]:
  "profile_label p \<noteq> lit ''infer:'' @ s" "lit ''infer:'' @ s \<noteq> profile_label p"
  by (cases p; simp add: lit_def)+

lemma target_label_inject: "target_label a = target_label b \<longleftrightarrow> a = b"
  by (cases a; cases b) simp_all

lemma from_total_mb_total [simp]: "mt_total_mb (from_total_mb n) = n"
  by (simp add: from_total_mb_def)

lemma from_total_mb_workers: "1 \<le> mt_max_suggested_workers (from_total_mb n)"
  by (simp add: from_total_mb_def)

text \<open>Every budget of a larger host is at least that of a smaller one.\<close>

lemma from_total_mb_mono:
  assumes "m \<le> n"
  shows "mt_headroom_mb (from_total_mb m) \<le> mt_headroom_mb (from_total_mb n)"
    and "startup_reservation_mb_for_tier p (from_total_mb m)
      \<le> startup_reservation_mb_for_tier p (from_total_mb n)"
    and "mt_max_suggested_workers (from_total_mb m) \<le> mt_max_suggested_workers (from_total_mb n)"
    and "mt_idle_timeout_s (from_total_mb m) \<le> mt_idle_timeout_s (from_total_mb n)"
  using assms by (cases p; simp add: from_total_mb_def)+

text \<open>
  One worker of any profile fits beside the headroom on every host from 8 GB upwards.
\<close>

lemma startup_fits_tier:
  assumes "8000 \<le> n"
  shows "startup_reservation_mb_for_tier p (from_total_mb n) + mt_headroom_mb (from_total_mb n) \<le> n"
  using assms by (cases p) (simp_all add: from_total_mb_def)

lemma command_budget_positive: "0 < command_execution_budget_mb c"
  by (simp add: command_execution_budget_mb_def threaded_base_mb_def hm_get_def
      default_base_mb_def)

end
