(* ===== verification/Command_Catalog.thy ===== *)
theory Command_Catalog
  imports Memory_Tier
begin

text \<open>
  The catalogue of released commands: the vocabulary of \<open>commands/spec.rs\<close> and
  \<open>command_family.rs\<close>, the policies each execution shape implies, the family constructors, the
  eleven authored definitions of \<open>commands/*.rs\<close> and the lookup of \<open>commands/catalog.rs\<close>. A
  failed \<open>expect\<close> is None; the catalogue is shown to answer for every command.
\<close>

section \<open>Vocabulary\<close>

datatype CommandCapabilityKind = DirectInfer | ServerComposed

datatype CommandOutputPathKind = PreserveInputName | ReplaceExtension rstr

datatype RunnerDispatchKind =
  BatchedTextInfer | ForcedAlignment | TranscribeAudioInfer | BenchmarkAudioInfer | MediaAnalysisV2

datatype WorkflowFamily =
  WfPerFileTransform | WfCrossFileBatchTransform | WfReferenceProjection | WfComposite

datatype SchedulingPolicy =
  SpPerFileAudio | SpCrossFileBatch | SpReferenceProjection | SpComposite | SpPerFileMediaAnalysis

datatype ModelSharingPolicy = SharedWarmWorkers | MsDelegatedToSubcommands

datatype BatchingPolicy = BpNone | BpCrossFileBatch | BpInternalStageBatching | BpPairedInputs

datatype ParallelismPolicy =
  BoundedFileWorkers | SingleDispatchPerJob | PpDelegatedToSubcommands

datatype ConstrainedHostPolicy = SequentialFallback | ChDelegatedToSubcommands

datatype WarmupPolicy = LazyOnDemand | BackgroundEligible | WuDelegatedToSubcommands

datatype ResourceLane = GpuHeavy | CpuBound | IoBound | MixedLane

record CommandWorkflowDescriptor =
  wd_command :: ReleasedCommand
  wd_family :: WorkflowFamily
  wd_infer_task :: InferTask
  wd_capability_kind :: CommandCapabilityKind
  wd_uses_local_audio :: bool
  wd_output_path_kind :: CommandOutputPathKind
  wd_runner_dispatch_kind :: RunnerDispatchKind

datatype CommandExecutionShape =
  EsBatchedText | EsReferenceProjection | EsAudioSequential | EsMediaAnalysis | EsComposite

record CommandDefinition =
  def_descriptor :: CommandWorkflowDescriptor
  def_execution_shape :: CommandExecutionShape

section \<open>What an execution shape implies\<close>

fun workflow_family :: "CommandExecutionShape \<Rightarrow> WorkflowFamily" where
  "workflow_family EsBatchedText = WfCrossFileBatchTransform"
| "workflow_family EsReferenceProjection = WfReferenceProjection"
| "workflow_family EsAudioSequential = WfPerFileTransform"
| "workflow_family EsMediaAnalysis = WfPerFileTransform"
| "workflow_family EsComposite = WfComposite"

fun scheduling_policy :: "CommandExecutionShape \<Rightarrow> SchedulingPolicy" where
  "scheduling_policy EsBatchedText = SpCrossFileBatch"
| "scheduling_policy EsReferenceProjection = SpReferenceProjection"
| "scheduling_policy EsAudioSequential = SpPerFileAudio"
| "scheduling_policy EsMediaAnalysis = SpPerFileMediaAnalysis"
| "scheduling_policy EsComposite = SpComposite"

fun model_sharing_policy :: "CommandExecutionShape \<Rightarrow> ModelSharingPolicy" where
  "model_sharing_policy EsComposite = MsDelegatedToSubcommands"
| "model_sharing_policy _ = SharedWarmWorkers"

fun batching_policy :: "CommandExecutionShape \<Rightarrow> BatchingPolicy" where
  "batching_policy EsBatchedText = BpCrossFileBatch"
| "batching_policy EsReferenceProjection = BpPairedInputs"
| "batching_policy EsAudioSequential = BpInternalStageBatching"
| "batching_policy EsMediaAnalysis = BpNone"
| "batching_policy EsComposite = BpNone"

fun parallelism_policy :: "CommandExecutionShape \<Rightarrow> ParallelismPolicy" where
  "parallelism_policy EsAudioSequential = BoundedFileWorkers"
| "parallelism_policy EsMediaAnalysis = BoundedFileWorkers"
| "parallelism_policy EsBatchedText = SingleDispatchPerJob"
| "parallelism_policy EsReferenceProjection = SingleDispatchPerJob"
| "parallelism_policy EsComposite = PpDelegatedToSubcommands"

fun resource_lane :: "CommandExecutionShape \<Rightarrow> ResourceLane" where
  "resource_lane EsBatchedText = CpuBound"
| "resource_lane EsReferenceProjection = MixedLane"
| "resource_lane EsComposite = MixedLane"
| "resource_lane EsAudioSequential = GpuHeavy"
| "resource_lane EsMediaAnalysis = IoBound"

fun constrained_host_policy :: "CommandExecutionShape \<Rightarrow> ConstrainedHostPolicy" where
  "constrained_host_policy EsComposite = ChDelegatedToSubcommands"
| "constrained_host_policy _ = SequentialFallback"

fun warmup_policy :: "CommandExecutionShape \<Rightarrow> WarmupPolicy" where
  "warmup_policy EsMediaAnalysis = LazyOnDemand"
| "warmup_policy EsComposite = WuDelegatedToSubcommands"
| "warmup_policy _ = BackgroundEligible"

definition uses_host_memory_gate :: "CommandExecutionShape \<Rightarrow> bool" where
  "uses_host_memory_gate shape = True"

section \<open>Family constructors\<close>

definition new_definition ::
  "ReleasedCommand \<Rightarrow> InferTask \<Rightarrow> CommandCapabilityKind \<Rightarrow> bool \<Rightarrow> CommandOutputPathKind \<Rightarrow>
   RunnerDispatchKind \<Rightarrow> CommandExecutionShape \<Rightarrow> CommandDefinition" where
  "new_definition command task capability local_audio out_kind dispatch shape =
     \<lparr>def_descriptor =
        \<lparr>wd_command = command, wd_family = workflow_family shape, wd_infer_task = task,
         wd_capability_kind = capability, wd_uses_local_audio = local_audio,
         wd_output_path_kind = out_kind, wd_runner_dispatch_kind = dispatch\<rparr>,
      def_execution_shape = shape\<rparr>"

definition batched_text :: "ReleasedCommand \<Rightarrow> InferTask \<Rightarrow> CommandDefinition" where
  "batched_text command task =
     new_definition command task DirectInfer False PreserveInputName BatchedTextInfer
       EsBatchedText"

definition reference_projection :: "ReleasedCommand \<Rightarrow> InferTask \<Rightarrow> CommandDefinition" where
  "reference_projection command task =
     new_definition command task DirectInfer False PreserveInputName BatchedTextInfer
       EsReferenceProjection"

definition forced_alignment :: "ReleasedCommand \<Rightarrow> CommandDefinition" where
  "forced_alignment command =
     new_definition command ItFa DirectInfer True PreserveInputName ForcedAlignment
       EsAudioSequential"

definition transcription :: "ReleasedCommand \<Rightarrow> CommandDefinition" where
  "transcription command =
     new_definition command ItAsr ServerComposed True (ReplaceExtension (lit ''cha''))
       TranscribeAudioInfer EsAudioSequential"

definition benchmark_family :: "ReleasedCommand \<Rightarrow> CommandDefinition" where
  "benchmark_family command =
     new_definition command ItAsr ServerComposed True PreserveInputName BenchmarkAudioInfer
       EsComposite"

definition media_analysis :: "ReleasedCommand \<Rightarrow> InferTask \<Rightarrow> bool \<Rightarrow> CommandDefinition" where
  "media_analysis command task local_audio =
     new_definition command task DirectInfer local_audio PreserveInputName MediaAnalysisV2
       EsMediaAnalysis"

section \<open>The authored commands and the lookup\<close>

definition ALIGN_DEFINITION :: CommandDefinition where
  "ALIGN_DEFINITION = forced_alignment CmdAlign"

definition TRANSCRIBE_DEFINITION :: CommandDefinition where
  "TRANSCRIBE_DEFINITION = transcription CmdTranscribe"

definition TRANSCRIBE_S_DEFINITION :: CommandDefinition where
  "TRANSCRIBE_S_DEFINITION = transcription CmdTranscribeS"

definition TRANSLATE_DEFINITION :: CommandDefinition where
  "TRANSLATE_DEFINITION = batched_text CmdTranslate ItTranslate"

definition MORPHOTAG_DEFINITION :: CommandDefinition where
  "MORPHOTAG_DEFINITION = batched_text CmdMorphotag ItMorphosyntax"

definition COREF_DEFINITION :: CommandDefinition where
  "COREF_DEFINITION = batched_text CmdCoref ItCoref"

definition UTSEG_DEFINITION :: CommandDefinition where
  "UTSEG_DEFINITION = batched_text CmdUtseg ItUtseg"

definition BENCHMARK_DEFINITION :: CommandDefinition where
  "BENCHMARK_DEFINITION = benchmark_family CmdBenchmark"

definition OPENSMILE_DEFINITION :: CommandDefinition where
  "OPENSMILE_DEFINITION = media_analysis CmdOpensmile ItOpensmile False"

definition COMPARE_DEFINITION :: CommandDefinition where
  "COMPARE_DEFINITION = reference_projection CmdCompare ItMorphosyntax"

definition AVQI_DEFINITION :: CommandDefinition where
  "AVQI_DEFINITION = media_analysis CmdAvqi ItAvqi True"

definition RELEASED_COMMAND_DEFINITIONS :: "CommandDefinition list" where
  "RELEASED_COMMAND_DEFINITIONS =
     [MORPHOTAG_DEFINITION, UTSEG_DEFINITION, TRANSLATE_DEFINITION, COREF_DEFINITION,
      ALIGN_DEFINITION, TRANSCRIBE_DEFINITION, TRANSCRIBE_S_DEFINITION, COMPARE_DEFINITION,
      BENCHMARK_DEFINITION, OPENSMILE_DEFINITION, AVQI_DEFINITION]"

definition released_command_definition :: "ReleasedCommand \<Rightarrow> CommandDefinition option" where
  "released_command_definition command =
     find (\<lambda>d. wd_command (def_descriptor d) = command) RELEASED_COMMAND_DEFINITIONS"

definition released_command_descriptor ::
  "ReleasedCommand \<Rightarrow> CommandWorkflowDescriptor option" where
  "released_command_descriptor command =
     map_option def_descriptor (released_command_definition command)"

definition released_command_uses_local_audio :: "ReleasedCommand \<Rightarrow> bool option" where
  "released_command_uses_local_audio command =
     map_option wd_uses_local_audio (released_command_descriptor command)"

definition command_uses_local_audio :: "rstr \<Rightarrow> bool option" where
  "command_uses_local_audio command =
     (case command_try_from command of
        Inl e \<Rightarrow> Some False
      | Inr c \<Rightarrow> released_command_uses_local_audio c)"

definition command_runner_dispatch_kind :: "ReleasedCommand \<Rightarrow> RunnerDispatchKind option" where
  "command_runner_dispatch_kind command =
     map_option wd_runner_dispatch_kind (released_command_descriptor command)"

text \<open>\<open>WorkerProfile::for_command\<close> and \<open>WorkerTarget::for_command_with_mode\<close>.\<close>

definition profile_for_command :: "ReleasedCommand \<Rightarrow> WorkerProfile option" where
  "profile_for_command command =
     map_option (\<lambda>d. profile_for_task (wd_infer_task d)) (released_command_descriptor command)"

definition for_command_with_mode ::
  "ReleasedCommand \<Rightarrow> WorkerBootstrapMode \<Rightarrow> WorkerTarget option" where
  "for_command_with_mode command mode =
     map_option (\<lambda>d. target_from_infer_task (wd_infer_task d) mode)
       (released_command_descriptor command)"

lemmas command_definition_defs =
  ALIGN_DEFINITION_def TRANSCRIBE_DEFINITION_def TRANSCRIBE_S_DEFINITION_def
  TRANSLATE_DEFINITION_def MORPHOTAG_DEFINITION_def COREF_DEFINITION_def UTSEG_DEFINITION_def
  BENCHMARK_DEFINITION_def OPENSMILE_DEFINITION_def COMPARE_DEFINITION_def AVQI_DEFINITION_def
  batched_text_def reference_projection_def forced_alignment_def transcription_def
  benchmark_family_def media_analysis_def new_definition_def

text \<open>The lookup, command by command.\<close>

fun catalog_entry :: "ReleasedCommand \<Rightarrow> CommandDefinition" where
  "catalog_entry CmdAlign = ALIGN_DEFINITION"
| "catalog_entry CmdTranscribe = TRANSCRIBE_DEFINITION"
| "catalog_entry CmdTranscribeS = TRANSCRIBE_S_DEFINITION"
| "catalog_entry CmdTranslate = TRANSLATE_DEFINITION"
| "catalog_entry CmdMorphotag = MORPHOTAG_DEFINITION"
| "catalog_entry CmdCoref = COREF_DEFINITION"
| "catalog_entry CmdUtseg = UTSEG_DEFINITION"
| "catalog_entry CmdBenchmark = BENCHMARK_DEFINITION"
| "catalog_entry CmdOpensmile = OPENSMILE_DEFINITION"
| "catalog_entry CmdCompare = COMPARE_DEFINITION"
| "catalog_entry CmdAvqi = AVQI_DEFINITION"

lemma catalog_entry_command [simp]: "wd_command (def_descriptor (catalog_entry c)) = c"
  by (cases c) (simp_all add: command_definition_defs)

lemma released_command_definition_total [simp]:
  "released_command_definition c = Some (catalog_entry c)"
  by (cases c)
    (simp_all add: released_command_definition_def RELEASED_COMMAND_DEFINITIONS_def
      command_definition_defs)

lemma released_command_descriptor_total [simp]:
  "released_command_descriptor c = Some (def_descriptor (catalog_entry c))"
  by (simp add: released_command_descriptor_def)

text \<open>The worker a command needs runs the profile of the command, whatever the host mode.\<close>

lemma command_target_profile:
  "map_option target_profile_kind (for_command_with_mode c mode) = profile_for_command c"
  by (simp add: for_command_with_mode_def profile_for_command_def)

text \<open>
  A command that reads local audio is exactly one whose dispatch works from audio, openSMILE
  excepted, whose media the server resolves itself.
\<close>

lemma local_audio_by_dispatch:
  "released_command_uses_local_audio c =
     Some (command_runner_dispatch_kind c \<noteq> Some BatchedTextInfer \<and> c \<noteq> CmdOpensmile)"
  by (cases c)
    (simp_all add: released_command_uses_local_audio_def command_runner_dispatch_kind_def
      command_definition_defs)

text \<open>
  The two predicates that say whether a released command needs client-local audio, the method of
  ReleasedCommand and the one derived from the catalogue, agree on every command except align:
  the catalogue says align does, the method says it does not.
\<close>
theorem local_audio_predicates_agree_iff:
  "released_command_uses_local_audio c = Some (uses_local_audio c) \<longleftrightarrow> c \<noteq> CmdAlign"
  by (cases c) (simp_all add: released_command_uses_local_audio_def command_definition_defs)

end
