(* ===== verification/Server_Config.thy ===== *)
theory Server_Config
  imports Errors Command_Catalog
begin

text \<open>
  The server configuration (\<open>types/config.rs\<close>): its fields and defaults, the clamping done by
  \<open>validate\<close>, and the resolution of the memory tier, the headroom and the idle timeout. The tier
  that \<open>MemoryTier::detect\<close> finds on the machine is the argument \<open>detected\<close>; the directory
  test of the file system is the argument \<open>is_dir\<close>. Parsing YAML is serde's.
\<close>

section \<open>Fields and defaults\<close>

record ServerConfig =
  sc_media_roots :: "rstr list"
  sc_media_mappings :: "(rstr, rstr) hmap"
  sc_verbose :: nat
  sc_default_lang :: LanguageCode3
  sc_max_concurrent_jobs :: int
  sc_port :: nat
  sc_host :: rstr
  sc_deprecated_backend :: "rstr option"
  sc_max_workers_per_job :: int
  sc_job_ttl_days :: int
  sc_redis_url :: rstr
  sc_warmup_commands :: "rstr list"
  sc_auto_daemon :: bool
  sc_temporal_server_url :: rstr
  sc_temporal_namespace :: rstr
  sc_temporal_task_queue :: rstr
  sc_temporal_heartbeat_s :: nat
  sc_temporal_activity_timeout_s :: nat
  sc_memory_gate_mb :: nat
  sc_worker_idle_timeout_s :: nat
  sc_worker_health_interval_s :: nat
  sc_max_concurrent_worker_startups :: nat
  sc_max_workers_per_key :: int
  sc_max_total_workers :: int
  sc_worker_ready_timeout_s :: nat
  sc_max_body_bytes_mb :: nat
  sc_memory_gate_timeout_s :: nat
  sc_memory_gate_poll_s :: nat
  sc_memory_warning_mb :: nat
  sc_gpu_thread_pool_size :: nat
  sc_local_lease_ttl_s :: nat
  sc_audio_task_timeout_s :: nat
  sc_analysis_task_timeout_s :: nat
  sc_worker_registry_path :: rstr
  sc_memory_tier :: "rstr option"
  sc_gpu_startup_mb :: nat
  sc_stanza_startup_mb :: nat
  sc_io_startup_mb :: nat

definition default_temporal_server_url :: rstr where
  "default_temporal_server_url = lit ''http://127.0.0.1:7233''"

definition default_temporal_namespace :: rstr where
  "default_temporal_namespace = lit ''default''"

definition default_temporal_task_queue :: rstr where
  "default_temporal_task_queue = lit ''batchalign3-server''"

definition default_temporal_heartbeat_s :: nat where
  "default_temporal_heartbeat_s = 10"

definition default_temporal_activity_timeout_s :: nat where
  "default_temporal_activity_timeout_s = 60 * 60 * 24"

definition WARMUP_PRESET_FULL :: "rstr list" where
  "WARMUP_PRESET_FULL = [lit ''morphotag'', lit ''align'', lit ''transcribe'']"

definition default_server_config :: "MemoryTier \<Rightarrow> ServerConfig" where
  "default_server_config detected =
     \<lparr>sc_media_roots = [], sc_media_mappings = [], sc_verbose = 0, sc_default_lang = code_eng,
      sc_max_concurrent_jobs = 0, sc_port = 8000, sc_host = lit ''0.0.0.0'',
      sc_deprecated_backend = None, sc_max_workers_per_job = 0, sc_job_ttl_days = 7,
      sc_redis_url = [], sc_warmup_commands = WARMUP_PRESET_FULL, sc_auto_daemon = True,
      sc_temporal_server_url = default_temporal_server_url,
      sc_temporal_namespace = default_temporal_namespace,
      sc_temporal_task_queue = default_temporal_task_queue,
      sc_temporal_heartbeat_s = default_temporal_heartbeat_s,
      sc_temporal_activity_timeout_s = default_temporal_activity_timeout_s,
      sc_memory_gate_mb = mt_headroom_mb detected,
      sc_worker_idle_timeout_s = mt_idle_timeout_s detected,
      sc_worker_health_interval_s = 30, sc_max_concurrent_worker_startups = 1,
      sc_max_workers_per_key = 0, sc_max_total_workers = 0, sc_worker_ready_timeout_s = 300,
      sc_max_body_bytes_mb = 100, sc_memory_gate_timeout_s = 120, sc_memory_gate_poll_s = 5,
      sc_memory_warning_mb = 4096, sc_gpu_thread_pool_size = 4, sc_local_lease_ttl_s = 300,
      sc_audio_task_timeout_s = 0, sc_analysis_task_timeout_s = 0, sc_worker_registry_path = [],
      sc_memory_tier = None, sc_gpu_startup_mb = 0, sc_stanza_startup_mb = 0,
      sc_io_startup_mb = 0\<rparr>"

section \<open>Resolution against the memory tier\<close>

definition tier_by_name :: "rstr option \<Rightarrow> MemoryTier \<Rightarrow> MemoryTier" where
  "tier_by_name name detected =
     (if name = Some (lit ''small'') then from_total_mb 16000
      else if name = Some (lit ''medium'') then from_total_mb 32000
      else if name = Some (lit ''large'') then from_total_mb 64000
      else if name = Some (lit ''fleet'') then from_total_mb 256000
      else detected)"

definition resolved_memory_tier :: "MemoryTier \<Rightarrow> ServerConfig \<Rightarrow> MemoryTier" where
  "resolved_memory_tier detected c =
     (let tier = tier_by_name (sc_memory_tier c) detected;
          tier = (if 0 < sc_gpu_startup_mb c
                  then tier\<lparr>mt_gpu_startup_mb := sc_gpu_startup_mb c\<rparr> else tier);
          tier = (if 0 < sc_stanza_startup_mb c
                  then tier\<lparr>mt_stanza_startup_mb := sc_stanza_startup_mb c\<rparr> else tier);
          tier = (if 0 < sc_io_startup_mb c
                  then tier\<lparr>mt_io_startup_mb := sc_io_startup_mb c\<rparr> else tier)
      in case sc_memory_tier c of
           None \<Rightarrow> tier
         | Some name \<Rightarrow>
             tier\<lparr>mt_kind := (if name = lit ''small'' then TkSmall
                            else if name = lit ''medium'' then TkMedium
                            else if name = lit ''large'' then TkLarge
                            else if name = lit ''fleet'' then TkFleet
                            else mt_kind tier)\<rparr>)"

definition resolved_memory_gate_mb :: "MemoryTier \<Rightarrow> ServerConfig \<Rightarrow> nat" where
  "resolved_memory_gate_mb detected c =
     (if sc_memory_gate_mb c = 0 then mt_headroom_mb (resolved_memory_tier detected c)
      else if sc_memory_tier c \<noteq> None \<and> sc_memory_gate_mb c = mt_headroom_mb detected
      then mt_headroom_mb (resolved_memory_tier detected c)
      else sc_memory_gate_mb c)"

definition resolved_worker_idle_timeout_s :: "MemoryTier \<Rightarrow> ServerConfig \<Rightarrow> nat" where
  "resolved_worker_idle_timeout_s detected c =
     (if sc_worker_idle_timeout_s c = 0 then mt_idle_timeout_s (resolved_memory_tier detected c)
      else if sc_memory_tier c \<noteq> None \<and> sc_worker_idle_timeout_s c = mt_idle_timeout_s detected
      then mt_idle_timeout_s (resolved_memory_tier detected c)
      else sc_worker_idle_timeout_s c)"

definition resolved_warmup_commands :: "ServerConfig \<Rightarrow> rstr list" where
  "resolved_warmup_commands c = sc_warmup_commands c"

section \<open>Validation\<close>

text \<open>The two loops that only warn.\<close>

definition media_warnings :: "(rstr \<Rightarrow> bool) \<Rightarrow> ServerConfig \<Rightarrow> rstr list" where
  "media_warnings is_dir c =
     map (\<lambda>root. lit ''media_root does not exist: '' @ root)
       (filter (\<lambda>root. \<not> is_dir root) (sc_media_roots c)) @
     map (\<lambda>(key, root). lit ''media_mapping '' @ [39] @ key @ [39] @
            lit '' root does not exist: '' @ root)
       (filter (\<lambda>(key, root). \<not> is_dir root) (sc_media_mappings c))"

text \<open>One check of the code: when the field is out of range, warn and overwrite it.\<close>

definition clamp_step ::
  "(ServerConfig \<Rightarrow> bool) \<Rightarrow> (ServerConfig \<Rightarrow> rstr) \<Rightarrow> (ServerConfig \<Rightarrow> ServerConfig) \<Rightarrow>
   rstr list \<times> ServerConfig \<Rightarrow> rstr list \<times> ServerConfig" where
  "clamp_step bad warning fix_it wc =
     (if bad (snd wc) then (fst wc @ [warning (snd wc)], fix_it (snd wc)) else wc)"

definition clamp_max_concurrent_jobs :: "rstr list \<times> ServerConfig \<Rightarrow> rstr list \<times> ServerConfig" where
  "clamp_max_concurrent_jobs = clamp_step (\<lambda>c. sc_max_concurrent_jobs c < 0)
     (\<lambda>c. lit ''max_concurrent_jobs must be >= 0 (0=auto), defaulting to 0'')
     (\<lambda>c. c\<lparr>sc_max_concurrent_jobs := 0\<rparr>)"

definition clamp_port :: "rstr list \<times> ServerConfig \<Rightarrow> rstr list \<times> ServerConfig" where
  "clamp_port = clamp_step (\<lambda>c. sc_port c = 0)
     (\<lambda>c. lit ''port must be 1-65535 (got '' @ show_nat (sc_port c) @ lit ''), defaulting to 8000'')
     (\<lambda>c. c\<lparr>sc_port := 8000\<rparr>)"

definition clamp_job_ttl_days :: "rstr list \<times> ServerConfig \<Rightarrow> rstr list \<times> ServerConfig" where
  "clamp_job_ttl_days = clamp_step (\<lambda>c. sc_job_ttl_days c < 1)
     (\<lambda>c. lit ''job_ttl_days must be >= 1 (got '' @ show_int (sc_job_ttl_days c) @
           lit ''), defaulting to 1'')
     (\<lambda>c. c\<lparr>sc_job_ttl_days := 1\<rparr>)"

definition clamp_memory_gate_poll_s :: "rstr list \<times> ServerConfig \<Rightarrow> rstr list \<times> ServerConfig" where
  "clamp_memory_gate_poll_s = clamp_step (\<lambda>c. sc_memory_gate_poll_s c = 0)
     (\<lambda>c. lit ''memory_gate_poll_s must be >= 1, defaulting to 1'')
     (\<lambda>c. c\<lparr>sc_memory_gate_poll_s := 1\<rparr>)"

definition clamp_max_concurrent_worker_startups ::
  "rstr list \<times> ServerConfig \<Rightarrow> rstr list \<times> ServerConfig" where
  "clamp_max_concurrent_worker_startups =
     clamp_step (\<lambda>c. sc_max_concurrent_worker_startups c = 0)
       (\<lambda>c. lit ''max_concurrent_worker_startups must be >= 1, defaulting to 1'')
       (\<lambda>c. c\<lparr>sc_max_concurrent_worker_startups := 1\<rparr>)"

definition clamp_gpu_thread_pool_size ::
  "rstr list \<times> ServerConfig \<Rightarrow> rstr list \<times> ServerConfig" where
  "clamp_gpu_thread_pool_size = clamp_step (\<lambda>c. sc_gpu_thread_pool_size c = 0)
     (\<lambda>c. lit ''gpu_thread_pool_size must be >= 1, defaulting to 1'')
     (\<lambda>c. c\<lparr>sc_gpu_thread_pool_size := 1\<rparr>)"

definition clamp_temporal_server_url ::
  "rstr list \<times> ServerConfig \<Rightarrow> rstr list \<times> ServerConfig" where
  "clamp_temporal_server_url = clamp_step (\<lambda>c. trim (sc_temporal_server_url c) = [])
     (\<lambda>c. lit ''temporal_server_url must not be empty, defaulting to http://127.0.0.1:7233'')
     (\<lambda>c. c\<lparr>sc_temporal_server_url := default_temporal_server_url\<rparr>)"

definition clamp_temporal_namespace ::
  "rstr list \<times> ServerConfig \<Rightarrow> rstr list \<times> ServerConfig" where
  "clamp_temporal_namespace = clamp_step (\<lambda>c. trim (sc_temporal_namespace c) = [])
     (\<lambda>c. lit ''temporal_namespace must not be empty, defaulting to default'')
     (\<lambda>c. c\<lparr>sc_temporal_namespace := default_temporal_namespace\<rparr>)"

definition clamp_temporal_task_queue ::
  "rstr list \<times> ServerConfig \<Rightarrow> rstr list \<times> ServerConfig" where
  "clamp_temporal_task_queue = clamp_step (\<lambda>c. trim (sc_temporal_task_queue c) = [])
     (\<lambda>c. lit ''temporal_task_queue must not be empty, defaulting to batchalign3-server'')
     (\<lambda>c. c\<lparr>sc_temporal_task_queue := default_temporal_task_queue\<rparr>)"

definition clamp_temporal_heartbeat_s ::
  "rstr list \<times> ServerConfig \<Rightarrow> rstr list \<times> ServerConfig" where
  "clamp_temporal_heartbeat_s wc =
     (if sc_temporal_heartbeat_s (snd wc) = 0
      then (fst wc @ [lit ''temporal_heartbeat_s must be between 1 and 60, defaulting to 10''],
            (snd wc)\<lparr>sc_temporal_heartbeat_s := default_temporal_heartbeat_s\<rparr>)
      else if 60 < sc_temporal_heartbeat_s (snd wc)
      then (fst wc @ [lit ''temporal_heartbeat_s must be between 1 and 60, defaulting to 60''],
            (snd wc)\<lparr>sc_temporal_heartbeat_s := 60\<rparr>)
      else wc)"

definition clamp_temporal_activity_timeout_s ::
  "rstr list \<times> ServerConfig \<Rightarrow> rstr list \<times> ServerConfig" where
  "clamp_temporal_activity_timeout_s = clamp_step (\<lambda>c. sc_temporal_activity_timeout_s c = 0)
     (\<lambda>c. lit ''temporal_activity_timeout_s must be >= 1, defaulting to 86400'')
     (\<lambda>c. c\<lparr>sc_temporal_activity_timeout_s := default_temporal_activity_timeout_s\<rparr>)"

definition validate :: "(rstr \<Rightarrow> bool) \<Rightarrow> ServerConfig \<Rightarrow> rstr list \<times> ServerConfig" where
  "validate is_dir c =
     clamp_temporal_activity_timeout_s (clamp_temporal_heartbeat_s (clamp_temporal_task_queue
       (clamp_temporal_namespace (clamp_temporal_server_url (clamp_gpu_thread_pool_size
         (clamp_max_concurrent_worker_startups (clamp_memory_gate_poll_s (clamp_job_ttl_days
           (clamp_port (clamp_max_concurrent_jobs (media_warnings is_dir c, c)))))))))))"

section \<open>What validation achieves\<close>

definition config_ok :: "ServerConfig \<Rightarrow> bool" where
  "config_ok c \<longleftrightarrow>
     0 \<le> sc_max_concurrent_jobs c \<and> 1 \<le> sc_port c \<and> 1 \<le> sc_job_ttl_days c \<and>
     1 \<le> sc_memory_gate_poll_s c \<and> 1 \<le> sc_max_concurrent_worker_startups c \<and>
     1 \<le> sc_gpu_thread_pool_size c \<and> trim (sc_temporal_server_url c) \<noteq> [] \<and>
     trim (sc_temporal_namespace c) \<noteq> [] \<and> trim (sc_temporal_task_queue c) \<noteq> [] \<and>
     1 \<le> sc_temporal_heartbeat_s c \<and> sc_temporal_heartbeat_s c \<le> 60 \<and>
     1 \<le> sc_temporal_activity_timeout_s c"

text \<open>
  The contract of one check: a configuration in range passes untouched and unremarked; any other
  is warned about and comes out in range. Checks that respect each other's range compose.
\<close>

locale clamping =
  fixes clamp :: "rstr list \<times> ServerConfig \<Rightarrow> rstr list \<times> ServerConfig"
    and ok :: "ServerConfig \<Rightarrow> bool"
  assumes pass: "ok c \<Longrightarrow> clamp (ws, c) = (ws, c)"
    and repair: "ok (snd (clamp (ws, c)))"
    and warn: "\<not> ok c \<Longrightarrow> \<exists>w. w \<noteq> [] \<and> fst (clamp (ws, c)) = ws @ w"
begin

lemma silent_iff: "fst (clamp (ws, c)) = ws \<longleftrightarrow> ok c"
  using pass [of c ws] warn [of c ws] by (cases "ok c") auto

lemma unchanged_iff: "snd (clamp (ws, c)) = c \<longleftrightarrow> ok c"
  using pass [of c ws] repair [of ws c] by (cases "ok c") auto

lemma again: "clamp (ws', snd (clamp (ws, c))) = (ws', snd (clamp (ws, c)))"
  by (rule pass) (rule repair)

lemma appends: "\<exists>w. fst (clamp (ws, c)) = ws @ w"
  using pass [of c ws] warn [of c ws] by (cases "ok c") auto

end

lemma clamping_comp:
  assumes f: "clamping f okf" and g: "clamping g okg"
    and keep: "\<And>wc. okf (snd wc) \<Longrightarrow> okf (snd (g wc))"
  shows "clamping (\<lambda>wc. g (f wc)) (\<lambda>c. okf c \<and> okg c)"
proof
  fix ws c
  show "okf c \<and> okg c \<Longrightarrow> g (f (ws, c)) = (ws, c)"
    using clamping.pass [OF f] clamping.pass [OF g] by simp
  obtain ws' c' where fc: "f (ws, c) = (ws', c')" by (cases "f (ws, c)")
  then have okc': "okf c'" using clamping.repair [OF f, of ws c] by simp
  then show "okf (snd (g (f (ws, c)))) \<and> okg (snd (g (f (ws, c))))"
    using clamping.repair [OF g] keep [of "(ws', c')"] fc by simp
  assume bad: "\<not> (okf c \<and> okg c)"
  show "\<exists>w. w \<noteq> [] \<and> fst (g (f (ws, c))) = ws @ w"
  proof (cases "okf c")
    case True
    then show ?thesis
      using bad clamping.pass [OF f] clamping.warn [OF g] by simp
  next
    case False
    with fc obtain w where "w \<noteq> []" "ws' = ws @ w"
      using clamping.warn [OF f False, of ws] by auto
    moreover obtain v where "fst (g (ws', c')) = ws' @ v"
      using clamping.appends [OF g] by blast
    ultimately show ?thesis using fc by auto
  qed
qed

lemma clamping_step:
  assumes "\<And>c. bad c \<longleftrightarrow> \<not> ok c" and "\<And>c. \<not> ok c \<Longrightarrow> ok (fix_it c)"
  shows "clamping (clamp_step bad warning fix_it) ok"
  by unfold_locales (use assms in \<open>auto simp: clamp_step_def\<close>)

lemma default_texts_nonblank:
  "trim default_temporal_server_url \<noteq> []" "trim default_temporal_namespace \<noteq> []"
  "trim default_temporal_task_queue \<noteq> []"
  by (simp_all add: default_temporal_server_url_def default_temporal_namespace_def
      default_temporal_task_queue_def trim_def trim_matches_def is_whitespace_def lit_def)

interpretation jobs: clamping clamp_max_concurrent_jobs "\<lambda>c. 0 \<le> sc_max_concurrent_jobs c"
  unfolding clamp_max_concurrent_jobs_def by (rule clamping_step) auto

interpretation port: clamping clamp_port "\<lambda>c. 1 \<le> sc_port c"
  unfolding clamp_port_def by (rule clamping_step) auto

interpretation ttl: clamping clamp_job_ttl_days "\<lambda>c. 1 \<le> sc_job_ttl_days c"
  unfolding clamp_job_ttl_days_def by (rule clamping_step) auto

interpretation gate_poll: clamping clamp_memory_gate_poll_s "\<lambda>c. 1 \<le> sc_memory_gate_poll_s c"
  unfolding clamp_memory_gate_poll_s_def by (rule clamping_step) auto

interpretation startups:
  clamping clamp_max_concurrent_worker_startups "\<lambda>c. 1 \<le> sc_max_concurrent_worker_startups c"
  unfolding clamp_max_concurrent_worker_startups_def by (rule clamping_step) auto

interpretation gpu_pool: clamping clamp_gpu_thread_pool_size "\<lambda>c. 1 \<le> sc_gpu_thread_pool_size c"
  unfolding clamp_gpu_thread_pool_size_def by (rule clamping_step) auto

interpretation url: clamping clamp_temporal_server_url "\<lambda>c. trim (sc_temporal_server_url c) \<noteq> []"
  unfolding clamp_temporal_server_url_def
  by (rule clamping_step) (auto simp: default_texts_nonblank)

interpretation namespace: clamping clamp_temporal_namespace "\<lambda>c. trim (sc_temporal_namespace c) \<noteq> []"
  unfolding clamp_temporal_namespace_def
  by (rule clamping_step) (auto simp: default_texts_nonblank)

interpretation queue: clamping clamp_temporal_task_queue "\<lambda>c. trim (sc_temporal_task_queue c) \<noteq> []"
  unfolding clamp_temporal_task_queue_def
  by (rule clamping_step) (auto simp: default_texts_nonblank)

interpretation heartbeat: clamping clamp_temporal_heartbeat_s
    "\<lambda>c. 1 \<le> sc_temporal_heartbeat_s c \<and> sc_temporal_heartbeat_s c \<le> 60"
  by unfold_locales (auto simp: clamp_temporal_heartbeat_s_def default_temporal_heartbeat_s_def)

interpretation activity: clamping clamp_temporal_activity_timeout_s
    "\<lambda>c. 1 \<le> sc_temporal_activity_timeout_s c"
  unfolding clamp_temporal_activity_timeout_s_def
  by (rule clamping_step) (auto simp: default_temporal_activity_timeout_s_def)

lemmas clamp_defs =
  clamp_max_concurrent_jobs_def clamp_port_def clamp_job_ttl_days_def clamp_memory_gate_poll_s_def
  clamp_max_concurrent_worker_startups_def clamp_gpu_thread_pool_size_def
  clamp_temporal_server_url_def clamp_temporal_namespace_def clamp_temporal_task_queue_def
  clamp_temporal_heartbeat_s_def clamp_temporal_activity_timeout_s_def clamp_step_def

text \<open>The whole sequence of checks, from its parts.\<close>

definition clamp_all :: "rstr list \<times> ServerConfig \<Rightarrow> rstr list \<times> ServerConfig" where
  "clamp_all wc =
     clamp_temporal_activity_timeout_s (clamp_temporal_heartbeat_s (clamp_temporal_task_queue
       (clamp_temporal_namespace (clamp_temporal_server_url (clamp_gpu_thread_pool_size
         (clamp_max_concurrent_worker_startups (clamp_memory_gate_poll_s (clamp_job_ttl_days
           (clamp_port (clamp_max_concurrent_jobs wc))))))))))"

interpretation checks: clamping clamp_all config_ok
proof -
  have "clamping clamp_all
    (\<lambda>c. (((((((((0 \<le> sc_max_concurrent_jobs c \<and> 1 \<le> sc_port c) \<and> 1 \<le> sc_job_ttl_days c) \<and>
      1 \<le> sc_memory_gate_poll_s c) \<and> 1 \<le> sc_max_concurrent_worker_startups c) \<and>
      1 \<le> sc_gpu_thread_pool_size c) \<and> trim (sc_temporal_server_url c) \<noteq> []) \<and>
      trim (sc_temporal_namespace c) \<noteq> []) \<and> trim (sc_temporal_task_queue c) \<noteq> []) \<and>
      1 \<le> sc_temporal_heartbeat_s c \<and> sc_temporal_heartbeat_s c \<le> 60) \<and>
      1 \<le> sc_temporal_activity_timeout_s c)"
    unfolding clamp_all_def
    by (rule clamping_comp [OF _ activity.clamping_axioms],
      rule clamping_comp [OF _ heartbeat.clamping_axioms],
      rule clamping_comp [OF _ queue.clamping_axioms],
      rule clamping_comp [OF _ namespace.clamping_axioms],
      rule clamping_comp [OF _ url.clamping_axioms],
      rule clamping_comp [OF _ gpu_pool.clamping_axioms],
      rule clamping_comp [OF _ startups.clamping_axioms],
      rule clamping_comp [OF _ gate_poll.clamping_axioms],
      rule clamping_comp [OF _ ttl.clamping_axioms],
      rule clamping_comp [OF _ port.clamping_axioms],
      rule jobs.clamping_axioms)
      (simp_all add: clamp_defs)
  then show "clamping clamp_all config_ok"
    by (simp add: config_ok_def [abs_def] conj_assoc)
qed

lemma validate_clamp_all: "validate is_dir c = clamp_all (media_warnings is_dir c, c)"
  by (simp add: validate_def clamp_all_def)

lemma clamp_keeps_media:
  "sc_media_roots (snd (clamp_max_concurrent_jobs wc)) = sc_media_roots (snd wc)"
  "sc_media_mappings (snd (clamp_max_concurrent_jobs wc)) = sc_media_mappings (snd wc)"
  "sc_media_roots (snd (clamp_port wc)) = sc_media_roots (snd wc)"
  "sc_media_mappings (snd (clamp_port wc)) = sc_media_mappings (snd wc)"
  "sc_media_roots (snd (clamp_job_ttl_days wc)) = sc_media_roots (snd wc)"
  "sc_media_mappings (snd (clamp_job_ttl_days wc)) = sc_media_mappings (snd wc)"
  "sc_media_roots (snd (clamp_memory_gate_poll_s wc)) = sc_media_roots (snd wc)"
  "sc_media_mappings (snd (clamp_memory_gate_poll_s wc)) = sc_media_mappings (snd wc)"
  "sc_media_roots (snd (clamp_max_concurrent_worker_startups wc)) = sc_media_roots (snd wc)"
  "sc_media_mappings (snd (clamp_max_concurrent_worker_startups wc)) = sc_media_mappings (snd wc)"
  "sc_media_roots (snd (clamp_gpu_thread_pool_size wc)) = sc_media_roots (snd wc)"
  "sc_media_mappings (snd (clamp_gpu_thread_pool_size wc)) = sc_media_mappings (snd wc)"
  "sc_media_roots (snd (clamp_temporal_server_url wc)) = sc_media_roots (snd wc)"
  "sc_media_mappings (snd (clamp_temporal_server_url wc)) = sc_media_mappings (snd wc)"
  "sc_media_roots (snd (clamp_temporal_namespace wc)) = sc_media_roots (snd wc)"
  "sc_media_mappings (snd (clamp_temporal_namespace wc)) = sc_media_mappings (snd wc)"
  "sc_media_roots (snd (clamp_temporal_task_queue wc)) = sc_media_roots (snd wc)"
  "sc_media_mappings (snd (clamp_temporal_task_queue wc)) = sc_media_mappings (snd wc)"
  "sc_media_roots (snd (clamp_temporal_heartbeat_s wc)) = sc_media_roots (snd wc)"
  "sc_media_mappings (snd (clamp_temporal_heartbeat_s wc)) = sc_media_mappings (snd wc)"
  "sc_media_roots (snd (clamp_temporal_activity_timeout_s wc)) = sc_media_roots (snd wc)"
  "sc_media_mappings (snd (clamp_temporal_activity_timeout_s wc)) = sc_media_mappings (snd wc)"
  by (simp_all add: clamp_defs)

lemma media_warnings_clamp_all:
  "media_warnings is_dir (snd (clamp_all (ws, c))) = media_warnings is_dir c"
  by (simp add: media_warnings_def clamp_all_def clamp_keeps_media)

text \<open>
  Validation always returns a configuration whose fields are in range, warns (beyond the missing
  media directories) exactly when the given one was not, changes it in exactly the same cases,
  and validating the result again changes nothing and only repeats the media warnings.
\<close>
theorem validate_clamps:
  "config_ok (snd (validate is_dir c)) \<and>
   (fst (validate is_dir c) = media_warnings is_dir c) = config_ok c \<and>
   (snd (validate is_dir c) = c) = config_ok c \<and>
   validate is_dir (snd (validate is_dir c)) =
     (media_warnings is_dir c, snd (validate is_dir c))"
  by (simp add: validate_clamp_all media_warnings_clamp_all checks.repair checks.silent_iff
      checks.unchanged_iff checks.again)

section \<open>What resolution achieves\<close>

lemma resolved_tier_headroom:
  "mt_headroom_mb (resolved_memory_tier detected c) =
     mt_headroom_mb (tier_by_name (sc_memory_tier c) detected)"
  by (simp add: resolved_memory_tier_def Let_def split: option.split)

lemma resolved_tier_reservation:
  "startup_reservation_mb_for_tier WpGpu (resolved_memory_tier detected c) =
     (if 0 < sc_gpu_startup_mb c then sc_gpu_startup_mb c
      else mt_gpu_startup_mb (tier_by_name (sc_memory_tier c) detected))"
  "startup_reservation_mb_for_tier WpStanza (resolved_memory_tier detected c) =
     (if 0 < sc_stanza_startup_mb c then sc_stanza_startup_mb c
      else mt_stanza_startup_mb (tier_by_name (sc_memory_tier c) detected))"
  "startup_reservation_mb_for_tier WpIo (resolved_memory_tier detected c) =
     (if 0 < sc_io_startup_mb c then sc_io_startup_mb c
      else mt_io_startup_mb (tier_by_name (sc_memory_tier c) detected))"
  by (simp_all add: resolved_memory_tier_def Let_def split: option.split)

lemma tier_by_name_headroom:
  "2000 \<le> mt_headroom_mb (tier_by_name name (from_total_mb n))"
  by (simp add: tier_by_name_def from_total_mb_def)

text \<open>
  The headroom the coordinator works with is never 0: a configured 0 resolves to the headroom of
  the memory tier, at least 2000 MB, on every machine. The field's comment says that 0 disables
  the headroom checks; no configuration does.
\<close>
theorem memory_gate_never_disabled:
  "0 < resolved_memory_gate_mb (from_total_mb n) c \<and>
   2000 \<le> resolved_memory_gate_mb (from_total_mb n) (c\<lparr>sc_memory_gate_mb := 0\<rparr>)"
  using tier_by_name_headroom [of "sc_memory_tier c" n]
  by (simp add: resolved_memory_gate_mb_def resolved_tier_headroom)

end
