(* ===== verification/Host_Policy.thy ===== *)
theory Host_Policy
  imports Server_Config
begin

text \<open>
  The execution policy of a host (\<open>host_policy.rs\<close>) and the kernel plan of a command
  (\<open>commands/kernel.rs\<close>): bootstrap mode, warmup, job slots, the execution lane and the number
  of files a job works on at once. The number of CPUs is an argument.
\<close>

section \<open>Host policy\<close>

definition AUTO_CONCURRENT_MAX_SLOTS :: nat where
  "AUTO_CONCURRENT_MAX_SLOTS = 8"

definition AUTO_CONCURRENT_FALLBACK_SLOTS :: nat where
  "AUTO_CONCURRENT_FALLBACK_SLOTS = 4"

datatype StartupWarmupPolicy = WarmupDisabled | WarmupEligibleCommands

record HostExecutionPolicy =
  hp_memory_tier :: MemoryTier
  hp_bootstrap_mode :: WorkerBootstrapMode
  hp_startup_warmup :: StartupWarmupPolicy

definition policy_from_memory_tier :: "MemoryTier \<Rightarrow> HostExecutionPolicy" where
  "policy_from_memory_tier tier =
     (let constrained = mt_kind tier = TkSmall
      in \<lparr>hp_memory_tier = tier,
          hp_bootstrap_mode = (if constrained then BootTask else BootProfile),
          hp_startup_warmup = (if constrained then WarmupDisabled else WarmupEligibleCommands)\<rparr>)"

definition default_host_policy :: HostExecutionPolicy where
  "default_host_policy = policy_from_memory_tier (from_total_mb 64000)"

definition policy_from_server_config :: "MemoryTier \<Rightarrow> ServerConfig \<Rightarrow> HostExecutionPolicy" where
  "policy_from_server_config detected c =
     policy_from_memory_tier (resolved_memory_tier detected c)"

definition is_constrained_host :: "HostExecutionPolicy \<Rightarrow> bool" where
  "is_constrained_host p \<longleftrightarrow> hp_bootstrap_mode p = BootTask"

text \<open>\<open>usize::clamp\<close> to the slot range, then the memory cap, which counts as at least one.\<close>

definition auto_max_concurrent_from :: "nat \<Rightarrow> nat \<Rightarrow> nat" where
  "auto_max_concurrent_from by_cpu by_memory =
     min (if by_cpu < 1 then 1
          else if AUTO_CONCURRENT_MAX_SLOTS < by_cpu then AUTO_CONCURRENT_MAX_SLOTS
          else by_cpu)
       (max by_memory 1)"

definition auto_max_concurrent_jobs :: "nat option \<Rightarrow> HostExecutionPolicy \<Rightarrow> nat" where
  "auto_max_concurrent_jobs available_parallelism p =
     auto_max_concurrent_from
       (case available_parallelism of None \<Rightarrow> AUTO_CONCURRENT_FALLBACK_SLOTS | Some n \<Rightarrow> n)
       (mt_max_suggested_workers (hp_memory_tier p))"

definition resolved_file_parallelism ::
  "HostExecutionPolicy \<Rightarrow> ConstrainedHostPolicy \<Rightarrow> nat \<Rightarrow> nat" where
  "resolved_file_parallelism p constrained suggested =
     (if is_constrained_host p \<and>
         (constrained = SequentialFallback \<or> constrained = ChDelegatedToSubcommands)
      then 1
      else max suggested 1)"

definition allows_command_warmup :: "HostExecutionPolicy \<Rightarrow> WarmupPolicy \<Rightarrow> bool \<Rightarrow> bool" where
  "allows_command_warmup p warmup test_echo_mode \<longleftrightarrow>
     test_echo_mode \<and> hp_startup_warmup p = WarmupEligibleCommands \<and> warmup = BackgroundEligible"

section \<open>Kernel plan\<close>

text \<open>The worker caps of \<open>runtime_constants.toml\<close>.\<close>

definition max_gpu_workers :: nat where
  "max_gpu_workers = 8"

definition max_process_workers :: nat where
  "max_process_workers = 8"

definition max_thread_workers :: nat where
  "max_thread_workers = 8"

definition mb_per_file_mb :: nat where
  "mb_per_file_mb = 25"

datatype ExecutionLaneHint =
  LaneGpu nat
| LaneCpu nat nat
| LaneIo nat
| LaneMixed nat nat
| LaneDelegated

fun max_parallelism :: "ExecutionLaneHint \<Rightarrow> nat" where
  "max_parallelism (LaneGpu max_workers) = max max_workers 1"
| "max_parallelism (LaneCpu procs threads) = max (max procs threads) 1"
| "max_parallelism (LaneIo max_workers) = max max_workers 1"
| "max_parallelism (LaneMixed gpus threads) = max (max gpus threads) 1"
| "max_parallelism LaneDelegated = 1"

definition execution_lane_for :: "ResourceLane \<Rightarrow> ModelSharingPolicy \<Rightarrow> ExecutionLaneHint" where
  "execution_lane_for lane sharing =
     (case sharing of
        MsDelegatedToSubcommands \<Rightarrow> LaneDelegated
      | SharedWarmWorkers \<Rightarrow>
          (case lane of
             GpuHeavy \<Rightarrow> LaneGpu max_gpu_workers
           | CpuBound \<Rightarrow> LaneCpu max_process_workers max_thread_workers
           | IoBound \<Rightarrow> LaneIo max_thread_workers
           | MixedLane \<Rightarrow> LaneMixed max_gpu_workers max_thread_workers))"

definition suggested_parallelism ::
  "ParallelismPolicy \<Rightarrow> ExecutionLaneHint \<Rightarrow> nat \<Rightarrow> nat" where
  "suggested_parallelism parallelism lane file_count =
     (let discovered_files = max file_count 1
      in case parallelism of
           SingleDispatchPerJob \<Rightarrow> 1
         | PpDelegatedToSubcommands \<Rightarrow> 1
         | BoundedFileWorkers \<Rightarrow> min discovered_files (max_parallelism lane))"

record CommandKernelPlan =
  kp_command :: ReleasedCommand
  kp_scheduling :: SchedulingPolicy
  kp_model_sharing :: ModelSharingPolicy
  kp_batching :: BatchingPolicy
  kp_resource_lane :: ResourceLane
  kp_constrained_host :: ConstrainedHostPolicy
  kp_warmup :: WarmupPolicy
  kp_worker_bootstrap :: WorkerBootstrapMode
  kp_execution_lane :: ExecutionLaneHint
  kp_file_parallelism_hint :: nat
  kp_execution_budget_mb :: nat
  kp_per_file_buffer_mb :: nat
  kp_uses_host_memory_gate :: bool

definition plan_for_command ::
  "ReleasedCommand \<Rightarrow> nat \<Rightarrow> HostExecutionPolicy \<Rightarrow> CommandKernelPlan option" where
  "plan_for_command command file_count p =
     (case released_command_definition command of
        None \<Rightarrow> None
      | Some d \<Rightarrow>
          (let shape = def_execution_shape d;
               lane = execution_lane_for (resource_lane shape) (model_sharing_policy shape);
               hint = resolved_file_parallelism p (constrained_host_policy shape)
                        (suggested_parallelism (parallelism_policy shape) lane file_count)
           in Some \<lparr>kp_command = command, kp_scheduling = scheduling_policy shape,
                    kp_model_sharing = model_sharing_policy shape,
                    kp_batching = batching_policy shape,
                    kp_resource_lane = resource_lane shape,
                    kp_constrained_host = constrained_host_policy shape,
                    kp_warmup = warmup_policy shape,
                    kp_worker_bootstrap = hp_bootstrap_mode p,
                    kp_execution_lane = lane, kp_file_parallelism_hint = hint,
                    kp_execution_budget_mb =
                      command_execution_budget_mb (command_as_str command),
                    kp_per_file_buffer_mb = mb_per_file_mb,
                    kp_uses_host_memory_gate = uses_host_memory_gate shape\<rparr>))"

section \<open>Bounds\<close>

lemma auto_slots_bounds:
  "1 \<le> auto_max_concurrent_from cpu mem \<and> auto_max_concurrent_from cpu mem \<le> 8 \<and>
   auto_max_concurrent_from cpu mem \<le> max mem 1"
  by (auto simp: auto_max_concurrent_from_def AUTO_CONCURRENT_MAX_SLOTS_def)

lemma max_parallelism_lane: "1 \<le> max_parallelism l \<and> max_parallelism (execution_lane_for r s) \<le> 8"
  by (cases l; cases r; cases s)
    (simp_all add: execution_lane_for_def max_gpu_workers_def max_process_workers_def
      max_thread_workers_def)

lemma suggested_parallelism_bounds:
  "1 \<le> suggested_parallelism par l n \<and> suggested_parallelism par l n \<le> max n 1 \<and>
   suggested_parallelism par l n \<le> max_parallelism l"
  using max_parallelism_lane [of l undefined undefined]
  by (cases par) (auto simp: suggested_parallelism_def)

text \<open>
  Every released command has a kernel plan, and the number of files the plan works on at once is
  the files of the job (one for none), at most 8, for a per-file audio or media analysis
  command on a host that is not short of memory, and one in every other case.
\<close>
theorem kernel_plan_parallelism:
  "\<exists>plan. plan_for_command c n p = Some plan \<and> kp_command plan = c \<and>
     kp_worker_bootstrap plan = hp_bootstrap_mode p \<and>
     kp_file_parallelism_hint plan =
       (if kp_scheduling plan \<in> {SpPerFileAudio, SpPerFileMediaAnalysis} \<and>
           hp_bootstrap_mode p = BootProfile
        then min 8 (max n 1) else 1)"
proof -
  let ?s = "def_execution_shape (catalog_entry c)"
  let ?l = "execution_lane_for (resource_lane ?s) (model_sharing_policy ?s)"
  let ?k = "suggested_parallelism (parallelism_policy ?s) ?l n"
  have k: "?k = (if scheduling_policy ?s \<in> {SpPerFileAudio, SpPerFileMediaAnalysis}
      then min 8 (max n 1) else 1)"
    by (cases ?s)
      (simp_all add: suggested_parallelism_def execution_lane_for_def max_gpu_workers_def
        max_thread_workers_def min.commute)
  have h: "resolved_file_parallelism p ch k = (if is_constrained_host p then 1 else max k 1)" for ch k
    by (cases ch) (simp_all add: resolved_file_parallelism_def)
  show ?thesis
    by (cases "hp_bootstrap_mode p")
      (auto simp: plan_for_command_def Let_def h k is_constrained_host_def)
qed

text \<open>Warmup of a command happens only in the echo mode used by tests.\<close>

lemma no_warmup_in_production: "\<not> allows_command_warmup p w False"
  by (simp add: allows_command_warmup_def)

end
