(* ===== verification/Host_Memory.thy ===== *)
theory Host_Memory
  imports Host_Policy
begin

text \<open>
  The host-wide memory ledger (\<open>host_memory.rs\<close>): a JSON file of leases shared by every server
  process of a machine, each access under an exclusive file lock. The state is the contents of that
  file; what one access meets outside the program (I/O failures, the processes that are alive, the
  memory the system reports, a fresh identifier, the clock) is the record of the access. The file
  lock makes accesses atomic, so concurrent processes are sequences of accesses.
\<close>

section \<open>Leases, errors, configuration\<close>

datatype HostMemoryPressureLevel = PlHealthy | PlGuarded | PlConstrained | PlCritical

record HostMemoryRuntimeConfig =
  hm_coordinator_path :: rstr
  hm_reserve_mb :: nat
  hm_max_concurrent_worker_startups :: nat

definition hm_from_server_config ::
  "rstr \<Rightarrow> MemoryTier \<Rightarrow> ServerConfig \<Rightarrow> HostMemoryRuntimeConfig" where
  "hm_from_server_config path detected c =
     \<lparr>hm_coordinator_path = path, hm_reserve_mb = resolved_memory_gate_mb detected c,
      hm_max_concurrent_worker_startups = sc_max_concurrent_worker_startups c\<rparr>"

definition hm_from_sources :: "rstr \<Rightarrow> nat \<Rightarrow> nat \<Rightarrow> HostMemoryRuntimeConfig" where
  "hm_from_sources path reserve startups =
     \<lparr>hm_coordinator_path = path, hm_reserve_mb = reserve,
      hm_max_concurrent_worker_startups = max startups 1\<rparr>"

datatype MemoryLeaseKind = WorkerStartup | JobExecution | MlTestExclusive

record MemoryLeaseRecord =
  ml_id :: rstr
  ml_kind :: MemoryLeaseKind
  ml_owner_pid :: nat
  ml_reserved_mb :: nat
  ml_startup_slot :: bool
  ml_label :: rstr
  ml_created_at_epoch_s :: nat

record MemoryLeaseRequest =
  rq_kind :: MemoryLeaseKind
  rq_reserved_mb :: nat
  rq_startup_slot :: bool
  rq_label :: rstr

record HostMemoryLease =
  hl_ledger_path :: rstr
  hl_lease_id :: rstr
  hl_released :: bool

definition new_lease :: "rstr \<Rightarrow> rstr \<Rightarrow> HostMemoryLease" where
  "new_lease path lease_id = \<lparr>hl_ledger_path = path, hl_lease_id = lease_id, hl_released = False\<rparr>"

record JobExecutionPlan =
  ep_granted_workers :: nat
  ep_requested_workers :: nat
  ep_lease :: HostMemoryLease
  ep_reserved_mb :: nat

datatype HostMemoryError =
  HmIo rstr rstr
| HmCorruptLedger rstr rstr
| HmCapacityRejected rstr nat nat nat nat nat
  \<comment> \<open>label, available, pending, requested, reserve, total\<close>
| HmMlTestLockBusy "rstr list"
| HmStartupSlotsBusy rstr nat nat
| HmTimedOut rstr nat rstr

text \<open>
  \<open>Display\<close> of an error. The list of holders is printed by \<open>Debug\<close>, whose treatment of
  characters outside printable ASCII is a Unicode table of the standard library, the argument
  \<open>esc\<close>.
\<close>

definition debug_char :: "(rchar \<Rightarrow> rstr) \<Rightarrow> rchar \<Rightarrow> rstr" where
  "debug_char esc c =
     (if c = 0 then [92, 48] else if c = 9 then [92, 116] else if c = 10 then [92, 110]
      else if c = 13 then [92, 114] else if c = 34 then [92, 34] else if c = 92 then [92, 92]
      else if 32 \<le> c \<and> c < 127 then [c] else esc c)"

definition debug_str :: "(rchar \<Rightarrow> rstr) \<Rightarrow> rstr \<Rightarrow> rstr" where
  "debug_str esc s = [34] @ concat (map (debug_char esc) s) @ [34]"

definition debug_list :: "(rchar \<Rightarrow> rstr) \<Rightarrow> rstr list \<Rightarrow> rstr" where
  "debug_list esc ss = [91] @ join_with (lit '', '') (map (debug_str esc) ss) @ [93]"

fun hm_error_display :: "(rchar \<Rightarrow> rstr) \<Rightarrow> HostMemoryError \<Rightarrow> rstr" where
  "hm_error_display esc (HmIo path source) =
     lit ''host-memory ledger I/O failed at '' @ path @ lit '': '' @ source"
| "hm_error_display esc (HmCorruptLedger path message) =
     lit ''host-memory ledger is corrupt at '' @ path @ lit '': '' @ message"
| "hm_error_display esc (HmCapacityRejected label available pending requested reserve total_mb) =
     lit ''host-memory reserve would be exceeded for '' @ label @ lit '': '' @
     show_nat available @ lit '' MB available, '' @
     show_nat pending @ lit '' MB already reserved, '' @
     show_nat requested @ lit '' MB requested, '' @
     show_nat reserve @ lit '' MB reserved for host headroom (total RAM: '' @
     show_nat total_mb @ lit '' MB)''"
| "hm_error_display esc (HmMlTestLockBusy holders) =
     lit ''machine-wide ML test lock is already held by '' @ debug_list esc holders"
| "hm_error_display esc (HmStartupSlotsBusy label active max_slots) =
     lit ''worker startup slots busy for '' @ label @ lit '': '' @ show_nat active @ lit ''/'' @
     show_nat max_slots @ lit '' local startup slots in use''"
| "hm_error_display esc (HmTimedOut label waited reason) =
     lit ''timed out waiting for host-memory capacity for '' @ label @ lit '' after '' @
     show_nat waited @ lit ''s: '' @ reason"

section \<open>Decisions\<close>

definition pressure_level_for :: "nat \<Rightarrow> nat \<Rightarrow> HostMemoryPressureLevel" where
  "pressure_level_for available reserve =
     (if available \<le> reserve then PlCritical
      else (let extra = sat_sub available reserve
            in if extra \<le> 2048 then PlConstrained
               else if extra \<le> 8192 then PlGuarded
               else PlHealthy))"

text \<open>
  \<open>plan_job_reservation\<close>: the loop over \<open>(1..=requested_workers).rev()\<close>, as recursion on
  the number of workers still to try.
\<close>

primrec plan_from :: "nat \<Rightarrow> nat \<Rightarrow> nat \<Rightarrow> nat \<Rightarrow> nat \<Rightarrow> (nat \<times> nat) option" where
  "plan_from 0 budget available reserve pending = None"
| "plan_from (Suc w) budget available reserve pending =
     (let requested_mb = sat_mul budget (Suc w);
          projected = sat_sub (sat_sub available pending) requested_mb
      in if reserve \<le> projected then Some (Suc w, requested_mb)
         else plan_from w budget available reserve pending)"

definition plan_job_reservation ::
  "nat \<Rightarrow> nat \<Rightarrow> nat \<Rightarrow> nat \<Rightarrow> nat \<Rightarrow> (nat \<times> nat) option" where
  "plan_job_reservation requested_workers budget available reserve pending =
     plan_from requested_workers budget available reserve pending"

definition capacity_rejection_is_retryable :: "nat \<Rightarrow> nat \<Rightarrow> nat \<Rightarrow> bool" where
  "capacity_rejection_is_retryable total_mb requested reserve \<longleftrightarrow>
     sat_add requested reserve \<le> total_mb"

fun retryable_error :: "HostMemoryError \<Rightarrow> bool" where
  "retryable_error (HmCapacityRejected label available pending requested reserve total_mb) =
     capacity_rejection_is_retryable total_mb requested reserve"
| "retryable_error (HmMlTestLockBusy holders) = True"
| "retryable_error (HmStartupSlotsBusy label active max_slots) = True"
| "retryable_error (HmIo path source) = False"
| "retryable_error (HmCorruptLedger path message) = False"
| "retryable_error (HmTimedOut label waited reason) = False"

section \<open>One access to the ledger\<close>

text \<open>
  What the file holds: nothing but white space, text that is not a ledger (with the parser's
  message), or a ledger. Writing a ledger and parsing it back gives the same leases (serde).
\<close>

datatype LedgerFile = LfBlank | LfGarbled rstr | LfLeases "MemoryLeaseRecord list"

text \<open>
  How the write-back at the end of an access goes, with the text of the error: it is done, or it
  fails at \<open>set_len\<close>, at \<open>seek\<close>, in the middle of the JSON (leaving nothing or a text that
  does not parse), at the final newline or at \<open>sync_all\<close>.
\<close>

datatype WriteOutcome =
  WriteDone
| SetLenFails rstr
| SeekFails rstr
| JsonFails rstr "rstr option"
| NewlineFails rstr
| SyncFails rstr

text \<open>
  One access, with what a second access meets that the drop of its result makes (its file opened
  again, the processes alive then, its write-back).
\<close>

record LedgerAccess =
  la_open_error :: "rstr option"
  la_alive :: "nat \<Rightarrow> bool"
  la_write :: WriteOutcome
  la_reopen_error :: "rstr option"
  la_realive :: "nat \<Rightarrow> bool"
  la_rewrite :: WriteOutcome
  la_total_bytes :: nat
  la_available_bytes :: nat
  la_pid :: nat
  la_uuid :: rstr
  la_epoch_s :: nat

definition total_mb_of :: "LedgerAccess \<Rightarrow> nat" where
  "total_mb_of a = la_total_bytes a div (1024 * 1024)"

definition available_mb_of :: "LedgerAccess \<Rightarrow> nat" where
  "available_mb_of a = la_available_bytes a div (1024 * 1024)"

text \<open>An access returns, or never does: it waits for a lock that is not given back.\<close>

datatype 'a ledger_result = LrReturn "HostMemoryError + 'a" | LrBlocks

definition prune_stale_leases ::
  "LedgerAccess \<Rightarrow> MemoryLeaseRecord list \<Rightarrow> MemoryLeaseRecord list" where
  "prune_stale_leases a leases = filter (\<lambda>l. la_alive a (ml_owner_pid l)) leases"

text \<open>
  An early return drops the locals of \<open>with_locked_ledger\<close> in the reverse order of their declaration.
  Dropping the file closes it, which gives its lock back; dropping the result of the action drops what
  it holds. \<open>drop_value held x f\<close> is the drop of a value, with the lock of this access held or not, on
  the file \<open>f\<close>; None when it never returns.
\<close>

datatype 'a Local = LocalFile | LocalText | LocalLedger | LocalResult "HostMemoryError + 'a"

fun drop_local ::
  "(bool \<Rightarrow> 'a \<Rightarrow> LedgerFile \<Rightarrow> LedgerFile option) \<Rightarrow> 'a Local \<Rightarrow> bool \<times> LedgerFile \<Rightarrow> (bool \<times> LedgerFile) option" where
  "drop_local drop_value LocalFile (held, f) = Some (False, f)"
| "drop_local drop_value LocalText (held, f) = Some (held, f)"
| "drop_local drop_value LocalLedger (held, f) = Some (held, f)"
| "drop_local drop_value (LocalResult (Inl e)) (held, f) = Some (held, f)"
| "drop_local drop_value (LocalResult (Inr x)) (held, f) = map_option (Pair held) (drop_value held x f)"

fun drop_locals ::
  "(bool \<Rightarrow> 'a \<Rightarrow> LedgerFile \<Rightarrow> LedgerFile option) \<Rightarrow> 'a Local list \<Rightarrow> bool \<times> LedgerFile \<Rightarrow> (bool \<times> LedgerFile) option" where
  "drop_locals drop_value [] s = Some s"
| "drop_locals drop_value (l # ls) s = Option.bind (drop_local drop_value l s) (drop_locals drop_value ls)"

definition give_up ::
  "(bool \<Rightarrow> 'a \<Rightarrow> LedgerFile \<Rightarrow> LedgerFile option) \<Rightarrow> HostMemoryError + 'a \<Rightarrow> HostMemoryError \<Rightarrow> LedgerFile \<Rightarrow>
   'a ledger_result \<times> LedgerFile" where
  "give_up drop_value result error f =
     (case drop_locals drop_value (rev [LocalFile, LocalText, LocalLedger, LocalResult result]) (True, f) of
        None \<Rightarrow> (LrBlocks, f)
      | Some (held, f) \<Rightarrow> (LrReturn (Inl error), f))"

text \<open>
  \<open>held\<close>: the thread that makes the access has the ledger open and locked already. The lock belongs to
  the open file, so an exclusive lock through a second one waits for the first to be closed.
\<close>

definition with_locked_ledger ::
  "rstr \<Rightarrow> LedgerAccess \<Rightarrow> bool \<Rightarrow> (bool \<Rightarrow> 'a \<Rightarrow> LedgerFile \<Rightarrow> LedgerFile option) \<Rightarrow>
   (MemoryLeaseRecord list \<Rightarrow> (HostMemoryError + 'a) \<times> MemoryLeaseRecord list) \<Rightarrow>
   LedgerFile \<Rightarrow> 'a ledger_result \<times> LedgerFile" where
  "with_locked_ledger path a held drop_value action f =
     (case la_open_error a of
        Some source \<Rightarrow> (LrReturn (Inl (HmIo path source)), f)
      | None \<Rightarrow>
          if held then (LrBlocks, f)
          else
          (case (case f of LfBlank \<Rightarrow> Inr [] | LfGarbled m \<Rightarrow> Inl m | LfLeases ls \<Rightarrow> Inr ls) of
             Inl message \<Rightarrow> (LrReturn (Inl (HmCorruptLedger path message)), f)
           | Inr leases \<Rightarrow>
               (let (result, leases') = action (prune_stale_leases a leases)
                in case la_write a of
                     WriteDone \<Rightarrow> (LrReturn result, LfLeases leases')
                   | SetLenFails s \<Rightarrow> give_up drop_value result (HmIo path s) f
                   | SeekFails s \<Rightarrow> give_up drop_value result (HmIo path s) LfBlank
                   | JsonFails s left \<Rightarrow>
                       give_up drop_value result (HmCorruptLedger path s)
                         (case left of None \<Rightarrow> LfBlank | Some m \<Rightarrow> LfGarbled m)
                   | NewlineFails s \<Rightarrow> give_up drop_value result (HmIo path s) (LfLeases leases')
                   | SyncFails s \<Rightarrow> give_up drop_value result (HmIo path s) (LfLeases leases'))))"

text \<open>Values without a lease are dropped without an effect.\<close>

definition drop_plain :: "bool \<Rightarrow> 'a \<Rightarrow> LedgerFile \<Rightarrow> LedgerFile option" where
  "drop_plain held x f = Some f"

section \<open>Operations\<close>

definition release_action :: "HostMemoryLease \<Rightarrow> MemoryLeaseRecord list \<Rightarrow> (HostMemoryError + unit) \<times> MemoryLeaseRecord list" where
  "release_action lease leases = (Inr (), filter (\<lambda>l. ml_id l \<noteq> hl_lease_id lease) leases)"

definition release_internal ::
  "LedgerAccess \<Rightarrow> HostMemoryLease \<Rightarrow> LedgerFile \<Rightarrow> HostMemoryLease \<times> LedgerFile" where
  "release_internal a lease f =
     (if hl_released lease then (lease, f)
      else (let (r, f') = with_locked_ledger (hl_ledger_path lease) a False drop_plain (release_action lease) f
            in (lease\<lparr>hl_released := True\<rparr>, f')))"

text \<open>
  \<open>Drop\<close> of a lease releases it by an access of its own, which is made while the thread may still hold
  the lock of the access that is being given up.
\<close>

definition drop_lease :: "LedgerAccess \<Rightarrow> bool \<Rightarrow> HostMemoryLease \<Rightarrow> LedgerFile \<Rightarrow> LedgerFile option" where
  "drop_lease a held lease f =
     (if hl_released lease then Some f
      else
        (case with_locked_ledger (hl_ledger_path lease)
                (a\<lparr>la_open_error := la_reopen_error a, la_alive := la_realive a, la_write := la_rewrite a\<rparr>)
                held drop_plain (release_action lease) f of
           (LrBlocks, f) \<Rightarrow> None
         | (LrReturn r, f) \<Rightarrow> Some f))"

definition pending_reserved_mb :: "MemoryLeaseRecord list \<Rightarrow> nat" where
  "pending_reserved_mb leases = wrap_sum (map ml_reserved_mb leases)"

definition acquire_action ::
  "HostMemoryRuntimeConfig \<Rightarrow> LedgerAccess \<Rightarrow> MemoryLeaseRequest \<Rightarrow> MemoryLeaseRecord list \<Rightarrow>
   (HostMemoryError + HostMemoryLease) \<times> MemoryLeaseRecord list" where
  "acquire_action cfg a req leases =
     (let holders = map ml_label (filter (\<lambda>l. ml_kind l = MlTestExclusive) leases);
          active_slots = length (filter ml_startup_slot leases);
          pending = pending_reserved_mb leases;
          projected = sat_sub (sat_sub (available_mb_of a) pending) (rq_reserved_mb req);
          entry = \<lparr>ml_id = la_uuid a, ml_kind = rq_kind req, ml_owner_pid = la_pid a,
                   ml_reserved_mb = rq_reserved_mb req, ml_startup_slot = rq_startup_slot req,
                   ml_label = rq_label req, ml_created_at_epoch_s = la_epoch_s a\<rparr>
      in if rq_kind req = MlTestExclusive \<and> holders \<noteq> [] then
           (Inl (HmMlTestLockBusy holders), leases)
         else if rq_startup_slot req \<and> hm_max_concurrent_worker_startups cfg \<le> active_slots then
           (Inl (HmStartupSlotsBusy (rq_label req) active_slots
              (hm_max_concurrent_worker_startups cfg)), leases)
         else if projected < hm_reserve_mb cfg then
           (Inl (HmCapacityRejected (rq_label req) (available_mb_of a) pending
              (rq_reserved_mb req) (hm_reserve_mb cfg) (total_mb_of a)), leases)
         else (Inr (new_lease (hm_coordinator_path cfg) (la_uuid a)), leases @ [entry]))"

definition try_acquire_lease ::
  "HostMemoryRuntimeConfig \<Rightarrow> MemoryLeaseRequest \<Rightarrow> LedgerAccess \<Rightarrow> LedgerFile \<Rightarrow>
   HostMemoryLease ledger_result \<times> LedgerFile" where
  "try_acquire_lease cfg req a f =
     with_locked_ledger (hm_coordinator_path cfg) a False (drop_lease a) (acquire_action cfg a req) f"

definition plan_action ::
  "HostMemoryRuntimeConfig \<Rightarrow> LedgerAccess \<Rightarrow> nat \<Rightarrow> nat \<Rightarrow> rstr \<Rightarrow> MemoryLeaseRecord list \<Rightarrow>
   (HostMemoryError + JobExecutionPlan) \<times> MemoryLeaseRecord list" where
  "plan_action cfg a budget requested label leases =
     (let pending = pending_reserved_mb leases
      in case plan_job_reservation requested budget (available_mb_of a) (hm_reserve_mb cfg)
                pending of
           None \<Rightarrow>
             (Inl (HmCapacityRejected label (available_mb_of a) pending
                (sat_mul budget requested) (hm_reserve_mb cfg) (total_mb_of a)), leases)
         | Some (granted, reserved) \<Rightarrow>
             (Inr \<lparr>ep_granted_workers = granted, ep_requested_workers = requested,
                  ep_lease = new_lease (hm_coordinator_path cfg) (la_uuid a),
                  ep_reserved_mb = reserved\<rparr>,
              leases @ [\<lparr>ml_id = la_uuid a, ml_kind = JobExecution, ml_owner_pid = la_pid a,
                         ml_reserved_mb = reserved, ml_startup_slot = False, ml_label = label,
                         ml_created_at_epoch_s = la_epoch_s a\<rparr>]))"

definition try_plan_job_execution ::
  "HostMemoryRuntimeConfig \<Rightarrow> ReleasedCommand \<Rightarrow> nat \<Rightarrow> rstr \<Rightarrow> LedgerAccess \<Rightarrow> LedgerFile \<Rightarrow>
   JobExecutionPlan ledger_result \<times> LedgerFile" where
  "try_plan_job_execution cfg command requested label a f =
     with_locked_ledger (hm_coordinator_path cfg) a False (\<lambda>held p. drop_lease a held (ep_lease p))
       (plan_action cfg a (command_execution_budget_mb (command_as_str command)) requested label) f"

record HostMemorySnapshot =
  hs_total_mb :: nat
  hs_available_mb :: nat
  hs_reserve_mb :: nat
  hs_active_reserved_mb :: nat
  hs_startup_leases :: nat
  hs_job_execution_leases :: nat
  hs_ml_test_locks :: nat
  hs_active_lease_labels :: "rstr list"
  hs_pressure_level :: HostMemoryPressureLevel

fun lease_kind_debug :: "MemoryLeaseKind \<Rightarrow> rstr" where
  "lease_kind_debug WorkerStartup = lit ''WorkerStartup''"
| "lease_kind_debug JobExecution = lit ''JobExecution''"
| "lease_kind_debug MlTestExclusive = lit ''MlTestExclusive''"

definition host_snapshot ::
  "HostMemoryRuntimeConfig \<Rightarrow> LedgerAccess \<Rightarrow> LedgerFile \<Rightarrow>
   HostMemorySnapshot ledger_result \<times> LedgerFile" where
  "host_snapshot cfg a f =
     with_locked_ledger (hm_coordinator_path cfg) a False drop_plain
       (\<lambda>leases.
          (Inr \<lparr>hs_total_mb = total_mb_of a, hs_available_mb = available_mb_of a,
                hs_reserve_mb = hm_reserve_mb cfg,
                hs_active_reserved_mb = pending_reserved_mb leases,
                hs_startup_leases = length (filter (\<lambda>l. ml_kind l = WorkerStartup) leases),
                hs_job_execution_leases = length (filter (\<lambda>l. ml_kind l = JobExecution) leases),
                hs_ml_test_locks = length (filter (\<lambda>l. ml_kind l = MlTestExclusive) leases),
                hs_active_lease_labels =
                  map (\<lambda>l. lease_kind_debug (ml_kind l) @ lit '':'' @ ml_label l @ lit '':'' @
                         show_nat (ml_reserved_mb l) @ lit ''MB'') leases,
                hs_pressure_level =
                  pressure_level_for (available_mb_of a) (hm_reserve_mb cfg)\<rparr>,
           leases)) f"

section \<open>Waiting\<close>

text \<open>
  The polling loop that \<open>wait_for_lease\<close> and \<open>wait_for_job_execution_plan\<close> have in common.
  Each attempt finds the ledger as the other processes left it and reads the clock up to twice
  (nanoseconds); between attempts the thread sleeps. None: the attempts given are used up and the
  loop is still polling.
\<close>

record Attempt =
  at_access :: LedgerAccess
  at_file :: LedgerFile
  at_now_guard :: nat
  at_now_timeout :: nat

primrec wait_loop ::
  "(LedgerAccess \<Rightarrow> LedgerFile \<Rightarrow> 'a ledger_result \<times> LedgerFile) \<Rightarrow> (HostMemoryError \<Rightarrow> rstr) \<Rightarrow>
   rstr \<Rightarrow> nat \<Rightarrow> nat \<Rightarrow> rstr \<Rightarrow> Attempt list \<Rightarrow> ('a ledger_result \<times> LedgerFile) option" where
  "wait_loop attempt show_error label timeout deadline last_reason [] = None"
| "wait_loop attempt show_error label timeout deadline last_reason (t # ts) =
     (let (r, f) = attempt (at_access t) (at_file t)
      in case r of
           LrBlocks \<Rightarrow> Some (LrBlocks, f)
         | LrReturn (Inr x) \<Rightarrow> Some (LrReturn (Inr x), f)
         | LrReturn (Inl e) \<Rightarrow>
             if 0 < timeout \<and> at_now_guard t < deadline \<and> retryable_error e
             then wait_loop attempt show_error label timeout deadline (show_error e) ts
             else if 0 < timeout \<and> deadline \<le> at_now_timeout t
             then Some (LrReturn (Inl (HmTimedOut label (timeout div 1000000000) last_reason)), f)
             else Some (LrReturn (Inl e), f))"

definition no_decision :: rstr where
  "no_decision = lit ''no capacity decision yet''"

definition wait_for_lease ::
  "HostMemoryRuntimeConfig \<Rightarrow> (rchar \<Rightarrow> rstr) \<Rightarrow> MemoryLeaseRequest \<Rightarrow> nat \<Rightarrow> nat \<Rightarrow>
   Attempt list \<Rightarrow> (HostMemoryLease ledger_result \<times> LedgerFile) option" where
  "wait_for_lease cfg esc req start timeout ts =
     wait_loop (try_acquire_lease cfg req) (hm_error_display esc) (rq_label req) timeout
       (start + timeout) no_decision ts"

definition startup_request ::
  "WorkerProfile \<Rightarrow> nat \<Rightarrow> WorkerLanguage \<Rightarrow> rstr \<Rightarrow> MemoryLeaseRequest" where
  "startup_request profile reservation lang engine_overrides =
     \<lparr>rq_kind = WorkerStartup, rq_reserved_mb = reservation, rq_startup_slot = True,
      rq_label = lit ''worker-startup:'' @ profile_label profile @ lit '':'' @
        as_worker_arg lang @ lit '':'' @ engine_overrides\<rparr>"

definition acquire_worker_startup_lease ::
  "HostMemoryRuntimeConfig \<Rightarrow> (rchar \<Rightarrow> rstr) \<Rightarrow> WorkerProfile \<Rightarrow> nat \<Rightarrow> WorkerLanguage \<Rightarrow> rstr \<Rightarrow>
   nat \<Rightarrow> nat \<Rightarrow> Attempt list \<Rightarrow> (HostMemoryLease ledger_result \<times> LedgerFile) option" where
  "acquire_worker_startup_lease cfg esc profile reservation lang engine_overrides start timeout ts =
     wait_for_lease cfg esc (startup_request profile reservation lang engine_overrides) start
       timeout ts"

definition ml_test_request :: "rstr \<Rightarrow> MemoryLeaseRequest" where
  "ml_test_request label =
     \<lparr>rq_kind = MlTestExclusive, rq_reserved_mb = 0, rq_startup_slot = False, rq_label = label\<rparr>"

definition acquire_ml_test_lock ::
  "HostMemoryRuntimeConfig \<Rightarrow> (rchar \<Rightarrow> rstr) \<Rightarrow> rstr \<Rightarrow> nat \<Rightarrow> nat \<Rightarrow> Attempt list \<Rightarrow>
   (HostMemoryLease ledger_result \<times> LedgerFile) option" where
  "acquire_ml_test_lock cfg esc label start timeout ts =
     wait_for_lease cfg esc (ml_test_request label) start timeout ts"

definition wait_for_job_execution_plan ::
  "HostMemoryRuntimeConfig \<Rightarrow> (rchar \<Rightarrow> rstr) \<Rightarrow> ReleasedCommand \<Rightarrow> nat \<Rightarrow> rstr \<Rightarrow> nat \<Rightarrow> nat \<Rightarrow>
   Attempt list \<Rightarrow> (JobExecutionPlan ledger_result \<times> LedgerFile) option" where
  "wait_for_job_execution_plan cfg esc command requested label start timeout ts =
     wait_loop (try_plan_job_execution cfg command requested label) (hm_error_display esc) label
       timeout (start + timeout) no_decision ts"

text \<open>\<open>host_ledger_suffix\<close>, over the values of \<open>USER\<close> and \<open>USERNAME\<close>.\<close>

definition host_ledger_suffix :: "rstr option \<Rightarrow> rstr option \<Rightarrow> rstr" where
  "host_ledger_suffix user username =
     (let pick = (case user of Some u \<Rightarrow> Some u | None \<Rightarrow> username);
          raw = (case pick of
                   Some v \<Rightarrow> if trim v \<noteq> [] then v else lit ''default''
                 | None \<Rightarrow> lit ''default'')
      in map (\<lambda>c. if is_ascii_alphabetic c \<or> is_ascii_digit c \<or> c = 45 \<or> c = 95
                  then c else 95) raw)"

section \<open>The spawn guard\<close>

text \<open>
  \<open>worker/memory_guard.rs\<close>: every worker start takes a local permit, checks the free memory and
  then waits for a startup lease. The state of the semaphore is an argument.
\<close>

datatype MemoryGuardError =
  InsufficientMemory nat nat nat
| SemaphoreClosed
| HostReservation rstr

definition acquire_spawn_permit ::
  "HostMemoryRuntimeConfig \<Rightarrow> (rchar \<Rightarrow> rstr) \<Rightarrow> bool \<Rightarrow> nat \<Rightarrow> nat \<Rightarrow> nat \<Rightarrow> nat \<Rightarrow>
   WorkerProfile \<Rightarrow> WorkerLanguage \<Rightarrow> rstr \<Rightarrow> nat \<Rightarrow> nat \<Rightarrow> Attempt list \<Rightarrow>
   ((MemoryGuardError + HostMemoryLease) option \<times> LedgerFile option) option" where
  "acquire_spawn_permit cfg esc semaphore_open min_spawn reservation available total_mb
     profile lang engine_overrides start ready_timeout_s ts =
     (let required = max reservation min_spawn
      in if \<not> semaphore_open then Some (Some (Inl SemaphoreClosed), None)
         else if available < required
         then Some (Some (Inl (InsufficientMemory available required total_mb)), None)
         else (case acquire_worker_startup_lease cfg esc profile reservation lang engine_overrides
                     start (max ready_timeout_s 1 * 1000000000) ts of
                 None \<Rightarrow> None
               | Some (LrBlocks, f) \<Rightarrow> Some (None, Some f)
               | Some (LrReturn (Inl e), f) \<Rightarrow>
                   Some (Some (Inl (HostReservation (hm_error_display esc e))), Some f)
               | Some (LrReturn (Inr l), f) \<Rightarrow> Some (Some (Inr l), Some f)))"

end
