(* ===== verification/Host_Ledger.thy ===== *)
theory Host_Ledger
  imports Host_Memory
begin

text \<open>
  What the host-wide ledger guarantees: its invariants over every interleaving of the processes of a
  machine, what a grant leaves free, the optimality of the planned number of workers, the return of
  the polling loop, and two cases where the coordinator does not do what it means to.
\<close>

section \<open>Invariants of the ledger\<close>

fun leases_of :: "LedgerFile \<Rightarrow> MemoryLeaseRecord list" where
  "leases_of (LfLeases ls) = ls"
| "leases_of LfBlank = []"
| "leases_of (LfGarbled m) = []"

text \<open>Of the locals that are dropped only the result can matter: it goes first, with the lock held.\<close>

lemma give_up_simps [simp]:
  "give_up drop_value (Inl e) error f = (LrReturn (Inl error), f)"
  "give_up drop_value (Inr x) error f =
    (case drop_value True x f of None \<Rightarrow> (LrBlocks, f) | Some f' \<Rightarrow> (LrReturn (Inl error), f'))"
  by (simp_all add: give_up_def split: option.split)

lemma give_up_no_value [simp]: "fst (give_up drop_value result error f) \<noteq> LrReturn (Inr x)"
  by (cases result) (simp_all split: option.split)

text \<open>
  A property of lists of leases that the empty list has and that survives the loss of leases is
  kept by an access when the action of the access keeps it.
\<close>

locale ledger_invariant =
  fixes I :: "MemoryLeaseRecord list \<Rightarrow> bool"
  assumes empty: "I []"
    and filtered: "I ls \<Longrightarrow> I (filter P ls)"
begin

text \<open>Giving an access up changes the file only by what is dropped.\<close>

lemma give_up_keeps:
  assumes "I (leases_of f)" "\<And>held x f f'. drop_value held x f = Some f' \<Longrightarrow> I (leases_of f) \<Longrightarrow> I (leases_of f')"
  shows "I (leases_of (snd (give_up drop_value result error f)))"
  using assms(1) assms(2) [of True] by (cases result) (auto split: option.split)

lemma access_keeps:
  assumes "I (leases_of f)"
    and "\<And>ls. I ls \<Longrightarrow> set ls \<subseteq> set (leases_of f) \<Longrightarrow> I (snd (action ls))"
    and "\<And>held x f f'. drop_value held x f = Some f' \<Longrightarrow> I (leases_of f) \<Longrightarrow> I (leases_of f')"
  shows "I (leases_of (snd (with_locked_ledger path a held drop_value action f)))"
proof -
  have ls: "I (prune_stale_leases a (leases_of f))"
    using assms(1) by (simp add: prune_stale_leases_def filtered)
  have sub: "set (prune_stale_leases a (leases_of f)) \<subseteq> set (leases_of f)"
    by (auto simp: prune_stale_leases_def)
  have "I (snd (action (prune_stale_leases a (leases_of f))))"
    by (rule assms(2) [OF ls sub])
  moreover have "I (leases_of f) \<Longrightarrow> I (leases_of (snd (give_up drop_value result error f)))" for result error f
    by (rule give_up_keeps) (use assms(3) in blast)+
  ultimately show ?thesis
    using assms(1) empty
    by (cases f)
      (auto simp: with_locked_ledger_def prune_stale_leases_def split_beta Let_def
        split: option.split WriteOutcome.split)
qed

lemma plain_keeps: "drop_plain held x f = Some f' \<Longrightarrow> I (leases_of f) \<Longrightarrow> I (leases_of f')"
  by (simp add: drop_plain_def)

lemma drop_lease_keeps:
  assumes "drop_lease a held lease f = Some f'" "I (leases_of f)"
  shows "I (leases_of f')"
proof -
  have "I (leases_of (snd (with_locked_ledger (hl_ledger_path lease) b held drop_plain (release_action lease) f)))" for b
    by (rule access_keeps [OF assms(2)]) (simp_all add: release_action_def filtered plain_keeps)
  then show ?thesis
    using assms by (auto simp: drop_lease_def split: if_splits prod.splits ledger_result.splits) (metis snd_conv)
qed

lemma release_keeps:
  assumes "I (leases_of f)"
  shows "I (leases_of (snd (release_internal a lease f)))"
  using assms
  by (auto simp: release_internal_def release_action_def split_beta Let_def intro!: access_keeps filtered intro: plain_keeps)

lemma snapshot_keeps:
  assumes "I (leases_of f)"
  shows "I (leases_of (snd (host_snapshot cfg a f)))"
  using assms by (auto simp: host_snapshot_def intro!: access_keeps intro: plain_keeps)

end

definition exclusive_ok :: "nat \<Rightarrow> MemoryLeaseRecord list \<Rightarrow> bool" where
  "exclusive_ok m ls \<longleftrightarrow>
     length (filter (\<lambda>l. ml_kind l = MlTestExclusive) ls) \<le> 1 \<and>
     length (filter ml_startup_slot ls) \<le> m"

definition ids_distinct :: "MemoryLeaseRecord list \<Rightarrow> bool" where
  "ids_distinct ls \<longleftrightarrow> distinct (map ml_id ls)"

lemma length_filter_filter: "length (filter Q (filter P xs)) \<le> length (filter Q xs)"
  by (induction xs) auto

interpretation exclusive: ledger_invariant "exclusive_ok m" for m
proof
  show "exclusive_ok m []" by (simp add: exclusive_ok_def)
  show "exclusive_ok m (filter P ls)" if "exclusive_ok m ls" for ls P
    using that unfolding exclusive_ok_def
    by (meson length_filter_filter order_trans)
qed

interpretation ids: ledger_invariant ids_distinct
  by unfold_locales (auto simp: ids_distinct_def distinct_map_filter)

lemma acquire_action_exclusive:
  assumes "exclusive_ok m ls" and "hm_max_concurrent_worker_startups cfg = m"
  shows "exclusive_ok m (snd (acquire_action cfg a req ls))"
  using assms by (auto simp: acquire_action_def Let_def exclusive_ok_def)

lemma plan_action_exclusive:
  assumes "exclusive_ok m ls"
  shows "exclusive_ok m (snd (plan_action cfg a budget requested label ls))"
  using assms by (auto simp: plan_action_def Let_def exclusive_ok_def split: option.split)

lemma acquire_action_ids:
  assumes "ids_distinct ls" and "la_uuid a \<notin> ml_id ` set ls"
  shows "ids_distinct (snd (acquire_action cfg a req ls))"
  using assms by (auto simp: acquire_action_def Let_def ids_distinct_def)

lemma plan_action_ids:
  assumes "ids_distinct ls" and "la_uuid a \<notin> ml_id ` set ls"
  shows "ids_distinct (snd (plan_action cfg a budget requested label ls))"
  using assms by (auto simp: plan_action_def Let_def ids_distinct_def split: option.split)

text \<open>
  The ledgers that the processes of a machine can produce together, each with its own headroom but
  the same limit \<open>m\<close> on startups. A UUID is not one already in the file.
\<close>

inductive ledger_reach :: "nat \<Rightarrow> LedgerFile \<Rightarrow> bool" for m :: nat where
  reach_blank: "ledger_reach m LfBlank"
| reach_acquire:
    "ledger_reach m f \<Longrightarrow> hm_max_concurrent_worker_startups cfg = m \<Longrightarrow>
     la_uuid a \<notin> ml_id ` set (leases_of f) \<Longrightarrow>
     ledger_reach m (snd (try_acquire_lease cfg req a f))"
| reach_plan:
    "ledger_reach m f \<Longrightarrow> la_uuid a \<notin> ml_id ` set (leases_of f) \<Longrightarrow>
     ledger_reach m (snd (try_plan_job_execution cfg command requested label a f))"
| reach_release:
    "ledger_reach m f \<Longrightarrow> ledger_reach m (snd (release_internal a lease f))"
| reach_snapshot:
    "ledger_reach m f \<Longrightarrow> ledger_reach m (snd (host_snapshot cfg a f))"

lemma ledger_reach_invariants:
  assumes "ledger_reach m f"
  shows "exclusive_ok m (leases_of f) \<and> ids_distinct (leases_of f)"
  using assms
proof induction
  case reach_blank
  then show ?case by (simp add: exclusive.empty ids.empty)
next
  case (reach_acquire f cfg a req)
  have "exclusive_ok m (leases_of (snd (try_acquire_lease cfg req a f)))"
    unfolding try_acquire_lease_def
    by (rule exclusive.access_keeps) (use reach_acquire acquire_action_exclusive in \<open>auto dest: exclusive.drop_lease_keeps\<close>)
  moreover have "ids_distinct (leases_of (snd (try_acquire_lease cfg req a f)))"
    unfolding try_acquire_lease_def
    by (rule ids.access_keeps) (use reach_acquire in \<open>auto intro!: acquire_action_ids dest: ids.drop_lease_keeps\<close>)
  ultimately show ?case by simp
next
  case (reach_plan f a cfg command requested label)
  have "exclusive_ok m (leases_of (snd (try_plan_job_execution cfg command requested label a f)))"
    unfolding try_plan_job_execution_def
    by (rule exclusive.access_keeps) (use reach_plan plan_action_exclusive in \<open>auto dest: exclusive.drop_lease_keeps\<close>)
  moreover have "ids_distinct (leases_of (snd (try_plan_job_execution cfg command requested label a f)))"
    unfolding try_plan_job_execution_def
    by (rule ids.access_keeps) (use reach_plan in \<open>auto intro!: plan_action_ids dest: ids.drop_lease_keeps\<close>)
  ultimately show ?case by simp
next
  case (reach_release f a lease)
  then show ?case by (simp add: exclusive.release_keeps ids.release_keeps)
next
  case (reach_snapshot f cfg a)
  then show ?case by (simp add: exclusive.snapshot_keeps ids.snapshot_keeps)
qed

text \<open>A small host: one access in which every process is alive and the write succeeds.\<close>

definition demo_access :: "rstr \<Rightarrow> nat \<Rightarrow> LedgerAccess" where
  "demo_access uuid available =
     \<lparr>la_open_error = None, la_alive = (\<lambda>_. True), la_write = WriteDone,
      la_reopen_error = None, la_realive = (\<lambda>_. True), la_rewrite = WriteDone,
      la_total_bytes = 32000 * 1048576, la_available_bytes = available * 1048576, la_pid = 7,
      la_uuid = uuid, la_epoch_s = 0\<rparr>"

definition demo_cfg :: HostMemoryRuntimeConfig where
  "demo_cfg = \<lparr>hm_coordinator_path = [], hm_reserve_mb = 4000,
     hm_max_concurrent_worker_startups = 1\<rparr>"

lemmas demo_ledger_defs = demo_access_def demo_cfg_def total_mb_of_def available_mb_of_def
  with_locked_ledger_def prune_stale_leases_def pending_reserved_mb_def wrap_sum_def
  new_lease_def

lemma demo_limits:
  "hm_max_concurrent_worker_startups demo_cfg = 1" "la_uuid (demo_access u n) = u"
  by (simp_all add: demo_cfg_def demo_access_def)

text \<open>
  C9: However the server processes of a machine interleave, and whatever I/O failures and process
  deaths occur between, the shared ledger never holds two machine-wide test locks, never more
  startup slots than the configured limit, and never two leases with one identifier.
\<close>
theorem ledger_exclusive:
  assumes "ledger_reach m f"
  shows "length (filter (\<lambda>l. ml_kind l = MlTestExclusive) (leases_of f)) \<le> 1 \<and>
     length (filter ml_startup_slot (leases_of f)) \<le> m \<and> distinct (map ml_id (leases_of f))"
  using ledger_reach_invariants [OF assms] by (simp add: exclusive_ok_def ids_distinct_def)

theorem ledger_exclusive_witness:
  "\<exists>f. length (leases_of f) = 2 \<and>
     length (filter (\<lambda>l. ml_kind l = MlTestExclusive) (leases_of f)) \<le> 1 \<and>
     length (filter ml_startup_slot (leases_of f)) \<le> 1 \<and> distinct (map ml_id (leases_of f))"
proof -
  let ?f1 = "snd (try_acquire_lease demo_cfg (ml_test_request []) (demo_access [1] 20000) LfBlank)"
  let ?f2 = "snd (try_acquire_lease demo_cfg (startup_request WpIo 2000 WlAuto [])
    (demo_access [2] 20000) ?f1)"
  have f1: "leases_of ?f1 = [\<lparr>ml_id = [1], ml_kind = MlTestExclusive, ml_owner_pid = 7,
      ml_reserved_mb = 0, ml_startup_slot = False, ml_label = [], ml_created_at_epoch_s = 0\<rparr>]"
    by (simp add: try_acquire_lease_def acquire_action_def ml_test_request_def Let_def
        demo_ledger_defs)
  have "ledger_reach 1 ?f1"
    by (rule reach_acquire) (simp_all add: reach_blank demo_limits)
  then have "ledger_reach 1 ?f2"
    by (rule reach_acquire) (simp_all only: f1, simp_all add: demo_limits)
  moreover have "length (leases_of ?f2) = 2"
    by (simp add: try_acquire_lease_def acquire_action_def ml_test_request_def startup_request_def
        Let_def demo_ledger_defs)
  ultimately show ?thesis using ledger_exclusive by blast
qed

section \<open>What a grant leaves free\<close>

lemma with_locked_granted:
  assumes "with_locked_ledger path a held drop_value action f = (LrReturn (Inr x), f')"
  shows "action (prune_stale_leases a (leases_of f)) = (Inr x, snd (action (prune_stale_leases a (leases_of f))))
    \<and> f' = LfLeases (snd (action (prune_stale_leases a (leases_of f))))"
  using assms
  by (cases f)
    (auto simp: with_locked_ledger_def split_beta Let_def prod_eq_iff
      split: option.splits WriteOutcome.splits sum.splits if_splits)

text \<open>
  C10: A granted lease is appended to the leases of the processes still alive, under the identifier
  the holder was given; and as long as the host keeps any reserve at all, the reservations
  already in the ledger, the new one and the reserve fit in the available memory together.
\<close>
theorem grant_keeps_reserve:
  assumes "try_acquire_lease cfg req a f = (LrReturn (Inr lease), f')"
    and "0 < hm_reserve_mb cfg"
  shows "\<exists>entry. leases_of f' = prune_stale_leases a (leases_of f) @ [entry] \<and>
     ml_id entry = hl_lease_id lease \<and> ml_reserved_mb entry = rq_reserved_mb req \<and>
     pending_reserved_mb (prune_stale_leases a (leases_of f)) + rq_reserved_mb req +
       hm_reserve_mb cfg \<le> available_mb_of a"
proof -
  let ?ls = "prune_stale_leases a (leases_of f)"
  have act: "acquire_action cfg a req ?ls = (Inr lease, snd (acquire_action cfg a req ?ls))"
    and f': "f' = LfLeases (snd (acquire_action cfg a req ?ls))"
    using with_locked_granted [OF assms(1) [unfolded try_acquire_lease_def]] by auto
  show ?thesis
    using act f' assms(2) by (auto simp: acquire_action_def Let_def new_lease_def split: if_splits)
qed

theorem grant_keeps_reserve_witness:
  "\<exists>lease f'. try_acquire_lease demo_cfg (ml_test_request []) (demo_access [1] 20000) LfBlank =
     (LrReturn (Inr lease), f') \<and>
   (\<exists>entry. leases_of f' = prune_stale_leases (demo_access [1] 20000) (leases_of LfBlank) @ [entry] \<and>
     ml_id entry = hl_lease_id lease \<and> ml_reserved_mb entry = rq_reserved_mb (ml_test_request []) \<and>
     pending_reserved_mb (prune_stale_leases (demo_access [1] 20000) (leases_of LfBlank)) +
       rq_reserved_mb (ml_test_request []) + hm_reserve_mb demo_cfg
       \<le> available_mb_of (demo_access [1] 20000))"
proof -
  have g: "\<exists>lease f'. try_acquire_lease demo_cfg (ml_test_request []) (demo_access [1] 20000) LfBlank =
      (LrReturn (Inr lease), f')"
    by (simp add: try_acquire_lease_def acquire_action_def ml_test_request_def Let_def
        demo_ledger_defs)
  have pos: "0 < hm_reserve_mb demo_cfg" by (simp add: demo_cfg_def)
  show ?thesis using g grant_keeps_reserve [OF _ pos] by meson
qed

text \<open>
  C12: Releasing a lease right after it was granted, with its process still alive, a fresh identifier
  and both writes successful, leaves in the ledger exactly the live leases that were there
  before the grant.
\<close>
theorem release_undoes_grant:
  assumes "try_acquire_lease cfg req a f = (LrReturn (Inr lease), f')"
    and "la_uuid a \<notin> ml_id ` set (leases_of f)"
    and "la_open_error b = None" and "la_write b = WriteDone"
    and "\<And>l. l \<in> set (leases_of f') \<Longrightarrow> la_alive b (ml_owner_pid l)"
  shows "snd (release_internal b lease f') = LfLeases (prune_stale_leases a (leases_of f))"
proof -
  let ?ls = "prune_stale_leases a (leases_of f)"
  have act: "acquire_action cfg a req ?ls = (Inr lease, snd (acquire_action cfg a req ?ls))"
    and f': "f' = LfLeases (snd (acquire_action cfg a req ?ls))"
    using with_locked_granted [OF assms(1) [unfolded try_acquire_lease_def]] by auto
  obtain entry where ls': "snd (acquire_action cfg a req ?ls) = ?ls @ [entry]"
      "ml_id entry = la_uuid a" "lease = new_lease (hm_coordinator_path cfg) (la_uuid a)"
    using act by (auto simp: acquire_action_def Let_def split: if_splits)
  have fresh: "la_uuid a \<notin> ml_id ` set ?ls"
    using assms(2) by (auto simp: prune_stale_leases_def)
  have live: "prune_stale_leases b (?ls @ [entry]) = ?ls @ [entry]"
    using assms(5) f' ls' unfolding prune_stale_leases_def [of b] by (intro filter_True) simp
  have keep: "filter (\<lambda>l. ml_id l \<noteq> la_uuid a) ?ls = ?ls"
    using fresh by (intro filter_True) (metis image_eqI)
  have rel: "hl_released lease = False" "hl_lease_id lease = la_uuid a"
    by (simp_all add: ls'(3) new_lease_def)
  show ?thesis
    unfolding release_internal_def release_action_def with_locked_ledger_def f' ls'(1)
    using live keep ls'(2) assms(3,4) rel by (simp add: split_beta)
qed

theorem release_undoes_grant_witness:
  "\<exists>lease f'. try_acquire_lease demo_cfg (ml_test_request []) (demo_access [1] 20000) LfBlank =
     (LrReturn (Inr lease), f') \<and>
   snd (release_internal (demo_access [2] 20000) lease f') =
     LfLeases (prune_stale_leases (demo_access [1] 20000) (leases_of LfBlank))"
proof -
  have g: "\<exists>lease f'. try_acquire_lease demo_cfg (ml_test_request []) (demo_access [1] 20000) LfBlank =
      (LrReturn (Inr lease), f')"
    by (simp add: try_acquire_lease_def acquire_action_def ml_test_request_def Let_def
        demo_ledger_defs)
  have "la_open_error (demo_access [2] 20000) = None" "la_write (demo_access [2] 20000) = WriteDone"
    "\<And>p. la_alive (demo_access [2] 20000) p"
    by (simp_all add: demo_access_def)
  then show ?thesis using g release_undoes_grant [where f = LfBlank] by (metis image_empty empty_iff
      leases_of.simps(2) list.set(1))
qed

section \<open>The planned number of workers\<close>

definition plan_fits :: "nat \<Rightarrow> nat \<Rightarrow> nat \<Rightarrow> nat \<Rightarrow> nat \<Rightarrow> bool" where
  "plan_fits budget available reserve pending w \<longleftrightarrow>
     reserve \<le> available - pending - sat_mul budget w"

lemma plan_fits_fewer:
  "plan_fits budget available reserve pending w \<Longrightarrow> v \<le> w \<Longrightarrow>
   plan_fits budget available reserve pending v"
  unfolding plan_fits_def using sat_mul_mono [of v w budget] by linarith

lemma plan_from_Max:
  "plan_from n budget available reserve pending =
     (let S = {w \<in> {1..n}. plan_fits budget available reserve pending w}
      in if S = {} then None else Some (Max S, sat_mul budget (Max S)))"
proof (induction n)
  case 0
  then show ?case by simp
next
  case (Suc n)
  let ?F = "plan_fits budget available reserve pending"
  let ?S = "\<lambda>n. {w \<in> {1..n}. ?F w}"
  show ?case
  proof (cases "?F (Suc n)")
    case True
    have "?S (Suc n) \<noteq> {}" using True by auto
    moreover have "Max (?S (Suc n)) = Suc n"
      by (rule Max_eqI) (use True in auto)
    ultimately show ?thesis using True by (simp add: plan_fits_def Let_def)
  next
    case False
    then have "?S (Suc n) = ?S n" by (auto simp: le_Suc_eq)
    with False Suc show ?thesis by (simp add: plan_fits_def Let_def)
  qed
qed

text \<open>
  C11: The planner grants exactly the largest number of workers, between one and the number asked for,
  whose budget leaves the reserve free beside the reservations of the ledger, together with
  that many budgets (saturating), and refuses exactly when not even one worker fits.
\<close>
theorem plan_grants_largest:
  "plan_job_reservation requested budget available reserve pending =
     (let S = {w \<in> {1..requested}. plan_fits budget available reserve pending w}
      in if S = {} then None else Some (Max S, sat_mul budget (Max S)))"
  by (simp add: plan_job_reservation_def plan_from_Max)

section \<open>The polling loop\<close>

lemma wait_loop_returns:
  assumes "t \<in> set ts" and "deadline \<le> at_now_guard t \<or> timeout = 0"
  shows "wait_loop attempt show_error label timeout deadline reason ts \<noteq> None"
  using assms
proof (induction ts arbitrary: reason)
  case Nil
  then show ?case by simp
next
  case (Cons u ts)
  obtain r f where r: "attempt (at_access u) (at_file u) = (r, f)" by fastforce
  show ?case
  proof (cases "0 < timeout \<and> at_now_guard u < deadline \<and> (\<exists>e. r = LrReturn (Inl e) \<and> retryable_error e)")
    case True
    with Cons.prems have "t \<in> set ts" by auto
    then have "wait_loop attempt show_error label timeout deadline reason' ts \<noteq> None" for reason'
      using Cons.IH Cons.prems(2) by simp
    with True r show ?thesis by auto
  next
    case False
    with r show ?thesis by (auto split: ledger_result.split sum.split)
  qed
qed

text \<open>What blocks an attempt: a write-back that fails after a grant.\<close>

lemma give_up_blocks:
  "fst (give_up drop_value result error f) = LrBlocks \<longleftrightarrow> (\<exists>x. result = Inr x \<and> drop_value True x f = None)"
  by (cases result) (auto split: option.split)

lemma lease_drop_blocks:
  "drop_lease a True lease f = None \<longleftrightarrow> \<not> hl_released lease \<and> la_reopen_error a = None"
  by (auto simp: drop_lease_def with_locked_ledger_def split: option.split)

lemma access_blocks:
  assumes "\<And>x f. drop_value True x f = None \<longleftrightarrow> blocks x"
  shows "fst (with_locked_ledger path a False drop_value action f) = LrBlocks \<longleftrightarrow>
    la_open_error a = None \<and> la_write a \<noteq> WriteDone \<and> (\<nexists>m. f = LfGarbled m) \<and>
    (\<exists>x. fst (action (prune_stale_leases a (leases_of f))) = Inr x \<and> blocks x)"
  by (cases f; cases "la_open_error a"; cases "la_write a")
    (auto simp: with_locked_ledger_def split_beta Let_def give_up_blocks assms)

lemma plan_lease_fresh: "fst (plan_action cfg a budget requested label ls) = Inr p \<Longrightarrow> \<not> hl_released (ep_lease p)"
  by (auto simp: plan_action_def Let_def new_lease_def split: option.splits)

lemma plan_attempt_blocks:
  assumes "fst (try_plan_job_execution cfg command requested label a f) = LrBlocks"
  shows "la_open_error a = None \<and> la_write a \<noteq> WriteDone \<and> la_reopen_error a = None"
  using assms access_blocks [where drop_value = "\<lambda>held p. drop_lease a held (ep_lease p)", OF lease_drop_blocks]
  unfolding try_plan_job_execution_def by blast

lemma wait_loop_last:
  "wait_loop attempt show_error label timeout deadline reason ts = Some (LrBlocks, f) \<Longrightarrow>
    \<exists>t\<in>set ts. fst (attempt (at_access t) (at_file t)) = LrBlocks"
  by (induction ts arbitrary: reason) (auto split: prod.splits ledger_result.splits sum.splits if_splits)


definition demo_attempt :: "nat \<Rightarrow> LedgerFile \<Rightarrow> nat \<Rightarrow> Attempt" where
  "demo_attempt available f now =
     \<lparr>at_access = demo_access [1] available, at_file = f, at_now_guard = now, at_now_timeout = now\<rparr>"


text \<open>
  When the requested number of workers could never fit in the machine's memory, the wait for a
  plan gives up at its first attempt with a capacity rejection whenever nothing fits at that
  moment, however long the timeout: the retry test judges the full request, although the
  planner would grant fewer workers once memory is free again.
\<close>
theorem oversized_request_is_not_waited_for:
  assumes "la_open_error (at_access t) = None" and "la_write (at_access t) = WriteDone"
    and "at_file t = LfLeases ls" and "at_now_timeout t < start + timeout"
    and "pending = pending_reserved_mb (prune_stale_leases (at_access t) ls)"
    and "budget = command_execution_budget_mb (command_as_str command)"
    and "plan_job_reservation requested budget (available_mb_of (at_access t))
           (hm_reserve_mb cfg) pending = None"
    and "total_mb_of (at_access t) < sat_add (sat_mul budget requested) (hm_reserve_mb cfg)"
  shows "wait_for_job_execution_plan cfg esc command requested label start timeout (t # ts) =
     Some (LrReturn (Inl (HmCapacityRejected label (available_mb_of (at_access t)) pending
       (sat_mul budget requested) (hm_reserve_mb cfg) (total_mb_of (at_access t)))),
       LfLeases (prune_stale_leases (at_access t) ls))"
proof -
  have "try_plan_job_execution cfg command requested label (at_access t) (at_file t) =
    (LrReturn (Inl (HmCapacityRejected label (available_mb_of (at_access t)) pending
       (sat_mul budget requested) (hm_reserve_mb cfg) (total_mb_of (at_access t)))),
     LfLeases (prune_stale_leases (at_access t) ls))"
    using assms unfolding try_plan_job_execution_def with_locked_ledger_def plan_action_def
    by (simp add: Let_def)
  then show ?thesis
    using assms(4,8)
    by (simp add: wait_for_job_execution_plan_def capacity_rejection_is_retryable_def)
qed

text \<open>
  Align on a 32000 MB machine with a 4000 MB reserve: ten workers can never fit, four do when no
  other job holds memory, and while one does the wait of a minute is over at once.
\<close>

definition other_job :: "nat \<Rightarrow> MemoryLeaseRecord" where
  "other_job mb = \<lparr>ml_id = [9], ml_kind = JobExecution, ml_owner_pid = 8, ml_reserved_mb = mb,
     ml_startup_slot = False, ml_label = [], ml_created_at_epoch_s = 0\<rparr>"

lemma align_budget: "command_execution_budget_mb (command_as_str CmdAlign) = 6000"
  by (simp add: command_execution_budget_mb_def threaded_base_mb_def hm_get_def)

theorem oversized_request_is_not_waited_for_witness:
  "plan_job_reservation 10 6000 32000 4000 0 = Some (4, 24000) \<and>
   wait_for_job_execution_plan demo_cfg (\<lambda>c. [c]) CmdAlign 10 [] 0 60000000000
     [demo_attempt 32000 (LfLeases [other_job 26000]) 1] =
     Some (LrReturn (Inl (HmCapacityRejected [] 32000 26000 60000 4000 32000)),
       LfLeases [other_job 26000])"
proof -
  let ?t = "demo_attempt 32000 (LfLeases [other_job 26000]) 1"
  have ten: "(10 :: nat) = Suc (Suc (Suc (Suc (Suc (Suc (Suc 3))))))" by simp
  have four: "plan_job_reservation 10 6000 32000 4000 0 = Some (4, 24000)"
    unfolding plan_job_reservation_def ten plan_from.simps
    by (simp add: sat_mul_def u64_max_def)
  have facts: "prune_stale_leases (at_access ?t) [other_job 26000] = [other_job 26000]"
    "pending_reserved_mb [other_job 26000] = 26000" "total_mb_of (at_access ?t) = 32000"
    "available_mb_of (at_access ?t) = 32000" "hm_reserve_mb demo_cfg = 4000"
    by (simp_all add: demo_attempt_def other_job_def demo_ledger_defs)
  have none: "plan_job_reservation n 6000 32000 4000 26000 = None" for n
    unfolding plan_job_reservation_def by (induction n) (simp_all add: sat_mul_def u64_max_def)
  have parts: "la_open_error (at_access ?t) = None" "la_write (at_access ?t) = WriteDone"
    "at_file ?t = LfLeases [other_job 26000]" "at_now_timeout ?t < 0 + 60000000000"
    by (simp_all add: demo_attempt_def demo_access_def)
  have sats: "sat_mul 6000 10 = 60000" "sat_add 60000 4000 = 64000"
    by (simp_all add: sat_mul_def sat_add_def u64_max_def)
  have "wait_for_job_execution_plan demo_cfg (\<lambda>c. [c]) CmdAlign 10 [] 0 60000000000 [?t] =
     Some (LrReturn (Inl (HmCapacityRejected [] (available_mb_of (at_access ?t)) 26000
       (sat_mul 6000 10) (hm_reserve_mb demo_cfg) (total_mb_of (at_access ?t)))),
       LfLeases (prune_stale_leases (at_access ?t) [other_job 26000]))"
    by (rule oversized_request_is_not_waited_for [OF parts(1-4)])
      (simp_all only: facts align_budget none sats)
  then show ?thesis
    using four by (simp only: facts sats)
qed


text \<open>A full disk at the end of an access that has granted a lease.\<close>

lemma full_disk_blocks:
  "fst (try_acquire_lease demo_cfg (ml_test_request [])
     ((demo_access [1] 20000)\<lparr>la_write := SyncFails (lit ''No space left on device'')\<rparr>)
     (LfLeases [])) = LrBlocks"
  by (simp add: try_acquire_lease_def acquire_action_def ml_test_request_def Let_def give_up_def drop_lease_def
      demo_ledger_defs)

end
