(* ===== verification/Runner.thy ===== *)
theory Runner
  imports Reach Host_Memory
begin

text \<open>
  The job runner: the sink through which it reports (\<open>runner/util/file_status.rs\<close>), the tracker of
  one file, the supervision of file tasks, the per-file loops of the transcribe and media-analysis
  dispatchers, and the life of one hosted job (\<open>runner/mod.rs\<close>). The store-backed sink runs on
  the store of \<open>Store\<close>. What inference, the file system and the clock answer is an argument.
\<close>

section \<open>Stages\<close>

datatype FileStage =
  FgProcessing | FgReading | FgResolvingAudio | FgRecoveringUtteranceTiming
| FgRecoveringTimingFallback | FgAligning | FgTranscribing | FgBenchmarking | FgCheckingCache
| FgApplyingResults | FgPostProcessing | FgBuildingChat | FgSegmentingUtterances
| FgAnalyzingMorphosyntax | FgFinalizing | FgWriting | FgParsing | FgAnalyzing | FgSegmenting
| FgTranslating | FgResolvingCoreference | FgComparing

fun for_batch_command :: "ReleasedCommand \<Rightarrow> FileStage" where
  "for_batch_command CmdMorphotag = FgAnalyzing"
| "for_batch_command CmdUtseg = FgSegmenting"
| "for_batch_command CmdTranslate = FgTranslating"
| "for_batch_command CmdCoref = FgResolvingCoreference"
| "for_batch_command CmdCompare = FgComparing"
| "for_batch_command _ = FgProcessing"

fun api_stage :: "FileStage \<Rightarrow> FileProgressStage" where
  "api_stage FgProcessing = StProcessing"
| "api_stage FgReading = StReading"
| "api_stage FgResolvingAudio = StResolvingAudio"
| "api_stage FgRecoveringUtteranceTiming = StRecoveringUtteranceTiming"
| "api_stage FgRecoveringTimingFallback = StRecoveringTimingFallback"
| "api_stage FgAligning = StAligning"
| "api_stage FgTranscribing = StTranscribing"
| "api_stage FgBenchmarking = StBenchmarking"
| "api_stage FgCheckingCache = StCheckingCache"
| "api_stage FgApplyingResults = StApplyingResults"
| "api_stage FgPostProcessing = StPostProcessing"
| "api_stage FgBuildingChat = StBuildingChat"
| "api_stage FgSegmentingUtterances = StSegmentingUtterances"
| "api_stage FgAnalyzingMorphosyntax = StAnalyzingMorphosyntax"
| "api_stage FgFinalizing = StFinalizing"
| "api_stage FgWriting = StWriting"
| "api_stage FgParsing = StParsing"
| "api_stage FgAnalyzing = StAnalyzing"
| "api_stage FgSegmenting = StSegmenting"
| "api_stage FgTranslating = StTranslating"
| "api_stage FgResolvingCoreference = StResolvingCoreference"
| "api_stage FgComparing = StComparing"

section \<open>The event sink\<close>

text \<open>The trait object: one function per method, over the state the implementation keeps.\<close>

record 's RunnerEventSink =
  sk_mark_file_processing :: "JobId \<Rightarrow> rstr \<Rightarrow> UnixTimestamp \<Rightarrow> 's \<Rightarrow> 's"
  sk_mark_file_done :: "JobId \<Rightarrow> rstr \<Rightarrow> UnixTimestamp \<Rightarrow> CompletedFileOutput option \<Rightarrow> 's \<Rightarrow> 's"
  sk_mark_file_error :: "JobId \<Rightarrow> rstr \<Rightarrow> rstr \<Rightarrow> FailureCategory \<Rightarrow> UnixTimestamp \<Rightarrow> 's \<Rightarrow> 's"
  sk_start_file_attempt :: "JobId \<Rightarrow> rstr \<Rightarrow> WorkUnitKind \<Rightarrow> UnixTimestamp \<Rightarrow> 's \<Rightarrow> 's"
  sk_finish_file_attempt :: "JobId \<Rightarrow> rstr \<Rightarrow> AttemptOutcome \<Rightarrow> FailureCategory option \<Rightarrow>
    RetryDisposition \<Rightarrow> UnixTimestamp \<Rightarrow> 's \<Rightarrow> 's"
  sk_mark_file_retry_pending :: "JobId \<Rightarrow> rstr \<Rightarrow> UnixTimestamp \<Rightarrow> FailureCategory \<Rightarrow> rstr \<Rightarrow>
    UnixTimestamp \<Rightarrow> 's \<Rightarrow> 's"
  sk_clear_file_retry_state :: "JobId \<Rightarrow> rstr \<Rightarrow> 's \<Rightarrow> 's"
  sk_set_file_progress :: "JobId \<Rightarrow> rstr \<Rightarrow> FileStage \<Rightarrow> int option \<Rightarrow> int option \<Rightarrow> 's \<Rightarrow> 's"
  sk_set_batch_progress :: "JobId \<Rightarrow> BatchInferProgress \<Rightarrow> 's \<Rightarrow> 's"
  sk_unfinished_files :: "JobId \<Rightarrow> 's \<Rightarrow> DisplayPath list"
  sk_file_status_label :: "JobId \<Rightarrow> rstr \<Rightarrow> 's \<Rightarrow> rstr option"
  sk_bump_forced_terminal_errors :: "nat \<Rightarrow> 's \<Rightarrow> 's"
  sk_fail_job :: "JobId \<Rightarrow> rstr \<Rightarrow> UnixTimestamp \<Rightarrow> 's \<Rightarrow> 's"
  sk_mark_job_running :: "JobId \<Rightarrow> 's \<Rightarrow> 's"
  sk_record_job_worker_count :: "JobId \<Rightarrow> nat \<Rightarrow> 's \<Rightarrow> 's"
  sk_requeue_job_after_memory_gate :: "JobId \<Rightarrow> UnixTimestamp \<Rightarrow> 's \<Rightarrow> 's"
  sk_bump_deferred_work_units :: "'s \<Rightarrow> 's"
  sk_bump_memory_gate_aborts :: "'s \<Rightarrow> 's"
  sk_finalize_job :: "JobId \<Rightarrow> JobStatus \<Rightarrow> UnixTimestamp \<Rightarrow> 's \<Rightarrow> 's"

definition store_sink :: "JobStore RunnerEventSink" where
  "store_sink =
     \<lparr>sk_mark_file_processing = store_mark_file_processing,
      sk_mark_file_done = store_mark_file_done,
      sk_mark_file_error = (\<lambda>i f error category finished_at.
        store_mark_file_error i f
          \<lparr>ff_message = error, ff_category = category, ff_finished_at = finished_at\<rparr>),
      sk_start_file_attempt = store_start_file_attempt,
      sk_finish_file_attempt = (\<lambda>i f outcome category disposition finished_at.
        db_finish_attempt_for_file i
          \<lparr>af_filename = f, af_outcome = outcome, af_failure_category = category,
           af_disposition = disposition, af_finished_at = finished_at\<rparr>),
      sk_mark_file_retry_pending = (\<lambda>i f retry_at category message finished_at.
        store_mark_file_retry_pending i f
          \<lparr>fr_message = message, fr_category = category, fr_finished_at = finished_at,
           fr_retry_at = retry_at\<rparr>),
      sk_clear_file_retry_state = store_clear_file_retry_state,
      sk_set_file_progress = (\<lambda>i f stage current whole.
        store_set_file_progress i f
          \<lparr>fp_stage = api_stage stage, fp_current = current, fp_total = whole\<rparr>),
      sk_set_batch_progress = store_set_batch_progress,
      sk_unfinished_files = (\<lambda>i st. reg_unfinished_files i (st_registry st)),
      sk_file_status_label = (\<lambda>i f st. reg_file_status_label i f (st_registry st)),
      sk_bump_forced_terminal_errors = (\<lambda>count.
        bump_counter (oc_forced_terminal_errors_update (\<lambda>n. n + int count))),
      sk_fail_job = store_fail_job,
      sk_mark_job_running = store_mark_job_running,
      sk_record_job_worker_count = store_record_job_worker_count,
      sk_requeue_job_after_memory_gate = store_requeue_job_after_memory_gate,
      sk_bump_deferred_work_units = bump_counter (oc_deferred_work_units_update (\<lambda>n. n + 1)),
      sk_bump_memory_gate_aborts = bump_counter (oc_memory_gate_aborts_update (\<lambda>n. n + 1)),
      sk_finalize_job = store_finalize_job\<rparr>"

section \<open>The tracker of one file\<close>

text \<open>
  A tracker is a sink, a job and a file name; its methods are sequences of sink calls.
\<close>

definition set_file_stage :: "'s RunnerEventSink \<Rightarrow> JobId \<Rightarrow> rstr \<Rightarrow> FileStage \<Rightarrow> 's \<Rightarrow> 's" where
  "set_file_stage sink i f stage s = sk_set_file_progress sink i f stage None None s"

definition begin_first_attempt ::
  "'s RunnerEventSink \<Rightarrow> JobId \<Rightarrow> rstr \<Rightarrow> WorkUnitKind \<Rightarrow> UnixTimestamp \<Rightarrow> FileStage \<Rightarrow> 's \<Rightarrow> 's" where
  "begin_first_attempt sink i f kind started_at stage s =
     (let s = sk_mark_file_processing sink i f started_at s;
          s = sk_clear_file_retry_state sink i f s;
          s = sk_start_file_attempt sink i f kind started_at s
      in set_file_stage sink i f stage s)"

definition tracker_fail ::
  "'s RunnerEventSink \<Rightarrow> JobId \<Rightarrow> rstr \<Rightarrow> rstr \<Rightarrow> FailureCategory \<Rightarrow> UnixTimestamp \<Rightarrow> 's \<Rightarrow> 's" where
  "tracker_fail sink i f error category finished_at s =
     sk_mark_file_error sink i f error category finished_at s"

definition record_setup_failure ::
  "'s RunnerEventSink \<Rightarrow> JobId \<Rightarrow> rstr \<Rightarrow> UnixTimestamp \<Rightarrow> rstr \<Rightarrow> FailureCategory \<Rightarrow>
   UnixTimestamp \<Rightarrow> 's \<Rightarrow> 's" where
  "record_setup_failure sink i f started_at error category finished_at s =
     (let s = sk_clear_file_retry_state sink i f s;
          s = sk_start_file_attempt sink i f WuFileSetup started_at s
      in tracker_fail sink i f error category finished_at s)"

definition restart_attempt ::
  "'s RunnerEventSink \<Rightarrow> JobId \<Rightarrow> rstr \<Rightarrow> WorkUnitKind \<Rightarrow> UnixTimestamp \<Rightarrow> FileStage \<Rightarrow> 's \<Rightarrow> 's" where
  "restart_attempt sink i f kind started_at stage s =
     (let s = sk_clear_file_retry_state sink i f s;
          s = sk_start_file_attempt sink i f kind started_at s
      in set_file_stage sink i f stage s)"

definition tracker_retry ::
  "'s RunnerEventSink \<Rightarrow> JobId \<Rightarrow> rstr \<Rightarrow> UnixTimestamp \<Rightarrow> FailureCategory \<Rightarrow> rstr \<Rightarrow>
   UnixTimestamp \<Rightarrow> 's \<Rightarrow> 's" where
  "tracker_retry sink i f retry_at category message finished_at s =
     sk_mark_file_retry_pending sink i f retry_at category message finished_at s"

definition finish_file_attempt_success ::
  "'s RunnerEventSink \<Rightarrow> JobId \<Rightarrow> rstr \<Rightarrow> UnixTimestamp \<Rightarrow> 's \<Rightarrow> 's" where
  "finish_file_attempt_success sink i f finished_at s =
     sk_finish_file_attempt sink i f AoSucceeded None RdSucceed finished_at s"

definition complete_with_result ::
  "'s RunnerEventSink \<Rightarrow> JobId \<Rightarrow> rstr \<Rightarrow> DisplayPath \<Rightarrow> ContentType \<Rightarrow> UnixTimestamp \<Rightarrow> 's \<Rightarrow> 's" where
  "complete_with_result sink i f result_filename content_type finished_at s =
     (let s = sk_mark_file_done sink i f finished_at
            (Some \<lparr>co_filename = result_filename, co_content_type = content_type\<rparr>) s
      in finish_file_attempt_success sink i f finished_at s)"

definition complete_without_result ::
  "'s RunnerEventSink \<Rightarrow> JobId \<Rightarrow> rstr \<Rightarrow> UnixTimestamp \<Rightarrow> 's \<Rightarrow> 's" where
  "complete_without_result sink i f finished_at s =
     (let s = sk_mark_file_done sink i f finished_at None s
      in finish_file_attempt_success sink i f finished_at s)"

section \<open>Supervision of file tasks\<close>

datatype FileTaskOutcome = TerminalStateRecorded | MissingTerminalState

text \<open>How the handle of a task comes back: with its outcome, or with a join error.\<close>

datatype TaskExit = TaskReturned FileTaskOutcome | TaskJoinError rstr

text \<open>
  A spawned task as the supervisor meets it: its role and file, how it exits, whether the job is
  cancelled and what time it is then, and what all running tasks do to the state from the last
  join to this one.
\<close>

record 's SpawnedFileTask =
  tk_role :: rstr
  tk_filename :: DisplayPath
  tk_exit :: TaskExit
  tk_cancelled :: bool
  tk_now :: UnixTimestamp
  tk_effect :: "'s \<Rightarrow> 's"

definition record_abnormal_file_task_exit ::
  "'s RunnerEventSink \<Rightarrow> JobId \<Rightarrow> rstr \<Rightarrow> rstr \<Rightarrow> bool \<Rightarrow> rstr option \<Rightarrow> UnixTimestamp \<Rightarrow> 's \<Rightarrow> 's" where
  "record_abnormal_file_task_exit sink i f role job_cancelled join_error finished_at s =
     (let (message, category, outcome) =
        (if job_cancelled then
           (role @ lit '' stopped after job cancellation before recording a terminal file state'',
            FcCancelled, AoCancelled)
         else (case join_error of
                 Some e \<Rightarrow> (role @ lit '' panicked before recording a terminal file state: '' @ e,
                            FcSystem, AoFailed)
               | None \<Rightarrow> (role @ lit '' exited without recording a terminal file state'',
                          FcSystem, AoFailed)));
          s = sk_finish_file_attempt sink i f outcome (Some category) RdTerminalFailure finished_at s
      in sk_mark_file_error sink i f message category finished_at s)"

primrec drain_supervised_file_tasks ::
  "'s RunnerEventSink \<Rightarrow> JobId \<Rightarrow> 's SpawnedFileTask list \<Rightarrow> 's \<Rightarrow> nat \<times> 's" where
  "drain_supervised_file_tasks sink i [] s = (0, s)"
| "drain_supervised_file_tasks sink i (t # ts) s =
     (let s = tk_effect t s
      in case tk_exit t of
           TaskReturned TerminalStateRecorded \<Rightarrow> drain_supervised_file_tasks sink i ts s
         | TaskReturned MissingTerminalState \<Rightarrow>
             (let (n, s) = drain_supervised_file_tasks sink i ts
                (record_abnormal_file_task_exit sink i (tk_filename t) (tk_role t)
                   (tk_cancelled t) None (tk_now t) s)
              in (n + 1, s))
         | TaskJoinError e \<Rightarrow>
             (let (n, s) = drain_supervised_file_tasks sink i ts
                (record_abnormal_file_task_exit sink i (tk_filename t) (tk_role t)
                   (tk_cancelled t) (Some e) (tk_now t) s)
              in (n + 1, s)))"

text \<open>\<open>unwrap_or_default\<close> of the label is the empty text.\<close>

definition force_message :: "'s RunnerEventSink \<Rightarrow> JobId \<Rightarrow> rstr \<Rightarrow> 's \<Rightarrow> rstr" where
  "force_message sink i f s =
     lit ''File did not reach terminal status (last status: '' @
       (case sk_file_status_label sink i f s of None \<Rightarrow> [] | Some l \<Rightarrow> l) @ lit '')''"

definition force_terminal_file_states ::
  "'s RunnerEventSink \<Rightarrow> JobId \<Rightarrow> UnixTimestamp \<Rightarrow> 's \<Rightarrow> nat \<times> 's" where
  "force_terminal_file_states sink i now s =
     (let unfinished = sk_unfinished_files sink i s
      in if unfinished = [] then (0, s)
         else (let s = fold (\<lambda>f s. sk_mark_file_error sink i f (force_message sink i f s) FcSystem now s)
                         unfinished s
               in (length unfinished,
                   sk_bump_forced_terminal_errors sink (length unfinished) s)))"

section \<open>The loop of a transcribe task\<close>

text \<open>
  What one attempt meets: when it is reopened, the progress the pipeline forwards, what inference
  answers and when. Whether the output file could be written is only logged by the code. The
  message of a join error is the argument \<open>panic\<close>: rendering a crash report may panic
  (\<open>Errors\<close>).
\<close>

record TranscribeAttempt =
  ta_restarted_at :: UnixTimestamp
  ta_progress :: "(FileStage \<times> int option \<times> int option) list"
  ta_result :: "ServerError + unit"
  ta_write_error :: "rstr option"
  ta_finished_at :: UnixTimestamp

definition forward_progress ::
  "'s RunnerEventSink \<Rightarrow> JobId \<Rightarrow> rstr \<Rightarrow> (FileStage \<times> int option \<times> int option) list \<Rightarrow> 's \<Rightarrow> 's" where
  "forward_progress sink i f updates s =
     fold (\<lambda>(stage, current, whole) s. sk_set_file_progress sink i f stage current whole s) updates s"

definition retry_message :: "rstr \<Rightarrow> nat \<Rightarrow> rstr" where
  "retry_message message backoff_ms =
     message @ lit ''; retrying in '' @ show_nat backoff_ms @ lit '' ms''"

fun is_worker_error :: "ServerError \<Rightarrow> bool" where
  "is_worker_error (SeWorker e) = True"
| "is_worker_error _ = False"

text \<open>
  The loop over \<open>1..=max_attempts\<close>, by the number of attempts left; the attempt number is
  \<open>max_attempts - n\<close> when \<open>n\<close> more are left after it.
\<close>

primrec transcribe_attempts ::
  "'s RunnerEventSink \<Rightarrow> JobId \<Rightarrow> rstr \<Rightarrow> RetryPolicy \<Rightarrow> DisplayPath \<times> ContentType \<Rightarrow> rstr \<Rightarrow>
   (nat \<Rightarrow> TranscribeAttempt) \<Rightarrow> nat \<Rightarrow> 's \<Rightarrow> TaskExit \<times> 's" where
  "transcribe_attempts sink i f policy primary panic att 0 s =
     (TaskReturned MissingTerminalState, s)"
| "transcribe_attempts sink i f policy primary panic att (Suc n) s =
     (let k = max_attempts policy - n;
          a = att k;
          s = (if 1 < k then restart_attempt sink i f WuFileInfer (ta_restarted_at a) FgTranscribing s
               else set_file_stage sink i f FgTranscribing s);
          s = forward_progress sink i f (ta_progress a) s
      in case ta_result a of
           Inr _ \<Rightarrow>
             (TaskReturned TerminalStateRecorded,
              complete_with_result sink i f (fst primary) (snd primary) (ta_finished_at a)
                (set_file_stage sink i f FgWriting s))
         | Inl e \<Rightarrow>
             (let category = classify_server_error e;
                  raw = lit ''Transcribe failed: '' @ server_error_display e
              in case user_facing_error category (lit ''Transcription'') f raw of
                   None \<Rightarrow> (TaskJoinError panic, s)
                 | Some message \<Rightarrow>
                     if is_worker_error e \<and> is_retryable_worker_failure category
                        \<and> k < max_attempts policy
                     then (let backoff = backoff_for_retry policy k
                           in transcribe_attempts sink i f policy primary panic att n
                                (tracker_retry sink i f
                                   (ta_finished_at a + of_nat backoff / 1000) category
                                   (retry_message message backoff) (ta_finished_at a) s))
                     else (TaskReturned TerminalStateRecorded,
                           tracker_fail sink i f message category (ta_finished_at a) s)))"

record TranscribeRun =
  tr_started_at :: UnixTimestamp
  tr_ensure_wav :: "rstr option"
  tr_converted_at :: UnixTimestamp
  tr_panic :: rstr
  tr_attempt :: "nat \<Rightarrow> TranscribeAttempt"

definition process_one_transcribe_file ::
  "'s RunnerEventSink \<Rightarrow> JobId \<Rightarrow> (rstr \<Rightarrow> DisplayPath \<times> ContentType) \<Rightarrow> TranscribeRun \<Rightarrow>
   PendingJobFile \<Rightarrow> 's \<Rightarrow> TaskExit \<times> 's" where
  "process_one_transcribe_file sink i primary_output r pf s =
     (let f = pf_filename pf;
          s = begin_first_attempt sink i f WuFileInfer (tr_started_at r) FgResolvingAudio s
      in case tr_ensure_wav r of
           Some e \<Rightarrow>
             (TaskReturned TerminalStateRecorded,
              tracker_fail sink i f (lit ''Media conversion failed for '' @ f @ lit '': '' @ e)
                FcValidation (tr_converted_at r) s)
         | None \<Rightarrow>
             transcribe_attempts sink i f conservative (primary_output f) (tr_panic r) (tr_attempt r)
               (max_attempts conservative) s)"

section \<open>The loop of a media-analysis task\<close>

datatype DispatchFailure = RetryableWorker rstr FailureCategory | DfTerminal rstr FailureCategory

record MediaAttempt =
  ma_restarted_at :: UnixTimestamp
  ma_result :: "DispatchFailure + DisplayPath \<times> ContentType"
  ma_write_error :: "rstr option"
  ma_finished_at :: UnixTimestamp

primrec media_attempts ::
  "'s RunnerEventSink \<Rightarrow> JobId \<Rightarrow> rstr \<Rightarrow> RetryPolicy \<Rightarrow> rstr \<Rightarrow> (nat \<Rightarrow> MediaAttempt) \<Rightarrow> nat \<Rightarrow>
   's \<Rightarrow> TaskExit \<times> 's" where
  "media_attempts sink i f policy panic att 0 s = (TaskReturned MissingTerminalState, s)"
| "media_attempts sink i f policy panic att (Suc n) s =
     (let k = max_attempts policy - n;
          a = att k;
          s = (if 1 < k then restart_attempt sink i f WuFileInfer (ma_restarted_at a) FgProcessing s
               else set_file_stage sink i f FgProcessing s);
          fail_with = (\<lambda>category raw.
            case user_facing_error category (lit ''Analysis'') f raw of
              None \<Rightarrow> (TaskJoinError panic, s)
            | Some message \<Rightarrow> (TaskReturned TerminalStateRecorded,
                tracker_fail sink i f message category (ma_finished_at a) s))
      in case ma_result a of
           Inr (result_filename, output_type) \<Rightarrow>
             (let s = set_file_stage sink i f FgWriting s
              in case ma_write_error a of
                   Some e \<Rightarrow>
                     (TaskReturned TerminalStateRecorded,
                      tracker_fail sink i f
                        (lit ''Failed to write output for '' @ f @ lit '': '' @ e) FcSystem
                        (ma_finished_at a) s)
                 | None \<Rightarrow>
                     (TaskReturned TerminalStateRecorded,
                      complete_with_result sink i f result_filename output_type
                        (ma_finished_at a) s))
         | Inl (RetryableWorker error category) \<Rightarrow>
             if k < max_attempts policy \<and> is_retryable_worker_failure category
             then (let backoff = backoff_for_retry policy k
                   in media_attempts sink i f policy panic att n
                        (tracker_retry sink i f (ma_finished_at a + of_nat backoff / 1000) category
                           (retry_message (lit ''Worker error: '' @ error) backoff)
                           (ma_finished_at a) s))
             else fail_with category (lit ''Worker error: '' @ error)
         | Inl (DfTerminal error category) \<Rightarrow> fail_with category error)"

record MediaRun =
  mr_started_at :: UnixTimestamp
  mr_panic :: rstr
  mr_attempt :: "nat \<Rightarrow> MediaAttempt"

definition process_one_media_analysis_file_v2 ::
  "'s RunnerEventSink \<Rightarrow> JobId \<Rightarrow> MediaRun \<Rightarrow> PendingJobFile \<Rightarrow> 's \<Rightarrow> TaskExit \<times> 's" where
  "process_one_media_analysis_file_v2 sink i r pf s =
     (let f = pf_filename pf;
          s = begin_first_attempt sink i f WuFileInfer (mr_started_at r) FgResolvingAudio s
      in media_attempts sink i f conservative (mr_panic r) (mr_attempt r) (max_attempts conservative) s)"

section \<open>Dispatching the files of a job\<close>

text \<open>
  The spawning loop shared by the per-file dispatchers: it walks the pending files of the snapshot
  and stops at the first one it finds the job cancelled at. The tasks work on different files; the
  model runs each when it is spawned, and the supervisor then joins them in order.
\<close>

primrec spawn_file_tasks ::
  "(PendingJobFile \<Rightarrow> bool) \<Rightarrow> rstr \<Rightarrow> bool \<Rightarrow> UnixTimestamp \<Rightarrow>
   (PendingJobFile \<Rightarrow> 's \<Rightarrow> TaskExit \<times> 's) \<Rightarrow> PendingJobFile list \<Rightarrow> 's \<Rightarrow>
   's SpawnedFileTask list \<times> 's" where
  "spawn_file_tasks cancelled role cancelled_at_drain now run [] s = ([], s)"
| "spawn_file_tasks cancelled role cancelled_at_drain now run (pf # pfs) s =
     (if cancelled pf then ([], s)
      else (let (x, s) = run pf s;
                (ts, s) = spawn_file_tasks cancelled role cancelled_at_drain now run pfs s
            in (\<lparr>tk_role = role, tk_filename = pf_filename pf, tk_exit = x,
                 tk_cancelled = cancelled_at_drain, tk_now = now, tk_effect = (\<lambda>s. s)\<rparr> # ts, s)))"

definition dispatch_transcribe_infer ::
  "'s RunnerEventSink \<Rightarrow> (rstr \<Rightarrow> DisplayPath \<times> ContentType) \<Rightarrow> (PendingJobFile \<Rightarrow> bool) \<Rightarrow> bool \<Rightarrow>
   UnixTimestamp \<Rightarrow> (PendingJobFile \<Rightarrow> TranscribeRun) \<Rightarrow> RunnerJobSnapshot \<Rightarrow> 's \<Rightarrow> 's" where
  "dispatch_transcribe_infer sink primary_output cancelled cancelled_at_drain now runs job s =
     (let i = ri_job_id (rs_identity job);
          (ts, s) = spawn_file_tasks cancelled (lit ''transcribe file task'') cancelled_at_drain now
            (\<lambda>pf. process_one_transcribe_file sink i primary_output (runs pf) pf)
            (rs_pending_files job) s
      in snd (drain_supervised_file_tasks sink i ts s))"

definition dispatch_media_analysis_v2 ::
  "'s RunnerEventSink \<Rightarrow> (PendingJobFile \<Rightarrow> bool) \<Rightarrow> bool \<Rightarrow> UnixTimestamp \<Rightarrow>
   (PendingJobFile \<Rightarrow> MediaRun) \<Rightarrow> RunnerJobSnapshot \<Rightarrow> 's \<Rightarrow> 's" where
  "dispatch_media_analysis_v2 sink cancelled cancelled_at_drain now runs job s =
     (let i = ri_job_id (rs_identity job);
          (ts, s) = spawn_file_tasks cancelled (lit ''media-analysis V2 file task'')
            cancelled_at_drain now
            (\<lambda>pf. process_one_media_analysis_file_v2 sink i (runs pf) pf) (rs_pending_files job) s
      in snd (drain_supervised_file_tasks sink i ts s))"

end
