(* ===== verification/Hosted_Job.thy ===== *)
theory Hosted_Job
  imports Runner
begin

text \<open>
  The life of one hosted job (\<open>runner/mod.rs\<close>): the number of workers it asks for
  (\<open>runner/util/auto_tune.rs\<close>), the reservation of host memory, the validation of media files
  before any work (\<open>runner/util/media.rs\<close>), the dispatch, the forced closing of unfinished files
  and the final status. What the dispatcher does to the store is an argument, and so are the
  answers of the memory coordinator, the file system and the clock.
\<close>

section \<open>Workers asked for\<close>

definition gpu_heavy_commands :: "rstr list" where
  "gpu_heavy_commands = [lit ''align'', lit ''transcribe'', lit ''transcribe_s'', lit ''benchmark'']"

text \<open>\<open>Ord::clamp\<close>, which panics when the bounds cross.\<close>

definition clamp_nat :: "nat \<Rightarrow> nat \<Rightarrow> nat \<Rightarrow> nat option" where
  "clamp_nat x lo hi =
     (if hi < lo then None else if x < lo then Some lo else if hi < x then Some hi else Some x)"

definition compute_job_workers ::
  "nat option \<Rightarrow> ReleasedCommand \<Rightarrow> nat \<Rightarrow> ServerConfig \<Rightarrow> nat option" where
  "compute_job_workers available_parallelism command num_files config =
     (if num_files \<le> 1 then Some 1
      else if 0 < sc_max_workers_per_job config
      then clamp_nat (min (nat (sc_max_workers_per_job config)) num_files) 1 max_thread_workers
      else (let is_gpu_heavy = list_ex (\<lambda>c. c = command_as_str command) gpu_heavy_commands;
                by_cpu = (case available_parallelism of None \<Rightarrow> 4 | Some n \<Rightarrow> n);
                category_cap = (if is_gpu_heavy
                                then min max_gpu_workers (sc_gpu_thread_pool_size config)
                                else max_thread_workers)
            in clamp_nat (min num_files by_cpu) 1 category_cap))"

section \<open>Reservation of host memory\<close>

datatype ExecutionReservationError =
  ErCapacity nat HostMemoryError
| ErFatal ServerError

text \<open>
  The answer of the blocking planner task: a join error, or what the coordinator decided
  (\<open>wait_for_job_execution_plan\<close> of \<open>Host_Memory\<close>).
\<close>

type_synonym PlannerAnswer = "rstr + (HostMemoryError + JobExecutionPlan)"

definition reserve_job_execution ::
  "(rchar \<Rightarrow> rstr) \<Rightarrow> JobId \<Rightarrow> nat \<Rightarrow> PlannerAnswer \<Rightarrow> ExecutionReservationError + JobExecutionPlan" where
  "reserve_job_execution esc i requested_workers answer =
     (case answer of
        Inl e \<Rightarrow>
          Inl (ErFatal (SePersistence
            (lit ''host-memory planner task failed for job '' @ i @ lit '': '' @ e)))
      | Inr (Inr plan) \<Rightarrow> Inr plan
      | Inr (Inl error) \<Rightarrow>
          (case error of
             HmCapacityRejected l a p r v t \<Rightarrow> Inl (ErCapacity requested_workers error)
           | HmTimedOut l w r \<Rightarrow> Inl (ErCapacity requested_workers error)
           | _ \<Rightarrow> Inl (ErFatal (SePersistence
                   (lit ''host-memory coordinator failed for job '' @ i @ lit '': '' @
                    hm_error_display esc error)))))"

definition memory_gate_retry_policy :: RetryPolicy where
  "memory_gate_retry_policy =
     \<lparr>max_attempts = 1, initial_backoff_ms = 30000, max_backoff_ms = 120000,
      backoff_multiplier = 2\<rparr>"

text \<open>
  The orchestrator of the Temporal backend (and of the in-process one): requeue with the first
  backoff, count a deferral. It answers with the retry deadline.
\<close>

definition handle_memory_gate_rejection ::
  "'s RunnerEventSink \<Rightarrow> JobId \<Rightarrow> UnixTimestamp \<Rightarrow> 's \<Rightarrow> UnixTimestamp \<times> 's" where
  "handle_memory_gate_rejection sink i now s =
     (let retry_at = now + of_nat (backoff_for_retry memory_gate_retry_policy 1) / 1000;
          s = sk_requeue_job_after_memory_gate sink i retry_at s
      in (retry_at, sk_bump_deferred_work_units sink s))"

datatype MemoryGateFailurePolicy = GateQueued | GateFailJob

datatype HostedJobRunOutcome = RunCompleted | RunRequeued UnixTimestamp

section \<open>Validation of media files\<close>

definition KNOWN_MEDIA_EXTENSIONS :: "rstr list" where
  "KNOWN_MEDIA_EXTENSIONS =
     [lit ''wav'', lit ''mp3'', lit ''mp4'', lit ''m4a'', lit ''flac'', lit ''ogg'', lit ''aac'',
      lit ''wma'', lit ''webm'']"

text \<open>
  The file system is \<open>metadata\<close>, the length of the file at a path; \<open>extension\<close> is the
  lower-cased extension of a path (\<open>Path::extension\<close> with Unicode lower-casing).
\<close>

definition validate_media_file ::
  "(rstr \<Rightarrow> nat option) \<Rightarrow> (rstr \<Rightarrow> rstr option) \<Rightarrow> rstr list \<Rightarrow> PendingJobFile \<Rightarrow> rstr option" where
  "validate_media_file metadata extension source_paths pf =
     (if pf_has_chat pf then None
      else if length source_paths \<le> pf_file_index pf
      then Some (lit ''No source path for file index'')
      else (let path = source_paths ! pf_file_index pf
            in case metadata path of
                 None \<Rightarrow> Some (lit ''File not found: '' @ path)
               | Some n \<Rightarrow>
                   if n = 0 then Some (lit ''File is empty: '' @ path)
                   else (case extension path of
                           Some ext \<Rightarrow>
                             if ext \<notin> set KNOWN_MEDIA_EXTENSIONS
                             then Some (lit ''Unknown media format '' @ [39, 46] @ ext @ [39] @
                                        lit '': '' @ path)
                             else None
                         | None \<Rightarrow> Some (lit ''File has no extension: '' @ path))))"

definition preflight_validate_media ::
  "(rstr \<Rightarrow> nat option) \<Rightarrow> (rstr \<Rightarrow> rstr option) \<Rightarrow> PendingJobFile list \<Rightarrow> rstr list \<Rightarrow> bool \<Rightarrow>
   (nat, rstr) hmap" where
  "preflight_validate_media metadata extension file_list source_paths paths_mode =
     (if \<not> paths_mode then []
      else fold (\<lambda>pf failures.
             (case validate_media_file metadata extension source_paths pf of
                None \<Rightarrow> failures
              | Some message \<Rightarrow> hm_insert (pf_file_index pf) message failures)) file_list [])"

definition record_preflight_media_failures ::
  "'s RunnerEventSink \<Rightarrow> JobId \<Rightarrow> PendingJobFile list \<Rightarrow> (nat, rstr) hmap \<Rightarrow> UnixTimestamp \<Rightarrow> 's \<Rightarrow>
   nat set \<times> 's" where
  "record_preflight_media_failures sink i file_list failures now s =
     (fst ` set failures,
      fold (\<lambda>(idx, message) s.
        (case find (\<lambda>pf. pf_file_index pf = idx) file_list of
           None \<Rightarrow> s
         | Some pf \<Rightarrow> record_setup_failure sink i (pf_filename pf) now message FcValidation now s))
        failures s)"

section \<open>The run\<close>

text \<open>
  What one run meets: the cancellation token before and after the wait for a job slot, the answer
  of the planner, the file system, the dispatcher with the file list and worker count it is given,
  the number of CPUs, and the clock where the code reads it. The submission of audio to the
  transcription provider beforehand does not touch the store.
\<close>

record HostedRun =
  hr_cancelled_at_start :: bool
  hr_cancelled_with_slot :: bool
  hr_answer :: PlannerAnswer
  hr_rejected_at :: UnixTimestamp
  hr_metadata :: "rstr \<Rightarrow> nat option"
  hr_extension :: "rstr \<Rightarrow> rstr option"
  hr_preflight_at :: UnixTimestamp
  hr_dispatch :: "RunnerJobSnapshot \<Rightarrow> PendingJobFile list \<Rightarrow> nat \<Rightarrow> JobStore \<Rightarrow>
    (ServerError + unit) \<times> JobStore"
  hr_failed_at :: UnixTimestamp
  hr_forced_at :: UnixTimestamp
  hr_completed_at :: UnixTimestamp
  hr_esc :: "rchar \<Rightarrow> rstr"

definition final_status :: "JobCompletionSnapshot \<Rightarrow> nat \<Rightarrow> JobStatus" where
  "final_status completion forced_errors =
     (if cs_cancelled completion then JobCancelled
      else if 0 < forced_errors \<or> cs_all_failed completion then JobFailed
      else JobCompleted)"

text \<open>From the dispatch to the end.\<close>

definition finish_run ::
  "HostedRun \<Rightarrow> JobId \<Rightarrow> JobStore \<Rightarrow> (ServerError + HostedJobRunOutcome) \<times> JobStore" where
  "finish_run r i s =
     (let (forced_errors, s) = force_terminal_file_states store_sink i (hr_forced_at r) s
      in case reg_completion_snapshot i (st_registry s) of
           None \<Rightarrow> (Inr RunCompleted, s)
         | Some completion \<Rightarrow>
             (Inr RunCompleted,
              sk_finalize_job store_sink i (final_status completion forced_errors)
                (hr_completed_at r) s))"

text \<open>Up to the dispatch: the file list the dispatcher is handed, and the store.\<close>

definition prepare_dispatch ::
  "HostedRun \<Rightarrow> JobId \<Rightarrow> RunnerJobSnapshot \<Rightarrow> JobExecutionPlan \<Rightarrow> JobStore \<Rightarrow>
   PendingJobFile list \<times> JobStore" where
  "prepare_dispatch r i job plan s =
     (let s = sk_mark_job_running store_sink i s;
          s = sk_record_job_worker_count store_sink i (ep_granted_workers plan) s;
          file_list = rs_pending_files job;
          failures = preflight_validate_media (hr_metadata r) (hr_extension r) file_list
            (rf_source_paths (rs_filesystem job)) (rf_paths_mode (rs_filesystem job));
          (failed, s) = (if failures = [] then ({}, s)
                         else record_preflight_media_failures store_sink i file_list failures
                                (hr_preflight_at r) s)
      in (filter (\<lambda>pf. pf_file_index pf \<notin> failed) file_list, s))"

definition execute_plan ::
  "HostedRun \<Rightarrow> JobId \<Rightarrow> RunnerJobSnapshot \<Rightarrow> JobExecutionPlan \<Rightarrow> JobStore \<Rightarrow>
   (ServerError + HostedJobRunOutcome) \<times> JobStore" where
  "execute_plan r i job plan s =
     (let (file_list, s) = prepare_dispatch r i job plan s;
          (result, s) = hr_dispatch r job file_list (ep_granted_workers plan) s
      in case result of
           Inl error \<Rightarrow>
             (Inl error,
              sk_fail_job store_sink i (server_error_display error) (hr_failed_at r) s)
         | Inr _ \<Rightarrow> finish_run r i s)"

definition run_hosted_job ::
  "MemoryGateFailurePolicy \<Rightarrow> nat \<Rightarrow> HostedRun \<Rightarrow> JobId \<Rightarrow> JobStore \<Rightarrow>
   (ServerError + HostedJobRunOutcome) \<times> JobStore" where
  "run_hosted_job policy requested_workers r i s =
     (case reg_runner_snapshot i (st_registry s) of
        None \<Rightarrow> (Inr RunCompleted, s)
      | Some job \<Rightarrow>
          if hr_cancelled_at_start r \<or> hr_cancelled_with_slot r then (Inr RunCompleted, s)
          else (case reserve_job_execution (hr_esc r) i requested_workers (hr_answer r) of
                  Inr plan \<Rightarrow> execute_plan r i job plan s
                | Inl (ErCapacity n error) \<Rightarrow>
                    (case policy of
                       GateQueued \<Rightarrow>
                         (let (retry_at, s) = handle_memory_gate_rejection store_sink i
                                (hr_rejected_at r) s
                          in (Inr (RunRequeued retry_at), s))
                     | GateFailJob \<Rightarrow>
                         (let message = hm_error_display (hr_esc r) error;
                              s = sk_bump_memory_gate_aborts store_sink s
                          in (Inl (SeMemoryPressure message),
                              sk_fail_job store_sink i message (hr_failed_at r) s)))
                | Inl (ErFatal error) \<Rightarrow>
                    (Inl error,
                     sk_fail_job store_sink i (server_error_display error) (hr_failed_at r) s)))"

text \<open>
  \<open>job_task\<close> runs one attempt and then releases the runner's claim, whatever came out; its
  heartbeat is the renewal of \<open>Store\<close>.
\<close>

definition job_task :: "nat \<Rightarrow> HostedRun \<Rightarrow> JobId \<Rightarrow> JobStore \<Rightarrow> JobStore" where
  "job_task requested_workers r i s =
     store_release_runner_claim i (snd (run_hosted_job GateQueued requested_workers r i s))"

section \<open>Bounds\<close>

lemma clamp_nat_Some:
  "lo \<le> hi \<Longrightarrow> \<exists>n. clamp_nat x lo hi = Some n \<and> lo \<le> n \<and> n \<le> hi \<and> n \<le> max x lo"
  by (auto simp: clamp_nat_def)

text \<open>
  A configuration that passed validation always yields a number of workers, between one and the
  number of files (one for none), and never more than the thread cap.
\<close>

lemma compute_job_workers_bounds:
  assumes "1 \<le> sc_gpu_thread_pool_size config"
  shows "\<exists>n. compute_job_workers cpus command num_files config = Some n \<and>
     1 \<le> n \<and> n \<le> max num_files 1 \<and> n \<le> 8"
proof (cases "num_files \<le> 1")
  case True
  then show ?thesis by (simp add: compute_job_workers_def)
next
  case False
  then have *: "\<exists>n. clamp_nat (min x num_files) 1 hi = Some n \<and> 1 \<le> n \<and> n \<le> max num_files 1 \<and> n \<le> 8"
    if "1 \<le> hi" "hi \<le> 8" for x hi
    using clamp_nat_Some [OF that(1), of "min x num_files"] that(2) by fastforce
  show ?thesis
    using * [of 8] * [of "min 8 (sc_gpu_thread_pool_size config)"] assms False
    by (auto simp: compute_job_workers_def max_thread_workers_def max_gpu_workers_def Let_def
        min.commute [of num_files])
qed

end
