(* ===== verification/Runner_Safety.thy ===== *)
theory Runner_Safety
  imports Hosted_Job
begin

text \<open>
  That no file of a job is left behind: the contract of the event sink as the runner relies on it,
  the lemmas on file tasks, supervision and forced closing proved from that contract alone, and the
  store-backed sink as an instance.
\<close>

section \<open>The contract of the sink\<close>

text \<open>
  \<open>status\<close> is the status the sink records for a file of the job. The mutations change the named
  file, if the job has it, and no other; \<open>good\<close> is what the sink needs to answer which files are
  unfinished.
\<close>

definition set_status ::
  "FileStatusKind \<Rightarrow> rstr \<Rightarrow> (rstr \<Rightarrow> FileStatusKind option) \<Rightarrow> rstr \<Rightarrow> FileStatusKind option" where
  "set_status k f v g = (if g = f then map_option (\<lambda>_. k) (v f) else v g)"

locale file_sink =
  fixes sink :: "'s RunnerEventSink" and i :: JobId
    and status :: "'s \<Rightarrow> rstr \<Rightarrow> FileStatusKind option" and good :: "'s \<Rightarrow> bool"
  assumes processing: "status (sk_mark_file_processing sink i f t s) = set_status FileProcessing f (status s)"
    and finished: "status (sk_mark_file_done sink i f t r s) = set_status FileDone f (status s)"
    and errored: "status (sk_mark_file_error sink i f e c t s) = set_status FileError f (status s)"
    and retried: "status (sk_mark_file_retry_pending sink i f ra c m t s) =
      set_status FileProcessing f (status s)"
    and quiet:
      "status (sk_start_file_attempt sink i f k t s) = status s"
      "status (sk_finish_file_attempt sink i f oc fc d t s) = status s"
      "status (sk_clear_file_retry_state sink i f s) = status s"
      "status (sk_set_file_progress sink i f st cu wh s) = status s"
      "status (sk_bump_forced_terminal_errors sink n s) = status s"
    and kept:
      "good s \<Longrightarrow> good (sk_mark_file_processing sink i f t s)"
      "good s \<Longrightarrow> good (sk_mark_file_done sink i f t r s)"
      "good s \<Longrightarrow> good (sk_mark_file_error sink i f e c t s)"
      "good s \<Longrightarrow> good (sk_mark_file_retry_pending sink i f ra c m t s)"
      "good s \<Longrightarrow> good (sk_start_file_attempt sink i f k t s)"
      "good s \<Longrightarrow> good (sk_finish_file_attempt sink i f oc fc d t s)"
      "good s \<Longrightarrow> good (sk_clear_file_retry_state sink i f s)"
      "good s \<Longrightarrow> good (sk_set_file_progress sink i f st cu wh s)"
      "good s \<Longrightarrow> good (sk_bump_forced_terminal_errors sink n s)"
    and unfinished: "good s \<Longrightarrow>
      set (sk_unfinished_files sink i s) = {f. \<exists>k. status s f = Some k \<and> \<not> file_is_terminal k}"
begin

definition terminal :: "'s \<Rightarrow> rstr \<Rightarrow> bool" where
  "terminal s f \<longleftrightarrow> (\<forall>k. status s f = Some k \<longrightarrow> file_is_terminal k)"

text \<open>A step that touches at most the file \<open>f\<close> and loses no file.\<close>

definition only_file :: "rstr \<Rightarrow> 's \<Rightarrow> 's \<Rightarrow> bool" where
  "only_file f s s' \<longleftrightarrow> (\<forall>g. g \<noteq> f \<longrightarrow> status s' g = status s g)"

lemma only_file_refl [simp]: "only_file f s s"
  by (simp add: only_file_def)

lemma only_file_trans: "only_file f a b \<Longrightarrow> only_file f b c \<Longrightarrow> only_file f a c"
  by (simp add: only_file_def)

lemma terminal_other: "only_file f s s' \<Longrightarrow> g \<noteq> f \<Longrightarrow> terminal s' g = terminal s g"
  by (simp add: only_file_def terminal_def)

lemma sink_only_file:
  "only_file f s (sk_mark_file_processing sink i f t s)"
  "only_file f s (sk_mark_file_done sink i f t r s)"
  "only_file f s (sk_mark_file_error sink i f e c t s)"
  "only_file f s (sk_mark_file_retry_pending sink i f ra c m t s)"
  "only_file f s (sk_start_file_attempt sink i f k t s)"
  "only_file f s (sk_finish_file_attempt sink i f oc fc d t s)"
  "only_file f s (sk_clear_file_retry_state sink i f s)"
  "only_file f s (sk_set_file_progress sink i f st cu wh s)"
  by (simp_all add: only_file_def processing finished errored retried quiet set_status_def)

lemma set_status_terminal: "file_is_terminal k \<Longrightarrow> status s' = set_status k f (status s) \<Longrightarrow> terminal s' f"
  by (auto simp: terminal_def set_status_def)

lemma tracker_status:
  "status (set_file_stage sink i f st s) = status s"
  "status (begin_first_attempt sink i f k t st s) = set_status FileProcessing f (status s)"
  "status (restart_attempt sink i f k t st s) = status s"
  "status (tracker_fail sink i f e c t s) = set_status FileError f (status s)"
  "status (record_setup_failure sink i f t0 e c t s) = set_status FileError f (status s)"
  "status (tracker_retry sink i f ra c m t s) = set_status FileProcessing f (status s)"
  "status (complete_with_result sink i f rf ct t s) = set_status FileDone f (status s)"
  "status (complete_without_result sink i f t s) = set_status FileDone f (status s)"
  by (simp_all add: set_file_stage_def begin_first_attempt_def restart_attempt_def tracker_fail_def
      record_setup_failure_def tracker_retry_def complete_with_result_def
      complete_without_result_def finish_file_attempt_success_def processing finished errored
      retried quiet)

lemma status_only_file: "status s' = status s \<Longrightarrow> only_file f s s'"
  by (simp add: only_file_def)

lemma set_status_only_file: "status s' = set_status k f (status s) \<Longrightarrow> only_file f s s'"
  by (simp add: only_file_def set_status_def)

lemmas tracker_only_file =
  tracker_status(1,3) [THEN status_only_file] tracker_status(2,4-8) [THEN set_status_only_file]

lemma tracker_kept:
  "good s \<Longrightarrow> good (set_file_stage sink i f st s)"
  "good s \<Longrightarrow> good (begin_first_attempt sink i f k t st s)"
  "good s \<Longrightarrow> good (restart_attempt sink i f k t st s)"
  "good s \<Longrightarrow> good (tracker_fail sink i f e c t s)"
  "good s \<Longrightarrow> good (record_setup_failure sink i f t0 e c t s)"
  "good s \<Longrightarrow> good (tracker_retry sink i f ra c m t s)"
  "good s \<Longrightarrow> good (complete_with_result sink i f rf ct t s)"
  by (simp_all add: set_file_stage_def begin_first_attempt_def restart_attempt_def tracker_fail_def
      record_setup_failure_def tracker_retry_def complete_with_result_def
      finish_file_attempt_success_def kept)

lemma forward_progress_kept: "good s \<Longrightarrow> good (forward_progress sink i f us s)"
  unfolding forward_progress_def
  by (induction us arbitrary: s) (auto simp: kept)

lemma forward_progress_status: "status (forward_progress sink i f us s) = status s"
  unfolding forward_progress_def
  by (induction us arbitrary: s) (auto simp: quiet)

section \<open>File tasks\<close>

text \<open>
  The contract of a file task: it touches only its file, and when it says that it recorded a
  terminal state, it did. It never comes back without having said so.
\<close>

definition task_contract :: "rstr \<Rightarrow> 's \<Rightarrow> TaskExit \<times> 's \<Rightarrow> bool" where
  "task_contract f s xs' \<longleftrightarrow> only_file f s (snd xs') \<and>
     fst xs' \<noteq> TaskReturned MissingTerminalState \<and>
     (fst xs' = TaskReturned TerminalStateRecorded \<longrightarrow> terminal (snd xs') f)"

lemma task_contract_step:
  assumes "only_file f s s'" and "task_contract f s' x"
  shows "task_contract f s x"
  using assms only_file_trans by (auto simp: task_contract_def)

lemma task_contract_panic: "only_file f s s' \<Longrightarrow> task_contract f s (TaskJoinError e, s')"
  by (simp add: task_contract_def)

lemma task_contract_fail:
  "only_file f s s' \<Longrightarrow>
     task_contract f s (TaskReturned TerminalStateRecorded, tracker_fail sink i f e c t s')"
  by (auto simp: task_contract_def intro: only_file_trans tracker_only_file
      set_status_terminal [OF _ tracker_status(4)])

lemma task_contract_done:
  "only_file f s s' \<Longrightarrow>
     task_contract f s (TaskReturned TerminalStateRecorded, complete_with_result sink i f rf ct t s')"
  by (auto simp: task_contract_def intro: only_file_trans tracker_only_file
      set_status_terminal [OF _ tracker_status(7)])

lemma transcribe_attempts_contract:
  assumes "0 < n" and "n \<le> max_attempts p"
  shows "task_contract f s (transcribe_attempts sink i f p prim pan att n s)"
  using assms
proof (induction n arbitrary: s)
  case 0
  then show ?case by simp
next
  case (Suc n)
  define k where "k = max_attempts p - n"
  define s1 where "s1 = forward_progress sink i f (ta_progress (att k))
    (if 1 < k then restart_attempt sink i f WuFileInfer (ta_restarted_at (att k)) FgTranscribing s
     else set_file_stage sink i f FgTranscribing s)"
  have s1: "only_file f s s1"
    by (rule status_only_file) (simp add: s1_def forward_progress_status tracker_status)
  have again: "task_contract f s (transcribe_attempts sink i f p prim pan att n
      (tracker_retry sink i f ra c m t s1))" if "k < max_attempts p" for ra c m t
    by (rule task_contract_step [OF only_file_trans [OF s1 tracker_only_file(6)]])
      (rule Suc.IH; use Suc.prems that in \<open>simp add: k_def\<close>)
  have "only_file f s (set_file_stage sink i f FgWriting s1)"
    using s1 tracker_only_file(1) only_file_trans by blast
  then show ?case
    using again s1
    unfolding transcribe_attempts.simps Let_def k_def [symmetric] s1_def [symmetric]
    by (simp add: task_contract_done task_contract_fail task_contract_panic split: sum.split option.split)
qed

lemma transcribe_task_contract:
  "task_contract (pf_filename pf) s (process_one_transcribe_file sink i prim r pf s)"
proof -
  let ?f = "pf_filename pf"
  let ?s = "begin_first_attempt sink i ?f WuFileInfer (tr_started_at r) FgResolvingAudio s"
  have "only_file ?f s ?s" by (rule tracker_only_file)
  then show ?thesis
    unfolding process_one_transcribe_file_def Let_def
    by (auto split: option.split intro: task_contract_fail
        task_contract_step [OF _ transcribe_attempts_contract] simp: conservative_def)
qed

lemma media_attempts_contract:
  assumes "0 < n" and "n \<le> max_attempts p"
  shows "task_contract f s (media_attempts sink i f p pan att n s)"
  using assms
proof (induction n arbitrary: s)
  case 0
  then show ?case by simp
next
  case (Suc n)
  define k where "k = max_attempts p - n"
  define s1 where "s1 =
    (if 1 < k then restart_attempt sink i f WuFileInfer (ma_restarted_at (att k)) FgProcessing s
     else set_file_stage sink i f FgProcessing s)"
  have s1: "only_file f s s1"
    by (rule status_only_file) (simp add: s1_def tracker_status)
  have again: "task_contract f s (media_attempts sink i f p pan att n
      (tracker_retry sink i f ra c m t s1))" if "k < max_attempts p" for ra c m t
    by (rule task_contract_step [OF only_file_trans [OF s1 tracker_only_file(6)]])
      (rule Suc.IH; use Suc.prems that in \<open>simp add: k_def\<close>)
  have "only_file f s (set_file_stage sink i f FgWriting s1)"
    using s1 tracker_only_file(1) only_file_trans by blast
  then show ?case
    using again s1
    unfolding media_attempts.simps Let_def k_def [symmetric] s1_def [symmetric]
    by (simp add: task_contract_done task_contract_fail task_contract_panic split: sum.split option.split DispatchFailure.split prod.split)
qed

lemma media_task_contract:
  "task_contract (pf_filename pf) s (process_one_media_analysis_file_v2 sink i r pf s)"
proof -
  let ?f = "pf_filename pf"
  let ?s = "begin_first_attempt sink i ?f WuFileInfer (mr_started_at r) FgResolvingAudio s"
  have "only_file ?f s ?s" by (rule tracker_only_file)
  then show ?thesis
    unfolding process_one_media_analysis_file_v2_def Let_def
    by (intro task_contract_step [OF _ media_attempts_contract]) (simp_all add: conservative_def)
qed

text \<open>File tasks keep the sink able to answer.\<close>

lemma transcribe_attempts_kept:
  "good s \<Longrightarrow> good (snd (transcribe_attempts sink i f p prim pan att n s))"
proof (induction n arbitrary: s)
  case (Suc n)
  define k where "k = max_attempts p - n"
  define s1 where "s1 = forward_progress sink i f (ta_progress (att k))
    (if 1 < k then restart_attempt sink i f WuFileInfer (ta_restarted_at (att k)) FgTranscribing s
     else set_file_stage sink i f FgTranscribing s)"
  have s1: "good s1" using Suc.prems by (simp add: s1_def forward_progress_kept tracker_kept)
  show ?case
    using s1 Suc.IH [OF tracker_kept(6) [OF s1]]
    unfolding transcribe_attempts.simps Let_def k_def [symmetric] s1_def [symmetric]
    by (simp add: tracker_kept split: sum.split option.split)
qed simp

lemma transcribe_task_kept:
  "good s \<Longrightarrow> good (snd (process_one_transcribe_file sink i prim r pf s))"
  unfolding process_one_transcribe_file_def Let_def
  by (simp add: tracker_kept transcribe_attempts_kept split: option.split)

lemma media_attempts_kept:
  "good s \<Longrightarrow> good (snd (media_attempts sink i f p pan att n s))"
proof (induction n arbitrary: s)
  case (Suc n)
  define k where "k = max_attempts p - n"
  define s1 where "s1 =
    (if 1 < k then restart_attempt sink i f WuFileInfer (ma_restarted_at (att k)) FgProcessing s
     else set_file_stage sink i f FgProcessing s)"
  have s1: "good s1" using Suc.prems by (simp add: s1_def tracker_kept)
  show ?case
    using s1 Suc.IH [OF tracker_kept(6) [OF s1]]
    unfolding media_attempts.simps Let_def k_def [symmetric] s1_def [symmetric]
    by (simp add: tracker_kept split: sum.split option.split DispatchFailure.split prod.split)
qed simp

lemma media_task_kept:
  "good s \<Longrightarrow> good (snd (process_one_media_analysis_file_v2 sink i r pf s))"
  by (simp add: process_one_media_analysis_file_v2_def Let_def tracker_kept media_attempts_kept)

section \<open>Supervision\<close>

lemma abnormal_exit_status:
  "status (record_abnormal_file_task_exit sink i f role jc je t s) = set_status FileError f (status s)"
  by (simp add: record_abnormal_file_task_exit_def Let_def case_prod_beta errored quiet)

text \<open>A step that reopens no file and touches only the files of a set.\<close>

definition closing :: "rstr set \<Rightarrow> 's \<Rightarrow> 's \<Rightarrow> bool" where
  "closing F s s' \<longleftrightarrow> (\<forall>g. g \<notin> F \<longrightarrow> status s' g = status s g) \<and>
     (\<forall>g. terminal s g \<longrightarrow> terminal s' g)"

lemma closing_refl [simp]: "closing F s s"
  by (simp add: closing_def)

lemma closing_trans: "closing F a b \<Longrightarrow> closing G b c \<Longrightarrow> closing (F \<union> G) a c"
  by (simp add: closing_def)

lemma closing_error:
  assumes "status s' = set_status FileError f (status s)"
  shows "closing {f} s s'"
  using assms by (auto simp: closing_def set_status_def terminal_def)

text \<open>
  After draining, the file of every task is terminal, provided each task whose handle said so had
  recorded it; every other exit is counted.
\<close>

lemma drain_closes:
  assumes "\<And>t. t \<in> set ts \<Longrightarrow> tk_effect t = (\<lambda>s. s)"
    and "\<And>t. t \<in> set ts \<Longrightarrow> tk_exit t = TaskReturned TerminalStateRecorded \<Longrightarrow> terminal s (tk_filename t)"
  shows "closing (tk_filename ` set ts) s (snd (drain_supervised_file_tasks sink i ts s)) \<and>
     (\<forall>t \<in> set ts. terminal (snd (drain_supervised_file_tasks sink i ts s)) (tk_filename t)) \<and>
     fst (drain_supervised_file_tasks sink i ts s) =
       length (filter (\<lambda>t. tk_exit t \<noteq> TaskReturned TerminalStateRecorded) ts)"
  using assms
proof (induction ts arbitrary: s)
  case Nil
  then show ?case by simp
next
  case (Cons t ts)
  define s1 where "s1 = (case tk_exit t of TaskReturned TerminalStateRecorded \<Rightarrow> s
    | TaskReturned MissingTerminalState \<Rightarrow> record_abnormal_file_task_exit sink i (tk_filename t)
        (tk_role t) (tk_cancelled t) None (tk_now t) s
    | TaskJoinError e \<Rightarrow> record_abnormal_file_task_exit sink i (tk_filename t) (tk_role t)
        (tk_cancelled t) (Some e) (tk_now t) s)"
  have drain: "drain_supervised_file_tasks sink i (t # ts) s =
    ((if tk_exit t = TaskReturned TerminalStateRecorded then 0 else 1) +
       fst (drain_supervised_file_tasks sink i ts s1),
     snd (drain_supervised_file_tasks sink i ts s1))"
    using Cons.prems(1) [of t]
    by (auto simp: s1_def case_prod_beta split: TaskExit.split FileTaskOutcome.split)
  have c1: "closing {tk_filename t} s s1"
    by (auto simp: s1_def abnormal_exit_status intro!: closing_error
        split: TaskExit.split FileTaskOutcome.split)
  have t1: "terminal s1 (tk_filename t)"
    using Cons.prems(2) [of t] unfolding s1_def
    by (auto split: TaskExit.split FileTaskOutcome.split
        intro: set_status_terminal [OF _ abnormal_exit_status])
  have ih: "closing (tk_filename ` set ts) s1 (snd (drain_supervised_file_tasks sink i ts s1)) \<and>
     (\<forall>u \<in> set ts. terminal (snd (drain_supervised_file_tasks sink i ts s1)) (tk_filename u)) \<and>
     fst (drain_supervised_file_tasks sink i ts s1) =
       length (filter (\<lambda>u. tk_exit u \<noteq> TaskReturned TerminalStateRecorded) ts)"
    by (rule Cons.IH) (use Cons.prems c1 in \<open>auto simp: closing_def\<close>)
  then show ?case
    using closing_trans [OF c1 conjunct1 [OF ih]] t1 unfolding drain by (auto simp: closing_def)
qed

text \<open>
  Spawning the tasks of files with different names, up to the first at which the job is found
  cancelled.
\<close>

lemma spawn_contract:
  assumes "\<And>pf s. task_contract (pf_filename pf) s (run pf s)"
    and "distinct (map pf_filename pfs)"
    and "spawn_file_tasks cancelled role cd now run pfs s = (ts, s')"
  shows "map tk_filename ts = map pf_filename (takeWhile (\<lambda>pf. \<not> cancelled pf) pfs) \<and>
     (\<forall>g. g \<notin> tk_filename ` set ts \<longrightarrow> status s' g = status s g) \<and>
     (\<forall>t \<in> set ts. tk_effect t = (\<lambda>s. s) \<and> tk_exit t \<noteq> TaskReturned MissingTerminalState \<and>
        (tk_exit t = TaskReturned TerminalStateRecorded \<longrightarrow> terminal s' (tk_filename t)))"
  using assms(2,3)
proof (induction pfs arbitrary: s ts)
  case Nil
  then show ?case by simp
next
  case (Cons pf pfs)
  show ?case
  proof (cases "cancelled pf")
    case True
    with Cons.prems show ?thesis by simp
  next
    case False
    obtain x s1 where run: "run pf s = (x, s1)" by fastforce
    obtain us where us: "spawn_file_tasks cancelled role cd now run pfs s1 = (us, s')"
        "ts = \<lparr>tk_role = role, tk_filename = pf_filename pf, tk_exit = x, tk_cancelled = cd,
           tk_now = now, tk_effect = (\<lambda>s. s)\<rparr> # us"
      using Cons.prems(2) False run by (auto simp: case_prod_beta prod_eq_iff)
    have tc: "task_contract (pf_filename pf) s (x, s1)" using assms(1) [of pf s] run by simp
    have ih: "map tk_filename us = map pf_filename (takeWhile (\<lambda>pf. \<not> cancelled pf) pfs)"
      "\<And>g. g \<notin> tk_filename ` set us \<Longrightarrow> status s' g = status s1 g"
      "\<And>t. t \<in> set us \<Longrightarrow> tk_effect t = (\<lambda>s. s) \<and> tk_exit t \<noteq> TaskReturned MissingTerminalState \<and>
         (tk_exit t = TaskReturned TerminalStateRecorded \<longrightarrow> terminal s' (tk_filename t))"
      using Cons.IH [OF _ us(1)] Cons.prems(1) by simp_all
    have "tk_filename ` set us = pf_filename ` set (takeWhile (\<lambda>pf. \<not> cancelled pf) pfs)"
      using ih(1) by (metis list.set_map)
    then have "pf_filename pf \<notin> tk_filename ` set us"
      using Cons.prems(1) by (auto dest: set_takeWhileD)
    then have same: "status s' (pf_filename pf) = status s1 (pf_filename pf)"
      by (rule ih(2))
    have rest: "status s' g = status s g" if "g \<notin> tk_filename ` set ts" for g
      using that ih(2) [of g] tc unfolding us(2) task_contract_def only_file_def by simp
    have head: "x \<noteq> TaskReturned MissingTerminalState"
      "x = TaskReturned TerminalStateRecorded \<Longrightarrow> terminal s' (pf_filename pf)"
      using tc same unfolding task_contract_def terminal_def by simp_all
    show ?thesis
      using ih(1,3) rest head False unfolding us(2) by simp
  qed
qed

lemma dispatch_closes:
  assumes "\<And>pf s. task_contract (pf_filename pf) s (run pf s)"
    and "distinct (map pf_filename pfs)" and "pf \<in> set (takeWhile (\<lambda>pf. \<not> cancelled pf) pfs)"
    and "spawn_file_tasks cancelled role cd now run pfs s = (ts, s')"
  shows "terminal (snd (drain_supervised_file_tasks sink i ts s')) (pf_filename pf)"
proof -
  have sp: "map tk_filename ts = map pf_filename (takeWhile (\<lambda>pf. \<not> cancelled pf) pfs)"
    "\<And>t. t \<in> set ts \<Longrightarrow> tk_effect t = (\<lambda>s. s) \<and>
       (tk_exit t = TaskReturned TerminalStateRecorded \<longrightarrow> terminal s' (tk_filename t))"
    using spawn_contract [OF assms(1,2,4)] by simp_all
  have "set (map tk_filename ts) = set (map pf_filename (takeWhile (\<lambda>pf. \<not> cancelled pf) pfs))"
    by (simp only: sp(1))
  then obtain t where t: "t \<in> set ts" "tk_filename t = pf_filename pf"
    using assms(3) by (metis (no_types, lifting) imageE image_eqI list.set_map)
  have "\<forall>t \<in> set ts. terminal (snd (drain_supervised_file_tasks sink i ts s')) (tk_filename t)"
    using drain_closes [of ts s'] sp(2) by simp
  with t show ?thesis by metis
qed

lemma drain_kept:
  assumes "\<And>t. t \<in> set ts \<Longrightarrow> tk_effect t = (\<lambda>s. s)"
  shows "good s \<Longrightarrow> good (snd (drain_supervised_file_tasks sink i ts s))"
  using assms
proof (induction ts arbitrary: s)
  case (Cons t ts)
  have ab: "good (record_abnormal_file_task_exit sink i f role jc je n s)" for f role jc je n
    using Cons.prems(1) by (simp add: record_abnormal_file_task_exit_def case_prod_beta kept)
  show ?case
    using Cons.prems(1,2) Cons.IH [OF ab] Cons.IH [OF Cons.prems(1)]
    by (simp add: case_prod_beta split: TaskExit.split FileTaskOutcome.split)
qed simp

lemma spawn_kept:
  assumes "\<And>pf s. good s \<Longrightarrow> good (snd (run pf s))"
  shows "good s \<Longrightarrow> good (snd (spawn_file_tasks cancelled role cd now run pfs s)) \<and>
    (\<forall>t \<in> set (fst (spawn_file_tasks cancelled role cd now run pfs s)). tk_effect t = (\<lambda>s. s))"
proof (induction pfs arbitrary: s)
  case (Cons pf pfs)
  show ?case
    using Cons.prems Cons.IH [OF assms [OF Cons.prems]] by (auto simp: case_prod_beta)
qed simp

lemma dispatch_kept:
  assumes "\<And>pf s. good s \<Longrightarrow> good (snd (run pf s))" and "good s"
    and "spawn_file_tasks cancelled role cd now run pfs s = (ts, s')"
  shows "good (snd (drain_supervised_file_tasks sink i ts s'))"
proof -
  have "good s' \<and> (\<forall>t \<in> set ts. tk_effect t = (\<lambda>s. s))"
    using spawn_kept [where run = run and cancelled = cancelled and role = role and cd = cd and now = now and pfs = pfs, OF assms(1,2)] unfolding assms(3) by simp
  then show ?thesis by (intro drain_kept) simp_all
qed

section \<open>Forced closing\<close>

lemma force_errors_status:
  "status (fold (\<lambda>f s. sk_mark_file_error sink i f (m f s) c t s) fs s) g =
     (if g \<in> set fs then map_option (\<lambda>_. FileError) (status s g) else status s g)"
proof (induction fs arbitrary: s)
  case Nil
  then show ?case by simp
next
  case (Cons f fs)
  show ?case
    by (simp add: Cons errored set_status_def option.map_comp comp_def)
qed

lemma force_closes_all:
  assumes "good s"
  shows "terminal (snd (force_terminal_file_states sink i now s)) g"
    and "fst (force_terminal_file_states sink i now s) = length (sk_unfinished_files sink i s)"
proof -
  have "terminal (fold (\<lambda>f s. sk_mark_file_error sink i f (force_message sink i f s) FcSystem now s)
      (sk_unfinished_files sink i s) s) g"
    unfolding terminal_def force_errors_status using unfinished [OF assms] by auto
  then show "terminal (snd (force_terminal_file_states sink i now s)) g"
    by (auto simp: force_terminal_file_states_def Let_def terminal_def quiet)
  show "fst (force_terminal_file_states sink i now s) = length (sk_unfinished_files sink i s)"
    by (simp add: force_terminal_file_states_def Let_def)
qed

lemma force_kept:
  assumes "good s"
  shows "good (snd (force_terminal_file_states sink i now s))"
proof -
  have "good (fold (\<lambda>f s. sk_mark_file_error sink i f (m f s) c t s) fs s)" if "good s" for m c t fs s
    using that by (induction fs arbitrary: s) (simp_all add: kept)
  with assms show ?thesis by (simp add: force_terminal_file_states_def Let_def kept)
qed

end

section \<open>The store behind the sink\<close>

lemma file_op_view:
  assumes "\<And>e. ex_file_statuses (g e) = ex_file_statuses e"
    and "\<And>e. ex_status (g e) = ex_status e"
    and "\<And>st k h. file_view (after st) k h = file_view st k h"
  shows "file_view (file_op (update_file i f (with_file f u g)) after st) k h =
    (if k = i \<and> h = f then map_option (\<lambda>fs. fs_status (u fs)) (file_in st i f)
     else file_view st k h)"
proof (cases "file_in st i f")
  case None
  then show ?thesis by (simp add: file_op_absent file_view_def)
next
  case (Some fs)
  let ?st = "st\<lparr>st_registry := hm_modify i (\<lambda>j. snd (with_file f u g j)) (st_registry st)\<rparr>"
  have view: "file_view ?st k h = (if k = i \<and> h = f then Some (fs_status (u fs)) else file_view st k h)"
    using with_file_registry_views(2) [OF Some assms(1,2)] by (simp add: file_view_def)
  obtain q where op: "file_op (update_file i f (with_file f u g)) after st =
      after (notify_file_update q ?st)"
    using file_op_present [OF Some assms(1)] by blast
  show ?thesis
    unfolding op assms(3) using view Some by (simp add: store_views)
qed

lemma file_view_map: "map_option (\<lambda>fs. s) (file_in st i f) = map_option (\<lambda>_. s) (file_view st i f)"
  by (simp add: file_view_def option.map_comp comp_def)

lemma file_view_same: "map_option fs_status (file_in st i f) = file_view st i f"
  by (simp add: file_view_def)

lemma store_file_views:
  "file_view (store_mark_file_processing i f t st) i = set_status FileProcessing f (file_view st i)"
  "file_view (store_mark_file_done i f t r st) i = set_status FileDone f (file_view st i)"
  "file_view (store_mark_file_error i f e st) i = set_status FileError f (file_view st i)"
  "file_view (store_mark_file_retry_pending i f rr st) i = set_status FileProcessing f (file_view st i)"
  "file_view (store_start_file_attempt i f k t st) i = file_view st i"
  "file_view (store_set_file_progress i f pr st) i = file_view st i"
  unfolding store_mark_file_processing_def reg_mark_file_processing_def mark_file_processing_def
    store_mark_file_done_def reg_mark_file_done_def mark_file_done_def
    store_mark_file_error_def reg_mark_file_error_def mark_file_error_def
    store_mark_file_retry_pending_def reg_mark_file_retry_pending_def mark_file_retry_pending_def
    store_start_file_attempt_def reg_start_file_attempt_def start_file_attempt_def
    store_set_file_progress_def reg_set_file_progress_def set_file_progress_def
  by (rule ext, subst file_op_view;
      simp add: store_views fs_processing_def fs_done_def fs_failed_def fs_retry_pending_def
        file_view_map file_view_same set_status_def split: option.split)+

lemma clear_retry_view: "file_view (store_clear_file_retry_state i f st) i = file_view st i"
proof (rule ext)
  fix h
  have st: "store_clear_file_retry_state i f st = st\<lparr>st_registry :=
      hm_modify i (\<lambda>j. snd (clear_file_retry_state j f)) (st_registry st)\<rparr>"
    by (simp add: store_clear_file_retry_state_def run_reg_def reg_clear_file_retry_state_def
        case_prod_beta update_job_snd)
  show "file_view (store_clear_file_retry_state i f st) i h = file_view st i h"
    unfolding st file_view_def file_in_def registry_update_views clear_file_retry_state_def
    by (auto simp: with_file_def hmap_store.get_modify option.map_comp comp_def split: option.split)
qed

text \<open>The job is there, and the entries of its file table carry their own key.\<close>

definition job_keyed :: "Job \<Rightarrow> bool" where
  "job_keyed j \<longleftrightarrow> hm_wf (job_files j) \<and>
     (\<forall>k fs. hm_get (job_files j) k = Some fs \<longrightarrow> fs_filename fs = k)"

definition files_keyed :: "JobStore \<Rightarrow> JobId \<Rightarrow> bool" where
  "files_keyed st i \<longleftrightarrow> (\<exists>j. job_in st i = Some j \<and> job_keyed j)"

lemma keyed_registry:
  "(\<And>j. job_keyed j \<Longrightarrow> job_keyed (h j)) \<Longrightarrow> files_keyed st i \<Longrightarrow>
     files_keyed (st\<lparr>st_registry := hm_modify k h (st_registry st)\<rparr>) i"
  by (auto simp: files_keyed_def registry_update_views)

lemma job_keyed_with_file:
  assumes "\<And>fs. fs_filename (u fs) = fs_filename fs"
    and "\<And>e. ex_file_statuses (g e) = ex_file_statuses e"
  shows "job_keyed j \<Longrightarrow> job_keyed (snd (with_file f u g j))"
  using assms
  by (auto simp: job_keyed_def with_file_def hmap_store.get_modify hmap_store.wf_modify
      split: option.splits)

lemma files_keyed_cong: "job_in st' i = job_in st i \<Longrightarrow> files_keyed st' i = files_keyed st i"
  by (simp add: files_keyed_def)

lemmas quiet_keyed =
  quiet_views(1,5) [THEN files_keyed_cong] notify_views(1,5) [THEN files_keyed_cong]
  db_update_file_views(1) [THEN files_keyed_cong] db_update_job_views(1) [THEN files_keyed_cong]

lemma keyed_file_op:
  assumes "\<And>fs. fs_filename (u fs) = fs_filename fs"
    and "\<And>e. ex_file_statuses (g e) = ex_file_statuses e"
    and "\<And>st. files_keyed st i \<Longrightarrow> files_keyed (after st) i"
    and "files_keyed st i"
  shows "files_keyed (file_op (update_file k f (with_file f u g)) after st) i"
proof -
  have "files_keyed (snd (run_reg (update_file k f (with_file f u g)) st)) i"
    unfolding run_reg_update_file
    by (rule keyed_registry [OF job_keyed_with_file [OF assms(1,2)] assms(4)])
  then show ?thesis
    by (auto simp: file_op_def case_prod_beta quiet_keyed assms(3) split: option.split)
qed

lemma keyed_job_op:
  assumes "\<And>j. job_keyed j \<Longrightarrow> job_keyed (h j)"
    and "\<And>st. files_keyed st i \<Longrightarrow> files_keyed (after st) i" and "files_keyed st i"
  shows "files_keyed (job_op (update_job k (with_list_item tsi h)) after st) i"
proof -
  have "files_keyed (snd (run_reg (update_job k (with_list_item tsi h)) st)) i"
    unfolding run_reg_update_job
    by (rule keyed_registry [OF _ assms(3)]) (simp add: with_list_item_def Let_def assms(1))
  then show ?thesis
    by (auto simp: job_op_def case_prod_beta quiet_keyed assms(2) split: option.split)
qed

lemma keyed_attempts:
  assumes "files_keyed st i"
  shows "files_keyed (db_start_attempt k a st) i"
    and "files_keyed (db_finish_attempt_for_file k b st) i"
proof -
  have reg: "files_keyed (snd (run_reg (reg_attach_attempt_id k f x) st)) i"
    "files_keyed (snd (run_reg (reg_take_attempt_id k f) st)) i" if st: "files_keyed st i" for st f x
    unfolding run_reg_def reg_attach_attempt_id_def reg_take_attempt_id_def case_prod_beta Let_def snd_conv
      update_job_snd
    by (rule keyed_registry [OF job_keyed_with_file st]; simp)+
  have db: "files_keyed (st\<lparr>st_db := db\<rparr>) i" for db
    using assms by (simp add: files_keyed_def job_in_def)
  show "files_keyed (db_start_attempt k a st) i"
    using assms reg(1) [OF db]
    by (simp add: db_start_attempt_def case_prod_beta Let_def db split: option.split)
  show "files_keyed (db_finish_attempt_for_file k b st) i"
    using reg(2) [OF assms]
    by (auto simp: db_finish_attempt_for_file_def case_prod_beta files_keyed_def with_db_views
        split: option.split)
qed

lemma store_unfinished:
  assumes "files_keyed st i"
  shows "set (reg_unfinished_files i (st_registry st)) =
    {f. \<exists>k. file_view st i f = Some k \<and> \<not> file_is_terminal k}"
proof -
  obtain j where Some: "job_in st i = Some j" and keyed: "hm_wf (job_files j)"
      "\<And>k fs. hm_get (job_files j) k = Some fs \<Longrightarrow> fs_filename fs = k"
    using assms by (auto simp: files_keyed_def job_keyed_def)
  have un: "reg_unfinished_files i (st_registry st) = unfinished_files j"
    using Some by (simp add: reg_unfinished_files_def project_job_def job_in_def)
  have "f \<in> set (unfinished_files j) \<longleftrightarrow>
      (\<exists>fs. hm_get (job_files j) f = Some fs \<and> \<not> file_is_terminal (fs_status fs))" for f
  proof
    assume "f \<in> set (unfinished_files j)"
    then obtain fs where fs: "fs \<in> set (hm_values (job_files j))" "\<not> file_terminal fs" "f = fs_filename fs"
      by (auto simp: unfinished_files_def)
    then obtain k where "hm_get (job_files j) k = Some fs" using hm_values_get [OF keyed(1)] by blast
    with keyed(2) fs show "\<exists>fs. hm_get (job_files j) f = Some fs \<and> \<not> file_is_terminal (fs_status fs)"
      by (auto simp: file_terminal_def)
  next
    assume "\<exists>fs. hm_get (job_files j) f = Some fs \<and> \<not> file_is_terminal (fs_status fs)"
    then obtain fs where fs: "hm_get (job_files j) f = Some fs" "\<not> file_is_terminal (fs_status fs)"
      by blast
    with keyed(2) hm_get_in_values [OF fs(1)] show "f \<in> set (unfinished_files j)"
      by (force simp: unfinished_files_def file_terminal_def)
  qed
  then show ?thesis
    unfolding un using Some by (auto simp: file_view_def file_in_def)
qed

lemma store_file_keyed:
  assumes "files_keyed st i"
  shows "files_keyed (store_mark_file_processing k f t st) i"
    and "files_keyed (store_mark_file_done k f t r st) i"
    and "files_keyed (store_mark_file_error k f e st) i"
    and "files_keyed (store_mark_file_retry_pending k f rr st) i"
    and "files_keyed (store_start_file_attempt k f kd t st) i"
    and "files_keyed (store_set_file_progress k f pr st) i"
    and "files_keyed (store_clear_file_retry_state k f st) i"
proof -
  show "files_keyed (store_clear_file_retry_state k f st) i"
    unfolding store_clear_file_retry_state_def run_reg_def reg_clear_file_retry_state_def
      clear_file_retry_state_def case_prod_beta Let_def snd_conv update_job_snd
    by (rule keyed_registry [OF job_keyed_with_file assms]; simp)
qed (unfold store_mark_file_processing_def reg_mark_file_processing_def mark_file_processing_def
    store_mark_file_done_def reg_mark_file_done_def mark_file_done_def
    store_mark_file_error_def reg_mark_file_error_def mark_file_error_def
    store_mark_file_retry_pending_def reg_mark_file_retry_pending_def mark_file_retry_pending_def
    store_start_file_attempt_def reg_start_file_attempt_def start_file_attempt_def
    store_set_file_progress_def reg_set_file_progress_def set_file_progress_def,
    (rule keyed_file_op; simp add: assms fs_processing_def fs_done_def fs_failed_def
      fs_retry_pending_def quiet_keyed keyed_attempts split: option.split)+)

interpretation store_files: file_sink store_sink i "\<lambda>st. file_view st i" "\<lambda>st. files_keyed st i" for i
  by unfold_locales
    (simp_all add: store_sink_def store_file_views clear_retry_view store_unfinished store_file_keyed
      keyed_attempts quiet_keyed, simp_all add: fun_eq_iff store_views)

end
