(* ===== verification/Job_Closing.thy ===== *)
theory Job_Closing
  imports Runner_Safety
begin

text \<open>
  How a hosted job ends: no file is left unfinished, the job's status follows from its files, and
  what becomes of the files that media validation rejected.
\<close>

section \<open>A file whose task succeeds\<close>

context file_sink
begin

lemma transcribe_success:
  assumes "tr_ensure_wav r = None" and "ta_result (tr_attempt r 1) = Inr ()"
  shows "fst (process_one_transcribe_file sink i prim r pf s) = TaskReturned TerminalStateRecorded"
    and "status (snd (process_one_transcribe_file sink i prim r pf s)) (pf_filename pf) =
      map_option (\<lambda>_. FileDone) (status s (pf_filename pf))"
  using assms
  by (simp_all add: process_one_transcribe_file_def conservative_def numeral_2_eq_2 numeral_3_eq_3
      Let_def tracker_status forward_progress_status set_status_def option.map_comp comp_def)

text \<open>
  Spawning leaves the status of a file to its own task, and draining touches only the files of
  tasks that did not record one.
\<close>

lemma spawn_status:
  assumes "\<And>pf s. task_contract (pf_filename pf) s (run pf s)"
    and "distinct (map pf_filename pfs)" and "pf \<in> set (takeWhile (\<lambda>pf. \<not> cancelled pf) pfs)"
    and "\<And>s. fst (run pf s) = TaskReturned TerminalStateRecorded"
    and "\<And>s. status (snd (run pf s)) (pf_filename pf) = u (status s (pf_filename pf))"
  shows "status (snd (spawn_file_tasks cancelled role cd now run pfs s)) (pf_filename pf) =
      u (status s (pf_filename pf)) \<and>
    (\<forall>t \<in> set (fst (spawn_file_tasks cancelled role cd now run pfs s)).
       tk_filename t = pf_filename pf \<longrightarrow> tk_exit t = TaskReturned TerminalStateRecorded)"
  using assms(2,3)
proof (induction pfs arbitrary: s)
  case Nil
  then show ?case by simp
next
  case (Cons q pfs)
  let ?sp = "spawn_file_tasks cancelled role cd now run pfs (snd (run q s))"
  have go: "\<not> cancelled q" using Cons.prems(2) by (auto split: if_splits)
  have names: "map tk_filename (fst ?sp) = map pf_filename (takeWhile (\<lambda>pf. \<not> cancelled pf) pfs)"
    and rest: "\<And>g. g \<notin> tk_filename ` set (fst ?sp) \<Longrightarrow> status (snd ?sp) g = status (snd (run q s)) g"
    using spawn_contract [OF assms(1) _ surjective_pairing, of pfs] Cons.prems(1) by auto
  have set_names: "tk_filename ` set (fst ?sp) = pf_filename ` set (takeWhile (\<lambda>pf. \<not> cancelled pf) pfs)"
    using names by (metis list.set_map)
  show ?case
  proof (cases "pf = q")
    case True
    then have "pf_filename pf \<notin> tk_filename ` set (fst ?sp)"
      using Cons.prems(1) unfolding set_names by (auto dest: set_takeWhileD)
    moreover from this have "tk_filename t \<noteq> pf_filename pf" if "t \<in> set (fst ?sp)" for t
      using that by (metis image_eqI)
    ultimately show ?thesis
      using True go rest [of "pf_filename pf"] assms(4,5) by (simp add: case_prod_beta)
  next
    case False
    then have pf: "pf \<in> set (takeWhile (\<lambda>pf. \<not> cancelled pf) pfs)"
      using Cons.prems(2) go by simp
    then have other: "pf_filename q \<noteq> pf_filename pf"
      using Cons.prems(1) by (auto dest: set_takeWhileD)
    have "status (snd (run q s)) (pf_filename pf) = status s (pf_filename pf)"
      using assms(1) [of q s] other by (simp add: task_contract_def only_file_def)
    then show ?thesis
      using Cons.IH [of "snd (run q s)"] Cons.prems(1) pf other go by (simp add: case_prod_beta)
  qed
qed

lemma drain_status:
  assumes "\<And>t. t \<in> set ts \<Longrightarrow> tk_effect t = (\<lambda>s. s)"
    and "\<And>t. t \<in> set ts \<Longrightarrow> tk_filename t = f \<Longrightarrow> tk_exit t = TaskReturned TerminalStateRecorded"
  shows "status (snd (drain_supervised_file_tasks sink i ts s)) f = status s f"
  using assms
proof (induction ts arbitrary: s)
  case (Cons t ts)
  have ab: "tk_exit t \<noteq> TaskReturned TerminalStateRecorded \<Longrightarrow>
      status (record_abnormal_file_task_exit sink i (tk_filename t) role jc je n s) f = status s f"
    for role jc je n
    using Cons.prems(2) [of t] by (auto simp: abnormal_exit_status set_status_def)
  have ih: "status (snd (drain_supervised_file_tasks sink i ts s)) f = status s f" for s
    by (rule Cons.IH) (use Cons.prems in auto)
  show ?case
    using Cons.prems(1) [of t] ab ih by (simp add: case_prod_beta split: TaskExit.split FileTaskOutcome.split)
qed simp

lemma force_keeps_terminal:
  assumes "good s" and "status s f = Some k" and "file_is_terminal k"
  shows "status (snd (force_terminal_file_states sink i now s)) f = Some k"
  using assms unfinished [OF assms(1)]
  by (auto simp: force_terminal_file_states_def Let_def quiet force_errors_status)

end

lemma setup_failure_view:
  "file_view (record_setup_failure store_sink i f t0 e c t st) i g =
     (if g = f then map_option (\<lambda>_. FileError) (file_view st i g) else file_view st i g)"
  by (simp add: store_files.tracker_status set_status_def)

section \<open>Operations on the job\<close>

lemma job_op_views:
  assumes "\<And>j. job_files (h j) = job_files j"
    and "\<And>st k. job_in (after st) k = job_in st k"
  shows "file_view (job_op (update_job i (with_list_item tsi h)) after st) k g = file_view st k g"
    and "job_in (job_op (update_job i (with_list_item tsi h)) after st) i = map_option h (job_in st i)"
proof -
  show "file_view (job_op (update_job i (with_list_item tsi h)) after st) k g = file_view st k g"
  proof (cases "job_in st i")
    case (Some j)
    then obtain it where it: "job_op (update_job i (with_list_item tsi h)) after st =
        after (notify_job_item it (st\<lparr>st_registry := hm_modify i h (st_registry st)\<rparr>))"
      using job_op_present by blast
    show ?thesis
      unfolding it using assms
      by (auto simp: file_view_def file_in_def notify_views registry_update_views split: option.split)
  qed (simp add: job_op_absent)
  show "job_in (job_op (update_job i (with_list_item tsi h)) after st) i = map_option h (job_in st i)"
  proof (cases "job_in st i")
    case (Some j)
    then obtain it where it: "job_op (update_job i (with_list_item tsi h)) after st =
        after (notify_job_item it (st\<lparr>st_registry := hm_modify i h (st_registry st)\<rparr>))"
      using job_op_present by blast
    show ?thesis unfolding it by (simp add: assms(2) notify_views registry_update_views)
  qed (simp add: job_op_absent)
qed

lemma store_job_file_views:
  "file_view (store_mark_job_running i st) k g = file_view st k g"
  "file_view (store_finalize_job i s t st) k g = file_view st k g"
  "file_view (store_fail_job i e t st) k g = file_view st k g"
  unfolding store_mark_job_running_def reg_mark_job_running_def store_finalize_job_def
    reg_finalize_job_def store_fail_job_def reg_fail_job_def
  by (rule job_op_views(1); simp add: db_update_job_views mark_running_def finalize_def job_fail_def)+

lemma finalize_view:
  "job_view (store_finalize_job i s t st) i = map_option (\<lambda>_. s) (job_view st i)"
  unfolding store_finalize_job_def reg_finalize_job_def job_view_def
  by (subst job_op_views(2); simp add: db_update_job_views finalize_def option.map_comp comp_def)

lemma worker_count_views:
  "file_view (store_record_job_worker_count i n st) k g = file_view st k g"
  "files_keyed st i \<Longrightarrow> files_keyed (store_record_job_worker_count i n st) i"
proof -
  have st: "snd (run_reg (reg_record_job_worker_count i n) st) =
      st\<lparr>st_registry := hm_modify i (\<lambda>j. record_worker_count j n) (st_registry st)\<rparr>"
    by (simp add: run_reg_def reg_record_job_worker_count_def case_prod_beta update_job_snd)
  show "file_view (store_record_job_worker_count i n st) k g = file_view st k g"
    using st
    by (auto simp: store_record_job_worker_count_def case_prod_beta file_view_def file_in_def
        db_update_job_views registry_update_views record_worker_count_def split: option.split)
  show "files_keyed st i \<Longrightarrow> files_keyed (store_record_job_worker_count i n st) i"
    using st keyed_registry [of "\<lambda>j. record_worker_count j n" st i i]
    by (auto simp: store_record_job_worker_count_def case_prod_beta quiet_keyed job_keyed_def
        record_worker_count_def)
qed

lemma running_keyed: "files_keyed st i \<Longrightarrow> files_keyed (store_mark_job_running i st) i"
  unfolding store_mark_job_running_def reg_mark_job_running_def
  by (rule keyed_job_op; simp add: quiet_keyed job_keyed_def mark_running_def)

lemma preflight_keyed:
  assumes "files_keyed st i"
  shows "files_keyed (snd (record_preflight_media_failures store_sink i fl failures now st)) i"
proof -
  have "files_keyed (fold (\<lambda>(idx, message) s. (case find (\<lambda>pf. pf_file_index pf = idx) fl of
           None \<Rightarrow> s
         | Some pf \<Rightarrow> record_setup_failure store_sink i (pf_filename pf) now message FcValidation now s))
      xs st) i" for xs
    using assms
    by (induction xs arbitrary: st)
      (simp_all add: case_prod_beta store_files.tracker_kept(5) split: option.split)
  then show ?thesis by (simp add: record_preflight_media_failures_def)
qed

section \<open>The end of a run\<close>

lemma final_status_terminal: "job_is_terminal (final_status c n)"
  by (simp add: final_status_def)

lemma finish_run_closes:
  assumes "files_keyed st i"
  shows "fst (finish_run r i st) = Inr RunCompleted"
    and "store_files.terminal i (snd (finish_run r i st)) f"
    and "\<exists>s. job_view (snd (finish_run r i st)) i = Some s \<and> job_is_terminal s"
    and "file_view st i f = Some k \<Longrightarrow> file_is_terminal k \<Longrightarrow>
      file_view (snd (finish_run r i st)) i f = Some k"
proof -
  let ?s = "snd (force_terminal_file_states store_sink i (hr_forced_at r) st)"
  obtain j where j: "job_in ?s i = Some j"
    using store_files.force_kept [OF assms] by (auto simp: files_keyed_def)
  then obtain c where c: "reg_completion_snapshot i (st_registry ?s) = Some c"
    by (auto simp: reg_completion_snapshot_def project_job_def job_in_def)
  have run: "finish_run r i st = (Inr RunCompleted, store_finalize_job i
      (final_status c (fst (force_terminal_file_states store_sink i (hr_forced_at r) st)))
      (hr_completed_at r) ?s)"
    using c by (simp add: finish_run_def case_prod_beta store_sink_def)
  show "fst (finish_run r i st) = Inr RunCompleted" by (simp add: run)
  show "store_files.terminal i (snd (finish_run r i st)) f"
    using store_files.force_closes_all(1) [OF assms]
    by (simp add: run store_files.terminal_def store_job_file_views)
  show "\<exists>s. job_view (snd (finish_run r i st)) i = Some s \<and> job_is_terminal s"
    using j by (simp add: run finalize_view final_status_terminal) (simp add: job_view_def)
  show "file_view (snd (finish_run r i st)) i f = Some k"
    if "file_view st i f = Some k" and "file_is_terminal k"
    using store_files.force_keeps_terminal [OF assms that] by (simp add: run store_job_file_views)
qed

section \<open>Media validation\<close>

lemma preflight_keys:
  assumes "pf \<in> set fl" and "validate_media_file metadata extension sp pf \<noteq> None"
  shows "\<exists>m. (pf_file_index pf, m) \<in> set (preflight_validate_media metadata extension fl sp True)"
proof -
  let ?step = "\<lambda>pf failures. (case validate_media_file metadata extension sp pf of
      None \<Rightarrow> failures | Some message \<Rightarrow> hm_insert (pf_file_index pf) message failures)"
  have keep: "k \<in> fst ` set acc \<Longrightarrow> k \<in> fst ` set (fold ?step xs acc)" for k :: nat and xs acc
  proof (induction xs arbitrary: acc)
    case (Cons x xs)
    have "k \<in> fst ` set (?step x acc)"
      using Cons.prems by (auto simp: hm_insert_def dom_update split: option.split)
    with Cons.IH show ?case by simp
  qed simp
  have "pf_file_index pf \<in> fst ` set (fold ?step fl acc)" for acc
    using assms
  proof (induction fl arbitrary: acc)
    case (Cons x xs)
    show ?case
    proof (cases "pf = x")
      case True
      with Cons.prems(2) have "pf_file_index pf \<in> fst ` set (?step x acc)"
        by (auto simp: hm_insert_def dom_update split: option.split)
      then show ?thesis using keep by simp
    next
      case False
      then show ?thesis using Cons by simp
    qed
  qed simp
  then show ?thesis by (force simp: preflight_validate_media_def)
qed

text \<open>Every failed index puts the first pending file with that index into error.\<close>

lemma preflight_views:
  "file_view (snd (record_preflight_media_failures store_sink i fl failures now st)) i f =
     (if \<exists>k m pf. (k, m) \<in> set failures \<and> find (\<lambda>pf. pf_file_index pf = k) fl = Some pf \<and>
          pf_filename pf = f
      then map_option (\<lambda>_. FileError) (file_view st i f) else file_view st i f)"
proof -
  have "file_view (fold (\<lambda>(k, m) s. (case find (\<lambda>pf. pf_file_index pf = k) fl of
           None \<Rightarrow> s
         | Some pf \<Rightarrow> record_setup_failure store_sink i (pf_filename pf) now m FcValidation now s))
      xs st) i f =
     (if \<exists>k m pf. (k, m) \<in> set xs \<and> find (\<lambda>pf. pf_file_index pf = k) fl = Some pf \<and>
          pf_filename pf = f
      then map_option (\<lambda>_. FileError) (file_view st i f) else file_view st i f)" for xs
  proof (induction xs arbitrary: st)
    case (Cons x xs)
    then show ?case
      by (cases x) (auto simp: setup_failure_view option.map_comp comp_def split: option.split)
  qed simp
  then show ?thesis by (simp add: record_preflight_media_failures_def)
qed

lemma store_sink_jobs:
  "sk_mark_job_running store_sink = store_mark_job_running"
  "sk_record_job_worker_count store_sink = store_record_job_worker_count"
  "sk_finalize_job store_sink = store_finalize_job"
  "sk_fail_job store_sink = store_fail_job"
  by (simp_all add: store_sink_def)

lemma prepare_keyed: "files_keyed st i \<Longrightarrow> files_keyed (snd (prepare_dispatch r i job plan st)) i"
  by (simp add: prepare_dispatch_def Let_def case_prod_beta preflight_keyed worker_count_views(2)
      running_keyed store_sink_jobs)

lemma snapshot_index_name:
  assumes "reg_runner_snapshot i jobs = Some job"
    and "p \<in> set (rs_pending_files job)" and "q \<in> set (rs_pending_files job)"
    and "pf_file_index p = pf_file_index q"
  shows "pf_filename p = pf_filename q"
proof -
  obtain j where "job = to_runner_snapshot j"
    using assms(1) by (auto simp: reg_runner_snapshot_def project_job_def split: option.splits)
  with assms(2,3) have "p \<in> set (pending_files j)" "q \<in> set (pending_files j)"
    by (simp_all add: to_runner_snapshot_def Let_def)
  with pending_file_nth(2) assms(4) show ?thesis by metis
qed

lemma prepare_rejects:
  assumes "reg_runner_snapshot i jobs = Some job" and "pf \<in> set (rs_pending_files job)"
    and "rf_paths_mode (rs_filesystem job)"
    and "validate_media_file (hr_metadata r) (hr_extension r) (rf_source_paths (rs_filesystem job)) pf \<noteq> None"
  shows "pf \<notin> set (fst (prepare_dispatch r i job plan st))"
    and "file_view (snd (prepare_dispatch r i job plan st)) i (pf_filename pf) =
      map_option (\<lambda>_. FileError) (file_view st i (pf_filename pf))"
proof -
  let ?failures = "preflight_validate_media (hr_metadata r) (hr_extension r) (rs_pending_files job)
    (rf_source_paths (rs_filesystem job)) True"
  obtain m where m: "(pf_file_index pf, m) \<in> set ?failures"
    using preflight_keys [OF assms(2,4)] by blast
  then have ne: "?failures \<noteq> []" by auto
  have failed: "fst (record_preflight_media_failures store_sink i fl failures now s) = fst ` set failures"
    for fl failures now s by (simp add: record_preflight_media_failures_def)
  show "pf \<notin> set (fst (prepare_dispatch r i job plan st))"
    using m ne by (force simp: prepare_dispatch_def Let_def case_prod_beta assms(3) failed)
  obtain q where q: "find (\<lambda>q. pf_file_index q = pf_file_index pf) (rs_pending_files job) = Some q"
    using assms(2) by (metis (mono_tags, lifting) find_None_iff not_None_eq)
  then have "pf_filename q = pf_filename pf"
    using find_sat [OF q] snapshot_index_name [OF assms(1) _ assms(2)] by blast
  with m q have "\<exists>k m q. (k, m) \<in> set ?failures \<and>
      find (\<lambda>pf. pf_file_index pf = k) (rs_pending_files job) = Some q \<and> pf_filename q = pf_filename pf"
    by blast
  then show "file_view (snd (prepare_dispatch r i job plan st)) i (pf_filename pf) =
      map_option (\<lambda>_. FileError) (file_view st i (pf_filename pf))"
    using ne
    by (simp add: prepare_dispatch_def Let_def case_prod_beta assms(3) preflight_views
        worker_count_views(1) store_job_file_views store_sink_jobs)
qed

lemma run_reserved:
  assumes "reg_runner_snapshot i (st_registry st) = Some job"
    and "\<not> hr_cancelled_at_start r" and "\<not> hr_cancelled_with_slot r"
    and "hr_answer r = Inr (Inr plan)"
  shows "run_hosted_job policy w r i st = execute_plan r i job plan st"
  using assms by (simp add: run_hosted_job_def reserve_job_execution_def)

lemma dispatch_transcribe_done:
  assumes "distinct (map pf_filename (rs_pending_files job))"
    and "pf \<in> set (takeWhile (\<lambda>pf. \<not> cancelled pf) (rs_pending_files job))"
    and "ri_job_id (rs_identity job) = i"
    and "tr_ensure_wav (runs pf) = None" and "ta_result (tr_attempt (runs pf) 1) = Inr ()"
  shows "file_view (dispatch_transcribe_infer store_sink prim cancelled cd now runs job st) i
      (pf_filename pf) = map_option (\<lambda>_. FileDone) (file_view st i (pf_filename pf))"
proof -
  let ?run = "\<lambda>pf. process_one_transcribe_file store_sink i prim (runs pf) pf"
  let ?sp = "spawn_file_tasks cancelled (lit ''transcribe file task'') cd now ?run (rs_pending_files job) st"
  have con: "store_files.task_contract i (pf_filename pf) s (?run pf s)" for pf s
    by (rule store_files.transcribe_task_contract)
  have effect: "tk_effect t = (\<lambda>s. s)" if "t \<in> set (fst ?sp)" for t
    using store_files.spawn_contract [where run = ?run, OF con assms(1) surjective_pairing] that by blast
  have sp: "file_view (snd ?sp) i (pf_filename pf) = map_option (\<lambda>_. FileDone) (file_view st i (pf_filename pf))"
    "\<And>t. t \<in> set (fst ?sp) \<Longrightarrow> tk_filename t = pf_filename pf \<Longrightarrow> tk_exit t = TaskReturned TerminalStateRecorded"
    using store_files.spawn_status [where run = ?run, OF con assms(1,2)
        store_files.transcribe_success [OF assms(4,5)]]
    by blast+
  show ?thesis
    using store_files.drain_status [OF effect sp(2)] sp(1)
    by (simp add: dispatch_transcribe_infer_def Let_def case_prod_beta assms(3))
qed

lemma dispatch_transcribe_keyed:
  assumes "files_keyed st (ri_job_id (rs_identity job))"
  shows "files_keyed (dispatch_transcribe_infer store_sink prim cancelled cd now runs job st)
      (ri_job_id (rs_identity job))"
  unfolding dispatch_transcribe_infer_def Let_def case_prod_beta
  by (rule store_files.dispatch_kept [OF store_files.transcribe_task_kept assms surjective_pairing])

section \<open>A small run for the examples\<close>

text \<open>A transcription job over one media file whose extension the validation does not know.\<close>

definition demo_media_job :: Job where
  "demo_media_job = (demo_job [1] [[97]])\<lparr>j_filesystem :=
     (j_filesystem (demo_job [1] [[97]]))\<lparr>fsc_has_chat := [False], fsc_paths_mode := True,
        fsc_source_paths := [[97]]\<rparr>\<rparr>"

definition demo_media_store :: JobStore where
  "demo_media_store = (store_new demo_config None)\<lparr>st_registry := [([1], demo_media_job)]\<rparr>"

definition demo_transcribe :: "PendingJobFile \<Rightarrow> TranscribeRun" where
  "demo_transcribe pf = \<lparr>tr_started_at = 110, tr_ensure_wav = None, tr_converted_at = 111,
     tr_panic = [], tr_attempt = (\<lambda>k. \<lparr>ta_restarted_at = 112, ta_progress = [], ta_result = Inr (),
       ta_write_error = None, ta_finished_at = 113\<rparr>)\<rparr>"

definition demo_run :: HostedRun where
  "demo_run = \<lparr>hr_cancelled_at_start = False, hr_cancelled_with_slot = False,
     hr_answer = Inr (Inr \<lparr>ep_granted_workers = 1, ep_requested_workers = 1,
       ep_lease = new_lease [] [], ep_reserved_mb = 0\<rparr>),
     hr_rejected_at = 0, hr_metadata = (\<lambda>_. Some 10), hr_extension = (\<lambda>_. Some (lit ''opus'')),
     hr_preflight_at = 105,
     hr_dispatch = (\<lambda>job fl n s. (Inr (), dispatch_transcribe_infer store_sink
       (\<lambda>f. (f, CtChat)) (\<lambda>_. False) False 120 demo_transcribe job s)),
     hr_failed_at = 0, hr_forced_at = 130, hr_completed_at = 131, hr_esc = (\<lambda>_. [])\<rparr>"

lemma demo_media:
  "reg_runner_snapshot [1] (st_registry demo_media_store) = Some (to_runner_snapshot demo_media_job)"
  "rs_pending_files (to_runner_snapshot demo_media_job) =
     [\<lparr>pf_file_index = 0, pf_filename = [97], pf_has_chat = False\<rparr>]"
  "ri_job_id (rs_identity (to_runner_snapshot demo_media_job)) = [1]"
  "file_view demo_media_store [1] [97] = Some FileQueued"
  "files_keyed demo_media_store [1]"
  by (simp_all add: demo_media_store_def demo_media_job_def demo_job_def reg_runner_snapshot_def
      project_job_def hm_get_Cons to_runner_snapshot_def Let_def pending_files_def map_filter_def
      already_done_def file_view_def file_in_def job_in_def files_keyed_def job_keyed_def hm_wf_def
      hm_get_def enumerate_eq_zip file_status_new_def file_terminal_def del: One_nat_def)

section \<open>Properties\<close>

text \<open>
  C6: no file is left behind by the transcribe dispatcher. Whatever the conversions, the inference
  attempts and their panics do, once the dispatcher returns every file it was started for (up to
  the first at which the job was found cancelled) has a terminal status.
\<close>

theorem transcribe_dispatch_terminal:
  assumes "distinct (map pf_filename (rs_pending_files job))"
    and "pf \<in> set (takeWhile (\<lambda>pf. \<not> cancelled pf) (rs_pending_files job))"
    and "file_view (dispatch_transcribe_infer store_sink prim cancelled cd now runs job st)
      (ri_job_id (rs_identity job)) (pf_filename pf) = Some k"
  shows "file_is_terminal k"
proof -
  let ?i = "ri_job_id (rs_identity job)"
  have "store_files.terminal ?i (dispatch_transcribe_infer store_sink prim cancelled cd now runs job st)
      (pf_filename pf)"
    unfolding dispatch_transcribe_infer_def Let_def case_prod_beta
    by (rule store_files.dispatch_closes [OF store_files.transcribe_task_contract assms(1,2)
        surjective_pairing])
  with assms(3) show ?thesis by (simp add: store_files.terminal_def)
qed

lemma transcribe_dispatch_terminal_witness: "file_is_terminal FileDone"
proof (rule transcribe_dispatch_terminal [of "to_runner_snapshot demo_media_job"
      "\<lparr>pf_file_index = 0, pf_filename = [97], pf_has_chat = False\<rparr>" "\<lambda>_. False" "\<lambda>f. (f, CtChat)"
      False 120 demo_transcribe demo_media_store])
  show "file_view (dispatch_transcribe_infer store_sink (\<lambda>f. (f, CtChat)) (\<lambda>_. False) False 120
      demo_transcribe (to_runner_snapshot demo_media_job) demo_media_store)
      (ri_job_id (rs_identity (to_runner_snapshot demo_media_job)))
      (pf_filename \<lparr>pf_file_index = 0, pf_filename = [97], pf_has_chat = False\<rparr>) = Some FileDone"
    by (subst dispatch_transcribe_done) (simp_all add: demo_media demo_transcribe_def del: One_nat_def)
qed (simp_all add: demo_media)

text \<open>
  The same for the media-analysis dispatcher, whose tasks also end when writing the output
  fails.
\<close>

lemma media_dispatch_terminal:
  assumes "distinct (map pf_filename (rs_pending_files job))"
    and "pf \<in> set (takeWhile (\<lambda>pf. \<not> cancelled pf) (rs_pending_files job))"
    and "file_view (dispatch_media_analysis_v2 store_sink cancelled cd now runs job st)
      (ri_job_id (rs_identity job)) (pf_filename pf) = Some k"
  shows "file_is_terminal k"
proof -
  let ?i = "ri_job_id (rs_identity job)"
  have "store_files.terminal ?i (dispatch_media_analysis_v2 store_sink cancelled cd now runs job st)
      (pf_filename pf)"
    unfolding dispatch_media_analysis_v2_def Let_def case_prod_beta
    by (rule store_files.dispatch_closes [OF store_files.media_task_contract assms(1,2)
        surjective_pairing])
  with assms(3) show ?thesis by (simp add: store_files.terminal_def)
qed

text \<open>
  C4: a hosted job ends completely. When memory was granted and the dispatcher returned (with
  whatever it did to the files of the job), the run reports completion, the job has a terminal
  status, and no file of the job is left queued or processing.
\<close>

theorem hosted_job_closes:
  assumes "reg_runner_snapshot i (st_registry st) = Some job" and "files_keyed st i"
    and "\<not> hr_cancelled_at_start r" and "\<not> hr_cancelled_with_slot r"
    and "hr_answer r = Inr (Inr plan)"
    and "\<And>fl n s. files_keyed s i \<Longrightarrow>
      fst (hr_dispatch r job fl n s) = Inr () \<and> files_keyed (snd (hr_dispatch r job fl n s)) i"
  shows "fst (run_hosted_job policy w r i st) = Inr RunCompleted \<and>
    (\<exists>s. job_view (snd (run_hosted_job policy w r i st)) i = Some s \<and> job_is_terminal s) \<and>
    {f. \<exists>k. file_view (snd (run_hosted_job policy w r i st)) i f = Some k \<and> \<not> file_is_terminal k} = {}"
proof -
  let ?p = "prepare_dispatch r i job plan st"
  let ?d = "hr_dispatch r job (fst ?p) (ep_granted_workers plan) (snd ?p)"
  have d: "fst ?d = Inr ()" "files_keyed (snd ?d) i"
    using assms(6) [OF prepare_keyed [OF assms(2)]] by blast+
  have "run_hosted_job policy w r i st = finish_run r i (snd ?d)"
    using d(1) by (simp add: run_reserved [OF assms(1,3-5)] execute_plan_def Let_def case_prod_beta)
  with finish_run_closes(1-3) [OF d(2)] show ?thesis
    by (simp add: store_files.terminal_def)
qed

lemma hosted_job_closes_witness:
  "fst (run_hosted_job GateQueued 1 demo_run [1] demo_media_store) = Inr RunCompleted"
  using hosted_job_closes [OF demo_media(1,5), of demo_run _ GateQueued 1]
    dispatch_transcribe_keyed [of _ "to_runner_snapshot demo_media_job"]
  by (simp add: demo_run_def demo_media(3))

text \<open>
  C7: a file that media validation rejects is processed anyway. The file is taken off the list
  handed to the dispatcher and recorded as failed, but the transcribe dispatcher walks the pending
  files of the job's snapshot, so the file is transcribed and the job ends with it marked done.
\<close>

theorem rejected_file_still_transcribed:
  assumes "reg_runner_snapshot i (st_registry st) = Some job" and "files_keyed st i"
    and "ri_job_id (rs_identity job) = i" and "distinct (map pf_filename (rs_pending_files job))"
    and "\<not> hr_cancelled_at_start r" and "\<not> hr_cancelled_with_slot r"
    and "hr_answer r = Inr (Inr plan)"
    and "rf_paths_mode (rs_filesystem job)" and "pf \<in> set (rs_pending_files job)"
    and "validate_media_file (hr_metadata r) (hr_extension r) (rf_source_paths (rs_filesystem job)) pf
      \<noteq> None"
    and "hr_dispatch r = (\<lambda>job fl n s.
      (Inr (), dispatch_transcribe_infer store_sink prim (\<lambda>_. False) cd now runs job s))"
    and "tr_ensure_wav (runs pf) = None" and "ta_result (tr_attempt (runs pf) 1) = Inr ()"
    and "file_view st i (pf_filename pf) = Some k"
  shows "pf \<notin> set (fst (prepare_dispatch r i job plan st)) \<and>
    file_view (snd (prepare_dispatch r i job plan st)) i (pf_filename pf) = Some FileError \<and>
    file_view (snd (run_hosted_job policy w r i st)) i (pf_filename pf) = Some FileDone"
proof -
  let ?p = "prepare_dispatch r i job plan st"
  let ?s = "dispatch_transcribe_infer store_sink prim (\<lambda>_. False) cd now runs job (snd ?p)"
  have all: "takeWhile (\<lambda>_. True) (rs_pending_files job) = rs_pending_files job"
    by (simp add: takeWhile_eq_all_conv)
  note rejected = prepare_rejects [OF assms(1,9,8,10), of plan st]
  have "file_view ?s i (pf_filename pf) = Some FileDone"
    using dispatch_transcribe_done [where cancelled = "\<lambda>_. False" and st = "snd ?p" and pf = pf
        and runs = runs and job = job, OF assms(4) _ assms(3,12,13)] assms(9) rejected(2)
      assms(14) all by simp
  moreover have "files_keyed ?s i"
    using dispatch_transcribe_keyed prepare_keyed [OF assms(2)] assms(3) by blast
  moreover have "run_hosted_job policy w r i st = finish_run r i ?s"
    by (simp add: run_reserved [OF assms(1,5-7)] execute_plan_def Let_def case_prod_beta assms(11))
  ultimately show ?thesis
    using rejected assms(14) finish_run_closes(4) by simp
qed

lemma rejected_file_still_transcribed_witness:
  "file_view (snd (run_hosted_job GateQueued 1 demo_run [1] demo_media_store)) [1] [97] = Some FileDone"
proof -
  let ?pf = "\<lparr>pf_file_index = 0, pf_filename = [97], pf_has_chat = False\<rparr>"
  have "rf_paths_mode (rs_filesystem (to_runner_snapshot demo_media_job))"
    "rf_source_paths (rs_filesystem (to_runner_snapshot demo_media_job)) = [[97]]"
    by (simp_all add: to_runner_snapshot_def Let_def demo_media_job_def)
  then have "validate_media_file (hr_metadata demo_run) (hr_extension demo_run)
      (rf_source_paths (rs_filesystem (to_runner_snapshot demo_media_job))) ?pf \<noteq> None"
    "rf_paths_mode (rs_filesystem (to_runner_snapshot demo_media_job))"
    by (simp_all add: validate_media_file_def demo_run_def KNOWN_MEDIA_EXTENSIONS_def)
  note media = this
  have "file_view (snd (run_hosted_job GateQueued 1 demo_run [1] demo_media_store)) [1]
      (pf_filename ?pf) = Some FileDone"
    by (rule rejected_file_still_transcribed [OF demo_media(1,5,3) _ _ _ _ media(2) _ media(1),
          where runs = demo_transcribe and k = FileQueued, THEN conjunct2, THEN conjunct2])
      (simp_all add: demo_run_def demo_media demo_transcribe_def del: One_nat_def)
  then show ?thesis by simp
qed

end
