(* ===== verification/Num_Expand.thy ===== *)
theory Num_Expand
  imports Prelude
begin

text \<open>
  Numbers into words (\<open>chat-ops/asr_postprocess/num2text.rs\<close>, \<open>num2chinese.rs\<close>): digit strings of
  a transcript are read out with the number table of the language, in Chinese characters for
  Chinese, Japanese and Cantonese. The tables (\<open>data/num2lang.json\<close>) and the Unicode lower-casing
  of the language code are arguments.
\<close>

section \<open>Chinese numerals\<close>

datatype ChineseScript = Simplified | Traditional

definition c_basic :: "rchar list" where
  "c_basic = [38646, 19968, 20108, 19977, 22235, 20116, 20845, 19971, 20843, 20061]"

definition c_unit1 :: "rchar list" where
  "c_unit1 = [21313, 30334, 21315]"

fun c_unit2 :: "ChineseScript \<Rightarrow> rchar list" where
  "c_unit2 Simplified = [19975, 20159, 20806, 20140, 22419, 31213, 31344, 27807, 28071, 27491, 36733]"
| "c_unit2 Traditional = [33836, 20740, 20806, 20140, 22419, 31213, 31344, 28317, 28567, 27491, 36617]"

text \<open>
  The loop over the digits of one group; the position from the right is the number of digits still
  to come.
\<close>

primrec convert_group_loop :: "bool \<Rightarrow> nat list \<Rightarrow> rstr list \<Rightarrow> bool \<Rightarrow> rstr list" where
  "convert_group_loop has_preceding [] parts has_zero_run = parts"
| "convert_group_loop has_preceding (d # ds) parts has_zero_run =
     (if d = 0
      then convert_group_loop has_preceding ds parts
             (has_zero_run \<or> has_preceding \<or> parts \<noteq> [])
      else (let parts = (if has_zero_run then parts @ [[c_basic ! 0]] else parts);
                pos_from_right = length ds
            in convert_group_loop has_preceding ds
                 (parts @
                   [if pos_from_right = 0 then [c_basic ! d]
                    else if pos_from_right = 1 \<and> d = 1 \<and> parts = [] \<and> \<not> has_preceding
                    then [c_unit1 ! 0]
                    else [c_basic ! d, c_unit1 ! (pos_from_right - 1)]]) False))"

definition convert_group :: "nat list \<Rightarrow> bool \<Rightarrow> rstr" where
  "convert_group digits has_preceding = concat (convert_group_loop has_preceding digits [] False)"

definition digits_value :: "nat list \<Rightarrow> nat" where
  "digits_value ds = foldl (\<lambda>acc d. acc * 10 + d) 0 ds"

text \<open>Groups of four digits from the right: the short group, if any, comes first.\<close>

function chunks :: "nat \<Rightarrow> 'a list \<Rightarrow> 'a list list" where
  "chunks n xs = (if n = 0 \<or> xs = [] then [] else take n xs # chunks n (drop n xs))"
  by auto
termination by (relation "measure (\<lambda>(n, xs). length xs)") auto

declare chunks.simps [simp del]

definition digit_groups :: "nat list \<Rightarrow> nat list list" where
  "digit_groups digits =
     (let remainder = length digits mod 4
      in (if 0 < remainder then [take remainder digits] else []) @ chunks 4 (drop remainder digits))"

primrec num2chinese_loop :: "rchar list \<Rightarrow> nat list list \<Rightarrow> rstr list \<Rightarrow> bool \<Rightarrow> rstr list" where
  "num2chinese_loop units [] parts prev_group_was_zero = parts"
| "num2chinese_loop units (g # gs) parts prev_group_was_zero =
     (let unit_idx = length gs
      in if digits_value g = 0
         then num2chinese_loop units gs parts (prev_group_was_zero \<or> parts \<noteq> [])
         else (let parts = (if prev_group_was_zero then parts @ [[c_basic ! 0]] else parts);
                   parts = parts @ [convert_group g (parts \<noteq> [])];
                   parts = (if 0 < unit_idx then parts @ [[units ! (unit_idx - 1)]] else parts)
               in num2chinese_loop units gs parts False))"

definition num2chinese :: "nat \<Rightarrow> ChineseScript \<Rightarrow> rstr" where
  "num2chinese num script =
     (if num = 0 then [c_basic ! 0]
      else concat (num2chinese_loop (c_unit2 script)
             (digit_groups (map (\<lambda>b. b - 48) (show_nat num))) [] False))"

section \<open>Tables\<close>

type_synonym NumTable = "(rstr, rstr) hmap"

text \<open>\<open>str::parse::<u64>\<close>: an optional plus sign, then digits, within 64 bits.\<close>

definition parse_u64 :: "rstr \<Rightarrow> nat option" where
  "parse_u64 s =
     (let ds = (case s of [] \<Rightarrow> [] | c # cs \<Rightarrow> if c = 43 then cs else s)
      in if ds = [] \<or> \<not> list_all is_ascii_digit ds then None
         else (let v = digits_value (map (\<lambda>c. c - 48) ds) in if v \<le> u64_max then Some v else None))"

definition table_entries :: "NumTable \<Rightarrow> (nat \<times> rstr) list" where
  "table_entries table =
     sort_key (\<lambda>e. - int (fst e))
       (filter (\<lambda>e. 0 < fst e)
         (List.map_filter (\<lambda>(k, v). map_option (\<lambda>num. (num, v)) (parse_u64 k)) table))"

text \<open>
  The loop over the entries, largest first, with what is left of the number; the multiplier of an
  entry from one hundred up is expanded recursively.
\<close>

function decompose_with_table :: "NumTable \<Rightarrow> nat \<Rightarrow> rstr option"
  and decompose_loop :: "NumTable \<Rightarrow> (nat \<times> rstr) list \<Rightarrow> nat \<Rightarrow> rstr list \<Rightarrow> (nat \<times> rstr list) option" where
  "decompose_with_table table n =
     (if n = 0 then hm_get table (lit ''0'')
      else (case decompose_loop table (table_entries table) n [] of
              None \<Rightarrow> None
            | Some (n, parts) \<Rightarrow>
                if 0 < n then None else if parts = [] then None else Some (join_with (lit '' '') parts)))"
| "decompose_loop table [] n parts = Some (n, parts)"
| "decompose_loop table ((key_num, word_form) # es) n parts =
     (if key_num = 0 then decompose_loop table es n parts
      else if n = 0 \<or> n < key_num then decompose_loop table es n parts
      else if 100 \<le> key_num
      then (let multiplier = n div key_num; remainder = n mod key_num
            in if 1 < multiplier
               then (case decompose_with_table table multiplier of
                       None \<Rightarrow> None
                     | Some mult_word \<Rightarrow>
                         if remainder = 0
                         then Some (0, parts @ [mult_word @ lit '' '' @ word_form])
                         else decompose_loop table es remainder
                                (parts @ [mult_word @ lit '' '' @ word_form]))
               else if remainder = 0 then Some (0, parts @ [word_form])
               else decompose_loop table es remainder (parts @ [word_form]))
      else if n - key_num = 0 then Some (0, parts @ [word_form])
      else decompose_loop table es (n - key_num) (parts @ [word_form]))"
  by pat_completeness auto
termination
proof (relation "measures [case_sum (\<lambda>(t, n). n) (\<lambda>(t, es, n, p). n),
    case_sum (\<lambda>(t, n). 1) (\<lambda>(t, es, n, p). 0), case_sum (\<lambda>(t, n). 0) (\<lambda>(t, es, n, p). length es)]")
  fix table :: NumTable and key_num n multiplier remainder :: nat and word_form :: rstr
    and es :: "(nat \<times> rstr) list" and parts :: "rstr list"
  assume "\<not> key_num = 0" "\<not> (n = 0 \<or> n < key_num)" "100 \<le> key_num" "multiplier = n div key_num"
  then show "(Inl (table, multiplier), Inr (table, (key_num, word_form) # es, n, parts)) \<in>
    measures [case_sum (\<lambda>(t, n). n) (\<lambda>(t, es, n, p). n),
    case_sum (\<lambda>(t, n). 1) (\<lambda>(t, es, n, p). 0), case_sum (\<lambda>(t, n). 0) (\<lambda>(t, es, n, p). length es)]"
    by simp
qed (auto intro: less_le_trans [OF mod_less_divisor])

declare decompose_with_table.simps [simp del] decompose_loop.simps(2) [simp del]

section \<open>Expansion\<close>

definition CURRENCY_PREFIXES :: "(rstr \<times> rstr) list" where
  "CURRENCY_PREFIXES =
     [(lit ''$'', lit ''dollars''), ([8364], lit ''euros''), ([163], lit ''pounds''),
      ([165], lit ''yen''), ([8377], lit ''rupees''), ([8361], lit ''won''), ([8381], lit ''rubles'')]"

definition CURRENCY_SUFFIXES :: "(rstr \<times> rstr) list" where
  "CURRENCY_SUFFIXES = [([8364], lit ''euros''), ([8377], lit ''rupees'')]"

definition strip_prefix :: "rstr \<Rightarrow> rstr \<Rightarrow> rstr option" where
  "strip_prefix s p = (if starts_with s p then Some (drop (length p) s) else None)"

definition strip_suffix :: "rstr \<Rightarrow> rstr \<Rightarrow> rstr option" where
  "strip_suffix s p = (if ends_with s p then Some (take (length s - length p) s) else None)"

definition all_digits :: "rstr \<Rightarrow> bool" where
  "all_digits s \<longleftrightarrow> list_all is_ascii_digit s"

definition expand_single_number ::
  "(rstr \<Rightarrow> rstr) \<Rightarrow> (rstr \<Rightarrow> NumTable option) \<Rightarrow> rstr \<Rightarrow> rstr \<Rightarrow> rstr" where
  "expand_single_number lower num2lang word lang =
     (if \<not> all_digits word \<or> word = [] then word
      else (let lang_lower = lower lang;
                script = (if lang_lower \<in> {lit ''zho'', lit ''cmn''} then Some Simplified
                          else if lang_lower \<in> {lit ''jpn'', lit ''yue''} then Some Traditional
                          else None)
            in case (script, parse_u64 word) of
                 (Some s, Some n) \<Rightarrow> num2chinese n s
               | _ \<Rightarrow>
                   (case num2lang lang_lower of
                      None \<Rightarrow> word
                    | Some table \<Rightarrow>
                        (case hm_get table word of
                           Some value \<Rightarrow> value
                         | None \<Rightarrow>
                             (case parse_u64 word of
                                None \<Rightarrow> word
                              | Some n \<Rightarrow>
                                  (case decompose_with_table table n of
                                     Some expanded \<Rightarrow> expanded
                                   | None \<Rightarrow> word))))))"

text \<open>One of the two loops over currency symbols: the first symbol with digits beside it decides.\<close>

primrec expand_currency_loop ::
  "(rstr \<Rightarrow> rstr \<Rightarrow> rstr option) \<Rightarrow> (rstr \<Rightarrow> rstr) \<Rightarrow> rstr \<Rightarrow> (rstr \<times> rstr) list \<Rightarrow> rstr option" where
  "expand_currency_loop strip expand word [] = None"
| "expand_currency_loop strip expand word (c # cs) =
     (case strip word (fst c) of
        None \<Rightarrow> expand_currency_loop strip expand word cs
      | Some rest \<Rightarrow>
          (let rest = trim rest
           in if rest \<noteq> [] \<and> all_digits rest
              then (let expanded = expand rest
                    in if expanded \<noteq> rest then Some (expanded @ lit '' '' @ snd c)
                       else Some (rest @ lit '' '' @ snd c))
              else expand_currency_loop strip expand word cs))"

definition try_expand_currency ::
  "(rstr \<Rightarrow> rstr) \<Rightarrow> (rstr \<Rightarrow> NumTable option) \<Rightarrow> rstr \<Rightarrow> rstr \<Rightarrow> rstr option" where
  "try_expand_currency lower num2lang word lang =
     (let expand = (\<lambda>rest. expand_single_number lower num2lang rest lang)
      in case expand_currency_loop strip_prefix expand word CURRENCY_PREFIXES of
           Some e \<Rightarrow> Some e
         | None \<Rightarrow> expand_currency_loop strip_suffix expand word CURRENCY_SUFFIXES)"

definition expand_number ::
  "(rstr \<Rightarrow> rstr) \<Rightarrow> (rstr \<Rightarrow> NumTable option) \<Rightarrow> rstr \<Rightarrow> rstr \<Rightarrow> rstr" where
  "expand_number lower num2lang word lang =
     (let normalized = map (\<lambda>c. if c = 8212 \<or> c = 8211 then 45 else c) word;
          parts = split_char 45 normalized;
          single = (\<lambda>p. expand_single_number lower num2lang p lang)
      in if 45 \<in> set normalized \<and> 1 < length parts \<and> list_all (\<lambda>p. p \<noteq> [] \<and> all_digits p) parts
         then join_with (lit '' '') (map single parts)
         else (case try_expand_currency lower num2lang normalized lang of
                 Some expanded \<Rightarrow> expanded
               | None \<Rightarrow> single normalized))"

section \<open>Reading a Chinese numeral\<close>

text \<open>
  What a numeral means, from left to right: the value of the closed groups of ten thousand, the
  value of the open group, and a digit still without its unit. A unit with no digit counts one.
\<close>

definition digit_of :: "rchar \<Rightarrow> nat option" where
  "digit_of c = map_of (zip c_basic [0..<10]) c"

definition small_unit :: "rchar \<Rightarrow> nat option" where
  "small_unit c = map_of (zip c_unit1 [10, 100, 1000]) c"

definition big_unit :: "ChineseScript \<Rightarrow> rchar \<Rightarrow> nat option" where
  "big_unit script c = map_of (zip (c_unit2 script) [1..<12]) c"

fun read_char :: "ChineseScript \<Rightarrow> rchar \<Rightarrow> nat \<times> nat \<times> nat \<Rightarrow> nat \<times> nat \<times> nat" where
  "read_char script c (whole, section, pending) =
     (case digit_of c of
        Some d \<Rightarrow> (whole, section, d)
      | None \<Rightarrow>
          (case small_unit c of
             Some u \<Rightarrow> (whole, section + (if pending = 0 then 1 else pending) * u, 0)
           | None \<Rightarrow>
               (case big_unit script c of
                  Some k \<Rightarrow> (whole + (section + pending) * 10000 ^ k, 0, 0)
                | None \<Rightarrow> (whole, section, pending))))"

definition read_from :: "ChineseScript \<Rightarrow> rstr \<Rightarrow> nat \<times> nat \<times> nat \<Rightarrow> nat \<times> nat \<times> nat" where
  "read_from script s st = fold (read_char script) s st"

definition read_chinese :: "ChineseScript \<Rightarrow> rstr \<Rightarrow> nat" where
  "read_chinese script s =
     (case read_from script s (0, 0, 0) of (whole, section, pending) \<Rightarrow> whole + section + pending)"

lemma read_from_append: "read_from script (s @ t) st = read_from script t (read_from script s st)"
  by (simp add: read_from_def)

lemma read_from_Nil [simp]: "read_from script [] st = st"
  by (simp add: read_from_def)

lemma read_digit:
  assumes "d < 10"
  shows "read_from script [c_basic ! d] (w, s, p) = (w, s, d)"
proof -
  have "d \<in> {0, 1, 2, 3, 4, 5, 6, 7, 8, 9}" using assms by auto
  then show ?thesis by (auto simp: read_from_def digit_of_def c_basic_def upt_rec)
qed

lemma read_small_unit:
  assumes "k < 3"
  shows "read_from script [c_unit1 ! k] (w, s, p) =
    (w, s + (if p = 0 then 1 else p) * 10 ^ Suc k, 0)"
proof -
  have "k \<in> {0, 1, 2}" using assms by auto
  then show ?thesis
    by (auto simp: read_from_def digit_of_def small_unit_def c_basic_def c_unit1_def upt_rec)
qed

lemma read_big_unit:
  assumes "k < 11"
  shows "read_from script [c_unit2 script ! k] (w, s, p) = (w + (s + p) * 10000 ^ Suc k, 0, 0)"
proof -
  have k: "k \<in> {0, 1, 2, 3, 4, 5, 6, 7, 8, 9, 10}" using assms by simp presburger
  have "digit_of (c_unit2 script ! k) = None" "small_unit (c_unit2 script ! k) = None"
    using k by (cases script; auto simp: digit_of_def small_unit_def c_basic_def c_unit1_def upt_rec)+
  moreover have "big_unit script (c_unit2 script ! k) = Some (Suc k)"
    using k by (cases script) (auto simp: big_unit_def upt_rec)
  ultimately show ?thesis by (simp add: read_from_def del: power_Suc)
qed

lemma digits_value_append:
  "digits_value (xs @ ys) = digits_value xs * 10 ^ length ys + digits_value ys"
proof -
  have "foldl (\<lambda>acc d. acc * 10 + d) a ys =
      a * 10 ^ length ys + foldl (\<lambda>acc d. acc * 10 + d) 0 ys" for a
  proof (induction ys arbitrary: a)
    case (Cons y ys)
    show ?case
      using Cons [of "a * 10 + y"] Cons [of y] by (simp only: foldl_Cons) (simp add: add_mult_distrib mult.assoc add.assoc)
  qed simp
  then show ?thesis unfolding digits_value_def foldl_append .
qed

lemma digits_value_Cons: "digits_value (d # ds) = d * 10 ^ length ds + digits_value ds"
proof -
  have "digits_value [d] = d" by (simp add: digits_value_def)
  then show ?thesis using digits_value_append [of "[d]" ds] by simp
qed

lemma digits_value_Nil [simp]: "digits_value [] = 0"
  by (simp add: digits_value_def)

text \<open>Reading what the loop over one group appends adds the value of the group.\<close>

lemma read_convert_group_loop:
  assumes "list_all (\<lambda>d. d < 10) ds" and "length ds \<le> 4"
    and "read_from script (concat parts) st = (w, s, 0)"
  shows "\<exists>s' p'. read_from script (concat (convert_group_loop hp ds parts zr)) st = (w, s', p') \<and>
    s' + p' = s + digits_value ds"
  using assms
proof (induction ds arbitrary: parts zr s)
  case Nil
  then show ?case by simp
next
  case (Cons d ds)
  show ?case
  proof (cases "d = 0")
    case True
    with Cons show ?thesis by (simp add: digits_value_Cons)
  next
    case False
    define parts1 where "parts1 = (if zr then parts @ [[c_basic ! 0]] else parts)"
    have p1: "read_from script (concat parts1) st = (w, s, 0)"
      using Cons.prems(3) by (simp add: parts1_def read_from_append read_digit)
    have d: "d < 10" using Cons.prems(1) by simp
    have loop: "convert_group_loop hp (d # ds) parts zr = convert_group_loop hp ds
        (parts1 @ [if length ds = 0 then [c_basic ! d]
          else if length ds = 1 \<and> d = 1 \<and> parts1 = [] \<and> \<not> hp then [c_unit1 ! 0]
          else [c_basic ! d, c_unit1 ! (length ds - 1)]]) False"
      using False by (simp add: parts1_def Let_def)
    show ?thesis
    proof (cases "ds = []")
      case True
      then show ?thesis
        unfolding loop using p1 d by (simp add: read_from_append read_digit digits_value_Cons)
    next
      case ne: False
      then have k: "length ds - 1 < 3" "Suc (length ds - 1) = length ds"
        using Cons.prems(2) by (cases ds; simp)+
      let ?new = "if length ds = 1 \<and> d = 1 \<and> parts1 = [] \<and> \<not> hp then [c_unit1 ! 0]
          else [c_basic ! d, c_unit1 ! (length ds - 1)]"
      have "read_from script [c_basic ! d, c_unit1 ! (length ds - 1)] (w, s, 0) =
          (w, s + d * 10 ^ length ds, 0)"
        using read_from_append [of script "[c_basic ! d]" "[c_unit1 ! (length ds - 1)]"] d False k
        by (simp add: read_digit read_small_unit del: power_Suc)
      then have new: "read_from script ?new (w, s, 0) = (w, s + d * 10 ^ length ds, 0)"
        by (simp add: read_small_unit)
      have "read_from script (concat (parts1 @ [?new])) st = (w, s + d * 10 ^ length ds, 0)"
        using p1 new by (simp add: read_from_append)
      from Cons.IH [OF _ _ this, of False] Cons.prems(1,2) ne show ?thesis
        unfolding loop by (simp add: digits_value_Cons add.assoc)
    qed
  qed
qed

lemma read_convert_group:
  assumes "list_all (\<lambda>d. d < 10) ds" and "length ds \<le> 4"
  shows "\<exists>s p. read_from script (convert_group ds hp) (w, 0, 0) = (w, s, p) \<and> s + p = digits_value ds"
  using read_convert_group_loop [OF assms, of script "[]" "(w, 0, 0)" w 0 hp False]
  by (simp add: convert_group_def)

definition groups_value :: "nat list list \<Rightarrow> nat" where
  "groups_value gs = foldl (\<lambda>acc g. acc * 10000 + digits_value g) 0 gs"

lemma groups_value_Cons: "groups_value (g # gs) = digits_value g * 10000 ^ length gs + groups_value gs"
proof -
  have "foldl (\<lambda>acc g. acc * 10000 + digits_value g) a gs =
      a * 10000 ^ length gs + foldl (\<lambda>acc g. acc * 10000 + digits_value g) 0 gs" for a
  proof (induction gs arbitrary: a)
    case (Cons y ys)
    show ?case
      using Cons [of "a * 10000 + digits_value y"] Cons [of "digits_value y"]
      by (simp only: foldl_Cons) (simp add: add_mult_distrib mult.assoc add.assoc)
  qed simp
  from this [of "digits_value g"] show ?thesis
    unfolding groups_value_def foldl_Cons mult_0 add_0 .
qed

lemma groups_value_Nil [simp]: "groups_value [] = 0"
  by (simp add: groups_value_def)

lemma read_num2chinese_loop:
  assumes "list_all (\<lambda>g. list_all (\<lambda>d. d < 10) g \<and> length g \<le> 4) gs" and "length gs \<le> 12"
    and "read_from script (concat parts) (0, 0, 0) = (w, 0, 0)"
  shows "\<exists>w' s p. read_from script (concat (num2chinese_loop (c_unit2 script) gs parts pz)) (0, 0, 0) =
    (w', s, p) \<and> w' + s + p = w + groups_value gs"
  using assms
proof (induction gs arbitrary: parts pz w)
  case Nil
  then show ?case by simp
next
  case (Cons g gs)
  show ?case
  proof (cases "digits_value g = 0")
    case True
    with Cons show ?thesis by (simp add: groups_value_Cons)
  next
    case False
    define parts1 where "parts1 = (if pz then parts @ [[c_basic ! 0]] else parts)"
    have p1: "read_from script (concat parts1) (0, 0, 0) = (w, 0, 0)"
      using Cons.prems(3) by (simp add: parts1_def read_from_append read_digit)
    obtain s p where g: "read_from script (convert_group g (parts1 \<noteq> [])) (w, 0, 0) = (w, s, p)"
      "s + p = digits_value g"
      using read_convert_group [of g script "parts1 \<noteq> []" w] Cons.prems(1) by auto
    define parts2 where "parts2 = (let ps = parts1 @ [convert_group g (parts1 \<noteq> [])]
      in if 0 < length gs then ps @ [[c_unit2 script ! (length gs - 1)]] else ps)"
    have loop: "num2chinese_loop (c_unit2 script) (g # gs) parts pz =
        num2chinese_loop (c_unit2 script) gs parts2 False"
      using False by (simp add: parts1_def parts2_def Let_def)
    show ?thesis
    proof (cases "gs = []")
      case True
      then show ?thesis
        unfolding loop using p1 g
        by (simp add: parts2_def read_from_append groups_value_Cons)
    next
      case ne: False
      then have k: "length gs - 1 < 11" "Suc (length gs - 1) = length gs"
        using Cons.prems(2) by (cases gs; simp)+
      have "read_from script (concat parts2) (0, 0, 0) = (w + digits_value g * 10000 ^ length gs, 0, 0)"
        using p1 g ne k by (simp add: parts2_def read_from_append read_big_unit del: power_Suc)
      from Cons.IH [OF _ _ this, of False] Cons.prems(1,2) show ?thesis
        unfolding loop by (simp add: groups_value_Cons add.assoc)
    qed
  qed
qed

text \<open>The digits of a number, and their groups of four.\<close>

lemma chunks_props:
  assumes "0 < n"
  shows "concat (chunks n xs) = xs \<and> (\<forall>g \<in> set (chunks n xs). g \<noteq> [] \<and> length g \<le> n)"
  using assms
proof (induction n xs rule: chunks.induct)
  case (1 n xs)
  then show ?case by (subst (1 2) chunks.simps) auto
qed

lemma pow_10_4: "(10::nat) ^ 4 = 10000"
  by simp

lemma chunks_exact:
  assumes "length xs mod 4 = 0"
  shows "groups_value (chunks 4 xs) = digits_value xs \<and> length (chunks 4 xs) = length xs div 4"
  using assms
proof (induction "length xs" arbitrary: xs rule: less_induct)
  case less
  show ?case
  proof (cases "xs = []")
    case False
    then have ln: "4 \<le> length xs" using less.prems by (cases "length xs < 4") auto
    let ?rest = "drop 4 xs"
    have ih: "groups_value (chunks 4 ?rest) = digits_value ?rest \<and>
        length (chunks 4 ?rest) = length ?rest div 4"
      by (rule less.hyps) (use ln less.prems in \<open>auto simp: le_mod_geq\<close>)
    have "4 * (length ?rest div 4) = length ?rest"
      using less.prems ln mult_div_mod_eq [of 4 "length ?rest"] by (simp add: le_mod_geq)
    then have "(10000::nat) ^ (length ?rest div 4) = 10 ^ length ?rest"
      by (metis power_mult pow_10_4)
    moreover have "digits_value xs = digits_value (take 4 xs) * 10 ^ length ?rest + digits_value ?rest"
      using digits_value_append [of "take 4 xs" ?rest] by simp
    ultimately show ?thesis
      using ih ln False
      by (subst (1 2) chunks.simps) (simp add: groups_value_Cons le_div_geq)
  qed (simp add: chunks.simps)
qed

lemma show_nat_digits:
  "list_all (\<lambda>d. d < 10) (map (\<lambda>b. b - 48) (show_nat n)) \<and>
   digits_value (map (\<lambda>b. b - 48) (show_nat n)) = n \<and> show_nat n \<noteq> []"
proof (induction n rule: show_nat.induct)
  case (1 n)
  show ?case
  proof (cases "n < 10")
    case True
    then show ?thesis by (subst (1 2 3) show_nat.simps) (simp add: digits_value_def)
  next
    case False
    then show ?thesis
      using 1 by (subst (1 2 3) show_nat.simps) (simp add: digits_value_append digits_value_Cons)
  qed
qed

lemma show_nat_length: "n < 10 ^ k \<Longrightarrow> 0 < k \<Longrightarrow> length (show_nat n) \<le> k"
proof (induction n arbitrary: k rule: show_nat.induct)
  case (1 n)
  show ?case
  proof (cases "n < 10")
    case True
    with 1 show ?thesis by (subst show_nat.simps) simp
  next
    case False
    then obtain m where k: "k = Suc m" "0 < m" using 1 by (cases k; cases "k - 1") auto
    have "n div 10 < 10 ^ m" using 1 k by (simp add: less_mult_imp_div_less)
    with 1 False k show ?thesis by (subst show_nat.simps) simp
  qed
qed

lemma digit_groups_props:
  assumes "list_all (\<lambda>d. d < 10) ds" and "length ds \<le> 48"
  shows "list_all (\<lambda>g. list_all (\<lambda>d. d < 10) g \<and> length g \<le> 4) (digit_groups ds)"
    and "groups_value (digit_groups ds) = digits_value ds" and "length (digit_groups ds) \<le> 12"
proof -
  let ?r = "length ds mod 4"
  let ?rest = "drop ?r ds"
  have m: "length ?rest mod 4 = 0" by (simp add: mod_eq_0_iff_dvd)
  note ex = chunks_exact [OF m] and pr = chunks_props [of 4 ?rest]
  have "set g \<subseteq> set ds" if "g \<in> set (digit_groups ds)" for g
  proof -
    have "concat (digit_groups ds) = ds"
      using pr by (simp add: digit_groups_def Let_def)
    with that show ?thesis by (metis UN_upper set_concat)
  qed
  moreover have "length g \<le> 4" if "g \<in> set (digit_groups ds)" for g
    using that pr by (auto simp: digit_groups_def Let_def split: if_splits)
  ultimately show "list_all (\<lambda>g. list_all (\<lambda>d. d < 10) g \<and> length g \<le> 4) (digit_groups ds)"
    using assms(1) by (auto simp: list_all_iff)
  have "4 * (length ?rest div 4) = length ?rest"
    using m mult_div_mod_eq [of 4 "length ?rest"] by simp
  then have pow: "(10000::nat) ^ (length ?rest div 4) = 10 ^ length ?rest"
    by (metis power_mult pow_10_4)
  have "digits_value ds = digits_value (take ?r ds) * 10 ^ length ?rest + digits_value ?rest"
    using digits_value_append [of "take ?r ds" ?rest] by simp
  then show "groups_value (digit_groups ds) = digits_value ds"
    using ex pow by (cases "?r = 0") (simp_all add: digit_groups_def Let_def groups_value_Cons)
  show "length (digit_groups ds) \<le> 12"
  proof (cases "?r = 0")
    case True
    with ex assms(2) show ?thesis by (simp add: digit_groups_def)
  next
    case False
    then have "length ds < 48" using assms(2) by (cases "length ds = 48") auto
    with ex False show ?thesis by (simp add: digit_groups_def Let_def)
  qed
qed

text \<open>A number below \<open>10 ^ 48\<close> is what its numeral reads.\<close>

lemma read_num2chinese:
  assumes "n < 10 ^ 48"
  shows "read_chinese script (num2chinese n script) = n"
proof (cases "n = 0")
  case True
  then show ?thesis using read_digit [of 0] by (simp add: num2chinese_def read_chinese_def)
next
  case False
  let ?ds = "map (\<lambda>b. b - 48) (show_nat n)"
  have ds: "list_all (\<lambda>d. d < 10) ?ds" "digits_value ?ds = n" "length ?ds \<le> 48"
    using show_nat_digits show_nat_length [OF assms] by simp_all
  show ?thesis
    using read_num2chinese_loop [OF digit_groups_props(1,3) [OF ds(1,3)], of script "[]" 0 False] False
      digit_groups_props(2) [OF ds(1,3)] ds(2)
    by (auto simp: num2chinese_def read_chinese_def)
qed

section \<open>What a decomposition means\<close>

text \<open>
  The numbers that phrases over a table stand for: an entry stands for its key, a number before an
  entry from one hundred up for the product, and a sequence of phrases for their sum.
\<close>

inductive number_word :: "NumTable \<Rightarrow> nat \<Rightarrow> rstr \<Rightarrow> bool"
  and number_phrase :: "NumTable \<Rightarrow> nat \<Rightarrow> rstr \<Rightarrow> bool" for t where
  nw_zero: "hm_get t (lit ''0'') = Some w \<Longrightarrow> number_word t 0 w"
| nw_sum: "vs \<noteq> [] \<Longrightarrow> list_all2 (number_phrase t) vs ws \<Longrightarrow>
    number_word t (sum_list vs) (join_with (lit '' '') ws)"
| np_entry: "(k, w) \<in> set (table_entries t) \<Longrightarrow> number_phrase t k w"
| np_times: "(k, w) \<in> set (table_entries t) \<Longrightarrow> 100 \<le> k \<Longrightarrow> number_word t m mw \<Longrightarrow>
    number_phrase t (m * k) (mw @ lit '' '' @ w)"

lemma decompose_means:
  "decompose_with_table t n = Some s \<Longrightarrow> number_word t n s"
  "decompose_loop t es n parts = Some (r, parts') \<Longrightarrow> set es \<subseteq> set (table_entries t) \<Longrightarrow>
     list_all2 (number_phrase t) vs parts \<Longrightarrow>
     \<exists>vs'. list_all2 (number_phrase t) vs' parts' \<and> sum_list vs' + r = sum_list vs + n"
proof (induction t n and t es n parts arbitrary: s and r parts' vs
    rule: decompose_with_table_decompose_loop.induct)
  case (1 t n)
  show ?case
  proof (cases "n = 0")
    case True
    with 1 show ?thesis by (auto simp: decompose_with_table.simps intro: nw_zero)
  next
    case False
    with 1(2) obtain parts where p: "decompose_loop t (table_entries t) n [] = Some (0, parts)"
      "parts \<noteq> []" "s = join_with (lit '' '') parts"
      by (subst (asm) decompose_with_table.simps) (auto split: option.splits if_splits)
    from 1(1) [OF False p(1), of "[]"] obtain vs where
      "list_all2 (number_phrase t) vs parts" "sum_list vs = n" by auto
    with p(2,3) show ?thesis by (auto intro: nw_sum)
  qed
next
  case (2 t n parts)
  then show ?case by auto
next
  case (3 t k w es n parts)
  have e: "(k, w) \<in> set (table_entries t)" "set es \<subseteq> set (table_entries t)" using 3(8) by simp_all
  have app: "list_all2 (number_phrase t) (vs @ [v]) (parts @ [x])" if "number_phrase t v x" for v x
    using 3(9) that by (simp add: list_all2_appendI)
  consider "k = 0" | "k \<noteq> 0" "n = 0 \<or> n < k" | "k \<noteq> 0" "\<not> (n = 0 \<or> n < k)" "100 \<le> k" "1 < n div k"
    | "k \<noteq> 0" "\<not> (n = 0 \<or> n < k)" "100 \<le> k" "\<not> 1 < n div k"
    | "k \<noteq> 0" "\<not> (n = 0 \<or> n < k)" "\<not> 100 \<le> k"
    by blast
  then show ?case
  proof cases
    case 1
    with 3(1) [OF 1 _ e(2) 3(9)] 3(7) show ?thesis by (simp add: decompose_loop.simps(2))
  next
    case c: 2
    with 3(2) [OF c _ e(2) 3(9)] 3(7) show ?thesis by (simp add: decompose_loop.simps(2))
  next
    case c: 3
    obtain mw where mw: "decompose_with_table t (n div k) = Some mw"
      using 3(7) c by (auto simp: decompose_loop.simps(2) Let_def split: option.splits)
    have ph: "number_phrase t (n div k * k) (mw @ lit '' '' @ w)"
      by (rule np_times [OF e(1) c(3) 3(3) [OF c(1-3) refl refl c(4) mw]])
    show ?thesis
    proof (cases "n mod k = 0")
      case True
      with 3(7) c mw have "r = 0" "parts' = parts @ [mw @ lit '' '' @ w]"
        by (auto simp: decompose_loop.simps(2) Let_def)
      moreover have "sum_list (vs @ [n div k * k]) = sum_list vs + n" using True by auto
      ultimately show ?thesis using app [OF ph] by (metis add.right_neutral)
    next
      case False
      with 3(7) c mw have "decompose_loop t es (n mod k) (parts @ [mw @ lit '' '' @ w]) = Some (r, parts')"
        by (simp add: decompose_loop.simps(2) Let_def)
      from 3(4) [OF c(1-3) refl refl c(4) mw False this e(2) app [OF ph]] show ?thesis
        by (simp add: add.assoc)
    qed
  next
    case c: 4
    then have "n div k = 1" by (metis One_nat_def Suc_lessI div_greater_zero_iff gr0I not_less)
    then have n: "n = k + n mod k" by (metis div_mult_mod_eq mult.left_neutral)
    show ?thesis
    proof (cases "n mod k = 0")
      case True
      with 3(7) c have "r = 0" "parts' = parts @ [w]"
        by (auto simp: decompose_loop.simps(2) Let_def)
      moreover have "sum_list (vs @ [k]) = sum_list vs + n" using True n by simp
      ultimately show ?thesis using app [OF np_entry [OF e(1)]] by (metis add.right_neutral)
    next
      case False
      with 3(7) c have "decompose_loop t es (n mod k) (parts @ [w]) = Some (r, parts')"
        by (simp add: decompose_loop.simps(2) Let_def)
      from 3(5) [OF c(1-3) refl refl c(4) False this e(2) app [OF np_entry [OF e(1)]]] n show ?thesis
        by (simp add: add.assoc)
    qed
  next
    case c: 5
    show ?thesis
    proof (cases "n - k = 0")
      case True
      with 3(7) c have "r = 0" "parts' = parts @ [w]"
        by (auto simp: decompose_loop.simps(2))
      moreover have "sum_list (vs @ [k]) = sum_list vs + n" using True c by simp
      ultimately show ?thesis using app [OF np_entry [OF e(1)]] by (metis add.right_neutral)
    next
      case False
      with 3(7) c have "decompose_loop t es (n - k) (parts @ [w]) = Some (r, parts')"
        by (simp add: decompose_loop.simps(2))
      from 3(6) [OF c False this e(2) app [OF np_entry [OF e(1)]]] c show ?thesis
        by (simp add: add.assoc)
    qed
  qed
qed

section \<open>Tables that reach every number\<close>

text \<open>A table with the numbers up to one hundred.\<close>

definition complete_table :: "NumTable \<Rightarrow> bool" where
  "complete_table t \<longleftrightarrow> {1..100} \<subseteq> fst ` set (table_entries t)"

lemma table_entries_sorted: "sorted_wrt (\<lambda>a b. fst b \<le> fst a) (table_entries t)"
proof -
  have "sorted (map (\<lambda>e. - int (fst e)) (table_entries t))"
    by (simp add: table_entries_def)
  then show ?thesis by (simp add: sorted_map sorted_wrt_mono_rel)
qed

lemma decompose_total:
  "complete_table t \<Longrightarrow> 0 < n \<Longrightarrow> \<exists>s. decompose_with_table t n = Some s"
  "complete_table t \<Longrightarrow> 0 < n \<Longrightarrow> sorted_wrt (\<lambda>a b. fst b \<le> fst a) es \<Longrightarrow>
     {1..min n 100} \<subseteq> fst ` set es \<Longrightarrow>
     \<exists>p. decompose_loop t es n parts = Some (0, p) \<and> p \<noteq> []"
proof (induction t n and t es n parts rule: decompose_with_table_decompose_loop.induct)
  case (1 t n)
  then obtain p where "decompose_loop t (table_entries t) n [] = Some (0, p)" "p \<noteq> []"
    using table_entries_sorted by (fastforce simp: complete_table_def)
  then show ?case using 1(3) by (subst decompose_with_table.simps) simp
next
  case (2 t n parts)
  then have "1 \<in> {1..min n 100}" by simp
  with 2(4) show ?case by auto
next
  case (3 t k w es n parts)
  have sorted: "sorted_wrt (\<lambda>a b. fst b \<le> fst a) es" "\<And>x. x \<in> fst ` set es \<Longrightarrow> x \<le> k"
    using 3(9) by auto
  have keys: "{1..min n 100} \<subseteq> insert k (fst ` set es)" using 3(10) by simp
  consider "k = 0" | "k \<noteq> 0" "n < k" | "100 \<le> k" "\<not> n < k" | "k \<noteq> 0" "\<not> n < k" "k < 100"
    by linarith
  then show ?case
  proof cases
    case 1
    with keys have "{1..min n 100} \<subseteq> fst ` set es" by auto
    with 3(1) [OF 1 3(7,8) sorted(1)] 1 show ?thesis by (simp add: decompose_loop.simps(2))
  next
    case c: 2
    with keys have "{1..min n 100} \<subseteq> fst ` set es" by auto
    with 3(2) [OF c(1) _ 3(7,8) sorted(1)] c show ?thesis by (simp add: decompose_loop.simps(2))
  next
    case c: 3
    then have g: "k \<noteq> 0" "\<not> (n = 0 \<or> n < k)" using 3(8) by auto
    have lt: "n mod k < k" using g(1) by simp
    then have "{1..min (n mod k) 100} \<subseteq> insert k (fst ` set es)"
      using keys c(1,2) by (meson atLeastatMost_subset_iff le_trans less_or_eq_imp_le min.mono mod_less_eq_dividend
          order_refl subset_trans)
    then have sub: "{1..min (n mod k) 100} \<subseteq> fst ` set es"
      using lt by auto
    show ?thesis
    proof (cases "1 < n div k")
      case True
      obtain mw where mw: "decompose_with_table t (n div k) = Some mw"
        using 3(3) [OF g c(1) refl refl True 3(7)] True by auto
      show ?thesis
      proof (cases "n mod k = 0")
        case False
        from 3(4) [OF g c(1) refl refl True mw False 3(7) _ sorted(1) sub] False show ?thesis
          using g c True mw by (simp add: decompose_loop.simps(2) Let_def)
      qed (use g c True mw in \<open>simp add: decompose_loop.simps(2) Let_def\<close>)
    next
      case one: False
      show ?thesis
      proof (cases "n mod k = 0")
        case False
        from 3(5) [OF g c(1) refl refl one False 3(7) _ sorted(1) sub] False show ?thesis
          using g c one by (simp add: decompose_loop.simps(2) Let_def)
      qed (use g c one in \<open>simp add: decompose_loop.simps(2) Let_def\<close>)
    qed
  next
    case c: 4
    have "min n 100 \<in> {1..min n 100}" using 3(8) by simp
    with keys have "min n 100 \<le> k" using sorted(2) by blast
    with c have "n = k" by linarith
    with c 3(8) show ?thesis by (simp add: decompose_loop.simps(2))
  qed
qed

text \<open>The words of a number over a table without digits hold no digits.\<close>

definition no_digit :: "rstr \<Rightarrow> bool" where
  "no_digit s \<longleftrightarrow> list_all (\<lambda>c. \<not> is_ascii_digit c) s"

lemma no_digit_append [simp]: "no_digit (s @ t) \<longleftrightarrow> no_digit s \<and> no_digit t"
  by (simp add: no_digit_def)

lemma no_digit_blank [simp]: "no_digit (lit '' '')"
  by (simp add: no_digit_def lit_def is_ascii_digit_def)

lemma no_digit_join: "list_all no_digit ws \<Longrightarrow> no_digit (join_with (lit '' '') ws)"
  by (induction "lit '' ''" ws rule: join_with.induct) (simp_all, simp add: no_digit_def)

lemma table_entries_words: "(k, w) \<in> set (table_entries t) \<Longrightarrow> w \<in> set (hm_values t)"
  by (force simp: table_entries_def map_filter_def hm_values_def)

lemma number_word_no_digit:
  assumes "list_all no_digit (hm_values t)"
  shows "number_word t n s \<Longrightarrow> no_digit s" and "number_phrase t n s \<Longrightarrow> no_digit s"
proof (induction rule: number_word_number_phrase.inducts)
  case (nw_zero w)
  with assms show ?case by (auto simp: list_all_iff dest: hm_get_in_values)
next
  case (nw_sum vs ws)
  have "list_all no_digit ws"
    using nw_sum(2) by (induction rule: list_all2_induct) auto
  then show ?case by (rule no_digit_join)
qed (use assms table_entries_words in \<open>auto simp: list_all_iff\<close>)

section \<open>Properties\<close>

lemma parse_show: "n \<le> u64_max \<Longrightarrow> parse_u64 (show_nat n) = Some n"
proof -
  assume n: "n \<le> u64_max"
  have digit: "list_all is_ascii_digit (show_nat n)"
  proof (induction n rule: show_nat.induct)
    case (1 n)
    show ?case
    proof (cases "n < 10")
      case True
      then show ?thesis by (subst show_nat.simps) (simp add: is_ascii_digit_def)
    next
      case False
      with 1 have "list_all is_ascii_digit (show_nat (n div 10))" by blast
      moreover have "is_ascii_digit (48 + n mod 10)"
        using mod_less_divisor [of 10 n] unfolding is_ascii_digit_def by linarith
      ultimately show ?thesis using False by (subst show_nat.simps) simp
    qed
  qed
  moreover obtain c cs where c: "show_nat n = c # cs" using show_nat_digits by (cases "show_nat n") auto
  ultimately have "c \<noteq> 43" by (auto simp: is_ascii_digit_def)
  then show ?thesis
    using digit n c show_nat_digits [of n] by (simp add: parse_u64_def Let_def)
qed

text \<open>
  Chinese numerals are right. Read by the rules of the script (units of ten, hundred, thousand
  inside groups of ten thousand), the characters written for a \<open>u64\<close> give back the number, in both
  scripts.
\<close>

theorem chinese_numeral_roundtrip:
  assumes "n \<le> u64_max"
  shows "read_chinese script (num2chinese n script) = n"
proof (rule read_num2chinese)
  have "u64_max < (10::nat) ^ 48" by (simp add: u64_max_def)
  with assms show "n < 10 ^ 48" by (rule le_less_trans)
qed

lemma chinese_numeral_roundtrip_witness: "read_chinese Simplified (num2chinese 100000001 Simplified) = 100000001"
  by (rule chinese_numeral_roundtrip) (simp add: u64_max_def)

text \<open>
  But the numeral need not be the one a reader writes: after an empty group of four digits, a group
  with a leading zero gets two zero characters, here for 100000001.
\<close>

lemma chinese_numeral_double_zero:
  "num2chinese 100000001 Simplified = [19968, 20159, 38646, 38646, 19968]"
  by (simp add: num2chinese_def show_nat.simps digit_groups_def chunks.simps digits_value_def
      convert_group_def c_basic_def c_unit1_def)

text \<open>
  Expansion removes the digits. With a table that has the numbers up to one hundred and no digit
  in its words, every positive number of 64 bits is spelled out entirely.
\<close>

theorem expansion_leaves_no_digit:
  assumes "parse_u64 word = Some n" and "0 < n" and "all_digits word"
    and "lower lang \<notin> {lit ''zho'', lit ''cmn'', lit ''jpn'', lit ''yue''}"
    and "num2lang (lower lang) = Some table" and "complete_table table"
    and "list_all no_digit (hm_values table)"
  shows "no_digit (expand_single_number lower num2lang word lang)"
proof -
  have ne: "word \<noteq> []" using assms(1) by (auto simp: parse_u64_def)
  obtain s where s: "decompose_with_table table n = Some s"
    using decompose_total(1) [OF assms(6,2)] by blast
  have "no_digit s"
    by (rule number_word_no_digit(1) [OF assms(7) decompose_means(1) [OF s]])
  moreover have "no_digit value" if "hm_get table word = Some value" for "value"
    using hm_get_in_values [OF that] assms(7) by (simp add: list_all_iff)
  ultimately show ?thesis
    using assms(1,3-5) ne s
    by (auto simp: expand_single_number_def Let_def split: option.split)
qed

definition demo_table :: NumTable where
  "demo_table = map (\<lambda>i. (show_nat i, lit ''x'')) [1..<101]"

lemma demo_table_complete: "complete_table demo_table"
proof -
  have "n \<in> fst ` set (table_entries demo_table)" if "n \<in> {1..100}" for n
  proof -
    have "parse_u64 (show_nat n) = Some n" using that by (intro parse_show) (simp add: u64_max_def)
    moreover have "(show_nat n, lit ''x'') \<in> set demo_table" using that by (auto simp: demo_table_def)
    ultimately have "(n, lit ''x'') \<in> set (table_entries demo_table)"
      using that by (force simp: table_entries_def map_filter_def)
    then show ?thesis by force
  qed
  then show ?thesis by (auto simp: complete_table_def)
qed

lemma expansion_leaves_no_digit_witness:
  "no_digit (expand_single_number (\<lambda>s. s) (\<lambda>l. Some demo_table) (lit ''250'') (lit ''eng''))"
proof (rule expansion_leaves_no_digit)
  show "parse_u64 (lit ''250'') = Some 250"
    by (simp add: parse_u64_def lit_def is_ascii_digit_def digits_value_def u64_max_def)
  show "all_digits (lit ''250'')" by (simp add: all_digits_def lit_def is_ascii_digit_def)
  show "list_all no_digit (hm_values demo_table)"
    by (simp add: demo_table_def hm_values_def list_all_iff no_digit_def lit_def is_ascii_digit_def)
qed (simp_all add: demo_table_complete)

text \<open>
  What the expansion says is the number. When the greedy decomposition over a table succeeds,
  its phrase stands for the number by the meaning of the table's words: sums of entries, and
  products of a spelled-out multiplier with an entry from one hundred up.
\<close>

theorem decomposition_means_number:
  assumes "decompose_with_table table n = Some s"
  shows "number_word table n s"
  using assms by (rule decompose_means(1))

lemma decomposition_means_number_witness:
  "number_word [(lit ''1'', lit ''one''), (lit ''100'', lit ''hundred''), (lit ''2'', lit ''two'')] 201
     (lit ''two hundred one'')"
proof (rule decomposition_means_number)
  have "table_entries [(lit ''1'', lit ''one''), (lit ''100'', lit ''hundred''), (lit ''2'', lit ''two'')] =
      [(100, lit ''hundred''), (2, lit ''two''), (1, lit ''one'')]"
    by (simp add: table_entries_def map_filter_def parse_u64_def lit_def is_ascii_digit_def
        digits_value_def u64_max_def)
  then show "decompose_with_table [(lit ''1'', lit ''one''), (lit ''100'', lit ''hundred''), (lit ''2'', lit ''two'')]
      201 = Some (lit ''two hundred one'')"
    by (simp add: decompose_with_table.simps decompose_loop.simps(2)) (simp add: lit_def)
qed

end
