(* ===== verification/Asr_Post.thy ===== *)
theory Asr_Post
  imports Num_Expand
begin

text \<open>
  Post-processing of raw speech recognition output (\<open>chat-ops/asr_postprocess\<close>): compound merging,
  timing, splitting of tokens, numbers, long turns and pauses, retokenization into utterances,
  filled pauses and retraces. Timestamps in seconds are rationals, with \<open>None\<close> for a value that is
  not finite. The word data, the Unicode predicates and the Cantonese normalization (third-party
  converters) are arguments.
\<close>

section \<open>Types\<close>

datatype WordKind = WkRegular | WkRetrace

record AsrWord =
  aw_text :: rstr
  aw_start_ms :: "int option"
  aw_end_ms :: "int option"
  aw_kind :: WordKind

definition asr_word :: "rstr \<Rightarrow> int option \<Rightarrow> int option \<Rightarrow> AsrWord" where
  "asr_word text start_ms end_ms =
     \<lparr>aw_text = text, aw_start_ms = start_ms, aw_end_ms = end_ms, aw_kind = WkRegular\<rparr>"

record Utterance =
  ut_speaker :: nat
  ut_words :: "AsrWord list"
  ut_lang :: "rstr option"

record PreparedMonologueChunk =
  pc_speaker :: nat
  pc_words :: "AsrWord list"

datatype AsrElementKind = AekText | AekPunctuation

record AsrElement =
  ae_value :: rstr
  ae_ts :: "rat option"
  ae_end_ts :: "rat option"
  ae_kind :: AsrElementKind

record AsrMonologue =
  am_speaker :: nat
  am_elements :: "AsrElement list"

text \<open>The data files and library functions the stages use.\<close>

record AsrEnv =
  env_compound :: "rstr \<Rightarrow> rstr \<Rightarrow> bool"
  env_lower :: "rstr \<Rightarrow> rstr"
  env_alphanumeric :: "rchar \<Rightarrow> bool"
  env_num2lang :: "rstr \<Rightarrow> NumTable option"
  env_cantonese :: "rstr \<Rightarrow> rstr"

section \<open>Constants\<close>

definition ENDING_PUNCT :: "rstr list" where
  "ENDING_PUNCT =
     [lit ''.'', lit ''?'', lit ''!'', lit ''+...'', lit ''+/.'', lit ''+//.'', lit ''+/?'', lit ''+!?'',
      lit ''+'' @ [34] @ lit ''/.'', lit ''+'' @ [34] @ lit ''.'', lit ''+//?'', lit ''+..?'', lit ''+.'', lit ''...'', lit ''(.)'']"

definition MOR_PUNCT :: "rstr list" where
  "MOR_PUNCT = [[8225], [8222], lit '','']"

definition RTL_PUNCT :: "(rstr \<times> rstr) list" where
  "RTL_PUNCT =
     [([1567], lit ''?''), ([1748], lit ''.''), ([1548], lit '',''), ([1563], lit '';'')]"

definition MAX_TURN_LEN :: nat where
  "MAX_TURN_LEN = 300"

definition LONG_PAUSE_SPLIT_MS :: int where
  "LONG_PAUSE_SPLIT_MS = 800"

definition LONG_PAUSE_SENTENCE_STARTERS :: "rstr list" where
  "LONG_PAUSE_SENTENCE_STARTERS =
     map lit [''and'', ''but'', ''did'', ''do'', ''does'', ''go'', ''have'', ''has'', ''had'', ''he'',
       ''how'', ''i'', ''is'', ''it'', ''no'', ''now'', ''okay'', ''so'', ''then'', ''they'', ''we'',
       ''well'', ''what'', ''when'', ''where'', ''who'', ''why'', ''yes'', ''you'']"

section \<open>Compounds and timing\<close>

fun merge_loop :: "(rstr \<Rightarrow> rstr \<Rightarrow> bool) \<Rightarrow> AsrElement list \<Rightarrow> AsrElement list" where
  "merge_loop compound [] = []"
| "merge_loop compound [e] = [e]"
| "merge_loop compound (e1 # e2 # es) =
     (if compound (ae_value e1) (ae_value e2)
      then \<lparr>ae_value = ae_value e1 @ ae_value e2, ae_ts = ae_ts e1, ae_end_ts = ae_end_ts e1,
            ae_kind = AekText\<rparr> # merge_loop compound es
      else e1 # merge_loop compound (e2 # es))"

definition merge_compounds :: "(rstr \<Rightarrow> rstr \<Rightarrow> bool) \<Rightarrow> AsrElement list \<Rightarrow> AsrElement list" where
  "merge_compounds compound elements =
     (if length elements < 2 then elements else merge_loop compound elements)"

text \<open>\<open>f64::round\<close> (half away from zero) and the saturating cast to \<open>i64\<close>.\<close>

definition round_away :: "rat \<Rightarrow> int" where
  "round_away x = (if 0 \<le> x then \<lfloor>x + 1 / 2\<rfloor> else \<lceil>x - 1 / 2\<rceil>)"

definition to_i64 :: "int \<Rightarrow> int" where
  "to_i64 z = min i64_max (max i64_min z)"

definition normalized_timing_range :: "rat option \<Rightarrow> rat option \<Rightarrow> int option \<times> int option" where
  "normalized_timing_range start_s end_s =
     (case (start_s, end_s) of
        (Some a, Some b) \<Rightarrow>
          (let start_ms = to_i64 (round_away (a * 1000)); end_ms = to_i64 (round_away (b * 1000))
           in if end_ms \<le> start_ms then (None, None) else (Some start_ms, Some end_ms))
      | _ \<Rightarrow> (None, None))"

definition extract_timed_words :: "AsrElement list \<Rightarrow> AsrWord list" where
  "extract_timed_words elements =
     List.map_filter (\<lambda>e.
       (let v = trim (ae_value e)
        in if v = [] then None
           else if starts_with v (lit ''<'') \<and> ends_with v (lit ''>'') then None
           else (let (a, b) = normalized_timing_range (ae_ts e) (ae_end_ts e)
                 in Some (asr_word v a b)))) elements"

section \<open>Splitting of tokens\<close>

text \<open>None: an ordinary character; Some None: dropped; Some (Some t): a token of its own.\<close>

definition normalized_split_separator :: "rchar \<Rightarrow> rstr option option" where
  "normalized_split_separator c =
     (if c = 46 then Some (Some (lit ''.''))
      else if c \<in> {63, 65311, 1567} then Some (Some (lit ''?''))
      else if c \<in> {33, 65281} then Some (Some (lit ''!''))
      else if c \<in> {44, 65292, 12289, 1548} then Some (Some (lit '',''))
      else if c \<in> {191, 161} then Some None
      else if c = 12290 then Some (Some (lit ''.''))
      else None)"

definition flush_current :: "rstr \<Rightarrow> (rstr \<times> bool) list" where
  "flush_current current = (if current \<noteq> [] then [(current, False)] else [])"

primrec split_parts :: "rstr \<Rightarrow> rstr \<Rightarrow> (rstr \<times> bool) list" where
  "split_parts [] current = flush_current current"
| "split_parts (c # cs) current =
     (if is_whitespace c then flush_current current @ split_parts cs []
      else (case normalized_split_separator c of
              Some separator \<Rightarrow>
                flush_current current @
                (case separator of Some text \<Rightarrow> [(text, True)] | None \<Rightarrow> []) @ split_parts cs []
            | None \<Rightarrow> split_parts cs (current @ [c])))"

definition is_cjk_ideograph :: "rchar \<Rightarrow> bool" where
  "is_cjk_ideograph c \<longleftrightarrow>
     (13312 \<le> c \<and> c \<le> 19903) \<or> (19968 \<le> c \<and> c \<le> 40959) \<or> (63744 \<le> c \<and> c \<le> 64255) \<or>
     (131072 \<le> c \<and> c \<le> 173791) \<or> (173824 \<le> c \<and> c \<le> 177983) \<or> (177984 \<le> c \<and> c \<le> 178207) \<or>
     (178208 \<le> c \<and> c \<le> 183983) \<or> (194560 \<le> c \<and> c \<le> 195103)"

definition should_split_cantonese_chars :: "rstr \<Rightarrow> bool" where
  "should_split_cantonese_chars text \<longleftrightarrow>
     \<not> list_ex (\<lambda>c. is_ascii_alphabetic c \<or> is_ascii_digit c) text \<and> list_ex is_cjk_ideograph text"

definition is_cjk_punct_or_space :: "rchar \<Rightarrow> bool" where
  "is_cjk_punct_or_space c \<longleftrightarrow>
     c \<in> {12288, 12289, 12290, 65292, 65281, 65311, 12300, 12301, 65306, 65307} \<or>
     c \<in> {32, 9, 10, 12, 13}"

definition cantonese_char_tokens :: "AsrEnv \<Rightarrow> rstr \<Rightarrow> rstr list" where
  "cantonese_char_tokens env text =
     map (\<lambda>c. [c]) (filter (\<lambda>c. \<not> is_cjk_punct_or_space c) (env_cantonese env text))"

definition expand_language_part :: "AsrEnv \<Rightarrow> rstr \<Rightarrow> rstr \<Rightarrow> (rstr \<times> bool) list" where
  "expand_language_part env lang text =
     (if lang \<noteq> lit ''yue'' \<or> \<not> should_split_cantonese_chars text then [(text, False)]
      else (let tokens = cantonese_char_tokens env text
            in if length tokens \<le> 1 then [(text, False)] else map (\<lambda>t. (t, False)) tokens))"

text \<open>
  The words of the parts, with the characters consumed so far; \<open>total\<close> are all characters of text
  parts. The products are on \<open>i64\<close>, whose overflow wraps; division truncates, and its operands
  are not negative.
\<close>

definition wrap_i64 :: "int \<Rightarrow> int" where
  "wrap_i64 z = (z + 2 ^ 63) mod 2 ^ 64 - 2 ^ 63"

definition trunc_div :: "int \<Rightarrow> int \<Rightarrow> int" where
  "trunc_div a b = (if 0 \<le> a then a div b else - ((- a) div b))"

definition interpolate :: "int \<Rightarrow> int \<Rightarrow> nat \<Rightarrow> nat \<Rightarrow> int" where
  "interpolate start width consumed whole =
     wrap_i64 (start + trunc_div (wrap_i64 (width * int consumed)) (int whole))"

primrec part_words ::
  "(int \<times> int) option \<Rightarrow> nat \<Rightarrow> (rstr \<times> bool) list \<Rightarrow> nat \<Rightarrow> AsrWord list" where
  "part_words total_span whole [] consumed = []"
| "part_words total_span whole (p # ps) consumed =
     (if snd p then asr_word (fst p) None None # part_words total_span whole ps consumed
      else (case total_span of
              None \<Rightarrow> asr_word (fst p) None None # part_words total_span whole ps consumed
            | Some (start, width) \<Rightarrow>
                (let next = consumed + length (fst p)
                 in asr_word (fst p) (Some (interpolate start width consumed whole))
                      (Some (interpolate start width next whole))
                    # part_words total_span whole ps next)))"

definition word_parts :: "AsrEnv \<Rightarrow> rstr \<Rightarrow> rstr \<Rightarrow> (rstr \<times> bool) list" where
  "word_parts env lang text =
     concat (map (\<lambda>(t, is_separator).
       if is_separator then [(t, True)] else expand_language_part env lang t) (split_parts text []))"

definition text_chars :: "(rstr \<times> bool) list \<Rightarrow> nat" where
  "text_chars parts = sum_list (map (\<lambda>p. length (fst p)) (filter (\<lambda>p. \<not> snd p) parts))"

definition split_chunk_word :: "AsrEnv \<Rightarrow> rstr \<Rightarrow> AsrWord \<Rightarrow> AsrWord list" where
  "split_chunk_word env lang word =
     (let parts = word_parts env lang (aw_text word)
      in if parts = [(aw_text word, False)] then [word]
         else (let total_text_chars = text_chars parts;
                   total_span = (case (aw_start_ms word, aw_end_ms word) of
                       (Some start, Some finish) \<Rightarrow>
                         if start < finish \<and> 0 < total_text_chars
                         then Some (start, wrap_i64 (finish - start)) else None
                     | _ \<Rightarrow> None)
               in part_words total_span total_text_chars parts 0))"

definition join_hyphen :: "AsrWord list \<Rightarrow> AsrWord \<Rightarrow> AsrWord list" where
  "join_hyphen result word =
     butlast result @ [(List.last result)\<lparr>aw_text := aw_text (List.last result) @ aw_text word,
       aw_end_ms := aw_end_ms word\<rparr>]"

definition split_multiword_tokens :: "AsrEnv \<Rightarrow> rstr \<Rightarrow> AsrWord list \<Rightarrow> AsrWord list" where
  "split_multiword_tokens env lang words =
     foldl (\<lambda>result word.
       if starts_with (aw_text word) (lit ''-'') \<and> result \<noteq> [] then join_hyphen result word
       else result @ split_chunk_word env lang word) [] words"

definition map_text :: "(rstr \<Rightarrow> rstr) \<Rightarrow> AsrWord list \<Rightarrow> AsrWord list" where
  "map_text f words = map (\<lambda>w. w\<lparr>aw_text := f (aw_text w)\<rparr>) words"

definition expand_numbers_in_words :: "AsrEnv \<Rightarrow> rstr \<Rightarrow> AsrWord list \<Rightarrow> AsrWord list" where
  "expand_numbers_in_words env lang words =
     map_text (\<lambda>t. expand_number (env_lower env) (env_num2lang env) t lang) words"

definition normalize_cantonese_words :: "AsrEnv \<Rightarrow> AsrWord list \<Rightarrow> AsrWord list" where
  "normalize_cantonese_words env words = map_text (env_cantonese env) words"

section \<open>Turns and pauses\<close>

definition split_long_turns :: "AsrWord list \<Rightarrow> AsrWord list list" where
  "split_long_turns words =
     (if length words \<le> MAX_TURN_LEN then [words] else chunks MAX_TURN_LEN words)"

definition long_pause_starts_new_utterance :: "AsrEnv \<Rightarrow> AsrWord \<Rightarrow> AsrWord \<Rightarrow> nat \<Rightarrow> bool" where
  "long_pause_starts_new_utterance env prev next_word current_len =
     (if current_len < 2 then False
      else (case (aw_end_ms prev, aw_start_ms next_word) of
              (Some prev_end, Some next_start) \<Rightarrow>
                if wrap_i64 (next_start - prev_end) < LONG_PAUSE_SPLIT_MS then False
                else to_ascii_lowercase
                       (trim_matches (\<lambda>c. \<not> env_alphanumeric env c) (aw_text next_word))
                     \<in> set LONG_PAUSE_SENTENCE_STARTERS
            | _ \<Rightarrow> False))"

primrec pause_loop ::
  "AsrEnv \<Rightarrow> AsrWord list \<Rightarrow> AsrWord list \<Rightarrow> AsrWord option \<Rightarrow> AsrWord list list" where
  "pause_loop env [] current previous_timed = (if current \<noteq> [] then [current] else [])"
| "pause_loop env (word # words) current previous_timed =
     (let cut = (case previous_timed of
            None \<Rightarrow> False
          | Some prev \<Rightarrow> long_pause_starts_new_utterance env prev word (length current))
          \<and> current \<noteq> [];
          previous = (if aw_start_ms word \<noteq> None \<and> aw_end_ms word \<noteq> None then Some word
                      else previous_timed)
      in if cut then current # pause_loop env words [word] previous
         else pause_loop env words (current @ [word]) previous)"

definition split_on_long_pauses :: "AsrEnv \<Rightarrow> AsrWord list list \<Rightarrow> AsrWord list list" where
  "split_on_long_pauses env cs =
     concat (map (\<lambda>chunk. if length chunk \<le> 1 then [chunk] else pause_loop env chunk [] None) cs)"

primrec assignment_loop :: "nat \<Rightarrow> (AsrWord \<times> nat) list \<Rightarrow> AsrWord list \<Rightarrow> nat \<Rightarrow> PreparedMonologueChunk list" where
  "assignment_loop speaker [] current_words current_group =
     (if current_words \<noteq> [] then [\<lparr>pc_speaker = speaker, pc_words = current_words\<rparr>] else [])"
| "assignment_loop speaker (wg # wgs) current_words current_group =
     (if current_words \<noteq> [] \<and> snd wg \<noteq> current_group
      then \<lparr>pc_speaker = speaker, pc_words = current_words\<rparr>
           # assignment_loop speaker wgs [fst wg] (snd wg)
      else assignment_loop speaker wgs (current_words @ [fst wg]) current_group)"

definition split_prepared_chunk_by_assignments ::
  "PreparedMonologueChunk \<Rightarrow> nat list \<Rightarrow> PreparedMonologueChunk list" where
  "split_prepared_chunk_by_assignments chunk assignments =
     (if length (pc_words chunk) \<le> 1 \<or> assignments = [] \<or> length assignments \<noteq> length (pc_words chunk)
      then [chunk]
      else (let split = assignment_loop (pc_speaker chunk) (zip (pc_words chunk) assignments) []
                  (hd assignments)
            in if split = [] then [chunk] else split))"

section \<open>Retokenization\<close>

definition is_ending_punct :: "rstr \<Rightarrow> bool" where
  "is_ending_punct word \<longleftrightarrow> word \<in> set ENDING_PUNCT \<or> word \<in> fst ` set RTL_PUNCT"

definition ends_with_ending_punct :: "rstr \<Rightarrow> bool" where
  "ends_with_ending_punct word \<longleftrightarrow> word \<noteq> [] \<and> is_ending_punct [List.last word]"

definition normalize_punct :: "rstr \<Rightarrow> rstr" where
  "normalize_punct word = (case map_of RTL_PUNCT word of Some ascii \<Rightarrow> ascii | None \<Rightarrow> word)"

text \<open>The replacement of the Japanese period and of inverted punctuation.\<close>

definition retoken_text :: "rstr \<Rightarrow> rstr" where
  "retoken_text t = map (\<lambda>c. if c = 12290 then 46 else if c = 191 \<or> c = 161 then 32 else c) t"

definition utterance :: "nat \<Rightarrow> AsrWord list \<Rightarrow> Utterance" where
  "utterance speaker words = \<lparr>ut_speaker = speaker, ut_words = words, ut_lang = None\<rparr>"

definition drop_trailing_mor :: "AsrWord list \<Rightarrow> AsrWord list" where
  "drop_trailing_mor buf = rev (dropWhile (\<lambda>w. aw_text w \<in> set MOR_PUNCT) (rev buf))"

primrec retokenize_loop :: "nat \<Rightarrow> AsrWord list \<Rightarrow> AsrWord list \<Rightarrow> Utterance list" where
  "retokenize_loop speaker [] buf =
     (let buf = drop_trailing_mor buf
      in if buf \<noteq> [] then [utterance speaker (buf @ [asr_word (lit ''.'') None None])] else [])"
| "retokenize_loop speaker (w # ws) buf =
     (let word = w\<lparr>aw_text := retoken_text (aw_text w)\<rparr>; last_text = aw_text word
      in if is_ending_punct last_text
         then utterance speaker (buf @ [word\<lparr>aw_text := normalize_punct last_text\<rparr>])
              # retokenize_loop speaker ws []
         else if ends_with_ending_punct last_text
         then utterance speaker
                (buf @ (if butlast last_text \<noteq> []
                        then [asr_word (butlast last_text) (aw_start_ms word) (aw_end_ms word)] else []) @
                 [asr_word (normalize_punct [List.last last_text]) None None])
              # retokenize_loop speaker ws []
         else retokenize_loop speaker ws (buf @ [word]))"

definition retokenize :: "nat \<Rightarrow> AsrWord list \<Rightarrow> Utterance list" where
  "retokenize speaker words = retokenize_loop speaker words []"

section \<open>Filled pauses and replacements\<close>

definition FILLED_PAUSES_ENG :: "(rstr \<times> rstr) list" where
  "FILLED_PAUSES_ENG =
     [(lit ''um'', lit ''&-um''), (lit ''ur'', lit ''&-ur''), (lit ''uh'', lit ''&-uh'')]"

definition REPLACEMENTS_ENG :: "(rstr \<times> rstr) list" where
  "REPLACEMENTS_ENG =
     [(lit ''mm-hmm'', lit ''mhm''), (lit ''mm-hum'', lit ''mhm''), ([39] @ lit ''em'', lit ''(th)em''),
      (lit ''cuz'', lit ''(be)cause''), ([39] @ lit ''cause'', lit ''(be)cause'')]"

definition filled_pause_map :: "rstr \<Rightarrow> (rstr \<times> rstr) list option" where
  "filled_pause_map lang = (if lang = lit ''eng'' then Some FILLED_PAUSES_ENG else None)"

definition replacement_map :: "rstr \<Rightarrow> (rstr \<times> rstr) list option" where
  "replacement_map lang = (if lang = lit ''eng'' then Some REPLACEMENTS_ENG else None)"

definition lookup_word :: "(rstr \<times> rstr) list option \<Rightarrow> rstr \<Rightarrow> rstr option" where
  "lookup_word m w = (case m of None \<Rightarrow> None | Some m \<Rightarrow> map_of m w)"

definition disfluency_text :: "AsrEnv \<Rightarrow> rstr \<Rightarrow> rstr \<Rightarrow> rstr" where
  "disfluency_text env lang text =
     (let lower = env_lower env text
      in case lookup_word (filled_pause_map lang) lower of
           Some main_line \<Rightarrow> main_line
         | None \<Rightarrow> (case lookup_word (replacement_map lang) lower of
                      Some main_line \<Rightarrow> main_line
                    | None \<Rightarrow> text))"

definition apply_disfluency_replacements :: "AsrEnv \<Rightarrow> rstr \<Rightarrow> Utterance list \<Rightarrow> Utterance list" where
  "apply_disfluency_replacements env lang utterances =
     (if filled_pause_map lang = None \<and> replacement_map lang = None then utterances
      else map (\<lambda>u. u\<lparr>ut_words := map_text (disfluency_text env lang) (ut_words u)\<rparr>) utterances)"

section \<open>Retraces\<close>

definition is_punct_or_terminator :: "rstr \<Rightarrow> bool" where
  "is_punct_or_terminator text \<longleftrightarrow> text \<in> set ENDING_PUNCT \<or> text \<in> set MOR_PUNCT"

definition strip_punct :: "rstr \<Rightarrow> rstr" where
  "strip_punct text = trim (fold (\<lambda>p t. replace t p []) (ENDING_PUNCT @ MOR_PUNCT) text)"

text \<open>The marks of one occurrence of a gram, and the loops of the scan over the content words.\<close>

definition mark_range :: "nat \<Rightarrow> nat \<Rightarrow> bool list \<Rightarrow> bool list" where
  "mark_range begin n marks = fold (\<lambda>i ms. ms[begin + i := True]) [0..<n] marks"

function root_loop :: "rstr list \<Rightarrow> nat \<Rightarrow> nat \<Rightarrow> nat \<Rightarrow> bool list \<Rightarrow> bool list" where
  "root_loop ts n begin anchor marks =
     (if n = 0 \<or> length ts < anchor + 2 * n then marks
      else if list_all (\<lambda>i. ts ! (anchor + n + i) = ts ! (begin + i)) [0..<n]
      then root_loop ts n begin (anchor + n) (mark_range begin n marks)
      else marks)"
  by auto
termination by (relation "measure (\<lambda>(ts, n, begin, anchor, marks). length ts - anchor)") auto

declare root_loop.simps [simp del]

definition gram_scan :: "rstr list \<Rightarrow> nat \<Rightarrow> bool list \<Rightarrow> bool list" where
  "gram_scan ts n marks =
     fold (\<lambda>begin ms. root_loop ts n begin begin ms) [0..<length ts - n] marks"

definition retrace_marks :: "nat \<Rightarrow> rstr list \<Rightarrow> bool list" where
  "retrace_marks min_ngram ts =
     fold (gram_scan ts) [min_ngram..<length ts] (replicate (length ts) False)"

definition content_indices :: "AsrWord list \<Rightarrow> nat list" where
  "content_indices words =
     filter (\<lambda>i. \<not> is_punct_or_terminator (aw_text (words ! i))) [0..<length words]"

definition mark_retraces :: "nat \<Rightarrow> AsrWord list \<Rightarrow> AsrWord list" where
  "mark_retraces min_ngram words =
     (let content = content_indices words
      in if length content < 2 then words
         else (let marks = retrace_marks min_ngram (map (\<lambda>i. aw_text (words ! i)) content)
               in fold (\<lambda>(i, m) ws. if m
                    then ws[i := (ws ! i)\<lparr>aw_kind := WkRetrace, aw_text := strip_punct (aw_text (ws ! i))\<rparr>]
                    else ws) (zip content marks) words))"

definition apply_retrace_detection :: "rstr \<Rightarrow> Utterance list \<Rightarrow> Utterance list" where
  "apply_retrace_detection lang utterances =
     map (\<lambda>u. u\<lparr>ut_words := mark_retraces
       (if lang = lit ''yue'' \<or> lang = lit ''zho'' then 2 else 1) (ut_words u)\<rparr>) utterances"

section \<open>The pipeline\<close>

definition prepare_monologue :: "AsrEnv \<Rightarrow> rstr \<Rightarrow> AsrMonologue \<Rightarrow> PreparedMonologueChunk list" where
  "prepare_monologue env lang m =
     (let merged = merge_compounds (env_compound env) (am_elements m);
          words = extract_timed_words merged;
          words = split_multiword_tokens env lang words;
          words = expand_numbers_in_words env lang words;
          words = (if lang = lit ''yue'' then normalize_cantonese_words env words else words);
          cs = split_on_long_pauses env (split_long_turns words)
      in map (\<lambda>ws. \<lparr>pc_speaker = am_speaker m, pc_words = ws\<rparr>) (filter (\<lambda>c. c \<noteq> []) cs))"

definition prepare_asr_chunks :: "AsrEnv \<Rightarrow> AsrMonologue list \<Rightarrow> rstr \<Rightarrow> PreparedMonologueChunk list" where
  "prepare_asr_chunks env monologues lang = concat (map (prepare_monologue env lang) monologues)"

definition utterances_from_prepared_chunks :: "PreparedMonologueChunk list \<Rightarrow> Utterance list" where
  "utterances_from_prepared_chunks cs = concat (map (\<lambda>c. retokenize (pc_speaker c) (pc_words c)) cs)"

definition finalize_utterances :: "AsrEnv \<Rightarrow> rstr \<Rightarrow> Utterance list \<Rightarrow> Utterance list" where
  "finalize_utterances env lang utterances =
     apply_retrace_detection lang (apply_disfluency_replacements env lang utterances)"

definition process_raw_asr :: "AsrEnv \<Rightarrow> AsrMonologue list \<Rightarrow> rstr \<Rightarrow> Utterance list" where
  "process_raw_asr env monologues lang =
     finalize_utterances env lang
       (utterances_from_prepared_chunks (prepare_asr_chunks env monologues lang))"

section \<open>Language detection\<close>

text \<open>
  \<open>lang_detect.rs\<close>: \<open>detect\<close> is the trigram detector of the \<open>whatlang\<close> crate with its language
  already mapped to ISO 639-3, \<open>alphabetic\<close> the Unicode predicate.
\<close>

definition detect_utterance_language ::
  "(rchar \<Rightarrow> bool) \<Rightarrow> (rstr \<Rightarrow> (rstr \<times> rat) option) \<Rightarrow> rstr \<Rightarrow> rstr option" where
  "detect_utterance_language alphabetic detect text =
     (let clean = trim text
      in if length (filter alphabetic clean) < 40 then None
         else (case detect clean of
                 None \<Rightarrow> None
               | Some (lang, confidence) \<Rightarrow> if confidence < 1 / 2 then None else Some lang))"

text \<open>The vector of counts: the first entry of a language is incremented, a new one goes last.\<close>

primrec count_language :: "rstr \<Rightarrow> (rstr \<times> nat) list \<Rightarrow> (rstr \<times> nat) list" where
  "count_language lang [] = [(lang, 1)]"
| "count_language lang (e # es) =
     (if fst e = lang then (fst e, snd e + 1) # es else e # count_language lang es)"

definition language_counts :: "(rstr \<Rightarrow> rstr option) \<Rightarrow> rstr list \<Rightarrow> (rstr \<times> nat) list" where
  "language_counts detect_one texts =
     sort_key (\<lambda>e. - int (snd e))
       (fold (\<lambda>t counts. case detect_one t of None \<Rightarrow> counts | Some l \<Rightarrow> count_language l counts) texts [])"

definition detect_primary_language :: "(rstr \<Rightarrow> rstr option) \<Rightarrow> rstr list \<Rightarrow> rstr option" where
  "detect_primary_language detect_one texts =
     (case language_counts detect_one texts of [] \<Rightarrow> None | e # es \<Rightarrow> Some (fst e))"

definition collect_detected_languages :: "(rstr \<Rightarrow> rstr option) \<Rightarrow> rstr list \<Rightarrow> rstr \<Rightarrow> rstr list" where
  "collect_detected_languages detect_one texts primary_lang =
     fold (\<lambda>(lang, count) result.
       if lang \<noteq> primary_lang \<and> lang \<notin> set result \<and> 3 \<le> count then result @ [lang] else result)
       (language_counts detect_one texts) [primary_lang]"

end
