(* ===== verification/Asr_Correct.thy ===== *)
theory Asr_Correct
  imports Asr_Post
begin

text \<open>
  What the post-processing of recognition output guarantees: no word is lost between turns and
  pauses, every utterance is closed, the pieces of a split token tile its time, and exactly the
  repeated stretches are marked as retraces.
\<close>

section \<open>Turns and pauses\<close>

lemma pause_loop_props:
  "concat (pause_loop env ws current prev) = current @ ws \<and> [] \<notin> set (pause_loop env ws current prev)"
  by (induction ws arbitrary: current prev) (auto simp: Let_def)

lemma pause_loop_length:
  assumes "c \<in> set (pause_loop env ws current prev)"
  shows "length c \<le> length current + length ws"
proof -
  have "length c \<le> length (concat (pause_loop env ws current prev))"
    using assms by (auto simp: in_set_conv_decomp)
  then show ?thesis by (simp add: pause_loop_props)
qed

lemma concat_map_pause:
  "concat (split_on_long_pauses env cs) = concat cs"
  by (induction cs) (simp_all add: split_on_long_pauses_def pause_loop_props)

lemma long_turns:
  "concat (split_long_turns ws) = ws \<and>
   (\<forall>c \<in> set (split_long_turns ws). length c \<le> MAX_TURN_LEN \<and> (ws \<noteq> [] \<longrightarrow> c \<noteq> []))"
  using chunks_props [of MAX_TURN_LEN ws] by (auto simp: split_long_turns_def MAX_TURN_LEN_def)

section \<open>Timing of split tokens\<close>

text \<open>Timed words that follow one another from \<open>a\<close> to \<open>b\<close>, with untimed ones in between.\<close>

fun tiles :: "int \<Rightarrow> int \<Rightarrow> AsrWord list \<Rightarrow> bool" where
  "tiles a b [] \<longleftrightarrow> a = b"
| "tiles a b (w # ws) \<longleftrightarrow>
     (case (aw_start_ms w, aw_end_ms w) of
        (None, None) \<Rightarrow> tiles a b ws
      | (Some s, Some e) \<Rightarrow> s = a \<and> s \<le> e \<and> tiles e b ws
      | _ \<Rightarrow> False)"

lemma wrap_i64_id: "i64_min \<le> z \<Longrightarrow> z \<le> i64_max \<Longrightarrow> wrap_i64 z = z"
  by (simp add: wrap_i64_def i64_min_def i64_max_def)

lemma interpolate_eq:
  assumes "0 \<le> start" and "0 \<le> width" and "consumed \<le> whole" and "0 < whole"
    and "start + width \<le> i64_max" and "width * int whole \<le> i64_max"
  shows "interpolate start width consumed whole = start + width * int consumed div int whole"
proof -
  have m: "width * int consumed \<le> width * int whole"
    using assms(2,3) by (simp add: mult_left_mono)
  have "0 \<le> width * int consumed" using assms(2) by simp
  moreover from this have "0 \<le> width * int consumed div int whole"
    using assms(4) by (simp add: pos_imp_zdiv_nonneg_iff)
  moreover have "width * int consumed div int whole \<le> width"
    using zdiv_mono1 [OF m, of "int whole"] assms(4) by simp
  moreover have "wrap_i64 (width * int consumed) = width * int consumed"
    using m assms(6) calculation(1) by (intro wrap_i64_id) (simp_all add: i64_min_def)
  moreover have "wrap_i64 (start + width * int consumed div int whole) =
      start + width * int consumed div int whole"
    using assms(1,5) calculation(2,3) by (intro wrap_i64_id) (simp_all add: i64_min_def)
  ultimately show ?thesis by (simp add: interpolate_def trunc_div_def)
qed

lemma part_words_tiles:
  assumes "0 \<le> start" and "0 \<le> width" and "0 < whole"
    and "start + width \<le> i64_max" and "width * int whole \<le> i64_max"
    and "consumed + text_chars ps = whole"
  shows "tiles (start + width * int consumed div int whole) (start + width)
    (part_words (Some (start, width)) whole ps consumed)"
  using assms(6)
proof (induction ps arbitrary: consumed)
  case Nil
  with assms(3) show ?case by (simp add: text_chars_def)
next
  case (Cons p ps)
  show ?case
  proof (cases "snd p")
    case True
    with Cons show ?thesis by (simp add: text_chars_def asr_word_def)
  next
    case False
    let ?next = "consumed + length (fst p)"
    have "?next + text_chars ps = whole" using Cons.prems False by (simp add: text_chars_def)
    moreover from this have "consumed \<le> whole" "?next \<le> whole" by simp_all
    moreover have "width * int consumed div int whole \<le> width * int ?next div int whole"
      using assms(2,3) by (intro zdiv_mono1 mult_left_mono) simp_all
    ultimately show ?thesis
      using Cons.IH [of ?next] False
      by (simp add: interpolate_eq assms(1-5) asr_word_def Let_def)
  qed
qed

section \<open>Retraces\<close>

text \<open>A stretch of \<open>n\<close> words from \<open>b\<close> that comes again right after itself.\<close>

definition repeats :: "rstr list \<Rightarrow> nat \<Rightarrow> nat \<Rightarrow> bool" where
  "repeats ts n b \<longleftrightarrow> 0 < n \<and> b + 2 * n \<le> length ts \<and> take n (drop b ts) = take n (drop (b + n) ts)"

lemma repeats_nth:
  "repeats ts n b \<longleftrightarrow>
     0 < n \<and> b + 2 * n \<le> length ts \<and> list_all (\<lambda>i. ts ! (b + n + i) = ts ! (b + i)) [0..<n]"
proof (cases "b + 2 * n \<le> length ts")
  case True
  then have "take n (drop b ts) = take n (drop (b + n) ts) \<longleftrightarrow>
      list_all (\<lambda>i. ts ! (b + n + i) = ts ! (b + i)) [0..<n]"
    by (auto simp: list_eq_iff_nth_eq list_all_iff)
  then show ?thesis by (simp add: repeats_def)
qed (simp add: repeats_def)

lemma mark_range_props:
  "length (mark_range b n ms) = length ms"
  "p < length ms \<Longrightarrow> mark_range b n ms ! p \<longleftrightarrow> ms ! p \<or> (b \<le> p \<and> p < b + n)"
proof -
  show len: "length (mark_range b n ms) = length ms" for n
    unfolding mark_range_def by (induction n) simp_all
  show "p < length ms \<Longrightarrow> mark_range b n ms ! p \<longleftrightarrow> ms ! p \<or> (b \<le> p \<and> p < b + n)"
  proof (induction n)
    case (Suc n)
    have "mark_range b (Suc n) ms = (mark_range b n ms)[b + n := True]"
      by (simp add: mark_range_def)
    with Suc len [of n] show ?case by (cases "p = b + n") auto
  qed (auto simp: mark_range_def)
qed

text \<open>However often the gram recurs, the loop marks its first occurrence only.\<close>

lemma root_loop_length [simp]: "length (root_loop ts n b r ms) = length ms"
proof (induction ts n b r ms rule: root_loop.induct)
  case (1 ts n b r ms)
  then show ?case by (subst root_loop.simps) (simp add: mark_range_props(1))
qed

lemma root_loop_more:
  assumes "p < length ms" and "b \<le> p \<longrightarrow> p < b + n \<longrightarrow> ms ! p"
  shows "root_loop ts n b r ms ! p = ms ! p"
  using assms
proof (induction ts n b r ms rule: root_loop.induct)
  case (1 ts n b r ms)
  show ?case
  proof (cases "n = 0 \<or> length ts < r + 2 * n")
    case True
    then show ?thesis by (subst root_loop.simps) simp
  next
    case False
    then show ?thesis
      using 1 by (subst root_loop.simps) (auto simp: mark_range_props)
  qed
qed

lemma root_loop_marks:
  assumes "length ms = length ts" and "p < length ts"
  shows "root_loop ts n b b ms ! p \<longleftrightarrow> ms ! p \<or> (repeats ts n b \<and> b \<le> p \<and> p < b + n)"
proof (cases "repeats ts n b")
  case False
  then show ?thesis using assms by (subst root_loop.simps) (auto simp: repeats_nth)
next
  case True
  then have step: "root_loop ts n b b ms = root_loop ts n b (b + n) (mark_range b n ms)"
    by (subst root_loop.simps) (simp add: repeats_nth)
  have "root_loop ts n b (b + n) (mark_range b n ms) ! p = mark_range b n ms ! p"
    by (rule root_loop_more) (use assms in \<open>simp_all add: mark_range_props\<close>)
  then show ?thesis using True assms by (simp add: step mark_range_props)
qed

lemma fold_length:
  "(\<And>x ms. length (f x ms) = length ms) \<Longrightarrow> length (fold f xs ms) = length ms"
  by (induction xs arbitrary: ms) simp_all

lemma fold_marks:
  assumes "\<And>x ms. length (f x ms) = length ms"
    and "\<And>x ms. length ms = k \<Longrightarrow> f x ms ! p \<longleftrightarrow> ms ! p \<or> P x" and "length ms = k"
  shows "fold f xs ms ! p \<longleftrightarrow> ms ! p \<or> (\<exists>x \<in> set xs. P x)"
  using assms(3)
proof (induction xs arbitrary: ms)
  case (Cons x xs)
  have "length (f x ms) = k" using assms(1) Cons.prems by simp
  from Cons.IH [OF this] assms(2) [OF Cons.prems, of x] show ?case by auto
qed simp

lemma gram_scan_length [simp]: "length (gram_scan ts n ms) = length ms"
  by (simp add: gram_scan_def fold_length)

lemma gram_scan_marks:
  assumes "length ms = length ts" and "p < length ts"
  shows "gram_scan ts n ms ! p \<longleftrightarrow> ms ! p \<or> (\<exists>b. repeats ts n b \<and> b \<le> p \<and> p < b + n)"
proof -
  have "gram_scan ts n ms ! p \<longleftrightarrow>
      ms ! p \<or> (\<exists>b \<in> set [0..<length ts - n]. repeats ts n b \<and> b \<le> p \<and> p < b + n)"
    unfolding gram_scan_def
    by (rule fold_marks [where k = "length ts"]) (simp_all add: root_loop_marks assms)
  moreover have "b < length ts - n" if "repeats ts n b" for b
    using that by (auto simp: repeats_def)
  ultimately show ?thesis by (metis atLeastLessThan_iff atLeastLessThan_upt le0)
qed

lemma retrace_marks_props:
  assumes "p < length ts"
  shows "length (retrace_marks m ts) = length ts"
    and "retrace_marks m ts ! p \<longleftrightarrow> (\<exists>n b. m \<le> n \<and> repeats ts n b \<and> b \<le> p \<and> p < b + n)"
proof -
  show "length (retrace_marks m ts) = length ts"
    by (simp add: retrace_marks_def fold_length)
  have *: "retrace_marks m ts ! p \<longleftrightarrow> replicate (length ts) False ! p \<or>
      (\<exists>n \<in> set [m..<length ts]. \<exists>b. repeats ts n b \<and> b \<le> p \<and> p < b + n)"
    unfolding retrace_marks_def
    by (rule fold_marks [where k = "length ts"]) (simp_all add: gram_scan_marks assms)
  have "n < length ts" if "repeats ts n b" for n b
    using that by (auto simp: repeats_def)
  with * assms show "retrace_marks m ts ! p \<longleftrightarrow> (\<exists>n b. m \<le> n \<and> repeats ts n b \<and> b \<le> p \<and> p < b + n)"
    by (simp del: set_upt add: set_upt) (metis atLeastLessThan_iff)
qed

section \<open>Utterances\<close>

lemma normalize_punct_ending:
  "is_ending_punct w \<Longrightarrow> normalize_punct w \<in> set ENDING_PUNCT \<union> {lit '','', lit '';''}"
proof -
  assume w: "is_ending_punct w"
  show ?thesis
  proof (cases "w \<in> fst ` set RTL_PUNCT")
    case True
    then show ?thesis by (auto simp: RTL_PUNCT_def normalize_punct_def ENDING_PUNCT_def)
  next
    case False
    then have "map_of RTL_PUNCT w = None" by (simp add: map_of_eq_None_iff)
    with w False show ?thesis by (simp add: normalize_punct_def is_ending_punct_def)
  qed
qed

lemma retokenize_loop_closed:
  assumes "u \<in> set (retokenize_loop speaker ws buf)"
  shows "ut_words u \<noteq> [] \<and> ut_speaker u = speaker \<and>
    aw_text (List.last (ut_words u)) \<in> set ENDING_PUNCT \<union> {lit '','', lit '';''}"
  using assms
proof (induction ws arbitrary: buf)
  case Nil
  then show ?case by (auto simp: Let_def utterance_def asr_word_def ENDING_PUNCT_def split: if_splits)
next
  case (Cons w ws)
  then show ?case
    using normalize_punct_ending [of "retoken_text (aw_text w)"]
      normalize_punct_ending [of "[List.last (retoken_text (aw_text w))]"]
    by (auto simp: Let_def utterance_def asr_word_def ends_with_ending_punct_def split: if_splits)
qed

section \<open>Properties\<close>

text \<open>
  Splitting long turns and splitting at long pauses lose, add and reorder no word, and no chunk
  exceeds the maximal turn of 300 words.
\<close>

theorem turns_keep_words:
  "concat (split_on_long_pauses env (split_long_turns ws)) = ws \<and>
   list_all (\<lambda>c. length c \<le> MAX_TURN_LEN) (split_on_long_pauses env (split_long_turns ws))"
proof
  show "concat (split_on_long_pauses env (split_long_turns ws)) = ws"
    by (simp add: concat_map_pause long_turns)
  have "length c \<le> MAX_TURN_LEN" if c: "c \<in> set (split_on_long_pauses env (split_long_turns ws))" for c
  proof -
    from c obtain t where "t \<in> set (split_long_turns ws)" "length c \<le> length t"
      by (auto simp: split_on_long_pauses_def dest: pause_loop_length split: if_splits)
    with long_turns show ?thesis using le_trans by blast
  qed
  then show "list_all (\<lambda>c. length c \<le> MAX_TURN_LEN) (split_on_long_pauses env (split_long_turns ws))"
    by (simp add: list_all_iff)
qed

definition demo_env :: AsrEnv where
  "demo_env = \<lparr>env_compound = (\<lambda>a b. False), env_lower = to_ascii_lowercase,
     env_alphanumeric = is_ascii_alphabetic, env_num2lang = (\<lambda>l. None), env_cantonese = (\<lambda>t. t)\<rparr>"

text \<open>
  A split token keeps its time. The timed pieces of a token with a start and an end follow one
  another without gap or overlap from its start to its end, each of a duration that is not negative,
  as long as the products fit into 64 bits.
\<close>

theorem split_token_tiles_time:
  assumes "aw_start_ms w = Some a" and "aw_end_ms w = Some b" and "0 \<le> a" and "a < b"
    and "b \<le> i64_max"
    and "0 < text_chars (word_parts env lang (aw_text w))"
    and "(b - a) * int (text_chars (word_parts env lang (aw_text w))) \<le> i64_max"
  shows "tiles a b (split_chunk_word env lang w)"
proof (cases "word_parts env lang (aw_text w) = [(aw_text w, False)]")
  case True
  with assms show ?thesis by (simp add: split_chunk_word_def)
next
  case False
  have "wrap_i64 (b - a) = b - a"
    using assms(3-5) by (intro wrap_i64_id) (simp_all add: i64_min_def)
  then show ?thesis
    using False assms part_words_tiles [of a "b - a" _ 0 "word_parts env lang (aw_text w)"]
    by (simp add: split_chunk_word_def Let_def)
qed

lemma split_token_tiles_time_witness:
  "tiles 0 1000 (split_chunk_word demo_env (lit ''eng'') (asr_word (lit ''ab cd'') (Some 0) (Some 1000)))"
proof (rule split_token_tiles_time)
  have "word_parts demo_env (lit ''eng'') (lit ''ab cd'') = [(lit ''ab'', False), (lit ''cd'', False)]"
    by (simp add: word_parts_def expand_language_part_def lit_def is_whitespace_def
        normalized_split_separator_def flush_current_def)
  then show "0 < text_chars (word_parts demo_env (lit ''eng'')
      (aw_text (asr_word (lit ''ab cd'') (Some 0) (Some 1000))))"
    "(1000 - 0) * int (text_chars (word_parts demo_env (lit ''eng'')
      (aw_text (asr_word (lit ''ab cd'') (Some 0) (Some 1000))))) \<le> i64_max"
    by (simp_all add: asr_word_def text_chars_def i64_max_def)
qed (simp_all add: asr_word_def i64_max_def)

text \<open>
  What is marked as a retrace. A content word is marked exactly when it lies in a stretch of at
  least the minimal length that is repeated right after itself; so the last repetition, and with it
  the last word, always stays.
\<close>

theorem retrace_marks_iff:
  assumes "p < length ts"
  shows "retrace_marks m ts ! p =
    (\<exists>n b. m \<le> n \<and> repeats ts n b \<and> b \<le> p \<and> p < b + n)"
  using retrace_marks_props(2) [OF assms] .

lemma retrace_marks_iff_witness:
  "retrace_marks 1 [[97], [98], [97], [98], [99]] ! 1"
proof -
  have "repeats [[97], [98], [97], [98], [99]] 2 0"
    by (simp add: repeats_def numeral_2_eq_2)
  then show ?thesis using retrace_marks_iff [of 1 "[[97], [98], [97], [98], [99]]" 1]
    by (metis (no_types, lifting) add_0 le0 length_Cons less_numeral_extra(1) list.size(3)
        one_le_numeral one_less_numeral_iff semiring_norm(76) zero_less_Suc Suc_less_eq One_nat_def)
qed

text \<open>
  Every utterance is closed. Retokenization produces no empty utterance, keeps the speaker, and
  ends each utterance with a terminator of the list, or with a comma or a semicolon.
\<close>

theorem retokenized_utterances_closed:
  "list_all (\<lambda>u. ut_words u \<noteq> [] \<and> ut_speaker u = speaker \<and>
     aw_text (List.last (ut_words u)) \<in> set ENDING_PUNCT \<union> {lit '','', lit '';''})
   (retokenize speaker ws)"
  by (simp only: list_all_iff retokenize_def) (blast dest: retokenize_loop_closed)

text \<open>
  The comma and the semicolon do occur. The Arabic semicolon counts as a sentence end, because
  the table that maps right-to-left punctuation to ASCII is also used as the list of terminators: a
  word that carries it closes an utterance whose terminator is a semicolon, which no transcript allows.
\<close>

theorem arabic_semicolon_ends_utterance:
  "map (\<lambda>u. map aw_text (ut_words u)) (retokenize 0 [asr_word [1576, 1563] None None, asr_word [1576] None None]) =
     [[[1576], lit '';''], [[1576], lit ''.'']] \<and> lit '';'' \<notin> set ENDING_PUNCT"
  by (simp add: retokenize_def asr_word_def retoken_text_def is_ending_punct_def ENDING_PUNCT_def
      RTL_PUNCT_def ends_with_ending_punct_def utterance_def normalize_punct_def drop_trailing_mor_def
      MOR_PUNCT_def lit_def)

end
