(* ===== verification/Fa_Types.thy ===== *)
theory Fa_Types
  imports Prelude
begin

text \<open>
  Data of forced alignment (\<open>chat-ops/fa/mod.rs\<close>, \<open>extraction.rs\<close>, \<open>injection.rs\<close>). A CHAT
  transcript is the list of its lines; the main tier of an utterance is the list of word items that
  the traversals of talkbank-model visit when they recurse into every group, in document order. A
  word carries what that library reports of it: its cleaned text, whether it counts for the timing
  tier, and its inline bullet. Milliseconds and indices are naturals below 2^64, additions wrap.
\<close>

section \<open>Transcripts\<close>

record TimeSpan =
  ts_start :: nat
  ts_end :: nat

definition time_span :: "nat \<Rightarrow> nat \<Rightarrow> TimeSpan" where
  "time_span start_ms end_ms = \<lparr>ts_start = start_ms, ts_end = end_ms\<rparr>"

definition span_duration_ms :: "TimeSpan \<Rightarrow> nat" where
  "span_duration_ms s = sat_sub (ts_end s) (ts_start s)"

definition u64_add :: "nat \<Rightarrow> nat \<Rightarrow> nat" where
  "u64_add a b = (a + b) mod 2 ^ 64"

record ChatWord =
  cw_text :: rstr
  cw_counts :: bool
  cw_bullet :: "TimeSpan option"

datatype WordItem =
    WiWord ChatWord
  | WiReplaced ChatWord "ChatWord list"
  | WiSeparator

datatype 'r DependentTier = DtWor "ChatWord list" | DtOther 'r

record ('c, 'r) ChatUtterance =
  cu_speaker :: rstr
  cu_content :: 'c
  cu_bullet :: "TimeSpan option"
  cu_tiers :: "'r DependentTier list"
  cu_lazy_overlap :: bool

datatype ('c, 'r, 'o) ChatLine = ClUtterance "('c, 'r) ChatUtterance" | ClOther 'o

type_synonym ('r, 'o) fa_file = "(WordItem list, 'r, 'o) ChatLine list"

fun utterances :: "('c, 'r, 'o) ChatLine list \<Rightarrow> ('c, 'r) ChatUtterance list" where
  "utterances [] = []"
| "utterances (ClUtterance u # ls) = u # utterances ls"
| "utterances (ClOther l # ls) = utterances ls"

text \<open>\<open>get_utterance_mut\<close> followed by a write through the reference.\<close>

fun modify_utterance ::
  "nat \<Rightarrow> (('c, 'r) ChatUtterance \<Rightarrow> ('c, 'r) ChatUtterance) \<Rightarrow> ('c, 'r, 'o) ChatLine list \<Rightarrow>
   ('c, 'r, 'o) ChatLine list" where
  "modify_utterance i f [] = []"
| "modify_utterance i f (ClOther l # ls) = ClOther l # modify_utterance i f ls"
| "modify_utterance 0 f (ClUtterance u # ls) = ClUtterance (f u) # ls"
| "modify_utterance (Suc i) f (ClUtterance u # ls) = ClUtterance u # modify_utterance i f ls"

definition get_utterance :: "('c, 'r, 'o) ChatLine list \<Rightarrow> nat \<Rightarrow> ('c, 'r) ChatUtterance option" where
  "get_utterance f i = (if i < length (utterances f) then Some (utterances f ! i) else None)"

section \<open>Words for the aligner\<close>

record FaWord =
  fw_utterance_index :: nat
  fw_word_index :: nat
  fw_text :: rstr

definition stable_id :: "FaWord \<Rightarrow> rstr" where
  "stable_id w =
     lit ''u'' @ show_nat (fw_utterance_index w) @ lit '':w'' @ show_nat (fw_word_index w)"

record FaGroup =
  fg_audio_span :: TimeSpan
  fg_words :: "FaWord list"
  fg_utterance_indices :: "nat list"

datatype FaTimingMode = FtContinuous | FtWithPauses

datatype FaEngineType = FeWhisperFa | FeWave2Vec

fun fa_engine_as_str :: "FaEngineType \<Rightarrow> rstr" where
  "fa_engine_as_str FeWhisperFa = lit ''whisper_fa''"
| "fa_engine_as_str FeWave2Vec = lit ''wave2vec''"

definition fa_engine_from_str_lossy :: "rstr \<Rightarrow> FaEngineType" where
  "fa_engine_from_str_lossy s =
     (if contains s (lit ''wav2vec'') \<or> contains s (lit ''wave2vec'') then FeWave2Vec
      else FeWhisperFa)"

record FaInferItem =
  fi_words :: "rstr list"
  fi_word_ids :: "rstr list"
  fi_word_utterance_indices :: "nat list"
  fi_word_utterance_word_indices :: "nat list"
  fi_audio_path :: rstr
  fi_audio_start_ms :: nat
  fi_audio_end_ms :: nat
  fi_timing_mode :: FaTimingMode

definition fa_infer_audio_span :: "FaInferItem \<Rightarrow> TimeSpan" where
  "fa_infer_audio_span i = time_span (fi_audio_start_ms i) (fi_audio_end_ms i)"

text \<open>
  The words of an item that the aligner works on: those that count for the timing tier, and of a
  replaced word its replacement when there is one.
\<close>

fun alignable_words :: "WordItem \<Rightarrow> ChatWord list" where
  "alignable_words (WiWord w) = (if cw_counts w then [w] else [])"
| "alignable_words (WiReplaced w rs) =
     (if rs \<noteq> [] then filter cw_counts rs else if cw_counts w then [w] else [])"
| "alignable_words WiSeparator = []"

definition collect_fa_words :: "WordItem list \<Rightarrow> rstr list" where
  "collect_fa_words items = concat (map (\<lambda>i. map cw_text (alignable_words i)) items)"

definition count_alignable_main_words :: "WordItem list \<Rightarrow> nat" where
  "count_alignable_main_words items = sum_list (map (\<lambda>i. length (alignable_words i)) items)"

definition collect_existing_fa_word_timings :: "WordItem list \<Rightarrow> TimeSpan option list" where
  "collect_existing_fa_word_timings items =
     concat (map (\<lambda>i. map cw_bullet (alignable_words i)) items)"

section \<open>Timing cursor and injection\<close>

record TimingCursor =
  tc_timings :: "TimeSpan option list"
  tc_pos :: nat

definition cursor_with_offset :: "TimeSpan option list \<Rightarrow> nat \<Rightarrow> TimingCursor" where
  "cursor_with_offset timings offset = \<lparr>tc_timings = timings, tc_pos = offset\<rparr>"

definition cursor_take :: "TimingCursor \<Rightarrow> TimeSpan option \<times> TimingCursor" where
  "cursor_take c =
     ((if tc_pos c < length (tc_timings c) then tc_timings c ! tc_pos c else None),
      c\<lparr>tc_pos := tc_pos c + 1\<rparr>)"

definition inject_timing_on_word :: "ChatWord \<Rightarrow> TimingCursor \<Rightarrow> ChatWord \<times> TimingCursor" where
  "inject_timing_on_word w c =
     (if \<not> cw_counts w then (w, c)
      else case cursor_take c of
             (Some t, c') \<Rightarrow> (w\<lparr>cw_bullet := Some (time_span (ts_start t) (ts_end t))\<rparr>, c')
           | (None, c') \<Rightarrow> (w, c'))"

text \<open>A traversal that rewrites the elements of a list while it threads a state.\<close>

fun map_state :: "('a \<Rightarrow> 's \<Rightarrow> 'b \<times> 's) \<Rightarrow> 'a list \<Rightarrow> 's \<Rightarrow> 'b list \<times> 's" where
  "map_state f [] s = ([], s)"
| "map_state f (x # xs) s =
     (let (y, s') = f x s; (ys, s'') = map_state f xs s' in (y # ys, s''))"

fun inject_item :: "WordItem \<Rightarrow> TimingCursor \<Rightarrow> WordItem \<times> TimingCursor" where
  "inject_item (WiWord w) c = (let (w', c') = inject_timing_on_word w c in (WiWord w', c'))"
| "inject_item (WiReplaced w rs) c =
     (if rs \<noteq> [] then let (rs', c') = map_state inject_timing_on_word rs c in (WiReplaced w rs', c')
      else let (w', c') = inject_timing_on_word w c in (WiReplaced w' rs, c'))"
| "inject_item WiSeparator c = (WiSeparator, c)"

definition inject_timings_for_utterance ::
  "(WordItem list, 'r) ChatUtterance \<Rightarrow> TimeSpan option list \<Rightarrow> nat \<Rightarrow>
   (WordItem list, 'r) ChatUtterance \<times> nat" where
  "inject_timings_for_utterance u timings offset =
     (let (items, c) = map_state inject_item (cu_content u) (cursor_with_offset timings offset)
      in (u\<lparr>cu_content := items\<rparr>, tc_pos c))"

section \<open>Timing tiers and utterance bullets\<close>

text \<open>The timings that postprocessing sees: of every word, and of a replaced word the original.\<close>

fun spoken_word :: "WordItem \<Rightarrow> ChatWord list" where
  "spoken_word (WiWord w) = [w]"
| "spoken_word (WiReplaced w rs) = [w]"
| "spoken_word WiSeparator = []"

definition collect_word_timings :: "WordItem list \<Rightarrow> TimeSpan option list" where
  "collect_word_timings items = concat (map (\<lambda>i. map cw_bullet (spoken_word i)) items)"

fun is_wor_tier :: "'r DependentTier \<Rightarrow> bool" where
  "is_wor_tier (DtWor ws) = True"
| "is_wor_tier (DtOther r) = False"

definition remove_wor_tier :: "('c, 'r) ChatUtterance \<Rightarrow> ('c, 'r) ChatUtterance" where
  "remove_wor_tier u = u\<lparr>cu_tiers := filter (\<lambda>t. \<not> is_wor_tier t) (cu_tiers u)\<rparr>"

text \<open>\<open>generate\<close> is \<open>generate_wor_tier\<close> of talkbank-model.\<close>

definition add_wor_tier ::
  "(('c, 'r) ChatUtterance \<Rightarrow> ChatWord list) \<Rightarrow> ('c, 'r) ChatUtterance \<Rightarrow> ('c, 'r) ChatUtterance" where
  "add_wor_tier generate u =
     (let u' = remove_wor_tier u in u'\<lparr>cu_tiers := cu_tiers u' @ [DtWor (generate u')]\<rparr>)"

definition span_extrema :: "TimeSpan list \<Rightarrow> nat option \<times> nat option" where
  "span_extrema spans =
     foldl (\<lambda>(first_start, last_end) s.
       ((case first_start of None \<Rightarrow> Some (ts_start s)
         | Some f \<Rightarrow> if ts_start s < f then Some (ts_start s) else Some f),
        (case last_end of None \<Rightarrow> Some (ts_end s)
         | Some l \<Rightarrow> if ts_end s > l then Some (ts_end s) else Some l)))
       (None, None) spans"

definition update_utterance_bullet ::
  "(WordItem list, 'r) ChatUtterance \<Rightarrow> (WordItem list, 'r) ChatUtterance" where
  "update_utterance_bullet u =
     (case span_extrema (List.map_filter (\<lambda>t. t) (collect_word_timings (cu_content u))) of
        (Some word_start, Some word_end) \<Rightarrow>
          (case cu_bullet u of
             Some b \<Rightarrow>
               u\<lparr>cu_bullet := Some (time_span (min word_start (ts_start b)) (max word_end (ts_end b)))\<rparr>
           | None \<Rightarrow> u\<lparr>cu_bullet := Some (time_span word_start word_end)\<rparr>)
      | _ \<Rightarrow> u)"

section \<open>Cache keys\<close>

text \<open>\<open>hash\<close> is the hex digest of BLAKE3.\<close>

definition audio_identity_from_metadata :: "rstr \<Rightarrow> nat \<Rightarrow> nat \<Rightarrow> rstr" where
  "audio_identity_from_metadata path mtime_secs file_size =
     path @ lit ''|'' @ show_nat mtime_secs @ lit ''|'' @ show_nat file_size"

definition fa_cache_key ::
  "(rstr \<Rightarrow> rstr) \<Rightarrow> rstr list \<Rightarrow> rstr \<Rightarrow> nat \<Rightarrow> nat \<Rightarrow> FaTimingMode \<Rightarrow> FaEngineType \<Rightarrow> rstr" where
  "fa_cache_key hash words audio_identity start_ms end_ms timing_mode engine =
     (let joined = join_with (lit '' '') words;
          timing_flag = (case timing_mode of FtContinuous \<Rightarrow> lit ''no_pauses''
                         | FtWithPauses \<Rightarrow> lit ''pauses'')
      in hash (audio_identity @ lit ''|'' @ show_nat start_ms @ lit ''|'' @ show_nat end_ms @ lit ''|''
               @ joined @ lit ''|'' @ timing_flag @ lit ''|'' @ fa_engine_as_str engine))"

end
