(* ===== verification/Fa_Align.thy ===== *)
theory Fa_Align
  imports Fa_Types
begin

text \<open>
  Forced alignment of a transcript (\<open>chat-ops/fa\<close>): grouping of utterances into audio windows,
  reading of the aligner's answer, postprocessing, application to the file, and the passes that
  strip timing. Unicode lowercasing and the alphanumeric test are arguments.
\<close>

section \<open>Grouping (\<open>grouping.rs\<close>)\<close>

definition count_utterance_timing :: "('c, 'r, 'o) ChatLine list \<Rightarrow> nat \<times> nat" where
  "count_utterance_timing f =
     foldl (\<lambda>(timed, untimed) u. if cu_bullet u \<noteq> None then (timed + 1, untimed)
                                 else (timed, untimed + 1)) (0, 0) (utterances f)"

definition buffer_ms :: nat where "buffer_ms = 2000"

definition portion_ms :: "nat \<Rightarrow> nat \<Rightarrow> nat \<Rightarrow> nat" where
  "portion_ms words run_words gap = nat \<lfloor>of_nat words / of_nat run_words * of_nat gap :: rat\<rfloor>"

primrec spread_run :: "nat \<Rightarrow> nat \<Rightarrow> nat \<Rightarrow> nat \<Rightarrow> nat list \<Rightarrow> nat \<Rightarrow> TimeSpan list" where
  "spread_run total_audio_ms gap_start gap run_words [] words_before = []"
| "spread_run total_audio_ms gap_start gap run_words (c # cs) words_before =
     (let raw_start = u64_add gap_start (portion_ms words_before run_words gap);
          raw_end = u64_add gap_start (portion_ms (words_before + c) run_words gap)
      in time_span (sat_sub raw_start buffer_ms) (min (u64_add raw_end buffer_ms) total_audio_ms)
         # spread_run total_audio_ms gap_start gap run_words cs (words_before + c))"

definition estimate_run :: "nat \<Rightarrow> nat \<Rightarrow> nat \<Rightarrow> nat list \<Rightarrow> TimeSpan list" where
  "estimate_run total_audio_ms gap_start gap_end counts =
     (let run_words = sum_list counts in
      if run_words = 0 then replicate (length counts) (time_span gap_start gap_start)
      else spread_run total_audio_ms gap_start (sat_sub gap_end gap_start) run_words counts 0)"

text \<open>\<open>prev_end\<close> is the end of the nearest timed utterance before the list, 0 when there is none.\<close>

function estimate_from :: "nat \<Rightarrow> nat \<Rightarrow> (nat \<times> TimeSpan option) list \<Rightarrow> TimeSpan list" where
  "estimate_from total_audio_ms prev_end [] = []"
| "estimate_from total_audio_ms prev_end ((c, Some s) # info) =
     s # estimate_from total_audio_ms (ts_end s) info"
| "estimate_from total_audio_ms prev_end ((c, None) # info) =
     (let run = c # map fst (takeWhile (\<lambda>(c, s). s = None) info);
          after = dropWhile (\<lambda>(c, s). s = None) info;
          gap_end = (case after of (_, Some s) # _ \<Rightarrow> ts_start s | _ \<Rightarrow> total_audio_ms)
      in estimate_run total_audio_ms prev_end gap_end run
         @ estimate_from total_audio_ms prev_end after)"
  by pat_completeness auto

termination estimate_from
  by (relation "measure (\<lambda>(_, _, info). length info)") (auto simp: less_Suc_eq_le length_dropWhile_le)

definition utterance_info :: "('r, 'o) fa_file \<Rightarrow> (nat \<times> TimeSpan option) list" where
  "utterance_info f =
     map (\<lambda>u. (length (collect_fa_words (cu_content u)), cu_bullet u)) (utterances f)"

definition estimate_untimed_boundaries :: "('r, 'o) fa_file \<Rightarrow> nat \<Rightarrow> TimeSpan list" where
  "estimate_untimed_boundaries f total_audio_ms = estimate_from total_audio_ms 0 (utterance_info f)"

record GroupAcc =
  ga_groups :: "FaGroup list"
  ga_words :: "FaWord list"
  ga_utts :: "nat list"
  ga_seg_start :: nat
  ga_seg_end :: nat
  ga_utt_idx :: nat

definition number_words :: "nat \<Rightarrow> rstr list \<Rightarrow> FaWord list" where
  "number_words utt_idx ws =
     map (\<lambda>(k, w). \<lparr>fw_utterance_index = utt_idx, fw_word_index = k, fw_text = w\<rparr>)
       (enumerate 0 ws)"

definition close_group :: "GroupAcc \<Rightarrow> FaGroup" where
  "close_group a =
     \<lparr>fg_audio_span = time_span (ga_seg_start a) (ga_seg_end a), fg_words = ga_words a,
      fg_utterance_indices = ga_utts a\<rparr>"

text \<open>The bullet of an utterance, or the estimate for it.\<close>

definition utterance_span ::
  "TimeSpan list option \<Rightarrow> nat \<Rightarrow> (WordItem list, 'r) ChatUtterance \<Rightarrow> TimeSpan option" where
  "utterance_span estimates utt_idx u =
     (case cu_bullet u of
        Some b \<Rightarrow> Some (time_span (ts_start b) (ts_end b))
      | None \<Rightarrow> (case estimates of
          Some est \<Rightarrow> if utt_idx < length est then Some (est ! utt_idx) else None
        | None \<Rightarrow> None))"

definition group_utterance ::
  "nat \<Rightarrow> TimeSpan list option \<Rightarrow> GroupAcc \<Rightarrow> (WordItem list, 'r) ChatUtterance \<Rightarrow> GroupAcc" where
  "group_utterance max_group_ms estimates a u =
     (let utt_idx = ga_utt_idx a in
      case utterance_span estimates utt_idx u of
        None \<Rightarrow> a\<lparr>ga_utt_idx := utt_idx + 1\<rparr>
      | Some sp \<Rightarrow>
          (let a1 = (if ga_words a \<noteq> [] \<and>
                        (ts_end sp \<le> ga_seg_start a \<or> ts_end sp - ga_seg_start a > max_group_ms)
                     then a\<lparr>ga_groups := ga_groups a @ [close_group a], ga_words := [],
                            ga_utts := [], ga_seg_start := ts_start sp\<rparr>
                     else a);
               a2 = (if ga_words a1 = [] then a1\<lparr>ga_seg_start := ts_start sp\<rparr> else a1)
           in a2\<lparr>ga_seg_end := ts_end sp,
                 ga_words := ga_words a2 @ number_words utt_idx (collect_fa_words (cu_content u)),
                 ga_utts := ga_utts a2 @ [utt_idx],
                 ga_utt_idx := utt_idx + 1\<rparr>))"

definition group_acc0 :: GroupAcc where
  "group_acc0 = \<lparr>ga_groups = [], ga_words = [], ga_utts = [], ga_seg_start = 0, ga_seg_end = 0,
                 ga_utt_idx = 0\<rparr>"

definition group_utterances :: "('r, 'o) fa_file \<Rightarrow> nat \<Rightarrow> nat option \<Rightarrow> FaGroup list" where
  "group_utterances f max_group_ms total_audio_ms =
     (let estimates = map_option (estimate_untimed_boundaries f) total_audio_ms;
          a = foldl (group_utterance max_group_ms estimates) group_acc0 (utterances f)
      in if ga_words a \<noteq> [] then ga_groups a @ [close_group a] else ga_groups a)"

section \<open>Reading the aligner's answer (\<open>alignment.rs\<close>)\<close>

record FaRawToken =
  rt_text :: rstr
  rt_time_s :: rat

record FaIndexedTiming =
  it_start_ms :: nat
  it_end_ms :: nat
  it_confidence :: "rat option"

datatype FaRawResponse =
    FrIndexedWordLevel "FaIndexedTiming option list"
  | FrTokenLevel "FaRawToken list"

definition apply_indexed_timings ::
  "FaWord list \<Rightarrow> FaIndexedTiming option list \<Rightarrow> nat \<Rightarrow> TimeSpan option list" where
  "apply_indexed_timings original indexed_timings audio_offset_ms =
     foldl (\<lambda>results (idx, t).
       case t of Some t \<Rightarrow>
           results[idx := Some (time_span (u64_add (it_start_ms t) audio_offset_ms)
                                          (u64_add (it_end_ms t) audio_offset_ms))]
       | None \<Rightarrow> results)
       (replicate (length original) None) (enumerate 0 indexed_timings)"

definition normalize_fa_alignment_unit ::
  "(rchar \<Rightarrow> rstr) \<Rightarrow> (rchar \<Rightarrow> bool) \<Rightarrow> rstr \<Rightarrow> rstr" where
  "normalize_fa_alignment_unit lower alnum t = filter alnum (concat (map lower t))"

text \<open>A cast of a finite f64 to u64 truncates and saturates.\<close>

definition token_start_ms :: "rat \<Rightarrow> nat \<Rightarrow> nat" where
  "token_start_ms time_s audio_offset_ms =
     u64_add (min (nat \<lfloor>time_s * 1000\<rfloor>) u64_max) audio_offset_ms"

definition usable_tokens ::
  "(rchar \<Rightarrow> rstr) \<Rightarrow> (rchar \<Rightarrow> bool) \<Rightarrow> FaRawToken list \<Rightarrow> nat \<Rightarrow> (rstr \<times> nat) list" where
  "usable_tokens lower alnum tokens audio_offset_ms =
     concat (map (\<lambda>token.
       let token_text = trim (rt_text token);
           norm = normalize_fa_alignment_unit lower alnum token_text
       in if starts_with token_text (lit ''<|'') \<and> ends_with token_text (lit ''|>'') then []
          else if norm = [] then []
          else [(norm, token_start_ms (rt_time_s token) audio_offset_ms)]) tokens)"

text \<open>The inner loop: consume tokens while what they spell together is a prefix of the word.\<close>

fun stitch_word :: "rstr \<Rightarrow> rstr \<Rightarrow> (rstr \<times> nat) list \<Rightarrow> (rstr \<times> nat) list option" where
  "stitch_word word_norm acc [] = None"
| "stitch_word word_norm acc ((t, s) # ts) =
     (let next_acc = acc @ t in
      if \<not> starts_with word_norm next_acc then None
      else if next_acc = word_norm then Some ts
      else stitch_word word_norm next_acc ts)"

definition stitched_end :: "FaTimingMode \<Rightarrow> nat \<Rightarrow> (rstr \<times> nat) list \<Rightarrow> nat" where
  "stitched_end timing_mode start_ms rest =
     (case timing_mode of
        FtWithPauses \<Rightarrow>
          max (case rest of (_, s) # _ \<Rightarrow> s | [] \<Rightarrow> u64_add start_ms 500) (u64_add start_ms 1)
      | FtContinuous \<Rightarrow> start_ms)"

fun stitch_words ::
  "FaTimingMode \<Rightarrow> rstr list \<Rightarrow> (rstr \<times> nat) list \<Rightarrow> TimeSpan option list" where
  "stitch_words timing_mode [] tokens = []"
| "stitch_words timing_mode (w # ws) [] = replicate (length (w # ws)) None"
| "stitch_words timing_mode (w # ws) ((t, s) # ts) =
     (case stitch_word w [] ((t, s) # ts) of
        Some rest \<Rightarrow>
          Some (time_span s (stitched_end timing_mode s rest)) # stitch_words timing_mode ws rest
      | None \<Rightarrow> replicate (length (w # ws)) None)"

definition align_token_timings ::
  "(rchar \<Rightarrow> rstr) \<Rightarrow> (rchar \<Rightarrow> bool) \<Rightarrow> FaWord list \<Rightarrow> FaRawToken list \<Rightarrow> nat \<Rightarrow> FaTimingMode \<Rightarrow>
   TimeSpan option list" where
  "align_token_timings lower alnum original tokens audio_offset_ms timing_mode =
     (let none = replicate (length original) None;
          word_norms = map (\<lambda>w. normalize_fa_alignment_unit lower alnum (fw_text w)) original;
          usable = usable_tokens lower alnum tokens audio_offset_ms
      in if original = [] \<or> tokens = [] then none
         else if [] \<in> set word_norms then none
         else if usable = [] then none
         else stitch_words timing_mode word_norms usable)"

text \<open>\<open>raw\<close> is what serde makes of the JSON text: its error or the response.\<close>

definition parse_fa_response ::
  "(rchar \<Rightarrow> rstr) \<Rightarrow> (rchar \<Rightarrow> bool) \<Rightarrow> rstr + FaRawResponse \<Rightarrow> FaWord list \<Rightarrow> nat \<Rightarrow> FaTimingMode \<Rightarrow>
   rstr + TimeSpan option list" where
  "parse_fa_response lower alnum raw original_words audio_start_ms timing_mode =
     (case raw of
        Inl e \<Rightarrow> Inl (lit ''Failed to parse raw FA response: '' @ e)
      | Inr (FrIndexedWordLevel indexed_timings) \<Rightarrow>
          if length indexed_timings \<noteq> length original_words then
            Inl (lit ''Indexed FA response length mismatch: expected ''
                 @ show_nat (length original_words) @ lit '' timings for ''
                 @ show_nat (length original_words) @ lit '' words, got ''
                 @ show_nat (length indexed_timings))
          else Inr (apply_indexed_timings original_words indexed_timings audio_start_ms)
      | Inr (FrTokenLevel tokens) \<Rightarrow>
          Inr (align_token_timings lower alnum original_words tokens audio_start_ms timing_mode))"

section \<open>Postprocessing (\<open>postprocess.rs\<close>)\<close>

definition fallback_end :: "TimeSpan option \<Rightarrow> nat \<Rightarrow> nat" where
  "fallback_end bullet start_ms =
     (case bullet of
        Some b \<Rightarrow> if ts_end b > start_ms then ts_end b else u64_add start_ms 500
      | None \<Rightarrow> u64_add start_ms 500)"

text \<open>The two backward passes, on the reversed list.\<close>

fun extend_last_timed :: "TimeSpan option \<Rightarrow> TimeSpan option list \<Rightarrow> TimeSpan option list" where
  "extend_last_timed bullet [] = []"
| "extend_last_timed bullet (None # ts) = None # extend_last_timed bullet ts"
| "extend_last_timed bullet (Some s # ts) =
     Some (if ts_start s = ts_end s then time_span (ts_start s) (fallback_end bullet (ts_start s))
           else s) # ts"

fun propagate_starts :: "nat option \<Rightarrow> TimeSpan option list \<Rightarrow> TimeSpan option list" where
  "propagate_starts next_start [] = []"
| "propagate_starts next_start (None # ts) = None # propagate_starts next_start ts"
| "propagate_starts next_start (Some s # ts) =
     Some (case next_start of Some ns \<Rightarrow> time_span (ts_start s) ns | None \<Rightarrow> s)
     # propagate_starts (Some (ts_start s)) ts"

definition continuous_ends :: "TimeSpan option \<Rightarrow> TimeSpan option list \<Rightarrow> TimeSpan option list" where
  "continuous_ends bullet ts = rev (propagate_starts None (extend_last_timed bullet (rev ts)))"

definition clamp_timing :: "TimeSpan \<Rightarrow> TimeSpan option \<Rightarrow> TimeSpan option" where
  "clamp_timing bullet t =
     (case t of
        None \<Rightarrow> None
      | Some s \<Rightarrow>
          (let clamped_start = max (ts_start s) (ts_start bullet);
               clamped_end = min (ts_end s) (ts_end bullet)
           in if clamped_start \<ge> clamped_end then None
              else Some (time_span clamped_start clamped_end)))"

definition set_word_timing :: "TimeSpan option list \<Rightarrow> ChatWord \<Rightarrow> nat \<Rightarrow> ChatWord \<times> nat" where
  "set_word_timing timings w idx =
     ((if idx < length timings
       then w\<lparr>cw_bullet := map_option (\<lambda>s. time_span (ts_start s) (ts_end s)) (timings ! idx)\<rparr>
       else w), idx + 1)"

fun set_item_timing :: "TimeSpan option list \<Rightarrow> WordItem \<Rightarrow> nat \<Rightarrow> WordItem \<times> nat" where
  "set_item_timing timings (WiWord w) idx =
     (let (w', idx') = set_word_timing timings w idx in (WiWord w', idx'))"
| "set_item_timing timings (WiReplaced w rs) idx =
     (let (w', idx') = set_word_timing timings w idx in (WiReplaced w' rs, idx'))"
| "set_item_timing timings WiSeparator idx = (WiSeparator, idx)"

definition set_word_timings :: "WordItem list \<Rightarrow> TimeSpan option list \<Rightarrow> WordItem list" where
  "set_word_timings items timings = fst (map_state (set_item_timing timings) items 0)"

definition postprocess_timings ::
  "TimeSpan option \<Rightarrow> FaTimingMode \<Rightarrow> TimeSpan option list \<Rightarrow> TimeSpan option list" where
  "postprocess_timings bullet timing_mode word_timings =
     (let t1 = (if timing_mode = FtContinuous then continuous_ends bullet word_timings
                else word_timings)
      in case bullet of Some b \<Rightarrow> map (clamp_timing b) t1 | None \<Rightarrow> t1)"

definition postprocess_utterance_timings ::
  "FaTimingMode \<Rightarrow> (WordItem list, 'r) ChatUtterance \<Rightarrow> (WordItem list, 'r) ChatUtterance" where
  "postprocess_utterance_timings timing_mode u =
     (let word_timings = collect_word_timings (cu_content u)
      in if word_timings = [] then u
         else u\<lparr>cu_content := set_word_timings (cu_content u)
                  (postprocess_timings (cu_bullet u) timing_mode word_timings)\<rparr>)"

section \<open>Application to a file (\<open>orchestrate.rs\<close>)\<close>

fun distribute_timings ::
  "TimeSpan option list \<Rightarrow> nat list \<Rightarrow> nat \<Rightarrow> ('r, 'o) fa_file \<Rightarrow> ('r, 'o) fa_file" where
  "distribute_timings timings [] offset f = f"
| "distribute_timings timings (i # is) offset f =
     (case get_utterance f i of
        None \<Rightarrow> distribute_timings timings is offset f
      | Some u \<Rightarrow>
          (let (u', offset') = inject_timings_for_utterance u timings offset
           in distribute_timings timings is offset' (modify_utterance i (\<lambda>_. u') f)))"

definition distribute_all ::
  "('r, 'o) fa_file \<Rightarrow> FaGroup list \<Rightarrow> TimeSpan option list list \<Rightarrow> ('r, 'o) fa_file" where
  "distribute_all f groups responses =
     foldl (\<lambda>f (g, timings). distribute_timings timings (fg_utterance_indices g) 0 f)
       f (zip groups responses)"

definition finish_utterance ::
  "((WordItem list, 'r) ChatUtterance \<Rightarrow> ChatWord list) \<Rightarrow> FaTimingMode \<Rightarrow> bool \<Rightarrow>
   (WordItem list, 'r) ChatUtterance \<Rightarrow> (WordItem list, 'r) ChatUtterance" where
  "finish_utterance generate timing_mode write_wor u =
     (let u' = update_utterance_bullet (postprocess_utterance_timings timing_mode u)
      in if write_wor then add_wor_tier generate u' else u')"

definition apply_fa_results ::
  "((WordItem list, 'r) ChatUtterance \<Rightarrow> ChatWord list) \<Rightarrow> ('r, 'o) fa_file \<Rightarrow> FaGroup list \<Rightarrow>
   TimeSpan option list list \<Rightarrow> FaTimingMode \<Rightarrow> bool \<Rightarrow> ('r, 'o) fa_file" where
  "apply_fa_results generate f groups responses timing_mode write_wor =
     foldl (\<lambda>f i. modify_utterance i (finish_utterance generate timing_mode write_wor) f)
       (distribute_all f groups responses) (concat (map fg_utterance_indices groups))"

end
