(* ===== verification/Utr.thy ===== *)
theory Utr
  imports Fa_Align Align_Correct
begin

text \<open>
  Utterance timing recovery (\<open>chat-ops/fa/utr.rs\<close>, \<open>utr/two_pass.rs\<close>): bullets for untimed utterances
  from the tokens of a speech recognizer. The overlap markers of an utterance, the Unicode lowercasing
  and the Jaro-Winkler similarity of the aligner are arguments. \<open>None\<close> is a panic of the aligner.
\<close>

section \<open>Types\<close>

record AsrTimingToken =
  at_text :: rstr
  at_start_ms :: nat
  at_end_ms :: nat

record UtrResult =
  ur_injected :: nat
  ur_skipped :: nat
  ur_unmatched :: nat

datatype OverlapRegionKind = OkTop | OkBottom

text \<open>What \<open>extract_overlap_info\<close> of talkbank-model answers.\<close>

record OverlapRegion =
  or_kind :: OverlapRegionKind
  or_index :: "nat option"
  or_has_begin :: bool
  or_begin_at_word :: "nat option"

record OverlapMarkerInfo =
  oi_regions :: "OverlapRegion list"
  oi_total_words :: nat
  oi_has_bottom_overlap :: bool
  oi_top_onset_fraction :: "rat option"

type_synonym marker_reader = "WordItem list \<Rightarrow> OverlapMarkerInfo"

record UtrUtteranceInfo =
  ui_words :: "rstr list"
  ui_has_bullet :: bool
  ui_has_lazy_overlap :: bool
  ui_has_ca_overlap :: bool
  ui_overlap_onset_fraction :: "rat option"
  ui_speaker :: rstr
  ui_bottom_indices :: "nat option list"
  ui_top_onsets :: "(nat option \<times> rat) list"

datatype UtrAlignmentStrategy = UsUniqueExactSubsequence | UsGlobalDp

record UtrAlignmentPlan =
  up_strategy :: UtrAlignmentStrategy
  up_utt_ranges :: "(nat \<times> nat) option list"

definition utterance_utr_info ::
  "marker_reader \<Rightarrow> (WordItem list, 'r) ChatUtterance \<Rightarrow> UtrUtteranceInfo" where
  "utterance_utr_info markers u =
     (let info = markers (cu_content u) in
      \<lparr>ui_words = collect_fa_words (cu_content u),
       ui_has_bullet = (cu_bullet u \<noteq> None),
       ui_has_lazy_overlap = cu_lazy_overlap u,
       ui_has_ca_overlap = oi_has_bottom_overlap info,
       ui_overlap_onset_fraction = oi_top_onset_fraction info,
       ui_speaker = cu_speaker u,
       ui_bottom_indices =
         map or_index (filter (\<lambda>r. or_kind r = OkBottom \<and> or_has_begin r) (oi_regions info)),
       ui_top_onsets =
         List.map_filter (\<lambda>r.
           case or_begin_at_word r of
             None \<Rightarrow> None
           | Some word_pos \<Rightarrow>
               if oi_total_words info = 0 then None
               else Some (or_index r, of_nat word_pos / of_nat (oi_total_words info)))
           (filter (\<lambda>r. or_kind r = OkTop \<and> or_has_begin r) (oi_regions info))\<rparr>)"

definition collect_utr_utterance_info ::
  "marker_reader \<Rightarrow> ('r, 'o) fa_file \<Rightarrow> UtrUtteranceInfo list" where
  "collect_utr_utterance_info markers f = map (utterance_utr_info markers) (utterances f)"

section \<open>Greedy matching\<close>

fun greedy_forward :: "rstr list \<Rightarrow> nat \<Rightarrow> rstr list \<Rightarrow> nat list option" where
  "greedy_forward [] idx reference = Some []"
| "greedy_forward (w # ws) idx reference =
     (let skipped = length (takeWhile (\<lambda>r. \<not> eq_ignore_ascii_case w r) reference)
      in if skipped = length reference then None
         else map_option ((#) (idx + skipped))
                (greedy_forward ws (idx + skipped + 1) (drop (skipped + 1) reference)))"

definition greedy_forward_match_indices :: "rstr list \<Rightarrow> rstr list \<Rightarrow> nat list option" where
  "greedy_forward_match_indices payload reference = greedy_forward payload 0 reference"

text \<open>The payload and the first \<open>idx\<close> reference words, both reversed.\<close>

fun greedy_backward :: "rstr list \<Rightarrow> nat \<Rightarrow> rstr list \<Rightarrow> nat list option" where
  "greedy_backward [] idx reference = Some []"
| "greedy_backward (w # ws) idx reference =
     (let skipped = length (takeWhile (\<lambda>r. \<not> eq_ignore_ascii_case w r) reference)
      in if skipped = length reference then None
         else map_option ((#) (idx - skipped - 1))
                (greedy_backward ws (idx - skipped - 1) (drop (skipped + 1) reference)))"

definition greedy_reverse_match_indices :: "rstr list \<Rightarrow> rstr list \<Rightarrow> nat list option" where
  "greedy_reverse_match_indices payload reference =
     map_option rev (greedy_backward (rev payload) (length reference) (rev reference))"

section \<open>Ranges\<close>

definition update_utt_range :: "(nat \<times> nat) option \<Rightarrow> nat \<Rightarrow> (nat \<times> nat) option" where
  "update_utt_range utt_range reference_idx =
     (case utt_range of
        Some (min_idx, max_idx) \<Rightarrow>
          Some (if reference_idx < min_idx then reference_idx else min_idx,
                if reference_idx > max_idx then reference_idx else max_idx)
      | None \<Rightarrow> Some (reference_idx, reference_idx))"

definition note_match ::
  "nat list \<Rightarrow> (nat \<times> nat) option list \<Rightarrow> nat \<times> nat \<Rightarrow> (nat \<times> nat) option list" where
  "note_match word_to_utt ranges m =
     (let utt_idx = word_to_utt ! fst m
      in ranges[utt_idx := update_utt_range (ranges ! utt_idx) (snd m)])"

definition collect_utt_ranges_from_match_indices ::
  "nat list \<Rightarrow> nat list \<Rightarrow> nat \<Rightarrow> (nat \<times> nat) option list" where
  "collect_utt_ranges_from_match_indices matched word_to_utt utt_count =
     foldl (note_match word_to_utt) (replicate utt_count None) (enumerate 0 matched)"

fun result_match :: "AlignResult \<Rightarrow> (nat \<times> nat) option" where
  "result_match (AlMatch k i j) = Some (i, j)"
| "result_match _ = None"

definition collect_utt_ranges_from_alignment ::
  "AlignResult list \<Rightarrow> nat list \<Rightarrow> nat \<Rightarrow> (nat \<times> nat) option list" where
  "collect_utt_ranges_from_alignment alignment word_to_utt utt_count =
     foldl (note_match word_to_utt) (replicate utt_count None) (List.map_filter result_match alignment)"

definition try_unique_exact_subsequence_ranges ::
  "rstr list \<Rightarrow> rstr list \<Rightarrow> nat list \<Rightarrow> nat \<Rightarrow> (nat \<times> nat) option list option" where
  "try_unique_exact_subsequence_ranges all_words asr_texts word_to_utt utt_count =
     (case greedy_forward_match_indices all_words asr_texts of
        None \<Rightarrow> None
      | Some earliest \<Rightarrow>
          (case greedy_reverse_match_indices all_words asr_texts of
             None \<Rightarrow> None
           | Some latest \<Rightarrow>
               if earliest \<noteq> latest then None
               else Some (collect_utt_ranges_from_match_indices earliest word_to_utt utt_count)))"

definition plan_utr_alignment ::
  "(rstr \<Rightarrow> rstr) \<Rightarrow> (rstr \<Rightarrow> rstr \<Rightarrow> rat) \<Rightarrow> rstr list \<Rightarrow> rstr list \<Rightarrow> nat list \<Rightarrow> nat \<Rightarrow> MatchMode \<Rightarrow>
   UtrAlignmentPlan option" where
  "plan_utr_alignment lower jaro all_words asr_texts word_to_utt utt_count mode =
     (case (if mode = MmExact \<or> mode = MmCaseInsensitive
            then try_unique_exact_subsequence_ranges all_words asr_texts word_to_utt utt_count
            else None) of
        Some ranges \<Rightarrow> Some \<lparr>up_strategy = UsUniqueExactSubsequence, up_utt_ranges = ranges\<rparr>
      | None \<Rightarrow>
          map_option (\<lambda>alignment.
            \<lparr>up_strategy = UsGlobalDp,
             up_utt_ranges = collect_utt_ranges_from_alignment alignment word_to_utt utt_count\<rparr>)
            (align lower jaro all_words asr_texts mode))"

section \<open>The global pass\<close>

text \<open>The flattened words with the utterance each comes from.\<close>

definition flatten_words :: "bool \<Rightarrow> UtrUtteranceInfo list \<Rightarrow> (rstr \<times> nat) list" where
  "flatten_words skip_lazy_overlap infos =
     concat (map (\<lambda>(utt_idx, info).
       if skip_lazy_overlap \<and> (ui_has_lazy_overlap info \<or> ui_has_ca_overlap info) then []
       else map (\<lambda>w. (w, utt_idx)) (ui_words info)) (enumerate 0 infos))"

definition range_bullet ::
  "AsrTimingToken list \<Rightarrow> UtrUtteranceInfo \<Rightarrow> (nat \<times> nat) option \<Rightarrow> TimeSpan option" where
  "range_bullet asr_tokens info rng =
     (if ui_has_bullet info then None
      else map_option (\<lambda>(min_asr, max_asr).
             time_span (at_start_ms (asr_tokens ! min_asr)) (at_end_ms (asr_tokens ! max_asr))) rng)"

definition count_outcome ::
  "UtrResult \<Rightarrow> UtrUtteranceInfo \<times> (nat \<times> nat) option \<Rightarrow> UtrResult" where
  "count_outcome r p =
     (case p of (info, rng) \<Rightarrow>
        if ui_has_bullet info then r\<lparr>ur_skipped := ur_skipped r + 1\<rparr>
        else case rng of Some _ \<Rightarrow> r\<lparr>ur_injected := ur_injected r + 1\<rparr>
             | None \<Rightarrow> r\<lparr>ur_unmatched := ur_unmatched r + 1\<rparr>)"

definition utr_result0 :: UtrResult where
  "utr_result0 = \<lparr>ur_injected = 0, ur_skipped = 0, ur_unmatched = 0\<rparr>"

fun set_bullets :: "TimeSpan option list \<Rightarrow> ('r, 'o) fa_file \<Rightarrow> ('r, 'o) fa_file" where
  "set_bullets bs [] = []"
| "set_bullets bs (ClOther l # ls) = ClOther l # set_bullets bs ls"
| "set_bullets [] (ClUtterance u # ls) = ClUtterance u # set_bullets [] ls"
| "set_bullets (b # bs) (ClUtterance u # ls) =
     ClUtterance (case b of Some s \<Rightarrow> u\<lparr>cu_bullet := Some s\<rparr> | None \<Rightarrow> u) # set_bullets bs ls"

definition run_global_utr ::
  "marker_reader \<Rightarrow> (rstr \<Rightarrow> rstr) \<Rightarrow> (rstr \<Rightarrow> rstr \<Rightarrow> rat) \<Rightarrow> ('r, 'o) fa_file \<Rightarrow>
   AsrTimingToken list \<Rightarrow> bool \<Rightarrow> MatchMode \<Rightarrow> (('r, 'o) fa_file \<times> UtrResult) option" where
  "run_global_utr markers lower jaro f asr_tokens skip_lazy_overlap mode =
     (if asr_tokens = [] then
        Some (f, foldl (\<lambda>r u. if cu_bullet u \<noteq> None then r\<lparr>ur_skipped := ur_skipped r + 1\<rparr>
                              else r\<lparr>ur_unmatched := ur_unmatched r + 1\<rparr>) utr_result0 (utterances f))
      else
        (let infos = collect_utr_utterance_info markers f;
             flat = flatten_words skip_lazy_overlap infos
         in map_option (\<lambda>plan.
              (set_bullets (map2 (range_bullet asr_tokens) infos (up_utt_ranges plan)) f,
               foldl count_outcome utr_result0 (zip infos (up_utt_ranges plan))))
              (plan_utr_alignment lower jaro (map fst flat) (map at_text asr_tokens) (map snd flat)
                 (length infos) mode)))"

section \<open>Cache keys and windows\<close>

definition utr_asr_cache_key :: "(rstr \<Rightarrow> rstr) \<Rightarrow> rstr \<Rightarrow> rstr \<Rightarrow> rstr" where
  "utr_asr_cache_key hash audio_identity lang =
     hash (lit ''utr_asr|'' @ audio_identity @ lit ''|'' @ lang)"

definition utr_asr_segment_cache_key :: "(rstr \<Rightarrow> rstr) \<Rightarrow> rstr \<Rightarrow> nat \<Rightarrow> nat \<Rightarrow> rstr \<Rightarrow> rstr" where
  "utr_asr_segment_cache_key hash audio_identity start_ms end_ms lang =
     hash (lit ''utr_asr_segment|'' @ audio_identity @ lit ''|'' @ show_nat start_ms @ lit ''|''
           @ show_nat end_ms @ lit ''|'' @ lang)"

text \<open>\<open>prev_end\<close> is the end of the nearest timed utterance before the list.\<close>

function raw_windows :: "nat \<Rightarrow> nat \<Rightarrow> nat \<Rightarrow> TimeSpan option list \<Rightarrow> (nat \<times> nat) list" where
  "raw_windows total_ms padding prev_end [] = []"
| "raw_windows total_ms padding prev_end (Some s # bs) = raw_windows total_ms padding (ts_end s) bs"
| "raw_windows total_ms padding prev_end (None # bs) =
     (let after = dropWhile (\<lambda>b. b = None) bs;
          window_end = (case after of Some s # _ \<Rightarrow> ts_start s | _ \<Rightarrow> total_ms)
      in (sat_sub prev_end padding, min (u64_add window_end padding) total_ms)
         # raw_windows total_ms padding prev_end after)"
  by pat_completeness auto

termination raw_windows
  by (relation "measure (\<lambda>(_, _, _, bs). length bs)") (auto simp: less_Suc_eq_le length_dropWhile_le)

fun merge_windows :: "nat \<times> nat \<Rightarrow> (nat \<times> nat) list \<Rightarrow> (nat \<times> nat) list" where
  "merge_windows cur [] = [cur]"
| "merge_windows cur (w # ws) =
     (if fst w \<le> snd cur then merge_windows (fst cur, max (snd cur) (snd w)) ws
      else cur # merge_windows w ws)"

definition find_untimed_windows ::
  "('c, 'r, 'o) ChatLine list \<Rightarrow> nat \<Rightarrow> nat \<Rightarrow> (nat \<times> nat) list" where
  "find_untimed_windows f total_audio_ms padding_ms =
     (case sort_key fst (raw_windows total_audio_ms padding_ms 0 (map cu_bullet (utterances f))) of
        [] \<Rightarrow> []
      | w # ws \<Rightarrow> merge_windows w ws)"

section \<open>Two passes (\<open>two_pass.rs\<close>)\<close>

record GroupingContext =
  gc_total_audio_ms :: nat
  gc_max_group_ms :: nat

datatype CaMarkerPolicy = CmEnabled | CmDisabled

fun ca_is_enabled :: "CaMarkerPolicy \<Rightarrow> bool" where
  "ca_is_enabled CmEnabled = True"
| "ca_is_enabled CmDisabled = False"

datatype UtrMatchMode = UmExact | UmFuzzy rat

fun to_dp_match_mode :: "UtrMatchMode \<Rightarrow> MatchMode" where
  "to_dp_match_mode UmExact = MmCaseInsensitive"
| "to_dp_match_mode (UmFuzzy threshold) = MmFuzzy threshold"

record TwoPassConfig =
  tp_ca_markers :: CaMarkerPolicy
  tp_max_exclusion_density :: rat
  tp_tight_buffer_ms :: nat
  tp_match_mode :: UtrMatchMode

definition two_pass_config_default :: TwoPassConfig where
  "two_pass_config_default =
     \<lparr>tp_ca_markers = CmEnabled, tp_max_exclusion_density = 3 / 10, tp_tight_buffer_ms = 500,
      tp_match_mode = UmFuzzy (85 / 100)\<rparr>"

definition recover_overlap_timing ::
  "(rstr \<Rightarrow> rstr) \<Rightarrow> (rstr \<Rightarrow> rstr \<Rightarrow> rat) \<Rightarrow> rstr list \<Rightarrow> AsrTimingToken list \<Rightarrow> nat \<Rightarrow> nat \<Rightarrow>
   MatchMode \<Rightarrow> TimeSpan option option" where
  "recover_overlap_timing lower jaro ws asr_tokens window_start_ms window_end_ms mode =
     (let windowed = filter (\<lambda>t. at_start_ms t < window_end_ms \<and> at_end_ms t > window_start_ms) asr_tokens
      in if windowed = [] then Some None
         else map_option (\<lambda>alignment.
                let matched = map (\<lambda>(i, j). windowed ! j) (List.map_filter result_match alignment)
                in case span_extrema (map (\<lambda>t. time_span (at_start_ms t) (at_end_ms t)) matched) of
                     (Some start, Some stop) \<Rightarrow> Some (time_span start stop)
                   | _ \<Rightarrow> None)
                (align lower jaro ws (map at_text windowed) mode))"

definition find_predecessor_bullet :: "nat \<Rightarrow> TimeSpan option list \<Rightarrow> TimeSpan option" where
  "find_predecessor_bullet utt_idx bullets =
     (case filter (\<lambda>b. b \<noteq> None) (rev (take utt_idx bullets)) of b # _ \<Rightarrow> b | [] \<Rightarrow> None)"

text \<open>The first loop: the preceding utterances, the nearest one first.\<close>

fun onset_by_index ::
  "rstr \<Rightarrow> nat option list \<Rightarrow> UtrUtteranceInfo list \<Rightarrow> rat option" where
  "onset_by_index speaker bottom [] = None"
| "onset_by_index speaker bottom (prev # prevs) =
     (if ui_speaker prev = speaker then onset_by_index speaker bottom prevs
      else case filter (\<lambda>(top, _). bottom = [] \<or> top \<in> set bottom) (ui_top_onsets prev) of
             (_, fraction) # _ \<Rightarrow> Some fraction
           | [] \<Rightarrow> if ui_has_bullet prev then None else onset_by_index speaker bottom prevs)"

fun onset_of_any :: "UtrUtteranceInfo list \<Rightarrow> rat option" where
  "onset_of_any [] = None"
| "onset_of_any (prev # prevs) =
     (case ui_overlap_onset_fraction prev of
        Some fraction \<Rightarrow> Some fraction
      | None \<Rightarrow> if ui_has_bullet prev then None else onset_of_any prevs)"

definition find_predecessor_onset_fraction :: "nat \<Rightarrow> UtrUtteranceInfo list \<Rightarrow> rat option" where
  "find_predecessor_onset_fraction utt_idx infos =
     (let current = infos ! utt_idx; prevs = rev (take utt_idx infos) in
      case onset_by_index (ui_speaker current) (ui_bottom_indices current) prevs of
        Some fraction \<Rightarrow> Some fraction
      | None \<Rightarrow> if ui_bottom_indices current = [] then onset_of_any prevs else None)"

fun try_buffers ::
  "(nat \<Rightarrow> nat \<Rightarrow> TimeSpan option option) \<Rightarrow> nat \<Rightarrow> nat \<Rightarrow> nat list \<Rightarrow> TimeSpan option option" where
  "try_buffers recover anchor_start pred_end [] = Some None"
| "try_buffers recover anchor_start pred_end (b # bs) =
     (case recover (sat_sub anchor_start b) (u64_add pred_end b) of
        None \<Rightarrow> None
      | Some (Some timing) \<Rightarrow> Some (Some timing)
      | Some None \<Rightarrow> try_buffers recover anchor_start pred_end bs)"

definition recover_with_adaptive_window ::
  "(rstr \<Rightarrow> rstr) \<Rightarrow> (rstr \<Rightarrow> rstr \<Rightarrow> rat) \<Rightarrow> rstr list \<Rightarrow> AsrTimingToken list \<Rightarrow> nat \<Rightarrow>
   TimeSpan option list \<Rightarrow> rat option \<Rightarrow> TwoPassConfig \<Rightarrow> TimeSpan option option" where
  "recover_with_adaptive_window lower jaro ws asr_tokens utt_idx bullets pred_onset config =
     (case find_predecessor_bullet utt_idx bullets of
        None \<Rightarrow> Some None
      | Some p \<Rightarrow>
          (let pred_duration = sat_sub (ts_end p) (ts_start p);
               anchor_start = (case pred_onset of
                   Some fraction \<Rightarrow>
                     u64_add (ts_start p) (min (nat \<lfloor>fraction * of_nat pred_duration\<rfloor>) u64_max)
                 | None \<Rightarrow> ts_start p)
           in try_buffers
                (\<lambda>lo hi. recover_overlap_timing lower jaro ws asr_tokens lo hi
                           (to_dp_match_mode (tp_match_mode config)))
                anchor_start (ts_end p)
                [tp_tight_buffer_ms config, max pred_duration 2000,
                 max ((pred_duration * 2) mod 2 ^ 64) 5000]))"

definition is_overlap :: "TwoPassConfig \<Rightarrow> UtrUtteranceInfo \<Rightarrow> bool" where
  "is_overlap config i \<longleftrightarrow>
     ui_has_lazy_overlap i \<or> (ca_is_enabled (tp_ca_markers config) \<and> ui_has_ca_overlap i)"

definition skip_in_pass1 :: "TwoPassConfig \<Rightarrow> UtrUtteranceInfo list \<Rightarrow> bool" where
  "skip_in_pass1 config infos \<longleftrightarrow>
     (if length infos > 0
      then (of_nat (length (filter (is_overlap config) infos)) / of_nat (length infos) :: rat)
      else 0) \<le> tp_max_exclusion_density config"

definition u64_dec :: "nat \<Rightarrow> nat" where
  "u64_dec n = (if n = 0 then u64_max else n - 1)"

text \<open>The second pass over the utterances, from index \<open>utt_idx\<close> on.\<close>

fun pass2 ::
  "(nat \<Rightarrow> UtrUtteranceInfo \<Rightarrow> TimeSpan option option) \<Rightarrow> TwoPassConfig \<Rightarrow> nat \<Rightarrow>
   UtrUtteranceInfo list \<Rightarrow> UtrResult \<Rightarrow> (TimeSpan option list \<times> UtrResult) option" where
  "pass2 recover config utt_idx [] r = Some ([], r)"
| "pass2 recover config utt_idx (i # is) r =
     (if \<not> is_overlap config i \<or> ui_has_bullet i \<or> ui_words i = []
      then map_option (apfst ((#) None)) (pass2 recover config (Suc utt_idx) is r)
      else case recover utt_idx i of
             None \<Rightarrow> None
           | Some None \<Rightarrow> map_option (apfst ((#) None)) (pass2 recover config (Suc utt_idx) is r)
           | Some (Some s) \<Rightarrow>
               map_option (apfst ((#) (Some s))) (pass2 recover config (Suc utt_idx) is
                 (r\<lparr>ur_unmatched := u64_dec (ur_unmatched r), ur_injected := ur_injected r + 1\<rparr>)))"

definition run_two_pass_inner ::
  "marker_reader \<Rightarrow> (rstr \<Rightarrow> rstr) \<Rightarrow> (rstr \<Rightarrow> rstr \<Rightarrow> rat) \<Rightarrow> ('r, 'o) fa_file \<Rightarrow>
   AsrTimingToken list \<Rightarrow> TwoPassConfig \<Rightarrow> (('r, 'o) fa_file \<times> UtrResult) option" where
  "run_two_pass_inner markers lower jaro f asr_tokens config =
     (case run_global_utr markers lower jaro f asr_tokens
             (skip_in_pass1 config (collect_utr_utterance_info markers f))
             (to_dp_match_mode (tp_match_mode config)) of
        None \<Rightarrow> None
      | Some (f1, r1) \<Rightarrow>
          if asr_tokens = [] then Some (f1, r1)
          else
            (let infos = collect_utr_utterance_info markers f1;
                 bullets = map cu_bullet (utterances f1);
                 recover = (\<lambda>utt_idx info.
                   recover_with_adaptive_window lower jaro (ui_words info) asr_tokens utt_idx bullets
                     (if ca_is_enabled (tp_ca_markers config)
                      then find_predecessor_onset_fraction utt_idx infos else None) config)
             in map_option (\<lambda>(bs, r). (set_bullets bs f1, r)) (pass2 recover config 0 infos r1)))"

definition count_timed_utterances :: "('c, 'r, 'o) ChatLine list \<Rightarrow> nat" where
  "count_timed_utterances f = length (filter (\<lambda>u. cu_bullet u \<noteq> None) (utterances f))"

definition prefer_two_pass ::
  "GroupingContext option \<Rightarrow> ('r, 'o) fa_file \<Rightarrow> ('r, 'o) fa_file \<Rightarrow> bool" where
  "prefer_two_pass grouping_context two_pass_file global_file =
     (let by_timed = count_timed_utterances two_pass_file \<ge> count_timed_utterances global_file in
      case grouping_context of
        Some ctx \<Rightarrow>
          (let two_pass_groups = length (group_utterances two_pass_file (gc_max_group_ms ctx)
                                           (Some (gc_total_audio_ms ctx)));
               global_groups = length (group_utterances global_file (gc_max_group_ms ctx)
                                         (Some (gc_total_audio_ms ctx)))
           in if two_pass_groups \<noteq> global_groups then two_pass_groups \<ge> global_groups else by_timed)
      | None \<Rightarrow> by_timed)"

definition two_pass_inject ::
  "marker_reader \<Rightarrow> (rstr \<Rightarrow> rstr) \<Rightarrow> (rstr \<Rightarrow> rstr \<Rightarrow> rat) \<Rightarrow> GroupingContext option \<Rightarrow>
   TwoPassConfig \<Rightarrow> ('r, 'o) fa_file \<Rightarrow> AsrTimingToken list \<Rightarrow> (('r, 'o) fa_file \<times> UtrResult) option" where
  "two_pass_inject markers lower jaro grouping_context config f asr_tokens =
     (case run_two_pass_inner markers lower jaro f asr_tokens config of
        None \<Rightarrow> None
      | Some (two_pass_file, two_pass_result) \<Rightarrow>
          (case run_global_utr markers lower jaro f asr_tokens False
                  (to_dp_match_mode (tp_match_mode config)) of
             None \<Rightarrow> None
           | Some (global_file, global_result) \<Rightarrow>
               Some (if prefer_two_pass grouping_context two_pass_file global_file
                     then (two_pass_file, two_pass_result) else (global_file, global_result))))"

datatype UtrStrategy = StGlobalUtr | StTwoPassOverlapUtr "GroupingContext option" TwoPassConfig

definition select_strategy ::
  "marker_reader \<Rightarrow> ('r, 'o) fa_file \<Rightarrow> GroupingContext option \<Rightarrow> UtrStrategy" where
  "select_strategy markers f grouping_context =
     (if list_ex (\<lambda>u. cu_lazy_overlap u \<or> oi_has_bottom_overlap (markers (cu_content u))) (utterances f)
      then StTwoPassOverlapUtr grouping_context two_pass_config_default
      else StGlobalUtr)"

fun strategy_inject ::
  "marker_reader \<Rightarrow> (rstr \<Rightarrow> rstr) \<Rightarrow> (rstr \<Rightarrow> rstr \<Rightarrow> rat) \<Rightarrow> UtrStrategy \<Rightarrow> ('r, 'o) fa_file \<Rightarrow>
   AsrTimingToken list \<Rightarrow> (('r, 'o) fa_file \<times> UtrResult) option" where
  "strategy_inject markers lower jaro StGlobalUtr f asr_tokens =
     run_global_utr markers lower jaro f asr_tokens False MmCaseInsensitive"
| "strategy_inject markers lower jaro (StTwoPassOverlapUtr ctx config) f asr_tokens =
     two_pass_inject markers lower jaro ctx config f asr_tokens"

definition inject_utr_timing ::
  "marker_reader \<Rightarrow> (rstr \<Rightarrow> rstr) \<Rightarrow> (rstr \<Rightarrow> rstr \<Rightarrow> rat) \<Rightarrow> ('r, 'o) fa_file \<Rightarrow>
   AsrTimingToken list \<Rightarrow> (('r, 'o) fa_file \<times> UtrResult) option" where
  "inject_utr_timing markers lower jaro f asr_tokens =
     strategy_inject markers lower jaro StGlobalUtr f asr_tokens"

end
