(* ===== verification/Utr_Correct.thy ===== *)
theory Utr_Correct
  imports Utr
begin

text \<open>
  Properties of utterance timing recovery: when the fast path is taken, the order of the recovered
  ranges, the totals of a pass, the windows that are sent to the recognizer.
\<close>

section \<open>Embeddings of the transcript into the token stream\<close>

definition embedding :: "rstr list \<Rightarrow> rstr list \<Rightarrow> nat list \<Rightarrow> bool" where
  "embedding ps rs js \<longleftrightarrow> sorted_wrt (<) js \<and>
     list_all2 (\<lambda>w j. j < length rs \<and> eq_ignore_ascii_case w (rs ! j)) ps js"

text \<open>From position \<open>n\<close> on, and in reverse below position \<open>n\<close>.\<close>

definition embeds_from :: "nat \<Rightarrow> rstr list \<Rightarrow> rstr list \<Rightarrow> nat list \<Rightarrow> bool" where
  "embeds_from n ps rs js \<longleftrightarrow> sorted_wrt (<) js \<and>
     list_all2 (\<lambda>w j. n \<le> j \<and> j < length rs \<and> eq_ignore_ascii_case w (rs ! j)) ps js"

definition embeds_below :: "nat \<Rightarrow> rstr list \<Rightarrow> rstr list \<Rightarrow> nat list \<Rightarrow> bool" where
  "embeds_below n ps rs js \<longleftrightarrow> sorted_wrt (>) js \<and>
     list_all2 (\<lambda>w j. j < n \<and> eq_ignore_ascii_case w (rs ! j)) ps js"

lemma embeds_from_Cons:
  "embeds_from n (w # ps) rs ks \<longleftrightarrow>
     (\<exists>k ks'. ks = k # ks' \<and> n \<le> k \<and> k < length rs \<and> eq_ignore_ascii_case w (rs ! k) \<and>
        embeds_from (Suc k) ps rs ks')"
proof -
  have "list_all2 (\<lambda>w j. n \<le> j \<and> j < length rs \<and> eq_ignore_ascii_case w (rs ! j)) ps ks \<and>
      list_all ((<) k) ks \<longleftrightarrow>
    list_all2 (\<lambda>w j. Suc k \<le> j \<and> j < length rs \<and> eq_ignore_ascii_case w (rs ! j)) ps ks"
    if "n \<le> k" for k ks
  proof (induction ps arbitrary: ks)
    case (Cons p ps)
    show ?case using Cons [of "tl ks"] that by (cases ks) auto
  qed auto
  then show ?thesis
    by (cases ks) (auto simp: embeds_from_def list_all_iff)
qed

lemma embeds_below_Cons:
  "embeds_below n (w # ps) rs ks \<longleftrightarrow>
     (\<exists>k ks'. ks = k # ks' \<and> k < n \<and> eq_ignore_ascii_case w (rs ! k) \<and> embeds_below k ps rs ks')"
proof -
  have "list_all2 (\<lambda>w j. j < n \<and> eq_ignore_ascii_case w (rs ! j)) ps ks \<and> list_all (\<lambda>j. j < k) ks \<longleftrightarrow>
    list_all2 (\<lambda>w j. j < k \<and> eq_ignore_ascii_case w (rs ! j)) ps ks"
    if "k < n" for k ks
  proof (induction ps arbitrary: ks)
    case (Cons p ps)
    show ?case using Cons [of "tl ks"] that by (cases ks) auto
  qed auto
  then show ?thesis
    by (cases ks) (auto simp: embeds_below_def list_all_iff)
qed

lemma embeds_from_mono: "embeds_from m ps rs ks \<Longrightarrow> n \<le> m \<Longrightarrow> embeds_from n ps rs ks"
  unfolding embeds_from_def by (auto elim: list_all2_mono)

lemma embeds_below_mono: "embeds_below m ps rs ks \<Longrightarrow> m \<le> n \<Longrightarrow> embeds_below n ps rs ks"
  unfolding embeds_below_def by (auto elim: list_all2_mono)

lemma first_match:
  assumes "length (takeWhile (\<lambda>r. \<not> P r) xs) < length xs"
  shows "P (xs ! length (takeWhile (\<lambda>r. \<not> P r) xs))"
    and "i < length xs \<Longrightarrow> P (xs ! i) \<Longrightarrow> length (takeWhile (\<lambda>r. \<not> P r) xs) \<le> i"
proof -
  show "P (xs ! length (takeWhile (\<lambda>r. \<not> P r) xs))" using nth_length_takeWhile [OF assms] by simp
  show "length (takeWhile (\<lambda>r. \<not> P r) xs) \<le> i" if "i < length xs" "P (xs ! i)"
  proof (rule ccontr)
    assume "\<not> ?thesis"
    then have "i < length (takeWhile (\<lambda>r. \<not> P r) xs)" by simp
    then have "xs ! i \<in> set (takeWhile (\<lambda>r. \<not> P r) xs)" by (metis nth_mem takeWhile_nth)
    with that show False by (auto dest: set_takeWhileD)
  qed
qed

lemma no_match: "length (takeWhile (\<lambda>r. \<not> P r) xs) = length xs \<Longrightarrow> x \<in> set xs \<Longrightarrow> \<not> P x"
  by (metis takeWhile_eq_take take_all_iff order_refl set_takeWhileD)

lemma greedy_forward_none:
  "greedy_forward ps n (drop n rs) = None \<Longrightarrow> \<not> embeds_from n ps rs ks"
proof (induction ps arbitrary: n ks)
  case (Cons w ps)
  let ?P = "\<lambda>r. eq_ignore_ascii_case w r"
  let ?sk = "length (takeWhile (\<lambda>r. \<not> ?P r) (drop n rs))"
  show ?case
  proof
    assume "embeds_from n (w # ps) rs ks"
    then obtain k ks' where k: "n \<le> k" "k < length rs" "?P (rs ! k)" "embeds_from (Suc k) ps rs ks'"
      by (auto simp: embeds_from_Cons)
    then have in_drop: "drop n rs ! (k - n) = rs ! k" "k - n < length (drop n rs)" by auto
    show False
    proof (cases "?sk = length (drop n rs)")
      case True
      with no_match [OF True] in_drop k(3) show False by (metis nth_mem)
    next
      case False
      then have sk: "?sk < length (drop n rs)" by (meson length_takeWhile_le nat_less_le)
      have "?sk \<le> k - n" by (rule first_match(2) [OF sk]) (use in_drop k in auto)
      then have "embeds_from (Suc (n + ?sk)) ps rs ks'"
        using k(1) by (intro embeds_from_mono [OF k(4)]) auto
      moreover have "greedy_forward ps (Suc (n + ?sk)) (drop (Suc (n + ?sk)) rs) = None"
        using Cons.prems False by (simp add: Let_def add.commute)
      ultimately show False using Cons.IH by blast
    qed
  qed
qed simp

lemma greedy_forward_some:
  "greedy_forward ps n (drop n rs) = Some js \<Longrightarrow>
   embeds_from n ps rs js \<and> (\<forall>ks. embeds_from n ps rs ks \<longrightarrow> list_all2 (\<le>) js ks)"
proof (induction ps arbitrary: n js)
  case Nil
  then show ?case by (auto simp: embeds_from_def)
next
  case (Cons w ps)
  let ?P = "\<lambda>r. eq_ignore_ascii_case w r"
  let ?sk = "length (takeWhile (\<lambda>r. \<not> ?P r) (drop n rs))"
  have ne: "?sk \<noteq> length (drop n rs)" using Cons.prems by (auto simp: Let_def)
  then have sk: "?sk < length (drop n rs)" by (meson length_takeWhile_le nat_less_le)
  obtain js' where js: "js = (n + ?sk) # js'"
    and rec: "greedy_forward ps (Suc (n + ?sk)) (drop (Suc (n + ?sk)) rs) = Some js'"
    using Cons.prems ne by (auto simp: Let_def add.commute)
  have hit: "?P (rs ! (n + ?sk))" "n + ?sk < length rs"
    using first_match(1) [OF sk] sk by simp_all
  note IH = Cons.IH [OF rec]
  have "list_all2 (\<le>) js ks" if emb: "embeds_from n (w # ps) rs ks" for ks
  proof -
    obtain k ks' where k: "ks = k # ks'" "n \<le> k" "k < length rs" "?P (rs ! k)"
      "embeds_from (Suc k) ps rs ks'" using emb by (auto simp: embeds_from_Cons)
    have "?sk \<le> k - n" by (rule first_match(2) [OF sk]) (use k in auto)
    then have "n + ?sk \<le> k" "embeds_from (Suc (n + ?sk)) ps rs ks'"
      using k(2) embeds_from_mono [OF k(5), of "Suc (n + ?sk)"] by auto
    then show ?thesis using IH k(1) js by simp
  qed
  then show ?case using IH hit js by (auto simp: embeds_from_Cons)
qed

lemma drop_rev_take: "n \<le> length rs \<Longrightarrow> drop k (rev (take n rs)) = rev (take (n - k) rs)"
  by (simp add: drop_rev min_absorb2)

lemma greedy_backward_none:
  "greedy_backward ps n (rev (take n rs)) = None \<Longrightarrow> n \<le> length rs \<Longrightarrow> \<not> embeds_below n ps rs ks"
proof (induction ps arbitrary: n ks)
  case (Cons w ps)
  let ?P = "\<lambda>r. eq_ignore_ascii_case w r"
  let ?rt = "rev (take n rs)"
  let ?sk = "length (takeWhile (\<lambda>r. \<not> ?P r) ?rt)"
  show ?case
  proof
    assume "embeds_below n (w # ps) rs ks"
    then obtain k ks' where k: "k < n" "?P (rs ! k)" "embeds_below k ps rs ks'"
      by (auto simp: embeds_below_Cons)
    then have in_rt: "?rt ! (n - 1 - k) = rs ! k" "n - 1 - k < length ?rt"
      using Cons.prems(2) by (auto simp: rev_nth)
    show False
    proof (cases "?sk = length ?rt")
      case True
      with no_match [OF True] in_rt k(2) show False by (metis nth_mem)
    next
      case False
      then have sk: "?sk < length ?rt" by (meson length_takeWhile_le nat_less_le)
      have "?sk \<le> n - 1 - k" by (rule first_match(2) [OF sk]) (use in_rt k in auto)
      then have "embeds_below (n - ?sk - 1) ps rs ks'"
        using k(1) by (intro embeds_below_mono [OF k(3)]) auto
      moreover have "greedy_backward ps (n - ?sk - 1) (rev (take (n - ?sk - 1) rs)) = None"
        using Cons.prems False by (simp add: Let_def drop_rev_take del: length_rev length_take)
      ultimately show False using Cons.IH Cons.prems(2) by fastforce
    qed
  qed
qed simp

lemma greedy_backward_some:
  "greedy_backward ps n (rev (take n rs)) = Some js \<Longrightarrow> n \<le> length rs \<Longrightarrow>
   embeds_below n ps rs js \<and> (\<forall>ks. embeds_below n ps rs ks \<longrightarrow> list_all2 (\<ge>) js ks)"
proof (induction ps arbitrary: n js)
  case Nil
  then show ?case by (auto simp: embeds_below_def)
next
  case (Cons w ps)
  let ?P = "\<lambda>r. eq_ignore_ascii_case w r"
  let ?rt = "rev (take n rs)"
  let ?sk = "length (takeWhile (\<lambda>r. \<not> ?P r) ?rt)"
  have ne: "?sk \<noteq> length ?rt" using Cons.prems by (auto simp: Let_def)
  then have sk: "?sk < length ?rt" by (meson length_takeWhile_le nat_less_le)
  obtain js' where js: "js = (n - ?sk - 1) # js'"
    and rec: "greedy_backward ps (n - ?sk - 1) (rev (take (n - ?sk - 1) rs)) = Some js'"
    using Cons.prems ne by (auto simp: Let_def drop_rev_take simp del: length_rev length_take)
  have "?sk < n" using sk by simp
  then have hit: "?P (rs ! (n - ?sk - 1))" "n - ?sk - 1 < n"
    using first_match(1) [OF sk] sk Cons.prems(2) by (auto simp: rev_nth)
  note IH = Cons.IH [OF rec]
  have "list_all2 (\<ge>) js ks" if emb: "embeds_below n (w # ps) rs ks" for ks
  proof -
    obtain k ks' where k: "ks = k # ks'" "k < n" "?P (rs ! k)"
      "embeds_below k ps rs ks'" using emb by (auto simp: embeds_below_Cons)
    have "?sk \<le> n - 1 - k"
      by (rule first_match(2) [OF sk]) (use k Cons.prems(2) in \<open>auto simp: rev_nth\<close>)
    then have "k \<le> n - ?sk - 1" "embeds_below (n - ?sk - 1) ps rs ks'"
      using k(2) embeds_below_mono [OF k(4), of "n - ?sk - 1"] by auto
    then show ?thesis using IH k(1) js Cons.prems(2) by simp
  qed
  then show ?case using IH hit js Cons.prems(2) by (auto simp: embeds_below_Cons)
qed

lemma embedding_from: "embedding ps rs js \<longleftrightarrow> embeds_from 0 ps rs js"
  by (simp add: embedding_def embeds_from_def)

lemma embedding_below: "embedding ps rs js \<longleftrightarrow> embeds_below (length rs) (rev ps) rs (rev js)"
  by (simp add: embedding_def embeds_below_def sorted_wrt_rev)

lemma greedy_extremes:
  "case greedy_forward_match_indices ps rs of
     None \<Rightarrow> \<not> embedding ps rs ks
   | Some e \<Rightarrow> embedding ps rs e \<and> (embedding ps rs ks \<longrightarrow> list_all2 (\<le>) e ks)"
  "case greedy_reverse_match_indices ps rs of
     None \<Rightarrow> \<not> embedding ps rs ks
   | Some l \<Rightarrow> embedding ps rs l \<and> (embedding ps rs ks \<longrightarrow> list_all2 (\<le>) ks l)"
proof -
  show "case greedy_forward_match_indices ps rs of
     None \<Rightarrow> \<not> embedding ps rs ks
   | Some e \<Rightarrow> embedding ps rs e \<and> (embedding ps rs ks \<longrightarrow> list_all2 (\<le>) e ks)"
    using greedy_forward_some [of ps 0 rs] greedy_forward_none [of ps 0 rs ks]
    by (auto simp: greedy_forward_match_indices_def embedding_from split: option.split)
  have "list_all2 (\<ge>) l (rev ks) \<longleftrightarrow> list_all2 (\<le>) ks (rev l)" for l :: "nat list"
    by (subst list_all2_rev [symmetric]) (simp add: list_all2_conv_all_nth, metis)
  then show "case greedy_reverse_match_indices ps rs of
     None \<Rightarrow> \<not> embedding ps rs ks
   | Some l \<Rightarrow> embedding ps rs l \<and> (embedding ps rs ks \<longrightarrow> list_all2 (\<le>) ks l)"
    using greedy_backward_some [of "rev ps" "length rs" rs] greedy_backward_none [of "rev ps" "length rs" rs "rev ks"]
    by (auto simp: greedy_reverse_match_indices_def embedding_below split: option.split)
qed

lemma list_all2_le_antisym: "list_all2 (\<le>) xs ys \<Longrightarrow> list_all2 (\<le>) ys xs \<Longrightarrow> xs = (ys :: nat list)"
  by (auto simp: list_all2_conv_all_nth intro!: nth_equalityI le_antisym)

text \<open>
  C36: The fast path is sound and complete: it is taken exactly when the words of the transcript embed,
  in order and up to ASCII case, in one and only one way into the recognizer's tokens.
\<close>

theorem utr_fast_path_iff_unique:
  "try_unique_exact_subsequence_ranges ps rs word_to_utt n \<noteq> None \<longleftrightarrow> (\<exists>!js. embedding ps rs js)"
proof (cases "greedy_forward_match_indices ps rs")
  case None
  then show ?thesis using greedy_extremes(1) [of ps rs]
    by (auto simp: try_unique_exact_subsequence_ranges_def)
next
  case e: (Some e)
  show ?thesis
  proof (cases "greedy_reverse_match_indices ps rs")
    case None
    then show ?thesis using greedy_extremes(2) [of ps rs] e
      by (auto simp: try_unique_exact_subsequence_ranges_def)
  next
    case l: (Some l)
    have "e = l \<longleftrightarrow> (\<exists>!js. embedding ps rs js)"
      using greedy_extremes [of ps rs] e l list_all2_le_antisym by (simp, metis)
    then show ?thesis using e l by (simp add: try_unique_exact_subsequence_ranges_def)
  qed
qed

section \<open>Ranges\<close>

text \<open>Pairs of a transcript position and a token position, both increasing.\<close>

definition monotone_matches :: "nat \<Rightarrow> nat \<Rightarrow> (nat \<times> nat) list \<Rightarrow> bool" where
  "monotone_matches np nr ms \<longleftrightarrow>
     sorted_wrt (\<lambda>m m'. fst m < fst m' \<and> snd m < snd m') ms \<and>
     list_all (\<lambda>m. fst m < np \<and> snd m < nr) ms"

lemma embedding_monotone:
  assumes "embedding ps rs js"
  shows "monotone_matches (length ps) (length rs) (enumerate 0 js)"
proof -
  have len: "length js = length ps" and lt: "list_all (\<lambda>j. j < length rs) js" and sorted: "sorted_wrt (<) js"
    using assms by (auto simp: embedding_def list_all2_conv_all_nth list_all_length)
  show ?thesis unfolding monotone_matches_def
  proof
    show "sorted_wrt (\<lambda>m m'. fst m < fst m' \<and> snd m < snd m') (enumerate 0 js)"
      using sorted by (simp add: sorted_wrt_iff_nth_less nth_enumerate_eq)
    show "list_all (\<lambda>m. fst m < length ps \<and> snd m < length rs) (enumerate 0 js)"
      using len lt by (simp add: list_all_length nth_enumerate_eq)
  qed
qed

lemma alignment_matches:
  "aligns mt key ps rs po ro res \<Longrightarrow>
   sorted_wrt (\<lambda>m m'. fst m < fst m' \<and> snd m < snd m') (List.map_filter result_match res) \<and>
   list_all (\<lambda>m. po \<le> fst m \<and> fst m < po + length ps \<and> ro \<le> snd m \<and> snd m < ro + length rs)
     (List.map_filter result_match res)"
  by (induction rule: aligns.induct) (auto simp: list_all_iff List.map_filter_simps)

lemma align_monotone:
  "\<exists>res. align lower jaro ps rs mode = Some res \<and>
     monotone_matches (length ps) (length rs) (List.map_filter result_match res)"
proof -
  let ?m = "string_matches lower jaro mode"
  obtain res where "align lower jaro ps rs mode = Some res"
    "aligns (\<lambda>x y. ?m x y \<or> ?m y x) string_key ps rs 0 0 res"
    using align_generic_result [of ?m "\<lambda>x y. ?m x y \<or> ?m y x" string_key ps rs]
    unfolding align_def by blast
  then show ?thesis using alignment_matches by (fastforce simp: monotone_matches_def list_all_iff)
qed

lemma note_matches:
  "list_all (\<lambda>m. wtu ! fst m < length R) ms \<Longrightarrow>
   length (foldl (note_match wtu) R ms) = length R \<and>
   (\<forall>u < length R. foldl (note_match wtu) R ms ! u =
      foldl update_utt_range (R ! u) (map snd (filter (\<lambda>m. wtu ! fst m = u) ms)))"
proof (induction ms arbitrary: R)
  case (Cons m ms)
  show ?case using Cons.IH [of "note_match wtu R m"] Cons.prems
    by (auto simp: note_match_def Let_def nth_list_update)
qed simp

lemma update_utt_range_simps:
  "update_utt_range None j = Some (j, j)"
  "update_utt_range (Some (a, b)) j = Some (min j a, max j b)"
  by (auto simp: update_utt_range_def)

lemma update_range_Min_Max:
  "foldl update_utt_range None js = (if js = [] then None else Some (Min (set js), Max (set js)))"
proof (induction js rule: rev_induct)
  case (snoc j js)
  then show ?case by (cases "js = []") (simp_all add: update_utt_range_simps)
qed simp

lemma sorted_wrt_two: "sorted_wrt P xs \<Longrightarrow> x \<in> set xs \<Longrightarrow> y \<in> set xs \<Longrightarrow> x = y \<or> P x y \<or> P y x"
  by (induction xs) auto

definition ranges_of :: "nat list \<Rightarrow> nat \<Rightarrow> (nat \<times> nat) list \<Rightarrow> (nat \<times> nat) option list" where
  "ranges_of wtu n ms = foldl (note_match wtu) (replicate n None) ms"

lemma ranges_of_nth:
  assumes "list_all (\<lambda>m. wtu ! fst m < n) ms" "u < n"
  shows "ranges_of wtu n ms ! u =
     (let js = map snd (filter (\<lambda>m. wtu ! fst m = u) ms) in
      if js = [] then None else Some (Min (set js), Max (set js)))"
  using note_matches [of wtu "replicate n None" ms] assms
  by (simp add: ranges_of_def Let_def update_range_Min_Max)

lemma length_ranges_of: "list_all (\<lambda>m. wtu ! fst m < n) ms \<Longrightarrow> length (ranges_of wtu n ms) = n"
  using note_matches [of wtu "replicate n None" ms] by (simp add: ranges_of_def)

lemma range_ends:
  assumes "list_all (\<lambda>m. wtu ! fst m < n) ms" "u < n" "ranges_of wtu n ms ! u = Some (lo, hi)"
  shows "lo \<le> hi" "\<exists>i. (i, lo) \<in> set ms \<and> wtu ! i = u" "\<exists>i. (i, hi) \<in> set ms \<and> wtu ! i = u"
proof -
  let ?js = "map snd (filter (\<lambda>m. wtu ! fst m = u) ms)"
  have js: "?js \<noteq> []" "lo = Min (set ?js)" "hi = Max (set ?js)"
    using assms(3) unfolding ranges_of_nth [OF assms(1,2)] Let_def by (auto split: if_splits)
  then have "lo \<in> set ?js" "hi \<in> set ?js"
    using Min_in [of "set ?js"] Max_in [of "set ?js"] by blast+
  then show "\<exists>i. (i, lo) \<in> set ms \<and> wtu ! i = u" "\<exists>i. (i, hi) \<in> set ms \<and> wtu ! i = u" by auto
  show "lo \<le> hi" using js Min_le [of "set ?js" hi] \<open>hi \<in> set ?js\<close> by auto
qed

lemma sorted_map_filter:
  assumes "\<And>u v x y. u < v \<Longrightarrow> v < length R \<Longrightarrow> R ! u = Some x \<Longrightarrow> R ! v = Some y \<Longrightarrow> P x y"
  shows "sorted_wrt P (List.map_filter (\<lambda>r. r) R)"
  using assms
proof (induction R)
  case (Cons r R)
  have "sorted_wrt P (List.map_filter (\<lambda>r. r) R)"
    by (rule Cons.IH) (use Cons.prems [of "Suc u" "Suc v" for u v] in auto)
  moreover have "P x y" if "r = Some x" "Some y \<in> set R" for x y
    using that Cons.prems [of 0 "Suc v" x y for v] by (auto simp: in_set_conv_nth)
  moreover have "y \<in> set (List.map_filter (\<lambda>r. r) R) \<Longrightarrow> Some y \<in> set R" for y
    by (auto simp: List.map_filter_def)
  ultimately show ?case by (cases r) (auto simp: List.map_filter_simps)
qed (simp add: List.map_filter_simps)

lemma ranges_ordered:
  assumes ms: "monotone_matches (length wtu) nr ms" and "sorted wtu" "list_all (\<lambda>u. u < n) wtu"
  shows "length (ranges_of wtu n ms) = n"
    "sorted_wrt (\<lambda>x y. snd x < fst y) (List.map_filter (\<lambda>r. r) (ranges_of wtu n ms))"
    "list_all (\<lambda>(lo, hi). lo \<le> hi \<and> hi < nr) (List.map_filter (\<lambda>r. r) (ranges_of wtu n ms))"
    "u < n \<Longrightarrow> u \<notin> set wtu \<Longrightarrow> ranges_of wtu n ms ! u = None"
proof -
  have bound: "list_all (\<lambda>m. wtu ! fst m < n) ms"
    using ms assms(3) by (fastforce simp: monotone_matches_def list_all_iff)
  show len: "length (ranges_of wtu n ms) = n" by (rule length_ranges_of [OF bound])
  show "sorted_wrt (\<lambda>x y. snd x < fst y) (List.map_filter (\<lambda>r. r) (ranges_of wtu n ms))"
  proof (rule sorted_map_filter, unfold len)
    fix u v x y
    assume uv: "u < v" "v < n" "ranges_of wtu n ms ! u = Some x" "ranges_of wtu n ms ! v = Some y"
    obtain i where i: "(i, snd x) \<in> set ms" "wtu ! i = u"
      using range_ends(3) [OF bound, of u "fst x" "snd x"] uv by auto
    obtain i' where i': "(i', fst y) \<in> set ms" "wtu ! i' = v"
      using range_ends(2) [OF bound, of v "fst y" "snd y"] uv by auto
    have "i < length wtu" "i' < length wtu" using i i' ms by (auto simp: monotone_matches_def list_all_iff)
    then have "\<not> i' \<le> i" using i i' uv(1) sorted_nth_mono [OF assms(2), of i' i] by auto
    then show "snd x < fst y"
      using sorted_wrt_two [of _ ms "(i, snd x)" "(i', fst y)"] ms i(1) i'(1)
      by (fastforce simp: monotone_matches_def)
  qed
  show "list_all (\<lambda>(lo, hi). lo \<le> hi \<and> hi < nr) (List.map_filter (\<lambda>r. r) (ranges_of wtu n ms))"
  proof (unfold list_all_iff, rule)
    fix x assume "x \<in> set (List.map_filter (\<lambda>r. r) (ranges_of wtu n ms))"
    then have "Some x \<in> set (ranges_of wtu n ms)" by (auto simp: List.map_filter_def)
    then obtain u where u: "u < n" "ranges_of wtu n ms ! u = Some (fst x, snd x)"
      using len by (auto simp: in_set_conv_nth)
    with range_ends [OF bound u] ms show "case x of (lo, hi) \<Rightarrow> lo \<le> hi \<and> hi < nr"
      by (auto simp: monotone_matches_def list_all_iff)
  qed
  show "ranges_of wtu n ms ! u = None" if "u < n" "u \<notin> set wtu"
  proof -
    have "filter (\<lambda>m. wtu ! fst m = u) ms = []"
      using that ms by (auto simp: filter_empty_conv monotone_matches_def list_all_iff dest: nth_mem)
    then show ?thesis unfolding ranges_of_nth [OF bound that(1)] Let_def by simp
  qed
qed

lemma plan_monotone:
  "\<exists>plan ms. plan_utr_alignment lower jaro ps rs wtu n mode = Some plan \<and>
     monotone_matches (length ps) (length rs) ms \<and> up_utt_ranges plan = ranges_of wtu n ms"
proof (cases "(mode = MmExact \<or> mode = MmCaseInsensitive) \<and>
    try_unique_exact_subsequence_ranges ps rs wtu n \<noteq> None")
  case True
  then obtain e where e: "greedy_forward_match_indices ps rs = Some e"
    "try_unique_exact_subsequence_ranges ps rs wtu n = Some (ranges_of wtu n (enumerate 0 e))"
    by (auto simp: try_unique_exact_subsequence_ranges_def ranges_of_def
        collect_utt_ranges_from_match_indices_def split: option.splits if_splits)
  have "monotone_matches (length ps) (length rs) (enumerate 0 e)"
    by (rule embedding_monotone) (use greedy_extremes(1) [of ps rs] e(1) in simp)
  then show ?thesis using True e by (auto simp: plan_utr_alignment_def)
next
  case False
  obtain res where "align lower jaro ps rs mode = Some res"
    "monotone_matches (length ps) (length rs) (List.map_filter result_match res)"
    using align_monotone by blast
  then show ?thesis using False
    by (auto simp: plan_utr_alignment_def ranges_of_def collect_utt_ranges_from_alignment_def)
qed

lemma flatten_owners:
  fixes infos :: "UtrUtteranceInfo list"
  shows "sorted (map snd (flatten_words skip infos))"
    "list_all (\<lambda>u. u < length infos) (map snd (flatten_words skip infos))"
    "u < length infos \<Longrightarrow> skip \<Longrightarrow> ui_has_lazy_overlap (infos ! u) \<or> ui_has_ca_overlap (infos ! u) \<Longrightarrow>
       u \<notin> set (map snd (flatten_words skip infos))"
proof -
  let ?g = "\<lambda>(utt_idx, info).
       if skip \<and> (ui_has_lazy_overlap info \<or> ui_has_ca_overlap info) then []
       else map (\<lambda>w. (w, utt_idx :: nat)) (ui_words info)"
  have low: "k \<le> snd x" if "x \<in> set (concat (map ?g (enumerate k infos)))" for k x and infos :: "UtrUtteranceInfo list"
    using that by (auto simp: in_set_enumerate_eq split: if_splits)
  have "sorted (map snd (concat (map ?g (enumerate k infos))))" for k
  proof (induction infos arbitrary: k)
    case (Cons i infos)
    have "\<forall>y \<in> set (map snd (concat (map ?g (enumerate (Suc k) infos)))). k \<le> y"
      using low [of _ "Suc k" infos] by (fastforce simp del: set_concat)
    moreover have "map snd (?g (k, i)) = replicate (length (?g (k, i))) k" by (auto intro: nth_equalityI)
    ultimately show ?case using Cons [of "Suc k"]
      by (simp add: sorted_append del: set_concat set_map split del: if_split)
  qed simp
  then show "sorted (map snd (flatten_words skip infos))" by (simp add: flatten_words_def)
  show "list_all (\<lambda>u. u < length infos) (map snd (flatten_words skip infos))"
    by (auto simp: flatten_words_def list_all_iff in_set_enumerate_eq split: if_splits)
  show "u \<notin> set (map snd (flatten_words skip infos))"
    if "u < length infos" skip "ui_has_lazy_overlap (infos ! u) \<or> ui_has_ca_overlap (infos ! u)"
    using that by (auto simp: flatten_words_def in_set_enumerate_eq split: if_splits)
qed

lemma plan_flattened:
  obtains plan where
    "plan_utr_alignment lower jaro (map fst (flatten_words skip infos)) texts
       (map snd (flatten_words skip infos)) (length infos) mode = Some plan"
    "length (up_utt_ranges plan) = length infos"
    "sorted_wrt (\<lambda>x y. snd x < fst y) (List.map_filter (\<lambda>r. r) (up_utt_ranges plan))"
    "list_all (\<lambda>(lo, hi). lo \<le> hi \<and> hi < length texts) (List.map_filter (\<lambda>r. r) (up_utt_ranges plan))"
    "\<And>u. u < length infos \<Longrightarrow> skip \<Longrightarrow> ui_has_lazy_overlap (infos ! u) \<or> ui_has_ca_overlap (infos ! u) \<Longrightarrow>
       up_utt_ranges plan ! u = None"
proof -
  let ?fl = "flatten_words skip infos"
  obtain plan ms where plan: "plan_utr_alignment lower jaro (map fst ?fl) texts (map snd ?fl) (length infos) mode = Some plan"
    and ms: "monotone_matches (length (map snd ?fl)) (length texts) ms"
    and ranges: "up_utt_ranges plan = ranges_of (map snd ?fl) (length infos) ms"
    using plan_monotone [of lower jaro "map fst ?fl" texts "map snd ?fl" "length infos" mode] by auto
  note ord = ranges_ordered [OF ms flatten_owners(1,2)]
  show thesis
    by (rule that [OF plan]) (use ord flatten_owners(3) in \<open>simp_all add: ranges\<close>)
qed

text \<open>
  The plan of a pass respects time: it always exists, an utterance's range of tokens is a proper one,
  and the ranges of different utterances follow each other without sharing a token, whichever of the
  two alignments made them.
\<close>

theorem utr_ranges_in_order:
  "\<exists>plan. plan_utr_alignment lower jaro (map fst (flatten_words skip infos)) texts
       (map snd (flatten_words skip infos)) (length infos) mode = Some plan \<and>
     length (up_utt_ranges plan) = length infos \<and>
     sorted_wrt (\<lambda>x y. snd x < fst y) (List.map_filter (\<lambda>r. r) (up_utt_ranges plan)) \<and>
     list_all (\<lambda>(lo, hi). lo \<le> hi \<and> hi < length texts) (List.map_filter (\<lambda>r. r) (up_utt_ranges plan))"
  by (rule plan_flattened [of lower jaro skip infos texts mode]) blast

end
