(* ===== verification/Utr_Passes.thy ===== *)
theory Utr_Passes
  imports Utr_Correct
begin

text \<open>
  What a pass of utterance timing recovery does to a file and to its counters, for the global and for
  the two-pass strategy; the windows of untimed speech.
\<close>

section \<open>Outcome of a pass\<close>

definition gains :: "('c, 'r) ChatUtterance \<Rightarrow> ('c, 'r) ChatUtterance \<Rightarrow> bool" where
  "gains u v \<longleftrightarrow> v = u \<or> (cu_bullet u = None \<and> (\<exists>s. v = u\<lparr>cu_bullet := Some s\<rparr>))"

text \<open>
  Utterances change only by gaining a bullet they did not have; the counters say how many had one,
  how many gained one, how many are left without.
\<close>

definition utr_outcome ::
  "('c, 'r, 'o) ChatLine list \<Rightarrow> ('c, 'r, 'o) ChatLine list \<Rightarrow> UtrResult \<Rightarrow> bool" where
  "utr_outcome f f' r \<longleftrightarrow>
     list_all2 gains (utterances f) (utterances f') \<and>
     ur_skipped r = count_timed_utterances f \<and>
     ur_injected r + count_timed_utterances f = count_timed_utterances f' \<and>
     ur_unmatched r + count_timed_utterances f' = length (utterances f)"

definition give_bullet :: "TimeSpan option \<Rightarrow> ('c, 'r) ChatUtterance \<Rightarrow> ('c, 'r) ChatUtterance" where
  "give_bullet b u = (case b of Some s \<Rightarrow> u\<lparr>cu_bullet := Some s\<rparr> | None \<Rightarrow> u)"

lemma utterances_set_bullets:
  "length bs = length (utterances f) \<Longrightarrow>
   utterances (set_bullets bs f) = map2 give_bullet bs (utterances f)"
  by (induction bs f rule: set_bullets.induct) (auto simp: give_bullet_def)

abbreviation timed_count :: "('c, 'r) ChatUtterance list \<Rightarrow> nat" where
  "timed_count us \<equiv> length (filter (\<lambda>u. cu_bullet u \<noteq> None) us)"

abbreviation some_count :: "'b option list \<Rightarrow> nat" where
  "some_count bs \<equiv> length (filter (\<lambda>b. b \<noteq> None) bs)"

lemma give_bullets:
  "list_all2 (\<lambda>b u. b = None \<or> cu_bullet u = None) bs us \<Longrightarrow>
   list_all2 gains us (map2 give_bullet bs us) \<and>
   timed_count (map2 give_bullet bs us) = timed_count us + some_count bs"
  by (induction rule: list_all2_induct) (auto simp: give_bullet_def gains_def split: option.splits)

lemma set_bullets_outcome:
  assumes "list_all2 (\<lambda>b u. b = None \<or> cu_bullet u = None) bs (utterances f)"
  shows "list_all2 gains (utterances f) (utterances (set_bullets bs f))"
    "count_timed_utterances (set_bullets bs f) = count_timed_utterances f + some_count bs"
  using give_bullets [OF assms] list_all2_lengthD [OF assms]
  by (simp_all add: utterances_set_bullets count_timed_utterances_def)

lemma gains_trans: "gains u v \<Longrightarrow> gains v w \<Longrightarrow> gains u w"
  by (auto simp: gains_def)

lemma list_all2_gains_trans: "list_all2 gains us vs \<Longrightarrow> list_all2 gains vs ws \<Longrightarrow> list_all2 gains us ws"
  by (rule list_all2_trans [OF gains_trans])

lemma list_all2_gains_refl [simp]: "list_all2 gains us us"
  by (simp add: list_all2_refl gains_def)

section \<open>The global pass\<close>

lemma has_bullet_info [simp]: "ui_has_bullet (utterance_utr_info markers u) \<longleftrightarrow> cu_bullet u \<noteq> None"
  by (simp add: utterance_utr_info_def Let_def)

lemma global_counts:
  fixes markers :: marker_reader
  assumes "length us = length gs"
  defines "infos \<equiv> map (utterance_utr_info markers) us"
  shows "list_all2 (\<lambda>b u. b = None \<or> cu_bullet u = None) (map2 (range_bullet toks) infos gs) us \<and>
    ur_injected (foldl count_outcome r (zip infos gs)) =
      ur_injected r + some_count (map2 (range_bullet toks) infos gs) \<and>
    ur_skipped (foldl count_outcome r (zip infos gs)) = ur_skipped r + timed_count us \<and>
    ur_unmatched (foldl count_outcome r (zip infos gs)) + timed_count us +
      some_count (map2 (range_bullet toks) infos gs) = ur_unmatched r + length us"
  using assms(1) unfolding infos_def
proof (induction us gs arbitrary: r rule: list_induct2)
  case (Cons u us g gs)
  show ?case using Cons.IH [of "count_outcome r (utterance_utr_info markers u, g)"]
    by (auto simp: count_outcome_def range_bullet_def split: option.splits)
qed simp

lemma empty_tokens_counts:
  "r' = foldl (\<lambda>r u. if cu_bullet u \<noteq> None then r\<lparr>ur_skipped := ur_skipped r + 1\<rparr>
                else r\<lparr>ur_unmatched := ur_unmatched r + 1\<rparr>) r us \<Longrightarrow>
   ur_skipped r' = ur_skipped r + timed_count us \<and> ur_injected r' = ur_injected r \<and>
   ur_unmatched r' + timed_count us = ur_unmatched r + length us"
proof (induction us arbitrary: r)
  case (Cons u us)
  show ?case using Cons.prems
      Cons.IH [of "if cu_bullet u \<noteq> None then r\<lparr>ur_skipped := ur_skipped r + 1\<rparr>
                   else r\<lparr>ur_unmatched := ur_unmatched r + 1\<rparr>"]
    by (cases "cu_bullet u") auto
qed simp

lemma global_utr:
  obtains f' r where "run_global_utr markers lower jaro f toks skip mode = Some (f', r)"
    "utr_outcome f f' r"
    "\<And>i. i < length (utterances f) \<Longrightarrow> cu_bullet (utterances f ! i) = None \<Longrightarrow> skip \<Longrightarrow>
       cu_lazy_overlap (utterances f ! i) \<or> oi_has_bottom_overlap (markers (cu_content (utterances f ! i))) \<Longrightarrow>
       cu_bullet (utterances f' ! i) = None"
proof (cases "toks = []")
  case True
  let ?r = "foldl (\<lambda>r u. if cu_bullet u \<noteq> None then r\<lparr>ur_skipped := ur_skipped r + 1\<rparr>
                else r\<lparr>ur_unmatched := ur_unmatched r + 1\<rparr>) utr_result0 (utterances f)"
  show thesis
  proof (rule that)
    show "run_global_utr markers lower jaro f toks skip mode = Some (f, ?r)"
      using True by (simp add: run_global_utr_def)
    show "utr_outcome f f ?r" unfolding utr_outcome_def count_timed_utterances_def
      using empty_tokens_counts [OF refl, of utr_result0 "utterances f"]
      by (simp only: list_all2_gains_refl) (simp add: utr_result0_def)
  qed
next
  case False
  let ?infos = "collect_utr_utterance_info markers f"
  obtain plan where plan: "plan_utr_alignment lower jaro (map fst (flatten_words skip ?infos))
       (map at_text toks) (map snd (flatten_words skip ?infos)) (length ?infos) mode = Some plan"
    and len: "length (up_utt_ranges plan) = length ?infos"
    and skipped: "\<And>u. u < length ?infos \<Longrightarrow> skip \<Longrightarrow>
        ui_has_lazy_overlap (?infos ! u) \<or> ui_has_ca_overlap (?infos ! u) \<Longrightarrow> up_utt_ranges plan ! u = None"
    by (rule plan_flattened [of lower jaro skip ?infos "map at_text toks" mode]) blast
  let ?bs = "map2 (range_bullet toks) ?infos (up_utt_ranges plan)"
  have run: "run_global_utr markers lower jaro f toks skip mode =
      Some (set_bullets ?bs f, foldl count_outcome utr_result0 (zip ?infos (up_utt_ranges plan)))"
    using False plan by (simp add: run_global_utr_def Let_def)
  have us: "length (utterances f) = length (up_utt_ranges plan)"
    using len by (simp add: collect_utr_utterance_info_def)
  note counts = global_counts [OF us, of toks markers utr_result0, folded collect_utr_utterance_info_def]
  note after = set_bullets_outcome [OF counts [THEN conjunct1]]
  show thesis
  proof (rule that [OF run])
    show "utr_outcome f (set_bullets ?bs f) (foldl count_outcome utr_result0 (zip ?infos (up_utt_ranges plan)))"
      using after counts by (simp add: utr_outcome_def utr_result0_def count_timed_utterances_def)
    show "cu_bullet (utterances (set_bullets ?bs f) ! i) = None"
      if "i < length (utterances f)" "cu_bullet (utterances f ! i) = None" skip
        "cu_lazy_overlap (utterances f ! i) \<or> oi_has_bottom_overlap (markers (cu_content (utterances f ! i)))" for i
    proof -
      have "up_utt_ranges plan ! i = None"
        using that skipped [of i] by (simp add: collect_utr_utterance_info_def utterance_utr_info_def Let_def)
      then show ?thesis using that us len
        by (simp add: utterances_set_bullets give_bullet_def range_bullet_def)
    qed
  qed
qed

section \<open>The two passes\<close>

lemma recover_total: "\<exists>ans. recover_overlap_timing lower jaro ws toks lo hi mode = Some ans"
  using align_monotone [of lower jaro ws _ mode] by (auto simp: recover_overlap_timing_def Let_def)

lemma try_buffers_total: "(\<And>lo hi. \<exists>ans. recover lo hi = Some ans) \<Longrightarrow> \<exists>ans. try_buffers recover a e bs = Some ans"
proof (induction bs)
  case (Cons b bs)
  then obtain o1 where "recover (sat_sub a b) (u64_add e b) = Some o1" by blast
  with Cons show ?case by (auto split: option.split)
qed simp

lemma adaptive_total:
  "\<exists>ans. recover_with_adaptive_window lower jaro ws toks i bullets onset config = Some ans"
  unfolding recover_with_adaptive_window_def Let_def
  by (cases "find_predecessor_bullet i bullets")
    (simp, simp only: option.case, rule try_buffers_total, rule recover_total)

lemma pass2_counts:
  assumes total: "\<And>k i. \<exists>ans. recover k i = Some ans"
    and "length (filter (\<lambda>i. \<not> ui_has_bullet i) is) \<le> ur_unmatched r"
  shows "\<exists>bs r'. pass2 recover config k is r = Some (bs, r') \<and>
     list_all2 (\<lambda>b i. b = None \<or> (\<not> ui_has_bullet i \<and> is_overlap config i)) bs is \<and>
     ur_skipped r' = ur_skipped r \<and> ur_injected r' = ur_injected r + some_count bs \<and>
     ur_unmatched r' + some_count bs = ur_unmatched r"
  using assms(2)
proof (induction "is" arbitrary: k r)
  case (Cons i "is")
  show ?case
  proof (cases "\<not> is_overlap config i \<or> ui_has_bullet i \<or> ui_words i = []")
    case True
    have "length (filter (\<lambda>i. \<not> ui_has_bullet i) is) \<le> ur_unmatched r"
      using Cons.prems by (auto split: if_splits)
    from Cons.IH [OF this, of "Suc k"] True show ?thesis by fastforce
  next
    case False
    obtain o1 where o1: "recover k i = Some o1" using total by blast
    show ?thesis
    proof (cases o1)
      case None
      have "length (filter (\<lambda>i. \<not> ui_has_bullet i) is) \<le> ur_unmatched r"
        using Cons.prems by (auto split: if_splits)
      from Cons.IH [OF this, of "Suc k"] False o1 None show ?thesis by fastforce
    next
      case (Some s)
      let ?r = "r\<lparr>ur_unmatched := u64_dec (ur_unmatched r), ur_injected := ur_injected r + 1\<rparr>"
      have pos: "ur_unmatched r \<noteq> 0" and le: "length (filter (\<lambda>i. \<not> ui_has_bullet i) is) \<le> ur_unmatched ?r"
        using Cons.prems False by (auto simp: u64_dec_def)
      from Cons.IH [OF le, of "Suc k"] False o1 Some pos show ?thesis
        by (fastforce simp: u64_dec_def)
    qed
  qed
qed simp

lemma two_pass_inner:
  obtains f' r where "run_two_pass_inner markers lower jaro f toks config = Some (f', r)"
    "utr_outcome f f' r"
    "\<And>i. i < length (utterances f) \<Longrightarrow> cu_bullet (utterances f ! i) = None \<Longrightarrow>
       skip_in_pass1 config (collect_utr_utterance_info markers f) \<Longrightarrow>
       oi_has_bottom_overlap (markers (cu_content (utterances f ! i))) \<Longrightarrow>
       \<not> cu_lazy_overlap (utterances f ! i) \<Longrightarrow> tp_ca_markers config = CmDisabled \<Longrightarrow>
       cu_bullet (utterances f' ! i) = None"
proof -
  let ?skip = "skip_in_pass1 config (collect_utr_utterance_info markers f)"
  obtain f1 r1 where g: "run_global_utr markers lower jaro f toks ?skip
      (to_dp_match_mode (tp_match_mode config)) = Some (f1, r1)"
    and o1: "utr_outcome f f1 r1"
    and skipped: "\<And>i. i < length (utterances f) \<Longrightarrow> cu_bullet (utterances f ! i) = None \<Longrightarrow> ?skip \<Longrightarrow>
       cu_lazy_overlap (utterances f ! i) \<or> oi_has_bottom_overlap (markers (cu_content (utterances f ! i))) \<Longrightarrow>
       cu_bullet (utterances f1 ! i) = None"
    by (rule global_utr [of markers lower jaro f toks ?skip "to_dp_match_mode (tp_match_mode config)"]) blast
  show thesis
  proof (cases "toks = []")
    case True
    show thesis
      by (rule that [of f1 r1]) (use True g o1 skipped in \<open>simp_all add: run_two_pass_inner_def\<close>)
  next
    case False
    let ?infos = "collect_utr_utterance_info markers f1"
    let ?rec = "\<lambda>utt_idx info.
      recover_with_adaptive_window lower jaro (ui_words info) toks utt_idx (map cu_bullet (utterances f1))
        (if ca_is_enabled (tp_ca_markers config)
         then find_predecessor_onset_fraction utt_idx ?infos else None) config"
    have "length (filter (\<lambda>i. \<not> ui_has_bullet i) ?infos) + timed_count (utterances f1) = length (utterances f1)"
      using sum_length_filter_compl [of "\<lambda>u. cu_bullet u \<noteq> None" "utterances f1"]
      by (simp add: collect_utr_utterance_info_def filter_map comp_def)
    moreover have "ur_unmatched r1 + timed_count (utterances f1) = length (utterances f1)"
      using o1 by (auto simp: utr_outcome_def count_timed_utterances_def dest!: list_all2_lengthD)
    ultimately have "length (filter (\<lambda>i. \<not> ui_has_bullet i) ?infos) \<le> ur_unmatched r1" by linarith
    from pass2_counts [of ?rec, OF adaptive_total this, of config 0] obtain bs r where
      p2: "pass2 ?rec config 0 ?infos r1 = Some (bs, r)"
      and bs: "list_all2 (\<lambda>b i. b = None \<or> (\<not> ui_has_bullet i \<and> is_overlap config i)) bs ?infos"
      and r: "ur_skipped r = ur_skipped r1" "ur_injected r = ur_injected r1 + some_count bs"
        "ur_unmatched r + some_count bs = ur_unmatched r1"
      by blast
    have run: "run_two_pass_inner markers lower jaro f toks config = Some (set_bullets bs f1, r)"
      unfolding run_two_pass_inner_def g using False p2 by simp
    have bs': "list_all2 (\<lambda>b u. b = None \<or> cu_bullet u = None) bs (utterances f1)"
      using bs by (auto simp: collect_utr_utterance_info_def list_all2_map2 elim: list_all2_mono)
    note after = set_bullets_outcome [OF bs']
    have lens: "length bs = length (utterances f1)" "length (utterances f1) = length (utterances f)"
      using list_all2_lengthD [OF bs'] o1 by (auto simp: utr_outcome_def dest: list_all2_lengthD)
    show thesis
    proof (rule that [OF run])
      show "utr_outcome f (set_bullets bs f1) r"
        using o1 after r lens by (auto simp: utr_outcome_def intro: list_all2_gains_trans)
      show "cu_bullet (utterances (set_bullets bs f1) ! i) = None"
        if i: "i < length (utterances f)" "cu_bullet (utterances f ! i) = None" ?skip
          "oi_has_bottom_overlap (markers (cu_content (utterances f ! i)))"
          "\<not> cu_lazy_overlap (utterances f ! i)" "tp_ca_markers config = CmDisabled" for i
      proof -
        have n: "cu_bullet (utterances f1 ! i) = None" using skipped i by blast
        have "gains (utterances f ! i) (utterances f1 ! i)"
          using o1 i by (auto simp: utr_outcome_def list_all2_conv_all_nth)
        then have "cu_lazy_overlap (utterances f1 ! i) = cu_lazy_overlap (utterances f ! i)"
          by (auto simp: gains_def)
        then have "\<not> is_overlap config (?infos ! i)"
          using i lens by (simp add: is_overlap_def collect_utr_utterance_info_def utterance_utr_info_def Let_def)
        then have "bs ! i = None" using bs i lens by (auto simp: list_all2_conv_all_nth)
        then show ?thesis using n i lens by (simp add: utterances_set_bullets give_bullet_def)
      qed
    qed
  qed
qed

text \<open>
  C35: Timing recovery is total and conservative, with every strategy, every configuration and every
  answer of the recognizer: it returns, an utterance changes only by gaining a bullet it did not
  have, and the three counters are exactly the utterances that had a bullet, that gained one and
  that are left without. No counter underflows.
\<close>

theorem utr_total_and_conservative:
  "\<exists>f' r. strategy_inject markers lower jaro st f toks = Some (f', r) \<and> utr_outcome f f' r"
proof (cases st)
  case StGlobalUtr
  then show ?thesis
    using global_utr [of markers lower jaro f toks False MmCaseInsensitive] by (metis strategy_inject.simps(1))
next
  case (StTwoPassOverlapUtr ctx config)
  obtain f1 r1 where "run_two_pass_inner markers lower jaro f toks config = Some (f1, r1)" "utr_outcome f f1 r1"
    by (rule two_pass_inner [of markers lower jaro f toks config]) blast
  moreover obtain f2 r2 where "run_global_utr markers lower jaro f toks False
      (to_dp_match_mode (tp_match_mode config)) = Some (f2, r2)" "utr_outcome f f2 r2"
    by (rule global_utr [of markers lower jaro f toks False "to_dp_match_mode (tp_match_mode config)"]) blast
  ultimately show ?thesis using StTwoPassOverlapUtr by (auto simp: two_pass_inject_def)
qed

text \<open>
  With the overlap markers disabled, an untimed utterance that carries a bottom marker but no
  linker is still kept out of the first pass, and the second pass no longer looks at it: it never
  gets a bullet, however well the recognizer heard it.
\<close>

theorem disabled_markers_still_exclude:
  assumes "i < length (utterances f)" "cu_bullet (utterances f ! i) = None"
    and "skip_in_pass1 config (collect_utr_utterance_info markers f)"
    and "oi_has_bottom_overlap (markers (cu_content (utterances f ! i)))"
    and "\<not> cu_lazy_overlap (utterances f ! i)" "tp_ca_markers config = CmDisabled"
  shows "\<exists>f' r. run_two_pass_inner markers lower jaro f toks config = Some (f', r) \<and>
    cu_bullet (utterances f' ! i) = None"
  using two_pass_inner [of markers lower jaro f toks config] assms by metis

section \<open>Windows of untimed speech\<close>

lemma merge_windows_starts: "sorted (map fst (cur # ws)) \<Longrightarrow> m \<in> set (merge_windows cur ws) \<Longrightarrow> fst cur \<le> fst m"
  by (induction cur ws rule: merge_windows.induct) (auto split: if_splits)

lemma merge_windows_separated:
  "sorted (map fst (cur # ws)) \<Longrightarrow> sorted_wrt (\<lambda>x y. snd x < fst y) (merge_windows cur ws)"
proof (induction cur ws rule: merge_windows.induct)
  case (2 cur w ws)
  show ?case
  proof (cases "fst w \<le> snd cur")
    case False
    then have "snd cur < fst m" if "m \<in> set (merge_windows w ws)" for m
      using merge_windows_starts [OF _ that] "2.prems" by fastforce
    with False 2 show ?thesis by auto
  qed (use 2 in auto)
qed simp

lemma merge_windows_cover:
  "w \<in> set (cur # ws) \<Longrightarrow> sorted (map fst (cur # ws)) \<Longrightarrow>
   \<exists>m \<in> set (merge_windows cur ws). fst m \<le> fst w \<and> snd w \<le> snd m"
proof (induction cur ws arbitrary: w rule: merge_windows.induct)
  case (2 cur v ws)
  show ?case
  proof (cases "fst v \<le> snd cur")
    case True
    let ?c = "(fst cur, max (snd cur) (snd v))"
    have sorted: "sorted (map fst (?c # ws))" using "2.prems" by auto
    show ?thesis
    proof (cases "w = cur \<or> w = v")
      case w: True
      obtain m where "m \<in> set (merge_windows ?c ws)" "fst m \<le> fst ?c" "snd ?c \<le> snd m"
        using "2.IH"(1) [OF True _ sorted, of ?c] by auto
      then show ?thesis using True w "2.prems"(2) by (intro bexI [of _ m]) auto
    next
      case False
      then show ?thesis using "2.IH"(1) [OF True _ sorted, of w] "2.prems"(1) True by simp
    qed
  next
    case False
    then show ?thesis using "2.IH"(2) [OF False, of w] "2.prems" by auto
  qed
qed auto

lemma merge_windows_ends:
  "list_all (\<lambda>w. snd w \<le> t) (cur # ws) \<Longrightarrow> list_all (\<lambda>w. snd w \<le> t) (merge_windows cur ws)"
  by (induction cur ws rule: merge_windows.induct) auto

lemma raw_windows_ends: "list_all (\<lambda>w. snd w \<le> t) (raw_windows t padding prev_end bs)"
  by (induction t padding prev_end bs rule: raw_windows.induct) (auto simp: Let_def)

text \<open>
  The windows sent to the recognizer are in order and disjoint, none reaches past the end of the
  audio, and each run of untimed utterances, with its padding, lies inside one of them.
\<close>

theorem untimed_windows_disjoint_cover:
  "sorted_wrt (\<lambda>x y. snd x < fst y) (find_untimed_windows f total_audio_ms padding_ms) \<and>
   list_all (\<lambda>w. snd w \<le> total_audio_ms) (find_untimed_windows f total_audio_ms padding_ms) \<and>
   list_all (\<lambda>w. list_ex (\<lambda>m. fst m \<le> fst w \<and> snd w \<le> snd m)
       (find_untimed_windows f total_audio_ms padding_ms))
     (raw_windows total_audio_ms padding_ms 0 (map cu_bullet (utterances f)))"
proof -
  let ?raw = "raw_windows total_audio_ms padding_ms 0 (map cu_bullet (utterances f))"
  show ?thesis
  proof (cases "sort_key fst ?raw")
    case Nil
    then have "?raw = []" by (metis length_0_conv length_sort)
    then show ?thesis by (simp add: find_untimed_windows_def)
  next
    case (Cons w ws)
    have find: "find_untimed_windows f total_audio_ms padding_ms = merge_windows w ws"
      by (simp add: find_untimed_windows_def Cons)
    have sorted: "sorted (map fst (w # ws))" by (metis Cons sorted_sort_key)
    have set: "set ?raw = set (w # ws)" by (metis Cons set_sort)
    have "list_all (\<lambda>w. snd w \<le> total_audio_ms) (w # ws)"
      using raw_windows_ends [of total_audio_ms padding_ms 0 "map cu_bullet (utterances f)"]
      unfolding list_all_iff set .
    note ends = merge_windows_ends [OF this]
    have "\<forall>v \<in> set ?raw. \<exists>m \<in> set (merge_windows w ws). fst m \<le> fst v \<and> snd v \<le> snd m"
      unfolding set using merge_windows_cover [OF _ sorted] by blast
    with ends merge_windows_separated [OF sorted] show ?thesis
      unfolding find list_all_iff list_ex_iff by blast
  qed
qed

section \<open>Witness\<close>

definition no_markers :: marker_reader where
  "no_markers items = \<lparr>oi_regions = [], oi_total_words = length items, oi_has_bottom_overlap = True,
     oi_top_onset_fraction = None\<rparr>"

definition marked_file :: "(unit, unit) fa_file" where
  "marked_file = [ClUtterance \<lparr>cu_speaker = lit ''CHI'',
     cu_content = [WiWord \<lparr>cw_text = lit ''hello'', cw_counts = True, cw_bullet = None\<rparr>],
     cu_bullet = None, cu_tiers = [], cu_lazy_overlap = False\<rparr>]"

theorem disabled_markers_still_exclude_witness:
  "\<exists>f' r. run_two_pass_inner no_markers (\<lambda>s. s) (\<lambda>a b. 0) marked_file
      [\<lparr>at_text = lit ''hello'', at_start_ms = 100, at_end_ms = 500\<rparr>]
      (two_pass_config_default\<lparr>tp_ca_markers := CmDisabled\<rparr>) = Some (f', r) \<and>
    cu_bullet (utterances f' ! 0) = None"
  by (rule disabled_markers_still_exclude)
    (simp_all add: marked_file_def no_markers_def two_pass_config_default_def skip_in_pass1_def
      collect_utr_utterance_info_def utterance_utr_info_def is_overlap_def Let_def)

end
