(* ===== verification/Fa_Correct.thy ===== *)
theory Fa_Correct
  imports Fa_Align
begin

text \<open>
  Properties of forced alignment: which word a timing reaches, what grouping keeps, where word
  timings and utterance bullets lie after postprocessing, what token stitching recognises.
\<close>

section \<open>Utterances of a file\<close>

lemma time_span_eta [simp]: "time_span (ts_start t) (ts_end t) = t"
  by (simp add: time_span_def)

lemma ts_start_time_span [simp]: "ts_start (time_span a b) = a"
  and ts_end_time_span [simp]: "ts_end (time_span a b) = b"
  by (simp_all add: time_span_def)

lemma utterances_modify [simp]:
  "utterances (modify_utterance i f ls) =
     (if i < length (utterances ls) then (utterances ls)[i := f (utterances ls ! i)]
      else utterances ls)"
  by (induction i f ls rule: modify_utterance.induct) (auto split: nat.splits)

lemma get_utterance_iff [simp]:
  "get_utterance f i = Some u \<longleftrightarrow> i < length (utterances f) \<and> utterances f ! i = u"
  "get_utterance f i = None \<longleftrightarrow> \<not> i < length (utterances f)"
  by (auto simp: get_utterance_def)

section \<open>Injection\<close>

definition timing_at :: "TimeSpan option list \<Rightarrow> nat \<Rightarrow> TimeSpan option" where
  "timing_at ts k = (if k < length ts then ts ! k else None)"

text \<open>The timings from position \<open>k\<close> on laid over the old ones: a missing timing keeps the old.\<close>

primrec overlay :: "TimeSpan option list \<Rightarrow> nat \<Rightarrow> TimeSpan option list \<Rightarrow> TimeSpan option list" where
  "overlay ts k [] = []"
| "overlay ts k (old # olds) =
     (case timing_at ts k of Some t \<Rightarrow> Some t | None \<Rightarrow> old) # overlay ts (Suc k) olds"

lemma length_overlay [simp]: "length (overlay ts k olds) = length olds"
  by (induction olds arbitrary: k) auto

lemma overlay_append: "overlay ts k (xs @ ys) = overlay ts k xs @ overlay ts (k + length xs) ys"
  by (induction xs arbitrary: k) auto

lemma overlay_nth:
  "j < length olds \<Longrightarrow>
   overlay ts k olds ! j = (case timing_at ts (k + j) of Some t \<Rightarrow> Some t | None \<Rightarrow> olds ! j)"
  by (induction olds arbitrary: k j) (auto simp: nth_Cons split: nat.splits option.splits)

lemma overlay_complete: "length ts = length olds \<Longrightarrow> None \<notin> set ts \<Longrightarrow> overlay ts 0 olds = ts"
  by (rule nth_equalityI) (simp_all add: overlay_nth timing_at_def split: option.splits, metis nth_mem)

lemma inject_word:
  assumes "inject_timing_on_word w c = (w', c')"
  shows "tc_timings c' = tc_timings c" "cw_counts w' = cw_counts w" "cw_text w' = cw_text w"
    "tc_pos c' = tc_pos c + (if cw_counts w then 1 else 0)"
    "cw_bullet w' = (if cw_counts w then
        (case timing_at (tc_timings c) (tc_pos c) of Some t \<Rightarrow> Some t | None \<Rightarrow> cw_bullet w)
      else cw_bullet w)"
  using assms
  by (auto simp: inject_timing_on_word_def cursor_take_def timing_at_def split: if_splits option.splits)

lemma inject_words:
  assumes "map_state inject_timing_on_word ws c = (ws', c')"
  shows "tc_timings c' = tc_timings c \<and>
     tc_pos c' = tc_pos c + length (filter cw_counts ws) \<and>
     map cw_text (filter cw_counts ws') = map cw_text (filter cw_counts ws) \<and>
     length ws' = length ws \<and>
     map cw_bullet (filter cw_counts ws') =
       overlay (tc_timings c) (tc_pos c) (map cw_bullet (filter cw_counts ws))"
  using assms
proof (induction ws arbitrary: ws' c c')
  case (Cons w ws)
  obtain w1 c1 where w: "inject_timing_on_word w c = (w1, c1)" by fastforce
  obtain ws1 c2 where ws: "map_state inject_timing_on_word ws c1 = (ws1, c2)" by fastforce
  show ?case using Cons.IH [OF ws] Cons.prems inject_word [OF w] w ws by auto
qed auto

lemma inject_one_item:
  assumes "inject_item i c = (i', c')"
  shows "tc_timings c' = tc_timings c \<and>
     tc_pos c' = tc_pos c + length (alignable_words i) \<and>
     map cw_text (alignable_words i') = map cw_text (alignable_words i) \<and>
     map cw_bullet (alignable_words i') =
       overlay (tc_timings c) (tc_pos c) (map cw_bullet (alignable_words i))"
proof (cases i)
  case (WiWord w)
  obtain w1 c1 where w: "inject_timing_on_word w c = (w1, c1)" by fastforce
  show ?thesis using assms WiWord w inject_word [OF w] by auto
next
  case (WiReplaced w rs)
  obtain w1 c1 where w: "inject_timing_on_word w c = (w1, c1)" by fastforce
  obtain rs1 c2 where rs: "map_state inject_timing_on_word rs c = (rs1, c2)" by fastforce
  show ?thesis using assms WiReplaced w inject_word [OF w] rs inject_words [OF rs]
    by (auto split: if_splits)
qed (use assms in auto)

lemma inject_items:
  assumes "map_state inject_item items c = (items', c')"
  shows "tc_timings c' = tc_timings c \<and>
     tc_pos c' = tc_pos c + count_alignable_main_words items \<and>
     collect_fa_words items' = collect_fa_words items \<and>
     collect_existing_fa_word_timings items' =
       overlay (tc_timings c) (tc_pos c) (collect_existing_fa_word_timings items)"
  using assms
proof (induction items arbitrary: items' c c')
  case (Cons i items)
  obtain i1 c1 where i: "inject_item i c = (i1, c1)" by fastforce
  obtain is1 c2 where rest: "map_state inject_item items c1 = (is1, c2)" by fastforce
  show ?case using Cons.IH [OF rest] Cons.prems inject_one_item [OF i] i rest
    by (auto simp: collect_fa_words_def collect_existing_fa_word_timings_def
        count_alignable_main_words_def overlay_append)
qed (auto simp: collect_fa_words_def collect_existing_fa_word_timings_def
        count_alignable_main_words_def)

lemma length_existing [simp]:
  "length (collect_existing_fa_word_timings items) = count_alignable_main_words items"
  by (simp add: collect_existing_fa_word_timings_def count_alignable_main_words_def length_concat
      comp_def)

lemma length_fa_words [simp]: "length (collect_fa_words items) = count_alignable_main_words items"
  by (simp add: collect_fa_words_def count_alignable_main_words_def length_concat comp_def)

lemma inject_utterance:
  assumes "inject_timings_for_utterance u ts k = (u', k')"
  shows "k' = k + count_alignable_main_words (cu_content u)"
    "collect_fa_words (cu_content u') = collect_fa_words (cu_content u)"
    "collect_existing_fa_word_timings (cu_content u') =
       overlay ts k (collect_existing_fa_word_timings (cu_content u))"
    "cu_bullet u' = cu_bullet u"
proof -
  obtain items c where m: "map_state inject_item (cu_content u) (cursor_with_offset ts k) = (items, c)"
    by fastforce
  with assms inject_items [OF m]
  show "k' = k + count_alignable_main_words (cu_content u)"
    "collect_fa_words (cu_content u') = collect_fa_words (cu_content u)"
    "collect_existing_fa_word_timings (cu_content u') =
       overlay ts k (collect_existing_fa_word_timings (cu_content u))"
    "cu_bullet u' = cu_bullet u"
    by (auto simp: inject_timings_for_utterance_def cursor_with_offset_def)
qed

text \<open>What one group's answer does to the utterances of the file.\<close>

definition word_timings :: "('r, 'o) fa_file \<Rightarrow> nat \<Rightarrow> TimeSpan option list" where
  "word_timings f i = collect_existing_fa_word_timings (cu_content (utterances f ! i))"

definition words_at :: "('r, 'o) fa_file \<Rightarrow> nat \<Rightarrow> rstr list" where
  "words_at f i = collect_fa_words (cu_content (utterances f ! i))"

lemma length_word_timings: "length (word_timings f i) = length (words_at f i)"
  by (simp add: word_timings_def words_at_def)

lemma distribute_keeps:
  "length (utterances (distribute_timings ts is k f)) = length (utterances f) \<and>
   (\<forall>i < length (utterances f). words_at (distribute_timings ts is k f) i = words_at f i \<and>
      cu_bullet (utterances (distribute_timings ts is k f) ! i) = cu_bullet (utterances f ! i) \<and>
      (i \<notin> set is \<longrightarrow> utterances (distribute_timings ts is k f) ! i = utterances f ! i))"
proof (induction ts "is" k f rule: distribute_timings.induct)
  case (2 ts i "is" k f)
  show ?case
  proof (cases "get_utterance f i")
    case (Some u)
    obtain u' k' where inj: "inject_timings_for_utterance u ts k = (u', k')" by fastforce
    define g where "g = modify_utterance i (\<lambda>_. u') f"
    have dist: "distribute_timings ts (i # is) k f = distribute_timings ts is k' g"
      using Some inj by (simp add: g_def get_utterance_def split: if_splits)
    have g: "length (utterances g) = length (utterances f)"
      "words_at g l = words_at f l" "cu_bullet (utterances g ! l) = cu_bullet (utterances f ! l)"
      "l \<noteq> i \<Longrightarrow> utterances g ! l = utterances f ! l" if "l < length (utterances f)" for l
      using that Some inject_utterance [OF inj]
      by (auto simp: g_def words_at_def nth_list_update)
    have len: "length (utterances g) = length (utterances f)" by (simp add: g_def)
    note IH = "2.IH"(2) [OF Some inj [symmetric] refl, folded g_def, unfolded len]
    show ?thesis unfolding dist using IH g by auto
  qed (use 2 in \<open>auto simp: get_utterance_def\<close>)
qed simp

text \<open>Position of utterance \<open>i\<close> in the answer of a group with utterances \<open>is\<close>.\<close>

fun answer_offset :: "('r, 'o) fa_file \<Rightarrow> nat list \<Rightarrow> nat \<Rightarrow> nat" where
  "answer_offset f [] i = 0"
| "answer_offset f (j # js) i = (if j = i then 0 else length (words_at f j) + answer_offset f js i)"

lemma answer_offset_cong:
  "(\<And>j. j \<in> set is \<Longrightarrow> words_at f j = words_at g j) \<Longrightarrow> answer_offset f is i = answer_offset g is i"
  by (induction "is") auto

lemma distribute_reaches:
  assumes "distinct is" "\<And>j. j \<in> set is \<Longrightarrow> j < length (utterances f)" "i \<in> set is"
  shows "word_timings (distribute_timings ts is k f) i =
    overlay ts (k + answer_offset f is i) (word_timings f i)"
  using assms
proof (induction ts "is" k f rule: distribute_timings.induct)
  case (2 ts j js k f)
  then have j: "get_utterance f j = Some (utterances f ! j)" by simp
  obtain u' k' where inj: "inject_timings_for_utterance (utterances f ! j) ts k = (u', k')" by fastforce
  define g where "g = modify_utterance j (\<lambda>_. u') f"
  have dist: "distribute_timings ts (j # js) k f = distribute_timings ts js k' g"
    using j inj by (simp add: g_def get_utterance_def split: if_splits)
  have words: "words_at g l = words_at f l" if "l < length (utterances f)" for l
    using that inject_utterance [OF inj] by (auto simp: g_def words_at_def nth_list_update)
  show ?case
  proof (cases "i = j")
    case True
    then have "i \<notin> set js" using "2.prems" by auto
    then show ?thesis unfolding dist
      using distribute_keeps [of ts js k' g] True "2.prems" inject_utterance [OF inj]
      by (simp add: word_timings_def g_def)
  next
    case False
    then have i: "i \<in> set js" using "2.prems" by simp
    have "word_timings (distribute_timings ts js k' g) i =
        overlay ts (k' + answer_offset g js i) (word_timings g i)"
      unfolding g_def
      by (rule "2.IH"(2) [OF j inj [symmetric] refl]) (use "2.prems" i in auto)
    moreover have "answer_offset g js i = answer_offset f js i"
      by (rule answer_offset_cong) (use words "2.prems" in auto)
    moreover have "word_timings g i = word_timings f i"
      using False "2.prems" by (simp add: word_timings_def g_def)
    ultimately show ?thesis unfolding dist
      using False inject_utterance(1) [OF inj] by (simp add: words_at_def add.assoc)
  qed
qed simp

section \<open>Grouping\<close>

text \<open>
  The words of the utterances with the given indices, numbered; \<open>wd i\<close> are the words of utterance
  \<open>i\<close> and \<open>sp i\<close> its audio span.
\<close>

definition words_of :: "(nat \<Rightarrow> rstr list) \<Rightarrow> nat list \<Rightarrow> FaWord list" where
  "words_of wd is = concat (map (\<lambda>i. number_words i (wd i)) is)"

lemma words_of_append [simp]: "words_of wd (is @ js) = words_of wd is @ words_of wd js"
  and words_of_Nil [simp]: "words_of wd [] = []"
  and words_of_single [simp]: "words_of wd [i] = number_words i (wd i)"
  by (simp_all add: words_of_def)

lemma length_number_words [simp]: "length (number_words i ws) = length ws"
  by (simp add: number_words_def)

lemma number_words_empty [simp]: "number_words i ws = [] \<longleftrightarrow> ws = []" "number_words i [] = []"
  by (simp_all add: number_words_def flip: length_0_conv)

definition grouped :: "GroupAcc \<Rightarrow> nat list" where
  "grouped a = concat (map fg_utterance_indices (ga_groups a)) @ ga_utts a"

text \<open>A window is at most the maximum, unless the words come from one utterance.\<close>

definition window_ok :: "nat \<Rightarrow> nat \<Rightarrow> nat \<Rightarrow> FaWord list \<Rightarrow> bool" where
  "window_ok m seg_start seg_end ws \<longleftrightarrow>
     sat_sub seg_end seg_start \<le> m \<or> card (fw_utterance_index ` set ws) = 1"

record GroupView =
  gv_wd :: "nat \<Rightarrow> rstr list"
  gv_sp :: "nat \<Rightarrow> TimeSpan option"
  gv_max :: nat

definition group_ok :: "GroupView \<Rightarrow> FaGroup \<Rightarrow> bool" where
  "group_ok v g \<longleftrightarrow> fg_words g = words_of (gv_wd v) (fg_utterance_indices g) \<and> fg_words g \<noteq> [] \<and>
     window_ok (gv_max v) (ts_start (fg_audio_span g)) (ts_end (fg_audio_span g)) (fg_words g)"

definition group_inv :: "GroupView \<Rightarrow> GroupAcc \<Rightarrow> bool" where
  "group_inv v a \<longleftrightarrow>
     list_all (group_ok v) (ga_groups a) \<and> ga_words a = words_of (gv_wd v) (ga_utts a) \<and>
     (ga_words a \<noteq> [] \<longrightarrow> window_ok (gv_max v) (ga_seg_start a) (ga_seg_end a) (ga_words a)) \<and>
     grouped a = filter (\<lambda>i. gv_sp v i \<noteq> None) [0..<ga_utt_idx a]"

lemma group_inv_init: "group_inv v group_acc0"
  by (simp add: group_inv_def group_acc0_def grouped_def)

lemma one_utterance_window: "ws \<noteq> [] \<Longrightarrow> window_ok m a b (number_words i ws)"
proof -
  assume "ws \<noteq> []"
  then have "fw_utterance_index ` set (number_words i ws) = {i}"
    by (cases ws) (auto simp: number_words_def in_set_enumerate_eq image_iff)
  then show ?thesis by (simp add: window_ok_def)
qed

lemma group_inv_step:
  assumes inv: "group_inv v a"
    and wd: "gv_wd v (ga_utt_idx a) = collect_fa_words (cu_content u)"
    and sp: "gv_sp v (ga_utt_idx a) = utterance_span est (ga_utt_idx a) u"
  shows "group_inv v (group_utterance (gv_max v) est a u)"
    and "ga_utt_idx (group_utterance (gv_max v) est a u) = Suc (ga_utt_idx a)"
proof -
  show "ga_utt_idx (group_utterance (gv_max v) est a u) = Suc (ga_utt_idx a)"
    by (simp add: group_utterance_def Let_def split: option.split)
  show "group_inv v (group_utterance (gv_max v) est a u)"
  proof (cases "utterance_span est (ga_utt_idx a) u")
    case None
    then show ?thesis using inv sp by (auto simp: group_utterance_def Let_def group_inv_def grouped_def)
  next
    case (Some s)
    define cut where "cut \<longleftrightarrow> ga_words a \<noteq> [] \<and>
      (ts_end s \<le> ga_seg_start a \<or> ts_end s - ga_seg_start a > gv_max v)"
    consider (fresh) "ga_words a = []" | (cut) cut "ga_words a \<noteq> []"
      | (extend) "\<not> cut" "ga_words a \<noteq> []" by (auto simp: cut_def)
    then show ?thesis
    proof cases
      case fresh
      then show ?thesis using inv Some sp wd one_utterance_window
        by (auto simp: group_utterance_def Let_def group_inv_def grouped_def)
    next
      case cut
      then show ?thesis using inv Some sp wd one_utterance_window
        by (auto simp: group_utterance_def Let_def group_inv_def grouped_def group_ok_def close_group_def
            cut_def)
    next
      case extend
      then have "window_ok (gv_max v) (ga_seg_start a) (ts_end s) ws" for ws
        by (auto simp: window_ok_def cut_def)
      with extend show ?thesis using inv Some sp wd
        by (auto simp: group_utterance_def Let_def group_inv_def grouped_def cut_def)
    qed
  qed
qed

lemma group_inv_foldl:
  assumes "group_inv v a"
    and "\<And>k. k < length us \<Longrightarrow> gv_wd v (ga_utt_idx a + k) = collect_fa_words (cu_content (us ! k))"
    and "\<And>k. k < length us \<Longrightarrow>
      gv_sp v (ga_utt_idx a + k) = utterance_span est (ga_utt_idx a + k) (us ! k)"
  shows "group_inv v (foldl (group_utterance (gv_max v) est) a us) \<and>
    ga_utt_idx (foldl (group_utterance (gv_max v) est) a us) = ga_utt_idx a + length us"
  using assms
proof (induction us arbitrary: a)
  case (Cons u us)
  have hd: "gv_wd v (ga_utt_idx a) = collect_fa_words (cu_content u)"
    "gv_sp v (ga_utt_idx a) = utterance_span est (ga_utt_idx a) u"
    using Cons.prems(2,3) [of 0] by simp_all
  note step = group_inv_step [OF Cons.prems(1) hd]
  show ?case
    using Cons.IH [OF step(1)] Cons.prems(2,3) [of "Suc k" for k] step(2) by simp
qed simp

text \<open>Which utterances have an audio span: all the timed ones, with a total duration all.\<close>

definition has_span :: "('r, 'o) fa_file \<Rightarrow> nat option \<Rightarrow> nat \<Rightarrow> bool" where
  "has_span f total_audio_ms i \<longleftrightarrow>
     utterance_span (map_option (estimate_untimed_boundaries f) total_audio_ms) i
       (utterances f ! i) \<noteq> None"

definition file_view :: "('r, 'o) fa_file \<Rightarrow> nat \<Rightarrow> nat option \<Rightarrow> GroupView" where
  "file_view f m total_audio_ms =
     \<lparr>gv_wd = words_at f,
      gv_sp = (\<lambda>i. utterance_span (map_option (estimate_untimed_boundaries f) total_audio_ms) i
                    (utterances f ! i)),
      gv_max = m\<rparr>"

lemma group_utterances_inv:
  obtains a where "group_inv (file_view f m t) a" "ga_utt_idx a = length (utterances f)"
    "group_utterances f m t = (if ga_words a \<noteq> [] then ga_groups a @ [close_group a] else ga_groups a)"
proof -
  let ?est = "map_option (estimate_untimed_boundaries f) t"
  let ?a = "foldl (group_utterance m ?est) group_acc0 (utterances f)"
  have "group_inv (file_view f m t) ?a \<and> ga_utt_idx ?a = length (utterances f)"
    using group_inv_foldl [OF group_inv_init, of "utterances f" "file_view f m t" ?est]
    by (simp add: file_view_def group_acc0_def words_at_def)
  with that [of ?a] show thesis by (simp add: group_utterances_def Let_def)
qed

lemma group_utterances_ok: "list_all (group_ok (file_view f m t)) (group_utterances f m t)"
proof -
  obtain a where a: "group_inv (file_view f m t) a"
    "group_utterances f m t = (if ga_words a \<noteq> [] then ga_groups a @ [close_group a] else ga_groups a)"
    using group_utterances_inv [of f m t] by metis
  then show ?thesis by (auto simp: group_inv_def group_ok_def close_group_def)
qed

lemma group_utterances_indices:
  "\<exists>rest. concat (map fg_utterance_indices (group_utterances f m t)) @ rest =
     filter (has_span f t) [0..<length (utterances f)] \<and> words_of (words_at f) rest = []"
proof -
  obtain a where a: "group_inv (file_view f m t) a" "ga_utt_idx a = length (utterances f)"
    "group_utterances f m t = (if ga_words a \<noteq> [] then ga_groups a @ [close_group a] else ga_groups a)"
    using group_utterances_inv [of f m t] by metis
  then have "grouped a = filter (has_span f t) [0..<length (utterances f)]"
    by (simp add: group_inv_def file_view_def has_span_def [abs_def])
  moreover have "ga_words a = words_of (words_at f) (ga_utts a)"
    using a by (simp add: group_inv_def file_view_def)
  ultimately show ?thesis using a(3)
    by (intro exI [of _ "if ga_words a \<noteq> [] then [] else ga_utts a"])
      (auto simp: grouped_def close_group_def)
qed

lemma group_words:
  assumes "g \<in> set (group_utterances f m t)"
  shows "fg_words g = words_of (words_at f) (fg_utterance_indices g)"
  using group_utterances_ok [of f m t] assms by (auto simp: list_all_iff group_ok_def file_view_def)

lemma concat_group_words:
  "concat (map fg_words (group_utterances f m t)) =
   words_of (words_at f) (concat (map fg_utterance_indices (group_utterances f m t)))"
proof -
  have "concat (map fg_words gs) = words_of (words_at f) (concat (map fg_utterance_indices gs))"
    if "set gs \<subseteq> set (group_utterances f m t)" for gs
    using that group_words [of _ f m t] by (induction gs) auto
  then show ?thesis by simp
qed

section \<open>From the answers to the words\<close>

lemma distribute_all_Cons:
  "distribute_all f (g # gs) (ts # rs) =
   distribute_all (distribute_timings ts (fg_utterance_indices g) 0 f) gs rs"
  by (simp add: distribute_all_def)

lemma distribute_all_keeps:
  "length (utterances (distribute_all f gs rs)) = length (utterances f) \<and>
   (\<forall>i < length (utterances f).
      cu_bullet (utterances (distribute_all f gs rs) ! i) = cu_bullet (utterances f ! i) \<and>
      (i \<notin> set (concat (map fg_utterance_indices gs)) \<longrightarrow>
         utterances (distribute_all f gs rs) ! i = utterances f ! i))"
proof (induction gs arbitrary: f rs)
  case (Cons g gs)
  show ?case
  proof (cases rs)
    case (Cons ts rs')
    let ?h = "distribute_timings ts (fg_utterance_indices g) 0 f"
    show ?thesis unfolding Cons distribute_all_Cons
      using Cons.IH [of ?h rs'] distribute_keeps [of ts "fg_utterance_indices g" 0 f] by simp
  qed (simp add: distribute_all_def)
qed (simp add: distribute_all_def)

lemma distribute_all_reaches:
  assumes "distinct (concat (map fg_utterance_indices gs))"
    and "set (concat (map fg_utterance_indices gs)) \<subseteq> {..<length (utterances f)}"
    and "n < length gs" "n < length rs" "i \<in> set (fg_utterance_indices (gs ! n))"
  shows "word_timings (distribute_all f gs rs) i =
    overlay (rs ! n) (answer_offset f (fg_utterance_indices (gs ! n)) i) (word_timings f i)"
  using assms
proof (induction gs arbitrary: f rs n)
  case (Cons g gs)
  obtain ts rs' where rs: "rs = ts # rs'" using Cons.prems(4) by (cases rs) auto
  define h where "h = distribute_timings ts (fg_utterance_indices g) 0 f"
  have all: "distribute_all f (g # gs) rs = distribute_all h gs rs'"
    by (simp add: distribute_all_Cons rs h_def)
  note keeps = distribute_keeps [of ts "fg_utterance_indices g" 0 f, folded h_def]
  show ?case
  proof (cases n)
    case 0
    then have i: "i \<in> set (fg_utterance_indices g)" "i < length (utterances f)"
      "i \<notin> set (concat (map fg_utterance_indices gs))" using Cons.prems by auto
    have "word_timings h i = overlay ts (0 + answer_offset f (fg_utterance_indices g) i) (word_timings f i)"
      unfolding h_def
    proof (rule distribute_reaches)
      show "distinct (fg_utterance_indices g)" using Cons.prems(1) by simp
      show "j < length (utterances f)" if "j \<in> set (fg_utterance_indices g)" for j
        using Cons.prems(2) that by auto
    qed (rule i(1))
    moreover have "word_timings (distribute_all h gs rs') i = word_timings h i"
      using distribute_all_keeps [of h gs rs'] keeps i by (simp add: word_timings_def)
    ultimately show ?thesis unfolding all using 0 rs by simp
  next
    case (Suc n')
    let ?is = "fg_utterance_indices (gs ! n')"
    have n': "n' < length gs" "n' < length rs'" "i \<in> set ?is" using Cons.prems(3-5) Suc rs by auto
    then have sub: "set ?is \<subseteq> set (concat (map fg_utterance_indices gs))" using nth_mem by fastforce
    then have lt: "set ?is \<subseteq> {..<length (utterances f)}" and i: "i \<notin> set (fg_utterance_indices g)"
      using Cons.prems(1,2) n'(3) by auto
    have "word_timings (distribute_all h gs rs') i =
        overlay (rs' ! n') (answer_offset h ?is i) (word_timings h i)"
    proof (rule Cons.IH)
      show "distinct (concat (map fg_utterance_indices gs))" using Cons.prems(1) by simp
      show "set (concat (map fg_utterance_indices gs)) \<subseteq> {..<length (utterances h)}"
        using Cons.prems(2) keeps by simp
    qed (use n' in simp_all)
    moreover have "answer_offset h ?is i = answer_offset f ?is i"
      by (rule answer_offset_cong) (use keeps lt in auto)
    moreover have "word_timings h i = word_timings f i"
      using keeps lt i n'(3) by (auto simp: word_timings_def)
    ultimately show ?thesis unfolding all using Suc rs by simp
  qed
qed simp

lemma nth_number_words:
  "k < length ws \<Longrightarrow>
   number_words i ws ! k = \<lparr>fw_utterance_index = i, fw_word_index = k, fw_text = ws ! k\<rparr>"
  by (simp add: number_words_def nth_enumerate_eq)

lemma nth_words_of:
  assumes "k < length (words_of (words_at f) is)" "distinct is"
  obtains i j where "i \<in> set is" "j < length (words_at f i)" "k = answer_offset f is i + j"
    "words_of (words_at f) is ! k =
       \<lparr>fw_utterance_index = i, fw_word_index = j, fw_text = words_at f i ! j\<rparr>"
proof -
  have "\<exists>i j. i \<in> set is \<and> j < length (words_at f i) \<and> k = answer_offset f is i + j \<and>
    words_of (words_at f) is ! k =
       \<lparr>fw_utterance_index = i, fw_word_index = j, fw_text = words_at f i ! j\<rparr>"
    using assms
  proof (induction "is" arbitrary: k)
    case (Cons i "is")
    have split: "words_of (words_at f) (i # is) = number_words i (words_at f i) @ words_of (words_at f) is"
      by (simp add: words_of_def)
    show ?case
    proof (cases "k < length (words_at f i)")
      case True
      then show ?thesis by (auto simp: split nth_append nth_number_words)
    next
      case False
      then have "k - length (words_at f i) < length (words_of (words_at f) is)" "distinct is"
        using Cons.prems by (auto simp: split)
      from Cons.IH [OF this] obtain i' j where
        "i' \<in> set is" "j < length (words_at f i')" "k - length (words_at f i) = answer_offset f is i' + j"
        "words_of (words_at f) is ! (k - length (words_at f i)) =
           \<lparr>fw_utterance_index = i', fw_word_index = j, fw_text = words_at f i' ! j\<rparr>" by blast
      moreover have "i' \<noteq> i" using calculation(1) Cons.prems by auto
      ultimately show ?thesis using False
        by (intro exI [of _ i'] exI [of _ j]) (auto simp: split nth_append)
    qed
  qed simp
  then show thesis using that by blast
qed

lemma distinct_concat_mapD: "distinct (concat (map f xs)) \<Longrightarrow> x \<in> set xs \<Longrightarrow> distinct (f x)"
  by (induction xs) auto

lemma group_indices_distinct:
  "distinct (concat (map fg_utterance_indices (group_utterances f m t)))"
  "j \<in> set (concat (map fg_utterance_indices (group_utterances f m t))) \<Longrightarrow> j < length (utterances f)"
proof -
  obtain rest where eq: "concat (map fg_utterance_indices (group_utterances f m t)) @ rest =
     filter (has_span f t) [0..<length (utterances f)]" using group_utterances_indices by blast
  have "distinct (concat (map fg_utterance_indices (group_utterances f m t)) @ rest)"
    unfolding eq by simp
  then show "distinct (concat (map fg_utterance_indices (group_utterances f m t)))" by simp
  show "j \<in> set (concat (map fg_utterance_indices (group_utterances f m t))) \<Longrightarrow> j < length (utterances f)"
    using arg_cong [OF eq, of set] by auto
qed

section \<open>Claims on grouping and injection\<close>

text \<open>
  C34: Grouping loses, repeats and reorders no word: the words of the groups, one after the other, are the
  alignable words of the utterances that have an audio span, in document order, each with the index
  of its utterance and its position there.
\<close>

theorem fa_grouping_keeps_words:
  "concat (map fg_words (group_utterances f max_group_ms total_audio_ms)) =
   concat (map (\<lambda>i. number_words i (words_at f i))
     (filter (has_span f total_audio_ms) [0..<length (utterances f)]))"
proof -
  obtain rest where
    eq: "concat (map fg_utterance_indices (group_utterances f max_group_ms total_audio_ms)) @ rest =
      filter (has_span f total_audio_ms) [0..<length (utterances f)]"
    and rest: "words_of (words_at f) rest = []" using group_utterances_indices by blast
  show ?thesis unfolding concat_group_words eq [symmetric] using rest by (simp add: words_of_def)
qed

text \<open>
  No audio window is longer than the maximum, but for a group whose words all come from a single
  utterance; and no group is without words.
\<close>

theorem fa_windows_bounded:
  "list_all (\<lambda>g. fg_words g \<noteq> [] \<and>
      (span_duration_ms (fg_audio_span g) \<le> max_group_ms \<or>
       card (fw_utterance_index ` set (fg_words g)) = 1))
     (group_utterances f max_group_ms total_audio_ms)"
  using group_utterances_ok [of f max_group_ms total_audio_ms]
  by (auto simp: list_all_iff group_ok_def window_ok_def span_duration_ms_def file_view_def)

text \<open>
  C5: A timing reaches its word: after the answers of all groups have been injected, the \<open>k\<close>-th word of
  the \<open>n\<close>-th group carries, at its own place in the transcript, the \<open>k\<close>-th timing of the \<open>n\<close>-th
  answer, and keeps its old timing when the answer has none.
\<close>

theorem fa_answers_reach_words:
  assumes "n < length (group_utterances f m t)" "n < length responses"
    and "k < length (fg_words (group_utterances f m t ! n))"
  shows "let w = fg_words (group_utterances f m t ! n) ! k;
             i = fw_utterance_index w; j = fw_word_index w
         in fw_text w = words_at f i ! j \<and>
            word_timings (distribute_all f (group_utterances f m t) responses) i ! j =
              (case timing_at (responses ! n) k of Some s \<Rightarrow> Some s | None \<Rightarrow> word_timings f i ! j)"
proof -
  let ?gs = "group_utterances f m t" and ?is = "fg_utterance_indices (group_utterances f m t ! n)"
  have g: "?gs ! n \<in> set ?gs" using assms by simp
  then have is_dist: "distinct ?is"
    by (rule distinct_concat_mapD [OF group_indices_distinct(1)])
  obtain i j where ij: "i \<in> set ?is" "j < length (words_at f i)" "k = answer_offset f ?is i + j"
    "words_of (words_at f) ?is ! k =
       \<lparr>fw_utterance_index = i, fw_word_index = j, fw_text = words_at f i ! j\<rparr>"
    using nth_words_of [of k f ?is] assms(3) is_dist group_words [OF g] by metis
  have "word_timings (distribute_all f ?gs responses) i =
      overlay (responses ! n) (answer_offset f ?is i) (word_timings f i)"
    by (rule distribute_all_reaches [OF group_indices_distinct(1)])
      (use group_indices_distinct(2) [of _ f m t] assms ij in \<open>blast intro: lessThan_iff [THEN iffD2]\<close>)+
  with ij show ?thesis by (simp add: group_words [OF g] overlay_nth length_word_timings)
qed

end
