(* ===== verification/Fa_Times.thy ===== *)
theory Fa_Times
  imports Fa_Correct
begin

text \<open>
  Where timings lie: postprocessing of word timings, utterance bullets, the tiling of a continuous
  alignment, and what token stitching recognises.
\<close>

section \<open>Reading and writing the timings of an utterance\<close>

lemma set_items:
  assumes "map_state (set_item_timing ts) items k = (items', k')"
    and "k + length (collect_word_timings items) \<le> length ts"
  shows "collect_word_timings items' = take (length (collect_word_timings items)) (drop k ts) \<and>
    k' = k + length (collect_word_timings items)"
  using assms
proof (induction items arbitrary: items' k k')
  case (Cons i items)
  obtain i1 k1 where i: "set_item_timing ts i k = (i1, k1)" by fastforce
  obtain is1 k2 where rest: "map_state (set_item_timing ts) items k1 = (is1, k2)" by fastforce
  have hd: "concat (map (\<lambda>i. map cw_bullet (spoken_word i)) [i1]) =
      take (length (spoken_word i)) (drop k ts) \<and> k1 = k + length (spoken_word i)"
    using i Cons.prems(2)
    by (cases i) (auto simp: set_word_timing_def collect_word_timings_def take_Suc_conv_app_nth
        hd_drop_conv_nth map_option.identity split: if_splits intro!: option.map_ident_strong)
  show ?case
    using Cons.IH [OF rest] Cons.prems i rest hd
    by (auto simp: collect_word_timings_def take_add add.commute)
qed (auto simp: collect_word_timings_def)

lemma collect_set_word_timings:
  "length ts = length (collect_word_timings items) \<Longrightarrow>
   collect_word_timings (set_word_timings items ts) = ts"
  using set_items [of ts items 0]
  by (cases "map_state (set_item_timing ts) items 0") (auto simp: set_word_timings_def)

lemma length_propagate [simp]: "length (propagate_starts ns ts) = length ts"
  by (induction ns ts rule: propagate_starts.induct) auto

lemma length_extend [simp]: "length (extend_last_timed b ts) = length ts"
  by (induction b ts rule: extend_last_timed.induct) auto

lemma length_postprocess [simp]: "length (postprocess_timings b m ts) = length ts"
  by (simp add: postprocess_timings_def continuous_ends_def split: option.split)

lemma collect_postprocess:
  "collect_word_timings (cu_content (postprocess_utterance_timings m u)) =
   postprocess_timings (cu_bullet u) m (collect_word_timings (cu_content u))"
  by (cases "collect_word_timings (cu_content u) = []")
    (auto simp: postprocess_utterance_timings_def Let_def collect_set_word_timings
      postprocess_timings_def continuous_ends_def split: option.split)

lemma bullet_postprocess [simp]: "cu_bullet (postprocess_utterance_timings m u) = cu_bullet u"
  by (simp add: postprocess_utterance_timings_def Let_def)

section \<open>Bullets\<close>

definition inside :: "TimeSpan \<Rightarrow> TimeSpan option \<Rightarrow> bool" where
  "inside b t = (case t of None \<Rightarrow> True
                 | Some s \<Rightarrow> ts_start b \<le> ts_start s \<and> ts_end s \<le> ts_end b)"

definition proper :: "TimeSpan option \<Rightarrow> bool" where
  "proper t = (case t of None \<Rightarrow> True | Some s \<Rightarrow> ts_start s < ts_end s)"

lemma clamp_None [simp]: "clamp_timing b None = None"
  by (simp add: clamp_timing_def)

lemma clamp_inside: "inside b (clamp_timing b t)" "proper (clamp_timing b t)"
  by (auto simp: clamp_timing_def inside_def proper_def Let_def split: option.split)

lemma span_extrema_append: "span_extrema (ss @ [s]) =
   (let (a, b) = span_extrema ss in
     (Some (case a of None \<Rightarrow> ts_start s | Some f \<Rightarrow> min (ts_start s) f),
      Some (case b of None \<Rightarrow> ts_end s | Some l \<Rightarrow> max (ts_end s) l)))"
  by (auto simp: span_extrema_def split: option.splits prod.splits)

lemma span_extrema_eq:
  "span_extrema ss = (if ss = [] then (None, None)
     else (Some (Min (ts_start ` set ss)), Some (Max (ts_end ` set ss))))"
proof (induction ss rule: rev_induct)
  case (snoc s ss)
  then show ?case
    by (cases "ss = []") (simp_all add: span_extrema_append span_extrema_def [of "[s]"])
qed (simp add: span_extrema_def)

definition timed :: "TimeSpan option list \<Rightarrow> TimeSpan list" where
  "timed ts = List.map_filter (\<lambda>t. t) ts"

lemma timed_simps [simp]: "timed [] = []" "timed (None # ts) = timed ts"
  "timed (Some s # ts) = s # timed ts"
  by (simp_all add: timed_def)

lemma set_timed: "s \<in> set (timed ts) \<longleftrightarrow> Some s \<in> set ts"
  by (force simp: timed_def List.map_filter_def)

lemma bullet_update:
  "cu_bullet (update_utterance_bullet u) =
     (let ss = timed (collect_word_timings (cu_content u)) in
      if ss = [] then cu_bullet u
      else Some (case cu_bullet u of
          None \<Rightarrow> time_span (Min (ts_start ` set ss)) (Max (ts_end ` set ss))
        | Some b \<Rightarrow> time_span (min (Min (ts_start ` set ss)) (ts_start b))
                              (max (Max (ts_end ` set ss)) (ts_end b))))"
  by (auto simp: update_utterance_bullet_def span_extrema_eq timed_def Let_def split: option.split)

lemma content_update [simp]: "cu_content (update_utterance_bullet u) = cu_content u"
  by (auto simp: update_utterance_bullet_def span_extrema_eq split: option.split prod.split)

lemma bullet_add_wor [simp]: "cu_bullet (add_wor_tier g u) = cu_bullet u"
  and content_add_wor [simp]: "cu_content (add_wor_tier g u) = cu_content u"
  by (simp_all add: add_wor_tier_def remove_wor_tier_def Let_def)

lemma finish_content: "cu_content (finish_utterance g m w u) = cu_content (postprocess_utterance_timings m u)"
  and finish_bullet: "cu_bullet (finish_utterance g m w u) =
    cu_bullet (update_utterance_bullet (postprocess_utterance_timings m u))"
  by (simp_all add: finish_utterance_def Let_def)

text \<open>The bullet of a finished utterance contains the timings of its spoken words, not of replacements.\<close>

definition bullet_covers :: "(WordItem list, 'r) ChatUtterance \<Rightarrow> bool" where
  "bullet_covers u \<longleftrightarrow>
     (case cu_bullet u of
        None \<Rightarrow> timed (collect_word_timings (cu_content u)) = []
      | Some b \<Rightarrow> list_all (inside b) (collect_word_timings (cu_content u)))"

lemma finish_covers: "bullet_covers (finish_utterance g m w u)"
proof -
  let ?v = "postprocess_utterance_timings m u"
  have "\<exists>b. cu_bullet (update_utterance_bullet ?v) = Some b \<and>
      list_all (inside b) (collect_word_timings (cu_content ?v))"
    if "timed (collect_word_timings (cu_content ?v)) \<noteq> []"
  proof -
    let ?ss = "timed (collect_word_timings (cu_content ?v))"
    have "Min (ts_start ` set ?ss) \<le> ts_start s \<and> ts_end s \<le> Max (ts_end ` set ?ss)"
      if "Some s \<in> set (collect_word_timings (cu_content ?v))" for s
      using that by (simp add: set_timed)
    then show ?thesis using that
      by (auto simp: bullet_update Let_def list_all_iff inside_def min_le_iff_disj le_max_iff_disj
          split: option.split)
  qed
  moreover have "list_all (inside b) ts" if "timed ts = []" for b ts
    using that set_timed [of _ ts] by (auto simp: list_all_iff inside_def split: option.split)
  moreover have "cu_bullet (update_utterance_bullet ?v) = cu_bullet ?v"
    if "timed (collect_word_timings (cu_content ?v)) = []"
    using that by (simp add: bullet_update)
  ultimately show ?thesis
    by (cases "timed (collect_word_timings (cu_content ?v)) = []")
      (auto simp: bullet_covers_def finish_content finish_bullet split: option.split)
qed

lemma finish_bulleted:
  assumes b: "cu_bullet u = Some b"
  shows "cu_bullet (finish_utterance g m w u) = Some b"
    and "list_all (inside b) (collect_word_timings (cu_content (finish_utterance g m w u)))"
    and "list_all proper (collect_word_timings (cu_content (finish_utterance g m w u)))"
proof -
  let ?v = "postprocess_utterance_timings m u"
  let ?ss = "timed (collect_word_timings (cu_content ?v))"
  have clamped: "list_all (inside b) (collect_word_timings (cu_content ?v)) \<and>
      list_all proper (collect_word_timings (cu_content ?v))"
    using b clamp_inside
    by (auto simp: collect_postprocess postprocess_timings_def list_all_iff)
  then show "list_all (inside b) (collect_word_timings (cu_content (finish_utterance g m w u)))"
    "list_all proper (collect_word_timings (cu_content (finish_utterance g m w u)))"
    by (simp_all add: finish_content)
  have "ts_start b \<le> Min (ts_start ` set ?ss) \<and> Max (ts_end ` set ?ss) \<le> ts_end b" if "?ss \<noteq> []"
  proof -
    have "ts_start b \<le> ts_start s \<and> ts_end s \<le> ts_end b" if "s \<in> set ?ss" for s
      using that clamped by (fastforce simp: set_timed list_all_iff inside_def)
    with \<open>?ss \<noteq> []\<close> show ?thesis by simp
  qed
  then show "cu_bullet (finish_utterance g m w u) = Some b"
    using b by (auto simp: finish_bullet bullet_update Let_def min_absorb2 max_absorb2)
qed

section \<open>The whole file\<close>

lemma finish_all:
  assumes "distinct is"
  shows "utterances (foldl (\<lambda>f i. modify_utterance i F f) f is) =
    map (\<lambda>i. if i \<in> set is then F (utterances f ! i) else utterances f ! i) [0..<length (utterances f)]"
  using assms
proof (induction "is" rule: rev_induct)
  case (snoc i "is")
  then show ?case by (auto intro!: nth_equalityI simp: nth_list_update)
qed (simp add: map_nth)

definition fa_output ::
  "((WordItem list, 'r) ChatUtterance \<Rightarrow> ChatWord list) \<Rightarrow> ('r, 'o) fa_file \<Rightarrow> nat \<Rightarrow> nat option \<Rightarrow>
   TimeSpan option list list \<Rightarrow> FaTimingMode \<Rightarrow> bool \<Rightarrow> ('r, 'o) fa_file" where
  "fa_output generate f max_group_ms total_audio_ms responses timing_mode write_wor =
     apply_fa_results generate f (group_utterances f max_group_ms total_audio_ms) responses
       timing_mode write_wor"

lemma fa_output_utterances:
  "utterances (fa_output gen f m t rs mode w) =
     map (\<lambda>i. if i \<in> set (concat (map fg_utterance_indices (group_utterances f m t)))
              then finish_utterance gen mode w (utterances (distribute_all f (group_utterances f m t) rs) ! i)
              else utterances f ! i) [0..<length (utterances f)]"
  unfolding fa_output_def apply_fa_results_def finish_all [OF group_indices_distinct(1)]
  using distribute_all_keeps [of f "group_utterances f m t" rs] by simp

lemma fa_output_nth:
  assumes "i < length (utterances f)"
  shows "utterances (fa_output gen f m t rs mode w) ! i =
     (if i \<in> set (concat (map fg_utterance_indices (group_utterances f m t)))
      then finish_utterance gen mode w (utterances (distribute_all f (group_utterances f m t) rs) ! i)
      else utterances f ! i)"
  unfolding fa_output_utterances using assms by simp

lemma length_fa_output [simp]:
  "length (utterances (fa_output gen f m t rs mode w)) = length (utterances f)"
  by (simp add: fa_output_utterances)

lemma grouped_lt:
  "i \<in> set (fg_utterance_indices g) \<Longrightarrow> g \<in> set (group_utterances f m t) \<Longrightarrow> i < length (utterances f)"
  using group_indices_distinct(2) [of i f m t] by auto


text \<open>
  Alignment never moves the bullet of an utterance that had one: neither shrinks nor expands it.
\<close>

theorem fa_keeps_bullets:
  "list_all (\<lambda>i. cu_bullet (utterances f ! i) = None \<or>
       cu_bullet (utterances (fa_output gen f m t rs mode w) ! i) = cu_bullet (utterances f ! i))
     [0..<length (utterances f)]"
  unfolding list_all_iff
proof
  fix i assume "i \<in> set [0..<length (utterances f)]"
  then have i: "i < length (utterances f)" by simp
  show "cu_bullet (utterances f ! i) = None \<or>
       cu_bullet (utterances (fa_output gen f m t rs mode w) ! i) = cu_bullet (utterances f ! i)"
  proof (cases "cu_bullet (utterances f ! i)")
    case (Some b)
    then show ?thesis using i distribute_all_keeps [of f "group_utterances f m t" rs]
      by (simp add: fa_output_nth finish_bulleted)
  qed simp
qed

text \<open>
  In an utterance with a bullet that took part in the alignment, every timed word starts strictly
  before it ends.
\<close>

theorem fa_bulleted_timings_proper:
  assumes "g \<in> set (group_utterances f m t)" "i \<in> set (fg_utterance_indices g)"
    and "cu_bullet (utterances f ! i) = Some b"
  shows "list_all proper
    (collect_word_timings (cu_content (utterances (fa_output gen f m t rs mode w) ! i)))"
  using assms distribute_all_keeps [of f "group_utterances f m t" rs] grouped_lt [OF assms(2,1)]
  by (auto simp: fa_output_nth finish_bulleted)

section \<open>Continuous alignment\<close>

text \<open>The two backward passes, read forwards: a word ends where the next timed word starts.\<close>

fun next_start :: "TimeSpan option list \<Rightarrow> nat option" where
  "next_start [] = None"
| "next_start (None # ts) = next_start ts"
| "next_start (Some s # ts) = Some (ts_start s)"

fun tiled :: "TimeSpan option \<Rightarrow> TimeSpan option list \<Rightarrow> TimeSpan option list" where
  "tiled b [] = []"
| "tiled b (None # ts) = None # tiled b ts"
| "tiled b (Some s # ts) =
     Some (case next_start ts of
         Some n \<Rightarrow> time_span (ts_start s) n
       | None \<Rightarrow> if ts_start s = ts_end s then time_span (ts_start s) (fallback_end b (ts_start s)) else s)
     # tiled b ts"

lemma propagate_append:
  "propagate_starts ns (xs @ [x]) =
     propagate_starts ns xs @ propagate_starts (case next_start (rev xs) of Some n \<Rightarrow> Some n | None \<Rightarrow> ns) [x]"
proof (induction ns xs rule: propagate_starts.induct)
  case (3 ns s ts)
  have "next_start (xs @ [Some s]) = (case next_start xs of Some n \<Rightarrow> Some n | None \<Rightarrow> Some (ts_start s))" for xs
    by (induction xs rule: next_start.induct) auto
  with 3 show ?case by (auto split: option.split)
next
  case (2 ns ts)
  have "next_start (xs @ [None]) = next_start xs" for xs
    by (induction xs rule: next_start.induct) auto
  with 2 show ?case by simp
qed simp

lemma next_start_rev: "next_start (rev xs) = None \<longleftrightarrow> next_start xs = None"
proof -
  have "next_start xs = None \<longleftrightarrow> (\<forall>x \<in> set xs. x = None)" for xs
    by (induction xs rule: next_start.induct) auto
  then show ?thesis by simp
qed

lemma extend_append:
  "extend_last_timed b (xs @ [x]) =
     (if next_start xs = None then extend_last_timed b xs @ extend_last_timed b [x]
      else extend_last_timed b xs @ [x])"
  by (induction b xs rule: extend_last_timed.induct) auto

lemma next_start_extend: "next_start (extend_last_timed b ts) = next_start ts"
  and next_start_rev_extend: "next_start (rev (extend_last_timed b ts)) = next_start (rev ts)"
proof -
  show "next_start (extend_last_timed b ts) = next_start ts"
    by (induction b ts rule: extend_last_timed.induct) auto
  have app: "next_start (xs @ [y]) = next_start (xs @ [z])"
    if "map_option ts_start y = map_option ts_start z" for xs y z
    using that by (induction xs rule: next_start.induct) (cases y; cases z; auto)+
  have cong: "next_start (xs @ [y]) = next_start (xs' @ [y])" if "next_start xs = next_start xs'" for xs xs' y
  proof -
    have "next_start (zs @ [y]) = (case next_start zs of Some n \<Rightarrow> Some n | None \<Rightarrow> next_start [y])" for zs
      by (induction zs rule: next_start.induct) auto
    with that show ?thesis by simp
  qed
  show "next_start (rev (extend_last_timed b ts)) = next_start (rev ts)"
    by (induction b ts rule: extend_last_timed.induct) (auto intro!: cong app)
qed

lemma continuous_ends_tiled: "continuous_ends b ts = tiled b ts"
proof (induction ts)
  case (Cons t ts)
  have "continuous_ends b (t # ts) = rev (propagate_starts None (extend_last_timed b (rev ts @ [t])))"
    by (simp add: continuous_ends_def)
  also have "\<dots> = (case t of
      None \<Rightarrow> None
    | Some s \<Rightarrow> Some (case next_start ts of
         Some n \<Rightarrow> time_span (ts_start s) n
       | None \<Rightarrow> if ts_start s = ts_end s then time_span (ts_start s) (fallback_end b (ts_start s)) else s))
    # continuous_ends b ts"
    using next_start_rev_extend [of b "rev ts"]
    by (auto simp: extend_append propagate_append next_start_rev continuous_ends_def
        split: option.split)
  finally show ?case using Cons by (cases t) auto
qed (simp add: continuous_ends_def)

text \<open>Onsets in strictly increasing order, within a window.\<close>

lemma tiled_timed:
  assumes "sorted_wrt (<) (map ts_start (timed ts))"
    and "list_all (\<lambda>s. lo \<le> ts_start s \<and> ts_start s = ts_end s \<and> ts_start s < hi) (timed ts)"
    and "b = Some (time_span lo hi)"
  shows "timed (map (clamp_timing (time_span lo hi)) (tiled b ts)) =
     map2 time_span (map ts_start (timed ts)) (tl (map ts_start (timed ts)) @ [hi])"
  using assms(1,2)
proof (induction ts)
  case Nil then show ?case by simp
next
  case (Cons t ts)
  show ?case
  proof (cases t)
    case None
    then show ?thesis using Cons by simp
  next
    case (Some s)
    have t: "timed (t # ts) = s # timed ts" using Some by simp
    have nxt: "next_start ts = (case timed ts of [] \<Rightarrow> None | s # _ \<Rightarrow> Some (ts_start s))"
      by (induction ts rule: next_start.induct) auto
    have IH: "timed (map (clamp_timing (time_span lo hi)) (tiled b ts)) =
       map2 time_span (map ts_start (timed ts)) (tl (map ts_start (timed ts)) @ [hi])"
      using Cons by (simp add: t)
    show ?thesis
    proof (cases "timed ts")
      case Nil
      then have "clamp_timing (time_span lo hi) (Some (time_span (ts_start s) (fallback_end b (ts_start s)))) =
          Some (time_span (ts_start s) hi)"
        using Cons.prems t assms(3) by (auto simp: clamp_timing_def fallback_end_def)
      then show ?thesis using Cons.prems IH nxt Some t Nil by auto
    next
      case (Cons s' ss)
      then have "clamp_timing (time_span lo hi) (Some (time_span (ts_start s) (ts_start s'))) =
          Some (time_span (ts_start s) (ts_start s'))"
        using Cons.prems t by (auto simp: clamp_timing_def)
      then show ?thesis using IH nxt Some t Cons
        by auto
    qed
  qed
qed

text \<open>
  A continuous alignment tiles the utterance: when the onsets that reached an utterance increase
  strictly inside its bullet, each timed word ends where the next one starts and the last one ends
  with the bullet, so no time between the first onset and the end is left out.
\<close>

theorem fa_continuous_tiles:
  assumes "cu_bullet u = Some (time_span lo hi)"
    and "timed (collect_word_timings (cu_content u)) = map (\<lambda>s. time_span s s) starts"
    and "sorted_wrt (<) starts" "list_all (\<lambda>s. lo \<le> s \<and> s < hi) starts"
  shows "timed (collect_word_timings (cu_content (postprocess_utterance_timings FtContinuous u))) =
    map2 time_span starts (tl starts @ [hi])"
proof -
  have "timed (map (clamp_timing (time_span lo hi))
      (tiled (Some (time_span lo hi)) (collect_word_timings (cu_content u)))) =
    map2 time_span starts (tl starts @ [hi])"
    using tiled_timed [of "collect_word_timings (cu_content u)" lo hi, unfolded assms(2)] assms(3,4)
    by (simp add: list_all_iff comp_def)
  then show ?thesis
    by (simp add: collect_postprocess postprocess_timings_def assms(1) continuous_ends_tiled)
qed

section \<open>Token stitching\<close>

text \<open>The tokens of a word: at least one, none of them empty.\<close>

definition spelled :: "(rstr \<times> nat) list \<Rightarrow> rstr" where
  "spelled p = concat (map fst p)"

definition token_run :: "(rstr \<times> nat) list \<Rightarrow> bool" where
  "token_run p \<longleftrightarrow> p \<noteq> [] \<and> list_all (\<lambda>(t, _). t \<noteq> []) p"

lemma spelled_nonempty: "token_run p \<Longrightarrow> spelled p \<noteq> []"
  by (cases p) (auto simp: token_run_def spelled_def)

lemma stitch_word_sound:
  "stitch_word w acc ts = Some rest \<Longrightarrow> list_all (\<lambda>(t, _). t \<noteq> []) ts \<Longrightarrow>
   \<exists>p. ts = p @ rest \<and> acc @ spelled p = w \<and> token_run p"
proof (induction w acc ts rule: stitch_word.induct)
  case (2 w acc t s ts)
  show ?case
  proof (cases "acc @ t = w")
    case True
    then show ?thesis using 2(2,3)
      by (intro exI [of _ "[(t, s)]"]) (auto simp: spelled_def token_run_def Let_def split: if_splits)
  next
    case False
    then have "stitch_word w (acc @ t) ts = Some rest" "starts_with w (acc @ t)"
      using 2(2) by (auto simp: Let_def split: if_splits)
    with 2(1) [OF refl] False 2(3) obtain p where
      "ts = p @ rest" "(acc @ t) @ spelled p = w" "token_run p" by auto
    then show ?thesis using 2(3)
      by (intro exI [of _ "(t, s) # p"]) (auto simp: spelled_def token_run_def)
  qed
qed simp

lemma stitch_word_complete:
  "token_run p \<Longrightarrow> acc @ spelled p = w \<Longrightarrow> stitch_word w acc (p @ rest) = Some rest"
proof (induction p arbitrary: acc)
  case (Cons ts p)
  obtain t s where ts: "ts = (t, s)" by fastforce
  show ?case
  proof (cases "p = []")
    case True
    then show ?thesis using Cons.prems ts by (auto simp: spelled_def Let_def starts_with_iff)
  next
    case False
    then have p: "token_run p" using Cons.prems(1) by (auto simp: token_run_def)
    then have "spelled p \<noteq> []" by (rule spelled_nonempty)
    moreover have w: "(acc @ t) @ spelled p = w" using Cons.prems(2) ts by (simp add: spelled_def)
    ultimately have "starts_with w (acc @ t)" "acc @ t \<noteq> w" by (auto simp: starts_with_iff)
    with Cons.IH [OF p w] show ?thesis using ts by (simp add: Let_def)
  qed
qed (simp add: token_run_def)

lemma stitch_words_sound:
  "list_all (\<lambda>(t, _). t \<noteq> []) ts \<Longrightarrow>
   \<exists>parts rest. ts = concat parts @ rest \<and> list_all token_run parts \<and>
     take (length parts) ws = map spelled parts \<and> length parts \<le> length ws \<and>
     map (map_option ts_start) (stitch_words mode ws ts) =
       map (\<lambda>p. Some (snd (hd p))) parts @ replicate (length ws - length parts) None"
proof (induction mode ws ts rule: stitch_words.induct)
  case (3 mode w ws t s ts)
  show ?case
  proof (cases "stitch_word w [] ((t, s) # ts)")
    case None
    then show ?thesis
      by (intro exI [of _ "[]"] exI [of _ "(t, s) # ts"]) (simp del: stitch_word.simps)
  next
    case (Some rest)
    from stitch_word_sound [OF Some "3.prems"] obtain p where
      p: "(t, s) # ts = p @ rest" "spelled p = w" "token_run p" by auto
    then have "list_all (\<lambda>(t, _). t \<noteq> []) rest" using "3.prems" by (metis list_all_append)
    from "3.IH" [OF Some this] obtain parts rest' where
      r: "rest = concat parts @ rest'" "list_all token_run parts"
      "take (length parts) ws = map spelled parts" "length parts \<le> length ws"
      "map (map_option ts_start) (stitch_words mode ws rest) =
         map (\<lambda>p. Some (snd (hd p))) parts @ replicate (length ws - length parts) None" by blast
    have "hd p = (t, s)" using p by (cases p) (auto simp: token_run_def)
    moreover have "stitch_words mode (w # ws) ((t, s) # ts) =
        Some (time_span s (stitched_end mode s rest)) # stitch_words mode ws rest"
      using Some by (simp del: stitch_word.simps)
    moreover have "(t, s) # ts = concat (p # parts) @ rest'" using p r by simp
    ultimately show ?thesis using p(2,3) r(2-5)
      by (intro exI [of _ "p # parts"] exI [of _ rest']) (simp del: stitch_words.simps)
  qed
qed (auto intro!: exI [of _ "[]"])

lemma stitch_words_complete:
  "list_all token_run parts \<Longrightarrow>
   map (map_option ts_start) (stitch_words mode (map spelled parts) (concat parts @ rest)) =
     map (\<lambda>p. Some (snd (hd p))) parts"
proof (induction parts)
  case (Cons p parts)
  then obtain t s p' where p: "p = (t, s) # p'" by (cases p) (auto simp: token_run_def)
  have "stitch_word (spelled p) [] (p @ concat parts @ rest) = Some (concat parts @ rest)"
    by (rule stitch_word_complete) (use Cons.prems in auto)
  then show ?case using Cons p by simp
qed simp

lemma usable_nonempty: "list_all (\<lambda>(t, _). t \<noteq> []) (usable_tokens lower alnum tokens off)"
  by (auto simp: list_all_iff usable_tokens_def Let_def split: if_splits)

abbreviation word_norms ::
  "(rchar \<Rightarrow> rstr) \<Rightarrow> (rchar \<Rightarrow> bool) \<Rightarrow> FaWord list \<Rightarrow> rstr list" where
  "word_norms lower alnum original \<equiv>
     map (\<lambda>w. normalize_fa_alignment_unit lower alnum (fw_text w)) original"

lemma align_token_timings_cases:
  "align_token_timings lower alnum original tokens off mode =
     (if [] \<in> set (word_norms lower alnum original) then replicate (length original) None
      else stitch_words mode (word_norms lower alnum original) (usable_tokens lower alnum tokens off))"
proof -
  have "stitch_words mode ws [] = replicate (length ws) None" for ws by (cases ws) auto
  moreover have "usable_tokens lower alnum [] off = []" by (simp add: usable_tokens_def)
  ultimately show ?thesis by (auto simp: align_token_timings_def Let_def)
qed

text \<open>
  What a stitched answer says: the timed words are the first ones, the tokens can be cut so that the
  runs spell exactly these words, and each starts with the first token of its run.
\<close>

theorem token_stitching_sound:
  "\<exists>parts rest.
     usable_tokens lower alnum tokens off = concat parts @ rest \<and>
     map spelled parts = take (length parts) (word_norms lower alnum original) \<and>
     map (map_option ts_start) (align_token_timings lower alnum original tokens off mode) =
       map (\<lambda>p. Some (snd (hd p))) parts @ replicate (length original - length parts) None"
proof (cases "[] \<in> set (word_norms lower alnum original)")
  case True
  then show ?thesis
    by (intro exI [of _ "[]"] exI [of _ "usable_tokens lower alnum tokens off"])
      (simp add: align_token_timings_cases)
next
  case False
  have "\<exists>parts rest. usable_tokens lower alnum tokens off = concat parts @ rest \<and>
     list_all token_run parts \<and>
     take (length parts) (word_norms lower alnum original) = map spelled parts \<and>
     length parts \<le> length (word_norms lower alnum original) \<and>
     map (map_option ts_start) (stitch_words mode (word_norms lower alnum original)
         (usable_tokens lower alnum tokens off)) =
       map (\<lambda>p. Some (snd (hd p))) parts @
         replicate (length (word_norms lower alnum original) - length parts) None"
    by (rule stitch_words_sound [OF usable_nonempty])
  then show ?thesis using False by (auto simp: align_token_timings_cases)
qed

text \<open>
  Stitching succeeds whenever it can: if the tokens, cut into runs, spell the words, every word is
  timed with the start of the first token of its run, whatever follows the last run.
\<close>

theorem token_stitching_complete:
  assumes "usable_tokens lower alnum tokens off = concat parts @ rest" "list_all token_run parts"
    and "word_norms lower alnum original = map spelled parts"
  shows "map (map_option ts_start) (align_token_timings lower alnum original tokens off mode) =
    map (\<lambda>p. Some (snd (hd p))) parts"
proof -
  have "spelled p \<noteq> []" if "p \<in> set parts" for p
    using that assms(2) by (simp add: list_all_iff spelled_nonempty)
  then have "[] \<notin> set (word_norms lower alnum original)" unfolding assms(3) by (metis imageE list.set_map)
  then show ?thesis
    unfolding align_token_timings_cases assms(1,3) using stitch_words_complete [OF assms(2)] by simp
qed

section \<open>Witnesses and limits\<close>

definition chat_word :: "rstr \<Rightarrow> TimeSpan option \<Rightarrow> ChatWord" where
  "chat_word t b = \<lparr>cw_text = t, cw_counts = True, cw_bullet = b\<rparr>"

definition chat_utterance ::
  "WordItem list \<Rightarrow> TimeSpan option \<Rightarrow> (WordItem list, unit) ChatUtterance" where
  "chat_utterance items b =
     \<lparr>cu_speaker = lit ''CHI'', cu_content = items, cu_bullet = b, cu_tiers = [], cu_lazy_overlap = False\<rparr>"

lemmas chat_defs = chat_word_def chat_utterance_def time_span_def

lemmas grouping_defs = group_utterances_def group_utterance_def utterance_span_def group_acc0_def
  close_group_def number_words_def collect_fa_words_def

definition two_words :: "(unit, unit) fa_file" where
  "two_words = [ClUtterance (chat_utterance [WiWord (chat_word (lit ''a'') None),
     WiWord (chat_word (lit ''b'') None)] (Some (time_span 0 1000)))]"

lemma two_words_groups:
  "group_utterances two_words 20000 None =
     [\<lparr>fg_audio_span = time_span 0 1000,
       fg_words = [\<lparr>fw_utterance_index = 0, fw_word_index = 0, fw_text = lit ''a''\<rparr>,
                   \<lparr>fw_utterance_index = 0, fw_word_index = 1, fw_text = lit ''b''\<rparr>],
       fg_utterance_indices = [0]\<rparr>]"
  by (simp add: two_words_def grouping_defs chat_defs)

lemma two_words_bullet: "cu_bullet (utterances two_words ! 0) = Some (time_span 0 1000)"
  by (simp add: two_words_def chat_utterance_def)

definition two_answers :: "TimeSpan option list list" where
  "two_answers = [[Some (time_span 100 200), Some (time_span 300 400)]]"

theorem fa_answers_reach_words_witness:
  "let w = fg_words (group_utterances two_words 20000 None ! 0) ! 1;
       i = fw_utterance_index w; j = fw_word_index w
   in fw_text w = words_at two_words i ! j \<and>
      word_timings (distribute_all two_words (group_utterances two_words 20000 None) two_answers) i ! j =
        (case timing_at (two_answers ! 0) 1 of Some s \<Rightarrow> Some s | None \<Rightarrow> word_timings two_words i ! j)"
  by (rule fa_answers_reach_words) (simp_all add: two_words_groups two_answers_def)

theorem fa_bulleted_timings_proper_witness:
  "list_all proper (collect_word_timings (cu_content
     (utterances (fa_output (\<lambda>_. []) two_words 20000 None two_answers FtContinuous False) ! 0)))"
  by (rule fa_bulleted_timings_proper [where g = "hd (group_utterances two_words 20000 None)"
        and b = "time_span 0 1000"])
    (simp_all add: two_words_groups two_words_bullet)

theorem fa_continuous_tiles_witness:
  "timed (collect_word_timings (cu_content (postprocess_utterance_timings FtContinuous
     (chat_utterance [WiWord (chat_word (lit ''a'') (Some (time_span 100 100))),
        WiWord (chat_word (lit ''b'') None),
        WiWord (chat_word (lit ''c'') (Some (time_span 300 300)))] (Some (time_span 0 1000)))))) =
   [time_span 100 300, time_span 300 1000]"
  using fa_continuous_tiles [of "chat_utterance [WiWord (chat_word (lit ''a'') (Some (time_span 100 100))),
        WiWord (chat_word (lit ''b'') None),
        WiWord (chat_word (lit ''c'') (Some (time_span 300 300)))] (Some (time_span 0 1000))" 0 1000 "[100, 300]"]
  by (simp add: chat_utterance_def chat_word_def collect_word_timings_def)

theorem token_stitching_complete_witness:
  "map (map_option ts_start) (align_token_timings (\<lambda>c. [c]) (\<lambda>c. True)
     [\<lparr>fw_utterance_index = 0, fw_word_index = 0, fw_text = lit ''ab''\<rparr>]
     [\<lparr>rt_text = lit ''a'', rt_time_s = 1\<rparr>, \<lparr>rt_text = lit ''b'', rt_time_s = 2\<rparr>] 0 FtWithPauses) =
   [Some 1000]"
proof -
  have trims: "trim (lit ''a'') = lit ''a''" "trim (lit ''b'') = lit ''b''"
    by (simp_all add: trim_def trim_matches_def is_whitespace_def lit_def)
  have starts: "token_start_ms 1 0 = 1000" "token_start_ms 2 0 = 2000"
    by (simp_all add: token_start_ms_def u64_add_def u64_max_def)
  have "usable_tokens (\<lambda>c. [c]) (\<lambda>c. True)
     [\<lparr>rt_text = lit ''a'', rt_time_s = 1\<rparr>, \<lparr>rt_text = lit ''b'', rt_time_s = 2\<rparr>] 0 =
    concat [[(lit ''a'', 1000), (lit ''b'', 2000)]] @ []"
    using starts by (simp add: usable_tokens_def trims normalize_fa_alignment_unit_def) (simp add: lit_def)
  then show ?thesis
    by (subst token_stitching_complete [where parts = "[[(lit ''a'', 1000), (lit ''b'', 2000)]]"])
      (simp_all add: token_run_def spelled_def normalize_fa_alignment_unit_def lit_def)
qed

definition overlapping_turns :: "(unit, unit) fa_file" where
  "overlapping_turns =
     [ClUtterance (chat_utterance [WiWord (chat_word (lit ''a'') None)] (Some (time_span 0 9000))),
      ClUtterance (chat_utterance [WiWord (chat_word (lit ''b'') None)] (Some (time_span 1000 2000)))]"

text \<open>
  The window of a group ends with its last utterance and starts with its first: when an utterance
  lies inside the one before it, the audio sent to the aligner stops before the longer one ends.
\<close>

theorem group_window_misses_utterance:
  "map (\<lambda>g. (fg_audio_span g, fg_utterance_indices g)) (group_utterances overlapping_turns 20000 None) =
     [(time_span 0 2000, [0, 1])] \<and>
   cu_bullet (utterances overlapping_turns ! 0) = Some (time_span 0 9000)"
  by (simp add: overlapping_turns_def grouping_defs chat_defs)

text \<open>
  Without an utterance bullet nothing drops an invalid timing: an onset that goes back leaves a word
  that ends before it starts.
\<close>

theorem unbulleted_timing_reversed:
  "collect_word_timings (cu_content (postprocess_utterance_timings FtContinuous
     (chat_utterance [WiWord (chat_word (lit ''a'') (Some (time_span 2000 2000))),
        WiWord (chat_word (lit ''b'') (Some (time_span 1000 1000)))] None))) =
   [Some (time_span 2000 1000), Some (time_span 1000 1500)]"
  by (simp add: collect_postprocess postprocess_timings_def continuous_ends_def)
    (simp add: chat_utterance_def chat_word_def collect_word_timings_def fallback_end_def u64_add_def
      continuous_ends_def postprocess_timings_def)

text \<open>
  The timing of a replaced word goes to its replacement, which postprocessing does not visit: it is
  not bounded by the utterance, and in a continuous alignment it keeps its zero length.
\<close>

theorem replacement_timing_unbounded:
  "word_timings (fa_output (\<lambda>_. [])
     [ClUtterance (chat_utterance [WiReplaced (chat_word (lit ''a'') None) [chat_word (lit ''b'') None]]
        (Some (time_span 0 1000)))]
     20000 None [[Some (time_span 5000 5000)]] FtContinuous False :: (unit, unit) fa_file) 0 =
   [Some (time_span 5000 5000)]"
  by (simp add: fa_output_def apply_fa_results_def distribute_all_def grouping_defs chat_defs
      get_utterance_def inject_timings_for_utterance_def cursor_with_offset_def
      inject_timing_on_word_def cursor_take_def finish_utterance_def postprocess_utterance_timings_def
      collect_word_timings_def postprocess_timings_def set_word_timings_def set_word_timing_def
      continuous_ends_def word_timings_def collect_existing_fa_word_timings_def
      update_utterance_bullet_def span_extrema_def List.map_filter_def)

end
