(* ===== verification/Fa_Reuse.thy ===== *)
theory Fa_Reuse
  imports Fa_Times
begin

text \<open>
  Reuse and removal of timing (\<open>chat-ops/fa/orchestrate.rs\<close>, \<open>mod.rs\<close>): the cheap rerun that copies
  the timing tier back to the words, and the passes that strip the timing of utterances that are out
  of order or overlap. The alignment of the main tier with the timing tier
  (\<open>align_main_to_wor\<close> of talkbank-model) is the argument \<open>align\<close>: whether it is free of errors, and
  its pairs of indices.
\<close>

section \<open>Reuse of the timing tier\<close>

type_synonym 'r wor_aligner =
  "(WordItem list, 'r) ChatUtterance \<Rightarrow> ChatWord list \<Rightarrow> bool \<times> (nat option \<times> nat option) list"

fun wor_words :: "'r DependentTier list \<Rightarrow> ChatWord list option" where
  "wor_words [] = None"
| "wor_words (DtWor ws # ts) = Some ws"
| "wor_words (DtOther r # ts) = wor_words ts"

fun fill_pairs ::
  "nat \<Rightarrow> ChatWord list \<Rightarrow> (nat option \<times> nat option) list \<Rightarrow> TimeSpan option list \<Rightarrow>
   TimeSpan option list option" where
  "fill_pairs main_count ws [] timings = Some timings"
| "fill_pairs main_count ws ((Some m, Some k) # pairs) timings =
     (if m \<ge> main_count \<or> k \<ge> length ws then None
      else case cw_bullet (ws ! k) of
             None \<Rightarrow> None
           | Some b \<Rightarrow> fill_pairs main_count ws pairs
                         (timings[m := Some (time_span (ts_start b) (ts_end b))]))"
| "fill_pairs main_count ws (_ # pairs) timings = None"

definition collect_wor_backed_timings ::
  "'r wor_aligner \<Rightarrow> (WordItem list, 'r) ChatUtterance \<Rightarrow> TimeSpan option list option" where
  "collect_wor_backed_timings align u =
     (case wor_words (cu_tiers u) of
        None \<Rightarrow> None
      | Some ws \<Rightarrow>
          (case align u ws of (error_free, pairs) \<Rightarrow>
             if \<not> error_free then None
             else let n = count_alignable_main_words (cu_content u)
                  in fill_pairs n ws pairs (replicate n None)))"

definition has_reusable_wor_timing_for_utterance ::
  "'r wor_aligner \<Rightarrow> (WordItem list, 'r) ChatUtterance \<Rightarrow> bool" where
  "has_reusable_wor_timing_for_utterance align u \<longleftrightarrow> collect_wor_backed_timings align u \<noteq> None"

text \<open>
  The result tells whether the utterance was refreshed. Internal bullet tokens are not word items,
  so their removal does not show here.
\<close>

definition refresh_existing_alignment_for_utterance ::
  "'r wor_aligner \<Rightarrow> ((WordItem list, 'r) ChatUtterance \<Rightarrow> ChatWord list) \<Rightarrow> bool \<Rightarrow>
   (WordItem list, 'r) ChatUtterance \<Rightarrow> bool \<times> (WordItem list, 'r) ChatUtterance" where
  "refresh_existing_alignment_for_utterance align generate write_wor u =
     (case collect_wor_backed_timings align u of
        None \<Rightarrow> (False, u)
      | Some timings \<Rightarrow>
          (let u1 = update_utterance_bullet (fst (inject_timings_for_utterance u timings 0))
           in (True, if write_wor then add_wor_tier generate u1 else u1)))"

definition has_reusable_wor_timing :: "'r wor_aligner \<Rightarrow> ('r, 'o) fa_file \<Rightarrow> bool" where
  "has_reusable_wor_timing align f \<longleftrightarrow>
     (let us = filter (\<lambda>u. count_alignable_main_words (cu_content u) \<noteq> 0) (utterances f)
      in list_all (has_reusable_wor_timing_for_utterance align) us \<and> us \<noteq> [])"

definition find_reusable_utterance_indices :: "'r wor_aligner \<Rightarrow> ('r, 'o) fa_file \<Rightarrow> nat list" where
  "find_reusable_utterance_indices align f =
     map fst (filter (\<lambda>(i, u). count_alignable_main_words (cu_content u) > 0 \<and>
                               has_reusable_wor_timing_for_utterance align u)
       (enumerate 0 (utterances f)))"

text \<open>\<open>None\<close> is the failed assertion.\<close>

fun refresh_existing_alignment ::
  "'r wor_aligner \<Rightarrow> ((WordItem list, 'r) ChatUtterance \<Rightarrow> ChatWord list) \<Rightarrow> bool \<Rightarrow>
   ('r, 'o) fa_file \<Rightarrow> ('r, 'o) fa_file option" where
  "refresh_existing_alignment align generate write_wor [] = Some []"
| "refresh_existing_alignment align generate write_wor (ClOther l # ls) =
     map_option ((#) (ClOther l)) (refresh_existing_alignment align generate write_wor ls)"
| "refresh_existing_alignment align generate write_wor (ClUtterance u # ls) =
     (if count_alignable_main_words (cu_content u) = 0
      then map_option ((#) (ClUtterance u)) (refresh_existing_alignment align generate write_wor ls)
      else case refresh_existing_alignment_for_utterance align generate write_wor u of
             (False, _) \<Rightarrow> None
           | (True, u') \<Rightarrow>
               map_option ((#) (ClUtterance u')) (refresh_existing_alignment align generate write_wor ls))"

definition refresh_reusable_utterances ::
  "'r wor_aligner \<Rightarrow> ((WordItem list, 'r) ChatUtterance \<Rightarrow> ChatWord list) \<Rightarrow> nat list \<Rightarrow> bool \<Rightarrow>
   ('r, 'o) fa_file \<Rightarrow> ('r, 'o) fa_file" where
  "refresh_reusable_utterances align generate reusable write_wor f =
     foldl (\<lambda>f i. if i \<in> set reusable
                  then modify_utterance i
                         (\<lambda>u. snd (refresh_existing_alignment_for_utterance align generate write_wor u)) f
                  else f) f [0..<length (utterances f)]"

section \<open>Content with its groups\<close>

text \<open>The constructors that the stripping passes match on; \<open>BiOther\<close> and \<open>UcOther\<close> are all others.\<close>

datatype 'x BracketedItem =
    BiWord ChatWord
  | BiAnnotatedWord ChatWord
  | BiAnnotatedGroup "'x BracketedItem list"
  | BiPhoGroup "'x BracketedItem list"
  | BiSinGroup "'x BracketedItem list"
  | BiQuotation "'x BracketedItem list"
  | BiInternalBullet TimeSpan
  | BiOther 'x

datatype 'x UtteranceContent =
    UcWord ChatWord
  | UcAnnotatedWord ChatWord
  | UcReplacedWord ChatWord "ChatWord list"
  | UcGroup "'x BracketedItem list"
  | UcAnnotatedGroup "'x BracketedItem list"
  | UcInternalBullet TimeSpan
  | UcOther 'x

abbreviation untime :: "ChatWord \<Rightarrow> ChatWord" where
  "untime w \<equiv> w\<lparr>cw_bullet := None\<rparr>"

fun strip_timing_from_bracketed :: "'x BracketedItem list \<Rightarrow> 'x BracketedItem list" where
  "strip_timing_from_bracketed [] = []"
| "strip_timing_from_bracketed (BiInternalBullet b # xs) = strip_timing_from_bracketed xs"
| "strip_timing_from_bracketed (BiWord w # xs) = BiWord (untime w) # strip_timing_from_bracketed xs"
| "strip_timing_from_bracketed (BiAnnotatedWord w # xs) =
     BiAnnotatedWord (untime w) # strip_timing_from_bracketed xs"
| "strip_timing_from_bracketed (BiAnnotatedGroup g # xs) =
     BiAnnotatedGroup (strip_timing_from_bracketed g) # strip_timing_from_bracketed xs"
| "strip_timing_from_bracketed (x # xs) = x # strip_timing_from_bracketed xs"

fun strip_timing_from_content :: "'x UtteranceContent list \<Rightarrow> 'x UtteranceContent list" where
  "strip_timing_from_content [] = []"
| "strip_timing_from_content (UcInternalBullet b # xs) = strip_timing_from_content xs"
| "strip_timing_from_content (UcWord w # xs) = UcWord (untime w) # strip_timing_from_content xs"
| "strip_timing_from_content (UcAnnotatedWord w # xs) =
     UcAnnotatedWord (untime w) # strip_timing_from_content xs"
| "strip_timing_from_content (UcReplacedWord w rs # xs) =
     UcReplacedWord (untime w) rs # strip_timing_from_content xs"
| "strip_timing_from_content (UcGroup g # xs) =
     UcGroup (strip_timing_from_bracketed g) # strip_timing_from_content xs"
| "strip_timing_from_content (UcAnnotatedGroup g # xs) =
     UcAnnotatedGroup (strip_timing_from_bracketed g) # strip_timing_from_content xs"
| "strip_timing_from_content (x # xs) = x # strip_timing_from_content xs"

fun strip_internal_bullet_tokens_bracketed :: "'x BracketedItem list \<Rightarrow> 'x BracketedItem list" where
  "strip_internal_bullet_tokens_bracketed [] = []"
| "strip_internal_bullet_tokens_bracketed (BiInternalBullet b # xs) =
     strip_internal_bullet_tokens_bracketed xs"
| "strip_internal_bullet_tokens_bracketed (BiAnnotatedGroup g # xs) =
     BiAnnotatedGroup (strip_internal_bullet_tokens_bracketed g)
     # strip_internal_bullet_tokens_bracketed xs"
| "strip_internal_bullet_tokens_bracketed (BiPhoGroup g # xs) =
     BiPhoGroup (strip_internal_bullet_tokens_bracketed g) # strip_internal_bullet_tokens_bracketed xs"
| "strip_internal_bullet_tokens_bracketed (BiSinGroup g # xs) =
     BiSinGroup (strip_internal_bullet_tokens_bracketed g) # strip_internal_bullet_tokens_bracketed xs"
| "strip_internal_bullet_tokens_bracketed (BiQuotation g # xs) =
     BiQuotation (strip_internal_bullet_tokens_bracketed g) # strip_internal_bullet_tokens_bracketed xs"
| "strip_internal_bullet_tokens_bracketed (x # xs) = x # strip_internal_bullet_tokens_bracketed xs"

fun strip_internal_bullet_tokens :: "'x UtteranceContent list \<Rightarrow> 'x UtteranceContent list" where
  "strip_internal_bullet_tokens [] = []"
| "strip_internal_bullet_tokens (UcInternalBullet b # xs) = strip_internal_bullet_tokens xs"
| "strip_internal_bullet_tokens (UcGroup g # xs) =
     UcGroup (strip_internal_bullet_tokens_bracketed g) # strip_internal_bullet_tokens xs"
| "strip_internal_bullet_tokens (UcAnnotatedGroup g # xs) =
     UcAnnotatedGroup (strip_internal_bullet_tokens_bracketed g) # strip_internal_bullet_tokens xs"
| "strip_internal_bullet_tokens (x # xs) = x # strip_internal_bullet_tokens xs"

definition strip_utterance_timing ::
  "('x UtteranceContent list, 'r) ChatUtterance \<Rightarrow> ('x UtteranceContent list, 'r) ChatUtterance" where
  "strip_utterance_timing u =
     u\<lparr>cu_bullet := None, cu_content := strip_timing_from_content (cu_content u),
       cu_tiers := filter (\<lambda>t. \<not> is_wor_tier t) (cu_tiers u)\<rparr>"

section \<open>Order and overlap\<close>

fun enforce_monotonicity_from ::
  "nat \<Rightarrow> ('x UtteranceContent list, 'r, 'o) ChatLine list \<Rightarrow>
   ('x UtteranceContent list, 'r, 'o) ChatLine list" where
  "enforce_monotonicity_from last_start_ms [] = []"
| "enforce_monotonicity_from last_start_ms (ClOther l # ls) =
     ClOther l # enforce_monotonicity_from last_start_ms ls"
| "enforce_monotonicity_from last_start_ms (ClUtterance u # ls) =
     (case cu_bullet u of
        Some b \<Rightarrow>
          if ts_start b < last_start_ms
          then ClUtterance (strip_utterance_timing u) # enforce_monotonicity_from last_start_ms ls
          else ClUtterance u # enforce_monotonicity_from (ts_start b) ls
      | None \<Rightarrow> ClUtterance u # enforce_monotonicity_from last_start_ms ls)"

definition enforce_monotonicity ::
  "('x UtteranceContent list, 'r, 'o) ChatLine list \<Rightarrow>
   ('x UtteranceContent list, 'r, 'o) ChatLine list" where
  "enforce_monotonicity f = enforce_monotonicity_from 0 f"

definition e704_tolerance_ms :: nat where "e704_tolerance_ms = 500"

fun timed_turns :: "nat \<Rightarrow> ('c, 'r, 'o) ChatLine list \<Rightarrow> (nat \<times> rstr \<times> TimeSpan) list" where
  "timed_turns i [] = []"
| "timed_turns i (ClOther l # ls) = timed_turns (Suc i) ls"
| "timed_turns i (ClUtterance u # ls) =
     (case cu_bullet u of
        Some b \<Rightarrow> (i, cu_speaker u, b) # timed_turns (Suc i) ls
      | None \<Rightarrow> timed_turns (Suc i) ls)"

definition e704_overlaps :: "(nat \<times> rstr \<times> TimeSpan) list \<Rightarrow> nat list" where
  "e704_overlaps turns =
     fst (foldl (\<lambda>(to_strip, last_by_speaker) (line_idx, speaker, b).
       ((case hm_get last_by_speaker speaker of
           Some (prev_idx, prev_end) \<Rightarrow>
             if prev_end > u64_add (ts_start b) e704_tolerance_ms then to_strip @ [prev_idx]
             else to_strip
         | None \<Rightarrow> to_strip),
        hm_insert speaker (line_idx, ts_end b) last_by_speaker)) ([], []) turns)"

definition strip_line ::
  "('x UtteranceContent list, 'r, 'o) ChatLine \<Rightarrow> ('x UtteranceContent list, 'r, 'o) ChatLine" where
  "strip_line l = (case l of ClUtterance u \<Rightarrow> ClUtterance (strip_utterance_timing u) | ClOther x \<Rightarrow> ClOther x)"

definition strip_e704_same_speaker_overlaps ::
  "('x UtteranceContent list, 'r, 'o) ChatLine list \<Rightarrow>
   ('x UtteranceContent list, 'r, 'o) ChatLine list" where
  "strip_e704_same_speaker_overlaps f =
     foldl (\<lambda>f i. f[i := strip_line (f ! i)]) f (e704_overlaps (timed_turns 0 f))"

section \<open>Properties\<close>

definition bullet_starts :: "('c, 'r, 'o) ChatLine list \<Rightarrow> nat list" where
  "bullet_starts f = map ts_start (List.map_filter cu_bullet (utterances f))"

lemma bullet_starts_simps [simp]:
  "bullet_starts [] = []" "bullet_starts (ClOther l # ls) = bullet_starts ls"
  "bullet_starts (ClUtterance u # ls) =
     (case cu_bullet u of Some b \<Rightarrow> ts_start b # bullet_starts ls | None \<Rightarrow> bullet_starts ls)"
  by (auto simp: bullet_starts_def split: option.split)

lemma strip_bullet [simp]: "cu_bullet (strip_utterance_timing u) = None"
  by (simp add: strip_utterance_timing_def)

lemma monotone_from:
  "sorted (prev # bullet_starts (enforce_monotonicity_from prev f))"
  by (induction prev f rule: enforce_monotonicity_from.induct)
    (auto split: option.split, fastforce)

lemma monotone_fixed:
  "sorted (prev # bullet_starts f) \<Longrightarrow> enforce_monotonicity_from prev f = f"
  by (induction prev f rule: enforce_monotonicity_from.induct) (auto split: option.splits)

text \<open>
  After the pass the bullets that are left start in order, and a file whose bullets start in order
  is left as it is; so the pass is idempotent.
\<close>

theorem monotonicity_enforced:
  "sorted (bullet_starts (enforce_monotonicity f)) \<and>
   (enforce_monotonicity f = f \<longleftrightarrow> sorted (bullet_starts f)) \<and>
   enforce_monotonicity (enforce_monotonicity f) = enforce_monotonicity f"
proof -
  have sorted: "sorted (bullet_starts (enforce_monotonicity f))" for f :: "('a UtteranceContent list, 'b, 'c) ChatLine list"
    using monotone_from [of 0 f] by (simp add: enforce_monotonicity_def)
  moreover have "enforce_monotonicity f = f" if "sorted (bullet_starts f)"
    for f :: "('a UtteranceContent list, 'b, 'c) ChatLine list"
    using that monotone_fixed [of 0 f] by (simp add: enforce_monotonicity_def)
  ultimately show ?thesis by metis
qed

lemma length_fill_pairs:
  "fill_pairs n ws pairs ts = Some ts' \<Longrightarrow> length ts' = length ts"
  by (induction n ws pairs ts rule: fill_pairs.induct) (auto split: if_splits option.splits)

lemma fill_pairs_untouched:
  "fill_pairs n ws pairs ts = Some ts' \<Longrightarrow> m \<notin> {m. \<exists>k. (Some m, k) \<in> set pairs} \<Longrightarrow> ts' ! m = ts ! m"
  by (induction n ws pairs ts rule: fill_pairs.induct) (auto split: if_splits option.splits)

lemma reusable_refresh_some:
  "list_all (has_reusable_wor_timing_for_utterance align)
      (filter (\<lambda>u. count_alignable_main_words (cu_content u) \<noteq> 0) (utterances f)) \<Longrightarrow>
   \<exists>f'. refresh_existing_alignment align generate write_wor f = Some f'"
  by (induction align generate write_wor f rule: refresh_existing_alignment.induct)
    (auto simp: refresh_existing_alignment_for_utterance_def Let_def
      has_reusable_wor_timing_for_utterance_def split: option.split if_splits)

text \<open>The whole-file check promises what the rerun asserts.\<close>

theorem reusable_file_refreshes:
  "has_reusable_wor_timing align f \<Longrightarrow>
   \<exists>f'. refresh_existing_alignment align generate write_wor f = Some f'"
  by (simp add: has_reusable_wor_timing_def Let_def reusable_refresh_some)

text \<open>
  A refreshed utterance carries, on its alignable words, the timings that the timing tier gives
  them; words without one keep theirs.
\<close>

lemma refreshed_timings:
  assumes "collect_wor_backed_timings align u = Some ts"
  shows "fst (refresh_existing_alignment_for_utterance align generate w u)"
    "collect_existing_fa_word_timings
       (cu_content (snd (refresh_existing_alignment_for_utterance align generate w u))) =
     overlay ts 0 (collect_existing_fa_word_timings (cu_content u))"
proof -
  obtain u' k where inj: "inject_timings_for_utterance u ts 0 = (u', k)" by fastforce
  show "fst (refresh_existing_alignment_for_utterance align generate w u)"
    "collect_existing_fa_word_timings
       (cu_content (snd (refresh_existing_alignment_for_utterance align generate w u))) =
     overlay ts 0 (collect_existing_fa_word_timings (cu_content u))"
    using inject_utterance(3) [OF inj] assms inj
    by (auto simp: refresh_existing_alignment_for_utterance_def Let_def)
qed

text \<open>
  The stripping of an utterance misses the words inside a phonological group, and the replacement
  of a replaced word.
\<close>

theorem strip_leaves_timing:
  "strip_timing_from_content
     [UcGroup [BiPhoGroup [BiWord (chat_word (lit ''a'') (Some (time_span 1 2)))]],
      UcReplacedWord (chat_word (lit ''b'') None) [chat_word (lit ''c'') (Some (time_span 3 4))]] =
     [UcGroup [BiPhoGroup [BiWord (chat_word (lit ''a'') (Some (time_span 1 2)))]],
      UcReplacedWord (chat_word (lit ''b'') None) [chat_word (lit ''c'') (Some (time_span 3 4))]]"
  by (simp add: chat_word_def)

text \<open>A file of one utterance whose timing tier matches.\<close>

definition rerun_file :: "(unit, unit) fa_file" where
  "rerun_file = [ClUtterance ((chat_utterance [WiWord (chat_word (lit ''a'') None)] None)
     \<lparr>cu_tiers := [DtWor [chat_word (lit ''a'') (Some (time_span 10 20))]]\<rparr>)]"

theorem reusable_file_refreshes_witness:
  "\<exists>f'. refresh_existing_alignment (\<lambda>u ws. (True, [(Some 0, Some 0)])) (\<lambda>_. []) False rerun_file = Some f'"
  by (rule reusable_file_refreshes)
    (simp add: has_reusable_wor_timing_def has_reusable_wor_timing_for_utterance_def
      collect_wor_backed_timings_def rerun_file_def chat_utterance_def chat_word_def
      count_alignable_main_words_def)

end
