(* ===== verification/Diff.thy ===== *)
theory Diff
  imports Fa_Types Align_Correct "HOL-Library.Multiset"
begin

text \<open>
  The utterance diff of incremental processing (\<open>chat-ops/diff\<close>): the alignment of two versions of a
  file by the words of their utterances, its classification into deltas, and the copying of dependent
  tiers. The words of an utterance in the domain of the morphology tier (\<open>extract_words\<close>) are the
  argument \<open>mor_words\<close>.
\<close>

section \<open>Deltas\<close>

datatype UtteranceDelta =
    UdUnchanged nat nat
  | UdWordsChanged nat nat bool
  | UdTimingOnly nat nat
  | UdSpeakerChanged nat nat
  | UdInserted nat
  | UdDeleted nat

fun needs_nlp_reprocessing :: "UtteranceDelta \<Rightarrow> bool" where
  "needs_nlp_reprocessing (UdWordsChanged b a t) = True"
| "needs_nlp_reprocessing (UdInserted a) = True"
| "needs_nlp_reprocessing _ = False"

fun affects_timing :: "UtteranceDelta \<Rightarrow> bool" where
  "affects_timing (UdWordsChanged b a t) = t"
| "affects_timing (UdTimingOnly b a) = True"
| "affects_timing (UdInserted a) = True"
| "affects_timing (UdDeleted b) = True"
| "affects_timing _ = False"

fun before_idx :: "UtteranceDelta \<Rightarrow> nat option" where
  "before_idx (UdUnchanged b a) = Some b"
| "before_idx (UdWordsChanged b a t) = Some b"
| "before_idx (UdTimingOnly b a) = Some b"
| "before_idx (UdSpeakerChanged b a) = Some b"
| "before_idx (UdDeleted b) = Some b"
| "before_idx (UdInserted a) = None"

fun after_idx :: "UtteranceDelta \<Rightarrow> nat option" where
  "after_idx (UdUnchanged b a) = Some a"
| "after_idx (UdWordsChanged b a t) = Some a"
| "after_idx (UdTimingOnly b a) = Some a"
| "after_idx (UdSpeakerChanged b a) = Some a"
| "after_idx (UdInserted a) = Some a"
| "after_idx (UdDeleted b) = None"

record DiffSummary =
  ds_unchanged :: nat
  ds_words_changed :: nat
  ds_timing_only :: nat
  ds_speaker_changed :: nat
  ds_inserted :: nat
  ds_deleted :: nat

definition diff_summary0 :: DiffSummary where
  "diff_summary0 = \<lparr>ds_unchanged = 0, ds_words_changed = 0, ds_timing_only = 0,
     ds_speaker_changed = 0, ds_inserted = 0, ds_deleted = 0\<rparr>"

fun count_delta :: "DiffSummary \<Rightarrow> UtteranceDelta \<Rightarrow> DiffSummary" where
  "count_delta s (UdUnchanged b a) = s\<lparr>ds_unchanged := ds_unchanged s + 1\<rparr>"
| "count_delta s (UdWordsChanged b a t) = s\<lparr>ds_words_changed := ds_words_changed s + 1\<rparr>"
| "count_delta s (UdTimingOnly b a) = s\<lparr>ds_timing_only := ds_timing_only s + 1\<rparr>"
| "count_delta s (UdSpeakerChanged b a) = s\<lparr>ds_speaker_changed := ds_speaker_changed s + 1\<rparr>"
| "count_delta s (UdInserted a) = s\<lparr>ds_inserted := ds_inserted s + 1\<rparr>"
| "count_delta s (UdDeleted b) = s\<lparr>ds_deleted := ds_deleted s + 1\<rparr>"

definition summary_from_deltas :: "UtteranceDelta list \<Rightarrow> DiffSummary" where
  "summary_from_deltas ds = foldl count_delta diff_summary0 ds"

definition needs_reprocessing :: "DiffSummary \<Rightarrow> nat" where
  "needs_reprocessing s = ds_words_changed s + ds_inserted s"

definition diff_total :: "DiffSummary \<Rightarrow> nat" where
  "diff_total s = ds_unchanged s + ds_words_changed s + ds_timing_only s + ds_speaker_changed s
     + ds_inserted s + ds_deleted s"

section \<open>Classification\<close>

definition utterance_fingerprint :: "rstr list \<Rightarrow> rstr" where
  "utterance_fingerprint ws = join_with (lit '' '') ws"

definition speaker_at :: "('c, 'r, 'o) ChatLine list \<Rightarrow> nat \<Rightarrow> rstr option" where
  "speaker_at f i = map_option cu_speaker (get_utterance f i)"

definition bullet_at :: "('c, 'r, 'o) ChatLine list \<Rightarrow> nat \<Rightarrow> TimeSpan option" where
  "bullet_at f i = (case get_utterance f i of None \<Rightarrow> None | Some u \<Rightarrow> cu_bullet u)"

definition timing_differs ::
  "('c, 'r, 'o) ChatLine list \<Rightarrow> nat \<Rightarrow> ('c, 'r, 'o) ChatLine list \<Rightarrow> nat \<Rightarrow> bool" where
  "timing_differs bef b aft a \<longleftrightarrow> bullet_at bef b \<noteq> bullet_at aft a"

definition classify_same_words ::
  "('c, 'r, 'o) ChatLine list \<Rightarrow> nat \<Rightarrow> ('c, 'r, 'o) ChatLine list \<Rightarrow> nat \<Rightarrow> UtteranceDelta" where
  "classify_same_words bef b aft a =
     (case (speaker_at bef b = speaker_at aft a, \<not> timing_differs bef b aft a) of
        (True, True) \<Rightarrow> UdUnchanged b a
      | (True, False) \<Rightarrow> UdTimingOnly b a
      | (False, _) \<Rightarrow> UdSpeakerChanged b a)"

fun classify_alignment ::
  "('c, 'r, 'o) ChatLine list \<Rightarrow> ('c, 'r, 'o) ChatLine list \<Rightarrow> AlignResult list \<Rightarrow>
   UtteranceDelta list" where
  "classify_alignment bef aft [] = []"
| "classify_alignment bef aft (AlMatch k a b # rest) =
     classify_same_words bef b aft a # classify_alignment bef aft rest"
| "classify_alignment bef aft (ExtraPayload k a # ExtraReference k' b # rest) =
     UdWordsChanged b a (timing_differs bef b aft a) # classify_alignment bef aft rest"
| "classify_alignment bef aft (ExtraReference k b # ExtraPayload k' a # rest) =
     UdWordsChanged b a (timing_differs bef b aft a) # classify_alignment bef aft rest"
| "classify_alignment bef aft (ExtraPayload k a # rest) =
     UdInserted a # classify_alignment bef aft rest"
| "classify_alignment bef aft (ExtraReference k b # rest) =
     UdDeleted b # classify_alignment bef aft rest"

definition idx_order :: "nat option \<Rightarrow> nat" where
  "idx_order i = (case i of Some n \<Rightarrow> n | None \<Rightarrow> u64_max)"

text \<open>The comparison is lexicographic and the sort stable: sort by the second key, then the first.\<close>

definition sort_deltas :: "UtteranceDelta list \<Rightarrow> UtteranceDelta list" where
  "sort_deltas ds =
     sort_key (\<lambda>d. idx_order (after_idx d)) (sort_key (\<lambda>d. idx_order (before_idx d)) ds)"

definition diff_chat ::
  "(rstr \<Rightarrow> rstr) \<Rightarrow> (rstr \<Rightarrow> rstr \<Rightarrow> rat) \<Rightarrow> (('c, 'r) ChatUtterance \<Rightarrow> rstr list) \<Rightarrow>
   ('c, 'r, 'o) ChatLine list \<Rightarrow> ('c, 'r, 'o) ChatLine list \<Rightarrow> UtteranceDelta list option" where
  "diff_chat lower jaro mor_words bef aft =
     (let before_fps = map (\<lambda>u. utterance_fingerprint (mor_words u)) (utterances bef);
          after_fps = map (\<lambda>u. utterance_fingerprint (mor_words u)) (utterances aft)
      in map_option (\<lambda>alignment. sort_deltas (classify_alignment bef aft alignment))
           (align lower jaro after_fps before_fps MmExact))"

section \<open>Tiers\<close>

datatype 'm OtherTier = OtMor 'm | OtGra rstr | OtUserDefined rstr rstr | OtOther rstr

datatype TierKind = TkMor | TkGra | TkWor

fun tier_is_kind :: "'m OtherTier DependentTier \<Rightarrow> TierKind \<Rightarrow> bool" where
  "tier_is_kind (DtOther (OtMor s)) TkMor = True"
| "tier_is_kind (DtOther (OtGra s)) TkGra = True"
| "tier_is_kind (DtWor ws) TkWor = True"
| "tier_is_kind _ _ = False"

definition tier_matches :: "'m OtherTier DependentTier \<Rightarrow> TierKind list \<Rightarrow> bool" where
  "tier_matches t kinds \<longleftrightarrow> list_ex (tier_is_kind t) kinds"

fun variant_matches :: "'m OtherTier DependentTier \<Rightarrow> 'm OtherTier DependentTier \<Rightarrow> bool" where
  "variant_matches (DtOther (OtMor s)) (DtOther (OtMor s')) = True"
| "variant_matches (DtOther (OtGra s)) (DtOther (OtGra s')) = True"
| "variant_matches (DtWor ws) (DtWor ws') = True"
| "variant_matches (DtOther (OtUserDefined l s)) (DtOther (OtUserDefined l' s')) = (l = l')"
| "variant_matches _ _ = False"

fun replace_or_add_tier ::
  "'m OtherTier DependentTier list \<Rightarrow> 'm OtherTier DependentTier \<Rightarrow> 'm OtherTier DependentTier list" where
  "replace_or_add_tier [] new_tier = [new_tier]"
| "replace_or_add_tier (t # ts) new_tier =
     (if variant_matches t new_tier then new_tier # ts else t # replace_or_add_tier ts new_tier)"

definition copy_dependent_tiers ::
  "('c, 'm OtherTier, 'o) ChatLine list \<Rightarrow> nat \<Rightarrow> ('c, 'm OtherTier, 'o) ChatLine list \<Rightarrow> nat \<Rightarrow>
   TierKind list \<Rightarrow> nat \<times> ('c, 'm OtherTier, 'o) ChatLine list" where
  "copy_dependent_tiers bef b aft a kinds =
     (let tiers = (case get_utterance bef b of
                     None \<Rightarrow> [] | Some u \<Rightarrow> filter (\<lambda>t. tier_matches t kinds) (cu_tiers u))
      in (length tiers,
          modify_utterance a (\<lambda>u. u\<lparr>cu_tiers := foldl replace_or_add_tier (cu_tiers u) tiers\<rparr>) aft))"

section \<open>What the deltas cover\<close>

abbreviation afters :: "UtteranceDelta list \<Rightarrow> nat list" where
  "afters ds \<equiv> List.map_filter after_idx ds"

abbreviation befores :: "UtteranceDelta list \<Rightarrow> nat list" where
  "befores ds \<equiv> List.map_filter before_idx ds"

lemma classify_same_idx [simp]:
  "after_idx (classify_same_words bef b aft a) = Some a"
  "before_idx (classify_same_words bef b aft a) = Some b"
  by (simp_all add: classify_same_words_def split: bool.split)

lemma classify_positions:
  "afters (classify_alignment bef aft res) = payload_positions res"
  "befores (classify_alignment bef aft res) = reference_positions res"
  by (induction bef aft res rule: classify_alignment.induct) (simp_all add: List.map_filter_simps)

lemma mset_map_filter: "mset xs = mset ys \<Longrightarrow> mset (List.map_filter f xs) = mset (List.map_filter f ys)"
proof -
  have "mset (List.map_filter f zs) = image_mset (the \<circ> f) (filter_mset (\<lambda>x. f x \<noteq> None) (mset zs))" for zs
    by (simp add: List.map_filter_def)
  then show "mset xs = mset ys \<Longrightarrow> mset (List.map_filter f xs) = mset (List.map_filter f ys)" by simp
qed

lemma mset_sort_deltas [simp]: "mset (sort_deltas ds) = mset ds"
  by (simp add: sort_deltas_def)

lemma set_sort_deltas [simp]: "set (sort_deltas ds) = set ds"
  by (simp add: sort_deltas_def)

lemma sorted_map_filter_key:
  "sorted (map (\<lambda>d. idx_order (f d)) ds) \<Longrightarrow> sorted (List.map_filter f ds)"
proof (induction ds)
  case (Cons d ds)
  have "idx_order (f e) = n" if "f e = Some n" for e n using that by (simp add: idx_order_def)
  then show ?case using Cons
    by (cases "f d") (fastforce simp: List.map_filter_simps List.map_filter_def idx_order_def)+
qed (simp add: List.map_filter_simps)

lemma fingerprints_align:
  obtains res where "align lower jaro ps rs MmExact = Some res"
    "aligns (string_matches lower jaro MmExact) string_key ps rs 0 0 res"
  using string_exact.aligner_optimal unfolding align_def by blast

text \<open>
  The diff loses nothing: it returns, its deltas name every utterance of the edited file exactly
  once and in document order, and every utterance of the old file exactly once.
\<close>

theorem diff_covers_both_files:
  "\<exists>ds. diff_chat lower jaro mor_words bef aft = Some ds \<and>
     afters ds = [0..<length (utterances aft)] \<and>
     mset (befores ds) = mset [0..<length (utterances bef)]"
proof -
  let ?fp = "\<lambda>u. utterance_fingerprint (mor_words u)"
  obtain res where res: "align lower jaro (map ?fp (utterances aft)) (map ?fp (utterances bef)) MmExact = Some res"
    and al: "aligns (string_matches lower jaro MmExact) string_key (map ?fp (utterances aft))
      (map ?fp (utterances bef)) 0 0 res"
    by (rule fingerprints_align)
  let ?cs = "classify_alignment bef aft res"
  have pos: "afters ?cs = [0..<length (utterances aft)]" "befores ?cs = [0..<length (utterances bef)]"
    using aligns_positions [OF al] by (simp_all add: classify_positions)
  have sorted: "sorted (afters (sort_deltas ?cs))"
    by (rule sorted_map_filter_key) (simp add: sort_deltas_def)
  have "mset (afters (sort_deltas ?cs)) = mset [0..<length (utterances aft)]"
    using mset_map_filter [of "sort_deltas ?cs" ?cs after_idx] pos by simp
  then have "afters (sort_deltas ?cs) = [0..<length (utterances aft)]"
    using properties_for_sort [OF _ sorted] by (metis sorted_sort_id sorted_upt)
  moreover have "mset (befores (sort_deltas ?cs)) = mset [0..<length (utterances bef)]"
    using mset_map_filter [of "sort_deltas ?cs" ?cs before_idx] pos by simp
  ultimately show ?thesis using res by (simp add: diff_chat_def Let_def)
qed

section \<open>What a delta says\<close>

definition fingerprint_at ::
  "(('c, 'r) ChatUtterance \<Rightarrow> rstr list) \<Rightarrow> ('c, 'r, 'o) ChatLine list \<Rightarrow> nat \<Rightarrow> rstr" where
  "fingerprint_at mor_words f i = utterance_fingerprint (mor_words (utterances f ! i))"

definition same_words ::
  "(('c, 'r) ChatUtterance \<Rightarrow> rstr list) \<Rightarrow> ('c, 'r, 'o) ChatLine list \<Rightarrow>
   ('c, 'r, 'o) ChatLine list \<Rightarrow> nat \<Rightarrow> nat \<Rightarrow> bool" where
  "same_words mor_words bef aft b a \<longleftrightarrow>
     fingerprint_at mor_words bef b = fingerprint_at mor_words aft a"

fun delta_true ::
  "(('c, 'r) ChatUtterance \<Rightarrow> rstr list) \<Rightarrow> ('c, 'r, 'o) ChatLine list \<Rightarrow>
   ('c, 'r, 'o) ChatLine list \<Rightarrow> UtteranceDelta \<Rightarrow> bool" where
  "delta_true mw bef aft (UdUnchanged b a) =
     (same_words mw bef aft b a \<and> speaker_at bef b = speaker_at aft a \<and> bullet_at bef b = bullet_at aft a)"
| "delta_true mw bef aft (UdTimingOnly b a) =
     (same_words mw bef aft b a \<and> speaker_at bef b = speaker_at aft a \<and> bullet_at bef b \<noteq> bullet_at aft a)"
| "delta_true mw bef aft (UdSpeakerChanged b a) =
     (same_words mw bef aft b a \<and> speaker_at bef b \<noteq> speaker_at aft a)"
| "delta_true mw bef aft (UdWordsChanged b a t) =
     (\<not> same_words mw bef aft b a \<and> t = (bullet_at bef b \<noteq> bullet_at aft a))"
| "delta_true mw bef aft (UdInserted a) = True"
| "delta_true mw bef aft (UdDeleted b) = True"

text \<open>The pairs of unmatched neighbours in an alignment.\<close>

definition neighbours :: "AlignResult list \<Rightarrow> nat \<Rightarrow> nat \<Rightarrow> bool" where
  "neighbours res a b \<longleftrightarrow> (\<exists>xs ys k k'.
     res = xs @ ExtraPayload k a # ExtraReference k' b # ys \<or>
     res = xs @ ExtraReference k' b # ExtraPayload k a # ys)"

lemma aligns_appendD:
  "aligns mt key ps rs po ro res \<Longrightarrow> res = xs @ ys \<Longrightarrow>
   \<exists>p1 p2 r1 r2. ps = p1 @ p2 \<and> rs = r1 @ r2 \<and> aligns mt key p1 r1 po ro xs \<and>
     aligns mt key p2 r2 (po + length p1) (ro + length r1) ys"
proof (induction arbitrary: xs rule: aligns.induct)
  case (al_match x y ps rs po ro res)
  show ?case
  proof (cases xs)
    case Nil
    then show ?thesis using al_match
      by (intro exI [of _ "[]"] exI [of _ "y # ps"] exI [of _ "[]"] exI [of _ "x # rs"]) (auto intro: aligns.intros)
  next
    case (Cons r xs')
    then obtain p1 p2 r1 r2 where "ps = p1 @ p2" "rs = r1 @ r2" "aligns mt key p1 r1 (Suc po) (Suc ro) xs'"
      "aligns mt key p2 r2 (Suc po + length p1) (Suc ro + length r1) ys"
      using al_match.IH [of xs'] al_match.prems by auto
    then show ?thesis using Cons al_match.hyps al_match.prems
      by (intro exI [of _ "y # p1"] exI [of _ p2] exI [of _ "x # r1"] exI [of _ r2])
        (auto intro: aligns.intros)
  qed
next
  case (al_payload ps rs po ro res y)
  show ?case
  proof (cases xs)
    case Nil
    then show ?thesis using al_payload
      by (intro exI [of _ "[]"] exI [of _ "y # ps"] exI [of _ "[]"] exI [of _ "rs"]) (auto intro: aligns.intros)
  next
    case (Cons r xs')
    then obtain p1 p2 r1 r2 where "ps = p1 @ p2" "rs = r1 @ r2" "aligns mt key p1 r1 (Suc po) ro xs'"
      "aligns mt key p2 r2 (Suc po + length p1) (ro + length r1) ys"
      using al_payload.IH [of xs'] al_payload.prems by auto
    then show ?thesis using Cons al_payload.hyps al_payload.prems
      by (intro exI [of _ "y # p1"] exI [of _ p2] exI [of _ r1] exI [of _ r2])
        (auto intro: aligns.intros)
  qed
next
  case (al_reference ps rs po ro res x)
  show ?case
  proof (cases xs)
    case Nil
    then show ?thesis using al_reference
      by (intro exI [of _ "[]"] exI [of _ "ps"] exI [of _ "[]"] exI [of _ "x # rs"]) (auto intro: aligns.intros)
  next
    case (Cons r xs')
    then obtain p1 p2 r1 r2 where "ps = p1 @ p2" "rs = r1 @ r2" "aligns mt key p1 r1 po (Suc ro) xs'"
      "aligns mt key p2 r2 (po + length p1) (Suc ro + length r1) ys"
      using al_reference.IH [of xs'] al_reference.prems by auto
    then show ?thesis using Cons al_reference.hyps al_reference.prems
      by (intro exI [of _ p1] exI [of _ p2] exI [of _ "x # r1"] exI [of _ r2])
        (auto intro: aligns.intros)
  qed
qed (auto intro: aligns.intros)

inductive_cases aligns_matchE: "aligns mt key ps rs po ro (AlMatch k a b # res)"
inductive_cases aligns_payloadE: "aligns mt key ps rs po ro (ExtraPayload k a # res)"
inductive_cases aligns_referenceE: "aligns mt key ps rs po ro (ExtraReference k b # res)"

text \<open>Two unmatched neighbours that could be paired make an alignment improvable.\<close>

lemma neighbours_improvable:
  assumes al: "aligns mt key ps rs 0 0 res" and "neighbours res a b"
  obtains "a < length ps" "b < length rs"
    "mt (rs ! b) (ps ! a) \<Longrightarrow> \<exists>res'. aligns mt key ps rs 0 0 res' \<and> cost res' < cost res"
proof -
  obtain xs ys k k' where res: "res = xs @ [ExtraPayload k a, ExtraReference k' b] @ ys \<or>
      res = xs @ [ExtraReference k' b, ExtraPayload k a] @ ys"
    using assms(2) by (auto simp: neighbours_def)
  then obtain mid where mid: "res = xs @ mid @ ys"
    "mid = [ExtraPayload k a, ExtraReference k' b] \<or> mid = [ExtraReference k' b, ExtraPayload k a]" by blast
  obtain p1 p2 r1 r2 where 1: "ps = p1 @ p2" "rs = r1 @ r2" "aligns mt key p1 r1 0 0 xs"
    "aligns mt key p2 r2 (length p1) (length r1) (mid @ ys)"
    using aligns_appendD [OF al mid(1)] by auto
  then obtain y x p3 r3 where 2: "p2 = y # p3" "r2 = x # r3" "a = length p1" "b = length r1"
    "aligns mt key p3 r3 (Suc (length p1)) (Suc (length r1)) ys"
    using mid(2) by (auto elim!: aligns_payloadE aligns_referenceE)
  show thesis
  proof (rule that)
    show "a < length ps" "b < length rs" using 1 2 by simp_all
    assume "mt (rs ! b) (ps ! a)"
    then have "mt x y" using 1 2 by simp
    then have "aligns mt key p2 r2 (length p1) (length r1) (AlMatch (key x) (length p1) (length r1) # ys)"
      using 2 by (auto intro: aligns.intros)
    then have "aligns mt key ps rs 0 0 (xs @ AlMatch (key x) (length p1) (length r1) # ys)"
      using aligns_append [OF 1(3)] 1(1,2) by simp
    moreover have "cost (xs @ AlMatch (key x) (length p1) (length r1) # ys) < cost res"
      using mid by auto
    ultimately show "\<exists>res'. aligns mt key ps rs 0 0 res' \<and> cost res' < cost res" by blast
  qed
qed

lemma aligns_matches:
  assumes "aligns mt key ps rs po ro res" "AlMatch k a b \<in> set res"
  shows "po \<le> a \<and> ro \<le> b \<and> a < po + length ps \<and> b < ro + length rs \<and> mt (rs ! (b - ro)) (ps ! (a - po))"
proof -
  obtain xs ys where "res = xs @ AlMatch k a b # ys" using split_list [OF assms(2)] by blast
  from aligns_appendD [OF assms(1) this] obtain p1 p2 r1 r2 where
    "ps = p1 @ p2" "rs = r1 @ r2"
    "aligns mt key p2 r2 (po + length p1) (ro + length r1) (AlMatch k a b # ys)" by blast
  then show ?thesis by (auto elim!: aligns_matchE)
qed

lemma neighbours_tail:
  assumes "neighbours res a b"
  shows "neighbours (r # res) a b"
proof -
  from assms obtain xs ys k k' where
    "res = xs @ ExtraPayload k a # ExtraReference k' b # ys \<or>
     res = xs @ ExtraReference k' b # ExtraPayload k a # ys" by (auto simp: neighbours_def)
  then show ?thesis unfolding neighbours_def
    by (intro exI [of _ "r # xs"] exI [of _ ys] exI [of _ k] exI [of _ k']) simp
qed

lemma neighbours_head:
  "neighbours (ExtraPayload k a # ExtraReference k' b # ys) a b"
  "neighbours (ExtraReference k' b # ExtraPayload k a # ys) a b"
  unfolding neighbours_def
  by (intro exI [of _ "[]"] exI [of _ ys] exI [of _ k] exI [of _ k'], simp)+

lemma classified_neighbours:
  "UdWordsChanged b a t \<in> set (classify_alignment bef aft res) \<Longrightarrow>
   neighbours res a b \<and> t = timing_differs bef b aft a"
  by (induction bef aft res rule: classify_alignment.induct)
    (auto simp: classify_same_words_def split: bool.splits intro: neighbours_tail neighbours_head)

lemma classified_matches:
  "d \<in> set (classify_alignment bef aft res) \<Longrightarrow>
   (case d of UdUnchanged b a \<Rightarrow> True | UdTimingOnly b a \<Rightarrow> True | UdSpeakerChanged b a \<Rightarrow> True | _ \<Rightarrow> False) \<Longrightarrow>
   \<exists>k a b. AlMatch k a b \<in> set res \<and> d = classify_same_words bef b aft a"
  by (induction bef aft res rule: classify_alignment.induct) auto

text \<open>
  Every delta is true: what it calls unchanged has the same words, speaker and bullet; what it calls
  a timing change differs in the bullet alone; a speaker change has the same words and another
  speaker; a change of words is one, and says correctly whether the bullet changed too.
\<close>

theorem diff_deltas_true:
  "case diff_chat lower jaro mor_words bef aft of
     None \<Rightarrow> False | Some ds \<Rightarrow> list_all (delta_true mor_words bef aft) ds"
proof -
  let ?fp = "\<lambda>u. utterance_fingerprint (mor_words u)"
  let ?ps = "map ?fp (utterances aft)" and ?rs = "map ?fp (utterances bef)"
  let ?mt = "string_matches lower jaro MmExact"
  obtain res where res: "align lower jaro ?ps ?rs MmExact = Some res"
    and al: "aligns ?mt string_key ?ps ?rs 0 0 res"
    and least: "\<And>res'. aligns ?mt string_key ?ps ?rs 0 0 res' \<Longrightarrow> cost res \<le> cost res'"
    using string_exact.aligner_optimal [of lower jaro ?ps ?rs] unfolding align_def by blast
  have same: "same_words mor_words bef aft b a" if "AlMatch k a b \<in> set res" for k a b
    using aligns_matches [OF al that] by (auto simp: same_words_def fingerprint_at_def string_matches_def)
  have differ: "\<not> same_words mor_words bef aft b a" if "neighbours res a b" for a b
  proof
    assume "same_words mor_words bef aft b a"
    moreover have "a < length ?ps" "b < length ?rs"
      "?mt (?rs ! b) (?ps ! a) \<Longrightarrow> \<exists>res'. aligns ?mt string_key ?ps ?rs 0 0 res' \<and> cost res' < cost res"
      using neighbours_improvable [OF al that] by blast+
    ultimately obtain res' where "aligns ?mt string_key ?ps ?rs 0 0 res'" "cost res' < cost res"
      by (auto simp: same_words_def fingerprint_at_def string_matches_def)
    with least show False by fastforce
  qed
  have "delta_true mor_words bef aft d" if d: "d \<in> set (classify_alignment bef aft res)" for d
  proof (cases d)
    case (UdWordsChanged b a t)
    then show ?thesis using classified_neighbours [of b a t bef aft res] d differ
      by (simp add: timing_differs_def)
  qed (use classified_matches [OF d] same in
      \<open>auto simp: classify_same_words_def timing_differs_def split: bool.splits\<close>)
  then show ?thesis using res by (simp add: diff_chat_def Let_def list_all_iff)
qed

text \<open>
  A speaker change hides a change of timing: the delta is not reported as affecting timing although
  the bullet differs.
\<close>

theorem speaker_change_hides_timing:
  assumes "speaker_at bef b \<noteq> speaker_at aft a" "bullet_at bef b \<noteq> bullet_at aft a"
  shows "classify_same_words bef b aft a = UdSpeakerChanged b a \<and>
    \<not> affects_timing (classify_same_words bef b aft a)"
  using assms by (simp add: classify_same_words_def)

section \<open>Summaries\<close>

lemma foldl_count_total: "diff_total (foldl count_delta s ds) = diff_total s + length ds"
proof (induction ds arbitrary: s)
  case (Cons d ds)
  then show ?case by (cases d) (simp_all add: diff_total_def)
qed simp

lemma summary_total: "diff_total (summary_from_deltas ds) = length ds"
  unfolding summary_from_deltas_def foldl_count_total by (simp add: diff_total_def diff_summary0_def)

lemma foldl_count_reprocessing:
  "needs_reprocessing (foldl count_delta s ds) =
   needs_reprocessing s + length (filter needs_nlp_reprocessing ds)"
proof (induction ds arbitrary: s)
  case (Cons d ds)
  then show ?case by (cases d) (simp_all add: needs_reprocessing_def)
qed simp

lemma summary_reprocessing:
  "needs_reprocessing (summary_from_deltas ds) = length (filter needs_nlp_reprocessing ds)"
  unfolding summary_from_deltas_def foldl_count_reprocessing
  by (simp add: needs_reprocessing_def diff_summary0_def)

lemma foldl_count_unchanged:
  "ds_unchanged (foldl count_delta s ds) =
   ds_unchanged s + length (filter (\<lambda>d. \<exists>b a. d = UdUnchanged b a) ds)"
proof (induction ds arbitrary: s)
  case (Cons d ds)
  then show ?case by (cases d) simp_all
qed simp

section \<open>A file against itself\<close>

lemma sort_key_sorted: "sorted (map f xs) \<Longrightarrow> sort_key f xs = xs"
proof (induction xs)
  case (Cons x xs)
  then show ?case by (cases xs) (simp_all add: insort_is_Cons)
qed simp

lemma classify_cost_0:
  "aligns mt key ps rs po ro res \<Longrightarrow> cost res = 0 \<Longrightarrow> po = ro \<Longrightarrow>
   classify_alignment f f res = map (\<lambda>i. UdUnchanged i i) [po..<po + length ps]"
proof (induction rule: aligns.induct)
  case (al_match x y ys xs po ro res)
  then show ?case
    by (simp add: classify_same_words_def timing_differs_def upt_conv_Cons del: upt_Suc)
qed simp_all

text \<open>A file that was not edited: every utterance is unchanged, and nothing is reprocessed.\<close>

theorem diff_self_unchanged:
  "diff_chat lower jaro mor_words f f = Some (map (\<lambda>i. UdUnchanged i i) [0..<length (utterances f)])"
proof -
  let ?ps = "map (\<lambda>u. utterance_fingerprint (mor_words u)) (utterances f)"
  obtain res where res: "align lower jaro ?ps ?ps MmExact = Some res"
    and al: "aligns (string_matches lower jaro MmExact) string_key ?ps ?ps 0 0 res"
    by (rule fingerprints_align)
  have "cost res = 0"
    by (rule string_exact.aligner_identity [OF res [unfolded align_def]]) (simp add: string_matches_def)
  then have "classify_alignment f f res = map (\<lambda>i. UdUnchanged i i) [0..<length (utterances f)]"
    using classify_cost_0 [OF al] by simp
  moreover have "sort_deltas (map (\<lambda>i. UdUnchanged i i) [0..<n]) = map (\<lambda>i. UdUnchanged i i) [0..<n]" for n
    by (simp add: sort_deltas_def sort_key_sorted comp_def idx_order_def)
  ultimately show ?thesis using res by (simp add: diff_chat_def Let_def)
qed

section \<open>Copied tiers\<close>

lemma replace_twice: "variant_matches t t \<Longrightarrow>
  replace_or_add_tier (replace_or_add_tier ts t) t = replace_or_add_tier ts t"
  by (induction ts t rule: replace_or_add_tier.induct) auto

end
