(* ===== verification/Fa_Pipeline.thy ===== *)
theory Fa_Pipeline
  imports Fa_Reuse Diff Errors
begin

text \<open>
  Forced alignment in the server (\<open>batchalign-app/src/fa\<close>, \<open>worker/fa_result_v2.rs\<close>): the file-level
  run, the incremental run and the transport to the workers. The parsed file is an argument, as are
  the checks and the validation of other crates, the cache as it answers, and the workers: \<open>dispatch\<close>
  gives for a request its answer or the error of the pool (the worker language is fixed for a run and
  part of \<open>dispatch\<close>). A request is named by its namespace, the
  value of the process-wide counter that the run drew. An outer \<open>None\<close> is a panic.
\<close>

section \<open>Worker answers (\<open>fa_result_v2.rs\<close>)\<close>

datatype ProtocolErrorCodeV2 =
    UnsupportedProtocol | InvalidPayload | MissingAttachment | AttachmentUnreadable
  | ModelUnavailable | RuntimeFailure

text \<open>The derived \<open>Debug\<close> text.\<close>

fun protocol_error_debug :: "ProtocolErrorCodeV2 \<Rightarrow> rstr" where
  "protocol_error_debug UnsupportedProtocol = lit ''UnsupportedProtocol''"
| "protocol_error_debug InvalidPayload = lit ''InvalidPayload''"
| "protocol_error_debug MissingAttachment = lit ''MissingAttachment''"
| "protocol_error_debug AttachmentUnreadable = lit ''AttachmentUnreadable''"
| "protocol_error_debug ModelUnavailable = lit ''ModelUnavailable''"
| "protocol_error_debug RuntimeFailure = lit ''RuntimeFailure''"

datatype ExecuteOutcomeV2 = EoSuccess | EoError ProtocolErrorCodeV2 rstr

datatype TaskResultV2 =
    TrWhisperTokenTiming "FaRawToken list"
  | TrIndexedWordTiming "FaIndexedTiming option list"
  | TrMorphosyntax | TrUtseg | TrWhisperChunk | TrTranslation | TrCoref | TrMonologueAsr
  | TrSpeaker | TrOpensmile | TrAvqi

record ExecuteResponseV2 =
  er_outcome :: ExecuteOutcomeV2
  er_result :: "TaskResultV2 option"

definition fa_response_returned :: "rstr \<Rightarrow> rstr" where
  "fa_response_returned what =
     lit ''worker protocol V2 forced-alignment response returned '' @ what"

fun fa_raw_response :: "TaskResultV2 \<Rightarrow> rstr + FaRawResponse" where
  "fa_raw_response (TrWhisperTokenTiming tokens) = Inr (FrTokenLevel tokens)"
| "fa_raw_response (TrIndexedWordTiming timings) = Inr (FrIndexedWordLevel timings)"
| "fa_raw_response TrMorphosyntax = Inl (fa_response_returned (lit ''morphosyntax data''))"
| "fa_raw_response TrUtseg = Inl (fa_response_returned (lit ''utterance-segmentation data''))"
| "fa_raw_response TrWhisperChunk = Inl (fa_response_returned (lit ''ASR chunk data''))"
| "fa_raw_response TrTranslation = Inl (fa_response_returned (lit ''translation data''))"
| "fa_raw_response TrCoref = Inl (fa_response_returned (lit ''coreference data''))"
| "fa_raw_response TrMonologueAsr = Inl (fa_response_returned (lit ''monologue ASR data''))"
| "fa_raw_response TrSpeaker = Inl (fa_response_returned (lit ''speaker diarization data''))"
| "fa_raw_response TrOpensmile = Inl (fa_response_returned (lit ''openSMILE feature data''))"
| "fa_raw_response TrAvqi = Inl (fa_response_returned (lit ''AVQI feature data''))"

text \<open>The Unicode functions that the parser of responses needs.\<close>

record UnicodeTables =
  ut_lower :: "rchar \<Rightarrow> rstr"
  ut_alnum :: "rchar \<Rightarrow> bool"

definition parse_forced_alignment_result_v2 ::
  "UnicodeTables \<Rightarrow> ExecuteResponseV2 \<Rightarrow> FaWord list \<Rightarrow> nat \<Rightarrow> FaTimingMode \<Rightarrow>
   rstr + TimeSpan option list" where
  "parse_forced_alignment_result_v2 uc response original_words audio_start_ms timing_mode =
     (case er_outcome response of
        EoError code message \<Rightarrow>
          Inl (lit ''worker protocol V2 forced-alignment request failed with '' @ protocol_error_debug code
              @ lit '': '' @ message)
      | EoSuccess \<Rightarrow>
          (case er_result response of
             None \<Rightarrow> Inl (lit ''worker protocol V2 forced-alignment response was missing a result payload'')
           | Some result \<Rightarrow>
               (case fa_raw_response result of
                  Inl e \<Rightarrow> Inl e
                | Inr raw \<Rightarrow>
                    parse_fa_response (ut_lower uc) (ut_alnum uc) (Inr raw) original_words audio_start_ms
                      timing_mode)))"

section \<open>Transport (\<open>fa/transport.rs\<close>)\<close>

record FaFallbackEventTrace =
  fe_group_index :: nat
  fe_from_engine :: rstr
  fe_to_engine :: rstr
  fe_reason :: rstr
  fe_audio_start_ms :: nat
  fe_audio_end_ms :: nat

record FaWorkerBatch =
  fb_word_texts :: "rstr list list"
  fb_groups :: "FaGroup list"
  fb_miss_indices :: "nat list"
  fb_audio_path :: rstr
  fb_engine :: FaEngineType
  fb_timing_mode :: FaTimingMode

record FaWorkerGroupResult =
  gr_group_index :: nat
  gr_timings :: "TimeSpan option list"
  gr_fallback_event :: "FaFallbackEventTrace option"

fun fa_engine_name :: "FaEngineType \<Rightarrow> rstr" where
  "fa_engine_name FeWave2Vec = lit ''wave2vec''"
| "fa_engine_name FeWhisperFa = lit ''whisper-fa''"

definition ctc_too_long :: rstr where
  "ctc_too_long = lit ''targets length is too long for CTC''"

definition ctc_blank :: rstr where
  "ctc_blank = lit ''targets Tensor shouldn'' @ [39] @ lit ''t contain blank index''"

definition whisper_fallback_reason :: "FaEngineType \<Rightarrow> ServerError \<Rightarrow> rstr option" where
  "whisper_fallback_reason engine e =
     (if engine \<noteq> FeWave2Vec then None
      else case e of
             SeValidation message \<Rightarrow>
               if contains message ctc_too_long then Some ctc_too_long
               else if contains message ctc_blank then Some ctc_blank
               else None
           | _ \<Rightarrow> None)"

definition build_fa_infer_item :: "FaWorkerBatch \<Rightarrow> nat \<Rightarrow> FaInferItem" where
  "build_fa_infer_item batch group_index =
     (let g = fb_groups batch ! group_index in
      \<lparr>fi_words = fb_word_texts batch ! group_index,
       fi_word_ids = map stable_id (fg_words g),
       fi_word_utterance_indices = map fw_utterance_index (fg_words g),
       fi_word_utterance_word_indices = map fw_word_index (fg_words g),
       fi_audio_path = fb_audio_path batch,
       fi_audio_start_ms = ts_start (fg_audio_span g),
       fi_audio_end_ms = ts_end (fg_audio_span g),
       fi_timing_mode = fb_timing_mode batch\<rparr>)"

definition fa_request_id :: "nat \<Rightarrow> nat \<Rightarrow> rstr" where
  "fa_request_id request_namespace group_index =
     lit ''fa-v2-request-'' @ show_nat request_namespace @ lit ''-'' @ show_nat group_index"

definition build_fa_request_ids :: "nat \<Rightarrow> nat \<Rightarrow> rstr \<times> rstr \<times> rstr" where
  "build_fa_request_ids request_namespace group_index =
     (let suffix = show_nat request_namespace @ lit ''-'' @ show_nat group_index in
      (fa_request_id request_namespace group_index, lit ''fa-v2-payload-'' @ suffix,
       lit ''fa-v2-audio-'' @ suffix))"

text \<open>Building the request and sending it to the pool: the ids, the engine and the item.\<close>

type_synonym fa_dispatch =
  "rstr \<times> rstr \<times> rstr \<Rightarrow> FaEngineType \<Rightarrow> FaInferItem \<Rightarrow> ServerError + ExecuteResponseV2"

definition dispatch_group_request ::
  "fa_dispatch \<Rightarrow> FaWorkerBatch \<Rightarrow> nat \<Rightarrow> nat \<Rightarrow> FaEngineType \<Rightarrow> ServerError + ExecuteResponseV2" where
  "dispatch_group_request dispatch batch request_namespace group_index engine =
     dispatch (build_fa_request_ids request_namespace group_index) engine
       (build_fa_infer_item batch group_index)"

definition parse_group_response ::
  "UnicodeTables \<Rightarrow> ExecuteResponseV2 \<Rightarrow> nat \<Rightarrow> FaGroup \<Rightarrow> FaTimingMode \<Rightarrow>
   ServerError + FaWorkerGroupResult" where
  "parse_group_response uc response group_index g timing_mode =
     (case parse_forced_alignment_result_v2 uc response (fg_words g) (ts_start (fg_audio_span g))
             timing_mode of
        Inl e \<Rightarrow>
          Inl (SeValidation (lit ''failed to parse worker protocol V2 FA response for group ''
            @ show_nat group_index @ lit '' ('' @ show_nat (ts_start (fg_audio_span g)) @ lit ''..''
            @ show_nat (ts_end (fg_audio_span g)) @ lit '' ms): '' @ e))
      | Inr timings \<Rightarrow>
          Inr \<lparr>gr_group_index = group_index, gr_timings = timings, gr_fallback_event = None\<rparr>)"

definition build_fallback_event ::
  "nat \<Rightarrow> FaGroup \<Rightarrow> FaEngineType \<Rightarrow> FaEngineType \<Rightarrow> rstr \<Rightarrow> FaFallbackEventTrace" where
  "build_fallback_event group_index g from_engine to_engine reason =
     \<lparr>fe_group_index = group_index, fe_from_engine = fa_engine_name from_engine,
      fe_to_engine = fa_engine_name to_engine, fe_reason = reason,
      fe_audio_start_ms = ts_start (fg_audio_span g), fe_audio_end_ms = ts_end (fg_audio_span g)\<rparr>"

text \<open>One group; the counter of namespaces is drawn again for the fallback.\<close>

definition infer_one_group ::
  "UnicodeTables \<Rightarrow> fa_dispatch \<Rightarrow> FaWorkerBatch \<Rightarrow> nat \<Rightarrow> nat \<Rightarrow> nat \<Rightarrow>
   (ServerError + FaWorkerGroupResult) \<times> nat" where
  "infer_one_group uc dispatch batch request_namespace group_index counter =
     (let g = fb_groups batch ! group_index in
      case dispatch_group_request dispatch batch request_namespace group_index (fb_engine batch) of
        Inl e \<Rightarrow> (Inl e, counter)
      | Inr response \<Rightarrow>
          (case parse_group_response uc response group_index g (fb_timing_mode batch) of
             Inr parsed \<Rightarrow> (Inr parsed, counter)
           | Inl e \<Rightarrow>
               (case whisper_fallback_reason (fb_engine batch) e of
                  None \<Rightarrow> (Inl e, counter)
                | Some reason \<Rightarrow>
                    (case dispatch_group_request dispatch batch counter group_index FeWhisperFa of
                       Inl e \<Rightarrow> (Inl e, u64_add counter 1)
                     | Inr response \<Rightarrow>
                         (case parse_group_response uc response group_index g (fb_timing_mode batch) of
                            Inl e \<Rightarrow> (Inl e, u64_add counter 1)
                          | Inr parsed \<Rightarrow>
                              (Inr (parsed\<lparr>gr_fallback_event := Some (build_fallback_event group_index g
                                      (fb_engine batch) FeWhisperFa reason)\<rparr>), u64_add counter 1))))))"

fun infer_each ::
  "UnicodeTables \<Rightarrow> fa_dispatch \<Rightarrow> FaWorkerBatch \<Rightarrow> nat \<Rightarrow> nat list \<Rightarrow> nat \<Rightarrow>
   (ServerError + FaWorkerGroupResult list) \<times> nat" where
  "infer_each uc dispatch batch request_namespace [] counter = (Inr [], counter)"
| "infer_each uc dispatch batch request_namespace (i # is) counter =
     (case infer_one_group uc dispatch batch request_namespace i counter of
        (Inl e, counter') \<Rightarrow> (Inl e, counter')
      | (Inr r, counter') \<Rightarrow>
          (case infer_each uc dispatch batch request_namespace is counter' of
             (Inl e, c) \<Rightarrow> (Inl e, c)
           | (Inr rs, c) \<Rightarrow> (Inr (r # rs), c)))"

text \<open>\<open>artifacts\<close> is the creation of the artifact directory.\<close>

definition infer_groups_v2 ::
  "UnicodeTables \<Rightarrow> fa_dispatch \<Rightarrow> rstr option \<Rightarrow> FaWorkerBatch \<Rightarrow> nat \<Rightarrow>
   (ServerError + FaWorkerGroupResult list) \<times> nat" where
  "infer_groups_v2 uc dispatch artifacts_error batch counter =
     (case artifacts_error of
        Some e \<Rightarrow>
          (Inl (SeValidation (lit ''failed to create FA V2 artifact runtime: '' @ e)), u64_add counter 1)
      | None \<Rightarrow>
          infer_each uc dispatch batch counter (fb_miss_indices batch) (u64_add counter 1))"

section \<open>Groups, cache and workers (\<open>fa/mod.rs\<close>)\<close>

record FaParams =
  fp_timing_mode :: FaTimingMode
  fp_max_group_ms :: nat
  fp_engine :: FaEngineType
  fp_skip_cache :: bool
  fp_write_wor :: bool

record AudioContext =
  ac_audio_path :: rstr
  ac_audio_identity :: rstr
  ac_total_audio_ms :: "nat option"

text \<open>
  What the run uses of other components: \<open>fs_cache\<close> is the answer to the batch lookup, \<open>None\<close> when it
  failed; an entry whose value does not deserialize maps to \<open>None\<close>.
\<close>

record 'r FaServices =
  fs_unicode :: UnicodeTables
  fs_hash :: "rstr \<Rightarrow> rstr"
  fs_cache :: "rstr list \<Rightarrow> (rstr, TimeSpan option list option) hmap option"
  fs_dispatch :: fa_dispatch
  fs_artifacts_error :: "rstr option"
  fs_generate_wor :: "(WordItem list, 'r) ChatUtterance \<Rightarrow> ChatWord list"
  fs_align_wor :: "'r wor_aligner"

fun show_indices :: "nat list \<Rightarrow> rstr" where
  "show_indices ns = lit ''['' @ join_with (lit '', '') (map show_nat ns) @ lit '']''"

definition collect_final_timings ::
  "TimeSpan option list option list \<Rightarrow> rstr \<Rightarrow> ServerError + TimeSpan option list list" where
  "collect_final_timings all_timings what =
     (let missing = List.map_filter (\<lambda>(i, t). if t = None then Some i else None) (enumerate 0 all_timings)
      in if missing \<noteq> [] then
           Inl (SeValidation (what @ lit '' completed without timings for group(s): '' @ show_indices missing))
         else Inr (List.map_filter (\<lambda>t. t) all_timings))"

text \<open>Where the timings of a group come from: the file itself, the cache, or a worker.\<close>

datatype GroupSource = GsReused "TimeSpan option list" | GsCached "TimeSpan option list" | GsMiss

definition group_source ::
  "(rstr, TimeSpan option list option) hmap \<Rightarrow> TimeSpan option list option \<Rightarrow> rstr \<Rightarrow> GroupSource" where
  "group_source cached preserved key =
     (case preserved of
        Some timings \<Rightarrow> GsReused timings
      | None \<Rightarrow>
          (case hm_get cached key of
             Some (Some timings) \<Rightarrow> GsCached timings
           | _ \<Rightarrow> GsMiss))"

fun source_timings :: "GroupSource \<Rightarrow> TimeSpan option list option" where
  "source_timings (GsReused ts) = Some ts"
| "source_timings (GsCached ts) = Some ts"
| "source_timings GsMiss = None"

definition group_cache_keys ::
  "(rstr \<Rightarrow> rstr) \<Rightarrow> AudioContext \<Rightarrow> FaParams \<Rightarrow> FaGroup list \<Rightarrow> rstr list" where
  "group_cache_keys hash audio params groups =
     map (\<lambda>g. fa_cache_key hash (map fw_text (fg_words g)) (ac_audio_identity audio)
                (ts_start (fg_audio_span g)) (ts_end (fg_audio_span g))
                (fp_timing_mode params) (fp_engine params)) groups"

definition cached_entries ::
  "'r FaServices \<Rightarrow> FaParams \<Rightarrow> rstr list \<Rightarrow> (rstr, TimeSpan option list option) hmap" where
  "cached_entries services params keys =
     (if fp_skip_cache params then []
      else case fs_cache services keys of Some m \<Rightarrow> m | None \<Rightarrow> [])"

text \<open>The results of the workers are stored under their group's key, in order, and merged.\<close>

definition merge_results ::
  "TimeSpan option list option list \<Rightarrow> FaWorkerGroupResult list \<Rightarrow> TimeSpan option list option list" where
  "merge_results all_timings results =
     foldl (\<lambda>ts r. ts[gr_group_index r := Some (gr_timings r)]) all_timings results"

definition cache_puts ::
  "rstr list \<Rightarrow> FaWorkerGroupResult list \<Rightarrow> (rstr \<times> TimeSpan option list) list" where
  "cache_puts keys results = map (\<lambda>r. (keys ! gr_group_index r, gr_timings r)) results"

record ('r, 'o) FaRun =
  fr_file :: "('r, 'o) fa_file"
  fr_groups :: "FaGroup list"
  fr_pre_injection_timings :: "TimeSpan option list list"
  fr_fallback_events :: "FaFallbackEventTrace list"
  fr_cache_puts :: "(rstr \<times> TimeSpan option list) list"

definition plain_run :: "('r, 'o) fa_file \<Rightarrow> ('r, 'o) FaRun" where
  "plain_run f = \<lparr>fr_file = f, fr_groups = [], fr_pre_injection_timings = [],
                  fr_fallback_events = [], fr_cache_puts = []\<rparr>"

definition align_groups ::
  "'r FaServices \<Rightarrow> AudioContext \<Rightarrow> FaParams \<Rightarrow> rstr \<Rightarrow> ('r, 'o) fa_file \<Rightarrow> FaGroup list \<Rightarrow>
   (FaGroup \<Rightarrow> TimeSpan option list option) \<Rightarrow> nat \<Rightarrow> (ServerError + ('r, 'o) FaRun) \<times> nat" where
  "align_groups services audio params what f groups preserved counter =
     (let keys = group_cache_keys (fs_hash services) audio params groups;
          cached = cached_entries services params keys;
          sources = map2 (\<lambda>g key. group_source cached (preserved g) key) groups keys;
          misses = List.map_filter (\<lambda>(i, s). if s = GsMiss then Some i else None) (enumerate 0 sources);
          batch = \<lparr>fb_word_texts = map (\<lambda>g. map fw_text (fg_words g)) groups, fb_groups = groups,
                   fb_miss_indices = misses, fb_audio_path = ac_audio_path audio,
                   fb_engine = fp_engine params, fb_timing_mode = fp_timing_mode params\<rparr>
      in case (if misses = [] then (Inr [], counter)
               else infer_groups_v2 (fs_unicode services) (fs_dispatch services)
                      (fs_artifacts_error services) batch counter) of
           (Inl e, counter') \<Rightarrow> (Inl e, counter')
         | (Inr results, counter') \<Rightarrow>
             (case collect_final_timings (merge_results (map source_timings sources) results) what of
                Inl e \<Rightarrow> (Inl e, counter')
              | Inr final_timings \<Rightarrow>
                  (Inr \<lparr>fr_file = apply_fa_results (fs_generate_wor services) f groups final_timings
                                    (fp_timing_mode params) (fp_write_wor params),
                        fr_groups = groups,
                        fr_pre_injection_timings = final_timings,
                        fr_fallback_events = List.map_filter gr_fallback_event results,
                        fr_cache_puts = cache_puts keys results\<rparr>, counter')))"

fun collect_group_timings :: "('r, 'o) fa_file \<Rightarrow> nat list \<Rightarrow> TimeSpan option list option" where
  "collect_group_timings f [] = Some []"
| "collect_group_timings f (i # is) =
     (case get_utterance f i of
        None \<Rightarrow> None
      | Some u \<Rightarrow> map_option ((@) (collect_existing_fa_word_timings (cu_content u)))
                    (collect_group_timings f is))"

definition collect_preserved_group_timings ::
  "('r, 'o) fa_file \<Rightarrow> FaGroup \<Rightarrow> TimeSpan option list option" where
  "collect_preserved_group_timings f g =
     (case collect_group_timings f (fg_utterance_indices g) of
        Some timings \<Rightarrow> if length timings \<noteq> length (fg_words g) then None else Some timings
      | None \<Rightarrow> None)"

section \<open>A file (\<open>run_fa_impl\<close>)\<close>

record ('r, 'o) FaChecks =
  fc_is_dummy :: "('r, 'o) fa_file \<Rightarrow> bool"
  fc_is_no_align :: "('r, 'o) fa_file \<Rightarrow> bool"
  fc_prevalidate :: "('r, 'o) fa_file \<Rightarrow> rstr list"

definition prevalidation_error :: "rstr list \<Rightarrow> ServerError" where
  "prevalidation_error msgs =
     SeValidation (lit ''align pre-validation failed: '' @ join_with (lit ''; '') msgs)"

definition run_fa_impl ::
  "('r, 'o) FaChecks \<Rightarrow> 'r FaServices \<Rightarrow> AudioContext \<Rightarrow> FaParams \<Rightarrow> ('r, 'o) fa_file \<Rightarrow> nat \<Rightarrow>
   ((ServerError + ('r, 'o) FaRun) \<times> nat) option" where
  "run_fa_impl checks services audio params f counter =
     (if fc_is_dummy checks f then Some (Inr (plain_run f), counter)
      else if fc_is_no_align checks f then Some (Inr (plain_run f), counter)
      else if fc_prevalidate checks f \<noteq> [] then
        Some (Inl (prevalidation_error (fc_prevalidate checks f)), counter)
      else if has_reusable_wor_timing (fs_align_wor services) f then
        map_option (\<lambda>f'. (Inr (plain_run f'), counter))
          (refresh_existing_alignment (fs_align_wor services) (fs_generate_wor services)
             (fp_write_wor params) f)
      else
        (let reusable = find_reusable_utterance_indices (fs_align_wor services) f;
             f1 = (if reusable \<noteq> [] then refresh_reusable_utterances (fs_align_wor services)
                                            (fs_generate_wor services) reusable (fp_write_wor params) f
                   else f);
             groups = group_utterances f1 (fp_max_group_ms params) (ac_total_audio_ms audio)
         in if groups = [] then Some (Inr (plain_run f1), counter)
            else Some (align_groups services audio params (lit ''forced alignment'') f1 groups
                   (\<lambda>g. if reusable \<noteq> [] \<and> list_all (\<lambda>i. i \<in> set reusable) (fg_utterance_indices g)
                         then collect_preserved_group_timings f1 g else None) counter)))"

section \<open>An edited file (\<open>fa/incremental.rs\<close>)\<close>

fun stable_pair :: "UtteranceDelta \<Rightarrow> (nat \<times> nat) option" where
  "stable_pair (UdUnchanged b a) = Some (b, a)"
| "stable_pair (UdTimingOnly b a) = Some (b, a)"
| "stable_pair (UdSpeakerChanged b a) = Some (b, a)"
| "stable_pair _ = None"

definition reuse_stable_wor_timing_from_before ::
  "'m OtherTier wor_aligner \<Rightarrow> ((WordItem list, 'm OtherTier) ChatUtterance \<Rightarrow> ChatWord list) \<Rightarrow>
   ('m OtherTier, 'o) fa_file \<Rightarrow> ('m OtherTier, 'o) fa_file \<Rightarrow> UtteranceDelta list \<Rightarrow> bool \<Rightarrow>
   ('m OtherTier, 'o) fa_file \<times> nat list" where
  "reuse_stable_wor_timing_from_before aligner generate before_file after_file deltas write_wor =
     foldl (\<lambda>(f, reused) (b, a).
       let f1 = snd (copy_dependent_tiers before_file b f a [TkWor]) in
       case get_utterance f1 a of
         None \<Rightarrow> (f1, reused)
       | Some u \<Rightarrow>
           (let (refreshed, u') = refresh_existing_alignment_for_utterance aligner generate write_wor u
            in (modify_utterance a (\<lambda>_. u') f1, if refreshed then reused @ [a] else reused)))
       (after_file, []) (List.map_filter stable_pair deltas)"

definition process_fa_incremental ::
  "(rstr \<Rightarrow> rstr) \<Rightarrow> (rstr \<Rightarrow> rstr \<Rightarrow> rat) \<Rightarrow> ((WordItem list, 'm OtherTier) ChatUtterance \<Rightarrow> rstr list) \<Rightarrow>
   ('m OtherTier, 'o) FaChecks \<Rightarrow> 'm OtherTier FaServices \<Rightarrow> AudioContext \<Rightarrow> FaParams \<Rightarrow>
   ('m OtherTier, 'o) fa_file \<Rightarrow> ('m OtherTier, 'o) fa_file \<Rightarrow> nat \<Rightarrow>
   ((ServerError + ('m OtherTier, 'o) FaRun) \<times> nat) option" where
  "process_fa_incremental lower jaro mor_words checks services audio params before_file after_file counter =
     (case diff_chat lower jaro mor_words before_file after_file of
        None \<Rightarrow> None
      | Some deltas \<Rightarrow>
          (let summary = summary_from_deltas deltas in
           if ds_unchanged summary = 0 \<and> ds_speaker_changed summary = 0 \<and> ds_timing_only summary = 0
           then run_fa_impl checks services audio params after_file counter
           else if fc_is_dummy checks after_file \<or> fc_is_no_align checks after_file
           then Some (Inr (plain_run after_file), counter)
           else if fc_prevalidate checks after_file \<noteq> [] then
             Some (Inl (prevalidation_error (fc_prevalidate checks after_file)), counter)
           else
             (let (f1, reused) = reuse_stable_wor_timing_from_before (fs_align_wor services)
                    (fs_generate_wor services) before_file after_file deltas (fp_write_wor params);
                  groups = group_utterances f1 (fp_max_group_ms params) (ac_total_audio_ms audio)
              in if groups = [] then Some (Inr (plain_run f1), counter)
                 else Some (align_groups services audio params (lit ''incremental forced alignment'') f1 groups
                   (\<lambda>g. if list_ex (\<lambda>i. i \<notin> set reused) (fg_utterance_indices g) then None
                         else collect_preserved_group_timings f1 g) counter))))"

end
