(* ===== verification/Fa_Run.thy ===== *)
theory Fa_Run
  imports Fa_Pipeline
begin

text \<open>
  Properties of a forced alignment run: every group gets timings or the run fails with the error of a
  worker, a rerun finds everything in the cache, what the fallback to another engine stores, and
  freedom from panics.
\<close>

section \<open>Lengths\<close>

lemma length_apply_indexed [simp]: "length (apply_indexed_timings ws ts off) = length ws"
proof -
  have "length (foldl (\<lambda>results (idx, t).
       case t of Some t \<Rightarrow>
           results[idx := Some (time_span (u64_add (it_start_ms t) off) (u64_add (it_end_ms t) off))]
       | None \<Rightarrow> results) rs xs) = length rs" for rs and xs :: "(nat \<times> FaIndexedTiming option) list"
    by (induction xs arbitrary: rs) (auto split: option.splits)
  then show ?thesis by (simp add: apply_indexed_timings_def)
qed

lemma length_stitch_words [simp]: "length (stitch_words mode ws ts) = length ws"
  by (induction mode ws ts rule: stitch_words.induct) (auto split: option.split simp del: stitch_word.simps)

lemma length_align_token_timings [simp]:
  "length (align_token_timings lower alnum ws tokens off mode) = length ws"
  by (simp add: align_token_timings_cases)

lemma parse_fa_response_length:
  "parse_fa_response lower alnum raw ws off mode = Inr ts \<Longrightarrow> length ts = length ws"
  by (auto simp: parse_fa_response_def split: sum.splits FaRawResponse.splits if_splits)

lemma parse_group_response_ok:
  "parse_group_response uc response i g mode = Inr r \<Longrightarrow>
   gr_group_index r = i \<and> length (gr_timings r) = length (fg_words g)"
  by (auto simp: parse_group_response_def parse_forced_alignment_result_v2_def
      split: sum.splits ExecuteOutcomeV2.splits option.splits dest: parse_fa_response_length)

lemma infer_one_group_ok:
  "infer_one_group uc dispatch batch ns i c = (Inr r, c') \<Longrightarrow>
   gr_group_index r = i \<and> length (gr_timings r) = length (fg_words (fb_groups batch ! i))"
  by (auto simp: infer_one_group_def Let_def split: sum.splits option.splits
      dest!: parse_group_response_ok)

lemma infer_each_ok:
  "infer_each uc dispatch batch ns is c = (Inr rs, c') \<Longrightarrow> map gr_group_index rs = is"
  by (induction uc dispatch batch ns "is" c arbitrary: rs c' rule: infer_each.induct)
    (auto split: prod.splits sum.splits dest: infer_one_group_ok)

lemma infer_groups_ok:
  "infer_groups_v2 uc dispatch ae batch c = (Inr rs, c') \<Longrightarrow> map gr_group_index rs = fb_miss_indices batch"
  by (auto simp: infer_groups_v2_def dest: infer_each_ok split: option.splits)

section \<open>Every group gets its timings\<close>

lemma merge_results_nth:
  "i < length ts \<Longrightarrow>
   (merge_results ts rs ! i = None \<longleftrightarrow> ts ! i = None \<and> i \<notin> set (map gr_group_index rs)) \<and>
   length (merge_results ts rs) = length ts"
proof (induction rs arbitrary: ts)
  case (Cons r rs)
  then show ?case using Cons.IH [of "ts[gr_group_index r := Some (gr_timings r)]"]
    by (cases "i = gr_group_index r") (auto simp: merge_results_def)
qed (simp add: merge_results_def)

lemma length_merge_results [simp]: "length (merge_results ts rs) = length ts"
  unfolding merge_results_def by (induction rs arbitrary: ts) auto

lemma collect_final_complete:
  assumes "None \<notin> set ts"
  shows "collect_final_timings ts what = Inr (map the ts)"
proof -
  have "List.map_filter (\<lambda>(i, t). if t = None then Some i else None) (enumerate 0 ts) = []"
    using assms
    by (auto simp: List.map_filter_def filter_empty_conv split_beta in_set_enumerate_eq simp del: not_None_eq
        dest!: nth_mem) (metis not_None_eq)
  moreover have "List.map_filter (\<lambda>t. t) ts = map the ts"
    using assms
  proof (induction ts)
    case (Cons t ts)
    then show ?case by (cases t) (auto simp: List.map_filter_simps)
  qed (simp add: List.map_filter_simps)
  ultimately show ?thesis by (simp add: collect_final_timings_def)
qed

definition miss_indices :: "GroupSource list \<Rightarrow> nat list" where
  "miss_indices sources =
     List.map_filter (\<lambda>(i, s). if s = GsMiss then Some i else None) (enumerate 0 sources)"

lemma set_miss_indices: "set (miss_indices sources) = {i. i < length sources \<and> sources ! i = GsMiss}"
proof -
  have "i \<in> set (miss_indices sources) \<longleftrightarrow> (i, GsMiss) \<in> set (enumerate 0 sources)" for i
    by (force simp: miss_indices_def List.map_filter_def split: if_splits)
  then show ?thesis by (auto simp: in_set_enumerate_eq)
qed

lemma merged_complete:
  assumes "map gr_group_index rs = miss_indices sources"
  shows "None \<notin> set (merge_results (map source_timings sources) rs)"
proof
  assume "None \<in> set (merge_results (map source_timings sources) rs)"
  then obtain i where i: "i < length sources" "merge_results (map source_timings sources) rs ! i = None"
    by (auto simp: in_set_conv_nth)
  then have "source_timings (sources ! i) = None" "i \<notin> set (miss_indices sources)"
    using merge_results_nth [of i "map source_timings sources" rs] assms by auto
  then show False using i by (cases "sources ! i") (auto simp: set_miss_indices)
qed

definition group_sources ::
  "'r FaServices \<Rightarrow> AudioContext \<Rightarrow> FaParams \<Rightarrow> FaGroup list \<Rightarrow>
   (FaGroup \<Rightarrow> TimeSpan option list option) \<Rightarrow> GroupSource list" where
  "group_sources services audio params groups preserved =
     (let keys = group_cache_keys (fs_hash services) audio params groups in
      map2 (\<lambda>g key. group_source (cached_entries services params keys) (preserved g) key) groups keys)"

definition worker_batch ::
  "AudioContext \<Rightarrow> FaParams \<Rightarrow> FaGroup list \<Rightarrow> nat list \<Rightarrow> FaWorkerBatch" where
  "worker_batch audio params groups misses =
     \<lparr>fb_word_texts = map (\<lambda>g. map fw_text (fg_words g)) groups, fb_groups = groups,
      fb_miss_indices = misses, fb_audio_path = ac_audio_path audio,
      fb_engine = fp_engine params, fb_timing_mode = fp_timing_mode params\<rparr>"

definition infer_misses ::
  "'r FaServices \<Rightarrow> AudioContext \<Rightarrow> FaParams \<Rightarrow> FaGroup list \<Rightarrow> GroupSource list \<Rightarrow> nat \<Rightarrow>
   (ServerError + FaWorkerGroupResult list) \<times> nat" where
  "infer_misses services audio params groups sources counter =
     (if miss_indices sources = [] then (Inr [], counter)
      else infer_groups_v2 (fs_unicode services) (fs_dispatch services) (fs_artifacts_error services)
             (worker_batch audio params groups (miss_indices sources)) counter)"

lemma infer_misses_ok:
  "infer_misses services audio params groups sources c = (Inr rs, c') \<Longrightarrow>
   map gr_group_index rs = miss_indices sources"
  by (auto simp: infer_misses_def worker_batch_def split: if_splits dest: infer_groups_ok)

lemma align_groups_eq:
  "align_groups services audio params what f groups preserved counter =
     (let sources = group_sources services audio params groups preserved in
      case infer_misses services audio params groups sources counter of
        (Inl e, c) \<Rightarrow> (Inl e, c)
      | (Inr rs, c) \<Rightarrow>
          (let final_timings = map the (merge_results (map source_timings sources) rs) in
           (Inr \<lparr>fr_file = apply_fa_results (fs_generate_wor services) f groups final_timings
                             (fp_timing_mode params) (fp_write_wor params),
                 fr_groups = groups, fr_pre_injection_timings = final_timings,
                 fr_fallback_events = List.map_filter gr_fallback_event rs,
                 fr_cache_puts = cache_puts (group_cache_keys (fs_hash services) audio params groups) rs\<rparr>, c)))"
proof -
  let ?sources = "group_sources services audio params groups preserved"
  have final: "collect_final_timings (merge_results (map source_timings ?sources) rs) what =
      Inr (map the (merge_results (map source_timings ?sources) rs))"
    if "infer_misses services audio params groups ?sources counter = (Inr rs, c)" for rs c
    by (rule collect_final_complete [OF merged_complete [OF infer_misses_ok [OF that]]])
  have "align_groups services audio params what f groups preserved counter =
     (case infer_misses services audio params groups ?sources counter of
        (Inl e, c) \<Rightarrow> (Inl e, c)
      | (Inr rs, c) \<Rightarrow>
          (case collect_final_timings (merge_results (map source_timings ?sources) rs) what of
             Inl e \<Rightarrow> (Inl e, c)
           | Inr final_timings \<Rightarrow>
           (Inr \<lparr>fr_file = apply_fa_results (fs_generate_wor services) f groups final_timings
                             (fp_timing_mode params) (fp_write_wor params),
                 fr_groups = groups, fr_pre_injection_timings = final_timings,
                 fr_fallback_events = List.map_filter gr_fallback_event rs,
                 fr_cache_puts = cache_puts (group_cache_keys (fs_hash services) audio params groups) rs\<rparr>, c)))"
    by (simp only: align_groups_def group_sources_def infer_misses_def miss_indices_def worker_batch_def Let_def)
  then show ?thesis using final by (auto simp: Let_def split: prod.split sum.split)
qed

text \<open>
  A run over the groups of a file fails only as a worker fails: it never ends with a group that has
  no timings, and when the workers answer, every group has its list of timings and the file is the
  result of applying them.
\<close>

theorem fa_fails_only_by_worker:
  "(\<exists>run. fst (align_groups services audio params what f groups preserved counter) = Inr run \<and>
      fr_groups run = groups \<and> length (fr_pre_injection_timings run) = length groups \<and>
      fr_file run = apply_fa_results (fs_generate_wor services) f groups (fr_pre_injection_timings run)
        (fp_timing_mode params) (fp_write_wor params)) \<or>
   (\<exists>batch e. fb_groups batch = groups \<and>
      align_groups services audio params what f groups preserved counter =
        (Inl e, snd (infer_groups_v2 (fs_unicode services) (fs_dispatch services)
                       (fs_artifacts_error services) batch counter)) \<and>
      fst (infer_groups_v2 (fs_unicode services) (fs_dispatch services)
             (fs_artifacts_error services) batch counter) = Inl e)"
proof -
  let ?sources = "group_sources services audio params groups preserved"
  have len: "length ?sources = length groups"
    by (simp add: group_sources_def Let_def group_cache_keys_def)
  obtain x c where inf: "infer_misses services audio params groups ?sources counter = (x, c)" by fastforce
  show ?thesis
  proof (cases x)
    case (Inr rs)
    then show ?thesis using inf len by (auto simp: align_groups_eq Let_def)
  next
    case (Inl e)
    then have "infer_groups_v2 (fs_unicode services) (fs_dispatch services) (fs_artifacts_error services)
        (worker_batch audio params groups (miss_indices ?sources)) counter = (Inl e, c)"
      using inf by (simp add: infer_misses_def split: if_splits)
    then show ?thesis using inf Inl
      by (intro disjI2 exI [of _ "worker_batch audio params groups (miss_indices ?sources)"] exI [of _ e])
        (simp add: align_groups_eq Let_def worker_batch_def)
  qed
qed

section \<open>The cache\<close>

definition cache_after ::
  "(rstr \<times> TimeSpan option list) list \<Rightarrow> (rstr, TimeSpan option list option) hmap \<Rightarrow>
   (rstr, TimeSpan option list option) hmap" where
  "cache_after puts m = foldl (\<lambda>m (k, ts). hm_insert k (Some ts) m) m puts"

lemma hm_get_insert: "hm_get (hm_insert k v m) j = (if j = k then Some v else hm_get m j)"
  by (simp add: hm_get_def hm_insert_def AList.update_conv')

lemma cache_after_get:
  "(\<exists>ts. hm_get (cache_after puts m) k = Some (Some ts)) \<longleftrightarrow>
     k \<in> fst ` set puts \<or> (\<exists>ts. hm_get m k = Some (Some ts))"
proof (induction puts arbitrary: m)
  case (Cons p puts)
  then show ?case by (cases p) (auto simp: cache_after_def hm_get_insert)
qed (simp add: cache_after_def)

text \<open>
  A rerun does not need the workers: with the timings of a finished run stored in the cache, the same
  groups are aligned without a request, whatever the workers would answer, and nothing is stored
  again.
\<close>

theorem fa_rerun_needs_no_worker:
  fixes services :: "'r FaServices" and dispatch' :: fa_dispatch and error' :: "rstr option"
  assumes run: "fst (align_groups services audio params what f groups preserved counter) = Inr run"
    and cache: "\<not> fp_skip_cache params"
      "fs_cache services (group_cache_keys (fs_hash services) audio params groups) = Some stored"
  defines "services' \<equiv> services\<lparr>fs_cache := \<lambda>ks. Some (cache_after (fr_cache_puts run) stored),
                                fs_dispatch := dispatch', fs_artifacts_error := error'\<rparr>"
  shows "\<exists>run'. align_groups services' audio params what f groups preserved c = (Inr run', c) \<and>
    fr_cache_puts run' = [] \<and> fr_fallback_events run' = []"
proof -
  let ?keys = "group_cache_keys (fs_hash services) audio params groups"
  let ?S = "group_sources services audio params groups preserved"
  let ?S' = "group_sources services' audio params groups preserved"
  have lens: "length ?S = length groups" "length ?S' = length groups" "length ?keys = length groups"
    by (simp_all add: group_sources_def Let_def group_cache_keys_def)
  obtain rs c' where inf: "infer_misses services audio params groups ?S counter = (Inr rs, c')"
    and puts: "fr_cache_puts run = cache_puts ?keys rs"
    using run by (auto simp: align_groups_eq Let_def split: prod.splits sum.splits)
  have "?S' ! i \<noteq> GsMiss" if i: "i < length groups" for i
  proof (cases "?S ! i = GsMiss")
    case True
    then have "i \<in> set (map gr_group_index rs)"
      unfolding infer_misses_ok [OF inf] using i lens by (simp add: set_miss_indices)
    then have "?keys ! i \<in> fst ` set (fr_cache_puts run)" by (force simp: puts cache_puts_def)
    then obtain ts where "hm_get (cache_after (fr_cache_puts run) stored) (?keys ! i) = Some (Some ts)"
      using cache_after_get by blast
    then show ?thesis using i lens cache(1)
      by (simp add: group_sources_def Let_def services'_def cached_entries_def group_source_def
          split: option.split)
  next
    case False
    then have "preserved (groups ! i) \<noteq> None \<or> (\<exists>ts. hm_get stored (?keys ! i) = Some (Some ts))"
      using i lens cache
      by (auto simp: group_sources_def Let_def cached_entries_def group_source_def split: option.splits)
    then have "preserved (groups ! i) \<noteq> None \<or>
        (\<exists>ts. hm_get (cache_after (fr_cache_puts run) stored) (?keys ! i) = Some (Some ts))"
      using cache_after_get by blast
    then show ?thesis using i lens cache(1)
      by (auto simp: group_sources_def Let_def services'_def cached_entries_def group_source_def
          split: option.split)
  qed
  then have "set (miss_indices ?S') = {}" using lens by (auto simp: set_miss_indices)
  then have none: "miss_indices ?S' = []" by simp
  then show ?thesis
    by (simp add: align_groups_eq Let_def infer_misses_def cache_puts_def List.map_filter_simps)
qed

section \<open>The fallback engine\<close>

lemma contains_prefix: "starts_with s p \<Longrightarrow> contains s p"
  by (cases s) (auto simp: starts_with_iff)

lemma contains_append: "contains ys p \<Longrightarrow> contains (xs @ ys) p"
  by (induction xs) simp_all

lemma contains_self: "contains s s"
  by (simp add: contains_prefix starts_with_iff)

text \<open>
  Timings that came from the fallback engine are stored in the cache under the key of the engine that
  failed: the key names wave2vec, the event of the same group names whisper.
\<close>

theorem fallback_cached_as_wave2vec:
  assumes "infer_one_group uc dispatch batch ns i c = (Inr r, c')" "gr_fallback_event r = Some ev"
    and "fb_engine batch = fp_engine params" "i < length groups"
  shows "cache_puts (group_cache_keys hash audio params groups) [r] =
      [(fa_cache_key hash (map fw_text (fg_words (groups ! i))) (ac_audio_identity audio)
          (ts_start (fg_audio_span (groups ! i))) (ts_end (fg_audio_span (groups ! i)))
          (fp_timing_mode params) FeWave2Vec, gr_timings r)] \<and>
    fe_to_engine ev = fa_engine_name FeWhisperFa"
proof -
  have "fb_engine batch = FeWave2Vec \<and> fe_to_engine ev = fa_engine_name FeWhisperFa"
    using assms(1,2)
    by (auto simp: infer_one_group_def Let_def whisper_fallback_reason_def build_fallback_event_def
        parse_group_response_def split: sum.splits option.splits if_splits)
  moreover have "gr_group_index r = i" using infer_one_group_ok [OF assms(1)] by simp
  ultimately show ?thesis using assms(3,4) by (simp add: cache_puts_def group_cache_keys_def)
qed

text \<open>A group whose word the first engine rejects with an error of its loss function.\<close>

definition example_group :: FaGroup where
  "example_group =
     \<lparr>fg_audio_span = time_span 0 1000,
      fg_words = [\<lparr>fw_utterance_index = 0, fw_word_index = 0, fw_text = lit ''hi''\<rparr>],
      fg_utterance_indices = [0]\<rparr>"

definition example_params :: FaParams where
  "example_params =
     \<lparr>fp_timing_mode = FtWithPauses, fp_max_group_ms = 20000, fp_engine = FeWave2Vec,
      fp_skip_cache = False, fp_write_wor = False\<rparr>"

definition example_audio :: AudioContext where
  "example_audio = \<lparr>ac_audio_path = lit ''a.wav'', ac_audio_identity = lit ''a'', ac_total_audio_ms = None\<rparr>"

definition example_dispatch :: fa_dispatch where
  "example_dispatch ids engine item =
     (case engine of
        FeWave2Vec \<Rightarrow> Inr \<lparr>er_outcome = EoError RuntimeFailure ctc_too_long, er_result = None\<rparr>
      | FeWhisperFa \<Rightarrow>
          Inr \<lparr>er_outcome = EoSuccess,
               er_result = Some (TrIndexedWordTiming
                 [Some \<lparr>it_start_ms = 10, it_end_ms = 20, it_confidence = None\<rparr>])\<rparr>)"

definition example_unicode :: UnicodeTables where
  "example_unicode = \<lparr>ut_lower = (\<lambda>c. [c]), ut_alnum = (\<lambda>c. True)\<rparr>"

definition example_services :: "nat FaServices" where
  "example_services =
     \<lparr>fs_unicode = example_unicode, fs_hash = (\<lambda>s. s), fs_cache = (\<lambda>ks. Some []),
      fs_dispatch = example_dispatch, fs_artifacts_error = None, fs_generate_wor = (\<lambda>u. []),
      fs_align_wor = (\<lambda>u ws. (False, []))\<rparr>"

lemma example_services_fields:
  "fs_unicode example_services = example_unicode" "fs_hash example_services = (\<lambda>s. s)"
  "fs_cache example_services = (\<lambda>ks. Some [])" "fs_dispatch example_services = example_dispatch"
  "fs_artifacts_error example_services = None" "\<not> fp_skip_cache example_params"
  by (simp_all add: example_services_def example_params_def)

definition example_batch :: FaWorkerBatch where
  "example_batch = worker_batch example_audio example_params [example_group] [0]"

lemma example_rejected:
  "\<exists>m. parse_group_response example_unicode
      \<lparr>er_outcome = EoError RuntimeFailure ctc_too_long, er_result = None\<rparr> 0 example_group
      FtWithPauses = Inl (SeValidation m) \<and> contains m ctc_too_long"
  by (simp add: parse_group_response_def parse_forced_alignment_result_v2_def contains_append contains_self)

lemma example_parsed:
  "parse_group_response example_unicode
     \<lparr>er_outcome = EoSuccess, er_result = Some (TrIndexedWordTiming
         [Some \<lparr>it_start_ms = 10, it_end_ms = 20, it_confidence = None\<rparr>])\<rparr> 0 example_group FtWithPauses =
   Inr \<lparr>gr_group_index = 0, gr_timings = [Some (time_span 10 20)], gr_fallback_event = None\<rparr>"
  by (simp add: parse_group_response_def parse_forced_alignment_result_v2_def parse_fa_response_def
      apply_indexed_timings_def example_group_def example_unicode_def time_span_def u64_add_def)

lemma example_inferred:
  "\<exists>r ev. infer_one_group example_unicode example_dispatch example_batch 0 0 1 = (Inr r, 2) \<and>
     gr_fallback_event r = Some ev"
proof -
  obtain m where "parse_group_response example_unicode
      \<lparr>er_outcome = EoError RuntimeFailure ctc_too_long, er_result = None\<rparr> 0 example_group
      FtWithPauses = Inl (SeValidation m)" "contains m ctc_too_long"
    using example_rejected by blast
  then show ?thesis
    by (simp add: infer_one_group_def dispatch_group_request_def example_dispatch_def example_batch_def
        worker_batch_def example_params_def example_parsed whisper_fallback_reason_def u64_add_def Let_def)
qed

lemma example_misses:
  "miss_indices (group_sources example_services example_audio example_params [example_group] (\<lambda>g. None)) = [0]"
  by (simp add: miss_indices_def group_sources_def Let_def group_cache_keys_def example_services_def
      cached_entries_def example_params_def group_source_def List.map_filter_simps)

text \<open>A run whose only group falls back, and its rerun with workers that fail.\<close>

lemma example_run:
  "\<exists>run. fst (align_groups example_services example_audio example_params what [] [example_group]
     (\<lambda>g. None) 0) = Inr run"
proof -
  obtain r ev where "infer_one_group example_unicode example_dispatch example_batch 0 0 1 = (Inr r, 2)"
    using example_inferred by blast
  then have "infer_misses example_services example_audio example_params [example_group]
      (group_sources example_services example_audio example_params [example_group] (\<lambda>g. None)) 0 = (Inr [r], 2)"
    by (simp add: infer_misses_def example_misses infer_groups_v2_def example_services_fields
        example_batch_def worker_batch_def u64_add_def)
  then show ?thesis by (simp add: align_groups_eq Let_def)
qed

theorem fa_rerun_needs_no_worker_witness:
  "\<exists>(run :: (nat, nat) FaRun) (run' :: (nat, nat) FaRun). fst (align_groups example_services example_audio example_params [] [] [example_group]
       (\<lambda>g. None) 0) = Inr run \<and>
     align_groups (example_services\<lparr>fs_cache := \<lambda>ks. Some (cache_after (fr_cache_puts run) []),
         fs_dispatch := \<lambda>ids engine item. Inl (SeValidation []), fs_artifacts_error := None\<rparr>)
       example_audio example_params [] [] [example_group] (\<lambda>g. None) 5 = (Inr run', 5)"
proof -
  obtain run where run: "fst (align_groups example_services example_audio example_params [] [] [example_group]
      (\<lambda>g. None) 0) = Inr (run :: (nat, nat) FaRun)"
    using example_run by blast
  have "\<exists>run' :: (nat, nat) FaRun. align_groups (example_services\<lparr>fs_cache := \<lambda>ks. Some (cache_after (fr_cache_puts run) []),
         fs_dispatch := \<lambda>ids engine item. Inl (SeValidation []), fs_artifacts_error := None\<rparr>)
       example_audio example_params [] [] [example_group] (\<lambda>g. None) 5 = (Inr run', 5) \<and>
     fr_cache_puts run' = [] \<and> fr_fallback_events run' = []"
    by (rule fa_rerun_needs_no_worker [OF run]) (simp_all add: example_services_fields)
  with run show ?thesis by blast
qed

theorem fallback_cached_as_wave2vec_witness:
  "\<exists>r ev. infer_one_group example_unicode example_dispatch example_batch 0 0 1 = (Inr r, 2) \<and>
     gr_fallback_event r = Some ev \<and> fe_to_engine ev = fa_engine_name FeWhisperFa \<and>
     map snd (cache_puts (group_cache_keys (\<lambda>s. s) example_audio example_params [example_group]) [r]) =
       [gr_timings r]"
proof -
  obtain r ev where r: "infer_one_group example_unicode example_dispatch example_batch 0 0 1 = (Inr r, 2)"
      "gr_fallback_event r = Some ev"
    using example_inferred by blast
  show ?thesis
    using r fallback_cached_as_wave2vec [OF r, of example_params "[example_group]" "\<lambda>s. s" example_audio]
    by (simp add: example_batch_def worker_batch_def)
qed

section \<open>Panics\<close>

lemma diff_chat_returns: "\<exists>ds. diff_chat lower jaro mor_words bef aft = Some ds"
proof -
  obtain res where "align lower jaro (map (\<lambda>u. utterance_fingerprint (mor_words u)) (utterances aft))
      (map (\<lambda>u. utterance_fingerprint (mor_words u)) (utterances bef)) MmExact = Some res"
    by (rule fingerprints_align)
  then show ?thesis by (simp add: diff_chat_def)
qed

lemma run_fa_returns: "\<exists>result. run_fa_impl checks services audio params f counter = Some result"
  using reusable_refresh_some [of "fs_align_wor services" f]
  by (auto simp: run_fa_impl_def Let_def has_reusable_wor_timing_def)

text \<open>
  No run panics: the assertion of the cheap rerun holds whenever the rerun is chosen, and the diff of
  an incremental run always returns.
\<close>

theorem fa_runs_never_panic:
  "run_fa_impl checks services audio params f counter \<noteq> None \<and>
   process_fa_incremental lower jaro mor_words checks' services' audio params before_file after_file counter \<noteq>
     None"
  using diff_chat_returns [of lower jaro mor_words before_file after_file]
    run_fa_returns [of checks services audio params f counter]
    run_fa_returns [of checks' services' audio params after_file counter]
  by (auto simp: process_fa_incremental_def Let_def split: prod.split)

end
