(* ===== verification/Compare.thy ===== *)
theory Compare
  imports Diff Wer "HOL-Library.Monad_Syntax"
begin

text \<open>
  Comparison of a transcript with a gold transcript (\<open>chat-ops/compare.rs\<close>): each gold utterance is
  aligned with the best window of the main words that are left, the tokens of both sides are
  collected with their status, counted, and annotations are projected from the main file onto the
  gold file. What the code takes from the syntax tree of the external crates (the extracted words of
  an utterance, its terminator, the part of speech of an item of its \<open>%mor\<close> tier), the Unicode
  upper-casing and the constructor of non-empty strings form the record \<open>CompareReader\<close>. Positions
  and scores, an f64 in the code, are rationals. An outer \<open>None\<close> is a panic.
\<close>

section \<open>Files\<close>

record 'i MorTier =
  mt_items :: "'i list"
  mt_terminator :: "rstr option"

type_synonym ('c, 'i, 'o) compare_file = "('c, 'i MorTier OtherTier, 'o) ChatLine list"

record ('c, 'i) CompareReader =
  cr_words :: "('c, 'i MorTier OtherTier) ChatUtterance \<Rightarrow> rstr list"
  cr_terminator :: "('c, 'i MorTier OtherTier) ChatUtterance \<Rightarrow> rstr option"
  cr_pos :: "'i \<Rightarrow> rstr"
  cr_upper :: "rstr \<Rightarrow> rstr"
  cr_nonempty :: "rstr \<Rightarrow> bool"
  cr_conform :: ConformData
  cr_jaro :: "rstr \<Rightarrow> rstr \<Rightarrow> rat"

record ExtractedUtterance =
  ex_speaker :: rstr
  ex_utterance_index :: nat
  ex_words :: "rstr list"

definition extract_words ::
  "('c, 'i) CompareReader \<Rightarrow> ('c, 'i, 'o) compare_file \<Rightarrow> ExtractedUtterance list" where
  "extract_words rd f =
     map (\<lambda>(i, u). \<lparr>ex_speaker = cu_speaker u, ex_utterance_index = i, ex_words = cr_words rd u\<rparr>)
       (enumerate 0 (utterances f))"

fun find_mor :: "'m OtherTier DependentTier list \<Rightarrow> 'm option" where
  "find_mor [] = None"
| "find_mor (DtOther (OtMor m) # ts) = Some m"
| "find_mor (t # ts) = find_mor ts"

text \<open>\<open>slice::get\<close>; as an index expression, \<open>None\<close> is the panic.\<close>

definition slice_get :: "'a list \<Rightarrow> nat \<Rightarrow> 'a option" where
  "slice_get xs i = (if i < length xs then Some (xs ! i) else None)"

definition slice :: "'a list \<Rightarrow> nat \<Rightarrow> nat \<Rightarrow> 'a list option" where
  "slice xs a b = (if a \<le> b \<and> b \<le> length xs then Some (take (b - a) (drop a xs)) else None)"

definition push_at :: "nat \<Rightarrow> 'a \<Rightarrow> 'a list list \<Rightarrow> 'a list list option" where
  "push_at i x xss = (if i < length xss then Some (xss[i := xss ! i @ [x]]) else None)"

section \<open>Tokens and metrics\<close>

datatype CompareStatus = CsMatch | CsExtraMain | CsExtraGold

record CompareToken =
  ct_text :: rstr
  ct_pos :: "rstr option"
  ct_status :: CompareStatus

record UtteranceComparison =
  uc_utterance_index :: nat
  uc_speaker :: rstr
  uc_tokens :: "CompareToken list"

record PosErrorCounts =
  pe_matches :: nat
  pe_insertions :: nat
  pe_deletions :: nat

record CompareMetrics =
  cm_wer :: rat
  cm_accuracy :: rat
  cm_matches :: nat
  cm_insertions :: nat
  cm_deletions :: nat
  cm_total_gold_words :: nat
  cm_total_main_words :: nat
  cm_pos_counts :: "(rstr, PosErrorCounts) hmap"

record GoldWordMatch =
  gm_gold_utterance_index :: nat
  gm_gold_word_position :: nat
  gm_main_utterance_index :: nat
  gm_main_word_position :: nat

record ComparisonBundle =
  cb_main_utterances :: "UtteranceComparison list"
  cb_gold_utterances :: "UtteranceComparison list"
  cb_gold_word_matches :: "GoldWordMatch list"
  cb_metrics :: CompareMetrics

record MetricAccumulator =
  ma_matches :: nat
  ma_insertions :: nat
  ma_deletions :: nat
  ma_pos_counts :: "(rstr, PosErrorCounts) hmap"

definition metric_accumulator0 :: MetricAccumulator where
  "metric_accumulator0 = \<lparr>ma_matches = 0, ma_insertions = 0, ma_deletions = 0, ma_pos_counts = []\<rparr>"

definition pos_error_counts0 :: PosErrorCounts where
  "pos_error_counts0 = \<lparr>pe_matches = 0, pe_insertions = 0, pe_deletions = 0\<rparr>"

definition metric_pos_label :: "(rstr \<Rightarrow> rstr) \<Rightarrow> rstr option \<Rightarrow> rstr" where
  "metric_pos_label upper pos = upper (case pos of None \<Rightarrow> lit ''?'' | Some p \<Rightarrow> p)"

definition bump_pos ::
  "rstr \<Rightarrow> (PosErrorCounts \<Rightarrow> PosErrorCounts) \<Rightarrow> (rstr, PosErrorCounts) hmap \<Rightarrow>
   (rstr, PosErrorCounts) hmap" where
  "bump_pos label f m =
     bt_insert label (f (case hm_get m label of Some c \<Rightarrow> c | None \<Rightarrow> pos_error_counts0)) m"

definition record_token :: "(rstr \<Rightarrow> rstr) \<Rightarrow> CompareToken \<Rightarrow> MetricAccumulator \<Rightarrow> MetricAccumulator" where
  "record_token upper token a =
     (if ct_pos token = Some (lit ''PUNCT'') then a
      else
        (let label = metric_pos_label upper (ct_pos token) in
         case ct_status token of
           CsMatch \<Rightarrow> a\<lparr>ma_matches := ma_matches a + 1,
             ma_pos_counts := bump_pos label (\<lambda>c. c\<lparr>pe_matches := pe_matches c + 1\<rparr>) (ma_pos_counts a)\<rparr>
         | CsExtraMain \<Rightarrow> a\<lparr>ma_insertions := ma_insertions a + 1,
             ma_pos_counts := bump_pos label (\<lambda>c. c\<lparr>pe_insertions := pe_insertions c + 1\<rparr>) (ma_pos_counts a)\<rparr>
         | CsExtraGold \<Rightarrow> a\<lparr>ma_deletions := ma_deletions a + 1,
             ma_pos_counts := bump_pos label (\<lambda>c. c\<lparr>pe_deletions := pe_deletions c + 1\<rparr>) (ma_pos_counts a)\<rparr>))"

definition finish_metrics :: "MetricAccumulator \<Rightarrow> CompareMetrics" where
  "finish_metrics a =
     (let total_gold = ma_matches a + ma_deletions a;
          total_main = ma_matches a + ma_insertions a;
          wer = (if total_gold > 0 then of_nat (ma_insertions a + ma_deletions a) / of_nat total_gold
                 else 0)
      in \<lparr>cm_wer = wer, cm_accuracy = max 0 (min 1 (1 - wer)), cm_matches = ma_matches a,
          cm_insertions = ma_insertions a, cm_deletions = ma_deletions a,
          cm_total_gold_words = total_gold, cm_total_main_words = total_main,
          cm_pos_counts = ma_pos_counts a\<rparr>)"

section \<open>Flattening\<close>

record FlattenedWordInfo =
  fl_utterance_index :: nat
  fl_word_position :: nat
  fl_compare_position :: nat
  fl_pos :: "rstr option"

definition compare_punct :: "rstr list" where
  "compare_punct =
     map lit [''.'', ''?'', ''!'', '','', ''+/.'', ''+//.'', ''+//?'', ''+...'', ''++.''] @
     [[8225], [8222], [43, 34, 46], [43, 34, 63]]"

definition compare_fillers :: "rstr list" where
  "compare_fillers = map lit [''um'', ''uhm'', ''em'', ''mhm'', ''uhhm'', ''eh'', ''uh'', ''hm'']"

definition is_punct_or_filler :: "(rstr \<Rightarrow> rstr) \<Rightarrow> rstr \<Rightarrow> bool" where
  "is_punct_or_filler lower word \<longleftrightarrow>
     (let w = trim word in w \<in> set compare_punct \<or> lower w \<in> set compare_fillers)"

definition conform_with_mapping :: "ConformData \<Rightarrow> rstr list \<Rightarrow> (rstr \<times> nat) list" where
  "conform_with_mapping cd words =
     concat (map (\<lambda>(idx, word). map (\<lambda>token. (token, idx)) (conform_words cd [word])) (enumerate 0 words))"

definition collect_mor_pos_labels ::
  "('c, 'i) CompareReader \<Rightarrow> ('c, 'i, 'o) compare_file \<Rightarrow> rstr option list list" where
  "collect_mor_pos_labels rd f =
     map (\<lambda>u. case find_mor (cu_tiers u) of
                Some m \<Rightarrow> map (\<lambda>i. Some (cr_upper rd (cr_pos rd i))) (mt_items m)
              | None \<Rightarrow> []) (utterances f)"

definition mor_pos_at :: "rstr option list list \<Rightarrow> nat \<Rightarrow> nat \<Rightarrow> rstr option" where
  "mor_pos_at labels utt k =
     (case slice_get labels utt of
        None \<Rightarrow> None
      | Some positions \<Rightarrow> (case slice_get positions k of Some p \<Rightarrow> p | None \<Rightarrow> None))"

definition flatten_utterance ::
  "('c, 'i) CompareReader \<Rightarrow> rstr option list list \<Rightarrow> ExtractedUtterance \<Rightarrow>
   (rstr \<times> FlattenedWordInfo) list" where
  "flatten_utterance rd labels u =
     map (\<lambda>(compare_position, (k, word)).
            (word, \<lparr>fl_utterance_index = ex_utterance_index u, fl_word_position = k,
                    fl_compare_position = compare_position,
                    fl_pos = mor_pos_at labels (ex_utterance_index u) k\<rparr>))
       (enumerate 0 (filter (\<lambda>(k, word). \<not> is_punct_or_filler (cd_lower (cr_conform rd)) word)
                       (enumerate 0 (ex_words u))))"

definition flatten_compare_words ::
  "('c, 'i) CompareReader \<Rightarrow> ('c, 'i, 'o) compare_file \<Rightarrow> ExtractedUtterance list \<Rightarrow>
   (rstr \<times> FlattenedWordInfo) list" where
  "flatten_compare_words rd f utts =
     concat (map (flatten_utterance rd (collect_mor_pos_labels rd f)) utts)"

definition collect_utterance_terminators ::
  "('c, 'i) CompareReader \<Rightarrow> ('c, 'i, 'o) compare_file \<Rightarrow> rstr option list" where
  "collect_utterance_terminators rd f = map (cr_terminator rd) (utterances f)"

section \<open>The window of a gold utterance\<close>

definition token_counts :: "rstr list \<Rightarrow> (rstr, nat) hmap" where
  "token_counts tokens =
     foldl (\<lambda>m t. hm_insert t ((case hm_get m t of Some n \<Rightarrow> n | None \<Rightarrow> 0) + 1) m) [] tokens"

definition token_overlap :: "rstr list \<Rightarrow> (rstr, nat) hmap \<Rightarrow> nat" where
  "token_overlap window gold_counts =
     sum_list (map (\<lambda>(token, n). min n (case hm_get gold_counts token of Some g \<Rightarrow> g | None \<Rightarrow> 0))
                (token_counts window))"

record BestSegment =
  bs_best :: "nat \<times> nat"
  bs_score :: rat
  bs_len_delta :: "nat option"

definition abs_diff :: "nat \<Rightarrow> nat \<Rightarrow> nat" where
  "abs_diff a b = (if a < b then b - a else a - b)"

definition consider_window ::
  "rstr list \<Rightarrow> nat \<Rightarrow> (rstr, nat) hmap \<Rightarrow> BestSegment \<Rightarrow> nat \<times> nat \<Rightarrow> BestSegment" where
  "consider_window main_tokens gold_len gold_counts b w =
     (let (span, start) = w;
          stop = start + span;
          overlap = token_overlap (take span (drop start main_tokens)) gold_counts;
          score = of_nat overlap / of_nat gold_len;
          len_delta = abs_diff span gold_len
      in if score > bs_score b \<or>
            (score = bs_score b \<and>
               (case bs_len_delta b of None \<Rightarrow> True | Some d \<Rightarrow> len_delta < d)) \<or>
            (score = bs_score b \<and> Some len_delta = bs_len_delta b \<and> stop > snd (bs_best b))
         then \<lparr>bs_best = (start, stop), bs_score = score, bs_len_delta = Some len_delta\<rparr>
         else b)"

definition candidate_windows :: "nat \<Rightarrow> nat \<Rightarrow> (nat \<times> nat) list" where
  "candidate_windows gold_len main_len =
     concat (map (\<lambda>span. map (\<lambda>start. (span, start)) [0..<main_len - span + 1])
       [max 1 (sat_sub gold_len 2)..<min main_len (gold_len + 2) + 1])"

definition find_best_segment :: "rstr list \<Rightarrow> rstr list \<Rightarrow> nat \<times> nat" where
  "find_best_segment gold_tokens main_tokens =
     (if gold_tokens = [] \<or> main_tokens = [] then (0, 0)
      else
        (let gold_len = length gold_tokens; main_len = length main_tokens
         in bs_best (foldl (consider_window main_tokens gold_len (token_counts gold_tokens))
              \<lparr>bs_best = (0, min main_len gold_len), bs_score = - 1, bs_len_delta = None\<rparr>
              (candidate_windows gold_len main_len))))"

section \<open>Aligning utterance by utterance\<close>

record CompareState =
  cs_main_positioned :: "(rat \<times> CompareToken) list list"
  cs_gold_positioned :: "(rat \<times> CompareToken) list list"
  cs_gold_word_matches :: "GoldWordMatch list"
  cs_metrics :: MetricAccumulator
  cs_search_start :: nat
  cs_last_global_main_anchor :: "(nat \<times> nat) option"
  cs_main_cursor :: nat
  cs_gold_cursor :: nat
  cs_last_gold_word_position :: "nat option"
  cs_local_main_anchor :: "(nat \<times> nat) option"

text \<open>What stays fixed while the gold utterances are compared.\<close>

record CompareTables =
  tb_upper :: "rstr \<Rightarrow> rstr"
  tb_conformed_main :: "rstr list"
  tb_main_map :: "nat list"
  tb_main_info :: "FlattenedWordInfo list"
  tb_gold_info :: "FlattenedWordInfo list"
  tb_gold_utt_tokens :: "rstr list list"
  tb_gold_utt_maps :: "nat list list"

definition push_match :: "GoldWordMatch \<Rightarrow> GoldWordMatch list \<Rightarrow> GoldWordMatch list" where
  "push_match g ms = (if ms \<noteq> [] \<and> last ms = g then ms else ms @ [g])"

definition or_else :: "'a option \<Rightarrow> 'a option \<Rightarrow> 'a option" where
  "or_else a b = (case a of Some x \<Rightarrow> Some x | None \<Rightarrow> b)"

fun compare_item ::
  "CompareTables \<Rightarrow> nat \<Rightarrow> nat \<Rightarrow> (nat \<times> nat) option \<Rightarrow> CompareState \<Rightarrow> AlignResult \<Rightarrow>
   CompareState option" where
  "compare_item tb gold_utt abs_start default_anchor s (AlMatch key i j) = do {
     orig_main \<leftarrow> slice_get (tb_main_map tb) (abs_start + cs_main_cursor s);
     mw \<leftarrow> slice_get (tb_main_info tb) orig_main;
     g_maps \<leftarrow> slice_get (tb_gold_utt_maps tb) gold_utt;
     orig_gold \<leftarrow> slice_get g_maps (cs_gold_cursor s);
     gw \<leftarrow> slice_get (tb_gold_info tb) orig_gold;
     let token = \<lparr>ct_text = key, ct_pos = fl_pos mw, ct_status = CsMatch\<rparr>;
     mp \<leftarrow> push_at (fl_utterance_index mw) (of_nat (fl_word_position mw), token) (cs_main_positioned s);
     gp \<leftarrow> push_at gold_utt (of_nat (fl_word_position gw), token) (cs_gold_positioned s);
     let anchor = Some (fl_utterance_index mw, fl_word_position mw);
     Some (s\<lparr>cs_main_positioned := mp, cs_gold_positioned := gp,
             cs_gold_word_matches := push_match
               \<lparr>gm_gold_utterance_index = gold_utt, gm_gold_word_position = fl_compare_position gw,
                gm_main_utterance_index = fl_utterance_index mw,
                gm_main_word_position = fl_compare_position mw\<rparr> (cs_gold_word_matches s),
             cs_metrics := record_token (tb_upper tb) token (cs_metrics s),
             cs_last_global_main_anchor := anchor, cs_local_main_anchor := anchor,
             cs_last_gold_word_position := Some (fl_word_position gw),
             cs_main_cursor := cs_main_cursor s + 1, cs_gold_cursor := cs_gold_cursor s + 1\<rparr>)
   }"
| "compare_item tb gold_utt abs_start default_anchor s (ExtraPayload key i) = do {
     orig_main \<leftarrow> slice_get (tb_main_map tb) (abs_start + cs_main_cursor s);
     mw \<leftarrow> slice_get (tb_main_info tb) orig_main;
     let token = \<lparr>ct_text = key, ct_pos = fl_pos mw, ct_status = CsExtraMain\<rparr>;
     mp \<leftarrow> push_at (fl_utterance_index mw) (of_nat (fl_word_position mw), token) (cs_main_positioned s);
     gp \<leftarrow> push_at gold_utt
       (case cs_last_gold_word_position s of None \<Rightarrow> - 1 / 2 | Some pos \<Rightarrow> of_nat pos + 1 / 2, token)
       (cs_gold_positioned s);
     let anchor = Some (fl_utterance_index mw, fl_word_position mw);
     Some (s\<lparr>cs_main_positioned := mp, cs_gold_positioned := gp,
             cs_metrics := record_token (tb_upper tb) token (cs_metrics s),
             cs_last_global_main_anchor := anchor, cs_local_main_anchor := anchor,
             cs_main_cursor := cs_main_cursor s + 1\<rparr>)
   }"
| "compare_item tb gold_utt abs_start default_anchor s (ExtraReference key j) = do {
     g_maps \<leftarrow> slice_get (tb_gold_utt_maps tb) gold_utt;
     orig_gold \<leftarrow> slice_get g_maps (cs_gold_cursor s);
     gw \<leftarrow> slice_get (tb_gold_info tb) orig_gold;
     let token = \<lparr>ct_text = key, ct_pos = fl_pos gw, ct_status = CsExtraGold\<rparr>;
     gp \<leftarrow> push_at gold_utt (of_nat (fl_word_position gw), token) (cs_gold_positioned s);
     let mp = (case or_else (or_else (cs_local_main_anchor s) default_anchor)
                      (cs_last_global_main_anchor s) of
                 None \<Rightarrow> cs_main_positioned s
               | Some (utt, pos) \<Rightarrow>
                   (case push_at utt (of_nat pos + 1 / 2, token) (cs_main_positioned s) of
                      None \<Rightarrow> cs_main_positioned s | Some mp \<Rightarrow> mp));
     Some (s\<lparr>cs_main_positioned := mp, cs_gold_positioned := gp,
             cs_metrics := record_token (tb_upper tb) token (cs_metrics s),
             cs_last_gold_word_position := Some (fl_word_position gw),
             cs_gold_cursor := cs_gold_cursor s + 1\<rparr>)
   }"

text \<open>A fold that stops at a panic.\<close>

fun fold_opt :: "('s \<Rightarrow> 'a \<Rightarrow> 's option) \<Rightarrow> 's \<Rightarrow> 'a list \<Rightarrow> 's option" where
  "fold_opt f s [] = Some s"
| "fold_opt f s (x # xs) = (case f s x of None \<Rightarrow> None | Some s' \<Rightarrow> fold_opt f s' xs)"

definition compare_utterance ::
  "('c, 'i) CompareReader \<Rightarrow> CompareTables \<Rightarrow> CompareState \<Rightarrow> nat \<Rightarrow> CompareState option" where
  "compare_utterance rd tb s gold_utt = do {
     g_tokens \<leftarrow> slice_get (tb_gold_utt_tokens tb) gold_utt;
     if g_tokens = [] then Some s
     else do {
       remaining \<leftarrow> slice (tb_conformed_main tb) (cs_search_start s) (length (tb_conformed_main tb));
       let (win_start, win_end) = find_best_segment g_tokens remaining;
       let abs_start = cs_search_start s + win_start;
       let abs_end = cs_search_start s + win_end;
       default_anchor \<leftarrow>
         (if abs_start < length (tb_conformed_main tb)
          then do {
            orig \<leftarrow> slice_get (tb_main_map tb) abs_start;
            w \<leftarrow> slice_get (tb_main_info tb) orig;
            Some (Some (fl_utterance_index w, fl_word_position w))
          }
          else Some None);
       window_main \<leftarrow> slice (tb_conformed_main tb) abs_start abs_end;
       alignment \<leftarrow> align (cd_lower (cr_conform rd)) (cr_jaro rd) window_main g_tokens MmCaseInsensitive;
       s' \<leftarrow> fold_opt (compare_item tb gold_utt abs_start default_anchor)
         (s\<lparr>cs_main_cursor := 0, cs_gold_cursor := 0, cs_last_gold_word_position := None,
            cs_local_main_anchor := None\<rparr>) alignment;
       Some (s'\<lparr>cs_search_start := abs_end\<rparr>)
     }
   }"

definition compare_tables ::
  "('c, 'i) CompareReader \<Rightarrow> ('c, 'i, 'o) compare_file \<Rightarrow> ('c, 'i, 'o) compare_file \<Rightarrow> CompareTables" where
  "compare_tables rd main_file gold_file =
     (let main_flat = flatten_compare_words rd main_file (extract_words rd main_file);
          gold_flat = flatten_compare_words rd gold_file (extract_words rd gold_file);
          conformed_main = conform_with_mapping (cr_conform rd) (map fst main_flat);
          conformed_gold = conform_with_mapping (cr_conform rd) (map fst gold_flat);
          of_utterance = (\<lambda>utt. filter (\<lambda>(token, orig).
            fl_utterance_index (snd (gold_flat ! orig)) = utt) conformed_gold);
          utts = [0..<length (extract_words rd gold_file)]
      in \<lparr>tb_upper = cr_upper rd,
          tb_conformed_main = map fst conformed_main, tb_main_map = map snd conformed_main,
          tb_main_info = map snd main_flat, tb_gold_info = map snd gold_flat,
          tb_gold_utt_tokens = map (\<lambda>utt. map fst (of_utterance utt)) utts,
          tb_gold_utt_maps = map (\<lambda>utt. map snd (of_utterance utt)) utts\<rparr>)"

definition compare_state0 :: "nat \<Rightarrow> nat \<Rightarrow> CompareState" where
  "compare_state0 main_count gold_count =
     \<lparr>cs_main_positioned = replicate main_count [], cs_gold_positioned = replicate gold_count [],
      cs_gold_word_matches = [], cs_metrics = metric_accumulator0, cs_search_start = 0,
      cs_last_global_main_anchor = None, cs_main_cursor = 0, cs_gold_cursor = 0,
      cs_last_gold_word_position = None, cs_local_main_anchor = None\<rparr>"

definition push_terminator ::
  "rstr list list \<Rightarrow> (rat \<times> CompareToken) list list \<Rightarrow> nat \<times> rstr option \<Rightarrow>
   (rat \<times> CompareToken) list list option" where
  "push_terminator gold_utt_tokens gp t =
     (case t of
        (utt, None) \<Rightarrow> Some gp
      | (utt, Some terminator) \<Rightarrow> do {
          tokens \<leftarrow> slice_get gold_utt_tokens utt;
          push_at utt (of_nat (length tokens),
            \<lparr>ct_text = terminator, ct_pos = Some (lit ''PUNCT''), ct_status = CsMatch\<rparr>) gp
        })"

definition build_utterance_comparisons ::
  "ExtractedUtterance list \<Rightarrow> (rat \<times> CompareToken) list list \<Rightarrow> UtteranceComparison list" where
  "build_utterance_comparisons utts positioned =
     map (\<lambda>(i, u). \<lparr>uc_utterance_index = i, uc_speaker = ex_speaker u,
                     uc_tokens = map snd (sort_key fst (positioned ! i))\<rparr>) (enumerate 0 utts)"

definition compare_loop ::
  "('c, 'i) CompareReader \<Rightarrow> ('c, 'i, 'o) compare_file \<Rightarrow> ('c, 'i, 'o) compare_file \<Rightarrow>
   CompareState option" where
  "compare_loop rd main_file gold_file =
     fold_opt (compare_utterance rd (compare_tables rd main_file gold_file))
       (compare_state0 (length (extract_words rd main_file)) (length (extract_words rd gold_file)))
       [0..<length (extract_words rd gold_file)]"

definition compare ::
  "('c, 'i) CompareReader \<Rightarrow> ('c, 'i, 'o) compare_file \<Rightarrow> ('c, 'i, 'o) compare_file \<Rightarrow>
   ComparisonBundle option" where
  "compare rd main_file gold_file = do {
     s \<leftarrow> compare_loop rd main_file gold_file;
     gp \<leftarrow> fold_opt (push_terminator (tb_gold_utt_tokens (compare_tables rd main_file gold_file)))
       (cs_gold_positioned s) (enumerate 0 (collect_utterance_terminators rd gold_file));
     Some \<lparr>cb_main_utterances = build_utterance_comparisons (extract_words rd main_file) (cs_main_positioned s),
           cb_gold_utterances = build_utterance_comparisons (extract_words rd gold_file) gp,
           cb_gold_word_matches = cs_gold_word_matches s,
           cb_metrics = finish_metrics (cs_metrics s)\<rparr>
   }"

end
