(* ===== verification/Compare_Correct.thy ===== *)
theory Compare_Correct
  imports Compare
begin

text \<open>
  The comparison never indexes out of range, its counters agree with the tokens it writes, the gold
  side of every utterance is its conformed words in order, and no main word is used twice.
\<close>

section \<open>What one item does\<close>

definition tables_ok :: "CompareTables \<Rightarrow> nat \<Rightarrow> nat \<Rightarrow> bool" where
  "tables_ok tb main_count gold_count \<longleftrightarrow>
     length (tb_main_map tb) = length (tb_conformed_main tb) \<and>
     (\<forall>k\<in>set (tb_main_map tb). k < length (tb_main_info tb)) \<and>
     (\<forall>w\<in>set (tb_main_info tb). fl_utterance_index w < main_count) \<and>
     length (tb_gold_utt_tokens tb) = gold_count \<and> length (tb_gold_utt_maps tb) = gold_count \<and>
     (\<forall>g<gold_count. length (tb_gold_utt_maps tb ! g) = length (tb_gold_utt_tokens tb ! g) \<and>
        (\<forall>k\<in>set (tb_gold_utt_maps tb ! g). k < length (tb_gold_info tb)))"

definition main_word :: "CompareTables \<Rightarrow> nat \<Rightarrow> nat \<Rightarrow> FlattenedWordInfo" where
  "main_word tb a i = tb_main_info tb ! (tb_main_map tb ! (a + i))"

definition gold_word :: "CompareTables \<Rightarrow> nat \<Rightarrow> nat \<Rightarrow> FlattenedWordInfo" where
  "gold_word tb g j = tb_gold_info tb ! (tb_gold_utt_maps tb ! g ! j)"

fun token_of :: "CompareTables \<Rightarrow> nat \<Rightarrow> nat \<Rightarrow> AlignResult \<Rightarrow> CompareToken" where
  "token_of tb g a (AlMatch k i j) =
     \<lparr>ct_text = k, ct_pos = fl_pos (main_word tb a i), ct_status = CsMatch\<rparr>"
| "token_of tb g a (ExtraPayload k i) =
     \<lparr>ct_text = k, ct_pos = fl_pos (main_word tb a i), ct_status = CsExtraMain\<rparr>"
| "token_of tb g a (ExtraReference k j) =
     \<lparr>ct_text = k, ct_pos = fl_pos (gold_word tb g j), ct_status = CsExtraGold\<rparr>"

fun gold_side :: "CompareTables \<Rightarrow> nat \<Rightarrow> nat \<Rightarrow> AlignResult \<Rightarrow> (rat \<times> CompareToken) list" where
  "gold_side tb g a (ExtraPayload k i) = []"
| "gold_side tb g a (AlMatch k i j) =
     [(of_nat (fl_word_position (gold_word tb g j)), token_of tb g a (AlMatch k i j))]"
| "gold_side tb g a (ExtraReference k j) =
     [(of_nat (fl_word_position (gold_word tb g j)), token_of tb g a (ExtraReference k j))]"

fun match_of :: "CompareTables \<Rightarrow> nat \<Rightarrow> nat \<Rightarrow> AlignResult \<Rightarrow> GoldWordMatch list" where
  "match_of tb g a (AlMatch k i j) =
     [\<lparr>gm_gold_utterance_index = g, gm_gold_word_position = fl_compare_position (gold_word tb g j),
       gm_main_utterance_index = fl_utterance_index (main_word tb a i),
       gm_main_word_position = fl_compare_position (main_word tb a i)\<rparr>]"
| "match_of tb g a _ = []"

abbreviation on_gold_side :: "rat \<times> CompareToken \<Rightarrow> bool" where
  "on_gold_side e \<equiv> ct_status (snd e) \<noteq> CsExtraMain"

text \<open>The effect of the items of one gold utterance.\<close>

definition items_effect ::
  "CompareTables \<Rightarrow> nat \<Rightarrow> nat \<Rightarrow> AlignResult list \<Rightarrow> CompareState \<Rightarrow> CompareState \<Rightarrow> bool" where
  "items_effect tb g a res s s' \<longleftrightarrow>
     length (cs_main_positioned s') = length (cs_main_positioned s) \<and>
     length (cs_gold_positioned s') = length (cs_gold_positioned s) \<and>
     (\<forall>h. h \<noteq> g \<longrightarrow> cs_gold_positioned s' ! h = cs_gold_positioned s ! h) \<and>
     map snd (cs_gold_positioned s' ! g) = map snd (cs_gold_positioned s ! g) @ map (token_of tb g a) res \<and>
     filter on_gold_side (cs_gold_positioned s' ! g) =
       filter on_gold_side (cs_gold_positioned s ! g) @ concat (map (gold_side tb g a) res) \<and>
     cs_metrics s' = foldl (\<lambda>m t. record_token (tb_upper tb) t m) (cs_metrics s) (map (token_of tb g a) res) \<and>
     cs_gold_word_matches s' =
       foldl (\<lambda>ms m. push_match m ms) (cs_gold_word_matches s) (concat (map (match_of tb g a) res)) \<and>
     cs_search_start s' = cs_search_start s"

lemma items_effect_refl: "items_effect tb g a [] s s"
  by (simp add: items_effect_def)

lemma items_effect_step:
  "items_effect tb g a [x] s s1 \<Longrightarrow> items_effect tb g a res s1 s' \<Longrightarrow> items_effect tb g a (x # res) s s'"
  by (simp add: items_effect_def)

lemma push_at_Some: "i < length xss \<Longrightarrow> push_at i x xss = Some (xss[i := xss ! i @ [x]])"
  by (simp add: push_at_def)

lemma length_push_default [simp]:
  "length (case push_at i x xss of None \<Rightarrow> xss | Some yss \<Rightarrow> yss) = length xss"
  by (simp add: push_at_def)

lemma slice_get_Some: "i < length xs \<Longrightarrow> slice_get xs i = Some (xs ! i)"
  by (simp add: slice_get_def)

lemma tables_main:
  "tables_ok tb mn gn \<Longrightarrow> k < length (tb_main_map tb) \<Longrightarrow>
   slice_get (tb_main_map tb) k = Some (tb_main_map tb ! k) \<and>
   slice_get (tb_main_info tb) (tb_main_map tb ! k) = Some (tb_main_info tb ! (tb_main_map tb ! k)) \<and>
   fl_utterance_index (tb_main_info tb ! (tb_main_map tb ! k)) < mn"
  by (auto simp: tables_ok_def slice_get_def)

lemma tables_gold:
  "tables_ok tb mn gn \<Longrightarrow> g < gn \<Longrightarrow> j < length (tb_gold_utt_maps tb ! g) \<Longrightarrow>
   slice_get (tb_gold_utt_maps tb) g = Some (tb_gold_utt_maps tb ! g) \<and>
   slice_get (tb_gold_utt_maps tb ! g) j = Some (tb_gold_utt_maps tb ! g ! j) \<and>
   slice_get (tb_gold_info tb) (tb_gold_utt_maps tb ! g ! j) = Some (gold_word tb g j)"
  by (auto simp: tables_ok_def slice_get_def gold_word_def)

lemma step_match:
  assumes "tables_ok tb (length (cs_main_positioned s)) (length (cs_gold_positioned s))"
    and "g < length (cs_gold_positioned s)"
    and "a + cs_main_cursor s < length (tb_main_map tb)"
    and "cs_gold_cursor s < length (tb_gold_utt_maps tb ! g)"
  shows "\<exists>s1. compare_item tb g a da s (AlMatch k (cs_main_cursor s) (cs_gold_cursor s)) = Some s1 \<and>
    items_effect tb g a [AlMatch k (cs_main_cursor s) (cs_gold_cursor s)] s s1 \<and>
    cs_main_cursor s1 = Suc (cs_main_cursor s) \<and> cs_gold_cursor s1 = Suc (cs_gold_cursor s)"
  using tables_main [OF assms(1,3)] tables_gold [OF assms(1,2,4)] assms(2)
  by (simp add: push_at_Some items_effect_def main_word_def Let_def)

lemma step_payload:
  assumes "tables_ok tb (length (cs_main_positioned s)) (length (cs_gold_positioned s))"
    and "g < length (cs_gold_positioned s)"
    and "a + cs_main_cursor s < length (tb_main_map tb)"
  shows "\<exists>s1. compare_item tb g a da s (ExtraPayload k (cs_main_cursor s)) = Some s1 \<and>
    items_effect tb g a [ExtraPayload k (cs_main_cursor s)] s s1 \<and>
    cs_main_cursor s1 = Suc (cs_main_cursor s) \<and> cs_gold_cursor s1 = cs_gold_cursor s"
  using tables_main [OF assms(1,3)] assms(2)
  by (simp add: push_at_Some items_effect_def main_word_def Let_def)

lemma step_reference:
  assumes "tables_ok tb (length (cs_main_positioned s)) (length (cs_gold_positioned s))"
    and "g < length (cs_gold_positioned s)"
    and "cs_gold_cursor s < length (tb_gold_utt_maps tb ! g)"
  shows "\<exists>s1. compare_item tb g a da s (ExtraReference k (cs_gold_cursor s)) = Some s1 \<and>
    items_effect tb g a [ExtraReference k (cs_gold_cursor s)] s s1 \<and>
    cs_main_cursor s1 = cs_main_cursor s \<and> cs_gold_cursor s1 = Suc (cs_gold_cursor s)"
  using tables_gold [OF assms] assms(2)
  by (simp add: push_at_Some items_effect_def Let_def split: option.split)

lemma items_run:
  assumes "aligns mt key p r po ro res"
    and "tables_ok tb (length (cs_main_positioned s)) (length (cs_gold_positioned s))"
    and "g < length (cs_gold_positioned s)"
    and "a + po + length p \<le> length (tb_main_map tb)"
    and "ro + length r \<le> length (tb_gold_utt_maps tb ! g)"
    and "cs_main_cursor s = po" "cs_gold_cursor s = ro"
  shows "\<exists>s'. fold_opt (compare_item tb g a da) s res = Some s' \<and> items_effect tb g a res s s'"
  using assms
proof (induction arbitrary: s rule: aligns.induct)
  case (al_nil po ro)
  then show ?case by (simp add: items_effect_refl)
next
  case (al_match x y ys xs po ro res)
  then obtain s1 where s1: "compare_item tb g a da s (AlMatch (key x) po ro) = Some s1"
    "items_effect tb g a [AlMatch (key x) po ro] s s1"
    "cs_main_cursor s1 = Suc po" "cs_gold_cursor s1 = Suc ro"
    using step_match [of tb s g a da "key x"] by (auto simp del: compare_item.simps)
  then show ?case
    using al_match.IH [of s1] al_match.prems items_effect_step [OF s1(2)]
    by (auto simp: items_effect_def simp del: compare_item.simps)
next
  case (al_payload ys xs po ro res y)
  then obtain s1 where s1: "compare_item tb g a da s (ExtraPayload (key y) po) = Some s1"
    "items_effect tb g a [ExtraPayload (key y) po] s s1"
    "cs_main_cursor s1 = Suc po" "cs_gold_cursor s1 = ro"
    using step_payload [of tb s g a da "key y"] by (auto simp del: compare_item.simps)
  then show ?case
    using al_payload.IH [of s1] al_payload.prems items_effect_step [OF s1(2)]
    by (auto simp: items_effect_def simp del: compare_item.simps)
next
  case (al_reference ys xs po ro res x)
  then obtain s1 where s1: "compare_item tb g a da s (ExtraReference (key x) ro) = Some s1"
    "items_effect tb g a [ExtraReference (key x) ro] s s1"
    "cs_main_cursor s1 = po" "cs_gold_cursor s1 = Suc ro"
    using step_reference [of tb s g a da "key x"] by (auto simp del: compare_item.simps)
  then show ?case
    using al_reference.IH [of s1] al_reference.prems items_effect_step [OF s1(2)]
    by (auto simp: items_effect_def simp del: compare_item.simps)
qed

section \<open>Windows\<close>

lemma candidate_in_range: "(d, i) \<in> set (candidate_windows n m) \<Longrightarrow> i + d \<le> m"
  by (auto simp: candidate_windows_def)

lemma find_best_bounds:
  assumes "find_best_segment gs ms = (a, b)"
  shows "a \<le> b \<and> b \<le> length ms"
proof -
  let ?P = "\<lambda>w. fst (bs_best w) \<le> snd (bs_best w) \<and> snd (bs_best w) \<le> length ms"
  have "?P (foldl (consider_window ms n gc) w ws)"
    if "\<forall>(d, i)\<in>set ws. i + d \<le> length ms" "?P w" for n gc w ws
    using that
    by (induction ws arbitrary: w) (auto simp: consider_window_def Let_def)
  from this [of "candidate_windows (length gs) (length ms)"
      "\<lparr>bs_best = (0, min (length ms) (length gs)), bs_score = - 1, bs_len_delta = None\<rparr>"]
  have "?P (foldl (consider_window ms (length gs) (token_counts gs))
      \<lparr>bs_best = (0, min (length ms) (length gs)), bs_score = - 1, bs_len_delta = None\<rparr>
      (candidate_windows (length gs) (length ms)))"
    using candidate_in_range by fastforce
  then show ?thesis using assms by (auto simp: find_best_segment_def Let_def split: if_splits)
qed

section \<open>What one utterance does\<close>

abbreviation on_main_side :: "CompareToken \<Rightarrow> bool" where
  "on_main_side t \<equiv> ct_status t \<noteq> CsExtraGold"

lemma aligned_tokens:
  "aligns mt string_key p r po ro res \<Longrightarrow>
     map (ct_text \<circ> snd) (concat (map (gold_side tb g a) res)) = r \<and>
     map fst (concat (map (gold_side tb g a) res)) =
       map (\<lambda>j. of_nat (fl_word_position (gold_word tb g j))) [ro..<ro + length r] \<and>
     length (filter on_main_side (map (token_of tb g a) res)) = length p"
  by (induction rule: aligns.induct) (simp_all add: string_key_def upt_conv_Cons del: upt_Suc)

definition utterance_effect ::
  "('c, 'i) CompareReader \<Rightarrow> CompareTables \<Rightarrow> nat \<Rightarrow> CompareState \<Rightarrow> CompareState \<Rightarrow> bool" where
  "utterance_effect rd tb g s s' \<longleftrightarrow>
     (if tb_gold_utt_tokens tb ! g = [] then s' = s
      else \<exists>a window res.
        find_best_segment (tb_gold_utt_tokens tb ! g) (drop (cs_search_start s) (tb_conformed_main tb)) =
          (a - cs_search_start s, a + length window - cs_search_start s) \<and>
        cs_search_start s \<le> a \<and> a + length window \<le> length (tb_conformed_main tb) \<and>
        window = take (length window) (drop a (tb_conformed_main tb)) \<and>
        align (cd_lower (cr_conform rd)) (cr_jaro rd) window (tb_gold_utt_tokens tb ! g)
          MmCaseInsensitive = Some res \<and>
        aligns (string_matches (cd_lower (cr_conform rd)) (cr_jaro rd) MmCaseInsensitive) string_key
          window (tb_gold_utt_tokens tb ! g) 0 0 res \<and>
        items_effect tb g a res s (s'\<lparr>cs_search_start := cs_search_start s\<rparr>) \<and>
        cs_search_start s' = a + length window)"

lemma items_effect_cursors:
  "items_effect tb g a res (s\<lparr>cs_main_cursor := i, cs_gold_cursor := j, cs_last_gold_word_position := k,
     cs_local_main_anchor := l\<rparr>) s' \<longleftrightarrow> items_effect tb g a res s s'"
  by (simp add: items_effect_def)

lemma items_effect_search:
  "items_effect tb g a res s s' \<Longrightarrow>
   items_effect tb g a res s (s'\<lparr>cs_search_start := b, cs_search_start := cs_search_start s\<rparr>)"
  by (simp add: items_effect_def)

lemma anchor_Some:
  assumes "tables_ok tb mn gn"
  shows "\<exists>x. (if k < length (tb_conformed_main tb)
     then do {
       orig \<leftarrow> slice_get (tb_main_map tb) k;
       w \<leftarrow> slice_get (tb_main_info tb) orig;
       Some (Some (fl_utterance_index w, fl_word_position w))
     }
     else Some None) = Some x"
  using tables_main [OF assms, of k] assms by (auto simp: tables_ok_def)

lemma utterance_run:
  assumes ok: "tables_ok tb (length (cs_main_positioned s)) (length (cs_gold_positioned s))"
    and g: "g < length (cs_gold_positioned s)"
    and start: "cs_search_start s \<le> length (tb_conformed_main tb)"
  shows "\<exists>s'. compare_utterance rd tb s g = Some s' \<and> utterance_effect rd tb g s s'"
proof (cases "tb_gold_utt_tokens tb ! g = []")
  case True
  then show ?thesis using ok g
    by (simp add: compare_utterance_def utterance_effect_def slice_get_def tables_ok_def)
next
  case False
  let ?conf = "tb_conformed_main tb" and ?toks = "tb_gold_utt_tokens tb ! g"
  let ?lower = "cd_lower (cr_conform rd)" and ?jaro = "cr_jaro rd"
  obtain b e where seg: "find_best_segment ?toks (drop (cs_search_start s) ?conf) = (b, e)" by fastforce
  then have be: "b \<le> e" "e \<le> length ?conf - cs_search_start s"
    using find_best_bounds by (auto simp flip: length_drop)
  let ?a = "cs_search_start s + b"
  let ?window = "take (e - b) (drop ?a ?conf)"
  have len: "length ?window = e - b" using be start by simp
  obtain x where x: "(if ?a < length ?conf
     then do {
       orig \<leftarrow> slice_get (tb_main_map tb) ?a;
       w \<leftarrow> slice_get (tb_main_info tb) orig;
       Some (Some (fl_utterance_index w, fl_word_position w))
     }
     else Some None) = Some x"
    using anchor_Some [OF ok] by blast
  obtain res where res: "align ?lower ?jaro ?window ?toks MmCaseInsensitive = Some res"
    and al: "aligns (string_matches ?lower ?jaro MmCaseInsensitive) string_key ?window ?toks 0 0 res"
    using string_ci.aligner_optimal unfolding align_def by blast
  let ?s0 = "s\<lparr>cs_main_cursor := 0, cs_gold_cursor := 0, cs_last_gold_word_position := None,
            cs_local_main_anchor := None\<rparr>"
  have "\<exists>s'. fold_opt (compare_item tb g ?a x) ?s0 res = Some s' \<and> items_effect tb g ?a res ?s0 s'"
    using ok g len be start by (intro items_run [OF al]) (auto simp: tables_ok_def)
  then obtain s' where s': "fold_opt (compare_item tb g ?a x) ?s0 res = Some s'"
    "items_effect tb g ?a res s s'"
    by (auto simp: items_effect_cursors)
  have slices: "slice ?conf (cs_search_start s) (length ?conf) = Some (drop (cs_search_start s) ?conf)"
    "slice ?conf ?a (cs_search_start s + e) = Some ?window"
    using start be by (simp_all add: slice_def)
  have "compare_utterance rd tb s g = Some (s'\<lparr>cs_search_start := cs_search_start s + e\<rparr>)"
    using False ok g seg x res s' slices
    by (simp add: compare_utterance_def slice_get_def tables_ok_def)
  moreover have "utterance_effect rd tb g s (s'\<lparr>cs_search_start := cs_search_start s + e\<rparr>)"
    using False seg be len start res al items_effect_search [OF s'(2)]
    by (auto simp: utterance_effect_def intro!: exI [of _ ?a] exI [of _ ?window] exI [of _ res])
  ultimately show ?thesis by blast
qed

section \<open>The whole loop\<close>

abbreviation pushed_tokens :: "nat \<Rightarrow> CompareState \<Rightarrow> CompareToken list" where
  "pushed_tokens k s \<equiv> concat (map (map snd) (take k (cs_gold_positioned s)))"

definition gold_side_ok :: "CompareTables \<Rightarrow> nat \<Rightarrow> (rat \<times> CompareToken) list \<Rightarrow> bool" where
  "gold_side_ok tb g es \<longleftrightarrow>
     map (ct_text \<circ> snd) (filter on_gold_side es) = tb_gold_utt_tokens tb ! g \<and>
     map fst (filter on_gold_side es) =
       map (\<lambda>j. of_nat (fl_word_position (gold_word tb g j))) [0..<length (tb_gold_utt_tokens tb ! g)]"

definition loop_inv :: "CompareTables \<Rightarrow> nat \<Rightarrow> nat \<Rightarrow> nat \<Rightarrow> CompareState \<Rightarrow> bool" where
  "loop_inv tb mn gn k s \<longleftrightarrow>
     length (cs_main_positioned s) = mn \<and> length (cs_gold_positioned s) = gn \<and>
     cs_search_start s \<le> length (tb_conformed_main tb) \<and>
     (\<forall>g<k. gold_side_ok tb g (cs_gold_positioned s ! g)) \<and>
     (\<forall>g. k \<le> g \<longrightarrow> g < gn \<longrightarrow> cs_gold_positioned s ! g = []) \<and>
     cs_metrics s = foldl (\<lambda>m t. record_token (tb_upper tb) t m) metric_accumulator0 (pushed_tokens k s) \<and>
     length (filter on_main_side (pushed_tokens k s)) \<le> cs_search_start s"

lemma loop_inv_start:
  "loop_inv tb mn gn 0 (compare_state0 mn gn)"
  by (simp add: loop_inv_def compare_state0_def)

lemma loop_inv_step:
  assumes inv: "loop_inv tb mn gn k s" and k: "k < gn" and eff: "utterance_effect rd tb k s s'"
  shows "loop_inv tb mn gn (Suc k) s'"
proof (cases "tb_gold_utt_tokens tb ! k = []")
  case True
  then show ?thesis using inv k eff
    by (auto simp: loop_inv_def utterance_effect_def gold_side_ok_def take_Suc_conv_app_nth less_Suc_eq)
next
  case False
  then obtain a window res where eff:
    "cs_search_start s \<le> a" "a + length window \<le> length (tb_conformed_main tb)"
    "aligns (string_matches (cd_lower (cr_conform rd)) (cr_jaro rd) MmCaseInsensitive) string_key
       window (tb_gold_utt_tokens tb ! k) 0 0 res"
    "items_effect tb k a res s (s'\<lparr>cs_search_start := cs_search_start s\<rparr>)"
    "cs_search_start s' = a + length window"
    using eff by (auto simp: utterance_effect_def)
  have lens: "length (cs_gold_positioned s') = gn" "length (cs_gold_positioned s) = gn"
    using eff(4) inv by (simp_all add: items_effect_def loop_inv_def)
  have same: "take k (cs_gold_positioned s') = take k (cs_gold_positioned s)"
    using eff(4) lens k by (auto simp: items_effect_def intro!: nth_equalityI)
  have empty: "cs_gold_positioned s ! k = []" using inv k by (simp add: loop_inv_def)
  have tokens: "pushed_tokens (Suc k) s' = pushed_tokens k s @ map (token_of tb k a) res"
    using eff(4) same lens k empty by (simp add: take_Suc_conv_app_nth items_effect_def)
  note al = aligned_tokens [OF eff(3), of tb k a]
  have "gold_side_ok tb k (cs_gold_positioned s' ! k)"
    using eff(4) empty al by (simp add: gold_side_ok_def items_effect_def)
  moreover have "gold_side_ok tb g (cs_gold_positioned s' ! g)" if "g < k" for g
    using that inv eff(4) by (simp add: loop_inv_def items_effect_def)
  ultimately have "\<forall>g<Suc k. gold_side_ok tb g (cs_gold_positioned s' ! g)" by (simp add: less_Suc_eq)
  moreover have "length (filter on_main_side (pushed_tokens (Suc k) s')) \<le> cs_search_start s'"
    using inv al eff(1,5) unfolding tokens by (simp add: loop_inv_def)
  ultimately show ?thesis
    using inv eff(2,4,5) unfolding loop_inv_def tokens by (auto simp: items_effect_def)
qed

lemma loop_run:
  assumes "tables_ok tb mn gn" "loop_inv tb mn gn k s" "k \<le> n" "n \<le> gn"
  shows "\<exists>s'. fold_opt (compare_utterance rd tb) s [k..<n] = Some s' \<and> loop_inv tb mn gn n s'"
  using assms
proof (induction "n - k" arbitrary: k s)
  case 0
  then show ?case by simp
next
  case (Suc d)
  then have k: "k < gn" and upt: "[k..<n] = k # [Suc k..<n]" by (auto simp: upt_conv_Cons)
  obtain s1 where s1: "compare_utterance rd tb s k = Some s1" "utterance_effect rd tb k s s1"
    using utterance_run [of tb s k rd] Suc.prems k by (auto simp: loop_inv_def)
  have "loop_inv tb mn gn (Suc k) s1" by (rule loop_inv_step [OF Suc.prems(2) k s1(2)])
  then obtain s' where "fold_opt (compare_utterance rd tb) s1 [Suc k..<n] = Some s'"
    "loop_inv tb mn gn n s'"
    using Suc.hyps(1) [of "Suc k" s1] Suc.hyps(2) Suc.prems
    by (metis Suc_diff_Suc Suc_leI Suc_le_lessD diff_Suc_1 zero_less_Suc zero_less_diff)
  then show ?case using s1(1) upt by simp
qed

section \<open>The tables of two files\<close>

lemma length_extract_words [simp]: "length (extract_words rd f) = length (utterances f)"
  by (simp add: extract_words_def)

lemma extract_words_index: "u \<in> set (extract_words rd f) \<Longrightarrow> ex_utterance_index u < length (utterances f)"
  by (auto simp: extract_words_def in_set_enumerate_eq)

lemma flatten_index:
  "p \<in> set (flatten_compare_words rd f (extract_words rd f)) \<Longrightarrow>
   fl_utterance_index (snd p) < length (utterances f)"
  using extract_words_index by (fastforce simp: flatten_compare_words_def flatten_utterance_def)

lemma conform_index: "(t, i) \<in> set (conform_with_mapping cd ws) \<Longrightarrow> i < length ws"
  by (auto simp: conform_with_mapping_def in_set_enumerate_eq)

lemma compare_tables_ok:
  "tables_ok (compare_tables rd main_file gold_file) (length (utterances main_file))
     (length (utterances gold_file))"
  unfolding tables_ok_def compare_tables_def Let_def
  using flatten_index [of _ rd main_file]
  by (auto dest!: conform_index)

lemma compare_loop_run:
  "\<exists>s. compare_loop rd main_file gold_file = Some s \<and>
     loop_inv (compare_tables rd main_file gold_file) (length (utterances main_file))
       (length (utterances gold_file)) (length (utterances gold_file)) s"
  using loop_run [OF compare_tables_ok [of rd main_file gold_file] loop_inv_start le0 order_refl, of rd]
  by (simp add: compare_loop_def)

definition terminator_entry :: "rstr list \<Rightarrow> rstr option \<Rightarrow> (rat \<times> CompareToken) list" where
  "terminator_entry toks t =
     (case t of None \<Rightarrow> []
      | Some terminator \<Rightarrow>
          [(of_nat (length toks),
            \<lparr>ct_text = terminator, ct_pos = Some (lit ''PUNCT''), ct_status = CsMatch\<rparr>)])"

lemma push_terminators:
  "n + length ts \<le> length gp \<Longrightarrow> length toks = length gp \<Longrightarrow>
   \<exists>gp'. fold_opt (push_terminator toks) gp (enumerate n ts) = Some gp' \<and> length gp' = length gp \<and>
     (\<forall>g<length gp. gp' ! g =
        gp ! g @ (if n \<le> g \<and> g < n + length ts then terminator_entry (toks ! g) (ts ! (g - n)) else []))"
proof (induction ts arbitrary: n gp)
  case (Cons t ts)
  let ?gp1 = "gp[n := gp ! n @ terminator_entry (toks ! n) t]"
  have one: "push_terminator toks gp (n, t) = Some ?gp1"
    using Cons.prems
    by (auto simp: push_terminator_def terminator_entry_def slice_get_def push_at_def split: option.split)
  obtain gp' where gp': "fold_opt (push_terminator toks) ?gp1 (enumerate (Suc n) ts) = Some gp'"
    "length gp' = length gp"
    "\<forall>g<length gp. gp' ! g = ?gp1 ! g @
       (if Suc n \<le> g \<and> g < Suc n + length ts then terminator_entry (toks ! g) (ts ! (g - Suc n)) else [])"
    using Cons.IH [of "Suc n" ?gp1] Cons.prems by auto
  have "gp' ! g = gp ! g @ (if n \<le> g \<and> g < n + length (t # ts)
      then terminator_entry (toks ! g) ((t # ts) ! (g - n)) else [])" if "g < length gp" for g
  proof (cases "g = n")
    case True
    then show ?thesis using gp'(3) that by simp
  next
    case False
    then show ?thesis using gp'(3) that by (auto simp: nth_Cons' not_less_eq_eq)
  qed
  then show ?case using one gp' by auto
qed auto

text \<open>The result of a comparison, in terms of the loop's final state.\<close>

lemma compare_result:
  "\<exists>s gp b. compare rd main_file gold_file = Some b \<and>
     loop_inv (compare_tables rd main_file gold_file) (length (utterances main_file))
       (length (utterances gold_file)) (length (utterances gold_file)) s \<and>
     compare_loop rd main_file gold_file = Some s \<and>
     length gp = length (utterances gold_file) \<and>
     (\<forall>g<length gp. gp ! g = cs_gold_positioned s ! g @
        terminator_entry (tb_gold_utt_tokens (compare_tables rd main_file gold_file) ! g)
          (cr_terminator rd (utterances gold_file ! g))) \<and>
     b = \<lparr>cb_main_utterances = build_utterance_comparisons (extract_words rd main_file) (cs_main_positioned s),
          cb_gold_utterances = build_utterance_comparisons (extract_words rd gold_file) gp,
          cb_gold_word_matches = cs_gold_word_matches s,
          cb_metrics = finish_metrics (cs_metrics s)\<rparr>"
proof -
  let ?tb = "compare_tables rd main_file gold_file" and ?n = "length (utterances gold_file)"
  obtain s where s: "compare_loop rd main_file gold_file = Some s"
    "loop_inv ?tb (length (utterances main_file)) ?n ?n s"
    using compare_loop_run by blast
  then have lens: "length (cs_gold_positioned s) = ?n" "length (tb_gold_utt_tokens ?tb) = ?n"
    using compare_tables_ok [of rd main_file gold_file] by (simp_all add: loop_inv_def tables_ok_def)
  obtain gp where gp: "fold_opt (push_terminator (tb_gold_utt_tokens ?tb)) (cs_gold_positioned s)
      (enumerate 0 (collect_utterance_terminators rd gold_file)) = Some gp" "length gp = ?n"
    "\<forall>g<?n. gp ! g = cs_gold_positioned s ! g @ terminator_entry (tb_gold_utt_tokens ?tb ! g)
        (cr_terminator rd (utterances gold_file ! g))"
    using push_terminators [of 0 "collect_utterance_terminators rd gold_file" "cs_gold_positioned s"
        "tb_gold_utt_tokens ?tb"] lens
    by (auto simp: collect_utterance_terminators_def)
  then show ?thesis using s
    by (intro exI [of _ s] exI [of _ gp] exI) (simp add: compare_def)
qed

section \<open>Counters and annotations\<close>

definition counted :: "CompareStatus \<Rightarrow> CompareToken \<Rightarrow> bool" where
  "counted st t \<longleftrightarrow> ct_status t = st \<and> ct_pos t \<noteq> Some (lit ''PUNCT'')"

abbreviation count_tokens :: "CompareStatus \<Rightarrow> CompareToken list \<Rightarrow> nat" where
  "count_tokens st ts \<equiv> length (filter (counted st) ts)"

lemma record_tokens:
  "ma_matches (foldl (\<lambda>m t. record_token upper t m) a ts) = ma_matches a + count_tokens CsMatch ts"
  "ma_insertions (foldl (\<lambda>m t. record_token upper t m) a ts) = ma_insertions a + count_tokens CsExtraMain ts"
  "ma_deletions (foldl (\<lambda>m t. record_token upper t m) a ts) = ma_deletions a + count_tokens CsExtraGold ts"
proof (induction ts arbitrary: a)
  case (Cons t ts)
  {
    case 1
    then show ?case using Cons.IH(1) by (cases "ct_status t") (auto simp: record_token_def counted_def Let_def)
  next
    case 2
    then show ?case using Cons.IH(2) by (cases "ct_status t") (auto simp: record_token_def counted_def Let_def)
  next
    case 3
    then show ?case using Cons.IH(3) by (cases "ct_status t") (auto simp: record_token_def counted_def Let_def)
  }
qed simp_all

lemma count_sorted: "length (filter P (sort_key f es)) = length (filter P es)"
  by (metis mset_filter mset_sort size_mset)

lemma count_terminator: "filter (counted st) (map snd (terminator_entry toks t)) = []"
  by (simp add: terminator_entry_def counted_def split: option.split)

lemma tokens_of_build:
  "map uc_tokens (build_utterance_comparisons utts positioned) =
     map (\<lambda>i. map snd (sort_key fst (positioned ! i))) [0..<length utts]"
  by (rule nth_equalityI) (simp_all add: build_utterance_comparisons_def nth_enumerate_eq)

lemma length_filter_concat: "length (filter P (concat xss)) = sum_list (map (\<lambda>xs. length (filter P xs)) xss)"
  by (induction xss) simp_all

text \<open>The tokens of all gold utterances, in the order of the utterances.\<close>

definition annotated :: "UtteranceComparison list \<Rightarrow> CompareToken list" where
  "annotated cs = concat (map uc_tokens cs)"

lemma annotated_count:
  assumes "length gp = n" "length utts = n" "length gp0 = n"
    and "\<forall>g<n. gp ! g = gp0 ! g @ terminator_entry (toks g) (t g)"
  shows "length (filter (counted st) (annotated (build_utterance_comparisons utts gp))) =
    length (filter (counted st) (concat (map (map snd) gp0)))"
proof -
  have "length (filter (counted st) (annotated (build_utterance_comparisons utts gp))) =
      sum_list (map (\<lambda>g. length (filter (counted st) (map snd (gp ! g)))) [0..<n])"
    unfolding annotated_def tokens_of_build length_filter_concat using assms(2)
    by (simp add: count_sorted comp_def filter_map)
  also have "\<dots> = sum_list (map (\<lambda>g. length (filter (counted st) (map snd (gp0 ! g)))) [0..<n])"
    using assms(4) by (intro arg_cong [where f = sum_list] map_cong) (simp_all add: count_terminator)
  also have "\<dots> = length (filter (counted st) (concat (map (map snd) gp0)))"
    unfolding length_filter_concat using assms(3)
    by (simp add: comp_def) (metis (no_types, lifting) map_nth map_map comp_apply map_cong)
  finally show ?thesis .
qed

text \<open>
  C37: The counters of a comparison are what its annotations say: a comparison always returns, and its
  matches, insertions and deletions are the tokens of the annotated gold utterances with that status,
  those labelled as punctuation apart.
\<close>

theorem compare_counts_annotations:
  "\<exists>b. compare rd main_file gold_file = Some b \<and>
     cm_matches (cb_metrics b) = count_tokens CsMatch (annotated (cb_gold_utterances b)) \<and>
     cm_insertions (cb_metrics b) = count_tokens CsExtraMain (annotated (cb_gold_utterances b)) \<and>
     cm_deletions (cb_metrics b) = count_tokens CsExtraGold (annotated (cb_gold_utterances b)) \<and>
     length (cb_gold_utterances b) = length (utterances gold_file) \<and>
     length (cb_main_utterances b) = length (utterances main_file)"
proof -
  let ?tb = "compare_tables rd main_file gold_file" and ?n = "length (utterances gold_file)"
  obtain s gp b where b: "compare rd main_file gold_file = Some b"
    "loop_inv ?tb (length (utterances main_file)) ?n ?n s" "length gp = ?n"
    "\<forall>g<?n. gp ! g = cs_gold_positioned s ! g @
        terminator_entry (tb_gold_utt_tokens ?tb ! g) (cr_terminator rd (utterances gold_file ! g))"
    "b = \<lparr>cb_main_utterances = build_utterance_comparisons (extract_words rd main_file) (cs_main_positioned s),
          cb_gold_utterances = build_utterance_comparisons (extract_words rd gold_file) gp,
          cb_gold_word_matches = cs_gold_word_matches s,
          cb_metrics = finish_metrics (cs_metrics s)\<rparr>"
    using compare_result [of rd main_file gold_file] by auto
  have "length (cs_gold_positioned s) = ?n"
    "cs_metrics s = foldl (\<lambda>m t. record_token (tb_upper ?tb) t m) metric_accumulator0
       (concat (map (map snd) (cs_gold_positioned s)))"
    using b(2) by (simp_all add: loop_inv_def)
  note pushed = this
  have counts: "count_tokens st (annotated (cb_gold_utterances b)) =
      count_tokens st (concat (map (map snd) (cs_gold_positioned s)))" for st
    unfolding b(5) using annotated_count [OF b(3) _ pushed(1) b(4), of "extract_words rd gold_file"] by simp
  have "cb_metrics b = finish_metrics (cs_metrics s)" unfolding b(5) by simp
  then have "cm_matches (cb_metrics b) = ma_matches (cs_metrics s)"
    "cm_insertions (cb_metrics b) = ma_insertions (cs_metrics s)"
    "cm_deletions (cb_metrics b) = ma_deletions (cs_metrics s)"
    by (simp_all add: finish_metrics_def Let_def)
  moreover have "length (cb_gold_utterances b) = ?n" "length (cb_main_utterances b) = length (utterances main_file)"
    unfolding b(5) by (simp_all add: build_utterance_comparisons_def)
  ultimately show ?thesis
    using b(1) counts [of CsMatch] counts [of CsExtraMain] counts [of CsExtraGold]
    by (simp add: pushed(2) record_tokens metric_accumulator0_def)
qed

section \<open>The gold side\<close>

definition kept_words :: "('c, 'i) CompareReader \<Rightarrow> ('c, 'i MorTier OtherTier) ChatUtterance \<Rightarrow> rstr list" where
  "kept_words rd u = filter (\<lambda>w. \<not> is_punct_or_filler (cd_lower (cr_conform rd)) w) (cr_words rd u)"

lemma map_snd_filter_enumerate:
  "map snd (filter (\<lambda>(k, x). P x) (enumerate n xs)) = filter P xs"
  by (induction xs arbitrary: n) auto

lemma map_enumerate_snd: "map (\<lambda>x. f (snd x)) (enumerate n xs) = map f xs"
  by (induction xs arbitrary: n) auto

lemma flatten_blocks:
  "flatten_compare_words rd f (extract_words rd f) =
     concat (map (\<lambda>g. flatten_utterance rd (collect_mor_pos_labels rd f) (extract_words rd f ! g))
       [0..<length (utterances f)])"
  unfolding flatten_compare_words_def
  by (rule arg_cong [where f = concat], rule nth_equalityI) simp_all

lemma flatten_block:
  assumes "g < length (utterances f)"
  shows "map fst (flatten_utterance rd labels (extract_words rd f ! g)) = kept_words rd (utterances f ! g)"
    and "\<forall>p\<in>set (flatten_utterance rd labels (extract_words rd f ! g)). fl_utterance_index (snd p) = g"
proof -
  have ex: "extract_words rd f ! g =
      \<lparr>ex_speaker = cu_speaker (utterances f ! g), ex_utterance_index = g, ex_words = cr_words rd (utterances f ! g)\<rparr>"
    using assms by (simp add: extract_words_def nth_enumerate_eq)
  have "map fst (flatten_utterance rd labels (extract_words rd f ! g)) =
      map snd (map snd (enumerate 0 (filter (\<lambda>(k, word). \<not> is_punct_or_filler (cd_lower (cr_conform rd)) word)
        (enumerate 0 (cr_words rd (utterances f ! g))))))"
    unfolding flatten_utterance_def ex by (simp add: comp_def split_beta map_enumerate_snd)
  then show "map fst (flatten_utterance rd labels (extract_words rd f ! g)) = kept_words rd (utterances f ! g)"
    by (simp add: kept_words_def map_snd_filter_enumerate)
  show "\<forall>p\<in>set (flatten_utterance rd labels (extract_words rd f ! g)). fl_utterance_index (snd p) = g"
    unfolding flatten_utterance_def ex by auto
qed

text \<open>The tokens of one utterance among those of all.\<close>

lemma conform_words_concat: "conform_words cd ws = concat (map (\<lambda>w. conform_words cd [w]) ws)"
  by (simp add: conform_words_def)

lemma conform_tokens: "map fst (conform_with_mapping cd ws) = conform_words cd ws"
proof -
  have "map fst (concat (map (\<lambda>(idx, word). map (\<lambda>token. (token, idx)) (conform_words cd [word]))
      (enumerate n ws))) = concat (map (\<lambda>w. conform_words cd [w]) ws)" for n
    by (induction ws arbitrary: n) (simp_all add: comp_def)
  then show ?thesis by (simp add: conform_with_mapping_def conform_words_concat [of cd ws])
qed

lemma conform_filter:
  assumes "length flat = length ws"
  shows "map fst (filter (\<lambda>(token, orig). P (flat ! orig)) (conform_with_mapping cd ws)) =
    conform_words cd (map fst (filter (\<lambda>(w, x). P x) (zip ws flat)))"
proof -
  have "map fst (filter (\<lambda>(token, orig). P ((pre @ flat) ! orig))
      (concat (map (\<lambda>(idx, word). map (\<lambda>token. (token, idx)) (conform_words cd [word]))
        (enumerate (length pre) ws)))) =
      conform_words cd (map fst (filter (\<lambda>(w, x). P x) (zip ws flat)))" for pre
    using assms
  proof (induction ws arbitrary: flat pre)
    case Nil
    then show ?case by (simp add: conform_words_def)
  next
    case (Cons w ws)
    then obtain x xs where flat: "flat = x # xs" by (cases flat) auto
    have "map fst (filter (\<lambda>(token, orig). P ((pre @ flat) ! orig))
        (map (\<lambda>token. (token, length pre)) ts)) = (if P x then ts else [])" for ts
      by (induction ts) (simp_all add: flat comp_def)
    then show ?case
      using Cons.IH [of xs "pre @ [x]"] Cons.prems
      by (simp add: flat conform_words_def comp_def)
  qed
  from this [of "[]"] show ?thesis by (simp add: conform_with_mapping_def)
qed

lemma filter_blocks:
  "g < n \<Longrightarrow> (\<forall>h<n. \<forall>p\<in>set (block h). idx p = h) \<Longrightarrow>
   filter (\<lambda>p. idx p = g) (concat (map block [0..<n])) = block g"
proof (induction n)
  case (Suc n)
  have other: "filter (\<lambda>p. idx p = g) (concat (map block [0..<n])) = []" if "n \<le> g"
    using Suc.prems(2) that by (auto simp: filter_empty_conv) (metis less_SucI not_less)
  show ?case
  proof (cases "g = n")
    case True
    then show ?thesis using Suc.prems(2) other by (auto simp: filter_id_conv)
  next
    case False
    then have "filter (\<lambda>p. idx p = g) (block n) = []" using Suc.prems(2) by (auto simp: filter_empty_conv)
    then show ?thesis using Suc False by simp
  qed
qed simp

lemma gold_tokens_of:
  assumes "g < length (utterances gold_file)"
  shows "tb_gold_utt_tokens (compare_tables rd main_file gold_file) ! g =
    conform_words (cr_conform rd) (kept_words rd (utterances gold_file ! g))"
proof -
  let ?flat = "flatten_compare_words rd gold_file (extract_words rd gold_file)"
  let ?block = "\<lambda>g. flatten_utterance rd (collect_mor_pos_labels rd gold_file) (extract_words rd gold_file ! g)"
  have zip: "zip (map fst ?flat) ?flat = map (\<lambda>p. (fst p, p)) ?flat" by (simp add: zip_map1 zip_same_conv_map)
  have "map fst (filter (\<lambda>(token, orig). fl_utterance_index (snd (?flat ! orig)) = g)
      (conform_with_mapping (cr_conform rd) (map fst ?flat))) =
    conform_words (cr_conform rd) (map fst (filter (\<lambda>p. fl_utterance_index (snd p) = g) ?flat))"
    using conform_filter [of ?flat "map fst ?flat" "\<lambda>p. fl_utterance_index (snd p) = g" "cr_conform rd"]
    by (simp add: zip filter_map comp_def split_beta)
  also have "filter (\<lambda>p. fl_utterance_index (snd p) = g) ?flat = ?block g"
    unfolding flatten_blocks by (rule filter_blocks [OF assms]) (use flatten_block(2) in blast)
  finally show ?thesis
    using assms flatten_block(1) [OF assms] by (simp add: compare_tables_def Let_def)
qed

text \<open>Positions on the gold side never decrease.\<close>

lemma sorted_flatten_utterance:
  "sorted (map (fl_word_position \<circ> snd) (flatten_utterance rd labels u))"
proof -
  have "sorted (map fst (filter (\<lambda>(k, w). P w) (enumerate n ws)))" for P :: "rstr \<Rightarrow> bool" and n ws
    by (induction ws arbitrary: n) (auto simp: in_set_enumerate_eq)
  then have "sorted (map (\<lambda>x. fst (snd x)) (enumerate 0
      (filter (\<lambda>(k, word). \<not> is_punct_or_filler (cd_lower (cr_conform rd)) word) (enumerate 0 (ex_words u)))))"
    unfolding map_enumerate_snd .
  then show ?thesis by (simp add: flatten_utterance_def comp_def split_beta)
qed

lemma sorted_map_const: "sorted (map (\<lambda>x. c) xs)"
  by (induction xs) auto

lemma sorted_conform_map:
  "sorted (map snd (conform_with_mapping cd ws))"
proof -
  have "sorted (map snd (concat (map (\<lambda>(idx, word). map (\<lambda>token. (token, idx)) (conform_words cd [word]))
      (enumerate n ws))))" for n
    by (induction ws arbitrary: n) (auto simp: sorted_append in_set_enumerate_eq comp_def sorted_map_const)
  then show ?thesis by (simp add: conform_with_mapping_def)
qed

lemma sorted_nth_map:
  "sorted ks \<Longrightarrow> (\<forall>k\<in>set ks. k < length ys \<and> idx (ys ! k) = g) \<Longrightarrow>
   sorted (map f (filter (\<lambda>y. idx y = g) ys)) \<Longrightarrow> sorted (map (\<lambda>k. f (ys ! k)) ks)"
proof -
  assume ks: "sorted ks" and in_range: "\<forall>k\<in>set ks. k < length ys \<and> idx (ys ! k) = g"
    and mono: "sorted (map f (filter (\<lambda>y. idx y = g) ys))"
  have le: "f (ys ! i) \<le> f (ys ! j)" if "i < j" "j < length ys" "idx (ys ! i) = g" "idx (ys ! j) = g" for i j
  proof -
    have "ys = take i ys @ ys ! i # drop (Suc i) ys" using that id_take_nth_drop [of i ys] by simp
    moreover have "ys ! j \<in> set (drop (Suc i) ys)"
      using that by (auto simp: in_set_conv_nth intro!: exI [of _ "j - Suc i"])
    ultimately have "sorted (map f (filter (\<lambda>y. idx y = g) (take i ys @ ys ! i # drop (Suc i) ys)))"
      using mono by simp
    then show ?thesis
      using \<open>ys ! j \<in> set (drop (Suc i) ys)\<close> that(3,4) by (auto simp: sorted_append)
  qed
  show "sorted (map (\<lambda>k. f (ys ! k)) ks)"
    unfolding sorted_map
  proof (rule sorted_wrt_mono_rel [of _ "(\<le>)"])
    fix x y assume "x \<in> set ks" "y \<in> set ks" "x \<le> y"
    then show "f (ys ! x) \<le> f (ys ! y)" using le [of x y] in_range by (cases "x = y") auto
  qed (use ks in simp)
qed

lemma sorted_gold_positions:
  fixes rd :: "('c, 'i) CompareReader" and main_file gold_file :: "('c, 'i, 'o) compare_file"
  assumes "g < length (utterances gold_file)"
  defines "tb \<equiv> compare_tables rd main_file gold_file"
  shows "sorted (map (\<lambda>j. fl_word_position (gold_word tb g j)) [0..<length (tb_gold_utt_tokens tb ! g)])"
proof -
  let ?flat = "flatten_compare_words rd gold_file (extract_words rd gold_file)"
  let ?pairs = "filter (\<lambda>(token, orig). fl_utterance_index (snd (?flat ! orig)) = g)
    (conform_with_mapping (cr_conform rd) (map fst ?flat))"
  have maps: "tb_gold_utt_maps tb ! g = map snd ?pairs" "tb_gold_utt_tokens tb ! g = map fst ?pairs"
    "tb_gold_info tb = map snd ?flat"
    using assms by (simp_all add: compare_tables_def Let_def)
  have ks: "sorted (map snd ?pairs)"
    using sorted_filter [of snd "conform_with_mapping (cr_conform rd) (map fst ?flat)"] sorted_conform_map
    by blast
  have range: "\<forall>k\<in>set (map snd ?pairs). k < length (map snd ?flat) \<and>
      fl_utterance_index (map snd ?flat ! k) = g"
    using conform_index [of _ _ "cr_conform rd" "map fst ?flat"] by fastforce
  have "filter (\<lambda>p. fl_utterance_index (snd p) = g) ?flat =
      flatten_utterance rd (collect_mor_pos_labels rd gold_file) (extract_words rd gold_file ! g)"
    unfolding flatten_blocks by (rule filter_blocks [OF assms(1)]) (use flatten_block(2) in blast)
  then have "sorted (map fl_word_position (filter (\<lambda>w. fl_utterance_index w = g) (map snd ?flat)))"
    using sorted_flatten_utterance [of rd "collect_mor_pos_labels rd gold_file" "extract_words rd gold_file ! g"]
    by (simp add: filter_map comp_def)
  then have "sorted (map (\<lambda>k. fl_word_position (map snd ?flat ! k)) (map snd ?pairs))"
    by (rule sorted_nth_map [OF ks range])
  moreover have "map (\<lambda>j. fl_word_position (gold_word tb g j)) [0..<length (tb_gold_utt_tokens tb ! g)] =
      map (\<lambda>k. fl_word_position (map snd ?flat ! k)) (map snd ?pairs)"
    unfolding gold_word_def maps by (rule nth_equalityI) simp_all
  ultimately show ?thesis by simp
qed

lemma sort_append_one:
  "sorted (map f xs) \<Longrightarrow> \<exists>k. sort_key f (xs @ [t]) = take k xs @ [t] @ drop k xs"
proof (induction xs)
  case Nil
  then show ?case by simp
next
  case (Cons x xs)
  then obtain k where k: "sort_key f (xs @ [t]) = take k xs @ [t] @ drop k xs" by auto
  have insort: "insort_key f x ys = x # ys" if "\<forall>y\<in>set ys. f x \<le> f y" for ys
    using that by (cases ys) simp_all
  show ?case
  proof (cases "f x \<le> f t")
    case True
    then have "sort_key f ((x # xs) @ [t]) = take (Suc k) (x # xs) @ [t] @ drop (Suc k) (x # xs)"
      using k Cons.prems insort [of "take k xs @ [t] @ drop k xs"]
      by (auto dest: in_set_takeD in_set_dropD)
    then show ?thesis by blast
  next
    case False
    have "take k xs = []"
    proof (rule ccontr)
      assume ne: "take k xs \<noteq> []"
      have "sorted (map f (take k xs @ [t] @ drop k xs))" using k by (metis sorted_sort_key)
      then have "f (hd (take k xs)) \<le> f t" using ne by (cases "take k xs") auto
      moreover have "f x \<le> f (hd (take k xs))"
        using Cons.prems ne by (metis hd_in_set in_set_takeD sorted_simps(2) image_eqI list.set_map list.simps(9))
      ultimately show False using False by simp
    qed
    then have "sort_key f ((x # xs) @ [t]) = take 0 (x # xs) @ [t] @ drop 0 (x # xs)"
      using k False insort [of xs] Cons.prems by (cases "k = 0") auto
    then show ?thesis by blast
  qed
qed

text \<open>
  The gold side of the annotation of a gold utterance (the tokens that are not insertions) is its
  conformed words in their order, none lost and none added, with the terminator among them.
\<close>

theorem compare_gold_side_in_order:
  "\<exists>b. compare rd main_file gold_file = Some b \<and>
     list_all (\<lambda>(u, c). \<exists>k.
       map ct_text (filter (\<lambda>t. ct_status t \<noteq> CsExtraMain) (uc_tokens c)) =
         take k (conform_words (cr_conform rd) (kept_words rd u)) @
         (case cr_terminator rd u of None \<Rightarrow> [] | Some t \<Rightarrow> [t]) @
         drop k (conform_words (cr_conform rd) (kept_words rd u)))
       (zip (utterances gold_file) (cb_gold_utterances b))"
proof -
  let ?tb = "compare_tables rd main_file gold_file" and ?n = "length (utterances gold_file)"
  obtain s gp b where b: "compare rd main_file gold_file = Some b"
    "loop_inv ?tb (length (utterances main_file)) ?n ?n s" "length gp = ?n"
    "\<forall>g<?n. gp ! g = cs_gold_positioned s ! g @
        terminator_entry (tb_gold_utt_tokens ?tb ! g) (cr_terminator rd (utterances gold_file ! g))"
    "cb_gold_utterances b = build_utterance_comparisons (extract_words rd gold_file) gp"
    using compare_result [of rd main_file gold_file] by auto
  have "\<exists>k. map ct_text (filter (\<lambda>t. ct_status t \<noteq> CsExtraMain) (uc_tokens (cb_gold_utterances b ! g))) =
      take k (conform_words (cr_conform rd) (kept_words rd u)) @
      (case cr_terminator rd u of None \<Rightarrow> [] | Some t \<Rightarrow> [t]) @
      drop k (conform_words (cr_conform rd) (kept_words rd u))"
    if g: "g < ?n" and u: "u = utterances gold_file ! g" for g u
  proof -
    let ?es = "filter on_gold_side (cs_gold_positioned s ! g)"
    let ?te = "terminator_entry (tb_gold_utt_tokens ?tb ! g) (cr_terminator rd u)"
    note toks = gold_tokens_of [OF g, of rd main_file, folded u]
    have ok: "map (ct_text \<circ> snd) ?es = conform_words (cr_conform rd) (kept_words rd u)"
      "map fst ?es = map (\<lambda>j. of_nat (fl_word_position (gold_word ?tb g j))) [0..<length (tb_gold_utt_tokens ?tb ! g)]"
      using b(2) g toks by (simp_all add: loop_inv_def gold_side_ok_def)
    have "sorted (map (of_nat :: nat \<Rightarrow> rat)
        (map (\<lambda>j. fl_word_position (gold_word ?tb g j)) [0..<length (tb_gold_utt_tokens ?tb ! g)]))"
      using sorted_gold_positions [OF g, of rd main_file] by (simp add: sorted_map sorted_wrt_map)
    then have sorted: "sorted (map fst ?es)" unfolding ok(2) by (simp add: comp_def)
    have te: "filter on_gold_side ?te = ?te" by (simp add: terminator_entry_def split: option.split)
    have "uc_tokens (cb_gold_utterances b ! g) = map snd (sort_key fst (cs_gold_positioned s ! g @ ?te))"
      using g b(4) u unfolding b(5) by (simp add: build_utterance_comparisons_def nth_enumerate_eq)
    then have tokens: "map ct_text (filter (\<lambda>t. ct_status t \<noteq> CsExtraMain) (uc_tokens (cb_gold_utterances b ! g))) =
        map (ct_text \<circ> snd) (sort_key fst (?es @ ?te))"
      using te by (simp add: filter_map comp_def filter_sort)
    show ?thesis
    proof (cases "cr_terminator rd u")
      case None
      then show ?thesis using tokens ok(1) sorted
        by (simp add: terminator_entry_def sort_key_sorted)
    next
      case (Some t)
      then obtain e where e: "?te = [e]" "ct_text (snd e) = t" by (simp add: terminator_entry_def)
      obtain k where "sort_key fst (?es @ [e]) = take k ?es @ [e] @ drop k ?es"
        using sort_append_one [OF sorted] by blast
      then have "map (ct_text \<circ> snd) (sort_key fst (?es @ ?te)) =
          take k (map (ct_text \<circ> snd) ?es) @ [t] @ drop k (map (ct_text \<circ> snd) ?es)"
        using e by (simp add: take_map drop_map)
      then show ?thesis using tokens Some unfolding ok(1) by auto
    qed
  qed
  then show ?thesis using b(1) by (force simp: list_all_iff set_zip)
qed

end
