(* ===== verification/Compare_Output.thy ===== *)
theory Compare_Output
  imports Compare Errors
begin

text \<open>
  What a comparison is turned into (\<open>chat-ops/compare.rs\<close>, \<open>batchalign-app/src/compare.rs\<close>): the
  \<open>%xsrep\<close> and \<open>%xsmor\<close> tiers, the table of metrics, the projection of annotations from the main
  file onto the gold file, the outputs of the command. The CSV writer, the formatting of a decimal
  with four digits and the serialization of a file are arguments.
\<close>

section \<open>Compare tiers\<close>

datatype CompareSerializationError =
    EmptyXsrepToken nat nat
  | EmptyXsmorToken nat nat
  | EmptyMetricsPosLabel
  | EmptyTierContent rstr
  | CseCsv rstr
  | CseUtf8 rstr

datatype CompareTierMarker = CtmMatch | CtmExtraMain | CtmExtraGold

fun marker_of_status :: "CompareStatus \<Rightarrow> CompareTierMarker" where
  "marker_of_status CsMatch = CtmMatch"
| "marker_of_status CsExtraMain = CtmExtraMain"
| "marker_of_status CsExtraGold = CtmExtraGold"

fun write_marker :: "CompareTierMarker \<Rightarrow> rstr" where
  "write_marker CtmMatch = []"
| "write_marker CtmExtraMain = lit ''+''"
| "write_marker CtmExtraGold = lit ''-''"

record CompareTierItem =
  cti_marker :: CompareTierMarker
  cti_value :: rstr

definition write_item :: "CompareTierItem \<Rightarrow> rstr" where
  "write_item i = write_marker (cti_marker i) @ cti_value i"

definition write_tier_content :: "CompareTierItem list \<Rightarrow> rstr" where
  "write_tier_content items = join_with (lit '' '') (map write_item items)"

definition compare_surface_token ::
  "(rstr \<Rightarrow> bool) \<Rightarrow> rstr \<Rightarrow> nat \<Rightarrow> nat \<Rightarrow> CompareSerializationError + rstr" where
  "compare_surface_token nonempty content utterance_index token_index =
     (if nonempty content then Inr content else Inl (EmptyXsrepToken utterance_index token_index))"

definition compare_pos_for_tier ::
  "(rstr \<Rightarrow> bool) \<Rightarrow> rstr option \<Rightarrow> nat \<Rightarrow> nat \<Rightarrow> CompareSerializationError + rstr" where
  "compare_pos_for_tier nonempty pos utterance_index token_index =
     (let raw = (case pos of None \<Rightarrow> lit ''?'' | Some p \<Rightarrow> p)
      in if nonempty raw then Inr raw else Inl (EmptyXsmorToken utterance_index token_index))"

definition compare_pos_for_metrics :: "(rstr \<Rightarrow> bool) \<Rightarrow> rstr \<Rightarrow> CompareSerializationError + rstr" where
  "compare_pos_for_metrics nonempty raw = (if nonempty raw then Inr raw else Inl EmptyMetricsPosLabel)"

text \<open>Collecting results stops at the first error.\<close>

fun try_items ::
  "(nat \<Rightarrow> CompareToken \<Rightarrow> 'e + rstr) \<Rightarrow> nat \<Rightarrow> CompareToken list \<Rightarrow> 'e + CompareTierItem list" where
  "try_items value k [] = Inr []"
| "try_items value k (token # tokens) =
     (case value k token of
        Inl e \<Rightarrow> Inl e
      | Inr v \<Rightarrow>
          (case try_items value (Suc k) tokens of
             Inl e \<Rightarrow> Inl e
           | Inr items \<Rightarrow>
               Inr (\<lparr>cti_marker = marker_of_status (ct_status token), cti_value = v\<rparr> # items)))"

definition xsrep_content ::
  "(rstr \<Rightarrow> bool) \<Rightarrow> UtteranceComparison \<Rightarrow> CompareSerializationError + CompareTierItem list" where
  "xsrep_content nonempty c =
     try_items (\<lambda>k token. compare_surface_token nonempty (ct_text token) (uc_utterance_index c) k) 0
       (uc_tokens c)"

definition xsmor_content ::
  "(rstr \<Rightarrow> bool) \<Rightarrow> UtteranceComparison \<Rightarrow> CompareSerializationError + CompareTierItem list" where
  "xsmor_content nonempty c =
     try_items (\<lambda>k token. compare_pos_for_tier nonempty (ct_pos token) (uc_utterance_index c) k) 0
       (uc_tokens c)"

definition format_xsrep ::
  "(rstr \<Rightarrow> bool) \<Rightarrow> UtteranceComparison \<Rightarrow> CompareSerializationError + rstr" where
  "format_xsrep nonempty c = map_sum id write_tier_content (xsrep_content nonempty c)"

definition format_xsmor ::
  "(rstr \<Rightarrow> bool) \<Rightarrow> UtteranceComparison \<Rightarrow> CompareSerializationError + rstr" where
  "format_xsmor nonempty c = map_sum id write_tier_content (xsmor_content nonempty c)"

definition xsrep_label :: rstr where "xsrep_label = lit ''xsrep''"
definition xsmor_label :: rstr where "xsmor_label = lit ''xsmor''"

definition compare_dependent_tier ::
  "(rstr \<Rightarrow> bool) \<Rightarrow> rstr \<Rightarrow> CompareTierItem list \<Rightarrow>
   CompareSerializationError + 'm OtherTier DependentTier" where
  "compare_dependent_tier nonempty label items =
     (let content = write_tier_content items
      in if nonempty content then Inr (DtOther (OtUserDefined label content))
         else Inl (EmptyTierContent label))"

definition replace_or_add_user_defined_tier ::
  "(rstr \<Rightarrow> bool) \<Rightarrow> rstr \<Rightarrow> CompareTierItem list \<Rightarrow> ('c, 'm OtherTier) ChatUtterance \<Rightarrow>
   CompareSerializationError + ('c, 'm OtherTier) ChatUtterance" where
  "replace_or_add_user_defined_tier nonempty label items u =
     map_sum id (\<lambda>t. u\<lparr>cu_tiers := replace_or_add_tier (cu_tiers u) t\<rparr>)
       (compare_dependent_tier nonempty label items)"

text \<open>The tiers of one utterance.\<close>

definition inject_utterance_comparison ::
  "(rstr \<Rightarrow> bool) \<Rightarrow> UtteranceComparison \<Rightarrow> ('c, 'm OtherTier) ChatUtterance \<Rightarrow>
   CompareSerializationError + ('c, 'm OtherTier) ChatUtterance" where
  "inject_utterance_comparison nonempty c u =
     (case xsrep_content nonempty c of
        Inl e \<Rightarrow> Inl e
      | Inr xsrep \<Rightarrow>
          (case xsmor_content nonempty c of
             Inl e \<Rightarrow> Inl e
           | Inr xsmor \<Rightarrow>
               (case replace_or_add_user_defined_tier nonempty xsrep_label xsrep u of
                  Inl e \<Rightarrow> Inl e
                | Inr u' \<Rightarrow> replace_or_add_user_defined_tier nonempty xsmor_label xsmor u')))"

fun inject_comparison ::
  "(rstr \<Rightarrow> bool) \<Rightarrow> ('c, 'm OtherTier, 'o) ChatLine list \<Rightarrow> UtteranceComparison list \<Rightarrow>
   CompareSerializationError + ('c, 'm OtherTier, 'o) ChatLine list" where
  "inject_comparison nonempty f [] = Inr f"
| "inject_comparison nonempty f (c # cs) =
     (if uc_tokens c = [] then inject_comparison nonempty f cs
      else case get_utterance f (uc_utterance_index c) of
             None \<Rightarrow> inject_comparison nonempty f cs
           | Some u \<Rightarrow>
               (case inject_utterance_comparison nonempty c u of
                  Inl e \<Rightarrow> Inl e
                | Inr u' \<Rightarrow>
                    inject_comparison nonempty (modify_utterance (uc_utterance_index c) (\<lambda>_. u') f) cs))"

fun is_compare_tier :: "'m OtherTier DependentTier \<Rightarrow> bool" where
  "is_compare_tier (DtOther (OtUserDefined label content)) = (label = xsrep_label \<or> label = xsmor_label)"
| "is_compare_tier _ = False"

fun clear_comparison ::
  "('c, 'm OtherTier, 'o) ChatLine list \<Rightarrow> ('c, 'm OtherTier, 'o) ChatLine list" where
  "clear_comparison [] = []"
| "clear_comparison (ClUtterance u # ls) =
     ClUtterance (u\<lparr>cu_tiers := filter (\<lambda>t. \<not> is_compare_tier t) (cu_tiers u)\<rparr>) # clear_comparison ls"
| "clear_comparison (ClOther l # ls) = ClOther l # clear_comparison ls"

section \<open>The table of metrics\<close>

datatype ComparePosMetricKind = CpkMatches | CpkInsertions | CpkDeletions | CpkTotal

datatype CompareMetricName =
    CmnWer | CmnAccuracy | CmnMatches | CmnInsertions | CmnDeletions | CmnTotalGoldWords
  | CmnTotalMainWords | CmnPos rstr ComparePosMetricKind

datatype CompareMetricValue = CmvDecimal rat | CmvCount nat

type_synonym CompareMetricsCsvRow = "CompareMetricName \<times> CompareMetricValue"

fun pos_metric_kind_str :: "ComparePosMetricKind \<Rightarrow> rstr" where
  "pos_metric_kind_str CpkMatches = lit ''matches''"
| "pos_metric_kind_str CpkInsertions = lit ''insertions''"
| "pos_metric_kind_str CpkDeletions = lit ''deletions''"
| "pos_metric_kind_str CpkTotal = lit ''total''"

fun metric_name_field :: "CompareMetricName \<Rightarrow> rstr" where
  "metric_name_field CmnWer = lit ''wer''"
| "metric_name_field CmnAccuracy = lit ''accuracy''"
| "metric_name_field CmnMatches = lit ''matches''"
| "metric_name_field CmnInsertions = lit ''insertions''"
| "metric_name_field CmnDeletions = lit ''deletions''"
| "metric_name_field CmnTotalGoldWords = lit ''total_gold_words''"
| "metric_name_field CmnTotalMainWords = lit ''total_main_words''"
| "metric_name_field (CmnPos pos kind) = pos @ lit '':'' @ pos_metric_kind_str kind"

fun metric_value_field :: "(rat \<Rightarrow> rstr) \<Rightarrow> CompareMetricValue \<Rightarrow> rstr" where
  "metric_value_field decimal4 (CmvDecimal v) = decimal4 v"
| "metric_value_field decimal4 (CmvCount n) = show_nat n"

fun pos_rows ::
  "(rstr \<Rightarrow> bool) \<Rightarrow> (rstr \<times> PosErrorCounts) list \<Rightarrow>
   CompareSerializationError + CompareMetricsCsvRow list" where
  "pos_rows nonempty [] = Inr []"
| "pos_rows nonempty ((pos, c) # cs) =
     (case compare_pos_for_metrics nonempty pos of
        Inl e \<Rightarrow> Inl e
      | Inr pos \<Rightarrow>
          map_sum id ((@)
            [(CmnPos pos CpkMatches, CmvCount (pe_matches c)),
             (CmnPos pos CpkInsertions, CmvCount (pe_insertions c)),
             (CmnPos pos CpkDeletions, CmvCount (pe_deletions c)),
             (CmnPos pos CpkTotal, CmvCount (pe_matches c + pe_deletions c))]) (pos_rows nonempty cs))"

definition metrics_table ::
  "(rstr \<Rightarrow> bool) \<Rightarrow> CompareMetrics \<Rightarrow> CompareSerializationError + CompareMetricsCsvRow list" where
  "metrics_table nonempty m =
     map_sum id ((@)
       [(CmnWer, CmvDecimal (cm_wer m)), (CmnAccuracy, CmvDecimal (cm_accuracy m)),
        (CmnMatches, CmvCount (cm_matches m)), (CmnInsertions, CmvCount (cm_insertions m)),
        (CmnDeletions, CmvCount (cm_deletions m)), (CmnTotalGoldWords, CmvCount (cm_total_gold_words m)),
        (CmnTotalMainWords, CmvCount (cm_total_main_words m))]) (pos_rows nonempty (cm_pos_counts m))"

definition csv_records :: "(rat \<Rightarrow> rstr) \<Rightarrow> CompareMetricsCsvRow list \<Rightarrow> (rstr \<times> rstr) list" where
  "csv_records decimal4 rows =
     (lit ''metric'', lit ''value'')
       # map (\<lambda>(name, v). (metric_name_field name, metric_value_field decimal4 v)) rows"

definition format_metrics_csv ::
  "(rstr \<Rightarrow> bool) \<Rightarrow> (rat \<Rightarrow> rstr) \<Rightarrow> ((rstr \<times> rstr) list \<Rightarrow> CompareSerializationError + rstr) \<Rightarrow>
   CompareMetrics \<Rightarrow> CompareSerializationError + rstr" where
  "format_metrics_csv nonempty decimal4 csv_text m =
     (case metrics_table nonempty m of
        Inl e \<Rightarrow> Inl e
      | Inr rows \<Rightarrow> csv_text (csv_records decimal4 rows))"

section \<open>Projection onto the gold file\<close>

definition compared_word_counts :: "('c, 'i) CompareReader \<Rightarrow> ExtractedUtterance list \<Rightarrow> nat list" where
  "compared_word_counts rd utts =
     map (\<lambda>u. length (filter (\<lambda>w. \<not> is_punct_or_filler (cd_lower (cr_conform rd)) w) (ex_words u))) utts"

definition alignable_word_counts :: "ExtractedUtterance list \<Rightarrow> nat list" where
  "alignable_word_counts utts = map (\<lambda>u. length (ex_words u)) utts"

definition collect_mor_items :: "('c, 'i, 'o) compare_file \<Rightarrow> 'i list list" where
  "collect_mor_items f =
     map (\<lambda>u. case find_mor (cu_tiers u) of Some m \<Rightarrow> mt_items m | None \<Rightarrow> []) (utterances f)"

definition matches_of :: "ComparisonBundle \<Rightarrow> nat \<Rightarrow> GoldWordMatch list" where
  "matches_of bundle g =
     filter (\<lambda>m. gm_gold_utterance_index m = g) (cb_gold_word_matches bundle)"

definition main_pair :: "GoldWordMatch \<Rightarrow> nat \<times> nat" where
  "main_pair m = (gm_main_utterance_index m, gm_main_word_position m)"

text \<open>A list sorted and deduplicated; the code uses its length, and its element when it has one.\<close>

definition exact_projection_source ::
  "ComparisonBundle \<Rightarrow> nat \<Rightarrow> nat list \<Rightarrow> nat list \<Rightarrow> nat list \<Rightarrow> nat list \<Rightarrow> nat option" where
  "exact_projection_source bundle g main_compared gold_compared main_alignable gold_alignable = do {
     n \<leftarrow> slice_get gold_compared g;
     let ms = matches_of bundle g;
     if n = 0 \<or> length ms \<noteq> n
        \<or> length (remdups (map gm_gold_word_position ms)) \<noteq> n
        \<or> length (remdups (map main_pair ms)) \<noteq> n
        \<or> length (remdups (map gm_main_utterance_index ms)) \<noteq> 1
     then None
     else do {
       let main = hd (remdups (map gm_main_utterance_index ms));
       if slice_get main_compared main \<noteq> Some n then None
       else if slice_get main_alignable main \<noteq> slice_get gold_alignable g then None
       else do {
         gold_tokens \<leftarrow> slice_get (cb_gold_utterances bundle) g;
         if list_ex (\<lambda>t. ct_status t \<noteq> CsMatch) (uc_tokens gold_tokens) then None else Some main
       }
     }
   }"

definition place_match ::
  "'i list list \<Rightarrow> 'i option list \<Rightarrow> GoldWordMatch \<Rightarrow> 'i option list option" where
  "place_match main_mor_items projected m = do {
     items \<leftarrow> slice_get main_mor_items (gm_main_utterance_index m);
     mor \<leftarrow> slice_get items (gm_main_word_position m);
     if gm_gold_word_position m < length projected
     then Some (projected[gm_gold_word_position m := Some mor]) else None
   }"

definition build_projected_mor_tier ::
  "ComparisonBundle \<Rightarrow> nat \<Rightarrow> nat \<Rightarrow> 'i list list \<Rightarrow> 'i list list \<Rightarrow> rstr option list \<Rightarrow>
   'i MorTier option" where
  "build_projected_mor_tier bundle g gold_word_count main_mor_items gold_mor_items gold_terminators =
     (let ms = matches_of bundle g in
      if gold_word_count = 0 \<or> ms = []
         \<or> length (remdups (map gm_gold_word_position ms)) \<noteq> gold_word_count
         \<or> length (remdups (map main_pair ms)) \<noteq> length ms
      then None
      else do {
        projected \<leftarrow> fold_opt (place_match main_mor_items)
          (case slice_get gold_mor_items g of
             Some items \<Rightarrow> if length items = gold_word_count then map Some items
                            else replicate gold_word_count None
           | None \<Rightarrow> replicate gold_word_count None) ms;
        items \<leftarrow> those projected;
        Some \<lparr>mt_items = items,
              mt_terminator = (case slice_get gold_terminators g of Some t \<Rightarrow> t | None \<Rightarrow> None)\<rparr>
      })"

definition replace_or_add_mor_tier ::
  "nat \<Rightarrow> 'i MorTier \<Rightarrow> ('c, 'i, 'o) compare_file \<Rightarrow> ('c, 'i, 'o) compare_file" where
  "replace_or_add_mor_tier g mor f =
     modify_utterance g
       (\<lambda>u. u\<lparr>cu_tiers := replace_or_add_tier (cu_tiers u) (DtOther (OtMor mor))\<rparr>) f"

definition project_utterance ::
  "('c, 'i) CompareReader \<Rightarrow> ('c, 'i, 'o) compare_file \<Rightarrow> ('c, 'i, 'o) compare_file \<Rightarrow>
   ComparisonBundle \<Rightarrow> ('c, 'i, 'o) compare_file \<Rightarrow> nat \<Rightarrow> ('c, 'i, 'o) compare_file" where
  "project_utterance rd main_file gold_file bundle projected g =
     (let main_utts = extract_words rd main_file;
          gold_utts = extract_words rd gold_file;
          gold_compared = compared_word_counts rd gold_utts
      in case exact_projection_source bundle g (compared_word_counts rd main_utts) gold_compared
                (alignable_word_counts main_utts) (alignable_word_counts gold_utts) of
           Some m \<Rightarrow> snd (copy_dependent_tiers main_file m projected g [TkMor, TkGra, TkWor])
         | None \<Rightarrow>
             (case build_projected_mor_tier bundle g (gold_compared ! g) (collect_mor_items main_file)
                     (collect_mor_items gold_file) (collect_utterance_terminators rd gold_file) of
                Some mor \<Rightarrow> replace_or_add_mor_tier g mor projected
              | None \<Rightarrow> projected))"

definition project_gold_structurally ::
  "('c, 'i) CompareReader \<Rightarrow> ('c, 'i, 'o) compare_file \<Rightarrow> ('c, 'i, 'o) compare_file \<Rightarrow>
   ComparisonBundle \<Rightarrow> ('c, 'i, 'o) compare_file" where
  "project_gold_structurally rd main_file gold_file bundle =
     foldl (project_utterance rd main_file gold_file bundle) gold_file
       [0..<length (extract_words rd gold_file)]"

section \<open>The outputs of the command\<close>

text \<open>
  \<open>display\<close> is the text of a serialization error, \<open>csv\<close> the rendered table; the result is the file
  that is serialized and the table.
\<close>

definition materialize ::
  "(rstr \<Rightarrow> bool) \<Rightarrow> (CompareSerializationError \<Rightarrow> rstr) \<Rightarrow>
   (CompareMetrics \<Rightarrow> CompareSerializationError + rstr) \<Rightarrow> ('c, 'm OtherTier, 'o) ChatLine list \<Rightarrow>
   UtteranceComparison list \<Rightarrow> CompareMetrics \<Rightarrow>
   ServerError + ('c, 'm OtherTier, 'o) ChatLine list \<times> rstr" where
  "materialize nonempty display csv f utterance_comparisons metrics =
     (case inject_comparison nonempty (clear_comparison f) utterance_comparisons of
        Inl e \<Rightarrow> Inl (SePersistence (lit ''compare tier serialization failed: '' @ display e))
      | Inr f' \<Rightarrow>
          (case csv metrics of
             Inl e \<Rightarrow> Inl (SePersistence (lit ''compare CSV serialization failed: '' @ display e))
           | Inr metrics_csv \<Rightarrow> Inr (f', metrics_csv)))"

definition materialize_main_annotated where
  "materialize_main_annotated rd display csv main_file bundle =
     materialize (cr_nonempty rd) display csv main_file (cb_main_utterances bundle) (cb_metrics bundle)"

definition materialize_released where
  "materialize_released rd display csv main_file gold_file bundle =
     materialize (cr_nonempty rd) display csv
       (project_gold_structurally rd main_file gold_file bundle)
       (cb_gold_utterances bundle) (cb_metrics bundle)"

definition is_gold_file :: "rstr \<Rightarrow> bool" where
  "is_gold_file filename \<longleftrightarrow> ends_with filename (lit ''.gold.cha'')"

end
