(* ===== verification/Compare_Cases.thy ===== *)
theory Compare_Cases
  imports Compare_Correct Compare_Output "HOL-Library.Multiset" "HOL-Library.Product_Lexorder"
begin

text \<open>
  What the comparison does on particular files: how the window is chosen, what a comparison of a file
  with itself says, how tiers are written, and how the projection reads the \<open>%mor\<close> tier.
\<close>

section \<open>Plain words\<close>

text \<open>A word the comparison keeps as it is.\<close>

definition plain_word :: "('c, 'i) CompareReader \<Rightarrow> rstr \<Rightarrow> bool" where
  "plain_word rd w \<longleftrightarrow>
     \<not> is_punct_or_filler (cd_lower (cr_conform rd)) w \<and> conform_words (cr_conform rd) [w] = [w]"

lemma conform_plain:
  "list_all (plain_word rd) ws \<Longrightarrow> conform_with_mapping (cr_conform rd) ws = map (\<lambda>(i, w). (w, i)) (enumerate 0 ws)"
proof -
  assume "list_all (plain_word rd) ws"
  then have "concat (map (\<lambda>(idx, word). map (\<lambda>token. (token, idx)) (conform_words (cr_conform rd) [word]))
     (enumerate n ws)) = map (\<lambda>(i, w). (w, i)) (enumerate n ws)" for n
    by (induction ws arbitrary: n) (simp_all add: plain_word_def)
  then show ?thesis by (simp add: conform_with_mapping_def)
qed

section \<open>The window of a gold utterance\<close>

text \<open>Word counts are a multiset, and the overlap of two lists is the size of their intersection.\<close>

lemma token_counts_step:
  "token_counts (ts @ [t]) =
     hm_insert t ((case hm_get (token_counts ts) t of Some n \<Rightarrow> n | None \<Rightarrow> 0) + 1) (token_counts ts)"
  by (simp add: token_counts_def)

lemma token_counts_get:
  "hm_get (token_counts ts) t = (if t \<in> set ts then Some (count (mset ts) t) else None)"
proof (induction ts rule: rev_induct)
  case Nil
  then show ?case by (simp add: token_counts_def hm_get_def)
next
  case (snoc x ts)
  then show ?case
    by (auto simp: token_counts_step hm_get_def hm_insert_def update_conv' not_in_iff)
qed

lemma token_counts_keys: "distinct (map fst (token_counts ts)) \<and> set (map fst (token_counts ts)) = set ts"
proof (induction ts rule: rev_induct)
  case Nil
  then show ?case by (simp add: token_counts_def)
next
  case (snoc x ts)
  then show ?case by (simp add: token_counts_step hm_insert_def distinct_update dom_update)
qed

lemma token_counts_bag: "(\<Sum>(t, n)\<leftarrow>token_counts ts. f t n) = (\<Sum>t\<in>set ts. f t (count (mset ts) t))"
proof -
  have "(\<Sum>(t, n)\<leftarrow>token_counts ts. f t n) = (\<Sum>p\<in>set (token_counts ts). f (fst p) (snd p))"
    using token_counts_keys [of ts] by (simp add: sum_list_distinct_conv_sum_set distinct_map split_beta)
  also have "\<dots> = (\<Sum>p\<in>set (token_counts ts). f (fst p) (count (mset ts) (fst p)))"
  proof (rule sum.cong)
    fix p assume "p \<in> set (token_counts ts)"
    then have "hm_get (token_counts ts) (fst p) = Some (snd p)"
      using token_counts_keys [of ts] by (simp add: hm_get_def)
    then show "f (fst p) (snd p) = f (fst p) (count (mset ts) (fst p))"
      by (simp add: token_counts_get split: if_splits)
  qed simp
  also have "\<dots> = (\<Sum>t\<in>fst ` set (token_counts ts). f t (count (mset ts) t))"
    using token_counts_keys [of ts] by (intro sum.reindex_cong [symmetric, of fst]) (auto simp: distinct_map)
  finally show ?thesis using token_counts_keys [of ts] by simp
qed

lemma count_outside: "t \<notin> set ts \<Longrightarrow> count (mset ts) t = 0"
  by (simp add: not_in_iff [symmetric])

lemma token_overlap_bags:
  "token_overlap window (token_counts gold) = size (mset window \<inter># mset gold)"
proof -
  have "token_overlap window (token_counts gold) =
      (\<Sum>(t, n)\<leftarrow>token_counts window. min n (case hm_get (token_counts gold) t of Some g \<Rightarrow> g | None \<Rightarrow> 0))"
    unfolding token_overlap_def ..
  also have "\<dots> = (\<Sum>t\<in>set window. min (count (mset window) t) (count (mset gold) t))"
    unfolding token_counts_bag
    by (rule sum.cong) (auto simp: token_counts_get count_outside)
  also have "\<dots> = (\<Sum>t\<in>set_mset (mset window \<inter># mset gold). count (mset window \<inter># mset gold) t)"
    by (rule sum.mono_neutral_cong_right) (auto simp: not_in_iff)
  finally show ?thesis by (simp add: size_multiset_overloaded_eq)
qed

text \<open>The order in which windows are preferred: overlap, closeness in length, position of the end.\<close>

definition window_rank :: "rstr list \<Rightarrow> rstr list \<Rightarrow> nat \<times> nat \<Rightarrow> nat \<times> int \<times> nat" where
  "window_rank gold main w =
     (case w of (len, start) \<Rightarrow>
        (size (mset (take len (drop start main)) \<inter># mset gold),
         - \<bar>int len - int (length gold)\<bar>, start + len))"

definition segment_of :: "nat \<times> nat \<Rightarrow> nat \<times> nat" where
  "segment_of w = (snd w, snd w + fst w)"

definition holds_window :: "rstr list \<Rightarrow> rstr list \<Rightarrow> nat \<times> nat \<Rightarrow> BestSegment \<Rightarrow> bool" where
  "holds_window gold main w b \<longleftrightarrow>
     bs_best b = segment_of w \<and>
     bs_score b = of_nat (token_overlap (take (fst w) (drop (snd w) main)) (token_counts gold)) / of_nat (length gold) \<and>
     bs_len_delta b = Some (abs_diff (fst w) (length gold))"

lemma consider_window_step:
  assumes "gold \<noteq> []" "holds_window gold main v b"
  shows "\<exists>u. u \<in> {v, w} \<and> holds_window gold main u (consider_window main (length gold) (token_counts gold) b w) \<and>
    window_rank gold main v \<le> window_rank gold main u \<and> window_rank gold main w \<le> window_rank gold main u"
proof -
  have n: "length gold > 0" using assms(1) by simp
  obtain vs vb ws wb where vw: "v = (vs, vb)" "w = (ws, wb)" by fastforce
  show ?thesis
    using assms(2) n
    by (auto simp: vw consider_window_def holds_window_def window_rank_def segment_of_def Let_def token_overlap_bags
        divide_less_cancel abs_diff_def less_prod_def less_eq_prod_def split: if_splits)
qed

lemma consider_window_first:
  "gold \<noteq> [] \<Longrightarrow> holds_window gold main w (consider_window main (length gold) (token_counts gold)
     \<lparr>bs_best = b, bs_score = - 1, bs_len_delta = None\<rparr> w)"
  by (cases w) (simp add: consider_window_def holds_window_def segment_of_def Let_def add.commute
      order.strict_trans2 [of "- 1 :: rat" 0])

lemma consider_windows:
  assumes "gold \<noteq> []" "holds_window gold main v b"
  shows "\<exists>u. u \<in> insert v (set ws) \<and>
    holds_window gold main u (foldl (consider_window main (length gold) (token_counts gold)) b ws) \<and>
    (\<forall>w\<in>insert v (set ws). window_rank gold main w \<le> window_rank gold main u)"
  using assms(2)
proof (induction ws arbitrary: v b)
  case (Cons w ws)
  obtain u where u: "u \<in> {v, w}"
    "holds_window gold main u (consider_window main (length gold) (token_counts gold) b w)"
    "window_rank gold main v \<le> window_rank gold main u" "window_rank gold main w \<le> window_rank gold main u"
    using consider_window_step [OF assms(1) Cons.prems] by blast
  from Cons.IH [OF u(2)] show ?case using u(1,3,4) by (auto intro: order_trans)
qed auto

lemma best_segment_cases:
  assumes "gold \<noteq> []" "main \<noteq> []"
  obtains w where "w \<in> set (candidate_windows (length gold) (length main))"
      "find_best_segment gold main = segment_of w"
      "\<forall>v\<in>set (candidate_windows (length gold) (length main)). window_rank gold main v \<le> window_rank gold main w"
  | "candidate_windows (length gold) (length main) = []"
      "find_best_segment gold main = (0, min (length main) (length gold))"
proof (cases "candidate_windows (length gold) (length main)")
  case Nil
  then show ?thesis using assms that(2) by (simp add: find_best_segment_def Let_def)
next
  case (Cons w ws)
  note first = consider_window_first [OF assms(1), of main w "(0, min (length main) (length gold))"]
  obtain u where "u \<in> insert w (set ws)" "holds_window gold main u (foldl (consider_window main (length gold)
      (token_counts gold)) \<lparr>bs_best = (0, min (length main) (length gold)), bs_score = - 1, bs_len_delta = None\<rparr> (w # ws))"
    "\<forall>v\<in>insert w (set ws). window_rank gold main v \<le> window_rank gold main u"
    using consider_windows [OF assms(1) first, of ws] by auto
  then show ?thesis using assms that(1) [of u] Cons
    by (simp add: find_best_segment_def Let_def holds_window_def)
qed

lemma in_candidate_windows:
  "(len, start) \<in> set (candidate_windows n m) \<longleftrightarrow>
     1 \<le> len \<and> n \<le> len + 2 \<and> len \<le> n + 2 \<and> start + len \<le> m"
  by (auto simp: candidate_windows_def sat_sub_def image_iff simp del: upt_Suc)

text \<open>The stretches that come into question: not empty, and in length within two of the utterance.\<close>

definition near_window :: "rstr list \<Rightarrow> rstr list \<Rightarrow> nat \<times> nat \<Rightarrow> bool" where
  "near_window gold main w =
     (case w of (len, start) \<Rightarrow>
        1 \<le> len \<and> length gold \<le> len + 2 \<and> len \<le> length gold + 2 \<and> start + len \<le> length main)"

lemma near_windows:
  "v \<in> set (candidate_windows (length gold) (length main)) \<longleftrightarrow> near_window gold main v"
  by (cases v) (simp add: in_candidate_windows near_window_def)

lemma no_near_window:
  fixes gold main :: "rstr list"
  shows "gold \<noteq> [] \<Longrightarrow> main \<noteq> [] \<Longrightarrow> candidate_windows (length gold) (length main) = [] \<longleftrightarrow>
     length main + 2 < length gold"
proof
  assume ne: "gold \<noteq> []" "main \<noteq> []" and none: "candidate_windows (length gold) (length main) = []"
  have "\<not> near_window gold main (min (length gold) (length main), 0)"
    using near_windows [of "(min (length gold) (length main), 0)" gold main] none by simp
  then show "length main + 2 < length gold" using ne by (auto simp: near_window_def min_def Suc_le_eq split: if_splits)
next
  assume "length main + 2 < length gold"
  then have "\<not> near_window gold main v" for v by (auto simp: near_window_def split: prod.splits)
  then show "candidate_windows (length gold) (length main) = []"
    using near_windows [of _ gold main] by (metis list.set_intros(1) neq_Nil_conv)
qed

text \<open>
  C38: The window in which a gold utterance is aligned is the best of the stretches of the remaining main
  words whose length is within two of the utterance's: it is such a stretch, none shares more words with
  the utterance (as multisets), none that shares as many is closer in length, and of those that tie the
  last is taken. There is no such stretch exactly when the gold utterance is more than two words longer
  than what remains; then all that remains is taken. The window is empty when either side is.
\<close>

theorem best_window_optimal:
  "if gold = [] \<or> main = [] then find_best_segment gold main = (0, 0)
   else if length main + 2 < length gold then find_best_segment gold main = (0, length main)
   else \<exists>len start. find_best_segment gold main = (start, start + len) \<and> near_window gold main (len, start) \<and>
     (\<forall>v. near_window gold main v \<longrightarrow> window_rank gold main v \<le> window_rank gold main (len, start))"
proof (cases "gold = [] \<or> main = []")
  case True
  then show ?thesis by (auto simp: find_best_segment_def)
next
  case False
  then have ne: "gold \<noteq> []" "main \<noteq> []" by auto
  show ?thesis
  proof (rule best_segment_cases [OF ne])
    fix w assume w: "w \<in> set (candidate_windows (length gold) (length main))"
      "find_best_segment gold main = segment_of w"
      "\<forall>v\<in>set (candidate_windows (length gold) (length main)). window_rank gold main v \<le> window_rank gold main w"
    obtain len start where ws: "w = (len, start)" by fastforce
    have "\<not> length main + 2 < length gold"
      using no_near_window [OF ne] w(1) by auto
    moreover have "near_window gold main (len, start)" using w(1) by (simp only: near_windows ws)
    moreover have "\<forall>v. near_window gold main v \<longrightarrow> window_rank gold main v \<le> window_rank gold main (len, start)"
      using w(3) by (simp only: near_windows [symmetric] ws) blast
    ultimately show ?thesis using w(2) ne by (auto simp: segment_of_def ws)
  next
    assume "candidate_windows (length gold) (length main) = []"
      "find_best_segment gold main = (0, min (length main) (length gold))"
    then show ?thesis using ne no_near_window [OF ne] by simp
  qed
qed

lemma best_window_optimal_witness:
  "find_best_segment [[98], [99]] [[97], [98], [120], [99], [98]] = (3, 5) \<and>
   near_window [[98], [99]] [[97], [98], [120], [99], [98]] (2, 3) \<and>
   window_rank [[98], [99]] [[97], [98], [120], [99], [98]] (2, 0) \<le>
     window_rank [[98], [99]] [[97], [98], [120], [99], [98]] (2, 3)"
proof -
  let ?g = "[[98], [99]]" and ?m = "[[97], [98], [120], [99], [98]]"
  have best: "find_best_segment ?g ?m = (3, 5)" by code_simp
  have near: "near_window ?g ?m (2, 0)" by (simp add: near_window_def)
  obtain len start where w: "find_best_segment ?g ?m = (start, start + len)" "near_window ?g ?m (len, start)"
    "\<forall>v. near_window ?g ?m v \<longrightarrow> window_rank ?g ?m v \<le> window_rank ?g ?m (len, start)"
    using best_window_optimal [of ?g ?m] by auto
  then have "len = 2" "start = 3" using best by auto
  then show ?thesis using w near best by blast
qed

section \<open>A file compared with itself\<close>

lemma rank_one:
  "k < length main \<Longrightarrow> window_rank [g] main (1, k) = (if main ! k = g then 1 else 0, 0, Suc k)"
  by (simp add: window_rank_def take_Suc hd_drop_conv_nth)

lemma one_word_window:
  assumes "g \<in> set main"
  obtains i where "find_best_segment [g] main = (i, Suc i)" "i < length main" "main ! i = g"
    "\<forall>j<length main. main ! j = g \<longrightarrow> j \<le> i"
proof -
  let ?cands = "candidate_windows (length [g]) (length main)"
  obtain j where j: "j < length main" "main ! j = g" using assms by (auto simp: in_set_conv_nth)
  then have main: "main \<noteq> []" by auto
  show thesis
  proof (rule best_segment_cases [of "[g]" main])
    fix w assume w: "w \<in> set ?cands" "find_best_segment [g] main = segment_of w"
      "\<forall>v\<in>set ?cands. window_rank [g] main v \<le> window_rank [g] main w"
    obtain len start where ws: "w = (len, start)" by fastforce
    have below: "window_rank [g] main (1, k) \<le> window_rank [g] main w" if "k < length main" for k
      using w(3) that by (simp add: in_candidate_windows)
    have size: "size (mset (take len (drop start main)) \<inter># {#g#}) \<le> 1"
      using size_mset_mono [of "mset (take len (drop start main)) \<inter># {#g#}" "{#g#}"] by simp
    have "(1, 0, Suc j) \<le> window_rank [g] main w" using below [OF j(1)] j by (simp only: rank_one refl if_True)
    then have len: "len = 1" using size by (auto simp: ws window_rank_def less_eq_prod_def)
    then have start: "start < length main" using w(1) by (simp add: ws in_candidate_windows)
    have rank: "window_rank [g] main w = (if main ! start = g then 1 else 0, 0, Suc start)"
      unfolding ws len by (rule rank_one [OF start])
    have "main ! start = g" using below [OF j(1)] j unfolding rank rank_one [OF j(1)]
      by (simp add: less_eq_prod_def split: if_splits)
    moreover have "k \<le> start" if k: "k < length main" "main ! k = g" for k
      using below [OF k(1)] k(2) calculation unfolding rank rank_one [OF k(1)] by (simp add: less_eq_prod_def)
    ultimately show thesis
      using that [of start] w(2) len start by (simp add: ws segment_of_def)
  next
    assume "?cands = []"
    then show thesis using in_candidate_windows [of 1 j "length [g]" "length main"] j(1) by simp
  qed (use main in simp_all)
qed

lemma align_same: "align lower jaro [a] [a] MmCaseInsensitive = Some [AlMatch a 0 0]"
  by (simp add: align_def align_generic_def common_prefix_len_def hirschberg.simps string_matches_def string_key_def
      eq_ignore_ascii_case_def Let_def)

lemma align_missing: "align lower jaro [] [a] MmCaseInsensitive = Some [ExtraReference a 0]"
  by (simp add: align_def align_generic_def common_prefix_len_def hirschberg.simps string_matches_def string_key_def
      eq_ignore_ascii_case_def Let_def)

text \<open>
  A file whose only two turns are the same single word is not equal to itself for the comparison: the
  first gold turn is aligned with the second main turn, and the second gold turn finds no words left.
\<close>

theorem repeated_turn_not_equal_to_itself:
  assumes "utterances f = [u1, u2]" "cr_words rd u1 = [w]" "cr_words rd u2 = [w]" "plain_word rd w"
    and "find_mor (cu_tiers u1) = None" "find_mor (cu_tiers u2) = None"
  shows "\<exists>b. compare rd f f = Some b \<and> cm_matches (cb_metrics b) = 1 \<and> cm_deletions (cb_metrics b) = 1 \<and>
    cm_wer (cb_metrics b) = 1 / 2"
proof -
  have seg: "find_best_segment [w] [w, w] = (1, 2)"
  proof (rule one_word_window [of w "[w, w]"])
    fix i assume i: "find_best_segment [w] [w, w] = (i, Suc i)" "i < length [w, w]"
      "\<forall>j<length [w, w]. [w, w] ! j = w \<longrightarrow> j \<le> i"
    have "1 \<le> i" using i(3) [rule_format, of 1] by simp
    then have "i = 1" using i(2) by simp
    then show ?thesis using i(1) by (simp add: numeral_2_eq_2)
  qed simp
  have none: "find_best_segment [w] [] = (0, 0)" by (simp add: find_best_segment_def)
  have words: "extract_words rd f =
      [\<lparr>ex_speaker = cu_speaker u1, ex_utterance_index = 0, ex_words = [w]\<rparr>,
       \<lparr>ex_speaker = cu_speaker u2, ex_utterance_index = 1, ex_words = [w]\<rparr>]"
    using assms by (simp add: extract_words_def)
  have labels: "collect_mor_pos_labels rd f = [[], []]" using assms by (simp add: collect_mor_pos_labels_def)
  let ?i = "\<lambda>k. \<lparr>fl_utterance_index = k, fl_word_position = 0, fl_compare_position = 0, fl_pos = None\<rparr>"
  have flat: "flatten_compare_words rd f (extract_words rd f) = [(w, ?i 0), (w, ?i 1)]"
    using assms(4) unfolding flatten_compare_words_def words labels
    by (simp add: flatten_utterance_def plain_word_def mor_pos_at_def slice_get_def)
  have conf: "conform_with_mapping (cr_conform rd) [w, w] = [(w, 0), (w, 1)]"
    using conform_plain [of rd "[w, w]"] assms(4) by simp
  have tables: "compare_tables rd f f =
      \<lparr>tb_upper = cr_upper rd, tb_conformed_main = [w, w], tb_main_map = [0, 1],
       tb_main_info = [?i 0, ?i 1], tb_gold_info = [?i 0, ?i 1],
       tb_gold_utt_tokens = [[w], [w]], tb_gold_utt_maps = [[0], [1]]\<rparr>"
    unfolding compare_tables_def flat by (simp add: conf words)
  obtain s where s: "compare_loop rd f f = Some s"
    "ma_matches (cs_metrics s) = 1" "ma_deletions (cs_metrics s) = 1" "ma_insertions (cs_metrics s) = 0"
    unfolding compare_loop_def tables
    by (auto simp: words compare_state0_def compare_utterance_def seg none slice_get_def slice_def
        push_at_def align_same align_missing metric_accumulator0_def record_token_def metric_pos_label_def Let_def numeral_2_eq_2 or_else_def)
  obtain b where "compare rd f f = Some b" "cb_metrics b = finish_metrics (cs_metrics s)"
    using compare_result [of rd f f] s(1) by auto
  then show ?thesis using s by (simp add: finish_metrics_def Let_def)
qed

text \<open>A reader that takes the words as they stand, and the word \<open>y\<close>.\<close>

definition plain_reader :: "(rstr list, rstr) CompareReader" where
  "plain_reader =
     \<lparr>cr_words = cu_content, cr_terminator = (\<lambda>u. Some (lit ''.'')), cr_pos = (\<lambda>p. p), cr_upper = (\<lambda>s. s),
      cr_nonempty = (\<lambda>s. s \<noteq> []), cr_conform = plain_data, cr_jaro = (\<lambda>a b. 0)\<rparr>"

definition word_y :: rstr where "word_y = [121]"

definition turn :: "rstr list \<Rightarrow> rstr MorTier OtherTier DependentTier list \<Rightarrow>
  (rstr list, rstr MorTier OtherTier) ChatUtterance" where
  "turn ws ts = \<lparr>cu_speaker = lit ''PAR'', cu_content = ws, cu_bullet = None, cu_tiers = ts,
     cu_lazy_overlap = False\<rparr>"

lemma plain_word_y: "plain_word plain_reader word_y"
proof -
  have trim: "trim [121] = [121]" by (simp add: trim_def trim_matches_def is_whitespace_def)
  have lower: "to_ascii_lowercase [121] = [121]" by (simp add: to_ascii_lowercase_def ascii_lower_def)
  have special: "conform_special [121] = [[121]]" by (simp add: conform_special_def lit_def)
  have absent: "[121] \<notin> set fillers" "[121] \<notin> {lit ''ok'', lit ''gimme'', lit ''hafta'', lit ''havta''}"
    by (simp_all add: lit_def fillers_def)
  have word: "conform_word plain_data [121] = [[121]] \<and> cd_lower plain_data [121] = [121]"
    by (rule conform_word_plain) (simp_all only: special absent trim lower, simp_all)
  have "\<not> is_punct_or_filler (cd_lower plain_data) [121]"
    by (simp add: is_punct_or_filler_def trim word compare_punct_def compare_fillers_def lit_def)
  then show ?thesis using word
    by (simp add: plain_word_def plain_reader_def word_y_def conform_words_def)
qed

lemma repeated_turn_not_equal_to_itself_witness:
  "\<exists>b. compare plain_reader [ClUtterance (turn [word_y] []), ClUtterance (turn [word_y] [])]
         [ClUtterance (turn [word_y] []), ClUtterance (turn [word_y] [])] = Some b \<and>
     cm_wer (cb_metrics b) = 1 / 2"
  using repeated_turn_not_equal_to_itself [of "[ClUtterance (turn [word_y] []), ClUtterance (turn [word_y] [])]"
      "turn [word_y] []" "turn [word_y] []" plain_reader word_y]
    plain_word_y
  by (auto simp: plain_reader_def turn_def)

section \<open>Main words are used once\<close>

lemma record_tokens_main:
  "length (filter (counted CsMatch) ts) + length (filter (counted CsExtraMain) ts) \<le> length (filter on_main_side ts)"
  by (induction ts) (auto simp: counted_def)

text \<open>
  The number of main words a comparison reports never exceeds the number of conformed main words: every
  main word is aligned with at most one gold utterance.
\<close>

theorem main_words_used_once:
  "\<exists>b. compare rd main_file gold_file = Some b \<and>
     cm_total_main_words (cb_metrics b) \<le>
       length (conform_words (cr_conform rd) (concat (map (kept_words rd) (utterances main_file))))"
proof -
  let ?tb = "compare_tables rd main_file gold_file" and ?n = "length (utterances gold_file)"
  obtain s b where b: "compare rd main_file gold_file = Some b"
    "loop_inv ?tb (length (utterances main_file)) ?n ?n s" "cb_metrics b = finish_metrics (cs_metrics s)"
    using compare_result [of rd main_file gold_file] by auto
  let ?pushed = "pushed_tokens ?n s"
  have pushed: "cs_metrics s = foldl (\<lambda>m t. record_token (tb_upper ?tb) t m) metric_accumulator0 ?pushed"
    "length (filter on_main_side ?pushed) \<le> cs_search_start s"
    using b(2) by (simp_all only: loop_inv_def)
  have "cm_total_main_words (cb_metrics b) = count_tokens CsMatch ?pushed + count_tokens CsExtraMain ?pushed"
    by (simp only: b(3) finish_metrics_def Let_def pushed(1) record_tokens metric_accumulator0_def
        CompareMetrics.simps MetricAccumulator.simps add_0)
  also have "\<dots> \<le> cs_search_start s" using record_tokens_main [of ?pushed] pushed(2) by (rule order_trans)
  also have "\<dots> \<le> length (tb_conformed_main ?tb)" using b(2) by (simp add: loop_inv_def)
  also have "tb_conformed_main ?tb = conform_words (cr_conform rd)
      (map fst (flatten_compare_words rd main_file (extract_words rd main_file)))"
    by (simp add: compare_tables_def Let_def conform_tokens)
  also have "map fst (flatten_compare_words rd main_file (extract_words rd main_file)) =
      concat (map (kept_words rd) (utterances main_file))"
  proof -
    have "map (\<lambda>g. map fst (flatten_utterance rd (collect_mor_pos_labels rd main_file)
        (extract_words rd main_file ! g))) [0..<length (utterances main_file)] =
      map (kept_words rd) (utterances main_file)"
      by (rule nth_equalityI) (simp_all add: flatten_block(1))
    then show ?thesis by (simp add: flatten_blocks map_concat comp_def)
  qed
  finally show ?thesis using b(1) by blast
qed

section \<open>The terminator of a gold utterance\<close>

text \<open>
  The terminator of a gold utterance is placed by the number of its conformed words, the words by
  their positions among all words: after two fillers the terminator comes before the word it ends.
\<close>

theorem terminator_before_last_word:
  assumes "utterances gold_file = [u]" "cr_words rd u = [f1, f2, w]" "cr_terminator rd u = Some t"
    and "is_punct_or_filler (cd_lower (cr_conform rd)) f1"
    and "is_punct_or_filler (cd_lower (cr_conform rd)) f2" "plain_word rd w"
  shows "\<exists>b c. compare rd main_file gold_file = Some b \<and> cb_gold_utterances b = [c] \<and>
    map ct_text (filter (\<lambda>t. ct_status t \<noteq> CsExtraMain) (uc_tokens c)) = [t, w]"
proof -
  let ?tb = "compare_tables rd main_file gold_file"
  have kept: "\<not> is_punct_or_filler (cd_lower (cr_conform rd)) w" "conform_words (cr_conform rd) [w] = [w]"
    using assms(6) by (simp_all add: plain_word_def)
  have toks: "tb_gold_utt_tokens ?tb ! 0 = [w]"
    using gold_tokens_of [of 0 gold_file rd main_file] assms kept by (simp add: kept_words_def)
  have words: "extract_words rd gold_file =
      [\<lparr>ex_speaker = cu_speaker u, ex_utterance_index = 0, ex_words = [f1, f2, w]\<rparr>]"
    using assms by (simp add: extract_words_def)
  have flat: "flatten_compare_words rd gold_file (extract_words rd gold_file) =
      [(w, \<lparr>fl_utterance_index = 0, fl_word_position = 2, fl_compare_position = 0,
            fl_pos = mor_pos_at (collect_mor_pos_labels rd gold_file) 0 2\<rparr>)]"
    unfolding flatten_compare_words_def words using assms kept
    by (simp add: flatten_utterance_def numeral_2_eq_2)
  have word: "fl_word_position (gold_word ?tb 0 0) = 2"
    unfolding gold_word_def compare_tables_def Let_def flat
    using kept by (simp add: words conform_with_mapping_def)
  obtain s gp b where b: "compare rd main_file gold_file = Some b"
    "loop_inv ?tb (length (utterances main_file)) 1 1 s" "length gp = 1"
    "gp ! 0 = cs_gold_positioned s ! 0 @ terminator_entry (tb_gold_utt_tokens ?tb ! 0) (cr_terminator rd u)"
    "cb_gold_utterances b = build_utterance_comparisons (extract_words rd gold_file) gp"
    using compare_result [of rd main_file gold_file] assms(1) by auto
  let ?es = "filter on_gold_side (cs_gold_positioned s ! 0)"
  have "map (ct_text \<circ> snd) ?es = [w]" "map fst ?es = [2]"
    using b(2) toks word by (simp_all add: loop_inv_def gold_side_ok_def)
  then obtain e where e: "?es = [(2, e)]" "ct_text e = w" by (auto simp: map_eq_Cons_conv)
  let ?te = "terminator_entry (tb_gold_utt_tokens ?tb ! 0) (cr_terminator rd u)"
  have te: "filter on_gold_side ?te = ?te" "map ct_text (map snd ?te) = [t]" "map fst ?te = [1]"
    using assms(3) toks by (simp_all add: terminator_entry_def)
  have "filter on_gold_side (sort_key fst (gp ! 0)) = sort_key fst (?es @ ?te)"
    unfolding b(4) by (simp add: filter_sort te)
  also have "\<dots> = ?te @ ?es"
    using assms(3) toks by (simp add: e terminator_entry_def)
  finally have sorted: "filter on_gold_side (sort_key fst (gp ! 0)) = ?te @ ?es" .
  have "cb_gold_utterances b = [\<lparr>uc_utterance_index = 0, uc_speaker = cu_speaker u,
      uc_tokens = map snd (sort_key fst (gp ! 0))\<rparr>]"
    unfolding b(5) words by (simp add: build_utterance_comparisons_def)
  then show ?thesis using b(1) sorted te(2) e
    by (simp add: filter_map comp_def)
qed

definition word_um :: rstr where "word_um = [117, 109]"

lemma filler_um: "is_punct_or_filler (cd_lower (cr_conform plain_reader)) word_um"
proof -
  have "trim word_um = word_um" by (simp add: word_um_def trim_def trim_matches_def is_whitespace_def)
  moreover have "to_ascii_lowercase word_um = word_um"
    by (simp add: word_um_def to_ascii_lowercase_def ascii_lower_def)
  moreover have "word_um \<in> set compare_fillers" by (simp add: word_um_def compare_fillers_def lit_def)
  ultimately show ?thesis by (simp add: is_punct_or_filler_def Let_def plain_reader_def plain_data_def)
qed

lemma terminator_before_last_word_witness:
  "\<exists>b c. compare plain_reader [] [ClUtterance (turn [word_um, word_um, word_y] [])] = Some b \<and>
     cb_gold_utterances b = [c] \<and>
     map ct_text (filter (\<lambda>t. ct_status t \<noteq> CsExtraMain) (uc_tokens c)) = [lit ''.'', word_y]"
  by (rule terminator_before_last_word [of _ "turn [word_um, word_um, word_y] []" _ word_um word_um])
    (use filler_um plain_word_y in \<open>simp_all add: plain_reader_def turn_def\<close>)

section \<open>Projection of \<open>%mor\<close>\<close>

definition um_turn :: "(rstr list, rstr MorTier OtherTier) ChatUtterance" where
  "um_turn = turn [word_um, word_y] [DtOther (OtMor \<lparr>mt_items = [lit ''co'', lit ''n''], mt_terminator = None\<rparr>)]"

definition um_file :: "(rstr list, rstr, unit) compare_file" where
  "um_file = [ClUtterance um_turn]"

definition y_file :: "(rstr list, rstr, unit) compare_file" where
  "y_file = [ClUtterance (turn [word_y] [])]"

text \<open>
  The projection can give a gold word the \<open>%mor\<close> item of another word. Take a main file with one
  utterance, a filler followed by a word, with one \<open>%mor\<close> item for each of the two, and a gold file with
  one utterance, that word alone, without tiers. The gold word matches the word, yet the gold utterance
  gets the item of the filler: the projection indexes the items of the main tier, one for every word,
  by the position among the words that are not fillers.
\<close>

theorem projection_takes_item_of_filler:
  assumes main: "utterances main_file = [um]" "cr_words rd um = [f, w]"
      "find_mor (cu_tiers um) = Some \<lparr>mt_items = [i0, ix], mt_terminator = tx\<rparr>"
    and gold: "gold_file = [ClUtterance ug]" "cr_words rd ug = [w]" "cu_tiers ug = []"
    and words: "is_punct_or_filler (cd_lower (cr_conform rd)) f" "plain_word rd w"
  shows "\<exists>b. compare rd main_file gold_file = Some b \<and>
    map (\<lambda>u. map_option mt_items (find_mor (cu_tiers u)))
      (utterances (project_gold_structurally rd main_file gold_file b)) = [Some [i0]]"
proof -
  let ?tb = "compare_tables rd main_file gold_file"
  have gu: "utterances gold_file = [ug]" "find_mor (cu_tiers ug) = None" using gold by simp_all
  let ?p = "cr_upper rd (cr_pos rd ix)"
  have kept: "\<not> is_punct_or_filler (cd_lower (cr_conform rd)) w" "conform_words (cr_conform rd) [w] = [w]"
    using words(2) by (simp_all add: plain_word_def)
  have conf: "conform_with_mapping (cr_conform rd) [w] = [(w, 0)]"
    using kept by (simp add: conform_with_mapping_def)
  have ex: "extract_words rd main_file = [\<lparr>ex_speaker = cu_speaker um, ex_utterance_index = 0, ex_words = [f, w]\<rparr>]"
    "extract_words rd gold_file = [\<lparr>ex_speaker = cu_speaker ug, ex_utterance_index = 0, ex_words = [w]\<rparr>]"
    using main gold(2) gu by (simp_all add: extract_words_def)
  let ?wm = "\<lparr>fl_utterance_index = 0, fl_word_position = 1, fl_compare_position = 0, fl_pos = Some ?p\<rparr>"
  let ?wg = "\<lparr>fl_utterance_index = 0, fl_word_position = 0, fl_compare_position = 0, fl_pos = None\<rparr>"
  have flat: "flatten_compare_words rd main_file (extract_words rd main_file) = [(w, ?wm)]"
    "flatten_compare_words rd gold_file (extract_words rd gold_file) = [(w, ?wg)]"
    using main gold(2) gu words(1) kept unfolding flatten_compare_words_def ex
    by (simp_all add: flatten_utterance_def collect_mor_pos_labels_def mor_pos_at_def slice_get_def)
  have tables: "?tb = \<lparr>tb_upper = cr_upper rd, tb_conformed_main = [w], tb_main_map = [0],
      tb_main_info = [?wm], tb_gold_info = [?wg], tb_gold_utt_tokens = [[w]], tb_gold_utt_maps = [[0]]\<rparr>"
    unfolding compare_tables_def flat by (simp add: conf ex)
  have seg: "find_best_segment [w] [w] = (0, 1)"
    by (rule one_word_window [of w "[w]"]) simp_all
  obtain s where s: "compare_loop rd main_file gold_file = Some s" "cs_gold_word_matches s =
      [\<lparr>gm_gold_utterance_index = 0, gm_gold_word_position = 0, gm_main_utterance_index = 0,
        gm_main_word_position = 0\<rparr>]"
    unfolding compare_loop_def tables
    by (auto simp: ex compare_state0_def compare_utterance_def seg slice_get_def slice_def push_at_def align_same
        push_match_def Let_def)
  obtain b where b: "compare rd main_file gold_file = Some b" "cb_gold_word_matches b = cs_gold_word_matches s"
    using compare_result [of rd main_file gold_file] s(1) by auto
  have "exact_projection_source b 0 (compared_word_counts rd (extract_words rd main_file))
      (compared_word_counts rd (extract_words rd gold_file))
      (alignable_word_counts (extract_words rd main_file))
      (alignable_word_counts (extract_words rd gold_file)) = None"
    using words(1) kept
    by (simp add: exact_projection_source_def ex compared_word_counts_def alignable_word_counts_def slice_get_def
        matches_of_def b(2) s(2) Let_def)
  then have "project_gold_structurally rd main_file gold_file b = replace_or_add_mor_tier 0
      \<lparr>mt_items = [i0], mt_terminator = cr_terminator rd ug\<rparr> gold_file"
    using main gold(2) gu words(1) kept
    by (simp add: project_gold_structurally_def project_utterance_def ex build_projected_mor_tier_def
        compared_word_counts_def collect_mor_items_def collect_utterance_terminators_def slice_get_def
        matches_of_def b(2) s(2) Let_def place_match_def main_pair_def)
  then show ?thesis using b(1) gold by (simp add: replace_or_add_mor_tier_def)
qed

lemma projection_takes_item_of_filler_witness:
  "\<exists>b. compare plain_reader um_file y_file = Some b \<and>
     map (\<lambda>u. map_option mt_items (find_mor (cu_tiers u)))
       (utterances (project_gold_structurally plain_reader um_file y_file b)) = [Some [lit ''co'']]"
  by (rule projection_takes_item_of_filler [where f = word_um and w = word_y and ix = "lit ''n''" and tx = None
        and ug = "turn [word_y] []" and um = um_turn])
    (use filler_um plain_word_y in \<open>simp_all add: plain_reader_def turn_def um_file_def y_file_def um_turn_def\<close>)

end
