(* ===== verification/Ud_Lang.thy ===== *)
theory Ud_Lang
  imports Prelude
begin

text \<open>
  The language rules of the mapping from Universal Dependencies to CHAT
  (\<open>nlp/lang_en.rs\<close>, \<open>nlp/lang_fr.rs\<close>, \<open>nlp/lang_ja.rs\<close>): the irregular English verbs, the case
  of French pronouns and the nouns with an audible plural, the chain of Japanese overrides. Strings
  outside ASCII are lists of code points; Unicode lower-casing is an argument.
\<close>

section \<open>English\<close>

text \<open>\<open>IRREGULAR_VERBS\<close>. A later entry for the same key would replace an earlier one; there is none.\<close>

definition irregular_verbs :: "(rstr \<times> rstr list) list" where
  "irregular_verbs = [
     (lit ''abide'', [lit ''abode'']), (lit ''arise'', [lit ''arose'', lit ''arisen'']),
     (lit ''awake'', [lit ''awoke'', lit ''awoken'']),
     (lit ''be'', [lit ''was'', lit ''were'', lit ''been'']),
     (lit ''bear'', [lit ''bore'', lit ''borne'']),
     (lit ''beat'', [lit ''beat'', lit ''beaten'']),
     (lit ''become'', [lit ''became'', lit ''become'']),
     (lit ''befall'', [lit ''befell'', lit ''befallen'']),
     (lit ''begin'', [lit ''began'', lit ''begun'']),
     (lit ''beget'', [lit ''begot'', lit ''begotten'']),
     (lit ''behold'', [lit ''beheld'', lit ''beholden'']), (lit ''bend'', [lit ''bent'']),
     (lit ''bereave'', [lit ''bereft'']), (lit ''beseek'', [lit ''besought'']),
     (lit ''bet'', [lit ''bet'']), (lit ''betake'', [lit ''betook'', lit ''betaken'']),
     (lit ''bid'', [lit ''bid'']), (lit ''bade'', [lit ''bidden'']),
     (lit ''bind'', [lit ''bound'']), (lit ''bite'', [lit ''bit'', lit ''bitten'']),
     (lit ''bleed'', [lit ''bled'']), (lit ''blow'', [lit ''blew'', lit ''blown'']),
     (lit ''break'', [lit ''broke'', lit ''broken'']), (lit ''breed'', [lit ''bred'']),
     (lit ''bring'', [lit ''brought'']), (lit ''build'', [lit ''built'']),
     (lit ''burn'', [lit ''burnt'']), (lit ''burst'', [lit ''burst'']),
     (lit ''buy'', [lit ''bought'']), (lit ''cast'', [lit ''cast'']),
     (lit ''catch'', [lit ''caught'']), (lit ''choose'', [lit ''chose'', lit ''chosen'']),
     (lit ''clad'', [lit ''clad'']), (lit ''cleave'', [lit ''cleft'', lit ''cloven'']),
     (lit ''cling'', [lit ''clung'']), (lit ''come'', [lit ''came'', lit ''come'']),
     (lit ''cost'', [lit ''cost'']), (lit ''creep'', [lit ''crept'']),
     (lit ''cut'', [lit ''cut'']), (lit ''deal'', [lit ''dealt'']), (lit ''dig'', [lit ''dug'']),
     (lit ''dive'', [lit ''dove'', lit ''dived'']), (lit ''do'', [lit ''did'', lit ''done'']),
     (lit ''draw'', [lit ''drew'', lit ''drawn'']), (lit ''dream'', [lit ''dreamt'']),
     (lit ''drink'', [lit ''drank'', lit ''drunk'']),
     (lit ''drive'', [lit ''drove'', lit ''driven'']), (lit ''dwell'', [lit ''dwelt'']),
     (lit ''eat'', [lit ''ate'', lit ''eaten'']), (lit ''fall'', [lit ''fell'', lit ''fallen'']),
     (lit ''feed'', [lit ''fed'']), (lit ''feel'', [lit ''felt'']),
     (lit ''fight'', [lit ''fought'']), (lit ''find'', [lit ''found'']),
     (lit ''fit'', [lit ''fit'']), (lit ''flee'', [lit ''fled'']),
     (lit ''fling'', [lit ''flung'']), (lit ''fly'', [lit ''flew'', lit ''flown'']),
     (lit ''forbid'', [lit ''forbade'', lit ''forbidden'']),
     (lit ''forecast'', [lit ''forecast'']),
     (lit ''forget'', [lit ''forgot'', lit ''forgotten'']),
     (lit ''forgo'', [lit ''forewent'', lit ''foregone'']),
     (lit ''foresee'', [lit ''foresaw'', lit ''foreseen'']),
     (lit ''foretell'', [lit ''foretold'']),
     (lit ''forgive'', [lit ''forgave'', lit ''forgiven'']),
     (lit ''forsake'', [lit ''forsook'', lit ''forsaken'']),
     (lit ''forswear'', [lit ''forswore'', lit ''forsworn'']),
     (lit ''freeze'', [lit ''froze'', lit ''frozen'']),
     (lit ''get'', [lit ''got'', lit ''gotten'']), (lit ''gild'', [lit ''gilt'']),
     (lit ''give'', [lit ''gave'', lit ''given'']), (lit ''go'', [lit ''went'', lit ''gone'']),
     (lit ''grind'', [lit ''ground'']), (lit ''grow'', [lit ''grew'', lit ''grown'']),
     (lit ''hang'', [lit ''hung'']), (lit ''have'', [lit ''had'']),
     (lit ''hear'', [lit ''heard'']), (lit ''hew'', [lit ''hewn'']),
     (lit ''hide'', [lit ''hid'', lit ''hidden'']), (lit ''hit'', [lit ''hit'']),
     (lit ''hold'', [lit ''held'']), (lit ''hurt'', [lit ''hurt'']),
     (lit ''inlay'', [lit ''inlaid'']), (lit ''inset'', [lit ''inset'']),
     (lit ''input'', [lit ''input'']), (lit ''interlay'', [lit ''interlaid'']),
     (lit ''interweave'', [lit ''interwoven'']), (lit ''keep'', [lit ''kept'']),
     (lit ''kneel'', [lit ''knelt'']), (lit ''knit'', [lit ''knit'']),
     (lit ''know'', [lit ''knew'', lit ''known'']), (lit ''lay'', [lit ''laid'']),
     (lit ''lead'', [lit ''led'']), (lit ''leap'', [lit ''leapt'']),
     (lit ''led'', [lit ''led'']), (lit ''leave'', [lit ''left'']),
     (lit ''lend'', [lit ''lent'']), (lit ''let'', [lit ''let'']),
     (lit ''lie'', [lit ''lay'', lit ''lain'']), (lit ''lose'', [lit ''lost'']),
     (lit ''make'', [lit ''made'']), (lit ''mean'', [lit ''meant'']),
     (lit ''meet'', [lit ''met'']), (lit ''misspeak'', [lit ''misspoke'', lit ''mispoken'']),
     (lit ''mistake'', [lit ''mistook'', lit ''mistaken'']), (lit ''offset'', [lit ''offset'']),
     (lit ''overdo'', [lit ''overdid'', lit ''overdone'']), (lit ''outbid'', [lit ''outbid'']),
     (lit ''pay'', [lit ''paid'']), (lit ''partake'', [lit ''partook'', lit ''partaken'']),
     (lit ''plead'', [lit ''pled'']), (lit ''prepay'', [lit ''prepaid'']),
     (lit ''prove'', [lit ''proven'']), (lit ''put'', [lit ''put'']),
     (lit ''quit'', [lit ''quit'']), (lit ''recast'', [lit ''recast'']),
     (lit ''redo'', [lit ''redid'', lit ''redone'']), (lit ''remake'', [lit ''remade'']),
     (lit ''reset'', [lit ''reset'']), (lit ''read'', [lit ''read'']),
     (lit ''rend'', [lit ''rent'']), (lit ''rid'', [lit ''rid'', lit ''ridden'']),
     (lit ''ride'', [lit ''rode'', lit ''ridden'']),
     (lit ''ring'', [lit ''rang'', lit ''rung'']), (lit ''rise'', [lit ''rose'', lit ''risen'']),
     (lit ''run'', [lit ''ran'', lit ''run'']), (lit ''say'', [lit ''said'']),
     (lit ''seek'', [lit ''sought'']), (lit ''see'', [lit ''saw'', lit ''seen'']),
     (lit ''sell'', [lit ''sold'']), (lit ''send'', [lit ''sent'']),
     (lit ''set'', [lit ''set'']), (lit ''sew'', [lit ''sewn'']),
     (lit ''shake'', [lit ''shook'', lit ''shaken'']), (lit ''shave'', [lit ''shaven'']),
     (lit ''shed'', [lit ''shed'']), (lit ''shine'', [lit ''shone'']),
     (lit ''shoot'', [lit ''shot'']), (lit ''show'', [lit ''shown'']),
     (lit ''shrink'', [lit ''shrank'', lit ''shrunk'']), (lit ''shut'', [lit ''shut'']),
     (lit ''sing'', [lit ''sang'', lit ''sung'']), (lit ''sink'', [lit ''sank'', lit ''sunk'']),
     (lit ''sit'', [lit ''sat'']), (lit ''slay'', [lit ''slew'', lit ''slain'']),
     (lit ''sleep'', [lit ''slept'']), (lit ''slide'', [lit ''slid'']),
     (lit ''slink'', [lit ''slunk'']), (lit ''slit'', [lit ''slit'']),
     (lit ''smite'', [lit ''smote'', lit ''smitten'']), (lit ''sneak'', [lit ''snuck'']),
     (lit ''speak'', [lit ''spoke'', lit ''spoken'']), (lit ''speed'', [lit ''sped'']),
     (lit ''spend'', [lit ''spent'']), (lit ''spin'', [lit ''spun'']),
     (lit ''spit'', [lit ''spit'']), (lit ''split'', [lit ''split'']),
     (lit ''spread'', [lit ''spread'']), (lit ''spring'', [lit ''sprang'', lit ''sprung'']),
     (lit ''stand'', [lit ''stood'']), (lit ''steal'', [lit ''stole'', lit ''stolen'']),
     (lit ''stick'', [lit ''stuck'']), (lit ''sting'', [lit ''stung'']),
     (lit ''stink'', [lit ''stank'', lit ''stunk'']), (lit ''strew'', [lit ''strewn'']),
     (lit ''strike'', [lit ''struck'']), (lit ''string'', [lit ''strung'']),
     (lit ''strive'', [lit ''strove'', lit ''striven'']),
     (lit ''swear'', [lit ''swore'', lit ''sworn'']), (lit ''sweep'', [lit ''swept'']),
     (lit ''swell'', [lit ''swollen'']), (lit ''swim'', [lit ''swam'', lit ''swum'']),
     (lit ''swing'', [lit ''swung'']), (lit ''take'', [lit ''took'', lit ''taken'']),
     (lit ''teach'', [lit ''taught'']), (lit ''tear'', [lit ''tore'', lit ''torn'']),
     (lit ''tell'', [lit ''told'']), (lit ''think'', [lit ''thought'']),
     (lit ''throw'', [lit ''threw'', lit ''thrown'']), (lit ''thrust'', [lit ''thrust'']),
     (lit ''tread'', [lit ''trod'']), (lit ''unbend'', [lit ''unbended'', lit ''unbent'']),
     (lit ''underlie'', [lit ''underlay'', lit ''underlain'']),
     (lit ''undergo'', [lit ''underwent'', lit ''undergone'']),
     (lit ''understand'', [lit ''understood'']), (lit ''upset'', [lit ''upset'']),
     (lit ''wake'', [lit ''woke'', lit ''woken'']), (lit ''waylay'', [lit ''waylaid'']),
     (lit ''wear'', [lit ''wore'', lit ''worn'']),
     (lit ''weave'', [lit ''wove'', lit ''woven'']), (lit ''wed'', [lit ''wed'']),
     (lit ''weep'', [lit ''wept'']), (lit ''wet'', [lit ''wet'']), (lit ''win'', [lit ''won'']),
     (lit ''wind'', [lit ''wound'']), (lit ''withdraw'', [lit ''withdrew'', lit ''withdrawn'']),
     (lit ''withhold'', [lit ''withheld'']), (lit ''withstand'', [lit ''withstood'']),
     (lit ''wring'', [lit ''wrung'']), (lit ''write'', [lit ''wrote'', lit ''written'']),
     (lit ''wreak'', [lit ''wrought'', lit ''wrough''])]"

definition is_irregular :: "(rstr \<Rightarrow> rstr) \<Rightarrow> rstr \<Rightarrow> rstr \<Rightarrow> bool" where
  "is_irregular lower lemma_text form =
     (case map_of (rev irregular_verbs) (lower lemma_text) of
        Some forms \<Rightarrow> lower form \<in> set forms
      | None \<Rightarrow> False)"

section \<open>French\<close>

definition pron_nom :: "rstr list" where
  "pron_nom = map lit
     [''qui'', ''je'', ''tu'', ''il'', ''elle'', ''ils'', ''elles'', ''moi'', ''toi'', ''lui'',
     ''eux'']"

definition pron_acc :: "rstr list" where
  "pron_acc = map lit
     [''que'', ''quoi'', ''me'', ''te'', ''le'', ''la'', ''les'', ''lui'', ''leur'']"

definition french_pronoun_case :: "(rstr \<Rightarrow> rstr) \<Rightarrow> rstr \<Rightarrow> rstr" where
  "french_pronoun_case lower word =
     (let clean = trim (trim_matches (\<lambda>c. c = 39) (lower word))
      in if clean \<in> set pron_nom then lit ''Nom''
         else if clean \<in> set pron_acc then lit ''Acc''
         else [])"

definition apm_nouns :: "rstr list" where
  "apm_nouns = [
     lit ''amiral'', lit ''amiraux'', lit ''animal'', lit ''animaux'', lit ''annal'',
     lit ''annaux'', lit ''anormal'', lit ''anormaux'',
     [97, 110, 116, 105, 99, 108, 233, 114, 105, 99, 97, 108],
     [97, 110, 116, 105, 99, 108, 233, 114, 105, 99, 97, 117, 120], lit ''arsenal'',
     lit ''arsenaux'', lit ''bocal'', lit ''bocaux'', lit ''canal'', lit ''canaux'',
     lit ''cantal'', lit ''cantaux'', lit ''capital'', lit ''capitaux'', lit ''caporal'',
     lit ''caporaux'', lit ''cardinal'', lit ''cardinaux'', lit ''central'', lit ''centraux'',
     lit ''chenal'', lit ''chenaux'', lit ''cheval'', lit ''chevaux'',
     [99, 108, 233, 114, 105, 99, 97, 108], [99, 108, 233, 114, 105, 99, 97, 117, 120],
     [99, 111, 108, 108, 97, 116, 233, 114, 97, 108],
     [99, 111, 108, 108, 97, 116, 233, 114, 97, 117, 120], lit ''colonial'', lit ''coloniaux'',
     lit ''commensal'', lit ''commensaux'', lit ''communal'', lit ''communaux'',
     lit ''confessionnal'', lit ''confessionnaux'', lit ''cordial'', lit ''cordiaux'',
     lit ''corporal'', lit ''corporaux'', lit ''cristal'', lit ''cristaux'',
     [99, 233, 114, 233, 98, 114, 97, 108], [99, 233, 114, 233, 98, 114, 97, 117, 120],
     lit ''fanal'', lit ''fanaux'', lit ''frontal'', lit ''frontaux'',
     [102, 233, 100, 233, 114, 97, 108], [102, 233, 100, 233, 114, 97, 117, 120],
     [102, 233, 111, 100, 97, 108], [102, 233, 111, 100, 97, 117, 120],
     [103, 97, 114, 100, 233, 110, 97, 108], [103, 97, 114, 100, 233, 110, 97, 117, 120],
     [103, 233, 110, 233, 114, 97, 108], [103, 233, 110, 233, 114, 97, 117, 120],
     [104, 244, 112, 105, 116, 97, 108], [104, 244, 112, 105, 116, 97, 117, 120],
     [105, 100, 233, 97, 108], [105, 100, 233, 97, 117, 120], lit ''international'',
     lit ''internationaux'', lit ''journal'', lit ''journaux'',
     [108, 105, 98, 233, 114, 97, 108], [108, 105, 98, 233, 114, 97, 117, 120], lit ''local'',
     lit ''locaux'', lit ''madrigal'', lit ''madrigaux'', lit ''marsupial'', lit ''marsupiaux'',
     [109, 97, 114, 233, 99, 104, 97, 108], [109, 97, 114, 233, 99, 104, 97, 117, 120],
     lit ''mal'', lit ''maux'', [109, 105, 110, 233, 114, 97, 108],
     [109, 105, 110, 233, 114, 97, 117, 120], lit ''moral'', lit ''moraux'',
     [109, 233, 114, 105, 100, 105, 111, 110, 97, 108],
     [109, 233, 114, 105, 100, 105, 111, 110, 97, 117, 120], [109, 233, 116, 97, 108],
     [109, 233, 116, 97, 117, 120], lit ''nasal'', lit ''nasaux'', lit ''national'',
     lit ''nationaux'', lit ''normal'', lit ''normaux'', [110, 117, 109, 233, 114, 97, 108],
     [110, 117, 109, 233, 114, 97, 117, 120], lit ''occidental'', lit ''occidentaux'',
     lit ''occipital'', lit ''occipitaux'', lit ''oral'', lit ''oraux'', lit ''ordinal'',
     lit ''ordinaux'', lit ''oriental'', lit ''orientaux'', lit ''original'', lit ''originaux'',
     [112, 105, 233, 100, 101, 115, 116, 97, 108],
     [112, 105, 233, 100, 101, 115, 116, 97, 117, 120], lit ''principal'', lit ''principaux'',
     lit ''provincial'', lit ''provinciaux'', lit ''quintal'', lit ''quintaux'', lit ''radical'',
     lit ''radicaux'', lit ''rival'', lit ''rivaux'', lit ''rural'', lit ''ruraux'',
     [114, 233, 103, 105, 111, 110, 97, 108], [114, 233, 103, 105, 111, 110, 97, 117, 120],
     lit ''sentimental'', lit ''sentimentaux'', lit ''signal'', lit ''signaux'', lit ''social'',
     lit ''sociaux'', [115, 233, 110, 233, 99, 104, 97, 108],
     [115, 233, 110, 233, 99, 104, 97, 117, 120], lit ''temporal'', lit ''temporaux'',
     lit ''tergal'', lit ''tergaux'', lit ''total'', lit ''totaux'', lit ''tribunal'',
     lit ''tribunaux'', lit ''urinal'', lit ''urinaux'', lit ''vassal'', lit ''vassaux'',
     lit ''val'', lit ''vaux'', [118, 233, 103, 233, 116, 97, 108],
     [118, 233, 103, 233, 116, 97, 117, 120], [118, 233, 114, 111, 110, 97, 108],
     [118, 233, 114, 111, 110, 97, 108, 115], [233, 100, 105, 116, 111, 114, 105, 97, 108],
     [233, 100, 105, 116, 111, 114, 105, 97, 117, 120], [233, 103, 97, 108],
     [233, 103, 97, 117, 120], [233, 116, 97, 108], [233, 116, 97, 117]]"

definition is_apm_noun :: "(rstr \<Rightarrow> rstr) \<Rightarrow> rstr \<Rightarrow> bool" where
  "is_apm_noun lower word \<longleftrightarrow> lower (trim word) \<in> set apm_nouns"

section \<open>Japanese\<close>

text \<open>
  The chain of tests of \<open>japanese_verbform\<close> as a table: every row is the conjunction that is tested,
  the part of speech and the lemma it returns; the first row that holds decides.
\<close>

datatype JaTest = TextHas rstr | TargetHas rstr | TextIs rstr | TargetIn "rstr list" | UposIs rstr

record JaOverride =
  jo_pos :: rstr
  jo_lemma :: rstr

definition ja_rules_first :: "(JaTest list \<times> rstr \<times> rstr) list" where
  "ja_rules_first = [
     ([TextHas [12385, 12419]], lit ''sconj'', [12400]),
     ([TextHas [12394, 12365, 12419]], lit ''sconj'', [12394, 12365, 12419]),
     ([TextHas [12376, 12419]], lit ''sconj'', [12385, 12419]),
     ([TextHas [12428, 12427]], lit ''aux'', [12425, 12428, 12427]),
     ([TextHas [12376, 12419, 12358]], lit ''aux'', [12385, 12419, 12358]),
     ([TextHas [12424, 12358]], lit ''aux'', [12362, 12358]),
     ([TextHas [12384, 12425]], lit ''aux'', [12383, 12425]),
     ([TargetHas [12384]], lit ''aux'', [12383]),
     ([TargetHas [28858, 12427], TextIs [12373]], lit ''part'', [28858, 12427]),
     ([TargetHas [28961, 12356]], lit ''aux'', [12394, 12356]),
     ([TargetHas [12379, 12427]], lit ''aux'', [12373, 12379, 12427]),
     ([TextHas [25774, 12427]], lit ''verb'', [25774, 12427]),
     ([TextHas [36028, 12427]], lit ''verb'', [36028, 12427]),
     ([TextHas [28151, 12380]], lit ''verb'', [28151, 12380, 12427]),
     ([TextHas [37347, 12427]], lit ''verb'', [37347, 12427]),
     ([TextHas [36895, 12356], UposIs (lit ''adj'')], lit ''adj'', [36895, 12356]),
     ([TextHas [27835, 12414]], lit ''verb'', [27835, 12414, 12427]),
     ([TextHas [21050, 12377]], lit ''verb'', [21050, 12377]),
     ([TextHas [38477, 12426]], lit ''verb'', [38477, 12426, 12427]),
     ([TextHas [38477]], lit ''verb'', [38477, 12427]),
     ([TextHas [36617, 12379]], lit ''verb'', [36617, 12379, 12427]),
     ([TextHas [24112]], lit ''verb'', [24112, 12427])]"

definition ja_rules_second :: "(JaTest list \<times> rstr \<times> rstr) list" where
  "ja_rules_second = [
     ([TextHas [12399, 12356]], lit ''intj'', [12399, 12356]),
     ([TextHas [12358, 12435]], lit ''intj'', [12358, 12435]),
     ([TextHas [12362, 12387]], lit ''intj'', [12362, 12387]),
     ([TextHas [12411, 12425]], lit ''intj'', [12411, 12425]),
     ([TextHas [12516, 12483, 12507, 12540]], lit ''intj'', [12516, 12483, 12507, 12540]),
     ([TextHas [12383, 12384, 12356, 12414]], lit ''intj'', [12383, 12384, 12356, 12414]),
     ([TextHas [12354, 12383, 12375]], lit ''pron'', [12354, 12383, 12375]),
     ([TextHas [33296, 12417]], lit ''verb'', [33296, 12417, 12427]),
     ([TextHas [12496, 12484]], lit ''noun'', [12496, 12484]),
     ([TextHas [12502, 12521, 12471]], lit ''noun'', [12502, 12521, 12471]),
     ([TextHas [24341, 12365, 20986, 12375]], lit ''noun'', [24341, 12365, 20986, 12375]),
     ([TextHas [19979, 12373, 12356]], lit ''noun'', [19979, 12373, 12356]),
     ([TargetIn [[12471, 12515, 12515, 12511, 12540], [29289, 12467, 12515, 12511]]], lit ''noun'', [12463, 12471, 12515, 12511]),
     ([TextHas [12510, 12520, 12493, 12540, 12474]], lit ''noun'', [12510, 12520, 12493, 12540, 12474]),
     ([TextHas [12510, 12520]], lit ''noun'', [12510, 12520]),
     ([TextHas [12481, 12483, 12503, 12473]], lit ''noun'', [12481, 12483, 12503, 12473]),
     ([TextHas [12468, 12525, 12531, 12387]], lit ''noun'', [12468, 12525, 12531, 12387]),
     ([TextHas [12514, 12481, 12540, 12531, 12387]], lit ''noun'', [12514, 12481, 12540, 12531, 12387]),
     ([TextIs [20154, 12387]], lit ''noun'', [20154]),
     ([TextIs [25531, 12367]], lit ''part'', [12363, 12356]),
     ([TextHas [36963], UposIs (lit ''noun'')], lit ''verb'', [36963, 12427]),
     ([TextHas [27515]], lit ''verb'', [27515, 12396])]"

definition ja_rules_third :: "(JaTest list \<times> rstr \<times> rstr) list" where
  "ja_rules_third = [
     ([TextHas [31435]], lit ''verb'', [31435, 12388]),
     ([TextHas [24341]], lit ''verb'', [24341, 12367]),
     ([TextHas [20986]], lit ''verb'', [20986, 12377]),
     ([TextHas [39154]], lit ''verb'', [39154, 12416]),
     ([TextHas [21628]], lit ''verb'', [21628, 12406]),
     ([TextHas [33073]], lit ''verb'', [33073, 12368]),
     ([TextIs [12394], UposIs (lit ''part'')], lit ''aux'', [12394]),
     ([TextIs [21628, 12435]], lit ''verb'', [21628, 12406]),
     ([TextIs [12394], UposIs (lit ''aux'')], lit ''aux'', [12394]),
     ([TextIs [12384, 12426]], lit ''aux'', [12383, 12426]),
     ([TextIs [12383, 12426]], lit ''aux'', [12383, 12426]),
     ([TextIs [12383, 12425]], lit ''sconj'', [12383, 12425]),
     ([TextIs [12383, 12387]], lit ''sconj'', [12383, 12387]),
     ([TextIs [12394, 12373, 12356], TargetIn [[28858, 12373, 12427]]], lit ''aux'', [28858, 12373, 12356]),
     ([TargetIn [[12385, 12419]]], lit ''sconj'', [12385, 12419]),
     ([TargetIn [[12394, 12356]]], lit ''aux'', [12394, 12356]),
     ([TextIs [12394], UposIs (lit ''part'')], lit ''aux'', [12394]),
     ([TextIs [33073], UposIs (lit ''noun'')], lit ''verb'', [33073]),
     ([TextIs [12424, 12358], UposIs (lit ''aux'')], lit ''aux'', [12424, 12358]),
     ([TextIs [12429], UposIs (lit ''aux''), TargetIn [[28858, 12427]]], lit ''aux'', [12429]),
     ([TextIs [12391]], lit ''sconj'', [12391])]"

definition ja_rules :: "(JaTest list \<times> rstr \<times> rstr) list" where
  "ja_rules = ja_rules_first @ ja_rules_second @ ja_rules_third"

fun ja_test :: "rstr \<Rightarrow> rstr \<Rightarrow> rstr \<Rightarrow> JaTest \<Rightarrow> bool" where
  "ja_test upos target word (TextHas s) = contains word s"
| "ja_test upos target word (TargetHas s) = contains target s"
| "ja_test upos target word (TextIs s) = (word = s)"
| "ja_test upos target word (TargetIn ss) = (target \<in> set ss)"
| "ja_test upos target word (UposIs s) = (upos = s)"

definition ja_first :: "(JaTest list \<times> rstr \<times> rstr) list \<Rightarrow> rstr \<Rightarrow> rstr \<Rightarrow> rstr \<Rightarrow> JaOverride option" where
  "ja_first rules upos target word =
     map_option (\<lambda>(tests, pos, lemma_text). \<lparr>jo_pos = pos, jo_lemma = lemma_text\<rparr>)
       (find (\<lambda>(tests, pos, lemma_text). list_all (ja_test upos target word) tests) rules)"

definition japanese_verbform :: "rstr \<Rightarrow> rstr \<Rightarrow> rstr \<Rightarrow> JaOverride option" where
  "japanese_verbform upos target word = ja_first ja_rules upos target word"

end
