(* ===== verification/Ud_Mor.thy ===== *)
theory Ud_Mor
  imports Ud_Lang
begin

text \<open>
  From one word of a Universal Dependencies analysis to one \<open>%mor\<close> item (\<open>nlp/types.rs\<close>,
  \<open>nlp/validation.rs\<close>, \<open>nlp/mor_word.rs\<close>, \<open>nlp/features.rs\<close>, \<open>nlp/mapping/context.rs\<close>). The items
  themselves belong to the external CHAT crates; the records \<open>MorWord\<close> and \<open>Mor\<close> hold what the code
  puts into them. The Unicode case conversions and the test for letters and digits form the record
  \<open>Unicode\<close>. The identifier of an empty node, an f64, is a rational.
\<close>

section \<open>The analysis of a word\<close>

datatype UniversalPos =
    UpAdj | UpAdp | UpAdv | UpAux | UpCconj | UpDet | UpPron | UpNoun | UpPropn | UpNum | UpPart
  | UpVerb | UpSconj | UpPunct | UpSym | UpIntj | UpX

datatype UdId = UdSingle nat | UdRange nat nat | UdDecimal rat

datatype 'a UdPunctable = UdValue 'a | UdPunctText rstr

record UdWord =
  ud_id :: UdId
  ud_text :: rstr
  ud_lemma :: rstr
  ud_upos :: "UniversalPos UdPunctable"
  ud_xpos :: "rstr option"
  ud_feats :: "rstr option"
  ud_head :: nat
  ud_deprel :: rstr
  ud_deps :: "rstr option"
  ud_misc :: "rstr option"

record UdSentence =
  us_words :: "UdWord list"

record UdResponse =
  ur_sentences :: "UdSentence list"

record Unicode =
  un_lower :: "rstr \<Rightarrow> rstr"
  un_upper :: "rstr \<Rightarrow> rstr"
  un_alphanumeric :: "rchar \<Rightarrow> bool"

section \<open>Items of the \<open>%mor\<close> tier\<close>

record MorWord =
  mw_pos :: rstr
  mw_lemma :: rstr
  mw_features :: "rstr list"

record Mor =
  mor_main :: MorWord
  mor_post_clitics :: "MorWord list"

definition mor_of :: "MorWord \<Rightarrow> Mor" where
  "mor_of w = \<lparr>mor_main = w, mor_post_clitics = []\<rparr>"

definition with_post_clitic :: "Mor \<Rightarrow> MorWord \<Rightarrow> Mor" where
  "with_post_clitic m w = m\<lparr>mor_post_clitics := mor_post_clitics m @ [w]\<rparr>"

definition sanitize_mor_text :: "rstr \<Rightarrow> rstr" where
  "sanitize_mor_text s =
     filter (\<lambda>c. \<not> is_whitespace c)
       (map (\<lambda>c. if c \<in> set (lit ''|#-&$~'') then 95 else c) s)"

section \<open>Language codes\<close>

definition lang2 :: "rstr \<Rightarrow> rstr" where
  "lang2 code =
     (if code = lit ''eng'' then lit ''en''
      else if code = lit ''fra'' \<or> code = lit ''fre'' then lit ''fr''
      else if code = lit ''jpn'' then lit ''ja''
      else if code = lit ''deu'' \<or> code = lit ''ger'' then lit ''de''
      else if code = lit ''ita'' then lit ''it''
      else if code = lit ''spa'' then lit ''es''
      else if code = lit ''por'' then lit ''pt''
      else if code = lit ''zho'' \<or> code = lit ''cmn'' \<or> code = lit ''chi'' then lit ''zh''
      else if code = lit ''heb'' then lit ''he''
      else if code = lit ''ara'' then lit ''ar''
      else if code = lit ''nld'' \<or> code = lit ''dut'' then lit ''nl''
      else if code = lit ''cat'' then lit ''ca''
      else code)"

section \<open>Features\<close>

definition parse_pair :: "(rstr, rstr) hmap \<Rightarrow> rstr \<Rightarrow> (rstr, rstr) hmap" where
  "parse_pair m pair =
     (case split_char 61 pair of
        key # value # parts \<Rightarrow> hm_insert key value m
      | _ \<Rightarrow> m)"

definition parse_feats :: "rstr option \<Rightarrow> (rstr, rstr) hmap" where
  "parse_feats feats =
     (case feats of None \<Rightarrow> [] | Some f \<Rightarrow> foldl parse_pair [] (split_char 124 f))"

definition push_feature :: "rstr \<Rightarrow> rstr list \<Rightarrow> rstr list" where
  "push_feature value fs = (if value \<noteq> [] then fs @ [value] else fs)"

definition push_feat :: "(rstr, rstr) hmap \<Rightarrow> rstr \<Rightarrow> rstr list \<Rightarrow> rstr list" where
  "push_feat feats key fs = (case hm_get feats key of Some val \<Rightarrow> push_feature val fs | None \<Rightarrow> fs)"

definition feat_or :: "(rstr, rstr) hmap \<Rightarrow> string \<Rightarrow> rstr \<Rightarrow> rstr" where
  "feat_or feats key fallback = (case hm_get feats (lit key) of Some v \<Rightarrow> v | None \<Rightarrow> fallback)"

definition person_str :: "rstr \<Rightarrow> rstr" where
  "person_str raw = (if raw = lit ''0'' then lit ''4'' else raw)"

definition first_char :: "rchar \<Rightarrow> rstr \<Rightarrow> rchar" where
  "first_char fallback s = (case s of [] \<Rightarrow> fallback | c # cs \<Rightarrow> c)"

definition ja_ro :: rstr where "ja_ro = [12429]"
definition ja_tari :: rstr where "ja_tari = [12383, 12426]"

definition verb_features ::
  "Unicode \<Rightarrow> rstr \<Rightarrow> (rstr, rstr) hmap \<Rightarrow> rstr \<Rightarrow> UdWord \<Rightarrow> rstr list" where
  "verb_features un lang feats effective_pos ud =
     (if contains effective_pos (lit ''sconj'') then []
      else if ud_text ud = ja_ro then []
      else if \<not> contains effective_pos (lit ''verb'') \<and> \<not> contains effective_pos (lit ''aux'')
      then (if ud_text ud = ja_tari then [lit ''Inf'', lit ''S''] else [])
      else
        (let s = push_feature (feat_or feats ''VerbForm'' (lit ''Inf'')) [];
             s = push_feat feats (lit ''Aspect'') s;
             s = push_feat feats (lit ''Mood'') s;
             s = push_feat feats (lit ''Tense'') s;
             s = push_feat feats (lit ''Polarity'') s;
             s = push_feat feats (lit ''Polite'') s;
             s = (case hm_get feats (lit ''HebBinyan'') of Some v \<Rightarrow> push_feature (un_lower un v) s | None \<Rightarrow> s);
             s = (case hm_get feats (lit ''HebExistential'') of
                    Some v \<Rightarrow> push_feature (un_lower un v) s | None \<Rightarrow> s);
             number_raw = feat_or feats ''Number'' (lit ''Sing'');
             num_person = first_char 83 number_raw # person_str (feat_or feats ''Person'' []);
             s = push_feature num_person s
         in if lang2 lang = lit ''en'' \<and> hm_get feats (lit ''Tense'') = Some (lit ''Past'') \<and>
               is_irregular (un_lower un) (ud_lemma ud) (ud_text ud)
            then push_feature (lit ''irr'') s else s))"

definition pron_features :: "Unicode \<Rightarrow> rstr \<Rightarrow> (rstr, rstr) hmap \<Rightarrow> UdWord \<Rightarrow> rstr list" where
  "pron_features un lang feats ud =
     (let case_text = (if lang2 lang = lit ''fr'' then french_pronoun_case (un_lower un) (ud_text ud)
                       else feat_or feats ''Case'' []);
          number = (case hm_get feats (lit ''Number'') of
                      Some n \<Rightarrow> if starts_with n (lit ''P'') then lit ''P'' else lit ''S''
                    | None \<Rightarrow> lit ''S'');
          parts = [feat_or feats ''PronType'' (lit ''Int'')]
            @ (if case_text \<noteq> [] then [case_text] else [])
            @ (if hm_get feats (lit ''Reflex'') = Some (lit ''Yes'') then [lit ''reflx''] else [])
            @ (if ud_text ud \<noteq> lit ''that'' \<and> ud_text ud \<noteq> lit ''who''
               then [number @ person_str (feat_or feats ''Person'' (lit ''1''))] else [])
      in foldl (\<lambda>s part. push_feature part s) [] (filter (\<lambda>s. s \<noteq> []) parts))"

definition det_features :: "rstr \<Rightarrow> (rstr, rstr) hmap \<Rightarrow> rstr list" where
  "det_features lang feats =
     (let number = feat_or feats ''Number'' [];
          gender_default = (if lang2 lang = lit ''fr''
                            then (if number = lit ''Plur'' then [] else lit ''Masc'') else []);
          gender = feat_or feats ''Gender'' gender_default;
          s = (if gender \<noteq> [] \<and> gender \<noteq> lit ''Com,Neut'' \<and> gender \<noteq> lit ''Com''
               then push_feature gender [] else []);
          s = push_feature (feat_or feats ''Definite'' (lit ''Def'')) s;
          s = push_feat feats (lit ''PronType'') s;
          s = push_feature number s;
          np = (case hm_get feats (lit ''Number[psor]'') of Some (c # cs) \<Rightarrow> [c] | _ \<Rightarrow> []);
          pp = feat_or feats ''Person[psor]'' []
      in push_feature (np @ pp) s)"

definition adj_features :: "(rstr, rstr) hmap \<Rightarrow> rstr list" where
  "adj_features feats =
     (let degree = feat_or feats ''Degree'' (lit ''Pos'');
          s = (if degree \<noteq> lit ''Pos'' then push_feature degree [] else []);
          s = (case hm_get feats (lit ''Case'') of Some c \<Rightarrow> push_feature c s | None \<Rightarrow> s);
          number = (case hm_get feats (lit ''Number'') of Some (c # cs) \<Rightarrow> c | _ \<Rightarrow> 83)
      in push_feature (number # person_str (feat_or feats ''Person'' (lit ''1''))) s)"

definition noun_features :: "Unicode \<Rightarrow> rstr \<Rightarrow> (rstr, rstr) hmap \<Rightarrow> UdWord \<Rightarrow> rstr list" where
  "noun_features un lang feats ud =
     (let gender = feat_or feats ''Gender'' (lit ''Com,Neut'');
          s = (if gender \<noteq> lit ''Com,Neut'' \<and> gender \<noteq> lit ''Com'' then push_feature gender [] else []);
          number = feat_or feats ''Number'' (lit ''Sing'');
          s = (if number \<noteq> lit ''Sing'' then push_feature number s else s);
          case_text = feat_or feats ''Case'' (if ud_deprel ud = lit ''obj'' then lit ''Acc'' else []);
          s = push_feature case_text s;
          s = push_feat feats (lit ''PronType'') s;
          s = (if lang2 lang = lit ''en'' \<and> ends_with (ud_text ud) (lit ''ing'')
               then push_feature (lit ''Ger'') s else s)
      in if lang2 lang = lit ''fr'' \<and> number = lit ''Plur'' \<and> is_apm_noun (un_lower un) (ud_text ud)
         then push_feature (lit ''Apm'') s else s)"

fun upos_to_name :: "UniversalPos UdPunctable \<Rightarrow> rstr" where
  "upos_to_name (UdValue UpNoun) = lit ''noun''"
| "upos_to_name (UdValue UpPropn) = lit ''propn''"
| "upos_to_name (UdValue UpVerb) = lit ''verb''"
| "upos_to_name (UdValue UpAux) = lit ''aux''"
| "upos_to_name (UdValue UpAdj) = lit ''adj''"
| "upos_to_name (UdValue UpAdv) = lit ''adv''"
| "upos_to_name (UdValue UpDet) = lit ''det''"
| "upos_to_name (UdValue UpAdp) = lit ''adp''"
| "upos_to_name (UdValue UpNum) = lit ''num''"
| "upos_to_name (UdValue UpPart) = lit ''part''"
| "upos_to_name (UdValue UpIntj) = lit ''intj''"
| "upos_to_name (UdValue UpPron) = lit ''pron''"
| "upos_to_name (UdValue UpCconj) = lit ''cconj''"
| "upos_to_name (UdValue UpSconj) = lit ''sconj''"
| "upos_to_name (UdValue UpSym) = lit ''x''"
| "upos_to_name (UdValue UpPunct) = lit ''punct''"
| "upos_to_name (UdValue UpX) = lit ''x''"
| "upos_to_name (UdPunctText s) = lit ''punct''"

fun compute_features ::
  "Unicode \<Rightarrow> rstr \<Rightarrow> UniversalPos UdPunctable \<Rightarrow> (rstr, rstr) hmap \<Rightarrow> rstr \<Rightarrow> UdWord \<Rightarrow> rstr list" where
  "compute_features un lang (UdValue UpVerb) feats pos ud = verb_features un lang feats pos ud"
| "compute_features un lang (UdValue UpAux) feats pos ud = verb_features un lang feats pos ud"
| "compute_features un lang (UdValue UpPron) feats pos ud = pron_features un lang feats ud"
| "compute_features un lang (UdValue UpDet) feats pos ud = det_features lang feats"
| "compute_features un lang (UdValue UpAdj) feats pos ud = adj_features feats"
| "compute_features un lang (UdValue UpNoun) feats pos ud = noun_features un lang feats ud"
| "compute_features un lang (UdValue UpPropn) feats pos ud = noun_features un lang feats ud"
| "compute_features un lang upos feats pos ud = []"

section \<open>Lemmas\<close>

text \<open>
  A slice of a string from its second byte, which panics when that is inside a character, and the
  removal of single characters.
\<close>

definition byte_tail :: "rstr \<Rightarrow> rstr option" where
  "byte_tail s = (case s of [] \<Rightarrow> None | c # cs \<Rightarrow> if utf8_len c = 1 then Some cs else None)"

definition strip_chars :: "rchar list \<Rightarrow> rstr \<Rightarrow> rstr" where
  "strip_chars cs s = filter (\<lambda>c. c \<notin> set cs) s"

text \<open>The part of \<open>clean_lemma\<close> before the test for the omission marker.\<close>

definition lemma_or_text :: "rstr \<Rightarrow> rstr \<Rightarrow> rstr" where
  "lemma_or_text target word =
     (let t = (if trim target = [12301] \<or> trim target = [12300] then word else target);
          t = (if t = [34] then word else t);
          t = (if t = [] then word else t)
      in strip_chars [12301, 12300] t)"

text \<open>The part after it.\<close>

definition strip_dashes :: "rstr \<Rightarrow> rstr" where
  "strip_dashes target =
     (let t = (if starts_with target (lit ''-'') \<and> str_len target > 1 then tl target else target)
      in if ends_with t (lit ''-'') \<and> str_len t > 1 then butlast t else t)"

definition strip_at :: "Unicode \<Rightarrow> rstr \<Rightarrow> rstr" where
  "strip_at un s =
     (if length s \<ge> 2 \<and> s ! (length s - 2) = 64 \<and> (un_alphanumeric un (last s) \<or> last s = 95)
      then take (length s - 2) s else s)"

definition strip_marks :: "Unicode \<Rightarrow> rstr \<Rightarrow> rstr \<Rightarrow> rstr" where
  "strip_marks un target word =
     (let t = (if contains target (lit ''<SOS>'') then word else target);
          t = strip_chars (lit ''$.'') t;
          t = strip_dashes t;
          t = replace t (lit ''--'') (lit ''-'');
          t = replace t (lit ''--'') (lit ''-'');
          t = replace t (lit ''<unk>'') [];
          t = replace t (lit ''<SOS>'') [];
          t = replace t (lit ''/100'') [];
          t = replace t (lit ''/r'') [];
          t = strip_chars [44, 39, 126, 40, 41] t;
          t = (if 124 \<in> set t then trim (takeWhile (\<lambda>c. c \<noteq> 124) t) else t);
          t = strip_chars (lit ''_+'') t;
          t = (if t = lit ''door zogen'' then word else t);
          t = map (\<lambda>c. if c = 45 then 8211 else c) t;
          t = (if 8220 \<in> set t then word else t);
          t = strip_at un t
      in trim t)"

definition clean_lemma :: "Unicode \<Rightarrow> rstr \<Rightarrow> rstr \<Rightarrow> (rstr \<times> bool) option" where
  "clean_lemma un lemma_text word =
     (let target = lemma_or_text lemma_text word;
          unknown = (starts_with target (lit ''0'') \<and> str_len target > 1)
      in case (if unknown \<and> str_len word > 1 then byte_tail word else Some target) of
           None \<Rightarrow> None
         | Some target \<Rightarrow>
             (let t = strip_marks un target word;
                  t = (if t = [] \<and> word \<noteq> [] then word else t)
              in Some (if t = [] then lit ''x'' else t, unknown)))"

section \<open>One word\<close>

datatype HeadProblem =
    HeadNotInMap nat rstr nat   \<comment> \<open>chunk, relation and head of a word whose head has no chunk\<close>
  | HeadOutOfTier nat nat       \<comment> \<open>chunk and head of a relation that points past the tier\<close>

datatype RootProblem = NoHeadZero | NoRoot | MultipleRoots "nat list"

text \<open>The texts of the errors are represented by the data they are written from.\<close>

datatype MappingError =
    EmptyStem rstr rstr "UniversalPos UdPunctable"
  | CircularDependency nat
  | InvalidHeadReference HeadProblem
  | ChunkCountMismatch nat nat
  | InvalidRoot RootProblem
  | InvalidDeprel nat rstr rstr

text \<open>A computation that may panic (\<open>None\<close>) or fail; \<open>and_then\<close> is the question mark operator.\<close>

type_synonym 'a mapped = "(MappingError + 'a) option"

definition and_then :: "'a mapped \<Rightarrow> ('a \<Rightarrow> 'b mapped) \<Rightarrow> 'b mapped" where
  "and_then r f = (case r of None \<Rightarrow> None | Some (Inl e) \<Rightarrow> Some (Inl e) | Some (Inr x) \<Rightarrow> f x)"

definition map_actual_punct :: "UdWord \<Rightarrow> Mor" where
  "map_actual_punct ud =
     (if ud_lemma ud = lit '','' \<or> ud_lemma ud = lit ''$,''
      then mor_of \<lparr>mw_pos = lit ''cm'', mw_lemma = lit ''cm'', mw_features = []\<rparr>
      else mor_of \<lparr>mw_pos = lit ''punct'', mw_lemma = ud_lemma ud, mw_features = []\<rparr>)"

definition ja_comma :: rstr where "ja_comma = [12289]"

text \<open>The part of speech and the lemma after the Japanese rules.\<close>

definition effective_word :: "rstr \<Rightarrow> UdWord \<Rightarrow> rstr \<Rightarrow> rstr \<times> rstr" where
  "effective_word lang ud cleaned =
     (let pos = upos_to_name (ud_upos ud);
          (pos, cleaned) =
            (if lang2 lang = lit ''ja''
             then (case japanese_verbform pos cleaned (ud_text ud) of
                     Some ovr \<Rightarrow> (jo_pos ovr, replace (jo_lemma ovr) (lit '','') (lit ''cm''))
                   | None \<Rightarrow> (pos, cleaned))
             else (pos, cleaned));
          pos =
            (if lang2 lang = lit ''ja'' \<and>
                (ud_upos ud = UdValue UpPunct \<or> ud_lemma ud = ja_comma \<or> ud_lemma ud = lit '','')
             then lit ''cm'' else pos)
      in (pos, cleaned))"

definition map_ud_word_to_mor :: "Unicode \<Rightarrow> rstr \<Rightarrow> UdWord \<Rightarrow> Mor mapped" where
  "map_ud_word_to_mor un lang ud =
     (if ud_lemma ud \<in> set (map lit [''.'', ''!'', ''?'', '','', ''$,'']) then Some (Inr (map_actual_punct ud))
      else
        (case clean_lemma un (ud_lemma ud) (ud_text ud) of
           None \<Rightarrow> None
         | Some (cleaned, is_unknown) \<Rightarrow>
             (let (pos, cleaned) = effective_word lang ud cleaned;
                  features = compute_features un lang (ud_upos ud) (parse_feats (ud_feats ud)) pos ud;
                  sanitized = sanitize_mor_text cleaned
              in if sanitized = [] then Some (Inl (EmptyStem (ud_text ud) (ud_lemma ud) (ud_upos ud)))
                 else Some (Inr (mor_of \<lparr>mw_pos = pos, mw_lemma = sanitized, mw_features = features\<rparr>)))))"

definition is_clitic :: "rstr \<Rightarrow> rstr \<Rightarrow> bool" where
  "is_clitic lang word =
     (if lang2 lang = lit ''en'' then word \<in> {[110, 39, 116], [39, 115], [39, 118, 101], [39, 108, 108]}
      else if lang2 lang = lit ''fr'' then
        ends_with word [39] \<or> word = lit ''-ce'' \<or> word = [45, 234, 116, 114, 101] \<or> word = [45, 108, 224]
      else if lang2 lang = lit ''it'' then ends_with word [39]
      else False)"

end
