(* ===== verification/Ud_Map.thy ===== *)
theory Ud_Map
  imports Ud_Mor
begin

text \<open>
  From the analysis of a sentence to the \<open>%mor\<close> and \<open>%gra\<close> tiers (\<open>nlp/mapping\<close>): one item for every
  token, a chunk index for every word of the analysis, one relation for every word and one for the
  terminator, and the validation of the graph. \<open>count_chunks\<close> of the external crate is an argument.
  An outer \<open>None\<close> is a panic. \<open>usize\<close> subtraction wraps, as in a build without overflow checks.
\<close>

section \<open>Relations\<close>

record GrammaticalRelation =
  gr_index :: nat
  gr_head :: nat
  gr_relation :: rstr

definition is_ascii_uppercase :: "rchar \<Rightarrow> bool" where
  "is_ascii_uppercase c \<longleftrightarrow> 65 \<le> c \<and> c \<le> 90"

definition valid_relation :: "rstr \<Rightarrow> bool" where
  "valid_relation r \<longleftrightarrow>
     r \<noteq> [] \<and> is_ascii_uppercase (hd r) \<and>
     list_all (\<lambda>c. is_ascii_uppercase c \<or> is_ascii_digit c \<or> c = 45) r"

definition map_relation ::
  "Unicode \<Rightarrow> UdWord \<Rightarrow> nat \<Rightarrow> (nat, nat) hmap \<Rightarrow> MappingError + GrammaticalRelation" where
  "map_relation un ud chat_idx idx_map =
     (case (if ud_head ud = 0 then Some 0 else hm_get idx_map (ud_head ud)) of
        None \<Rightarrow> Inl (InvalidHeadReference (HeadNotInMap chat_idx (ud_deprel ud) (ud_head ud)))
      | Some head_chat_idx \<Rightarrow>
          (let relation = map (\<lambda>c. if c = 58 then 45 else c) (un_upper un (ud_deprel ud))
           in if valid_relation relation
              then Inr \<lparr>gr_index = chat_idx, gr_head = head_chat_idx, gr_relation = relation\<rparr>
              else Inl (InvalidDeprel chat_idx (ud_deprel ud) relation)))"

section \<open>Multi-word tokens\<close>

definition main_component :: "rstr \<Rightarrow> UdWord list \<Rightarrow> nat" where
  "main_component lang components =
     (let k = length (takeWhile (\<lambda>c. is_clitic lang (ud_text c)) components)
      in if k < length components then k else 0)"

fun add_clitics :: "Unicode \<Rightarrow> rstr \<Rightarrow> Mor \<Rightarrow> UdWord list \<Rightarrow> Mor mapped" where
  "add_clitics un lang mor [] = Some (Inr mor)"
| "add_clitics un lang mor (c # cs) =
     and_then (map_ud_word_to_mor un lang c)
       (\<lambda>m. add_clitics un lang (with_post_clitic mor (mor_main m)) cs)"

definition assemble_mors :: "Unicode \<Rightarrow> rstr \<Rightarrow> UdWord list \<Rightarrow> Mor mapped" where
  "assemble_mors un lang components =
     (if components = []
      then Some (Inr (mor_of \<lparr>mw_pos = lit ''?'', mw_lemma = [], mw_features = []\<rparr>))
      else
        (let main_idx = main_component lang components
         in and_then (map_ud_word_to_mor un lang (components ! main_idx))
              (\<lambda>mor. add_clitics un lang mor (take main_idx components @ drop (Suc main_idx) components))))"

section \<open>Validation\<close>

text \<open>
  One walk along the heads: \<open>Inl\<close> the word at which a cycle closes, or \<open>Inr\<close> the words walked over,
  which are all safe.
\<close>

function follow_heads ::
  "GrammaticalRelation list \<Rightarrow> nat list \<Rightarrow> nat list \<Rightarrow> nat \<Rightarrow> nat + nat list" where
  "follow_heads gras safe path current =
     (if current \<in> set safe then Inr path
      else if current \<in> set path then Inl current
      else
        (case find (\<lambda>r. gr_index r = current) gras of
           Some r \<Rightarrow>
             (if gr_head r = 0 \<or> gr_head r = current then Inr (current # path)
              else follow_heads gras safe (current # path) (gr_head r))
         | None \<Rightarrow> Inr (current # path)))"
  by pat_completeness auto

termination
proof (relation "measure (\<lambda>(gras, safe, path, current). card (insert current (gr_head ` set gras) - set path))")
  fix gras safe path current and r :: GrammaticalRelation
  assume h: "current \<notin> set path" "find (\<lambda>r. gr_index r = current) gras = Some r"
  then have "gr_head r \<in> gr_head ` set gras" by (auto simp: find_Some_iff)
  then have "insert (gr_head r) (gr_head ` set gras) - set (current # path) \<subset>
      insert current (gr_head ` set gras) - set path"
    using h(1) by auto
  then show "((gras, safe, current # path, gr_head r), gras, safe, path, current) \<in>
      measure (\<lambda>(gras, safe, path, current). card (insert current (gr_head ` set gras) - set path))"
    by (simp add: psubset_card_mono)
qed simp

declare follow_heads.simps [simp del]

fun cycle_from :: "GrammaticalRelation list \<Rightarrow> nat list \<Rightarrow> GrammaticalRelation list \<Rightarrow> nat option" where
  "cycle_from gras safe [] = None"
| "cycle_from gras safe (rel # rels) =
     (if gr_index rel \<in> set safe then cycle_from gras safe rels
      else (case follow_heads gras safe [] (gr_index rel) of
              Inl w \<Rightarrow> Some w
            | Inr path \<Rightarrow> cycle_from gras (path @ safe) rels))"

definition has_any_cycle_generated :: "GrammaticalRelation list \<Rightarrow> nat option" where
  "has_any_cycle_generated gras = cycle_from gras [] gras"

definition validate_generated_gra :: "GrammaticalRelation list \<Rightarrow> MappingError option" where
  "validate_generated_gra gras =
     (if gras = [] then None
      else
        (let roots = map gr_index (filter (\<lambda>r. gr_head r = 0 \<or> gr_head r = gr_index r) gras);
             non_terminator_roots = filter (\<lambda>idx. idx \<noteq> length gras) roots
         in if non_terminator_roots = [] then Some (InvalidRoot NoRoot)
            else if length non_terminator_roots > 1 then Some (InvalidRoot (MultipleRoots non_terminator_roots))
            else
              (case has_any_cycle_generated gras of
                 Some w \<Rightarrow> Some (CircularDependency w)
               | None \<Rightarrow>
                   map_option (\<lambda>r. InvalidHeadReference (HeadOutOfTier (gr_index r) (gr_head r)))
                     (find (\<lambda>r. gr_head r \<noteq> 0 \<and> gr_head r > length gras) gras))))"

section \<open>Sentences\<close>

text \<open>\<open>end - start + 1\<close> on \<open>usize\<close>.\<close>

definition range_count :: "nat \<Rightarrow> nat \<Rightarrow> nat" where
  "range_count start stop = (stop + 2 ^ 64 - start + 1) mod 2 ^ 64"

text \<open>
  The first pass, from index \<open>i\<close>. The sum \<open>next_idx + count\<close> is at most the length unless it wraps
  round, and then the slice that follows has its end before its start.
\<close>

function build_mors :: "Unicode \<Rightarrow> rstr \<Rightarrow> nat \<Rightarrow> UdWord list \<Rightarrow> Mor list mapped" where
  "build_mors un lang i [] = Some (Inr [])"
| "build_mors un lang i (ud # uds) =
     (case ud_id ud of
        UdRange start stop \<Rightarrow>
          (let count = range_count start stop in
           if i + 1 + count \<ge> 2 ^ 64 then None
           else if count \<le> length uds then
             and_then (assemble_mors un lang (take count uds))
               (\<lambda>m. and_then (build_mors un lang (i + 1 + count) (drop count uds)) (\<lambda>ms. Some (Inr (m # ms))))
           else
             and_then (map_ud_word_to_mor un lang ud)
               (\<lambda>m. and_then (build_mors un lang (i + 1) uds) (\<lambda>ms. Some (Inr (m # ms)))))
      | UdSingle k \<Rightarrow>
          and_then (map_ud_word_to_mor un lang ud)
            (\<lambda>m. and_then (build_mors un lang (i + 1) uds) (\<lambda>ms. Some (Inr (m # ms))))
      | UdDecimal d \<Rightarrow> build_mors un lang (i + 1) uds)"
  by pat_completeness auto

termination
  by (relation "measure (\<lambda>(un, lang, i, uds). length uds)") auto

declare build_mors.simps(2) [simp del]

text \<open>The second pass: the chunk index of every word identifier.\<close>

function chunk_map :: "nat \<Rightarrow> (nat, nat) hmap \<Rightarrow> UdWord list \<Rightarrow> (nat, nat) hmap" where
  "chunk_map ci m [] = m"
| "chunk_map ci m (ud # uds) =
     (case ud_id ud of
        UdRange start stop \<Rightarrow>
          (let count = range_count start stop
           in chunk_map (ci + count) (foldl (\<lambda>m k. hm_insert (start + k) (ci + k) m) m [0..<count])
                (drop count uds))
      | UdSingle k \<Rightarrow> chunk_map (ci + 1) (hm_insert k ci m) uds
      | UdDecimal d \<Rightarrow> chunk_map ci m uds)"
  by pat_completeness auto

termination
  by (relation "measure (\<lambda>(ci, m, uds). length uds)") auto

declare chunk_map.simps(2) [simp del]

text \<open>The third pass; the state is the relations so far and the chunk of the root.\<close>

definition push_relation ::
  "Unicode \<Rightarrow> (nat, nat) hmap \<Rightarrow> UdWord \<Rightarrow> nat \<Rightarrow> GrammaticalRelation list \<times> nat \<Rightarrow>
   (GrammaticalRelation list \<times> nat) mapped" where
  "push_relation un m ud k s =
     (case hm_get m k of
        None \<Rightarrow> None
      | Some ci \<Rightarrow>
          (case map_relation un ud ci m of
             Inl e \<Rightarrow> Some (Inl e)
           | Inr rel \<Rightarrow> Some (Inr (fst s @ [rel], if ud_head ud = 0 then ci else snd s))))"

fun component_relations ::
  "Unicode \<Rightarrow> (nat, nat) hmap \<Rightarrow> UdWord list \<Rightarrow> GrammaticalRelation list \<times> nat \<Rightarrow>
   (GrammaticalRelation list \<times> nat) mapped" where
  "component_relations un m [] s = Some (Inr s)"
| "component_relations un m (c # cs) s =
     (case ud_id c of
        UdSingle k \<Rightarrow> and_then (push_relation un m c k s) (component_relations un m cs)
      | _ \<Rightarrow> component_relations un m cs s)"

function build_gras ::
  "Unicode \<Rightarrow> (nat, nat) hmap \<Rightarrow> UdWord list \<Rightarrow> GrammaticalRelation list \<times> nat \<Rightarrow>
   (GrammaticalRelation list \<times> nat) mapped" where
  "build_gras un m [] s = Some (Inr s)"
| "build_gras un m (ud # uds) s =
     (case ud_id ud of
        UdRange start stop \<Rightarrow>
          (let count = range_count start stop in
           if count > length uds then None
           else and_then (component_relations un m (take count uds) s) (build_gras un m (drop count uds)))
      | UdSingle k \<Rightarrow> and_then (push_relation un m ud k s) (build_gras un m uds)
      | UdDecimal d \<Rightarrow> build_gras un m uds s)"
  by pat_completeness auto

termination
  by (relation "measure (\<lambda>(un, m, uds, s). length uds)") auto

declare build_gras.simps(2) [simp del]

definition terminator_relation :: "nat \<Rightarrow> nat \<Rightarrow> GrammaticalRelation" where
  "terminator_relation idx root_chunk =
     \<lparr>gr_index = idx, gr_head = root_chunk, gr_relation = lit ''PUNCT''\<rparr>"

definition map_ud_sentence ::
  "Unicode \<Rightarrow> (Mor \<Rightarrow> nat) \<Rightarrow> rstr \<Rightarrow> UdSentence \<Rightarrow> (Mor list \<times> GrammaticalRelation list) mapped" where
  "map_ud_sentence un count_chunks lang sentence =
     and_then (build_mors un lang 0 (us_words sentence))
       (\<lambda>mors. and_then (build_gras un (chunk_map 1 [] (us_words sentence)) (us_words sentence) ([], 0))
          (\<lambda>(gras, root_chunk).
             if root_chunk = 0 \<and> gras \<noteq> [] then Some (Inl (InvalidRoot NoHeadZero))
             else
               (let mor_chunks = sum_list (map count_chunks mors) + 1;
                    gras = gras @ [terminator_relation mor_chunks root_chunk]
                in case validate_generated_gra gras of
                     Some e \<Rightarrow> Some (Inl e)
                   | None \<Rightarrow>
                       (if length gras \<noteq> mor_chunks
                        then Some (Inl (ChunkCountMismatch mor_chunks (length gras)))
                        else Some (Inr (mors, gras))))))"

end
