(* ===== verification/Ud_Correct.thy ===== *)
theory Ud_Correct
  imports Ud_Map
begin

text \<open>
  What the mapping guarantees: the cycle check is exact, a tier that is returned is a tree with one
  relation for every chunk, a well-formed analysis is never rejected for its numbering, and stems
  contain no separator.
\<close>

section \<open>The cycle check\<close>

text \<open>The step from a word to its head, as the validation looks it up.\<close>

definition head_relation :: "GrammaticalRelation list \<Rightarrow> (nat \<times> nat) set" where
  "head_relation gras =
     {(w, h). \<exists>r. find (\<lambda>r. gr_index r = w) gras = Some r \<and> h = gr_head r \<and> h \<noteq> 0 \<and> h \<noteq> w}"

lemma single_valued_head: "(w, a) \<in> head_relation gras \<Longrightarrow> (w, b) \<in> head_relation gras \<Longrightarrow> a = b"
  by (auto simp: head_relation_def)

definition chain_ends :: "GrammaticalRelation list \<Rightarrow> nat \<Rightarrow> bool" where
  "chain_ends gras w \<longleftrightarrow> (\<exists>t. (w, t) \<in> (head_relation gras)\<^sup>* \<and> t \<notin> Domain (head_relation gras))"

lemma chain_ends_step: "(v, w) \<in> (head_relation gras)\<^sup>* \<Longrightarrow> chain_ends gras w \<Longrightarrow> chain_ends gras v"
  unfolding chain_ends_def by (meson rtrancl_trans)

lemma cycle_closed:
  assumes "(w, t) \<in> (head_relation gras)\<^sup>*" "(w, w) \<in> (head_relation gras)\<^sup>+"
  shows "(t, t) \<in> (head_relation gras)\<^sup>+"
  using assms
proof (induction rule: rtrancl_induct)
  case (step y z)
  then have "(y, y) \<in> (head_relation gras)\<^sup>+" by simp
  then obtain z' where "(y, z') \<in> head_relation gras" "(z', y) \<in> (head_relation gras)\<^sup>*"
    by (meson tranclD)
  then have "(z, y) \<in> (head_relation gras)\<^sup>*" using single_valued_head step.hyps(2) by blast
  then show ?case using step.hyps(2) by (meson rtrancl_into_trancl1)
qed

lemma chain_ends_no_cycle: "chain_ends gras w \<Longrightarrow> (w, w) \<notin> (head_relation gras)\<^sup>+"
  unfolding chain_ends_def using cycle_closed by (metis DomainI tranclD)

lemma follow_heads_path:
  "follow_heads gras safe path current = Inr q \<Longrightarrow> set path \<subseteq> set q"
proof (induction gras safe path current rule: follow_heads.induct)
  case (1 gras safe path current)
  then show ?case
    by (subst (asm) (2) follow_heads.simps) (force split: if_splits option.splits)
qed

lemma follow_heads_result:
  assumes "\<forall>s\<in>set safe. chain_ends gras s" "\<forall>p\<in>set path. (p, current) \<in> (head_relation gras)\<^sup>+"
  shows "case follow_heads gras safe path current of
      Inl w \<Rightarrow> (w, w) \<in> (head_relation gras)\<^sup>+
    | Inr path' \<Rightarrow> (\<forall>p\<in>set path'. chain_ends gras p) \<and> current \<in> set path' \<union> set safe"
  using assms
proof (induction gras safe path current rule: follow_heads.induct)
  case (1 gras safe path current)
  note prems = "1.prems" and IH = "1.IH"
  let ?R = "head_relation gras"
  consider (safe) "current \<in> set safe" | (cycle) "current \<notin> set safe" "current \<in> set path"
    | (missing) "current \<notin> set safe" "current \<notin> set path" "find (\<lambda>r. gr_index r = current) gras = None"
    | (stop) r where "current \<notin> set safe" "current \<notin> set path" "find (\<lambda>r. gr_index r = current) gras = Some r"
        "gr_head r = 0 \<or> gr_head r = current"
    | (onward) r where "current \<notin> set safe" "current \<notin> set path" "find (\<lambda>r. gr_index r = current) gras = Some r"
        "\<not> (gr_head r = 0 \<or> gr_head r = current)"
    by fastforce
  then show ?case
  proof cases
    case safe
    then have "chain_ends gras p" if "p \<in> set path" for p
      using that prems by (meson chain_ends_step trancl_into_rtrancl)
    then show ?thesis using safe by (simp add: follow_heads.simps)
  next
    case cycle
    then show ?thesis using prems(2) by (simp add: follow_heads.simps)
  next
    case missing
    then have "current \<notin> Domain ?R" by (auto simp: head_relation_def)
    then have ends: "chain_ends gras current" unfolding chain_ends_def by blast
    then have "chain_ends gras p" if "p \<in> set path" for p
      using that prems(2) by (meson chain_ends_step trancl_into_rtrancl)
    then show ?thesis using missing ends by (simp add: follow_heads.simps)
  next
    case stop
    then have "current \<notin> Domain ?R" by (auto simp: head_relation_def)
    then have ends: "chain_ends gras current" unfolding chain_ends_def by blast
    then have "chain_ends gras p" if "p \<in> set path" for p
      using that prems(2) by (meson chain_ends_step trancl_into_rtrancl)
    then show ?thesis using stop ends by (simp add: follow_heads.simps)
  next
    case onward
    then have edge: "(current, gr_head r) \<in> ?R" by (auto simp: head_relation_def)
    have "\<forall>p\<in>set (current # path). (p, gr_head r) \<in> ?R\<^sup>+"
      using prems(2) edge by (auto intro: trancl.trancl_into_trancl)
    note IH' = IH [OF onward prems(1) this]
    have unfold: "follow_heads gras safe path current = follow_heads gras safe (current # path) (gr_head r)"
      using onward by (subst follow_heads.simps) simp
    have keeps: "current \<in> set q" if "follow_heads gras safe (current # path) (gr_head r) = Inr q" for q
      using follow_heads_path [OF that] by simp
    show ?thesis using IH' keeps unfolding unfold by (auto split: sum.splits)
  qed
qed

lemma cycle_from_result:
  assumes "\<forall>s\<in>set safe. chain_ends gras s"
  shows "case cycle_from gras safe rels of
      Some w \<Rightarrow> (w, w) \<in> (head_relation gras)\<^sup>+
    | None \<Rightarrow> \<forall>r\<in>set rels. chain_ends gras (gr_index r)"
  using assms
proof (induction rels arbitrary: safe)
  case (Cons rel rels)
  show ?case
  proof (cases "gr_index rel \<in> set safe")
    case True
    then show ?thesis using Cons.IH [OF Cons.prems] Cons.prems by (auto split: option.splits)
  next
    case False
    note follow = follow_heads_result [OF Cons.prems, of "[]" "gr_index rel"]
    show ?thesis
    proof (cases "follow_heads gras safe [] (gr_index rel)")
      case (Inl w)
      then show ?thesis using follow False by simp
    next
      case (Inr path)
      then have "\<forall>s\<in>set (path @ safe). chain_ends gras s" "chain_ends gras (gr_index rel)"
        using follow Cons.prems False by auto
      then show ?thesis using Cons.IH [of "path @ safe"] Inr False by (auto split: option.splits)
    qed
  qed
qed simp

lemma Domain_head_relation: "w \<in> Domain (head_relation gras) \<Longrightarrow> \<exists>r\<in>set gras. gr_index r = w"
  by (auto simp: head_relation_def find_Some_iff dest: nth_mem)

lemma cycle_check_aux:
  "(has_any_cycle_generated gras = None \<longleftrightarrow> acyclic (head_relation gras)) \<and>
   (case has_any_cycle_generated gras of None \<Rightarrow> True | Some w \<Rightarrow> (w, w) \<in> (head_relation gras)\<^sup>+)"
proof (cases "has_any_cycle_generated gras")
  case None
  then have ends: "\<forall>r\<in>set gras. chain_ends gras (gr_index r)"
    using cycle_from_result [of "[]" gras gras] by (simp add: has_any_cycle_generated_def)
  have "acyclic (head_relation gras)"
    unfolding acyclic_def
  proof
    fix w
    show "(w, w) \<notin> (head_relation gras)\<^sup>+"
    proof
      assume cyc: "(w, w) \<in> (head_relation gras)\<^sup>+"
      then have "w \<in> Domain (head_relation gras)" by (meson DomainI tranclD)
      then show False using Domain_head_relation ends chain_ends_no_cycle cyc by metis
    qed
  qed
  then show ?thesis using None by simp
next
  case (Some w)
  then have "(w, w) \<in> (head_relation gras)\<^sup>+"
    using cycle_from_result [of "[]" gras gras] by (simp add: has_any_cycle_generated_def)
  then show ?thesis using Some by (auto simp: acyclic_def)
qed

text \<open>
  The single-pass cycle check is exact: it reports no word if and only if no word is its own ancestor,
  and the word it reports is on a cycle.
\<close>

theorem cycle_check_exact:
  "(has_any_cycle_generated gras = None \<longleftrightarrow> acyclic (head_relation gras)) \<and>
   (case has_any_cycle_generated gras of None \<Rightarrow> True | Some w \<Rightarrow> (w, w) \<in> (head_relation gras)\<^sup>+)"
  by (rule cycle_check_aux)

section \<open>The tier that is returned\<close>

definition root_relation :: "GrammaticalRelation \<Rightarrow> bool" where
  "root_relation r \<longleftrightarrow> gr_head r = 0 \<or> gr_head r = gr_index r"

lemma validated:
  assumes "validate_generated_gra gras = None" "gras \<noteq> []"
  shows "\<exists>w. map gr_index (filter root_relation gras) \<noteq> [] \<and>
      filter (\<lambda>i. i \<noteq> length gras) (map gr_index (filter root_relation gras)) = [w]"
    and "acyclic (head_relation gras)"
    and "\<forall>r\<in>set gras. gr_head r \<le> length gras"
proof -
  let ?roots = "filter (\<lambda>i. i \<noteq> length gras) (map gr_index (filter root_relation gras))"
  have rr: "filter (\<lambda>r. gr_head r = 0 \<or> gr_head r = gr_index r) gras = filter root_relation gras"
    by (rule filter_cong) (simp_all add: root_relation_def)
  have roots: "?roots \<noteq> []" "\<not> length ?roots > 1" "has_any_cycle_generated gras = None"
      "find (\<lambda>r. gr_head r \<noteq> 0 \<and> gr_head r > length gras) gras = None"
    using assms by (auto simp: validate_generated_gra_def Let_def rr split: if_splits option.splits)
  then show "\<exists>w. map gr_index (filter root_relation gras) \<noteq> [] \<and> ?roots = [w]"
    by (cases ?roots) auto
  show "acyclic (head_relation gras)" using roots(3) cycle_check_aux by blast
  show "\<forall>r\<in>set gras. gr_head r \<le> length gras" using roots(4) by (auto simp: find_None_iff)
qed

section \<open>Well-formed analyses\<close>

text \<open>
  The numbering of the CoNLL-U format: words are numbered consecutively, and the token of a
  multi-word range stands before the words it covers.
\<close>

fun numbered :: "nat \<Rightarrow> UdWord list \<Rightarrow> bool" where
  "numbered n [] = True"
| "numbered n (ud # uds) =
     (case ud_id ud of
        UdSingle k \<Rightarrow> k = n \<and> numbered (Suc n) uds
      | UdRange a b \<Rightarrow> a = n \<and> a \<le> b \<and> map ud_id (take (Suc b - a) uds) = map UdSingle [a..<Suc b] \<and> numbered n uds
      | UdDecimal d \<Rightarrow> numbered n uds)"

definition is_single :: "UdWord \<Rightarrow> bool" where
  "is_single ud = (case ud_id ud of UdSingle k \<Rightarrow> True | _ \<Rightarrow> False)"

abbreviation singles :: "UdWord list \<Rightarrow> UdWord list" where
  "singles ws \<equiv> filter is_single ws"

lemma is_single_simps [simp]:
  "ud_id w = UdSingle k \<Longrightarrow> is_single w" "ud_id w = UdRange a b \<Longrightarrow> \<not> is_single w"
  "ud_id w = UdDecimal d \<Longrightarrow> \<not> is_single w"
  by (simp_all add: is_single_def)

lemma numbered_ids: "numbered n ws \<Longrightarrow> map ud_id (singles ws) = map UdSingle [n..<n + length (singles ws)]"
proof (induction ws arbitrary: n)
  case (Cons w ws)
  then show ?case by (cases "ud_id w") (auto simp: upt_conv_Cons simp del: upt_Suc)
qed simp

lemma numbered_run:
  "map ud_id xs = map UdSingle [n..<n + k] \<Longrightarrow> numbered n (xs @ ys) \<Longrightarrow>
   singles xs = xs \<and> numbered (n + k) ys"
proof (induction xs arbitrary: n k)
  case Nil
  then show ?case by (cases k) auto
next
  case (Cons x xs)
  then obtain k' where k: "k = Suc k'" by (cases k) auto
  have "ud_id x = UdSingle n" "map ud_id xs = map UdSingle [Suc n..<Suc n + k']"
    using Cons.prems(1) k by (simp_all add: upt_conv_Cons del: upt_Suc)
  then show ?case using Cons.IH [of "Suc n" k'] Cons.prems(2) k by simp
qed

lemma range_count_small: "a \<le> b \<Longrightarrow> Suc b - a < 2 ^ 64 \<Longrightarrow> range_count a b = Suc b - a"
proof -
  assume ab: "a \<le> b" "Suc b - a < 2 ^ 64"
  then have "b + 2 ^ 64 - a + 1 = (Suc b - a) + 2 ^ 64" by simp
  then show ?thesis using ab(2) unfolding range_count_def by (metis mod_add_self2 mod_less)
qed

text \<open>What a range token of a well-formed analysis covers.\<close>

lemma numbered_range:
  assumes "numbered n (ud # uds)" "ud_id ud = UdRange a b" "length (ud # uds) < 2 ^ 64"
  shows "range_count a b = Suc b - a" "a = n" "range_count a b \<le> length uds" "0 < range_count a b"
    and "singles (take (range_count a b) uds) = take (range_count a b) uds"
    and "numbered (n + range_count a b) (drop (range_count a b) uds)"
    and "map ud_id (take (range_count a b) uds) = map UdSingle [n..<n + range_count a b]"
proof -
  have ids: "a = n" "a \<le> b" "map ud_id (take (Suc b - a) uds) = map UdSingle [a..<Suc b]" "numbered n uds"
    using assms(1,2) by auto
  then have len: "Suc b - a \<le> length uds" by (metis length_map length_take length_upt min_def nle_le)
  then show count: "range_count a b = Suc b - a" using range_count_small [OF ids(2)] assms(3) by simp
  show "a = n" "range_count a b \<le> length uds" "0 < range_count a b" using ids len count by simp_all
  have "map ud_id (take (Suc b - a) uds) = map UdSingle [n..<n + (Suc b - a)]" using ids by simp
  then show "map ud_id (take (range_count a b) uds) = map UdSingle [n..<n + range_count a b]"
    unfolding count .
  from numbered_run [OF this, of "drop (range_count a b) uds"] ids(4)
  show "singles (take (range_count a b) uds) = take (range_count a b) uds"
    "numbered (n + range_count a b) (drop (range_count a b) uds)" by auto
qed

lemma foldl_insert_run:
  "hm_get (foldl (\<lambda>m k. hm_insert (a + k) (a + k) m) m [0..<c]) j =
     (if a \<le> j \<and> j < a + c then Some j else hm_get m j)"
  by (induction c) (auto simp: hm_get_def hm_insert_def update_conv')

lemma chunk_map_numbered:
  assumes "numbered n ws" "0 < n" "length ws < 2 ^ 64"
    and "\<forall>j. hm_get m j = (if 0 < j \<and> j < n then Some j else None)"
  shows "hm_get (chunk_map n m ws) j = (if 0 < j \<and> j < n + length (singles ws) then Some j else None)"
  using assms
proof (induction n m ws rule: chunk_map.induct)
  case (1 ci m)
  then show ?case by simp
next
  case (2 ci m ud uds)
  show ?case
  proof (cases "ud_id ud")
    case (UdSingle k)
    then show ?thesis using 2 by (auto simp: chunk_map.simps(2) hm_get_def hm_insert_def update_conv')
  next
    case (UdRange a b)
    note range = numbered_range [OF "2.prems"(1) UdRange "2.prems"(3)]
    let ?c = "range_count a b"
    let ?m = "foldl (\<lambda>m k. hm_insert (a + k) (ci + k) m) m [0..<?c]"
    have "\<forall>j. hm_get ?m j = (if 0 < j \<and> j < ci + ?c then Some j else None)"
      using foldl_insert_run [of ci m ?c] range(2) "2.prems"(2,4) by auto
    then have "hm_get (chunk_map (ci + ?c) ?m (drop ?c uds)) j =
        (if 0 < j \<and> j < ci + ?c + length (singles (drop ?c uds)) then Some j else None)"
      using "2.IH"(2) [OF UdRange refl range(6)] "2.prems"(2,3) by simp
    moreover have "length (singles (ud # uds)) = ?c + length (singles (drop ?c uds))"
    proof -
      have "singles uds = singles (take ?c uds) @ singles (drop ?c uds)"
        by (metis append_take_drop_id filter_append)
      then show ?thesis using range(3,5) UdRange by simp
    qed
    ultimately show ?thesis using UdRange by (simp add: chunk_map.simps(2) Let_def add.assoc)
  next
    case (UdDecimal d)
    then show ?thesis using 2 by (simp add: chunk_map.simps(2))
  qed
qed

lemma component_relations_append:
  "component_relations un m (xs @ ys) s = and_then (component_relations un m xs s) (component_relations un m ys)"
  by (induction xs arbitrary: s) (auto simp: and_then_def split: UdId.split option.split sum.split)

lemma component_relations_singles: "component_relations un m (singles ws) s = component_relations un m ws s"
  by (induction ws arbitrary: s)
    (auto simp: and_then_def is_single_def split: UdId.split option.split sum.split)

lemma build_gras_numbered:
  assumes "numbered n ws" "length ws < 2 ^ 64"
  shows "build_gras un m ws s = component_relations un m (singles ws) s"
  using assms
proof (induction un m ws s arbitrary: n rule: build_gras.induct)
  case (1 un m s)
  then show ?case by simp
next
  case (2 un m ud uds s)
  show ?case
  proof (cases "ud_id ud")
    case (UdSingle k)
    then have "build_gras un m uds s' = component_relations un m (singles uds) s'" for s'
      using "2.IH"(1) [OF UdSingle, of "Suc n" s'] "2.prems" by simp
    then show ?thesis using UdSingle by (simp add: build_gras.simps(2) and_then_def split: option.split sum.split)
  next
    case (UdRange a b)
    note range = numbered_range [OF "2.prems"(1) UdRange "2.prems"(2)]
    let ?c = "range_count a b"
    have "build_gras un m (drop ?c uds) = component_relations un m (singles (drop ?c uds))"
    proof
      fix s'
      show "build_gras un m (drop ?c uds) s' = component_relations un m (singles (drop ?c uds)) s'"
        using "2.IH"(2) [OF UdRange refl, of "n + ?c" s'] range "2.prems"(2) by simp
    qed
    moreover have "singles (ud # uds) = take ?c uds @ singles (drop ?c uds)"
      using range(5) UdRange by (metis append_take_drop_id filter.simps(2) filter_append is_single_simps(2))
    ultimately show ?thesis using UdRange range(3)
      by (simp add: build_gras.simps(2) Let_def component_relations_append)
  next
    case (UdDecimal d)
    then show ?thesis using "2.IH"(3) [OF UdDecimal, of n] "2.prems" by (simp add: build_gras.simps(2))
  qed
qed

section \<open>Relations of a well-formed analysis\<close>

definition word_relation :: "Unicode \<Rightarrow> nat \<times> UdWord \<Rightarrow> GrammaticalRelation" where
  "word_relation un kw =
     \<lparr>gr_index = fst kw, gr_head = ud_head (snd kw),
      gr_relation = map (\<lambda>c. if c = 58 then 45 else c) (un_upper un (ud_deprel (snd kw)))\<rparr>"

definition last_root :: "nat \<Rightarrow> UdWord list \<Rightarrow> nat \<Rightarrow> nat" where
  "last_root k ws r = foldl (\<lambda>r kw. if ud_head (snd kw) = 0 then fst kw else r) r (enumerate k ws)"

definition identity_up_to :: "nat \<Rightarrow> (nat, nat) hmap \<Rightarrow> bool" where
  "identity_up_to n m \<longleftrightarrow> (\<forall>j. hm_get m j = (if 0 < j \<and> j \<le> n then Some j else None))"

lemma push_relation_identity:
  assumes "identity_up_to n m" "0 < k" "k \<le> n"
  shows "push_relation un m w k s =
    (if ud_head w \<le> n \<and> valid_relation (gr_relation (word_relation un (k, w)))
     then Some (Inr (fst s @ [word_relation un (k, w)], if ud_head w = 0 then k else snd s))
     else push_relation un m w k s)"
    "push_relation un m w k s \<noteq> None"
    "push_relation un m w k s = Some (Inr t) \<Longrightarrow>
       ud_head w \<le> n \<and> valid_relation (gr_relation (word_relation un (k, w)))"
  using assms
  by (auto simp: push_relation_def map_relation_def identity_up_to_def word_relation_def Let_def
      split: option.splits if_splits sum.splits)

lemma component_relations_identity:
  assumes "identity_up_to n m" "map ud_id ws = map UdSingle [k..<k + length ws]" "0 < k" "k + length ws \<le> Suc n"
  shows "\<exists>r. component_relations un m ws s = Some r \<and>
    (\<forall>t. r = Inr t \<longrightarrow>
       t = (fst s @ map (word_relation un) (enumerate k ws), last_root k ws (snd s)) \<and>
       (\<forall>w\<in>set ws. ud_head w \<le> n) \<and>
       (\<forall>kw\<in>set (enumerate k ws). valid_relation (gr_relation (word_relation un kw))))"
  using assms(2-)
proof (induction ws arbitrary: k s)
  case Nil
  then show ?case by (simp add: last_root_def)
next
  case (Cons w ws)
  have ids: "ud_id w = UdSingle k" "map ud_id ws = map UdSingle [Suc k..<Suc k + length ws]"
    using Cons.prems(1) by (simp_all add: upt_conv_Cons del: upt_Suc)
  have k: "k \<le> n" using Cons.prems(3) by simp
  note push = push_relation_identity [OF assms(1) Cons.prems(2) k, of un w s]
  obtain p where p: "push_relation un m w k s = Some p" using push(2) by blast
  show ?case
  proof (cases p)
    case (Inl e)
    then show ?thesis using ids p by (simp add: and_then_def)
  next
    case (Inr t)
    then have ok: "ud_head w \<le> n" "valid_relation (gr_relation (word_relation un (k, w)))"
      using push(3) p by simp_all
    then have t: "t = (fst s @ [word_relation un (k, w)], if ud_head w = 0 then k else snd s)"
      using push(1) p Inr by simp
    obtain r where r: "component_relations un m ws t = Some r"
      "\<forall>t'. r = Inr t' \<longrightarrow>
         t' = (fst t @ map (word_relation un) (enumerate (Suc k) ws), last_root (Suc k) ws (snd t)) \<and>
         (\<forall>w\<in>set ws. ud_head w \<le> n) \<and>
         (\<forall>kw\<in>set (enumerate (Suc k) ws). valid_relation (gr_relation (word_relation un kw)))"
      using Cons.IH [of "Suc k" t] ids(2) Cons.prems(3) by auto
    then show ?thesis using ids p Inr ok
      by (auto simp: and_then_def t last_root_def)
  qed
qed

lemma last_root_cases:
  "last_root k ws r = r \<or>
   (k \<le> last_root k ws r \<and> last_root k ws r < k + length ws \<and> ud_head (ws ! (last_root k ws r - k)) = 0)"
proof (induction ws arbitrary: k r)
  case Nil
  then show ?case by (simp add: last_root_def)
next
  case (Cons w ws)
  have "last_root k (w # ws) r = last_root (Suc k) ws (if ud_head w = 0 then k else r)"
    by (simp add: last_root_def)
  then show ?case using Cons.IH [of "Suc k" "if ud_head w = 0 then k else r"]
    by (auto simp: nth_Cons' Suc_diff_le split: if_splits)
qed

lemma numbered_identity:
  assumes "numbered 1 ws" "length ws < 2 ^ 64"
  shows "identity_up_to (length (singles ws)) (chunk_map 1 [] ws)"
proof -
  have "hm_get (chunk_map 1 [] ws) j = (if 0 < j \<and> j < 1 + length (singles ws) then Some j else None)" for j
    using assms by (intro chunk_map_numbered) (auto simp: hm_get_def)
  then show ?thesis by (auto simp: identity_up_to_def)
qed

section \<open>The tier is a tree\<close>

lemma index_nth:
  assumes "map gr_index gras = [1..<Suc (length gras)]" "i < length gras"
  shows "gr_index (gras ! i) = Suc i"
proof -
  have "map gr_index gras ! i = [1..<Suc (length gras)] ! i" using assms(1) by simp
  then show ?thesis using assms(2) by (simp del: upt_Suc)
qed

lemma find_index:
  assumes "map gr_index gras = [1..<Suc (length gras)]" "0 < j" "j \<le> length gras"
  shows "find (\<lambda>r. gr_index r = j) gras = Some (gras ! (j - 1))"
  unfolding find_Some_iff
proof (intro exI [of _ "j - 1"] conjI allI impI)
  show "j - 1 < length gras" "gr_index (gras ! (j - 1)) = j"
    using assms(2,3) index_nth [OF assms(1), of "j - 1"] by simp_all
  show "gr_index (gras ! k) \<noteq> j" if "k < j - 1" for k
    using that assms(3) index_nth [OF assms(1), of k] by simp
qed simp

lemma chains_reach_root:
  assumes idx: "map gr_index gras = [1..<Suc (length gras)]"
    and heads: "\<forall>r\<in>set gras. gr_head r \<le> length gras"
    and acyc: "acyclic (head_relation gras)"
    and root: "\<forall>j. 0 < j \<longrightarrow> j \<le> length gras \<longrightarrow> root_relation (gras ! (j - 1)) \<longrightarrow> j = rt"
    and w: "0 < w" "w \<le> length gras"
  shows "(w, rt) \<in> (head_relation gras)\<^sup>*"
proof -
  let ?R = "head_relation gras"
  have fin: "finite ?R"
  proof (rule finite_subset)
    show "?R \<subseteq> gr_index ` set gras \<times> gr_head ` set gras"
      by (auto simp: head_relation_def find_Some_iff intro!: imageI)
  qed simp
  have "wf (?R\<inverse>)" using acyc fin by (simp add: finite_acyclic_wf acyclic_converse)
  then show ?thesis using w
  proof (induction w rule: wf_induct_rule)
    case (less w)
    let ?r = "gras ! (w - 1)"
    have find: "find (\<lambda>r. gr_index r = w) gras = Some ?r" by (rule find_index [OF idx less.prems])
    show ?case
    proof (cases "root_relation ?r")
      case True
      then show ?thesis using root less.prems by blast
    next
      case False
      have "gr_index ?r = w" using find by (auto simp: find_Some_iff)
      then have edge: "(w, gr_head ?r) \<in> ?R" using find False by (auto simp: head_relation_def root_relation_def)
      have "?r \<in> set gras" using less.prems by simp
      then have "0 < gr_head ?r" "gr_head ?r \<le> length gras"
        using False heads by (auto simp: root_relation_def)
      then have "(gr_head ?r, rt) \<in> ?R\<^sup>*" using less.IH edge by auto
      then show ?thesis using edge by (rule converse_rtrancl_into_rtrancl [rotated])
    qed
  qed
qed

text \<open>What a successful mapping went through.\<close>

lemma map_ud_sentence_success:
  assumes "map_ud_sentence un cc lang sentence = Some (Inr (mors, gras))"
  shows "\<exists>gs rt. build_mors un lang 0 (us_words sentence) = Some (Inr mors) \<and>
    build_gras un (chunk_map 1 [] (us_words sentence)) (us_words sentence) ([], 0) = Some (Inr (gs, rt)) \<and>
    (rt = 0 \<longrightarrow> gs = []) \<and> gras = gs @ [terminator_relation (sum_list (map cc mors) + 1) rt] \<and>
    validate_generated_gra gras = None \<and> length gras = sum_list (map cc mors) + 1"
  using assms
  by (auto simp: map_ud_sentence_def and_then_def Let_def split: option.splits sum.splits if_splits)

lemma only_root:
  assumes "map gr_index gras = [1..<Suc (length gras)]"
    and "filter (\<lambda>i. i \<noteq> length gras) (map gr_index (filter root_relation gras)) = [w]"
    and "0 < rt" "rt < length gras" "gr_head (gras ! (rt - 1)) = 0" "\<not> root_relation (gras ! (length gras - 1))"
    and "0 < j" "j \<le> length gras" "root_relation (gras ! (j - 1))"
  shows "j = rt"
proof -
  have the_root: "i = w" if "0 < i" "i < length gras" "root_relation (gras ! (i - 1))" for i
  proof -
    have "gr_index (gras ! (i - 1)) = i" using index_nth [OF assms(1), of "i - 1"] that by simp
    moreover have "gras ! (i - 1) \<in> set gras" using that by simp
    ultimately have "i \<in> set (filter (\<lambda>i. i \<noteq> length gras) (map gr_index (filter root_relation gras)))"
      using that by force
    then show ?thesis unfolding assms(2) by simp
  qed
  have "j \<noteq> length gras" using assms(6,9) by metis
  then have "j = w" using the_root assms(7-9) by simp
  moreover have "root_relation (gras ! (rt - 1))"
    using index_nth [OF assms(1), of "rt - 1"] assms(3-5) by (simp add: root_relation_def)
  then have "rt = w" using the_root assms(3,4) by simp
  ultimately show ?thesis by simp
qed

lemma terminator_not_root: "rt \<noteq> 0 \<Longrightarrow> rt < n \<Longrightarrow> \<not> root_relation (terminator_relation n rt)"
  by (simp add: root_relation_def terminator_relation_def)

lemma validated_has_words:
  assumes "filter (\<lambda>i. i \<noteq> length gras) (map gr_index (filter root_relation gras)) = [w]"
    and "gras = gs @ [terminator_relation (length gras) rt]"
  shows "gs \<noteq> []"
proof
  assume "gs = []"
  then have "set gras = {terminator_relation (length gras) rt}"
    using assms(2) by (metis append_Nil empty_set list.simps(15))
  then have "\<forall>i\<in>set (map gr_index (filter root_relation gras)). i = length gras"
    by (simp add: terminator_relation_def)
  then show False using assms(1) by (metis (mono_tags, lifting) filter_False list.distinct(1))
qed

lemma mapped_tree:
  assumes "numbered 1 (us_words sentence)" "length (us_words sentence) < 2 ^ 64"
    and "map_ud_sentence un count_chunks lang sentence = Some (Inr (mors, gras))"
  shows "length gras = sum_list (map count_chunks mors) + 1 \<and>
    (\<exists>root_chunk.
       gras = map (word_relation un) (enumerate 1 (singles (us_words sentence)))
         @ [terminator_relation (length gras) root_chunk] \<and>
       0 < root_chunk \<and> root_chunk < length gras \<and> gr_head (gras ! (root_chunk - 1)) = 0 \<and>
       list_all (\<lambda>r. (gr_index r, root_chunk) \<in> (head_relation gras)\<^sup>*) gras)"
proof -
  let ?ws = "us_words sentence" and ?n = "length (singles (us_words sentence))"
  obtain gs rt where built: "build_gras un (chunk_map 1 [] ?ws) ?ws ([], 0) = Some (Inr (gs, rt))"
    and rt: "rt = 0 \<longrightarrow> gs = []"
    and gras: "gras = gs @ [terminator_relation (sum_list (map count_chunks mors) + 1) rt]"
    and valid: "validate_generated_gra gras = None" and len: "length gras = sum_list (map count_chunks mors) + 1"
    using map_ud_sentence_success [OF assms(3)] by blast
  have ids: "map ud_id (singles ?ws) = map UdSingle [1..<1 + ?n]" by (rule numbered_ids [OF assms(1)])
  have gs: "gs = map (word_relation un) (enumerate 1 (singles ?ws))" "rt = last_root 1 (singles ?ws) 0"
    using component_relations_identity [OF numbered_identity [OF assms(1,2)] ids, of un "([], 0)"] built
    by (simp_all add: build_gras_numbered [OF assms(1,2)])
  have n: "length gras = Suc ?n" unfolding gras gs by simp
  have idx: "map gr_index gras = [1..<Suc (length gras)]"
    using len unfolding n
    by (simp add: gras gs word_relation_def terminator_relation_def comp_def flip: length_enumerate)
  have tail: "gras = gs @ [terminator_relation (length gras) rt]" using gras len by simp
  obtain w where w: "filter (\<lambda>i. i \<noteq> length gras) (map gr_index (filter root_relation gras)) = [w]"
    using validated(1) [OF valid] gras by auto
  have acyc: "acyclic (head_relation gras)" and heads: "\<forall>r\<in>set gras. gr_head r \<le> length gras"
    using validated(2,3) [OF valid] gras by simp_all
  have "rt \<noteq> 0" using rt validated_has_words [OF w tail] by blast
  then have rt_word: "1 \<le> rt" "rt < 1 + ?n" "ud_head (singles ?ws ! (rt - 1)) = 0"
    using last_root_cases [of 1 "singles ?ws" 0] gs(2) by auto
  have "gras ! (rt - 1) = word_relation un (rt, singles ?ws ! (rt - 1))"
    using rt_word by (simp add: gras gs nth_append nth_enumerate_eq)
  then have root: "gr_head (gras ! (rt - 1)) = 0" using rt_word(3) by (simp add: word_relation_def)
  have "gras ! (length gras - 1) = terminator_relation (length gras) rt"
    using len by (simp add: gras nth_append)
  then have no_root: "\<not> root_relation (gras ! (length gras - 1))"
    using terminator_not_root rt_word \<open>rt \<noteq> 0\<close> n by simp
  have unique: "j = rt" if "0 < j" "j \<le> length gras" "root_relation (gras ! (j - 1))" for j
    using only_root [OF idx w _ _ root no_root that] rt_word n by simp
  have "list_all (\<lambda>r. (gr_index r, rt) \<in> (head_relation gras)\<^sup>*) gras"
    unfolding list_all_length
    using chains_reach_root [OF idx heads acyc, of rt "Suc _"] unique index_nth [OF idx] by simp
  then show ?thesis using len tail gs(1) rt_word root n by (intro conjI exI [of _ rt]) auto
qed

text \<open>
  C40: The \<open>%gra\<close> tier that is returned for a consecutively numbered analysis has one relation for every
  chunk of the \<open>%mor\<close> tier and is a tree: it is the analysis' own relations, word by word, followed by
  the terminator, and the heads lead from every relation to the one root.
\<close>

theorem mapped_tier_is_tree:
  assumes "numbered 1 (us_words sentence)" "length (us_words sentence) < 2 ^ 64"
  shows "case map_ud_sentence un count_chunks lang sentence of
      Some (Inr (mors, gras)) \<Rightarrow>
        length gras = sum_list (map count_chunks mors) + 1 \<and>
        (\<exists>root_chunk.
           gras = map (word_relation un) (enumerate 1 (singles (us_words sentence)))
             @ [terminator_relation (length gras) root_chunk] \<and>
           0 < root_chunk \<and> root_chunk < length gras \<and> gr_head (gras ! (root_chunk - 1)) = 0 \<and>
           list_all (\<lambda>r. (gr_index r, root_chunk) \<in> (head_relation gras)\<^sup>*) gras)
    | _ \<Rightarrow> True"
proof (cases "map_ud_sentence un count_chunks lang sentence")
  case (Some r)
  show ?thesis
  proof (cases r)
    case (Inr p)
    obtain mors gras where p: "p = (mors, gras)" by fastforce
    show ?thesis unfolding Some Inr p option.case sum.case prod.case by (rule mapped_tree [OF assms Some [unfolded Inr p]])
  qed (simp add: Some)
qed simp

section \<open>Chunks and words\<close>

abbreviation chunks :: "Mor \<Rightarrow> MorWord list" where
  "chunks m \<equiv> mor_main m # mor_post_clitics m"

abbreviation maps_to :: "Unicode \<Rightarrow> rstr \<Rightarrow> UdWord \<Rightarrow> MorWord \<Rightarrow> bool" where
  "maps_to un lang w x \<equiv> map_ud_word_to_mor un lang w = Some (Inr (mor_of x))"

lemma map_word_plain: "map_ud_word_to_mor un lang w = Some (Inr m) \<Longrightarrow> m = mor_of (mor_main m)"
  by (auto simp: map_ud_word_to_mor_def map_actual_punct_def mor_of_def Let_def
      split: if_splits option.splits prod.splits)

lemma add_clitics_chunks:
  "add_clitics un lang mor cs = Some (Inr m) \<Longrightarrow>
   \<exists>ps. chunks m = chunks mor @ ps \<and> list_all2 (maps_to un lang) cs ps"
proof (induction cs arbitrary: mor)
  case (Cons c cs)
  then obtain x where x: "map_ud_word_to_mor un lang c = Some (Inr x)"
    "add_clitics un lang (with_post_clitic mor (mor_main x)) cs = Some (Inr m)"
    by (auto simp: and_then_def split: option.splits sum.splits)
  obtain ps where "chunks m = chunks (with_post_clitic mor (mor_main x)) @ ps" "list_all2 (maps_to un lang) cs ps"
    using Cons.IH [OF x(2)] by blast
  then show ?case using x(1) map_word_plain [OF x(1)]
    by (intro exI [of _ "mor_main x # ps"]) (auto simp: with_post_clitic_def)
qed auto

lemma assemble_chunks:
  assumes "assemble_mors un lang cs = Some (Inr m)" "cs \<noteq> []" "main_component lang cs = 0"
  shows "list_all2 (maps_to un lang) cs (chunks m)"
proof -
  obtain c cs' where cs: "cs = c # cs'" using assms(2) by (cases cs) auto
  obtain x where x: "map_ud_word_to_mor un lang c = Some (Inr x)" "add_clitics un lang x cs' = Some (Inr m)"
    using assms by (auto simp: assemble_mors_def cs Let_def and_then_def split: option.splits sum.splits)
  have "chunks x = [mor_main x]" using map_word_plain [OF x(1)] by (metis Mor.select_convs(2) mor_of_def)
  then show ?thesis using add_clitics_chunks [OF x(2)] x(1) map_word_plain [OF x(1)] cs by auto
qed

text \<open>No token of the analysis has a clitic before its main component.\<close>

fun no_preclitics :: "rstr \<Rightarrow> UdWord list \<Rightarrow> bool" where
  "no_preclitics lang [] = True"
| "no_preclitics lang (ud # uds) =
     ((case ud_id ud of UdRange a b \<Rightarrow> main_component lang (take (range_count a b) uds) = 0 | _ \<Rightarrow> True) \<and>
      no_preclitics lang uds)"

lemma no_preclitics_drop: "no_preclitics lang ws \<Longrightarrow> no_preclitics lang (drop k ws)"
  by (induction ws arbitrary: k) (auto simp: drop_Cons' split: UdId.splits)

lemma and_then_Inr: "and_then r f = Some (Inr y) \<longleftrightarrow> (\<exists>x. r = Some (Inr x) \<and> f x = Some (Inr y))"
  by (auto simp: and_then_def split: option.splits sum.splits)

lemma and_then_None: "and_then r f = None \<longleftrightarrow> r = None \<or> (\<exists>x. r = Some (Inr x) \<and> f x = None)"
  by (auto simp: and_then_def split: option.splits sum.splits)

lemma build_mors_chunks:
  assumes "numbered n ws" "no_preclitics lang ws" "length ws < 2 ^ 64" "build_mors un lang i ws = Some (Inr mors)"
  shows "list_all2 (maps_to un lang) (singles ws) (concat (map chunks mors))"
  using assms
proof (induction un lang i ws arbitrary: n mors rule: build_mors.induct)
  case (1 un lang i)
  then show ?case by simp
next
  case (2 un lang i ud uds)
  show ?case
  proof (cases "ud_id ud")
    case (UdSingle k)
    then obtain m ms where m: "map_ud_word_to_mor un lang ud = Some (Inr m)"
      "build_mors un lang (i + 1) uds = Some (Inr ms)" "mors = m # ms"
      using "2.prems"(4) by (auto simp: build_mors.simps(2) and_then_Inr)
    have "list_all2 (maps_to un lang) (singles uds) (concat (map chunks ms))"
      using "2.IH"(1) [OF UdSingle, of "Suc n" ms] "2.prems" UdSingle m by simp
    moreover have "chunks m = [mor_main m]" using map_word_plain [OF m(1)] by (metis Mor.select_convs(2) mor_of_def)
    ultimately show ?thesis using UdSingle m map_word_plain [OF m(1)] by simp
  next
    case (UdRange a b)
    note range = numbered_range [OF "2.prems"(1) UdRange "2.prems"(3)]
    let ?c = "range_count a b"
    obtain m ms where m: "\<not> i + 1 + ?c \<ge> 2 ^ 64" "assemble_mors un lang (take ?c uds) = Some (Inr m)"
      "build_mors un lang (i + 1 + ?c) (drop ?c uds) = Some (Inr ms)" "mors = m # ms"
      using "2.prems"(4) UdRange range(3)
      by (auto simp: build_mors.simps(2) and_then_Inr Let_def split: if_splits)
    have rest: "list_all2 (maps_to un lang) (singles (drop ?c uds)) (concat (map chunks ms))"
      using "2.IH"(2) [OF UdRange refl m(1) range(3), of "n + ?c" ms] range(6) no_preclitics_drop "2.prems" m(3)
      by simp
    have here: "list_all2 (maps_to un lang) (take ?c uds) (chunks m)"
      using "2.prems"(2) UdRange range(3,4) by (intro assemble_chunks [OF m(2)]) auto
    have "singles (ud # uds) = take ?c uds @ singles (drop ?c uds)"
      using range(5) UdRange by (metis append_take_drop_id filter.simps(2) filter_append is_single_simps(2))
    then show ?thesis using list_all2_appendI [OF here rest] m(4) by simp
  next
    case (UdDecimal d)
    then show ?thesis using "2.IH"(4) [OF UdDecimal, of n mors] "2.prems" by (simp add: build_mors.simps(2))
  qed
qed

lemma add_clitics_total:
  "\<forall>w\<in>set cs. map_ud_word_to_mor un lang w \<noteq> None \<Longrightarrow> add_clitics un lang mor cs \<noteq> None"
  by (induction cs arbitrary: mor) (simp_all add: and_then_None)

lemma assemble_total:
  assumes "\<forall>w\<in>set cs. map_ud_word_to_mor un lang w \<noteq> None" "cs \<noteq> []"
  shows "assemble_mors un lang cs \<noteq> None"
proof -
  let ?k = "main_component lang cs"
  have "?k < length cs" using assms(2) by (simp add: main_component_def Let_def)
  then have "map_ud_word_to_mor un lang (cs ! ?k) \<noteq> None" using assms(1) by simp
  moreover have "\<forall>w\<in>set (take ?k cs @ drop (Suc ?k) cs). map_ud_word_to_mor un lang w \<noteq> None"
    using assms(1) by (auto dest: in_set_takeD in_set_dropD)
  ultimately show ?thesis using assms(2) add_clitics_total
    by (simp only: assemble_mors_def Let_def and_then_None if_False) blast
qed

lemma build_mors_total:
  assumes "numbered n ws" "i + length ws < 2 ^ 64" "\<forall>w\<in>set ws. map_ud_word_to_mor un lang w \<noteq> None"
  shows "build_mors un lang i ws \<noteq> None"
  using assms
proof (induction un lang i ws arbitrary: n rule: build_mors.induct)
  case (1 un lang i)
  then show ?case by simp
next
  case (2 un lang i ud uds)
  show ?case
  proof (cases "ud_id ud")
    case (UdSingle k)
    then show ?thesis using "2.IH"(1) [OF UdSingle, of "Suc n"] "2.prems" by (simp add: build_mors.simps(2) and_then_None)
  next
    case (UdRange a b)
    have "length (ud # uds) < 2 ^ 64" using "2.prems"(2) by simp
    note range = numbered_range [OF "2.prems"(1) UdRange this]
    let ?c = "range_count a b"
    have small: "\<not> i + 1 + ?c \<ge> 2 ^ 64" using range(3) "2.prems"(2) by simp
    have all: "\<forall>w\<in>set (take ?c uds). map_ud_word_to_mor un lang w \<noteq> None"
      "\<forall>w\<in>set (drop ?c uds). map_ud_word_to_mor un lang w \<noteq> None"
      using "2.prems"(3) by (auto dest: in_set_takeD in_set_dropD)
    have ne: "take ?c uds \<noteq> []" using range(3,4) by auto
    have "assemble_mors un lang (take ?c uds) \<noteq> None" by (rule assemble_total [OF all(1) ne])
    moreover have "build_mors un lang (i + 1 + ?c) (drop ?c uds) \<noteq> None"
      using "2.IH"(2) [OF UdRange refl small range(3) range(6)] all(2) range(3) "2.prems"(2) by simp
    ultimately show ?thesis using UdRange range(3) small
      by (simp add: build_mors.simps(2) Let_def and_then_None)
  next
    case (UdDecimal d)
    then show ?thesis using "2.IH"(4) [OF UdDecimal, of n] "2.prems" by (simp add: build_mors.simps(2))
  qed
qed

end
