(* ===== verification/Ud_Cases.thy ===== *)
theory Ud_Cases
  imports Ud_Correct
begin

text \<open>
  When the mapping panics and when it does not, to which word each chunk belongs, what a stem may
  contain, and inputs on which the result is wrong: a clitic before its word, an unsanitized feature,
  repeated identifiers. The last section shows which Japanese rules can never apply.
\<close>

section \<open>Panics\<close>

lemma mapping_total:
  assumes "numbered 1 (us_words sentence)" "length (us_words sentence) < 2 ^ 64"
    and "list_all (\<lambda>w. map_ud_word_to_mor un lang w \<noteq> None) (us_words sentence)"
  shows "map_ud_sentence un count_chunks lang sentence \<noteq> None"
proof -
  let ?ws = "us_words sentence" and ?n = "length (singles (us_words sentence))"
  have mors: "build_mors un lang 0 ?ws \<noteq> None"
    using build_mors_total [OF assms(1), of 0 un lang] assms(2,3) by (simp add: list_all_iff)
  have "\<exists>r. component_relations un (chunk_map 1 [] ?ws) (singles ?ws) ([], 0) = Some r"
    using component_relations_identity [OF numbered_identity [OF assms(1,2)] numbered_ids [OF assms(1)],
        of un "([], 0)"] by auto
  then have "build_gras un (chunk_map 1 [] ?ws) ?ws ([], 0) \<noteq> None"
    by (auto simp: build_gras_numbered [OF assms(1,2)])
  with mors show ?thesis
    by (auto simp: map_ud_sentence_def and_then_None Let_def split: option.splits if_splits prod.splits)
qed

text \<open>
  A consecutively numbered analysis never makes the mapping panic, unless the cleaning of one of its
  lemmas does: every slice and every lookup of a chunk index succeeds.
\<close>

theorem mapping_never_panics:
  assumes "numbered 1 (us_words sentence)" "length (us_words sentence) < 2 ^ 64"
    and "list_all (\<lambda>w. map_ud_word_to_mor un lang w \<noteq> None) (us_words sentence)"
  shows "map_ud_sentence un count_chunks lang sentence \<noteq> None"
  using assms by (rule mapping_total)

text \<open>
  A range token that claims more words than the analysis has is mapped as a word of its own by the
  first pass; the third pass slices past the end and panics.
\<close>

theorem truncated_range_panics:
  assumes "us_words sentence = [ud]" "ud_id ud = UdRange a b" "a \<le> b" "b < 2 ^ 63"
    and "map_ud_word_to_mor un lang ud = Some (Inr m)"
  shows "map_ud_sentence un count_chunks lang sentence = None"
proof -
  have "Suc b - a < 2 ^ 64" using assms(4) by simp
  then have count: "range_count a b = Suc b - a" by (rule range_count_small [OF assms(3)])
  then have "0 < range_count a b" "Suc (range_count a b) < 2 ^ 64" using assms(3,4) by simp_all
  then have "build_mors un lang 0 (us_words sentence) = Some (Inr [m])"
    using assms by (simp add: build_mors.simps(2) Let_def and_then_def)
  moreover have "build_gras un (chunk_map 1 [] (us_words sentence)) (us_words sentence) ([], 0) = None"
    using assms count by (simp add: build_gras.simps(2) Let_def)
  ultimately show ?thesis by (simp add: map_ud_sentence_def and_then_def)
qed

section \<open>Chunks and relations\<close>

text \<open>
  If no token has a clitic before its main component, the \<open>k\<close>-th chunk of the \<open>%mor\<close> tier and the
  \<open>k\<close>-th relation of the \<open>%gra\<close> tier belong to the same word, the \<open>k\<close>-th of the analysis.
\<close>

theorem chunk_and_relation_of_same_word:
  assumes "numbered 1 (us_words sentence)" "length (us_words sentence) < 2 ^ 64"
    and "no_preclitics lang (us_words sentence)"
  shows "case map_ud_sentence un count_chunks lang sentence of
      Some (Inr (mors, gras)) \<Rightarrow>
        list_all2 (maps_to un lang) (singles (us_words sentence)) (concat (map chunks mors)) \<and>
        butlast gras = map (word_relation un) (enumerate 1 (singles (us_words sentence)))
    | _ \<Rightarrow> True"
proof -
  let ?ws = "us_words sentence"
  {
    fix mors gras assume "map_ud_sentence un count_chunks lang sentence = Some (Inr (mors, gras))"
    then obtain gs rt where built: "build_mors un lang 0 ?ws = Some (Inr mors)"
      "build_gras un (chunk_map 1 [] ?ws) ?ws ([], 0) = Some (Inr (gs, rt))" "butlast gras = gs"
      using map_ud_sentence_success by force
    have "gs = map (word_relation un) (enumerate 1 (singles ?ws))"
      using component_relations_identity [OF numbered_identity [OF assms(1,2)] numbered_ids [OF assms(1)],
          of un "([], 0)"] built(2)
      by (simp add: build_gras_numbered [OF assms(1,2)])
    then have "list_all2 (maps_to un lang) (singles ?ws) (concat (map chunks mors)) \<and>
        butlast gras = map (word_relation un) (enumerate 1 (singles ?ws))"
      using build_mors_chunks [OF assms(1,3,2) built(1)] built(3) by simp
  }
  note result = this
  show ?thesis
  proof (cases "map_ud_sentence un count_chunks lang sentence")
    case (Some r)
    show ?thesis
    proof (cases r)
      case (Inr p)
      obtain mors gras where p: "p = (mors, gras)" by fastforce
      show ?thesis unfolding Some Inr p option.case sum.case prod.case by (rule result [OF Some [unfolded Inr p]])
    qed (simp add: Some)
  qed simp
qed

text \<open>
  A clitic before its main component (as in French \<open>l'ami\<close>) becomes a chunk after it, but keeps its
  place among the relations: the first relation, the clitic's, is attached to the chunk of the main
  word, and the other way round.
\<close>

theorem preclitic_swaps_relations:
  assumes words: "us_words sentence = [t, c, w]"
    "ud_id t = UdRange 1 2" "ud_id c = UdSingle 1" "ud_id w = UdSingle 2"
    and clitic: "is_clitic lang (ud_text c)" "\<not> is_clitic lang (ud_text w)"
    and mapped: "maps_to un lang c xc" "maps_to un lang w xw"
    and tree: "ud_head c = 2" "ud_head w = 0"
    and relations: "valid_relation (gr_relation (word_relation un (1, c)))"
      "valid_relation (gr_relation (word_relation un (2, w)))"
    and count: "count_chunks \<lparr>mor_main = xw, mor_post_clitics = [xc]\<rparr> = 2"
  shows "map_ud_sentence un count_chunks lang sentence =
    Some (Inr ([\<lparr>mor_main = xw, mor_post_clitics = [xc]\<rparr>],
      [word_relation un (1, c), word_relation un (2, w), terminator_relation 3 2]))"
proof -
  have num1: "numbered 1 [t, c, w]" using words by (simp add: upt_rec numeral_2_eq_2)
  have num2: "length [t, c, w] < 2 ^ 64" by simp
  note num = num1 num2
  have count2: "range_count 1 2 = 2" by (simp add: range_count_def)
  have "main_component lang [c, w] = 1" using clitic by (simp add: main_component_def)
  then have "assemble_mors un lang [c, w] = Some (Inr \<lparr>mor_main = xw, mor_post_clitics = [xc]\<rparr>)"
    using mapped by (simp add: assemble_mors_def and_then_def with_post_clitic_def mor_of_def)
  then have mors: "build_mors un lang 0 [t, c, w] = Some (Inr [\<lparr>mor_main = xw, mor_post_clitics = [xc]\<rparr>])"
    using words(2) count2 by (simp add: build_mors.simps(2) and_then_def Let_def)
  have s: "singles [t, c, w] = [c, w]" using words by (simp add: is_single_def)
  have idm: "identity_up_to 2 (chunk_map 1 [] [t, c, w])"
    using numbered_identity [OF num] s by (simp add: numeral_2_eq_2)
  have "push_relation un (chunk_map 1 [] [t, c, w]) c 1 ([], 0) = Some (Inr ([word_relation un (1, c)], 0))"
    using push_relation_identity(1) [OF idm, of 1 un c "([], 0)"] relations(1) tree(1) by simp
  moreover have "push_relation un (chunk_map 1 [] [t, c, w]) w 2 ([word_relation un (1, c)], 0) =
      Some (Inr ([word_relation un (1, c), word_relation un (2, w)], 2))"
    using push_relation_identity(1) [OF idm, of 2 un w "([word_relation un (1, c)], 0)"] relations(2) tree(2)
    by simp
  ultimately have gras: "build_gras un (chunk_map 1 [] [t, c, w]) [t, c, w] ([], 0) =
      Some (Inr ([word_relation un (1, c), word_relation un (2, w)], 2))"
    using words(2-4) by (simp add: build_gras_numbered [OF num] s and_then_def)
  have rel: "gr_index (word_relation un (k, v)) = k" "gr_head (word_relation un (k, v)) = ud_head v" for k v
    by (simp_all add: word_relation_def)
  let ?gras = "[word_relation un (1, c), word_relation un (2, w), terminator_relation 3 2]"
  have "validate_generated_gra ?gras = None"
    by (simp add: validate_generated_gra_def has_any_cycle_generated_def follow_heads.simps rel tree
        terminator_relation_def Let_def)
  then show ?thesis using mors gras count words(1)
    by (simp add: map_ud_sentence_def and_then_def Let_def)
qed

section \<open>Stems\<close>

definition safe_char :: "rchar \<Rightarrow> bool" where
  "safe_char c \<longleftrightarrow> \<not> is_whitespace c \<and> c \<notin> set (lit ''|#-&$~'')"

lemma sanitize_safe: "list_all safe_char (sanitize_mor_text s)"
  by (auto simp: sanitize_mor_text_def safe_char_def list_all_iff lit_def)

lemma punct_safe: "l \<in> set (map lit [''.'', ''!'', ''?'']) \<Longrightarrow> l \<noteq> [] \<and> list_all safe_char l"
  by (auto simp: safe_char_def is_whitespace_def lit_def)

text \<open>
  C39: No item with an empty stem, and none with a separator of the tier or white space in its stem, is
  built from a word.
\<close>

theorem stems_are_safe:
  "case map_ud_word_to_mor un lang ud of
     Some (Inr m) \<Rightarrow> mw_lemma (mor_main m) \<noteq> [] \<and> list_all safe_char (mw_lemma (mor_main m))
   | _ \<Rightarrow> True"
proof -
  have cm: "lit ''cm'' \<noteq> [] \<and> list_all safe_char (lit ''cm'')"
    by (simp add: safe_char_def is_whitespace_def lit_def)
  show ?thesis
    using sanitize_safe punct_safe [of "ud_lemma ud"] cm
    by (auto simp: map_ud_word_to_mor_def map_actual_punct_def mor_of_def Let_def
        split: option.split sum.split prod.split)
qed

text \<open>
  Features are not sanitized: the value of an adjective's case is written as it is, also when it
  contains the separator of features.
\<close>

theorem features_not_sanitized:
  assumes "ud_upos ud = UdValue UpAdj" "ud_feats ud = Some (lit ''Case='' @ v)" "v \<noteq> []"
    and "61 \<notin> set v" "124 \<notin> set v" "maps_to un lang ud x"
    and "ud_lemma ud \<notin> set (map lit [''.'', ''!'', ''?'', '','', ''$,''])"
  shows "mw_features x = [v, lit ''S1'']"
proof -
  have no_split: "split_char d w = [w]" if "d \<notin> set w" for d w
    using that by (induction w) auto
  have "124 \<notin> set (lit ''Case='' @ v)" using assms(5) by (simp add: lit_def)
  then have bar: "split_char 124 (lit ''Case='' @ v) = [lit ''Case='' @ v]" by (rule no_split)
  have eq: "split_char 61 (lit ''Case='' @ v) = [lit ''Case'', v]"
    using no_split [OF assms(4)] by (simp add: lit_def)
  have feats: "parse_feats (ud_feats ud) = [(lit ''Case'', v)]"
    using assms(2) by (simp add: parse_feats_def bar parse_pair_def eq hm_insert_def)
  have "mw_features x = adj_features [(lit ''Case'', v)]"
    using assms(1,6,7) feats
    by (auto simp: map_ud_word_to_mor_def mor_of_def Let_def split: option.splits prod.splits if_splits)
  also have "\<dots> = [v, lit ''S1'']"
    using assms(3) by (simp add: adj_features_def feat_or_def hm_get_def push_feature_def person_str_def)
      (simp add: lit_def)
  finally show ?thesis .
qed

section \<open>Repeated identifiers\<close>

text \<open>
  The indices of the tier are sequential only if the identifiers are distinct: of three words the last
  of which repeats the identifier of the first, the first relation gets the index of the last.
\<close>

theorem repeated_identifiers_accepted:
  assumes "us_words sentence = [u, v, w]" "ud_id u = UdSingle 1" "ud_id v = UdSingle 2" "ud_id w = UdSingle 1"
    and "ud_head u = 0" "ud_head v = 1" "ud_head w = 2"
    and "maps_to un lang u xu" "maps_to un lang v xv" "maps_to un lang w xw"
    and "list_all (\<lambda>d. valid_relation (gr_relation (word_relation un (0, d)))) [u, v, w]"
    and "list_all (\<lambda>x. count_chunks (mor_of x) = 1) [xu, xv, xw]"
  shows "\<exists>mors gras. map_ud_sentence un count_chunks lang sentence = Some (Inr (mors, gras)) \<and>
    map gr_index gras = [3, 2, 3, 4]"
proof -
  have m: "chunk_map 1 [] [u, v, w] = hm_insert 1 3 (hm_insert 2 2 (hm_insert 1 1 []))"
    using assms(2-4) by (simp add: chunk_map.simps(2) numeral_3_eq_3 numeral_2_eq_2)
  have mors: "build_mors un lang 0 [u, v, w] = Some (Inr [mor_of xu, mor_of xv, mor_of xw])"
    using assms(2-4,8-10) by (simp add: build_mors.simps(2) and_then_def)
  have get: "hm_get (hm_insert (1 :: nat) 3 (hm_insert 2 2 (hm_insert 1 1 []))) 1 = Some (3 :: nat)"
    "hm_get (hm_insert (1 :: nat) 3 (hm_insert 2 2 (hm_insert 1 1 []))) 2 = Some (2 :: nat)"
    by (simp_all add: hm_get_def hm_insert_def)
  let ?rel = "\<lambda>d. gr_relation (word_relation un (0, d))"
  let ?g = "\<lambda>k h d. \<lparr>gr_index = k, gr_head = h, gr_relation = ?rel d\<rparr>"
  have gras: "build_gras un (chunk_map 1 [] [u, v, w]) [u, v, w] ([], 0) =
      Some (Inr ([?g 3 0 u, ?g 2 3 v, ?g 3 2 w], 3))"
    using assms(2-7,11) get unfolding m
    by (simp add: build_gras.simps(2) and_then_def push_relation_def map_relation_def word_relation_def Let_def)
  have "validate_generated_gra [?g 3 0 u, ?g 2 3 v, ?g 3 2 w, terminator_relation 4 3] = None"
    by (simp add: validate_generated_gra_def has_any_cycle_generated_def follow_heads.simps terminator_relation_def
        Let_def)
  moreover have "sum_list (map count_chunks [mor_of xu, mor_of xv, mor_of xw]) = 3" using assms(12) by simp
  ultimately show ?thesis using mors gras assms(1)
    by (simp add: map_ud_sentence_def and_then_def Let_def terminator_relation_def del: list.map) simp
qed

section \<open>Plain words\<close>

text \<open>A lemma of ASCII letters is its own stem.\<close>

abbreviation letters :: "rstr \<Rightarrow> bool" where
  "letters s \<equiv> list_all (\<lambda>c. 97 \<le> c \<and> c \<le> 122) s"

lemma starts_absent: "p \<noteq> [] \<Longrightarrow> hd p \<notin> set s \<Longrightarrow> \<not> starts_with s p"
  by (cases s; cases p) auto

lemma contains_absent: "p \<noteq> [] \<Longrightarrow> hd p \<notin> set s \<Longrightarrow> \<not> contains s p"
proof (induction s)
  case (Cons a s)
  then show ?case using starts_absent [of p "a # s"] by simp
qed simp

lemma replace_absent: "p \<noteq> [] \<Longrightarrow> hd p \<notin> set s \<Longrightarrow> replace s p r = s"
proof -
  assume p: "p \<noteq> []" "hd p \<notin> set s"
  then have "replace_skip 0 s p r = s"
    by (induction s) (use starts_absent in auto)
  then show ?thesis by (simp add: replace_def)
qed

lemma dropWhile_keeps: "(\<forall>c\<in>set s. \<not> P c) \<Longrightarrow> dropWhile P s = s"
  by (cases s) auto

lemma trim_none: "(\<forall>c\<in>set s. \<not> is_whitespace c) \<Longrightarrow> trim s = s"
  by (simp add: trim_def trim_matches_def dropWhile_keeps)

lemma clean_letters:
  assumes "letters l" "l \<noteq> []"
  shows "clean_lemma un l w = Some (l, False)"
proof -
  have range: "97 \<le> c \<and> c \<le> 122" if "c \<in> set l" for c using that assms(1) by (simp add: list_all_iff)
  have out: "c \<notin> set l" if "c < 97 \<or> 122 < c" for c using that range by fastforce
  have ws: "\<forall>c\<in>set l. \<not> is_whitespace c" using range by (force simp: is_whitespace_def)
  have strip: "strip_chars cs l = l" if "\<forall>c\<in>set cs. c < 97 \<or> 122 < c" for cs
    using that range by (auto simp: strip_chars_def filter_id_conv) (metis not_le)
  have trim: "trim l = l" by (rule trim_none [OF ws])
  have ne: "l \<noteq> [12301]" "l \<noteq> [12300]" "l \<noteq> [34]" "l \<noteq> lit ''door zogen''"
    using out [of 12301] out [of 12300] out [of 34] out [of 32] by (auto simp: lit_def)
  have start: "lemma_or_text l w = l"
    using ne assms(2) trim by (simp add: lemma_or_text_def strip)
  have zero: "\<not> starts_with l (lit ''0'')" using out [of 48] by (intro starts_absent) (simp_all add: lit_def)
  have dash: "\<not> starts_with l (lit ''-'')" "\<not> starts_with (rev l) (lit ''-'')"
    using out [of 45] starts_absent [of "lit ''-''" l] starts_absent [of "lit ''-''" "rev l"]
    by (simp_all add: lit_def)
  have sos: "\<not> contains l (lit ''<SOS>'')" using out [of 60] by (intro contains_absent) (simp_all add: lit_def)
  have repl: "replace l (lit ''--'') (lit ''-'') = l"
    "replace l (lit ''<unk>'') [] = l" "replace l (lit ''<SOS>'') [] = l"
    "replace l (lit ''/100'') [] = l" "replace l (lit ''/r'') [] = l"
    using out [of 60] out [of 47] out [of 45] by (simp_all add: replace_absent lit_def)
  have dollar: "strip_chars (lit ''$.'') l = l" "strip_chars [44, 39, 126, 40, 41] l = l"
    "strip_chars (lit ''_+'') l = l"
    by (intro strip; simp add: lit_def)+
  have dashes: "strip_dashes l = l" using dash by (simp add: strip_dashes_def ends_with_def lit_def)
  have hyphen: "map (\<lambda>c. if c = 45 then 8211 else c) l = l"
    using out [of 45] by (intro map_idI) auto
  have at_ne: "l ! (length l - 2) \<noteq> 64" if "length l \<ge> 2"
  proof -
    have "l ! (length l - 2) \<in> set l" using that by (intro nth_mem) simp
    then show ?thesis using out [of 64] by auto
  qed
  have at: "strip_at un l = l"
    using at_ne by (cases "2 \<le> length l") (simp_all add: strip_at_def Let_def)
  have no_dash: "45 \<notin> set l" using out [of 45] by simp
  have "strip_marks un l w = l"
    using no_dash out [of 124] out [of 8220] ne(4)
    by (simp add: strip_marks_def sos dollar dashes repl hyphen at trim Let_def)
  then show ?thesis using start zero assms(2) by (simp add: clean_lemma_def Let_def)
qed

lemma sanitize_letters: "letters l \<Longrightarrow> sanitize_mor_text l = l"
proof -
  assume l: "letters l"
  have "map (\<lambda>c. if c \<in> set (lit ''|#-&$~'') then 95 else c) l = l"
    using l by (intro map_idI) (auto simp: list_all_iff lit_def)
  moreover have "filter (\<lambda>c. \<not> is_whitespace c) l = l"
    using l by (force simp: filter_id_conv list_all_iff is_whitespace_def)
  ultimately show ?thesis by (simp add: sanitize_mor_text_def)
qed

lemma letters_map:
  assumes "letters (ud_lemma ud)" "ud_lemma ud \<noteq> []" "lang2 lang \<noteq> lit ''ja''"
  shows "maps_to un lang ud
    \<lparr>mw_pos = upos_to_name (ud_upos ud), mw_lemma = ud_lemma ud,
     mw_features = compute_features un lang (ud_upos ud) (parse_feats (ud_feats ud)) (upos_to_name (ud_upos ud)) ud\<rparr>"
proof -
  have "ud_lemma ud \<notin> set (map lit [''.'', ''!'', ''?'', '','', ''$,''])"
    using assms(1) by (auto simp: lit_def)
  then show ?thesis
    using assms clean_letters [OF assms(1,2)] sanitize_letters [OF assms(1)]
    by (simp add: map_ud_word_to_mor_def effective_word_def Let_def)
qed

section \<open>Examples\<close>

text \<open>Words of ASCII letters with the relation \<open>case\<close>, of a language without rules of its own or of French.\<close>

definition plain_unicode :: Unicode where
  "plain_unicode =
     \<lparr>un_lower = to_ascii_lowercase, un_upper = map (\<lambda>c. if 97 \<le> c \<and> c \<le> 122 then c - 32 else c),
      un_alphanumeric = (\<lambda>c. False)\<rparr>"

definition sample_ud :: "UdId \<Rightarrow> rstr \<Rightarrow> rstr \<Rightarrow> nat \<Rightarrow> UdWord" where
  "sample_ud i t l h =
     \<lparr>ud_id = i, ud_text = t, ud_lemma = l, ud_upos = UdValue UpAdp, ud_xpos = None, ud_feats = None,
      ud_head = h, ud_deprel = lit ''case'', ud_deps = None, ud_misc = None\<rparr>"

definition sample_item :: "rstr \<Rightarrow> MorWord" where
  "sample_item l = \<lparr>mw_pos = lit ''adp'', mw_lemma = l, mw_features = []\<rparr>"

definition all_chunks :: "Mor \<Rightarrow> nat" where
  "all_chunks m = 1 + length (mor_post_clitics m)"

lemma sample_maps:
  "letters l \<Longrightarrow> l \<noteq> [] \<Longrightarrow> maps_to plain_unicode (lit ''fra'') (sample_ud i t l h) (sample_item l)"
  using letters_map [of "sample_ud i t l h" "lit ''fra''" plain_unicode]
  by (simp add: sample_ud_def sample_item_def lang2_def lit_def)

lemma sample_relation: "valid_relation (gr_relation (word_relation plain_unicode (k, sample_ud i t l h)))"
  by (simp add: valid_relation_def word_relation_def sample_ud_def plain_unicode_def lit_def
      is_ascii_uppercase_def)

lemma sample_ud_fields [simp]:
  "ud_id (sample_ud i t l h) = i" "ud_text (sample_ud i t l h) = t" "ud_head (sample_ud i t l h) = h"
  "ud_lemma (sample_ud i t l h) = l"
  by (simp_all add: sample_ud_def)

definition sample_french :: UdSentence where
  "sample_french = \<lparr>us_words =
     [sample_ud (UdRange 1 2) [108, 39, 97, 109, 105] (lit ''ami'') 0,
      sample_ud (UdSingle 1) [108, 39] (lit ''le'') 2, sample_ud (UdSingle 2) (lit ''ami'') (lit ''ami'') 0]\<rparr>"

lemma sample_letters: "letters (lit ''le'')" "letters (lit ''ami'')" "lit ''le'' \<noteq> []" "lit ''ami'' \<noteq> []"
  by (simp_all add: lit_def)

lemma sample_french_numbered: "numbered 1 (us_words sample_french)" "length (us_words sample_french) < 2 ^ 64"
proof -
  show "numbered 1 (us_words sample_french)" by (simp add: sample_french_def upt_rec numeral_2_eq_2)
  show "length (us_words sample_french) < 2 ^ 64" by (simp add: sample_french_def)
qed

lemma mapped_tier_is_tree_witness:
  "case map_ud_sentence plain_unicode all_chunks (lit ''fra'') sample_french of
      Some (Inr (mors, gras)) \<Rightarrow>
        length gras = sum_list (map all_chunks mors) + 1 \<and>
        (\<exists>root_chunk.
           gras = map (word_relation plain_unicode) (enumerate 1 (singles (us_words sample_french)))
             @ [terminator_relation (length gras) root_chunk] \<and>
           0 < root_chunk \<and> root_chunk < length gras \<and> gr_head (gras ! (root_chunk - 1)) = 0 \<and>
           list_all (\<lambda>r. (gr_index r, root_chunk) \<in> (head_relation gras)\<^sup>*) gras)
    | _ \<Rightarrow> True"
  using sample_french_numbered by (rule mapped_tier_is_tree)

lemma mapping_never_panics_witness:
  "map_ud_sentence plain_unicode all_chunks (lit ''fra'') sample_french \<noteq> None"
  by (rule mapping_never_panics [OF sample_french_numbered])
    (simp add: sample_french_def sample_maps sample_letters)

lemma truncated_range_panics_witness:
  "map_ud_sentence plain_unicode all_chunks (lit ''fra'')
     \<lparr>us_words = [sample_ud (UdRange 1 2) (lit ''au'') (lit ''ami'') 0]\<rparr> = None"
proof (rule truncated_range_panics)
  show "maps_to plain_unicode (lit ''fra'') (sample_ud (UdRange 1 2) (lit ''au'') (lit ''ami'') 0)
      (sample_item (lit ''ami''))" by (rule sample_maps) (simp_all add: sample_letters)
  show "ud_id (sample_ud (UdRange 1 2) (lit ''au'') (lit ''ami'') 0) = UdRange 1 2" by simp
qed simp_all

definition sample_plain :: UdSentence where
  "sample_plain = \<lparr>us_words =
     [sample_ud (UdSingle 1) (lit ''le'') (lit ''le'') 2, sample_ud (UdSingle 2) (lit ''ami'') (lit ''ami'') 0]\<rparr>"

lemma chunk_and_relation_of_same_word_witness:
  "case map_ud_sentence plain_unicode all_chunks (lit ''fra'') sample_plain of
      Some (Inr (mors, gras)) \<Rightarrow>
        list_all2 (maps_to plain_unicode (lit ''fra'')) (singles (us_words sample_plain)) (concat (map chunks mors)) \<and>
        butlast gras = map (word_relation plain_unicode) (enumerate 1 (singles (us_words sample_plain)))
    | _ \<Rightarrow> True"
  by (rule chunk_and_relation_of_same_word) (simp_all add: sample_plain_def)

lemma preclitic_swaps_relations_witness:
  "map_ud_sentence plain_unicode all_chunks (lit ''fra'') sample_french =
     Some (Inr ([\<lparr>mor_main = sample_item (lit ''ami''), mor_post_clitics = [sample_item (lit ''le'')]\<rparr>],
      [word_relation plain_unicode (1, sample_ud (UdSingle 1) [108, 39] (lit ''le'') 2),
       word_relation plain_unicode (2, sample_ud (UdSingle 2) (lit ''ami'') (lit ''ami'') 0),
       terminator_relation 3 2]))"
  by (rule preclitic_swaps_relations [of sample_french
        "sample_ud (UdRange 1 2) [108, 39, 97, 109, 105] (lit ''ami'') 0"])
    (simp_all add: sample_french_def sample_maps sample_letters sample_relation all_chunks_def is_clitic_def
      lang2_def ends_with_def, simp_all add: lit_def)

definition sample_case :: UdWord where
  "sample_case = (sample_ud (UdSingle 1) (lit ''ami'') (lit ''ami'') 0)
     \<lparr>ud_upos := UdValue UpAdj, ud_feats := Some (lit ''Case='' @ lit ''a&b'')\<rparr>"

lemma features_not_sanitized_witness:
  "\<exists>x. maps_to plain_unicode (lit ''fra'') sample_case x \<and> mw_features x = [lit ''a&b'', lit ''S1'']"
proof -
  obtain x where x: "maps_to plain_unicode (lit ''fra'') sample_case x"
    using letters_map [of sample_case "lit ''fra''" plain_unicode]
    by (auto simp: sample_case_def sample_letters lang2_def lit_def)
  have "mw_features x = [lit ''a&b'', lit ''S1'']"
    by (rule features_not_sanitized [OF _ _ _ _ _ x])
      (simp_all add: sample_case_def, simp_all add: lit_def)
  with x show ?thesis by blast
qed

definition sample_repeated :: UdSentence where
  "sample_repeated = \<lparr>us_words = map (\<lambda>(k, h). sample_ud (UdSingle k) (lit ''ami'') (lit ''ami'') h)
     [(1, 0), (2, 1), (1, 2)]\<rparr>"

lemma repeated_identifiers_accepted_witness:
  "\<exists>mors gras. map_ud_sentence plain_unicode all_chunks (lit ''fra'') sample_repeated = Some (Inr (mors, gras)) \<and>
    map gr_index gras = [3, 2, 3, 4]"
proof (rule repeated_identifiers_accepted)
  let ?w = "\<lambda>k h. sample_ud (UdSingle k) (lit ''ami'') (lit ''ami'') h"
  show "us_words sample_repeated = [?w 1 0, ?w 2 1, ?w 1 2]" by (simp add: sample_repeated_def)
  show "maps_to plain_unicode (lit ''fra'') (?w 1 0) (sample_item (lit ''ami''))"
    "maps_to plain_unicode (lit ''fra'') (?w 2 1) (sample_item (lit ''ami''))"
    "maps_to plain_unicode (lit ''fra'') (?w 1 2) (sample_item (lit ''ami''))"
    by (rule sample_maps; simp add: sample_letters)+
qed (simp_all add: sample_relation all_chunks_def mor_of_def)

section \<open>Rules that never apply\<close>

text \<open>
  A test that implies another, and a row of the Japanese table all of whose tests are implied by those
  of the row \<open>q\<close>: it applies wherever \<open>q\<close> does.
\<close>

fun test_implies :: "JaTest \<Rightarrow> JaTest \<Rightarrow> bool" where
  "test_implies (TextHas a) (TextHas b) = contains a b"
| "test_implies (TextIs a) (TextHas b) = contains a b"
| "test_implies t u = (t = u)"

definition shadows :: "JaTest list \<times> rstr \<times> rstr \<Rightarrow> JaTest list \<times> rstr \<times> rstr \<Rightarrow> bool" where
  "shadows p q = list_all (\<lambda>u. list_ex (\<lambda>t. test_implies t u) (fst q)) (fst p)"

text \<open>The table without its row \<open>k\<close>.\<close>

definition without :: "nat \<Rightarrow> 'a list \<Rightarrow> 'a list" where
  "without k xs = take k xs @ drop (Suc k) xs"

lemma without_nth: "j < k \<Longrightarrow> k < length xs \<Longrightarrow> without k xs ! j = xs ! j"
  by (simp add: without_def nth_append)

lemma without_length: "k < length xs \<Longrightarrow> length (without k xs) = length xs - 1"
  by (simp add: without_def)

lemma starts_with_append: "starts_with s p \<Longrightarrow> starts_with (s @ t) p"
  by (auto simp: starts_with_iff)

lemma contains_appends: "contains q p \<Longrightarrow> contains (a @ q @ b) p"
proof (induction a)
  case Nil
  then show ?case
  proof (induction q)
    case Nil
    then show ?case by (cases b) simp_all
  next
    case (Cons c q)
    then show ?case using starts_with_append [of "c # q" p b] by auto
  qed
next
  case (Cons c a)
  then show ?case by simp
qed

lemma contains_parts: "contains s p \<Longrightarrow> \<exists>a b. s = a @ p @ b"
proof (induction s)
  case (Cons c s)
  show ?case
  proof (cases "starts_with (c # s) p")
    case True
    then obtain t where "c # s = [] @ p @ t" by (auto simp: starts_with_iff)
    then show ?thesis by blast
  next
    case False
    then obtain a b where "s = a @ p @ b" using Cons by auto
    then have "c # s = (c # a) @ p @ b" by simp
    then show ?thesis by blast
  qed
qed simp

lemma contains_trans: "contains s q \<Longrightarrow> contains q p \<Longrightarrow> contains s p"
  using contains_parts contains_appends by metis

lemma test_implies_sound: "test_implies t u \<Longrightarrow> ja_test upos target w t \<Longrightarrow> ja_test upos target w u"
  by (induction t u rule: test_implies.induct) (auto intro: contains_trans)

lemma shadows_sound:
  "shadows p q \<Longrightarrow> list_all (ja_test upos target w) (fst q) \<Longrightarrow> list_all (ja_test upos target w) (fst p)"
  unfolding shadows_def list_all_iff list_ex_iff by (blast intro: test_implies_sound)

lemma find_over_append: "find P (xs @ ys) = (case find P xs of Some x \<Rightarrow> Some x | None \<Rightarrow> find P ys)"
  by (induction xs) auto

lemma find_without:
  assumes "j < k" "k < length xs" "P (xs ! k) \<Longrightarrow> P (xs ! j)"
  shows "find P (without k xs) = find P xs"
proof -
  have split: "xs = take k xs @ xs ! k # drop (Suc k) xs" using assms(2) by (rule id_take_nth_drop)
  have "xs ! j \<in> set (take k xs)" using assms(1,2) by (auto simp: in_set_conv_nth intro!: exI [of _ j])
  then have "find P (take k xs) = None \<Longrightarrow> \<not> P (xs ! k)" using assms(3) by (auto simp: find_None_iff)
  then have "find P (take k xs @ xs ! k # drop (Suc k) xs) = find P (without k xs)"
    by (auto simp: find_over_append without_def split: option.split)
  then show ?thesis using split by simp
qed

lemma ja_first_without:
  assumes "j < k" "k < length rules" "shadows (rules ! j) (rules ! k)"
  shows "ja_first (without k rules) upos target w = ja_first rules upos target w"
proof -
  have "find (\<lambda>p. list_all (ja_test upos target w) (fst p)) (without k rules) =
      find (\<lambda>p. list_all (ja_test upos target w) (fst p)) rules"
    using assms by (intro find_without [of j]) (auto intro: shadows_sound)
  then show ?thesis by (simp add: ja_first_def case_prod_unfold)
qed

text \<open>
  Five rows of the Japanese table are never applied, because an earlier row applies wherever they do:
  without them every word is treated as with them.
\<close>

theorem japanese_dead_rows:
  "japanese_verbform upos target w =
     ja_first (without 4 (without 51 (without 60 (without 61 (without 62 ja_rules))))) upos target w"
proof -
  note rows = ja_rules_def ja_rules_first_def ja_rules_second_def ja_rules_third_def
  have size: "length ja_rules = 65" by (simp add: rows)
  have "shadows (ja_rules ! 5) (ja_rules ! 62)" "shadows (ja_rules ! 49) (ja_rules ! 61)"
    "shadows (ja_rules ! 50) (ja_rules ! 60)" "shadows (ja_rules ! 48) (ja_rules ! 51)"
    "shadows (ja_rules ! 2) (ja_rules ! 4)"
    by (simp_all add: rows shadows_def)
  then show ?thesis
    by (simp add: japanese_verbform_def ja_first_without [of 5] ja_first_without [of 49]
        ja_first_without [of 50] ja_first_without [of 48] ja_first_without [of 2] without_nth without_length size)
qed

end
