(* ===== verification/Pool_State.thy ===== *)
theory Pool_State
  imports Memory_Tier Errors Command_Catalog
begin

text \<open>
  The state of the worker pool (\<open>batchalign-app/src/worker/pool\<close>): its configuration, the groups of
  workers of one key with their two queues, two semaphores and counter, the map of groups, and the
  operations on them that happen at one point: semaphores, slot claiming, the non-blocking checkout of
  TCP workers, status queries. A worker is its process id.
\<close>

section \<open>Configuration\<close>

type_synonym Handle = nat
type_synonym WorkerKey = "WorkerTarget \<times> WorkerLanguage \<times> rstr"

datatype WarmupStatus = WarmNotStarted | WarmInProgress | WarmComplete

definition warmup_from_u8 :: "nat \<Rightarrow> WarmupStatus" where
  "warmup_from_u8 v = (if v = 1 then WarmInProgress else if v = 2 then WarmComplete else WarmNotStarted)"

fun warmup_as_u8 :: "WarmupStatus \<Rightarrow> nat" where
  "warmup_as_u8 WarmNotStarted = 0"
| "warmup_as_u8 WarmInProgress = 1"
| "warmup_as_u8 WarmComplete = 2"

text \<open>
  The cap computed from the available memory, in bytes: a worker for every six gibibytes, at least two
  and at most 32, and four when the memory cannot be read.
\<close>

definition default_max_workers_per_key :: nat where "default_max_workers_per_key = 4"
definition absolute_max_total_workers :: nat where "absolute_max_total_workers = 32"
definition ram_per_worker_bytes :: nat where "ram_per_worker_bytes = 6 * 1024 * 1024 * 1024"

definition default_max_total_workers :: "nat \<Rightarrow> nat" where
  "default_max_total_workers available =
     (if available = 0 then 4
      else max 2 (min absolute_max_total_workers (available div ram_per_worker_bytes)))"

record PoolConfig =
  pc_python_path :: rstr
  pc_health_check_interval_s :: nat
  pc_idle_timeout_s :: nat
  pc_ready_timeout_s :: nat
  pc_test_echo :: bool
  pc_max_workers_per_key :: nat
  pc_max_total_workers :: nat
  pc_verbose :: nat
  pc_engine_overrides :: rstr
  pc_bootstrap_mode :: WorkerBootstrapMode
  pc_audio_task_timeout_s :: nat
  pc_analysis_task_timeout_s :: nat
  pc_worker_registry_path :: rstr

definition default_pool_config :: "rstr \<Rightarrow> WorkerBootstrapMode \<Rightarrow> PoolConfig" where
  "default_pool_config python mode =
     \<lparr>pc_python_path = python, pc_health_check_interval_s = 30, pc_idle_timeout_s = 600,
      pc_ready_timeout_s = 300, pc_test_echo = False,
      pc_max_workers_per_key = default_max_workers_per_key, pc_max_total_workers = 0, pc_verbose = 0,
      pc_engine_overrides = [], pc_bootstrap_mode = mode, pc_audio_task_timeout_s = 0,
      pc_analysis_task_timeout_s = 0, pc_worker_registry_path = []\<rparr>"

definition effective_max_total_workers :: "nat \<Rightarrow> PoolConfig \<Rightarrow> nat" where
  "effective_max_total_workers available cfg =
     (if pc_max_total_workers cfg > 0 then pc_max_total_workers cfg else default_max_total_workers available)"

section \<open>Groups\<close>

text \<open>
  A group: the queue of idle workers, the permits of its semaphore, the same for TCP workers, the
  counter of live workers, and whether the bootstrap lock is held.
\<close>

record WorkerGroup =
  wg_idle :: "Handle list"
  wg_available :: nat
  wg_tcp_workers :: "Handle list"
  wg_tcp_available :: nat
  wg_total :: nat
  wg_bootstrap :: bool

definition new_group :: WorkerGroup where
  "new_group = \<lparr>wg_idle = [], wg_available = 0, wg_tcp_workers = [], wg_tcp_available = 0, wg_total = 0,
     wg_bootstrap = False\<rparr>"

text \<open>
  Groups are shared behind \<open>Arc\<close>, so a task may hold a group that is no longer in the map: a group
  has an identity. Identities from \<open>pl_next\<close> on have not been given out; their groups are new.
\<close>

record Pool =
  pl_groups :: "nat \<Rightarrow> WorkerGroup"
  pl_next :: nat
  pl_map :: "(WorkerKey, nat) hmap"
  pl_capabilities :: bool

definition new_pool :: Pool where
  "new_pool = \<lparr>pl_groups = (\<lambda>g. new_group), pl_next = 0, pl_map = [], pl_capabilities = False\<rparr>"

definition on_group :: "nat \<Rightarrow> (WorkerGroup \<Rightarrow> WorkerGroup) \<Rightarrow> Pool \<Rightarrow> Pool" where
  "on_group g f p = p\<lparr>pl_groups := (pl_groups p)(g := f (pl_groups p g))\<rparr>"

definition get_or_create_group :: "WorkerKey \<Rightarrow> Pool \<Rightarrow> nat \<times> Pool" where
  "get_or_create_group key p =
     (case hm_get (pl_map p) key of
        Some g \<Rightarrow> (g, p)
      | None \<Rightarrow> (pl_next p, p\<lparr>pl_next := pl_next p + 1, pl_map := hm_insert key (pl_next p) (pl_map p)\<rparr>))"

definition push_idle :: "Handle \<Rightarrow> WorkerGroup \<Rightarrow> WorkerGroup" where
  "push_idle h w = w\<lparr>wg_idle := wg_idle w @ [h]\<rparr>"

definition add_permits :: "nat \<Rightarrow> WorkerGroup \<Rightarrow> WorkerGroup" where
  "add_permits n w = w\<lparr>wg_available := wg_available w + n\<rparr>"

definition forget_permit :: "WorkerGroup \<Rightarrow> WorkerGroup" where
  "forget_permit w = w\<lparr>wg_available := wg_available w - 1\<rparr>"

definition push_tcp :: "Handle \<Rightarrow> WorkerGroup \<Rightarrow> WorkerGroup" where
  "push_tcp h w = w\<lparr>wg_tcp_workers := wg_tcp_workers w @ [h]\<rparr>"

definition add_tcp_permit :: "WorkerGroup \<Rightarrow> WorkerGroup" where
  "add_tcp_permit w = w\<lparr>wg_tcp_available := wg_tcp_available w + 1\<rparr>"

text \<open>\<open>fetch_add\<close> and \<open>fetch_sub\<close> on the counter; a subtraction below zero wraps round.\<close>

definition add_total :: "WorkerGroup \<Rightarrow> WorkerGroup" where
  "add_total w = w\<lparr>wg_total := wg_total w + 1\<rparr>"

definition sub_total :: "nat \<Rightarrow> WorkerGroup \<Rightarrow> WorkerGroup" where
  "sub_total n w = w\<lparr>wg_total := (if n \<le> wg_total w then wg_total w - n else wg_total w + 2 ^ 64 - n)\<rparr>"

definition set_bootstrap :: "bool \<Rightarrow> WorkerGroup \<Rightarrow> WorkerGroup" where
  "set_bootstrap b w = w\<lparr>wg_bootstrap := b\<rparr>"

definition global_worker_count :: "Pool \<Rightarrow> nat" where
  "global_worker_count p = sum_list (map (\<lambda>g. wg_total (pl_groups p g)) (hm_values (pl_map p)))"

definition record_capabilities :: "Pool \<Rightarrow> Pool" where
  "record_capabilities p = p\<lparr>pl_capabilities := True\<rparr>"

section \<open>TCP workers\<close>

text \<open>Both run under the lock of the map.\<close>

definition try_checkout_tcp :: "WorkerKey \<Rightarrow> Pool \<Rightarrow> (nat \<times> Handle) option \<times> Pool" where
  "try_checkout_tcp key p =
     (case hm_get (pl_map p) key of
        None \<Rightarrow> (None, p)
      | Some g \<Rightarrow>
          (let w = pl_groups p g in
           if wg_tcp_available w = 0 then (None, p)
           else (case wg_tcp_workers w of
                   [] \<Rightarrow> (None, on_group g (\<lambda>w. w\<lparr>wg_tcp_available := wg_tcp_available w - 1\<rparr>) p)
                 | h # hs \<Rightarrow>
                     (Some (g, h),
                      on_group g (\<lambda>w. w\<lparr>wg_tcp_available := wg_tcp_available w - 1, wg_tcp_workers := hs\<rparr>) p))))"

text \<open>A handle whose key is no longer in the map is dropped; the group it goes to is returned.\<close>

definition return_tcp_worker :: "Handle \<Rightarrow> WorkerKey \<Rightarrow> Pool \<Rightarrow> nat option \<times> Pool" where
  "return_tcp_worker h key p =
     (case hm_get (pl_map p) key of
        None \<Rightarrow> (None, p)
      | Some g \<Rightarrow> (Some g, on_group g (\<lambda>w. add_tcp_permit (push_tcp h w)) p))"

section \<open>Status\<close>

definition has_idle_group :: "WorkerTarget \<Rightarrow> WorkerLanguage \<Rightarrow> Pool \<Rightarrow> bool" where
  "has_idle_group target lang p =
     list_ex (\<lambda>((t, l, ov), g). t = target \<and> l = lang \<and>
       (wg_idle (pl_groups p g) \<noteq> [] \<or> wg_tcp_workers (pl_groups p g) \<noteq> [])) (pl_map p)"

text \<open>
  \<open>try_lock\<close> on the maps of shared GPU workers fails while they are in use: their keys are \<open>None\<close> then.
\<close>

definition has_gpu_key :: "WorkerTarget \<Rightarrow> WorkerLanguage \<Rightarrow> WorkerKey list option \<Rightarrow> bool" where
  "has_gpu_key target lang keys =
     (case keys of None \<Rightarrow> False | Some ks \<Rightarrow> list_ex (\<lambda>(t, l, ov). t = target \<and> l = lang) ks)"

definition has_idle_workers ::
  "WorkerBootstrapMode \<Rightarrow> ReleasedCommand \<Rightarrow> WorkerLanguage \<Rightarrow> WorkerKey list option \<Rightarrow> WorkerKey list option \<Rightarrow> Pool \<Rightarrow> bool" where
  "has_idle_workers mode command lang tcp_gpu gpu p =
     (case for_command_with_mode command mode of
        None \<Rightarrow> False
      | Some t \<Rightarrow>
          if target_is_concurrent t then has_gpu_key t lang tcp_gpu \<or> has_gpu_key t lang gpu
          else has_idle_group t lang p)"

definition worker_count :: "WorkerKey list option \<Rightarrow> WorkerKey list option \<Rightarrow> Pool \<Rightarrow> nat" where
  "worker_count tcp_gpu gpu p =
     global_worker_count p + (case gpu of None \<Rightarrow> 0 | Some ks \<Rightarrow> length ks)
       + (case tcp_gpu of None \<Rightarrow> 0 | Some ks \<Rightarrow> length ks)"

definition key_text :: "WorkerKey \<Rightarrow> rstr" where
  "key_text = (\<lambda>(target, lang, ov).
     target_label target @ lit '':'' @ as_worker_arg lang @ (if ov = [] then [] else lit '':'' @ ov))"

definition group_line :: "WorkerKey \<Rightarrow> WorkerGroup \<Rightarrow> rstr" where
  "group_line key w =
     key_text key @ lit '' ('' @ show_nat (wg_total w) @ lit '' total, '' @ show_nat (length (wg_idle w)) @ lit '' idle)''"

definition worker_keys :: "WorkerKey list option \<Rightarrow> WorkerKey list option \<Rightarrow> Pool \<Rightarrow> rstr list" where
  "worker_keys tcp_gpu gpu p =
     sort (map (\<lambda>(key, g). group_line key (pl_groups p g)) (pl_map p)
       @ (case gpu of None \<Rightarrow> [] | Some ks \<Rightarrow> map (\<lambda>k. key_text k @ lit '' (1 total, shared)'') ks)
       @ (case tcp_gpu of None \<Rightarrow> [] | Some ks \<Rightarrow> map (\<lambda>k. key_text k @ lit '' (1 total, tcp-shared)'') ks))"

end
