(* ===== verification/Pool_Steps.thy ===== *)
theory Pool_Steps
  imports Pool_State
begin

text \<open>
  The tasks that share the pool, one step for every atomic operation of the code: the checkout loop,
  spawning into a group with its claim, bootstrap lock and spawn, the return of a worker, dispatch over
  TCP, pre-scaling, the integration of a TCP worker, the health check and shutdown. A system is a pool
  with a list of tasks; an event lets one task take its next step.
\<close>

section \<open>Tasks\<close>

datatype Origin = FromCheckout | FromPreScale nat

datatype Purpose = ForRequest | ForCapabilities

datatype Outcome =
  OcDone
| OcFailed WorkerError
| OcSlotLeaked nat
| OcTcpDropped nat
| OcTcpMoved nat nat

text \<open>
  The states of a task. The first argument is the group it works on; \<open>Sp\<close> is spawning into a group,
  \<open>Ps\<close> pre-scaling, \<open>Tc\<close> the integration of a TCP worker, \<open>Hc\<close> the health check with the workers still
  to be checked, those to be returned, the numbers to restart and removed, and the groups that are
  left, and \<open>Sh\<close> shutdown.
\<close>

datatype Task =
  ReqStart Purpose WorkerKey
| TcpBusy nat Purpose WorkerKey Handle
| CkTry nat | CkPop nat | CkGiveBack nat | CkFull nat | CkWait nat
| SpClaim nat Origin | SpGlobal nat Origin nat | SpCas nat Origin nat | SpBootstrap nat Origin
| SpSpawn nat Origin | SpPermit nat Origin
| Busy nat Handle | Returning nat
| PsStart WorkerKey nat | PsLoop nat nat
| TcAdd WorkerKey Handle | TcPush nat Handle | TcPermit nat | TcTotal nat
| HcStart | HcGroups "nat list"
| HcCheck nat "Handle list" "Handle list" nat nat "nat list"
| HcTotal nat nat nat "nat list"
| HcRestart nat nat "nat list" | HcSpawn nat nat "nat list" | HcPush nat nat Handle "nat list"
| HcPermit nat nat "nat list"
| HcRetain
| ShStart | ShGroups "nat list" | ShTotal nat nat "nat list"
| Finished Outcome

text \<open>Where a spawn into a group goes on: after success, at capacity, after a failure.\<close>

fun spawn_done :: "nat \<Rightarrow> Origin \<Rightarrow> Task" where
  "spawn_done g FromCheckout = CkTry g"
| "spawn_done g (FromPreScale n) = PsLoop g n"

fun spawn_full :: "nat \<Rightarrow> Origin \<Rightarrow> Task" where
  "spawn_full g FromCheckout = CkFull g"
| "spawn_full g (FromPreScale n) = Finished OcDone"

fun spawn_failed :: "Origin \<Rightarrow> WorkerError \<Rightarrow> Task" where
  "spawn_failed FromCheckout e = Finished (OcFailed e)"
| "spawn_failed (FromPreScale n) e = Finished OcDone"

definition no_worker_error :: WorkerError where
  "no_worker_error = WeSpawnFailed (lit ''global worker cap reached and no workers exist'')"

definition checkout_start :: "WorkerKey \<Rightarrow> Pool \<Rightarrow> Pool \<times> Task" where
  "checkout_start key p = (case get_or_create_group key p of (g, p) \<Rightarrow> (p, CkTry g))"

text \<open>
  The start of a request: over TCP if the target is a profile and a TCP worker is free, otherwise by
  checkout. A request for capabilities does nothing when they are known.
\<close>

definition request_start :: "PoolConfig \<Rightarrow> Purpose \<Rightarrow> WorkerKey \<Rightarrow> Pool \<Rightarrow> Pool \<times> Task" where
  "request_start cfg purpose key p =
     (if purpose = ForCapabilities \<and> (pc_test_echo cfg \<or> pl_capabilities p) then (p, Finished OcDone)
      else
        (case fst key of
           WtInferTask task \<Rightarrow> checkout_start key p
         | WtProfile profile \<Rightarrow>
             (case try_checkout_tcp key p of
                (Some (g, h), p) \<Rightarrow> (p, TcpBusy g purpose key h)
              | (None, p) \<Rightarrow> checkout_start key p)))"

definition pre_scale_start :: "PoolConfig \<Rightarrow> WorkerKey \<Rightarrow> nat \<Rightarrow> Pool \<Rightarrow> Pool \<times> Task" where
  "pre_scale_start cfg key target p =
     (if (case hm_get (pl_map p) key of None \<Rightarrow> False | Some g \<Rightarrow> wg_tcp_workers (pl_groups p g) \<noteq> [])
      then (p, Finished OcDone)
      else (case get_or_create_group key p of
              (g, p) \<Rightarrow> (p, PsLoop g (min target (pc_max_workers_per_key cfg)))))"

text \<open>The end of a TCP request: the handle goes back to the group its key now has.\<close>

definition tcp_return :: "nat \<Rightarrow> WorkerKey \<Rightarrow> Handle \<Rightarrow> Pool \<Rightarrow> Pool \<times> Task" where
  "tcp_return g key h p =
     (case return_tcp_worker h key p of
        (None, p) \<Rightarrow> (p, Finished (OcTcpDropped g))
      | (Some g', p) \<Rightarrow> (p, Finished (if g' = g then OcDone else OcTcpMoved g g')))"

section \<open>Steps of the code\<close>

text \<open>The checkout loop.\<close>

fun checkout_step :: "Pool \<Rightarrow> Task \<Rightarrow> (Pool \<times> Task) option" where
  "checkout_step p (CkTry g) =
     (if wg_available (pl_groups p g) > 0 then Some (on_group g forget_permit p, CkPop g)
      else Some (p, SpClaim g FromCheckout))"
| "checkout_step p (CkPop g) =
     (case wg_idle (pl_groups p g) of
        [] \<Rightarrow> Some (p, CkGiveBack g)
      | h # hs \<Rightarrow> Some (on_group g (\<lambda>w. w\<lparr>wg_idle := hs\<rparr>) p, Busy g h))"
| "checkout_step p (CkGiveBack g) = Some (on_group g (add_permits 1) p, CkTry g)"
| "checkout_step p (CkFull g) =
     Some (p, if wg_total (pl_groups p g) = 0 then Finished (OcFailed no_worker_error) else CkWait g)"
| "checkout_step p (CkWait g) =
     (if wg_available (pl_groups p g) > 0 then Some (on_group g forget_permit p, CkPop g) else None)"
| "checkout_step p t = None"

text \<open>Claiming a slot in a group: the two limits, then compare-and-exchange on the counter.\<close>

fun claim_step :: "nat \<Rightarrow> PoolConfig \<Rightarrow> Pool \<Rightarrow> Task \<Rightarrow> (Pool \<times> Task) option" where
  "claim_step ram cfg p (SpClaim g origin) =
     Some (p, if wg_total (pl_groups p g) \<ge> pc_max_workers_per_key cfg then spawn_full g origin
              else SpGlobal g origin (wg_total (pl_groups p g)))"
| "claim_step ram cfg p (SpGlobal g origin current) =
     Some (p, if global_worker_count p \<ge> effective_max_total_workers ram cfg then spawn_full g origin
              else SpCas g origin current)"
| "claim_step ram cfg p (SpCas g origin current) =
     (if wg_total (pl_groups p g) = current then Some (on_group g add_total p, SpBootstrap g origin)
      else Some (p, SpClaim g origin))"
| "claim_step ram cfg p t = None"

text \<open>Spawning under the bootstrap lock; \<open>SpSpawn\<close> waits for the process.\<close>

fun spawn_step :: "Pool \<Rightarrow> Task \<Rightarrow> (Pool \<times> Task) option" where
  "spawn_step p (SpBootstrap g origin) =
     (if wg_bootstrap (pl_groups p g) then None
      else Some (on_group g (set_bootstrap True) p, SpSpawn g origin))"
| "spawn_step p (SpSpawn g origin) = None"
| "spawn_step p (SpPermit g origin) =
     Some (on_group g (\<lambda>w. set_bootstrap False (add_permits 1 w)) p, spawn_done g origin)"
| "spawn_step p t = None"

text \<open>The destructor of a checked-out worker: first the queue, then the permit.\<close>

fun give_back_step :: "Pool \<Rightarrow> Task \<Rightarrow> (Pool \<times> Task) option" where
  "give_back_step p (Busy g h) = Some (on_group g (push_idle h) p, Returning g)"
| "give_back_step p (Returning g) = Some (on_group g (add_permits 1) p, Finished OcDone)"
| "give_back_step p t = None"

text \<open>Pre-scaling.\<close>

fun pre_scale_step :: "PoolConfig \<Rightarrow> Pool \<Rightarrow> Task \<Rightarrow> (Pool \<times> Task) option" where
  "pre_scale_step cfg p (PsStart key target) = Some (pre_scale_start cfg key target p)"
| "pre_scale_step cfg p (PsLoop g target) =
     Some (p, if wg_total (pl_groups p g) \<ge> target then Finished OcDone else SpClaim g (FromPreScale target))"
| "pre_scale_step cfg p t = None"

text \<open>The integration of a connected TCP worker.\<close>

fun integrate_step :: "Pool \<Rightarrow> Task \<Rightarrow> (Pool \<times> Task) option" where
  "integrate_step p (TcAdd key h) = (case get_or_create_group key p of (g, p) \<Rightarrow> Some (p, TcPush g h))"
| "integrate_step p (TcPush g h) = Some (on_group g (push_tcp h) p, TcPermit g)"
| "integrate_step p (TcPermit g) = Some (on_group g add_tcp_permit p, TcTotal g)"
| "integrate_step p (TcTotal g) = Some (on_group g add_total p, Finished OcDone)"
| "integrate_step p t = None"

text \<open>The health check: drain, examine, return, restart, and at the end drop the empty groups.\<close>

fun health_step :: "Pool \<Rightarrow> Task \<Rightarrow> (Pool \<times> Task) option" where
  "health_step p HcStart = Some (p, HcGroups (hm_values (pl_map p)))"
| "health_step p (HcGroups gs) =
     (case gs of
        [] \<Rightarrow> Some (p, HcRetain)
      | g # gs \<Rightarrow> Some (on_group g (\<lambda>w. w\<lparr>wg_idle := []\<rparr>) p, HcCheck g (wg_idle (pl_groups p g)) [] 0 0 gs))"
| "health_step p (HcCheck g todo keep restarts removed gs) =
     (case todo of
        [] \<Rightarrow> Some (on_group g (\<lambda>w. add_permits (length keep) (w\<lparr>wg_idle := wg_idle w @ keep\<rparr>)) p,
               HcTotal g restarts removed gs)
      | h # hs \<Rightarrow> None)"
| "health_step p (HcTotal g restarts removed gs) =
     Some (if removed > 0 then on_group g (sub_total removed) p else p, HcRestart g restarts gs)"
| "health_step p (HcRestart g n gs) =
     (if n = 0 then Some (p, HcGroups gs)
      else if wg_bootstrap (pl_groups p g) then None
      else Some (on_group g (set_bootstrap True) p, HcSpawn g n gs))"
| "health_step p (HcSpawn g n gs) = None"
| "health_step p (HcPush g n h gs) = Some (on_group g (push_idle h) p, HcPermit g n gs)"
| "health_step p (HcPermit g n gs) =
     Some (on_group g (\<lambda>w. set_bootstrap False (add_permits 1 w)) p, HcRestart g (n - 1) gs)"
| "health_step p HcRetain =
     Some (p\<lparr>pl_map := filter (\<lambda>(key, g). wg_total (pl_groups p g) > 0) (pl_map p)\<rparr>, Finished OcDone)"
| "health_step p t = None"

text \<open>Shutdown of the stdio workers.\<close>

fun shutdown_step :: "Pool \<Rightarrow> Task \<Rightarrow> (Pool \<times> Task) option" where
  "shutdown_step p ShStart = Some (p\<lparr>pl_map := []\<rparr>, ShGroups (hm_values (pl_map p)))"
| "shutdown_step p (ShGroups gs) =
     (case gs of
        [] \<Rightarrow> Some (p, Finished OcDone)
      | g # gs \<Rightarrow>
          Some (on_group g (\<lambda>w. w\<lparr>wg_idle := []\<rparr>) p, ShTotal g (length (wg_idle (pl_groups p g))) gs))"
| "shutdown_step p (ShTotal g n gs) = Some (on_group g (sub_total n) p, ShGroups gs)"
| "shutdown_step p t = None"

text \<open>
  The next step of a task by itself; \<open>None\<close> where it waits for a permit, for the bootstrap lock or
  for the outside.
\<close>

fun go :: "nat \<Rightarrow> PoolConfig \<Rightarrow> Pool \<Rightarrow> Task \<Rightarrow> (Pool \<times> Task) option" where
  "go ram cfg p (ReqStart purpose key) = Some (request_start cfg purpose key p)"
| "go ram cfg p (TcpBusy g purpose key h) =
     Some (tcp_return g key h (if purpose = ForCapabilities then record_capabilities p else p))"
| "go ram cfg p (CkTry g) = checkout_step p (CkTry g)"
| "go ram cfg p (CkPop g) = checkout_step p (CkPop g)"
| "go ram cfg p (CkGiveBack g) = checkout_step p (CkGiveBack g)"
| "go ram cfg p (CkFull g) = checkout_step p (CkFull g)"
| "go ram cfg p (CkWait g) = checkout_step p (CkWait g)"
| "go ram cfg p (SpClaim g origin) = claim_step ram cfg p (SpClaim g origin)"
| "go ram cfg p (SpGlobal g origin current) = claim_step ram cfg p (SpGlobal g origin current)"
| "go ram cfg p (SpCas g origin current) = claim_step ram cfg p (SpCas g origin current)"
| "go ram cfg p (SpBootstrap g origin) = spawn_step p (SpBootstrap g origin)"
| "go ram cfg p (SpSpawn g origin) = spawn_step p (SpSpawn g origin)"
| "go ram cfg p (SpPermit g origin) = spawn_step p (SpPermit g origin)"
| "go ram cfg p (Busy g h) = give_back_step p (Busy g h)"
| "go ram cfg p (Returning g) = give_back_step p (Returning g)"
| "go ram cfg p (PsStart key target) = pre_scale_step cfg p (PsStart key target)"
| "go ram cfg p (PsLoop g target) = pre_scale_step cfg p (PsLoop g target)"
| "go ram cfg p (TcAdd key h) = integrate_step p (TcAdd key h)"
| "go ram cfg p (TcPush g h) = integrate_step p (TcPush g h)"
| "go ram cfg p (TcPermit g) = integrate_step p (TcPermit g)"
| "go ram cfg p (TcTotal g) = integrate_step p (TcTotal g)"
| "go ram cfg p HcStart = health_step p HcStart"
| "go ram cfg p (HcGroups gs) = health_step p (HcGroups gs)"
| "go ram cfg p (HcCheck g todo keep restarts removed gs) = health_step p (HcCheck g todo keep restarts removed gs)"
| "go ram cfg p (HcTotal g restarts removed gs) = health_step p (HcTotal g restarts removed gs)"
| "go ram cfg p (HcRestart g n gs) = health_step p (HcRestart g n gs)"
| "go ram cfg p (HcSpawn g n gs) = health_step p (HcSpawn g n gs)"
| "go ram cfg p (HcPush g n h gs) = health_step p (HcPush g n h gs)"
| "go ram cfg p (HcPermit g n gs) = health_step p (HcPermit g n gs)"
| "go ram cfg p HcRetain = health_step p HcRetain"
| "go ram cfg p ShStart = shutdown_step p ShStart"
| "go ram cfg p (ShGroups gs) = shutdown_step p (ShGroups gs)"
| "go ram cfg p (ShTotal g n gs) = shutdown_step p (ShTotal g n gs)"
| "go ram cfg p (Finished out) = None"

section \<open>Answers from outside\<close>

text \<open>A spawned worker, with the answer to the query for its capabilities; a failed spawn.\<close>

fun spawned :: "Handle \<Rightarrow> bool \<Rightarrow> Pool \<Rightarrow> Task \<Rightarrow> (Pool \<times> Task) option" where
  "spawned h caps p (SpSpawn g origin) =
     Some (on_group g (push_idle h) (if caps then record_capabilities p else p), SpPermit g origin)"
| "spawned h caps p (HcSpawn g n gs) = Some (on_group g add_total p, HcPush g n h gs)"
| "spawned h caps p t = None"

fun spawn_fails :: "WorkerError \<Rightarrow> Pool \<Rightarrow> Task \<Rightarrow> (Pool \<times> Task) option" where
  "spawn_fails e p (SpSpawn g origin) =
     Some (on_group g (\<lambda>w. set_bootstrap False (sub_total 1 w)) p, spawn_failed origin e)"
| "spawn_fails e p (HcSpawn g n gs) = Some (on_group g (set_bootstrap False) p, HcRestart g (n - 1) gs)"
| "spawn_fails e p t = None"

text \<open>What the health check finds of a worker.\<close>

datatype Health = IdleTimeout | ProcessDied | Healthy | Unhealthy

fun examined :: "Health \<Rightarrow> Pool \<Rightarrow> Task \<Rightarrow> (Pool \<times> Task) option" where
  "examined v p (HcCheck g todo keep restarts removed gs) =
     (case todo of
        [] \<Rightarrow> None
      | h # hs \<Rightarrow>
          Some (p, case v of
              IdleTimeout \<Rightarrow> HcCheck g hs keep restarts (removed + 1) gs
            | ProcessDied \<Rightarrow> HcCheck g hs keep (restarts + 1) (removed + 1) gs
            | Healthy \<Rightarrow> HcCheck g hs (keep @ [h]) restarts removed gs
            | Unhealthy \<Rightarrow> HcCheck g hs keep (restarts + 1) (removed + 1) gs))"
| "examined v p t = None"

text \<open>The capabilities of a TCP worker cannot be read: \<open>?\<close> returns before the handle is given back.\<close>

fun probe_fails :: "Pool \<Rightarrow> Task \<Rightarrow> (Pool \<times> Task) option" where
  "probe_fails p (TcpBusy g ForCapabilities key h) =
     (if pl_capabilities p then None else Some (p, Finished (OcTcpDropped g)))"
| "probe_fails p t = None"

text \<open>A worker that was checked out to be asked for its capabilities answers.\<close>

fun probed :: "Pool \<Rightarrow> Task \<Rightarrow> (Pool \<times> Task) option" where
  "probed p (Busy g h) = Some (record_capabilities p, Busy g h)"
| "probed p t = None"

text \<open>\<open>CheckedOutWorker::take\<close>.\<close>

fun take_worker :: "Pool \<Rightarrow> Task \<Rightarrow> (Pool \<times> Task) option" where
  "take_worker p (Busy g h) = Some (on_group g (sub_total 1) p, Finished OcDone)"
| "take_worker p t = None"

text \<open>
  A future that is dropped while it waits, as by a timeout around the request: what has a destructor
  is released (the bootstrap lock, the guard of a checked out worker), a claimed slot is not.
\<close>

fun dropped :: "Pool \<Rightarrow> Task \<Rightarrow> (Pool \<times> Task) option" where
  "dropped p (CkWait g) = Some (p, Finished OcDone)"
| "dropped p (SpBootstrap g origin) = Some (p, Finished (OcSlotLeaked g))"
| "dropped p (SpSpawn g origin) = Some (on_group g (set_bootstrap False) p, Finished (OcSlotLeaked g))"
| "dropped p (Busy g h) = Some (on_group g (push_idle h) p, Returning g)"
| "dropped p (TcpBusy g purpose key h) = Some (p, Finished (OcTcpDropped g))"
| "dropped p t = None"

section \<open>Systems\<close>

datatype Answer =
  Go
| Spawned Handle bool
| SpawnFails WorkerError
| Examined Health
| ProbeFails
| Probed
| TakeWorker
| Dropped

fun react :: "nat \<Rightarrow> PoolConfig \<Rightarrow> Answer \<Rightarrow> Pool \<Rightarrow> Task \<Rightarrow> (Pool \<times> Task) option" where
  "react ram cfg Go p t = go ram cfg p t"
| "react ram cfg (Spawned h caps) p t = spawned h caps p t"
| "react ram cfg (SpawnFails e) p t = spawn_fails e p t"
| "react ram cfg (Examined v) p t = examined v p t"
| "react ram cfg ProbeFails p t = probe_fails p t"
| "react ram cfg Probed p t = probed p t"
| "react ram cfg TakeWorker p t = take_worker p t"
| "react ram cfg Dropped p t = dropped p t"

record System =
  sy_pool :: Pool
  sy_tasks :: "Task list"

definition new_system :: System where
  "new_system = \<lparr>sy_pool = new_pool, sy_tasks = []\<rparr>"

text \<open>A task begins in one of these states.\<close>

fun is_start :: "Task \<Rightarrow> bool" where
  "is_start (ReqStart purpose key) = True"
| "is_start (PsStart key target) = True"
| "is_start (TcAdd key h) = True"
| "is_start HcStart = True"
| "is_start ShStart = True"
| "is_start t = False"

datatype Event = Arrive Task | Act nat Answer

fun sys_step :: "nat \<Rightarrow> PoolConfig \<Rightarrow> Event \<Rightarrow> System \<Rightarrow> System option" where
  "sys_step ram cfg (Arrive t) s = (if is_start t then Some (s\<lparr>sy_tasks := sy_tasks s @ [t]\<rparr>) else None)"
| "sys_step ram cfg (Act i a) s =
     (if i < length (sy_tasks s)
      then (case react ram cfg a (sy_pool s) (sy_tasks s ! i) of
              None \<Rightarrow> None
            | Some (p, t) \<Rightarrow> Some \<lparr>sy_pool = p, sy_tasks = (sy_tasks s)[i := t]\<rparr>)
      else None)"

text \<open>A run over a list of events, \<open>None\<close> when one of them is not possible.\<close>

fun sys_run :: "nat \<Rightarrow> PoolConfig \<Rightarrow> Event list \<Rightarrow> System \<Rightarrow> System option" where
  "sys_run ram cfg [] s = Some s"
| "sys_run ram cfg (e # es) s =
     (case sys_step ram cfg e s of None \<Rightarrow> None | Some s' \<Rightarrow> sys_run ram cfg es s')"

end
