(* ===== verification/Pool_Correct.thy ===== *)
theory Pool_Correct
  imports Pool_Steps
begin

text \<open>
  Invariants of the pool over every interleaving of its tasks: no idle worker without a permit, the
  counter of a group counts its workers, the cap of a key, and that a worker serves one request at a
  time. The balances are proved once, in a locale for a quantity that no step can overdraw.
\<close>

section \<open>Reachable systems\<close>

inductive pool_reach :: "nat \<Rightarrow> PoolConfig \<Rightarrow> (System \<Rightarrow> Event \<Rightarrow> bool) \<Rightarrow> System \<Rightarrow> bool"
  for ram :: nat and cfg :: PoolConfig and ok :: "System \<Rightarrow> Event \<Rightarrow> bool" where
  pool_init: "pool_reach ram cfg ok new_system"
| pool_step: "pool_reach ram cfg ok s \<Longrightarrow> ok s e \<Longrightarrow> sys_step ram cfg e s = Some s' \<Longrightarrow> pool_reach ram cfg ok s'"

text \<open>Every event, and the events of requests, pre-scaling and their answers only.\<close>

abbreviation any_event :: "System \<Rightarrow> Event \<Rightarrow> bool" where
  "any_event s e \<equiv> True"

lemma pool_reach_run:
  "sys_run ram cfg es s = Some s' \<Longrightarrow> pool_reach ram cfg any_event s \<Longrightarrow> pool_reach ram cfg any_event s'"
  by (induction es arbitrary: s) (auto split: option.splits intro: pool_step)

lemma sum_list_update_nat:
  fixes f :: "'a \<Rightarrow> nat"
  shows "i < length ts \<Longrightarrow> sum_list (map f (ts[i := t])) + f (ts ! i) = sum_list (map f ts) + f t"
proof (induction ts arbitrary: i)
  case (Cons a ts)
  then show ?case by (cases i) auto
qed simp

lemma member_le_sum_nat: "i < length ts \<Longrightarrow> (f (ts ! i) :: nat) \<le> sum_list (map f ts)"
  by (simp add: member_le_sum_list)

section \<open>Quantities that are never overdrawn\<close>

locale pool_quota =
  fixes ram :: nat and cfg :: PoolConfig and inside :: "Task \<Rightarrow> bool" and allowed :: "Answer \<Rightarrow> bool"
    and owed funds :: "Pool \<Rightarrow> nat \<Rightarrow> nat" and debit credit :: "nat \<Rightarrow> Task \<Rightarrow> nat"
  assumes initial: "owed new_pool g \<le> funds new_pool g"
    and starting: "is_start t \<Longrightarrow> inside t \<Longrightarrow> debit g t \<le> credit g t"
    and staying: "inside t \<Longrightarrow> allowed a \<Longrightarrow> react ram cfg a p t = Some (p', t') \<Longrightarrow> inside t'"
    and balance: "inside t \<Longrightarrow> allowed a \<Longrightarrow> react ram cfg a p t = Some (p', t') \<Longrightarrow>
      owed p' g + debit g t' + funds p g + credit g t \<le> owed p g + debit g t + funds p' g + credit g t'"
begin

definition keeps :: "System \<Rightarrow> Event \<Rightarrow> bool" where
  "keeps s e = (case e of Arrive t \<Rightarrow> inside t | Act i a \<Rightarrow> allowed a)"

lemma quota:
  assumes "pool_reach ram cfg keeps s"
  shows "list_all inside (sy_tasks s) \<and>
    owed (sy_pool s) g + sum_list (map (debit g) (sy_tasks s)) \<le>
    funds (sy_pool s) g + sum_list (map (credit g) (sy_tasks s))"
  using assms
proof induction
  case pool_init
  then show ?case using initial by (simp add: new_system_def)
next
  case (pool_step s e s')
  show ?case
  proof (cases e)
    case (Arrive t)
    then show ?thesis using pool_step starting [of t g] by (auto simp: keeps_def split: if_splits)
  next
    case (Act i a)
    then obtain p t where r: "i < length (sy_tasks s)" "react ram cfg a (sy_pool s) (sy_tasks s ! i) = Some (p, t)"
      "s' = \<lparr>sy_pool = p, sy_tasks = (sy_tasks s)[i := t]\<rparr>" "allowed a"
      using pool_step by (auto simp: keeps_def split: if_splits option.splits)
    have "inside (sy_tasks s ! i)" using r(1) pool_step.IH by (simp add: list_all_length)
    note b = balance [OF this r(4,2)] and st = staying [OF this r(4,2)]
    show ?thesis
      using b [of g] pool_step.IH sum_list_update_nat [OF r(1), of "debit g" t] sum_list_update_nat [OF r(1), of "credit g" t]
        st r(1,3) set_update_subset_insert [of "sy_tasks s" i t] by (auto simp: list_all_iff)
  qed
qed

end

section \<open>Permits\<close>

text \<open>A permit that a task has taken and not used, or is about to add.\<close>

fun permit_under_way :: "nat \<Rightarrow> Task \<Rightarrow> nat" where
  "permit_under_way g (CkPop k) = of_bool (k = g)"
| "permit_under_way g (CkGiveBack k) = of_bool (k = g)"
| "permit_under_way g (SpPermit k origin) = of_bool (k = g)"
| "permit_under_way g (Returning k) = of_bool (k = g)"
| "permit_under_way g (HcPermit k n gs) = of_bool (k = g)"
| "permit_under_way g t = 0"

lemmas group_ops = on_group_def push_idle_def add_permits_def forget_permit_def push_tcp_def
  add_tcp_permit_def add_total_def sub_total_def set_bootstrap_def record_capabilities_def

lemmas start_ops = request_start_def checkout_start_def pre_scale_start_def tcp_return_def
  try_checkout_tcp_def return_tcp_worker_def get_or_create_group_def

lemma spawn_next [simp]:
  "permit_under_way g (spawn_done k origin) = 0" "permit_under_way g (spawn_full k origin) = 0"
  "permit_under_way g (spawn_failed origin e) = 0"
  by (cases origin; simp)+

fun_cases spawned_cases: "spawned h caps p t = Some r"
fun_cases spawn_fails_cases: "spawn_fails e p t = Some r"
fun_cases examined_cases: "examined v p t = Some r"
fun_cases probe_fails_cases: "probe_fails p t = Some r"
fun_cases probed_cases: "probed p t = Some r"
fun_cases take_worker_cases: "take_worker p t = Some r"
fun_cases dropped_cases: "dropped p t = Some r"

lemmas answer_cases = spawned_cases spawn_fails_cases examined_cases probe_fails_cases probed_cases
  take_worker_cases dropped_cases

lemma permits_go:
  "go ram cfg p t = Some (p', t') \<Longrightarrow>
   length (wg_idle (pl_groups p' g)) + wg_available (pl_groups p g) + permit_under_way g t \<le>
   length (wg_idle (pl_groups p g)) + wg_available (pl_groups p' g) + permit_under_way g t'"
  by (cases t)
    (auto simp: group_ops start_ops Let_def split: if_splits option.splits list.splits prod.splits WorkerTarget.splits)

lemma permits_balance:
  "react ram cfg a p t = Some (p', t') \<Longrightarrow>
   length (wg_idle (pl_groups p' g)) + wg_available (pl_groups p g) + permit_under_way g t \<le>
   length (wg_idle (pl_groups p g)) + wg_available (pl_groups p' g) + permit_under_way g t'"
  by (cases a) (auto simp: group_ops dest: permits_go elim!: answer_cases split: if_splits list.splits Health.splits)

text \<open>Tasks that are not part of a health check or of shutdown.\<close>

fun no_upkeep :: "Task \<Rightarrow> bool" where
  "no_upkeep HcStart = False"
| "no_upkeep (HcGroups gs) = False"
| "no_upkeep (HcCheck g todo keep restarts removed gs) = False"
| "no_upkeep (HcTotal g restarts removed gs) = False"
| "no_upkeep (HcRestart g n gs) = False"
| "no_upkeep (HcSpawn g n gs) = False"
| "no_upkeep (HcPush g n h gs) = False"
| "no_upkeep (HcPermit g n gs) = False"
| "no_upkeep HcRetain = False"
| "no_upkeep ShStart = False"
| "no_upkeep (ShGroups gs) = False"
| "no_upkeep (ShTotal g n gs) = False"
| "no_upkeep t = True"

definition without_upkeep :: "System \<Rightarrow> Event \<Rightarrow> bool" where
  "without_upkeep s e = (case e of Arrive t \<Rightarrow> no_upkeep t | Act i a \<Rightarrow> True)"

lemma no_upkeep_next [simp]:
  "no_upkeep (spawn_done k origin)" "no_upkeep (spawn_full k origin)" "no_upkeep (spawn_failed origin e)"
  by (cases origin; simp)+

lemma no_upkeep_go: "go ram cfg p t = Some (p', t') \<Longrightarrow> no_upkeep t \<Longrightarrow> no_upkeep t'"
  by (cases t)
    (auto simp: start_ops Let_def split: if_splits option.splits list.splits prod.splits WorkerTarget.splits)

lemma no_upkeep_react: "no_upkeep t \<Longrightarrow> react ram cfg a p t = Some (p', t') \<Longrightarrow> no_upkeep t'"
  by (cases a) (auto dest: no_upkeep_go elim!: answer_cases split: if_splits list.splits)

lemma permits_exact_go:
  "go ram cfg p t = Some (p', t') \<Longrightarrow> no_upkeep t \<Longrightarrow>
   wg_available (pl_groups p' g) + permit_under_way g t' + length (wg_idle (pl_groups p g)) \<le>
   wg_available (pl_groups p g) + permit_under_way g t + length (wg_idle (pl_groups p' g))"
  by (cases t)
    (auto simp: group_ops start_ops Let_def split: if_splits option.splits list.splits prod.splits WorkerTarget.splits)

lemma permits_exact:
  "no_upkeep t \<Longrightarrow> react ram cfg a p t = Some (p', t') \<Longrightarrow>
   wg_available (pl_groups p' g) + permit_under_way g t' + length (wg_idle (pl_groups p g)) \<le>
   wg_available (pl_groups p g) + permit_under_way g t + length (wg_idle (pl_groups p' g))"
  by (cases a) (auto simp: group_ops dest: permits_exact_go elim!: answer_cases split: if_splits list.splits)

lemma spawn_next_not_give_back [simp]:
  "spawn_done k origin \<noteq> CkGiveBack g" "spawn_full k origin \<noteq> CkGiveBack g"
  "spawn_failed origin e \<noteq> CkGiveBack g"
  by (cases origin; simp)+

lemmas [simp] = spawn_next_not_give_back [THEN not_sym]

lemma give_back_only:
  "react ram cfg a p t = Some (p', CkGiveBack g) \<Longrightarrow> t = CkPop g \<and> wg_idle (pl_groups p g) = []"
proof (cases a)
  case Go
  assume "react ram cfg a p t = Some (p', CkGiveBack g)"
  then show ?thesis unfolding Go
    by (cases t) (auto simp: start_ops Let_def split: if_splits option.splits list.splits prod.splits WorkerTarget.splits)
qed (auto elim!: answer_cases split: if_splits list.splits Health.splits)

interpretation permits: pool_quota ram cfg "\<lambda>t. True" "\<lambda>a. True"
  "\<lambda>p g. length (wg_idle (pl_groups p g))" "\<lambda>p g. wg_available (pl_groups p g)" "\<lambda>g t. 0" permit_under_way
  for ram cfg
  by unfold_locales (auto simp: new_pool_def new_group_def dest: permits_balance)

interpretation exact_permits: pool_quota ram cfg no_upkeep "\<lambda>a. True"
  "\<lambda>p g. wg_available (pl_groups p g)" "\<lambda>p g. length (wg_idle (pl_groups p g))" permit_under_way "\<lambda>g t. 0"
  for ram cfg
proof
  fix t g assume "is_start t" "no_upkeep t"
  then show "permit_under_way g t \<le> 0" by (cases t) auto
qed (use permits_exact no_upkeep_react in \<open>auto simp: new_pool_def new_group_def\<close>)

lemma pool_reach_mono:
  assumes "pool_reach ram cfg ok s" and "\<And>s e. ok s e \<Longrightarrow> ok' s e"
  shows "pool_reach ram cfg ok' s"
  using assms(1) by induction (use assms(2) in \<open>auto intro: pool_reach.intros\<close>)

text \<open>
  C17: In no interleaving is there an idle worker without a permit for it: every worker in the queue of a
  group can be acquired, or a permit for it is about to be added.
\<close>

theorem idle_worker_has_permit:
  assumes "pool_reach ram cfg any_event s"
  shows "length (wg_idle (pl_groups (sy_pool s) g)) \<le>
    wg_available (pl_groups (sy_pool s) g) + sum_list (map (permit_under_way g) (sy_tasks s))"
proof -
  have "pool_reach ram cfg permits.keeps s"
    using assms by (rule pool_reach_mono) (simp add: permits.keeps_def split: Event.split)
  from permits.quota [OF this, of g] show ?thesis by simp
qed

lemma upkeep_free_permits:
  assumes "pool_reach ram cfg without_upkeep s"
  shows "length (wg_idle (pl_groups (sy_pool s) g)) =
    wg_available (pl_groups (sy_pool s) g) + sum_list (map (permit_under_way g) (sy_tasks s))"
proof -
  have keeps: "exact_permits.keeps s e" if "without_upkeep s e" for s e
    using that by (simp add: exact_permits.keeps_def without_upkeep_def split: Event.splits)
  have "pool_reach ram cfg permits.keeps s"
    using assms by (rule pool_reach_mono) (simp add: permits.keeps_def split: Event.split)
  moreover have "pool_reach ram cfg exact_permits.keeps s" using assms keeps by (rule pool_reach_mono)
  ultimately show ?thesis
    using permits.quota [of ram cfg s g] exact_permits.quota [of ram cfg s g] by simp
qed

text \<open>
  As long as no health check and no shutdown runs, the permits are exactly the idle workers, and a
  checkout that has a permit always finds a worker.
\<close>

theorem permits_count_idle_workers:
  assumes "pool_reach ram cfg without_upkeep s"
  shows "length (wg_idle (pl_groups (sy_pool s) g)) =
      wg_available (pl_groups (sy_pool s) g) + sum_list (map (permit_under_way g) (sy_tasks s)) \<and>
    CkGiveBack g \<notin> set (sy_tasks s)"
proof -
  have "CkGiveBack g \<notin> set (sy_tasks s)"
    using assms
  proof induction
    case (pool_step s e s')
    show ?case
    proof (cases e)
      case (Act i a)
      then obtain p t where r: "i < length (sy_tasks s)" "react ram cfg a (sy_pool s) (sy_tasks s ! i) = Some (p, t)"
        "s' = \<lparr>sy_pool = p, sy_tasks = (sy_tasks s)[i := t]\<rparr>"
        using pool_step.hyps by (auto split: if_splits option.splits)
      have "t \<noteq> CkGiveBack g"
      proof
        assume t: "t = CkGiveBack g"
        have "sy_tasks s ! i = CkPop g \<and> wg_idle (pl_groups (sy_pool s) g) = []"
          using r(2) unfolding t by (rule give_back_only)
        moreover have "permit_under_way g (sy_tasks s ! i) \<le> sum_list (map (permit_under_way g) (sy_tasks s))"
          by (rule member_le_sum_nat [OF r(1)])
        ultimately show False
          using upkeep_free_permits [OF pool_step.hyps(1), of g] nth_mem [OF r(1)] by fastforce
      qed
      then show ?thesis using pool_step.IH r(1,3) set_update_subset_insert [of "sy_tasks s" i t] by auto
    qed (use pool_step in \<open>auto split: if_splits\<close>)
  qed (simp add: new_system_def)
  then show ?thesis using upkeep_free_permits [OF assms] by blast
qed

section \<open>The counter of a group\<close>

text \<open>
  Workers a task accounts for: claimed slots, checked out workers, workers under examination or
  removed but not yet subtracted, and slots that were leaked; TCP workers in use or lost; and TCP workers
  in the queue that the counter does not contain yet, or never will.
\<close>

fun stdio_held :: "nat \<Rightarrow> Task \<Rightarrow> nat" where
  "stdio_held g (SpBootstrap k origin) = of_bool (k = g)"
| "stdio_held g (SpSpawn k origin) = of_bool (k = g)"
| "stdio_held g (Busy k h) = of_bool (k = g)"
| "stdio_held g (HcCheck k todo keep restarts removed gs) =
     (if k = g then length todo + length keep + removed else 0)"
| "stdio_held g (HcTotal k restarts removed gs) = (if k = g then removed else 0)"
| "stdio_held g (HcPush k n h gs) = of_bool (k = g)"
| "stdio_held g (ShTotal k n gs) = (if k = g then n else 0)"
| "stdio_held g (Finished (OcSlotLeaked k)) = of_bool (k = g)"
| "stdio_held g t = 0"

fun tcp_held :: "nat \<Rightarrow> Task \<Rightarrow> nat" where
  "tcp_held g (TcpBusy k purpose key h) = of_bool (k = g)"
| "tcp_held g (Finished (OcTcpDropped k)) = of_bool (k = g)"
| "tcp_held g (Finished (OcTcpMoved k k')) = of_bool (k = g)"
| "tcp_held g t = 0"

fun tcp_uncounted :: "nat \<Rightarrow> Task \<Rightarrow> nat" where
  "tcp_uncounted g (TcPermit k) = of_bool (k = g)"
| "tcp_uncounted g (TcTotal k) = of_bool (k = g)"
| "tcp_uncounted g (Finished (OcTcpMoved k k')) = of_bool (k' = g)"
| "tcp_uncounted g t = 0"

lemma held_next [simp]:
  "stdio_held g (spawn_done k origin) = 0" "stdio_held g (spawn_full k origin) = 0"
  "stdio_held g (spawn_failed origin e) = 0" "tcp_held g (spawn_done k origin) = 0"
  "tcp_held g (spawn_full k origin) = 0" "tcp_held g (spawn_failed origin e) = 0"
  "tcp_uncounted g (spawn_done k origin) = 0" "tcp_uncounted g (spawn_full k origin) = 0"
  "tcp_uncounted g (spawn_failed origin e) = 0"
  by (cases origin; simp)+

lemma tcp_go:
  "go ram cfg p t = Some (p', t') \<Longrightarrow>
   tcp_uncounted g t' + length (wg_tcp_workers (pl_groups p g)) + tcp_held g t \<le>
   tcp_uncounted g t + length (wg_tcp_workers (pl_groups p' g)) + tcp_held g t'"
  by (cases t)
    (auto simp: group_ops start_ops Let_def split: if_splits option.splits list.splits prod.splits WorkerTarget.splits)

lemma tcp_balance:
  "react ram cfg a p t = Some (p', t') \<Longrightarrow>
   tcp_uncounted g t' + length (wg_tcp_workers (pl_groups p g)) + tcp_held g t \<le>
   tcp_uncounted g t + length (wg_tcp_workers (pl_groups p' g)) + tcp_held g t'"
  by (cases a) (auto simp: group_ops dest: tcp_go elim!: answer_cases split: if_splits list.splits Health.splits)

interpretation tcp_counted: pool_quota ram cfg "\<lambda>t. True" "\<lambda>a. True"
  "\<lambda>p g. 0" "\<lambda>p g. length (wg_tcp_workers (pl_groups p g))" tcp_uncounted tcp_held
  for ram cfg
proof
  fix t g assume "is_start t"
  then show "tcp_uncounted g t \<le> tcp_held g t" by (cases t) auto
qed (use tcp_balance in \<open>auto simp: new_pool_def new_group_def\<close>)

definition accounted :: "nat \<Rightarrow> System \<Rightarrow> nat" where
  "accounted g s = length (wg_idle (pl_groups (sy_pool s) g)) + length (wg_tcp_workers (pl_groups (sy_pool s) g)) +
     sum_list (map (stdio_held g) (sy_tasks s)) + sum_list (map (tcp_held g) (sy_tasks s))"

text \<open>A step changes the counter of a group by what it changes the workers accounted for.\<close>

lemma counter_go:
  "go ram cfg p t = Some (p', t') \<Longrightarrow> stdio_held g t \<le> wg_total (pl_groups p g) \<Longrightarrow>
   wg_total (pl_groups p' g) + tcp_uncounted g t' + length (wg_idle (pl_groups p g)) +
     length (wg_tcp_workers (pl_groups p g)) + stdio_held g t + tcp_held g t =
   wg_total (pl_groups p g) + tcp_uncounted g t + length (wg_idle (pl_groups p' g)) +
     length (wg_tcp_workers (pl_groups p' g)) + stdio_held g t' + tcp_held g t'"
  by (cases t)
    (auto simp: group_ops start_ops Let_def split: if_splits option.splits list.splits prod.splits WorkerTarget.splits)

lemma counter_balance:
  "react ram cfg a p t = Some (p', t') \<Longrightarrow> stdio_held g t \<le> wg_total (pl_groups p g) \<Longrightarrow>
   wg_total (pl_groups p' g) + tcp_uncounted g t' + length (wg_idle (pl_groups p g)) +
     length (wg_tcp_workers (pl_groups p g)) + stdio_held g t + tcp_held g t =
   wg_total (pl_groups p g) + tcp_uncounted g t + length (wg_idle (pl_groups p' g)) +
     length (wg_tcp_workers (pl_groups p' g)) + stdio_held g t' + tcp_held g t'"
  by (cases a) (auto simp: group_ops dest: counter_go elim!: answer_cases split: if_splits list.splits Health.splits)

lemma counter_exact:
  assumes "pool_reach ram cfg any_event s"
  shows "wg_total (pl_groups (sy_pool s) g) + sum_list (map (tcp_uncounted g) (sy_tasks s)) = accounted g s"
  using assms
proof induction
  case pool_init
  then show ?case by (simp add: new_system_def new_pool_def new_group_def accounted_def)
next
  case (pool_step s e s')
  show ?case
  proof (cases e)
    case (Arrive t)
    moreover have "is_start t \<Longrightarrow> tcp_uncounted g t = 0 \<and> stdio_held g t = 0 \<and> tcp_held g t = 0" for t
      by (cases t) auto
    ultimately show ?thesis using pool_step by (auto simp: accounted_def split: if_splits)
  next
    case (Act i a)
    then obtain p t where r: "i < length (sy_tasks s)" "react ram cfg a (sy_pool s) (sy_tasks s ! i) = Some (p, t)"
      "s' = \<lparr>sy_pool = p, sy_tasks = (sy_tasks s)[i := t]\<rparr>"
      using pool_step.hyps by (auto split: if_splits option.splits)
    have keeps: "pool_reach ram cfg tcp_counted.keeps s"
      using pool_step.hyps(1) by (rule pool_reach_mono) (simp add: tcp_counted.keeps_def split: Event.split)
    have "stdio_held g (sy_tasks s ! i) \<le> wg_total (pl_groups (sy_pool s) g)"
      using tcp_counted.quota [OF keeps, of g] pool_step.IH member_le_sum_nat [OF r(1), of "stdio_held g"]
      by (simp add: accounted_def)
    from counter_balance [OF r(2) this] show ?thesis
      using pool_step.IH sum_list_update_nat [OF r(1), of "stdio_held g" t]
        sum_list_update_nat [OF r(1), of "tcp_held g" t] sum_list_update_nat [OF r(1), of "tcp_uncounted g" t]
      by (simp add: r(3) accounted_def)
  qed
qed

lemma counter_counts_workers_aux:
  assumes "pool_reach ram cfg any_event s"
  shows "wg_total (pl_groups (sy_pool s) g) + sum_list (map (tcp_uncounted g) (sy_tasks s)) = accounted g s \<and>
    length (wg_idle (pl_groups (sy_pool s) g)) + sum_list (map (stdio_held g) (sy_tasks s)) \<le>
      wg_total (pl_groups (sy_pool s) g)"
proof -
  have "pool_reach ram cfg tcp_counted.keeps s"
    using assms by (rule pool_reach_mono) (simp add: tcp_counted.keeps_def split: Event.split)
  from tcp_counted.quota [OF this, of g] show ?thesis
    using counter_exact [OF assms, of g] by (simp add: accounted_def)
qed

text \<open>
  C16: In every interleaving the counter of a group, with the TCP workers it does not contain yet, is the
  number of its workers: idle, checked out, under examination, claimed, and those that were lost. It
  never falls below zero, and at least the workers of the stdio queue and their slots are contained in
  it.
\<close>

theorem counter_counts_workers:
  assumes "pool_reach ram cfg any_event s"
  shows "wg_total (pl_groups (sy_pool s) g) + sum_list (map (tcp_uncounted g) (sy_tasks s)) = accounted g s \<and>
    length (wg_idle (pl_groups (sy_pool s) g)) + sum_list (map (stdio_held g) (sy_tasks s)) \<le>
      wg_total (pl_groups (sy_pool s) g)"
  using assms by (rule counter_counts_workers_aux)

end
