(* ===== verification/Pool_Safety.thy ===== *)
theory Pool_Safety
  imports Pool_Correct
begin

text \<open>
  The cap of a key, and that a worker serves one request at a time.
\<close>

section \<open>The cap of a key\<close>

text \<open>
  Events other than the integration of a TCP worker and a successful restart by the health check; both
  raise the counter without looking at the cap.
\<close>

definition without_restart :: "System \<Rightarrow> Event \<Rightarrow> bool" where
  "without_restart s e =
     (case e of
        Arrive t \<Rightarrow> (case t of TcAdd key h \<Rightarrow> False | _ \<Rightarrow> True)
      | Act i a \<Rightarrow>
          (case a of
             Spawned h caps \<Rightarrow> (case sy_tasks s ! i of HcSpawn g n gs \<Rightarrow> False | _ \<Rightarrow> True)
           | _ \<Rightarrow> True))"

text \<open>What a claim has read is below the cap, and no task is about to raise the counter without it.\<close>

fun below_cap :: "nat \<Rightarrow> Task \<Rightarrow> bool" where
  "below_cap cap (SpGlobal g origin current) \<longleftrightarrow> current < cap"
| "below_cap cap (SpCas g origin current) \<longleftrightarrow> current < cap"
| "below_cap cap (TcAdd key h) \<longleftrightarrow> False"
| "below_cap cap (TcPush g h) \<longleftrightarrow> False"
| "below_cap cap (TcPermit g) \<longleftrightarrow> False"
| "below_cap cap (TcTotal g) \<longleftrightarrow> False"
| "below_cap cap (HcPush g n h gs) \<longleftrightarrow> False"
| "below_cap cap t \<longleftrightarrow> True"

lemma below_cap_next [simp]:
  "below_cap cap (spawn_done k origin)" "below_cap cap (spawn_full k origin)"
  "below_cap cap (spawn_failed origin e)"
  by (cases origin; simp)+

lemma cap_go:
  "go ram cfg p t = Some (p', t') \<Longrightarrow> below_cap (pc_max_workers_per_key cfg) t \<Longrightarrow>
   stdio_held g t \<le> wg_total (pl_groups p g) \<Longrightarrow> wg_total (pl_groups p g) \<le> pc_max_workers_per_key cfg \<Longrightarrow>
   below_cap (pc_max_workers_per_key cfg) t' \<and> wg_total (pl_groups p' g) \<le> pc_max_workers_per_key cfg"
  by (cases t)
    (auto simp: group_ops start_ops Let_def split: if_splits option.splits list.splits prod.splits WorkerTarget.splits)

definition is_restart :: "Answer \<Rightarrow> Task \<Rightarrow> bool" where
  "is_restart a t = (case a of Spawned h caps \<Rightarrow> (case t of HcSpawn g n gs \<Rightarrow> True | _ \<Rightarrow> False) | _ \<Rightarrow> False)"

lemma cap_react:
  "react ram cfg a p t = Some (p', t') \<Longrightarrow> \<not> is_restart a t \<Longrightarrow> below_cap (pc_max_workers_per_key cfg) t \<Longrightarrow>
   stdio_held g t \<le> wg_total (pl_groups p g) \<Longrightarrow> wg_total (pl_groups p g) \<le> pc_max_workers_per_key cfg \<Longrightarrow>
   below_cap (pc_max_workers_per_key cfg) t' \<and> wg_total (pl_groups p' g) \<le> pc_max_workers_per_key cfg"
  by (cases a)
    (auto simp: group_ops is_restart_def dest: cap_go elim!: answer_cases split: if_splits list.splits Health.splits)

lemma cap_invariant:
  assumes "pool_reach ram cfg without_restart s"
  shows "list_all (below_cap (pc_max_workers_per_key cfg)) (sy_tasks s) \<and>
    wg_total (pl_groups (sy_pool s) g) \<le> pc_max_workers_per_key cfg"
  using assms
proof induction
  case pool_init
  then show ?case by (simp add: new_system_def new_pool_def new_group_def)
next
  case (pool_step s e s')
  show ?case
  proof (cases e)
    case (Arrive t)
    have "is_start t \<Longrightarrow> without_restart s (Arrive t) \<Longrightarrow> below_cap cap t" for cap
      by (cases t) (auto simp: without_restart_def)
    then show ?thesis using pool_step Arrive by (auto split: if_splits)
  next
    case (Act i a)
    then obtain p t where r: "i < length (sy_tasks s)" "react ram cfg a (sy_pool s) (sy_tasks s ! i) = Some (p, t)"
      "s' = \<lparr>sy_pool = p, sy_tasks = (sy_tasks s)[i := t]\<rparr>"
      using pool_step.hyps by (auto split: if_splits option.splits)
    have "pool_reach ram cfg any_event s" using pool_step.hyps(1) by (rule pool_reach_mono) simp
    from counter_counts_workers_aux [OF this, of g]
    have held: "stdio_held g (sy_tasks s ! i) \<le> wg_total (pl_groups (sy_pool s) g)"
      using member_le_sum_nat [OF r(1), of "stdio_held g"] by simp
    have "\<not> is_restart a (sy_tasks s ! i)"
      using pool_step.hyps(2) unfolding Act without_restart_def is_restart_def
      by (simp split: Answer.splits Task.splits)
    moreover have "below_cap (pc_max_workers_per_key cfg) (sy_tasks s ! i)"
      using pool_step.IH r(1) by (simp add: list_all_length)
    ultimately show ?thesis
      using cap_react [OF r(2) _ _ held] pool_step.IH r(1,3) set_update_subset_insert [of "sy_tasks s" i t]
      by (auto simp: list_all_iff)
  qed
qed

text \<open>
  The two steps that take groups out of the map: the end of a round of the health check, and shutdown.
  A request may still hold such a group when its key gets a new one.
\<close>

definition keeps_groups :: "System \<Rightarrow> Event \<Rightarrow> bool" where
  "keeps_groups s e \<longleftrightarrow>
     without_restart s e \<and> (case e of Arrive t \<Rightarrow> True | Act i a \<Rightarrow> sy_tasks s ! i \<notin> {HcRetain, ShStart})"

text \<open>Every group that was ever given out is the group of exactly one key.\<close>

definition one_group_each :: "Pool \<Rightarrow> bool" where
  "one_group_each p \<longleftrightarrow>
     (\<forall>key g. hm_get (pl_map p) key = Some g \<longrightarrow> g < pl_next p) \<and>
     (\<forall>g<pl_next p. \<exists>!key. hm_get (pl_map p) key = Some g)"

lemma one_group_same [simp]:
  "one_group_each (on_group g f p) \<longleftrightarrow> one_group_each p" "one_group_each (record_capabilities p) \<longleftrightarrow> one_group_each p"
  by (simp_all add: one_group_each_def on_group_def record_capabilities_def)

lemma one_group_create:
  assumes "one_group_each p" "get_or_create_group key p = (g, p')"
  shows "one_group_each p'"
proof (cases "hm_get (pl_map p) key")
  case None
  then have p': "p' = p\<lparr>pl_next := pl_next p + 1, pl_map := hm_insert key (pl_next p) (pl_map p)\<rparr>"
    using assms(2) by (auto simp: get_or_create_group_def)
  have get: "hm_get (pl_map p') k = (if k = key then Some (pl_next p) else hm_get (pl_map p) k)" for k
    by (simp add: p' hm_get_def hm_insert_def update_conv')
  have below: "hm_get (pl_map p) k = Some g \<Longrightarrow> g < pl_next p" for k g using assms(1) unfolding one_group_each_def by blast
  have "\<exists>!k. hm_get (pl_map p') k = Some g" if g: "g < pl_next p'" for g
  proof (cases "g = pl_next p")
    case True
    then show ?thesis using below by (auto simp: get)
  next
    case False
    then have "g < pl_next p" using g by (simp add: p')
    then have "\<exists>!k. hm_get (pl_map p) k = Some g" using assms(1) unfolding one_group_each_def by blast
    moreover have "hm_get (pl_map p') k = Some g \<longleftrightarrow> hm_get (pl_map p) k = Some g" for k
      unfolding get using False None by (cases "k = key") (simp_all del: split_paired_All split_paired_Ex)
    ultimately show ?thesis by (simp del: split_paired_All split_paired_Ex)
  qed
  moreover have "hm_get (pl_map p') k = Some g \<Longrightarrow> g < pl_next p'" for k g
    using below [of k g] unfolding get by (auto simp: p' split: if_splits)
  ultimately show ?thesis unfolding one_group_each_def by blast
qed (use assms in \<open>simp add: get_or_create_group_def\<close>)

lemma one_group_tcp:
  "one_group_each p \<Longrightarrow> try_checkout_tcp key p = (r, p') \<Longrightarrow> one_group_each p'"
  "one_group_each p \<Longrightarrow> return_tcp_worker h key p = (r', p') \<Longrightarrow> one_group_each p'"
  by (auto simp: try_checkout_tcp_def return_tcp_worker_def Let_def split: option.splits if_splits list.splits)

lemma one_group_starts:
  assumes "one_group_each p"
  shows "checkout_start key p = (p', t) \<Longrightarrow> one_group_each p'" "request_start cfg purpose key p = (p', t) \<Longrightarrow> one_group_each p'"
    "pre_scale_start cfg key n p = (p', t) \<Longrightarrow> one_group_each p'" "tcp_return g key h p = (p', t) \<Longrightarrow> one_group_each p'"
  using assms
  by (auto simp: checkout_start_def request_start_def pre_scale_start_def tcp_return_def
      split: prod.splits option.splits if_splits WorkerTarget.splits intro: one_group_create one_group_tcp
      dest: one_group_create one_group_tcp)

lemma one_group_go:
  "go ram cfg p t = Some (p', t') \<Longrightarrow> t \<notin> {HcRetain, ShStart} \<Longrightarrow> one_group_each p \<Longrightarrow> one_group_each p'"
  by (cases t)
    (auto dest: one_group_starts one_group_starts(4) [OF iffD2 [OF one_group_same(2)]] one_group_create
      split: if_splits option.splits list.splits prod.splits)

lemma one_group_react:
  "react ram cfg a p t = Some (p', t') \<Longrightarrow> t \<notin> {HcRetain, ShStart} \<Longrightarrow> one_group_each p \<Longrightarrow> one_group_each p'"
  by (cases a) (auto dest: one_group_go elim!: answer_cases split: if_splits list.splits Health.splits)

lemma one_group_invariant:
  assumes "pool_reach ram cfg keeps_groups s"
  shows "one_group_each (sy_pool s)"
  using assms
proof induction
  case pool_init
  then show ?case by (simp add: new_system_def new_pool_def one_group_each_def hm_get_def)
next
  case (pool_step s e s')
  show ?case
  proof (cases e)
    case (Arrive t)
    then show ?thesis using pool_step by (auto split: if_splits)
  next
    case (Act i a)
    then show ?thesis
      using pool_step one_group_react [of ram cfg a "sy_pool s" "sy_tasks s ! i"]
      by (auto simp: keeps_groups_def split: if_splits option.splits)
  qed
qed


section \<open>Places of a worker\<close>

fun task_handles :: "Task \<Rightarrow> Handle list" where
  "task_handles (TcpBusy g purpose key h) = [h]"
| "task_handles (Busy g h) = [h]"
| "task_handles (TcAdd key h) = [h]"
| "task_handles (TcPush g h) = [h]"
| "task_handles (HcCheck g todo keep restarts removed gs) = todo @ keep"
| "task_handles (HcPush g n h gs) = [h]"
| "task_handles t = []"

definition queued :: "Pool \<Rightarrow> nat \<Rightarrow> Handle list" where
  "queued p g = wg_idle (pl_groups p g) @ wg_tcp_workers (pl_groups p g)"

text \<open>The groups a task refers to have been given out.\<close>

fun refers_below :: "nat \<Rightarrow> Task \<Rightarrow> bool" where
  "refers_below n (TcpBusy g purpose key h) \<longleftrightarrow> g < n"
| "refers_below n (CkTry g) \<longleftrightarrow> g < n"
| "refers_below n (CkPop g) \<longleftrightarrow> g < n"
| "refers_below n (CkGiveBack g) \<longleftrightarrow> g < n"
| "refers_below n (CkFull g) \<longleftrightarrow> g < n"
| "refers_below n (CkWait g) \<longleftrightarrow> g < n"
| "refers_below n (SpClaim g origin) \<longleftrightarrow> g < n"
| "refers_below n (SpGlobal g origin current) \<longleftrightarrow> g < n"
| "refers_below n (SpCas g origin current) \<longleftrightarrow> g < n"
| "refers_below n (SpBootstrap g origin) \<longleftrightarrow> g < n"
| "refers_below n (SpSpawn g origin) \<longleftrightarrow> g < n"
| "refers_below n (SpPermit g origin) \<longleftrightarrow> g < n"
| "refers_below n (Busy g h) \<longleftrightarrow> g < n"
| "refers_below n (Returning g) \<longleftrightarrow> g < n"
| "refers_below n (PsLoop g target) \<longleftrightarrow> g < n"
| "refers_below n (TcPush g h) \<longleftrightarrow> g < n"
| "refers_below n (TcPermit g) \<longleftrightarrow> g < n"
| "refers_below n (TcTotal g) \<longleftrightarrow> g < n"
| "refers_below n (HcGroups gs) \<longleftrightarrow> list_all (\<lambda>g. g < n) gs"
| "refers_below n (HcCheck g todo keep restarts removed gs) \<longleftrightarrow> g < n \<and> list_all (\<lambda>g. g < n) gs"
| "refers_below n (HcTotal g restarts removed gs) \<longleftrightarrow> g < n \<and> list_all (\<lambda>g. g < n) gs"
| "refers_below n (HcRestart g m gs) \<longleftrightarrow> g < n \<and> list_all (\<lambda>g. g < n) gs"
| "refers_below n (HcSpawn g m gs) \<longleftrightarrow> g < n \<and> list_all (\<lambda>g. g < n) gs"
| "refers_below n (HcPush g m h gs) \<longleftrightarrow> g < n \<and> list_all (\<lambda>g. g < n) gs"
| "refers_below n (HcPermit g m gs) \<longleftrightarrow> g < n \<and> list_all (\<lambda>g. g < n) gs"
| "refers_below n (ShGroups gs) \<longleftrightarrow> list_all (\<lambda>g. g < n) gs"
| "refers_below n (ShTotal g m gs) \<longleftrightarrow> g < n \<and> list_all (\<lambda>g. g < n) gs"
| "refers_below n t \<longleftrightarrow> True"

definition map_below :: "Pool \<Rightarrow> bool" where
  "map_below p = list_all (\<lambda>g. g < pl_next p) (hm_values (pl_map p))"

text \<open>The group a task changes in its next step.\<close>

definition group_of_key :: "Pool \<Rightarrow> WorkerKey \<Rightarrow> nat" where
  "group_of_key p key = (case hm_get (pl_map p) key of Some g \<Rightarrow> g | None \<Rightarrow> pl_next p)"

fun touched :: "Pool \<Rightarrow> Task \<Rightarrow> nat" where
  "touched p (ReqStart purpose key) = group_of_key p key"
| "touched p (TcpBusy g purpose key h) = group_of_key p key"
| "touched p (CkTry g) = g"
| "touched p (CkPop g) = g"
| "touched p (CkGiveBack g) = g"
| "touched p (CkWait g) = g"
| "touched p (SpCas g origin current) = g"
| "touched p (SpBootstrap g origin) = g"
| "touched p (SpSpawn g origin) = g"
| "touched p (SpPermit g origin) = g"
| "touched p (Busy g h) = g"
| "touched p (Returning g) = g"
| "touched p (TcPush g h) = g"
| "touched p (TcPermit g) = g"
| "touched p (TcTotal g) = g"
| "touched p (HcGroups gs) = (case gs of [] \<Rightarrow> pl_next p | g # gs \<Rightarrow> g)"
| "touched p (HcCheck g todo keep restarts removed gs) = g"
| "touched p (HcTotal g restarts removed gs) = g"
| "touched p (HcRestart g m gs) = g"
| "touched p (HcSpawn g m gs) = g"
| "touched p (HcPush g m h gs) = g"
| "touched p (HcPermit g m gs) = g"
| "touched p (ShGroups gs) = (case gs of [] \<Rightarrow> pl_next p | g # gs \<Rightarrow> g)"
| "touched p (ShTotal g m gs) = g"
| "touched p t = pl_next p"

lemma below_insert: "list_all P (hm_values m) \<Longrightarrow> P v \<Longrightarrow> list_all P (hm_values (hm_insert k v m))"
  by (induction m) (auto simp: hm_values_def hm_insert_def)

lemma below_weaken: "list_all (\<lambda>g. g < (n :: nat)) gs \<Longrightarrow> n \<le> m \<Longrightarrow> list_all (\<lambda>g. g < m) gs"
  by (erule list.pred_mono_strong) simp

lemma below_get: "map_below p \<Longrightarrow> hm_get (pl_map p) key = Some g \<Longrightarrow> g < pl_next p"
  using hm_get_in_values [of "pl_map p" key g] by (simp add: map_below_def list_all_iff)

lemma next_below [simp]:
  "refers_below n (spawn_done g origin) \<longleftrightarrow> g < n" "g < n \<Longrightarrow> refers_below n (spawn_full g origin)"
  "refers_below n (spawn_failed origin e)"
  by (cases origin; simp)+

lemma next_handles [simp]:
  "task_handles (spawn_done g origin) = []" "task_handles (spawn_full g origin) = []"
  "task_handles (spawn_failed origin e) = []"
  by (cases origin; simp)+

lemma refers_weaken: "refers_below n t \<Longrightarrow> n \<le> m \<Longrightarrow> refers_below m t"
  by (cases t) (auto intro: below_weaken)

lemmas go_splits = if_splits option.splits list.splits prod.splits WorkerTarget.splits

lemma on_group_other [simp]:
  "pl_next (on_group g f p) = pl_next p" "pl_map (on_group g f p) = pl_map p"
  "pl_capabilities (on_group g f p) = pl_capabilities p"
  "pl_groups (on_group g f p) k = (if k = g then f (pl_groups p g) else pl_groups p k)"
  by (simp_all add: on_group_def)

lemma map_below_on_group [simp]: "map_below (on_group g f p) = map_below p"
  by (simp add: map_below_def)

lemma record_capabilities_other [simp]:
  "pl_next (record_capabilities p) = pl_next p" "pl_map (record_capabilities p) = pl_map p"
  "pl_groups (record_capabilities p) = pl_groups p" "map_below (record_capabilities p) = map_below p"
  by (simp_all add: record_capabilities_def map_below_def)

text \<open>The four operations that look a key up: what they refer to and which group they change.\<close>

definition sound_step :: "Pool \<Rightarrow> Pool \<Rightarrow> Task \<Rightarrow> bool" where
  "sound_step p p' t' \<longleftrightarrow> refers_below (pl_next p') t' \<and> map_below p' \<and> pl_next p \<le> pl_next p'"

lemma get_or_create:
  assumes "get_or_create_group key p = (g, p')"
  shows "g = group_of_key p key" "pl_groups p' = pl_groups p"
    and "map_below p \<Longrightarrow> g < pl_next p' \<and> map_below p' \<and> pl_next p \<le> pl_next p'"
proof -
  have w: "list_all (\<lambda>k. k < pl_next p + 1) (hm_values (pl_map p))" if "map_below p"
    using that below_weaken [of "pl_next p" _ "pl_next p + 1"] by (simp add: map_below_def)
  show "g = group_of_key p key" "pl_groups p' = pl_groups p"
    using assms by (auto simp: get_or_create_group_def group_of_key_def split: option.splits)
  show "map_below p \<Longrightarrow> g < pl_next p' \<and> map_below p' \<and> pl_next p \<le> pl_next p'"
    using assms below_get w
    by (auto simp: get_or_create_group_def map_below_def below_insert split: option.splits)
qed

lemma checkout_start:
  assumes "checkout_start key p = (p', t')"
  shows "pl_groups p' = pl_groups p" "task_handles t' = []" "map_below p \<Longrightarrow> sound_step p p' t'"
  using assms get_or_create(2,3) [of key p] by (auto simp: checkout_start_def sound_step_def split: prod.splits)

lemma pre_scale_start:
  assumes "pre_scale_start cfg key n p = (p', t')"
  shows "pl_groups p' = pl_groups p" "task_handles t' = []" "map_below p \<Longrightarrow> sound_step p p' t'"
  using assms get_or_create(2,3) [of key p]
  by (auto simp: pre_scale_start_def sound_step_def split: prod.splits if_splits)

lemma try_checkout:
  assumes "try_checkout_tcp key p = (r, p')"
  shows "pl_next p' = pl_next p" "pl_map p' = pl_map p"
    and "k \<noteq> group_of_key p key \<Longrightarrow> pl_groups p' k = pl_groups p k"
    and "count_list (queued p' (group_of_key p key)) h + (case r of Some (g, h') \<Rightarrow> of_bool (h' = h) | None \<Rightarrow> 0) =
      count_list (queued p (group_of_key p key)) h"
    and "map_below p \<Longrightarrow> pl_groups p' \<noteq> pl_groups p \<Longrightarrow> group_of_key p key < pl_next p"
    and "r = Some (g, h) \<Longrightarrow> g = group_of_key p key \<and> (map_below p \<longrightarrow> g < pl_next p)"
  using assms
  by (auto simp: try_checkout_tcp_def group_of_key_def queued_def Let_def dest: below_get
      split: option.splits if_splits list.splits)

lemma tcp_returned:
  assumes "tcp_return g key h p = (p', t')"
  shows "pl_next p' = pl_next p" "pl_map p' = pl_map p" "task_handles t' = []"
    and "k \<noteq> group_of_key p key \<Longrightarrow> pl_groups p' k = pl_groups p k"
    and "count_list (queued p' (group_of_key p key)) h' \<le>
      count_list (queued p (group_of_key p key)) h' + of_bool (h = h')"
    and "map_below p \<Longrightarrow> pl_groups p' \<noteq> pl_groups p \<Longrightarrow> group_of_key p key < pl_next p"
    and "map_below p \<Longrightarrow> sound_step p p' t'"
  using assms
  by (auto simp: tcp_return_def return_tcp_worker_def group_of_key_def queued_def push_tcp_def add_tcp_permit_def
      sound_step_def dest: below_get split: option.splits)

lemma request_start:
  assumes "request_start cfg purpose key p = (p', t')"
  shows "k \<noteq> group_of_key p key \<Longrightarrow> pl_groups p' k = pl_groups p k"
    and "count_list (queued p' (group_of_key p key)) h + count_list (task_handles t') h \<le>
      count_list (queued p (group_of_key p key)) h"
    and "map_below p \<Longrightarrow> pl_groups p' \<noteq> pl_groups p \<Longrightarrow> group_of_key p key < pl_next p"
    and "map_below p \<Longrightarrow> sound_step p p' t'"
proof -
  consider (known) "p' = p" "t' = Finished OcDone" | (checkout) "checkout_start key p = (p', t')"
    | (tcp) g h' where "try_checkout_tcp key p = (Some (g, h'), p')" "t' = TcpBusy g purpose key h'"
    | (fallen) p1 where "try_checkout_tcp key p = (None, p1)" "checkout_start key p1 = (p', t')"
  proof (cases "purpose = ForCapabilities \<and> (pc_test_echo cfg \<or> pl_capabilities p)")
    case True
    then show ?thesis using assms known by (simp add: request_start_def)
  next
    case not_known: False
    show ?thesis
    proof (cases "fst key")
      case (WtInferTask task)
      then show ?thesis using assms checkout not_known by (simp add: request_start_def)
    next
      case (WtProfile profile)
      obtain r p1 where tried: "try_checkout_tcp key p = (r, p1)" by fastforce
      then show ?thesis
        using assms tcp fallen not_known WtProfile by (cases r) (auto simp: request_start_def)
    qed
  qed
  note cases = this
  show "k \<noteq> group_of_key p key \<Longrightarrow> pl_groups p' k = pl_groups p k"
  proof (cases rule: cases)
    assume k: "k \<noteq> group_of_key p key"
    { case tcp then show ?thesis using try_checkout(3) [OF _ k] by blast }
    { case fallen then show ?thesis using try_checkout(3) [OF _ k] checkout_start(1) by metis }
  qed (simp_all add: checkout_start(1))
  show "count_list (queued p' (group_of_key p key)) h + count_list (task_handles t') h \<le>
      count_list (queued p (group_of_key p key)) h"
  proof (cases rule: cases)
    case tcp
    then show ?thesis using try_checkout(4) [OF tcp(1), of h] by auto
  next
    case fallen
    then show ?thesis
      using try_checkout(4) [OF fallen(1), of h] checkout_start(1,2) [OF fallen(2)] by (simp add: queued_def)
  qed (simp_all add: checkout_start(1,2) queued_def)
  show "map_below p \<Longrightarrow> pl_groups p' \<noteq> pl_groups p \<Longrightarrow> group_of_key p key < pl_next p"
  proof (cases rule: cases)
    assume b: "map_below p" and d: "pl_groups p' \<noteq> pl_groups p"
    { case tcp then show ?thesis using try_checkout(5) [OF _ b d] by blast }
    { case fallen then show ?thesis using try_checkout(5) [OF fallen(1) b] checkout_start(1) [OF fallen(2)] d by simp }
  qed (simp_all add: checkout_start(1))
  show "map_below p \<Longrightarrow> sound_step p p' t'"
  proof (cases rule: cases)
    assume "map_below p"
    case fallen
    have "map_below p1" "pl_next p1 = pl_next p"
      using \<open>map_below p\<close> try_checkout(1,2) [OF fallen(1)] by (simp_all add: map_below_def)
    then show ?thesis using checkout_start(3) [OF fallen(2)] by (simp add: sound_step_def)
  next
    assume "map_below p"
    case tcp
    then show ?thesis
      using \<open>map_below p\<close> try_checkout(1,2,6) [OF tcp(1)] by (simp add: sound_step_def map_below_def)
  next
    assume "map_below p"
    case checkout
    show ?thesis by (rule checkout_start(3) [OF checkout \<open>map_below p\<close>])
  qed (simp add: sound_step_def)
qed

definition spawned_handle :: "Answer \<Rightarrow> Handle \<Rightarrow> nat" where
  "spawned_handle a h = (case a of Spawned h' caps \<Rightarrow> of_bool (h' = h) | _ \<Rightarrow> 0)"

lemma group_of_key_recorded [simp]: "group_of_key (record_capabilities p) key = group_of_key p key"
  by (simp add: group_of_key_def split: option.split)

lemma queued_recorded [simp]: "queued (record_capabilities p) = queued p"
  by (simp add: queued_def fun_eq_iff)

lemma sound_recorded [simp]: "sound_step (record_capabilities p) = sound_step p"
  by (simp add: sound_step_def fun_eq_iff)

lemma go_elsewhere: "go ram cfg p t = Some (p', t') \<Longrightarrow> k \<noteq> touched p t \<Longrightarrow> pl_groups p' k = pl_groups p k"
  by (cases t)
    (auto simp: get_or_create(2) request_start(1) pre_scale_start(1) dest: tcp_returned(4) [of _ _ _ _ _ _ k]
      split: if_splits list.splits prod.splits)

lemmas wg_ops = push_idle_def add_permits_def forget_permit_def push_tcp_def add_tcp_permit_def
  add_total_def sub_total_def set_bootstrap_def

fun by_key :: "Task \<Rightarrow> bool" where
  "by_key (ReqStart purpose key) = True"
| "by_key (TcpBusy g purpose key h) = True"
| "by_key (PsStart key n) = True"
| "by_key (TcAdd key h) = True"
| "by_key t = False"

lemma go_handles_by_key:
  assumes "go ram cfg p t = Some (p', t')" "by_key t"
  shows "count_list (queued p' (touched p t)) h + count_list (task_handles t') h \<le>
    count_list (queued p (touched p t)) h + count_list (task_handles t) h"
proof (cases t)
  case (ReqStart purpose key)
  then show ?thesis using assms request_start(2) [of cfg purpose key p p' t' h] by simp
next
  case (TcpBusy g purpose key h')
  let ?q = "if purpose = ForCapabilities then record_capabilities p else p"
  have "tcp_return g key h' ?q = (p', t')" using assms(1) TcpBusy by simp
  from tcp_returned(3) [OF this] tcp_returned(5) [OF this, of h] show ?thesis
    using TcpBusy by (auto split: if_splits)
next
  case (PsStart key n)
  then show ?thesis using assms pre_scale_start(1,2) [of cfg key n p p' t'] by (simp add: queued_def)
next
  case (TcAdd key h')
  then show ?thesis using assms get_or_create(2) [of key p] by (auto simp: queued_def split: prod.splits)
qed (use assms(2) in simp_all)

lemma go_handles_other:
  "go ram cfg p t = Some (p', t') \<Longrightarrow> \<not> by_key t \<Longrightarrow>
   count_list (queued p' (touched p t)) h + count_list (task_handles t') h \<le>
   count_list (queued p (touched p t)) h + count_list (task_handles t) h"
  by (cases t) (auto simp: wg_ops queued_def split: if_splits list.splits)

lemma go_sound_by_key:
  assumes "go ram cfg p t = Some (p', t')" "by_key t" "refers_below (pl_next p) t" "map_below p"
  shows "sound_step p p' t' \<and> (touched p t < pl_next p' \<or> pl_groups p' = pl_groups p)"
proof (cases t)
  case (ReqStart purpose key)
  then show ?thesis
    using assms request_start(3,4) [of cfg purpose key p p' t'] by (auto simp: sound_step_def intro: less_le_trans)
next
  case (TcpBusy g purpose key h')
  let ?q = "if purpose = ForCapabilities then record_capabilities p else p"
  have r: "tcp_return g key h' ?q = (p', t')" using assms(1) TcpBusy by simp
  have below: "map_below ?q" "pl_groups ?q = pl_groups p" "group_of_key ?q key = group_of_key p key"
    "pl_next ?q = pl_next p" "sound_step ?q p' t' = sound_step p p' t'" using assms(4) by simp_all
  from tcp_returned(6) [OF r below(1)] tcp_returned(7) [OF r below(1)] show ?thesis
    using below(2-5) TcpBusy by (auto simp: sound_step_def)
next
  case (PsStart key n)
  then show ?thesis using assms pre_scale_start(1,3) [of cfg key n p p' t'] by simp
next
  case (TcAdd key h')
  obtain g p1 where g: "get_or_create_group key p = (g, p1)" by fastforce
  then have "p' = p1" "t' = TcPush g h'" using assms(1) TcAdd by simp_all
  then show ?thesis using get_or_create(2,3) [OF g] assms(4) by (simp add: sound_step_def)
qed (use assms(2) in simp_all)

lemma map_below_values: "map_below p \<Longrightarrow> list_all (\<lambda>g. g < pl_next p) (hm_values (pl_map p))"
  by (simp add: map_below_def)

lemma map_below_smaller:
  "map_below p \<Longrightarrow> map_below (p\<lparr>pl_map := []\<rparr>)" "map_below p \<Longrightarrow> map_below (p\<lparr>pl_map := filter P (pl_map p)\<rparr>)"
  by (auto simp: map_below_def hm_values_def list_all_iff)

lemma go_sound_other:
  assumes "go ram cfg p t = Some (p', t')" "\<not> by_key t" "refers_below (pl_next p) t" "map_below p"
  shows "sound_step p p' t' \<and> (touched p t < pl_next p' \<or> pl_groups p' = pl_groups p)"
  using assms
  by (cases t)
    (simp_all add: sound_step_def map_below_values map_below_smaller split: if_splits list.splits,
      (auto simp: map_below_values map_below_smaller)?)

text \<open>The same for the answers from outside.\<close>

lemma react_elsewhere: "react ram cfg a p t = Some (p', t') \<Longrightarrow> k \<noteq> touched p t \<Longrightarrow> pl_groups p' k = pl_groups p k"
  by (cases a) (auto dest: go_elsewhere [of _ _ _ _ _ _ k] elim!: answer_cases split: if_splits list.splits)

lemma react_handles:
  "react ram cfg a p t = Some (p', t') \<Longrightarrow>
   count_list (queued p' (touched p t)) h + count_list (task_handles t') h \<le>
   count_list (queued p (touched p t)) h + count_list (task_handles t) h + spawned_handle a h"
proof (cases a)
  case Go
  assume "react ram cfg a p t = Some (p', t')"
  then have "go ram cfg p t = Some (p', t')" by (simp add: Go)
  then show ?thesis using go_handles_by_key go_handles_other by (cases "by_key t") (simp add: trans_le_add1)+
qed (auto simp: spawned_handle_def queued_def wg_ops elim!: answer_cases split: if_splits list.splits Health.splits)

lemma react_sound:
  "react ram cfg a p t = Some (p', t') \<Longrightarrow> refers_below (pl_next p) t \<Longrightarrow> map_below p \<Longrightarrow>
   sound_step p p' t' \<and> (touched p t < pl_next p' \<or> pl_groups p' = pl_groups p)"
proof (cases a)
  case Go
  assume a: "react ram cfg a p t = Some (p', t')" "refers_below (pl_next p) t" "map_below p"
  then have "go ram cfg p t = Some (p', t')" by (simp add: Go)
  then show ?thesis using a(2,3) go_sound_by_key go_sound_other by (cases "by_key t") blast+
qed (auto simp: sound_step_def elim!: answer_cases split: if_splits list.splits Health.splits)

section \<open>One request at a time\<close>

text \<open>How often a worker occurs: in the queues of all groups and in the hands of the tasks.\<close>

definition occurrences :: "System \<Rightarrow> Handle \<Rightarrow> nat" where
  "occurrences s h =
     (\<Sum>g<pl_next (sy_pool s). count_list (queued (sy_pool s) g) h)
       + sum_list (map (\<lambda>t. count_list (task_handles t) h) (sy_tasks s))"

text \<open>A process that is started has a new identity: no worker of the pool has it.\<close>

definition fresh_workers :: "System \<Rightarrow> Event \<Rightarrow> bool" where
  "fresh_workers s e =
     (case e of
        Arrive t \<Rightarrow> (case t of TcAdd key h \<Rightarrow> occurrences s h = 0 | _ \<Rightarrow> True)
      | Act i a \<Rightarrow> (case a of Spawned h caps \<Rightarrow> occurrences s h = 0 | _ \<Rightarrow> True))"

lemma sum_changed_once:
  fixes f f' :: "nat \<Rightarrow> nat"
  assumes "\<And>k. k \<noteq> g \<Longrightarrow> f' k = f k" "g < n"
  shows "(\<Sum>k<n. f' k) + f g = (\<Sum>k<n. f k) + f' g"
proof -
  have "(\<Sum>k<n. h k) = h g + (\<Sum>k\<in>{..<n} - {g}. h k)" for h :: "nat \<Rightarrow> nat"
    using assms(2) by (simp add: sum.remove)
  moreover have "(\<Sum>k\<in>{..<n} - {g}. f' k) = (\<Sum>k\<in>{..<n} - {g}. f k)"
    by (rule sum.cong) (use assms(1) in auto)
  ultimately show ?thesis by simp
qed

lemma sum_extended:
  fixes f :: "nat \<Rightarrow> nat"
  assumes "n \<le> m" "\<And>k. n \<le> k \<Longrightarrow> f k = 0"
  shows "(\<Sum>k<m. f k) = (\<Sum>k<n. f k)"
  using assms by (intro sum.mono_neutral_right) auto

definition places_ok :: "System \<Rightarrow> bool" where
  "places_ok s \<longleftrightarrow>
     list_all (refers_below (pl_next (sy_pool s))) (sy_tasks s) \<and> map_below (sy_pool s) \<and>
     (\<forall>g h. occurrences s h \<le> 1 \<and> (pl_next (sy_pool s) \<le> g \<longrightarrow> queued (sy_pool s) g = []))"

lemma act_occurrences:
  assumes "places_ok s" "i < length (sy_tasks s)" "react ram cfg a (sy_pool s) (sy_tasks s ! i) = Some (p, t)"
  shows "occurrences \<lparr>sy_pool = p, sy_tasks = (sy_tasks s)[i := t]\<rparr> h \<le> occurrences s h + spawned_handle a h"
    and "pl_next p \<le> g \<Longrightarrow> queued p g = []"
proof -
  let ?p = "sy_pool s" and ?t = "sy_tasks s ! i"
  let ?g = "touched ?p ?t"
  have low: "refers_below (pl_next ?p) ?t" "map_below ?p" "\<And>g. pl_next ?p \<le> g \<Longrightarrow> queued ?p g = []"
    using assms(1,2) by (simp_all add: places_ok_def list_all_length)
  note sound = react_sound [OF assms(3) low(1,2)]
  have next_le: "pl_next ?p \<le> pl_next p" using sound by (simp add: sound_step_def)
  have same: "queued p k = queued ?p k" if "k \<noteq> ?g" for k
    using react_elsewhere [OF assms(3) that] by (simp add: queued_def)
  show "pl_next p \<le> g \<Longrightarrow> queued p g = []"
    using low(3) [of g] next_le sound same [of g] by (cases "g = ?g") (auto simp: queued_def)
  have grown: "(\<Sum>g<pl_next p. count_list (queued ?p g) h) = (\<Sum>g<pl_next ?p. count_list (queued ?p g) h)"
    by (rule sum_extended [OF next_le]) (simp add: low(3))
  have pool: "(\<Sum>g<pl_next p. count_list (queued p g) h) + count_list (queued ?p ?g) h =
      (\<Sum>g<pl_next ?p. count_list (queued ?p g) h) + count_list (queued p ?g) h"
  proof (cases "?g < pl_next p")
    case True
    from sum_changed_once [of ?g "\<lambda>k. count_list (queued p k) h" "\<lambda>k. count_list (queued ?p k) h", OF _ True]
    show ?thesis using same grown by simp
  next
    case False
    then have "queued p = queued ?p" using sound by (simp add: queued_def fun_eq_iff)
    then show ?thesis using grown by simp
  qed
  show "occurrences \<lparr>sy_pool = p, sy_tasks = (sy_tasks s)[i := t]\<rparr> h \<le> occurrences s h + spawned_handle a h"
    using pool react_handles [OF assms(3), of h]
      sum_list_update_nat [OF assms(2), of "\<lambda>t. count_list (task_handles t) h" t]
    by (simp add: occurrences_def)
qed

lemma places_invariant: "pool_reach ram cfg fresh_workers s \<Longrightarrow> places_ok s"
proof (induction rule: pool_reach.induct)
  case pool_init
  show ?case
    by (simp add: places_ok_def new_system_def new_pool_def new_group_def map_below_def hm_values_def
        occurrences_def queued_def)
next
  case (pool_step s e s')
  show ?case
  proof (cases e)
    case (Arrive t)
    have start: "is_start t" and s': "s' = s\<lparr>sy_tasks := sy_tasks s @ [t]\<rparr>"
      using pool_step.hyps(3) Arrive by (simp_all split: if_splits)
    have "refers_below n t" for n using start by (cases t) simp_all
    moreover have "occurrences s h + count_list (task_handles t) h \<le> 1" for h
      using start pool_step.hyps(2) pool_step.IH Arrive
      by (cases t) (auto simp: fresh_workers_def places_ok_def)
    ultimately show ?thesis
      using pool_step.IH by (auto simp: s' places_ok_def occurrences_def add.assoc)
  next
    case (Act i a)
    then obtain p t where r: "i < length (sy_tasks s)" "react ram cfg a (sy_pool s) (sy_tasks s ! i) = Some (p, t)"
      "s' = \<lparr>sy_pool = p, sy_tasks = (sy_tasks s)[i := t]\<rparr>"
      using pool_step.hyps by (auto split: if_splits option.splits)
    have low: "refers_below (pl_next (sy_pool s)) (sy_tasks s ! i)" "map_below (sy_pool s)"
      using pool_step.IH r(1) by (simp_all add: places_ok_def list_all_length)
    have sound: "sound_step (sy_pool s) p t" using react_sound [OF r(2) low] by simp
    have "occurrences s h + spawned_handle a h \<le> 1" for h
      using pool_step.hyps(2) pool_step.IH Act
      by (auto simp: fresh_workers_def places_ok_def spawned_handle_def split: Answer.splits)
    then have "occurrences s' h \<le> 1" for h
      using act_occurrences(1) [OF pool_step.IH r(1,2), of h] r(3) by (metis le_trans)
    moreover have "list_all (refers_below (pl_next p)) ((sy_tasks s)[i := t])"
      using sound pool_step.IH set_update_subset_insert [of "sy_tasks s" i t]
      by (auto simp: places_ok_def sound_step_def list_all_iff intro: refers_weaken)
    ultimately show ?thesis
      using act_occurrences(2) [OF pool_step.IH r(1,2)] sound by (simp add: places_ok_def sound_step_def r(3))
  qed
qed

lemma count_concat: "count_list (concat xss) h = sum_list (map (\<lambda>xs. count_list xs h) xss)"
  by (induction xss) simp_all

lemma distinct_count: "(\<And>h. count_list xs h \<le> 1) \<Longrightarrow> distinct xs"
proof (induction xs)
  case (Cons a xs)
  have tail: "count_list xs h \<le> 1" for h using Cons.prems [of h] by (simp split: if_splits)
  have "count_list xs a = 0" using Cons.prems [of a] by simp
  then show ?case using Cons.IH [OF tail] by (simp add: count_list_0_iff)
qed simp

text \<open>
  C15: If processes are started under new identities, no worker is in the hands of two tasks, and none that
  a task holds is also in a queue, so that a worker serves one request at a time.
\<close>

theorem worker_serves_one_request:
  assumes "pool_reach ram cfg fresh_workers s"
  shows "distinct (concat (map task_handles (sy_tasks s))) \<and> distinct (queued (sy_pool s) g) \<and>
    set (concat (map task_handles (sy_tasks s))) \<inter> set (queued (sy_pool s) g) = {}"
proof -
  let ?hs = "concat (map task_handles (sy_tasks s))" and ?q = "queued (sy_pool s) g"
  note ok = places_invariant [OF assms]
  have "count_list ?hs h + count_list ?q h \<le> 1" for h
  proof (cases "g < pl_next (sy_pool s)")
    case True
    have "count_list ?q h \<le> (\<Sum>g<pl_next (sy_pool s). count_list (queued (sy_pool s) g) h)"
      by (rule member_le_sum) (use True in auto)
    moreover have "occurrences s h \<le> 1" using ok by (simp add: places_ok_def)
    ultimately show ?thesis by (simp add: occurrences_def count_concat comp_def)
  next
    case False
    then have "?q = []" using ok by (simp add: places_ok_def)
    moreover have "occurrences s h \<le> 1" using ok by (simp add: places_ok_def)
    ultimately show ?thesis by (simp add: occurrences_def count_concat comp_def)
  qed
  note one = this
  have "distinct ?hs" "distinct ?q"
    by (rule distinct_count; use one in \<open>metis add_leD1 add_leD2\<close>)+
  moreover have "h \<notin> set ?q" if "h \<in> set ?hs" for h
    using one [of h] that count_list_0_iff [of ?hs h] count_list_0_iff [of ?q h] by auto
  ultimately show ?thesis by blast
qed

end
