(* ===== verification/Pool_Cases.thy ===== *)
theory Pool_Cases
  imports Pool_Safety
begin

text \<open>
  Interleavings in which the pool does not do what it is meant to: the health check adds permits
  without workers, on which a checkout spins; a group at its cap without a worker that can be
  returned starves its requests; slots and TCP workers that are lost; restarts over the cap; groups
  that are no longer in the map.
\<close>

section \<open>The health check\<close>

lemma sys_run_append:
  "sys_run ram cfg (xs @ ys) s =
   (case sys_run ram cfg xs s of None \<Rightarrow> None | Some s' \<Rightarrow> sys_run ram cfg ys s')"
  by (induction xs arbitrary: s) (auto split: option.splits)

lemma examine_all:
  assumes "i < length (sy_tasks s)" "sy_tasks s ! i = HcCheck g hs keep r m gs"
  shows "sys_run ram cfg (map (Act i) (replicate (length hs) (Examined Healthy))) s =
    Some \<lparr>sy_pool = sy_pool s, sy_tasks = (sy_tasks s)[i := HcCheck g [] (keep @ hs) r m gs]\<rparr>"
  using assms
proof (induction hs arbitrary: s keep)
  case (Cons h hs)
  let ?s = "\<lparr>sy_pool = sy_pool s, sy_tasks = (sy_tasks s)[i := HcCheck g hs (keep @ [h]) r m gs]\<rparr>"
  have "sys_step ram cfg (Act i (Examined Healthy)) s = Some ?s" using Cons.prems by simp
  then show ?case using Cons.IH [of ?s "keep @ [h]"] Cons.prems by simp
qed (simp add: list_update_same_conv [THEN iffD2])

text \<open>
  C19: A round of the health check over a group of healthy idle workers takes the workers out of the queue
  and puts them back, but adds a permit for every one of them to those that are there: the queue and
  the counter stay, the permits grow by the number of idle workers.
\<close>

theorem health_check_adds_permits:
  assumes "i < length (sy_tasks s)" "sy_tasks s ! i = HcGroups (g # gs)"
    and "wg_idle (pl_groups (sy_pool s) g) = hs"
  shows "sys_run ram cfg (map (Act i) ([Go] @ replicate (length hs) (Examined Healthy) @ [Go, Go, Go])) s =
    Some \<lparr>sy_pool = on_group g (add_permits (length hs)) (sy_pool s),
      sy_tasks = (sy_tasks s)[i := HcGroups gs]\<rparr>"
proof -
  let ?p = "on_group g (\<lambda>w. w\<lparr>wg_idle := []\<rparr>) (sy_pool s)"
  let ?s = "\<lparr>sy_pool = ?p, sy_tasks = (sy_tasks s)[i := HcCheck g hs [] 0 0 gs]\<rparr>"
  have first: "sys_step ram cfg (Act i Go) s = Some ?s" using assms by simp
  have loop: "sys_run ram cfg (map (Act i) (replicate (length hs) (Examined Healthy))) ?s =
      Some \<lparr>sy_pool = ?p, sy_tasks = (sy_tasks s)[i := HcCheck g [] hs 0 0 gs]\<rparr>"
    using examine_all [of i ?s g hs "[]" 0 0 gs] assms(1) by simp
  have idle_same: "w\<lparr>wg_idle := wg_idle w, wg_available := n\<rparr> = w\<lparr>wg_available := n\<rparr>" for w :: WorkerGroup and n
    by (cases w) simp
  have "on_group g (\<lambda>w. add_permits (length hs) (w\<lparr>wg_idle := wg_idle w @ hs\<rparr>)) ?p =
      on_group g (add_permits (length hs)) (sy_pool s)"
    by (simp add: on_group_def add_permits_def idle_same flip: assms(3))
  then show ?thesis
    using assms(1) first loop by (simp add: sys_run_append)
qed

text \<open>
  C18: With a permit but no worker in the queue a checkout takes the permit, finds nothing, gives it back
  and begins again, without a point at which it waits: three steps lead to the same system, however
  much room the group has for another worker.
\<close>

theorem surplus_permit_spins:
  assumes "i < length (sy_tasks s)" "sy_tasks s ! i = CkTry g"
    and "wg_idle (pl_groups (sy_pool s) g) = []" "0 < wg_available (pl_groups (sy_pool s) g)"
  shows "sys_run ram cfg (concat (replicate n [Act i Go, Act i Go, Act i Go])) s = Some s"
proof (induction n)
  case (Suc n)
  have "sys_run ram cfg [Act i Go, Act i Go, Act i Go] s = Some s"
    using assms by (simp add: on_group_def forget_permit_def add_permits_def list_update_same_conv [THEN iffD2])
  then show ?case
    by (simp only: replicate_Suc concat.simps sys_run_append option.case Suc)
qed simp

section \<open>Starvation\<close>

text \<open>
  A group at its cap that has no worker for its queue, and no task that will bring one: \<open>idle_for\<close>
  holds of the tasks that neither hold a worker, a slot or a permit of the group.
\<close>

fun idle_for :: "nat \<Rightarrow> Task \<Rightarrow> bool" where
  "idle_for g (CkPop k) \<longleftrightarrow> k \<noteq> g"
| "idle_for g (CkGiveBack k) \<longleftrightarrow> k \<noteq> g"
| "idle_for g (SpGlobal k origin current) \<longleftrightarrow> k \<noteq> g"
| "idle_for g (SpCas k origin current) \<longleftrightarrow> k \<noteq> g"
| "idle_for g (SpBootstrap k origin) \<longleftrightarrow> k \<noteq> g"
| "idle_for g (SpSpawn k origin) \<longleftrightarrow> k \<noteq> g"
| "idle_for g (SpPermit k origin) \<longleftrightarrow> k \<noteq> g"
| "idle_for g (Busy k h) \<longleftrightarrow> k \<noteq> g"
| "idle_for g (Returning k) \<longleftrightarrow> k \<noteq> g"
| "idle_for g (HcCheck k todo keep restarts removed gs) \<longleftrightarrow>
     (k = g \<longrightarrow> todo = [] \<and> keep = [] \<and> restarts = 0 \<and> removed = 0)"
| "idle_for g (HcTotal k restarts removed gs) \<longleftrightarrow> (k = g \<longrightarrow> restarts = 0 \<and> removed = 0)"
| "idle_for g (HcRestart k n gs) \<longleftrightarrow> (k = g \<longrightarrow> n = 0)"
| "idle_for g (HcSpawn k n gs) \<longleftrightarrow> k \<noteq> g"
| "idle_for g (HcPush k n h gs) \<longleftrightarrow> k \<noteq> g"
| "idle_for g (HcPermit k n gs) \<longleftrightarrow> k \<noteq> g"
| "idle_for g (ShTotal k n gs) \<longleftrightarrow> (k = g \<longrightarrow> n = 0)"
| "idle_for g t \<longleftrightarrow> True"

definition exhausted :: "PoolConfig \<Rightarrow> nat \<Rightarrow> Pool \<Rightarrow> bool" where
  "exhausted cfg g p \<longleftrightarrow>
     wg_idle (pl_groups p g) = [] \<and> wg_available (pl_groups p g) = 0 \<and>
     0 < pc_max_workers_per_key cfg \<and> pc_max_workers_per_key cfg \<le> wg_total (pl_groups p g)"

definition starving :: "PoolConfig \<Rightarrow> nat \<Rightarrow> System \<Rightarrow> bool" where
  "starving cfg g s \<longleftrightarrow> exhausted cfg g (sy_pool s) \<and> list_all (idle_for g) (sy_tasks s)"

lemma idle_for_next [simp]:
  "idle_for g (spawn_done k origin)" "idle_for g (spawn_full k origin)" "idle_for g (spawn_failed origin e)"
  by (cases origin; simp)+

lemma starving_go:
  "go ram cfg p t = Some (p', t') \<Longrightarrow> idle_for g t \<Longrightarrow> exhausted cfg g p \<Longrightarrow> idle_for g t' \<and> exhausted cfg g p'"
  by (cases t)
    (auto simp: exhausted_def group_ops start_ops Let_def split: if_splits option.splits list.splits prod.splits WorkerTarget.splits)

lemma starving_react:
  "react ram cfg a p t = Some (p', t') \<Longrightarrow> idle_for g t \<Longrightarrow> exhausted cfg g p \<Longrightarrow> idle_for g t' \<and> exhausted cfg g p'"
proof (cases a)
  case Go
  assume "react ram cfg a p t = Some (p', t')" "idle_for g t" "exhausted cfg g p"
  then show ?thesis using starving_go by (simp add: Go)
qed (auto simp: exhausted_def group_ops elim!: answer_cases split: if_splits list.splits Health.splits)

lemma starving_step:
  assumes "sys_step ram cfg e s = Some s'" "starving cfg g s"
  shows "starving cfg g s'"
proof (cases e)
  case (Arrive t)
  moreover have "is_start t \<Longrightarrow> idle_for g t" by (cases t) simp_all
  ultimately show ?thesis using assms by (auto simp: starving_def split: if_splits)
next
  case (Act i a)
  then obtain p t where r: "i < length (sy_tasks s)" "react ram cfg a (sy_pool s) (sy_tasks s ! i) = Some (p, t)"
    "s' = \<lparr>sy_pool = p, sy_tasks = (sy_tasks s)[i := t]\<rparr>"
    using assms(1) by (auto split: if_splits option.splits)
  have "idle_for g (sy_tasks s ! i)" using assms(2) r(1) by (simp add: starving_def list_all_length)
  from starving_react [OF r(2) this] show ?thesis
    using assms(2) r(3) set_update_subset_insert [of "sy_tasks s" i t] by (auto simp: starving_def list_all_iff)
qed

text \<open>
  C20: A request that waits for a worker of such a group waits for ever, whatever the other tasks do and
  whatever tasks come: only its own future can be dropped.
\<close>

theorem exhausted_group_starves:
  assumes "starving cfg g s" "i < length (sy_tasks s)" "sy_tasks s ! i = CkWait g"
    and "sys_run ram cfg es s = Some s'" "Act i Dropped \<notin> set es"
  shows "starving cfg g s' \<and> i < length (sy_tasks s') \<and> sy_tasks s' ! i = CkWait g"
  using assms
proof (induction es arbitrary: s)
  case (Cons e es)
  obtain s1 where s1: "sys_step ram cfg e s = Some s1" "sys_run ram cfg es s1 = Some s'"
    using Cons.prems(4) by (auto split: option.splits)
  have star: "starving cfg g s1" using starving_step [OF s1(1) Cons.prems(1)] .
  have "i < length (sy_tasks s1) \<and> sy_tasks s1 ! i = CkWait g"
  proof (cases e)
    case (Arrive t)
    then show ?thesis using s1(1) Cons.prems(2,3) by (auto simp: nth_append split: if_splits)
  next
    case (Act j a)
    then obtain p t where r: "react ram cfg a (sy_pool s) (sy_tasks s ! j) = Some (p, t)"
      "s1 = \<lparr>sy_pool = p, sy_tasks = (sy_tasks s)[j := t]\<rparr>"
      using s1(1) by (auto split: if_splits option.splits)
    have "j \<noteq> i"
    proof
      assume j: "j = i"
      have "a \<noteq> Dropped" using Cons.prems(5) Act j by auto
      then show False
        using r(1) Cons.prems(1,3) j by (cases a) (auto simp: starving_def exhausted_def)
    qed
    then show ?thesis using r(2) Cons.prems(2,3) by simp
  qed
  then show ?case using Cons.IH [OF star _ _ s1(2)] Cons.prems(5) by simp
qed simp

section \<open>Runs\<close>

text \<open>The events of a request that starts its own worker, and of one that finds it in the queue.\<close>

definition start_events :: "nat \<Rightarrow> WorkerKey \<Rightarrow> Event list" where
  "start_events i key = Arrive (ReqStart ForRequest key) # replicate 6 (Act i Go)"

definition spawn_events :: "nat \<Rightarrow> Handle \<Rightarrow> Event list" where
  "spawn_events i h = [Act i (Spawned h True), Act i Go, Act i Go, Act i Go]"

definition sample_config :: "nat \<Rightarrow> PoolConfig" where
  "sample_config cap =
     (default_pool_config [] BootTask)\<lparr>pc_max_workers_per_key := cap, pc_max_total_workers := 8\<rparr>"

definition stanza_key :: WorkerKey where
  "stanza_key = (WtProfile WpStanza, WlUnspecified, [])"

lemmas run_simps = start_events_def spawn_events_def numeral_eq_Suc group_ops start_ops new_system_def new_pool_def new_group_def
  hm_get_def hm_insert_def hm_values_def global_worker_count_def effective_max_total_workers_def
  sample_config_def default_pool_config_def stanza_key_def Let_def

text \<open>
  A worker serves a request and is checked once while it is idle. Then two requests come: the first one
  takes the worker, the second one finds the surplus permit and no worker, and so it spins, although the
  group could have three more workers.
\<close>

definition surplus_run :: "Event list" where
  "surplus_run =
     start_events 0 stanza_key @ spawn_events 0 7 @ [Act 0 Go, Act 0 Go] @
     [Arrive HcStart] @ replicate 2 (Act 1 Go) @ [Act 1 (Examined Healthy)] @ replicate 5 (Act 1 Go) @
     [Arrive (ReqStart ForRequest stanza_key), Act 2 Go, Act 2 Go, Act 2 Go] @
     [Arrive (ReqStart ForRequest stanza_key), Act 3 Go]"

lemma surplus_run_spins:
  "\<exists>s. sys_run ram (sample_config 4) surplus_run new_system = Some s \<and>
     sy_tasks s = [Finished OcDone, Finished OcDone, Busy 0 7, CkTry 0] \<and>
     wg_idle (pl_groups (sy_pool s) 0) = [] \<and> wg_available (pl_groups (sy_pool s) 0) = 1 \<and>
     wg_total (pl_groups (sy_pool s) 0) = 1"
  by (simp add: surplus_run_def run_simps)

lemma surplus_permit_spins_witness:
  "\<exists>s. pool_reach 0 (sample_config 4) any_event s \<and> wg_total (pl_groups (sy_pool s) 0) = 1 \<and>
     sys_run 0 (sample_config 4) (concat (replicate 1000 [Act 3 Go, Act 3 Go, Act 3 Go])) s = Some s"
proof -
  obtain s where s: "sys_run 0 (sample_config 4) surplus_run new_system = Some s"
    "sy_tasks s = [Finished OcDone, Finished OcDone, Busy 0 7, CkTry 0]"
    "wg_idle (pl_groups (sy_pool s) 0) = []" "wg_available (pl_groups (sy_pool s) 0) = 1"
    "wg_total (pl_groups (sy_pool s) 0) = 1"
    using surplus_run_spins by blast
  have "sys_run 0 (sample_config 4) (concat (replicate 1000 [Act 3 Go, Act 3 Go, Act 3 Go])) s = Some s"
    by (rule surplus_permit_spins [where g = 0]) (simp_all add: s)
  then show ?thesis using s(5) pool_reach_run [OF s(1) pool_reach.pool_init] by blast
qed

lemma health_check_adds_permits_witness:
  "sys_run 0 (sample_config 4) (map (Act 0) [Go, Examined Healthy, Examined Healthy, Go, Go, Go])
     \<lparr>sy_pool = on_group 0 (\<lambda>w. w\<lparr>wg_idle := [3, 4], wg_available := 2, wg_total := 2\<rparr>) new_pool,
      sy_tasks = [HcGroups [0]]\<rparr> =
   Some \<lparr>sy_pool = on_group 0 (\<lambda>w. w\<lparr>wg_idle := [3, 4], wg_available := 4, wg_total := 2\<rparr>) new_pool,
      sy_tasks = [HcGroups []]\<rparr>"
  using health_check_adds_permits [of 0
      "\<lparr>sy_pool = on_group 0 (\<lambda>w. w\<lparr>wg_idle := [3, 4], wg_available := 2, wg_total := 2\<rparr>) new_pool,
        sy_tasks = [HcGroups [0]]\<rparr>" 0 "[]" "[3, 4]" 0 "sample_config 4"]
  by (simp add: numeral_eq_Suc on_group_def add_permits_def new_pool_def new_group_def)

text \<open>
  A group at its cap whose only worker is a TCP worker in use: the second request waits, and it still
  does after the TCP worker has been returned.
\<close>

definition tcp_only_run :: "Event list" where
  "tcp_only_run =
     Arrive (TcAdd stanza_key 5) # replicate 4 (Act 0 Go) @
     [Arrive (ReqStart ForRequest stanza_key), Act 1 Go] @
     Arrive (ReqStart ForRequest stanza_key) # replicate 4 (Act 2 Go)"

lemma tcp_only_group_starves:
  "\<exists>s. sys_run ram (sample_config 1) tcp_only_run new_system = Some s \<and> starving (sample_config 1) 0 s \<and>
     sy_tasks s = [Finished OcDone, TcpBusy 0 ForRequest stanza_key 5, CkWait 0]"
  by (simp add: tcp_only_run_def run_simps starving_def exhausted_def)

lemma exhausted_group_starves_witness:
  "\<exists>s s'. pool_reach 0 (sample_config 1) any_event s \<and> sys_step 0 (sample_config 1) (Act 1 Go) s = Some s' \<and>
     sy_tasks s' ! 2 = CkWait 0"
proof -
  obtain s where s: "sys_run 0 (sample_config 1) tcp_only_run new_system = Some s" "starving (sample_config 1) 0 s"
    "sy_tasks s = [Finished OcDone, TcpBusy 0 ForRequest stanza_key 5, CkWait 0]"
    using tcp_only_group_starves by blast
  obtain s' where s': "sys_step 0 (sample_config 1) (Act 1 Go) s = Some s'"
    by (cases "tcp_return 0 stanza_key 5 (sy_pool s)") (simp add: s(3))
  have "sy_tasks s' ! 2 = CkWait 0"
    using exhausted_group_starves [OF s(2), of 2 0 "[Act 1 Go]" s'] s(3) s' by simp
  then show ?thesis using s' pool_reach_run [OF s(1) pool_reach.pool_init] by blast
qed

text \<open>
  A request is dropped, as by a timeout, while its worker starts: the claimed slot stays claimed, and
  the next request of a group with one slot waits for ever.
\<close>

theorem dropped_request_starves_group:
  "\<exists>s. sys_run ram (sample_config 1)
       (start_events 0 stanza_key @ [Act 0 Dropped] @ [Arrive (ReqStart ForRequest stanza_key)] @ replicate 4 (Act 1 Go))
       new_system = Some s \<and>
     starving (sample_config 1) 0 s \<and> sy_tasks s = [Finished (OcSlotLeaked 0), CkWait 0] \<and>
     wg_total (pl_groups (sy_pool s) 0) = 1"
  by (simp add: run_simps starving_def exhausted_def)

definition stranded_run :: "WorkerError \<Rightarrow> Event list" where
  "stranded_run e =
     start_events 0 stanza_key @ [Arrive (ReqStart ForRequest stanza_key)] @ replicate 4 (Act 1 Go) @
     [Act 0 (SpawnFails e)]"

lemma stuck_steps:
  assumes "sy_tasks s = [Finished out, CkWait g]" "wg_available (pl_groups (sy_pool s) g) = 0"
  shows "{(i, a). sys_step ram cfg (Act i a) s \<noteq> None} = {(1, Dropped)}"
proof -
  have "sys_step ram cfg (Act i a) s \<noteq> None \<longleftrightarrow> i = 1 \<and> a = Dropped" for i a
    using assms by (cases "i = 0"; cases a) (auto simp: less_Suc_eq)
  then show ?thesis by auto
qed

text \<open>
  A request waits because another one has claimed the only slot; the start of that worker fails. Then
  the group is empty and has room, but nothing wakes the waiting request: the only step left is that
  its future is dropped.
\<close>

theorem failed_spawn_strands_waiter:
  "\<exists>s. sys_run ram (sample_config 1) (stranded_run e) new_system = Some s \<and>
     sy_tasks s = [Finished (OcFailed e), CkWait 0] \<and> wg_total (pl_groups (sy_pool s) 0) = 0 \<and>
     {(i, a). sys_step ram (sample_config 1) (Act i a) s \<noteq> None} = {(1, Dropped)}"
proof -
  obtain s where s: "sys_run ram (sample_config 1) (stranded_run e) new_system = Some s"
    "sy_tasks s = [Finished (OcFailed e), CkWait 0]" "wg_total (pl_groups (sy_pool s) 0) = 0"
    "wg_available (pl_groups (sy_pool s) 0) = 0"
    by (simp add: stranded_run_def run_simps)
  show ?thesis by (intro exI conjI) (rule s(1-3) stuck_steps [OF s(2,4)])+
qed

section \<open>Lost workers and counts\<close>

text \<open>
  While the health check restarts a dead worker, pre-scaling claims the slot that was given back; the
  restart does not look at the cap, and the group has two workers where one is allowed.
\<close>

theorem restart_exceeds_cap:
  "\<exists>s. sys_run ram (sample_config 1)
       (start_events 0 stanza_key @ spawn_events 0 7 @ [Act 0 Go, Act 0 Go] @
        [Arrive HcStart, Act 1 Go, Act 1 Go, Act 1 (Examined ProcessDied), Act 1 Go, Act 1 Go] @
        [Arrive (PsStart stanza_key 1)] @ replicate 6 (Act 2 Go) @ [Act 2 (Spawned 8 True), Act 2 Go] @
        [Act 1 Go, Act 1 (Spawned 9 True), Act 1 Go, Act 1 Go])
       new_system = Some s \<and>
     wg_idle (pl_groups (sy_pool s) 0) = [8, 9] \<and> wg_total (pl_groups (sy_pool s) 0) = 2"
  by (simp add: run_simps)

text \<open>
  The health check drops a group from the map between the moment a request gets it and the moment the
  request claims a slot in it. The worker the request starts is in no group of the map afterwards: it is
  not counted, and no later request can use it.
\<close>

theorem group_dropped_under_checkout:
  "\<exists>s. sys_run ram (sample_config 1)
       ([Arrive (ReqStart ForRequest stanza_key), Act 0 Go] @ Arrive HcStart # replicate 7 (Act 1 Go) @
        replicate 5 (Act 0 Go) @ spawn_events 0 7 @ [Act 0 Go, Act 0 Go])
       new_system = Some s \<and>
     sy_tasks s = [Finished OcDone, Finished OcDone] \<and> pl_map (sy_pool s) = [] \<and>
     wg_idle (pl_groups (sy_pool s) 0) = [7] \<and> worker_count None None (sy_pool s) = 0"
  by (simp add: run_simps worker_count_def)

text \<open>
  The same drop gives one key two groups: the next request creates a new group for it. With a cap of one
  worker and without any restart both requests start a worker, and two workers of one key serve at once.
\<close>

theorem two_groups_of_one_key:
  "\<exists>s. sys_run ram (sample_config 1)
       ([Arrive (ReqStart ForRequest stanza_key), Act 0 Go] @ Arrive HcStart # replicate 7 (Act 1 Go) @
        [Arrive (ReqStart ForRequest stanza_key)] @ replicate 5 (Act 0 Go) @ spawn_events 0 7 @
        replicate 6 (Act 2 Go) @ spawn_events 2 8)
       new_system = Some s \<and>
     sy_tasks s = [Busy 0 7, Finished OcDone, Busy 1 8] \<and> pl_map (sy_pool s) = [(stanza_key, 1)] \<and>
     wg_total (pl_groups (sy_pool s) 0) = 1 \<and> wg_total (pl_groups (sy_pool s) 1) = 1"
  by (simp add: run_simps)

text \<open>
  If the capabilities of a TCP worker cannot be read, the error is returned before the worker: it is
  dropped, the counter keeps it, and its group has no TCP worker any more.
\<close>

theorem probe_failure_loses_tcp_worker:
  "\<exists>s. sys_run ram (sample_config 1)
       (Arrive (TcAdd stanza_key 5) # replicate 4 (Act 0 Go) @
        [Arrive (ReqStart ForCapabilities stanza_key), Act 1 Go, Act 1 ProbeFails])
       new_system = Some s \<and>
     sy_tasks s = [Finished OcDone, Finished (OcTcpDropped 0)] \<and>
     wg_tcp_workers (pl_groups (sy_pool s) 0) = [] \<and> wg_total (pl_groups (sy_pool s) 0) = 1"
  by (simp add: run_simps)

section \<open>Examples of the invariants\<close>

lemma sample_reach: "\<exists>s. pool_reach 0 (sample_config 4) any_event s \<and>
    sys_run 0 (sample_config 4) surplus_run new_system = Some s"
  using surplus_run_spins [of 0] pool_reach_run [OF _ pool_reach.pool_init] by blast

lemma idle_worker_has_permit_witness:
  "\<exists>s. sys_run 0 (sample_config 4) surplus_run new_system = Some s \<and>
     length (wg_idle (pl_groups (sy_pool s) 0)) \<le>
       wg_available (pl_groups (sy_pool s) 0) + sum_list (map (permit_under_way 0) (sy_tasks s))"
  using sample_reach idle_worker_has_permit by blast

lemma counter_counts_workers_witness:
  "\<exists>s. sys_run 0 (sample_config 4) surplus_run new_system = Some s \<and>
     wg_total (pl_groups (sy_pool s) 0) + sum_list (map (tcp_uncounted 0) (sy_tasks s)) = accounted 0 s"
  using sample_reach counter_counts_workers by blast

definition sample_arrival :: System where
  "sample_arrival = \<lparr>sy_pool = new_pool, sy_tasks = [ReqStart ForRequest stanza_key]\<rparr>"

lemma sample_arrival_reach:
  "ok new_system (Arrive (ReqStart ForRequest stanza_key)) \<Longrightarrow> pool_reach ram cfg ok sample_arrival"
  using pool_step [OF pool_reach.pool_init, of ok "Arrive (ReqStart ForRequest stanza_key)" ram cfg sample_arrival]
  by (simp add: sample_arrival_def new_system_def)

lemma permits_count_idle_workers_witness:
  "length (wg_idle (pl_groups (sy_pool sample_arrival) 0)) =
      wg_available (pl_groups (sy_pool sample_arrival) 0) + sum_list (map (permit_under_way 0) (sy_tasks sample_arrival)) \<and>
    CkGiveBack 0 \<notin> set (sy_tasks sample_arrival)"
  by (rule permits_count_idle_workers [of 0 "sample_config 4"])
    (rule sample_arrival_reach, simp add: without_upkeep_def)

text \<open>A run whose events are checked one by one.\<close>

fun guarded_run ::
  "(System \<Rightarrow> Event \<Rightarrow> bool) \<Rightarrow> nat \<Rightarrow> PoolConfig \<Rightarrow> Event list \<Rightarrow> System \<Rightarrow> System option" where
  "guarded_run ok ram cfg [] s = Some s"
| "guarded_run ok ram cfg (e # es) s =
     (if ok s e then (case sys_step ram cfg e s of None \<Rightarrow> None | Some s' \<Rightarrow> guarded_run ok ram cfg es s') else None)"

lemma guarded_run_reach:
  "guarded_run ok ram cfg es s = Some s' \<Longrightarrow> pool_reach ram cfg ok s \<Longrightarrow> pool_reach ram cfg ok s'"
  by (induction es arbitrary: s) (auto split: option.splits if_splits intro: pool_step)

text \<open>Two requests start a worker each; the first worker is given back, and a TCP worker comes.\<close>

definition two_workers_run :: "Event list" where
  "two_workers_run =
     start_events 0 stanza_key @ spawn_events 0 7 @ start_events 1 stanza_key @ spawn_events 1 8 @
     [Act 0 Go, Act 0 Go]"

definition tcp_comes :: "Event list" where
  "tcp_comes = Arrive (TcAdd stanza_key 5) # replicate 4 (Act 2 Go)"

lemma two_workers:
  "\<exists>s. guarded_run keeps_groups 0 (sample_config 2) two_workers_run new_system = Some s \<and>
    sy_tasks s = [Finished OcDone, Busy 0 8] \<and> wg_idle (pl_groups (sy_pool s) 0) = [7] \<and>
    wg_total (pl_groups (sy_pool s) 0) = 2 \<and> pl_next (sy_pool s) = 1"
  by (simp add: two_workers_run_def run_simps keeps_groups_def without_restart_def)

lemma two_workers_and_tcp:
  "\<exists>s. guarded_run fresh_workers 0 (sample_config 4) (two_workers_run @ tcp_comes) new_system = Some s \<and>
    sy_tasks s = [Finished OcDone, Busy 0 8, Finished OcDone] \<and> queued (sy_pool s) 0 = [7, 5]"
  by (simp add: two_workers_run_def tcp_comes_def run_simps fresh_workers_def occurrences_def queued_def)


lemma worker_serves_one_request_witness:
  "\<exists>s. guarded_run fresh_workers 0 (sample_config 4) (two_workers_run @ tcp_comes) new_system = Some s \<and>
    concat (map task_handles (sy_tasks s)) = [8] \<and> queued (sy_pool s) 0 = [7, 5] \<and>
    distinct (queued (sy_pool s) 0) \<and> set (concat (map task_handles (sy_tasks s))) \<inter> set (queued (sy_pool s) 0) = {}"
proof -
  obtain s where s: "guarded_run fresh_workers 0 (sample_config 4) (two_workers_run @ tcp_comes) new_system = Some s"
    "sy_tasks s = [Finished OcDone, Busy 0 8, Finished OcDone]" "queued (sy_pool s) 0 = [7, 5]"
    using two_workers_and_tcp by blast
  from worker_serves_one_request [OF guarded_run_reach [OF s(1) pool_reach.pool_init], of 0]
  show ?thesis using s by simp
qed

end
