(* ===== verification/Retok.thy ===== *)
theory Retok
  imports Ud_Map
begin

text \<open>
  Retokenization (\<open>chat-ops/retokenize\<close>, \<open>chat-ops/extract.rs\<close>, \<open>chat-ops/inject.rs\<close>): the words of an
  utterance are replaced by the tokens of the analysis, then the \<open>%mor\<close> and \<open>%gra\<close> tiers are added.

  The syntax tree belongs to the external CHAT crates: \<open>Content\<close> has the variants the code tells apart,
  with annotations of the type \<open>'a\<close> and everything else of the type \<open>'o\<close>, and the record \<open>WordTools\<close>
  holds the external functions: the parts of a word, which words have a \<open>%mor\<close> item, the walk over the
  leaves, the parser of one word. Lists inside groups have no plain group, so a plain group is left as
  it is there.
\<close>

section \<open>Content of an utterance\<close>

datatype FormType =
    FtA | FtB | FtC | FtD | FtF | FtFP | FtG | FtI | FtK | FtL | FtLS | FtN | FtO | FtP | FtQ | FtSAS
  | FtSI | FtSL | FtT | FtU | FtWP | FtX | FtUserDefined rstr

datatype Separator = SepComma | SepTag | SepVocative | SepOther rstr

datatype GroupKind = GkGroup | GkAnnotated | GkPho | GkSin | GkQuotation

datatype ('w, 'a, 'o) Content =
    CtWord 'w
  | CtAnnotated 'w 'a
  | CtReplaced 'w "'w list" 'a
  | CtGroup GroupKind 'a "('w, 'a, 'o) Content list"
  | CtSeparator Separator
  | CtOther 'o

datatype ('w, 'a) Leaf = WiWord 'w | WiReplaced 'w "'w list" 'a | WiSeparator Separator

record ExtractedWord =
  xw_text :: rstr
  xw_raw_text :: rstr
  xw_utterance_word_index :: nat
  xw_form_type :: "FormType option"
  xw_lang :: "rstr option"

record ('w, 'a, 'o) WordTools =
  wt_cleaned_text :: "'w \<Rightarrow> rstr"
  wt_raw_text :: "'w \<Rightarrow> rstr"
  wt_form_type :: "'w \<Rightarrow> FormType option"
  wt_lang :: "'w \<Rightarrow> rstr option"
  wt_counts :: "'w \<Rightarrow> bool"
  wt_ignored :: "'a \<Rightarrow> bool"
  wt_walk :: "('w, 'a, 'o) Content list \<Rightarrow> ('w, 'a) Leaf list"
  wt_tag_marker :: "Separator \<Rightarrow> bool"
  wt_render :: "Separator \<Rightarrow> rstr"
  wt_parse_word :: "rstr \<Rightarrow> 'w option"
  wt_lower :: "rchar \<Rightarrow> rstr"

section \<open>Extraction of the words with a \<open>%mor\<close> item\<close>

definition extracted :: "('w, 'a, 'o) WordTools \<Rightarrow> nat \<Rightarrow> 'w \<Rightarrow> ExtractedWord" where
  "extracted wt idx w =
     \<lparr>xw_text = wt_cleaned_text wt w, xw_raw_text = wt_raw_text wt w, xw_utterance_word_index = idx,
      xw_form_type = wt_form_type wt w, xw_lang = wt_lang wt w\<rparr>"

definition collect_alignable_word :: "('w, 'a, 'o) WordTools \<Rightarrow> 'w \<Rightarrow> ExtractedWord list \<Rightarrow> ExtractedWord list" where
  "collect_alignable_word wt w out = (if wt_counts wt w then out @ [extracted wt (length out) w] else out)"

definition collect_replaced_word ::
  "('w, 'a, 'o) WordTools \<Rightarrow> 'w \<Rightarrow> 'w list \<Rightarrow> 'a \<Rightarrow> ExtractedWord list \<Rightarrow> ExtractedWord list" where
  "collect_replaced_word wt w replacement ann out =
     (if wt_ignored wt ann then out
      else if replacement \<noteq> [] then fold (collect_alignable_word wt) replacement out
      else collect_alignable_word wt w out)"

fun collect_item :: "('w, 'a, 'o) WordTools \<Rightarrow> ('w, 'a) Leaf \<Rightarrow> ExtractedWord list \<Rightarrow> ExtractedWord list" where
  "collect_item wt (WiWord w) out = collect_alignable_word wt w out"
| "collect_item wt (WiReplaced w replacement ann) out = collect_replaced_word wt w replacement ann out"
| "collect_item wt (WiSeparator sep) out =
     (if wt_tag_marker wt sep
      then out @ [\<lparr>xw_text = wt_render wt sep, xw_raw_text = wt_render wt sep,
                   xw_utterance_word_index = length out, xw_form_type = None, xw_lang = None\<rparr>]
      else out)"

definition collect_utterance_content ::
  "('w, 'a, 'o) WordTools \<Rightarrow> ('w, 'a, 'o) Content list \<Rightarrow> ExtractedWord list" where
  "collect_utterance_content wt content = fold (collect_item wt) (wt_walk wt content) []"

section \<open>Which tokens belong to a word\<close>

definition normalize_alignment_unit :: "(rchar \<Rightarrow> rstr) \<Rightarrow> rstr \<Rightarrow> rstr" where
  "normalize_alignment_unit lower s = concat (map lower s)"

fun ranges_from :: "nat \<Rightarrow> rstr list \<Rightarrow> (nat \<times> nat) list" where
  "ranges_from cursor [] = []"
| "ranges_from cursor (s # ss) = (cursor, cursor + length s) # ranges_from (cursor + length s) ss"

fun skip_tokens :: "nat \<Rightarrow> nat \<Rightarrow> (nat \<times> nat) list \<Rightarrow> nat" where
  "skip_tokens word_start idx [] = idx"
| "skip_tokens word_start idx ((a, b) # rs) =
     (if b \<le> word_start then skip_tokens word_start (Suc idx) rs else idx)"

fun overlapping_tokens :: "nat \<Rightarrow> nat \<Rightarrow> nat \<Rightarrow> (nat \<times> nat) list \<Rightarrow> nat list" where
  "overlapping_tokens word_start word_stop idx [] = []"
| "overlapping_tokens word_start word_stop idx ((a, b) # rs) =
     (if a \<ge> word_stop then []
      else (if b > word_start then [idx] else []) @ overlapping_tokens word_start word_stop (Suc idx) rs)"

fun map_words_to_tokens :: "(nat \<times> nat) list \<Rightarrow> nat \<Rightarrow> (nat \<times> nat) list \<Rightarrow> nat list list option" where
  "map_words_to_tokens token_ranges idx [] = Some []"
| "map_words_to_tokens token_ranges idx ((a, b) # ws) =
     (let idx' = skip_tokens a idx (drop idx token_ranges);
          toks = overlapping_tokens a b idx' (drop idx' token_ranges)
      in if toks = [] then None
         else map_option (\<lambda>rest. toks # rest) (map_words_to_tokens token_ranges idx' ws))"

definition try_deterministic_word_token_mapping ::
  "(rchar \<Rightarrow> rstr) \<Rightarrow> rstr list \<Rightarrow> rstr list \<Rightarrow> nat list list option" where
  "try_deterministic_word_token_mapping lower original_words stanza_tokens =
     (if original_words = [] \<or> stanza_tokens = [] then Some (replicate (length original_words) [])
      else
        (let words = map (normalize_alignment_unit lower) original_words;
             tokens = map (normalize_alignment_unit lower) stanza_tokens
         in if [] \<in> set words \<or> [] \<in> set tokens \<or> concat words \<noteq> concat tokens then None
            else map_words_to_tokens (ranges_from 0 tokens) 0 (ranges_from 0 words)))"

definition build_length_fallback_mapping :: "nat \<Rightarrow> nat \<Rightarrow> nat list list" where
  "build_length_fallback_mapping word_count token_count =
     (if word_count = 0 \<or> token_count = 0 then replicate word_count []
      else if word_count = token_count then map (\<lambda>i. [i]) [0..<word_count]
      else map (\<lambda>i.
             (let start = i * token_count div word_count;
                  stop = (i + 1) * token_count div word_count;
                  stop = (if stop \<le> start then min (start + 1) token_count else stop)
              in [start..<stop])) [0..<word_count])"

definition build_word_token_mapping :: "(rchar \<Rightarrow> rstr) \<Rightarrow> rstr list \<Rightarrow> rstr list \<Rightarrow> nat list list" where
  "build_word_token_mapping lower original_words stanza_tokens =
     (case try_deterministic_word_token_mapping lower original_words stanza_tokens of
        Some mapping \<Rightarrow> mapping
      | None \<Rightarrow> build_length_fallback_mapping (length original_words) (length stanza_tokens))"

definition get_nonempty :: "nat list list \<Rightarrow> nat \<Rightarrow> nat list option" where
  "get_nonempty mapping word_idx =
     (if word_idx < length mapping \<and> mapping ! word_idx \<noteq> [] then Some (mapping ! word_idx) else None)"

section \<open>Reading a token\<close>

datatype Diagnostic =
  NoMatchForWord nat
| SkippedTerminator rstr rstr
| NotAWord rstr

definition resolve_token_text :: "rstr \<Rightarrow> nat \<Rightarrow> ExtractedWord list \<Rightarrow> rstr" where
  "resolve_token_text stanza_text orig_word_idx original_words =
     (if stanza_text = lit ''xbxxx'' \<and> orig_word_idx < length original_words \<and>
         (xw_form_type (original_words ! orig_word_idx) \<noteq> None \<or> xw_lang (original_words ! orig_word_idx) \<noteq> None)
      then xw_text (original_words ! orig_word_idx) else stanza_text)"

definition separator_of_text :: "rstr \<Rightarrow> Separator option" where
  "separator_of_text s =
     (if s = lit '','' then Some SepComma else if s = [8222] then Some SepTag
      else if s = [8225] then Some SepVocative else None)"

definition is_tag_marker_text :: "rstr \<Rightarrow> bool" where
  "is_tag_marker_text s \<longleftrightarrow> s = lit '','' \<or> s = [8222] \<or> s = [8225]"

definition ends_utterance :: "rstr \<Rightarrow> bool" where
  "ends_utterance s \<longleftrightarrow>
     s \<in> set [lit ''.'', lit ''?'', lit ''!'', lit ''+...'', lit ''+/.'', lit ''+//.'', lit ''+/?'', lit ''+//?'',
       lit ''+..?'', [43, 34, 46], [43, 34, 47, 46]]"

definition handle_ending_punct_skip ::
  "rstr \<Rightarrow> rstr option \<Rightarrow> Diagnostic list \<Rightarrow> bool \<times> Diagnostic list" where
  "handle_ending_punct_skip s expected diagnostics =
     (if \<not> ends_utterance s then (False, diagnostics)
      else (True, case expected of
                    None \<Rightarrow> diagnostics
                  | Some e \<Rightarrow> if s = e then diagnostics else diagnostics @ [SkippedTerminator s e]))"

definition try_parse_token_as_word ::
  "('w, 'a, 'o) WordTools \<Rightarrow> rstr \<Rightarrow> Diagnostic list \<Rightarrow> 'w option \<times> Diagnostic list" where
  "try_parse_token_as_word wt s diagnostics =
     (case wt_parse_word wt s of
        Some w \<Rightarrow> (Some w, diagnostics)
      | None \<Rightarrow> (None, diagnostics @ [NotAWord s]))"

definition try_parse_token_as_content ::
  "('w, 'a, 'o) WordTools \<Rightarrow> rstr \<Rightarrow> rstr option \<Rightarrow> Diagnostic list \<Rightarrow> ('w, 'a, 'o) Content option \<times> Diagnostic list" where
  "try_parse_token_as_content wt s expected diagnostics =
     (case separator_of_text s of
        Some sep \<Rightarrow> (Some (CtSeparator sep), diagnostics)
      | None \<Rightarrow>
          (case handle_ending_punct_skip s expected diagnostics of
             (True, diagnostics) \<Rightarrow> (None, diagnostics)
           | (False, diagnostics) \<Rightarrow>
               (case try_parse_token_as_word wt s diagnostics of (w, diagnostics) \<Rightarrow> (map_option CtWord w, diagnostics))))"

section \<open>The walk over the content\<close>

record RetokenizeContext =
  rc_mapping :: "nat list list"
  rc_stanza_tokens :: "rstr list"
  rc_original_words :: "ExtractedWord list"
  rc_mor_count :: nat
  rc_expected_terminator :: "rstr option"
  rc_word_counter :: nat
  rc_mor_cursor :: nat
  rc_diagnostics :: "Diagnostic list"
  rc_emitted_tokens :: "nat list"

definition next_word :: "RetokenizeContext \<Rightarrow> nat \<times> RetokenizeContext" where
  "next_word ctx = (rc_word_counter ctx, ctx\<lparr>rc_word_counter := rc_word_counter ctx + 1\<rparr>)"

definition advance_bounded :: "RetokenizeContext \<Rightarrow> RetokenizeContext" where
  "advance_bounded ctx =
     (if rc_mor_cursor ctx < rc_mor_count ctx then ctx\<lparr>rc_mor_cursor := rc_mor_cursor ctx + 1\<rparr> else ctx)"

definition no_match :: "nat \<Rightarrow> RetokenizeContext \<Rightarrow> RetokenizeContext" where
  "no_match idx ctx = advance_bounded (ctx\<lparr>rc_diagnostics := rc_diagnostics ctx @ [NoMatchForWord idx]\<rparr>)"

definition mark_emitted :: "nat list \<Rightarrow> RetokenizeContext \<Rightarrow> RetokenizeContext" where
  "mark_emitted tis ctx =
     ctx\<lparr>rc_emitted_tokens := tis @ rc_emitted_tokens ctx, rc_mor_cursor := rc_mor_cursor ctx + length tis\<rparr>"

text \<open>
  The loop over the tokens of one word. \<open>single\<close> says that the word has one token. The tokens of a word
  are different, so that the tokens behind the one that cannot be parsed are the rest of the list.
\<close>

fun emit_tokens ::
  "('w, 'a, 'o) WordTools \<Rightarrow> nat \<Rightarrow> bool \<Rightarrow> 'w \<Rightarrow> nat list \<Rightarrow> RetokenizeContext \<Rightarrow> ('w, 'a, 'o) Content list \<Rightarrow>
    RetokenizeContext \<times> ('w, 'a, 'o) Content list" where
  "emit_tokens wt idx single word [] ctx out = (ctx, out)"
| "emit_tokens wt idx single word (ti # tis) ctx out =
     (let token_text = resolve_token_text (rc_stanza_tokens ctx ! ti) idx (rc_original_words ctx);
          ctx1 = mark_emitted [ti] ctx
      in if single \<and> wt_cleaned_text wt word = token_text then (ctx1, out @ [CtWord word])
         else
           (case try_parse_token_as_content wt token_text (rc_expected_terminator ctx1) (rc_diagnostics ctx1) of
              (Some content, diagnostics) \<Rightarrow>
                emit_tokens wt idx single word tis (ctx1\<lparr>rc_diagnostics := diagnostics\<rparr>) (out @ [content])
            | (None, diagnostics) \<Rightarrow>
                (mark_emitted tis (ctx1\<lparr>rc_diagnostics := diagnostics\<rparr>), out @ [CtWord word])))"

definition handle_word_retokenize ::
  "('w, 'a, 'o) WordTools \<Rightarrow> 'w \<Rightarrow> RetokenizeContext \<Rightarrow> ('w, 'a, 'o) Content list \<Rightarrow>
    RetokenizeContext \<times> ('w, 'a, 'o) Content list" where
  "handle_word_retokenize wt word ctx out =
     (case next_word ctx of (idx, ctx) \<Rightarrow>
        (case get_nonempty (rc_mapping ctx) idx of
           None \<Rightarrow> (no_match idx ctx, out @ [CtWord word])
         | Some tis \<Rightarrow>
             if list_all (\<lambda>ti. ti \<in> set (rc_emitted_tokens ctx)) tis then (ctx, out)
             else emit_tokens wt idx (length tis = 1) word tis ctx out))"

definition handle_annotated_word_retokenize ::
  "('w, 'a, 'o) WordTools \<Rightarrow> 'w \<Rightarrow> RetokenizeContext \<Rightarrow> RetokenizeContext \<times> 'w" where
  "handle_annotated_word_retokenize wt word ctx =
     (case next_word ctx of (idx, ctx) \<Rightarrow>
        (case get_nonempty (rc_mapping ctx) idx of
           None \<Rightarrow> (no_match idx ctx, word)
         | Some tis \<Rightarrow>
             if list_all (\<lambda>ti. ti \<in> set (rc_emitted_tokens ctx)) tis then (ctx, word)
             else
               (let token_text = resolve_token_text (rc_stanza_tokens ctx ! hd tis) idx (rc_original_words ctx);
                    (ctx, word) =
                      (if wt_cleaned_text wt word = token_text \<or> is_tag_marker_text token_text then (ctx, word)
                       else
                         (case handle_ending_punct_skip token_text (rc_expected_terminator ctx) (rc_diagnostics ctx) of
                            (True, diagnostics) \<Rightarrow> (ctx\<lparr>rc_diagnostics := diagnostics\<rparr>, word)
                          | (False, diagnostics) \<Rightarrow>
                              (case try_parse_token_as_word wt token_text diagnostics of
                                 (parsed, diagnostics) \<Rightarrow>
                                   (ctx\<lparr>rc_diagnostics := diagnostics\<rparr>, case parsed of Some w \<Rightarrow> w | None \<Rightarrow> word))))
                in (mark_emitted tis ctx, word))))"

definition retokenize_if_counted ::
  "('w, 'a, 'o) WordTools \<Rightarrow> 'w \<Rightarrow> RetokenizeContext \<Rightarrow> RetokenizeContext \<times> 'w" where
  "retokenize_if_counted wt word ctx =
     (if wt_counts wt word then handle_annotated_word_retokenize wt word ctx else (ctx, word))"

fun retokenize_replacement ::
  "('w, 'a, 'o) WordTools \<Rightarrow> 'w list \<Rightarrow> RetokenizeContext \<Rightarrow> RetokenizeContext \<times> 'w list" where
  "retokenize_replacement wt [] ctx = (ctx, [])"
| "retokenize_replacement wt (w # ws) ctx =
     (case retokenize_if_counted wt w ctx of
        (ctx, w') \<Rightarrow> (case retokenize_replacement wt ws ctx of (ctx, ws') \<Rightarrow> (ctx, w' # ws')))"

text \<open>
  \<open>rebuild_content\<close> at the top of an utterance, \<open>rebuild_bracketed_content\<close> inside groups: \<open>outer\<close> tells
  them apart.
\<close>

fun rebuild_item ::
  "('w, 'a, 'o) WordTools \<Rightarrow> bool \<Rightarrow> ('w, 'a, 'o) Content \<Rightarrow> RetokenizeContext \<times> ('w, 'a, 'o) Content list \<Rightarrow>
    RetokenizeContext \<times> ('w, 'a, 'o) Content list"
and rebuild_content ::
  "('w, 'a, 'o) WordTools \<Rightarrow> bool \<Rightarrow> ('w, 'a, 'o) Content list \<Rightarrow> RetokenizeContext \<times> ('w, 'a, 'o) Content list \<Rightarrow>
    RetokenizeContext \<times> ('w, 'a, 'o) Content list" where
  "rebuild_item wt outer (CtWord w) (ctx, out) =
     (if wt_counts wt w then handle_word_retokenize wt w ctx out else (ctx, out @ [CtWord w]))"
| "rebuild_item wt outer (CtAnnotated w a) (ctx, out) =
     (case retokenize_if_counted wt w ctx of (ctx, w') \<Rightarrow> (ctx, out @ [CtAnnotated w' a]))"
| "rebuild_item wt outer (CtReplaced w ws a) (ctx, out) =
     (if ws = [] then (case retokenize_if_counted wt w ctx of (ctx, w') \<Rightarrow> (ctx, out @ [CtReplaced w' ws a]))
      else (case retokenize_replacement wt ws ctx of (ctx, ws') \<Rightarrow> (ctx, out @ [CtReplaced w ws' a])))"
| "rebuild_item wt outer (CtGroup kind a content) (ctx, out) =
     (if \<not> outer \<and> kind = GkGroup then (ctx, out @ [CtGroup kind a content])
      else (case rebuild_content wt False content (ctx, []) of
              (ctx, content') \<Rightarrow> (ctx, out @ [CtGroup kind a content'])))"
| "rebuild_item wt outer (CtSeparator sep) (ctx, out) =
     (if wt_tag_marker wt sep then (snd (next_word ctx), out @ [CtSeparator sep])
      else (ctx, out @ [CtSeparator sep]))"
| "rebuild_item wt outer (CtOther x) (ctx, out) = (ctx, out @ [CtOther x])"
| "rebuild_content wt outer [] s = s"
| "rebuild_content wt outer (c # cs) s = rebuild_content wt outer cs (rebuild_item wt outer c s)"

section \<open>Adding the tiers\<close>

datatype 't UtteranceTier =
    TierMor "Mor list" "rstr option"
  | TierGra "GrammaticalRelation list"
  | TierOther 't

record ('w, 'a, 'o, 't) TokenUtterance =
  tu_content :: "('w, 'a, 'o) Content list"
  tu_tiers :: "'t UtteranceTier list"
  tu_main_taint :: bool
  tu_language_code :: "rstr option"
  tu_terminator :: "rstr option"

fun same_tier :: "'t UtteranceTier \<Rightarrow> 't UtteranceTier \<Rightarrow> bool" where
  "same_tier (TierMor ms t) (TierMor ms' t') = True"
| "same_tier (TierGra gs) (TierGra gs') = True"
| "same_tier t t' = False"

fun put_tier :: "'t UtteranceTier list \<Rightarrow> 't UtteranceTier \<Rightarrow> 't UtteranceTier list" where
  "put_tier [] new = [new]"
| "put_tier (t # ts) new = (if same_tier t new then new # ts else t # put_tier ts new)"

datatype InjectError = MorCountMismatch nat nat

definition inject_morphosyntax ::
  "('w, 'a, 'o) WordTools \<Rightarrow> ('w, 'a, 'o, 't) TokenUtterance \<Rightarrow> Mor list \<Rightarrow> rstr option \<Rightarrow>
    GrammaticalRelation list \<Rightarrow> ('w, 'a, 'o, 't) TokenUtterance \<times> InjectError option" where
  "inject_morphosyntax wt u mors terminator gras =
     (if mors = [] then (u, None)
      else
        (let word_count = length (collect_utterance_content wt (tu_content u))
         in if word_count \<noteq> length mors then (u, Some (MorCountMismatch (length mors) word_count))
            else
              (let u = u\<lparr>tu_tiers := put_tier (tu_tiers u) (TierMor mors terminator)\<rparr>
               in (if gras = [] then u else u\<lparr>tu_tiers := put_tier (tu_tiers u) (TierGra gras)\<rparr>, None))))"

definition retokenize_context ::
  "('w, 'a, 'o) WordTools \<Rightarrow> ExtractedWord list \<Rightarrow> rstr list \<Rightarrow> nat \<Rightarrow> rstr option \<Rightarrow> RetokenizeContext" where
  "retokenize_context wt original_words stanza_tokens mor_count terminator =
     \<lparr>rc_mapping = build_word_token_mapping (wt_lower wt) (map xw_text original_words) stanza_tokens,
      rc_stanza_tokens = stanza_tokens, rc_original_words = original_words, rc_mor_count = mor_count,
      rc_expected_terminator = terminator, rc_word_counter = 0, rc_mor_cursor = 0, rc_diagnostics = [],
      rc_emitted_tokens = []\<rparr>"

definition retokenize_utterance ::
  "('w, 'a, 'o) WordTools \<Rightarrow> ('w, 'a, 'o, 't) TokenUtterance \<Rightarrow> ExtractedWord list \<Rightarrow> rstr list \<Rightarrow> Mor list \<Rightarrow>
    rstr option \<Rightarrow> GrammaticalRelation list \<Rightarrow> ('w, 'a, 'o, 't) TokenUtterance \<times> InjectError option" where
  "retokenize_utterance wt u original_words stanza_tokens mors terminator gras =
     (if original_words = [] \<or> stanza_tokens = [] then (u, None)
      else
        (case rebuild_content wt True (tu_content u)
                (retokenize_context wt original_words stanza_tokens (length mors) terminator, []) of
           (ctx, content) \<Rightarrow>
             inject_morphosyntax wt
               (u\<lparr>tu_content := content, tu_main_taint := tu_main_taint u \<or> rc_diagnostics ctx \<noteq> []\<rparr>)
               mors terminator gras))"

end
