(* ===== verification/Mor_Inject.thy ===== *)
theory Mor_Inject
  imports Retok
begin

text \<open>
  Payloads, cache keys and injection of morphosyntax (\<open>chat-ops/morphosyntax\<close>). The JSON form of the
  tiers, the resolution of a word's language and the hash are arguments (\<open>MorServices\<close>); a cache key is
  the hash of the text that the code feeds to it. An outer \<open>None\<close> is a panic.
\<close>

section \<open>Types\<close>

datatype TokenizationMode = Preserve | StanzaRetokenize

definition tokenization_mode_from :: "bool \<Rightarrow> TokenizationMode" where
  "tokenization_mode_from retokenize = (if retokenize then StanzaRetokenize else Preserve)"

datatype MultilingualPolicy = ProcessAll | SkipNonPrimary

definition policy_from_skip_flag :: "bool \<Rightarrow> MultilingualPolicy" where
  "policy_from_skip_flag skip = (if skip then SkipNonPrimary else ProcessAll)"

definition should_skip_non_primary :: "MultilingualPolicy \<Rightarrow> bool" where
  "should_skip_non_primary p \<longleftrightarrow> p = SkipNonPrimary"

type_synonym MwtDict = "(rstr, rstr list) hmap"

record MorphosyntaxBatchItem =
  mi_words :: "rstr list"
  mi_terminator :: rstr
  mi_special_forms :: "(FormType option \<times> rstr option) list"
  mi_lang :: rstr

record BatchItemWithPosition =
  bi_line_idx :: nat
  bi_utt_ordinal :: nat
  bi_item :: MorphosyntaxBatchItem
  bi_words :: "ExtractedWord list"

datatype 'u FileLine = FlUtterance 'u | FlOther

record ('w, 'a, 'o, 't) MorFile =
  mf_lines :: "('w, 'a, 'o, 't) TokenUtterance FileLine list"
  mf_languages :: "rstr list"

type_synonym StoredMor = "Mor list \<times> rstr option"

record MorServices =
  ms_unicode :: Unicode
  ms_count_chunks :: "Mor \<Rightarrow> nat"
  ms_tier_chunks :: "StoredMor \<Rightarrow> nat"
  ms_resolve_language :: "rstr \<Rightarrow> rstr \<Rightarrow> rstr option \<Rightarrow> rstr list \<Rightarrow> rstr"
  ms_hash :: "rstr \<Rightarrow> rstr"
  ms_mor_json :: "StoredMor \<Rightarrow> rstr"
  ms_parse_mor :: "rstr \<Rightarrow> StoredMor option"
  ms_gra_json :: "GrammaticalRelation list \<Rightarrow> rstr"
  ms_parse_gra :: "rstr \<Rightarrow> GrammaticalRelation list option"

section \<open>Payloads\<close>

definition is_mor :: "'t UtteranceTier \<Rightarrow> bool" where
  "is_mor t = (case t of TierMor _ _ \<Rightarrow> True | _ \<Rightarrow> False)"

definition is_mor_or_gra :: "'t UtteranceTier \<Rightarrow> bool" where
  "is_mor_or_gra t = (case t of TierMor _ _ \<Rightarrow> True | TierGra _ \<Rightarrow> True | TierOther _ \<Rightarrow> False)"

definition declared_languages :: "('w, 'a, 'o, 't) MorFile \<Rightarrow> rstr \<Rightarrow> rstr list" where
  "declared_languages chat_file primary_lang =
     (if mf_languages chat_file = [] then [primary_lang] else mf_languages chat_file)"

definition special_form ::
  "MorServices \<Rightarrow> rstr option \<Rightarrow> rstr list \<Rightarrow> ExtractedWord \<Rightarrow> FormType option \<times> rstr option" where
  "special_form ms tier_language declared w =
     (xw_form_type w, map_option (\<lambda>marker. ms_resolve_language ms (xw_text w) marker tier_language declared) (xw_lang w))"

definition utterance_lang :: "('w, 'a, 'o, 't) TokenUtterance \<Rightarrow> rstr list \<Rightarrow> rstr \<Rightarrow> rstr" where
  "utterance_lang u declared primary_lang =
     (case tu_language_code u of Some l \<Rightarrow> l | None \<Rightarrow> (case declared of [] \<Rightarrow> primary_lang | l # ls \<Rightarrow> l))"

definition payload_of ::
  "('w, 'a, 'o) WordTools \<Rightarrow> MorServices \<Rightarrow> rstr \<Rightarrow> rstr list \<Rightarrow> MultilingualPolicy \<Rightarrow> nat \<Rightarrow> nat \<Rightarrow>
    ('w, 'a, 'o, 't) TokenUtterance \<Rightarrow> BatchItemWithPosition list" where
  "payload_of wt ms primary_lang declared policy line_idx utt_idx u =
     (let skip = should_skip_non_primary policy \<and> tu_language_code u \<noteq> None \<and> tu_language_code u \<noteq> Some primary_lang;
          words = collect_utterance_content wt (tu_content u);
          tier_language = (case tu_language_code u of Some l \<Rightarrow> Some l | None \<Rightarrow> Some primary_lang)
      in if skip \<or> list_ex is_mor (tu_tiers u) \<or> words = [] then []
         else [\<lparr>bi_line_idx = line_idx, bi_utt_ordinal = utt_idx,
                bi_item = \<lparr>mi_words = map xw_text words,
                  mi_terminator = (case tu_terminator u of Some t \<Rightarrow> t | None \<Rightarrow> lit ''.''),
                  mi_special_forms = map (special_form ms tier_language declared) words,
                  mi_lang = utterance_lang u declared primary_lang\<rparr>,
                bi_words = words\<rparr>])"

fun collect_from ::
  "('w, 'a, 'o) WordTools \<Rightarrow> MorServices \<Rightarrow> rstr \<Rightarrow> rstr list \<Rightarrow> MultilingualPolicy \<Rightarrow> nat \<Rightarrow> nat \<Rightarrow>
    ('w, 'a, 'o, 't) TokenUtterance FileLine list \<Rightarrow> BatchItemWithPosition list" where
  "collect_from wt ms primary_lang declared policy line_idx utt_idx [] = []"
| "collect_from wt ms primary_lang declared policy line_idx utt_idx (FlOther # ls) =
     collect_from wt ms primary_lang declared policy (Suc line_idx) utt_idx ls"
| "collect_from wt ms primary_lang declared policy line_idx utt_idx (FlUtterance u # ls) =
     payload_of wt ms primary_lang declared policy line_idx utt_idx u @
     collect_from wt ms primary_lang declared policy (Suc line_idx) (Suc utt_idx) ls"

definition collect_payloads ::
  "('w, 'a, 'o) WordTools \<Rightarrow> MorServices \<Rightarrow> ('w, 'a, 'o, 't) MorFile \<Rightarrow> rstr \<Rightarrow> rstr list \<Rightarrow> MultilingualPolicy \<Rightarrow>
    BatchItemWithPosition list \<times> nat" where
  "collect_payloads wt ms chat_file primary_lang declared policy =
     (collect_from wt ms primary_lang declared policy 0 0 (mf_lines chat_file),
      length (filter (\<lambda>l. l \<noteq> FlOther) (mf_lines chat_file)))"

section \<open>Cache keys\<close>

definition mwt_text :: "MwtDict \<Rightarrow> rstr" where
  "mwt_text mwt = concat (map (\<lambda>(key, vals). key @ lit ''='' @ join_with (lit ''+'') vals @ lit '';'') mwt)"

definition cache_key_text :: "rstr list \<Rightarrow> rstr \<Rightarrow> MwtDict \<Rightarrow> bool \<Rightarrow> rstr" where
  "cache_key_text words lang mwt retokenize =
     lit ''v3|'' @ join_with (lit '' '') words @ lit ''|'' @ lang @ lit ''|mwt:'' @ mwt_text mwt @
     (if retokenize then lit ''|retok'' else [])"

definition cache_key :: "MorServices \<Rightarrow> rstr list \<Rightarrow> rstr \<Rightarrow> MwtDict \<Rightarrow> bool \<Rightarrow> rstr" where
  "cache_key ms words lang mwt retokenize = ms_hash ms (cache_key_text words lang mwt retokenize)"

record MorphosyntaxPayloadJson =
  mp_line_idx :: nat
  mp_words :: "rstr list"
  mp_lang :: rstr
  mp_key :: rstr

definition extract_payloads_json ::
  "('w, 'a, 'o) WordTools \<Rightarrow> MorServices \<Rightarrow> ('w, 'a, 'o, 't) MorFile \<Rightarrow> rstr \<Rightarrow> MultilingualPolicy \<Rightarrow> MwtDict \<Rightarrow>
    MorphosyntaxPayloadJson list" where
  "extract_payloads_json wt ms chat_file lang policy mwt =
     map (\<lambda>b. \<lparr>mp_line_idx = bi_line_idx b, mp_words = mi_words (bi_item b), mp_lang = mi_lang (bi_item b),
               mp_key = cache_key ms (mi_words (bi_item b)) (mi_lang (bi_item b)) mwt False\<rparr>)
       (fst (collect_payloads wt ms chat_file lang (declared_languages chat_file lang) policy))"

section \<open>Injection of results\<close>

fun form_pos :: "FormType \<Rightarrow> rstr option" where
  "form_pos FtA = Some (lit ''a'')" | "form_pos FtB = Some (lit ''b'')" | "form_pos FtC = Some (lit ''c'')"
| "form_pos FtD = Some (lit ''d'')" | "form_pos FtF = Some (lit ''f'')" | "form_pos FtFP = Some (lit ''fp'')"
| "form_pos FtG = Some (lit ''g'')" | "form_pos FtI = Some (lit ''i'')" | "form_pos FtK = Some (lit ''k'')"
| "form_pos FtL = Some (lit ''l'')" | "form_pos FtLS = Some (lit ''ls'')" | "form_pos FtN = Some (lit ''n'')"
| "form_pos FtO = Some (lit ''o'')" | "form_pos FtP = Some (lit ''p'')" | "form_pos FtQ = Some (lit ''q'')"
| "form_pos FtSAS = Some (lit ''sas'')" | "form_pos FtSI = Some (lit ''si'')" | "form_pos FtSL = Some (lit ''sl'')"
| "form_pos FtT = Some (lit ''t'')" | "form_pos FtU = Some (lit ''u'')" | "form_pos FtWP = Some (lit ''wp'')"
| "form_pos FtX = Some (lit ''x'')"
| "form_pos (FtUserDefined name) = None"

definition apply_special_form :: "Mor \<Rightarrow> FormType option \<times> rstr option \<Rightarrow> Mor" where
  "apply_special_form mor = (\<lambda>(form_type, resolved_lang).
     (case resolved_lang of
        Some l \<Rightarrow> mor\<lparr>mor_main := (mor_main mor)\<lparr>mw_pos := lit ''L2'', mw_lemma := lit ''xxx''\<rparr>\<rparr>
      | None \<Rightarrow>
          (case Option.bind form_type form_pos of
             Some pos \<Rightarrow> mor\<lparr>mor_main := (mor_main mor)\<lparr>mw_pos := pos\<rparr>\<rparr>
           | None \<Rightarrow> mor)))"

text \<open>Items without a special form behind the end of the shorter list stay as they are.\<close>

fun apply_special_forms :: "Mor list \<Rightarrow> (FormType option \<times> rstr option) list \<Rightarrow> Mor list" where
  "apply_special_forms [] forms = []"
| "apply_special_forms mors [] = mors"
| "apply_special_forms (m # mors) (f # forms) = apply_special_form m f # apply_special_forms mors forms"

definition token_of_word :: "UdWord \<Rightarrow> rstr" where
  "token_of_word w = filter (\<lambda>c. \<not> is_whitespace c) (ud_text w)"

definition mwt_expansion :: "Unicode \<Rightarrow> MwtDict \<Rightarrow> rstr \<Rightarrow> rstr list option" where
  "mwt_expansion un mwt tok =
     (case hm_get mwt (un_lower un tok) of Some e \<Rightarrow> Some e | None \<Rightarrow> hm_get mwt tok)"

definition repeat_item :: "nat \<Rightarrow> 'b list \<Rightarrow> nat \<Rightarrow> 'b list" where
  "repeat_item idx xs n = (if idx < length xs then xs ! idx # replicate (n - 1) (xs ! idx) else [])"

definition expand_token ::
  "Unicode \<Rightarrow> MwtDict \<Rightarrow> Mor list \<Rightarrow> GrammaticalRelation list \<Rightarrow> nat \<times> rstr \<Rightarrow>
    rstr list \<times> Mor list \<times> GrammaticalRelation list \<Rightarrow> rstr list \<times> Mor list \<times> GrammaticalRelation list" where
  "expand_token un mwt mors gras = (\<lambda>(idx, tok) (ts, ms, gs).
     (case mwt_expansion un mwt tok of
        Some e \<Rightarrow> (ts @ e, ms @ repeat_item idx mors (length e), gs @ repeat_item idx gras (length e))
      | None \<Rightarrow> (ts @ [tok], ms @ repeat_item idx mors 1, gs @ repeat_item idx gras 1)))"

definition apply_mwt_lexicon ::
  "Unicode \<Rightarrow> MwtDict \<Rightarrow> rstr list \<Rightarrow> Mor list \<Rightarrow> GrammaticalRelation list \<Rightarrow> rstr list \<times> Mor list \<times> GrammaticalRelation list" where
  "apply_mwt_lexicon un mwt tokens mors gras =
     (if mwt = [] then (tokens, mors, gras)
      else fold (expand_token un mwt mors gras) (enumerate 0 tokens) ([], [], []))"

record RetokenizationInfo =
  ri_utterance_ordinal :: nat
  ri_original_words :: "rstr list"
  ri_stanza_tokens :: "rstr list"
  ri_mapping :: "nat list list"
  ri_used_fallback :: bool

definition retokenization_info :: "(rchar \<Rightarrow> rstr) \<Rightarrow> nat \<Rightarrow> rstr list \<Rightarrow> rstr list \<Rightarrow> RetokenizationInfo" where
  "retokenization_info lower ordinal words tokens =
     (let mapping = build_word_token_mapping lower words tokens
      in \<lparr>ri_utterance_ordinal = ordinal, ri_original_words = words, ri_stanza_tokens = tokens,
          ri_mapping = map (\<lambda>i. case get_nonempty mapping i of Some ts \<Rightarrow> ts | None \<Rightarrow> []) [0..<length words],
          ri_used_fallback = (try_deterministic_word_token_mapping lower words tokens = None)\<rparr>)"

text \<open>
  The injection into one utterance: the new utterance and the trace. A failure of the mapping or of the
  injection is only logged; what the failed injection has done to the utterance stays.
\<close>

definition inject_utterance ::
  "('w, 'a, 'o) WordTools \<Rightarrow> MorServices \<Rightarrow> rstr \<Rightarrow> TokenizationMode \<Rightarrow> MwtDict \<Rightarrow> BatchItemWithPosition \<Rightarrow>
    UdSentence \<Rightarrow> ('w, 'a, 'o, 't) TokenUtterance \<Rightarrow>
    (('w, 'a, 'o, 't) TokenUtterance \<times> RetokenizationInfo list) option" where
  "inject_utterance wt ms lang mode mwt b sentence u =
     (case map_ud_sentence (ms_unicode ms) (ms_count_chunks ms) lang sentence of
        None \<Rightarrow> None
      | Some (Inl e) \<Rightarrow> Some (u, [])
      | Some (Inr (mors, gras)) \<Rightarrow>
          (let mors = apply_special_forms mors (mi_special_forms (bi_item b));
               terminator = Some (mi_terminator (bi_item b))
           in case mode of
                Preserve \<Rightarrow> Some (fst (inject_morphosyntax wt u mors terminator gras), [])
              | StanzaRetokenize \<Rightarrow>
                  (case apply_mwt_lexicon (ms_unicode ms) mwt (map token_of_word (us_words sentence)) mors gras of
                     (tokens, mors, gras) \<Rightarrow>
                       Some (fst (retokenize_utterance wt u (bi_words b) tokens mors terminator gras),
                         [retokenization_info (wt_lower wt) (bi_utt_ordinal b) (map xw_text (bi_words b)) tokens]))))"

datatype MorError =
  LineNotUtterance nat
| LineOutOfRange nat
| BadCachedMor nat
| BadCachedGra nat
| CachedMismatch nat nat nat

definition inject_result ::
  "('w, 'a, 'o) WordTools \<Rightarrow> MorServices \<Rightarrow> rstr \<Rightarrow> TokenizationMode \<Rightarrow> MwtDict \<Rightarrow> UdResponse \<times> BatchItemWithPosition \<Rightarrow>
    ('w, 'a, 'o, 't) MorFile \<times> RetokenizationInfo list \<Rightarrow>
    (MorError + ('w, 'a, 'o, 't) MorFile \<times> RetokenizationInfo list) option" where
  "inject_result wt ms lang mode mwt = (\<lambda>(resp, b) (f, traces).
     (case ur_sentences resp of
        [] \<Rightarrow> Some (Inr (f, traces))
      | sentence # _ \<Rightarrow>
          if bi_line_idx b \<ge> length (mf_lines f) then None
          else (case mf_lines f ! bi_line_idx b of
                  FlOther \<Rightarrow> Some (Inl (LineNotUtterance (bi_line_idx b)))
                | FlUtterance u \<Rightarrow>
                    map_option (\<lambda>(u', ts). Inr (f\<lparr>mf_lines := (mf_lines f)[bi_line_idx b := FlUtterance u']\<rparr>, traces @ ts))
                      (inject_utterance wt ms lang mode mwt b sentence u))))"

fun inject_all ::
  "('w, 'a, 'o) WordTools \<Rightarrow> MorServices \<Rightarrow> rstr \<Rightarrow> TokenizationMode \<Rightarrow> MwtDict \<Rightarrow> (UdResponse \<times> BatchItemWithPosition) list \<Rightarrow>
    ('w, 'a, 'o, 't) MorFile \<times> RetokenizationInfo list \<Rightarrow>
    (MorError + ('w, 'a, 'o, 't) MorFile \<times> RetokenizationInfo list) option" where
  "inject_all wt ms lang mode mwt [] s = Some (Inr s)"
| "inject_all wt ms lang mode mwt (rb # rbs) s =
     (case inject_result wt ms lang mode mwt rb s of
        None \<Rightarrow> None
      | Some (Inl e) \<Rightarrow> Some (Inl e)
      | Some (Inr s) \<Rightarrow> inject_all wt ms lang mode mwt rbs s)"

definition inject_results ::
  "('w, 'a, 'o) WordTools \<Rightarrow> MorServices \<Rightarrow> ('w, 'a, 'o, 't) MorFile \<Rightarrow> BatchItemWithPosition list \<Rightarrow> UdResponse list \<Rightarrow> rstr \<Rightarrow>
    TokenizationMode \<Rightarrow> MwtDict \<Rightarrow> (MorError + ('w, 'a, 'o, 't) MorFile \<times> RetokenizationInfo list) option" where
  "inject_results wt ms f items responses lang mode mwt = inject_all wt ms lang mode mwt (zip responses items) (f, [])"

section \<open>Clearing and validation\<close>

definition clear_tiers :: "('w, 'a, 'o, 't) TokenUtterance \<Rightarrow> ('w, 'a, 'o, 't) TokenUtterance" where
  "clear_tiers u = u\<lparr>tu_tiers := filter (\<lambda>t. \<not> is_mor_or_gra t) (tu_tiers u)\<rparr>"

definition clear_line :: "('w, 'a, 'o, 't) TokenUtterance FileLine \<Rightarrow> ('w, 'a, 'o, 't) TokenUtterance FileLine" where
  "clear_line l = (case l of FlUtterance u \<Rightarrow> FlUtterance (clear_tiers u) | FlOther \<Rightarrow> FlOther)"

definition clear_morphosyntax :: "('w, 'a, 'o, 't) MorFile \<Rightarrow> ('w, 'a, 'o, 't) MorFile" where
  "clear_morphosyntax f = f\<lparr>mf_lines := map clear_line (mf_lines f)\<rparr>"

fun clear_selected ::
  "nat set \<Rightarrow> nat \<Rightarrow> ('w, 'a, 'o, 't) TokenUtterance FileLine list \<Rightarrow> ('w, 'a, 'o, 't) TokenUtterance FileLine list" where
  "clear_selected ordinals idx [] = []"
| "clear_selected ordinals idx (FlOther # ls) = FlOther # clear_selected ordinals idx ls"
| "clear_selected ordinals idx (FlUtterance u # ls) =
     FlUtterance (if idx \<in> ordinals then clear_tiers u else u) # clear_selected ordinals (Suc idx) ls"

definition clear_morphosyntax_selective :: "('w, 'a, 'o, 't) MorFile \<Rightarrow> nat set \<Rightarrow> ('w, 'a, 'o, 't) MorFile" where
  "clear_morphosyntax_selective f ordinals = f\<lparr>mf_lines := clear_selected ordinals 0 (mf_lines f)\<rparr>"

record AlignmentWarning =
  aw_line_idx :: nat
  aw_main_count :: nat
  aw_mor_count :: nat

definition first_mor :: "'t UtteranceTier list \<Rightarrow> Mor list option" where
  "first_mor tiers = (case find is_mor tiers of Some (TierMor mors t) \<Rightarrow> Some mors | _ \<Rightarrow> None)"

text \<open>\<open>count_tier_positions\<close> of the external crate is the argument \<open>positions\<close>.\<close>

definition line_warnings ::
  "(('w, 'a, 'o) Content list \<Rightarrow> nat) \<Rightarrow> nat \<times> ('w, 'a, 'o, 't) TokenUtterance FileLine \<Rightarrow> AlignmentWarning list" where
  "line_warnings positions = (\<lambda>(line_idx, l).
     (case l of
        FlOther \<Rightarrow> []
      | FlUtterance u \<Rightarrow>
          (case first_mor (tu_tiers u) of
             None \<Rightarrow> []
           | Some mors \<Rightarrow>
               if positions (tu_content u) \<noteq> length mors
               then [\<lparr>aw_line_idx = line_idx, aw_main_count = positions (tu_content u), aw_mor_count = length mors\<rparr>]
               else [])))"

definition validate_mor_alignment ::
  "(('w, 'a, 'o) Content list \<Rightarrow> nat) \<Rightarrow> ('w, 'a, 'o, 't) MorFile \<Rightarrow> AlignmentWarning list" where
  "validate_mor_alignment positions f = concat (map (line_warnings positions) (enumerate 0 (mf_lines f)))"

section \<open>Cached tiers\<close>

record CachedEntry =
  ce_line_idx :: nat
  ce_mor :: rstr
  ce_gra :: rstr

definition inject_entry ::
  "MorServices \<Rightarrow> CachedEntry \<Rightarrow> ('w, 'a, 'o, 't) MorFile \<Rightarrow> MorError + ('w, 'a, 'o, 't) MorFile" where
  "inject_entry ms e f =
     (if ce_line_idx e \<ge> length (mf_lines f) then Inl (LineOutOfRange (ce_line_idx e))
      else (case mf_lines f ! ce_line_idx e of
              FlOther \<Rightarrow> Inl (LineNotUtterance (ce_line_idx e))
            | FlUtterance u \<Rightarrow>
                if ce_mor e = [] then Inr f
                else (case ms_parse_mor ms (ce_mor e) of
                        None \<Rightarrow> Inl (BadCachedMor (ce_line_idx e))
                      | Some (mors, _) \<Rightarrow>
                          (let mor_tier = TierMor mors (tu_terminator u);
                               put = (\<lambda>tiers. f\<lparr>mf_lines := (mf_lines f)[ce_line_idx e := FlUtterance (u\<lparr>tu_tiers := tiers\<rparr>)]\<rparr>)
                           in if ce_gra e = [] then Inr (put (put_tier (tu_tiers u) mor_tier))
                              else (case ms_parse_gra ms (ce_gra e) of
                                      None \<Rightarrow> Inl (BadCachedGra (ce_line_idx e))
                                    | Some gras \<Rightarrow>
                                        (let mor_chunks = ms_tier_chunks ms (mors, tu_terminator u)
                                         in if mor_chunks \<noteq> length gras
                                            then Inl (CachedMismatch (ce_line_idx e) mor_chunks (length gras))
                                            else Inr (put (put_tier (put_tier (tu_tiers u) mor_tier) (TierGra gras)))))))))"

fun inject_from_cache ::
  "MorServices \<Rightarrow> CachedEntry list \<Rightarrow> ('w, 'a, 'o, 't) MorFile \<Rightarrow> MorError option \<times> ('w, 'a, 'o, 't) MorFile" where
  "inject_from_cache ms [] f = (None, f)"
| "inject_from_cache ms (e # es) f =
     (case inject_entry ms e f of Inl err \<Rightarrow> (Some err, f) | Inr f \<Rightarrow> inject_from_cache ms es f)"

definition tier_strings :: "MorServices \<Rightarrow> 't UtteranceTier list \<Rightarrow> rstr \<times> rstr" where
  "tier_strings ms tiers = foldl (\<lambda>(m, g) t.
     case t of TierMor mors term \<Rightarrow> (ms_mor_json ms (mors, term), g)
     | TierGra gras \<Rightarrow> (m, ms_gra_json ms gras)
     | TierOther x \<Rightarrow> (m, g)) ([], []) tiers"

fun extract_strings :: "MorServices \<Rightarrow> ('w, 'a, 'o, 't) MorFile \<Rightarrow> nat list \<Rightarrow> MorError + CachedEntry list" where
  "extract_strings ms f [] = Inr []"
| "extract_strings ms f (i # is) =
     (if i \<ge> length (mf_lines f) then Inl (LineOutOfRange i)
      else (case mf_lines f ! i of
              FlOther \<Rightarrow> Inl (LineNotUtterance i)
            | FlUtterance u \<Rightarrow>
                (case tier_strings ms (tu_tiers u) of
                   (m, g) \<Rightarrow>
                     (case extract_strings ms f is of
                        Inl e \<Rightarrow> Inl e
                      | Inr es \<Rightarrow> Inr (\<lparr>ce_line_idx = i, ce_mor = m, ce_gra = g\<rparr> # es)))))"

end
