(* ===== verification/Stanza_Raw.thy ===== *)
theory Stanza_Raw
  imports Ud_Mor
begin

text \<open>
  From the raw answer of a worker to a Universal Dependencies analysis
  (\<open>chat-ops/morphosyntax/stanza_raw.rs\<close>): the JSON of every word is normalized, read into a \<open>UdWord\<close> the
  way the derived reader does it, and cleaned. One value that cannot be read makes the whole answer
  unreadable. A JSON number is an integer or a float, the latter a rational; the keys of an object are
  distinct. The test for letters is an argument, next to that for letters and digits. Of the failure of
  a word the sentence and the word are kept, not the reader's message.
\<close>

section \<open>JSON\<close>

datatype Json =
    JNull
  | JBool bool
  | JInt int
  | JFloat rat
  | JStr rstr
  | JArr "Json list"
  | JObj "(rstr \<times> Json) list"

definition as_u64 :: "Json \<Rightarrow> nat option" where
  "as_u64 v = (case v of JInt n \<Rightarrow> if 0 \<le> n then Some (nat n) else None | _ \<Rightarrow> None)"

definition as_str :: "Json \<Rightarrow> rstr option" where
  "as_str v = (case v of JStr s \<Rightarrow> Some s | _ \<Rightarrow> None)"

text \<open>\<open>entry(k).or_insert(v)\<close>.\<close>

definition or_insert :: "rstr \<Rightarrow> Json \<Rightarrow> (rstr, Json) hmap \<Rightarrow> (rstr, Json) hmap" where
  "or_insert k v obj = (if hm_get obj k = None then hm_insert k v obj else obj)"

section \<open>Normalization\<close>

definition unwrap_id :: "(rstr, Json) hmap \<Rightarrow> (rstr, Json) hmap" where
  "unwrap_id obj =
     (case hm_get obj (lit ''id'') of
        Some (JArr [v]) \<Rightarrow>
          (case as_u64 v of Some n \<Rightarrow> hm_insert (lit ''id'') (JInt (int n)) obj | None \<Rightarrow> obj)
      | _ \<Rightarrow> obj)"

definition is_range_word :: "(rstr, Json) hmap \<Rightarrow> bool" where
  "is_range_word obj \<longleftrightarrow>
     (case hm_get obj (lit ''id'') of Some (JArr a) \<Rightarrow> length a > 1 | _ \<Rightarrow> False)"

definition lemma_missing :: "(rstr, Json) hmap \<Rightarrow> bool" where
  "lemma_missing obj \<longleftrightarrow>
     (case hm_get obj (lit ''lemma'') of None \<Rightarrow> True | Some v \<Rightarrow> v = JNull \<or> as_str v = Some [])"

definition complete_word :: "(rstr, Json) hmap \<Rightarrow> (rstr, Json) hmap" where
  "complete_word obj =
     (if is_range_word obj
      then or_insert (lit ''feats'') (JStr [])
             (or_insert (lit ''deprel'') (JStr (lit ''dep''))
               (or_insert (lit ''head'') (JInt 0)
                 (or_insert (lit ''upos'') (JStr (lit ''X''))
                   (or_insert (lit ''lemma'') (JStr []) obj))))
      else if lemma_missing obj
      then (case Option.bind (hm_get obj (lit ''text'')) as_str of
              Some text \<Rightarrow> hm_insert (lit ''lemma'') (JStr text) obj
            | None \<Rightarrow> obj)
      else obj)"

definition null_to :: "rstr \<times> rstr \<Rightarrow> (rstr, Json) hmap \<Rightarrow> (rstr, Json) hmap" where
  "null_to = (\<lambda>(field, dflt) obj.
     if hm_get obj field = Some JNull then hm_insert field (JStr dflt) obj else obj)"

definition normalize_word_dict :: "Json \<Rightarrow> Json" where
  "normalize_word_dict value =
     (case value of
        JObj obj \<Rightarrow>
          JObj (fold null_to [(lit ''upos'', lit ''X''), (lit ''deprel'', lit ''dep''), (lit ''feats'', [])]
                  (complete_word (unwrap_id obj)))
      | _ \<Rightarrow> value)"

section \<open>Reading a word\<close>

definition json_id :: "Json \<Rightarrow> UdId option" where
  "json_id v =
     (case v of
        JInt n \<Rightarrow> Some (if 0 \<le> n then UdSingle (nat n) else UdDecimal (of_int n))
      | JFloat q \<Rightarrow> Some (UdDecimal q)
      | JArr [a, b] \<Rightarrow>
          (case (as_u64 a, as_u64 b) of (Some m, Some n) \<Rightarrow> Some (UdRange m n) | _ \<Rightarrow> None)
      | _ \<Rightarrow> None)"

definition pos_names :: "(rstr \<times> UniversalPos) list" where
  "pos_names =
     [(lit ''ADJ'', UpAdj), (lit ''ADP'', UpAdp), (lit ''ADV'', UpAdv), (lit ''AUX'', UpAux),
      (lit ''CCONJ'', UpCconj), (lit ''DET'', UpDet), (lit ''PRON'', UpPron), (lit ''NOUN'', UpNoun),
      (lit ''PROPN'', UpPropn), (lit ''NUM'', UpNum), (lit ''PART'', UpPart), (lit ''VERB'', UpVerb),
      (lit ''SCONJ'', UpSconj), (lit ''PUNCT'', UpPunct), (lit ''SYM'', UpSym), (lit ''INTJ'', UpIntj),
      (lit ''X'', UpX)]"

text \<open>A tag, by its name or as the one key of an object with the value null; or any other string.\<close>

definition json_upos :: "Json \<Rightarrow> UniversalPos UdPunctable option" where
  "json_upos v =
     (case v of
        JStr s \<Rightarrow> Some (case map_of pos_names s of Some p \<Rightarrow> UdValue p | None \<Rightarrow> UdPunctText s)
      | JObj [(s, JNull)] \<Rightarrow> map_option UdValue (map_of pos_names s)
      | _ \<Rightarrow> None)"

text \<open>An optional string: absent and null are both no value.\<close>

definition json_opt_str :: "Json \<Rightarrow> rstr option option" where
  "json_opt_str v = (case v of JNull \<Rightarrow> Some None | JStr s \<Rightarrow> Some (Some s) | _ \<Rightarrow> None)"

text \<open>The ten fields, in their order; the derived reader takes them from an object or from an array.\<close>

definition word_of_fields :: "Json list \<Rightarrow> UdWord option" where
  "word_of_fields vs =
     (case vs of
        [ident, text, lem, upos, xpos, feats, head, deprel, deps, misc] \<Rightarrow>
          (case (json_id ident, as_str text, as_str lem, json_upos upos, json_opt_str xpos) of
             (Some ident, Some text, Some lem, Some upos, Some xpos) \<Rightarrow>
               (case (json_opt_str feats, as_u64 head, as_str deprel, json_opt_str deps, json_opt_str misc) of
                  (Some feats, Some head, Some deprel, Some deps, Some misc) \<Rightarrow>
                    Some \<lparr>ud_id = ident, ud_text = text, ud_lemma = lem, ud_upos = upos, ud_xpos = xpos,
                      ud_feats = feats, ud_head = head, ud_deprel = deprel, ud_deps = deps, ud_misc = misc\<rparr>
                | _ \<Rightarrow> None)
           | _ \<Rightarrow> None)
      | _ \<Rightarrow> None)"

definition required_field :: "(rstr, Json) hmap \<Rightarrow> rstr \<Rightarrow> Json option" where
  "required_field obj k = hm_get obj k"

definition optional_field :: "(rstr, Json) hmap \<Rightarrow> rstr \<Rightarrow> Json option" where
  "optional_field obj k = Some (case hm_get obj k of Some v \<Rightarrow> v | None \<Rightarrow> JNull)"

definition word_from_value :: "Json \<Rightarrow> UdWord option" where
  "word_from_value v =
     (case v of
        JObj obj \<Rightarrow>
          Option.bind
            (those [required_field obj (lit ''id''), required_field obj (lit ''text''),
                    required_field obj (lit ''lemma''), required_field obj (lit ''upos''),
                    optional_field obj (lit ''xpos''), optional_field obj (lit ''feats''),
                    required_field obj (lit ''head''), required_field obj (lit ''deprel''),
                    optional_field obj (lit ''deps''), optional_field obj (lit ''misc'')])
            word_of_fields
      | JArr vs \<Rightarrow> word_of_fields vs
      | _ \<Rightarrow> None)"

section \<open>Cleaning\<close>

text \<open>\<open>char::is_control\<close>: the Unicode category Cc.\<close>

definition is_control :: "rchar \<Rightarrow> bool" where
  "is_control c \<longleftrightarrow> c < 32 \<or> (127 \<le> c \<and> c < 160)"

definition is_bogus_lemma :: "(rchar \<Rightarrow> bool) \<Rightarrow> Unicode \<Rightarrow> rstr \<Rightarrow> rstr \<Rightarrow> bool" where
  "is_bogus_lemma alphabetic un text lem \<longleftrightarrow>
     (if text = lem \<or> lem = [] then False
      else list_ex alphabetic text \<and>
        list_all (\<lambda>c. \<not> un_alphanumeric un c \<and> \<not> is_whitespace c \<and> \<not> is_control c) lem)"

definition is_pad :: "rstr \<Rightarrow> bool" where
  "is_pad deprel \<longleftrightarrow> starts_with deprel (lit ''<'') \<and> ends_with deprel (lit ''>'')"

definition is_range_id :: "UdId \<Rightarrow> bool" where
  "is_range_id i = (case i of UdRange _ _ \<Rightarrow> True | _ \<Rightarrow> False)"

definition validate_and_clean :: "(rchar \<Rightarrow> bool) \<Rightarrow> Unicode \<Rightarrow> UdWord \<Rightarrow> UdWord" where
  "validate_and_clean alphabetic un word =
     (let word = (if is_pad (ud_deprel word) then word\<lparr>ud_deprel := lit ''dep''\<rparr> else word)
      in if \<not> is_range_id (ud_id word) \<and> is_bogus_lemma alphabetic un (ud_text word) (ud_lemma word)
         then word\<lparr>ud_lemma := ud_text word\<rparr> else word)"

section \<open>An answer\<close>

datatype StanzaParseError = NotAnArray nat | WordParse nat nat

fun parse_words :: "(rchar \<Rightarrow> bool) \<Rightarrow> Unicode \<Rightarrow> nat \<Rightarrow> nat \<Rightarrow> Json list \<Rightarrow> StanzaParseError + UdWord list" where
  "parse_words alphabetic un sent_idx word_idx [] = Inr []"
| "parse_words alphabetic un sent_idx word_idx (raw # raws) =
     (case word_from_value (normalize_word_dict raw) of
        None \<Rightarrow> Inl (WordParse sent_idx word_idx)
      | Some word \<Rightarrow>
          map_sum id (\<lambda>ws. validate_and_clean alphabetic un word # ws)
            (parse_words alphabetic un sent_idx (Suc word_idx) raws))"

fun parse_sentences :: "(rchar \<Rightarrow> bool) \<Rightarrow> Unicode \<Rightarrow> nat \<Rightarrow> Json list \<Rightarrow> StanzaParseError + UdSentence list" where
  "parse_sentences alphabetic un sent_idx [] = Inr []"
| "parse_sentences alphabetic un sent_idx (JArr raws # vs) =
     (case parse_words alphabetic un sent_idx 0 raws of
        Inl e \<Rightarrow> Inl e
      | Inr ws \<Rightarrow> map_sum id (\<lambda>ss. \<lparr>us_words = ws\<rparr> # ss) (parse_sentences alphabetic un (Suc sent_idx) vs))"
| "parse_sentences alphabetic un sent_idx (v # vs) = Inl (NotAnArray sent_idx)"

definition parse_raw_stanza_output :: "(rchar \<Rightarrow> bool) \<Rightarrow> Unicode \<Rightarrow> Json list \<Rightarrow> StanzaParseError + UdResponse" where
  "parse_raw_stanza_output alphabetic un raw_sentences =
     map_sum id (\<lambda>ss. \<lparr>ur_sentences = ss\<rparr>) (parse_sentences alphabetic un 0 raw_sentences)"

section \<open>What comes out\<close>

text \<open>
  A word as the mapping may expect it: no padding relation, no lemma of punctuation for a word of
  letters, and, if the raw word is an object, no empty lemma unless the text is empty too; a range of
  tokens has no lemma of its own.
\<close>

definition clean_word :: "(rchar \<Rightarrow> bool) \<Rightarrow> Unicode \<Rightarrow> Json \<Rightarrow> UdWord \<Rightarrow> bool" where
  "clean_word alphabetic un raw w \<longleftrightarrow>
     \<not> is_pad (ud_deprel w) \<and>
     (is_range_id (ud_id w) \<or>
      \<not> is_bogus_lemma alphabetic un (ud_text w) (ud_lemma w) \<and>
      (ud_lemma w = [] \<longrightarrow> ud_text w = [] \<or> \<not> (\<exists>obj. raw = JObj obj)))"

lemma hm_get_put: "hm_get (hm_insert k v m) j = (if j = k then Some v else hm_get m j)"
  by (simp add: hm_get_def hm_insert_def update_conv')

lemma dep_no_pad: "\<not> is_pad (lit ''dep'')"
  by (simp add: is_pad_def lit_def)

lemma clean_clean:
  "(ud_lemma w = [] \<Longrightarrow> is_range_id (ud_id w) \<or> ud_text w = [] \<or> \<not> (\<exists>obj. raw = JObj obj)) \<Longrightarrow>
    clean_word alphabetic un raw (validate_and_clean alphabetic un w)"
  by (auto simp: clean_word_def validate_and_clean_def Let_def dep_no_pad is_bogus_lemma_def)

lemma null_to_other: "j \<noteq> fst fd \<Longrightarrow> hm_get (null_to fd obj) j = hm_get obj j"
  by (cases fd) (simp add: null_to_def hm_get_put)

text \<open>What the reader takes for the identifier, the text and the lemma.\<close>

lemma word_of_fields_parts:
  "word_of_fields vs = Some w \<Longrightarrow>
    \<exists>ident text lem rest. vs = ident # text # lem # rest \<and> json_id ident = Some (ud_id w) \<and>
      as_str text = Some (ud_text w) \<and> as_str lem = Some (ud_lemma w)"
  by (auto simp: word_of_fields_def split: list.splits option.splits)

lemma word_from_object:
  assumes "word_from_value (JObj obj) = Some w"
  shows "\<exists>ident text lem. hm_get obj (lit ''id'') = Some ident \<and> hm_get obj (lit ''text'') = Some text \<and>
    hm_get obj (lit ''lemma'') = Some lem \<and> json_id ident = Some (ud_id w) \<and> as_str text = Some (ud_text w) \<and>
    as_str lem = Some (ud_lemma w)"
  using assms unfolding word_from_value_def required_field_def
  by (auto simp: bind_eq_Some_conv dest!: word_of_fields_parts split: option.splits)

lemma lemma_filled:
  assumes "word_from_value (normalize_word_dict (JObj obj)) = Some w" "ud_lemma w = []"
  shows "is_range_id (ud_id w) \<or> ud_text w = []"
proof -
  let ?obj = "unwrap_id obj"
  obtain ident t lem where got: "hm_get (complete_word ?obj) (lit ''id'') = Some ident"
    "hm_get (complete_word ?obj) (lit ''text'') = Some t" "hm_get (complete_word ?obj) (lit ''lemma'') = Some lem"
    "json_id ident = Some (ud_id w)" "as_str t = Some (ud_text w)" "as_str lem = Some (ud_lemma w)"
    using word_from_object [OF assms(1) [unfolded normalize_word_dict_def Json.case]]
    by (auto simp: null_to_other lit_def)
  show ?thesis
  proof (cases "is_range_word ?obj")
    case True
    then obtain a where a: "hm_get ?obj (lit ''id'') = Some (JArr a)" "1 < length a"
      by (auto simp: is_range_word_def split: option.splits Json.splits)
    have "hm_get (complete_word ?obj) (lit ''id'') = Some (JArr a)"
      using True a(1) by (simp add: complete_word_def or_insert_def hm_get_put lit_def)
    then have "json_id (JArr a) = Some (ud_id w)" using got(1,4) by simp
    then show ?thesis using a(2) by (auto simp: json_id_def is_range_id_def split: list.splits option.splits UdId.split)
  next
    case False
    note plain = this
    show ?thesis
    proof (cases "lemma_missing ?obj")
      case True
      have "hm_get (complete_word ?obj) (lit ''text'') = hm_get ?obj (lit ''text'')"
        using plain by (simp add: complete_word_def hm_get_put lit_def split: option.split)
      then have "hm_get (complete_word ?obj) (lit ''lemma'') = Some (JStr (ud_text w))"
        using plain True got(2,5) by (simp add: complete_word_def hm_get_put)
      then show ?thesis using got(3,6) assms(2) by (simp add: as_str_def)
    next
      case False
      then have "hm_get ?obj (lit ''lemma'') = Some lem" using plain got(3) by (simp add: complete_word_def)
      then show ?thesis using False got(6) assms(2) by (simp add: lemma_missing_def)
    qed
  qed
qed

lemma parse_words_clean:
  "parse_words alphabetic un i j raws = Inr ws \<Longrightarrow> list_all2 (clean_word alphabetic un) raws ws"
proof (induction raws arbitrary: j ws)
  case (Cons raw raws)
  obtain w ws' where w: "word_from_value (normalize_word_dict raw) = Some w"
    "parse_words alphabetic un i (Suc j) raws = Inr ws'" "ws = validate_and_clean alphabetic un w # ws'"
    using Cons.prems by (cases "parse_words alphabetic un i (Suc j) raws") (auto split: option.splits)
  have "clean_word alphabetic un raw (validate_and_clean alphabetic un w)"
    by (rule clean_clean) (use w(1) lemma_filled in blast)
  then show ?case using Cons.IH [OF w(2)] w(3) by simp
qed simp

lemma parse_sentences_clean:
  "parse_sentences alphabetic un i vs = Inr ss \<Longrightarrow>
    list_all2 (\<lambda>v s. \<exists>raws. v = JArr raws \<and> list_all2 (clean_word alphabetic un) raws (us_words s)) vs ss"
proof (induction alphabetic un i vs arbitrary: ss rule: parse_sentences.induct)
  case (2 alphabetic un i raws vs)
  obtain ws where ws: "parse_words alphabetic un i 0 raws = Inr ws"
    using 2(2) by (auto split: sum.splits)
  with 2(2) obtain ss' where "parse_sentences alphabetic un (Suc i) vs = Inr ss'" "ss = \<lparr>us_words = ws\<rparr> # ss'"
    by (cases "parse_sentences alphabetic un (Suc i) vs") auto
  then show ?case using 2(1) [OF ws] parse_words_clean [OF ws] by simp
qed auto

text \<open>
  An answer that can be read has one sentence for every raw sentence and one word for every raw word, in
  order. None of the words has a padding relation; none that is not a range of tokens has a lemma of
  punctuation where its text has letters; and none that was given as an object has an empty lemma unless
  its text is empty.
\<close>

theorem stanza_words_clean:
  assumes "parse_raw_stanza_output alphabetic un raw = Inr resp"
  shows "list_all2 (\<lambda>v s. \<exists>raws. v = JArr raws \<and> list_all2 (clean_word alphabetic un) raws (us_words s))
    raw (ur_sentences resp)"
proof -
  obtain ss where "parse_sentences alphabetic un 0 raw = Inr ss" "resp = \<lparr>ur_sentences = ss\<rparr>"
    using assms by (cases "parse_sentences alphabetic un 0 raw") (auto simp: parse_raw_stanza_output_def)
  then show ?thesis using parse_sentences_clean by fastforce
qed

section \<open>A null head\<close>

text \<open>A raw word that has everything but a head.\<close>

definition headless_word :: "Json" where
  "headless_word =
     JObj [(lit ''id'', JInt 1), (lit ''text'', JStr (lit ''a'')), (lit ''lemma'', JNull), (lit ''upos'', JNull),
       (lit ''head'', JNull), (lit ''deprel'', JNull), (lit ''feats'', JNull)]"

definition headed_word :: "Json" where
  "headed_word =
     JObj [(lit ''id'', JArr [JInt 1]), (lit ''text'', JStr (lit ''a'')), (lit ''lemma'', JNull), (lit ''upos'', JNull),
       (lit ''head'', JInt 0), (lit ''deprel'', JStr (lit ''<pad>'')), (lit ''feats'', JNull)]"

definition latin_letters :: Unicode where
  "latin_letters = \<lparr>un_lower = id, un_upper = id, un_alphanumeric = is_ascii_alphabetic\<rparr>"

lemma headed_word_parses:
  "parse_raw_stanza_output is_ascii_alphabetic latin_letters [JArr [headed_word]] =
    Inr \<lparr>ur_sentences = [\<lparr>us_words = [\<lparr>ud_id = UdSingle 1, ud_text = lit ''a'', ud_lemma = lit ''a'',
      ud_upos = UdValue UpX, ud_xpos = None, ud_feats = Some [], ud_head = 0, ud_deprel = lit ''dep'',
      ud_deps = None, ud_misc = None\<rparr>]\<rparr>]\<rparr>"
  by (simp add: parse_raw_stanza_output_def headed_word_def normalize_word_dict_def unwrap_id_def complete_word_def
      is_range_word_def lemma_missing_def null_to_def as_u64_def as_str_def hm_get_def hm_insert_def lit_def
      word_from_value_def required_field_def optional_field_def word_of_fields_def json_id_def json_upos_def pos_names_def
      json_opt_str_def validate_and_clean_def Let_def is_pad_def ends_with_def is_range_id_def is_bogus_lemma_def)

lemma headless_word_unreadable:
  "parse_raw_stanza_output is_ascii_alphabetic latin_letters [JArr [headless_word]] = Inl (WordParse 0 0)"
  by (simp add: parse_raw_stanza_output_def headless_word_def normalize_word_dict_def unwrap_id_def complete_word_def
      is_range_word_def lemma_missing_def null_to_def as_u64_def as_str_def hm_get_def hm_insert_def lit_def
      word_from_value_def required_field_def optional_field_def word_of_fields_def json_id_def json_upos_def pos_names_def
      json_opt_str_def)

lemma stanza_words_clean_witness:
  "\<exists>resp. parse_raw_stanza_output is_ascii_alphabetic latin_letters [JArr [headed_word]] = Inr resp \<and>
    list_all2 (\<lambda>v s. \<exists>raws. v = JArr raws \<and> list_all2 (clean_word is_ascii_alphabetic latin_letters) raws (us_words s))
      [JArr [headed_word]] (ur_sentences resp)"
  using stanza_words_clean [OF headed_word_parses] headed_word_parses by blast

end
