(* ===== verification/Mor_Batch.thy ===== *)
theory Mor_Batch
  imports Mor_Inject Errors Stanza_Raw
begin

text \<open>
  The morphosyntax run of the server over a window of files (\<open>batchalign-app/src/morphosyntax\<close>): all
  files are parsed and collected, cached results injected, the rest inferred language by language and
  injected file by file. Parser, validation, serializer, the table of supported languages, the answer of a
  worker to one chunk, whether a language runs out of time and the wording of an unreadable answer are
  the fields of \<open>MorBackend\<close>; what is done with the answers, chunk by chunk and language by language, is
  modelled. The languages are taken in the order of their first item, the cache hits in the order of the
  utterances; the code iterates over hash maps. Logging, with the two checks after the injection whose
  results are only logged, progress and the debug dumps are left out.
\<close>

section \<open>Chunks\<close>

definition min_chunk_size :: nat where "min_chunk_size = 30"

definition compute_chunk_count :: "nat \<Rightarrow> nat \<Rightarrow> nat" where
  "compute_chunk_count item_count max_workers =
     (if item_count < min_chunk_size \<or> max_workers \<le> 1 then 1
      else min (max (item_count div min_chunk_size) 1) max_workers)"

text \<open>\<open>slice::chunks\<close>; the size is positive.\<close>

function chunks_of :: "nat \<Rightarrow> 'b list \<Rightarrow> 'b list list" where
  "chunks_of n xs = (if xs = [] \<or> n = 0 then [] else take n xs # chunks_of n (drop n xs))"
  by pat_completeness auto

termination
  by (relation "measure (\<lambda>(n, xs). length xs)") auto

declare chunks_of.simps [simp del]

text \<open>The first error of the chunks, in order, or all responses.\<close>

fun join_outcomes :: "('e + 'r list) list \<Rightarrow> 'e + 'r list" where
  "join_outcomes [] = Inr []"
| "join_outcomes (Inl e # os) = Inl e"
| "join_outcomes (Inr rs # os) = (case join_outcomes os of Inl e \<Rightarrow> Inl e | Inr all \<Rightarrow> Inr (rs @ all))"

text \<open>
  One chunk: what the worker answers for every item is turned into a response; an error of the worker
  for an item gives an empty response, an answer that cannot be read fails the chunk.
\<close>

datatype ItemResult = ItemError rstr | ItemRaw "Json list" | ItemNothing

definition item_response ::
  "(nat \<Rightarrow> MorphosyntaxBatchItem \<Rightarrow> Json list \<Rightarrow> rstr + UdResponse) \<Rightarrow> nat \<Rightarrow> MorphosyntaxBatchItem \<Rightarrow> ItemResult \<Rightarrow>
    ServerError + UdResponse list" where
  "item_response read_raw i item r =
     (case r of
        ItemError e \<Rightarrow> Inr [\<lparr>ur_sentences = []\<rparr>]
      | ItemNothing \<Rightarrow> Inr [\<lparr>ur_sentences = []\<rparr>]
      | ItemRaw sentences \<Rightarrow>
          (case read_raw i item sentences of Inl e \<Rightarrow> Inl (SeValidation e) | Inr ud \<Rightarrow> Inr [ud]))"

definition infer_batch_single ::
  "(MorphosyntaxBatchItem list \<Rightarrow> ServerError + ItemResult list) \<Rightarrow>
    (nat \<Rightarrow> MorphosyntaxBatchItem \<Rightarrow> Json list \<Rightarrow> rstr + UdResponse) \<Rightarrow>
    BatchItemWithPosition list \<Rightarrow> ServerError + UdResponse list" where
  "infer_batch_single dispatch read_raw items =
     (let payload_items = map bi_item items
      in case dispatch payload_items of
        Inl e \<Rightarrow> Inl e
      | Inr results \<Rightarrow>
          if length results \<noteq> length items
          then Inl (SeValidation (lit ''morphosyntax V2 returned '' @ show_nat (length results) @ lit '' items for '' @
                 show_nat (length items) @ lit '' requests''))
          else join_outcomes (map (\<lambda>(i, item, r). item_response read_raw i item r) (enumerate 0 (zip payload_items results))))"

definition infer_batch ::
  "nat \<Rightarrow> (BatchItemWithPosition list \<Rightarrow> ServerError + UdResponse list) \<Rightarrow> BatchItemWithPosition list \<Rightarrow>
    ServerError + UdResponse list" where
  "infer_batch max_workers_per_key single items =
     (let num_chunks = compute_chunk_count (length items) max_workers_per_key
      in if num_chunks \<le> 1 then single items
         else (let chunk_size = (length items + num_chunks - 1) div num_chunks
               in join_outcomes (map single (chunks_of chunk_size items))))"

section \<open>Cache\<close>

record StoredTiers =
  st_mor :: rstr
  st_gra :: rstr

type_synonym MorCache = "(rstr, StoredTiers) hmap"

definition partition_by_cache ::
  "MorServices \<Rightarrow> BatchItemWithPosition list \<Rightarrow> MorCache \<Rightarrow> MwtDict \<Rightarrow> bool \<Rightarrow>
    (nat \<times> StoredTiers) list \<times> rstr list \<times> BatchItemWithPosition list" where
  "partition_by_cache ms batch_items cache mwt retokenize =
     (let key = (\<lambda>b. cache_key ms (mi_words (bi_item b)) (mi_lang (bi_item b)) mwt retokenize);
          misses = filter (\<lambda>b. hm_get cache (key b) = None) batch_items
      in (List.map_filter (\<lambda>b. map_option (\<lambda>d. (bi_line_idx b, d)) (hm_get cache (key b))) batch_items,
          map key misses, misses))"

definition inject_cache_hits ::
  "MorServices \<Rightarrow> (nat \<times> StoredTiers) list \<Rightarrow> ('w, 'a, 'o, 't) MorFile \<Rightarrow> MorError option \<times> ('w, 'a, 'o, 't) MorFile" where
  "inject_cache_hits ms hits f =
     inject_from_cache ms (map (\<lambda>(i, d). \<lparr>ce_line_idx = i, ce_mor = st_mor d, ce_gra = st_gra d\<rparr>) hits) f"

definition cache_put_entries :: "rstr list \<Rightarrow> CachedEntry list \<Rightarrow> MorCache \<Rightarrow> MorCache" where
  "cache_put_entries keys entries cache =
     fold (\<lambda>(key, e). hm_insert key \<lparr>st_mor = ce_mor e, st_gra = ce_gra e\<rparr>)
       (filter (\<lambda>(key, e). ce_mor e \<noteq> []) (zip keys entries)) cache"

section \<open>The languages of a window\<close>

fun add_to_group :: "rstr \<Rightarrow> 'b \<Rightarrow> (rstr \<times> 'b list) list \<Rightarrow> (rstr \<times> 'b list) list" where
  "add_to_group lang x [] = [(lang, [x])]"
| "add_to_group lang x ((l, xs) # gs) = (if l = lang then (l, xs @ [x]) # gs else (l, xs) # add_to_group lang x gs)"

definition group_by_lang :: "BatchItemWithPosition list \<Rightarrow> (rstr \<times> (nat \<times> BatchItemWithPosition) list) list" where
  "group_by_lang items = fold (\<lambda>(i, b). add_to_group (mi_lang (bi_item b)) (i, b)) (enumerate 0 items) []"

text \<open>
  The responses of the supported languages are put at the positions of their items; a language that
  fails or is not supported leaves them empty. The timeout of a group is part of the answer.
\<close>

definition place_responses ::
  "(rstr \<Rightarrow> BatchItemWithPosition list \<Rightarrow> ServerError + UdResponse list) \<Rightarrow>
    rstr \<times> (nat \<times> BatchItemWithPosition) list \<Rightarrow> UdResponse option list \<Rightarrow> UdResponse option list" where
  "place_responses infer = (\<lambda>(lang, lang_items) all.
     (case infer lang (map snd lang_items) of
        Inl e \<Rightarrow> all
      | Inr responses \<Rightarrow> fold (\<lambda>(i, ud) all. all[i := Some ud]) (zip (map fst lang_items) responses) all))"

definition infer_window ::
  "(rstr \<Rightarrow> bool) \<Rightarrow> (rstr \<Rightarrow> BatchItemWithPosition list \<Rightarrow> ServerError + UdResponse list) \<Rightarrow>
    BatchItemWithPosition list \<Rightarrow> UdResponse list" where
  "infer_window supported infer misses =
     map (\<lambda>r. case r of Some ud \<Rightarrow> ud | None \<Rightarrow> \<lparr>ur_sentences = []\<rparr>)
       (fold (place_responses infer) (filter (\<lambda>(lang, xs). supported lang) (group_by_lang misses))
         (replicate (length misses) None))"

section \<open>A window of files\<close>

record ('w, 'a, 'o, 't) MorBackend =
  mb_parse :: "rstr \<Rightarrow> ('w, 'a, 'o, 't) MorFile \<times> nat"
  mb_is_dummy :: "('w, 'a, 'o, 't) MorFile \<Rightarrow> bool"
  mb_main_tier_errors :: "('w, 'a, 'o, 't) MorFile \<Rightarrow> nat \<Rightarrow> rstr list"
  mb_serialize :: "('w, 'a, 'o, 't) MorFile \<Rightarrow> rstr"
  mb_supported :: "rstr \<Rightarrow> bool"
  mb_max_workers_per_key :: nat
  mb_group_timeout_s :: nat
  mb_times_out :: "LanguageCode3 \<Rightarrow> BatchItemWithPosition list \<Rightarrow> bool"
  mb_dispatch :: "LanguageCode3 \<Rightarrow> MwtDict \<Rightarrow> bool \<Rightarrow> MorphosyntaxBatchItem list \<Rightarrow> ServerError + ItemResult list"
  mb_alphabetic :: "rchar \<Rightarrow> bool"
  mb_unreadable :: "nat \<Rightarrow> MorphosyntaxBatchItem \<Rightarrow> StanzaParseError \<Rightarrow> rstr"

record MorphosyntaxParams =
  mo_lang :: rstr
  mo_tokenization_mode :: TokenizationMode
  mo_skip_cache :: bool
  mo_multilingual_policy :: MultilingualPolicy
  mo_mwt :: MwtDict

record ('w, 'a, 'o, 't) ParsedFile =
  pf_file :: "('w, 'a, 'o, 't) MorFile"
  pf_dummy :: bool
  pf_error :: "rstr option"

record FileMissInfo =
  fm_item_count :: nat
  fm_keys :: "rstr list"
  fm_global_start :: nat

definition parse_one :: "('w, 'a, 'o, 't) MorBackend \<Rightarrow> rstr \<Rightarrow> ('w, 'a, 'o, 't) ParsedFile" where
  "parse_one mb chat_text =
     (case mb_parse mb chat_text of
        (f, num_errors) \<Rightarrow>
          if mb_is_dummy mb f then \<lparr>pf_file = f, pf_dummy = True, pf_error = None\<rparr>
          else if mb_main_tier_errors mb f num_errors \<noteq> []
          then \<lparr>pf_file = f, pf_dummy = True,
                pf_error = Some (lit ''morphotag pre-validation failed: '' @
                  join_with (lit ''; '') (mb_main_tier_errors mb f num_errors))\<rparr>
          else \<lparr>pf_file = clear_morphosyntax f, pf_dummy = False, pf_error = None\<rparr>)"

text \<open>
  Collecting one file: cache hits are injected at once, the misses are added to those of the window. A
  failed injection is only logged.
\<close>

definition collect_file ::
  "('w, 'a, 'o) WordTools \<Rightarrow> MorServices \<Rightarrow> MorphosyntaxParams \<Rightarrow> MorCache \<Rightarrow> ('w, 'a, 'o, 't) ParsedFile \<Rightarrow>
    BatchItemWithPosition list \<Rightarrow> ('w, 'a, 'o, 't) ParsedFile \<times> FileMissInfo option \<times> BatchItemWithPosition list" where
  "collect_file wt ms params cache pf all_misses =
     (if pf_dummy pf then (pf, None, all_misses)
      else
        (let retokenize = (mo_tokenization_mode params = StanzaRetokenize);
             batch_items = fst (collect_payloads wt ms (pf_file pf) (mo_lang params)
               (declared_languages (pf_file pf) (mo_lang params)) (mo_multilingual_policy params))
         in if batch_items = [] then (pf, None, all_misses)
            else
              (case (if mo_skip_cache params
                     then ([], map (\<lambda>b. cache_key ms (mi_words (bi_item b)) (mi_lang (bi_item b)) (mo_mwt params) retokenize)
                                 batch_items, batch_items)
                     else partition_by_cache ms batch_items cache (mo_mwt params) retokenize) of
                 (hits, miss_keys, misses) \<Rightarrow>
                   (let pf = (if hits = [] then pf else pf\<lparr>pf_file := snd (inject_cache_hits ms hits (pf_file pf))\<rparr>)
                    in if misses = [] then (pf, None, all_misses)
                       else (pf, Some \<lparr>fm_item_count = length misses, fm_keys = miss_keys,
                                       fm_global_start = length all_misses\<rparr>, all_misses @ misses)))))"

fun collect_files ::
  "('w, 'a, 'o) WordTools \<Rightarrow> MorServices \<Rightarrow> MorphosyntaxParams \<Rightarrow> MorCache \<Rightarrow> ('w, 'a, 'o, 't) ParsedFile list \<Rightarrow>
    BatchItemWithPosition list \<Rightarrow>
    (('w, 'a, 'o, 't) ParsedFile \<times> FileMissInfo option) list \<times> BatchItemWithPosition list" where
  "collect_files wt ms params cache [] all_misses = ([], all_misses)"
| "collect_files wt ms params cache (pf # pfs) all_misses =
     (case collect_file wt ms params cache pf all_misses of
        (pf, info, all_misses) \<Rightarrow>
          (case collect_files wt ms params cache pfs all_misses of
             (rest, all_misses) \<Rightarrow> ((pf, info) # rest, all_misses)))"

text \<open>Slices out of range panic.\<close>

definition take_range :: "'b list \<Rightarrow> nat \<Rightarrow> nat \<Rightarrow> 'b list option" where
  "take_range xs start count = (if start + count \<le> length xs then Some (take count (drop start xs)) else None)"

definition finish_file ::
  "('w, 'a, 'o) WordTools \<Rightarrow> MorServices \<Rightarrow> ('w, 'a, 'o, 't) MorBackend \<Rightarrow> MorphosyntaxParams \<Rightarrow>
    BatchItemWithPosition list \<Rightarrow> UdResponse list \<Rightarrow> ('w, 'a, 'o, 't) ParsedFile \<times> FileMissInfo option \<Rightarrow> MorCache \<Rightarrow>
    ((rstr + rstr) \<times> MorCache) option" where
  "finish_file wt ms mb params all_misses responses = (\<lambda>(pf, info) cache.
     (case pf_error pf of
        Some err \<Rightarrow> Some (Inl err, cache)
      | None \<Rightarrow>
          (case info of
             None \<Rightarrow> Some (Inr (mb_serialize mb (pf_file pf)), cache)
           | Some fm \<Rightarrow>
               (case (take_range responses (fm_global_start fm) (fm_item_count fm),
                      take_range all_misses (fm_global_start fm) (fm_item_count fm)) of
                  (Some file_responses, Some file_items) \<Rightarrow>
                    (case inject_results wt ms (pf_file pf) file_items file_responses (mo_lang params)
                            (mo_tokenization_mode params) (mo_mwt params) of
                       None \<Rightarrow> None
                     | Some (Inl e) \<Rightarrow> Some (Inl (lit ''Result injection failed''), cache)
                     | Some (Inr (f, traces)) \<Rightarrow>
                         Some (Inr (mb_serialize mb f),
                           case extract_strings ms f (map bi_line_idx file_items) of
                             Inl e \<Rightarrow> cache
                           | Inr entries \<Rightarrow> cache_put_entries (fm_keys fm) entries cache))
                | _ \<Rightarrow> None))))"

fun finish_files ::
  "('w, 'a, 'o) WordTools \<Rightarrow> MorServices \<Rightarrow> ('w, 'a, 'o, 't) MorBackend \<Rightarrow> MorphosyntaxParams \<Rightarrow>
    BatchItemWithPosition list \<Rightarrow> UdResponse list \<Rightarrow> (('w, 'a, 'o, 't) ParsedFile \<times> FileMissInfo option) list \<Rightarrow>
    MorCache \<Rightarrow> ((rstr + rstr) list \<times> MorCache) option" where
  "finish_files wt ms mb params all_misses responses [] cache = Some ([], cache)"
| "finish_files wt ms mb params all_misses responses (p # ps) cache =
     (case finish_file wt ms mb params all_misses responses p cache of
        None \<Rightarrow> None
      | Some (result, cache) \<Rightarrow>
          map_option (\<lambda>(results, cache). (result # results, cache))
            (finish_files wt ms mb params all_misses responses ps cache))"

text \<open>
  The inference of one language: the raw answers are read by \<open>parse_raw_stanza_output\<close>; the wording of
  the failure is an argument. An item language that is not a code of three letters is sent to the
  workers of the file's language.
\<close>

definition read_answer ::
  "MorServices \<Rightarrow> ('w, 'a, 'o, 't) MorBackend \<Rightarrow> nat \<Rightarrow> MorphosyntaxBatchItem \<Rightarrow> Json list \<Rightarrow> rstr + UdResponse" where
  "read_answer ms mb i item raw =
     (case parse_raw_stanza_output (mb_alphabetic mb) (ms_unicode ms) raw of
        Inl e \<Rightarrow> Inl (mb_unreadable mb i item e)
      | Inr ud \<Rightarrow> Inr ud)"

definition worker_lang :: "MorphosyntaxParams \<Rightarrow> rstr \<Rightarrow> LanguageCode3" where
  "worker_lang params lang =
     (case code_try_new lang of Inr c \<Rightarrow> c | Inl e \<Rightarrow> LanguageCode3 (mo_lang params))"

definition mb_infer ::
  "MorServices \<Rightarrow> ('w, 'a, 'o, 't) MorBackend \<Rightarrow> MorphosyntaxParams \<Rightarrow> rstr \<Rightarrow> BatchItemWithPosition list \<Rightarrow>
    ServerError + UdResponse list" where
  "mb_infer ms mb params lang items =
     (let lang3 = worker_lang params lang
      in if mb_times_out mb lang3 items
         then Inl (SeValidation (lit ''language group '' @ code_str lang3 @ lit '' timed out after '' @
                show_nat (mb_group_timeout_s mb) @ lit ''s''))
         else infer_batch (mb_max_workers_per_key mb)
                (infer_batch_single
                  (mb_dispatch mb lang3 (mo_mwt params) (mo_tokenization_mode params = StanzaRetokenize))
                  (read_answer ms mb))
                items)"

definition run_morphosyntax_batch_impl ::
  "('w, 'a, 'o) WordTools \<Rightarrow> MorServices \<Rightarrow> ('w, 'a, 'o, 't) MorBackend \<Rightarrow> MorphosyntaxParams \<Rightarrow> rstr list \<Rightarrow> MorCache \<Rightarrow>
    ((rstr + rstr) list \<times> MorCache) option" where
  "run_morphosyntax_batch_impl wt ms mb params files cache =
     (case collect_files wt ms params cache (map (parse_one mb) files) [] of
        (parsed, all_misses) \<Rightarrow>
          finish_files wt ms mb params all_misses (infer_window (mb_supported mb) (mb_infer ms mb params) all_misses) parsed cache)"

end
