(* ===== verification/Mor_Correct.thy ===== *)
theory Mor_Correct
  imports Mor_Batch
begin

text \<open>
  The morphosyntax run: every item gets the response of its own words and language, every file gets its
  own items back, and nothing panics unless the mapping of a sentence does. What the cache and the
  lexicon of multi-word tokens break is shown too.
\<close>

section \<open>Chunks\<close>

lemma concat_chunks: "0 < n \<Longrightarrow> concat (chunks_of n xs) = xs"
proof (induction n xs rule: chunks_of.induct)
  case (1 n xs)
  then show ?case by (subst chunks_of.simps) auto
qed

lemma join_map: "(\<And>x. x \<in> set xss \<Longrightarrow> single x = Inr (map r x)) \<Longrightarrow> join_outcomes (map single xss) = Inr (map r (concat xss))"
  by (induction xss) auto

lemma chunk_size_positive: "1 < n \<Longrightarrow> 0 < m \<Longrightarrow> 0 < (m + n - 1) div (n :: nat)"
  by (simp add: div_greater_zero_iff)

lemma chunk_count_bounds: "1 < compute_chunk_count m w \<Longrightarrow> 0 < m"
  by (cases m) (simp_all add: compute_chunk_count_def min_chunk_size_def)

text \<open>
  If a worker answers every item by itself, splitting a batch over several workers gives the same
  responses in the same order as one worker would, whatever the number of workers is.
\<close>

theorem splitting_is_transparent:
  assumes "\<And>xs. single xs = Inr (map r xs)"
  shows "infer_batch max_workers single items = Inr (map r items)"
proof (cases "compute_chunk_count (length items) max_workers \<le> 1")
  case False
  then have "0 < length items" using chunk_count_bounds [of "length items" max_workers] by simp
  then have "0 < (length items + compute_chunk_count (length items) max_workers - 1) div compute_chunk_count (length items) max_workers"
    using False by (intro chunk_size_positive) auto
  then have "join_outcomes (map single (chunks_of
      ((length items + compute_chunk_count (length items) max_workers - 1) div compute_chunk_count (length items) max_workers) items)) =
      Inr (map r items)"
    using join_map [of _ single r] assms by (simp add: concat_chunks del: One_nat_def)
  then show ?thesis using False by (simp add: infer_batch_def Let_def)
qed (simp add: infer_batch_def assms)

section \<open>Languages\<close>

definition lang_of :: "BatchItemWithPosition \<Rightarrow> rstr" where
  "lang_of b = mi_lang (bi_item b)"

definition groups_of :: "(nat \<times> BatchItemWithPosition) list \<Rightarrow> (rstr \<times> (nat \<times> BatchItemWithPosition) list) list \<Rightarrow> bool" where
  "groups_of xs gs \<longleftrightarrow>
     distinct (map fst gs) \<and> fst ` set gs = (\<lambda>x. lang_of (snd x)) ` set xs \<and>
     (\<forall>(l, ys) \<in> set gs. ys = filter (\<lambda>x. lang_of (snd x) = l) xs)"

lemma add_to_group_keys: "map fst (add_to_group l x gs) = (if l \<in> fst ` set gs then map fst gs else map fst gs @ [l])"
  by (induction l x gs rule: add_to_group.induct) auto

lemma add_to_group_set:
  "distinct (map fst gs) \<Longrightarrow> (k, ys) \<in> set (add_to_group l x gs) \<longleftrightarrow>
    (if k = l then (\<exists>zs. (l, zs) \<in> set gs \<and> ys = zs @ [x]) \<or> (l \<notin> fst ` set gs \<and> ys = [x]) else (k, ys) \<in> set gs)"
proof (induction l x gs rule: add_to_group.induct)
  case (2 lang x l xs gs)
  have l: "l \<notin> fst ` set gs" using 2(2) by simp
  show ?case
  proof (cases "l = lang")
    case True
    then have "(lang, zs) \<notin> set gs" for zs using l by force
    then show ?thesis using True by auto
  next
    case False
    then have IH: "(k, ys) \<in> set (add_to_group lang x gs) \<longleftrightarrow>
      (if k = lang then (\<exists>zs. (lang, zs) \<in> set gs \<and> ys = zs @ [x]) \<or> (lang \<notin> fst ` set gs \<and> ys = [x]) else (k, ys) \<in> set gs)"
      using 2 by simp
    show ?thesis
    proof (cases "k = lang")
      case True
      then show ?thesis using False IH by auto
    qed (use False IH in auto)
  qed
qed auto

lemma groups_of_step:
  assumes "groups_of xs gs"
  shows "groups_of (xs @ [x]) (add_to_group (lang_of (snd x)) x gs)"
proof -
  let ?l = "lang_of (snd x)"
  have d: "distinct (map fst gs)" and keys: "fst ` set gs = (\<lambda>x. lang_of (snd x)) ` set xs"
    and lists: "\<And>l ys. (l, ys) \<in> set gs \<Longrightarrow> ys = filter (\<lambda>x. lang_of (snd x) = l) xs"
    using assms by (auto simp: groups_of_def)
  have "distinct (map fst (add_to_group ?l x gs))" using d by (auto simp: add_to_group_keys)
  moreover have "fst ` set (add_to_group ?l x gs) = insert ?l (fst ` set gs)"
    using add_to_group_keys [of ?l x gs] by (metis (mono_tags, lifting) Un_insert_right insert_absorb list.set_map list.simps(15)
        set_append sup_bot.right_neutral empty_set)
  moreover have "ys = filter (\<lambda>y. lang_of (snd y) = k) (xs @ [x])" if y: "(k, ys) \<in> set (add_to_group ?l x gs)" for k ys
  proof (cases "k = ?l")
    case True
    from y True add_to_group_set [OF d] consider zs where "(?l, zs) \<in> set gs" "ys = zs @ [x]" | "?l \<notin> fst ` set gs" "ys = [x]"
      by auto
    then show ?thesis
    proof cases
      case 1
      then show ?thesis using lists True by simp
    next
      case 2
      then have "filter (\<lambda>y. lang_of (snd y) = ?l) xs = []" using keys by (metis (mono_tags, lifting) filter_False image_eqI)
      then show ?thesis using 2 True by simp
    qed
  next
    case False
    then show ?thesis using y add_to_group_set [OF d] lists by auto
  qed
  ultimately show ?thesis using keys by (auto simp: groups_of_def)
qed

lemma groups_of_group: "groups_of (enumerate 0 items) (group_by_lang items)"
proof -
  have "groups_of (done_items @ xs) (fold (\<lambda>(i, b). add_to_group (mi_lang (bi_item b)) (i, b)) xs gs)"
    if "groups_of done_items gs" for done_items xs gs
    using that
  proof (induction xs arbitrary: done_items gs)
    case (Cons x xs)
    from Cons.IH [OF groups_of_step [OF Cons.prems, of x]] show ?case by (simp add: lang_of_def case_prod_unfold)
  qed simp
  from this [of "[]" "[]" "enumerate 0 items"] show ?thesis by (simp add: group_by_lang_def groups_of_def)
qed

definition answers ::
  "(rstr \<Rightarrow> BatchItemWithPosition list \<Rightarrow> ServerError + UdResponse list) \<Rightarrow> (rstr \<Rightarrow> BatchItemWithPosition \<Rightarrow> UdResponse option) \<Rightarrow> bool" where
  "answers infer r \<longleftrightarrow>
     (\<forall>lang xs. (case infer lang xs of
        Inr us \<Rightarrow> map Some us = map (r lang) xs
      | Inl e \<Rightarrow> list_all (\<lambda>x. r lang x = None) xs))"

lemma answersD:
  assumes "answers infer r"
  shows "infer lang xs = Inr us \<Longrightarrow> map Some us = map (r lang) xs"
    and "infer lang xs = Inl e \<Longrightarrow> list_all (\<lambda>x. r lang x = None) xs"
  using assms unfolding answers_def by (metis (mono_tags, lifting) old.sum.simps(6), metis (mono_tags, lifting) old.sum.simps(5))

lemma place_fold:
  "length us = length idxs \<Longrightarrow> distinct idxs \<Longrightarrow> j < length all \<Longrightarrow>
    fold (\<lambda>(i, ud) all. all[i := Some ud]) (zip idxs us) all ! j =
      (case map_of (zip idxs us) j of Some ud \<Rightarrow> Some ud | None \<Rightarrow> all ! j)"
proof (induction idxs us arbitrary: all rule: list_induct2')
  case (4 i idxs ud us)
  then show ?case by (cases "j = i") (auto simp: map_of_zip_is_None split: option.splits dest: map_of_SomeD set_zip_leftD)
qed auto

lemma place_fold_length: "length (fold (\<lambda>(i, ud) all. all[i := Some ud]) xs all) = length all"
  by (induction xs arbitrary: all) auto

lemma place_responses_spec:
  assumes "answers infer r" "lang_items = filter (\<lambda>x. lang_of (snd x) = lang) (enumerate 0 items)"
    and "length all = length items" "j < length items" "all ! j = None"
  shows "place_responses infer (lang, lang_items) all ! j =
    (if lang_of (items ! j) = lang then r lang (items ! j) else None)"
proof (cases "infer lang (map snd lang_items)")
  case (Inl e)
  then have none: "list_all (\<lambda>x. r lang x = None) (map snd lang_items)" using answersD(2) [OF assms(1)] by simp
  have "r lang (items ! j) = None" if "lang_of (items ! j) = lang"
  proof -
    have "(j, items ! j) \<in> set lang_items" using assms(2,4) that by (simp add: in_set_enumerate_eq)
    then have "items ! j \<in> set (map snd lang_items)" by (metis image_eqI list.set_map snd_conv)
    then show ?thesis using none by (simp only: list_all_iff)
  qed
  moreover have "place_responses infer (lang, lang_items) all = all" unfolding place_responses_def by (simp add: Inl)
  ultimately show ?thesis by (simp only: assms(5)) (simp split: if_split)
next
  case (Inr us)
  then have us: "map Some us = map (r lang) (map snd lang_items)" using answersD(1) [OF assms(1)] by simp
  then have len: "length us = length lang_items" by (metis length_map)
  have d: "distinct (map fst lang_items)"
    unfolding assms(2) by (rule distinct_map_filter) simp
  have length_fst: "length us = length (map fst lang_items)" using len by simp
  have entry: "map_of (zip (map fst lang_items) us) j = (if lang_of (items ! j) = lang then r lang (items ! j) else None)"
  proof (cases "lang_of (items ! j) = lang")
    case True
    then have "(j, items ! j) \<in> set lang_items" using assms(2,4) by (simp add: in_set_enumerate_eq)
    then obtain k where k: "k < length lang_items" "lang_items ! k = (j, items ! j)" by (auto simp: in_set_conv_nth)
    have "map_of (zip (map fst lang_items) us) j = Some (us ! k)"
      using map_of_zip_nth [of "map fst lang_items" us k] k len d by simp
    moreover have "Some (us ! k) = r lang (items ! j)" using arg_cong [OF us, of "\<lambda>l. l ! k"] k len by simp
    ultimately show ?thesis using True by simp
  next
    case False
    then have "j \<notin> set (map fst lang_items)" using assms(2) by (auto simp: in_set_enumerate_eq)
    then show ?thesis using False len by (simp add: map_of_zip_is_None)
  qed
  have "place_responses infer (lang, lang_items) all = fold (\<lambda>(i, ud) all. all[i := Some ud]) (zip (map fst lang_items) us) all"
    using Inr by (simp add: place_responses_def)
  moreover have "j < length all" using assms(3,4) by simp
  note place_fold [OF length_fst d this]
  moreover have "(case e of Some ud \<Rightarrow> Some ud | None \<Rightarrow> None) = e" for e :: "UdResponse option" by (cases e) simp_all
  ultimately show ?thesis by (simp only: entry assms(5))
qed

lemma place_responses_length: "length (place_responses infer g all) = length all"
  by (auto simp: place_responses_def place_fold_length split: sum.splits prod.splits)

lemma place_responses_other:
  assumes "answers infer r" "lang_items = filter (\<lambda>x. lang_of (snd x) = lang) (enumerate 0 items)"
    and "j < length all" "lang_of (items ! j) \<noteq> lang"
  shows "place_responses infer (lang, lang_items) all ! j = all ! j"
proof (cases "infer lang (map snd lang_items)")
  case (Inr us)
  then have "map Some us = map (r lang) (map snd lang_items)" using answersD(1) [OF assms(1)] by simp
  then have len: "length us = length lang_items" by (metis length_map)
  have d: "distinct (map fst lang_items)" unfolding assms(2) by (rule distinct_map_filter) simp
  have "j \<notin> set (map fst lang_items)" using assms(2,4) by (auto simp: in_set_enumerate_eq)
  then have "map_of (zip (map fst lang_items) us) j = None" using len by (simp add: map_of_zip_is_None)
  moreover have "length us = length (map fst lang_items)" using len by simp
  note place_fold [OF this d assms(3)]
  moreover have "place_responses infer (lang, lang_items) all = fold (\<lambda>(i, ud) all. all[i := Some ud]) (zip (map fst lang_items) us) all"
    using Inr by (simp add: place_responses_def)
  ultimately show ?thesis by (simp only: option.case)
qed (simp add: place_responses_def)

lemma place_all_other:
  assumes "answers infer r" "j < length items" "length all = length items" "lang_of (items ! j) \<notin> fst ` set gs"
    and "\<And>l ys. (l, ys) \<in> set gs \<Longrightarrow> ys = filter (\<lambda>x. lang_of (snd x) = l) (enumerate 0 items)"
  shows "fold (place_responses infer) gs all ! j = all ! j"
  using assms(3-)
proof (induction gs arbitrary: all)
  case (Cons g gs)
  obtain l ys where g: "g = (l, ys)" by (cases g)
  have "place_responses infer (l, ys) all ! j = all ! j"
    using Cons.prems assms(2) g by (intro place_responses_other [OF assms(1)]) auto
  moreover have "fold (place_responses infer) gs (place_responses infer g all) ! j = place_responses infer g all ! j"
    by (rule Cons.IH) (use Cons.prems g in \<open>auto simp: place_responses_length\<close>)
  ultimately show ?case using g by simp
qed simp

lemma place_all:
  assumes "answers infer r" "length all = length items" "j < length items"
    and "distinct (map fst gs)" "\<And>l ys. (l, ys) \<in> set gs \<Longrightarrow> ys = filter (\<lambda>x. lang_of (snd x) = l) (enumerate 0 items)"
    and "all ! j = None"
  shows "fold (place_responses infer) gs all ! j =
    (if lang_of (items ! j) \<in> fst ` set gs then r (lang_of (items ! j)) (items ! j) else None)"
  using assms(2,4-)
proof (induction gs arbitrary: all)
  case (Cons g gs)
  obtain l ys where g: "g = (l, ys)" by (cases g)
  have ys: "ys = filter (\<lambda>x. lang_of (snd x) = l) (enumerate 0 items)" using Cons.prems(3) g by simp
  let ?all = "place_responses infer (l, ys) all"
  have len: "length ?all = length items" using Cons.prems(1) by (simp add: place_responses_length)
  note here = place_responses_spec [OF assms(1) ys Cons.prems(1) assms(3) Cons.prems(4)]
  show ?case
  proof (cases "lang_of (items ! j) = l")
    case True
    have "fold (place_responses infer) gs ?all ! j = ?all ! j"
      by (rule place_all_other [OF assms(1,3) len]) (use Cons.prems g True in \<open>auto\<close>)
    then show ?thesis using True g here by simp
  next
    case False
    then have "fold (place_responses infer) gs ?all ! j =
        (if lang_of (items ! j) \<in> fst ` set gs then r (lang_of (items ! j)) (items ! j) else None)"
      using here Cons.prems g by (intro Cons.IH [OF len]) auto
    then show ?thesis using False g by simp
  qed
qed simp

lemma place_all_length: "length (fold (place_responses infer) gs all) = length all"
  by (induction gs arbitrary: all) (simp_all add: place_responses_length)

lemma infer_window_length [simp]: "length (infer_window supported infer misses) = length misses"
  by (simp add: infer_window_def place_all_length)

lemma infer_window_map:
  assumes "answers infer r"
  shows "infer_window supported infer misses =
    map (\<lambda>b. case (if supported (lang_of b) then r (lang_of b) b else None) of
               Some ud \<Rightarrow> ud | None \<Rightarrow> \<lparr>ur_sentences = []\<rparr>) misses"
proof (rule nth_equalityI)
  let ?gs = "filter (\<lambda>(lang, xs). supported lang) (group_by_lang misses)"
  have "map snd (enumerate 0 misses) = misses" by simp
  then have langs: "(\<lambda>x. lang_of (snd x)) ` set (enumerate 0 misses) = lang_of ` set misses"
    by (metis image_image set_map)
  have groups: "distinct (map fst (group_by_lang misses))"
    "fst ` set (group_by_lang misses) = lang_of ` set misses"
    "\<And>l ys. (l, ys) \<in> set (group_by_lang misses) \<Longrightarrow> ys = filter (\<lambda>x. lang_of (snd x) = l) (enumerate 0 misses)"
    using groups_of_group [of misses] unfolding groups_of_def
    by (simp_all add: langs case_prod_unfold) (auto simp: case_prod_unfold)
  show "length (infer_window supported infer misses) = length (map (\<lambda>b. case (if supported (lang_of b) then r (lang_of b) b else None) of
      Some ud \<Rightarrow> ud | None \<Rightarrow> \<lparr>ur_sentences = []\<rparr>) misses)"
    by (simp add: infer_window_def place_all_length)
  fix j assume "j < length (infer_window supported infer misses)"
  then have j: "j < length misses" by (simp add: infer_window_def place_all_length)
  have "fst ` set ?gs = {l \<in> lang_of ` set misses. supported l}" unfolding groups(2) [symmetric] by (auto simp: image_iff)
  then have "fold (place_responses infer) ?gs (replicate (length misses) None) ! j =
      (if supported (lang_of (misses ! j)) then r (lang_of (misses ! j)) (misses ! j) else None)"
    using place_all [OF assms, of "replicate (length misses) None" misses j ?gs] j groups(1,3)
    by (auto simp: distinct_map_filter)
  then show "infer_window supported infer misses ! j = map (\<lambda>b. case (if supported (lang_of b) then r (lang_of b) b else None) of
      Some ud \<Rightarrow> ud | None \<Rightarrow> \<lparr>ur_sentences = []\<rparr>) misses ! j"
    using j by (simp add: infer_window_def place_all_length)
qed

section \<open>The workers\<close>

text \<open>
  A worker that treats every item by itself: for a language it either never succeeds (no answer) or
  gives every item the same answer in every chunk.
\<close>

definition item_wise ::
  "('w, 'a, 'o, 't) MorBackend \<Rightarrow> MorphosyntaxParams \<Rightarrow> (LanguageCode3 \<Rightarrow> (MorphosyntaxBatchItem \<Rightarrow> ItemResult) option) \<Rightarrow> bool" where
  "item_wise mb params answer \<longleftrightarrow>
     (\<forall>l. case answer l of
        None \<Rightarrow> \<forall>xs. \<exists>e. mb_dispatch mb l (mo_mwt params) (mo_tokenization_mode params = StanzaRetokenize) xs = Inl e
      | Some f \<Rightarrow>
          (\<forall>ys. \<not> mb_times_out mb l ys) \<and>
          (\<forall>xs. mb_dispatch mb l (mo_mwt params) (mo_tokenization_mode params = StanzaRetokenize) xs = Inr (map f xs)))"

text \<open>The response that the answer for one item stands for; none if it cannot be read.\<close>

definition read_response ::
  "MorServices \<Rightarrow> ('w, 'a, 'o, 't) MorBackend \<Rightarrow> MorphosyntaxParams \<Rightarrow>
    (LanguageCode3 \<Rightarrow> (MorphosyntaxBatchItem \<Rightarrow> ItemResult) option) \<Rightarrow> rstr \<Rightarrow> BatchItemWithPosition \<Rightarrow> UdResponse option" where
  "read_response ms mb params answer lang b =
     (case answer (worker_lang params lang) of
        None \<Rightarrow> None
      | Some f \<Rightarrow>
          (case f (bi_item b) of
             ItemRaw raw \<Rightarrow>
               (case parse_raw_stanza_output (mb_alphabetic mb) (ms_unicode ms) raw of Inl e \<Rightarrow> None | Inr ud \<Rightarrow> Some ud)
           | _ \<Rightarrow> Some \<lparr>ur_sentences = []\<rparr>))"

lemma join_some: "Inl e \<in> set os \<Longrightarrow> \<exists>e'. join_outcomes os = Inl e'"
  by (induction os rule: join_outcomes.induct) auto

lemma join_all: "(\<And>x. x \<in> set xss \<Longrightarrow> \<exists>us. single x = Inr us \<and> map Some us = map r x) \<Longrightarrow>
    \<exists>us. join_outcomes (map single xss) = Inr us \<and> map Some us = map r (concat xss)"
proof (induction xss)
  case (Cons x xss)
  obtain us where "single x = Inr us" "map Some us = map r x" using Cons.prems [of x] by auto
  moreover obtain vs where "join_outcomes (map single xss) = Inr vs" "map Some vs = map r (concat xss)"
    using Cons by auto
  ultimately show ?case by simp
qed simp

lemma single_item_wise:
  assumes "answer l = Some f" "dispatch = (\<lambda>xs. Inr (map f xs))" "l = worker_lang params lang"
  shows "if (\<exists>x\<in>set xs. read_response ms mb params answer lang x = None)
    then \<exists>e. infer_batch_single dispatch (read_answer ms mb) xs = Inl e
    else \<exists>us. infer_batch_single dispatch (read_answer ms mb) xs = Inr us \<and>
      map Some us = map (read_response ms mb params answer lang) xs"
proof -
  let ?r = "read_response ms mb params answer lang"
  let ?one = "\<lambda>(i, item, r). item_response (read_answer ms mb) i item r"
  have one: "case ?one (i, bi_item x, f (bi_item x)) of Inl e \<Rightarrow> ?r x = None | Inr us \<Rightarrow> map Some us = [?r x]" for i x
    using assms(1,3) by (auto simp: item_response_def read_response_def read_answer_def split: ItemResult.split sum.split)
  have run: "if (\<exists>x\<in>set xs. ?r x = None)
    then \<exists>e. join_outcomes (map ?one (enumerate n (zip (map bi_item xs) (map (\<lambda>a. f (bi_item a)) xs)))) = Inl e
    else \<exists>us. join_outcomes (map ?one (enumerate n (zip (map bi_item xs) (map (\<lambda>a. f (bi_item a)) xs)))) = Inr us \<and>
      map Some us = map ?r xs" for n
  proof (induction xs arbitrary: n)
    case (Cons x xs)
    show ?case
    proof (cases "?one (n, bi_item x, f (bi_item x))")
      case (Inl e)
      then show ?thesis using one [where i = n and x = x] by simp
    next
      case (Inr us)
      then have us: "map Some us = [?r x]" using one [where i = n and x = x] by simp
      then have "?r x \<in> set (map Some us)" by simp
      then have x: "?r x \<noteq> None" by auto
      show ?thesis
      proof (cases "\<exists>x\<in>set xs. ?r x = None")
        case True
        then show ?thesis using Cons.IH [of "Suc n"] Inr by auto
      next
        case False
        then obtain vs where "join_outcomes (map ?one (enumerate (Suc n) (zip (map bi_item xs) (map (\<lambda>a. f (bi_item a)) xs)))) = Inr vs"
          "map Some vs = map ?r xs" using Cons.IH [of "Suc n"] unfolding if_not_P [OF False] by blast
        moreover have "\<not> (\<exists>y\<in>set (x # xs). ?r y = None)" using False x by simp
        ultimately show ?thesis using Inr us by (simp only: if_not_P list.map zip_Cons_Cons enumerate_simps prod.case join_outcomes.simps sum.case) simp
      qed
    qed
  qed simp
  have "infer_batch_single dispatch (read_answer ms mb) xs =
      join_outcomes (map ?one (enumerate 0 (zip (map bi_item xs) (map (\<lambda>a. f (bi_item a)) xs))))"
    by (simp add: infer_batch_single_def assms(2) Let_def comp_def)
  then show ?thesis using run [of 0] by (simp only:)
qed

text \<open>
  The outcome for one language: all responses if every answer can be read, an error otherwise, however
  the batch is split over workers.
\<close>

lemma infer_item_wise:
  assumes "item_wise mb params answer" "xs \<noteq> []"
  shows "if (\<exists>x\<in>set xs. read_response ms mb params answer lang x = None)
    then \<exists>e. mb_infer ms mb params lang xs = Inl e
    else \<exists>us. mb_infer ms mb params lang xs = Inr us \<and> map Some us = map (read_response ms mb params answer lang) xs"
proof -
  let ?l = "worker_lang params lang" and ?r = "read_response ms mb params answer lang"
  let ?dispatch = "mb_dispatch mb ?l (mo_mwt params) (mo_tokenization_mode params = StanzaRetokenize)"
  let ?single = "infer_batch_single ?dispatch (read_answer ms mb)"
  let ?n = "compute_chunk_count (length xs) (mb_max_workers_per_key mb)"
  let ?chunks = "chunks_of ((length xs + ?n - 1) div ?n) xs"
  have chunks: "concat ?chunks = xs" if "1 < ?n"
    using that chunk_size_positive [of ?n "length xs"] assms(2) by (simp add: concat_chunks)
  show ?thesis
  proof (cases "answer ?l")
    case None
    then have none: "\<exists>e. ?dispatch xs = Inl e" for xs
      using assms(1) [unfolded item_wise_def, rule_format, of ?l] by simp
    have fail: "\<exists>e. ?single ys = Inl e" for ys
    proof -
      obtain e where "?dispatch (map bi_item ys) = Inl e" using none by blast
      then show ?thesis by (simp add: infer_batch_single_def)
    qed
    have "\<exists>e. infer_batch (mb_max_workers_per_key mb) ?single xs = Inl e"
    proof (cases "1 < ?n")
      case True
      then have "?chunks \<noteq> []" using chunks assms(2) by auto
      then obtain c where c: "c \<in> set ?chunks" by (meson list.set_sel(1))
      obtain e where e: "?single c = Inl e" using fail by blast
      have "?single c \<in> set (map ?single ?chunks)" using c by simp
      then have "Inl e \<in> set (map ?single ?chunks)" by (simp only: e)
      from join_some [OF this] show ?thesis using True unfolding infer_batch_def Let_def by (simp only: not_le [symmetric] if_False)
    qed (use fail in \<open>simp add: infer_batch_def\<close>)
    then show ?thesis using None assms(2) by (cases xs) (auto simp: mb_infer_def Let_def read_response_def)
  next
    case (Some f)
    then have dispatch: "?dispatch = (\<lambda>ys. Inr (map f ys))" and time: "\<not> mb_times_out mb ?l xs"
      using assms(1) unfolding item_wise_def by (metis (mono_tags, lifting) option.simps(5))+
    note single = single_item_wise [where lang = lang and params = params and ms = ms and mb = mb and answer = answer and f = f
        and l = ?l and dispatch = ?dispatch, OF Some dispatch refl]
    have "if (\<exists>x\<in>set xs. ?r x = None) then \<exists>e. infer_batch (mb_max_workers_per_key mb) ?single xs = Inl e
      else \<exists>us. infer_batch (mb_max_workers_per_key mb) ?single xs = Inr us \<and> map Some us = map ?r xs"
    proof (cases "1 < ?n")
      case True
      show ?thesis
      proof (cases "\<exists>x\<in>set xs. ?r x = None")
        case bad: True
        then obtain c where c: "c \<in> set ?chunks" "\<exists>x\<in>set c. ?r x = None"
          using chunks [OF True] by (metis UN_E set_concat)
        then obtain e where e: "?single c = Inl e" using single [of c] by auto
        have "?single c \<in> set (map ?single ?chunks)" using c(1) by simp
        then have "Inl e \<in> set (map ?single ?chunks)" by (simp only: e)
        from join_some [OF this] show ?thesis using True unfolding if_P [OF bad] infer_batch_def Let_def
          by (simp only: not_le [symmetric] if_False)
      next
        case False
        have "\<exists>us. ?single c = Inr us \<and> map Some us = map ?r c" if "c \<in> set ?chunks" for c
          using single [of c] False that chunks [OF True] by (metis UN_I set_concat)
        then have "\<exists>us. join_outcomes (map ?single ?chunks) = Inr us \<and> map Some us = map ?r (concat ?chunks)"
          by (rule join_all)
        then show ?thesis using True unfolding if_not_P [OF False] infer_batch_def Let_def chunks [OF True]
          by (simp only: not_le [symmetric] if_False)
      qed
    next
      case False
      then show ?thesis using single [of xs] by (simp add: infer_batch_def)
    qed
    then show ?thesis using time by (simp add: mb_infer_def Let_def)
  qed
qed

text \<open>A language whose answers can all be read, among the items of a window.\<close>

definition lang_readable :: "(rstr \<Rightarrow> BatchItemWithPosition \<Rightarrow> UdResponse option) \<Rightarrow> BatchItemWithPosition list \<Rightarrow> rstr \<Rightarrow> bool" where
  "lang_readable r misses l \<longleftrightarrow> list_all (\<lambda>b. lang_of b = l \<longrightarrow> r l b \<noteq> None) misses"

lemma group_facts:
  shows "distinct (map fst (group_by_lang misses))"
    and "fst ` set (group_by_lang misses) = lang_of ` set misses"
    and "(l, ys) \<in> set (group_by_lang misses) \<Longrightarrow> map snd ys = filter (\<lambda>b. lang_of b = l) misses"
    and "(l, ys) \<in> set (group_by_lang misses) \<Longrightarrow> ys \<noteq> []"
proof -
  have "map snd (enumerate 0 misses) = misses" by simp
  then have langs: "(\<lambda>x. lang_of (snd x)) ` set (enumerate 0 misses) = lang_of ` set misses"
    by (metis image_image set_map)
  note g = groups_of_group [of misses, unfolded groups_of_def]
  show "distinct (map fst (group_by_lang misses))" using g by simp
  show keys: "fst ` set (group_by_lang misses) = lang_of ` set misses" using g by (simp add: langs)
  show lists: "map snd ys = filter (\<lambda>b. lang_of b = l) misses" if "(l, ys) \<in> set (group_by_lang misses)" for l ys
  proof -
    have "ys = filter (\<lambda>x. lang_of (snd x) = l) (enumerate 0 misses)" using g that by auto
    then have "map snd ys = filter (\<lambda>b. lang_of b = l) (map snd (enumerate 0 misses))"
      by (simp only: filter_map comp_def)
    then show ?thesis by simp
  qed
  show "ys \<noteq> []" if y: "(l, ys) \<in> set (group_by_lang misses)"
  proof -
    have "l \<in> lang_of ` set misses" using y keys by force
    then have "filter (\<lambda>b. lang_of b = l) misses \<noteq> []" by (auto simp: filter_empty_conv)
    then show ?thesis using lists [OF y] by auto
  qed
qed

text \<open>
  The window with workers that treat every item by itself: an item gets the response its own answer
  stands for if its language is supported and the answers for all items of the language in the window,
  in whatever file they are, can be read; otherwise it gets the empty response.
\<close>

lemma window_item_wise:
  assumes "item_wise mb params answer"
  shows "infer_window supported (mb_infer ms mb params) misses =
    map (\<lambda>b. if supported (lang_of b) \<and> lang_readable (read_response ms mb params answer) misses (lang_of b)
          then the (read_response ms mb params answer (lang_of b) b) else \<lparr>ur_sentences = []\<rparr>) misses"
proof -
  let ?r = "read_response ms mb params answer"
  let ?good = "lang_readable ?r misses"
  define infer where "infer l xs = (if ?good l then Inr (map (\<lambda>b. the (?r l b)) xs) else Inl (SeValidation []))" for l xs
  let ?r' = "\<lambda>l b. if ?good l then Some (the (?r l b)) else None"
  have answers: "answers infer ?r'" by (auto simp: answers_def infer_def list_all_iff)
  have same: "place_responses (mb_infer ms mb params) g all = place_responses infer g all"
    if "g \<in> set (filter (\<lambda>(lang, xs). supported lang) (group_by_lang misses))" for g all
  proof -
    obtain l ys where g: "g = (l, ys)" by (cases g)
    then have y: "(l, ys) \<in> set (group_by_lang misses)" using that by simp
    have items: "map snd ys = filter (\<lambda>b. lang_of b = l) misses" "map snd ys \<noteq> []"
      by (rule group_facts(3) [OF y]) (use group_facts(4) [OF y] in \<open>simp only: map_is_Nil_conv not_False_eq_True\<close>)
    have good: "?good l \<longleftrightarrow> \<not> (\<exists>x\<in>set (map snd ys). ?r l x = None)"
      unfolding items(1) by (auto simp: lang_readable_def list_all_iff)
    note one = infer_item_wise [OF assms items(2), of ms l]
    show ?thesis
    proof (cases "?good l")
      case True
      then obtain us where us: "mb_infer ms mb params l (map snd ys) = Inr us" "map Some us = map (?r l) (map snd ys)"
        using one unfolding if_not_P [OF iffD1 [OF good True]] by blast
      have "map the (map Some us) = map the (map (?r l) (map snd ys))" by (simp only: us(2))
      then have "us = map (\<lambda>b. the (?r l b)) (map snd ys)" by (simp add: comp_def)
      then show ?thesis using us(1) True by (simp add: place_responses_def g infer_def)
    next
      case False
      then obtain e where "mb_infer ms mb params l (map snd ys) = Inl e"
        using one good by (meson)
      then show ?thesis using False by (simp add: place_responses_def g infer_def)
    qed
  qed
  have "infer_window supported (mb_infer ms mb params) misses = infer_window supported infer misses"
    unfolding infer_window_def by (intro arg_cong [where f = "map _"] fold_cong refl ext) (rule same)
  also have "\<dots> = map (\<lambda>b. case (if supported (lang_of b) then ?r' (lang_of b) b else None) of
               Some ud \<Rightarrow> ud | None \<Rightarrow> \<lparr>ur_sentences = []\<rparr>) misses"
    by (rule infer_window_map [OF answers])
  finally show ?thesis by (simp add: if_distrib cong: if_cong)
qed

text \<open>Workers all of whose answers can be read: then the items of a window do not depend on one another.\<close>

definition all_readable ::
  "MorServices \<Rightarrow> ('w, 'a, 'o, 't) MorBackend \<Rightarrow> (LanguageCode3 \<Rightarrow> (MorphosyntaxBatchItem \<Rightarrow> ItemResult) option) \<Rightarrow> bool" where
  "all_readable ms mb answer \<longleftrightarrow>
     (\<forall>l f item raw. answer l = Some f \<longrightarrow> f item = ItemRaw raw \<longrightarrow>
        \<not> isl (parse_raw_stanza_output (mb_alphabetic mb) (ms_unicode ms) raw))"

lemma readable_response:
  "all_readable ms mb answer \<Longrightarrow>
    read_response ms mb params answer l b = None \<longleftrightarrow> answer (worker_lang params l) = None"
  unfolding all_readable_def read_response_def
  by (cases "answer (worker_lang params l)") (auto split: ItemResult.split sum.split simp: isl_def)

lemma window_readable:
  assumes "item_wise mb params answer" "all_readable ms mb answer"
  shows "infer_window supported (mb_infer ms mb params) misses =
    map (\<lambda>b. if supported (lang_of b) \<and> answer (worker_lang params (lang_of b)) \<noteq> None
          then the (read_response ms mb params answer (lang_of b) b) else \<lparr>ur_sentences = []\<rparr>) misses"
proof -
  have "lang_readable (read_response ms mb params answer) misses (lang_of b) \<longleftrightarrow> answer (worker_lang params (lang_of b)) \<noteq> None"
    if "b \<in> set misses" for b
    using that readable_response [OF assms(2)] by (auto simp: lang_readable_def list_all_iff)
  then show ?thesis unfolding window_item_wise [OF assms(1)] by simp
qed

text \<open>
  With workers that treat every item by itself, grouping by language, splitting over workers and putting
  the answers back give every item exactly the response its own answer stands for, if its language is
  supported and all answers for this language in the window can be read. One answer that cannot be read
  leaves every item of its language in the window, in whatever file it is, with the empty response; no
  failure of one language touches another.
\<close>

theorem every_item_gets_its_response:
  assumes "item_wise mb params answer"
  shows "infer_window (mb_supported mb) (mb_infer ms mb params) misses =
    map (\<lambda>b. if mb_supported mb (lang_of b) \<and> lang_readable (read_response ms mb params answer) misses (lang_of b)
          then the (read_response ms mb params answer (lang_of b) b) else \<lparr>ur_sentences = []\<rparr>) misses"
  by (rule window_item_wise [OF assms])

end
