(* ===== verification/Mor_Run.thy ===== *)
theory Mor_Run
  imports Mor_Correct
begin

text \<open>
  The whole window: which lines the collected items point to, that no injection changes the number or
  the kind of the lines, that the slices of the files tile the list of all misses, and from these that
  the run does not panic and that every file gets what it would get alone.
\<close>

section \<open>The lines of a file\<close>

definition utterance_at :: "('w, 'a, 'o, 't) MorFile \<Rightarrow> nat \<Rightarrow> bool" where
  "utterance_at f i \<longleftrightarrow> i < length (mf_lines f) \<and> mf_lines f ! i \<noteq> FlOther"

definition same_lines :: "('w, 'a, 'o, 't) MorFile \<Rightarrow> ('w, 'a, 'o, 't) MorFile \<Rightarrow> bool" where
  "same_lines f g \<longleftrightarrow> (\<forall>i. utterance_at f i \<longleftrightarrow> utterance_at g i)"

lemma same_lines_refl [simp, intro]: "same_lines f f"
  by (simp add: same_lines_def)

lemma same_lines_trans: "same_lines f g \<Longrightarrow> same_lines g h \<Longrightarrow> same_lines f h"
  by (simp add: same_lines_def)

lemma same_lines_update:
  "i < length (mf_lines f) \<Longrightarrow> mf_lines f ! i \<noteq> FlOther \<Longrightarrow> same_lines f (f\<lparr>mf_lines := (mf_lines f)[i := FlUtterance u]\<rparr>)"
  by (auto simp: same_lines_def utterance_at_def nth_list_update)

lemma collected_lines:
  "b \<in> set (collect_from wt ms l declared policy line_idx utt_idx ls) \<Longrightarrow>
    line_idx \<le> bi_line_idx b \<and> bi_line_idx b < line_idx + length ls \<and> ls ! (bi_line_idx b - line_idx) \<noteq> FlOther"
proof (induction wt ms l declared policy line_idx utt_idx ls rule: collect_from.induct)
  case (2 wt ms l declared policy line_idx utt_idx ls)
  then show ?case by (auto simp: nth_Cons' not_le)
next
  case (3 wt ms l declared policy line_idx utt_idx u ls)
  from 3(2) consider "b \<in> set (payload_of wt ms l declared policy line_idx utt_idx u)"
    | "b \<in> set (collect_from wt ms l declared policy (Suc line_idx) (Suc utt_idx) ls)" by auto
  then show ?case
  proof cases
    case 1
    then show ?thesis by (auto simp: payload_of_def Let_def split: if_splits)
  next
    case 2
    with 3(1) show ?thesis by (auto simp: nth_Cons' not_le)
  qed
qed simp

lemma collected_at: "b \<in> set (fst (collect_payloads wt ms f l declared policy)) \<Longrightarrow> utterance_at f (bi_line_idx b)"
  using collected_lines [of b wt ms l declared policy 0 0 "mf_lines f"] by (auto simp: collect_payloads_def utterance_at_def)

lemma inject_entry_shape: "inject_entry ms e f = Inr g \<Longrightarrow> same_lines f g"
  by (auto simp: inject_entry_def Let_def same_lines_update split: if_splits FileLine.splits option.splits)

lemma inject_from_cache_shape: "same_lines f (snd (inject_from_cache ms es f))"
proof (induction ms es f rule: inject_from_cache.induct)
  case (2 ms e es f)
  then show ?case using same_lines_trans [OF inject_entry_shape] by (auto split: sum.split)
qed simp

section \<open>Injection never fails\<close>

definition mappable :: "MorServices \<Rightarrow> rstr \<Rightarrow> UdResponse \<Rightarrow> bool" where
  "mappable ms lang resp \<longleftrightarrow>
     (case ur_sentences resp of [] \<Rightarrow> True
      | s # ss \<Rightarrow> map_ud_sentence (ms_unicode ms) (ms_count_chunks ms) lang s \<noteq> None)"

lemma inject_utterance_total:
  "map_ud_sentence (ms_unicode ms) (ms_count_chunks ms) lang s \<noteq> None \<Longrightarrow>
    \<exists>u' ts. inject_utterance wt ms lang mode mwt b s u = Some (u', ts)"
  by (auto simp: inject_utterance_def Let_def split: sum.split TokenizationMode.split prod.split)

lemma inject_result_total:
  assumes "mappable ms lang resp" "utterance_at f (bi_line_idx b)"
  obtains g ts where "inject_result wt ms lang mode mwt (resp, b) (f, traces) = Some (Inr (g, ts))" "same_lines f g"
proof (cases "ur_sentences resp")
  case Nil
  then show ?thesis using that by (simp add: inject_result_def)
next
  case (Cons s ss)
  obtain u where u: "mf_lines f ! bi_line_idx b = FlUtterance u" "bi_line_idx b < length (mf_lines f)"
    using assms(2) unfolding utterance_at_def by (cases "mf_lines f ! bi_line_idx b") auto
  have "map_ud_sentence (ms_unicode ms) (ms_count_chunks ms) lang s \<noteq> None" using assms(1) Cons by (simp add: mappable_def)
  from inject_utterance_total [OF this] obtain u' ts where "inject_utterance wt ms lang mode mwt b s u = Some (u', ts)" by blast
  then show ?thesis
    using that Cons u same_lines_update [of "bi_line_idx b" f u'] by (simp add: inject_result_def)
qed

lemma inject_all_total:
  "list_all (\<lambda>(resp, b). mappable ms lang resp \<and> utterance_at f (bi_line_idx b)) rbs \<Longrightarrow>
    \<exists>g ts. inject_all wt ms lang mode mwt rbs (f, traces) = Some (Inr (g, ts)) \<and> same_lines f g"
proof (induction rbs arbitrary: f traces)
  case (Cons rb rbs)
  obtain resp b where rb: "rb = (resp, b)" by (cases rb)
  obtain g ts where g: "inject_result wt ms lang mode mwt rb (f, traces) = Some (Inr (g, ts))" "same_lines f g"
    using inject_result_total [of ms lang resp f b wt mode mwt traces] Cons.prems rb by auto
  have "list_all (\<lambda>(resp, b). mappable ms lang resp \<and> utterance_at g (bi_line_idx b)) rbs"
    using Cons.prems g(2) by (auto simp: list_all_iff same_lines_def)
  from Cons.IH [OF this, of ts] show ?case using g same_lines_trans by fastforce
qed simp

section \<open>The window\<close>

definition misses_of ::
  "('w, 'a, 'o) WordTools \<Rightarrow> MorServices \<Rightarrow> MorphosyntaxParams \<Rightarrow> MorCache \<Rightarrow> ('w, 'a, 'o, 't) ParsedFile \<Rightarrow> BatchItemWithPosition list" where
  "misses_of wt ms params cache pf = snd (snd (collect_file wt ms params cache pf []))"

definition collected_of ::
  "('w, 'a, 'o) WordTools \<Rightarrow> MorServices \<Rightarrow> MorphosyntaxParams \<Rightarrow> MorCache \<Rightarrow> ('w, 'a, 'o, 't) ParsedFile \<Rightarrow> ('w, 'a, 'o, 't) ParsedFile" where
  "collected_of wt ms params cache pf = fst (collect_file wt ms params cache pf [])"

text \<open>What a file contributes does not depend on the files before it, except for where its take_range starts.\<close>

lemma collect_file_offset:
  "\<exists>keys. collect_file wt ms params cache pf before =
    (collected_of wt ms params cache pf,
     if misses_of wt ms params cache pf = [] then None
     else Some \<lparr>fm_item_count = length (misses_of wt ms params cache pf), fm_keys = keys, fm_global_start = length before\<rparr>,
     before @ misses_of wt ms params cache pf)"
  by (auto simp: collect_file_def misses_of_def collected_of_def Let_def split: prod.split if_split)

lemma collected_error [simp]: "pf_error (collected_of wt ms params cache pf) = pf_error pf"
  by (auto simp: collect_file_def collected_of_def Let_def split: prod.split)

lemma collected_shape: "same_lines (pf_file pf) (pf_file (collected_of wt ms params cache pf))"
  by (auto simp: collect_file_def collected_of_def Let_def inject_cache_hits_def inject_from_cache_shape split: prod.split)

lemma misses_at:
  assumes "b \<in> set (misses_of wt ms params cache pf)"
  shows "utterance_at (pf_file pf) (bi_line_idx b)"
proof -
  let ?items = "fst (collect_payloads wt ms (pf_file pf) (mo_lang params)
               (declared_languages (pf_file pf) (mo_lang params)) (mo_multilingual_policy params))"
  have "b \<in> set ?items"
    using assms by (auto simp: misses_of_def collect_file_def Let_def partition_by_cache_def split: if_splits prod.splits)
  then show ?thesis by (rule collected_at)
qed

text \<open>The result of a file that gets \<open>responses\<close> for its misses.\<close>

definition file_result ::
  "('w, 'a, 'o) WordTools \<Rightarrow> MorServices \<Rightarrow> ('w, 'a, 'o, 't) MorBackend \<Rightarrow> MorphosyntaxParams \<Rightarrow> MorCache \<Rightarrow>
    UdResponse list \<Rightarrow> ('w, 'a, 'o, 't) ParsedFile \<Rightarrow> rstr + rstr" where
  "file_result wt ms mb params cache responses pf =
     (case pf_error pf of
        Some err \<Rightarrow> Inl err
      | None \<Rightarrow>
          (case inject_results wt ms (pf_file (collected_of wt ms params cache pf)) (misses_of wt ms params cache pf)
                  responses (mo_lang params) (mo_tokenization_mode params) (mo_mwt params) of
             Some (Inr (f, traces)) \<Rightarrow> Inr (mb_serialize mb f)
           | _ \<Rightarrow> Inl []))"

lemma take_range_middle: "take_range (a @ b @ c) (length a) (length b) = Some b"
  by (simp add: take_range_def)

lemma finish_one:
  assumes "length responses = length (misses_of wt ms params cache pf)"
    and "list_all (mappable ms (mo_lang params)) responses"
    and "length done_responses = length before"
    and "collect_file wt ms params cache pf before = (pf', info, before')"
  shows "\<exists>cache'. finish_file wt ms mb params (before @ misses_of wt ms params cache pf @ later)
    (done_responses @ responses @ other_responses) (pf', info) store =
    Some (file_result wt ms mb params cache responses pf, cache')"
proof -
  obtain keys where c: "pf' = collected_of wt ms params cache pf"
    "info = (if misses_of wt ms params cache pf = [] then None
      else Some \<lparr>fm_item_count = length (misses_of wt ms params cache pf), fm_keys = keys, fm_global_start = length before\<rparr>)"
    using collect_file_offset [of wt ms params cache pf before] assms(4) by auto
  have "list_all (\<lambda>(resp, b). mappable ms (mo_lang params) resp \<and> utterance_at (pf_file pf') (bi_line_idx b))
      (zip responses (misses_of wt ms params cache pf))"
    using assms(2) misses_at collected_shape [of pf wt ms params cache] c(1)
    by (fastforce simp: list_all_iff same_lines_def dest: set_zip_leftD set_zip_rightD)
  from inject_all_total [OF this] obtain g ts where
    inject: "inject_results wt ms (pf_file pf') (misses_of wt ms params cache pf) responses (mo_lang params)
      (mo_tokenization_mode params) (mo_mwt params) = Some (Inr (g, ts))"
    unfolding inject_results_def by blast
  have slices: "take_range (before @ misses_of wt ms params cache pf @ later) (length before) (length (misses_of wt ms params cache pf)) =
      Some (misses_of wt ms params cache pf)"
    "take_range (done_responses @ responses @ other_responses) (length before) (length (misses_of wt ms params cache pf)) = Some responses"
    using take_range_middle [of done_responses responses other_responses] assms(1,3) by (simp_all add: take_range_middle)
  show ?thesis
  proof (cases "pf_error pf")
    case None
    then show ?thesis
      using inject slices c by (auto simp: finish_file_def file_result_def inject_results_def split: sum.split)
  qed (simp add: finish_file_def file_result_def c(1))
qed

lemma collect_files_misses:
  "snd (collect_files wt ms params cache pfs before) = before @ concat (map (misses_of wt ms params cache) pfs)"
proof (induction pfs arbitrary: before)
  case (Cons pf pfs)
  obtain keys where "collect_file wt ms params cache pf before =
    (collected_of wt ms params cache pf,
     if misses_of wt ms params cache pf = [] then None
     else Some \<lparr>fm_item_count = length (misses_of wt ms params cache pf), fm_keys = keys, fm_global_start = length before\<rparr>,
     before @ misses_of wt ms params cache pf)" using collect_file_offset by blast
  then show ?case using Cons.IH [of "before @ misses_of wt ms params cache pf"] by (auto split: prod.split)
qed simp

definition fits ::
  "('w, 'a, 'o) WordTools \<Rightarrow> MorServices \<Rightarrow> MorphosyntaxParams \<Rightarrow> MorCache \<Rightarrow> ('w, 'a, 'o, 't) ParsedFile \<Rightarrow> UdResponse list \<Rightarrow> bool" where
  "fits wt ms params cache pf responses \<longleftrightarrow>
     length responses = length (misses_of wt ms params cache pf) \<and> list_all (mappable ms (mo_lang params)) responses"

lemma finish_window:
  "list_all2 (fits wt ms params cache) pfs rss \<Longrightarrow> length done_responses = length before \<Longrightarrow>
    \<exists>cache'. finish_files wt ms mb params (before @ concat (map (misses_of wt ms params cache) pfs))
      (done_responses @ concat rss) (fst (collect_files wt ms params cache pfs before)) store =
      Some (map2 (\<lambda>pf rs. file_result wt ms mb params cache rs pf) pfs rss, cache')"
proof (induction pfs rss arbitrary: before done_responses store rule: list_all2_induct)
  case (Cons pf pfs rs rss)
  let ?before = "before @ misses_of wt ms params cache pf"
  obtain info where collect: "collect_file wt ms params cache pf before = (collected_of wt ms params cache pf, info, ?before)"
    using collect_file_offset by blast
  from Cons(1) obtain cache' where one:
    "finish_file wt ms mb params (before @ misses_of wt ms params cache pf @ concat (map (misses_of wt ms params cache) pfs))
      (done_responses @ rs @ concat rss) (collected_of wt ms params cache pf, info) store =
      Some (file_result wt ms mb params cache rs pf, cache')"
    using finish_one [OF _ _ Cons(4) collect, of rs] unfolding fits_def by blast
  have "length (done_responses @ rs) = length ?before" using Cons(1,4) by (simp add: fits_def)
  from Cons(3) [OF this, of cache'] one collect show ?case by (auto split: prod.split)
qed simp

lemma run_results:
  assumes "list_all2 (fits wt ms params cache) (map (parse_one mb) files) rss"
    and "infer_window (mb_supported mb) (mb_infer ms mb params) (concat (map (misses_of wt ms params cache \<circ> parse_one mb) files)) = concat rss"
  shows "\<exists>cache'. run_morphosyntax_batch_impl wt ms mb params files cache =
    Some (map2 (\<lambda>text rs. file_result wt ms mb params cache rs (parse_one mb text)) files rss, cache')"
  using finish_window [OF assms(1), of "[]" "[]" mb cache] assms(2)
    collect_files_misses [of wt ms params cache "map (parse_one mb) files" "[]"]
  by (auto simp: run_morphosyntax_batch_impl_def zip_map1 case_prod_unfold comp_def split: prod.split)

lemma split_lengths: "length xs = length (concat yss) \<Longrightarrow> \<exists>xss. concat xss = xs \<and> list_all2 (\<lambda>ys xs. length xs = length ys) yss xss"
proof (induction yss arbitrary: xs)
  case (Cons ys yss)
  have "length (drop (length ys) xs) = length (concat yss)" using Cons.prems by simp
  from Cons.IH [OF this] obtain xss where "concat xss = drop (length ys) xs" "list_all2 (\<lambda>ys xs. length xs = length ys) yss xss" by blast
  moreover have "length (take (length ys) xs) = length ys" using Cons.prems by simp
  ultimately have "concat (take (length ys) xs # xss) = xs \<and>
    list_all2 (\<lambda>ys xs. length xs = length ys) (ys # yss) (take (length ys) xs # xss)" by simp
  then show ?case by blast
qed simp

section \<open>No panic, and no file in the way of another\<close>

definition all_mappable :: "MorServices \<Rightarrow> rstr \<Rightarrow> (rstr \<Rightarrow> BatchItemWithPosition list \<Rightarrow> ServerError + UdResponse list) \<Rightarrow> bool" where
  "all_mappable ms lang infer \<longleftrightarrow>
     (\<forall>l xs. case infer l xs of Inl e \<Rightarrow> True | Inr us \<Rightarrow> list_all (mappable ms lang) us)"

definition placed :: "MorServices \<Rightarrow> rstr \<Rightarrow> UdResponse option \<Rightarrow> bool" where
  "placed ms lang r \<longleftrightarrow> (case r of Some u \<Rightarrow> mappable ms lang u | None \<Rightarrow> True)"

lemma placed_simps [simp]: "placed ms lang None" "placed ms lang (Some u) \<longleftrightarrow> mappable ms lang u"
  by (simp_all add: placed_def)

lemma placed_mappable:
  assumes "all_mappable ms lang infer" "list_all (placed ms lang) all"
  shows "list_all (placed ms lang) (place_responses infer g all)"
proof -
  have put: "list_all (placed ms lang)
      (fold (\<lambda>(i, ud) all. all[i := Some ud]) ius all)"
    if "list_all (\<lambda>(i, u). mappable ms lang u) ius"
      "list_all (placed ms lang) all" for ius all
    using that
  proof (induction ius arbitrary: all)
    case (Cons iu ius)
    then have "list_all (placed ms lang) (all[fst iu := Some (snd iu)])"
      using set_update_subset_insert [of all "fst iu" "Some (snd iu)"] by (auto simp: list_all_iff case_prod_unfold)
    with Cons show ?case by (simp add: case_prod_unfold)
  qed simp
  obtain l items where g: "g = (l, items)" by (cases g)
  show ?thesis
  proof (cases "infer l (map snd items)")
    case (Inr us)
    then have "list_all (mappable ms lang) us" using assms(1) unfolding all_mappable_def by (metis (mono_tags, lifting) old.sum.simps(6))
    then have "list_all (\<lambda>(i, u). mappable ms lang u) (zip (map fst items) us)"
      by (auto simp: list_all_iff dest: set_zip_rightD)
    from put [OF this assms(2)] show ?thesis by (simp add: place_responses_def g Inr)
  qed (simp add: place_responses_def g assms(2))
qed

lemma infer_window_mappable:
  assumes "all_mappable ms lang infer"
  shows "list_all (mappable ms lang) (infer_window supported infer misses)"
proof -
  have "list_all (placed ms lang) (fold (place_responses infer) gs all)"
    if "list_all (placed ms lang) all" for gs all
    using that by (induction gs arbitrary: all) (simp_all add: placed_mappable [OF assms])
  from this [of "replicate (length misses) None" "filter (\<lambda>(lang, xs). supported lang) (group_by_lang misses)"]
  have "\<forall>r \<in> set (fold (place_responses infer) (filter (\<lambda>(lang, xs). supported lang) (group_by_lang misses))
      (replicate (length misses) None)). placed ms lang r" by (simp add: list_all_iff)
  moreover have "placed ms lang r \<Longrightarrow> mappable ms lang (case r of Some ud \<Rightarrow> ud | None \<Rightarrow> \<lparr>ur_sentences = []\<rparr>)" for r
    by (cases r) (simp_all add: mappable_def)
  ultimately show ?thesis by (auto simp: infer_window_def list_all_iff)
qed

lemma dummy_misses: "pf_dummy pf \<Longrightarrow> misses_of wt ms params cache pf = [] \<and> collected_of wt ms params cache pf = pf"
  by (simp add: misses_of_def collected_of_def collect_file_def)

lemma parse_error_dummy: "pf_error (parse_one mb text) \<noteq> None \<Longrightarrow> pf_dummy (parse_one mb text)"
  by (auto simp: parse_one_def split: prod.splits if_splits)

definition expected_result :: "('w, 'a, 'o, 't) ParsedFile \<Rightarrow> (('w, 'a, 'o, 't) MorFile \<Rightarrow> rstr) \<Rightarrow> rstr + rstr \<Rightarrow> bool" where
  "expected_result pf serialize result \<longleftrightarrow>
     (case pf_error pf of
        Some err \<Rightarrow> result = Inl err
      | None \<Rightarrow> if pf_dummy pf then result = Inr (serialize (pf_file pf)) else \<not> isl result)"

lemma file_result_expected:
  assumes "fits wt ms params cache pf rs"
  shows "expected_result pf (mb_serialize mb) (file_result wt ms mb params cache rs pf)"
proof -
  have "list_all (\<lambda>(resp, b). mappable ms (mo_lang params) resp \<and> utterance_at (pf_file (collected_of wt ms params cache pf)) (bi_line_idx b))
      (zip rs (misses_of wt ms params cache pf))"
    using assms misses_at collected_shape [of pf wt ms params cache]
    by (fastforce simp: list_all_iff same_lines_def fits_def dest: set_zip_leftD set_zip_rightD)
  from inject_all_total [OF this] obtain g ts where
    inject: "inject_results wt ms (pf_file (collected_of wt ms params cache pf)) (misses_of wt ms params cache pf) rs (mo_lang params)
      (mo_tokenization_mode params) (mo_mwt params) = Some (Inr (g, ts))"
    unfolding inject_results_def by blast
  show ?thesis
  proof (cases "pf_error pf = None \<and> pf_dummy pf")
    case True
    then have "rs = []" using assms dummy_misses [of pf wt ms params cache] by (simp add: fits_def)
    then show ?thesis using True dummy_misses [of pf wt ms params cache] by (simp add: expected_result_def file_result_def inject_results_def)
  qed (auto simp: expected_result_def file_result_def inject split: option.split)
qed

text \<open>
  C26: If the sentences that come back can be mapped without a panic, the run does not panic, whatever
  the workers, the cache and the files are; it has one result for every file, in order; the only files
  that fail are those that fail before inference, and a file with the dummy option is written as it is.
\<close>

theorem morphosyntax_run_total:
  assumes "all_mappable ms (mo_lang params) (mb_infer ms mb params)"
  shows "\<exists>results cache'. run_morphosyntax_batch_impl wt ms mb params files cache = Some (results, cache') \<and>
    list_all2 (\<lambda>text. expected_result (parse_one mb text) (mb_serialize mb)) files results"
proof -
  let ?misses = "map (misses_of wt ms params cache) (map (parse_one mb) files)"
  let ?responses = "infer_window (mb_supported mb) (mb_infer ms mb params) (concat ?misses)"
  obtain rss where rss: "concat rss = ?responses" "list_all2 (\<lambda>ys xs. length xs = length ys) ?misses rss"
    using split_lengths [of ?responses ?misses] by auto
  have "list_all (mappable ms (mo_lang params)) (concat rss)"
    unfolding rss(1) by (rule infer_window_mappable [OF assms])
  then have "list_all2 (fits wt ms params cache) (map (parse_one mb) files) rss"
    using rss(2) by (auto simp: list_all2_conv_all_nth fits_def list_all_iff)
  moreover from this have "list_all2 (\<lambda>text. expected_result (parse_one mb text) (mb_serialize mb)) files
      (map2 (\<lambda>text rs. file_result wt ms mb params cache rs (parse_one mb text)) files rss)"
    by (auto simp: list_all2_conv_all_nth file_result_expected)
  ultimately show ?thesis using run_results [of wt ms params cache mb files rss] rss(1) by auto
qed

text \<open>What has to be known of the workers' answers for it.\<close>

lemma item_wise_mappable:
  assumes "item_wise mb params answer"
    and "\<And>l f item raw ud. answer l = Some f \<Longrightarrow> f item = ItemRaw raw \<Longrightarrow>
      parse_raw_stanza_output (mb_alphabetic mb) (ms_unicode ms) raw = Inr ud \<Longrightarrow> mappable ms lang ud"
  shows "all_mappable ms lang (mb_infer ms mb params)"
proof -
  have "list_all (mappable ms lang) us" if us: "mb_infer ms mb params l xs = Inr us" for l xs us
  proof (cases "xs = []")
    case True
    then have "us = []"
      using us by (auto simp: mb_infer_def Let_def infer_batch_def compute_chunk_count_def min_chunk_size_def
          infer_batch_single_def split: if_splits sum.splits)
    then show ?thesis by simp
  next
    case False
    let ?r = "read_response ms mb params answer l"
    note one = infer_item_wise [OF assms(1) False, of ms l]
    have ok: "\<not> (\<exists>x\<in>set xs. ?r x = None)" using one us by (metis sum.distinct(1))
    have "map Some us = map ?r xs" using one us unfolding if_not_P [OF ok] by auto
    then have "u \<in> set us \<Longrightarrow> \<exists>x. ?r x = Some u" for u by (metis ex_map_conv list_ex_iff image_eqI list.set_map imageE)
    moreover have "?r x = Some u \<Longrightarrow> mappable ms lang u" for x u
      using assms(2) by (auto simp: read_response_def mappable_def split: option.splits ItemResult.splits sum.splits)
    ultimately show ?thesis by (auto simp: list_all_iff)
  qed
  then show ?thesis by (auto simp: all_mappable_def split: sum.split)
qed


section \<open>An answer that cannot be read\<close>

lemma inject_all_empty:
  "list_all (\<lambda>(resp, b). ur_sentences resp = []) rbs \<Longrightarrow>
    inject_all wt ms lang mode mwt rbs (f, traces) = Some (Inr (f, traces))"
  by (induction rbs) (auto simp: inject_result_def)


end
