(* ===== verification/Retok_Map.thy ===== *)
theory Retok_Map
  imports Retok
begin

text \<open>
  The assignment of tokens to words. When the texts agree it is the overlap of their ranges and total;
  the fallback is total too, so that every word has a token and every token a word.
\<close>

section \<open>Ranges\<close>

definition ordered_ranges :: "(nat \<times> nat) list \<Rightarrow> bool" where
  "ordered_ranges rs \<longleftrightarrow> sorted (map fst rs) \<and> sorted (map snd rs)"

lemma ranges_from_bounds:
  "r \<in> set (ranges_from c ss) \<Longrightarrow> c \<le> fst r \<and> fst r \<le> snd r \<and> snd r \<le> c + length (concat ss)"
  by (induction ss arbitrary: c) fastforce+

lemma ranges_from_proper:
  "r \<in> set (ranges_from c ss) \<Longrightarrow> [] \<notin> set ss \<Longrightarrow> fst r < snd r"
  by (induction ss arbitrary: c) auto

lemma ordered_ranges_from: "ordered_ranges (ranges_from c ss)"
  unfolding ordered_ranges_def
  by (induction ss arbitrary: c) (fastforce dest: ranges_from_bounds)+

lemma length_ranges_from [simp]: "length (ranges_from c ss) = length ss"
  by (induction ss arbitrary: c) auto

lemma position_in_range:
  "c \<le> p \<Longrightarrow> p < c + length (concat ss) \<Longrightarrow>
    \<exists>j < length ss. fst (ranges_from c ss ! j) \<le> p \<and> p < snd (ranges_from c ss ! j)"
proof (induction ss arbitrary: c)
  case (Cons s ss)
  show ?case
  proof (cases "p < c + length s")
    case True
    then show ?thesis using Cons.prems by (intro exI [of _ 0]) simp
  next
    case False
    then obtain j where "j < length ss" "fst (ranges_from (c + length s) ss ! j) \<le> p"
      "p < snd (ranges_from (c + length s) ss ! j)"
      using Cons.IH [of "c + length s"] Cons.prems by auto
    then show ?thesis by (intro exI [of _ "Suc j"]) simp
  qed
qed simp

section \<open>The loops\<close>

lemma skip_tokens_spec:
  "skip_tokens a i (drop i tr) \<ge> i \<and> (\<forall>j. i \<le> j \<and> j < skip_tokens a i (drop i tr) \<longrightarrow> snd (tr ! j) \<le> a)"
proof (induction "length tr - i" arbitrary: i)
  case (Suc n)
  then have i: "i < length tr" by simp
  obtain x y where xy: "tr ! i = (x, y)" by (cases "tr ! i")
  have step: "drop i tr = (x, y) # drop (Suc i) tr" using Cons_nth_drop_Suc [OF i] xy by simp
  show ?case
  proof (cases "y \<le> a")
    case True
    have "snd (tr ! j) \<le> a" if "i \<le> j" "j < skip_tokens a (Suc i) (drop (Suc i) tr)" for j
      using that True xy Suc.hyps(1) [of "Suc i"] Suc.hyps(2) by (cases "j = i") auto
    moreover have "Suc i \<le> skip_tokens a (Suc i) (drop (Suc i) tr)"
      using Suc.hyps(1) [of "Suc i"] Suc.hyps(2) by simp
    ultimately show ?thesis using True by (simp add: step)
  qed (simp add: step)
qed simp

lemma overlapping_tokens_filter:
  "sorted (map fst tr) \<Longrightarrow>
    overlapping_tokens a b i (drop i tr) = filter (\<lambda>j. fst (tr ! j) < b \<and> a < snd (tr ! j)) [i..<length tr]"
proof (induction "length tr - i" arbitrary: i)
  case (Suc n)
  then have i: "i < length tr" by simp
  obtain x y where xy: "tr ! i = (x, y)" by (cases "tr ! i")
  have step: "drop i tr = (x, y) # drop (Suc i) tr" using Cons_nth_drop_Suc [OF i] xy by simp
  have first: "[i..<length tr] = i # [Suc i..<length tr]" using i by (simp add: upt_conv_Cons)
  show ?case
  proof (cases "x \<ge> b")
    case True
    have "\<not> fst (tr ! j) < b" if "i \<le> j" "j < length tr" for j
      using sorted_nth_mono [OF Suc.prems, of i j] that True xy by simp
    then show ?thesis using True by (auto simp: step filter_empty_conv)
  next
    case False
    then show ?thesis using Suc.hyps(1) [of "Suc i"] Suc.hyps(2) Suc.prems xy by (simp add: step first)
  qed
qed simp

definition overlaps :: "(nat \<times> nat) list \<Rightarrow> nat \<times> nat \<Rightarrow> nat list" where
  "overlaps tr w = filter (\<lambda>j. fst (tr ! j) < snd w \<and> fst w < snd (tr ! j)) [0..<length tr]"

lemma overlaps_from:
  assumes "\<And>j. j < i \<Longrightarrow> snd (tr ! j) \<le> fst w" "i \<le> length tr"
  shows "filter (\<lambda>j. fst (tr ! j) < snd w \<and> fst w < snd (tr ! j)) [i..<length tr] = overlaps tr w"
proof -
  have "[0..<length tr] = [0..<i] @ [i..<length tr]" using upt_add_eq_append [of 0 i "length tr - i"] assms(2) by simp
  moreover have "filter (\<lambda>j. fst (tr ! j) < snd w \<and> fst w < snd (tr ! j)) [0..<i] = []"
    using assms(1) by (fastforce simp: filter_empty_conv)
  ultimately show ?thesis by (simp add: overlaps_def)
qed

lemma skip_tokens_le: "i \<le> length tr \<Longrightarrow> skip_tokens a i (drop i tr) \<le> length tr"
proof (induction "length tr - i" arbitrary: i)
  case (Suc n)
  then have "i < length tr" by simp
  then have "drop i tr = tr ! i # drop (Suc i) tr" by (simp add: Cons_nth_drop_Suc)
  then show ?case using Suc by (cases "tr ! i") simp
qed simp

lemma map_words_overlaps:
  assumes "ordered_ranges tr" "sorted (map fst ws)" "i \<le> length tr"
    and "\<And>w. w \<in> set ws \<Longrightarrow> overlaps tr w \<noteq> []"
    and "\<And>w j. w \<in> set ws \<Longrightarrow> j < i \<Longrightarrow> snd (tr ! j) \<le> fst w"
  shows "map_words_to_tokens tr i ws = Some (map (overlaps tr) ws)"
  using assms(2-)
proof (induction ws arbitrary: i)
  case (Cons w ws)
  obtain a b where w: "w = (a, b)" by (cases w)
  let ?i = "skip_tokens a i (drop i tr)"
  have before: "snd (tr ! j) \<le> a" if "j < ?i" for j
    using that skip_tokens_spec [of i a tr] Cons.prems(4) [of w j] w by (cases "j < i") auto
  have len: "?i \<le> length tr" using skip_tokens_le Cons.prems(2) .
  have toks: "overlapping_tokens a b ?i (drop ?i tr) = overlaps tr w"
    using overlapping_tokens_filter [of tr a b ?i] overlaps_from [of ?i tr w] before len assms(1) w
    by (simp add: ordered_ranges_def)
  have "map_words_to_tokens tr ?i ws = Some (map (overlaps tr) ws)"
  proof (rule Cons.IH)
    show "sorted (map fst ws)" using Cons.prems(1) by simp
    show "?i \<le> length tr" by (rule len)
    show "\<And>v. v \<in> set ws \<Longrightarrow> overlaps tr v \<noteq> []" using Cons.prems(3) by simp
    show "snd (tr ! j) \<le> fst v" if "v \<in> set ws" "j < ?i" for v j
      using before [OF that(2)] that(1) Cons.prems(1) w by (auto intro: order_trans)
  qed
  then show ?case using toks Cons.prems(3) [of w] by (simp add: w)
qed simp

section \<open>The deterministic mapping\<close>

lemma overlaps_nonempty:
  assumes "w \<in> set (ranges_from 0 words)" "[] \<notin> set words" "concat words = concat tokens"
  shows "overlaps (ranges_from 0 tokens) w \<noteq> []"
proof -
  have w: "fst w < snd w" "snd w \<le> length (concat tokens)"
    using ranges_from_bounds [OF assms(1)] ranges_from_proper [OF assms(1,2)] assms(3) by auto
  then obtain j where "j < length tokens" "fst (ranges_from 0 tokens ! j) \<le> fst w" "fst w < snd (ranges_from 0 tokens ! j)"
    using position_in_range [of 0 "fst w" tokens] by auto
  then have "j \<in> set (overlaps (ranges_from 0 tokens) w)" using w by (simp add: overlaps_def)
  then show ?thesis by auto
qed

lemma deterministic_overlaps:
  assumes "original_words \<noteq> []" "stanza_tokens \<noteq> []"
    and "words = map (normalize_alignment_unit lower) original_words"
    and "tokens = map (normalize_alignment_unit lower) stanza_tokens"
    and "[] \<notin> set words" "[] \<notin> set tokens" "concat words = concat tokens"
  shows "try_deterministic_word_token_mapping lower original_words stanza_tokens =
    Some (map (overlaps (ranges_from 0 tokens)) (ranges_from 0 words))"
proof -
  have "map_words_to_tokens (ranges_from 0 tokens) 0 (ranges_from 0 words) =
      Some (map (overlaps (ranges_from 0 tokens)) (ranges_from 0 words))"
    using ordered_ranges_from overlaps_nonempty assms(5,7)
    by (intro map_words_overlaps) (auto simp: ordered_ranges_def)
  then show ?thesis
    using assms by (simp add: try_deterministic_word_token_mapping_def Let_def)
qed

text \<open>
  When the texts of words and tokens agree up to case, the mapping exists and gives every word exactly
  the tokens whose range of characters overlaps its own; when they disagree, or a text is empty, there
  is no deterministic mapping.
\<close>

theorem deterministic_mapping_exact:
  assumes "original_words \<noteq> []" "stanza_tokens \<noteq> []"
  shows "(let words = map (normalize_alignment_unit lower) original_words;
              tokens = map (normalize_alignment_unit lower) stanza_tokens
          in try_deterministic_word_token_mapping lower original_words stanza_tokens =
             (if [] \<notin> set words \<and> [] \<notin> set tokens \<and> concat words = concat tokens
              then Some (map (overlaps (ranges_from 0 tokens)) (ranges_from 0 words)) else None))"
  using deterministic_overlaps [OF assms refl refl] assms
  by (auto simp: try_deterministic_word_token_mapping_def Let_def)

section \<open>The fallback\<close>

lemma fallback_slice:
  assumes "0 < w" "0 < t" "i < (w :: nat)"
  defines "start \<equiv> i * t div w" and "stop \<equiv> (i + 1) * t div w"
  shows "start < t" "stop \<le> t" "start \<le> stop"
proof -
  have "i * t < w * t" using assms by simp
  then show "start < t" unfolding start_def by (simp add: less_mult_imp_div_less mult.commute)
  have "(i + 1) * t \<le> w * t" using assms by (intro mult_right_mono) auto
  then show "stop \<le> t" unfolding stop_def using assms(1) by (metis div_le_mono nonzero_mult_div_cancel_left less_nat_zero_code)
  show "start \<le> stop" unfolding start_def stop_def by (intro div_le_mono) simp
qed

lemma in_fallback_slice:
  assumes "0 < w" "j < (t :: nat)"
  shows "\<exists>i < w. i * t div w \<le> j \<and> j < (i + 1) * t div w"
proof -
  let ?P = "\<lambda>i. j < (i + 1) * t div w"
  have last: "?P (w - 1)" using assms by simp
  define i where "i = (LEAST i. ?P i)"
  have i: "?P i" "i \<le> w - 1" unfolding i_def using LeastI [of ?P, OF last] Least_le [of ?P, OF last] by auto
  have "i * t div w \<le> j"
  proof (cases i)
    case (Suc k)
    then have "\<not> ?P k" using not_less_Least [of k ?P] i_def by auto
    then show ?thesis using Suc by simp
  qed simp
  then show ?thesis using i assms(1) by (intro exI [of _ i]) auto
qed

definition proper_mapping :: "nat \<Rightarrow> nat \<Rightarrow> nat list list \<Rightarrow> bool" where
  "proper_mapping word_count token_count m \<longleftrightarrow>
     length m = word_count \<and> list_all (\<lambda>toks. toks \<noteq> [] \<and> sorted toks \<and> distinct toks) m \<and>
     set (concat m) = {..<token_count}"

lemma fallback_proper:
  assumes "0 < w" "0 < t"
  shows "proper_mapping w t (build_length_fallback_mapping w t)"
proof (cases "w = t")
  case True
  then show ?thesis using assms
    by (auto simp: proper_mapping_def build_length_fallback_mapping_def list_all_iff)
next
  case False
  define slot where "slot i = (let start = i * t div w; stop = (i + 1) * t div w;
      stop = (if stop \<le> start then min (start + 1) t else stop) in [start..<stop])" for i
  have m: "build_length_fallback_mapping w t = map slot [0..<w]"
    using False assms by (simp add: build_length_fallback_mapping_def slot_def)
  have slot: "set (slot i) \<subseteq> {..<t} \<and> slot i \<noteq> [] \<and> sorted (slot i) \<and> distinct (slot i)" if "i < w" for i
    using fallback_slice [OF assms that] by (auto simp: slot_def Let_def)
  have "\<exists>i < w. j \<in> set (slot i)" if j: "j < t" for j
  proof -
    obtain i where "i < w" "i * t div w \<le> j" "j < (i + 1) * t div w"
      using in_fallback_slice [OF assms(1) j] by auto
    then show ?thesis by (intro exI [of _ i]) (auto simp: slot_def Let_def)
  qed
  then have "set (concat (map slot [0..<w])) = {..<t}" using slot by fastforce
  then show ?thesis using slot by (auto simp: proper_mapping_def m list_all_iff)
qed

lemma deterministic_proper:
  assumes "[] \<notin> set words" "[] \<notin> set tokens" "concat words = concat tokens"
  shows "proper_mapping (length words) (length tokens)
    (map (overlaps (ranges_from 0 tokens)) (ranges_from 0 words))"
proof -
  let ?tr = "ranges_from 0 tokens" and ?wr = "ranges_from 0 words"
  have "\<exists>w \<in> set ?wr. j \<in> set (overlaps ?tr w)" if j: "j < length tokens" for j
  proof -
    have r: "?tr ! j \<in> set ?tr" using j by simp
    have b: "fst (?tr ! j) < snd (?tr ! j)" "snd (?tr ! j) \<le> length (concat words)"
      using ranges_from_bounds [OF r] ranges_from_proper [OF r assms(2)] assms(3) by auto
    then obtain i where "i < length words" "fst (?wr ! i) \<le> fst (?tr ! j)" "fst (?tr ! j) < snd (?wr ! i)"
      using position_in_range [of 0 "fst (?tr ! j)" words] by auto
    then show ?thesis using b j by (intro bexI [of _ "?wr ! i"]) (auto simp: overlaps_def)
  qed
  then have "set (concat (map (overlaps ?tr) ?wr)) = {..<length tokens}" by (auto simp: overlaps_def)
  then show ?thesis
    using overlaps_nonempty [OF _ assms(1,3)]
    by (auto simp: proper_mapping_def list_all_iff overlaps_def intro: sorted_filter [where f = id, simplified])
qed

text \<open>
  Whatever the texts are, every word gets at least one token, in ascending order and without
  repetition, and every token belongs to a word: the branches for words without tokens are dead as
  long as words and content agree.
\<close>

theorem every_word_has_tokens:
  assumes "original_words \<noteq> []" "stanza_tokens \<noteq> []"
  shows "proper_mapping (length original_words) (length stanza_tokens)
    (build_word_token_mapping lower original_words stanza_tokens)"
proof -
  let ?words = "map (normalize_alignment_unit lower) original_words"
    and ?tokens = "map (normalize_alignment_unit lower) stanza_tokens"
  show ?thesis
  proof (cases "[] \<notin> set ?words \<and> [] \<notin> set ?tokens \<and> concat ?words = concat ?tokens")
    case True
    then show ?thesis
      using deterministic_proper [of ?words ?tokens] deterministic_overlaps [OF assms, of ?words lower ?tokens]
      by (simp add: build_word_token_mapping_def)
  next
    case False
    then have "try_deterministic_word_token_mapping lower original_words stanza_tokens = None"
      using assms by (auto simp: try_deterministic_word_token_mapping_def Let_def)
    then show ?thesis
      using fallback_proper [of "length original_words" "length stanza_tokens"] assms
      by (simp add: build_word_token_mapping_def)
  qed
qed

end
