(* ===== verification/Retok_Correct.thy ===== *)
theory Retok_Correct
  imports Retok_Map
begin

text \<open>
  The walk that replaces words by tokens: what it leaves alone, when it changes nothing, when it puts in
  every token exactly once, and where it corrupts the utterance. \<open>units\<close> lists the texts that the walk
  counts as words, in order; extraction is in step with the walk when it finds the same list.
\<close>

section \<open>The words the walk counts\<close>

fun units_item :: "('w, 'a, 'o) WordTools \<Rightarrow> bool \<Rightarrow> ('w, 'a, 'o) Content \<Rightarrow> rstr list"
and units :: "('w, 'a, 'o) WordTools \<Rightarrow> bool \<Rightarrow> ('w, 'a, 'o) Content list \<Rightarrow> rstr list" where
  "units_item wt outer (CtWord w) = (if wt_counts wt w then [wt_cleaned_text wt w] else [])"
| "units_item wt outer (CtAnnotated w a) = (if wt_counts wt w then [wt_cleaned_text wt w] else [])"
| "units_item wt outer (CtReplaced w ws a) =
     map (wt_cleaned_text wt) (filter (wt_counts wt) (if ws = [] then [w] else ws))"
| "units_item wt outer (CtGroup kind a content) = (if \<not> outer \<and> kind = GkGroup then [] else units wt False content)"
| "units_item wt outer (CtSeparator sep) = (if wt_tag_marker wt sep then [wt_render wt sep] else [])"
| "units_item wt outer (CtOther x) = []"
| "units wt outer [] = []"
| "units wt outer (c # cs) = units_item wt outer c @ units wt outer cs"

definition words_agree :: "('w, 'a, 'o) WordTools \<Rightarrow> ('w, 'a, 'o) Content list \<Rightarrow> bool" where
  "words_agree wt content \<longleftrightarrow> map xw_text (collect_utterance_content wt content) = units wt True content"

lemma units_append [simp]: "units wt outer (xs @ ys) = units wt outer xs @ units wt outer ys"
  by (induction xs) auto

section \<open>Equal tokens change nothing\<close>

text \<open>The tokens are the words; the words before the counter have been emitted, none behind it.\<close>

definition same_tokens :: "rstr list \<Rightarrow> RetokenizeContext \<Rightarrow> bool" where
  "same_tokens ts ctx \<longleftrightarrow>
     rc_mapping ctx = map (\<lambda>i. [i]) [0..<length ts] \<and> rc_stanza_tokens ctx = ts \<and>
     map xw_text (rc_original_words ctx) = ts \<and> set (rc_emitted_tokens ctx) \<subseteq> {..<rc_word_counter ctx} \<and>
     rc_diagnostics ctx = []"

definition passed :: "rstr list \<Rightarrow> RetokenizeContext \<Rightarrow> rstr list \<Rightarrow> RetokenizeContext \<Rightarrow> bool" where
  "passed ts ctx us ctx' \<longleftrightarrow> same_tokens ts ctx' \<and> rc_word_counter ctx' = rc_word_counter ctx + length us"

definition expects :: "rstr list \<Rightarrow> RetokenizeContext \<Rightarrow> rstr list \<Rightarrow> bool" where
  "expects ts ctx us \<longleftrightarrow> same_tokens ts ctx \<and> (\<exists>rest. drop (rc_word_counter ctx) ts = us @ rest)"

lemma expects_nth:
  assumes "expects ts ctx (u # us)"
  shows "rc_word_counter ctx < length ts" "ts ! rc_word_counter ctx = u"
proof -
  obtain rest where d: "drop (rc_word_counter ctx) ts = u # us @ rest" using assms by (auto simp: expects_def)
  then show "rc_word_counter ctx < length ts" by (metis drop_all not_le list.distinct(1))
  then show "ts ! rc_word_counter ctx = u" using d by (metis Cons_nth_drop_Suc list.inject)
qed

lemma expects_passed:
  assumes "expects ts ctx (us @ vs)" "passed ts ctx us ctx'"
  shows "expects ts ctx' vs"
proof -
  obtain rest where "drop (rc_word_counter ctx) ts = us @ vs @ rest" using assms(1) by (auto simp: expects_def)
  then have "drop (rc_word_counter ctx + length us) ts = vs @ rest" by (metis append_eq_conv_conj drop_drop add.commute)
  then show ?thesis using assms(2) by (auto simp: expects_def passed_def)
qed

lemma passed_trans:
  "passed ts ctx us ctx1 \<Longrightarrow> passed ts ctx1 vs ctx2 \<Longrightarrow> passed ts ctx (us @ vs) ctx2"
  by (simp add: passed_def)

lemma passed_Nil: "expects ts ctx us \<Longrightarrow> passed ts ctx [] ctx"
  by (simp add: expects_def passed_def)

lemma resolve_same:
  assumes "same_tokens ts ctx" "i < length ts"
  shows "resolve_token_text (rc_stanza_tokens ctx ! i) i (rc_original_words ctx) = ts ! i"
proof -
  have "xw_text (rc_original_words ctx ! i) = ts ! i"
    using assms by (metis same_tokens_def length_map nth_map)
  then show ?thesis using assms by (simp add: resolve_token_text_def same_tokens_def)
qed

lemma same_word:
  assumes "expects ts ctx (wt_cleaned_text wt w # us)"
  shows "\<exists>ctx'. handle_word_retokenize wt w ctx out = (ctx', out @ [CtWord w]) \<and> passed ts ctx [wt_cleaned_text wt w] ctx'"
    "\<exists>ctx'. handle_annotated_word_retokenize wt w ctx = (ctx', w) \<and> passed ts ctx [wt_cleaned_text wt w] ctx'"
proof -
  let ?i = "rc_word_counter ctx"
  let ?ctx = "ctx\<lparr>rc_word_counter := ?i + 1\<rparr>"
  have i: "?i < length ts" "ts ! ?i = wt_cleaned_text wt w" using expects_nth [OF assms] .
  have ctx: "same_tokens ts ctx" using assms by (simp add: expects_def)
  have idx: "get_nonempty (rc_mapping ?ctx) ?i = Some [?i]"
    using ctx i(1) by (simp add: same_tokens_def get_nonempty_def)
  have fresh: "?i \<notin> set (rc_emitted_tokens ctx)" using ctx by (auto simp: same_tokens_def)
  have done_one: "passed ts ctx [wt_cleaned_text wt w] (mark_emitted [?i] ?ctx)"
    using ctx by (fastforce simp: passed_def same_tokens_def mark_emitted_def)
  show "\<exists>ctx'. handle_word_retokenize wt w ctx out = (ctx', out @ [CtWord w]) \<and> passed ts ctx [wt_cleaned_text wt w] ctx'"
    using idx fresh i resolve_same [OF ctx i(1)] done_one
    by (simp add: handle_word_retokenize_def next_word_def)
  show "\<exists>ctx'. handle_annotated_word_retokenize wt w ctx = (ctx', w) \<and> passed ts ctx [wt_cleaned_text wt w] ctx'"
    using idx fresh i resolve_same [OF ctx i(1)] done_one
    by (simp add: handle_annotated_word_retokenize_def next_word_def)
qed

lemma same_counted:
  assumes "expects ts ctx (map (wt_cleaned_text wt) (filter (wt_counts wt) [w]) @ us)"
  shows "\<exists>ctx'. retokenize_if_counted wt w ctx = (ctx', w) \<and>
    passed ts ctx (map (wt_cleaned_text wt) (filter (wt_counts wt) [w])) ctx'"
proof (cases "wt_counts wt w")
  case True
  then show ?thesis using assms same_word(2) [of ts ctx wt w us] by (simp add: retokenize_if_counted_def)
next
  case False
  then show ?thesis using passed_Nil [OF assms] by (simp add: retokenize_if_counted_def)
qed

lemma same_replacement:
  "expects ts ctx (map (wt_cleaned_text wt) (filter (wt_counts wt) ws) @ us) \<Longrightarrow>
    \<exists>ctx'. retokenize_replacement wt ws ctx = (ctx', ws) \<and>
      passed ts ctx (map (wt_cleaned_text wt) (filter (wt_counts wt) ws)) ctx'"
proof (induction ws arbitrary: ctx)
  case Nil
  then show ?case using passed_Nil by auto
next
  case (Cons w ws)
  let ?f = "\<lambda>ws. map (wt_cleaned_text wt) (filter (wt_counts wt) ws)"
  have split: "?f (w # ws) = ?f [w] @ ?f ws" by simp
  obtain ctx1 where one: "retokenize_if_counted wt w ctx = (ctx1, w)" "passed ts ctx (?f [w]) ctx1"
    using same_counted [of ts ctx wt w "?f ws @ us"] Cons.prems by (metis append_assoc split)
  have "expects ts ctx1 (?f ws @ us)"
    using Cons.prems expects_passed [OF _ one(2)] by (metis append_assoc split)
  from Cons.IH [OF this] obtain ctx2 where "retokenize_replacement wt ws ctx1 = (ctx2, ws)" "passed ts ctx1 (?f ws) ctx2"
    by blast
  then show ?case using one passed_trans [OF one(2)] by (metis (no_types, lifting) case_prod_conv retokenize_replacement.simps(2) split)
qed

lemma same_content:
  "expects ts ctx (units_item wt outer c @ us) \<Longrightarrow>
    \<exists>ctx'. rebuild_item wt outer c (ctx, out) = (ctx', out @ [c]) \<and> passed ts ctx (units_item wt outer c) ctx'"
  "expects ts ctx (units wt outer cs @ us) \<Longrightarrow>
    \<exists>ctx'. rebuild_content wt outer cs (ctx, out) = (ctx', out @ cs) \<and> passed ts ctx (units wt outer cs) ctx'"
proof (induction wt outer c and wt outer cs arbitrary: ctx out us and ctx out us rule: units_item_units.induct)
  case (1 wt outer w)
  then show ?case using same_word(1) [of ts ctx wt w us out] passed_Nil by auto
next
  case (2 wt outer w a)
  then show ?case using same_counted [of ts ctx wt w us] by (cases "wt_counts wt w") auto
next
  case (3 wt outer w ws a)
  show ?case
  proof (cases "ws = []")
    case True
    have "expects ts ctx (map (wt_cleaned_text wt) (filter (wt_counts wt) [w]) @ us)" using 3 True by simp
    from same_counted [OF this] show ?thesis using True by auto
  next
    case False
    have "expects ts ctx (map (wt_cleaned_text wt) (filter (wt_counts wt) ws) @ us)" using 3 False by simp
    from same_replacement [OF this] show ?thesis using False by auto
  qed
next
  case (4 wt outer kind a content)
  show ?case
  proof (cases "\<not> outer \<and> kind = GkGroup")
    case True
    then show ?thesis using 4(2) passed_Nil by auto
  next
    case False
    then have "expects ts ctx (units wt False content @ us)" using 4(2) by auto
    from 4(1) [OF False this, of "[]"] show ?thesis using False by auto
  qed
next
  case (5 wt outer sep)
  show ?case
  proof (cases "wt_tag_marker wt sep")
    case True
    have "passed ts ctx [wt_render wt sep] (snd (next_word ctx))"
      using 5 True by (fastforce simp: expects_def passed_def same_tokens_def next_word_def)
    then show ?thesis using True by simp
  next
    case False
    then show ?thesis using 5 passed_Nil by auto
  qed
next
  case (6 wt outer x)
  then show ?case using passed_Nil by auto
next
  case (7 wt outer)
  then show ?case using passed_Nil by auto
next
  case (8 wt outer c cs)
  from 8(3) have e: "expects ts ctx (units_item wt outer c @ units wt outer cs @ us)" by simp
  from 8(1) [OF e, of out] obtain ctx1 where one:
    "rebuild_item wt outer c (ctx, out) = (ctx1, out @ [c])" "passed ts ctx (units_item wt outer c) ctx1" by blast
  from 8(2) [OF expects_passed [OF e one(2)], of "out @ [c]"] obtain ctx2 where two:
    "rebuild_content wt outer cs (ctx1, out @ [c]) = (ctx2, (out @ [c]) @ cs)" "passed ts ctx1 (units wt outer cs) ctx2"
    by blast
  show ?case using one two passed_trans [OF one(2) two(2)] by simp
qed

lemma overlaps_same:
  assumes "[] \<notin> set ss" "i < length ss"
  shows "overlaps (ranges_from 0 ss) (ranges_from 0 ss ! i) = [i]"
proof -
  let ?r = "ranges_from 0 ss"
  have proper: "fst (?r ! j) < snd (?r ! j)" if "j < length ss" for j
    using ranges_from_proper [of "?r ! j" 0 ss] assms(1) that by simp
  have chain: "snd (ranges_from c ss ! j) \<le> fst (ranges_from c ss ! k)" if "j < k" "k < length ss" for c j k
    using that
  proof (induction ss arbitrary: c j k)
    case (Cons s ss)
    show ?case
    proof (cases j)
      case 0
      have "ranges_from (c + length s) ss ! (k - 1) \<in> set (ranges_from (c + length s) ss)"
        using Cons.prems by (intro nth_mem) auto
      from ranges_from_bounds [OF this] show ?thesis using 0 Cons.prems by (cases k) auto
    next
      case (Suc j')
      then show ?thesis using Cons.IH [of j' "k - 1"] Cons.prems by (cases k) auto
    qed
  qed simp
  have "j \<in> set (overlaps ?r (?r ! i)) \<longleftrightarrow> j = i" for j
    using proper [of i] chain [of j i 0] chain [of i j 0] assms(2) by (cases j i rule: linorder_cases) (auto simp: overlaps_def)
  then have "set (overlaps ?r (?r ! i)) = set [i]" by auto
  moreover have "sorted (overlaps ?r (?r ! i))" "distinct (overlaps ?r (?r ! i))"
    by (simp_all add: overlaps_def sorted_filter [where f = id, simplified])
  ultimately show ?thesis using sorted_distinct_set_unique [of "overlaps ?r (?r ! i)" "[i]"] by simp
qed

lemma mapping_same:
  assumes "ts \<noteq> []"
  shows "build_word_token_mapping lower ts ts = map (\<lambda>i. [i]) [0..<length ts]"
proof (cases "[] \<in> set (map (normalize_alignment_unit lower) ts)")
  case True
  then have "try_deterministic_word_token_mapping lower ts ts = None"
    using assms by (simp add: try_deterministic_word_token_mapping_def Let_def)
  then show ?thesis using assms by (simp add: build_word_token_mapping_def build_length_fallback_mapping_def)
next
  case False
  let ?ss = "map (normalize_alignment_unit lower) ts"
  have "map (overlaps (ranges_from 0 ?ss)) (ranges_from 0 ?ss) = map (\<lambda>i. [i]) [0..<length ts]"
    using False overlaps_same [of ?ss] by (intro nth_equalityI) auto
  then show ?thesis
    using deterministic_overlaps [OF assms assms refl refl False False refl]
    by (simp add: build_word_token_mapping_def)
qed

text \<open>
  When the tokens are the extracted words, retokenization is the same as adding the tiers without it:
  no node of the utterance changes, whatever annotations, replacements and groups it has.
\<close>

theorem equal_tokens_change_nothing:
  assumes "words_agree wt (tu_content u)"
  defines "words \<equiv> collect_utterance_content wt (tu_content u)"
  shows "retokenize_utterance wt u words (map xw_text words) mors terminator gras =
    (if words = [] then (u, None) else inject_morphosyntax wt u mors terminator gras)"
proof (cases "words = []")
  case False
  let ?ts = "map xw_text words"
  let ?ctx = "retokenize_context wt words ?ts (length mors) terminator"
  have "same_tokens ?ts ?ctx"
    using mapping_same [of ?ts "wt_lower wt"] False by (simp add: same_tokens_def retokenize_context_def)
  moreover have "?ts = units wt True (tu_content u)" using assms by (simp add: words_agree_def)
  ultimately have "expects ?ts ?ctx (units wt True (tu_content u) @ [])"
    by (simp add: expects_def retokenize_context_def)
  from same_content(2) [OF this, of "[]"] show ?thesis
    using False by (auto simp: retokenize_utterance_def passed_def same_tokens_def)
qed (simp add: retokenize_utterance_def)

end
