(* ===== verification/Retok_Exact.thy ===== *)
theory Retok_Exact
  imports Retok_Correct
begin

text \<open>
  When words and tokens fall into blocks, a word cut into tokens or words joined to one token, every
  token is put into the content exactly once and the tiers are added. A plan has for every unit of the
  content whether it is a separator, its text, its tokens and the texts that shall stand in its place.
\<close>

section \<open>Plans\<close>

fun plain_item :: "('w, 'a, 'o) Content \<Rightarrow> bool"
and plain_content :: "('w, 'a, 'o) Content list \<Rightarrow> bool" where
  "plain_item (CtWord w) = True"
| "plain_item (CtAnnotated w a) = False"
| "plain_item (CtReplaced w ws a) = False"
| "plain_item (CtGroup kind a content) = plain_content content"
| "plain_item (CtSeparator sep) = True"
| "plain_item (CtOther x) = True"
| "plain_content [] = True"
| "plain_content (c # cs) = (plain_item c \<and> plain_content cs)"

lemma plain_append [simp]: "plain_content (xs @ ys) \<longleftrightarrow> plain_content xs \<and> plain_content ys"
  by (induction xs) auto

text \<open>The units of plain content, with a mark for separators.\<close>

fun marks_item :: "('w, 'a, 'o) WordTools \<Rightarrow> bool \<Rightarrow> ('w, 'a, 'o) Content \<Rightarrow> (bool \<times> rstr) list"
and marks :: "('w, 'a, 'o) WordTools \<Rightarrow> bool \<Rightarrow> ('w, 'a, 'o) Content list \<Rightarrow> (bool \<times> rstr) list" where
  "marks_item wt outer (CtWord w) = (if wt_counts wt w then [(False, wt_cleaned_text wt w)] else [])"
| "marks_item wt outer (CtAnnotated w a) = []"
| "marks_item wt outer (CtReplaced w ws a) = []"
| "marks_item wt outer (CtGroup kind a content) = (if \<not> outer \<and> kind = GkGroup then [] else marks wt False content)"
| "marks_item wt outer (CtSeparator sep) = (if wt_tag_marker wt sep then [(True, wt_render wt sep)] else [])"
| "marks_item wt outer (CtOther x) = []"
| "marks wt outer [] = []"
| "marks wt outer (c # cs) = marks_item wt outer c @ marks wt outer cs"

lemma units_marks:
  "plain_item c \<Longrightarrow> units_item wt outer c = map snd (marks_item wt outer c)"
  "plain_content cs \<Longrightarrow> units wt outer cs = map snd (marks wt outer cs)"
  by (induction wt outer c and wt outer cs rule: marks_item_marks.induct) auto

definition readable :: "('w, 'a, 'o) WordTools \<Rightarrow> rstr \<Rightarrow> bool" where
  "readable wt t \<longleftrightarrow>
     t \<noteq> lit ''xbxxx'' \<and> separator_of_text t = None \<and> \<not> ends_utterance t \<and>
     (case wt_parse_word wt t of None \<Rightarrow> False | Some w \<Rightarrow> wt_cleaned_text wt w = t \<and> wt_counts wt w)"

type_synonym Step = "(bool \<times> rstr) \<times> nat list \<times> rstr list"

fun plan_ok :: "('w, 'a, 'o) WordTools \<Rightarrow> rstr list \<Rightarrow> nat set \<Rightarrow> nat list option \<Rightarrow> Step list \<Rightarrow> bool" where
  "plan_ok wt ts seen prev [] = True"
| "plan_ok wt ts seen prev (((sep, s), tis, new) # plan) =
     (if sep then new = [s] \<and> plan_ok wt ts (seen \<union> set tis) None plan
      else tis \<noteq> [] \<and>
           (set tis \<inter> seen = {} \<and> distinct tis \<and> list_all (\<lambda>i. readable wt (ts ! i)) tis \<and> new = map (\<lambda>i. ts ! i) tis \<or>
            prev = Some tis \<and> new = []) \<and>
           plan_ok wt ts (seen \<union> set tis) (Some tis) plan)"

definition on_plan ::
  "('w, 'a, 'o) WordTools \<Rightarrow> rstr list \<Rightarrow> nat list list \<Rightarrow> nat set \<Rightarrow> nat list option \<Rightarrow> RetokenizeContext \<Rightarrow> Step list \<Rightarrow> bool" where
  "on_plan wt ts m seen prev ctx plan \<longleftrightarrow>
     rc_mapping ctx = m \<and> rc_stanza_tokens ctx = ts \<and> rc_diagnostics ctx = [] \<and>
     drop (rc_word_counter ctx) m = map (\<lambda>(mark, tis, new). tis) plan \<and>
     set (rc_emitted_tokens ctx) \<subseteq> seen \<and>
     (case prev of None \<Rightarrow> True | Some tis \<Rightarrow> set tis \<subseteq> set (rc_emitted_tokens ctx)) \<and>
     plan_ok wt ts seen prev plan"

section \<open>One word\<close>

lemma read_token:
  assumes "readable wt t"
  shows "resolve_token_text t idx ws = t"
    "\<exists>w. try_parse_token_as_content wt t expected ds = (Some (CtWord w), ds) \<and> wt_cleaned_text wt w = t \<and> wt_counts wt w"
  using assms
  by (auto simp: readable_def resolve_token_text_def try_parse_token_as_content_def handle_ending_punct_skip_def
      try_parse_token_as_word_def split: option.splits)

lemma emit_readable:
  assumes "list_all (\<lambda>i. readable wt (rc_stanza_tokens ctx ! i)) tis" "wt_counts wt word" "single \<longrightarrow> length tis \<le> 1"
  shows "\<exists>ctx' new. emit_tokens wt idx single word tis ctx out = (ctx', out @ new) \<and>
    units wt outer new = map (\<lambda>i. rc_stanza_tokens ctx ! i) tis \<and> plain_content new \<and>
    ctx' = ctx\<lparr>rc_emitted_tokens := rev tis @ rc_emitted_tokens ctx, rc_mor_cursor := rc_mor_cursor ctx + length tis\<rparr>"
  using assms
proof (induction tis arbitrary: ctx out)
  case (Cons ti tis)
  let ?t = "rc_stanza_tokens ctx ! ti"
  have t: "readable wt ?t" using Cons.prems(1) by simp
  note text_of = read_token(1) [OF t]
  obtain w where w: "try_parse_token_as_content wt ?t (rc_expected_terminator ctx) (rc_diagnostics ctx) =
      (Some (CtWord w), rc_diagnostics ctx)" "wt_cleaned_text wt w = ?t" "wt_counts wt w"
    using read_token(2) [OF t] by blast
  let ?ctx = "mark_emitted [ti] ctx"
  have ctx: "?ctx\<lparr>rc_diagnostics := rc_diagnostics ctx\<rparr> = ?ctx" by (simp add: mark_emitted_def)
  show ?case
  proof (cases "single \<and> wt_cleaned_text wt word = ?t")
    case True
    then have "tis = []" using Cons.prems(3) by simp
    then show ?thesis using True text_of Cons.prems(2) by (auto simp: mark_emitted_def Let_def)
  next
    case False
    have "rc_stanza_tokens ?ctx = rc_stanza_tokens ctx" by (simp add: mark_emitted_def)
    then obtain ctx' new where rest: "emit_tokens wt idx single word tis ?ctx (out @ [CtWord w]) = (ctx', (out @ [CtWord w]) @ new)"
      "units wt outer new = map (\<lambda>i. rc_stanza_tokens ctx ! i) tis" "plain_content new"
      "ctx' = ?ctx\<lparr>rc_emitted_tokens := rev tis @ rc_emitted_tokens ?ctx, rc_mor_cursor := rc_mor_cursor ?ctx + length tis\<rparr>"
      using Cons.IH [of ?ctx "out @ [CtWord w]"] Cons.prems by auto
    have "emit_tokens wt idx single word (ti # tis) ctx out = (ctx', out @ CtWord w # new)"
      using rest(1) False w(1) text_of by (auto simp: Let_def mark_emitted_def)
    then show ?thesis using rest w by (auto simp: mark_emitted_def)
  qed
qed simp

lemma plan_word:
  assumes "on_plan wt ts m seen prev ctx (((False, wt_cleaned_text wt w), tis, new) # plan)" "wt_counts wt w"
  shows "\<exists>ctx' out' seen' prev'. handle_word_retokenize wt w ctx out = (ctx', out @ out') \<and>
    units wt outer out' = new \<and> plain_content out' \<and> on_plan wt ts m seen' prev' ctx' plan"
proof -
  let ?k = "rc_word_counter ctx"
  let ?ctx = "ctx\<lparr>rc_word_counter := ?k + 1\<rparr>"
  have m: "drop ?k m = tis # map (\<lambda>(mark, tis, new). tis) plan" and ctx: "rc_mapping ctx = m" "rc_stanza_tokens ctx = ts"
    "rc_diagnostics ctx = []" and emitted: "set (rc_emitted_tokens ctx) \<subseteq> seen"
    and ok: "tis \<noteq> []" "set tis \<inter> seen = {} \<and> distinct tis \<and> list_all (\<lambda>i. readable wt (ts ! i)) tis \<and>
      new = map (\<lambda>i. ts ! i) tis \<or> prev = Some tis \<and> new = []"
      "plan_ok wt ts (seen \<union> set tis) (Some tis) plan"
    using assms(1) by (auto simp: on_plan_def)
  have k: "?k < length m" using m by (metis drop_all list.distinct(1) not_le)
  then have m': "m ! ?k = tis" "drop (Suc ?k) m = map (\<lambda>(mark, tis, new). tis) plan"
    using m by (metis Cons_nth_drop_Suc list.inject)+
  have idx: "get_nonempty (rc_mapping ?ctx) ?k = Some tis" using k m'(1) ok(1) ctx(1) by (simp add: get_nonempty_def)
  consider (fresh) "set tis \<inter> seen = {}" "distinct tis" "list_all (\<lambda>i. readable wt (ts ! i)) tis"
      "new = map (\<lambda>i. ts ! i) tis"
    | (again) "prev = Some tis" "new = []"
    using ok(2) by blast
  then show ?thesis
  proof cases
    case fresh
    have unseen: "\<not> list_all (\<lambda>ti. ti \<in> set (rc_emitted_tokens ?ctx)) tis"
      using ok(1) fresh(1) emitted by (cases tis) auto
    obtain ctx' out' where e: "emit_tokens wt ?k (length tis = 1) w tis ?ctx out = (ctx', out @ out')"
      "units wt outer out' = new" "plain_content out'"
      "ctx' = ?ctx\<lparr>rc_emitted_tokens := rev tis @ rc_emitted_tokens ?ctx, rc_mor_cursor := rc_mor_cursor ?ctx + length tis\<rparr>"
      using emit_readable [of wt ?ctx tis w "length tis = 1" ?k out outer] fresh(3,4) assms(2) ctx(2) by auto
    have "on_plan wt ts m (seen \<union> set tis) (Some tis) ctx' plan"
      using e(4) ctx m'(2) emitted ok(3) by (auto simp: on_plan_def)
    then show ?thesis using e(1-3) idx unseen by (simp add: handle_word_retokenize_def next_word_def) blast
  next
    case again
    then have "set tis \<subseteq> set (rc_emitted_tokens ctx)" using assms(1) by (simp add: on_plan_def)
    then have seen: "list_all (\<lambda>ti. ti \<in> set (rc_emitted_tokens ?ctx)) tis" by (auto simp: list_all_iff)
    have "on_plan wt ts m (seen \<union> set tis) (Some tis) ?ctx plan"
      using ctx m'(2) emitted ok(3) \<open>set tis \<subseteq> set (rc_emitted_tokens ctx)\<close> by (auto simp: on_plan_def)
    moreover have "handle_word_retokenize wt w ctx out = (?ctx, out @ [])"
      using idx seen by (simp add: handle_word_retokenize_def next_word_def)
    ultimately show ?thesis using again(2) by (metis plain_content.simps(1) units.simps(1))
  qed
qed

lemma plan_separator:
  assumes "on_plan wt ts m seen prev ctx (((True, s), tis, new) # plan)"
  shows "new = [s] \<and> on_plan wt ts m (seen \<union> set tis) None (snd (next_word ctx)) plan"
proof -
  let ?k = "rc_word_counter ctx"
  have m: "drop ?k m = tis # map (\<lambda>(mark, tis, new). tis) plan" using assms by (simp add: on_plan_def)
  then have "?k < length m" by (metis drop_all list.distinct(1) not_le)
  then have "drop (Suc ?k) m = map (\<lambda>(mark, tis, new). tis) plan" using m by (metis Cons_nth_drop_Suc list.inject)
  then show ?thesis using assms by (auto simp: on_plan_def next_word_def)
qed

section \<open>The content\<close>

abbreviation follows ::
  "('w, 'a, 'o) WordTools \<Rightarrow> rstr list \<Rightarrow> nat list list \<Rightarrow> Step list \<Rightarrow> Step list \<Rightarrow> bool \<Rightarrow>
    ('w, 'a, 'o) Content list \<Rightarrow> RetokenizeContext \<times> ('w, 'a, 'o) Content list \<Rightarrow> bool" where
  "follows wt ts m plan rest outer out result \<equiv>
     (\<exists>ctx' out' seen' prev'. result = (ctx', out @ out') \<and>
       units wt outer out' = concat (map (\<lambda>(mark, tis, new). new) plan) \<and> plain_content out' \<and>
       on_plan wt ts m seen' prev' ctx' rest)"

lemma plan_content:
  "on_plan wt ts m seen prev ctx (plan @ rest) \<Longrightarrow> map fst plan = marks_item wt outer c \<Longrightarrow> plain_item c \<Longrightarrow>
    follows wt ts m plan rest outer out (rebuild_item wt outer c (ctx, out))"
  "on_plan wt ts m seen prev ctx (plan @ rest) \<Longrightarrow> map fst plan = marks wt outer cs \<Longrightarrow> plain_content cs \<Longrightarrow>
    follows wt ts m plan rest outer out (rebuild_content wt outer cs (ctx, out))"
proof (induction wt outer c and wt outer cs arbitrary: seen prev ctx plan rest out and seen prev ctx plan rest out
    rule: marks_item_marks.induct)
  case (1 wt outer w)
  show ?case
  proof (cases "wt_counts wt w")
    case True
    then obtain tis new where plan: "plan = [((False, wt_cleaned_text wt w), tis, new)]" using 1(2) by auto
    from plan_word [of wt ts m seen prev ctx w tis new rest out outer] 1(1) True plan show ?thesis by simp
  next
    case False
    then have "plan = []" using 1(2) by simp
    moreover have "units wt outer [CtWord w] = []" "plain_content [CtWord w]" using False by simp_all
    ultimately show ?thesis using 1(1) False by fastforce
  qed
next
  case (4 wt outer kind a content)
  show ?case
  proof (cases "\<not> outer \<and> kind = GkGroup")
    case True
    then have "plan = []" using 4(3) by auto
    moreover have "units wt outer [CtGroup kind a content] = []" "plain_content [CtGroup kind a content]"
      using True 4(4) by simp_all
    ultimately show ?thesis using 4(2) True by fastforce
  next
    case False
    have marks: "map fst plan = marks wt False content" using 4(3) False by auto
    have plain: "plain_content content" using 4(4) by simp
    obtain ctx' content' seen' prev' where inner: "rebuild_content wt False content (ctx, []) = (ctx', content')"
      "units wt False content' = concat (map (\<lambda>(mark, tis, new). new) plan)" "plain_content content'"
      "on_plan wt ts m seen' prev' ctx' rest"
      using 4(1) [OF False 4(2) marks plain, of "[]"] by auto
    have "units wt outer [CtGroup kind a content'] = concat (map (\<lambda>(mark, tis, new). new) plan)"
      "plain_content [CtGroup kind a content']"
      using inner(2,3) False by auto
    moreover have "rebuild_item wt outer (CtGroup kind a content) (ctx, out) = (ctx', out @ [CtGroup kind a content'])"
      using inner(1) False by auto
    ultimately show ?thesis using inner(4) by blast
  qed
next
  case (5 wt outer sep)
  show ?case
  proof (cases "wt_tag_marker wt sep")
    case True
    then obtain tis new where plan: "plan = [((True, wt_render wt sep), tis, new)]" using 5(2) by auto
    have p: "new = [wt_render wt sep] \<and> on_plan wt ts m (seen \<union> set tis) None (snd (next_word ctx)) rest"
      using plan_separator [of wt ts m seen prev ctx "wt_render wt sep" tis new rest] 5(1) plan by simp
    moreover have "units wt outer [CtSeparator sep] = [wt_render wt sep]" "plain_content [CtSeparator sep]"
      using True by simp_all
    ultimately show ?thesis using True plan by fastforce
  next
    case False
    then have "plan = []" using 5(2) by simp
    moreover have "units wt outer [CtSeparator sep] = []" "plain_content [CtSeparator sep]" using False by simp_all
    ultimately show ?thesis using 5(1) False by fastforce
  qed
next
  case (6 wt outer x)
  then have "plan = []" by simp
  moreover have "units wt outer [CtOther x] = []" "plain_content [CtOther x]" by simp_all
  ultimately show ?case using 6(1) by fastforce
next
  case (7 wt outer)
  then have "plan = []" by simp
  then show ?case using 7(1) by fastforce
next
  case (8 wt outer c cs)
  then obtain p1 p2 where plan: "plan = p1 @ p2" "map fst p1 = marks_item wt outer c" "map fst p2 = marks wt outer cs"
    by (auto simp: map_eq_append_conv)
  have on: "on_plan wt ts m seen prev ctx (p1 @ p2 @ rest)" using 8(3) plan(1) by simp
  have plain: "plain_item c" "plain_content cs" using 8(5) by simp_all
  obtain ctx1 out1 seen1 prev1 where one: "rebuild_item wt outer c (ctx, out) = (ctx1, out @ out1)"
    "units wt outer out1 = concat (map (\<lambda>(mark, tis, new). new) p1)" "plain_content out1"
    "on_plan wt ts m seen1 prev1 ctx1 (p2 @ rest)"
    using 8(1) [OF on plan(2) plain(1)] by blast
  obtain ctx2 out2 seen2 prev2 where two: "rebuild_content wt outer cs (ctx1, out @ out1) = (ctx2, (out @ out1) @ out2)"
    "units wt outer out2 = concat (map (\<lambda>(mark, tis, new). new) p2)" "plain_content out2"
    "on_plan wt ts m seen2 prev2 ctx2 rest"
    using 8(2) [OF one(4) plan(3) plain(2)] by blast
  have "rebuild_content wt outer (c # cs) (ctx, out) = (ctx2, out @ out1 @ out2)" using one(1) two(1) by simp
  moreover have "units wt outer (out1 @ out2) = concat (map (\<lambda>(mark, tis, new). new) plan)"
    using one(2) two(2) plan(1) by simp
  ultimately show ?case using one(3) two(3,4) plain_append by blast
qed auto

section \<open>Blocks\<close>

type_synonym Block = "bool \<times> rstr list \<times> rstr list"

definition block_words :: "Block list \<Rightarrow> rstr list" where
  "block_words bs = concat (map (\<lambda>(sep, ws, ts). ws) bs)"

definition block_tokens :: "Block list \<Rightarrow> rstr list" where
  "block_tokens bs = concat (map (\<lambda>(sep, ws, ts). ts) bs)"

fun block_ok :: "('w, 'a, 'o) WordTools \<Rightarrow> Block \<Rightarrow> bool" where
  "block_ok wt (sep, ws, ts) \<longleftrightarrow>
     (let normal = map (normalize_alignment_unit (wt_lower wt))
      in ws \<noteq> [] \<and> ts \<noteq> [] \<and> [] \<notin> set (normal ws) \<and> [] \<notin> set (normal ts) \<and>
         concat (normal ws) = concat (normal ts) \<and>
         (if sep then length ws = 1 \<and> ts = ws
          else (length ws = 1 \<or> length ts = 1) \<and> list_all (readable wt) ts))"

fun plan_of :: "nat \<Rightarrow> Block list \<Rightarrow> Step list" where
  "plan_of q [] = []"
| "plan_of q ((sep, ws, ts) # bs) =
     (let tis = [q..<q + length ts]
      in ((sep, hd ws), tis, ts) # map (\<lambda>w. ((sep, w), tis, [])) (tl ws) @ plan_of (q + length ts) bs)"

lemma plan_marks:
  "list_all (block_ok wt) bs \<Longrightarrow> map fst (plan_of q bs) = concat (map (\<lambda>(sep, ws, ts). map (Pair sep) ws) bs)"
proof (induction bs arbitrary: q)
  case (Cons b bs)
  obtain sep ws ts where b: "b = (sep, ws, ts)" by (cases b)
  have "ws \<noteq> []" using Cons.prems b by (simp add: Let_def)
  then have "Pair sep (hd ws) # map (Pair sep) (tl ws) = map (Pair sep) ws" by (cases ws) auto
  then show ?case using Cons by (simp add: b comp_def Let_def)
qed simp

lemma plan_texts: "concat (map (\<lambda>(mark, tis, new). new) (plan_of q bs)) = block_tokens bs"
proof (induction q bs rule: plan_of.induct)
  case (2 q sep ws ts bs)
  have "concat (map (\<lambda>(mark, tis, new). new) (map (\<lambda>w. ((sep, w), tis, [])) us)) = []"
    for us :: "rstr list" and tis :: "nat list"
    by (induction us) auto
  then show ?case using 2 by (simp add: block_tokens_def Let_def)
qed (simp add: block_tokens_def)

lemma plan_ok_repeat:
  assumes "tis \<noteq> []" "set tis \<subseteq> seen" "\<And>prev. plan_ok wt ts seen prev plan"
  shows "plan_ok wt ts seen (Some tis) (map (\<lambda>w. ((False, w), tis, [])) ws @ plan)"
  using assms(2) by (induction ws) (auto simp: assms(1,3) sup_absorb1)

lemma plan_ok_blocks:
  "list_all (block_ok wt) bs \<Longrightarrow> ts = pre @ block_tokens bs \<Longrightarrow> seen \<subseteq> {..<length pre} \<Longrightarrow>
    plan_ok wt ts seen prev (plan_of (length pre) bs)"
proof (induction bs arbitrary: pre seen prev)
  case (Cons b bs)
  obtain sep ws tks where b: "b = (sep, ws, tks)" by (cases b)
  let ?q = "length pre"
  let ?tis = "[?q..<?q + length tks]"
  have ts: "ts = (pre @ tks) @ block_tokens bs" using Cons.prems(2) by (simp add: b block_tokens_def)
  have ok: "ws \<noteq> []" "tks \<noteq> []" using Cons.prems(1) by (auto simp: b Let_def)
  have rest: "plan_ok wt ts (seen \<union> set ?tis) p (plan_of (?q + length tks) bs)" for p
    using Cons.IH [OF _ ts, of "seen \<union> set ?tis" p] Cons.prems(1,3) by fastforce
  have disjoint: "set ?tis \<inter> seen = {}" using Cons.prems(3) by fastforce
  have texts: "map (\<lambda>i. ts ! i) ?tis = tks"
    using ts by (intro nth_equalityI) (auto simp: nth_append)
  show ?case
  proof (cases sep)
    case True
    then have "tl ws = []" "tks = [hd ws]" using Cons.prems(1) ok by (cases ws; auto simp: b Let_def)+
    then show ?thesis using rest True by (simp add: b)
  next
    case False
    have "list_all (readable wt) tks" using Cons.prems(1) False by (simp add: b Let_def)
    then have "list_all (\<lambda>i. readable wt (ts ! i)) ?tis" by (subst (asm) texts [symmetric]) (simp add: list.pred_map comp_def)
    moreover have "?tis \<noteq> []" using ok(2) by simp
    moreover have "plan_ok wt ts (seen \<union> set ?tis) (Some ?tis) (map (\<lambda>w. ((False, w), ?tis, [])) (tl ws) @ plan_of (?q + length tks) bs)"
      by (rule plan_ok_repeat) (use ok(2) rest in auto)
    ultimately show ?thesis using disjoint texts False by (simp add: b Let_def)
  qed
qed simp

lemma ranges_from_append: "ranges_from c (xs @ ys) = ranges_from c xs @ ranges_from (c + length (concat xs)) ys"
  by (induction xs arbitrary: c) (auto simp: add.assoc)

lemma overlaps_middle:
  assumes "\<And>r. r \<in> set pre \<Longrightarrow> snd r \<le> fst w" "\<And>r. r \<in> set post \<Longrightarrow> snd w \<le> fst r"
    and "\<And>r. r \<in> set mid \<Longrightarrow> fst r < snd w \<and> fst w < snd r"
  shows "overlaps (pre @ mid @ post) w = [length pre..<length pre + length mid]"
proof -
  let ?tr = "pre @ mid @ post" and ?P = "\<lambda>r. fst r < snd w \<and> fst w < snd r"
  have split: "[0..<length ?tr] = [0..<length pre] @ [length pre..<length pre + length mid] @ [length pre + length mid..<length ?tr]"
    using upt_add_eq_append [of 0 "length pre + length mid" "length post"] upt_add_eq_append [of 0 "length pre" "length mid"]
    by (simp add: add.assoc)
  have at_pre: "?tr ! j = pre ! j" "pre ! j \<in> set pre" if "j < length pre" for j
    using that by (simp_all add: nth_append)
  have at_mid: "?tr ! j = mid ! (j - length pre)" "mid ! (j - length pre) \<in> set mid"
    if j: "length pre \<le> j" "j < length pre + length mid" for j
    using le_Suc_ex [OF j(1)] j(2) by (auto simp: nth_append)
  have at_post: "?tr ! j = post ! (j - length pre - length mid)" "post ! (j - length pre - length mid) \<in> set post"
    if j: "length pre + length mid \<le> j" "j < length ?tr" for j
    using le_Suc_ex [OF j(1)] j(2) by (auto simp: nth_append)
  have "filter (\<lambda>j. ?P (?tr ! j)) [0..<length pre] = []"
    using assms(1) [OF at_pre(2)] by (simp add: filter_empty_conv at_pre(1) leD)
  moreover have "filter (\<lambda>j. ?P (?tr ! j)) [length pre..<length pre + length mid] = [length pre..<length pre + length mid]"
    using assms(3) [OF at_mid(2)] by (simp add: filter_id_conv at_mid(1))
  moreover have "filter (\<lambda>j. ?P (?tr ! j)) [length pre + length mid..<length ?tr] = []"
    using assms(2) [OF at_post(2)] by (simp add: filter_empty_conv at_post(1) leD)
  ultimately show ?thesis unfolding overlaps_def split by simp
qed

abbreviation normal_texts :: "('w, 'a, 'o) WordTools \<Rightarrow> rstr list \<Rightarrow> rstr list" where
  "normal_texts wt \<equiv> map (normalize_alignment_unit (wt_lower wt))"

lemma block_mapping:
  "list_all (block_ok wt) bs \<Longrightarrow> \<forall>r \<in> set pre. snd r \<le> c \<Longrightarrow>
    map (overlaps (pre @ ranges_from c (normal_texts wt (block_tokens bs)))) (ranges_from c (normal_texts wt (block_words bs))) =
      map (\<lambda>(mark, tis, new). tis) (plan_of (length pre) bs)"
proof (induction bs arbitrary: pre c)
  case (Cons b bs)
  obtain sep ws ts where b: "b = (sep, ws, ts)" by (cases b)
  let ?ws = "normal_texts wt ws" and ?ts = "normal_texts wt ts" and ?q = "length pre"
  let ?c = "c + length (concat ?ts)"
  let ?post = "ranges_from ?c (normal_texts wt (block_tokens bs))"
  have ok: "ws \<noteq> []" "ts \<noteq> []" "[] \<notin> set ?ws" "[] \<notin> set ?ts" "concat ?ws = concat ?ts" "length ws = 1 \<or> length ts = 1"
    using Cons.prems(1) by (auto simp: b Let_def split: if_splits)
  have ranges: "ranges_from c (normal_texts wt (block_tokens (b # bs))) = ranges_from c ?ts @ ?post"
    "ranges_from c (normal_texts wt (block_words (b # bs))) = ranges_from c ?ws @ ranges_from ?c (normal_texts wt (block_words bs))"
    using ok(5) by (simp_all add: b block_tokens_def block_words_def ranges_from_append)
  have first: "overlaps (pre @ ranges_from c ?ts @ ?post) w = [?q..<?q + length ts]" if w: "w \<in> set (ranges_from c ?ws)" for w
  proof -
    have bounds: "c \<le> fst w" "fst w < snd w" "snd w \<le> ?c"
      using ranges_from_bounds [OF w] ranges_from_proper [OF w ok(3)] ok(5) by auto
    have whole: "fst r < snd w \<and> fst w < snd r" if r: "r \<in> set (ranges_from c ?ts)" for r
    proof -
      have rb: "c \<le> fst r" "fst r < snd r" "snd r \<le> ?c"
        using ranges_from_bounds [OF r] ranges_from_proper [OF r ok(4)] by auto
      show ?thesis
      proof (cases "length ws = 1")
        case True
        then obtain x where "ws = [x]" by (cases ws) auto
        then have "fst w = c" "snd w = ?c" using w ok(5) by auto
        then show ?thesis using rb by auto
      next
        case False
        then obtain x where "ts = [x]" using ok(6) by (cases ts) auto
        then have "fst r = c" "snd r = ?c" using r by auto
        then show ?thesis using bounds by auto
      qed
    qed
    have "overlaps (pre @ ranges_from c ?ts @ ?post) w = [?q..<?q + length (ranges_from c ?ts)]"
      by (rule overlaps_middle) (use Cons.prems(2) bounds whole ranges_from_bounds in fastforce)+
    then show ?thesis by simp
  qed
  have firsts: "map (overlaps (pre @ ranges_from c ?ts @ ?post)) (ranges_from c ?ws) = replicate (length ws) [?q..<?q + length ts]"
    using first by (intro nth_equalityI) auto
  have before: "\<forall>r \<in> set (pre @ ranges_from c ?ts). snd r \<le> ?c"
    using Cons.prems(2) ranges_from_bounds by fastforce
  have rest: "map (overlaps (pre @ ranges_from c ?ts @ ?post)) (ranges_from ?c (normal_texts wt (block_words bs))) =
      map (\<lambda>(mark, tis, new). tis) (plan_of (?q + length ts) bs)"
    using Cons.IH [OF _ before] Cons.prems(1) by simp
  have "replicate (length ws) [?q..<?q + length ts] = [?q..<?q + length ts] # map (\<lambda>w. [?q..<?q + length ts]) (tl ws)"
    using ok(1) by (cases ws) (simp_all add: map_replicate_const)
  then show ?case
    unfolding ranges using firsts rest by (simp add: b comp_def Let_def)
qed (simp add: block_tokens_def block_words_def)

section \<open>Exact retokenization\<close>

lemma nonempty_blocks:
  assumes "list_all (block_ok wt) bs" "bs \<noteq> []"
  shows "block_words bs \<noteq> []" "block_tokens bs \<noteq> []"
    "[] \<notin> set (normal_texts wt (block_words bs))" "[] \<notin> set (normal_texts wt (block_tokens bs))"
    "concat (normal_texts wt (block_words bs)) = concat (normal_texts wt (block_tokens bs))"
proof -
  show "block_words bs \<noteq> []" "block_tokens bs \<noteq> []"
    using assms by (cases bs; auto simp: block_words_def block_tokens_def Let_def)+
  show "[] \<notin> set (normal_texts wt (block_words bs))" "[] \<notin> set (normal_texts wt (block_tokens bs))"
    "concat (normal_texts wt (block_words bs)) = concat (normal_texts wt (block_tokens bs))"
    using assms(1) by (induction bs) (auto simp: block_words_def block_tokens_def Let_def)
qed

text \<open>
  C22: Suppose that words and tokens fall into blocks with the same letters, one word cut into tokens or
  words joined to one token, that every token can be read as a word with a \<open>%mor\<close> item, that there is
  one item for every token, and that no word stands inside an annotation or a replacement. Then the
  words of the new content are exactly the tokens, each once and in order, and both tiers are added.
\<close>

theorem retokenization_exact:
  assumes "plain_content (tu_content u)" "\<And>c. plain_content c \<Longrightarrow> words_agree wt c"
    and "marks wt True (tu_content u) = concat (map (\<lambda>(sep, ws, ts). map (Pair sep) ws) bs)"
    and "list_all (block_ok wt) bs" "bs \<noteq> []" "length mors = length (block_tokens bs)" "gras \<noteq> []"
  shows "\<exists>content. units wt True content = block_tokens bs \<and> plain_content content \<and>
    retokenize_utterance wt u (collect_utterance_content wt (tu_content u)) (block_tokens bs) mors terminator gras =
      (u\<lparr>tu_content := content,
         tu_tiers := put_tier (put_tier (tu_tiers u) (TierMor mors terminator)) (TierGra gras)\<rparr>, None)"
proof -
  let ?words = "collect_utterance_content wt (tu_content u)" and ?ts = "block_tokens bs"
  have texts: "map xw_text ?words = block_words bs"
    using assms(1-3) units_marks(2) [of "tu_content u" wt True]
    by (simp add: words_agree_def block_words_def map_concat comp_def case_prod_unfold)
  let ?ctx = "retokenize_context wt ?words ?ts (length mors) terminator"
  note facts = nonempty_blocks [OF assms(4,5)]
  have mapping: "rc_mapping ?ctx = map (\<lambda>(mark, tis, new). tis) (plan_of 0 bs)"
    using deterministic_overlaps [OF facts(1,2) refl refl facts(3-5)] block_mapping [OF assms(4), of "[]" 0]
    by (simp add: retokenize_context_def texts build_word_token_mapping_def)
  have "plan_ok wt ?ts {} None (plan_of 0 bs)"
    using plan_ok_blocks [OF assms(4), of ?ts "[]" "{}" None] by simp
  then have "on_plan wt ?ts (rc_mapping ?ctx) {} None ?ctx (plan_of 0 bs @ [])"
    using mapping by (simp add: on_plan_def retokenize_context_def)
  moreover have "map fst (plan_of 0 bs) = marks wt True (tu_content u)" using plan_marks [OF assms(4)] assms(3) by simp
  ultimately obtain ctx content where walk: "rebuild_content wt True (tu_content u) (?ctx, []) = (ctx, [] @ content)"
    "units wt True content = ?ts" "plain_content content" "rc_diagnostics ctx = []"
    using plan_content(2) [of wt ?ts "rc_mapping ?ctx" "{}" None ?ctx "plan_of 0 bs" "[]" True "tu_content u" "[]"] assms(1)
    by (auto simp: plan_texts on_plan_def)
  have "length (collect_utterance_content wt content) = length mors"
    using assms(2) [OF walk(3)] walk(2) assms(6) by (metis words_agree_def length_map)
  moreover have "?words \<noteq> []" using texts facts(1) by auto
  moreover have "mors \<noteq> []" using facts(2) assms(6) by auto
  ultimately show ?thesis
    using walk facts(2) assms(7)
    by (intro exI [of _ content]) (simp add: retokenize_utterance_def inject_morphosyntax_def)
qed

end
