(* ===== verification/Realign_Correct.thy ===== *)
theory Realign_Correct
  imports Realign
begin

text \<open>
  What the realignment of tokens guarantees: the text is kept, and where the tokens of every word are
  known the result is one token for each word.
\<close>

section \<open>From words to tokens\<close>

fun chop :: "nat list \<Rightarrow> 'a list \<Rightarrow> 'a list list" where
  "chop [] xs = []"
| "chop (n # ns) xs = take n xs # chop ns (drop n xs)"

lemma concat_chop: "sum_list ns = length xs \<Longrightarrow> concat (chop ns xs) = xs"
  by (induction ns xs rule: chop.induct) auto

definition push_new :: "'a list \<Rightarrow> 'a \<Rightarrow> 'a list" where
  "push_new acc t = (if acc \<noteq> [] \<and> last acc = t then acc else acc @ [t])"

lemma remdups_adj_snoc: "remdups_adj (xs @ [y]) = push_new (remdups_adj xs) y"
  by (induction xs rule: remdups_adj.induct) (auto simp: push_new_def)

lemma foldl_push_new: "foldl push_new (remdups_adj acc) xs = remdups_adj (acc @ xs)"
proof (induction xs arbitrary: acc)
  case (Cons x xs)
  show ?case using Cons [of "acc @ [x]"] by (simp add: remdups_adj_snoc)
qed simp

lemma note_block:
  "k < length m \<Longrightarrow> length ys = n \<Longrightarrow>
    foldl note_token m (zip (replicate n k) ys) = m[k := foldl push_new (m ! k) ys]"
proof (induction ys arbitrary: m n)
  case (Cons y ys)
  then obtain n' where n: "n = Suc n'" by (cases n) auto
  have "note_token m (k, y) = m[k := push_new (m ! k) y]"
    by (auto simp: note_token_def push_new_def)
  then show ?case using Cons.prems Cons.IH [of "m[k := push_new (m ! k) y]" n'] by (simp add: n)
qed simp

lemma note_blocks:
  assumes "sum_list (map length ws) = length ts" "length done_words = k"
  shows "foldl note_token (done_words @ replicate (length ws) []) (zip (char_owners k ws) ts) =
    done_words @ map remdups_adj (chop (map length ws) ts)"
  using assms
proof (induction ws arbitrary: ts k done_words)
  case (Cons w ws)
  let ?n = "length w"
  let ?m = "done_words @ replicate (length (w # ws)) []"
  have split: "zip (char_owners k (w # ws)) ts =
      zip (replicate ?n k) (take ?n ts) @ zip (char_owners (Suc k) ws) (drop ?n ts)"
    using Cons.prems(1) by (subst zip_append [symmetric]) (simp_all add: append_take_drop_id)
  have first: "foldl note_token ?m (zip (replicate ?n k) (take ?n ts)) =
      (done_words @ [remdups_adj (take ?n ts)]) @ replicate (length ws) []"
    using Cons.prems foldl_push_new [of "[]" "take ?n ts"]
    by (subst note_block) (simp_all add: list_update_append nth_append)
  show ?case
    using Cons.IH [of "drop ?n ts" "done_words @ [remdups_adj (take ?n ts)]" "Suc k"] Cons.prems
    by (simp only: split foldl_append first) simp
qed simp

lemma length_char_owners: "length (char_owners k ss) = length (concat ss)"
  by (induction ss arbitrary: k) auto

lemma word_to_tokens_blocks:
  assumes "length (concat cleaned) = length (concat tokens)"
  shows "word_to_tokens cleaned tokens =
    map remdups_adj (chop (map length cleaned) (char_owners 0 tokens))"
  using note_blocks [of cleaned "char_owners 0 tokens" "[]" 0] assms
  by (simp add: word_to_tokens_def length_char_owners length_concat)

section \<open>Sorted owners\<close>

lemma set_char_owners: "set (char_owners k ss) = {i. k \<le> i \<and> i < k + length ss \<and> ss ! (i - k) \<noteq> []}"
proof (induction ss arbitrary: k)
  case (Cons s ss)
  have "set (char_owners k (s # ss)) = (if s = [] then {} else {k}) \<union> set (char_owners (Suc k) ss)"
    by simp
  also have "\<dots> = {i. k \<le> i \<and> i < k + length (s # ss) \<and> (s # ss) ! (i - k) \<noteq> []}"
    unfolding Cons.IH by (auto simp: nth_Cons' Suc_le_eq)
  finally show ?case .
qed simp

lemma sorted_char_owners: "sorted (char_owners k ss)"
  by (induction ss arbitrary: k) (auto simp: sorted_append set_char_owners)

lemma remdups_adj_sorted: "sorted (xs :: nat list) \<Longrightarrow> sorted (remdups_adj xs) \<and> distinct (remdups_adj xs)"
  by (induction xs rule: remdups_adj.induct) auto

lemma remdups_adj_unique:
  assumes "sorted xs" "sorted ys" "distinct ys" "set xs = set (ys :: nat list)"
  shows "remdups_adj xs = ys"
  using assms remdups_adj_sorted [of xs] by (intro sorted_distinct_set_unique) auto

lemma remdups_adj_append_new:
  assumes "sorted (xs @ ys :: nat list)"
  shows "remdups_adj (xs @ ys) = remdups_adj xs @ filter (\<lambda>i. i \<notin> set xs) (remdups_adj ys)"
proof (rule remdups_adj_unique)
  have s: "sorted xs" "sorted ys" "\<And>x y. x \<in> set xs \<Longrightarrow> y \<in> set ys \<Longrightarrow> x \<le> y"
    using assms by (auto simp: sorted_append)
  show "sorted (remdups_adj xs @ filter (\<lambda>i. i \<notin> set xs) (remdups_adj ys))"
    using s remdups_adj_sorted [of xs] remdups_adj_sorted [of ys]
    by (auto simp: sorted_append intro: sorted_filter [where f = id, simplified])
  show "distinct (remdups_adj xs @ filter (\<lambda>i. i \<notin> set xs) (remdups_adj ys))"
    using s remdups_adj_sorted [of xs] remdups_adj_sorted [of ys] by auto
qed (use assms in auto)

section \<open>The text is kept\<close>

lemma set_marks: "length (fold (\<lambda>i s. s[i := True]) us seen) = length seen"
  "i < length seen \<Longrightarrow> fold (\<lambda>i s. s[i := True]) us seen ! i \<longleftrightarrow> seen ! i \<or> i \<in> set us"
proof (induction us arbitrary: seen)
  case (Cons a us)
  case 2
  then show ?case using Cons.IH(2) [of "seen[a := True]"] by (cases "i = a") auto
qed auto

definition merged_so_far :: "rstr list \<Rightarrow> nat list \<Rightarrow> bool list \<times> PatchedToken list \<Rightarrow> bool" where
  "merged_so_far tokens owners = (\<lambda>(seen, out).
     length seen = length tokens \<and> (\<forall>i < length tokens. seen ! i \<longleftrightarrow> i \<in> set owners) \<and>
     concat (map token_text out) = concat (map (\<lambda>i. tokens ! i) (remdups_adj owners)))"

lemma merge_word_step:
  assumes "merged_so_far tokens owners (seen, out)" "sorted (owners @ block)" "\<forall>i \<in> set block. i < length tokens"
  shows "merged_so_far tokens (owners @ block) (merge_word un lang tokens (seen, out) (remdups_adj block))"
proof -
  have seen: "length seen = length tokens" "\<And>i. i < length tokens \<Longrightarrow> seen ! i \<longleftrightarrow> i \<in> set owners"
    and out: "concat (map token_text out) = concat (map (\<lambda>i. tokens ! i) (remdups_adj owners))"
    using assms(1) by (auto simp: merged_so_far_def)
  have unseen: "filter (\<lambda>i. \<not> seen ! i) (remdups_adj block) = filter (\<lambda>i. i \<notin> set owners) (remdups_adj block)"
    using assms(3) seen(2) by (intro filter_cong) auto
  let ?us = "filter (\<lambda>i. i \<notin> set owners) (remdups_adj block)"
  have adj: "remdups_adj (owners @ block) = remdups_adj owners @ ?us"
    using assms(2) by (rule remdups_adj_append_new)
  have members: "set (owners @ block) = set owners \<union> set ?us" by auto
  show ?thesis
  proof (cases "?us = []")
    case True
    then show ?thesis
      using seen out adj members
      by (auto simp: merged_so_far_def merge_word_def unseen Let_def)
  next
    case False
    have kept: "token_text (if length ?us = 1 then PtPlain (tokens ! hd ?us)
        else PtHint (concat (map (\<lambda>i. tokens ! i) ?us)) b) = concat (map (\<lambda>i. tokens ! i) ?us)" for b
      using False by (cases ?us) auto
    show ?thesis
      using False seen out adj members kept
      by (auto simp: merged_so_far_def merge_word_def unseen Let_def set_marks)
  qed
qed

lemma merge_words_text:
  assumes "merged_so_far tokens owners s" "sorted (owners @ concat blocks)"
    and "\<forall>i \<in> set (concat blocks). i < length tokens"
  shows "merged_so_far tokens (owners @ concat blocks)
    (foldl (merge_word un lang tokens) s (map remdups_adj blocks))"
  using assms
proof (induction blocks arbitrary: owners s)
  case (Cons b blocks)
  obtain seen out where s: "s = (seen, out)" by (cases s)
  have "merged_so_far tokens (owners @ b) (merge_word un lang tokens s (remdups_adj b))"
    using Cons.prems unfolding s by (intro merge_word_step) (auto simp: sorted_append)
  from Cons.IH [OF this] show ?case using Cons.prems by simp
qed simp

lemma owners_text: "concat (map (\<lambda>i. tokens ! i) (remdups_adj (char_owners 0 tokens))) = concat tokens"
proof -
  have "remdups_adj (char_owners 0 tokens) = filter (\<lambda>i. tokens ! i \<noteq> []) [0..<length tokens]"
    by (rule remdups_adj_unique)
      (auto simp: sorted_char_owners set_char_owners intro: sorted_filter [where f = id, simplified])
  moreover have "concat (map f (filter (\<lambda>i. f i \<noteq> []) js)) = concat (map f js)" for f :: "nat \<Rightarrow> rstr" and js
    by (induction js) auto
  ultimately show ?thesis by (simp add: map_nth)
qed

lemma merge_tokens_text:
  assumes "length (concat cleaned) = length (concat tokens)"
  shows "concat (map token_text (merge_tokens un lang tokens (word_to_tokens cleaned tokens))) = concat tokens"
proof -
  let ?blocks = "chop (map length cleaned) (char_owners 0 tokens)"
  let ?res = "foldl (merge_word un lang tokens) (replicate (length tokens) False, []) (map remdups_adj ?blocks)"
  obtain seen out where res: "?res = (seen, out)" by (cases ?res)
  have blocks: "concat ?blocks = char_owners 0 tokens"
    using assms by (intro concat_chop) (simp add: length_char_owners length_concat)
  have "merged_so_far tokens ([] @ concat ?blocks) ?res"
    by (rule merge_words_text) (auto simp: blocks merged_so_far_def sorted_char_owners set_char_owners)
  then have seen: "\<And>i. i < length tokens \<Longrightarrow> seen ! i \<longleftrightarrow> i \<in> set (char_owners 0 tokens)"
    and kept: "concat (map token_text out) = concat tokens"
    by (auto simp: res blocks merged_so_far_def owners_text)
  have "concat (map (\<lambda>i. tokens ! i) (filter (\<lambda>i. \<not> seen ! i) [0..<length tokens])) = []"
    by (auto simp: seen set_char_owners)
  then show ?thesis
    using kept by (simp add: merge_tokens_def word_to_tokens_blocks [OF assms] res comp_def)
qed

section \<open>Rules of the languages\<close>

lemma split_elision_text:
  assumes "39 \<in> set s"
  shows "concat (map token_text (split_elision s)) = s"
proof -
  obtain a b where s: "s = a @ 39 # b" "39 \<notin> set a" using assms by (meson split_list_first)
  then have "takeWhile (\<lambda>c. c \<noteq> 39) s = a" by (auto simp: takeWhile_append)
  then show ?thesis by (simp add: split_elision_def Let_def s(1))
qed

lemma clitic_parts_text: "concat (map token_text (clitic_parts parts)) = join_with [39] parts"
  by (induction parts rule: clitic_parts.induct) auto

definition keeps_case :: "Unicode \<Rightarrow> PatchedToken \<Rightarrow> bool" where
  "keeps_case un tok \<longleftrightarrow>
     (let word = lit ''aujourd'' @ [39] @ lit ''hui'' in un_lower un (token_text tok) = word \<longrightarrow> token_text tok = word)"

lemma patched_text:
  assumes "alpha2 \<noteq> lit ''fr'' \<or> keeps_case un tok"
  shows "concat (map token_text (patched un alpha2 (fst (patches_for_lang alpha2)) tok)) = token_text tok"
proof -
  have many: "is_french_multi_clitic t \<Longrightarrow> concat (map token_text (clitic_parts (split_char 39 t))) = t" for t
    by (simp add: clitic_parts_text join_split_char)
  have elided: "is_french_elision un t \<Longrightarrow> concat (map token_text (split_elision t)) = t" for t
    by (rule split_elision_text) (simp add: is_french_elision_def)
  show ?thesis
    using assms
    by (auto simp: patched_def Let_def patches_for_lang_def french_patches_def italian_patches_def
        portuguese_patches_def dutch_patches_def keeps_case_def many elided)
qed

lemma no_merge_text:
  assumes "alpha2 \<noteq> lit ''it''" "alpha2 = lit ''fr'' \<Longrightarrow> list_all (keeps_case un) tokens"
  shows "concat (map token_text (foldl (patch_token un alpha2 (fst (patches_for_lang alpha2)) []) out tokens)) =
    concat (map token_text out) @ concat (map token_text tokens)"
  using assms(2)
proof (induction tokens arbitrary: out)
  case (Cons tok tokens)
  have "alpha2 \<noteq> lit ''fr'' \<or> keeps_case un tok" using Cons.prems by auto
  from patched_text [OF this] show ?case
    using Cons by (simp add: patch_token_def merge_rule_def)
qed simp

lemma mwt_patches_text:
  assumes "alpha2 \<noteq> lit ''it''" "alpha2 = lit ''fr'' \<Longrightarrow> list_all (keeps_case un) tokens"
  shows "concat (map token_text (apply_mwt_patches un tokens alpha2)) = concat (map token_text tokens)"
proof -
  have "snd (patches_for_lang alpha2) = []" using assms(1) by (simp add: patches_for_lang_def)
  then show ?thesis
    using no_merge_text [OF assms, of "[]"] by (cases "patches_for_lang alpha2") (simp add: apply_mwt_patches_def)
qed

text \<open>
  Realignment neither loses nor adds a character: the texts of the result, joined, are the texts of
  the tokenizer. French needs that no spelling of \<open>aujourd'hui\<close> has capitals; Italian is left out.
\<close>

theorem realignment_keeps_text:
  assumes "alpha2 \<noteq> lit ''it''"
    and "alpha2 = lit ''fr'' \<Longrightarrow> list_all (keeps_case un)
      (merge_tokens un alpha2 stanza_tokens (word_to_tokens (map strip_parens original_words) stanza_tokens))"
  shows "concat (map token_text (align_tokens un original_words stanza_tokens alpha2)) = concat stanza_tokens"
proof (cases "concat (map strip_parens original_words) = concat stanza_tokens")
  case True
  from merge_tokens_text [of "map strip_parens original_words"] True show ?thesis
    by (simp add: align_tokens_def Let_def comp_def mwt_patches_text [OF assms])
qed (simp add: align_tokens_def comp_def)

section \<open>One token for every word\<close>

fun intervals :: "nat \<Rightarrow> nat list \<Rightarrow> nat list list" where
  "intervals k [] = []"
| "intervals k (n # ns) = [k..<k + n] # intervals (k + n) ns"

lemma char_owners_append: "char_owners k (xs @ ys) = char_owners k xs @ char_owners (k + length xs) ys"
  by (induction xs arbitrary: k) auto

lemma owners_of_group: "[] \<notin> set group_tokens \<Longrightarrow> remdups_adj (char_owners k group_tokens) = [k..<k + length group_tokens]"
  by (rule remdups_adj_unique) (auto simp: sorted_char_owners set_char_owners in_set_conv_nth)

lemma chop_groups:
  "[] \<notin> set (concat groups) \<Longrightarrow>
    map remdups_adj (chop (map length (map concat groups)) (char_owners k (concat groups))) =
      intervals k (map length groups)"
proof (induction groups arbitrary: k)
  case (Cons g groups)
  then show ?case
    using length_char_owners [of k g] by (simp add: char_owners_append owners_of_group)
qed simp

definition merged_group :: "Unicode \<Rightarrow> rstr \<Rightarrow> rstr list \<Rightarrow> PatchedToken" where
  "merged_group un alpha2 ts =
     (if length ts = 1 then PtPlain (hd ts) else PtHint (concat ts) (is_contraction un (concat ts) alpha2))"

lemma map_nth_interval: "map (\<lambda>i. (xs @ ys @ zs) ! i) [length xs..<length xs + length ys] = ys"
  by (rule nth_equalityI) (auto simp: nth_append)

lemma merge_groups:
  assumes "tokens = ready @ concat groups" "length seen = length tokens" "[] \<notin> set groups"
    and "\<And>i. i < length tokens \<Longrightarrow> seen ! i \<longleftrightarrow> i < length ready"
  shows "\<exists>seen'. foldl (merge_word un alpha2 tokens) (seen, out) (intervals (length ready) (map length groups)) =
      (seen', out @ map (merged_group un alpha2) groups) \<and> (\<forall>i < length tokens. seen' ! i)"
  using assms
proof (induction groups arbitrary: ready seen out)
  case (Cons g groups)
  define js where "js = [length ready..<length ready + length g]"
  have unseen: "filter (\<lambda>i. \<not> seen ! i) js = js"
    using Cons.prems by (auto simp: filter_id_conv js_def)
  have g: "map (\<lambda>i. tokens ! i) js = g"
    using map_nth_interval [of ready g "concat groups"] Cons.prems(1) by (simp add: js_def)
  have "g \<noteq> []" using Cons.prems(3) by auto
  then have first: "tokens ! hd js = hd g"
    using Cons.prems(1) by (simp add: js_def upt_rec nth_append hd_conv_nth)
  have len: "length js = length g" "js \<noteq> []" using \<open>g \<noteq> []\<close> by (auto simp: js_def)
  let ?seen = "fold (\<lambda>i s. s[i := True]) js seen"
  have step: "merge_word un alpha2 tokens (seen, out) js = (?seen, out @ [merged_group un alpha2 g])"
    using len first by (simp add: merge_word_def Let_def merged_group_def unseen g)
  have "\<And>i. i < length tokens \<Longrightarrow> ?seen ! i \<longleftrightarrow> i < length (ready @ g)"
    using Cons.prems by (auto simp: set_marks js_def)
  then show ?case
    using Cons.IH [of "ready @ g" ?seen "out @ [merged_group un alpha2 g]"] Cons.prems step
    by (simp add: set_marks js_def)
qed simp

lemma intervals_single:
  "list_all (\<lambda>toks. length toks = 1) (intervals k (map length groups)) \<longleftrightarrow> list_all (\<lambda>ts. length ts = 1) groups"
  by (induction groups arbitrary: k) auto

lemma singletons: "list_all (\<lambda>ts. length ts = 1) groups \<Longrightarrow> map (merged_group un alpha2) groups = map PtPlain (concat groups)"
  by (induction groups) (auto simp: merged_group_def length_Suc_conv)

text \<open>
  C29: If the tokens of the tokenizer are the words of the transcript, each cut into one or more tokens,
  the result has exactly one token for every word: the token of a word that was not cut, without a
  hint, and the joined tokens of a word that was cut, marked for expansion when it is an English
  contraction. (For a language without rules of its own.)
\<close>

theorem realignment_restores_words:
  assumes "map concat groups = map strip_parens original_words"
    and "[] \<notin> set (concat groups)" "[] \<notin> set groups"
    and "patches_for_lang alpha2 = ([], [])"
  shows "align_tokens un original_words (concat groups) alpha2 = map (merged_group un alpha2) groups"
proof (cases "original_words = []")
  case False
  have len: "length (concat (map strip_parens original_words)) = length (concat (concat groups))"
    unfolding assms(1) [symmetric] by (induction groups) auto
  have same: "concat (map strip_parens original_words) = concat (concat groups)"
    unfolding assms(1) [symmetric] by (induction groups) auto
  have words: "word_to_tokens (map strip_parens original_words) (concat groups) = intervals 0 (map length groups)"
    using word_to_tokens_blocks [OF len] chop_groups [OF assms(2), of 0]
    by (simp flip: assms(1))
  have plain: "alpha2 \<noteq> lit ''fr''" using assms(4) by (auto simp: patches_for_lang_def french_patches_def)
  have merged: "merge_tokens un alpha2 (concat groups) (intervals 0 (map length groups)) = map (merged_group un alpha2) groups"
  proof (cases "list_all (\<lambda>ts. length ts = 1) groups")
    case True
    then show ?thesis
      by (simp only: merge_tokens_def intervals_single if_True singletons [OF True])
  next
    case False
    obtain seen where seen:
      "foldl (merge_word un alpha2 (concat groups)) (replicate (length (concat groups)) False, [])
          (intervals 0 (map length groups)) = (seen, map (merged_group un alpha2) groups)"
      "\<forall>i < length (concat groups). seen ! i"
      using merge_groups [of "concat groups" "[]" groups "replicate (length (concat groups)) False" un alpha2 "[]"] assms(3)
      by (simp add: length_concat) blast
    have "filter (\<lambda>i. \<not> seen ! i) [0..<length (concat groups)] = []" using seen(2) by auto
    then show ?thesis
      using False by (simp only: merge_tokens_def intervals_single seen(1) if_False) simp
  qed
  have "concat groups \<noteq> []" using False assms(1,3) by (cases groups) auto
  then show ?thesis
    using False same plain
    by (auto simp: align_tokens_def apply_mwt_patches_def assms(4) words merged Let_def)
qed (use assms(1) in \<open>simp add: align_tokens_def\<close>)

end
