(* ===== verification/Retok_Cases.thy ===== *)
theory Retok_Cases
  imports Retok_Exact Realign_Correct
begin

text \<open>
  What retokenization keeps in every case, and utterances that it corrupts: a token that crosses a word
  boundary is put in twice, the second token of an annotated word is lost, and in both cases the tiers
  are refused after the words have been changed. Examples of the other theorems are at the end.
\<close>

section \<open>What is kept\<close>

text \<open>The content without its words: annotations, groups, separators that are no words, other items.\<close>

fun skeleton_item :: "('w, 'a, 'o) WordTools \<Rightarrow> ('w, 'a, 'o) Content \<Rightarrow> (unit, 'a, 'o) Content list"
and skeleton :: "('w, 'a, 'o) WordTools \<Rightarrow> ('w, 'a, 'o) Content list \<Rightarrow> (unit, 'a, 'o) Content list" where
  "skeleton_item wt (CtWord w) = []"
| "skeleton_item wt (CtAnnotated w a) = [CtAnnotated () a]"
| "skeleton_item wt (CtReplaced w ws a) = [CtReplaced () (map (\<lambda>w. ()) ws) a]"
| "skeleton_item wt (CtGroup kind a content) = [CtGroup kind a (skeleton wt content)]"
| "skeleton_item wt (CtSeparator sep) = (if wt_tag_marker wt sep then [] else [CtSeparator sep])"
| "skeleton_item wt (CtOther x) = [CtOther x]"
| "skeleton wt [] = []"
| "skeleton wt (c # cs) = skeleton_item wt c @ skeleton wt cs"

lemma skeleton_append [simp]: "skeleton wt (xs @ ys) = skeleton wt xs @ skeleton wt ys"
  by (induction xs) auto

definition marks_new_separators :: "('w, 'a, 'o) WordTools \<Rightarrow> bool" where
  "marks_new_separators wt \<longleftrightarrow> wt_tag_marker wt SepComma \<and> wt_tag_marker wt SepTag \<and> wt_tag_marker wt SepVocative"

lemma skeleton_token:
  assumes "marks_new_separators wt" "try_parse_token_as_content wt t e ds = (Some c, ds')"
  shows "skeleton_item wt c = []"
  using assms
  by (auto simp: try_parse_token_as_content_def separator_of_text_def marks_new_separators_def
      split: option.splits if_splits prod.splits bool.splits)

lemma skeleton_emit:
  "marks_new_separators wt \<Longrightarrow> skeleton wt (snd (emit_tokens wt idx single w tis ctx out)) = skeleton wt out"
proof (induction wt idx single w tis ctx out rule: emit_tokens.induct)
  case (2 wt idx single w ti tis ctx out)
  show ?case
    using 2 skeleton_token [OF 2(2)]
    by (auto simp: Let_def split: prod.splits option.splits)
qed simp

lemma skeleton_word:
  "marks_new_separators wt \<Longrightarrow> skeleton wt (snd (handle_word_retokenize wt w ctx out)) = skeleton wt out"
  by (auto simp: handle_word_retokenize_def skeleton_emit split: option.splits prod.splits)

lemma length_replacement: "length (snd (retokenize_replacement wt ws ctx)) = length ws"
proof (induction ws arbitrary: ctx)
  case (Cons w ws)
  then show ?case by (simp split: prod.split) (metis snd_conv)
qed simp

lemma skeleton_rebuild:
  "marks_new_separators wt \<Longrightarrow> skeleton wt (snd (rebuild_item wt outer c (ctx, out))) = skeleton wt (out @ [c])"
  "marks_new_separators wt \<Longrightarrow> skeleton wt (snd (rebuild_content wt outer cs (ctx, out))) = skeleton wt (out @ cs)"
proof (induction wt outer c "(ctx, out)" and wt outer cs "(ctx, out)" arbitrary: ctx out and ctx out
    rule: rebuild_item_rebuild_content.induct)
  case (3 wt outer w ws a ctx out)
  show ?case
    using length_replacement [of wt ws ctx]
    by (auto split: prod.splits simp: map_replicate_const)
next
  case (4 wt outer kind a content ctx out)
  then show ?case by (auto split: prod.splits)
next
  case (8 wt outer c cs ctx out)
  obtain ctx' out' where r: "rebuild_item wt outer c (ctx, out) = (ctx', out')" by fastforce
  have "skeleton wt out' = skeleton wt (out @ [c])" using 8(1) [OF 8(3)] r by simp
  then show ?case using 8(2) [OF r 8(3)] r by simp
qed (auto simp: skeleton_word split: prod.splits)

text \<open>
  Whatever the tokens are, retokenization keeps everything but the words: annotations with their
  number of words, groups with their nesting, events, pauses and other separators stay, in order.
\<close>

theorem retokenization_keeps_the_rest:
  assumes "marks_new_separators wt"
  shows "skeleton wt (tu_content (fst (retokenize_utterance wt u words ts mors terminator gras))) =
    skeleton wt (tu_content u)"
proof -
  obtain ctx content where r: "rebuild_content wt True (tu_content u)
      (retokenize_context wt words ts (length mors) terminator, []) = (ctx, content)" by fastforce
  have "skeleton wt content = skeleton wt (tu_content u)"
    using skeleton_rebuild(2) [OF assms, of True "tu_content u" "retokenize_context wt words ts (length mors) terminator" "[]"] r
    by simp
  then show ?thesis by (simp add: retokenize_utterance_def inject_morphosyntax_def r Let_def)
qed

section \<open>Corrupted utterances\<close>

lemma collected_length: "words_agree wt c \<Longrightarrow> length (collect_utterance_content wt c) = length (units wt True c)"
  by (metis words_agree_def length_map)

lemma overlaps_two:
  "overlaps [r, r'] w = (if fst r < snd w \<and> fst w < snd r then [0] else []) @
     (if fst r' < snd w \<and> fst w < snd r' then [1] else [])"
  by (simp add: overlaps_def upt_rec)

text \<open>
  C25: Two words, two tokens, and the first token reaches into the second word. It is put in for the first
  word, and again for the second, which is not skipped because its other token is new. The result has
  three words for two items, so that the tiers are refused; the wrong words stay.
\<close>

theorem crossing_token_is_doubled:
  assumes "tu_content u = [CtWord v, CtWord w]" "wt_counts wt v" "wt_counts wt w"
    and "\<And>c. plain_content c \<Longrightarrow> words_agree wt c"
    and "readable wt s" "readable wt t" "length mors = 2"
    and "concat (normal_texts wt [wt_cleaned_text wt v, wt_cleaned_text wt w]) = concat (normal_texts wt [s, t])"
    and "[] \<notin> set (normal_texts wt [wt_cleaned_text wt v, wt_cleaned_text wt w, s, t])"
    and "length (normalize_alignment_unit (wt_lower wt) (wt_cleaned_text wt v)) <
      length (normalize_alignment_unit (wt_lower wt) s)"
  shows "\<exists>content. retokenize_utterance wt u (collect_utterance_content wt (tu_content u)) [s, t] mors terminator gras =
      (u\<lparr>tu_content := content\<rparr>, Some (MorCountMismatch 2 3)) \<and> units wt True content = [s, s, t]"
proof -
  let ?words = "collect_utterance_content wt (tu_content u)"
  let ?ctx = "retokenize_context wt ?words [s, t] (length mors) terminator"
  let ?n = "normalize_alignment_unit (wt_lower wt)"
  have texts: "map xw_text ?words = [wt_cleaned_text wt v, wt_cleaned_text wt w]"
    using assms(1-3) assms(4) [of "tu_content u"] by (simp add: words_agree_def)
  have len: "length (?n (wt_cleaned_text wt v)) + length (?n (wt_cleaned_text wt w)) = length (?n s) + length (?n t)"
    using arg_cong [OF assms(8), of length] by simp
  have pos: "0 < length (?n (wt_cleaned_text wt v))" "0 < length (?n t)" using assms(9) by auto
  have "try_deterministic_word_token_mapping (wt_lower wt) (map xw_text ?words) [s, t] = Some [[0], [0, 1]]"
    using deterministic_overlaps [of "map xw_text ?words" "[s, t]" _ "wt_lower wt", OF _ _ refl refl] assms(8-10) len pos
    by (auto simp: texts overlaps_two)
  then have mapping: "rc_mapping ?ctx = [[0], [0, 1]]"
    by (simp add: retokenize_context_def build_word_token_mapping_def)
  define ctx1 where "ctx1 = ?ctx\<lparr>rc_word_counter := 1\<rparr>"
  obtain ctx2 out1 where one: "emit_tokens wt 0 True v [0] ctx1 [] = (ctx2, [] @ out1)" "units wt True out1 = [s]"
    "plain_content out1" "ctx2 = ctx1\<lparr>rc_emitted_tokens := [0], rc_mor_cursor := 1\<rparr>"
    using emit_readable [of wt ctx1 "[0]" v True 0 "[]" True] assms(2,5) by (auto simp: ctx1_def retokenize_context_def)
  define ctx3 where "ctx3 = ctx2\<lparr>rc_word_counter := 2\<rparr>"
  obtain ctx4 out2 where two: "emit_tokens wt 1 False w [0, 1] ctx3 out1 = (ctx4, out1 @ out2)" "units wt True out2 = [s, t]"
    "plain_content out2" "rc_diagnostics ctx4 = []"
    using emit_readable [of wt ctx3 "[0, 1]" w False 1 out1 True] assms(3,5,6) one(4)
    by (auto simp: ctx1_def ctx3_def retokenize_context_def)
  have first: "handle_word_retokenize wt v ?ctx [] = (ctx2, out1)"
    using one(1) mapping
    by (simp add: handle_word_retokenize_def next_word_def get_nonempty_def ctx1_def) (simp add: retokenize_context_def)
  have c2: "rc_mapping ctx2 = [[0], [0, 1]]" "rc_word_counter ctx2 = 1" "rc_emitted_tokens ctx2 = [0]"
    using mapping by (simp_all add: one(4) ctx1_def)
  have second: "handle_word_retokenize wt w ctx2 out1 = (ctx4, out1 @ out2)"
    using two(1) by (simp add: handle_word_retokenize_def next_word_def get_nonempty_def c2 ctx3_def numeral_2_eq_2)
  have "plain_content (out1 @ out2)" using one(3) two(3) by simp
  from collected_length [OF assms(4) [OF this]] have three: "length (collect_utterance_content wt (out1 @ out2)) = 3"
    using one(2) two(2) by simp
  have "?words \<noteq> []" using texts by auto
  then have "retokenize_utterance wt u ?words [s, t] mors terminator gras =
      (u\<lparr>tu_content := out1 @ out2\<rparr>, Some (MorCountMismatch 2 3))"
    using first second assms(1-3,7) two(4) three
    by (auto simp: retokenize_utterance_def inject_morphosyntax_def)
  then show ?thesis using one(2) two(2) by (intro exI [of _ "out1 @ out2"]) simp
qed

text \<open>
  An annotated word that the analysis cuts into two tokens: its text becomes the first token alone, the
  second is lost, and the tiers are refused because one word stands against two items.
\<close>

theorem annotated_split_loses_text:
  assumes "tu_content u = [CtAnnotated w a]" "wt_counts wt w" "\<And>c. words_agree wt c"
    and "readable wt s" "readable wt t" "length mors = 2"
    and "concat (normal_texts wt [wt_cleaned_text wt w]) = concat (normal_texts wt [s, t])"
    and "[] \<notin> set (normal_texts wt [s, t])" "wt_cleaned_text wt w \<noteq> s"
  shows "\<exists>w'. retokenize_utterance wt u (collect_utterance_content wt (tu_content u)) [s, t] mors terminator gras =
      (u\<lparr>tu_content := [CtAnnotated w' a]\<rparr>, Some (MorCountMismatch 2 1)) \<and> wt_cleaned_text wt w' = s"
proof -
  let ?words = "collect_utterance_content wt (tu_content u)"
  let ?ctx = "retokenize_context wt ?words [s, t] (length mors) terminator"
  have texts: "map xw_text ?words = [wt_cleaned_text wt w]"
    using assms(1,2) assms(3) [of "tu_content u"] by (simp add: words_agree_def)
  have "try_deterministic_word_token_mapping (wt_lower wt) (map xw_text ?words) [s, t] = Some [[0, 1]]"
    using deterministic_overlaps [of "map xw_text ?words" "[s, t]" _ "wt_lower wt", OF _ _ refl refl] assms(7,8)
    by (auto simp: texts overlaps_two)
  then have mapping: "rc_mapping ?ctx = [[0, 1]]"
    by (simp add: retokenize_context_def build_word_token_mapping_def)
  obtain w' where w': "wt_parse_word wt s = Some w'" "wt_cleaned_text wt w' = s" "wt_counts wt w'"
    using assms(4) by (auto simp: readable_def split: option.splits)
  have text_s: "resolve_token_text s 0 ?words = s" "\<not> ends_utterance s" "\<not> is_tag_marker_text s"
    using assms(4) by (auto simp: readable_def resolve_token_text_def separator_of_text_def is_tag_marker_text_def split: if_splits)
  have annotated: "\<exists>ctx. handle_annotated_word_retokenize wt w ?ctx = (ctx, w') \<and> rc_diagnostics ctx = []"
    using mapping w'(1) text_s assms(9)
    by (simp add: handle_annotated_word_retokenize_def next_word_def get_nonempty_def try_parse_token_as_word_def
        handle_ending_punct_skip_def)
      (simp add: retokenize_context_def mark_emitted_def handle_ending_punct_skip_def text_s try_parse_token_as_word_def)
  have one: "length (collect_utterance_content wt [CtAnnotated w' a]) = 1"
    using collected_length [OF assms(3), of "[CtAnnotated w' a]"] w'(3) by simp
  have "?words \<noteq> []" using texts by auto
  then show ?thesis
    using annotated assms(1,2,6) one w'(2)
    by (auto simp: retokenize_utterance_def inject_morphosyntax_def retokenize_if_counted_def)
qed

section \<open>Examples\<close>

text \<open>Words are their texts, all have an item, all can be read; the walk goes through everything.\<close>

fun example_leaves_item :: "bool \<Rightarrow> (rstr, unit, unit) Content \<Rightarrow> (rstr, unit) Leaf list"
and example_leaves :: "bool \<Rightarrow> (rstr, unit, unit) Content list \<Rightarrow> (rstr, unit) Leaf list" where
  "example_leaves_item outer (CtWord w) = [WiWord w]"
| "example_leaves_item outer (CtAnnotated w a) = [WiWord w]"
| "example_leaves_item outer (CtReplaced w ws a) = [WiReplaced w ws a]"
| "example_leaves_item outer (CtGroup kind a content) = (if \<not> outer \<and> kind = GkGroup then [] else example_leaves False content)"
| "example_leaves_item outer (CtSeparator sep) = [WiSeparator sep]"
| "example_leaves_item outer (CtOther x) = []"
| "example_leaves outer [] = []"
| "example_leaves outer (c # cs) = example_leaves_item outer c @ example_leaves outer cs"

definition example_tools :: "(rstr, unit, unit) WordTools" where
  "example_tools =
     \<lparr>wt_cleaned_text = id, wt_raw_text = id, wt_form_type = (\<lambda>w. None), wt_lang = (\<lambda>w. None),
      wt_counts = (\<lambda>w. True), wt_ignored = (\<lambda>a. False), wt_walk = example_leaves True,
      wt_tag_marker = (\<lambda>sep. sep = SepComma \<or> sep = SepTag \<or> sep = SepVocative),
      wt_render = (\<lambda>sep. case sep of SepComma \<Rightarrow> lit '','' | SepTag \<Rightarrow> [8222] | SepVocative \<Rightarrow> [8225] | SepOther s \<Rightarrow> s),
      wt_parse_word = Some, wt_lower = (\<lambda>c. [c])\<rparr>"

lemma example_tools_simps [simp]:
  "wt_cleaned_text example_tools = id" "wt_counts example_tools = (\<lambda>w. True)" "wt_ignored example_tools = (\<lambda>a. False)"
  "wt_walk example_tools = example_leaves True" "wt_parse_word example_tools = Some" "wt_lower example_tools = (\<lambda>c. [c])"
  by (simp_all add: example_tools_def)

lemma example_normal [simp]: "normalize_alignment_unit (\<lambda>c. [c]) s = s"
  by (simp add: normalize_alignment_unit_def)

lemma collect_words_texts:
  "map xw_text (fold (collect_alignable_word example_tools) ws out) = map xw_text out @ ws"
  by (induction ws arbitrary: out) (simp_all add: collect_alignable_word_def extracted_def)

lemma collect_example:
  "map xw_text (fold (collect_item example_tools) (example_leaves_item outer c) out) =
    map xw_text out @ units_item example_tools outer c"
  "map xw_text (fold (collect_item example_tools) (example_leaves outer cs) out) =
    map xw_text out @ units example_tools outer cs"
proof (induction outer c and outer cs arbitrary: out and out rule: example_leaves_item_example_leaves.induct)
  case (3 outer w ws a)
  show ?case
    using collect_words_texts [of ws out] collect_words_texts [of "[w]" out]
    by (auto simp: collect_replaced_word_def)
qed (auto simp: collect_alignable_word_def extracted_def)

lemma example_words_agree: "words_agree example_tools c"
  using collect_example(2) [of True c "[]"] by (simp add: words_agree_def collect_utterance_content_def)

lemma example_readable: "readable example_tools (lit ''do'')" "readable example_tools (lit ''nt'')"
  "readable example_tools (lit ''gonna'')" "readable example_tools (lit ''ab'')" "readable example_tools (lit ''abc'')"
  "readable example_tools (lit ''d'')"
  by (simp_all add: readable_def separator_of_text_def ends_utterance_def) (simp_all add: lit_def)

definition example_utterance :: "(rstr, unit, unit) Content list \<Rightarrow> (rstr, unit, unit, unit) TokenUtterance" where
  "example_utterance content = \<lparr>tu_content = content, tu_tiers = [], tu_main_taint = False, tu_language_code = None, tu_terminator = None\<rparr>"

lemma example_texts: "map xw_text (collect_utterance_content example_tools c) = units example_tools True c"
  using example_words_agree by (simp add: words_agree_def)

lemma equal_tokens_change_nothing_witness:
  "retokenize_utterance example_tools (example_utterance [CtAnnotated (lit ''do'') ()])
      (collect_utterance_content example_tools [CtAnnotated (lit ''do'') ()]) [lit ''do''] [] None [] =
    (example_utterance [CtAnnotated (lit ''do'') ()], None)"
  using equal_tokens_change_nothing [OF example_words_agree, of "example_utterance [CtAnnotated (lit ''do'') ()]" "[]" None "[]"]
  by (simp add: example_utterance_def example_texts inject_morphosyntax_def split: if_splits)

definition example_mixed :: "(rstr, unit, unit) Content list" where
  "example_mixed = [CtWord (lit ''dont''), CtSeparator SepComma, CtOther (), CtGroup GkQuotation () [CtWord (lit ''gon'')], CtWord (lit ''na'')]"

definition example_blocks :: "Block list" where
  "example_blocks =
     [(False, [lit ''dont''], [lit ''do'', lit ''nt'']), (True, [lit '','' ], [lit '','' ]),
      (False, [lit ''gon'', lit ''na''], [lit ''gonna''])]"

lemma example_comma [simp]: "wt_tag_marker example_tools SepComma" "wt_render example_tools SepComma = lit '',''"
  by (simp_all add: example_tools_def)

lemma example_blocks_ok: "list_all (block_ok example_tools) example_blocks"
  by (simp add: example_blocks_def example_readable Let_def del: lit_append) (simp add: lit_def)

lemma retokenization_exact_witness:
  "\<exists>content. units example_tools True content = [lit ''do'', lit ''nt'', lit '','', lit ''gonna''] \<and> plain_content content \<and>
    retokenize_utterance example_tools (example_utterance example_mixed)
      (collect_utterance_content example_tools example_mixed)
      [lit ''do'', lit ''nt'', lit '','', lit ''gonna''] (replicate 4 (mor_of \<lparr>mw_pos = [], mw_lemma = [], mw_features = []\<rparr>)) None
      [\<lparr>gr_index = 1, gr_head = 0, gr_relation = lit ''ROOT''\<rparr>] =
    (\<lparr>tu_content = content,
      tu_tiers = [TierMor (replicate 4 (mor_of \<lparr>mw_pos = [], mw_lemma = [], mw_features = []\<rparr>)) None,
        TierGra [\<lparr>gr_index = 1, gr_head = 0, gr_relation = lit ''ROOT''\<rparr>]], tu_main_taint = False, tu_language_code = None, tu_terminator = None\<rparr>, None)"
proof -
  have tokens: "block_tokens example_blocks = [lit ''do'', lit ''nt'', lit '','', lit ''gonna'']"
    by (simp add: block_tokens_def example_blocks_def)
  have "\<exists>content. units example_tools True content = block_tokens example_blocks \<and> plain_content content \<and>
    retokenize_utterance example_tools (example_utterance example_mixed)
      (collect_utterance_content example_tools (tu_content (example_utterance example_mixed)))
      (block_tokens example_blocks) (replicate 4 (mor_of \<lparr>mw_pos = [], mw_lemma = [], mw_features = []\<rparr>)) None
      [\<lparr>gr_index = 1, gr_head = 0, gr_relation = lit ''ROOT''\<rparr>] =
    ((example_utterance example_mixed)\<lparr>tu_content := content,
      tu_tiers := put_tier (put_tier (tu_tiers (example_utterance example_mixed))
        (TierMor (replicate 4 (mor_of \<lparr>mw_pos = [], mw_lemma = [], mw_features = []\<rparr>)) None))
        (TierGra [\<lparr>gr_index = 1, gr_head = 0, gr_relation = lit ''ROOT''\<rparr>])\<rparr>, None)"
    by (rule retokenization_exact [OF _ example_words_agree _ example_blocks_ok])
      (simp_all add: example_utterance_def example_mixed_def tokens, simp_all add: example_blocks_def)
  then show ?thesis by (simp add: tokens example_utterance_def)
qed

lemma crossing_token_is_doubled_witness:
  "\<exists>content. retokenize_utterance example_tools (example_utterance [CtWord (lit ''ab''), CtWord (lit ''cd'')])
      (collect_utterance_content example_tools [CtWord (lit ''ab''), CtWord (lit ''cd'')]) [lit ''abc'', lit ''d'']
      (replicate 2 (mor_of \<lparr>mw_pos = [], mw_lemma = [], mw_features = []\<rparr>)) None [] =
    (\<lparr>tu_content = content, tu_tiers = [], tu_main_taint = False, tu_language_code = None, tu_terminator = None\<rparr>, Some (MorCountMismatch 2 3)) \<and>
    units example_tools True content = [lit ''abc'', lit ''abc'', lit ''d'']"
  using crossing_token_is_doubled [of "example_utterance [CtWord (lit ''ab''), CtWord (lit ''cd'')]" "lit ''ab''" "lit ''cd''"
      example_tools "lit ''abc''" "lit ''d''" "replicate 2 (mor_of \<lparr>mw_pos = [], mw_lemma = [], mw_features = []\<rparr>)" None "[]",
      OF _ _ _ example_words_agree example_readable(5,6)]
  by (simp add: example_utterance_def) (simp add: lit_def)

lemma annotated_split_loses_text_witness:
  "\<exists>w'. retokenize_utterance example_tools (example_utterance [CtAnnotated (lit ''dont'') ()])
      (collect_utterance_content example_tools [CtAnnotated (lit ''dont'') ()]) [lit ''do'', lit ''nt'']
      (replicate 2 (mor_of \<lparr>mw_pos = [], mw_lemma = [], mw_features = []\<rparr>)) None [] =
    (\<lparr>tu_content = [CtAnnotated w' ()], tu_tiers = [], tu_main_taint = False, tu_language_code = None, tu_terminator = None\<rparr>, Some (MorCountMismatch 2 1)) \<and>
    w' = lit ''do''"
  using annotated_split_loses_text [of "example_utterance [CtAnnotated (lit ''dont'') ()]" "lit ''dont''" "()"
      example_tools "lit ''do''" "lit ''nt''" "replicate 2 (mor_of \<lparr>mw_pos = [], mw_lemma = [], mw_features = []\<rparr>)" None "[]",
      OF _ _ example_words_agree example_readable(1,2)]
  by (simp add: example_utterance_def) (simp add: lit_def)

lemma retokenization_keeps_the_rest_witness:
  "skeleton example_tools (tu_content (fst (retokenize_utterance example_tools (example_utterance example_mixed) [] [] [] None []))) =
    [CtOther (), CtGroup GkQuotation () []]"
  using retokenization_keeps_the_rest [of example_tools "example_utterance example_mixed" "[]" "[]" "[]" None "[]"]
  by (simp add: marks_new_separators_def example_tools_def example_utterance_def example_mixed_def)

lemma deterministic_mapping_exact_witness:
  "try_deterministic_word_token_mapping (\<lambda>c. [c]) [lit ''dont''] [lit ''do'', lit ''nt''] = Some [[0, 1]]"
  using deterministic_mapping_exact [of "[lit ''dont'']" "[lit ''do'', lit ''nt'']" "\<lambda>c. [c]"]
  by (simp add: Let_def overlaps_two) (simp add: lit_def)

lemma every_word_has_tokens_witness:
  "proper_mapping 1 2 (build_word_token_mapping (\<lambda>c. [c]) [lit ''dont''] [lit ''do'', lit ''nt''])"
  using every_word_has_tokens [of "[lit ''dont'']" "[lit ''do'', lit ''nt'']" "\<lambda>c. [c]"] by (simp add: numeral_2_eq_2)

definition ascii_unicode :: Unicode where
  "ascii_unicode = \<lparr>un_lower = to_ascii_lowercase, un_upper = id, un_alphanumeric = is_ascii_alphabetic\<rparr>"

lemma realignment_keeps_text_witness:
  "concat (map token_text (align_tokens ascii_unicode [lit ''gon'', lit ''na''] [lit ''gonna''] (lit ''en''))) = lit ''gonna''"
  using realignment_keeps_text [of "lit ''en''" ascii_unicode "[lit ''gonna'']" "[lit ''gon'', lit ''na'']"] by simp

lemma realignment_restores_words_witness:
  "align_tokens ascii_unicode [lit ''(be)cause'', lit ''ice-cream''] [lit ''because'', lit ''ice'', lit ''-'', lit ''cream''] (lit ''en'') =
    [PtPlain (lit ''because''), PtHint (lit ''ice-cream'') False]"
  using realignment_restores_words [of "[[lit ''because''], [lit ''ice'', lit ''-'', lit ''cream'']]"
      "[lit ''(be)cause'', lit ''ice-cream'']" "lit ''en''" ascii_unicode]
  by (simp add: strip_parens_def patches_for_lang_def merged_group_def is_contraction_def) (simp add: lit_def)

end
