(* ===== verification/Mor_Cases.thy ===== *)
theory Mor_Cases
  imports Mor_Run Retok_Cases Ud_Cases
begin

text \<open>
  What the cache keeps of an utterance, what it does not see, and what the lexicon of multi-word tokens
  does to the relations; then the examples for the properties of the run.
\<close>

section \<open>Cached tiers\<close>

definition contents :: "('w, 'a, 'o, 't) MorFile \<Rightarrow> ('w, 'a, 'o) Content list option list" where
  "contents f = map (\<lambda>l. case l of FlUtterance u \<Rightarrow> Some (tu_content u) | FlOther \<Rightarrow> None) (mf_lines f)"

lemma contents_update:
  "mf_lines f ! i = FlUtterance u \<Longrightarrow> tu_content u' = tu_content u \<Longrightarrow>
    contents (f\<lparr>mf_lines := (mf_lines f)[i := FlUtterance u']\<rparr>) = contents f"
  by (cases "i < length (mf_lines f)") (simp_all add: contents_def map_update list_update_same_conv list_update_beyond)

lemma inject_entry_contents: "inject_entry ms e f = Inr g \<Longrightarrow> contents g = contents f"
  by (auto simp: inject_entry_def Let_def contents_update split: if_splits FileLine.splits option.splits)

lemma inject_from_cache_contents: "contents (snd (inject_from_cache ms es f)) = contents f"
  by (induction ms es f rule: inject_from_cache.induct) (auto dest: inject_entry_contents split: sum.split)

text \<open>
  Collecting a file, with its injection of the cached tiers, never changes the words of a main tier;
  this holds for the retokenizing mode too, whose cached tiers belong to the words after a split.
\<close>

theorem cache_hits_keep_the_main_tier:
  "contents (pf_file (fst (collect_file wt ms params cache pf before))) = contents (pf_file pf)"
  by (auto simp: collect_file_def Let_def inject_cache_hits_def inject_from_cache_contents split: prod.split)

lemma clear_contents: "contents (clear_morphosyntax f) = contents f"
  by (simp add: contents_def clear_morphosyntax_def clear_line_def clear_tiers_def split: FileLine.split)

lemma parsed_contents: "contents (pf_file (parse_one mb text)) = contents (fst (mb_parse mb text))"
  by (simp add: parse_one_def clear_contents split: prod.split)


text \<open>
  If such an entry was made from another number of words than the main tier has, the alignment check,
  which is not run for a file without misses, would report the utterance: the case of one utterance and
  an entry without relations, whose number of items is not that of the words.
\<close>

theorem cached_split_is_misaligned:
  assumes "\<not> pf_dummy pf" "\<not> mo_skip_cache params" "mo_tokenization_mode params = StanzaRetokenize"
    and "mf_lines (pf_file pf) = [FlUtterance u]" "tu_tiers u = []"
    and "fst (collect_payloads wt ms (pf_file pf) (mo_lang params)
      (declared_languages (pf_file pf) (mo_lang params)) (mo_multilingual_policy params)) = [b]"
    and "hm_get cache (cache_key ms (mi_words (bi_item b)) (mi_lang (bi_item b)) (mo_mwt params) True) = Some d"
    and "st_mor d \<noteq> []" "st_gra d = []" "ms_parse_mor ms (st_mor d) = Some (mors, t)"
    and "length mors \<noteq> positions (tu_content u)"
  shows "\<exists>pf'. collect_file wt ms params cache pf before = (pf', None, before) \<and>
    validate_mor_alignment positions (pf_file pf') =
      [\<lparr>aw_line_idx = 0, aw_main_count = positions (tu_content u), aw_mor_count = length mors\<rparr>]"
proof -
  have "utterance_at (pf_file pf) (bi_line_idx b)" using collected_at [of b] assms(6) by (metis list.set_intros(1))
  then have b: "bi_line_idx b = 0" using assms(4) by (simp add: utterance_at_def)
  let ?e = "\<lparr>ce_line_idx = 0, ce_mor = st_mor d, ce_gra = st_gra d\<rparr>"
  let ?f = "(pf_file pf)\<lparr>mf_lines := [FlUtterance (u\<lparr>tu_tiers := [TierMor mors (tu_terminator u)]\<rparr>)]\<rparr>"
  have entry: "inject_entry ms ?e (pf_file pf) = Inr ?f"
    using assms(4,5,8-10) by (simp add: inject_entry_def Let_def)
  have "collect_file wt ms params cache pf before = (pf\<lparr>pf_file := ?f\<rparr>, None, before)"
    using assms(1-3,6,7) entry b
    by (simp add: collect_file_def partition_by_cache_def inject_cache_hits_def Let_def)
  moreover have "validate_mor_alignment positions ?f =
      [\<lparr>aw_line_idx = 0, aw_main_count = positions (tu_content u), aw_mor_count = length mors\<rparr>]"
    using assms(11) by (simp add: validate_mor_alignment_def line_warnings_def first_mor_def is_mor_def)
  ultimately show ?thesis by simp
qed

text \<open>
  The key of an utterance is made of its words, language and mode; the special forms are not in it.
  An utterance with the same words is a hit for the tiers of another one, whatever its own markers are.
\<close>

theorem cache_ignores_special_forms:
  assumes "mi_words (bi_item b) = mi_words (bi_item c)" "mi_lang (bi_item b) = mi_lang (bi_item c)" "ce_mor e \<noteq> []"
  shows "partition_by_cache ms [c]
      (cache_put_entries [cache_key ms (mi_words (bi_item b)) (mi_lang (bi_item b)) mwt retokenize] [e] cache) mwt retokenize =
    ([(bi_line_idx c, \<lparr>st_mor = ce_mor e, st_gra = ce_gra e\<rparr>)], [], [])"
  using assms by (simp add: partition_by_cache_def cache_put_entries_def Let_def hm_get_def hm_insert_def update_conv' map_filter_simps)

text \<open>
  C28: What is read off an utterance for the cache puts exactly its tiers back on the cleared file. The
  utterance has its \<open>%mor\<close> and its \<open>%gra\<close> tier as its last two tiers, in this order; the \<open>%mor\<close> tier has the
  terminator of the utterance; the chunks of the \<open>%mor\<close> tier are as many as the relations (which the
  terminator lost by the lexicon path breaks); and the JSON forms of the two tiers are not empty and can
  be read back.
\<close>

theorem cached_tiers_roundtrip:
  assumes "i < length (mf_lines f)" "mf_lines f ! i = FlUtterance u"
    and "tu_tiers u = others @ [TierMor mors (tu_terminator u), TierGra gras]" "list_all (\<lambda>t. \<not> is_mor_or_gra t) others"
    and "ms_mor_json ms (mors, tu_terminator u) \<noteq> []" "ms_gra_json ms gras \<noteq> []"
    and "ms_parse_mor ms (ms_mor_json ms (mors, tu_terminator u)) = Some (mors, tu_terminator u)"
    and "ms_parse_gra ms (ms_gra_json ms gras) = Some gras"
    and "ms_tier_chunks ms (mors, tu_terminator u) = length gras"
  shows "\<exists>e. extract_strings ms f [i] = Inr [e] \<and>
    (case inject_from_cache ms [e] (clear_morphosyntax f) of (err, g) \<Rightarrow> err = None \<and> mf_lines g ! i = FlUtterance u)"
proof -
  have other: "foldl (\<lambda>(m, g) t. case t of TierMor mors term \<Rightarrow> (ms_mor_json ms (mors, term), g)
     | TierGra gras \<Rightarrow> (m, ms_gra_json ms gras) | TierOther x \<Rightarrow> (m, g)) s others = s" for s
    using assms(4) by (induction others arbitrary: s) (auto simp: is_mor_or_gra_def split: UtteranceTier.splits)
  have strings: "tier_strings ms (tu_tiers u) = (ms_mor_json ms (mors, tu_terminator u), ms_gra_json ms gras)"
    unfolding tier_strings_def assms(3) by (simp add: other)
  have cleared: "filter (\<lambda>t. \<not> is_mor_or_gra t) (tu_tiers u) = others"
    using assms(3,4) by (simp add: is_mor_or_gra_def list_all_iff)
  have put: "put_tier (put_tier others (TierMor mors (tu_terminator u))) (TierGra gras) = tu_tiers u"
    unfolding assms(3) using assms(4) by (induction others) (auto simp: is_mor_or_gra_def split: UtteranceTier.splits)
  let ?e = "\<lparr>ce_line_idx = i, ce_mor = ms_mor_json ms (mors, tu_terminator u), ce_gra = ms_gra_json ms gras\<rparr>"
  have "extract_strings ms f [i] = Inr [?e]" using assms(1,2) strings by simp
  moreover have "inject_entry ms ?e (clear_morphosyntax f) =
      Inr ((clear_morphosyntax f)\<lparr>mf_lines := (map clear_line (mf_lines f))[i := FlUtterance u]\<rparr>)"
    using assms(1,2,5-9) put
    by (simp add: inject_entry_def clear_morphosyntax_def clear_line_def clear_tiers_def cleared Let_def)
  ultimately show ?thesis using assms(1) by simp
qed

section \<open>The lexicon of multi-word tokens\<close>

lemma take_repeat: "take k xs @ repeat_item k xs 1 = take (Suc k) xs"
  by (simp add: repeat_item_def take_Suc_conv_app_nth)

lemma expand_none:
  assumes "\<And>t. t \<in> set ts \<Longrightarrow> mwt_expansion un mwt t = None"
  shows "fold (expand_token un mwt mors gras) (enumerate k ts) (us, take k mors, take k gras) =
    (us @ ts, take (k + length ts) mors, take (k + length ts) gras)"
  using assms
proof (induction ts arbitrary: k us)
  case (Cons t ts)
  have one: "expand_token un mwt mors gras (k, t) (us, take k mors, take k gras) =
      (us @ [t], take (Suc k) mors, take (Suc k) gras)"
    using Cons.prems by (simp only: expand_token_def prod.case list.set_intros option.case take_repeat)
  show ?case using Cons.IH [of "Suc k" "us @ [t]"] Cons.prems one by simp
qed simp

text \<open>
  C30: A lexicon of multi-word tokens that is not empty but has none of the sentence's tokens still cuts
  the analysis: as many items and relations are kept as the sentence has tokens. A sentence with one
  relation for every token and one for the terminator, that is one without ranges of tokens, loses the
  last one, which is that of the terminator.
\<close>

theorem lexicon_drops_terminator:
  assumes "mwt \<noteq> []" "\<And>t. t \<in> set ts \<Longrightarrow> mwt_expansion un mwt t = None"
  shows "apply_mwt_lexicon un mwt ts mors gras = (ts, take (length ts) mors, take (length ts) gras) \<and>
    (length gras = Suc (length ts) \<longrightarrow> snd (snd (apply_mwt_lexicon un mwt ts mors gras)) = butlast gras)"
  using assms(1) expand_none [OF assms(2), where k = 0 and us = "[]" and ts = ts and mors = mors and gras = gras]
  by (simp_all add: apply_mwt_lexicon_def butlast_conv_take)

lemma expand_keeps_prefix:
  "\<exists>more. snd (snd (fold (expand_token un mwt mors gras) xs (a, b, gs))) = gs @ more"
proof (induction xs arbitrary: a b gs)
  case (Cons x xs)
  obtain i t where x: "x = (i, t)" by (cases x)
  show ?case using Cons by (simp add: x expand_token_def split: option.split) (metis append.assoc)
qed simp

text \<open>
  A token that the lexicon expands to several words leaves its relation several times with the same
  index, so that the indices of the relations are no longer distinct.
\<close>

theorem lexicon_repeats_relations:
  assumes "mwt \<noteq> []" "i < length ts" "i < length gras" "mwt_expansion un mwt (ts ! i) = Some e" "2 \<le> length e"
  shows "\<not> distinct (map gr_index (snd (snd (apply_mwt_lexicon un mwt ts mors gras))))"
proof -
  have split: "enumerate 0 ts = enumerate 0 (take i ts) @ (i, ts ! i) # enumerate (Suc i) (drop (Suc i) ts)"
    using id_take_nth_drop [OF assms(2)] assms(2)
    by (metis (no_types, lifting) add.left_neutral enumerate_append_eq enumerate_simps(2) length_take min.absorb4)
  obtain a b gs where before: "fold (expand_token un mwt mors gras) (enumerate 0 (take i ts)) ([], [], []) = (a, b, gs)"
    by (metis prod_cases3)
  obtain n where "length e = Suc (Suc n)" using assms(5) by (metis Suc_1 Suc_le_D Suc_le_mono add_2_eq_Suc le_Suc_ex)
  then have here: "expand_token un mwt mors gras (i, ts ! i) (a, b, gs) =
      (a @ e, b @ repeat_item i mors (length e), gs @ gras ! i # gras ! i # replicate n (gras ! i))"
    using assms(3,4) by (simp add: expand_token_def repeat_item_def)
  obtain more where "snd (snd (apply_mwt_lexicon un mwt ts mors gras)) = gs @ gras ! i # gras ! i # replicate n (gras ! i) @ more"
    using expand_keeps_prefix [of un mwt mors gras "enumerate (Suc i) (drop (Suc i) ts)"
        "a @ e" "b @ repeat_item i mors (length e)" "gs @ gras ! i # gras ! i # replicate n (gras ! i)"] assms(1)
    by (auto simp: apply_mwt_lexicon_def split before here)
  then show ?thesis by simp
qed

section \<open>Examples\<close>

definition window_services :: MorServices where
  "window_services =
     \<lparr>ms_unicode = plain_unicode, ms_count_chunks = all_chunks, ms_tier_chunks = (\<lambda>t. 1),
      ms_resolve_language = (\<lambda>w marker tier declared. lit ''eng''), ms_hash = id,
      ms_mor_json = (\<lambda>t. lit ''m''), ms_parse_mor = (\<lambda>s. Some (replicate 2 (mor_of (sample_item (lit ''ami''))), None)),
      ms_gra_json = (\<lambda>g. lit ''g''), ms_parse_gra = (\<lambda>s. Some [\<lparr>gr_index = 1, gr_head = 0, gr_relation = lit ''ROOT''\<rparr>])\<rparr>"

definition example_file :: "rstr \<Rightarrow> (rstr, unit, unit, unit) MorFile" where
  "example_file word = \<lparr>mf_lines = [FlUtterance (example_utterance [CtWord word])], mf_languages = []\<rparr>"

definition window_params :: MorphosyntaxParams where
  "window_params =
     \<lparr>mo_lang = lit ''fra'', mo_tokenization_mode = StanzaRetokenize, mo_skip_cache = False,
      mo_multilingual_policy = ProcessAll, mo_mwt = []\<rparr>"

text \<open>
  A worker that answers every item with the analysis of one sentence, except the word \<open>xxx\<close>, for which
  it answers with null.
\<close>

definition raw_token :: "Json \<Rightarrow> rstr \<Rightarrow> rstr \<Rightarrow> int \<Rightarrow> Json" where
  "raw_token i t l h =
     JObj [(lit ''id'', i), (lit ''text'', JStr t), (lit ''lemma'', JStr l), (lit ''upos'', JStr (lit ''ADP'')),
       (lit ''head'', JInt h), (lit ''deprel'', JStr (lit ''case''))]"

definition raw_french :: "Json list" where
  "raw_french =
     [JArr [raw_token (JArr [JInt 1, JInt 2]) [108, 39, 97, 109, 105] (lit ''ami'') 0,
        raw_token (JArr [JInt 1]) [108, 39] (lit ''le'') 2, raw_token (JArr [JInt 2]) (lit ''ami'') (lit ''ami'') 0]]"

definition read_french :: UdSentence where
  "read_french = \<lparr>us_words =
     [(sample_ud (UdRange 1 2) [108, 39, 97, 109, 105] (lit ''ami'') 0)\<lparr>ud_feats := Some []\<rparr>,
      sample_ud (UdSingle 1) [108, 39] (lit ''le'') 2, sample_ud (UdSingle 2) (lit ''ami'') (lit ''ami'') 0]\<rparr>"

definition example_answer :: "LanguageCode3 \<Rightarrow> (MorphosyntaxBatchItem \<Rightarrow> ItemResult) option" where
  "example_answer l = Some (\<lambda>item. ItemRaw (if mi_words item = [lit ''xxx''] then [JNull] else raw_french))"

definition good_answer :: "LanguageCode3 \<Rightarrow> (MorphosyntaxBatchItem \<Rightarrow> ItemResult) option" where
  "good_answer l = Some (\<lambda>item. ItemRaw raw_french)"

definition backend_for ::
  "(LanguageCode3 \<Rightarrow> (MorphosyntaxBatchItem \<Rightarrow> ItemResult) option) \<Rightarrow> (rstr, unit, unit, unit) MorBackend" where
  "backend_for answer =
     \<lparr>mb_parse = (\<lambda>s. (example_file s, 0)), mb_is_dummy = (\<lambda>f. False), mb_main_tier_errors = (\<lambda>f n. []),
      mb_serialize = (\<lambda>f. show_nat (length (validate_mor_alignment length f))), mb_supported = (\<lambda>l. True),
      mb_max_workers_per_key = 2, mb_group_timeout_s = 60, mb_times_out = (\<lambda>l xs. False),
      mb_dispatch = (\<lambda>l mwt retokenize items. Inr (map (the (answer l)) items)),
      mb_alphabetic = (\<lambda>c. False), mb_unreadable = (\<lambda>i item e. lit ''unreadable'')\<rparr>"

abbreviation example_backend :: "(rstr, unit, unit, unit) MorBackend" where
  "example_backend \<equiv> backend_for example_answer"

abbreviation good_backend :: "(rstr, unit, unit, unit) MorBackend" where
  "good_backend \<equiv> backend_for good_answer"

lemma backends_item_wise:
  "item_wise example_backend params example_answer" "item_wise good_backend params good_answer"
  by (simp_all add: item_wise_def backend_for_def example_answer_def good_answer_def)

lemma raw_french_read:
  "parse_raw_stanza_output (\<lambda>c. False) un raw_french = Inr \<lparr>ur_sentences = [read_french]\<rparr>"
  by (simp add: parse_raw_stanza_output_def raw_french_def read_french_def raw_token_def sample_ud_def
      normalize_word_dict_def unwrap_id_def complete_word_def or_insert_def
      is_range_word_def lemma_missing_def null_to_def as_u64_def as_str_def hm_get_def hm_insert_def lit_def
      word_from_value_def required_field_def optional_field_def word_of_fields_def json_id_def json_upos_def pos_names_def
      json_opt_str_def validate_and_clean_def Let_def is_pad_def ends_with_def is_range_id_def is_bogus_lemma_def)

lemma null_unreadable: "parse_raw_stanza_output al un [JNull] = Inl (NotAnArray 0)"
  by (simp add: parse_raw_stanza_output_def)

lemma good_readable: "all_readable ms good_backend good_answer"
  by (simp add: all_readable_def good_answer_def backend_for_def raw_french_read)

lemma ranged: "\<exists>y. map_ud_word_to_mor plain_unicode (lit ''fra'')
    ((sample_ud (UdRange m n) t (lit ''ami'') h)\<lparr>ud_feats := Some []\<rparr>) = Some y"
  using letters_map [of "(sample_ud (UdRange m n) t (lit ''ami'') h)\<lparr>ud_feats := Some []\<rparr>" "lit ''fra''" plain_unicode]
  by (auto simp: sample_ud_def sample_letters lang2_def lit_def)

lemma read_french_maps: "map_ud_sentence plain_unicode all_chunks (lit ''fra'') read_french \<noteq> None"
proof (rule mapping_total)
  show "numbered 1 (us_words read_french)" by (simp add: read_french_def upt_rec numeral_2_eq_2)
  show "length (us_words read_french) < 2 ^ 64" by (simp add: read_french_def)
  show "list_all (\<lambda>w. map_ud_word_to_mor plain_unicode (lit ''fra'') w \<noteq> None) (us_words read_french)"
    using ranged by (simp add: read_french_def sample_maps sample_letters)
qed

lemma example_mappable:
  "all_mappable window_services (mo_lang window_params) (mb_infer window_services example_backend window_params)"
  "all_mappable window_services (mo_lang window_params) (mb_infer window_services good_backend window_params)"
proof -
  have maps: "mappable window_services (mo_lang window_params) \<lparr>ur_sentences = [read_french]\<rparr>"
    using read_french_maps by (simp add: mappable_def window_services_def window_params_def)
  show "all_mappable window_services (mo_lang window_params) (mb_infer window_services example_backend window_params)"
    by (rule item_wise_mappable [OF backends_item_wise(1)])
      (use maps in \<open>auto simp: example_answer_def backend_for_def raw_french_read null_unreadable split: if_splits\<close>)
  show "all_mappable window_services (mo_lang window_params) (mb_infer window_services good_backend window_params)"
    by (rule item_wise_mappable [OF backends_item_wise(2)])
      (use maps in \<open>auto simp: good_answer_def backend_for_def raw_french_read\<close>)
qed

lemma example_response:
  "read_response ms example_backend params example_answer l b =
    (if mi_words (bi_item b) = [lit ''xxx''] then None else Some \<lparr>ur_sentences = [read_french]\<rparr>)"
  by (simp add: read_response_def example_answer_def backend_for_def raw_french_read null_unreadable)

definition example_item :: BatchItemWithPosition where
  "example_item =
     \<lparr>bi_line_idx = 0, bi_utt_ordinal = 0,
      bi_item = \<lparr>mi_words = [lit ''ami''], mi_terminator = lit ''.'', mi_special_forms = [(None, Some (lit ''eng''))], mi_lang = lit ''fra''\<rparr>,
      bi_words = []\<rparr>"

lemma splitting_is_transparent_witness:
  "infer_batch 2 (\<lambda>xs. Inr (map (\<lambda>b. \<lparr>ur_sentences = []\<rparr>) xs)) (replicate 100 example_item) = Inr (replicate 100 \<lparr>ur_sentences = []\<rparr>)"
  using splitting_is_transparent [of "\<lambda>xs. Inr (map (\<lambda>b. \<lparr>ur_sentences = []\<rparr>) xs)" "\<lambda>b. \<lparr>ur_sentences = []\<rparr>" 2 "replicate 100 example_item"]
  by simp

text \<open>The one item of a file of one word.\<close>

lemma example_payload:
  obtains b where "fst (collect_payloads example_tools window_services (clear_morphosyntax (example_file w)) (lit ''fra'')
      (declared_languages (clear_morphosyntax (example_file w)) (lit ''fra'')) ProcessAll) = [b]"
    "mi_words (bi_item b) = [w]" "mi_lang (bi_item b) = lit ''fra''"
proof -
  have words: "map xw_text (collect_utterance_content example_tools [CtWord w]) = [w]"
    by (simp add: example_texts)
  then have "collect_utterance_content example_tools [CtWord w] \<noteq> []" by force
  then show thesis using words that
    by (simp add: collect_payloads_def example_file_def clear_morphosyntax_def clear_line_def clear_tiers_def payload_of_def
        example_utterance_def Let_def should_skip_non_primary_def utterance_lang_def declared_languages_def)
qed

lemma example_parse: "parse_one (backend_for answer) w = \<lparr>pf_file = clear_morphosyntax (example_file w), pf_dummy = False, pf_error = None\<rparr>"
  by (simp add: parse_one_def backend_for_def)

lemma word_misses:
  obtains b where "snd (snd (collect_file example_tools window_services window_params [] (parse_one (backend_for answer) w) [])) = [b]"
    "mi_words (bi_item b) = [w]" "lang_of b = lit ''fra''"
proof -
  obtain b where "fst (collect_payloads example_tools window_services (clear_morphosyntax (example_file w)) (lit ''fra'')
      (declared_languages (clear_morphosyntax (example_file w)) (lit ''fra'')) ProcessAll) = [b]"
    "mi_words (bi_item b) = [w]" "mi_lang (bi_item b) = lit ''fra''"
    by (rule example_payload)
  then show thesis using that
    by (simp add: collect_file_def example_parse window_params_def partition_by_cache_def hm_get_def lang_of_def Let_def)
qed

lemma morphosyntax_run_total_witness:
  "\<exists>results cache'. run_morphosyntax_batch_impl example_tools window_services example_backend window_params
      [lit ''xxx'', lit ''ami''] [] = Some (results, cache') \<and> length results = 2 \<and> list_all (\<lambda>r. \<not> isl r) results"
proof -
  have plain: "pf_error (parse_one example_backend s) = None" "\<not> pf_dummy (parse_one example_backend s)" for s
    by (simp_all add: example_parse)
  show ?thesis
    using morphosyntax_run_total [OF example_mappable(1), of example_tools "[lit ''xxx'', lit ''ami'']" "[]"]
    by (auto simp: list_all2_Cons1 expected_result_def plain)
qed



lemma every_item_gets_its_response_witness:
  "infer_window (\<lambda>l. True) (mb_infer window_services good_backend window_params) (replicate 100 example_item) =
    replicate 100 \<lparr>ur_sentences = [read_french]\<rparr>"
proof -
  have ok: "read_response window_services good_backend window_params good_answer l b = Some \<lparr>ur_sentences = [read_french]\<rparr>" for l b
    by (simp add: read_response_def good_answer_def backend_for_def raw_french_read)
  have "mb_supported good_backend = (\<lambda>l. True)" by (simp add: backend_for_def)
  then show ?thesis
    using every_item_gets_its_response [OF backends_item_wise(2), where ms = window_services and misses = "replicate 100 example_item"]
    by (simp add: ok lang_readable_def list_all_iff)
qed

lemma cached_split_is_misaligned_witness:
  "\<exists>pf' b. collect_file example_tools window_services window_params
      [(cache_key window_services [lit ''dont''] (lit ''fra'') [] True, \<lparr>st_mor = lit ''m'', st_gra = []\<rparr>)]
      \<lparr>pf_file = example_file (lit ''dont''), pf_dummy = False, pf_error = None\<rparr> [] = (pf', None, []) \<and>
    validate_mor_alignment length (pf_file pf') = [\<lparr>aw_line_idx = 0, aw_main_count = 1, aw_mor_count = 2\<rparr>]"
proof -
  have words: "map xw_text (collect_utterance_content example_tools [CtWord (lit ''dont'')]) = [lit ''dont'']"
    by (simp add: example_texts)
  then have "collect_utterance_content example_tools [CtWord (lit ''dont'')] \<noteq> []" by force
  then obtain b where b: "fst (collect_payloads example_tools window_services (example_file (lit ''dont'')) (lit ''fra'')
      (declared_languages (example_file (lit ''dont'')) (lit ''fra'')) ProcessAll) = [b]"
    "mi_words (bi_item b) = [lit ''dont'']" "mi_lang (bi_item b) = lit ''fra''"
    using words
    by (simp add: collect_payloads_def example_file_def payload_of_def example_utterance_def Let_def should_skip_non_primary_def
        utterance_lang_def declared_languages_def)
  let ?pf = "\<lparr>pf_file = example_file (lit ''dont''), pf_dummy = False, pf_error = None\<rparr>"
  show ?thesis
    using cached_split_is_misaligned [of ?pf window_params "example_utterance [CtWord (lit ''dont'')]" example_tools
        window_services b "[(cache_key window_services [lit ''dont''] (lit ''fra'') [] True, \<lparr>st_mor = lit ''m'', st_gra = []\<rparr>)]"
        "\<lparr>st_mor = lit ''m'', st_gra = []\<rparr>" "replicate 2 (mor_of (sample_item (lit ''ami'')))" None length "[]"] b
    by (simp add: window_params_def example_file_def example_utterance_def window_services_def hm_get_def lit_def)
qed


lemma cache_ignores_special_forms_witness:
  "partition_by_cache window_services
      [\<lparr>bi_line_idx = 4, bi_utt_ordinal = 2,
        bi_item = \<lparr>mi_words = [lit ''ami''], mi_terminator = lit ''.'', mi_special_forms = [(None, None)], mi_lang = lit ''fra''\<rparr>, bi_words = []\<rparr>]
      (cache_put_entries [cache_key window_services [lit ''ami''] (lit ''fra'') [] False]
        [\<lparr>ce_line_idx = 0, ce_mor = lit ''L2|xxx'', ce_gra = []\<rparr>] []) [] False =
    ([(4, \<lparr>st_mor = lit ''L2|xxx'', st_gra = []\<rparr>)], [], [])"
  using cache_ignores_special_forms [of example_item
      "\<lparr>bi_line_idx = 4, bi_utt_ordinal = 2,
        bi_item = \<lparr>mi_words = [lit ''ami''], mi_terminator = lit ''.'', mi_special_forms = [(None, None)], mi_lang = lit ''fra''\<rparr>, bi_words = []\<rparr>"
      "\<lparr>ce_line_idx = 0, ce_mor = lit ''L2|xxx'', ce_gra = []\<rparr>" window_services "[]" False "[]"]
  by (simp add: example_item_def lit_def)

definition example_relations :: "GrammaticalRelation list" where
  "example_relations = [\<lparr>gr_index = 1, gr_head = 0, gr_relation = lit ''ROOT''\<rparr>]"

definition example_tiered :: "(rstr, unit, unit, unit) TokenUtterance" where
  "example_tiered = (example_utterance [CtWord (lit ''a''), CtWord (lit ''b'')])
     \<lparr>tu_tiers := [TierOther (), TierMor (replicate 2 (mor_of (sample_item (lit ''ami'')))) None, TierGra example_relations]\<rparr>"

lemma cached_tiers_roundtrip_witness:
  "\<exists>e. extract_strings window_services \<lparr>mf_lines = [FlUtterance example_tiered], mf_languages = []\<rparr> [0] = Inr [e] \<and>
    (case inject_from_cache window_services [e] (clear_morphosyntax \<lparr>mf_lines = [FlUtterance example_tiered], mf_languages = []\<rparr>) of
       (err, g) \<Rightarrow> err = None \<and> mf_lines g ! 0 = FlUtterance example_tiered)"
  by (rule cached_tiers_roundtrip [where others = "[TierOther ()]" and
        mors = "replicate 2 (mor_of (sample_item (lit ''ami'')))" and gras = example_relations])
    (simp_all add: example_tiered_def example_utterance_def is_mor_or_gra_def window_services_def example_relations_def lit_def)

lemma lexicon_drops_terminator_witness:
  "apply_mwt_lexicon plain_unicode [(lit ''gonna'', [lit ''gon'', lit ''na''])] [lit ''hi''] [mor_of (sample_item (lit ''hi''))]
      [\<lparr>gr_index = 1, gr_head = 0, gr_relation = lit ''ROOT''\<rparr>, \<lparr>gr_index = 2, gr_head = 1, gr_relation = lit ''PUNCT''\<rparr>] =
    ([lit ''hi''], [mor_of (sample_item (lit ''hi''))], [\<lparr>gr_index = 1, gr_head = 0, gr_relation = lit ''ROOT''\<rparr>])"
  using lexicon_drops_terminator [of "[(lit ''gonna'', [lit ''gon'', lit ''na''])]" "[lit ''hi'']" plain_unicode
      "[mor_of (sample_item (lit ''hi''))]"
      "[\<lparr>gr_index = 1, gr_head = 0, gr_relation = lit ''ROOT''\<rparr>, \<lparr>gr_index = 2, gr_head = 1, gr_relation = lit ''PUNCT''\<rparr>]"]
  by (simp add: mwt_expansion_def plain_unicode_def to_ascii_lowercase_def hm_get_def ascii_lower_def lit_def)

lemma lexicon_repeats_relations_witness:
  "\<not> distinct (map gr_index (snd (snd (apply_mwt_lexicon plain_unicode [(lit ''gonna'', [lit ''gon'', lit ''na''])] [lit ''gonna''] []
      [\<lparr>gr_index = 1, gr_head = 0, gr_relation = lit ''ROOT''\<rparr>]))))"
  using lexicon_repeats_relations [of "[(lit ''gonna'', [lit ''gon'', lit ''na''])]" 0 "[lit ''gonna'']"
      "[\<lparr>gr_index = 1, gr_head = 0, gr_relation = lit ''ROOT''\<rparr>]" plain_unicode "[lit ''gon'', lit ''na'']" "[]"]
  by (simp add: mwt_expansion_def hm_get_def)

end
