(* ===== verification/Spec2Isabelle.thy ===== *)
theory Spec2Isabelle
  imports Status Scheduling Domain Errors Batch_Progress Job_Lifecycle Registry Store Recovery
    Durability Crash Reach Drift Wer Host_Ledger Job_Closing Asr_Correct
    Utr_Passes Fa_Run Compare_Cases Ud_Cases Pool_Cases Mor_Cases
begin

text \<open>
  Verification of the core of batchalign3, a server that runs language-analysis jobs (transcription,
  alignment, morphosyntax and others) over corpora of CHAT transcripts and media files.

  The program. A client submits a job: a command, options and a list of files. The server
  (\<open>crates/batchalign-app\<close>) keeps every job in an in-memory registry owned by one actor task, and
  writes each change through to a SQLite database from which it rebuilds the registry at startup. A
  runner reserves host memory in a ledger file shared by all servers of the machine, validates the
  media, dispatches the files to model workers with retries, and closes the job. The text-side
  algorithms (\<open>crates/batchalign-chat-ops\<close>) post-process what the workers return; the shared
  vocabulary is in \<open>crates/batchalign-types\<close>.

  The theories, in the order of the code.

  \<^item> \<open>Prelude\<close>: Rust strings as lists of Unicode scalar values (\<open>rstr\<close>), the ASCII string
    library, wrapping and saturating integers, association-list hash maps (\<open>hmap\<close>) with the locale
    \<open>keyed_store\<close>, list lemmas.
  \<^item> \<open>Status\<close>, \<open>Scheduling\<close>, \<open>Domain\<close>, \<open>Errors\<close>, \<open>Batch_Progress\<close>: the vocabulary. Job and file
    states, retry policies and leases, released commands, language codes and paths, the error types
    with their classification and messages, the progress of batched inference.
  \<^item> \<open>Job_State\<close>, \<open>Job_Views\<close>, \<open>Job_Lifecycle\<close> (\<open>store/job\<close>): the record of a job, one definition
    per method, its projections, its events as a transition system with the invariant \<open>job_inv\<close>.
  \<^item> \<open>Registry\<close> (\<open>store/registry.rs\<close>): the commands of the actor over the map of jobs, and the
    exclusive ownership of input files by active jobs.
  \<^item> \<open>Job_DB\<close>, \<open>Store\<close>, \<open>Recovery\<close> (\<open>db\<close>, \<open>store/queries\<close>): the tables and their statements, the
    store operations that update registry, subscribers, database and counters, the startup sequence.
    \<open>Durability\<close>, \<open>Reach\<close> and \<open>Crash\<close> relate memory and database: the write-through keeps them
    equal in every reachable store, and a crash followed by a startup loses no finished file.
    \<open>Drift\<close> shows where the code leaves that relation.
  \<^item> \<open>Memory_Tier\<close>, \<open>Command_Catalog\<close>, \<open>Server_Config\<close>, \<open>Host_Policy\<close>: tiers of a host, the
    catalogue of commands, the configuration with its clamping (locale \<open>clamping\<close>) and defaults, the
    parallelism of a job.
  \<^item> \<open>Host_Memory\<close>, \<open>Host_Ledger\<close> (\<open>host_memory.rs\<close>): the ledger as a value read and written under
    an exclusive lock, each access an explicit function of what it finds; the invariants over all
    interleavings of processes (locale \<open>ledger_invariant\<close>), the planner, the polling loops.
  \<^item> \<open>Runner\<close>, \<open>Hosted_Job\<close>, \<open>Runner_Safety\<close>, \<open>Job_Closing\<close> (\<open>runner\<close>): the event sink as a record
    of operations, the file tracker, the retry loops of two dispatchers, supervision, the run of a
    job. The locale \<open>file_sink\<close> is the contract of the sink; its lemmas hold for every sink and are
    used at the store-backed one.
  \<^item> \<open>Num_Expand\<close>, \<open>Asr_Post\<close>, \<open>Asr_Correct\<close> (\<open>asr_postprocess\<close>): from the tokens of a speech
    recognizer to utterances: numbers spelled out, tokens split and timed, turns cut at pauses and at
    end punctuation, retraces marked.
  \<^item> \<open>Dp_Align\<close>, \<open>Align_Correct\<close>, \<open>Wer\<close> (\<open>dp_align\<close>, \<open>wer_conform.rs\<close>, \<open>benchmark.rs\<close>): the
    sequence aligner, its optimality, and the word error rate computed with it.
  \<^item> \<open>Fa_Types\<close>, \<open>Fa_Align\<close>, \<open>Fa_Reuse\<close> (\<open>chat-ops/fa\<close>): forced alignment. Utterances are grouped
    into audio windows, the answer of the aligner for a window is read as one timing for each of its
    words, and the timings are written back, chained and clamped. \<open>Fa_Correct\<close> shows that every answer
    reaches the word it was asked for, \<open>Fa_Times\<close> that the timings stay inside the bullets and when
    the stitching of tokens succeeds; both also show where the code falls short.
  \<^item> \<open>Utr\<close>, \<open>Utr_Correct\<close>, \<open>Utr_Passes\<close> (\<open>fa/utr.rs\<close>, \<open>fa/utr/two_pass.rs\<close>): recovery of utterance
    bullets from the tokens of a recognizer. The fast path is taken exactly when the words embed in
    the tokens in one way only; no strategy fails or touches an existing bullet.
  \<^item> \<open>Diff\<close> (\<open>chat-ops/diff\<close>): the deltas between two versions of a transcript name every utterance
    of both files once and are true of them.
  \<^item> \<open>Compare\<close>, \<open>Compare_Output\<close>, \<open>Compare_Correct\<close>, \<open>Compare_Cases\<close> (\<open>compare.rs\<close> of both crates):
    the comparison of a transcript with a gold transcript. It never panics, its counters agree with
    the tokens it writes, the gold side of every utterance is its words in order, and the window of
    an utterance is the best of its kind; particular files show where its result is wrong.
  \<^item> \<open>Ud_Lang\<close>, \<open>Ud_Mor\<close>, \<open>Ud_Map\<close>, \<open>Ud_Correct\<close>, \<open>Ud_Cases\<close> (\<open>chat-ops/nlp\<close>): the mapping
    of a dependency analysis to the items of \<open>%mor\<close> and the relations of \<open>%gra\<close>. For an analysis
    numbered as CoNLL-U asks, it does not panic, the relations form a tree with one root, and stems
    hold no separator; the cycle check is exact; clitics before their word change places with it.
    Case mapping and the class of alphanumeric characters are the argument \<open>Unicode\<close>.
  \<^item> \<open>Realign\<close>, \<open>Realign_Correct\<close> (\<open>tokenizer_realign\<close>): the tokens of the neural tokenizer joined
    back to the words of the transcript, and the language-specific overrides of their expansion.
  \<^item> \<open>Retok\<close>, \<open>Retok_Map\<close>, \<open>Retok_Correct\<close>, \<open>Retok_Exact\<close>, \<open>Retok_Cases\<close> (\<open>retokenize\<close>,
    \<open>extract.rs\<close>, \<open>inject.rs\<close>): the main tier rebuilt with the tokens of the analysis. If words and tokens
    fall into blocks the new words are exactly the tokens; equal tokens change nothing; a token across
    two words is put in twice, and a split inside an annotation loses text.
  \<^item> \<open>Stanza_Raw\<close> (\<open>morphosyntax/stanza_raw.rs\<close>): the raw JSON answer of a worker, normalized, read and
    cleaned; every word that comes out is one the mapping may expect.
  \<^item> \<open>Mor_Inject\<close>, \<open>Mor_Batch\<close>, \<open>Mor_Correct\<close>, \<open>Mor_Run\<close>, \<open>Mor_Cases\<close> (\<open>morphosyntax\<close> of both
    crates): payloads, cache, injection and the run over a window of files. The run does not panic; if
    every answer can be read a file gets what it would get alone, and one that cannot leaves the files
    of its language without tiers; cached tiers come back as they were; cache hits ignore
    retokenization and special forms, and the lexicon of multi-word tokens breaks the relations.
  \<^item> \<open>Fa_Pipeline\<close>, \<open>Fa_Run\<close> (\<open>batchalign-app/src/fa\<close>): the run of the server over a file and over an
    edited file, with reuse, cache, workers and the fallback engine; it returns, fails only as a
    worker fails, and a rerun needs no worker.
  \<^item> \<open>Pool_State\<close>, \<open>Pool_Steps\<close>, \<open>Pool_Correct\<close>, \<open>Pool_Safety\<close>, \<open>Pool_Cases\<close> (\<open>worker/pool\<close>): the
    pool of worker processes as a system of tasks, one step for each atomic operation on the shared
    groups, their queues, semaphores and counters, in every interleaving. The locale \<open>pool_quota\<close> is
    the shape of its counting invariants. A worker serves one request at a time, idle workers have
    permits, the counter counts; and runs in which permits multiply, requests spin or starve and caps
    are exceeded.

  How code is represented. Structs are records, enums datatypes, \<open>HashMap\<close> and \<open>BTreeMap\<close> are
  association lists with unique keys, f64 times and fractions are rationals, \<open>u64\<close> and \<open>i64\<close>
  arithmetic wraps or saturates as the source says. A method that mutates is a function to the new
  state. Asynchronous code is modelled at its atomic points: a registry command, a database
  statement, an access of the ledger under its lock, a call of the sink. What tokio, SQLite, the file
  system, the clock and model inference answer is an argument of the definitions. A panic is a value:
  \<open>None\<close> where a function may panic, a join error where a task does.

  Loops. \<open>for\<close> loops over collections are recursion or folds on lists. The polling loops of the
  ledger take the list of the answers they meet, so the length of the list bounds the attempts and a
  statement that the loop returns says how long a list is enough. The retry loops recurse on the
  number of attempts left, which the policy fixes. The aligner's recursion is proved terminating.

  Not modelled, and why. HTTP routes, WebSocket transport, the Temporal service and the exchange with
  worker processes are I/O over third-party libraries. Inference happens in Python. CHAT parsing and the
  syntax tree are in crates outside the repository, so code that walks that tree is out of reach
  except for its pure parts. Serialized forms (JSON, YAML, SQL text) are those of their libraries.
\<close>

end
